(* ===== verification/GoBase.thy ===== *)
theory GoBase
  imports Main "HOL-Library.Char_ord" "HOL-Library.List_Lexorder"
begin

section \<open>Go values: bytes, runes, strings, clocks and results\<close>

text \<open>
  The prelude of the development. A Go \<open>string\<close> is a sequence of bytes, so it is modelled
  by Isabelle's \<open>string\<close> (a list of 8-bit characters); \<open>len\<close> is \<open>length\<close>. The theory holds the
  parts of Go's \<open>unicode/utf8\<close>, \<open>unicode\<close> and \<open>strings\<close> packages that the sources call: rune
  decoding and encoding, \<open>TrimSpace\<close>, \<open>ToLower\<close>, \<open>EqualFold\<close>, \<open>Cut\<close>, \<open>Split\<close>, \<open>ContainsAny\<close> and
  \<open>ToValidUTF8\<close>. It also holds the representation of \<open>time.Time\<close> and of the int64 nanosecond
  timestamps of the database, and the collections of facts that the component theories extend.
\<close>

named_theorems text_simps \<open>evaluation of the Go string functions\<close>
named_theorems table_simps \<open>reading and writing of database rows\<close>
named_theorems time_simps \<open>the clock and its int64 timestamps\<close>

type_synonym byte = char
type_synonym rune = nat

subsection \<open>UTF-8\<close>

abbreviation byte_val :: "byte \<Rightarrow> nat" where
  "byte_val c \<equiv> of_char c"

definition rune_error :: rune where
  "rune_error = 65533"

definition cont_byte :: "nat \<Rightarrow> bool" where
  "cont_byte b \<longleftrightarrow> 128 \<le> b \<and> b \<le> 191"

definition rune_start :: "byte \<Rightarrow> bool" where
  "rune_start c \<longleftrightarrow> \<not> cont_byte (byte_val c)"

text \<open>
  \<open>utf8.DecodeRuneInString\<close> on the byte values: the rune and its width. An invalid or incomplete
  sequence is \<open>(RuneError, 1)\<close>, the empty string \<open>(RuneError, 0)\<close>.
\<close>

definition second_ok :: "nat \<Rightarrow> nat \<Rightarrow> bool" where
  "second_ok b0 b1 =
     (if b0 = 224 then 160 \<le> b1 \<and> b1 \<le> 191
      else if b0 = 237 then 128 \<le> b1 \<and> b1 \<le> 159
      else if b0 = 240 then 144 \<le> b1 \<and> b1 \<le> 191
      else if b0 = 244 then 128 \<le> b1 \<and> b1 \<le> 143
      else cont_byte b1)"

fun decode_vals :: "nat list \<Rightarrow> rune \<times> nat" where
  "decode_vals [] = (rune_error, 0)"
| "decode_vals (b0 # bs) =
     (if b0 < 128 then (b0, 1)
      else if 194 \<le> b0 \<and> b0 \<le> 223 then
        (case bs of
           b1 # _ \<Rightarrow> if cont_byte b1 then ((b0 - 192) * 64 + (b1 - 128), 2) else (rune_error, 1)
         | [] \<Rightarrow> (rune_error, 1))
      else if 224 \<le> b0 \<and> b0 \<le> 239 then
        (case bs of
           b1 # b2 # _ \<Rightarrow>
             if second_ok b0 b1 \<and> cont_byte b2
             then ((b0 - 224) * 4096 + (b1 - 128) * 64 + (b2 - 128), 3) else (rune_error, 1)
         | _ \<Rightarrow> (rune_error, 1))
      else if 240 \<le> b0 \<and> b0 \<le> 244 then
        (case bs of
           b1 # b2 # b3 # _ \<Rightarrow>
             if second_ok b0 b1 \<and> cont_byte b2 \<and> cont_byte b3
             then ((b0 - 240) * 262144 + (b1 - 128) * 4096 + (b2 - 128) * 64 + (b3 - 128), 4)
             else (rune_error, 1)
         | _ \<Rightarrow> (rune_error, 1))
      else (rune_error, 1))"

definition decode_rune :: "string \<Rightarrow> rune \<times> nat" where
  "decode_rune s = decode_vals (map byte_val (take 4 s))"

lemma decode_vals_width: "bs \<noteq> [] \<Longrightarrow> 1 \<le> snd (decode_vals bs) \<and> snd (decode_vals bs) \<le> length bs"
  by (cases bs) (auto split: list.splits)

lemma decode_rune_width:
  assumes "s \<noteq> []"
  shows "1 \<le> snd (decode_rune s)" and "snd (decode_rune s) \<le> length s"
proof -
  have ne: "map byte_val (take 4 s) \<noteq> []" using assms by simp
  show "1 \<le> snd (decode_rune s)" using decode_vals_width [OF ne] by (simp add: decode_rune_def)
  have "snd (decode_rune s) \<le> length (map byte_val (take 4 s))"
    using decode_vals_width [OF ne] by (simp add: decode_rune_def del: length_map)
  also have "\<dots> \<le> length s" by simp
  finally show "snd (decode_rune s) \<le> length s" .
qed

text \<open>\<open>utf8.AppendRune\<close>: surrogates and values past U+10FFFF are written as U+FFFD.\<close>

definition encode_rune :: "rune \<Rightarrow> string" where
  "encode_rune r0 =
     (let r = (if (55296 \<le> r0 \<and> r0 \<le> 57343) \<or> 1114111 < r0 then rune_error else r0) in
      map char_of
       (if r < 128 then [r]
        else if r < 2048 then [192 + r div 64, 128 + r mod 64]
        else if r < 65536 then [224 + r div 4096, 128 + r div 64 mod 64, 128 + r mod 64]
        else [240 + r div 262144, 128 + r div 4096 mod 64, 128 + r div 64 mod 64, 128 + r mod 64]))"

text \<open>The runes a \<open>for range\<close> loop sees; an invalid byte is one U+FFFD.\<close>

function runes :: "string \<Rightarrow> rune list" where
  "runes s = (if s = [] then [] else fst (decode_rune s) # runes (drop (snd (decode_rune s)) s))"
  by pat_completeness auto
termination
proof (relation "measure length", simp)
  fix s :: string
  assume "s \<noteq> []"
  then show "(drop (snd (decode_rune s)) s, s) \<in> measure length"
    using decode_rune_width(1) [of s] by auto
qed

declare runes.simps [simp del]

lemma runes_Nil [simp, text_simps]: "runes [] = []"
  by (simp add: runes.simps)

lemma decode_rune_ascii: "byte_val c < 128 \<Longrightarrow> decode_rune (c # s) = (byte_val c, 1)"
  by (simp add: decode_rune_def)

lemma runes_ascii_Cons [text_simps]: "byte_val c < 128 \<Longrightarrow> runes (c # s) = byte_val c # runes s"
  by (subst runes.simps) (simp add: decode_rune_ascii)

definition ascii :: "string \<Rightarrow> bool" where
  "ascii s \<longleftrightarrow> (\<forall>c \<in> set s. byte_val c < 128)"

lemma ascii_simps [simp]:
  "ascii []" "ascii (c # s) \<longleftrightarrow> byte_val c < 128 \<and> ascii s" "ascii (s @ t) \<longleftrightarrow> ascii s \<and> ascii t"
  by (auto simp: ascii_def)

lemma runes_ascii: "ascii s \<Longrightarrow> runes s = map byte_val s"
  by (induction s) (simp_all add: runes_ascii_Cons)

definition rune_count :: "string \<Rightarrow> nat" where
  "rune_count s = length (runes s)"

definition string_of_runes :: "rune list \<Rightarrow> string" where
  "string_of_runes rs = concat (map encode_rune rs)"

text \<open>\<open>utf8.DecodeLastRuneInString\<close>: it walks back at most four bytes to a start byte.\<close>

definition decode_last :: "string \<Rightarrow> rune \<times> nat" where
  "decode_last s =
     (if s = [] then (rune_error, 0)
      else if byte_val (last s) < 128 then (byte_val (last s), 1)
      else (case find (\<lambda>k. rune_start (s ! (length s - k))) [2 ..< Suc (min 4 (length s))] of
              None \<Rightarrow> (rune_error, 1)
            | Some k \<Rightarrow>
                (case decode_rune (drop (length s - k) s) of
                   (r, z) \<Rightarrow> if z = k then (r, z) else (rune_error, 1))))"

lemma decode_last_width:
  assumes "s \<noteq> []"
  shows "1 \<le> snd (decode_last s)"
proof (cases "byte_val (last s) < 128")
  case True
  with assms show ?thesis by (simp add: decode_last_def)
next
  case False
  show ?thesis
  proof (cases "find (\<lambda>k. rune_start (s ! (length s - k))) [2 ..< Suc (min 4 (length s))]")
    case None
    with assms False show ?thesis by (simp add: decode_last_def)
  next
    case (Some k)
    then have "k \<in> set [2 ..< Suc (min 4 (length s))]"
      by (metis find_Some_iff nth_mem)
    then have "2 \<le> k" by (auto simp: min_def split: if_splits)
    with assms False Some show ?thesis
      by (auto simp: decode_last_def simp del: upt_Suc split: prod.splits)
  qed
qed

text \<open>\<open>utf8.ValidString\<close>: no byte decodes as an error of width one.\<close>

function valid_utf8 :: "string \<Rightarrow> bool" where
  "valid_utf8 s = (if s = [] then True
     else decode_rune s \<noteq> (rune_error, 1) \<and> valid_utf8 (drop (snd (decode_rune s)) s))"
  by pat_completeness auto
termination
proof (relation "measure length", simp)
  fix s :: string
  assume "s \<noteq> []"
  then show "(drop (snd (decode_rune s)) s, s) \<in> measure length"
    using decode_rune_width(1) [of s] by auto
qed

declare valid_utf8.simps [simp del]

lemma valid_utf8_ascii: "ascii s \<Longrightarrow> valid_utf8 s"
proof (induction s)
  case Nil
  then show ?case by (simp add: valid_utf8.simps)
next
  case (Cons c s)
  then have "byte_val c < 128" and "valid_utf8 s" by simp_all
  then show ?case
    by (subst valid_utf8.simps) (simp add: decode_rune_ascii rune_error_def)
qed

subsection \<open>Case mapping and white space\<close>

text \<open>
  The simple lower-case mapping of \<open>unicode.ToLower\<close> and the simple case folding behind
  \<open>unicode.SimpleFold\<close> for code points from 128 on, as ranges \<open>(first, last, stride, offset)\<close> of
  the Unicode character database. Below 128 the mapping is the ASCII one.
\<close>

definition lower_ranges :: "(nat \<times> nat \<times> nat \<times> int) list" where
  "lower_ranges =
    [(192,214,1,32), (216,222,1,32), (256,302,2,1), (304,304,1,-199), (306,310,2,1), 
     (313,327,2,1), (330,374,2,1), (376,376,1,-121), (377,381,2,1), (385,385,1,210), 
     (386,388,2,1), (390,390,1,206), (391,391,1,1), (393,394,1,205), (395,395,1,1), 
     (398,398,1,79), (399,399,1,202), (400,400,1,203), (401,401,1,1), (403,403,1,205), 
     (404,404,1,207), (406,406,1,211), (407,407,1,209), (408,408,1,1), (412,412,1,211), 
     (413,413,1,213), (415,415,1,214), (416,420,2,1), (422,422,1,218), (423,423,1,1), 
     (425,425,1,218), (428,428,1,1), (430,430,1,218), (431,431,1,1), (433,434,1,217), 
     (435,437,2,1), (439,439,1,219), (440,440,1,1), (444,444,1,1), (452,452,1,2), (453,453,1,1), 
     (455,455,1,2), (456,456,1,1), (458,458,1,2), (459,475,2,1), (478,494,2,1), (497,497,1,2), 
     (498,500,2,1), (502,502,1,-97), (503,503,1,-56), (504,542,2,1), (544,544,1,-130), 
     (546,562,2,1), (570,570,1,10795), (571,571,1,1), (573,573,1,-163), (574,574,1,10792), 
     (577,577,1,1), (579,579,1,-195), (580,580,1,69), (581,581,1,71), (582,590,2,1), 
     (880,882,2,1), (886,886,1,1), (895,895,1,116), (902,902,1,38), (904,906,1,37), 
     (908,908,1,64), (910,911,1,63), (913,929,1,32), (931,939,1,32), (975,975,1,8), 
     (984,1006,2,1), (1012,1012,1,-60), (1015,1015,1,1), (1017,1017,1,-7), (1018,1018,1,1), 
     (1021,1023,1,-130), (1024,1039,1,80), (1040,1071,1,32), (1120,1152,2,1), (1162,1214,2,1), 
     (1216,1216,1,15), (1217,1229,2,1), (1232,1326,2,1), (1329,1366,1,48), (4256,4293,1,7264), 
     (4295,4295,1,7264), (4301,4301,1,7264), (5024,5103,1,38864), (5104,5109,1,8), 
     (7312,7354,1,-3008), (7357,7359,1,-3008), (7680,7828,2,1), (7838,7838,1,-7615), 
     (7840,7934,2,1), (7944,7951,1,-8), (7960,7965,1,-8), (7976,7983,1,-8), (7992,7999,1,-8), 
     (8008,8013,1,-8), (8025,8031,2,-8), (8040,8047,1,-8), (8072,8079,1,-8), (8088,8095,1,-8), 
     (8104,8111,1,-8), (8120,8121,1,-8), (8122,8123,1,-74), (8124,8124,1,-9), (8136,8139,1,-86), 
     (8140,8140,1,-9), (8152,8153,1,-8), (8154,8155,1,-100), (8168,8169,1,-8), (8170,8171,1,-112), 
     (8172,8172,1,-7), (8184,8185,1,-128), (8186,8187,1,-126), (8188,8188,1,-9), 
     (8486,8486,1,-7517), (8490,8490,1,-8383), (8491,8491,1,-8262), (8498,8498,1,28), 
     (8544,8559,1,16), (8579,8579,1,1), (9398,9423,1,26), (11264,11311,1,48), (11360,11360,1,1), 
     (11362,11362,1,-10743), (11363,11363,1,-3814), (11364,11364,1,-10727), (11367,11371,2,1), 
     (11373,11373,1,-10780), (11374,11374,1,-10749), (11375,11375,1,-10783), 
     (11376,11376,1,-10782), (11378,11378,1,1), (11381,11381,1,1), (11390,11391,1,-10815), 
     (11392,11490,2,1), (11499,11501,2,1), (11506,11506,1,1), (42560,42604,2,1), 
     (42624,42650,2,1), (42786,42798,2,1), (42802,42862,2,1), (42873,42875,2,1), 
     (42877,42877,1,-35332), (42878,42886,2,1), (42891,42891,1,1), (42893,42893,1,-42280), 
     (42896,42898,2,1), (42902,42920,2,1), (42922,42922,1,-42308), (42923,42923,1,-42319), 
     (42924,42924,1,-42315), (42925,42925,1,-42305), (42926,42926,1,-42308), 
     (42928,42928,1,-42258), (42929,42929,1,-42282), (42930,42930,1,-42261), (42931,42931,1,928), 
     (42932,42946,2,1), (42948,42948,1,-48), (42949,42949,1,-42307), (42950,42950,1,-35384), 
     (42951,42953,2,1), (42960,42960,1,1), (42966,42968,2,1), (42997,42997,1,1), 
     (65313,65338,1,32), (66560,66599,1,40), (66736,66771,1,40), (66928,66938,1,39), 
     (66940,66954,1,39), (66956,66962,1,39), (66964,66965,1,39), (68736,68786,1,64), 
     (71840,71871,1,32), (93760,93791,1,32), (125184,125217,1,34)]"

definition fold_ranges :: "(nat \<times> nat \<times> nat \<times> int) list" where
  "fold_ranges =
    [(181,181,1,775), (192,214,1,32), (216,222,1,32), (256,302,2,1), (306,310,2,1), (313,327,2,1), 
     (330,374,2,1), (376,376,1,-121), (377,381,2,1), (383,383,1,-268), (385,385,1,210), 
     (386,388,2,1), (390,390,1,206), (391,391,1,1), (393,394,1,205), (395,395,1,1), 
     (398,398,1,79), (399,399,1,202), (400,400,1,203), (401,401,1,1), (403,403,1,205), 
     (404,404,1,207), (406,406,1,211), (407,407,1,209), (408,408,1,1), (412,412,1,211), 
     (413,413,1,213), (415,415,1,214), (416,420,2,1), (422,422,1,218), (423,423,1,1), 
     (425,425,1,218), (428,428,1,1), (430,430,1,218), (431,431,1,1), (433,434,1,217), 
     (435,437,2,1), (439,439,1,219), (440,440,1,1), (444,444,1,1), (452,452,1,2), (453,453,1,1), 
     (455,455,1,2), (456,456,1,1), (458,458,1,2), (459,475,2,1), (478,494,2,1), (497,497,1,2), 
     (498,500,2,1), (502,502,1,-97), (503,503,1,-56), (504,542,2,1), (544,544,1,-130), 
     (546,562,2,1), (570,570,1,10795), (571,571,1,1), (573,573,1,-163), (574,574,1,10792), 
     (577,577,1,1), (579,579,1,-195), (580,580,1,69), (581,581,1,71), (582,590,2,1), 
     (837,837,1,116), (880,882,2,1), (886,886,1,1), (895,895,1,116), (902,902,1,38), 
     (904,906,1,37), (908,908,1,64), (910,911,1,63), (913,929,1,32), (931,939,1,32), 
     (962,962,1,1), (975,975,1,8), (976,976,1,-30), (977,977,1,-25), (981,981,1,-15), 
     (982,982,1,-22), (984,1006,2,1), (1008,1008,1,-54), (1009,1009,1,-48), (1012,1012,1,-60), 
     (1013,1013,1,-64), (1015,1015,1,1), (1017,1017,1,-7), (1018,1018,1,1), (1021,1023,1,-130), 
     (1024,1039,1,80), (1040,1071,1,32), (1120,1152,2,1), (1162,1214,2,1), (1216,1216,1,15), 
     (1217,1229,2,1), (1232,1326,2,1), (1329,1366,1,48), (4256,4293,1,7264), (4295,4295,1,7264), 
     (4301,4301,1,7264), (5112,5117,1,-8), (7296,7296,1,-6222), (7297,7297,1,-6221), 
     (7298,7298,1,-6212), (7299,7300,1,-6210), (7301,7301,1,-6211), (7302,7302,1,-6204), 
     (7303,7303,1,-6180), (7304,7304,1,35267), (7312,7354,1,-3008), (7357,7359,1,-3008), 
     (7680,7828,2,1), (7835,7835,1,-58), (7838,7838,1,-7615), (7840,7934,2,1), (7944,7951,1,-8), 
     (7960,7965,1,-8), (7976,7983,1,-8), (7992,7999,1,-8), (8008,8013,1,-8), (8025,8031,2,-8), 
     (8040,8047,1,-8), (8072,8079,1,-8), (8088,8095,1,-8), (8104,8111,1,-8), (8120,8121,1,-8), 
     (8122,8123,1,-74), (8124,8124,1,-9), (8126,8126,1,-7173), (8136,8139,1,-86), 
     (8140,8140,1,-9), (8152,8153,1,-8), (8154,8155,1,-100), (8168,8169,1,-8), (8170,8171,1,-112), 
     (8172,8172,1,-7), (8184,8185,1,-128), (8186,8187,1,-126), (8188,8188,1,-9), 
     (8486,8486,1,-7517), (8490,8490,1,-8383), (8491,8491,1,-8262), (8498,8498,1,28), 
     (8544,8559,1,16), (8579,8579,1,1), (9398,9423,1,26), (11264,11311,1,48), (11360,11360,1,1), 
     (11362,11362,1,-10743), (11363,11363,1,-3814), (11364,11364,1,-10727), (11367,11371,2,1), 
     (11373,11373,1,-10780), (11374,11374,1,-10749), (11375,11375,1,-10783), 
     (11376,11376,1,-10782), (11378,11378,1,1), (11381,11381,1,1), (11390,11391,1,-10815), 
     (11392,11490,2,1), (11499,11501,2,1), (11506,11506,1,1), (42560,42604,2,1), 
     (42624,42650,2,1), (42786,42798,2,1), (42802,42862,2,1), (42873,42875,2,1), 
     (42877,42877,1,-35332), (42878,42886,2,1), (42891,42891,1,1), (42893,42893,1,-42280), 
     (42896,42898,2,1), (42902,42920,2,1), (42922,42922,1,-42308), (42923,42923,1,-42319), 
     (42924,42924,1,-42315), (42925,42925,1,-42305), (42926,42926,1,-42308), 
     (42928,42928,1,-42258), (42929,42929,1,-42282), (42930,42930,1,-42261), (42931,42931,1,928), 
     (42932,42946,2,1), (42948,42948,1,-48), (42949,42949,1,-42307), (42950,42950,1,-35384), 
     (42951,42953,2,1), (42960,42960,1,1), (42966,42968,2,1), (42997,42997,1,1), 
     (43888,43967,1,-38864), (65313,65338,1,32), (66560,66599,1,40), (66736,66771,1,40), 
     (66928,66938,1,39), (66940,66954,1,39), (66956,66962,1,39), (66964,66965,1,39), 
     (68736,68786,1,64), (71840,71871,1,32), (93760,93791,1,32), (125184,125217,1,34)]"

definition in_case_range :: "rune \<Rightarrow> nat \<times> nat \<times> nat \<times> int \<Rightarrow> bool" where
  "in_case_range r x = (case x of (lo, hi, st, d) \<Rightarrow> lo \<le> r \<and> r \<le> hi \<and> (r - lo) mod st = 0)"

definition map_case :: "(nat \<times> nat \<times> nat \<times> int) list \<Rightarrow> rune \<Rightarrow> rune" where
  "map_case table r =
     (if r < 128 then (if 65 \<le> r \<and> r \<le> 90 then r + 32 else r)
      else (case find (in_case_range r) table of
              None \<Rightarrow> r
            | Some (lo, hi, st, d) \<Rightarrow> nat (int r + d)))"

definition rune_lower :: "rune \<Rightarrow> rune" where
  "rune_lower r = map_case lower_ranges r"

definition rune_fold :: "rune \<Rightarrow> rune" where
  "rune_fold r = map_case fold_ranges r"

definition lower_byte :: "byte \<Rightarrow> byte" where
  "lower_byte c = (if 65 \<le> byte_val c \<and> byte_val c \<le> 90 then char_of (byte_val c + 32) else c)"

text \<open>\<open>strings.ToLower\<close>: byte-wise on ASCII strings, rune-wise (\<open>strings.Map\<close>) otherwise.\<close>

definition to_lower :: "string \<Rightarrow> string" where
  "to_lower s =
     (if ascii s then map lower_byte s else string_of_runes (map rune_lower (runes s)))"

text \<open>\<open>strings.EqualFold\<close>: rune by rune up to simple case folding.\<close>

definition equal_fold :: "string \<Rightarrow> string \<Rightarrow> bool" where
  "equal_fold s t \<longleftrightarrow> map rune_fold (runes s) = map rune_fold (runes t)"

text \<open>\<open>unicode.IsSpace\<close>.\<close>

definition is_space :: "rune \<Rightarrow> bool" where
  "is_space r \<longleftrightarrow>
     (9 \<le> r \<and> r \<le> 13) \<or> r = 32 \<or> r = 133 \<or> r = 160 \<or> r = 5760 \<or> (8192 \<le> r \<and> r \<le> 8202) \<or>
     r = 8232 \<or> r = 8233 \<or> r = 8239 \<or> r = 8287 \<or> r = 12288"

function trim_left :: "string \<Rightarrow> string" where
  "trim_left s = (if s = [] then []
     else if is_space (fst (decode_rune s)) then trim_left (drop (snd (decode_rune s)) s) else s)"
  by pat_completeness auto
termination
proof (relation "measure length", simp)
  fix s :: string
  assume "s \<noteq> []"
  then show "(drop (snd (decode_rune s)) s, s) \<in> measure length"
    using decode_rune_width(1) [of s] by auto
qed

function trim_right :: "string \<Rightarrow> string" where
  "trim_right s = (if s = [] then []
     else if is_space (fst (decode_last s))
       then trim_right (take (length s - snd (decode_last s)) s) else s)"
  by pat_completeness auto
termination
proof (relation "measure length", simp)
  fix s :: string
  assume "s \<noteq> []"
  then show "(take (length s - snd (decode_last s)) s, s) \<in> measure length"
    using decode_last_width [of s] by (cases s) auto
qed

declare trim_left.simps [simp del] trim_right.simps [simp del]

text \<open>\<open>strings.TrimSpace\<close>.\<close>

definition trim_space :: "string \<Rightarrow> string" where
  "trim_space s = trim_right (trim_left s)"

lemma trim_left_Nil [simp]: "trim_left [] = []"
  by (simp add: trim_left.simps)

lemma trim_right_Nil [simp]: "trim_right [] = []"
  by (simp add: trim_right.simps)

lemma trim_space_Nil [simp, text_simps]: "trim_space [] = []"
  by (simp add: trim_space_def)

lemma trim_left_suffix: "\<exists>p. s = p @ trim_left s"
proof (induction s rule: trim_left.induct)
  case (1 s)
  show ?case
  proof (cases "s = [] \<or> \<not> is_space (fst (decode_rune s))")
    case True
    then show ?thesis by (subst trim_left.simps) auto
  next
    case False
    with "1.IH" obtain p where p: "drop (snd (decode_rune s)) s = p @ trim_left (drop (snd (decode_rune s)) s)"
      by blast
    have step: "trim_left s = trim_left (drop (snd (decode_rune s)) s)"
      using False by (subst trim_left.simps) simp
    have "s = take (snd (decode_rune s)) s @ drop (snd (decode_rune s)) s" by simp
    also have "\<dots> = (take (snd (decode_rune s)) s @ p) @ trim_left s"
      using p step by simp
    finally have "s = (take (snd (decode_rune s)) s @ p) @ trim_left s" .
    then show ?thesis by blast
  qed
qed

lemma trim_right_prefix: "\<exists>q. s = trim_right s @ q"
proof (induction s rule: trim_right.induct)
  case (1 s)
  show ?case
  proof (cases "s = [] \<or> \<not> is_space (fst (decode_last s))")
    case True
    then show ?thesis by (subst trim_right.simps) auto
  next
    case False
    let ?n = "length s - snd (decode_last s)"
    from False "1.IH" obtain q where q: "take ?n s = trim_right (take ?n s) @ q" by blast
    have step: "trim_right s = trim_right (take ?n s)"
      using False by (subst trim_right.simps) simp
    have "s = take ?n s @ drop ?n s" by simp
    also have "\<dots> = (trim_right s @ q) @ drop ?n s"
      using q step by simp
    finally have "s = trim_right s @ (q @ drop ?n s)" by simp
    then show ?thesis by blast
  qed
qed

text \<open>Trimming never invents bytes: the result is a contiguous part of the argument.\<close>

lemma trim_space_part: "\<exists>p q. s = p @ trim_space s @ q"
proof -
  obtain p where p: "s = p @ trim_left s" using trim_left_suffix by blast
  obtain q where q: "trim_left s = trim_right (trim_left s) @ q" using trim_right_prefix by blast
  from p q show ?thesis unfolding trim_space_def by metis
qed

lemma length_trim_space: "length (trim_space s) \<le> length s"
proof -
  obtain p q where "s = p @ trim_space s @ q" using trim_space_part by blast
  then have "length s = length p + length (trim_space s) + length q"
    by (metis length_append add.assoc)
  then show ?thesis by simp
qed

lemma set_trim_space: "set (trim_space s) \<subseteq> set s"
proof -
  obtain p q where "s = p @ trim_space s @ q" using trim_space_part by blast
  then have "set s = set p \<union> set (trim_space s) \<union> set q"
    by (metis set_append sup_assoc)
  then show ?thesis by blast
qed

lemma ascii_trim_space: "ascii s \<Longrightarrow> ascii (trim_space s)"
  using set_trim_space by (auto simp: ascii_def)


text \<open>
  A valid decoding of a prefix is the decoding of the whole string; in particular the bytes after
  a leading white-space rune do not matter. This makes \<open>TrimSpace\<close> idempotent.
\<close>

lemma decode_vals_append:
  "decode_vals bs \<noteq> (rune_error, 1) \<Longrightarrow> bs \<noteq> [] \<Longrightarrow> decode_vals (bs @ cs) = decode_vals bs"
  by (cases bs) (auto split: list.splits if_splits)

lemma not_space_rune_error [simp]: "\<not> is_space rune_error"
  by (simp add: is_space_def rune_error_def)

lemma decode_rune_append:
  assumes "t \<noteq> []" and "decode_rune t \<noteq> (rune_error, 1)"
  shows "decode_rune (t @ q) = decode_rune t"
proof -
  have "map byte_val (take 4 (t @ q)) = map byte_val (take 4 t) @ map byte_val (take (4 - length t) q)"
    by simp
  moreover have "map byte_val (take 4 t) \<noteq> []" using assms(1) by simp
  ultimately show ?thesis
    using assms(2) decode_vals_append unfolding decode_rune_def by metis
qed

lemma trim_left_stop: "s = [] \<or> \<not> is_space (fst (decode_rune s)) \<Longrightarrow> trim_left s = s"
  by (subst trim_left.simps) auto

lemma trim_left_head: "trim_left s = [] \<or> \<not> is_space (fst (decode_rune (trim_left s)))"
proof (induction s rule: trim_left.induct)
  case (1 s)
  show ?case
  proof (cases "s = [] \<or> \<not> is_space (fst (decode_rune s))")
    case True
    then show ?thesis by (auto simp: trim_left_stop)
  next
    case False
    then have "trim_left s = trim_left (drop (snd (decode_rune s)) s)"
      by (subst trim_left.simps) simp
    with False "1.IH" show ?thesis by simp
  qed
qed

lemma trim_right_last: "trim_right s = [] \<or> \<not> is_space (fst (decode_last (trim_right s)))"
proof (induction s rule: trim_right.induct)
  case (1 s)
  show ?case
  proof (cases "s = [] \<or> \<not> is_space (fst (decode_last s))")
    case True
    then have "trim_right s = s" by (subst trim_right.simps) auto
    with True show ?thesis by auto
  next
    case False
    then have "trim_right s = trim_right (take (length s - snd (decode_last s)) s)"
      by (subst trim_right.simps) simp
    with False "1.IH" show ?thesis by simp
  qed
qed

lemma trim_right_idem: "trim_right (trim_right s) = trim_right s"
  using trim_right_last [of s] by (subst trim_right.simps) auto

lemma trim_space_idem [simp, text_simps]: "trim_space (trim_space s) = trim_space s"
proof -
  let ?u = "trim_left s" and ?t = "trim_right (trim_left s)"
  have "?t = [] \<or> \<not> is_space (fst (decode_rune ?t))"
  proof (rule ccontr)
    assume "\<not> ?thesis"
    then have ne: "?t \<noteq> []" and sp: "is_space (fst (decode_rune ?t))" by auto
    from sp have "decode_rune ?t \<noteq> (rune_error, 1)" by auto
    moreover obtain q where "?u = ?t @ q" using trim_right_prefix by blast
    ultimately have "decode_rune ?u = decode_rune ?t" using decode_rune_append [OF ne] by metis
    with sp trim_left_head [of s] \<open>?u = ?t @ q\<close> ne show False by auto
  qed
  then have "trim_left ?t = ?t" by (rule trim_left_stop)
  then show ?thesis by (simp add: trim_space_def trim_right_idem)
qed

text \<open>On ASCII strings the three trimming loops are the usual list functions.\<close>

abbreviation space_byte :: "byte \<Rightarrow> bool" where
  "space_byte c \<equiv> is_space (byte_val c)"

lemma trim_left_ascii: "ascii s \<Longrightarrow> trim_left s = dropWhile space_byte s"
proof (induction s)
  case (Cons c s)
  then show ?case by (subst trim_left.simps) (simp add: decode_rune_ascii)
qed simp

lemma decode_last_ascii: "ascii (s @ [c]) \<Longrightarrow> decode_last (s @ [c]) = (byte_val c, 1)"
  by (simp add: decode_last_def)

lemma trim_right_ascii: "ascii s \<Longrightarrow> trim_right s = rev (dropWhile space_byte (rev s))"
proof (induction s rule: rev_induct)
  case (snoc c s)
  then show ?case by (subst trim_right.simps) (simp add: decode_last_ascii)
qed simp

lemma trim_space_ascii [text_simps]:
  "ascii s \<Longrightarrow> trim_space s = rev (dropWhile space_byte (rev (dropWhile space_byte s)))"
proof -
  assume a: "ascii s"
  then have "ascii (dropWhile space_byte s)" by (auto simp: ascii_def dest: set_dropWhileD)
  with a show ?thesis by (simp add: trim_space_def trim_left_ascii trim_right_ascii)
qed

text \<open>Evaluation trims ASCII text without the larger code points.\<close>

lemma is_space_code [code]:
  "is_space r = (if r < 128 then (9 \<le> r \<and> r \<le> 13) \<or> r = 32
     else r = 133 \<or> r = 160 \<or> r = 5760 \<or> (8192 \<le> r \<and> r \<le> 8202) \<or> r = 8232 \<or> r = 8233 \<or> r = 8239 \<or> r = 8287 \<or> r = 12288)"
  by (auto simp: is_space_def)

lemma trim_space_code [code]:
  "trim_space s = (if ascii s then rev (dropWhile space_byte (rev (dropWhile space_byte s))) else trim_right (trim_left s))"
  using trim_space_ascii by (simp add: trim_space_def)

text \<open>\<open>hex.EncodeToString\<close>.\<close>

definition hex_digit :: "nat \<Rightarrow> byte" where
  "hex_digit n = char_of (if n < 10 then 48 + n else 87 + n)"

definition hex_encode :: "string \<Rightarrow> string" where
  "hex_encode s = concat (map (\<lambda>c. [hex_digit (byte_val c div 16), hex_digit (byte_val c mod 16)]) s)"

lemma length_hex_encode [simp]: "length (hex_encode s) = 2 * length s"
  by (induction s) (simp_all add: hex_encode_def)

subsection \<open>Searching and splitting\<close>

definition has_prefix :: "string \<Rightarrow> string \<Rightarrow> bool" where
  "has_prefix s p \<longleftrightarrow> take (length p) s = p"

definition has_suffix :: "string \<Rightarrow> string \<Rightarrow> bool" where
  "has_suffix s q \<longleftrightarrow> length q \<le> length s \<and> drop (length s - length q) s = q"

definition trim_prefix :: "string \<Rightarrow> string \<Rightarrow> string" where
  "trim_prefix s p = (if has_prefix s p then drop (length p) s else s)"

definition trim_suffix :: "string \<Rightarrow> string \<Rightarrow> string" where
  "trim_suffix s q = (if has_suffix s q then take (length s - length q) s else s)"

text \<open>\<open>strings.Index\<close>: the least offset at which the pattern occurs.\<close>

fun str_index :: "string \<Rightarrow> string \<Rightarrow> nat option" where
  "str_index [] p = (if p = [] then Some 0 else None)"
| "str_index (c # s) p =
     (if has_prefix (c # s) p then Some 0 else map_option Suc (str_index s p))"

definition str_contains :: "string \<Rightarrow> string \<Rightarrow> bool" where
  "str_contains s p \<longleftrightarrow> str_index s p \<noteq> None"

text \<open>\<open>strings.ContainsAny\<close> with an ASCII character set.\<close>

definition contains_any :: "string \<Rightarrow> string \<Rightarrow> bool" where
  "contains_any s cs \<longleftrightarrow> list_ex (\<lambda>c. c \<in> set cs) s"

text \<open>\<open>strings.Cut\<close> and \<open>strings.Split\<close> at a one-byte separator.\<close>

fun cut :: "byte \<Rightarrow> string \<Rightarrow> string \<times> string \<times> bool" where
  "cut d [] = ([], [], False)"
| "cut d (c # s) = (if c = d then ([], s, True) else (case cut d s of (a, b, f) \<Rightarrow> (c # a, b, f)))"

fun split_on :: "byte \<Rightarrow> string \<Rightarrow> string list" where
  "split_on d [] = [[]]"
| "split_on d (c # s) =
     (if c = d then [] # split_on d s
      else (case split_on d s of [] \<Rightarrow> [[c]] | w # ws \<Rightarrow> (c # w) # ws))"

definition join :: "string \<Rightarrow> string list \<Rightarrow> string" where
  "join sep ws = (case ws of [] \<Rightarrow> [] | w # vs \<Rightarrow> w @ concat (map (\<lambda>v. sep @ v) vs))"

fun replace_byte :: "byte \<Rightarrow> string \<Rightarrow> string \<Rightarrow> string" where
  "replace_byte d new [] = []"
| "replace_byte d new (c # s) = (if c = d then new else [c]) @ replace_byte d new s"

lemma split_on_not_Nil [simp]: "split_on d s \<noteq> []"
  by (induction s) (auto split: list.splits)

lemma cut_found: "cut d s = (a, b, True) \<Longrightarrow> s = a @ d # b \<and> d \<notin> set a"
  by (induction s arbitrary: a b) (auto split: if_splits prod.splits)

lemma cut_not_found: "cut d s = (a, b, False) \<Longrightarrow> a = s \<and> b = [] \<and> d \<notin> set s"
  by (induction s arbitrary: a b) (auto split: if_splits prod.splits)

lemma has_prefix_iff: "has_prefix s p \<longleftrightarrow> (\<exists>t. s = p @ t)"
  by (auto simp: has_prefix_def) (metis append_take_drop_id)

subsection \<open>Text that is safe to store\<close>

definition replacement_char :: string where
  "replacement_char = encode_rune rune_error"

text \<open>\<open>strings.ToValidUTF8\<close> with U+FFFD: a run of invalid bytes becomes one replacement.\<close>

function to_valid_from :: "bool \<Rightarrow> string \<Rightarrow> string" where
  "to_valid_from bad s = (if s = [] then []
     else if decode_rune s = (rune_error, 1)
       then (if bad then [] else replacement_char) @ to_valid_from True (drop 1 s)
       else take (snd (decode_rune s)) s @ to_valid_from False (drop (snd (decode_rune s)) s))"
  by pat_completeness auto
termination
proof (relation "measure (\<lambda>(b, s). length s)", simp, goal_cases)
  case (1 bad s)
  then show ?case by (cases s) auto
next
  case (2 bad s)
  then show ?case using decode_rune_width(1) [of s] by auto
qed

declare to_valid_from.simps [simp del]

text \<open>The equations that evaluation uses: ASCII bytes are kept without decoding.\<close>

lemma to_valid_from_code [code]:
  "to_valid_from bad [] = []"
  "to_valid_from bad (c # s) =
     (if byte_val c < 128 then c # to_valid_from False s
      else if decode_rune (c # s) = (rune_error, 1)
        then (if bad then [] else replacement_char) @ to_valid_from True s
        else take (snd (decode_rune (c # s))) (c # s) @ to_valid_from False (drop (snd (decode_rune (c # s))) (c # s)))"
proof -
  show "to_valid_from bad [] = []" by (simp add: to_valid_from.simps)
  show "to_valid_from bad (c # s) =
     (if byte_val c < 128 then c # to_valid_from False s
      else if decode_rune (c # s) = (rune_error, 1)
        then (if bad then [] else replacement_char) @ to_valid_from True s
        else take (snd (decode_rune (c # s))) (c # s) @ to_valid_from False (drop (snd (decode_rune (c # s))) (c # s)))"
  proof (cases "byte_val c < 128")
    case True
    then show ?thesis by (subst to_valid_from.simps) (simp add: decode_rune_ascii rune_error_def)
  next
    case False
    then show ?thesis by (subst to_valid_from.simps) simp
  qed
qed

definition to_valid_utf8 :: "string \<Rightarrow> string" where
  "to_valid_utf8 s = to_valid_from False s"

lemma to_valid_utf8_valid: "valid_utf8 s \<Longrightarrow> to_valid_from b s = s"
proof (induction s arbitrary: b rule: valid_utf8.induct)
  case (1 s)
  show ?case
  proof (cases "s = []")
    case True
    then show ?thesis by (simp add: to_valid_from.simps)
  next
    case False
    with "1.prems" have ok: "decode_rune s \<noteq> (rune_error, 1)"
      and rest: "valid_utf8 (drop (snd (decode_rune s)) s)"
      by (simp_all add: valid_utf8.simps [of s])
    from "1.IH" [OF False rest]
    have "to_valid_from False (drop (snd (decode_rune s)) s) = drop (snd (decode_rune s)) s" .
    with False ok show ?thesis by (subst to_valid_from.simps) simp
  qed
qed

text \<open>
  \<open>json.Marshal\<close> of a string: quotes, backslashes, control characters, the three HTML characters,
  U+2028 and U+2029 are escaped, and a byte that is not UTF-8 becomes the escape of U+FFFD.
\<close>

definition json_escape :: "string \<Rightarrow> string" where
  "json_escape s = CHR 0x5C # s"

definition json_byte :: "byte \<Rightarrow> string" where
  "json_byte c =
     (let v = byte_val c in
      if v = 34 \<or> v = 92 then json_escape [c]
      else if v = 8 then json_escape ''b''
      else if v = 12 then json_escape ''f''
      else if v = 10 then json_escape ''n''
      else if v = 13 then json_escape ''r''
      else if v = 9 then json_escape ''t''
      else if v < 32 \<or> v = 60 \<or> v = 62 \<or> v = 38 then json_escape (''u00'' @ hex_encode [c])
      else [c])"

function json_chars :: "string \<Rightarrow> string" where
  "json_chars s = (if s = [] then []
     else (let r = fst (decode_rune s); w = snd (decode_rune s) in
       (if decode_rune s = (rune_error, 1) then json_escape ''ufffd''
        else if r < 128 then json_byte (hd s)
        else if r = 8232 then json_escape ''u2028''
        else if r = 8233 then json_escape ''u2029''
        else take w s) @ json_chars (drop w s)))"
  by pat_completeness auto
termination
proof (relation "measure length", simp)
  fix s :: string and r w
  assume "s \<noteq> []" "w = snd (decode_rune s)"
  then show "(drop w s, s) \<in> measure length"
    using decode_rune_width(1) [of s] by auto
qed

declare json_chars.simps [simp del]

definition json_string :: "string \<Rightarrow> string" where
  "json_string s = CHR 0x22 # json_chars s @ [CHR 0x22]"

definition json_field :: "string \<Rightarrow> string \<Rightarrow> string" where
  "json_field name text = json_string name @ '':'' @ text"

text \<open>\<open>strconv.FormatInt\<close> in base ten.\<close>

fun dec_string :: "nat \<Rightarrow> string" where
  "dec_string n = (if n < 10 then [char_of (48 + n)] else dec_string (n div 10) @ [char_of (48 + n mod 10)])"

declare dec_string.simps [simp del]

definition format_int :: "int \<Rightarrow> string" where
  "format_int i = (if i < 0 then ''-'' @ dec_string (nat (- i)) else dec_string (nat i))"

subsection \<open>Time\<close>

text \<open>
  A \<open>time.Time\<close> is its number of nanoseconds since the Unix epoch; the zero value of the type lies
  in year 1. \<open>UnixNano\<close> computes in int64 and wraps outside 1678--2262, so the database column
  of an instant is \<open>wrap64\<close> of it.
\<close>

type_synonym time = int
type_synonym timestamp = int
type_synonym duration = int

definition zero_time :: time where
  "zero_time = - 62135596800000000000"

definition is_zero_time :: "time \<Rightarrow> bool" where
  "is_zero_time t \<longleftrightarrow> t = zero_time"

definition wrap64 :: "int \<Rightarrow> int" where
  "wrap64 x = (x + 9223372036854775808) mod 18446744073709551616 - 9223372036854775808"

definition to_timestamp :: "time \<Rightarrow> timestamp" where
  "to_timestamp t = wrap64 t"

definition time_of_timestamp :: "timestamp \<Rightarrow> time" where
  "time_of_timestamp v = v"

abbreviation second :: duration where "second \<equiv> 1000000000"
abbreviation minute :: duration where "minute \<equiv> 60000000000"
abbreviation hour :: duration where "hour \<equiv> 3600000000000"

definition int64 :: "int \<Rightarrow> bool" where
  "int64 x \<longleftrightarrow> - 9223372036854775808 \<le> x \<and> x < 9223372036854775808"

lemma int64_wrap64 [simp, time_simps]: "int64 (wrap64 x)"
  using pos_mod_bound [of 18446744073709551616 "x + 9223372036854775808"]
    pos_mod_sign [of 18446744073709551616 "x + 9223372036854775808"]
  unfolding int64_def wrap64_def by linarith

lemma wrap64_id [simp, time_simps]: "int64 x \<Longrightarrow> wrap64 x = x"
  by (simp add: int64_def wrap64_def mod_pos_pos_trivial)

lemma to_timestamp_id [simp, time_simps]: "int64 t \<Longrightarrow> to_timestamp t = t"
  by (simp add: to_timestamp_def)

lemma int64_to_timestamp [simp, time_simps]: "int64 (to_timestamp t)"
  by (simp add: to_timestamp_def)

lemma time_of_timestamp_id [simp, time_simps]: "time_of_timestamp v = v"
  by (simp add: time_of_timestamp_def)

lemma not_zero_int64 [simp, time_simps]: "int64 t \<Longrightarrow> \<not> is_zero_time t"
  by (auto simp: int64_def is_zero_time_def zero_time_def)

lemma timestamp_roundtrip: "int64 t \<Longrightarrow> time_of_timestamp (to_timestamp t) = t"
  by simp

text \<open>A reading of the wall clock between 1970 and 2200, where no sum with a lease overflows.\<close>

definition sane_clock :: "time \<Rightarrow> bool" where
  "sane_clock t \<longleftrightarrow> 0 \<le> t \<and> t \<le> 7258118400000000000"

lemma sane_clock_int64 [simp, time_simps]: "sane_clock t \<Longrightarrow> int64 t"
  by (simp add: sane_clock_def int64_def)

lemma sane_clock_add [time_simps]:
  "sane_clock t \<Longrightarrow> 0 \<le> d \<Longrightarrow> d \<le> 24 * hour \<Longrightarrow> int64 (t + d)"
  by (simp add: sane_clock_def int64_def)

subsection \<open>Parsing integers\<close>

text \<open>\<open>strconv.ParseInt(s, 10, 64)\<close>: an optional sign and at least one digit, in the int64 range.\<close>

definition parse_digits :: "string \<Rightarrow> int option" where
  "parse_digits s =
     (if s \<noteq> [] \<and> list_all (\<lambda>c. 48 \<le> byte_val c \<and> byte_val c \<le> 57) s
      then Some (foldl (\<lambda>n c. 10 * n + (int (byte_val c) - 48)) 0 s) else None)"

definition parse_int64 :: "string \<Rightarrow> int option" where
  "parse_int64 s =
     (let n = (case s of
                 c # t \<Rightarrow> if c = CHR ''-'' then map_option uminus (parse_digits t)
                          else if c = CHR ''+'' then parse_digits t else parse_digits s
               | [] \<Rightarrow> None)
      in case n of None \<Rightarrow> None | Some i \<Rightarrow> if int64 i then Some i else None)"

end
