(* ===== verification/AppleErrors.thy ===== *)
theory AppleErrors
  imports GoBase
begin

section \<open>Typed Apple errors (internal/apple/errors.go)\<close>

text \<open>
  A Go error value is a finite tree: \<open>apple.Error\<close> wraps its cause (or, without one, its kind),
  \<open>fmt.Errorf\<close> with one verb wraps one error and \<open>errors.Join\<close> a list. The functions here walk that
  tree for the retry hint and for the throttle classification, which decide when a deletion is put
  off instead of failed.
\<close>

subsection \<open>Error trees\<close>

datatype apple_kind =
    ErrInvalidConfig
  | ErrInvalidSession
  | ErrAuthentication
  | ErrTwoFactorCode
  | ErrTermsRequired
  | ErrResponseTooLarge
  | ErrInvalidResponse
  | ErrService

record apple_error =
  ae_Op :: string
  ae_Kind :: "apple_kind option"
  ae_StatusCode :: int
  ae_ServiceCode :: string
  ae_ServiceRejected :: bool
  ae_Retryable :: bool
  ae_RetryAfter :: duration

datatype go_error =
    AppleErr apple_error "go_error option"
  | WrapErr string go_error
  | JoinErr "go_error list"
  | KindErr apple_kind
  | PlainErr string

definition hmeRateLimitCodeBatch :: string where
  "hmeRateLimitCodeBatch = ''-41015''"

definition retryableStatus :: "int \<Rightarrow> bool" where
  "retryableStatus status \<longleftrightarrow> status = 429 \<or> 500 \<le> status"

definition operationError :: "string \<Rightarrow> apple_kind \<Rightarrow> int \<Rightarrow> go_error option \<Rightarrow> go_error" where
  "operationError op kind status cause =
     AppleErr \<lparr>ae_Op = op, ae_Kind = Some kind, ae_StatusCode = status, ae_ServiceCode = [],
        ae_ServiceRejected = False,
        ae_Retryable = (retryableStatus status \<or> (status = 0 \<and> kind = ErrService \<and> cause \<noteq> None)),
        ae_RetryAfter = 0\<rparr> cause"

text \<open>\<open>Unwrap\<close>: the wrapped errors of a node, in order.\<close>

fun go_unwrap :: "go_error \<Rightarrow> go_error list" where
  "go_unwrap (AppleErr a (Some e)) = [e]"
| "go_unwrap (AppleErr a None) = (case ae_Kind a of None \<Rightarrow> [] | Some k \<Rightarrow> [KindErr k])"
| "go_unwrap (WrapErr _ e) = [e]"
| "go_unwrap (JoinErr es) = es"
| "go_unwrap (KindErr _) = []"
| "go_unwrap (PlainErr _) = []"

fun RetryDelay :: "go_error \<Rightarrow> duration" where
  "RetryDelay (AppleErr a cause) =
     max (max 0 (ae_RetryAfter a)) (case cause of None \<Rightarrow> 0 | Some e \<Rightarrow> RetryDelay e)"
| "RetryDelay (WrapErr _ e) = max 0 (RetryDelay e)"
| "RetryDelay (JoinErr es) = fold (\<lambda>d acc. max acc d) (map RetryDelay es) 0"
| "RetryDelay (KindErr _) = 0"
| "RetryDelay (PlainErr _) = 0"

definition isRateLimitedError :: "apple_error \<Rightarrow> bool" where
  "isRateLimitedError a \<longleftrightarrow>
     ae_StatusCode a = 429 \<or> trim_space (ae_ServiceCode a) = hmeRateLimitCodeBatch"

fun IsRateLimited :: "go_error \<Rightarrow> bool" where
  "IsRateLimited (AppleErr a cause) \<longleftrightarrow>
     isRateLimitedError a \<or> (case cause of None \<Rightarrow> False | Some e \<Rightarrow> IsRateLimited e)"
| "IsRateLimited (WrapErr _ e) \<longleftrightarrow> IsRateLimited e"
| "IsRateLimited (JoinErr es) \<longleftrightarrow> list_ex (\<lambda>b. b) (map IsRateLimited es)"
| "IsRateLimited (KindErr _) \<longleftrightarrow> False"
| "IsRateLimited (PlainErr _) \<longleftrightarrow> False"

text \<open>\<open>errors.As\<close> with an \<open>*apple.Error\<close> target: the first Apple error in depth-first order.\<close>

fun as_apple :: "go_error \<Rightarrow> apple_error option" where
  "as_apple (AppleErr a _) = Some a"
| "as_apple (WrapErr _ e) = as_apple e"
| "as_apple (JoinErr es) =
     (case dropWhile (\<lambda>r. r = None) (map as_apple es) of [] \<Rightarrow> None | r # _ \<Rightarrow> r)"
| "as_apple (KindErr _) = None"
| "as_apple (PlainErr _) = None"

text \<open>The delay-seconds form of \<open>parseRetryAfter\<close>; \<open>None\<close> when the value goes on to the date form.\<close>

definition digit_byte :: "byte \<Rightarrow> bool" where
  "digit_byte c \<longleftrightarrow> 48 \<le> byte_val c \<and> byte_val c \<le> 57"

definition digits_value :: "string \<Rightarrow> nat" where
  "digits_value s = foldl (\<lambda>n c. 10 * n + (byte_val c - 48)) 0 s"

definition max_duration :: duration where
  "max_duration = 9223372036854775807"

definition trim_blank :: "string \<Rightarrow> string" where
  "trim_blank s =
     (let blank = (\<lambda>c. byte_val c = 32 \<or> byte_val c = 9) in
      rev (dropWhile blank (rev (dropWhile blank s))))"

definition parseRetryAfterSeconds :: "string \<Rightarrow> duration option" where
  "parseRetryAfterSeconds raw =
     (let value = trim_blank raw in
      case value of
        [] \<Rightarrow> Some 0
      | c # _ \<Rightarrow>
          if digit_byte c then
            (if \<not> list_all digit_byte value then Some 0
             else if 2 ^ 64 \<le> digits_value value \<or> max_duration div second < int (digits_value value)
               then Some max_duration
             else Some (int (digits_value value) * second))
          else None)"

subsection \<open>Facts\<close>

text \<open>Every Apple error in a tree: what the two searches range over.\<close>

fun apple_nodes :: "go_error \<Rightarrow> apple_error list" where
  "apple_nodes (AppleErr a cause) = a # (case cause of None \<Rightarrow> [] | Some e \<Rightarrow> apple_nodes e)"
| "apple_nodes (WrapErr _ e) = apple_nodes e"
| "apple_nodes (JoinErr es) = concat (map apple_nodes es)"
| "apple_nodes (KindErr _) = []"
| "apple_nodes (PlainErr _) = []"

lemma fold_max_ge: "acc \<le> fold (\<lambda>d acc. max acc d) ds (acc::int)"
proof (induction ds arbitrary: acc)
  case (Cons d ds)
  have "max acc d \<le> fold (\<lambda>d acc. max acc d) ds (max acc d)" by (rule Cons.IH)
  then show ?case by simp
qed simp

lemma fold_max_le:
  "fold (\<lambda>d acc. max acc d) ds (acc::int) \<le> b \<longleftrightarrow> acc \<le> b \<and> (\<forall>d \<in> set ds. d \<le> b)"
  by (induction ds arbitrary: acc) auto

lemma RetryDelay_nonneg: "0 \<le> RetryDelay e"
  by (cases e rule: RetryDelay.cases) (auto simp: le_max_iff_disj fold_max_ge)

lemma RetryDelay_le_iff:
  "0 \<le> b \<Longrightarrow> RetryDelay e \<le> b \<longleftrightarrow> (\<forall>a \<in> set (apple_nodes e). ae_RetryAfter a \<le> b)"
proof (induction e rule: RetryDelay.induct)
  case (1 a cause)
  then show ?case by (cases cause) auto
next
  case (3 es)
  then show ?case by (auto simp: fold_max_le)
qed auto

lemma digits_value_append: "digits_value (s @ [c]) = 10 * digits_value s + (byte_val c - 48)"
  by (simp add: digits_value_def)

subsection \<open>Properties\<close>

text \<open>The retry hint of an error is exact: it is non-negative, no Apple error anywhere in the tree
  asks for a longer wait, and a positive hint is the wait some Apple error in the tree asks for.\<close>

theorem retry_delay_is_largest_hint:
  "0 \<le> RetryDelay e \<and> (\<forall>a \<in> set (apple_nodes e). ae_RetryAfter a \<le> RetryDelay e) \<and>
   (RetryDelay e = 0 \<or> (\<exists>a \<in> set (apple_nodes e). ae_RetryAfter a = RetryDelay e))"
proof -
  have le: "\<forall>a \<in> set (apple_nodes e). ae_RetryAfter a \<le> RetryDelay e"
    using RetryDelay_le_iff [OF RetryDelay_nonneg, of e e] by simp
  have "\<exists>a \<in> set (apple_nodes e). ae_RetryAfter a = RetryDelay e" if "RetryDelay e \<noteq> 0"
  proof (rule ccontr)
    assume "\<not> ?thesis"
    then have "\<forall>a \<in> set (apple_nodes e). ae_RetryAfter a \<le> RetryDelay e - 1" using le by force
    moreover have "0 \<le> RetryDelay e - 1" using that RetryDelay_nonneg [of e] by simp
    ultimately have "RetryDelay e \<le> RetryDelay e - 1" using RetryDelay_le_iff by blast
    then show False by simp
  qed
  with le RetryDelay_nonneg [of e] show ?thesis by blast
qed

text \<open>An error counts as a throttle exactly when some Apple error in its tree is an HTTP 429 or
  carries the batch-creation service code -41015.\<close>

theorem rate_limited_iff:
  "IsRateLimited e \<longleftrightarrow> (\<exists>a \<in> set (apple_nodes e). ae_StatusCode a = 429 \<or>
      trim_space (ae_ServiceCode a) = ''-41015'')"
proof (induction e rule: IsRateLimited.induct)
  case (1 a cause)
  then show ?case by (cases cause) (auto simp: isRateLimitedError_def hmeRateLimitCodeBatch_def)
next
  case (3 es)
  then show ?case by (fastforce simp: list_ex_iff)
qed auto

text \<open>The delay-seconds form of Retry-After never wraps: an all-digit value is its number of seconds
  in nanoseconds, saturating at the largest duration, and a value with any other byte is no wait.\<close>

theorem retry_after_saturates:
  assumes "parseRetryAfterSeconds v = Some d"
  shows "d = (if list_all digit_byte (trim_blank v)
              then min max_duration (int (digits_value (trim_blank v)) * second) else 0)"
proof (cases "trim_blank v")
  case Nil
  with assms show ?thesis
    by (simp add: parseRetryAfterSeconds_def max_duration_def digits_value_def)
next
  case (Cons c cs)
  then have "d = (if \<not> list_all digit_byte (c # cs) then 0
      else if 2 ^ 64 \<le> digits_value (c # cs) \<or> 9223372036 < int (digits_value (c # cs)) then max_duration
      else int (digits_value (c # cs)) * second)"
    using assms by (auto simp: parseRetryAfterSeconds_def max_duration_def Let_def split: if_splits)
  with Cons show ?thesis by (auto simp: max_duration_def)
qed

definition demo_hint :: "duration \<Rightarrow> apple_error" where
  "demo_hint d = \<lparr>ae_Op = ''list'', ae_Kind = Some ErrService, ae_StatusCode = 429, ae_ServiceCode = [],
     ae_ServiceRejected = False, ae_Retryable = True, ae_RetryAfter = d\<rparr>"

lemma retry_delay_is_largest_hint_witness:
  "ae_RetryAfter (demo_hint 5) \<le>
     RetryDelay (JoinErr [AppleErr (demo_hint 5) None, WrapErr ''retry'' (AppleErr (demo_hint 9) None)])"
  using retry_delay_is_largest_hint
      [of "JoinErr [AppleErr (demo_hint 5) None, WrapErr ''retry'' (AppleErr (demo_hint 9) None)]"]
  by (simp add: demo_hint_def)

lemma retry_after_saturates_witness:
  "parseRetryAfterSeconds '' 120 '' = Some 120000000000 \<and>
   min max_duration (int (digits_value (trim_blank '' 120 '')) * second) = 120000000000"
proof
  show p: "parseRetryAfterSeconds '' 120 '' = Some 120000000000"
    by (simp add: parseRetryAfterSeconds_def trim_blank_def digit_byte_def digits_value_def max_duration_def)
  show "min max_duration (int (digits_value (trim_blank '' 120 '')) * second) = 120000000000"
    using retry_after_saturates [OF p] by (simp add: trim_blank_def digit_byte_def)
qed

end
