(* ===== verification/Tables.thy ===== *)
theory Tables
  imports GoBase
begin

section \<open>Database tables as lists of rows\<close>

text \<open>
  The SQL statements of \<open>internal/store\<close> act on tables with a primary key. A table is a list of
  rows; the key is a function of the row. An \<open>INSERT ... ON CONFLICT DO UPDATE\<close> is \<open>upsert_by\<close>,
  an \<open>UPDATE ... WHERE\<close> is \<open>update_where\<close>, a \<open>DELETE ... WHERE\<close> is \<open>delete_where\<close>. The lemmas
  say how each statement changes what a key reads and that it keeps the key unique.
\<close>

definition find_by :: "('r \<Rightarrow> 'k) \<Rightarrow> 'k \<Rightarrow> 'r list \<Rightarrow> 'r option" where
  "find_by key k rows = find (\<lambda>r. key r = k) rows"

definition update_where :: "('r \<Rightarrow> bool) \<Rightarrow> ('r \<Rightarrow> 'r) \<Rightarrow> 'r list \<Rightarrow> 'r list" where
  "update_where P f rows = map (\<lambda>r. if P r then f r else r) rows"

definition delete_where :: "('r \<Rightarrow> bool) \<Rightarrow> 'r list \<Rightarrow> 'r list" where
  "delete_where P rows = filter (\<lambda>r. \<not> P r) rows"

definition upsert_by :: "('r \<Rightarrow> 'k) \<Rightarrow> 'r \<Rightarrow> ('r \<Rightarrow> 'r) \<Rightarrow> 'r list \<Rightarrow> 'r list" where
  "upsert_by key row f rows =
     (if find_by key (key row) rows = None then rows @ [row]
      else update_where (\<lambda>r. key r = key row) f rows)"

definition unique_key :: "('r \<Rightarrow> 'k) \<Rightarrow> 'r list \<Rightarrow> bool" where
  "unique_key key rows \<longleftrightarrow> distinct (map key rows)"

lemma find_by_Nil [simp]: "find_by key k [] = None"
  by (simp add: find_by_def)

lemma find_by_Cons: "find_by key k (r # rows) = (if key r = k then Some r else find_by key k rows)"
  by (simp add: find_by_def)

lemma find_by_None: "find_by key k rows = None \<longleftrightarrow> (\<forall>r \<in> set rows. key r \<noteq> k)"
  by (auto simp: find_by_def find_None_iff)

lemma find_by_None_image: "find_by key k rows = None \<longleftrightarrow> k \<notin> key ` set rows"
  by (auto simp: find_by_None)

lemma find_by_SomeD: "find_by key k rows = Some r \<Longrightarrow> r \<in> set rows \<and> key r = k"
  by (induction rows) (auto simp: find_by_Cons split: if_splits)

lemma find_by_unique:
  "unique_key key rows \<Longrightarrow> r \<in> set rows \<Longrightarrow> key r = k \<Longrightarrow> find_by key k rows = Some r"
  by (induction rows) (force simp: find_by_Cons unique_key_def)+

lemma find_by_Some_iff:
  "unique_key key rows \<Longrightarrow> find_by key k rows = Some r \<longleftrightarrow> r \<in> set rows \<and> key r = k"
  using find_by_SomeD find_by_unique by metis

lemma unique_keyD:
  "unique_key key rows \<Longrightarrow> r \<in> set rows \<Longrightarrow> r' \<in> set rows \<Longrightarrow> key r = key r' \<Longrightarrow> r = r'"
  by (metis find_by_unique option.inject)

lemma find_by_append: "find_by key k (rows @ rows') =
    (case find_by key k rows of None \<Rightarrow> find_by key k rows' | Some r \<Rightarrow> Some r)"
  by (induction rows) (simp_all add: find_by_Cons)

lemma map_key_update_where [simp]:
  "(\<And>r. P r \<Longrightarrow> key (f r) = key r) \<Longrightarrow> map key (update_where P f rows) = map key rows"
  by (induction rows) (auto simp: update_where_def)

lemma unique_key_update_where:
  "(\<And>r. P r \<Longrightarrow> key (f r) = key r) \<Longrightarrow> unique_key key (update_where P f rows) \<longleftrightarrow> unique_key key rows"
  by (simp add: unique_key_def)

lemma unique_key_delete_where: "unique_key key rows \<Longrightarrow> unique_key key (delete_where P rows)"
  by (simp add: unique_key_def delete_where_def distinct_map_filter)

lemma unique_key_append1:
  "unique_key key rows \<Longrightarrow> find_by key (key row) rows = None \<Longrightarrow> unique_key key (rows @ [row])"
  by (auto simp: unique_key_def find_by_None)

lemma find_by_update_where:
  "(\<And>r. P r \<Longrightarrow> key (f r) = key r) \<Longrightarrow>
   find_by key k (update_where P f rows) =
     map_option (\<lambda>r. if P r then f r else r) (find_by key k rows)"
  by (induction rows) (auto simp: update_where_def find_by_Cons)

lemma set_update_where: "set (update_where P f rows) = (\<lambda>r. if P r then f r else r) ` set rows"
  by (simp add: update_where_def)

lemma set_delete_where [simp]: "set (delete_where P rows) = {r \<in> set rows. \<not> P r}"
  by (auto simp: delete_where_def)

lemma length_update_where [simp]: "length (update_where P f rows) = length rows"
  by (simp add: update_where_def)

lemma update_where_Nil [simp]: "update_where P f [] = []"
  and update_where_Cons: "update_where P f (r # rows) = (if P r then f r else r) # update_where P f rows"
  by (simp_all add: update_where_def)

lemma update_where_append: "update_where P f (xs @ ys) = update_where P f xs @ update_where P f ys"
  by (simp add: update_where_def)

lemma update_where_none: "(\<And>r. r \<in> set rows \<Longrightarrow> \<not> P r) \<Longrightarrow> update_where P f rows = rows"
  by (auto simp: update_where_def intro: map_idI)

lemma update_where_id: "(\<And>r. r \<in> set rows \<Longrightarrow> P r \<Longrightarrow> f r = r) \<Longrightarrow> update_where P f rows = rows"
  by (auto simp: update_where_def intro: map_idI)

lemma delete_where_none: "(\<And>r. r \<in> set rows \<Longrightarrow> \<not> P r) \<Longrightarrow> delete_where P rows = rows"
  by (simp add: delete_where_def)

lemma find_by_delete_other:
  "k \<noteq> k' \<Longrightarrow> find_by key k (delete_where (\<lambda>r. key r = k') rows) = find_by key k rows"
  by (induction rows) (auto simp: find_by_Cons delete_where_def)

lemma find_by_delete_same: "find_by key k (delete_where (\<lambda>r. key r = k) rows) = None"
  by (auto simp: find_by_None)

lemma unique_key_upsert_by:
  assumes uniq: "unique_key key rows" and keeps: "\<And>r. key r = key row \<Longrightarrow> key (f r) = key r"
  shows "unique_key key (upsert_by key row f rows)"
proof (cases "find_by key (key row) rows = None")
  case True
  then show ?thesis using uniq by (simp add: upsert_by_def unique_key_append1)
next
  case False
  have "unique_key key (update_where (\<lambda>r. key r = key row) f rows)"
    using uniq unique_key_update_where [of "\<lambda>r. key r = key row" key f rows] keeps by blast
  with False show ?thesis by (auto simp: upsert_by_def)
qed

lemma find_by_upsert_by:
  assumes keeps: "\<And>r. key r = key row \<Longrightarrow> key (f r) = key r"
  shows "find_by key k (upsert_by key row f rows) =
     (if k = key row
      then Some (case find_by key k rows of None \<Rightarrow> row | Some r \<Rightarrow> f r)
      else find_by key k rows)"
proof (cases "find_by key (key row) rows = None")
  case True
  then show ?thesis
    by (auto simp: upsert_by_def find_by_append find_by_Cons split: option.splits)
next
  case False
  then obtain r0 where r0: "find_by key (key row) rows = Some r0" by blast
  have "find_by key k (update_where (\<lambda>r. key r = key row) f rows)
      = map_option (\<lambda>r. if key r = key row then f r else r) (find_by key k rows)"
    using keeps by (rule find_by_update_where)
  moreover have "upsert_by key row f rows = update_where (\<lambda>r. key r = key row) f rows"
    using r0 by (simp add: upsert_by_def)
  moreover have "find_by key k rows = Some r \<Longrightarrow> key r = k" for r
    by (auto dest: find_by_SomeD)
  ultimately show ?thesis
    using r0 by (cases "find_by key k rows") auto
qed

lemma set_upsert_by:
  "set (upsert_by key row f rows) \<subseteq> insert row (set rows \<union> f ` {r \<in> set rows. key r = key row})"
  by (auto simp: upsert_by_def set_update_where)

lemmas table_facts =
  unique_key_update_where unique_key_delete_where unique_key_append1 unique_key_upsert_by
  find_by_update_where find_by_upsert_by find_by_append find_by_Cons

subsection \<open>Transactions\<close>

text \<open>
  A transaction is a chain of statements, each of which can fail; a failure rolls every statement
  back, so a failing chain has no resulting tables.
\<close>

definition bind_res :: "'e + 'a \<Rightarrow> ('a \<Rightarrow> 'e + 'b) \<Rightarrow> 'e + 'b" where
  "bind_res m f = (case m of Inl e \<Rightarrow> Inl e | Inr x \<Rightarrow> f x)"

fun fold_res :: "('a \<Rightarrow> 's \<Rightarrow> 'e + 's) \<Rightarrow> 'a list \<Rightarrow> 's \<Rightarrow> 'e + 's" where
  "fold_res f [] s = Inr s"
| "fold_res f (x # xs) s = bind_res (f x s) (fold_res f xs)"

fun map_res :: "('a \<Rightarrow> 'e + 'b) \<Rightarrow> 'a list \<Rightarrow> 'e + 'b list" where
  "map_res f [] = Inr []"
| "map_res f (x # xs) = bind_res (f x) (\<lambda>y. bind_res (map_res f xs) (\<lambda>ys. Inr (y # ys)))"

lemma bind_res_simps [simp]: "bind_res (Inl e) f = Inl e" "bind_res (Inr x) f = f x"
  by (simp_all add: bind_res_def)

lemma bind_res_Inr: "bind_res m f = Inr y \<longleftrightarrow> (\<exists>x. m = Inr x \<and> f x = Inr y)"
  by (cases m) simp_all

lemma fold_res_invariant:
  assumes "fold_res f xs s = Inr s'" and "P s"
    and "\<And>x s s'. x \<in> set xs \<Longrightarrow> P s \<Longrightarrow> f x s = Inr s' \<Longrightarrow> P s'"
  shows "P s'"
  using assms
proof (induction xs arbitrary: s)
  case (Cons x xs)
  then obtain s1 where "f x s = Inr s1" "fold_res f xs s1 = Inr s'" by (auto simp: bind_res_Inr)
  then show ?case using Cons.prems(2,3) by (intro Cons.IH [of s1]) auto
qed simp

lemma map_res_length: "map_res f xs = Inr ys \<Longrightarrow> length ys = length xs"
  by (induction xs arbitrary: ys) (auto simp: bind_res_Inr)

lemma map_res_nth: "map_res f xs = Inr ys \<Longrightarrow> i < length xs \<Longrightarrow> f (xs ! i) = Inr (ys ! i)"
proof (induction xs arbitrary: ys i)
  case (Cons x xs)
  then show ?case by (cases i) (auto simp: bind_res_Inr)
qed simp

lemma map_res_set: "map_res f xs = Inr ys \<Longrightarrow> y \<in> set ys \<Longrightarrow> \<exists>x \<in> set xs. f x = Inr y"
  by (induction xs arbitrary: ys) (auto simp: bind_res_Inr)

subsection \<open>Counting rows\<close>

definition count_where :: "('r \<Rightarrow> bool) \<Rightarrow> 'r list \<Rightarrow> nat" where
  "count_where P rows = length (filter P rows)"

lemma count_where_Nil [simp]: "count_where P [] = 0"
  and count_where_Cons: "count_where P (r # rows) = (if P r then 1 else 0) + count_where P rows"
  and count_where_append [simp]: "count_where P (xs @ ys) = count_where P xs + count_where P ys"
  by (simp_all add: count_where_def)

lemma count_where_mono:
  "(\<And>r. r \<in> set rows \<Longrightarrow> P r \<Longrightarrow> Q r) \<Longrightarrow> count_where P rows \<le> count_where Q rows"
  by (induction rows) (auto simp: count_where_Cons)

lemma count_where_strict:
  assumes "r \<in> set rows" and "Q r" and "\<not> P r" and "\<And>x. P x \<Longrightarrow> Q x"
  shows "count_where P rows < count_where Q rows"
  using assms(1)
proof (induction rows)
  case (Cons x rows)
  have "count_where P rows \<le> count_where Q rows" by (rule count_where_mono) (rule assms(4))
  with Cons assms(2-4) show ?case by (auto simp: count_where_Cons)
qed simp

lemma count_where_cong:
  "(\<And>r. r \<in> set rows \<Longrightarrow> P r \<longleftrightarrow> Q r) \<Longrightarrow> count_where P rows = count_where Q rows"
  by (induction rows) (auto simp: count_where_Cons)

lemma count_where_delete_where: "count_where P (delete_where D rows) \<le> count_where P rows"
  by (induction rows) (auto simp: count_where_Cons delete_where_def)

lemma count_where_update_where_le:
  "(\<And>r. r \<in> set rows \<Longrightarrow> D r \<Longrightarrow> P (f r) \<Longrightarrow> P r) \<Longrightarrow>
   count_where P (update_where D f rows) \<le> count_where P rows"
  by (induction rows) (auto simp: count_where_Cons update_where_Cons)

text \<open>Rewriting one row, found by its key, adds at most one to any count.\<close>

lemma count_where_update_one:
  "unique_key key rows \<Longrightarrow>
   count_where P (update_where (\<lambda>r. key r = k) f rows) \<le> Suc (count_where P rows)"
proof (induction rows)
  case Nil
  then show ?case by simp
next
  case (Cons r rows)
  have uniq: "unique_key key rows" and notin: "key r \<notin> key ` set rows"
    using Cons.prems by (auto simp: unique_key_def)
  show ?case
  proof (cases "key r = k")
    case True
    with notin have "update_where (\<lambda>r. key r = k) f rows = rows"
      by (intro update_where_none) (metis image_eqI)
    with True show ?thesis by (simp add: count_where_Cons update_where_Cons)
  next
    case False
    with Cons.IH [OF uniq] show ?thesis by (simp add: count_where_Cons update_where_Cons)
  qed
qed

lemma count_where_upsert_by:
  assumes "unique_key key rows"
  shows "count_where P (upsert_by key row f rows) \<le> Suc (count_where P rows)"
  using count_where_update_one [OF assms] by (auto simp: upsert_by_def count_where_Cons)

lemma count_where_card:
  "unique_key key rows \<Longrightarrow> count_where P rows = card {key r | r. r \<in> set rows \<and> P r}"
proof (induction rows)
  case Nil
  then show ?case by simp
next
  case (Cons r rows)
  have uniq: "unique_key key rows" and notin: "key r \<notin> key ` set rows"
    using Cons.prems by (auto simp: unique_key_def)
  let ?S = "{key r | r. r \<in> set rows \<and> P r}"
  have fin: "finite ?S" by (rule finite_subset [of _ "key ` set rows"]) auto
  have "{key x | x. x \<in> set (r # rows) \<and> P x} = (if P r then insert (key r) ?S else ?S)"
    by auto
  moreover have "key r \<notin> ?S" using notin by auto
  ultimately show ?case using Cons.IH [OF uniq] fin by (simp add: count_where_Cons)
qed

end
