(* ===== verification/DeletionQuota.thy ===== *)
theory DeletionQuota
  imports Tables
begin

section \<open>The rolling deletion quota (internal/store/alias_deletion_quota.go)\<close>

text \<open>
  Apple limits how many addresses one principal may delete in an hour. The store keeps one row per
  principal with its upstream cooldown, and one row per reservation with its state and its expiry.
  Each operation is one transaction: a failing operation rolls back, so its result is the error
  and the unchanged tables. The statements take the principal's row lock first, so the operations
  of one principal are serial, and a state-passing function per operation is faithful.
\<close>

subsection \<open>Tables and results\<close>

datatype quota_state = Reserved | Sent | Committed

record reservation =
  rv_principal :: string
  rv_id :: string
  rv_state :: quota_state
  rv_accounted_at :: timestamp
  rv_expires_at :: timestamp

record principal_row =
  pr_principal :: string
  pr_cooldown_until :: timestamp

record quota_db =
  qd_principals :: "principal_row list"
  qd_reservations :: "reservation list"

datatype quota_error =
    PrincipalRequired
  | ReservationIDRequired
  | ReservationNotFound
  | ReservationAlreadyCommitted
  | ReservationExpiredBeforeSending

record deletion_quota =
  dq_used :: int
  dq_limit :: int
  dq_retry_at :: time

record quota_snapshot =
  qs_used :: int
  qs_earliest_expiry :: "timestamp option"
  qs_cooldown_until :: timestamp

definition aliasDeletionQuotaLimit :: int where
  "aliasDeletionQuotaLimit = 200"

definition aliasDeletionQuotaWindow :: duration where
  "aliasDeletionQuotaWindow = hour + 5 * second"

definition aliasDeletionReservationLifetime :: duration where
  "aliasDeletionReservationLifetime = 2 * hour"

lemmas quota_consts =
  aliasDeletionQuotaLimit_def aliasDeletionQuotaWindow_def aliasDeletionReservationLifetime_def

definition empty_quota_db :: quota_db where
  "empty_quota_db = \<lparr>qd_principals = [], qd_reservations = []\<rparr>"

definition rv_key :: "reservation \<Rightarrow> string \<times> string" where
  "rv_key r = (rv_principal r, rv_id r)"

lemma rv_key_updates [simp]:
  "rv_key (r\<lparr>rv_state := s\<rparr>) = rv_key r"
  "rv_key (r\<lparr>rv_accounted_at := a\<rparr>) = rv_key r"
  "rv_key (r\<lparr>rv_expires_at := a\<rparr>) = rv_key r"
  by (simp_all add: rv_key_def)

lemma rv_key_fields [simp]:
  "rv_key \<lparr>rv_principal = p, rv_id = i, rv_state = s, rv_accounted_at = a, rv_expires_at = e\<rparr> = (p, i)"
  by (simp add: rv_key_def)

subsection \<open>Reading\<close>

definition quota_live :: "string \<Rightarrow> timestamp \<Rightarrow> reservation \<Rightarrow> bool" where
  "quota_live p now r \<longleftrightarrow> rv_principal r = p \<and> now < rv_expires_at r"

definition min_opt :: "int list \<Rightarrow> int option" where
  "min_opt xs = (case xs of [] \<Rightarrow> None | x # ys \<Rightarrow> Some (fold min ys x))"

definition quota_result :: "quota_snapshot \<Rightarrow> time \<Rightarrow> bool \<Rightarrow> deletion_quota" where
  "quota_result v now owns =
     (let retry0 =
        (if \<not> owns \<and> aliasDeletionQuotaLimit \<le> qs_used v
         then (case qs_earliest_expiry v of None \<Rightarrow> zero_time | Some e \<Rightarrow> time_of_timestamp e)
         else zero_time);
      retry =
        (if to_timestamp now < qs_cooldown_until v \<and>
            (is_zero_time retry0 \<or> to_timestamp retry0 < qs_cooldown_until v)
         then time_of_timestamp (qs_cooldown_until v) else retry0)
      in \<lparr>dq_used = qs_used v, dq_limit = aliasDeletionQuotaLimit, dq_retry_at = retry\<rparr>)"

definition validateAliasDeletionQuotaKey :: "string \<Rightarrow> string \<Rightarrow> bool \<Rightarrow> quota_error option" where
  "validateAliasDeletionQuotaKey pcpl reservation needs =
     (if trim_space pcpl = [] then Some PrincipalRequired
      else if needs \<and> trim_space reservation = [] then Some ReservationIDRequired
      else None)"

definition lockAliasDeletionQuotaPrincipal :: "string \<Rightarrow> quota_db \<Rightarrow> quota_db" where
  "lockAliasDeletionQuotaPrincipal pcpl db =
     db\<lparr>qd_principals := upsert_by pr_principal
          \<lparr>pr_principal = pcpl, pr_cooldown_until = 0\<rparr> (\<lambda>r. r) (qd_principals db)\<rparr>"

definition readAliasDeletionQuota :: "quota_db \<Rightarrow> string \<Rightarrow> time \<Rightarrow> quota_snapshot" where
  "readAliasDeletionQuota db pcpl now =
     (case find_by pr_principal pcpl (qd_principals db) of
        None \<Rightarrow> \<lparr>qs_used = 0, qs_earliest_expiry = None, qs_cooldown_until = 0\<rparr>
      | Some p \<Rightarrow>
          (let rows = filter (quota_live pcpl (to_timestamp now)) (qd_reservations db) in
           \<lparr>qs_used = int (length rows), qs_earliest_expiry = min_opt (map rv_expires_at rows),
            qs_cooldown_until = pr_cooldown_until p\<rparr>))"

definition find_reservation :: "quota_db \<Rightarrow> string \<Rightarrow> string \<Rightarrow> reservation option" where
  "find_reservation db pcpl rid = find_by rv_key (pcpl, rid) (qd_reservations db)"

subsection \<open>The six operations\<close>

definition ReserveAliasDeletionQuota ::
  "quota_db \<Rightarrow> string \<Rightarrow> string \<Rightarrow> time \<Rightarrow> (quota_error + deletion_quota) \<times> quota_db" where
  "ReserveAliasDeletionQuota db pcpl rid now =
     (case validateAliasDeletionQuotaKey pcpl rid True of
        Some e \<Rightarrow> (Inl e, db)
      | None \<Rightarrow>
          (let locked = lockAliasDeletionQuotaPrincipal pcpl db;
               owns = (case find_reservation locked pcpl rid of
                         None \<Rightarrow> False
                       | Some r \<Rightarrow> rv_state r \<noteq> Reserved \<or> to_timestamp now < rv_expires_at r);
               quota = quota_result (readAliasDeletionQuota locked pcpl now) now owns
           in if \<not> is_zero_time (dq_retry_at quota) \<or> owns then (Inr quota, locked)
              else
                (Inr (quota\<lparr>dq_used := dq_used quota + 1\<rparr>),
                 locked\<lparr>qd_reservations := upsert_by rv_key
                   \<lparr>rv_principal = pcpl, rv_id = rid, rv_state = Reserved,
                    rv_accounted_at = to_timestamp now,
                    rv_expires_at = to_timestamp (now + aliasDeletionReservationLifetime)\<rparr>
                   (\<lambda>r. r\<lparr>rv_state := Reserved, rv_accounted_at := to_timestamp now,
                          rv_expires_at := to_timestamp (now + aliasDeletionReservationLifetime)\<rparr>)
                   (qd_reservations locked)\<rparr>)))"

definition MarkAliasDeletionQuotaSent ::
  "quota_db \<Rightarrow> string \<Rightarrow> string \<Rightarrow> time \<Rightarrow> (quota_error + unit) \<times> quota_db" where
  "MarkAliasDeletionQuotaSent db pcpl rid now =
     (case validateAliasDeletionQuotaKey pcpl rid True of
        Some e \<Rightarrow> (Inl e, db)
      | None \<Rightarrow>
          (let locked = lockAliasDeletionQuotaPrincipal pcpl db in
           (case find_reservation locked pcpl rid of
              None \<Rightarrow> (Inl ReservationNotFound, db)
            | Some r \<Rightarrow>
                if rv_state r = Committed then (Inl ReservationAlreadyCommitted, db)
                else if rv_expires_at r \<le> to_timestamp now then (Inl ReservationExpiredBeforeSending, db)
                else
                  (let accounted = max (rv_accounted_at r) (to_timestamp now);
                       expires = max (rv_expires_at r)
                         (to_timestamp (time_of_timestamp accounted + aliasDeletionReservationLifetime))
                   in (Inr (),
                       locked\<lparr>qd_reservations := update_where (\<lambda>r. rv_key r = (pcpl, rid))
                         (\<lambda>r. r\<lparr>rv_state := Sent, rv_accounted_at := accounted,
                                rv_expires_at := expires\<rparr>)
                         (qd_reservations locked)\<rparr>)))))"

definition CommitAliasDeletionQuota ::
  "quota_db \<Rightarrow> string \<Rightarrow> string \<Rightarrow> time \<Rightarrow> (quota_error + unit) \<times> quota_db" where
  "CommitAliasDeletionQuota db pcpl rid now =
     (case validateAliasDeletionQuotaKey pcpl rid True of
        Some e \<Rightarrow> (Inl e, db)
      | None \<Rightarrow>
          (let locked = lockAliasDeletionQuotaPrincipal pcpl db in
           (case find_reservation locked pcpl rid of
              None \<Rightarrow> (Inl ReservationNotFound, db)
            | Some r \<Rightarrow>
                (let accounted = max (rv_accounted_at r) (to_timestamp now) in
                 (Inr (),
                  locked\<lparr>qd_reservations := update_where (\<lambda>r. rv_key r = (pcpl, rid))
                    (\<lambda>r. r\<lparr>rv_state := Committed, rv_accounted_at := accounted,
                           rv_expires_at :=
                             to_timestamp (time_of_timestamp accounted + aliasDeletionQuotaWindow)\<rparr>)
                    (qd_reservations locked)\<rparr>)))))"

definition ReleaseAliasDeletionQuota ::
  "quota_db \<Rightarrow> string \<Rightarrow> string \<Rightarrow> (quota_error + unit) \<times> quota_db" where
  "ReleaseAliasDeletionQuota db pcpl rid =
     (case validateAliasDeletionQuotaKey pcpl rid True of
        Some e \<Rightarrow> (Inl e, db)
      | None \<Rightarrow>
          (let locked = lockAliasDeletionQuotaPrincipal pcpl db in
           (Inr (),
            locked\<lparr>qd_reservations :=
              delete_where (\<lambda>r. rv_key r = (pcpl, rid) \<and> rv_state r = Reserved)
                (qd_reservations locked)\<rparr>)))"

definition DeferAliasDeletionQuota ::
  "quota_db \<Rightarrow> string \<Rightarrow> time \<Rightarrow> (quota_error + unit) \<times> quota_db" where
  "DeferAliasDeletionQuota db pcpl until =
     (case validateAliasDeletionQuotaKey pcpl [] False of
        Some e \<Rightarrow> (Inl e, db)
      | None \<Rightarrow>
          if is_zero_time until then (Inr (), db)
          else
            (Inr (),
             db\<lparr>qd_principals := upsert_by pr_principal
                  \<lparr>pr_principal = pcpl, pr_cooldown_until = to_timestamp until\<rparr>
                  (\<lambda>r. r\<lparr>pr_cooldown_until :=
                     (if pr_cooldown_until r < to_timestamp until then to_timestamp until
                      else pr_cooldown_until r)\<rparr>)
                  (qd_principals db)\<rparr>))"

definition GetAliasDeletionQuota ::
  "quota_db \<Rightarrow> string \<Rightarrow> time \<Rightarrow> quota_error + deletion_quota" where
  "GetAliasDeletionQuota db pcpl now =
     (case validateAliasDeletionQuotaKey pcpl [] False of
        Some e \<Rightarrow> Inl e
      | None \<Rightarrow> Inr (quota_result (readAliasDeletionQuota db pcpl now) now False))"

subsection \<open>Facts about the operations\<close>

lemma fold_min_le: "x \<in> set ys \<Longrightarrow> fold min ys a \<le> (x::int)" and fold_min_le_init: "fold min ys a \<le> (a::int)"
proof -
  have le: "fold min ys a \<le> a" for ys and a :: int
  proof (induction ys arbitrary: a)
    case (Cons y ys)
    have "fold min ys (min y a) \<le> min y a" by (rule Cons.IH)
    then show ?case by simp
  qed simp
  show "fold min ys a \<le> a" by (rule le)
  show "x \<in> set ys \<Longrightarrow> fold min ys a \<le> x"
  proof (induction ys arbitrary: a)
    case (Cons y ys)
    then show ?case using le [of ys "min y a"] by fastforce
  qed simp
qed

lemma fold_min_in: "fold min ys a \<in> insert (a::int) (set ys)"
proof (induction ys arbitrary: a)
  case (Cons y ys)
  then show ?case using Cons.IH [of "min y a"] by (auto simp: min_def split: if_splits)
qed simp

lemma min_opt_None [simp]: "min_opt xs = None \<longleftrightarrow> xs = []"
  by (simp add: min_opt_def split: list.splits)

lemma min_opt_Some: "min_opt xs = Some m \<Longrightarrow> m \<in> set xs \<and> (\<forall>x \<in> set xs. m \<le> x)"
  using fold_min_in fold_min_le fold_min_le_init
  by (fastforce simp: min_opt_def split: list.splits)

definition quota_used :: "quota_db \<Rightarrow> string \<Rightarrow> time \<Rightarrow> nat" where
  "quota_used db p now = count_where (quota_live p (to_timestamp now)) (qd_reservations db)"

definition quota_cooldown :: "quota_db \<Rightarrow> string \<Rightarrow> timestamp" where
  "quota_cooldown db p =
     (case find_by pr_principal p (qd_principals db) of None \<Rightarrow> 0 | Some r \<Rightarrow> pr_cooldown_until r)"

text \<open>What the schema and the six operations maintain.\<close>

definition quota_inv :: "quota_db \<Rightarrow> bool" where
  "quota_inv db \<longleftrightarrow>
     unique_key pr_principal (qd_principals db) \<and>
     unique_key rv_key (qd_reservations db) \<and>
     (\<forall>r \<in> set (qd_reservations db).
        find_by pr_principal (rv_principal r) (qd_principals db) \<noteq> None \<and>
        int64 (rv_accounted_at r) \<and> int64 (rv_expires_at r) \<and>
        (rv_state r = Committed \<longrightarrow>
           rv_expires_at r = to_timestamp (rv_accounted_at r + aliasDeletionQuotaWindow))) \<and>
     (\<forall>p \<in> set (qd_principals db). int64 (pr_cooldown_until p))"

lemma quota_inv_empty [simp]: "quota_inv empty_quota_db"
  by (simp add: quota_inv_def empty_quota_db_def unique_key_def)

lemma quota_invD:
  assumes "quota_inv db"
  shows "unique_key pr_principal (qd_principals db)" and "unique_key rv_key (qd_reservations db)"
    and "r \<in> set (qd_reservations db) \<Longrightarrow> int64 (rv_expires_at r)"
    and "r \<in> set (qd_reservations db) \<Longrightarrow> int64 (rv_accounted_at r)"
    and "r \<in> set (qd_reservations db) \<Longrightarrow> rv_state r = Committed \<Longrightarrow>
           rv_expires_at r = to_timestamp (rv_accounted_at r + aliasDeletionQuotaWindow)"
    and "r \<in> set (qd_reservations db) \<Longrightarrow>
           find_by pr_principal (rv_principal r) (qd_principals db) \<noteq> None"
  using assms by (simp_all add: quota_inv_def)

lemma lock_reservations [simp]:
  "qd_reservations (lockAliasDeletionQuotaPrincipal p db) = qd_reservations db"
  by (simp add: lockAliasDeletionQuotaPrincipal_def)

lemma lock_principals:
  "find_by pr_principal q (qd_principals (lockAliasDeletionQuotaPrincipal p db)) =
     (if q = p then Some (case find_by pr_principal p (qd_principals db) of
          None \<Rightarrow> \<lparr>pr_principal = p, pr_cooldown_until = 0\<rparr> | Some r \<Rightarrow> r)
      else find_by pr_principal q (qd_principals db))"
  by (simp add: lockAliasDeletionQuotaPrincipal_def find_by_upsert_by split: option.splits)

lemma lock_cooldown [simp]:
  "quota_cooldown (lockAliasDeletionQuotaPrincipal p db) q = quota_cooldown db q"
  by (auto simp: quota_cooldown_def lock_principals split: option.splits)

lemma lock_used [simp]: "quota_used (lockAliasDeletionQuotaPrincipal p db) q now = quota_used db q now"
  by (simp add: quota_used_def)

lemma lock_find [simp]:
  "find_reservation (lockAliasDeletionQuotaPrincipal p db) q rid = find_reservation db q rid"
  by (simp add: find_reservation_def)

lemma quota_inv_lock [simp]: "quota_inv db \<Longrightarrow> quota_inv (lockAliasDeletionQuotaPrincipal p db)"
  unfolding quota_inv_def
  using set_upsert_by [of pr_principal "\<lparr>pr_principal = p, pr_cooldown_until = 0\<rparr>" "\<lambda>r. r" "qd_principals db"]
  by (auto simp: lock_principals) (auto simp: lockAliasDeletionQuotaPrincipal_def int64_def
      intro!: unique_key_upsert_by)

lemma find_reservation_SomeD:
  "find_reservation db p rid = Some r \<Longrightarrow>
   r \<in> set (qd_reservations db) \<and> rv_principal r = p \<and> rv_id r = rid"
  unfolding find_reservation_def by (drule find_by_SomeD) (auto simp: rv_key_def)

lemma read_locked:
  "readAliasDeletionQuota (lockAliasDeletionQuotaPrincipal p db) p now =
     \<lparr>qs_used = int (quota_used db p now),
      qs_earliest_expiry =
        min_opt (map rv_expires_at (filter (quota_live p (to_timestamp now)) (qd_reservations db))),
      qs_cooldown_until = quota_cooldown db p\<rparr>"
  by (auto simp: readAliasDeletionQuota_def lock_principals quota_used_def quota_cooldown_def
        count_where_def Let_def split: option.splits)

lemma retry_zero_iff:
  assumes "quota_inv db"
  shows "is_zero_time (dq_retry_at
           (quota_result (readAliasDeletionQuota (lockAliasDeletionQuotaPrincipal p db) p now) now owns))
         \<longleftrightarrow> (owns \<or> quota_used db p now < 200) \<and> quota_cooldown db p \<le> to_timestamp now"
proof -
  let ?rows = "filter (quota_live p (to_timestamp now)) (qd_reservations db)"
  have cool: "int64 (quota_cooldown db p)"
    using assms unfolding quota_cooldown_def quota_inv_def
    by (auto split: option.splits dest!: find_by_SomeD simp: int64_def)
  show ?thesis
  proof (cases "min_opt (map rv_expires_at ?rows)")
    case None
    then have "quota_used db p now = 0" by (simp add: quota_used_def count_where_def)
    then show ?thesis using cool
      by (auto simp: quota_result_def read_locked None aliasDeletionQuotaLimit_def Let_def is_zero_time_def
          zero_time_def int64_def)
  next
    case (Some e)
    then have "int64 e"
      using min_opt_Some [OF Some] quota_invD(3) [OF assms] by auto
    then show ?thesis using cool Some
      by (auto simp: quota_result_def read_locked aliasDeletionQuotaLimit_def Let_def is_zero_time_def
          zero_time_def int64_def to_timestamp_def)
  qed
qed

subsection \<open>Every operation keeps the invariant\<close>

definition row_ok :: "reservation \<Rightarrow> bool" where
  "row_ok r \<longleftrightarrow> int64 (rv_accounted_at r) \<and> int64 (rv_expires_at r) \<and>
     (rv_state r = Committed \<longrightarrow>
        rv_expires_at r = to_timestamp (rv_accounted_at r + aliasDeletionQuotaWindow))"

lemma quota_inv_row: "quota_inv db \<Longrightarrow> r \<in> set (qd_reservations db) \<Longrightarrow> row_ok r"
  by (simp add: quota_inv_def row_ok_def)

lemma quota_inv_update:
  assumes inv: "quota_inv db"
    and keep: "\<And>r. P r \<Longrightarrow> rv_key (f r) = rv_key r"
    and ok: "\<And>r. r \<in> set (qd_reservations db) \<Longrightarrow> P r \<Longrightarrow> row_ok (f r)"
  shows "quota_inv (db\<lparr>qd_reservations := update_where P f (qd_reservations db)\<rparr>)"
proof -
  have "unique_key rv_key (update_where P f (qd_reservations db))"
    using unique_key_update_where [of P rv_key f] keep quota_invD(2) [OF inv] by blast
  moreover have "find_by pr_principal (rv_principal r) (qd_principals db) \<noteq> None \<and> row_ok r"
    if r: "r \<in> set (update_where P f (qd_reservations db))" for r
  proof -
    obtain r0 where r0: "r0 \<in> set (qd_reservations db)" and eq: "r = (if P r0 then f r0 else r0)"
      using r by (auto simp: set_update_where)
    have "rv_principal r = rv_principal r0" using keep [of r0] eq by (auto simp: rv_key_def)
    then show ?thesis
      using quota_invD(6) [OF inv r0] quota_inv_row [OF inv r0] ok [OF r0] eq by auto
  qed
  ultimately show ?thesis
    using inv by (simp add: quota_inv_def row_ok_def)
qed

lemma quota_inv_update_locked:
  assumes "quota_inv db"
    and "\<And>r. P r \<Longrightarrow> rv_key (f r) = rv_key r"
    and "\<And>r. r \<in> set (qd_reservations db) \<Longrightarrow> P r \<Longrightarrow> row_ok (f r)"
  shows "quota_inv ((lockAliasDeletionQuotaPrincipal p db)
           \<lparr>qd_reservations := update_where P f (qd_reservations db)\<rparr>)"
  using quota_inv_update [of "lockAliasDeletionQuotaPrincipal p db" P f] assms by simp

lemma quota_inv_insert:
  assumes inv: "quota_inv db" and ok: "row_ok row"
    and fresh: "find_by rv_key (rv_key row) (qd_reservations db) = None"
    and fk: "find_by pr_principal (rv_principal row) (qd_principals db) \<noteq> None"
  shows "quota_inv (db\<lparr>qd_reservations := qd_reservations db @ [row]\<rparr>)"
  using assms unique_key_append1 [of rv_key "qd_reservations db" row]
  unfolding quota_inv_def row_ok_def by auto

lemma quota_inv_delete:
  "quota_inv db \<Longrightarrow> quota_inv (db\<lparr>qd_reservations := delete_where P (qd_reservations db)\<rparr>)"
  unfolding quota_inv_def using unique_key_delete_where by auto

lemma row_ok_reserved:
  "row_ok (r\<lparr>rv_state := Reserved, rv_accounted_at := to_timestamp a, rv_expires_at := to_timestamp b\<rparr>)"
  "row_ok \<lparr>rv_principal = p, rv_id = rid, rv_state = Reserved,
           rv_accounted_at = to_timestamp a, rv_expires_at = to_timestamp b\<rparr>"
  by (simp_all add: row_ok_def)

lemma int64_max [simp]: "int64 a \<Longrightarrow> int64 b \<Longrightarrow> int64 (max a b)"
  by (simp add: max_def)

text \<open>
  The two outcomes of a reservation with valid keys: the tables are those after taking the
  principal's lock (a refusal or an owned reservation), or the reservation row is (re)written.
\<close>

definition reserve_owns :: "quota_db \<Rightarrow> string \<Rightarrow> string \<Rightarrow> time \<Rightarrow> bool" where
  "reserve_owns db p rid now \<longleftrightarrow>
     (case find_reservation db p rid of
        None \<Rightarrow> False | Some r \<Rightarrow> rv_state r \<noteq> Reserved \<or> to_timestamp now < rv_expires_at r)"

lemma lock_owns [simp]:
  "reserve_owns (lockAliasDeletionQuotaPrincipal p db) q rid now = reserve_owns db q rid now"
  by (simp add: reserve_owns_def)

definition reserve_grants :: "quota_db \<Rightarrow> string \<Rightarrow> string \<Rightarrow> time \<Rightarrow> bool" where
  "reserve_grants db p rid now \<longleftrightarrow>
     \<not> reserve_owns db p rid now \<and> quota_used db p now < 200 \<and>
     quota_cooldown db p \<le> to_timestamp now"

definition granted_rows :: "quota_db \<Rightarrow> string \<Rightarrow> string \<Rightarrow> time \<Rightarrow> reservation list" where
  "granted_rows db p rid now = upsert_by rv_key
     \<lparr>rv_principal = p, rv_id = rid, rv_state = Reserved, rv_accounted_at = to_timestamp now,
      rv_expires_at = to_timestamp (now + aliasDeletionReservationLifetime)\<rparr>
     (\<lambda>r. r\<lparr>rv_state := Reserved, rv_accounted_at := to_timestamp now,
            rv_expires_at := to_timestamp (now + aliasDeletionReservationLifetime)\<rparr>)
     (qd_reservations db)"

lemma reserve_granted:
  assumes "quota_inv db" and "trim_space p \<noteq> []" and "trim_space rid \<noteq> []"
    and "reserve_grants db p rid now"
  shows "ReserveAliasDeletionQuota db p rid now =
    (Inr \<lparr>dq_used = int (quota_used db p now) + 1, dq_limit = 200, dq_retry_at = zero_time\<rparr>,
     (lockAliasDeletionQuotaPrincipal p db)\<lparr>qd_reservations := granted_rows db p rid now\<rparr>)"
proof -
  let ?L = "lockAliasDeletionQuotaPrincipal p db"
  let ?q = "quota_result (readAliasDeletionQuota ?L p now) now False"
  have owns: "(case find_reservation ?L p rid of None \<Rightarrow> False
      | Some r \<Rightarrow> rv_state r \<noteq> Reserved \<or> to_timestamp now < rv_expires_at r) = False"
    using assms(4) by (simp add: reserve_grants_def reserve_owns_def)
  have zero: "is_zero_time (dq_retry_at ?q)"
    using assms(4) retry_zero_iff [OF assms(1), of p now False] by (simp add: reserve_grants_def)
  have fields: "dq_used ?q = int (quota_used db p now)" "dq_limit ?q = 200"
    by (simp_all add: quota_result_def read_locked Let_def aliasDeletionQuotaLimit_def)
  have "?q\<lparr>dq_used := dq_used ?q + 1\<rparr> =
      \<lparr>dq_used = int (quota_used db p now) + 1, dq_limit = 200, dq_retry_at = zero_time\<rparr>"
    using zero fields by (simp add: is_zero_time_def)
  then show ?thesis
    using assms(2,3) zero
    by (simp add: ReserveAliasDeletionQuota_def validateAliasDeletionQuotaKey_def Let_def
        owns [simplified] granted_rows_def)
qed

lemma reserve_not_granted:
  assumes "quota_inv db" and "trim_space p \<noteq> []" and "trim_space rid \<noteq> []"
    and "\<not> reserve_grants db p rid now"
  shows "ReserveAliasDeletionQuota db p rid now =
    (Inr (quota_result (readAliasDeletionQuota (lockAliasDeletionQuotaPrincipal p db) p now) now
            (reserve_owns db p rid now)),
     lockAliasDeletionQuotaPrincipal p db)"
proof -
  have "\<not> is_zero_time (dq_retry_at (quota_result
          (readAliasDeletionQuota (lockAliasDeletionQuotaPrincipal p db) p now) now
          (reserve_owns db p rid now))) \<or> reserve_owns db p rid now"
    using assms(4) retry_zero_iff [OF assms(1), of p now "reserve_owns db p rid now"]
    by (auto simp: reserve_grants_def)
  then show ?thesis
    using assms(2,3)
    by (auto simp: ReserveAliasDeletionQuota_def validateAliasDeletionQuotaKey_def Let_def
        reserve_owns_def [symmetric])
qed

lemma reserve_invalid:
  "trim_space p = [] \<or> trim_space rid = [] \<Longrightarrow>
   \<exists>e. ReserveAliasDeletionQuota db p rid now = (Inl e, db)"
  by (auto simp: ReserveAliasDeletionQuota_def validateAliasDeletionQuotaKey_def)

lemma quota_inv_granted:
  assumes "quota_inv db"
  shows "quota_inv ((lockAliasDeletionQuotaPrincipal p db)\<lparr>qd_reservations := granted_rows db p rid now\<rparr>)"
proof -
  let ?L = "lockAliasDeletionQuotaPrincipal p db"
  let ?row = "\<lparr>rv_principal = p, rv_id = rid, rv_state = Reserved, rv_accounted_at = to_timestamp now,
      rv_expires_at = to_timestamp (now + aliasDeletionReservationLifetime)\<rparr>"
  have L: "quota_inv ?L" using assms by simp
  show ?thesis
  proof (cases "find_by rv_key (p, rid) (qd_reservations db) = None")
    case True
    then have "granted_rows db p rid now = qd_reservations ?L @ [?row]"
      by (simp add: granted_rows_def upsert_by_def)
    then show ?thesis
      using quota_inv_insert [OF L row_ok_reserved(2)] True by (simp add: lock_principals)
  next
    case False
    then have "granted_rows db p rid now = update_where (\<lambda>r. rv_key r = (p, rid))
      (\<lambda>r. r\<lparr>rv_state := Reserved, rv_accounted_at := to_timestamp now,
            rv_expires_at := to_timestamp (now + aliasDeletionReservationLifetime)\<rparr>)
      (qd_reservations ?L)"
      by (auto simp: granted_rows_def upsert_by_def)
    then show ?thesis
      using quota_inv_update [OF L] row_ok_reserved(1) by simp
  qed
qed

lemma quota_inv_reserve:
  assumes "quota_inv db"
  shows "quota_inv (snd (ReserveAliasDeletionQuota db p rid now))"
proof (cases "trim_space p = [] \<or> trim_space rid = []")
  case True
  then show ?thesis using reserve_invalid [of p rid db now] assms by auto
next
  case False
  then show ?thesis
    using assms reserve_granted [OF assms, of p rid now] reserve_not_granted [OF assms, of p rid now]
      quota_inv_granted [OF assms, of p rid now]
    by (cases "reserve_grants db p rid now") simp_all
qed

lemma quota_inv_mark:
  assumes "quota_inv db"
  shows "quota_inv (snd (MarkAliasDeletionQuotaSent db p rid now))"
proof (cases "find_reservation db p rid")
  case None
  then show ?thesis using assms
    by (simp add: MarkAliasDeletionQuotaSent_def Let_def split: option.split)
next
  case (Some r)
  then have "row_ok r" using assms quota_inv_row find_reservation_SomeD by blast
  then show ?thesis
    using assms Some unfolding MarkAliasDeletionQuotaSent_def Let_def
    by (auto split: option.split simp: row_ok_def intro!: quota_inv_update_locked)
qed

lemma quota_inv_commit:
  assumes "quota_inv db"
  shows "quota_inv (snd (CommitAliasDeletionQuota db p rid now))"
proof (cases "find_reservation db p rid")
  case None
  then show ?thesis using assms
    by (simp add: CommitAliasDeletionQuota_def Let_def split: option.split)
next
  case (Some r)
  then have "row_ok r" using assms quota_inv_row find_reservation_SomeD by blast
  then show ?thesis
    using assms Some unfolding CommitAliasDeletionQuota_def Let_def
    by (auto split: option.split simp: row_ok_def intro!: quota_inv_update_locked)
qed

lemma quota_inv_release:
  "quota_inv db \<Longrightarrow> quota_inv (snd (ReleaseAliasDeletionQuota db p rid))"
  unfolding ReleaseAliasDeletionQuota_def Let_def
  using quota_inv_delete [of "lockAliasDeletionQuotaPrincipal p db"]
  by (auto split: option.splits)

lemma quota_inv_defer:
  "quota_inv db \<Longrightarrow> quota_inv (snd (DeferAliasDeletionQuota db p until))"
  unfolding DeferAliasDeletionQuota_def
  by (auto split: option.splits simp: quota_inv_def find_by_upsert_by unique_key_upsert_by
        dest!: set_mp [OF set_upsert_by])

lemmas quota_inv_ops =
  quota_inv_reserve quota_inv_mark quota_inv_commit quota_inv_release quota_inv_defer

subsection \<open>How the operations change what is counted\<close>

lemma used_granted:
  "quota_inv db \<Longrightarrow>
   quota_used ((lockAliasDeletionQuotaPrincipal p db)\<lparr>qd_reservations := granted_rows db p rid now\<rparr>) q t
     \<le> Suc (quota_used db q t)"
  using count_where_upsert_by [OF quota_invD(2)] by (simp add: quota_used_def granted_rows_def)

lemma used_granted_other:
  assumes "quota_inv db" and "q \<noteq> p"
  shows "quota_used ((lockAliasDeletionQuotaPrincipal p db)\<lparr>qd_reservations := granted_rows db p rid now\<rparr>) q t
     = quota_used db q t"
proof -
  have *: "count_where (quota_live q x) (update_where (\<lambda>r. rv_key r = (p, rid)) f rows) =
      count_where (quota_live q x) rows"
    if "\<And>r. rv_principal (f r) = rv_principal r" for f x and rows :: "reservation list"
    using assms(2) that
    by (induction rows) (auto simp: count_where_Cons update_where_Cons quota_live_def rv_key_def)
  have "count_where (quota_live q (to_timestamp t)) (granted_rows db p rid now)
     = count_where (quota_live q (to_timestamp t)) (qd_reservations db)"
  proof (cases "find_by rv_key (p, rid) (qd_reservations db) = None")
    case True
    then show ?thesis using assms(2)
      by (simp add: granted_rows_def upsert_by_def count_where_Cons quota_live_def)
  next
    case False
    then obtain y where "find_by rv_key (p, rid) (qd_reservations db) = Some y" by blast
    then show ?thesis
      by (simp add: granted_rows_def upsert_by_def *)
  qed
  then show ?thesis by (simp add: quota_used_def)
qed

lemma reserve_used_bound:
  assumes "quota_inv db" and "\<And>q. quota_used db q now \<le> 200"
  shows "quota_used (snd (ReserveAliasDeletionQuota db p rid now)) q now \<le> 200"
proof (cases "trim_space p = [] \<or> trim_space rid = []")
  case True
  then show ?thesis using reserve_invalid [of p rid db now] assms(2) by auto
next
  case valid: False
  show ?thesis
  proof (cases "reserve_grants db p rid now")
    case True
    then have room: "quota_used db p now < 200" by (simp add: reserve_grants_def)
    have state: "snd (ReserveAliasDeletionQuota db p rid now) =
        (lockAliasDeletionQuotaPrincipal p db)\<lparr>qd_reservations := granted_rows db p rid now\<rparr>"
      using valid reserve_granted [OF assms(1) _ _ True] by simp
    show ?thesis
    proof (cases "q = p")
      case True
      with room state used_granted [OF assms(1), of p rid now p now] show ?thesis by simp
    next
      case False
      with state used_granted_other [OF assms(1) False] assms(2) show ?thesis by simp
    qed
  next
    case False
    then show ?thesis using valid reserve_not_granted [OF assms(1)] assms(2) by simp
  qed
qed

lemma used_update_live:
  assumes "quota_inv db" and "find_reservation db p rid = Some r" and "to_timestamp now < rv_expires_at r"
    and keep: "\<And>x. rv_principal (f x) = rv_principal x"
  shows "count_where (quota_live q (to_timestamp now))
           (update_where (\<lambda>r. rv_key r = (p, rid)) f (qd_reservations db)) \<le> quota_used db q now"
  unfolding quota_used_def
proof (rule count_where_update_where_le)
  fix x
  assume x: "x \<in> set (qd_reservations db)" "rv_key x = (p, rid)" and live: "quota_live q (to_timestamp now) (f x)"
  then have "x = r"
    using assms(1,2) find_by_unique [OF quota_invD(2) [OF assms(1)], of x "(p, rid)"]
    by (simp add: find_reservation_def)
  with live keep assms(3) show "quota_live q (to_timestamp now) x"
    by (simp add: quota_live_def)
qed

lemma mark_used_le:
  assumes "quota_inv db"
  shows "quota_used (snd (MarkAliasDeletionQuotaSent db p rid now)) q now \<le> quota_used db q now"
proof (cases "find_reservation db p rid")
  case None
  then show ?thesis
    by (simp add: MarkAliasDeletionQuotaSent_def Let_def split: option.split)
next
  case (Some r)
  then show ?thesis
    using used_update_live [OF assms Some]
    unfolding MarkAliasDeletionQuotaSent_def Let_def quota_used_def
    by (simp split: option.split)
qed

lemma commit_used_le:
  assumes "quota_inv db"
    and "\<And>r. find_reservation db p rid = Some r \<Longrightarrow> to_timestamp now < rv_expires_at r"
  shows "quota_used (snd (CommitAliasDeletionQuota db p rid now)) q now \<le> quota_used db q now"
proof (cases "find_reservation db p rid")
  case None
  then show ?thesis
    by (simp add: CommitAliasDeletionQuota_def Let_def split: option.split)
next
  case (Some r)
  then show ?thesis
    using used_update_live [OF assms(1) Some assms(2) [OF Some]]
    unfolding CommitAliasDeletionQuota_def Let_def quota_used_def
    by (simp split: option.split)
qed

lemma release_used_le:
  "quota_used (snd (ReleaseAliasDeletionQuota db p rid)) q now \<le> quota_used db q now"
  unfolding ReleaseAliasDeletionQuota_def Let_def quota_used_def
  by (simp add: count_where_delete_where split: option.split)

lemma defer_used [simp]:
  "quota_used (snd (DeferAliasDeletionQuota db p until)) q now = quota_used db q now"
  unfolding DeferAliasDeletionQuota_def quota_used_def by (simp split: option.split)

lemma used_antimono:
  "to_timestamp now \<le> to_timestamp now' \<Longrightarrow> quota_used db q now' \<le> quota_used db q now"
  unfolding quota_used_def by (rule count_where_mono) (simp add: quota_live_def)

subsection \<open>Runs of the quota\<close>

text \<open>
  A run interleaves the operations of every entry point with the passing of time. Its one
  assumption on the callers is the rule \<open>qs_commit\<close>: a response is accounted before the two-hour
  lease that \<open>MarkAliasDeletionQuotaSent\<close> took has expired. The callers bound the request by five
  minutes (\<open>aliasDeletionItemTimeout\<close> in \<open>internal/hmesync/alias_delete_queue.go\<close>).
\<close>

type_synonym quota_sys = "time \<times> quota_db"

inductive quota_step :: "quota_sys \<Rightarrow> quota_sys \<Rightarrow> bool" where
  qs_tick: "now \<le> now' \<Longrightarrow> sane_clock now' \<Longrightarrow> quota_step (now, db) (now', db)"
| qs_reserve: "quota_step (now, db) (now, snd (ReserveAliasDeletionQuota db p rid now))"
| qs_mark: "quota_step (now, db) (now, snd (MarkAliasDeletionQuotaSent db p rid now))"
| qs_commit: "find_reservation db p rid = Some r \<Longrightarrow> to_timestamp now < rv_expires_at r \<Longrightarrow>
    quota_step (now, db) (now, snd (CommitAliasDeletionQuota db p rid now))"
| qs_release: "quota_step (now, db) (now, snd (ReleaseAliasDeletionQuota db p rid))"
| qs_defer: "quota_step (now, db) (now, snd (DeferAliasDeletionQuota db p until))"

inductive_cases quota_stepE: "quota_step (now, db) s'"

inductive quota_reachable :: "quota_sys \<Rightarrow> bool" where
  qr_start: "sane_clock now \<Longrightarrow> quota_reachable (now, empty_quota_db)"
| qr_step: "quota_reachable s \<Longrightarrow> quota_step s s' \<Longrightarrow> quota_reachable s'"

definition accounted_past :: "quota_sys \<Rightarrow> bool" where
  "accounted_past s \<longleftrightarrow> (\<forall>r \<in> set (qd_reservations (snd s)).
      0 \<le> rv_accounted_at r \<and> rv_accounted_at r \<le> fst s)"

definition quota_sys_inv :: "quota_sys \<Rightarrow> bool" where
  "quota_sys_inv s \<longleftrightarrow> sane_clock (fst s) \<and> quota_inv (snd s) \<and> accounted_past s \<and>
     (\<forall>p. quota_used (snd s) p (fst s) \<le> 200)"

lemma accounted_reserve:
  assumes "quota_inv db" and "sane_clock now" and "accounted_past (now, db)"
  shows "accounted_past (now, snd (ReserveAliasDeletionQuota db p rid now))"
proof (cases "trim_space p = [] \<or> trim_space rid = []")
  case True
  then show ?thesis using reserve_invalid [of p rid db now] assms by auto
next
  case valid: False
  have "0 \<le> now" using assms(2) by (simp add: sane_clock_def)
  then show ?thesis
    using valid assms reserve_granted [OF assms(1), of p rid now]
      reserve_not_granted [OF assms(1), of p rid now]
    by (cases "reserve_grants db p rid now")
       (auto simp: accounted_past_def granted_rows_def dest!: set_mp [OF set_upsert_by])
qed

lemma accounted_update:
  assumes "accounted_past (now, db)" and "\<And>x. x \<in> set (qd_reservations db) \<Longrightarrow> P x \<Longrightarrow> 0 \<le> rv_accounted_at (f x) \<and> rv_accounted_at (f x) \<le> now"
  shows "accounted_past (now, db'\<lparr>qd_reservations := update_where P f (qd_reservations db)\<rparr>)"
  using assms by (auto simp: accounted_past_def set_update_where)

lemma accounted_mark:
  assumes "sane_clock now" and "accounted_past (now, db)"
  shows "accounted_past (now, snd (MarkAliasDeletionQuotaSent db p rid now))"
proof (cases "find_reservation db p rid")
  case None
  then show ?thesis using assms
    by (simp add: MarkAliasDeletionQuotaSent_def Let_def split: option.split)
next
  case (Some r)
  then have "0 \<le> rv_accounted_at r \<and> rv_accounted_at r \<le> now"
    using assms(2) find_reservation_SomeD by (fastforce simp: accounted_past_def)
  moreover have "0 \<le> now" using assms(1) by (simp add: sane_clock_def)
  ultimately show ?thesis
    using assms Some unfolding MarkAliasDeletionQuotaSent_def Let_def
    by (auto split: option.split intro!: accounted_update)
qed

lemma accounted_commit:
  assumes "sane_clock now" and "accounted_past (now, db)"
  shows "accounted_past (now, snd (CommitAliasDeletionQuota db p rid now))"
proof (cases "find_reservation db p rid")
  case None
  then show ?thesis using assms
    by (simp add: CommitAliasDeletionQuota_def Let_def split: option.split)
next
  case (Some r)
  then have "0 \<le> rv_accounted_at r \<and> rv_accounted_at r \<le> now"
    using assms(2) find_reservation_SomeD by (fastforce simp: accounted_past_def)
  moreover have "0 \<le> now" using assms(1) by (simp add: sane_clock_def)
  ultimately show ?thesis
    using assms Some unfolding CommitAliasDeletionQuota_def Let_def
    by (auto split: option.split intro!: accounted_update)
qed

lemma quota_sys_invI:
  "sane_clock now \<Longrightarrow> quota_inv db \<Longrightarrow> accounted_past (now, db) \<Longrightarrow>
   (\<And>p. quota_used db p now \<le> 200) \<Longrightarrow> quota_sys_inv (now, db)"
  by (simp add: quota_sys_inv_def)

lemma quota_sys_invD:
  assumes "quota_sys_inv (now, db)"
  shows "sane_clock now" and "quota_inv db" and "accounted_past (now, db)"
    and "quota_used db p now \<le> 200"
  using assms by (simp_all add: quota_sys_inv_def)

lemma accounted_release:
  "accounted_past (now, db) \<Longrightarrow> accounted_past (now, snd (ReleaseAliasDeletionQuota db p rid))"
  unfolding ReleaseAliasDeletionQuota_def Let_def
  by (auto simp: accounted_past_def split: option.split)

lemma accounted_defer:
  "accounted_past (now, db) \<Longrightarrow> accounted_past (now, snd (DeferAliasDeletionQuota db p until))"
  unfolding DeferAliasDeletionQuota_def
  by (auto simp: accounted_past_def split: option.split)

lemma quota_step_inv: "quota_step s s' \<Longrightarrow> quota_sys_inv s \<Longrightarrow> quota_sys_inv s'"
proof (induction rule: quota_step.induct)
  case (qs_tick now now' db)
  note inv = quota_sys_invD [OF qs_tick.prems]
  have le: "to_timestamp now \<le> to_timestamp now'" using qs_tick.hyps inv(1) by simp
  show ?case
  proof (rule quota_sys_invI)
    show "accounted_past (now', db)" using inv(3) qs_tick.hyps(1) by (fastforce simp: accounted_past_def)
    show "quota_used db p now' \<le> 200" for p using used_antimono [OF le, of db p] inv(4) [of p] by linarith
  qed (fact qs_tick.hyps inv)+
next
  case (qs_reserve now db p rid)
  note inv = quota_sys_invD [OF qs_reserve.prems]
  show ?case
    by (rule quota_sys_invI [OF inv(1) quota_inv_reserve [OF inv(2)] accounted_reserve [OF inv(2,1,3)]
        reserve_used_bound [OF inv(2,4)]])
next
  case (qs_mark now db p rid)
  note inv = quota_sys_invD [OF qs_mark.prems]
  show ?case
    by (rule quota_sys_invI [OF inv(1) quota_inv_mark [OF inv(2)] accounted_mark [OF inv(1,3)]
        order_trans [OF mark_used_le [OF inv(2)] inv(4)]])
next
  case (qs_commit db p rid r now)
  note inv = quota_sys_invD [OF qs_commit.prems]
  have "to_timestamp now < rv_expires_at x" if "find_reservation db p rid = Some x" for x
    using qs_commit.hyps that by simp
  note le = commit_used_le [OF inv(2) this]
  show ?case
    by (rule quota_sys_invI [OF inv(1) quota_inv_commit [OF inv(2)] accounted_commit [OF inv(1,3)]
        order_trans [OF le inv(4)]])
next
  case (qs_release now db p rid)
  note inv = quota_sys_invD [OF qs_release.prems]
  show ?case
    by (rule quota_sys_invI [OF inv(1) quota_inv_release [OF inv(2)] accounted_release [OF inv(3)]
        order_trans [OF release_used_le inv(4)]])
next
  case (qs_defer now db p until)
  note inv = quota_sys_invD [OF qs_defer.prems]
  show ?case
    by (rule quota_sys_invI [OF inv(1) quota_inv_defer [OF inv(2)] accounted_defer [OF inv(3)]])
       (simp add: inv(4))
qed

lemma quota_reachable_inv: "quota_reachable s \<Longrightarrow> quota_sys_inv s"
proof (induction rule: quota_reachable.induct)
  case (qr_start now)
  then show ?case
    by (simp add: quota_sys_inv_def accounted_past_def quota_used_def empty_quota_db_def
        quota_inv_empty [unfolded empty_quota_db_def])
next
  case (qr_step s s')
  then show ?case by (blast intro: quota_step_inv)
qed

subsection \<open>Reading one reservation back\<close>

definition quota_status :: "quota_db \<Rightarrow> string \<Rightarrow> string \<Rightarrow> quota_state option" where
  "quota_status db p rid = map_option rv_state (find_reservation db p rid)"

lemma find_granted:
  "find_reservation ((lockAliasDeletionQuotaPrincipal p db)\<lparr>qd_reservations := granted_rows db p rid now\<rparr>) q i =
     (if (q, i) = (p, rid)
      then Some \<lparr>rv_principal = p, rv_id = rid, rv_state = Reserved, rv_accounted_at = to_timestamp now,
                 rv_expires_at = to_timestamp (now + aliasDeletionReservationLifetime)\<rparr>
      else find_reservation db q i)"
proof -
  have "(\<lambda>r. r\<lparr>rv_state := Reserved, rv_accounted_at := a, rv_expires_at := e\<rparr>) r =
      \<lparr>rv_principal = p, rv_id = rid, rv_state = Reserved, rv_accounted_at = a, rv_expires_at = e\<rparr>"
    if "find_by rv_key (p, rid) (qd_reservations db) = Some r" for r a e
    using find_by_SomeD [OF that] by (cases r) (simp add: rv_key_def)
  then show ?thesis
    unfolding find_reservation_def granted_rows_def
    by (auto simp: find_by_upsert_by split: option.split)
qed

lemma find_update_row:
  assumes "\<And>r. rv_key (f r) = rv_key r"
  shows "find_by rv_key k (update_where (\<lambda>r. rv_key r = k') f rows) =
     (if k = k' then map_option f (find_by rv_key k rows) else find_by rv_key k rows)"
proof -
  have "find_by rv_key k (update_where (\<lambda>r. rv_key r = k') f rows) =
      map_option (\<lambda>r. if rv_key r = k' then f r else r) (find_by rv_key k rows)"
    by (rule find_by_update_where) (use assms in blast)
  then show ?thesis
    by (cases "find_by rv_key k rows") (auto dest: find_by_SomeD)
qed

lemma find_mark:
  assumes "MarkAliasDeletionQuotaSent db p rid now = (Inr (), db')"
  obtains r where "find_reservation db p rid = Some r" and "rv_state r \<noteq> Committed"
    and "find_reservation db' p rid = Some (r\<lparr>rv_state := Sent,
           rv_accounted_at := max (rv_accounted_at r) (to_timestamp now),
           rv_expires_at := max (rv_expires_at r)
             (to_timestamp (max (rv_accounted_at r) (to_timestamp now) + aliasDeletionReservationLifetime))\<rparr>)"
    and "\<And>q i. (q, i) \<noteq> (p, rid) \<Longrightarrow> find_reservation db' q i = find_reservation db q i"
proof -
  from assms obtain r where "find_reservation db p rid = Some r" "rv_state r \<noteq> Committed"
    and "qd_reservations db' = update_where (\<lambda>r. rv_key r = (p, rid))
        (\<lambda>x. x\<lparr>rv_state := Sent, rv_accounted_at := max (rv_accounted_at r) (to_timestamp now),
           rv_expires_at := max (rv_expires_at r)
             (to_timestamp (max (rv_accounted_at r) (to_timestamp now) + aliasDeletionReservationLifetime))\<rparr>)
        (qd_reservations db)"
    unfolding MarkAliasDeletionQuotaSent_def Let_def
    by (auto split: option.splits if_splits)
  then show thesis
    by (intro that [of r]) (auto simp add: find_reservation_def find_update_row)
qed

lemma find_commit:
  assumes "CommitAliasDeletionQuota db p rid now = (Inr (), db')"
  obtains r where "find_reservation db p rid = Some r"
    and "find_reservation db' p rid = Some (r\<lparr>rv_state := Committed,
           rv_accounted_at := max (rv_accounted_at r) (to_timestamp now),
           rv_expires_at :=
             to_timestamp (max (rv_accounted_at r) (to_timestamp now) + aliasDeletionQuotaWindow)\<rparr>)"
    and "\<And>q i. (q, i) \<noteq> (p, rid) \<Longrightarrow> find_reservation db' q i = find_reservation db q i"
proof -
  from assms obtain r where "find_reservation db p rid = Some r"
    and "qd_reservations db' = update_where (\<lambda>r. rv_key r = (p, rid))
        (\<lambda>x. x\<lparr>rv_state := Committed, rv_accounted_at := max (rv_accounted_at r) (to_timestamp now),
           rv_expires_at :=
             to_timestamp (max (rv_accounted_at r) (to_timestamp now) + aliasDeletionQuotaWindow)\<rparr>)
        (qd_reservations db)"
    unfolding CommitAliasDeletionQuota_def Let_def
    by (auto split: option.splits if_splits)
  then show thesis
    by (intro that [of r]) (auto simp add: find_reservation_def find_update_row)
qed

lemma op_error_unchanged:
  "MarkAliasDeletionQuotaSent db p rid now = (Inl e, db') \<Longrightarrow> db' = db"
  "CommitAliasDeletionQuota db p rid now = (Inl e, db') \<Longrightarrow> db' = db"
  "ReleaseAliasDeletionQuota db p rid = (Inl e, db') \<Longrightarrow> db' = db"
  "ReserveAliasDeletionQuota db p rid now = (Inl e, db') \<Longrightarrow> db' = db"
  by (auto simp: MarkAliasDeletionQuotaSent_def CommitAliasDeletionQuota_def Let_def
        ReleaseAliasDeletionQuota_def ReserveAliasDeletionQuota_def split: option.splits if_splits)

lemma unique_find_filter:
  "unique_key key rows \<Longrightarrow>
   find_by key k (filter P rows) =
     (case find_by key k rows of None \<Rightarrow> None | Some r \<Rightarrow> if P r then Some r else None)"
proof (induction rows)
  case Nil
  then show ?case by simp
next
  case (Cons a rows)
  have uniq: "unique_key key rows" and notin: "key a \<notin> key ` set rows"
    using Cons.prems by (auto simp: unique_key_def)
  show ?case
  proof (cases "key a = k")
    case True
    with notin have "k \<notin> key ` set rows" by simp
    then have "find_by key k rows = None" by (auto simp: find_by_None)
    with True Cons.IH [OF uniq] show ?thesis by (simp add: find_by_Cons)
  next
    case False
    with Cons.IH [OF uniq] show ?thesis by (simp add: find_by_Cons)
  qed
qed

lemma find_release:
  assumes "quota_inv db" and "trim_space p \<noteq> []" and "trim_space rid \<noteq> []"
  shows "find_reservation (snd (ReleaseAliasDeletionQuota db p rid)) q i =
     (case find_reservation db q i of
        None \<Rightarrow> None
      | Some r \<Rightarrow> if (q, i) = (p, rid) \<and> rv_state r = Reserved then None else Some r)"
proof -
  have "find_reservation (snd (ReleaseAliasDeletionQuota db p rid)) q i =
     find_by rv_key (q, i) (filter (\<lambda>r. \<not> (rv_key r = (p, rid) \<and> rv_state r = Reserved)) (qd_reservations db))"
    using assms(2,3)
    by (simp add: ReleaseAliasDeletionQuota_def validateAliasDeletionQuotaKey_def find_reservation_def
        Let_def delete_where_def)
  then show ?thesis
    using unique_find_filter [OF quota_invD(2) [OF assms(1)]]
    by (auto simp: find_reservation_def dest: find_by_SomeD split: option.split)
qed

lemma lock_idem: "find_by pr_principal p (qd_principals db) \<noteq> None \<Longrightarrow>
    lockAliasDeletionQuotaPrincipal p db = db"
  by (cases db) (auto simp: lockAliasDeletionQuotaPrincipal_def upsert_by_def update_where_id)

subsection \<open>Cooldown and retry time\<close>

lemma cooldown_reserve:
  assumes "quota_inv db"
  shows "quota_cooldown (snd (ReserveAliasDeletionQuota db p rid now)) q = quota_cooldown db q"
proof (cases "trim_space p = [] \<or> trim_space rid = []")
  case True
  then show ?thesis using reserve_invalid [of p rid db now] by auto
next
  case False
  have "quota_cooldown ((lockAliasDeletionQuotaPrincipal p db)\<lparr>qd_reservations := rows\<rparr>) q =
      quota_cooldown (lockAliasDeletionQuotaPrincipal p db) q" for rows
    by (simp add: quota_cooldown_def)
  with False show ?thesis
    using reserve_granted [OF assms, of p rid now] reserve_not_granted [OF assms, of p rid now]
    by (cases "reserve_grants db p rid now") simp_all
qed

lemma cooldown_rows [simp]: "quota_cooldown (db\<lparr>qd_reservations := rows\<rparr>) q = quota_cooldown db q"
  by (simp add: quota_cooldown_def)

lemma cooldown_others [simp]:
  "quota_cooldown (snd (MarkAliasDeletionQuotaSent db p rid now)) q = quota_cooldown db q"
  "quota_cooldown (snd (CommitAliasDeletionQuota db p rid now)) q = quota_cooldown db q"
  "quota_cooldown (snd (ReleaseAliasDeletionQuota db p rid)) q = quota_cooldown db q"
  by (simp_all add: MarkAliasDeletionQuotaSent_def CommitAliasDeletionQuota_def Let_def
        ReleaseAliasDeletionQuota_def split: option.split)

lemma cooldown_defer:
  assumes "trim_space p \<noteq> []" and "\<not> is_zero_time until"
  shows "quota_cooldown (snd (DeferAliasDeletionQuota db p until)) q =
     (if q = p then
        (case find_by pr_principal p (qd_principals db) of
           None \<Rightarrow> to_timestamp until | Some r \<Rightarrow> max (pr_cooldown_until r) (to_timestamp until))
      else quota_cooldown db q)"
  using assms
  by (auto simp: DeferAliasDeletionQuota_def validateAliasDeletionQuotaKey_def quota_cooldown_def
      find_by_upsert_by max_def split: option.split)

lemma cooldown_step:
  assumes "quota_step s s'" and "quota_inv (snd s)" and "0 < quota_cooldown (snd s) q"
  shows "quota_cooldown (snd s) q \<le> quota_cooldown (snd s') q"
  using assms
proof (induction rule: quota_step.induct)
  case (qs_defer now db p until)
  show ?case
  proof (cases "trim_space p = [] \<or> is_zero_time until")
    case True
    then show ?thesis
      by (auto simp: DeferAliasDeletionQuota_def validateAliasDeletionQuotaKey_def split: option.split)
  next
    case False
    then show ?thesis using cooldown_defer [of p until db q] qs_defer.prems(2)
      by (auto simp: quota_cooldown_def split: option.splits)
  qed
qed (simp_all add: cooldown_reserve)

lemma quota_step_quota_inv: "quota_step s s' \<Longrightarrow> quota_inv (snd s) \<Longrightarrow> quota_inv (snd s')"
proof (induction rule: quota_step.induct)
  case (qs_defer now db p until)
  then show ?case using quota_inv_defer by simp
qed (simp_all add: quota_inv_reserve quota_inv_mark quota_inv_commit quota_inv_release)

lemma quota_steps_cooldown:
  assumes "quota_step\<^sup>*\<^sup>* s s'" and "quota_inv (snd s)" and "0 < quota_cooldown (snd s) q"
  shows "quota_inv (snd s') \<and> quota_cooldown (snd s) q \<le> quota_cooldown (snd s') q"
  using assms
proof (induction rule: rtranclp_induct)
  case (step s1 s2)
  then have "quota_inv (snd s1)" "quota_cooldown (snd s) q \<le> quota_cooldown (snd s1) q" by auto
  moreover from this have "quota_cooldown (snd s1) q \<le> quota_cooldown (snd s2) q"
    using cooldown_step [OF step.hyps(2)] step.prems(2) by simp
  ultimately show ?case using quota_step_quota_inv [OF step.hyps(2)] by simp
qed simp

lemma reserve_eq:
  assumes "quota_inv db" and "trim_space p \<noteq> []" and "trim_space rid \<noteq> []"
    and that: "ReserveAliasDeletionQuota db p rid now = (Inr q, db')"
  shows "is_zero_time (dq_retry_at q) \<longleftrightarrow>
      (reserve_owns db p rid now \<or> quota_used db p now < 200) \<and> quota_cooldown db p \<le> to_timestamp now"
proof (cases "reserve_grants db p rid now")
  case True
  then show ?thesis using reserve_granted [OF assms(1-3) True] that by (auto simp: reserve_grants_def is_zero_time_def)
next
  case False
  then show ?thesis
    using reserve_not_granted [OF assms(1-3) False] that
      retry_zero_iff [OF assms(1), of p now "reserve_owns db p rid now"] by auto
qed

lemma quota_result_retry:
  assumes "int64 (qs_cooldown_until v)" and "\<forall>e. qs_earliest_expiry v = Some e \<longrightarrow> int64 e"
  shows "dq_retry_at (quota_result v now owns) =
     (case (if \<not> owns \<and> 200 \<le> qs_used v then qs_earliest_expiry v else None) of
        None \<Rightarrow> if to_timestamp now < qs_cooldown_until v then qs_cooldown_until v else zero_time
      | Some e \<Rightarrow> if to_timestamp now < qs_cooldown_until v \<and> e < qs_cooldown_until v
                  then qs_cooldown_until v else e)"
  using assms
  by (cases "qs_earliest_expiry v"; cases "\<not> owns \<and> 200 \<le> qs_used v")
     (auto simp: quota_result_def Let_def aliasDeletionQuotaLimit_def is_zero_time_def [of zero_time])

lemma refused_retry:
  assumes "quota_inv db" and "\<not> is_zero_time (dq_retry_at q)"
    and "q = quota_result (readAliasDeletionQuota (lockAliasDeletionQuotaPrincipal p db) p now) now owns"
  shows "int64 (dq_retry_at q)"
    and "quota_cooldown db p \<le> max (to_timestamp now) (dq_retry_at q)"
    and "\<not> owns \<Longrightarrow> 200 \<le> quota_used db p now \<Longrightarrow>
      \<exists>r \<in> set (qd_reservations db). quota_live p (to_timestamp now) r \<and> rv_expires_at r \<le> dq_retry_at q"
proof -
  let ?rows = "filter (quota_live p (to_timestamp now)) (qd_reservations db)"
  let ?c = "quota_cooldown db p"
  have cool: "int64 ?c"
    using assms(1) unfolding quota_cooldown_def quota_inv_def
    by (auto split: option.splits dest!: find_by_SomeD simp: int64_def)
  have early: "int64 e \<and> (\<exists>r \<in> set ?rows. rv_expires_at r = e)"
    if "min_opt (map rv_expires_at ?rows) = Some e" for e
    using min_opt_Some [OF that] quota_invD(3) [OF assms(1)] by auto
  have e64: "\<forall>e. min_opt (map rv_expires_at ?rows) = Some e \<longrightarrow> int64 e"
    using early by blast
  let ?v = "readAliasDeletionQuota (lockAliasDeletionQuotaPrincipal p db) p now"
  have snap: "qs_used ?v = int (quota_used db p now)" "qs_cooldown_until ?v = ?c"
    "qs_earliest_expiry ?v = min_opt (map rv_expires_at ?rows)"
    by (simp_all only: read_locked quota_snapshot.simps)
  have used: "(200 \<le> int (quota_used db p now)) = (200 \<le> quota_used db p now)" by simp
  have retry: "dq_retry_at q =
     (case (if \<not> owns \<and> 200 \<le> quota_used db p now then min_opt (map rv_expires_at ?rows) else None) of
        None \<Rightarrow> if to_timestamp now < ?c then ?c else zero_time
      | Some e \<Rightarrow> if to_timestamp now < ?c \<and> e < ?c then ?c else e)"
    by (rule quota_result_retry [of ?v now owns, unfolded snap used, OF cool e64, folded assms(3)])
  have zz: "is_zero_time zero_time" by (simp add: is_zero_time_def)
  have "dq_retry_at q = zero_time \<or> dq_retry_at q = ?c \<or> min_opt (map rv_expires_at ?rows) = Some (dq_retry_at q)"
    by (subst (1 2 3) retry) (simp split: option.split)
  then show "int64 (dq_retry_at q)"
    using assms(2) zz cool e64 by metis
  have "?c \<le> to_timestamp now \<or> dq_retry_at q = ?c \<or> ?c \<le> dq_retry_at q"
    by (subst (1 2) retry) (simp split: option.split)
  then show "?c \<le> max (to_timestamp now) (dq_retry_at q)"
    by linarith
  assume "\<not> owns" and full: "200 \<le> quota_used db p now"
  then have "?rows \<noteq> []" by (auto simp: quota_used_def count_where_def)
  then obtain e where e: "min_opt (map rv_expires_at ?rows) = Some e"
    using min_opt_None by (cases "min_opt (map rv_expires_at ?rows)") simp_all
  then have "e \<le> dq_retry_at q"
    using \<open>\<not> owns\<close> full by (subst retry) (simp add: e)
  with early [OF e] show "\<exists>r \<in> set (qd_reservations db). quota_live p (to_timestamp now) r \<and>
        rv_expires_at r \<le> dq_retry_at q" by auto
qed

subsection \<open>Properties\<close>


text \<open>A committed deletion is never forgotten or moved back: after any step of any caller its row
  is still there, still committed, and accounted no earlier than before.\<close>

theorem committed_never_forgotten:
  assumes "quota_step (now, db) (now', db')" and "quota_inv db"
    and "find_reservation db p rid = Some r" and "rv_state r = Committed"
  shows "\<exists>r'. find_reservation db' p rid = Some r' \<and> rv_state r' = Committed \<and>
           rv_accounted_at r \<le> rv_accounted_at r'"
  using assms(1)
proof (cases rule: quota_step.cases)
  case (qs_reserve q i)
  have owns: "q = p \<Longrightarrow> i = rid \<Longrightarrow> \<not> reserve_grants db q i now"
    using assms(3,4) by (simp add: reserve_grants_def reserve_owns_def)
  show ?thesis
  proof (cases "trim_space q = [] \<or> trim_space i = []")
    case True
    then show ?thesis using reserve_invalid [of q i db now] assms(3,4) qs_reserve by auto
  next
    case False
    then show ?thesis
      using qs_reserve assms owns reserve_granted [OF assms(2), of q i now]
        reserve_not_granted [OF assms(2), of q i now]
      by (cases "reserve_grants db q i now") (auto simp: find_granted)
  qed
next
  case (qs_mark q i)
  show ?thesis
  proof (cases "MarkAliasDeletionQuotaSent db q i now")
    case (Pair res d)
    show ?thesis
    proof (cases res)
      case (Inl e)
      then show ?thesis using qs_mark assms(3,4) op_error_unchanged(1) [of db q i now] Pair by auto
    next
      case (Inr u)
      with Pair have "MarkAliasDeletionQuotaSent db q i now = (Inr (), d)" by simp
      note ok = find_mark [OF this]
      have db': "db' = d" using Pair qs_mark by simp
      show ?thesis
      proof (cases "(p, rid) = (q, i)")
        case True
        show ?thesis by (rule ok) (use True assms(3,4) db' in auto)
      next
        case False
        show ?thesis by (rule ok) (use False assms(3,4) db' in auto)
      qed
    qed
  qed
next
  case (qs_commit q i r0)
  show ?thesis
  proof (cases "CommitAliasDeletionQuota db q i now")
    case (Pair res d)
    show ?thesis
    proof (cases res)
      case (Inl e)
      then show ?thesis using qs_commit assms(3,4) op_error_unchanged(2) [of db q i now] Pair by auto
    next
      case (Inr u)
      with Pair have "CommitAliasDeletionQuota db q i now = (Inr (), d)" by simp
      note ok = find_commit [OF this]
      have db': "db' = d" using Pair qs_commit by simp
      show ?thesis
      proof (cases "(p, rid) = (q, i)")
        case True
        show ?thesis by (rule ok) (use True assms(3,4) db' in auto)
      next
        case False
        show ?thesis by (rule ok) (use False assms(3,4) db' in auto)
      qed
    qed
  qed
next
  case (qs_release q i)
  then show ?thesis
    using assms(2-4) find_release [OF assms(2), of q i p rid]
    by (cases "trim_space q = [] \<or> trim_space i = []")
       (auto simp: ReleaseAliasDeletionQuota_def validateAliasDeletionQuotaKey_def Let_def)
next
  case (qs_defer q until)
  then show ?thesis
    using assms(3,4) by (auto simp: DeferAliasDeletionQuota_def find_reservation_def split: option.splits)
qed (use assms(3,4) in auto)

text \<open>The decision of a reservation with valid keys: it is refused (a retry time is reported)
  exactly when the principal's cooldown has not passed, or when 200 live reservations are counted and
  the caller owns none; only a granted reservation writes its row, and no other row is touched.\<close>

theorem reserve_decides:
  assumes "quota_inv db" and "trim_space p \<noteq> []" and "trim_space rid \<noteq> []"
    and "ReserveAliasDeletionQuota db p rid now = (Inr q, db')"
  shows "(is_zero_time (dq_retry_at q) \<longleftrightarrow>
      (reserve_owns db p rid now \<or> quota_used db p now < 200) \<and> quota_cooldown db p \<le> to_timestamp now) \<and>
    find_reservation db' p' i =
      (if (p', i) = (p, rid) \<and> \<not> reserve_owns db p rid now \<and> is_zero_time (dq_retry_at q)
       then Some \<lparr>rv_principal = p, rv_id = rid, rv_state = Reserved, rv_accounted_at = to_timestamp now,
                  rv_expires_at = to_timestamp (now + aliasDeletionReservationLifetime)\<rparr>
       else find_reservation db p' i)"
proof (rule conjI)
  show *: "is_zero_time (dq_retry_at q) \<longleftrightarrow>
      (reserve_owns db p rid now \<or> quota_used db p now < 200) \<and> quota_cooldown db p \<le> to_timestamp now"
    by (rule reserve_eq [OF assms])
  show "find_reservation db' p' i =
      (if (p', i) = (p, rid) \<and> \<not> reserve_owns db p rid now \<and> is_zero_time (dq_retry_at q)
       then Some \<lparr>rv_principal = p, rv_id = rid, rv_state = Reserved, rv_accounted_at = to_timestamp now,
                  rv_expires_at = to_timestamp (now + aliasDeletionReservationLifetime)\<rparr>
       else find_reservation db p' i)"
  proof (cases "reserve_grants db p rid now")
    case True
    then show ?thesis using reserve_granted [OF assms(1-3) True] assms(4) *
      by (auto simp: reserve_grants_def find_granted)
  next
    case False
    then show ?thesis using reserve_not_granted [OF assms(1-3) False] assms(4) *
      by (auto simp: reserve_grants_def)
  qed
qed

text \<open>A refusal names a time at which the same call succeeds: whatever the run so far, a
  reservation refused with retry time \<open>t\<close> is granted (or found owned) at every later clock reading from
  \<open>t\<close> on, when no other caller intervenes.\<close>

theorem refusal_retry_succeeds:
  assumes "quota_reachable (now, db)" and "trim_space p \<noteq> []" and "trim_space rid \<noteq> []"
    and "ReserveAliasDeletionQuota db p rid now = (Inr q, db')" and "\<not> is_zero_time (dq_retry_at q)"
    and "dq_retry_at q \<le> later" and "now \<le> later" and "sane_clock later"
  shows "\<exists>q' db''. ReserveAliasDeletionQuota db' p rid later = (Inr q', db'') \<and>
           is_zero_time (dq_retry_at q')"
proof -
  from quota_reachable_inv [OF assms(1)] have sys: "quota_sys_inv (now, db)" .
  note inv = quota_sys_invD [OF sys]
  have ng: "\<not> reserve_grants db p rid now"
    using reserve_eq [OF inv(2) assms(2-4)] assms(5) by (auto simp: reserve_grants_def)
  note res = reserve_not_granted [OF inv(2) assms(2,3) ng]
  have q: "q = quota_result (readAliasDeletionQuota (lockAliasDeletionQuotaPrincipal p db) p now) now
      (reserve_owns db p rid now)" and db': "db' = lockAliasDeletionQuotaPrincipal p db"
    using res assms(4) by simp_all
  note retry = refused_retry [OF inv(2) assms(5) q]
  have ts: "to_timestamp now = now" "to_timestamp later = later" using inv(1) assms(8) by simp_all
  have cool: "quota_cooldown db' p \<le> to_timestamp later"
    using retry(2) assms(6,7) by (simp add: db' ts)
  have free: "reserve_owns db p rid later \<or> quota_used db p later < 200"
  proof (rule ccontr)
    assume no: "\<not> (reserve_owns db p rid later \<or> quota_used db p later < 200)"
    have mono: "quota_used db p later \<le> quota_used db p now"
      by (rule used_antimono) (simp add: ts assms(7))
    have full: "quota_used db p now = 200" "quota_used db p later = 200"
      using no mono inv(4) [of p] by auto
    have strict: "quota_used db p later < quota_used db p now"
      if "r \<in> set (qd_reservations db)" "quota_live p now r" "rv_expires_at r \<le> later" for r
      unfolding quota_used_def ts
    proof (rule count_where_strict [of r, OF that(1)])
      show "quota_live p now r" by (rule that(2))
      show "\<not> quota_live p later r" using that(3) by (simp add: quota_live_def)
    qed (use assms(7) in \<open>auto simp: quota_live_def\<close>)
    show False
    proof (cases "reserve_owns db p rid now")
      case False
      then obtain r where "r \<in> set (qd_reservations db)" "quota_live p now r" "rv_expires_at r \<le> later"
        using retry(3) full(1) assms(6) by (auto simp: ts)
      then show False using strict full by simp
    next
      case True
      then obtain r where r: "find_reservation db p rid = Some r"
        and st: "rv_state r = Reserved" "now < rv_expires_at r" "rv_expires_at r \<le> later"
        using no by (auto simp: reserve_owns_def ts split: option.splits)
      then show False using strict [of r] full find_reservation_SomeD [OF r] by (auto simp: quota_live_def)
    qed
  qed
  obtain q' db'' where res': "ReserveAliasDeletionQuota db' p rid later = (Inr q', db'')"
    using reserve_granted [of db' p rid later] reserve_not_granted [of db' p rid later] inv(2) assms(2,3)
    by (cases "reserve_grants db' p rid later") (auto simp: db')
  have "is_zero_time (dq_retry_at q')"
    using reserve_eq [OF _ assms(2,3) res'] inv(2) free cool by (simp add: db')
  with res' show ?thesis by blast
qed

text \<open>An upstream cooldown is honoured by every entry point: once a deferral until \<open>t\<close> is stored,
  no interleaving of later operations lets a reservation of that principal through before \<open>t\<close>.\<close>

theorem deferral_honoured:
  assumes "quota_inv db" and "trim_space p \<noteq> []" and "sane_clock until" and "0 < until"
    and "quota_step\<^sup>*\<^sup>* (start, snd (DeferAliasDeletionQuota db p until)) (now, db')"
    and "sane_clock now" and "now < until"
    and "trim_space rid \<noteq> []" and "ReserveAliasDeletionQuota db' p rid now = (Inr q, db'')"
  shows "\<not> is_zero_time (dq_retry_at q) \<and> until \<le> dq_retry_at q \<and>
    find_reservation db'' p' i = find_reservation db' p' i"
proof (intro conjI)
  let ?d = "snd (DeferAliasDeletionQuota db p until)"
  have "until \<le> quota_cooldown ?d p"
    using cooldown_defer [OF assms(2), of until db p] assms(3) by (auto split: option.splits)
  moreover have "quota_inv ?d" using assms(1) by (rule quota_inv_defer)
  ultimately have inv': "quota_inv db'" and cool: "until \<le> quota_cooldown db' p"
    using quota_steps_cooldown [OF assms(5), of p] assms(4) by auto
  then have late: "\<not> quota_cooldown db' p \<le> to_timestamp now" using assms(6,7) by simp
  show nz: "\<not> is_zero_time (dq_retry_at q)"
    using reserve_eq [OF inv' assms(2,8,9)] late by simp
  have ng: "\<not> reserve_grants db' p rid now" using late by (simp add: reserve_grants_def)
  have q: "q = quota_result (readAliasDeletionQuota (lockAliasDeletionQuotaPrincipal p db') p now) now
      (reserve_owns db' p rid now)" and db'': "db'' = lockAliasDeletionQuotaPrincipal p db'"
    using reserve_not_granted [OF inv' assms(2,8) ng] assms(9) by simp_all
  show "until \<le> dq_retry_at q"
    using refused_retry(2) [OF inv' nz q] cool assms(6,7) by simp
  show "find_reservation db'' p' i = find_reservation db' p' i" by (simp add: db'')
qed

text \<open>Releasing gives back exactly an unsent reservation: the named row disappears if and only if it
  is still in state Reserved (a sent or committed attempt keeps counting), and no other row changes.\<close>

theorem release_only_unsent:
  assumes "quota_inv db" and "trim_space p \<noteq> []" and "trim_space rid \<noteq> []"
  shows "find_reservation (snd (ReleaseAliasDeletionQuota db p rid)) q i =
     (case find_reservation db q i of
        None \<Rightarrow> None
      | Some r \<Rightarrow> if (q, i) = (p, rid) \<and> rv_state r = Reserved then None else Some r)"
  by (rule find_release [OF assms])

subsection \<open>The properties at concrete inputs\<close>

definition demo_row :: "quota_state \<Rightarrow> time \<Rightarrow> timestamp \<Rightarrow> reservation" where
  "demo_row s a e = \<lparr>rv_principal = ''alice'', rv_id = ''r1'', rv_state = s, rv_accounted_at = a, rv_expires_at = e\<rparr>"

definition demo_db :: "reservation list \<Rightarrow> timestamp \<Rightarrow> quota_db" where
  "demo_db rows cooldown =
     \<lparr>qd_principals = [\<lparr>pr_principal = ''alice'', pr_cooldown_until = cooldown\<rparr>], qd_reservations = rows\<rparr>"

lemmas demo_defs = demo_row_def demo_db_def empty_quota_db_def

lemmas quota_ops =
  ReserveAliasDeletionQuota_def CommitAliasDeletionQuota_def DeferAliasDeletionQuota_def
  validateAliasDeletionQuotaKey_def lockAliasDeletionQuotaPrincipal_def readAliasDeletionQuota_def
  quota_result_def find_reservation_def quota_live_def quota_consts upsert_by_def find_by_Cons
  update_where_Cons rv_key_def min_opt_def to_timestamp_def wrap64_def is_zero_time_def zero_time_def

lemma demo_trim [simp]: "trim_space ''alice'' = ''alice''" "trim_space ''r1'' = ''r1''" "trim_space ''r2'' = ''r2''"
  by (simp_all add: text_simps is_space_def)


lemma demo_reserve:
  "ReserveAliasDeletionQuota empty_quota_db ''alice'' ''r1'' 0 =
     (Inr \<lparr>dq_used = 1, dq_limit = 200, dq_retry_at = zero_time\<rparr>,
      demo_db [demo_row Reserved 0 7200000000000] 0)"
  by (simp add: quota_ops demo_defs)

lemma demo_commit:
  "CommitAliasDeletionQuota (demo_db [demo_row Reserved 0 7200000000000] 0) ''alice'' ''r1'' 60000000000 =
     (Inr (), demo_db [demo_row Committed 60000000000 3665000000000] 0)"
  by (simp add: quota_ops demo_defs)

lemma demo_reached: "quota_reachable (60000000000, demo_db [demo_row Committed 60000000000 3665000000000] 0)"
proof -
  have "quota_reachable (0, empty_quota_db)"
    by (rule qr_start) (simp add: sane_clock_def)
  from qr_step [OF this qs_reserve [of 0 _ "''alice''" "''r1''"]]
  have "quota_reachable (0, demo_db [demo_row Reserved 0 7200000000000] 0)"
    by (simp add: demo_reserve)
  from qr_step [OF this qs_tick [of 0 60000000000]]
  have "quota_reachable (60000000000, demo_db [demo_row Reserved 0 7200000000000] 0)"
    by (simp add: sane_clock_def)
  from qr_step [OF this qs_commit [of _ "''alice''" "''r1''" "demo_row Reserved 0 7200000000000"]]
  moreover have "find_reservation (demo_db [demo_row Reserved 0 7200000000000] 0) ''alice'' ''r1'' =
      Some (demo_row Reserved 0 7200000000000)"
    by (simp add: quota_ops demo_defs)
  ultimately show ?thesis
    by (simp add: demo_commit to_timestamp_def wrap64_def) (simp add: demo_row_def)
qed

lemma demo_inv: "quota_inv (demo_db [demo_row Committed 60000000000 3665000000000] 0)"
  using quota_reachable_inv [OF demo_reached] by (simp add: quota_sys_inv_def)


lemma committed_never_forgotten_witness:
  "\<exists>r'. find_reservation (snd (ReleaseAliasDeletionQuota
        (demo_db [demo_row Committed 60000000000 3665000000000] 0) ''alice'' ''r1'')) ''alice'' ''r1'' = Some r' \<and>
     rv_state r' = Committed \<and> 60000000000 \<le> rv_accounted_at r'"
  using committed_never_forgotten [OF qs_release [of 0] demo_inv,
      of "''alice''" "''r1''" "demo_row Committed 60000000000 3665000000000" "''alice''" "''r1''"]
  by (simp add: find_reservation_def demo_defs find_by_Cons rv_key_def)

lemma reserve_decides_witness:
  "find_reservation (demo_db [demo_row Reserved 0 7200000000000] 0) ''alice'' ''r1'' \<noteq> None"
  using reserve_decides [OF quota_inv_empty _ _ demo_reserve, of "''alice''" "''r1''"]
  by (simp add: reserve_owns_def find_reservation_def empty_quota_db_def is_zero_time_def)

lemma demo_refused:
  "ReserveAliasDeletionQuota (demo_db [demo_row Committed 60000000000 3665000000000] 90000000000)
       ''alice'' ''r2'' 60000000000 =
     (Inr \<lparr>dq_used = 1, dq_limit = 200, dq_retry_at = 90000000000\<rparr>,
      demo_db [demo_row Committed 60000000000 3665000000000] 90000000000)"
  by (simp add: quota_ops demo_defs)

lemma demo_defer:
  "DeferAliasDeletionQuota (demo_db [demo_row Committed 60000000000 3665000000000] 0) ''alice'' 90000000000 =
     (Inr (), demo_db [demo_row Committed 60000000000 3665000000000] 90000000000)"
  by (simp add: quota_ops demo_defs)

lemma refusal_retry_succeeds_witness:
  "\<exists>q' db''. ReserveAliasDeletionQuota (demo_db [demo_row Committed 60000000000 3665000000000] 90000000000)
     ''alice'' ''r2'' 90000000000 = (Inr q', db'') \<and> is_zero_time (dq_retry_at q')"
proof -
  from qr_step [OF demo_reached qs_defer [of _ _ "''alice''" 90000000000]]
  have "quota_reachable (60000000000, demo_db [demo_row Committed 60000000000 3665000000000] 90000000000)"
    by (simp add: demo_defer)
  from refusal_retry_succeeds [OF this _ _ demo_refused, of 90000000000]
  show ?thesis by (simp add: is_zero_time_def zero_time_def sane_clock_def)
qed

lemma deferral_honoured_witness:
  "case ReserveAliasDeletionQuota (demo_db [demo_row Committed 60000000000 3665000000000] 90000000000)
       ''alice'' ''r2'' 60000000000 of
     (Inr q, _) \<Rightarrow> 90000000000 \<le> dq_retry_at q | _ \<Rightarrow> False"
proof -
  have steps: "quota_step\<^sup>*\<^sup>* (60000000000, snd (DeferAliasDeletionQuota
        (demo_db [demo_row Committed 60000000000 3665000000000] 0) ''alice'' 90000000000))
      (60000000000, demo_db [demo_row Committed 60000000000 3665000000000] 90000000000)"
    by (simp add: demo_defer)
  show ?thesis
    using deferral_honoured [OF demo_inv _ _ _ steps _ _ _ demo_refused, of "''alice''" "''r2''"]
    by (simp add: sane_clock_def demo_refused)
qed

lemma release_only_unsent_witness:
  "find_reservation (snd (ReleaseAliasDeletionQuota
      (demo_db [demo_row Committed 60000000000 3665000000000] 0) ''alice'' ''r1'')) ''alice'' ''r1'' =
    Some (demo_row Committed 60000000000 3665000000000)"
  using release_only_unsent [OF demo_inv, of "''alice''" "''r1''" "''alice''" "''r1''"]
  by (simp add: find_reservation_def demo_defs find_by_Cons rv_key_def)

end
