(* ===== verification/DeletionLease.thy ===== *)
theory DeletionLease
  imports DeletionQuota AppleErrors
begin

section \<open>The lease of one deletion attempt (internal/hmesync/alias_delete_queue.go)\<close>

text \<open>
  The deletion workflow reaches the quota through the interface \<open>AliasDeletionQuotaRepository\<close>
  (internal/hmesync/types.go), which a repository may leave unimplemented. An attempt holds a
  lease: it is released when the permanent deletion was not sent, and kept once it was. The
  interface is a record of operations; the locale \<open>quota_repository\<close> states the contract under
  which the lease is correct, and its interpretation proves that the store keeps it.
\<close>

subsection \<open>The interface\<close>

record 'db quota_repo =
  repo_get :: "'db \<Rightarrow> string \<Rightarrow> time \<Rightarrow> quota_error + deletion_quota"
  repo_reserve :: "'db \<Rightarrow> string \<Rightarrow> string \<Rightarrow> time \<Rightarrow> (quota_error + deletion_quota) \<times> 'db"
  repo_mark :: "'db \<Rightarrow> string \<Rightarrow> string \<Rightarrow> time \<Rightarrow> (quota_error + unit) \<times> 'db"
  repo_commit :: "'db \<Rightarrow> string \<Rightarrow> string \<Rightarrow> time \<Rightarrow> (quota_error + unit) \<times> 'db"
  repo_release :: "'db \<Rightarrow> string \<Rightarrow> string \<Rightarrow> (quota_error + unit) \<times> 'db"
  repo_defer :: "'db \<Rightarrow> string \<Rightarrow> time \<Rightarrow> (quota_error + unit) \<times> 'db"

definition store_repo :: "quota_db quota_repo" where
  "store_repo = \<lparr>repo_get = GetAliasDeletionQuota, repo_reserve = ReserveAliasDeletionQuota,
     repo_mark = MarkAliasDeletionQuotaSent, repo_commit = CommitAliasDeletionQuota,
     repo_release = ReleaseAliasDeletionQuota, repo_defer = DeferAliasDeletionQuota\<rparr>"

record wait_error =
  we_Reason :: string
  we_RetryAt :: time
  we_Used :: int
  we_Limit :: int
  we_Operation :: string
  we_HTTPStatus :: int
  we_ServiceCode :: string

datatype lease_error = LeaseStore quota_error | LeaseRandom | LeaseWait wait_error

record deletion_lease =
  dl_repo :: bool
  dl_id :: string
  dl_committed :: bool

definition quota_wait_error :: "deletion_quota \<Rightarrow> string \<Rightarrow> wait_error" where
  "quota_wait_error q operation = \<lparr>we_Reason = ''quota'', we_RetryAt = dq_retry_at q,
     we_Used = dq_used q, we_Limit = dq_limit q, we_Operation = operation, we_HTTPStatus = 0,
     we_ServiceCode = []\<rparr>"

subsection \<open>Operations of the batch and of its lease\<close>

definition quotaWait ::
  "'db quota_repo option \<Rightarrow> string \<Rightarrow> string \<Rightarrow> time \<Rightarrow> 'db \<Rightarrow> lease_error option" where
  "quotaWait repo subject operation now db =
     (case repo of
        None \<Rightarrow> None
      | Some r \<Rightarrow>
          (case repo_get r db subject now of
             Inl e \<Rightarrow> Some (LeaseStore e)
           | Inr q \<Rightarrow>
               if \<not> is_zero_time (dq_retry_at q) then Some (LeaseWait (quota_wait_error q operation))
               else None))"

text \<open>The sixteen random bytes of the lease ID are an argument; \<open>None\<close> is a failing \<open>rand.Read\<close>.\<close>

definition reserveQuota ::
  "'db quota_repo option \<Rightarrow> string \<Rightarrow> string option \<Rightarrow> time \<Rightarrow> 'db \<Rightarrow> (lease_error + deletion_lease) \<times> 'db" where
  "reserveQuota repo subject random now db =
     (case repo of
        None \<Rightarrow> (Inr \<lparr>dl_repo = False, dl_id = [], dl_committed = False\<rparr>, db)
      | Some r \<Rightarrow>
          (case random of
             None \<Rightarrow> (Inl LeaseRandom, db)
           | Some bytes \<Rightarrow>
               (case repo_reserve r db subject (hex_encode bytes) now of
                  (Inl e, db') \<Rightarrow> (Inl (LeaseStore e), db')
                | (Inr q, db') \<Rightarrow>
                    if \<not> is_zero_time (dq_retry_at q)
                    then (Inl (LeaseWait (quota_wait_error q ''deactivate'')), db')
                    else (Inr \<lparr>dl_repo = True, dl_id = hex_encode bytes, dl_committed = False\<rparr>, db'))))"

definition lease_release ::
  "'db quota_repo \<Rightarrow> string \<Rightarrow> deletion_lease \<Rightarrow> 'db \<Rightarrow> (quota_error option \<times> deletion_lease) \<times> 'db" where
  "lease_release r subject l db =
     (if \<not> dl_repo l \<or> dl_committed l \<or> dl_id l = [] then ((None, l), db)
      else (case repo_release r db subject (dl_id l) of
              (Inl e, db') \<Rightarrow> ((Some e, l), db')
            | (Inr _, db') \<Rightarrow> ((None, l\<lparr>dl_id := []\<rparr>), db')))"

definition lease_commit ::
  "'db quota_repo \<Rightarrow> string \<Rightarrow> time \<Rightarrow> deletion_lease \<Rightarrow> 'db \<Rightarrow> (quota_error option \<times> deletion_lease) \<times> 'db" where
  "lease_commit r subject now l db =
     (if \<not> dl_repo l then ((None, l), db)
      else (case repo_commit r db subject (dl_id l) now of
              (Inl e, db') \<Rightarrow> ((Some e, l), db')
            | (Inr _, db') \<Rightarrow> ((None, l\<lparr>dl_committed := True\<rparr>), db')))"

definition lease_markSent ::
  "'db quota_repo \<Rightarrow> string \<Rightarrow> time \<Rightarrow> deletion_lease \<Rightarrow> 'db \<Rightarrow> (quota_error option \<times> deletion_lease) \<times> 'db" where
  "lease_markSent r subject now l db =
     (if \<not> dl_repo l then ((None, l), db)
      else (case repo_mark r db subject (dl_id l) now of
              (Inl e, db') \<Rightarrow> ((Some e, l), db')
            | (Inr _, db') \<Rightarrow> ((None, l\<lparr>dl_committed := True\<rparr>), db')))"

definition deferQuota ::
  "'db quota_repo option \<Rightarrow> string \<Rightarrow> string \<Rightarrow> go_error \<Rightarrow> time \<Rightarrow> time \<Rightarrow> 'db \<Rightarrow>
     (quota_error + wait_error) \<times> 'db" where
  "deferQuota repo subject operation cause now now' db =
     (let delay = (if RetryDelay cause \<le> 0 then hour else RetryDelay cause);
          result = \<lparr>we_Reason = ''upstream_rate_limit'', we_RetryAt = now + delay, we_Used = 0,
             we_Limit = 200, we_Operation = operation,
             we_HTTPStatus = (case as_apple cause of None \<Rightarrow> 0 | Some a \<Rightarrow> ae_StatusCode a),
             we_ServiceCode = (case as_apple cause of None \<Rightarrow> [] | Some a \<Rightarrow> ae_ServiceCode a)\<rparr>
      in case repo of
           None \<Rightarrow> (Inr result, db)
         | Some r \<Rightarrow>
             (case repo_defer r db subject (we_RetryAt result) of
                (Inl e, db') \<Rightarrow> (Inl e, db')
              | (Inr _, db') \<Rightarrow>
                  (case repo_get r db' subject now' of
                     Inl e \<Rightarrow> (Inl e, db')
                   | Inr q \<Rightarrow>
                       (Inr (result\<lparr>we_Used := dq_used q, we_Limit := dq_limit q,
                               we_RetryAt := (if we_RetryAt result < dq_retry_at q then dq_retry_at q
                                              else we_RetryAt result)\<rparr>), db'))))"

text \<open>What an attempt may do with its lease, in any order; the deferred calls are releases.\<close>

datatype lease_op = LMark time | LCommit time | LRelease

fun lease_step :: "'db quota_repo \<Rightarrow> string \<Rightarrow> lease_op \<Rightarrow> deletion_lease \<times> 'db \<Rightarrow> deletion_lease \<times> 'db" where
  "lease_step r p (LMark now) (l, db) =
     (case lease_markSent r p now l db of ((_, l'), db') \<Rightarrow> (l', db'))"
| "lease_step r p (LCommit now) (l, db) =
     (case lease_commit r p now l db of ((_, l'), db') \<Rightarrow> (l', db'))"
| "lease_step r p LRelease (l, db) =
     (case lease_release r p l db of ((_, l'), db') \<Rightarrow> (l', db'))"

definition lease_ops ::
  "'db quota_repo \<Rightarrow> string \<Rightarrow> lease_op list \<Rightarrow> deletion_lease \<times> 'db \<Rightarrow> deletion_lease \<times> 'db" where
  "lease_ops r p ops s = fold (lease_step r p) ops s"

subsection \<open>The contract of the repository\<close>

locale quota_repository =
  fixes repo :: "'db quota_repo"
    and inv :: "'db \<Rightarrow> bool"
    and slot :: "'db \<Rightarrow> string \<Rightarrow> string \<Rightarrow> quota_state option"
  assumes inv_reserve: "inv db \<Longrightarrow> inv (snd (repo_reserve repo db p i now))"
    and inv_mark: "inv db \<Longrightarrow> inv (snd (repo_mark repo db p i now))"
    and inv_commit: "inv db \<Longrightarrow> inv (snd (repo_commit repo db p i now))"
    and inv_release: "inv db \<Longrightarrow> inv (snd (repo_release repo db p i))"
    and reserve_granted: "inv db \<Longrightarrow> repo_reserve repo db p i now = (Inr quota, db') \<Longrightarrow>
      is_zero_time (dq_retry_at quota) \<Longrightarrow> slot db' p i \<noteq> None \<and> (slot db p i = None \<longrightarrow> slot db' p i = Some Reserved)"
    and reserve_frame: "inv db \<Longrightarrow> (q, j) \<noteq> (p, i) \<Longrightarrow>
      slot (snd (repo_reserve repo db p i now)) q j = slot db q j"
    and mark_ok: "inv db \<Longrightarrow> repo_mark repo db p i now = (Inr (), db') \<Longrightarrow>
      slot db' q j = (if (q, j) = (p, i) then Some Sent else slot db q j)"
    and mark_error: "inv db \<Longrightarrow> repo_mark repo db p i now = (Inl e, db') \<Longrightarrow> db' = db"
    and commit_ok: "inv db \<Longrightarrow> repo_commit repo db p i now = (Inr (), db') \<Longrightarrow>
      slot db' q j = (if (q, j) = (p, i) then Some Committed else slot db q j)"
    and commit_error: "inv db \<Longrightarrow> repo_commit repo db p i now = (Inl e, db') \<Longrightarrow> db' = db"
    and release_ok: "inv db \<Longrightarrow> repo_release repo db p i = (Inr (), db') \<Longrightarrow>
      slot db' q j = (if (q, j) = (p, i) \<and> slot db p i = Some Reserved then None else slot db q j)"
    and release_error: "inv db \<Longrightarrow> repo_release repo db p i = (Inl e, db') \<Longrightarrow> db' = db"
begin

lemma step_inv: "inv db \<Longrightarrow> lease_step repo p opn (l, db) = (l', db') \<Longrightarrow> inv db'"
  using inv_mark inv_commit inv_release
  by (cases opn)
     (auto simp: lease_markSent_def lease_commit_def lease_release_def split: if_splits sum.splits prod.splits;
      metis snd_conv)+

lemma sent_step:
  assumes "inv db" and "dl_committed l" and "slot db p (dl_id l) \<in> {Some Sent, Some Committed}"
    and "lease_step repo p opn (l, db) = (l', db')"
  shows "dl_committed l' \<and> dl_id l' = dl_id l \<and> slot db' p (dl_id l) \<in> {Some Sent, Some Committed}"
proof (cases opn)
  case (LMark now)
  show ?thesis
  proof (cases "repo_mark repo db p (dl_id l) now")
    case (Pair res d)
    then show ?thesis using assms LMark mark_ok [OF assms(1), of p "dl_id l" now d]
        mark_error [OF assms(1), of p "dl_id l" now]
      by (cases res) (auto simp: lease_markSent_def split: if_splits)
  qed
next
  case (LCommit now)
  show ?thesis
  proof (cases "repo_commit repo db p (dl_id l) now")
    case (Pair res d)
    then show ?thesis using assms LCommit commit_ok [OF assms(1), of p "dl_id l" now d]
        commit_error [OF assms(1), of p "dl_id l" now]
      by (cases res) (auto simp: lease_commit_def split: if_splits)
  qed
next
  case LRelease
  then show ?thesis using assms by (auto simp: lease_release_def)
qed

lemma sent_kept:
  assumes "inv db" and "dl_committed l" and "slot db p (dl_id l) \<in> {Some Sent, Some Committed}"
    and "lease_ops repo p ops (l, db) = (l', db')"
  shows "slot db' p (dl_id l) \<in> {Some Sent, Some Committed}"
  using assms
proof (induction ops arbitrary: l db)
  case Nil
  then show ?case by (simp add: lease_ops_def)
next
  case (Cons opn ops)
  obtain l1 db1 where step: "lease_step repo p opn (l, db) = (l1, db1)" by fastforce
  note s = sent_step [OF Cons.prems(1-3) step]
  have "lease_ops repo p ops (l1, db1) = (l', db')" using Cons.prems(4) step by (simp add: lease_ops_def)
  from Cons.IH [OF step_inv [OF Cons.prems(1) step] _ _ this] s show ?case by simp
qed

lemma granted_lease:
  assumes "inv db" and "reserveQuota (Some repo) p (Some bytes) now db = (Inr l, db1)"
  shows "l = \<lparr>dl_repo = True, dl_id = hex_encode bytes, dl_committed = False\<rparr> \<and>
    (\<exists>q. repo_reserve repo db p (hex_encode bytes) now = (Inr q, db1) \<and> is_zero_time (dq_retry_at q)) \<and>
    inv db1"
  using assms inv_reserve [OF assms(1), of p "hex_encode bytes" now]
  by (auto simp: reserveQuota_def split: sum.splits prod.splits if_splits)

lemma marked_lease:
  assumes "inv db1" and "dl_repo l" and "lease_markSent repo p now l db1 = ((None, l2), db2)"
  shows "inv db2 \<and> dl_committed l2 \<and> dl_id l2 = dl_id l \<and> slot db2 p (dl_id l) = Some Sent"
  using assms inv_mark [OF assms(1), of p "dl_id l" now] mark_ok [OF assms(1), of p "dl_id l" now db2]
  by (auto simp: lease_markSent_def split: sum.splits prod.splits if_splits)

lemma sent_lease_kept:
  assumes "inv db" and "reserveQuota (Some repo) p (Some bytes) now db = (Inr l, db1)"
    and "lease_markSent repo p now1 l db1 = ((None, l2), db2)"
    and "lease_ops repo p ops (l2, db2) = (l3, db3)"
  shows "slot db3 p (hex_encode bytes) \<in> {Some Sent, Some Committed}"
proof -
  note g = granted_lease [OF assms(1,2)]
  then have "inv db1" "dl_repo l" "dl_id l = hex_encode bytes" by auto
  from marked_lease [OF this(1,2) assms(3)] this(3)
  show ?thesis using sent_kept [OF _ _ _ assms(4)] by simp
qed

lemma unsent_lease_returned:
  assumes "inv db" and "slot db p (hex_encode bytes) = None"
    and "reserveQuota (Some repo) p (Some bytes) now db = (Inr l, db1)"
    and "lease_release repo p l db1 = ((None, l2), db2)" and "bytes \<noteq> []"
  shows "slot db2 q j = slot db q j"
proof -
  note g = granted_lease [OF assms(1,3)]
  then obtain qq where l: "l = \<lparr>dl_repo = True, dl_id = hex_encode bytes, dl_committed = False\<rparr>"
    and res: "repo_reserve repo db p (hex_encode bytes) now = (Inr qq, db1)" "is_zero_time (dq_retry_at qq)"
    and inv1: "inv db1" by auto
  have "hex_encode bytes \<noteq> []" using assms(5) length_hex_encode [of bytes] by fastforce
  then have "repo_release repo db1 p (hex_encode bytes) = (Inr (), db2)"
    using assms(4) l by (auto simp: lease_release_def split: sum.splits prod.splits)
  from release_ok [OF inv1 this, of q j] show ?thesis
    using reserve_granted [OF assms(1) res] reserve_frame [OF assms(1), of q j p "hex_encode bytes" now]
      assms(2) res(1) by auto
qed

end

subsection \<open>The store keeps the contract\<close>

lemma status_reserve:
  assumes "quota_inv db"
  shows "quota_status (snd (ReserveAliasDeletionQuota db p i now)) q j =
    (if (q, j) = (p, i) \<and> trim_space p \<noteq> [] \<and> trim_space i \<noteq> [] \<and> reserve_grants db p i now
     then Some Reserved else quota_status db q j)"
proof (cases "trim_space p = [] \<or> trim_space i = []")
  case True
  then show ?thesis using reserve_invalid [of p i db now] by auto
next
  case False
  then show ?thesis
    using reserve_granted [OF assms, of p i now] reserve_not_granted [OF assms, of p i now]
    by (cases "reserve_grants db p i now") (auto simp: quota_status_def find_granted)
qed

lemma status_granted:
  assumes "quota_inv db" and "ReserveAliasDeletionQuota db p i now = (Inr q, db')"
    and "is_zero_time (dq_retry_at q)"
  shows "quota_status db' p i \<noteq> None \<and> (quota_status db p i = None \<longrightarrow> quota_status db' p i = Some Reserved)"
proof -
  have valid: "trim_space p \<noteq> []" "trim_space i \<noteq> []"
    using assms(2) reserve_invalid [of p i db now] by auto
  have "reserve_owns db p i now \<or> reserve_grants db p i now"
    using reserve_eq [OF assms(1) valid assms(2)] assms(3) by (auto simp: reserve_grants_def)
  moreover have "reserve_owns db p i now \<Longrightarrow> quota_status db p i \<noteq> None"
    by (auto simp: reserve_owns_def quota_status_def split: option.splits)
  ultimately show ?thesis
    using status_reserve [OF assms(1), of p i now p i] assms(2) valid by auto
qed

lemma status_mark:
  assumes "MarkAliasDeletionQuotaSent db p i now = (Inr (), db')"
  shows "quota_status db' q j = (if (q, j) = (p, i) then Some Sent else quota_status db q j)"
  by (rule find_mark [OF assms]) (auto simp: quota_status_def)

lemma status_commit:
  assumes "CommitAliasDeletionQuota db p i now = (Inr (), db')"
  shows "quota_status db' q j = (if (q, j) = (p, i) then Some Committed else quota_status db q j)"
  by (rule find_commit [OF assms]) (auto simp: quota_status_def)

lemma status_release:
  assumes "quota_inv db" and "ReleaseAliasDeletionQuota db p i = (Inr (), db')"
  shows "quota_status db' q j =
    (if (q, j) = (p, i) \<and> quota_status db p i = Some Reserved then None else quota_status db q j)"
proof -
  have "trim_space p \<noteq> []" "trim_space i \<noteq> []"
    using assms(2)
    by (auto simp: ReleaseAliasDeletionQuota_def validateAliasDeletionQuotaKey_def split: if_splits)
  from find_release [OF assms(1) this, of q j] assms(2) show ?thesis
    by (auto simp: quota_status_def split: option.splits)
qed

interpretation store: quota_repository store_repo quota_inv quota_status
proof unfold_locales
  show "quota_inv db \<Longrightarrow> repo_reserve store_repo db p i now = (Inr quota, db') \<Longrightarrow>
      is_zero_time (dq_retry_at quota) \<Longrightarrow> quota_status db' p i \<noteq> None \<and>
      (quota_status db p i = None \<longrightarrow> quota_status db' p i = Some Reserved)" for db p i now quota db'
    using status_granted by (simp add: store_repo_def)
  show "quota_inv db \<Longrightarrow> (q, j) \<noteq> (p, i) \<Longrightarrow>
      quota_status (snd (repo_reserve store_repo db p i now)) q j = quota_status db q j" for db q j p i now
    using status_reserve [of db p i now q j] by (auto simp: store_repo_def)
qed (use op_error_unchanged status_mark status_commit status_release in
      \<open>simp_all add: store_repo_def quota_inv_reserve quota_inv_mark quota_inv_commit quota_inv_release\<close>)

subsection \<open>Get and Reserve agree\<close>

lemma quota_unused_principal:
  assumes "quota_inv db" and "find_by pr_principal p (qd_principals db) = None"
  shows "quota_used db p now = 0 \<and> quota_cooldown db p = 0"
proof -
  have "\<not> quota_live p (to_timestamp now) r" if "r \<in> set (qd_reservations db)" for r
    using quota_invD(6) [OF assms(1) that] assms(2) by (auto simp: quota_live_def)
  then show ?thesis using assms(2)
    by (simp add: quota_used_def quota_cooldown_def count_where_def filter_empty_conv)
qed

lemma read_unlocked:
  assumes "quota_inv db"
  shows "readAliasDeletionQuota db p now = readAliasDeletionQuota (lockAliasDeletionQuotaPrincipal p db) p now"
proof (cases "find_by pr_principal p (qd_principals db)")
  case None
  then have "filter (quota_live p (to_timestamp now)) (qd_reservations db) = []"
    using quota_unused_principal [OF assms, of p now] by (simp add: quota_used_def count_where_def)
  with None quota_unused_principal [OF assms None, of now] show ?thesis
    by (simp add: read_locked) (simp add: readAliasDeletionQuota_def min_opt_def)
next
  case (Some r)
  then show ?thesis
    by (simp add: read_locked) (simp add: readAliasDeletionQuota_def quota_used_def quota_cooldown_def count_where_def Let_def)
qed

lemma get_retry:
  assumes "quota_inv db" and "trim_space p \<noteq> []"
  shows "\<exists>q. GetAliasDeletionQuota db p now = Inr q \<and>
    (is_zero_time (dq_retry_at q) \<longleftrightarrow> quota_used db p now < 200 \<and> quota_cooldown db p \<le> to_timestamp now)"
  using assms retry_zero_iff [OF assms(1), of p now False]
  by (simp add: GetAliasDeletionQuota_def validateAliasDeletionQuotaKey_def read_unlocked [OF assms(1)])

subsection \<open>Properties\<close>

text \<open>C24: Once the permanent deletion is marked as sent, its slot is never given back: whatever marks,
  commits and (deferred) releases the attempt performs afterwards, in any order and with any failures,
  the reservation stays in state sent or committed.\<close>

theorem lease_sent_never_released:
  assumes "quota_inv db"
    and "reserveQuota (Some store_repo) p (Some bytes) now db = (Inr l, db1)"
    and "lease_markSent store_repo p now1 l db1 = ((None, l2), db2)"
    and "lease_ops store_repo p ops (l2, db2) = (l3, db3)"
  shows "quota_status db3 p (hex_encode bytes) \<in> {Some Sent, Some Committed}"
  using assms by (rule store.sent_lease_kept)

text \<open>An attempt that ends before sending costs nothing: releasing its lease puts every reservation
  of every principal back to the state it had before the lease was taken.\<close>

theorem lease_unsent_costs_nothing:
  assumes "quota_inv db" and "quota_status db p (hex_encode bytes) = None"
    and "reserveQuota (Some store_repo) p (Some bytes) now db = (Inr l, db1)"
    and "lease_release store_repo p l db1 = ((None, l2), db2)" and "bytes \<noteq> []"
  shows "quota_status db2 q j = quota_status db q j"
  using assms by (rule store.unsent_lease_returned)

text \<open>The read-only check and the reservation agree: for a fresh lease ID, \<open>quotaWait\<close> lets the
  attempt through exactly when \<open>reserveQuota\<close> grants a lease at the same time.\<close>

theorem quota_wait_agrees_with_reserve:
  assumes "quota_inv db" and "trim_space p \<noteq> []" and "trim_space (hex_encode bytes) \<noteq> []"
    and "find_reservation db p (hex_encode bytes) = None"
  shows "quotaWait (Some store_repo) p opn now db = None \<longleftrightarrow>
    (\<exists>l db'. reserveQuota (Some store_repo) p (Some bytes) now db = (Inr l, db'))"
proof -
  obtain q where get: "GetAliasDeletionQuota db p now = Inr q"
    and zero: "is_zero_time (dq_retry_at q) \<longleftrightarrow> quota_used db p now < 200 \<and> quota_cooldown db p \<le> to_timestamp now"
    using get_retry [OF assms(1,2)] by blast
  have no: "\<not> reserve_owns db p (hex_encode bytes) now" using assms(4) by (simp add: reserve_owns_def)
  obtain qr db' where res: "ReserveAliasDeletionQuota db p (hex_encode bytes) now = (Inr qr, db')"
    using reserve_granted [OF assms(1-3)] reserve_not_granted [OF assms(1-3)]
    by (cases "reserve_grants db p (hex_encode bytes) now") auto
  have "is_zero_time (dq_retry_at qr) \<longleftrightarrow> is_zero_time (dq_retry_at q)"
    using reserve_eq [OF assms(1-3) res] zero no by simp
  then show ?thesis
    by (auto simp: quotaWait_def reserveQuota_def store_repo_def get res)
qed

text \<open>An upstream throttle is stored before it is reported: after \<open>deferQuota\<close> the reported retry time
  is at least the hint of the error (an hour without one), and no attempt passes \<open>quotaWait\<close> before it.\<close>

theorem deferred_attempts_wait:
  assumes "quota_inv db" and "trim_space p \<noteq> []" and "sane_clock (now + delay)" and "0 < now + delay"
    and "delay = (if RetryDelay cause \<le> 0 then hour else RetryDelay cause)"
    and "deferQuota (Some store_repo) p opn cause now now' db = (Inr w, db')"
    and "sane_clock later" and "later < now + delay"
  shows "now + delay \<le> we_RetryAt w \<and> quotaWait (Some store_repo) p opn later db' \<noteq> None"
proof -
  obtain q where put: "DeferAliasDeletionQuota db p (now + delay) = (Inr (), db')"
    and w: "now + delay \<le> we_RetryAt w"
    using assms(6) unfolding deferQuota_def Let_def assms(5) [symmetric]
    by (auto simp: store_repo_def split: sum.splits prod.splits if_splits)
  have nz: "\<not> is_zero_time (now + delay)" using assms(3) by simp
  have inv: "quota_inv db'" using quota_inv_defer [OF assms(1), of p "now + delay"] put by simp
  have "now + delay \<le> quota_cooldown db' p"
    using cooldown_defer [OF assms(2) nz, of db p] put assms(3) by (auto split: option.splits)
  then have "\<not> quota_cooldown db' p \<le> to_timestamp later" using assms(7,8) by simp
  with get_retry [OF inv assms(2), of later] w show ?thesis
    by (auto simp: quotaWait_def store_repo_def)
qed

subsection \<open>The properties at concrete inputs\<close>

definition lease_db :: "quota_state \<Rightarrow> time \<Rightarrow> timestamp \<Rightarrow> quota_db" where
  "lease_db s a e = demo_db [\<lparr>rv_principal = ''alice'', rv_id = ''72'', rv_state = s,
     rv_accounted_at = a, rv_expires_at = e\<rparr>] 0"

definition demo_lease :: "bool \<Rightarrow> deletion_lease" where
  "demo_lease c = \<lparr>dl_repo = True, dl_id = ''72'', dl_committed = c\<rparr>"

lemma demo_hex [simp]: "hex_encode ''r'' = ''72''"
  by code_simp

lemma demo_hex_trim [simp]: "trim_space ''72'' = ''72''"
  by (simp add: text_simps is_space_def)

lemma find_reservation_empty [simp]: "find_reservation empty_quota_db p i = None"
  by (simp add: find_reservation_def empty_quota_db_def)

lemma demo_lease_reserve:
  "reserveQuota (Some store_repo) ''alice'' (Some ''r'') 0 empty_quota_db =
     (Inr (demo_lease False), lease_db Reserved 0 7200000000000)"
  by (simp add: reserveQuota_def store_repo_def quota_ops demo_defs lease_db_def demo_lease_def)

lemma demo_lease_mark:
  "lease_markSent store_repo ''alice'' 60000000000 (demo_lease False) (lease_db Reserved 0 7200000000000) =
     ((None, demo_lease True), lease_db Sent 60000000000 7260000000000)"
  by (simp add: lease_markSent_def MarkAliasDeletionQuotaSent_def store_repo_def quota_ops demo_defs
      lease_db_def demo_lease_def)

lemma demo_lease_release:
  "lease_release store_repo ''alice'' (demo_lease False) (lease_db Reserved 0 7200000000000) =
     ((None, (demo_lease False)\<lparr>dl_id := []\<rparr>), demo_db [] 0)"
  by (simp add: lease_release_def ReleaseAliasDeletionQuota_def delete_where_def store_repo_def quota_ops
      demo_defs lease_db_def demo_lease_def)

lemma lease_sent_never_released_witness:
  "quota_status (lease_db Sent 60000000000 7260000000000) ''alice'' ''72'' \<in> {Some Sent, Some Committed}"
proof -
  have "lease_ops store_repo ''alice'' [LRelease] (demo_lease True, lease_db Sent 60000000000 7260000000000) =
      (demo_lease True, lease_db Sent 60000000000 7260000000000)"
    by (simp add: lease_ops_def lease_release_def demo_lease_def)
  from lease_sent_never_released [OF quota_inv_empty demo_lease_reserve demo_lease_mark this]
  show ?thesis by simp
qed

lemma lease_unsent_costs_nothing_witness: "quota_status (demo_db [] 0) ''alice'' ''72'' = None"
  using lease_unsent_costs_nothing [OF quota_inv_empty _ demo_lease_reserve demo_lease_release,
      of "''alice''" "''72''"]
  by (simp add: quota_status_def find_reservation_def empty_quota_db_def)

lemma quota_wait_agrees_with_reserve_witness:
  "quotaWait (Some store_repo) ''alice'' ''list'' 0 empty_quota_db = None"
  using quota_wait_agrees_with_reserve [OF quota_inv_empty, of "''alice''" "''r''" "''list''" 0]
  by (simp add: demo_lease_reserve)

definition demo_throttle :: go_error where
  "demo_throttle = AppleErr \<lparr>ae_Op = ''deactivate'', ae_Kind = Some ErrService, ae_StatusCode = 429,
     ae_ServiceCode = [], ae_ServiceRejected = False, ae_Retryable = True, ae_RetryAfter = 60000000000\<rparr> None"

lemma demo_deferQuota:
  "deferQuota (Some store_repo) ''alice'' ''deactivate'' demo_throttle 0 0 empty_quota_db =
     (Inr \<lparr>we_Reason = ''upstream_rate_limit'', we_RetryAt = 60000000000, we_Used = 0, we_Limit = 200,
        we_Operation = ''deactivate'', we_HTTPStatus = 429, we_ServiceCode = []\<rparr>, demo_db [] 60000000000)"
  by (simp add: deferQuota_def demo_throttle_def store_repo_def GetAliasDeletionQuota_def quota_ops demo_defs)

lemma deferred_attempts_wait_witness:
  "quotaWait (Some store_repo) ''alice'' ''deactivate'' 59000000000 (demo_db [] 60000000000) \<noteq> None"
  by (rule deferred_attempts_wait [OF quota_inv_empty _ _ _ _ demo_deferQuota,
        where delay = 60000000000, THEN conjunct2])
     (simp_all add: sane_clock_def demo_throttle_def)

end
