(* ===== verification/AuditLog.thy ===== *)
theory AuditLog
  imports Tables "HOL-Library.Product_Lexorder" "HOL-Library.Multiset"
begin

section \<open>The audit log (internal/store/audit.go, internal/store/encoding.go)\<close>

text \<open>
  Text is made safe for PostgreSQL before it is stored and cut at a number of runes. The log is an
  append-only table; a page is selected by a filter and ordered by creation time, newest first.
\<close>

subsection \<open>Stored text\<close>

definition sanitizePostgresText :: "string \<Rightarrow> string" where
  "sanitizePostgresText v = replace_byte (CHR 0x00) replacement_char (to_valid_utf8 v)"

lemma sanitizePostgresText_code [code]:
  "sanitizePostgresText v =
     (let w = to_valid_utf8 v in
      if list_ex (\<lambda>c. c = CHR 0x00) w then replace_byte (CHR 0x00) replacement_char w else w)"
proof -
  have "CHR 0x00 \<notin> set w \<Longrightarrow> replace_byte (CHR 0x00) replacement_char w = w" for w
    by (induction w) auto
  then show ?thesis by (auto simp: sanitizePostgresText_def list_ex_iff Let_def)
qed

definition truncate_text :: "string \<Rightarrow> int \<Rightarrow> string" where
  "truncate_text v limit =
     (if limit \<le> 0 then []
      else string_of_runes (take (nat limit) (runes (sanitizePostgresText v))))"

subsection \<open>Rows and filters\<close>

record audit_log =
  al_ID :: int
  al_AdminID :: "int option"
  al_Username :: string
  al_Action :: string
  al_ResourceType :: string
  al_ResourceID :: string
  al_Result :: string
  al_IP :: string
  al_RequestID :: string
  al_Detail :: string
  al_CreatedAt :: time

record audit_filter =
  af_AdminID :: "int option"
  af_Action :: string
  af_ResourceType :: string
  af_Result :: string
  af_Since :: "time option"
  af_Until :: "time option"
  af_Limit :: int
  af_Offset :: int

text \<open>The identity column hands out increasing IDs.\<close>

record audit_db =
  adb_next :: int
  adb_rows :: "audit_log list"

definition defaultAuditLogLimit :: int where "defaultAuditLogLimit = 20"
definition maxAuditLogLimit :: int where "maxAuditLogLimit = 1000"

definition insertAuditLog :: "audit_db \<Rightarrow> audit_log \<Rightarrow> time \<Rightarrow> audit_log \<times> audit_db" where
  "insertAuditLog db log now =
     (let clean = log\<lparr>al_Username := truncate_text (al_Username log) 128,
            al_Action := truncate_text (al_Action log) 64,
            al_ResourceType := truncate_text (al_ResourceType log) 64,
            al_ResourceID := truncate_text (al_ResourceID log) 128,
            al_Result := truncate_text (al_Result log) 32,
            al_IP := truncate_text (al_IP log) 64,
            al_RequestID := truncate_text (al_RequestID log) 128,
            al_Detail := truncate_text (al_Detail log) 1024,
            al_CreatedAt := (if is_zero_time (al_CreatedAt log) then now else al_CreatedAt log)\<rparr>;
          stored = clean\<lparr>al_ID := adb_next db\<rparr>
      in (stored,
          \<lparr>adb_next = adb_next db + 1,
           adb_rows = adb_rows db @ [stored\<lparr>al_CreatedAt := to_timestamp (al_CreatedAt clean)\<rparr>]\<rparr>))"

definition normalizeAuditLogFilter :: "audit_filter \<Rightarrow> audit_filter" where
  "normalizeAuditLogFilter f =
     f\<lparr>af_Action := sanitizePostgresText (af_Action f),
       af_ResourceType := sanitizePostgresText (af_ResourceType f),
       af_Result := sanitizePostgresText (af_Result f),
       af_Limit := (let limit = (if af_Limit f \<le> 0 then defaultAuditLogLimit else af_Limit f) in
                    if limit > maxAuditLogLimit then maxAuditLogLimit else limit),
       af_Offset := (if af_Offset f < 0 then 0 else af_Offset f)\<rparr>"

text \<open>\<open>auditLogWhere\<close>: the conjunction of the conditions that the filter sets.\<close>

definition auditLogWhere :: "audit_filter \<Rightarrow> audit_log \<Rightarrow> bool" where
  "auditLogWhere f r \<longleftrightarrow>
     (case af_AdminID f of None \<Rightarrow> True | Some a \<Rightarrow> al_AdminID r = Some a) \<and>
     (af_Action f \<noteq> [] \<longrightarrow> al_Action r = af_Action f) \<and>
     (af_ResourceType f \<noteq> [] \<longrightarrow> al_ResourceType r = af_ResourceType f) \<and>
     (af_Result f \<noteq> [] \<longrightarrow> al_Result r = af_Result f) \<and>
     (case af_Since f of None \<Rightarrow> True | Some t \<Rightarrow> to_timestamp t \<le> al_CreatedAt r) \<and>
     (case af_Until f of None \<Rightarrow> True | Some t \<Rightarrow> al_CreatedAt r < to_timestamp t)"

definition newest_first :: "audit_log list \<Rightarrow> audit_log list" where
  "newest_first rows = sort_key (\<lambda>r. (- al_CreatedAt r, - al_ID r)) rows"

definition ListAuditLogsFiltered :: "audit_db \<Rightarrow> audit_filter \<Rightarrow> audit_log list" where
  "ListAuditLogsFiltered db filter0 =
     (let f = normalizeAuditLogFilter filter0 in
      take (nat (af_Limit f)) (drop (nat (af_Offset f))
        (newest_first (filter (auditLogWhere f) (adb_rows db)))))"

definition ListAuditLogsPage :: "audit_db \<Rightarrow> audit_filter \<Rightarrow> audit_log list \<times> nat" where
  "ListAuditLogsPage db filter0 =
     (let f = normalizeAuditLogFilter filter0 in
      (take (nat (af_Limit f)) (drop (nat (af_Offset f))
         (newest_first (filter (auditLogWhere f) (adb_rows db)))),
       length (filter (auditLogWhere f) (adb_rows db))))"

subsection \<open>Facts\<close>

definition audit_ok :: "audit_db \<Rightarrow> bool" where
  "audit_ok db \<longleftrightarrow> unique_key al_ID (adb_rows db) \<and> (\<forall>r \<in> set (adb_rows db). al_ID r < adb_next db)"

lemma audit_ok_insert: "audit_ok db \<Longrightarrow> audit_ok (snd (insertAuditLog db log now))"
  by (auto simp: audit_ok_def insertAuditLog_def Let_def unique_key_def)

lemma insert_rows:
  "\<exists>row. adb_rows (snd (insertAuditLog db log now)) = adb_rows db @ [row] \<and> al_AdminID row = al_AdminID log"
  by (simp add: insertAuditLog_def Let_def)

lemma newest_first_set [simp]: "set (newest_first rows) = set rows"
  by (simp add: newest_first_def)

lemma newest_first_mset: "mset (newest_first rows) = mset rows"
  by (simp add: newest_first_def)

lemma newest_first_distinct: "distinct (map al_ID rows) \<Longrightarrow> distinct (map al_ID (newest_first rows))"
  by (metis mset_map newest_first_mset mset_eq_imp_distinct_iff)

lemma pages_take:
  "concat (map (\<lambda>k. take l (drop (k * l) xs)) [0 ..< n]) = take (n * l) xs"
proof (induction n)
  case (Suc n)
  have "take (Suc n * l) xs = take (n * l) xs @ take l (drop (n * l) xs)"
    by (metis add.commute mult_Suc take_add)
  with Suc show ?case by simp
qed simp

subsection \<open>Properties\<close>

text \<open>Paging the audit log loses and repeats nothing: for a page size between 1 and 1000, the pages
  read at consecutive offsets concatenate to the matching rows, newest first, and the reported total is
  the number of matching rows.\<close>

theorem audit_pages_cover:
  assumes "1 \<le> l" and "l \<le> 1000"
    and "length (filter (auditLogWhere (normalizeAuditLogFilter f)) (adb_rows db)) \<le> n * nat l"
  shows "concat (map (\<lambda>k. fst (ListAuditLogsPage db (f\<lparr>af_Limit := l, af_Offset := int k * l\<rparr>))) [0 ..< n]) =
      newest_first (filter (auditLogWhere (normalizeAuditLogFilter f)) (adb_rows db)) \<and>
    snd (ListAuditLogsPage db f) = length (filter (auditLogWhere (normalizeAuditLogFilter f)) (adb_rows db))"
proof
  let ?rows = "filter (auditLogWhere (normalizeAuditLogFilter f)) (adb_rows db)"
  have where_eq: "auditLogWhere (normalizeAuditLogFilter (f\<lparr>af_Limit := l, af_Offset := b\<rparr>)) =
      auditLogWhere (normalizeAuditLogFilter f)" for b
    by (rule ext) (simp add: auditLogWhere_def normalizeAuditLogFilter_def)
  have bounds: "af_Limit (normalizeAuditLogFilter (f\<lparr>af_Limit := l, af_Offset := int k * l\<rparr>)) = l"
    "af_Offset (normalizeAuditLogFilter (f\<lparr>af_Limit := l, af_Offset := int k * l\<rparr>)) = int k * l" for k
  proof -
    have "0 \<le> int k * l" using assms(1) by simp
    then have "\<not> int k * l < 0" by linarith
    then show "af_Offset (normalizeAuditLogFilter (f\<lparr>af_Limit := l, af_Offset := int k * l\<rparr>)) = int k * l"
      by (simp add: normalizeAuditLogFilter_def)
  qed (use assms(1,2) in \<open>auto simp: normalizeAuditLogFilter_def maxAuditLogLimit_def Let_def\<close>)
  have page: "fst (ListAuditLogsPage db (f\<lparr>af_Limit := l, af_Offset := int k * l\<rparr>)) =
      take (nat l) (drop (k * nat l) (newest_first ?rows))" for k
    by (simp add: ListAuditLogsPage_def Let_def where_eq bounds nat_mult_distrib)
  have "length (newest_first ?rows) \<le> n * nat l"
    using assms(3) by (metis newest_first_mset size_mset)
  then show "concat (map (\<lambda>k. fst (ListAuditLogsPage db (f\<lparr>af_Limit := l, af_Offset := int k * l\<rparr>))) [0 ..< n]) =
      newest_first ?rows"
    by (simp add: page pages_take)
  show "snd (ListAuditLogsPage db f) = length ?rows"
    by (simp add: ListAuditLogsPage_def Let_def)
qed

definition demo_audit :: "int \<Rightarrow> time \<Rightarrow> audit_log" where
  "demo_audit i t = \<lparr>al_ID = i, al_AdminID = Some 1, al_Username = ''root'', al_Action = ''delete'',
     al_ResourceType = ''alias'', al_ResourceID = ''7'', al_Result = ''success'', al_IP = [],
     al_RequestID = [], al_Detail = [], al_CreatedAt = t\<rparr>"

definition demo_filter :: audit_filter where
  "demo_filter = \<lparr>af_AdminID = Some 1, af_Action = [], af_ResourceType = [], af_Result = [],
     af_Since = None, af_Until = None, af_Limit = 1, af_Offset = 0\<rparr>"

lemma audit_pages_cover_witness:
  "snd (ListAuditLogsPage \<lparr>adb_next = 3, adb_rows = [demo_audit 1 5, demo_audit 2 9]\<rparr> demo_filter) = 2"
  using audit_pages_cover [of 1 demo_filter "\<lparr>adb_next = 3, adb_rows = [demo_audit 1 5, demo_audit 2 9]\<rparr>" 2]
  by (simp add: auditLogWhere_def normalizeAuditLogFilter_def demo_filter_def demo_audit_def
      sanitizePostgresText_def to_valid_utf8_def to_valid_from.simps)

end
