(* ===== verification/Domain.thy ===== *)
theory Domain
  imports GoBase
begin

section \<open>Domain values and their normal forms (internal/domain)\<close>

text \<open>
  The records shared by the store and the services, and the functions that bring administrator
  input into normal form: e-mail addresses, mailbox types, mailbox suffixes and IMAP endpoints.
  \<open>net.ParseIP\<close> is written out because the endpoint check branches on it.
\<close>

subsection \<open>Accounts\<close>

record account =
  ac_ID :: int
  ac_Name :: string
  ac_Email :: string
  ac_IMAPHost :: string
  ac_IMAPPort :: int
  ac_IMAPUsername :: string
  ac_PasswordCiphertext :: string
  ac_Enabled :: bool
  ac_LastSyncStatus :: string
  ac_LastSyncError :: string
  ac_LastSyncedAt :: "time option"
  ac_CreatedAt :: time
  ac_UpdatedAt :: time
  ac_AliasCount :: int
  ac_MailboxType :: string
  ac_EmailSuffix :: string

definition MailboxTypeICloud :: string where "MailboxTypeICloud = ''icloud''"
definition MailboxTypeCustom :: string where "MailboxTypeCustom = ''custom''"

definition DefaultIMAPHost :: string where "DefaultIMAPHost = ''imap.mail.me.com''"
definition DefaultIMAPPort :: int where "DefaultIMAPPort = 993"

definition NormalizeEmail :: "string \<Rightarrow> string" where
  "NormalizeEmail v = to_lower (trim_space v)"

definition NormalizeMailboxType :: "string \<Rightarrow> string" where
  "NormalizeMailboxType v =
     (let t = to_lower (trim_space v) in
      if t = MailboxTypeCustom then MailboxTypeCustom
      else if t = MailboxTypeICloud \<or> t = [] then MailboxTypeICloud
      else [])"

subsection \<open>Mailbox suffixes\<close>

definition suffix_rune :: "rune \<Rightarrow> bool" where
  "suffix_rune r \<longleftrightarrow> (97 \<le> r \<and> r \<le> 122) \<or> (48 \<le> r \<and> r \<le> 57) \<or> r = 45"

definition suffix_label_ok :: "string \<Rightarrow> bool" where
  "suffix_label_ok l \<longleftrightarrow>
     \<not> (l = [] \<or> length l > 63 \<or> has_prefix l ''-'' \<or> has_suffix l ''-'') \<and> list_all suffix_rune (runes l)"

text \<open>Blank, tab, carriage return, line feed and at-sign.\<close>

definition suffix_forbidden :: string where
  "suffix_forbidden = [CHR '' '', CHR 0x09, CHR 0x0D, CHR 0x0A, CHR ''@'']"

text \<open>Every failure of the code is the one error \<open>invalid email suffix\<close>.\<close>

definition NormalizeEmailSuffix :: "string \<Rightarrow> string option" where
  "NormalizeEmailSuffix value =
     (let suffix = trim_prefix (to_lower (trim_space value)) ''@'' in
      if suffix = [] \<or> length suffix > 241 \<or> contains_any suffix suffix_forbidden then None
      else if has_prefix suffix ''.'' \<or> has_suffix suffix ''.'' \<or> str_contains suffix ''..'' then None
      else if \<not> list_all suffix_label_ok (split_on CHR ''.'' suffix) then None
      else Some suffix)"

definition IsValidEmailSuffix :: "string \<Rightarrow> bool" where
  "IsValidEmailSuffix value \<longleftrightarrow> NormalizeEmailSuffix value \<noteq> None"

subsection \<open>IP literals: net.ParseIP and IP.String\<close>

type_synonym octets = "nat list"

definition dec_value :: "string \<Rightarrow> nat option" where
  "dec_value s =
     (if s = [] \<or> \<not> list_all (\<lambda>c. 48 \<le> byte_val c \<and> byte_val c \<le> 57) s then None
      else if 1 < length s \<and> hd s = CHR ''0'' then None
      else (let v = foldl (\<lambda>n c. 10 * n + (byte_val c - 48)) 0 s in if v > 255 then None else Some v))"

definition parse_ipv4 :: "string \<Rightarrow> octets option" where
  "parse_ipv4 s =
     (let parts = map dec_value (split_on CHR ''.'' s) in
      if length parts = 4 \<and> list_all (\<lambda>p. p \<noteq> None) parts then Some (map the parts) else None)"

definition hex_value :: "byte \<Rightarrow> nat option" where
  "hex_value c =
     (let v = byte_val c in
      if 48 \<le> v \<and> v \<le> 57 then Some (v - 48)
      else if 97 \<le> v \<and> v \<le> 102 then Some (v - 87)
      else if 65 \<le> v \<and> v \<le> 70 then Some (v - 55)
      else None)"

definition hex_field :: "string \<Rightarrow> nat" where
  "hex_field ds = foldl (\<lambda>n c. 16 * n + the (hex_value c)) 0 ds"

text \<open>
  The field loop of \<open>netip.parseIPv6\<close>: \<open>ip\<close> are the octets read so far, \<open>ell\<close> the position of the
  ellipsis. At most eight fields are read, which bounds the recursion.
\<close>

fun ipv6_fields :: "nat \<Rightarrow> octets \<Rightarrow> nat option \<Rightarrow> string \<Rightarrow> (octets \<times> nat option \<times> string) option" where
  "ipv6_fields 0 ip ell s = Some (ip, ell, s)"
| "ipv6_fields (Suc n) ip ell s =
     (let ds = takeWhile (\<lambda>c. hex_value c \<noteq> None) s; rest = drop (length ds) s in
      if ds = [] \<or> length ds > 4 then None
      else if rest \<noteq> [] \<and> hd rest = CHR ''.'' then
        (if (ell = None \<and> length ip \<noteq> 12) \<or> length ip + 4 > 16 then None
         else (case parse_ipv4 s of None \<Rightarrow> None | Some v4 \<Rightarrow> Some (ip @ v4, ell, [])))
      else
        (let ip' = ip @ [hex_field ds div 256, hex_field ds mod 256] in
         case rest of
           [] \<Rightarrow> Some (ip', ell, [])
         | c # t \<Rightarrow>
             if c \<noteq> CHR '':'' \<or> t = [] then None
             else if hd t = CHR '':'' then
               (if ell \<noteq> None then None
                else if tl t = [] then Some (ip', Some (length ip'), [])
                else ipv6_fields n ip' (Some (length ip')) (tl t))
             else ipv6_fields n ip' ell t))"

definition parse_ipv6 :: "string \<Rightarrow> octets option" where
  "parse_ipv6 s =
     (let lead = has_prefix s ''::''; body = (if lead then drop 2 s else s) in
      if lead \<and> body = [] then Some (replicate 16 0)
      else (case ipv6_fields 8 [] (if lead then Some 0 else None) body of
              None \<Rightarrow> None
            | Some (ip, ell, rest) \<Rightarrow>
                if rest \<noteq> [] then None
                else if length ip < 16 then
                  (case ell of
                     None \<Rightarrow> None
                   | Some k \<Rightarrow> Some (take k ip @ replicate (16 - length ip) 0 @ drop k ip))
                else if ell \<noteq> None then None else Some ip))"

text \<open>\<open>net.ParseIP\<close>: sixteen octets, IPv4 in its mapped form; a zone is refused.\<close>

definition v4_mapped :: "octets \<Rightarrow> octets" where
  "v4_mapped v4 = replicate 10 0 @ [255, 255] @ v4"

fun first_mark :: "string \<Rightarrow> byte option" where
  "first_mark [] = None"
| "first_mark (c # s) = (if c \<in> {CHR ''.'', CHR '':'', CHR ''%''} then Some c else first_mark s)"

definition ParseIP :: "string \<Rightarrow> octets option" where
  "ParseIP s =
     (case first_mark s of
        None \<Rightarrow> None
      | Some c \<Rightarrow>
          if c = CHR ''.'' then map_option v4_mapped (parse_ipv4 s)
          else if c = CHR '':'' \<and> CHR ''%'' \<notin> set s then parse_ipv6 s
          else None)"

fun hex_string :: "nat \<Rightarrow> string" where
  "hex_string n = (if n < 16 then [hex_digit n] else hex_string (n div 16) @ [hex_digit (n mod 16)])"

fun zero_runs :: "nat \<Rightarrow> nat list \<Rightarrow> (nat \<times> nat) list" where
  "zero_runs i [] = []"
| "zero_runs i (f # fs) =
     (i, length (takeWhile (\<lambda>x. x = 0) (f # fs))) # zero_runs (Suc i) fs"

text \<open>\<open>IP.String\<close>: dotted for a mapped address; otherwise the first longest run of two or more zero
  fields is written as an ellipsis.\<close>

definition v6_string :: "nat list \<Rightarrow> string" where
  "v6_string fs =
     (let best = foldl (\<lambda>b r. if snd r > snd b \<and> snd r \<ge> 2 then r else b) (0, 0) (zero_runs 0 fs) in
      if snd best = 0 then join '':'' (map hex_string fs)
      else join '':'' (map hex_string (take (fst best) fs)) @ ''::'' @
           join '':'' (map hex_string (drop (fst best + snd best) fs)))"

fun pair_fields :: "octets \<Rightarrow> nat list" where
  "pair_fields (a # b # t) = (256 * a + b) # pair_fields t"
| "pair_fields _ = []"

definition IP_String :: "octets \<Rightarrow> string" where
  "IP_String ip =
     (if take 12 ip = replicate 10 0 @ [255, 255] then join ''.'' (map dec_string (drop 12 ip))
      else v6_string (pair_fields ip))"

subsection \<open>IMAP endpoints\<close>

datatype endpoint_error =
    HostEmpty
  | HostTooLong
  | PortOutOfRange
  | HostWhitespace
  | HostBracketed
  | InvalidLabel

definition dns_byte :: "byte \<Rightarrow> bool" where
  "dns_byte c \<longleftrightarrow>
     (97 \<le> byte_val c \<and> byte_val c \<le> 122) \<or> (65 \<le> byte_val c \<and> byte_val c \<le> 90) \<or>
     (48 \<le> byte_val c \<and> byte_val c \<le> 57) \<or> byte_val c = 45"

definition dns_label_ok :: "string \<Rightarrow> bool" where
  "dns_label_ok l \<longleftrightarrow>
     \<not> (length l < 1 \<or> length l > 63) \<and> \<not> (hd l = CHR ''-'' \<or> last l = CHR ''-'') \<and> list_all dns_byte l"

definition NormalizeIMAPEndpoint :: "string \<Rightarrow> int \<Rightarrow> endpoint_error + (string \<times> int)" where
  "NormalizeIMAPEndpoint host0 port =
     (let host = trim_space host0 in
      if host = [] then Inl HostEmpty
      else if length host > 253 then Inl HostTooLong
      else if port < 1 \<or> port > 65535 then Inl PortOutOfRange
      else if list_ex is_space (runes host) then Inl HostWhitespace
      else if contains_any host ''[]'' then Inl HostBracketed
      else
        (case ParseIP host of
           Some ip \<Rightarrow> Inr (IP_String ip, port)
         | None \<Rightarrow>
             (let h = (if has_suffix host ''.'' then trim_suffix host ''.'' else host) in
              if has_suffix host ''.'' \<and> h = [] then Inl HostEmpty
              else if length h > 253 then Inl HostTooLong
              else if \<not> list_all dns_label_ok (split_on CHR ''.'' h) then Inl InvalidLabel
              else Inr (to_lower h, port))))"

definition UsesForwardedICloudIMAP :: "account \<Rightarrow> bool" where
  "UsesForwardedICloudIMAP a =
     (if NormalizeMailboxType (ac_MailboxType a) \<noteq> MailboxTypeICloud then False
      else
        (let accountEmail = NormalizeEmail (ac_Email a);
             imapUsername = NormalizeEmail (ac_IMAPUsername a) in
         if accountEmail \<noteq> [] \<and> imapUsername \<noteq> [] \<and> accountEmail \<noteq> imapUsername then True
         else
           (let host0 = trim_space (ac_IMAPHost a);
                host = (if host0 = [] then DefaultIMAPHost else host0);
                port = (if ac_IMAPPort a = 0 then DefaultIMAPPort else ac_IMAPPort a) in
            case NormalizeIMAPEndpoint host port of
              Inl _ \<Rightarrow> False
            | Inr (h, p) \<Rightarrow> h \<noteq> DefaultIMAPHost \<or> p \<noteq> DefaultIMAPPort)))"

subsection \<open>One-time passwords and progress\<close>

definition IsSixDigitOTP :: "string \<Rightarrow> bool" where
  "IsSixDigitOTP value =
     (let v = (if length value = 7 \<and> value ! 3 = CHR ''-'' then take 3 value @ drop 4 value else value) in
      length v = 6 \<and> list_all (\<lambda>c. 48 \<le> byte_val c \<and> byte_val c \<le> 57) v)"

datatype sync_trigger = SyncManual | SyncAutomatic

datatype sync_phase =
    PhaseQueued | PhaseWaiting | PhasePreparing | PhaseConnecting | PhaseAuthenticating
  | PhaseScanning | PhaseReading | PhaseValidating | PhaseSaving

definition clamp_percent :: "int \<Rightarrow> int" where
  "clamp_percent p = (if p < 0 then 0 else if p > 100 then 100 else p)"

text \<open>The reporter of the context, if one is installed, receives the clamped value.\<close>

definition ReportMailboxSyncProgress ::
  "(sync_phase \<times> int \<Rightarrow> 's \<Rightarrow> 's) option \<Rightarrow> sync_phase \<Rightarrow> int \<Rightarrow> 's \<Rightarrow> 's" where
  "ReportMailboxSyncProgress reporter phase percent s =
     (case reporter of None \<Rightarrow> s | Some report \<Rightarrow> report (phase, clamp_percent percent) s)"

subsection \<open>Facts about normal forms\<close>

lemma decode_vals_small: "fst (decode_vals bs) < 128 \<Longrightarrow> bs \<noteq> [] \<Longrightarrow> hd bs < 128"
  by (cases bs) (auto simp: rune_error_def cont_byte_def second_ok_def split: list.splits if_splits)

lemma ascii_runes: "list_all (\<lambda>r. r < 128) (runes s) \<Longrightarrow> ascii s"
proof (induction s)
  case (Cons c s)
  have "fst (decode_rune (c # s)) < 128"
    using Cons.prems by (subst (asm) runes.simps) simp
  then have c: "byte_val c < 128"
    unfolding decode_rune_def by (drule_tac decode_vals_small) auto
  with Cons show ?case by (simp add: runes_ascii_Cons)
qed simp

lemma suffix_label_bytes:
  "suffix_label_ok l \<Longrightarrow> ascii l \<and> (\<forall>c \<in> set l. suffix_rune (byte_val c))"
proof -
  assume ok: "suffix_label_ok l"
  then have runes: "list_all suffix_rune (runes l)" by (simp add: suffix_label_ok_def)
  then have "list_all (\<lambda>r. r < 128) (runes l)"
    by (rule list.pred_mono_strong) (auto simp: suffix_rune_def)
  then have a: "ascii l" by (rule ascii_runes)
  with runes show ?thesis by (simp add: runes_ascii list_all_iff)
qed

lemma set_split_on: "set s \<subseteq> insert d (\<Union> (set ` set (split_on d s)))"
proof (induction s)
  case (Cons a s)
  then show ?case by (cases "split_on d s") (auto dest: subsetD)
qed simp

lemma lower_byte_id: "\<not> (65 \<le> byte_val c \<and> byte_val c \<le> 90) \<Longrightarrow> lower_byte c = c"
  by (auto simp: lower_byte_def)

lemma to_lower_id:
  "ascii s \<Longrightarrow> (\<And>c. c \<in> set s \<Longrightarrow> \<not> (65 \<le> byte_val c \<and> byte_val c \<le> 90)) \<Longrightarrow> to_lower s = s"
  by (simp add: to_lower_def map_idI lower_byte_id)

lemma trim_space_id:
  "ascii s \<Longrightarrow> (\<And>c. c \<in> set s \<Longrightarrow> \<not> space_byte c) \<Longrightarrow> trim_space s = s"
proof -
  assume a: "ascii s" and n: "\<And>c. c \<in> set s \<Longrightarrow> \<not> space_byte c"
  have "dropWhile space_byte s = s" using n by (cases s) auto
  moreover have "dropWhile space_byte (rev s) = rev s"
    using n by (metis dropWhile_eq_self_iff hd_in_set set_rev)
  ultimately show ?thesis using a by (simp add: trim_space_ascii)
qed

lemma suffix_bytes:
  assumes "list_all suffix_label_ok (split_on CHR ''.'' s)" and "c \<in> set s"
  shows "c = CHR ''.'' \<or> suffix_rune (byte_val c)"
  using assms set_split_on [of s "CHR ''.''"] suffix_label_bytes by (auto simp: list_all_iff)

lemma suffix_normal_form:
  assumes "list_all suffix_label_ok (split_on CHR ''.'' s)"
  shows "to_lower s = s \<and> trim_space s = s \<and> trim_prefix s ''@'' = s"
proof -
  have bytes: "byte_val c = 46 \<or> suffix_rune (byte_val c)" if "c \<in> set s" for c
    using suffix_bytes [OF assms that] by auto
  then have a: "ascii s" by (fastforce simp: ascii_def suffix_rune_def)
  have "to_lower s = s" by (rule to_lower_id [OF a]) (use bytes in \<open>fastforce simp: suffix_rune_def\<close>)
  moreover have "trim_space s = s"
    by (rule trim_space_id [OF a]) (use bytes in \<open>fastforce simp: suffix_rune_def is_space_def\<close>)
  moreover have "\<not> has_prefix s ''@''"
    using bytes by (cases s) (fastforce simp: has_prefix_def suffix_rune_def)+
  ultimately show ?thesis by (simp add: trim_prefix_def)
qed

lemma split_on_map:
  "(\<And>c. f c = d \<longleftrightarrow> c = d) \<Longrightarrow> split_on d (map f s) = map (map f) (split_on d s)"
  by (induction s) (auto split: list.splits)

lemma split_on_snoc: "split_on d (s @ [d]) = split_on d s @ [[]]"
  by (induction s) (auto split: list.splits)

lemma trailing_dot_label: "has_suffix s ''.'' \<Longrightarrow> [] \<in> set (split_on CHR ''.'' s)"
proof -
  assume h: "has_suffix s ''.''"
  then have "s = take (length s - 1) s @ ''.''"
    by (metis One_nat_def append_take_drop_id has_suffix_def length_Cons list.size(3))
  then show ?thesis using split_on_snoc [of "CHR ''.''" "take (length s - 1) s"]
    by (metis in_set_conv_decomp)
qed

lemma byte_val_lower: "65 \<le> byte_val c \<Longrightarrow> byte_val c \<le> 90 \<Longrightarrow> byte_val (lower_byte c) = byte_val c + 32"
  by (simp add: lower_byte_def)

lemma byte_val_inj: "byte_val c = byte_val d \<longleftrightarrow> c = d"
  by simp

lemma lower_byte_dns:
  "dns_byte c \<Longrightarrow> dns_byte (lower_byte c) \<and> \<not> (65 \<le> byte_val (lower_byte c) \<and> byte_val (lower_byte c) \<le> 90)"
  by (cases "65 \<le> byte_val c \<and> byte_val c \<le> 90") (auto simp: dns_byte_def byte_val_lower lower_byte_id)

lemma lower_byte_mark:
  assumes "\<not> (97 \<le> byte_val d \<and> byte_val d \<le> 122)" "\<not> (65 \<le> byte_val d \<and> byte_val d \<le> 90)"
  shows "lower_byte c = d \<longleftrightarrow> c = d"
proof (cases "65 \<le> byte_val c \<and> byte_val c \<le> 90")
  case True
  then have "byte_val (lower_byte c) = byte_val c + 32" by (simp add: byte_val_lower)
  with True assms have "byte_val (lower_byte c) \<noteq> byte_val d" and "byte_val c \<noteq> byte_val d" by auto
  then show ?thesis by metis
next
  case False
  then show ?thesis by (simp add: lower_byte_id)
qed

lemma dns_label_lower: "dns_label_ok l \<Longrightarrow> dns_label_ok (map lower_byte l)"
proof -
  assume ok: "dns_label_ok l"
  then have "l \<noteq> []" by (auto simp: dns_label_ok_def)
  moreover have "lower_byte c = CHR ''-'' \<longleftrightarrow> c = CHR ''-''" for c
    by (rule lower_byte_mark) simp_all
  moreover have "list_all dns_byte (map lower_byte l)"
    using ok lower_byte_dns by (simp add: dns_label_ok_def list_all_iff)
  ultimately show ?thesis using ok by (simp add: dns_label_ok_def hd_map last_map)
qed

lemma dns_bytes:
  assumes "list_all dns_label_ok (split_on CHR ''.'' s)" and "c \<in> set s"
  shows "c = CHR ''.'' \<or> dns_byte c"
  using assms set_split_on [of s "CHR ''.''"] by (auto simp: list_all_iff dns_label_ok_def)

lemma dns_name_lower:
  assumes "list_all dns_label_ok (split_on CHR ''.'' h)"
  shows "to_lower h = map lower_byte h" and "list_all dns_label_ok (split_on CHR ''.'' (map lower_byte h))"
proof -
  have "ascii h" using dns_bytes [OF assms] by (fastforce simp: ascii_def dns_byte_def)
  then show "to_lower h = map lower_byte h" by (simp add: to_lower_def)
  show "list_all dns_label_ok (split_on CHR ''.'' (map lower_byte h))"
    using assms lower_byte_mark [of "CHR ''.''"] dns_label_lower
    by (subst split_on_map) (auto simp: list_all_iff)
qed

lemma dns_name_fixed:
  assumes "list_all dns_label_ok (split_on CHR ''.'' h)" and "length h \<le> 253"
    and "\<And>c. c \<in> set h \<Longrightarrow> \<not> (65 \<le> byte_val c \<and> byte_val c \<le> 90)"
    and "1 \<le> p" and "p \<le> 65535" and "ParseIP h = None"
  shows "NormalizeIMAPEndpoint h p = Inr (h, p)"
proof -
  have bytes: "byte_val c = 46 \<or> dns_byte c" if "c \<in> set h" for c
    using dns_bytes [OF assms(1) that] by auto
  then have a: "ascii h" by (fastforce simp: ascii_def dns_byte_def)
  have nosp: "\<not> space_byte c" if "c \<in> set h" for c
    using bytes [OF that] by (auto simp: dns_byte_def is_space_def)
  have trim: "trim_space h = h" by (rule trim_space_id [OF a nosp])
  have "\<not> list_ex is_space (runes h)" using nosp by (auto simp: runes_ascii [OF a] list_ex_iff)
  moreover have "\<not> contains_any h ''[]''"
    using bytes by (fastforce simp: contains_any_def list_ex_iff dns_byte_def)
  moreover have "[] \<notin> set (split_on CHR ''.'' h)"
    using assms(1) by (auto simp: list_all_iff dns_label_ok_def)
  then have "\<not> has_suffix h ''.''" and "h \<noteq> []" using trailing_dot_label by auto
  moreover have "to_lower h = h" by (rule to_lower_id [OF a assms(3)])
  ultimately show ?thesis
    using assms by (simp add: NormalizeIMAPEndpoint_def trim)
qed

subsection \<open>Properties\<close>

text \<open>An accepted mailbox suffix is a DNS-style name in normal form: its labels are nonempty, at most
  63 bytes, of lower-case ASCII letters, digits and inner hyphens; with a generated local part of twelve
  bytes and the at-sign the address stays within 254 bytes; and normalising it again changes nothing.\<close>

theorem email_suffix_normal_form:
  assumes "NormalizeEmailSuffix v = Some s"
  shows "list_all suffix_label_ok (split_on CHR ''.'' s) \<and> 12 + 1 + length s \<le> 254 \<and>
    NormalizeEmailSuffix s = Some s"
proof -
  have ok: "list_all suffix_label_ok (split_on CHR ''.'' s)" "length s \<le> 241"
    "\<not> contains_any s suffix_forbidden" "s \<noteq> []"
    "\<not> (has_prefix s ''.'' \<or> has_suffix s ''.'' \<or> str_contains s ''..'')"
    using assms by (auto simp: NormalizeEmailSuffix_def Let_def split: if_splits)
  then have "NormalizeEmailSuffix s = Some s"
    using suffix_normal_form [OF ok(1)] by (simp add: NormalizeEmailSuffix_def)
  with ok show ?thesis by simp
qed

lemma email_suffix_normal_form_witness:
  "NormalizeEmailSuffix ''@Mail.Example'' = Some ''mail.example'' \<and>
   NormalizeEmailSuffix ''mail.example'' = Some ''mail.example''"
proof -
  have trim: "trim_space ''@Mail.Example'' = ''@Mail.Example''" by (simp add: text_simps is_space_def)
  have lower: "to_lower ''@Mail.Example'' = ''@mail.example''" by code_simp
  have rest: "suffix_label_ok ''mail''" "suffix_label_ok ''example''" by code_simp+
  have "NormalizeEmailSuffix ''@Mail.Example'' = Some ''mail.example''"
    using rest by (simp add: NormalizeEmailSuffix_def trim lower trim_prefix_def has_prefix_def has_suffix_def
        contains_any_def suffix_forbidden_def str_contains_def Let_def)
  with email_suffix_normal_form [OF this] show ?thesis by simp
qed

text \<open>An accepted IMAP endpoint keeps its port, which is between 1 and 65535; its host is the text of an
  IP literal, or a lower-case DNS name of at most 253 bytes with well-formed labels and no trailing dot,
  which normalises to itself unless it reads as an IP literal.\<close>

theorem imap_endpoint_normal_form:
  assumes "NormalizeIMAPEndpoint host port = Inr (h, p)"
  shows "p = port \<and> 1 \<le> p \<and> p \<le> 65535 \<and>
    ((\<exists>ip. ParseIP (trim_space host) = Some ip \<and> h = IP_String ip) \<or>
     (length h \<le> 253 \<and> list_all dns_label_ok (split_on CHR ''.'' h) \<and>
      (ParseIP h = None \<longrightarrow> NormalizeIMAPEndpoint h p = Inr (h, p))))"
proof -
  let ?h = "trim_space host"
  have port: "p = port" "1 \<le> port" "port \<le> 65535"
    using assms by (auto simp: NormalizeIMAPEndpoint_def Let_def split: if_splits option.splits)
  show ?thesis
  proof (cases "ParseIP ?h")
    case (Some ip)
    then have "h = IP_String ip"
      using assms by (auto simp: NormalizeIMAPEndpoint_def Let_def split: if_splits)
    with Some port show ?thesis by simp
  next
    case None
    define g where "g = (if has_suffix ?h ''.'' then trim_suffix ?h ''.'' else ?h)"
    have g: "h = to_lower g" "length g \<le> 253" "list_all dns_label_ok (split_on CHR ''.'' g)"
      using assms None
      by (auto simp: NormalizeIMAPEndpoint_def Let_def g_def trim_suffix_def split: if_splits)
    note low = dns_name_lower [OF g(3)]
    have h: "h = map lower_byte g" using g(1) low(1) by simp
    have "\<not> (65 \<le> byte_val c \<and> byte_val c \<le> 90)" if "c \<in> set h" for c
      using that dns_bytes [OF g(3)] lower_byte_dns lower_byte_id [of "CHR ''.''"] unfolding h by fastforce
    then have "ParseIP h = None \<Longrightarrow> NormalizeIMAPEndpoint h p = Inr (h, p)"
      using dns_name_fixed [of h p] low(2) g(2) port h by auto
    with h low(2) g(2) port show ?thesis by simp
  qed
qed

lemma imap_endpoint_normal_form_witness:
  "NormalizeIMAPEndpoint '' IMAP.Example.com. '' 993 = Inr (''imap.example.com'', 993) \<and>
   NormalizeIMAPEndpoint ''imap.example.com'' 993 = Inr (''imap.example.com'', 993)"
proof -
  have trim: "trim_space '' IMAP.Example.com. '' = ''IMAP.Example.com.''"
    by (simp add: text_simps is_space_def)
  have lower: "to_lower ''IMAP.Example.com'' = ''imap.example.com''" by code_simp
  have ip: "ParseIP ''IMAP.Example.com.'' = None" "ParseIP ''imap.example.com'' = None" by code_simp+
  have labels: "dns_label_ok ''IMAP''" "dns_label_ok ''Example''" "dns_label_ok ''com''" by code_simp+
  have e: "NormalizeIMAPEndpoint '' IMAP.Example.com. '' 993 = Inr (''imap.example.com'', 993)"
    using labels by (simp add: NormalizeIMAPEndpoint_def trim ip lower runes_ascii is_space_def contains_any_def
        has_suffix_def trim_suffix_def)
  with imap_endpoint_normal_form [OF e] trim ip show ?thesis by simp
qed

end
