(* ===== verification/MailTables.thy ===== *)
theory MailTables
  imports AuditLog Domain
begin

section \<open>Mailbox records and tables (internal/domain/models.go)\<close>

text \<open>
  The values that mailbox synchronisation moves: aliases with their IMAP UID counters, upstream
  messages, archived messages and their per-alias links, the one-row snapshots of the legacy
  routes, cursors, consumption marks and seen tasks; and the database that holds them. A row is the
  domain value with its times as int64 timestamps. JSON columns hold the text of \<open>json.Marshal\<close>.
\<close>

subsection \<open>Domain values\<close>

definition SyncStatusPending :: string where "SyncStatusPending = ''pending''"
definition SyncStatusOK :: string where "SyncStatusOK = ''ok''"
definition SyncStatusError :: string where "SyncStatusError = ''error''"

definition ArchiveContentAvailable :: string where "ArchiveContentAvailable = ''available''"
definition ArchiveContentEvicted :: string where "ArchiveContentEvicted = ''evicted''"
definition ArchiveContentMetadata :: string where "ArchiveContentMetadata = ''metadata_only''"
definition ArchiveContentOversized :: string where "ArchiveContentOversized = ''oversized''"
definition ArchiveContentMissing :: string where "ArchiveContentMissing = ''missing''"

definition SnapshotEmpty :: string where "SnapshotEmpty = ''empty''"

lemmas content_states = ArchiveContentAvailable_def ArchiveContentEvicted_def ArchiveContentMetadata_def
  ArchiveContentOversized_def ArchiveContentMissing_def

definition max_uint32 :: int where "max_uint32 = 4294967295"

record mail_alias =
  a_ID :: int
  a_AccountID :: int
  a_AccountEmail :: string
  a_Address :: string
  a_Label :: string
  a_GroupID :: "int option"
  a_GroupName :: string
  a_APIKeyHash :: string
  a_APIKeyPrefix :: string
  a_CredentialMode :: string
  a_CredentialCiphertext :: string
  a_IMAPPasswordHash :: string
  a_OAuthClientID :: string
  a_RefreshTokenHash :: string
  a_CredentialVersion :: int
  a_MailboxUIDValidity :: int
  a_MailboxUIDNext :: int
  a_Enabled :: bool
  a_LastSyncStatus :: string
  a_LastSyncError :: string
  a_LastSyncedAt :: "time option"
  a_LastAccessedAt :: "time option"
  a_CreatedAt :: time
  a_UpdatedAt :: time
  a_LatestReceivedAt :: "time option"

record mail_address =
  ma_Name :: string
  ma_Email :: string

record attachment =
  at_Filename :: string
  at_ContentType :: string
  at_Size :: int

record archived_message =
  ar_AccountID :: int
  ar_UIDValidity :: int
  ar_UID :: int
  ar_MessageID :: string
  ar_InternalDate :: time
  ar_HeaderDate :: "time option"
  ar_From :: "mail_address list"
  ar_To :: "mail_address list"
  ar_CC :: "mail_address list"
  ar_Subject :: string
  ar_TextBody :: string
  ar_HTMLBody :: string
  ar_Attachments :: "attachment list"
  ar_RawMIME :: string
  ar_RawMIMEPath :: string
  ar_RawSize :: int
  ar_RawSHA256 :: string
  ar_ContentState :: string
  ar_OTP :: string
  ar_AliasIDs :: "int list"
  ar_SyncedAt :: time
  ar_BodyTruncated :: bool
  ar_UpstreamSeen :: bool

record mailbox_message =
  mm_ID :: int
  mm_AliasID :: int
  mm_MailboxUID :: int
  mm_UIDValidity :: int
  mm_MessageID :: string
  mm_InternalDate :: time
  mm_HeaderDate :: "time option"
  mm_From :: "mail_address list"
  mm_To :: "mail_address list"
  mm_CC :: "mail_address list"
  mm_Subject :: string
  mm_ContentPath :: string
  mm_ContentBytes :: int
  mm_ContentSHA256 :: string
  mm_ContentState :: string
  mm_OTP :: string
  mm_BodyTruncated :: bool
  mm_ArchivedAt :: time

record otp_record =
  or_OTP :: string
  or_Time :: time

record latest_message =
  lm_AliasID :: int
  lm_UIDValidity :: int
  lm_UID :: int
  lm_MessageID :: string
  lm_InternalDate :: time
  lm_HeaderDate :: "time option"
  lm_From :: string
  lm_To :: string
  lm_CC :: string
  lm_Subject :: string
  lm_TextBody :: string
  lm_HTMLBody :: string
  lm_Attachments :: string
  lm_BodyTruncated :: bool
  lm_SyncedAt :: time

record sync_state =
  ss_AccountID :: int
  ss_UIDValidity :: int
  ss_LastUID :: int
  ss_UpdatedAt :: time

record seen_task =
  st_AccountID :: int
  st_UIDValidity :: int
  st_UID :: int
  st_CreatedAt :: time

record snapshot_position =
  sp_AliasID :: int
  sp_UIDValidity :: int
  sp_UID :: int

text \<open>An update of a legacy snapshot, of which only the position and the state are used.\<close>

record snapshot_update =
  su_AliasID :: int
  su_UIDValidity :: int
  su_UID :: int
  su_State :: string

record sync_result =
  sr_ArchivedMessages :: "archived_message list"
  sr_LegacySnapshotUpdates :: "(int \<times> snapshot_update) list"
  sr_State :: sync_state
  sr_Reset :: bool
  sr_HasMore :: bool
  sr_TargetUID :: int

subsection \<open>JSON columns\<close>

definition json_list :: "('a \<Rightarrow> string) \<Rightarrow> 'a list \<Rightarrow> string" where
  "json_list enc xs = ''['' @ join '','' (map enc xs) @ '']''"

definition json_object :: "string list \<Rightarrow> string" where
  "json_object flds = ''{'' @ join '','' flds @ ''}''"

definition marshal_address :: "mail_address \<Rightarrow> string" where
  "marshal_address a = json_object
     ((if ma_Name a = [] then [] else [json_field ''name'' (json_string (ma_Name a))]) @
      [json_field ''email'' (json_string (ma_Email a))])"

definition marshal_attachment :: "attachment \<Rightarrow> string" where
  "marshal_attachment a = json_object
     [json_field ''filename'' (json_string (at_Filename a)),
      json_field ''content_type'' (json_string (at_ContentType a)),
      json_field ''size'' (format_int (at_Size a))]"

definition marshalJSONList :: "mail_address list \<Rightarrow> string" where
  "marshalJSONList xs = json_list marshal_address xs"

subsection \<open>Tables\<close>

record archived_row =
  av_id :: int
  av_account_id :: int
  av_uid_validity :: int
  av_upstream_uid :: int
  av_message_id :: string
  av_internal_date :: timestamp
  av_header_date :: "timestamp option"
  av_from_json :: string
  av_to_json :: string
  av_cc_json :: string
  av_subject :: string
  av_content_path :: string
  av_content_bytes :: int
  av_content_sha256 :: string
  av_content_state :: string
  av_body_truncated :: bool
  av_synced_at :: timestamp
  av_created_at :: timestamp

record link_row =
  lk_alias_id :: int
  lk_message_id :: int
  lk_mailbox_uid :: int
  lk_otp :: string
  lk_created_at :: timestamp

record consumed_row =
  cn_alias_id :: int
  cn_uid_validity :: int
  cn_uid :: int
  cn_consumed_at :: timestamp

record mail_db =
  md_accounts :: "account list"
  md_aliases :: "mail_alias list"
  md_sync :: "sync_state list"
  md_next_id :: int
  md_archived :: "archived_row list"
  md_links :: "link_row list"
  md_latest :: "latest_message list"
  md_consumed :: "consumed_row list"
  md_seen :: "seen_task list"

definition archived_key :: "archived_row \<Rightarrow> int \<times> int \<times> int" where
  "archived_key r = (av_account_id r, av_uid_validity r, av_upstream_uid r)"

definition link_key :: "link_row \<Rightarrow> int \<times> int" where
  "link_key l = (lk_alias_id l, lk_message_id l)"

definition consumed_key :: "consumed_row \<Rightarrow> int \<times> int \<times> int" where
  "consumed_key c = (cn_alias_id c, cn_uid_validity c, cn_uid c)"

definition seen_key :: "seen_task \<Rightarrow> int \<times> int \<times> int" where
  "seen_key t = (st_AccountID t, st_UIDValidity t, st_UID t)"

datatype mail_error =
    NotFound | InvalidArgument | InvalidSync | ArchiveConflict | ArchiveIO | UIDsExhausted | VersionExhausted
  | TxFailed | Corrupt | UnsafePath | ArchiveUnconfigured

text \<open>\<open>lockAccountVersionForUpdate\<close> and \<open>nextAccountVersion\<close>: the account's \<open>updated_at\<close> is the
  version that guards every write of its mailbox.\<close>

definition lockAccountVersionForUpdate :: "mail_db \<Rightarrow> int \<Rightarrow> mail_error + timestamp" where
  "lockAccountVersionForUpdate db account =
     (case find_by ac_ID account (md_accounts db) of
        None \<Rightarrow> Inl NotFound
      | Some a \<Rightarrow> Inr (ac_UpdatedAt a))"

definition nextAccountVersion :: "time \<Rightarrow> timestamp \<Rightarrow> mail_error + timestamp" where
  "nextAccountVersion now current =
     (let candidate = to_timestamp now in
      if candidate > current then Inr candidate
      else if current = 9223372036854775807 then Inl VersionExhausted
      else Inr (current + 1))"

lemma nextAccountVersion_greater: "nextAccountVersion now v = Inr w \<Longrightarrow> v < w"
  by (auto simp: nextAccountVersion_def Let_def split: if_splits)

lemma nextAccountVersion_int64: "nextAccountVersion now v = Inr w \<Longrightarrow> int64 v \<Longrightarrow> int64 w"
  using int64_to_timestamp [of now]
  by (auto simp: nextAccountVersion_def Let_def int64_def split: if_splits simp del: int64_to_timestamp)

end
