(* ===== verification/Admins.thy ===== *)
theory Admins
  imports AuditLog
begin

section \<open>Administrators and their sessions (internal/store/admin.go)\<close>

text \<open>
  An administrator row carries a password version; a session row repeats the version it was issued
  under. Changing a password advances the version, which invalidates every session and, in the
  deletion queue, every job the administrator authorised. Password hashing happens before the
  store is called; hashes and token hashes are opaque strings here.
\<close>

record admin_row =
  ad_ID :: int
  ad_Username :: string
  ad_PasswordHash :: string
  ad_PasswordVersion :: int
  ad_CreatedAt :: timestamp

record session_row =
  se_TokenHash :: string
  se_AdminID :: int
  se_PasswordVersion :: int
  se_CSRF :: string
  se_ExpiresAt :: timestamp
  se_CreatedAt :: timestamp

record admin_db =
  am_next :: int
  am_admins :: "admin_row list"
  am_sessions :: "session_row list"

record session =
  sn_AdminID :: int
  sn_Username :: string
  sn_PasswordVersion :: int
  sn_CSRF :: string
  sn_ExpiresAt :: time

datatype admin_error =
    AdminNotFound
  | CredentialsChanged
  | UsernameTaken
  | EmptyTokenHash
  | DuplicateToken

text \<open>The username column compares without regard to ASCII case.\<close>

definition nocase :: "string \<Rightarrow> string" where
  "nocase s = map lower_byte s"

definition admin_name :: "string \<Rightarrow> string" where
  "admin_name username = trim_space (sanitizePostgresText username)"

definition find_admin :: "admin_db \<Rightarrow> int \<Rightarrow> admin_row option" where
  "find_admin db i = find_by ad_ID i (am_admins db)"

definition CreateAdmin :: "admin_db \<Rightarrow> string \<Rightarrow> string \<Rightarrow> time \<Rightarrow> (admin_error + admin_row) \<times> admin_db" where
  "CreateAdmin db username passwordHash now =
     (let row = \<lparr>ad_ID = am_next db, ad_Username = admin_name username, ad_PasswordHash = passwordHash,
                ad_PasswordVersion = 1, ad_CreatedAt = to_timestamp now\<rparr> in
      if list_ex (\<lambda>r. nocase (ad_Username r) = nocase (admin_name username)) (am_admins db)
      then (Inl UsernameTaken, db)
      else (Inr row, db\<lparr>am_next := am_next db + 1, am_admins := am_admins db @ [row]\<rparr>))"

definition GetAdminByUsername :: "admin_db \<Rightarrow> string \<Rightarrow> admin_error + admin_row" where
  "GetAdminByUsername db username =
     (case find (\<lambda>r. nocase (ad_Username r) = nocase (admin_name username)) (am_admins db) of
        None \<Rightarrow> Inl AdminNotFound | Some r \<Rightarrow> Inr r)"

definition GetAdminByID :: "admin_db \<Rightarrow> int \<Rightarrow> admin_error + admin_row" where
  "GetAdminByID db i = (case find_admin db i of None \<Rightarrow> Inl AdminNotFound | Some r \<Rightarrow> Inr r)"

definition CountAdmins :: "admin_db \<Rightarrow> nat" where
  "CountAdmins db = length (am_admins db)"

definition UpdateAdminPassword :: "admin_db \<Rightarrow> int \<Rightarrow> string \<Rightarrow> (admin_error + unit) \<times> admin_db" where
  "UpdateAdminPassword db i hash =
     (if find_admin db i = None then (Inl AdminNotFound, db)
      else (Inr (), db\<lparr>am_admins := update_where (\<lambda>r. ad_ID r = i)
              (\<lambda>r. r\<lparr>ad_PasswordHash := hash, ad_PasswordVersion := ad_PasswordVersion r + 1\<rparr>)
              (am_admins db)\<rparr>))"

definition version_matches :: "admin_db \<Rightarrow> int \<Rightarrow> int \<Rightarrow> bool" where
  "version_matches db i v \<longleftrightarrow>
     (case find_admin db i of None \<Rightarrow> False | Some r \<Rightarrow> ad_PasswordVersion r = v)"

definition ChangeAdminPasswordAndRevokeSessions ::
  "admin_db \<Rightarrow> int \<Rightarrow> int \<Rightarrow> string \<Rightarrow> (admin_error + unit) \<times> admin_db" where
  "ChangeAdminPasswordAndRevokeSessions db i expected hash =
     (if \<not> version_matches db i expected then (Inl CredentialsChanged, db)
      else (Inr (), db\<lparr>am_admins := update_where (\<lambda>r. ad_ID r = i \<and> ad_PasswordVersion r = expected)
                (\<lambda>r. r\<lparr>ad_PasswordHash := hash, ad_PasswordVersion := ad_PasswordVersion r + 1\<rparr>)
                (am_admins db),
              am_sessions := delete_where (\<lambda>s. se_AdminID s = i) (am_sessions db)\<rparr>))"

definition ResetAdminCredentialsAndRevokeSessions ::
  "admin_db \<Rightarrow> int \<Rightarrow> int \<Rightarrow> string \<Rightarrow> string \<Rightarrow> (admin_error + unit) \<times> admin_db" where
  "ResetAdminCredentialsAndRevokeSessions db i expected username hash =
     (if \<not> version_matches db i expected then (Inl CredentialsChanged, db)
      else if list_ex (\<lambda>r. ad_ID r \<noteq> i \<and> nocase (ad_Username r) = nocase (admin_name username)) (am_admins db)
        then (Inl UsernameTaken, db)
      else (Inr (), db\<lparr>am_admins := update_where (\<lambda>r. ad_ID r = i \<and> ad_PasswordVersion r = expected)
                (\<lambda>r. r\<lparr>ad_Username := admin_name username, ad_PasswordHash := hash,
                       ad_PasswordVersion := ad_PasswordVersion r + 1\<rparr>)
                (am_admins db),
              am_sessions := delete_where (\<lambda>s. se_AdminID s = i) (am_sessions db)\<rparr>))"

text \<open>Sessions reference their administrator with \<open>ON DELETE CASCADE\<close>.\<close>

definition DeleteAdmin :: "admin_db \<Rightarrow> int \<Rightarrow> (admin_error + unit) \<times> admin_db" where
  "DeleteAdmin db i =
     (if find_admin db i = None then (Inl AdminNotFound, db)
      else (Inr (), db\<lparr>am_admins := delete_where (\<lambda>r. ad_ID r = i) (am_admins db),
                      am_sessions := delete_where (\<lambda>s. se_AdminID s = i) (am_sessions db)\<rparr>))"

definition CreateSession :: "admin_db \<Rightarrow> string \<Rightarrow> session \<Rightarrow> time \<Rightarrow> (admin_error + unit) \<times> admin_db" where
  "CreateSession db token s now =
     (if token = [] then (Inl EmptyTokenHash, db)
      else if sn_PasswordVersion s < 1 then (Inl CredentialsChanged, db)
      else if \<not> version_matches db (sn_AdminID s) (sn_PasswordVersion s) then (Inl CredentialsChanged, db)
      else if find_by se_TokenHash token (am_sessions db) \<noteq> None then (Inl DuplicateToken, db)
      else (Inr (), db\<lparr>am_sessions := am_sessions db @
              [\<lparr>se_TokenHash = token, se_AdminID = sn_AdminID s, se_PasswordVersion = sn_PasswordVersion s,
                se_CSRF = sn_CSRF s, se_ExpiresAt = to_timestamp (sn_ExpiresAt s),
                se_CreatedAt = to_timestamp now\<rparr>]\<rparr>))"

definition GetSessionByHash :: "admin_db \<Rightarrow> string \<Rightarrow> time \<Rightarrow> admin_error + session" where
  "GetSessionByHash db token now =
     (case find_by se_TokenHash token (am_sessions db) of
        None \<Rightarrow> Inl AdminNotFound
      | Some s \<Rightarrow>
          (case find_admin db (se_AdminID s) of
             None \<Rightarrow> Inl AdminNotFound
           | Some a \<Rightarrow>
               if ad_PasswordVersion a = se_PasswordVersion s \<and> to_timestamp now < se_ExpiresAt s
               then Inr \<lparr>sn_AdminID = se_AdminID s, sn_Username = ad_Username a,
                       sn_PasswordVersion = se_PasswordVersion s, sn_CSRF = se_CSRF s,
                       sn_ExpiresAt = time_of_timestamp (se_ExpiresAt s)\<rparr>
               else Inl AdminNotFound))"

definition DeleteSession :: "admin_db \<Rightarrow> string \<Rightarrow> admin_db" where
  "DeleteSession db token =
     db\<lparr>am_sessions := delete_where (\<lambda>s. se_TokenHash s = token) (am_sessions db)\<rparr>"

definition DeleteAdminSessions :: "admin_db \<Rightarrow> int \<Rightarrow> admin_db" where
  "DeleteAdminSessions db i = db\<lparr>am_sessions := delete_where (\<lambda>s. se_AdminID s = i) (am_sessions db)\<rparr>"

definition DeleteExpiredSessions :: "admin_db \<Rightarrow> time \<Rightarrow> nat \<times> admin_db" where
  "DeleteExpiredSessions db now =
     (count_where (\<lambda>s. se_ExpiresAt s \<le> to_timestamp now) (am_sessions db),
      db\<lparr>am_sessions := delete_where (\<lambda>s. se_ExpiresAt s \<le> to_timestamp now) (am_sessions db)\<rparr>)"

subsection \<open>Steps and their invariant\<close>

inductive admin_step :: "admin_db \<Rightarrow> admin_db \<Rightarrow> bool" where
  as_create: "admin_step db (snd (CreateAdmin db u h now))"
| as_update: "admin_step db (snd (UpdateAdminPassword db i h))"
| as_change: "admin_step db (snd (ChangeAdminPasswordAndRevokeSessions db i v h))"
| as_reset: "admin_step db (snd (ResetAdminCredentialsAndRevokeSessions db i v u h))"
| as_delete: "admin_step db (snd (DeleteAdmin db i))"
| as_login: "admin_step db (snd (CreateSession db tok s now))"
| as_logout: "admin_step db (DeleteSession db tok)"
| as_logout_all: "admin_step db (DeleteAdminSessions db i)"
| as_sweep: "admin_step db (snd (DeleteExpiredSessions db now))"

definition admin_inv :: "admin_db \<Rightarrow> bool" where
  "admin_inv db \<longleftrightarrow>
     unique_key ad_ID (am_admins db) \<and> unique_key se_TokenHash (am_sessions db) \<and>
     unique_key (\<lambda>r. nocase (ad_Username r)) (am_admins db) \<and>
     (\<forall>r \<in> set (am_admins db). ad_ID r < am_next db) \<and>
     (\<forall>s \<in> set (am_sessions db). \<exists>a. find_admin db (se_AdminID s) = Some a \<and>
        se_PasswordVersion s \<le> ad_PasswordVersion a)"

definition admin_version :: "admin_db \<Rightarrow> int \<Rightarrow> int option" where
  "admin_version db i = map_option ad_PasswordVersion (find_admin db i)"

lemma find_admin_update:
  assumes "\<And>r. ad_ID (f r) = ad_ID r"
  shows "find_admin (db\<lparr>am_admins := update_where P f (am_admins db), am_sessions := ss\<rparr>) i =
     map_option (\<lambda>r. if P r then f r else r) (find_admin db i)"
    and "find_admin (db\<lparr>am_admins := update_where P f (am_admins db)\<rparr>) i =
     map_option (\<lambda>r. if P r then f r else r) (find_admin db i)"
  using find_by_update_where [of P ad_ID f i "am_admins db"] assms by (auto simp: find_admin_def)

lemma find_admin_SomeD: "find_admin db i = Some a \<Longrightarrow> ad_ID a = i \<and> a \<in> set (am_admins db)"
  unfolding find_admin_def by (auto dest: find_by_SomeD)

lemma find_admin_sessions [simp]: "find_admin (db\<lparr>am_sessions := ss\<rparr>) i = find_admin db i"
  by (simp add: find_admin_def)

lemma admin_invD:
  assumes "admin_inv db"
  shows "unique_key ad_ID (am_admins db)" and "unique_key se_TokenHash (am_sessions db)"
    and "unique_key (\<lambda>r. nocase (ad_Username r)) (am_admins db)"
    and "find_admin db i = Some a \<Longrightarrow> i < am_next db"
    and "s \<in> set (am_sessions db) \<Longrightarrow> \<exists>a. find_admin db (se_AdminID s) = Some a \<and>
        se_PasswordVersion s \<le> ad_PasswordVersion a"
  using assms by (auto simp: admin_inv_def find_admin_def dest: find_by_SomeD)

lemma unique_key_rename:
  assumes "unique_key ident rows" and "unique_key name rows"
    and "\<And>r. r \<in> set rows \<Longrightarrow> ident r \<noteq> i \<Longrightarrow> name r \<noteq> n" and "\<And>r. name (f r) = n"
  shows "unique_key name (update_where (\<lambda>r. ident r = i \<and> Q r) f rows)"
  using assms(1-3)
proof (induction rows)
  case (Cons a rows)
  have ih: "unique_key name (update_where (\<lambda>r. ident r = i \<and> Q r) f rows)"
    using Cons by (auto simp: unique_key_def)
  have others: "name a \<notin> name ` set rows" "ident a \<notin> ident ` set rows"
    using Cons.prems(1,2) by (auto simp: unique_key_def)
  show ?case
  proof (cases "ident a = i \<and> Q a")
    case True
    then have "update_where (\<lambda>r. ident r = i \<and> Q r) f rows = rows"
      using others(2) by (intro update_where_none) (metis image_eqI)
    moreover have "n \<notin> name ` set rows"
    proof
      assume "n \<in> name ` set rows"
      then obtain r where "r \<in> set rows" "name r = n" by blast
      moreover from this have "ident r \<noteq> i" using others(2) True by (metis image_eqI)
      ultimately show False using Cons.prems(3) [of r] by simp
    qed
    ultimately show ?thesis
      using True Cons.prems(2) assms(4) by (simp add: update_where_Cons unique_key_def)
  next
    case False
    have "name a \<noteq> name (f r)" if "r \<in> set rows" "ident r = i" for r
      using that others(2) Cons.prems(3) [of a] assms(4) by auto
    then show ?thesis
      using False ih others(1) by (auto simp: update_where_Cons unique_key_def set_update_where)
  qed
qed (simp add: unique_key_def)

lemma admin_inv_bump:
  assumes inv: "admin_inv db" and names: "unique_key (\<lambda>r. nocase (ad_Username r)) (update_where P f (am_admins db))"
    and keep: "\<And>r. ad_ID (f r) = ad_ID r" and bump: "\<And>r. ad_PasswordVersion (f r) = ad_PasswordVersion r + 1"
    and sub: "set ss \<subseteq> set (am_sessions db)" and uniq: "unique_key se_TokenHash ss"
  shows "admin_inv (db\<lparr>am_admins := update_where P f (am_admins db), am_sessions := ss\<rparr>)"
proof -
  have "unique_key ad_ID (update_where P f (am_admins db))"
    using admin_invD(1) [OF inv] keep by (simp add: unique_key_update_where)
  moreover have "\<exists>a. find_admin (db\<lparr>am_admins := update_where P f (am_admins db), am_sessions := ss\<rparr>) (se_AdminID s) = Some a \<and>
      se_PasswordVersion s \<le> ad_PasswordVersion a" if mem: "s \<in> set ss" for s
  proof -
    obtain a where "find_admin db (se_AdminID s) = Some a" "se_PasswordVersion s \<le> ad_PasswordVersion a"
      using admin_invD(5) [OF inv, of s] mem sub by blast
    then show ?thesis using bump by (simp add: find_admin_update(2) [OF keep])
  qed
  moreover have "\<forall>r \<in> set (update_where P f (am_admins db)). ad_ID r < am_next db"
    using inv keep by (auto simp: admin_inv_def set_update_where)
  ultimately show ?thesis using names uniq by (simp add: admin_inv_def)
qed

lemma admin_inv_sessions:
  assumes "admin_inv db" and "set ss \<subseteq> set (am_sessions db)" and "unique_key se_TokenHash ss"
  shows "admin_inv (db\<lparr>am_sessions := ss\<rparr>)"
  using assms by (auto simp: admin_inv_def)

lemma admin_step_inv: "admin_step db db' \<Longrightarrow> admin_inv db \<Longrightarrow> admin_inv db'"
proof (induction rule: admin_step.induct)
  case (as_create db u h now)
  then show ?case
    by (auto simp: CreateAdmin_def Let_def admin_inv_def unique_key_def list_ex_iff find_admin_def find_by_append
        split: option.splits; fastforce)
next
  case (as_update db i h)
  have "unique_key (\<lambda>r. nocase (ad_Username r)) (update_where (\<lambda>r. ad_ID r = i)
      (\<lambda>r. r\<lparr>ad_PasswordHash := h, ad_PasswordVersion := ad_PasswordVersion r + 1\<rparr>) (am_admins db))"
    using admin_invD(3) [OF as_update] by (simp add: unique_key_update_where)
  from admin_inv_bump [OF as_update this, of "am_sessions db"] admin_invD(2) [OF as_update]
  show ?case by (simp add: UpdateAdminPassword_def as_update)
next
  case (as_change db i v h)
  have "unique_key (\<lambda>r. nocase (ad_Username r)) (update_where (\<lambda>r. ad_ID r = i \<and> ad_PasswordVersion r = v)
      (\<lambda>r. r\<lparr>ad_PasswordHash := h, ad_PasswordVersion := ad_PasswordVersion r + 1\<rparr>) (am_admins db))"
    using admin_invD(3) [OF as_change] by (simp add: unique_key_update_where)
  from admin_inv_bump [OF as_change this, of "delete_where (\<lambda>s. se_AdminID s = i) (am_sessions db)"]
    admin_invD(2) [OF as_change]
  show ?case by (auto simp: ChangeAdminPasswordAndRevokeSessions_def as_change unique_key_delete_where)
next
  case (as_reset db i v u h)
  show ?case
  proof (cases "list_ex (\<lambda>r. ad_ID r \<noteq> i \<and> nocase (ad_Username r) = nocase (admin_name u)) (am_admins db)")
    case True
    then show ?thesis using as_reset by (simp add: ResetAdminCredentialsAndRevokeSessions_def)
  next
    case False
    have "unique_key (\<lambda>r. nocase (ad_Username r)) (update_where (\<lambda>r. ad_ID r = i \<and> ad_PasswordVersion r = v)
      (\<lambda>r. r\<lparr>ad_Username := admin_name u, ad_PasswordHash := h, ad_PasswordVersion := ad_PasswordVersion r + 1\<rparr>)
      (am_admins db))"
      by (rule unique_key_rename [OF admin_invD(1,3) [OF as_reset], of i "nocase (admin_name u)"])
         (use False in \<open>auto simp: list_ex_iff\<close>)
    from admin_inv_bump [OF as_reset this, of "delete_where (\<lambda>s. se_AdminID s = i) (am_sessions db)"]
      admin_invD(2) [OF as_reset]
    show ?thesis by (auto simp: ResetAdminCredentialsAndRevokeSessions_def as_reset unique_key_delete_where)
  qed
next
  case (as_delete db i)
  have "find_admin (db\<lparr>am_admins := delete_where (\<lambda>r. ad_ID r = i) (am_admins db), am_sessions := ss\<rparr>) j =
      find_admin db j" if "j \<noteq> i" for j ss
    using that by (simp add: find_admin_def find_by_delete_other)
  then show ?case using as_delete
    by (auto simp: DeleteAdmin_def admin_inv_def unique_key_delete_where)
next
  case (as_login db tok s now)
  then show ?case
    by (auto simp: CreateSession_def admin_inv_def unique_key_append1 version_matches_def split: option.splits)
next
  case (as_logout db tok)
  then show ?case
    using admin_inv_sessions [OF as_logout, of "delete_where (\<lambda>s. se_TokenHash s = tok) (am_sessions db)"]
      admin_invD(2) [OF as_logout]
    by (auto simp: DeleteSession_def unique_key_delete_where)
next
  case (as_logout_all db i)
  then show ?case
    using admin_inv_sessions [OF as_logout_all, of "delete_where (\<lambda>s. se_AdminID s = i) (am_sessions db)"]
      admin_invD(2) [OF as_logout_all]
    by (auto simp: DeleteAdminSessions_def unique_key_delete_where)
next
  case (as_sweep db now)
  then show ?case
    using admin_inv_sessions [OF as_sweep, of "delete_where (\<lambda>s. se_ExpiresAt s \<le> to_timestamp now) (am_sessions db)"]
      admin_invD(2) [OF as_sweep]
    by (auto simp: DeleteExpiredSessions_def unique_key_delete_where)
qed

subsection \<open>Versions only grow\<close>

lemma version_find: "admin_version db i = Some w \<longleftrightarrow> (\<exists>a. find_admin db i = Some a \<and> ad_PasswordVersion a = w)"
  by (auto simp: admin_version_def)

lemma am_next_step: "admin_step db db' \<Longrightarrow> am_next db \<le> am_next db'"
  by (induction rule: admin_step.induct)
     (auto simp: CreateAdmin_def Let_def UpdateAdminPassword_def ChangeAdminPasswordAndRevokeSessions_def
        ResetAdminCredentialsAndRevokeSessions_def DeleteAdmin_def CreateSession_def DeleteSession_def
        DeleteAdminSessions_def DeleteExpiredSessions_def)

lemma version_step:
  "admin_step db db' \<Longrightarrow> admin_inv db \<Longrightarrow> i < am_next db \<Longrightarrow> admin_version db' i = Some w' \<Longrightarrow>
   \<exists>w. admin_version db i = Some w \<and> w \<le> w'"
proof (induction rule: admin_step.induct)
  case (as_create db u h now)
  then show ?case
    by (auto simp: CreateAdmin_def Let_def admin_version_def find_admin_def find_by_append find_by_Cons
        split: if_splits option.splits)
next
  case (as_delete db j)
  then show ?case
    by (cases "i = j")
       (auto simp: DeleteAdmin_def admin_version_def find_admin_def find_by_delete_other find_by_delete_same
         split: if_splits)
qed (auto simp: UpdateAdminPassword_def ChangeAdminPasswordAndRevokeSessions_def
        ResetAdminCredentialsAndRevokeSessions_def CreateSession_def DeleteSession_def
        DeleteAdminSessions_def DeleteExpiredSessions_def admin_version_def find_admin_update
        split: if_splits)

lemma version_steps:
  assumes "admin_step\<^sup>*\<^sup>* db db'" and "admin_inv db" and "i < am_next db"
    and "\<And>w. admin_version db i = Some w \<Longrightarrow> v < w" and "admin_version db' i = Some w'"
  shows "admin_inv db' \<and> v < w'"
  using assms(1,5)
proof (induction arbitrary: w' rule: rtranclp_induct)
  case base
  then show ?case using assms by simp
next
  case (step d d')
  have "admin_step\<^sup>*\<^sup>* db x \<Longrightarrow> admin_inv x \<and> i < am_next x" for x
  proof (induction rule: rtranclp_induct)
    case (step y z)
    then show ?case using admin_step_inv am_next_step by fastforce
  qed (use assms in simp)
  then have d: "admin_inv d" "i < am_next d" using step.hyps(1) by auto
  obtain w where "admin_version d i = Some w" "w \<le> w'"
    using version_step [OF step.hyps(2) d step.prems] by blast
  then show ?case using step.IH admin_step_inv [OF step.hyps(2) d(1)] by fastforce
qed

lemma session_version:
  assumes "GetSessionByHash db tok now = Inr s"
  shows "admin_version db (sn_AdminID s) = Some (sn_PasswordVersion s)"
  using assms by (auto simp: GetSessionByHash_def admin_version_def split: option.splits if_splits)

subsection \<open>Properties\<close>

text \<open>C32: A password change logs the administrator out for good: whatever store calls follow it, no
  token ever again yields a session of that administrator issued under the old password version or an
  earlier one, including a login that raced with the change.\<close>

theorem password_change_revokes:
  assumes "admin_inv db" and "ChangeAdminPasswordAndRevokeSessions db i v h = (Inr (), db')"
    and "admin_step\<^sup>*\<^sup>* db' db''" and "GetSessionByHash db'' tok now = Inr s" and "sn_AdminID s = i"
  shows "v < sn_PasswordVersion s"
proof -
  obtain a where a: "find_admin db i = Some a" "ad_PasswordVersion a = v"
    using assms(2) by (auto simp: ChangeAdminPasswordAndRevokeSessions_def version_matches_def
        split: if_splits option.splits)
  have inv': "admin_inv db'"
    using admin_step_inv [OF as_change assms(1), of i v h] assms(2) by simp
  have "i < am_next db'"
    using admin_invD(4) [OF assms(1) a(1)] am_next_step [OF as_change, of db i v h] assms(2) by simp
  moreover have "v < w" if "admin_version db' i = Some w" for w
    using that assms(2) a find_admin_SomeD [OF a(1)]
    by (auto simp: ChangeAdminPasswordAndRevokeSessions_def admin_version_def find_admin_update split: if_splits)
  ultimately have "v < w'" if "admin_version db'' i = Some w'" for w'
    using version_steps [OF assms(3) inv' _ _ that] by blast
  with session_version [OF assms(4)] assms(5) show ?thesis by blast
qed

text \<open>A login is readable until it expires: the session stored by \<open>CreateSession\<close> is returned for its
  token hash, with the administrator's current name, at every time before its expiry and at none after.\<close>

theorem session_roundtrip:
  assumes "admin_inv db" and "CreateSession db tok s now = (Inr (), db')" and "sane_clock (sn_ExpiresAt s)"
    and "sane_clock t"
  shows "(\<exists>a. find_admin db (sn_AdminID s) = Some a \<and>
      (if t < sn_ExpiresAt s
       then GetSessionByHash db' tok t = Inr (s\<lparr>sn_Username := ad_Username a\<rparr>)
       else GetSessionByHash db' tok t = Inl AdminNotFound))"
proof -
  obtain a where a: "find_admin db (sn_AdminID s) = Some a" "ad_PasswordVersion a = sn_PasswordVersion s"
    and fresh: "find_by se_TokenHash tok (am_sessions db) = None"
    and db': "db' = db\<lparr>am_sessions := am_sessions db @
        [\<lparr>se_TokenHash = tok, se_AdminID = sn_AdminID s, se_PasswordVersion = sn_PasswordVersion s,
          se_CSRF = sn_CSRF s, se_ExpiresAt = to_timestamp (sn_ExpiresAt s), se_CreatedAt = to_timestamp now\<rparr>]\<rparr>"
    using assms(2) by (auto simp: CreateSession_def version_matches_def split: if_splits option.splits)
  then show ?thesis using assms(3,4)
    by (intro exI [of _ a]) (simp add: GetSessionByHash_def find_by_append find_by_Cons)
qed

subsection \<open>The properties at concrete inputs\<close>

definition demo_admin_db :: "session_row list \<Rightarrow> int \<Rightarrow> admin_db" where
  "demo_admin_db ss v = \<lparr>am_next = 2, am_admins = [\<lparr>ad_ID = 1, ad_Username = ''root'', ad_PasswordHash = ''h'',
     ad_PasswordVersion = v, ad_CreatedAt = 0\<rparr>], am_sessions = ss\<rparr>"

definition demo_session :: "int \<Rightarrow> session" where
  "demo_session v = \<lparr>sn_AdminID = 1, sn_Username = ''root'', sn_PasswordVersion = v, sn_CSRF = ''c'',
     sn_ExpiresAt = 60000000000\<rparr>"

definition demo_session_row :: "int \<Rightarrow> session_row" where
  "demo_session_row v = \<lparr>se_TokenHash = ''t'', se_AdminID = 1, se_PasswordVersion = v, se_CSRF = ''c'',
     se_ExpiresAt = 60000000000, se_CreatedAt = 0\<rparr>"

lemmas demo_admin_defs = demo_admin_db_def demo_session_def demo_session_row_def find_admin_def find_by_Cons
  version_matches_def to_timestamp_def wrap64_def

lemma demo_admin_inv: "admin_inv (demo_admin_db [] 1)"
  by (simp add: admin_inv_def demo_admin_db_def unique_key_def)

lemma demo_login: "CreateSession (demo_admin_db [] v) ''t'' (demo_session v) 0 =
    (if v < 1 then (Inl CredentialsChanged, demo_admin_db [] v) else (Inr (), demo_admin_db [demo_session_row v] v))"
  by (simp add: CreateSession_def demo_admin_defs)

lemma demo_change: "ChangeAdminPasswordAndRevokeSessions (demo_admin_db [] 1) 1 1 ''h'' =
    (Inr (), demo_admin_db [] 2)"
  by (simp add: ChangeAdminPasswordAndRevokeSessions_def demo_admin_defs update_where_Cons delete_where_def)

lemma password_change_revokes_witness: "(1::int) < sn_PasswordVersion (demo_session 2)"
proof -
  have "admin_step (demo_admin_db [] 2) (demo_admin_db [demo_session_row 2] 2)"
    using as_login [of "demo_admin_db [] 2" "''t''" "demo_session 2" 0] by (simp add: demo_login)
  then have steps: "admin_step\<^sup>*\<^sup>* (demo_admin_db [] 2) (demo_admin_db [demo_session_row 2] 2)" by blast
  have get: "GetSessionByHash (demo_admin_db [demo_session_row 2] 2) ''t'' 0 = Inr (demo_session 2)"
    by (simp add: GetSessionByHash_def demo_admin_defs)
  show ?thesis
    by (rule password_change_revokes [OF demo_admin_inv demo_change steps get]) (simp add: demo_session_def)
qed

lemma session_roundtrip_witness:
  "GetSessionByHash (demo_admin_db [demo_session_row 1] 1) ''t'' 60000000000 = Inl AdminNotFound"
  using session_roundtrip [OF demo_admin_inv, of "''t''" "demo_session 1" 0 "demo_admin_db [demo_session_row 1] 1" 60000000000]
    demo_login [of 1]
  by (simp add: sane_clock_def) (simp add: demo_session_def)

end
