(* ===== verification/Sha256.thy ===== *)
theory Sha256
  imports GoBase "HOL-Library.Word"
begin

section \<open>SHA-256 and HMAC (crypto/sha256, crypto/hmac)\<close>

text \<open>
  The two functions of Go's standard library that every token and password hash of the program
  rests on, written out over byte strings as FIPS 180-4 and FIPS 198-1 define them, so that the
  definitions of the secure package are closed. Only their output length (32 bytes) enters proofs:
  no property below assumes that the functions are injective.
\<close>

unbundle bit_operations_syntax

type_synonym word32 = "32 word"
type_synonym sha_state = "word32 list"

subsection \<open>Words and bytes\<close>

definition byte_word :: "byte \<Rightarrow> word32" where
  "byte_word c = word_of_nat (byte_val c)"

text \<open>Big-endian readings of byte strings and the \<open>n\<close>-byte big-endian form of a number.\<close>

definition be_value :: "string \<Rightarrow> nat" where
  "be_value s = foldl (\<lambda>a c. 256 * a + byte_val c) 0 s"

fun be_bytes :: "nat \<Rightarrow> nat \<Rightarrow> string" where
  "be_bytes 0 v = []"
| "be_bytes (Suc n) v = be_bytes n (v div 256) @ [char_of (v mod 256)]"

lemma length_be_bytes [simp]: "length (be_bytes n v) = n"
  by (induction n v rule: be_bytes.induct) simp_all

lemma be_value_snoc: "be_value (s @ [c]) = 256 * be_value s + byte_val c"
  by (simp add: be_value_def)

lemma be_value_bytes: "be_value (be_bytes n v) = v mod 256 ^ n"
proof (induction n arbitrary: v)
  case 0
  then show ?case by (simp add: be_value_def)
next
  case (Suc n)
  have "be_value (be_bytes (Suc n) v) = 256 * (v div 256 mod 256 ^ n) + v mod 256"
    by (simp add: be_value_snoc Suc.IH)
  also have "\<dots> = v mod 256 ^ Suc n" by (simp add: mod_mult2_eq)
  finally show ?case .
qed

lemma be_value_less: "be_value s < 256 ^ length s"
proof (induction s rule: rev_induct)
  case Nil
  then show ?case by (simp add: be_value_def)
next
  case (snoc c s)
  have "(of_char c :: nat) < 256" by simp
  with snoc have "256 * be_value s + byte_val c < 256 * 256 ^ length s" by linarith
  then show ?case by (simp add: be_value_snoc)
qed

lemma be_bytes_value: "be_bytes (length s) (be_value s) = s"
proof (induction s rule: rev_induct)
  case (snoc c s)
  have c: "(of_char c :: nat) < 256" by simp
  then have "(256 * be_value s + byte_val c) div 256 = be_value s"
    and "(256 * be_value s + byte_val c) mod 256 = byte_val c" by simp_all
  with snoc show ?case by (simp add: be_value_snoc)
qed simp

definition be_word :: "string \<Rightarrow> word32" where
  "be_word s = word_of_nat (be_value s)"

definition word_bytes :: "word32 \<Rightarrow> string" where
  "word_bytes w = be_bytes 4 (unat w)"

lemma length_word_bytes [simp]: "length (word_bytes w) = 4"
  by (simp add: word_bytes_def)

subsection \<open>SHA-256\<close>

text \<open>The round constants (the first 32 bits of the fractional parts of the cube roots of the first 64
  primes) and the initial state (of the square roots of the first eight), in decimal.\<close>

definition sha_k :: "word32 list" where
  "sha_k =
    [1116352408, 1899447441, 3049323471, 3921009573, 961987163, 1508970993, 2453635748, 2870763221,
     3624381080, 310598401, 607225278, 1426881987, 1925078388, 2162078206, 2614888103, 3248222580,
     3835390401, 4022224774, 264347078, 604807628, 770255983, 1249150122, 1555081692, 1996064986,
     2554220882, 2821834349, 2952996808, 3210313671, 3336571891, 3584528711, 113926993, 338241895,
     666307205, 773529912, 1294757372, 1396182291, 1695183700, 1986661051, 2177026350, 2456956037,
     2730485921, 2820302411, 3259730800, 3345764771, 3516065817, 3600352804, 4094571909, 275423344,
     430227734, 506948616, 659060556, 883997877, 958139571, 1322822218, 1537002063, 1747873779,
     1955562222, 2024104815, 2227730452, 2361852424, 2428436474, 2756734187, 3204031479, 3329325298]"

definition sha_init :: sha_state where
  "sha_init =
    [1779033703, 3144134277, 1013904242, 2773480762, 1359893119, 2600822924, 528734635, 1541459225]"

definition sha_pad :: "string \<Rightarrow> string" where
  "sha_pad m = m @ char_of (128 :: nat) # replicate ((119 - length m mod 64) mod 64) (char_of (0 :: nat))
     @ be_bytes 8 (8 * length m)"

text \<open>The message schedule, newest word first.\<close>

definition sha_next_word :: "word32 list \<Rightarrow> word32" where
  "sha_next_word ws =
     (let x = ws ! 1; y = ws ! 14 in
      (word_rotr 17 x XOR word_rotr 19 x XOR drop_bit 10 x) + ws ! 6 +
      (word_rotr 7 y XOR word_rotr 18 y XOR drop_bit 3 y) + ws ! 15)"

definition block_words :: "string \<Rightarrow> word32 list" where
  "block_words b = map (\<lambda>i. be_word (take 4 (drop (4 * i) b))) [0 ..< 16]"

definition sha_schedule :: "string \<Rightarrow> word32 list" where
  "sha_schedule b = rev (((\<lambda>ws. sha_next_word ws # ws) ^^ 48) (rev (block_words b)))"

definition sha_round :: "sha_state \<Rightarrow> word32 \<times> word32 \<Rightarrow> sha_state" where
  "sha_round s kw =
     (case s of
        [a, b, c, d, e, f, g, h] \<Rightarrow>
          (let t1 = h + (word_rotr 6 e XOR word_rotr 11 e XOR word_rotr 25 e)
                      + ((e AND f) XOR (NOT e AND g)) + fst kw + snd kw;
               t2 = (word_rotr 2 a XOR word_rotr 13 a XOR word_rotr 22 a)
                      + ((a AND b) XOR (a AND c) XOR (b AND c))
           in [t1 + t2, a, b, c, d + t1, e, f, g])
      | _ \<Rightarrow> s)"

definition sha_block :: "sha_state \<Rightarrow> string \<Rightarrow> sha_state" where
  "sha_block s b = map2 (+) s (foldl sha_round s (zip sha_k (sha_schedule b)))"

definition sha_blocks :: "string \<Rightarrow> string list" where
  "sha_blocks m = map (\<lambda>i. take 64 (drop (64 * i) m)) [0 ..< length m div 64]"

definition sha256 :: "string \<Rightarrow> string" where
  "sha256 m = concat (map word_bytes (foldl sha_block sha_init (sha_blocks (sha_pad m))))"

lemma length_sha_round [simp]: "length (sha_round s kw) = length s"
  by (auto simp: sha_round_def Let_def split: list.splits)

lemma length_sha_rounds [simp]: "length (foldl sha_round s kws) = length s"
  by (induction kws arbitrary: s) simp_all

lemma length_sha_block [simp]: "length (sha_block s b) = length s"
  by (simp add: sha_block_def)

lemma length_sha_fold [simp]: "length (foldl sha_block s bs) = length s"
  by (induction bs arbitrary: s) simp_all

lemma length_concat_word_bytes: "length (concat (map word_bytes ws)) = 4 * length ws"
  by (induction ws) simp_all

lemma length_sha256 [simp]: "length (sha256 m) = 32"
  by (simp add: sha256_def length_concat_word_bytes sha_init_def)

subsection \<open>HMAC with SHA-256\<close>

definition hmac_key :: "string \<Rightarrow> string" where
  "hmac_key k = (let k' = (if length k > 64 then sha256 k else k) in
     k' @ replicate (64 - length k') (char_of (0 :: nat)))"

definition xor_byte :: "nat \<Rightarrow> byte \<Rightarrow> byte" where
  "xor_byte p c = char_of (p XOR byte_val c)"

definition hmac_sha256 :: "string \<Rightarrow> string \<Rightarrow> string" where
  "hmac_sha256 k m =
     (let k0 = hmac_key k in
      sha256 (map (xor_byte 92) k0 @ sha256 (map (xor_byte 54) k0 @ m)))"

lemma length_hmac [simp]: "length (hmac_sha256 k m) = 32"
  by (simp add: hmac_sha256_def Let_def)

end
