(* ===== verification/Base64.thy ===== *)
theory Base64
  imports GoBase
begin

section \<open>Base64 and hexadecimal text (encoding/base64, encoding/hex)\<close>

text \<open>
  The encodings of keys, ciphertexts and tokens. An \<open>encoding\<close> carries what the sources choose
  between: the URL or the standard alphabet, padding, and the strict mode that rejects non-zero
  trailing bits. As in Go, the decoder skips carriage returns and line feeds anywhere. The lemmas
  show that decoding inverts encoding, that strict unpadded decoding accepts exactly one spelling
  without line breaks of every byte string, and the alphabet of each encoding.
\<close>

record encoding =
  enc_url :: bool
  enc_pad :: bool
  enc_strict :: bool

definition StdEncoding :: encoding where
  "StdEncoding = \<lparr>enc_url = False, enc_pad = True, enc_strict = False\<rparr>"
definition RawStdEncoding :: encoding where
  "RawStdEncoding = \<lparr>enc_url = False, enc_pad = False, enc_strict = False\<rparr>"
definition RawURLEncoding :: encoding where
  "RawURLEncoding = \<lparr>enc_url = True, enc_pad = False, enc_strict = False\<rparr>"

definition Strict :: "encoding \<Rightarrow> encoding" where
  "Strict e = e\<lparr>enc_strict := True\<rparr>"

lemmas encoding_defs = StdEncoding_def RawStdEncoding_def RawURLEncoding_def Strict_def

definition b64_digit :: "encoding \<Rightarrow> nat \<Rightarrow> byte" where
  "b64_digit e n = char_of
     (if n < 26 then 65 + n else if n < 52 then 71 + n else if n < 62 then n - 4
      else if n = 62 then (if enc_url e then 45 else 43) else (if enc_url e then 95 else 47))"

definition b64_value :: "encoding \<Rightarrow> byte \<Rightarrow> nat option" where
  "b64_value e c =
     (let b = byte_val c in
      if 65 \<le> b \<and> b \<le> 90 then Some (b - 65)
      else if 97 \<le> b \<and> b \<le> 122 then Some (b - 71)
      else if 48 \<le> b \<and> b \<le> 57 then Some (b + 4)
      else if b = (if enc_url e then 45 else 43) then Some 62
      else if b = (if enc_url e then 95 else 47) then Some 63
      else None)"

text \<open>Three bytes to four digits, and the partial last group.\<close>

fun b64_encode :: "encoding \<Rightarrow> string \<Rightarrow> string" where
  "b64_encode e (a # b # c # s) =
     (let x = byte_val a; y = byte_val b; z = byte_val c in
      map (b64_digit e) [x div 4, x mod 4 * 16 + y div 16, y mod 16 * 4 + z div 64, z mod 64] @ b64_encode e s)"
| "b64_encode e [a, b] =
     (let x = byte_val a; y = byte_val b in
      map (b64_digit e) [x div 4, x mod 4 * 16 + y div 16, y mod 16 * 4] @ (if enc_pad e then ''='' else []))"
| "b64_encode e [a] =
     (let x = byte_val a in
      map (b64_digit e) [x div 4, x mod 4 * 16] @ (if enc_pad e then ''=='' else []))"
| "b64_encode e [] = []"

text \<open>
  The decoder on a text without line breaks: whole groups, and a last group of three or two digits,
  which carries its padding exactly when the encoding pads.
\<close>

definition b64_last3 :: "encoding \<Rightarrow> nat option \<Rightarrow> nat option \<Rightarrow> nat option \<Rightarrow> string option" where
  "b64_last3 e x y z =
     (case (x, y, z) of
        (Some p, Some q, Some r) \<Rightarrow>
          if enc_strict e \<and> r mod 4 \<noteq> 0 then None
          else Some [char_of (p * 4 + q div 16), char_of (q mod 16 * 16 + r div 4)]
      | _ \<Rightarrow> None)"

definition b64_last2 :: "encoding \<Rightarrow> nat option \<Rightarrow> nat option \<Rightarrow> string option" where
  "b64_last2 e x y =
     (case (x, y) of
        (Some p, Some q) \<Rightarrow>
          if enc_strict e \<and> q mod 16 \<noteq> 0 then None else Some [char_of (p * 4 + q div 16)]
      | _ \<Rightarrow> None)"

fun b64_groups :: "encoding \<Rightarrow> string \<Rightarrow> string option" where
  "b64_groups e [] = Some []"
| "b64_groups e [a] = None"
| "b64_groups e [a, b] = (if enc_pad e then None else b64_last2 e (b64_value e a) (b64_value e b))"
| "b64_groups e [a, b, c] =
     (if enc_pad e then None else b64_last3 e (b64_value e a) (b64_value e b) (b64_value e c))"
| "b64_groups e (a # b # c # d # s) =
     (case (b64_value e a, b64_value e b, b64_value e c, b64_value e d) of
        (Some p, Some q, Some r, Some t) \<Rightarrow>
          map_option (\<lambda>u. [char_of (p * 4 + q div 16), char_of (q mod 16 * 16 + r div 4), char_of (r mod 4 * 64 + t)] @ u)
            (b64_groups e s)
      | (Some p, Some q, Some r, None) \<Rightarrow>
          if enc_pad e \<and> d = CHR ''='' \<and> s = [] then b64_last3 e (Some p) (Some q) (Some r) else None
      | (Some p, Some q, None, None) \<Rightarrow>
          if enc_pad e \<and> c = CHR ''='' \<and> d = CHR ''='' \<and> s = [] then b64_last2 e (Some p) (Some q) else None
      | _ \<Rightarrow> None)"

definition not_newline :: "byte \<Rightarrow> bool" where
  "not_newline c \<longleftrightarrow> byte_val c \<noteq> 10 \<and> byte_val c \<noteq> 13"

definition b64_decode :: "encoding \<Rightarrow> string \<Rightarrow> string option" where
  "b64_decode e s = b64_groups e (filter not_newline s)"

subsection \<open>The alphabet\<close>

lemma b64_value_digit [simp]: "n < 64 \<Longrightarrow> b64_value e (b64_digit e n) = Some n"
  by (auto simp: b64_value_def b64_digit_def Let_def)

lemma b64_value_less: "b64_value e c = Some n \<Longrightarrow> n < 64"
  by (auto simp: b64_value_def Let_def split: if_splits)

lemma b64_digit_value: "b64_value e c = Some n \<Longrightarrow> b64_digit e n = c"
  by (auto simp: b64_value_def b64_digit_def Let_def split: if_splits) (metis char_of_char)+

lemma b64_value_eq [simp]: "b64_value e (CHR ''='') = None"
  by (simp add: b64_value_def)

lemma b64_digit_plain: "n < 64 \<Longrightarrow> not_newline (b64_digit e n) \<and> byte_val (b64_digit e n) < 128"
  by (auto simp: not_newline_def b64_digit_def)

subsection \<open>Decoding inverts encoding\<close>

lemma byte_val_div [simp]:
  "byte_val c div 4 < 64" "byte_val c div 16 < 16" "byte_val c div 64 < 4"
proof -
  have "(of_char c :: nat) < 256" by simp
  then show "byte_val c div 4 < 64" "byte_val c div 16 < 16" "byte_val c div 64 < 4"
    by (simp_all add: div_less_iff_less_mult)
qed

lemma six_bits [simp]:
  "x < 16 \<Longrightarrow> (n :: nat) mod 4 * 16 + x < 64" "x < 4 \<Longrightarrow> (n :: nat) mod 16 * 4 + x < 64"
  "(n :: nat) mod 4 * 16 < 64" "(n :: nat) mod 16 * 4 < 64"
  using mod_less_divisor [of 4 n] mod_less_divisor [of 16 n] by linarith+

lemma join_byte [simp]:
  "(n :: nat) div 16 * 16 + n mod 16 = n" "(n :: nat) div 64 * 64 + n mod 64 = n"
  "(n :: nat) div 4 * 4 + n mod 4 = n"
  by simp_all

lemma b64_groups_encode: "b64_groups e (b64_encode e s) = Some s"
proof (induction e s rule: b64_encode.induct)
  case (1 e a b c s)
  then show ?case by (simp add: Let_def)
next
  case (2 e a b)
  then show ?case
    by (cases "enc_pad e") (simp_all add: Let_def b64_last3_def)
next
  case (3 e a)
  then show ?case
    by (cases "enc_pad e") (simp_all add: Let_def b64_last2_def)
next
  case (4 e)
  then show ?case by simp
qed

lemma not_newline_eq [simp]: "not_newline (CHR ''='')"
  by (simp add: not_newline_def)

lemma b64_encode_plain: "set (b64_encode e s) \<subseteq> {c. not_newline c \<and> byte_val c < 128}"
proof (induction e s rule: b64_encode.induct)
  case (1 e a b c s)
  then show ?case by (simp add: Let_def b64_digit_plain)
qed (auto simp: Let_def b64_digit_plain not_newline_eq)

lemma ascii_b64_encode [simp]: "ascii (b64_encode e s)"
  using b64_encode_plain by (auto simp: ascii_def)

lemma filter_b64_encode [simp]: "filter not_newline (b64_encode e s) = b64_encode e s"
  using b64_encode_plain by (auto simp: filter_id_conv)

lemma b64_roundtrip [simp]: "b64_decode e (b64_encode e s) = Some s"
  by (simp add: b64_decode_def b64_groups_encode)

lemma b64_digit_nonspace: "n < 64 \<Longrightarrow> \<not> is_space (byte_val (b64_digit e n))"
  by (auto simp: b64_digit_def is_space_def)

lemma nonspace_eq [simp]: "\<not> is_space 61"
  by (simp add: is_space_def)

lemma b64_encode_nonspace: "c \<in> set (b64_encode e s) \<Longrightarrow> \<not> is_space (byte_val c)"
  by (induction e s rule: b64_encode.induct)
    (auto simp: Let_def b64_digit_nonspace split: if_splits)

lemma group_count: "(4 * (n + 3) + 2) div 3 = 4 + (4 * n + 2) div (3 :: nat)"
  by presburger

lemma length_b64_raw: "\<not> enc_pad e \<Longrightarrow> length (b64_encode e s) = (4 * length s + 2) div 3"
proof (induction e s rule: b64_encode.induct)
  case (1 e a b c s)
  then have "length (b64_encode e (a # b # c # s)) = 4 + (4 * length s + 2) div 3" by (simp add: Let_def)
  also have "\<dots> = (4 * length (a # b # c # s) + 2) div 3"
    using group_count [of "length s"] by (simp add: algebra_simps)
  finally show ?case .
qed (simp_all add: Let_def)

subsection \<open>Strict decoding accepts one spelling\<close>

lemma join_digits [simp]:
  fixes p q :: nat
  assumes "p < 64" "q < 64"
  shows "(p * 4 + q div 16) mod 256 = p * 4 + q div 16"
    "(p mod 16 * 16 + q div 4) mod 256 = p mod 16 * 16 + q div 4"
    "(p mod 4 * 64 + q) mod 256 = p mod 4 * 64 + q"
    "(p * 4 + q div 16) div 4 = p" "(p * 4 + q div 16) mod 4 = q div 16"
    "(p mod 16 * 16 + q div 4) div 16 = p mod 16" "(p mod 16 * 16 + q div 4) mod 16 = q div 4"
    "(p mod 4 * 64 + q) div 64 = p mod 4" "(p mod 4 * 64 + q) mod 64 = q"
proof -
  have q: "q div 16 < 4" "q div 4 < 16" using assms by (simp_all add: div_less_iff_less_mult)
  then show "(p * 4 + q div 16) div 4 = p" "(p * 4 + q div 16) mod 4 = q div 16"
    "(p mod 16 * 16 + q div 4) div 16 = p mod 16" "(p mod 16 * 16 + q div 4) mod 16 = q div 4"
    "(p mod 4 * 64 + q) div 64 = p mod 4" "(p mod 4 * 64 + q) mod 64 = q"
    using assms(2) by simp_all
  have "p * 4 + q div 16 < 256" using q assms(1) by linarith
  moreover have "p mod 16 * 16 + q div 4 < 256"
    using q(2) mod_less_divisor [of 16 p] by linarith
  moreover have "p mod 4 * 64 + q < 256" using assms(2) mod_less_divisor [of 4 p] by linarith
  ultimately show "(p * 4 + q div 16) mod 256 = p * 4 + q div 16"
    "(p mod 16 * 16 + q div 4) mod 256 = p mod 16 * 16 + q div 4"
    "(p mod 4 * 64 + q) mod 256 = p mod 4 * 64 + q"
    by (simp_all only: mod_less)
qed

lemma b64_last2_canonical:
  assumes "b64_last2 e (b64_value e a) (b64_value e b) = Some u" and "enc_strict e"
  shows "b64_encode e u = [a, b] @ (if enc_pad e then ''=='' else [])"
proof -
  obtain p q where v: "b64_value e a = Some p" "b64_value e b = Some q" "q mod 16 = 0"
    "u = [char_of (p * 4 + q div 16)]"
    using assms by (auto simp: b64_last2_def split: option.splits if_splits)
  have l: "p < 64" "q < 64" using v(1,2) b64_value_less by blast+
  have "q div 16 * 16 = q" using v(3) by (simp add: mod_eq_0_iff_dvd)
  with l v(1,2) show ?thesis by (simp add: v(4) Let_def b64_digit_value)
qed

lemma b64_last3_canonical:
  assumes "b64_last3 e (b64_value e a) (b64_value e b) (b64_value e c) = Some u" and "enc_strict e"
  shows "b64_encode e u = [a, b, c] @ (if enc_pad e then ''='' else [])"
proof -
  obtain p q r where v: "b64_value e a = Some p" "b64_value e b = Some q" "b64_value e c = Some r" "r mod 4 = 0"
    "u = [char_of (p * 4 + q div 16), char_of (q mod 16 * 16 + r div 4)]"
    using assms by (auto simp: b64_last3_def split: option.splits if_splits)
  have l: "p < 64" "q < 64" "r < 64" using v(1,2,3) b64_value_less by blast+
  have "r div 4 * 4 = r" using v(4) by (simp add: mod_eq_0_iff_dvd)
  with l v(1,2,3) show ?thesis by (simp add: v(5) Let_def b64_digit_value)
qed

lemma b64_group_canonical:
  assumes "b64_value e a = Some p" "b64_value e b = Some q" "b64_value e c = Some r" "b64_value e d = Some v"
  shows "b64_encode e (char_of (p * 4 + q div 16) # char_of (q mod 16 * 16 + r div 4) # char_of (r mod 4 * 64 + v) # s)
    = a # b # c # d # b64_encode e s"
proof -
  have l: "p < 64" "q < 64" "r < 64" "v < 64" using assms b64_value_less by blast+
  with assms show ?thesis by (simp add: Let_def b64_digit_value)
qed

lemma b64_groups_canonical:
  "b64_groups e s = Some u \<Longrightarrow> enc_strict e \<Longrightarrow> b64_encode e u = s"
proof (induction e s arbitrary: u rule: b64_groups.induct)
  case (3 e a b)
  then show ?case using b64_last2_canonical [of e a b u] by (simp split: if_splits)
next
  case (4 e a b c)
  then show ?case using b64_last3_canonical [of e a b c u] by (simp split: if_splits)
next
  case (5 e a b c d s)
  show ?case
  proof (cases "b64_value e d")
    case None
    then show ?thesis
      using "5.prems" b64_last3_canonical [of e a b c u] b64_last2_canonical [of e a b u]
      by (auto split: option.splits if_splits)
  next
    case (Some v)
    then obtain p q r w where g: "b64_value e a = Some p" "b64_value e b = Some q" "b64_value e c = Some r"
      "b64_groups e s = Some w"
      "u = char_of (p * 4 + q div 16) # char_of (q mod 16 * 16 + r div 4) # char_of (r mod 4 * 64 + v) # w"
      using "5.prems"(1) by (auto split: option.splits if_splits)
    with "5.IH" Some "5.prems"(2) have "b64_encode e w = s" by simp
    with g Some show ?thesis by (simp add: b64_group_canonical del: b64_encode.simps)
  qed
qed simp_all

lemma b64_canonical:
  assumes "b64_decode e s = Some u" and "enc_strict e" and "list_all not_newline s"
  shows "s = b64_encode e u"
proof -
  have "filter not_newline s = s" using assms(3) by (simp add: filter_id_conv list_all_iff)
  with assms(1,2) show ?thesis by (simp add: b64_decode_def b64_groups_canonical)
qed

text \<open>A text without padding that decodes to \<open>n\<close> bytes has as many digits as its canonical spelling.\<close>

lemma b64_groups_length: "b64_groups e s = Some u \<Longrightarrow> \<not> enc_pad e \<Longrightarrow> length s = (4 * length u + 2) div 3"
proof (induction e s arbitrary: u rule: b64_groups.induct)
  case (3 e a b)
  then show ?case by (auto simp: b64_last2_def split: option.splits if_splits)
next
  case (4 e a b c)
  then show ?case by (auto simp: b64_last3_def split: option.splits if_splits)
next
  case (5 e a b c d s)
  from "5.prems" obtain p q r v w where "b64_value e a = Some p" "b64_value e b = Some q" "b64_value e c = Some r"
      "b64_value e d = Some v" "b64_groups e s = Some w" "length u = length w + 3"
    by (auto split: option.splits if_splits)
  with "5.IH" "5.prems"(2) group_count [of "length w"] show ?case by simp
qed simp_all

subsection \<open>Hexadecimal\<close>

definition hex_value :: "byte \<Rightarrow> nat option" where
  "hex_value c =
     (let b = byte_val c in
      if 48 \<le> b \<and> b \<le> 57 then Some (b - 48)
      else if 97 \<le> b \<and> b \<le> 102 then Some (b - 87)
      else if 65 \<le> b \<and> b \<le> 70 then Some (b - 55)
      else None)"

text \<open>\<open>hex.DecodeString\<close>: upper and lower case digits, an even number of them.\<close>

fun hex_decode :: "string \<Rightarrow> string option" where
  "hex_decode [] = Some []"
| "hex_decode [a] = None"
| "hex_decode (a # b # s) =
     (case (hex_value a, hex_value b) of
        (Some x, Some y) \<Rightarrow> map_option (\<lambda>u. char_of (16 * x + y) # u) (hex_decode s)
      | _ \<Rightarrow> None)"

lemma hex_value_digit [simp]: "n < 16 \<Longrightarrow> hex_value (hex_digit n) = Some n"
  by (auto simp: hex_value_def hex_digit_def Let_def)

lemma hex_roundtrip [simp]: "hex_decode (hex_encode s) = Some s"
proof (induction s)
  case (Cons c s)
  then show ?case by (simp add: hex_encode_def)
qed (simp add: hex_encode_def)

lemma hex_digit_cases: "n < 16 \<Longrightarrow> byte_val (hex_digit n) \<in> {48..57} \<union> {97..102}"
  by (auto simp: hex_digit_def)

lemma set_hex_encode:
  assumes "c \<in> set (hex_encode s)"
  shows "byte_val c \<in> {48..57} \<union> {97..102}"
proof -
  from assms obtain x where "c = hex_digit (byte_val x div 16) \<or> c = hex_digit (byte_val x mod 16)"
    by (auto simp: hex_encode_def)
  then obtain n where "n < 16" and "c = hex_digit n" by (metis byte_val_div(2) mod_less_divisor zero_less_numeral)
  then show ?thesis using hex_digit_cases by blast
qed

end
