(* ===== verification/Secure.thy ===== *)
theory Secure
  imports Sha256 Base64
begin

section \<open>Tokens, credential bundles and encryption (internal/secure/secure.go)\<close>

text \<open>
  The cipher of the installation: the signed direct-link tokens of the public mail routes, the
  short-lived IMAP access tokens, and the encrypted credential bundles. The AEAD is the interface
  value that the Go struct holds, so it is a record of functions here; HMAC and SHA-256 are the
  ones of Sha256. Random bytes come from an entropy string that the operations consume, and a read
  past its end is the error of \<open>crypto/rand\<close>.
\<close>

datatype secure_error =
    BadMasterKey | NoEntropy | NoCipher | BadAliasID | BadHash | BadAccessCredentials | BadExpiry
  | IncompleteBundle | BadBundle | BadAPIKey | UnknownVersion | BadCiphertext | ShortCiphertext | OpenFailed

subsection \<open>Integers in tokens\<close>

lemma dropWhile_none: "(\<And>c. c \<in> set s \<Longrightarrow> \<not> P c) \<Longrightarrow> dropWhile P s = s"
  by (cases s) auto

definition uint64_of :: "int \<Rightarrow> nat" where
  "uint64_of i = nat (i mod 18446744073709551616)"

definition int64_of :: "nat \<Rightarrow> int" where
  "int64_of n = wrap64 (int n)"

lemma uint64_of_less [simp]: "uint64_of i < 18446744073709551616"
  by (simp add: uint64_of_def nat_less_iff)

lemma uint64_of_pos: "0 \<le> i \<Longrightarrow> int64 i \<Longrightarrow> uint64_of i = nat i"
  by (simp add: uint64_of_def int64_def)

lemma int64_of_uint64: "int64 i \<Longrightarrow> int64_of (uint64_of i) = i"
proof -
  assume i: "int64 i"
  have "wrap64 (i mod 18446744073709551616) = wrap64 i" by (simp add: wrap64_def mod_simps)
  with i show ?thesis by (simp add: int64_of_def uint64_of_def)
qed

lemma be_value_8: "be_value (be_bytes 8 n) = n mod 18446744073709551616"
  by (simp add: be_value_bytes)

text \<open>\<open>Time.Unix\<close> and \<open>time.Unix\<close>; the seconds are kept relative to year 1 in an int64, so a far
  future wraps.\<close>

definition unix_seconds :: "time \<Rightarrow> int" where
  "unix_seconds t = wrap64 (t div second)"

definition time_unix :: "int \<Rightarrow> time" where
  "time_unix s = (wrap64 (s + 62135596800) - 62135596800) * second"

lemma unix_seconds_time_unix: "int64 s \<Longrightarrow> unix_seconds (time_unix s) = s"
proof -
  assume s: "int64 s"
  have "wrap64 (wrap64 (s + 62135596800) - 62135596800) = wrap64 s"
    by (simp add: wrap64_def mod_simps add.commute)
  with s show ?thesis by (simp add: unix_seconds_def time_unix_def)
qed

subsection \<open>Randomness and hashes\<close>

type_synonym entropy = string

definition rand_read :: "nat \<Rightarrow> entropy \<Rightarrow> secure_error + (string \<times> entropy)" where
  "rand_read n r = (if length r < n then Inl NoEntropy else Inr (take n r, drop n r))"

definition HashToken :: "string \<Rightarrow> string" where
  "HashToken token = sha256 token"

definition HashEqual :: "string \<Rightarrow> string \<Rightarrow> bool" where
  "HashEqual left right \<longleftrightarrow> length left = length right \<and> left = right"

definition RandomToken :: "nat \<Rightarrow> entropy \<Rightarrow> secure_error + (string \<times> entropy)" where
  "RandomToken n r =
     (case rand_read n r of
        Inl e \<Rightarrow> Inl e
      | Inr (bytes, r') \<Rightarrow> Inr (b64_encode RawURLEncoding bytes, r'))"

definition RandomPassword :: "entropy \<Rightarrow> secure_error + (string \<times> entropy)" where
  "RandomPassword r = RandomToken 18 r"

text \<open>The raw key, its hash and its visible prefix.\<close>

definition NewAPIKey :: "entropy \<Rightarrow> secure_error + ((string \<times> string \<times> string) \<times> entropy)" where
  "NewAPIKey r =
     (case RandomToken 32 r of
        Inl e \<Rightarrow> Inl e
      | Inr (secret, r') \<Rightarrow> (let raw = ''icm_'' @ secret in Inr ((raw, HashToken raw, take 12 raw), r')))"

subsection \<open>The cipher\<close>

record aead =
  NonceSize :: nat
  Overhead :: nat
  Seal :: "string \<Rightarrow> string \<Rightarrow> string \<Rightarrow> string"
  Open :: "string \<Rightarrow> string \<Rightarrow> string \<Rightarrow> string option"

record cipher =
  c_aead :: aead
  directLinkKey :: string
  accessTokenKey :: string

definition directLinkKeyContext :: string where "directLinkKeyContext = ''icloud-api/direct-link/key/v1''"
definition accessTokenKeyContext :: string where "accessTokenKeyContext = ''icloud-api/imap-access-token/key/v1''"

text \<open>\<open>gcm\<close> is AES-256-GCM under a key, which the standard library builds.\<close>

definition NewCipher :: "(string \<Rightarrow> aead) \<Rightarrow> string \<Rightarrow> secure_error + cipher" where
  "NewCipher gcm key =
     (if length key \<noteq> 32 then Inl BadMasterKey
      else Inr \<lparr>c_aead = gcm key, directLinkKey = hmac_sha256 key directLinkKeyContext,
                accessTokenKey = hmac_sha256 key accessTokenKeyContext\<rparr>)"

definition encrypt :: "cipher \<Rightarrow> string \<Rightarrow> string \<Rightarrow> string \<Rightarrow> entropy \<Rightarrow> secure_error + (string \<times> entropy)" where
  "encrypt c version aad plaintext r =
     (case rand_read (NonceSize (c_aead c)) r of
        Inl e \<Rightarrow> Inl e
      | Inr (nonce, r') \<Rightarrow>
          Inr (version @ ''.'' @ b64_encode RawURLEncoding (nonce @ Seal (c_aead c) nonce plaintext aad), r'))"

definition decrypt :: "cipher \<Rightarrow> string \<Rightarrow> string \<Rightarrow> string \<Rightarrow> secure_error + string" where
  "decrypt c expectedVersion aad v =
     (case cut (CHR ''.'') v of (version, encoded, ok) \<Rightarrow>
        if \<not> ok \<or> version \<noteq> expectedVersion then Inl UnknownVersion
        else (case b64_decode RawURLEncoding encoded of
                None \<Rightarrow> Inl BadCiphertext
              | Some payload \<Rightarrow>
                  (let n = NonceSize (c_aead c) in
                   if length payload < n + Overhead (c_aead c) then Inl ShortCiphertext
                   else (case Open (c_aead c) (take n payload) (drop n payload) aad of
                           None \<Rightarrow> Inl OpenFailed
                         | Some plaintext \<Rightarrow> Inr plaintext))))"

definition credentialAAD :: string where "credentialAAD = ''icloud-api/imap-credential/v1''"
definition appleSessionAAD :: string where "appleSessionAAD = ''icloud-api/apple-web-session/v1''"
definition pendingAliasAPIKeyAAD :: string where "pendingAliasAPIKeyAAD = ''icloud-api/pending-alias-api-key/v1''"
definition aliasCredentialsAAD :: string where "aliasCredentialsAAD = ''icloud-api/alias-credentials/v1/''"

definition Encrypt :: "cipher \<Rightarrow> string \<Rightarrow> entropy \<Rightarrow> secure_error + (string \<times> entropy)" where
  "Encrypt c p r = encrypt c ''v1'' credentialAAD p r"

definition EncryptAppleSession :: "cipher \<Rightarrow> string \<Rightarrow> entropy \<Rightarrow> secure_error + (string \<times> entropy)" where
  "EncryptAppleSession c p r = encrypt c ''as1'' appleSessionAAD p r"

definition EncryptPendingAliasAPIKey :: "cipher \<Rightarrow> string \<Rightarrow> entropy \<Rightarrow> secure_error + (string \<times> entropy)" where
  "EncryptPendingAliasAPIKey c p r = encrypt c ''ak1'' pendingAliasAPIKeyAAD p r"

definition Decrypt :: "cipher \<Rightarrow> string \<Rightarrow> secure_error + string" where
  "Decrypt c v = decrypt c ''v1'' credentialAAD v"

definition DecryptAppleSession :: "cipher \<Rightarrow> string \<Rightarrow> secure_error + string" where
  "DecryptAppleSession c v = decrypt c ''as1'' appleSessionAAD v"

definition DecryptPendingAliasAPIKey :: "cipher \<Rightarrow> string \<Rightarrow> secure_error + string" where
  "DecryptPendingAliasAPIKey c v = decrypt c ''ak1'' pendingAliasAPIKeyAAD v"

subsection \<open>Direct-link tokens\<close>

definition directLinkTokenPrefix :: string where "directLinkTokenPrefix = ''icm_''"
definition directLinkTokenMagic :: string where "directLinkTokenMagic = ''dlt''"
definition directLinkTokenHeaderSize :: nat where "directLinkTokenHeaderSize = 12"
definition directLinkTokenSize :: nat where "directLinkTokenSize = 32"
definition directLinkTokenVersion :: byte where "directLinkTokenVersion = char_of (1 :: nat)"
definition recentMailTokenVersion :: byte where "recentMailTokenVersion = char_of (2 :: nat)"
definition otpTokenVersion :: byte where "otpTokenVersion = char_of (3 :: nat)"
definition directLinkTokenContext :: string where "directLinkTokenContext = ''icloud-api/direct-link/token/v1''"
definition recentMailTokenContext :: string where "recentMailTokenContext = ''icloud-api/direct-link/token/recent-mail/v2''"
definition otpTokenContext :: string where "otpTokenContext = ''icloud-api/direct-link/token/otp/v2''"

lemmas direct_link_consts = directLinkTokenPrefix_def directLinkTokenMagic_def directLinkTokenHeaderSize_def
  directLinkTokenSize_def

definition direct_link_header :: "byte \<Rightarrow> int \<Rightarrow> string" where
  "direct_link_header version aliasID = directLinkTokenMagic @ [version] @ be_bytes 8 (uint64_of aliasID)"

definition direct_link_mac :: "cipher \<Rightarrow> int \<Rightarrow> string \<Rightarrow> byte \<Rightarrow> string \<Rightarrow> string" where
  "direct_link_mac c aliasID apiKeyHash version context0 =
     hmac_sha256 (directLinkKey c) (context0 @ direct_link_header version aliasID @ apiKeyHash)"

text \<open>\<open>None\<close> is the nil receiver. The payload has room for the first 20 bytes of the MAC.\<close>

definition directLinkToken :: "cipher option \<Rightarrow> int \<Rightarrow> string \<Rightarrow> byte \<Rightarrow> string \<Rightarrow> secure_error + string" where
  "directLinkToken cp aliasID apiKeyHash version context0 =
     (case cp of
        None \<Rightarrow> Inl NoCipher
      | Some c \<Rightarrow>
          if aliasID < 1 then Inl BadAliasID
          else if length apiKeyHash \<noteq> 32 then Inl BadHash
          else Inr (directLinkTokenPrefix @ b64_encode RawURLEncoding
                 (direct_link_header version aliasID @
                  take (directLinkTokenSize - directLinkTokenHeaderSize)
                    (direct_link_mac c aliasID apiKeyHash version context0))))"

definition directLinkTokenPayload :: "string \<Rightarrow> byte \<Rightarrow> string option" where
  "directLinkTokenPayload token version =
     (if length token \<noteq> length directLinkTokenPrefix + 43 \<or> \<not> has_prefix token directLinkTokenPrefix then None
      else (case b64_decode (Strict RawURLEncoding) (drop (length directLinkTokenPrefix) token) of
              None \<Rightarrow> None
            | Some payload \<Rightarrow>
                if length payload \<noteq> directLinkTokenSize \<or>
                   take (length directLinkTokenMagic) payload \<noteq> directLinkTokenMagic \<or>
                   payload ! length directLinkTokenMagic \<noteq> version then None
                else Some payload))"

definition directLinkTokenAliasID :: "string \<Rightarrow> byte \<Rightarrow> int option" where
  "directLinkTokenAliasID token version =
     (case directLinkTokenPayload token version of
        None \<Rightarrow> None
      | Some payload \<Rightarrow>
          (let encodedID = be_value (take 8 (drop 4 payload)); aliasID = int64_of encodedID in
           if aliasID < 1 \<or> uint64_of aliasID \<noteq> encodedID then None else Some aliasID))"

definition verifyDirectLinkToken :: "cipher option \<Rightarrow> string \<Rightarrow> int \<Rightarrow> string \<Rightarrow> byte \<Rightarrow> string \<Rightarrow> bool" where
  "verifyDirectLinkToken cp token aliasID apiKeyHash version context0 =
     (case directLinkTokenPayload token version of
        None \<Rightarrow> False
      | Some payload \<Rightarrow>
          if cp = None \<or> length apiKeyHash \<noteq> 32 then False
          else (case directLinkTokenAliasID token version of
                  None \<Rightarrow> False
                | Some parsedID \<Rightarrow>
                    if parsedID \<noteq> aliasID then False
                    else (case directLinkToken cp aliasID apiKeyHash version context0 of
                            Inl _ \<Rightarrow> False
                          | Inr expected \<Rightarrow>
                              (case directLinkTokenPayload expected version of
                                 None \<Rightarrow> False
                               | Some expectedPayload \<Rightarrow>
                                   drop directLinkTokenHeaderSize payload = drop directLinkTokenHeaderSize expectedPayload))))"

definition DirectLinkToken :: "cipher option \<Rightarrow> int \<Rightarrow> string \<Rightarrow> secure_error + string" where
  "DirectLinkToken cp i h = directLinkToken cp i h directLinkTokenVersion directLinkTokenContext"
definition RecentMailToken :: "cipher option \<Rightarrow> int \<Rightarrow> string \<Rightarrow> secure_error + string" where
  "RecentMailToken cp i h = directLinkToken cp i h recentMailTokenVersion recentMailTokenContext"
definition OTPToken :: "cipher option \<Rightarrow> int \<Rightarrow> string \<Rightarrow> secure_error + string" where
  "OTPToken cp i h = directLinkToken cp i h otpTokenVersion otpTokenContext"

definition DirectLinkTokenAliasID :: "string \<Rightarrow> int option" where
  "DirectLinkTokenAliasID token = directLinkTokenAliasID token directLinkTokenVersion"
definition RecentMailTokenAliasID :: "string \<Rightarrow> int option" where
  "RecentMailTokenAliasID token = directLinkTokenAliasID token recentMailTokenVersion"
definition OTPTokenAliasID :: "string \<Rightarrow> int option" where
  "OTPTokenAliasID token = directLinkTokenAliasID token otpTokenVersion"

definition VerifyDirectLinkToken :: "cipher option \<Rightarrow> string \<Rightarrow> int \<Rightarrow> string \<Rightarrow> bool" where
  "VerifyDirectLinkToken cp token i h = verifyDirectLinkToken cp token i h directLinkTokenVersion directLinkTokenContext"
definition VerifyRecentMailToken :: "cipher option \<Rightarrow> string \<Rightarrow> int \<Rightarrow> string \<Rightarrow> bool" where
  "VerifyRecentMailToken cp token i h = verifyDirectLinkToken cp token i h recentMailTokenVersion recentMailTokenContext"
definition VerifyOTPToken :: "cipher option \<Rightarrow> string \<Rightarrow> int \<Rightarrow> string \<Rightarrow> bool" where
  "VerifyOTPToken cp token i h = verifyDirectLinkToken cp token i h otpTokenVersion otpTokenContext"

subsubsection \<open>A verified token is the issued one\<close>

lemma raw_url [simp]: "enc_pad RawURLEncoding = False" "enc_strict (Strict RawURLEncoding)"
  "enc_pad (Strict RawURLEncoding) = False"
  by (simp_all add: encoding_defs)

lemma b64_digit_Strict [simp]: "b64_digit (Strict e) = b64_digit e"
  by (rule ext) (simp add: b64_digit_def Strict_def)

lemma enc_pad_Strict [simp]: "enc_pad (Strict e) = enc_pad e"
  by (simp add: Strict_def)

lemma b64_encode_Strict [simp]: "b64_encode (Strict e) s = b64_encode e s"
  by (induction e s rule: b64_encode.induct) simp_all

lemma direct_link_lengths [simp]:
  "length directLinkTokenPrefix = 4" "length directLinkTokenMagic = 3"
  "directLinkTokenSize = 32" "directLinkTokenHeaderSize = 12"
  by (simp_all add: direct_link_consts)

lemma length_direct_link_header [simp]: "length (direct_link_header v i) = 12"
  by (simp add: direct_link_header_def)

text \<open>Strict decoding of a token of the right length leaves no room for another spelling.\<close>

lemma strict_spelling:
  assumes "b64_decode (Strict RawURLEncoding) s = Some u" and "length s = (4 * length u + 2) div 3"
  shows "s = b64_encode RawURLEncoding u"
proof -
  let ?t = "filter not_newline s"
  have g: "b64_groups (Strict RawURLEncoding) ?t = Some u" using assms(1) by (simp add: b64_decode_def)
  then have "length ?t = length s" using b64_groups_length [OF g] assms(2) by simp
  then have "?t = s" using length_filter_less by (metis filter_True nat_neq_iff)
  with b64_groups_canonical [OF g] show ?thesis by simp
qed

lemma payload_token:
  "directLinkTokenPayload token v = Some p \<longleftrightarrow>
     token = directLinkTokenPrefix @ b64_encode RawURLEncoding p \<and> length p = 32 \<and>
     take 3 p = directLinkTokenMagic \<and> p ! 3 = v" (is "?l \<longleftrightarrow> ?r")
proof
  assume ?l
  then have len: "length token = 47" and pre: "has_prefix token directLinkTokenPrefix"
    and dec: "b64_decode (Strict RawURLEncoding) (drop 4 token) = Some p"
    and rest: "length p = 32" "take 3 p = directLinkTokenMagic" "p ! 3 = v"
    by (auto simp: directLinkTokenPayload_def split: if_splits option.splits)
  have "drop 4 token = b64_encode RawURLEncoding p"
    using strict_spelling [OF dec] len rest(1) by simp
  moreover have "take 4 token = directLinkTokenPrefix" using pre by (simp add: has_prefix_def)
  ultimately have "token = directLinkTokenPrefix @ b64_encode RawURLEncoding p" by (metis append_take_drop_id)
  with rest show ?r by simp
next
  assume ?r
  moreover have "b64_decode (Strict RawURLEncoding) (b64_encode RawURLEncoding p) = Some p"
    using b64_roundtrip [of "Strict RawURLEncoding" p] by simp
  ultimately show ?l
    by (simp add: directLinkTokenPayload_def has_prefix_def length_b64_raw)
qed

lemma header_parts: "p = take 3 p @ [p ! 3] @ take 8 (drop 4 p) @ drop 12 p" if "length p = 32" for p :: string
proof -
  have "p = take 3 p @ drop 3 p" by simp
  also have "drop 3 p = p ! 3 # drop 4 p" using that Cons_nth_drop_Suc [of 3 p] by simp
  also have "drop 4 p = take 8 (drop 4 p) @ drop 12 p" using append_take_drop_id [of 8 "drop 4 p"] by simp
  finally show ?thesis by simp
qed

lemma issued_payload:
  assumes "directLinkToken (Some c) i h v ctx = Inr token"
  shows "directLinkTokenPayload token v = Some (direct_link_header v i @ take 20 (direct_link_mac c i h v ctx))"
    and "1 \<le> i" and "length h = 32"
proof -
  have t: "token = directLinkTokenPrefix @ b64_encode RawURLEncoding
      (direct_link_header v i @ take 20 (direct_link_mac c i h v ctx))" and "1 \<le> i" "length h = 32"
    using assms by (auto simp: directLinkToken_def split: if_splits)
  then show "1 \<le> i" "length h = 32" by simp_all
  have "take 3 (direct_link_header v i) = directLinkTokenMagic" "direct_link_header v i ! 3 = v"
    by (simp_all add: direct_link_header_def nth_append)
  then show "directLinkTokenPayload token v = Some (direct_link_header v i @ take 20 (direct_link_mac c i h v ctx))"
    unfolding payload_token t by (simp add: nth_append direct_link_mac_def)
qed

lemma header_alias_id [simp]: "drop 4 (direct_link_header v i) = be_bytes 8 (uint64_of i)"
  by (simp add: direct_link_header_def)

lemma issued_alias_id:
  assumes "directLinkToken (Some c) i h v ctx = Inr token" and "int64 i"
  shows "directLinkTokenAliasID token v = Some i"
  using issued_payload [OF assms(1)] assms(2)
  by (simp add: directLinkTokenAliasID_def Let_def be_value_8 int64_of_uint64)

lemma alias_id_payload:
  assumes "directLinkTokenAliasID token v = Some i"
  obtains m where "directLinkTokenPayload token v = Some (direct_link_header v i @ m)" and "length m = 20"
    and "1 \<le> i" and "int64 i"
proof -
  from assms obtain p where p: "directLinkTokenPayload token v = Some p"
    and i: "i = int64_of (be_value (take 8 (drop 4 p)))" "1 \<le> i" "uint64_of i = be_value (take 8 (drop 4 p))"
    by (auto simp: directLinkTokenAliasID_def Let_def split: option.splits if_splits)
  from p have q: "length p = 32" "take 3 p = directLinkTokenMagic" "p ! 3 = v" by (simp_all add: payload_token)
  have "take 8 (drop 4 p) = be_bytes 8 (uint64_of i)"
    using be_bytes_value [of "take 8 (drop 4 p)"] q(1) i(3) by simp
  with q header_parts [OF q(1)] have "p = direct_link_header v i @ drop 12 p"
    by (metis append.assoc append_Cons append_Nil direct_link_header_def)
  with p q(1) i(1,2) that [of "drop 12 p"] show thesis by (simp add: int64_of_def)
qed

lemma verify_iff_issued:
  assumes "int64 i"
  shows "verifyDirectLinkToken cp token i h v ctx \<longleftrightarrow> directLinkToken cp i h v ctx = Inr token"
proof
  assume "directLinkToken cp i h v ctx = Inr token"
  then obtain c where c: "cp = Some c" "directLinkToken (Some c) i h v ctx = Inr token"
    by (auto simp: directLinkToken_def split: option.splits)
  from issued_payload [OF c(2)] issued_alias_id [OF c(2) assms] c
  show "verifyDirectLinkToken cp token i h v ctx" by (simp add: verifyDirectLinkToken_def)
next
  assume ver: "verifyDirectLinkToken cp token i h v ctx"
  then obtain c where c: "cp = Some c" and id: "directLinkTokenAliasID token v = Some i" and h: "length h = 32"
    by (auto simp: verifyDirectLinkToken_def split: option.splits if_splits)
  from id obtain m where m: "directLinkTokenPayload token v = Some (direct_link_header v i @ m)" "length m = 20" "1 \<le> i"
    by (rule alias_id_payload)
  then obtain e where e: "directLinkToken (Some c) i h v ctx = Inr e"
    using h by (simp add: directLinkToken_def)
  with ver c m id h issued_payload(1) [OF e] have "m = take 20 (direct_link_mac c i h v ctx)"
    by (simp add: verifyDirectLinkToken_def)
  with m(1) issued_payload(1) [OF e] have "directLinkTokenPayload token v = directLinkTokenPayload e v" by simp
  then have "token = e" by (metis m(1) payload_token)
  with e c show "directLinkToken cp i h v ctx = Inr token" by simp
qed

subsection \<open>IMAP access tokens\<close>

definition accessTokenPrefix :: string where "accessTokenPrefix = ''ica_''"
definition accessTokenVersion :: byte where "accessTokenVersion = char_of (1 :: nat)"
definition accessTokenContext :: string where "accessTokenContext = ''icloud-api/imap-access-token/token/v1''"
definition accessTokenHeaderSize :: nat where "accessTokenHeaderSize = 25"
definition accessTokenSize :: nat where "accessTokenSize = 57"

definition access_header :: "int \<Rightarrow> int \<Rightarrow> int \<Rightarrow> string" where
  "access_header aliasID credentialVersion expiry =
     [accessTokenVersion] @ be_bytes 8 (uint64_of aliasID) @ be_bytes 8 (uint64_of credentialVersion) @
     be_bytes 8 (uint64_of expiry)"

definition access_mac :: "cipher \<Rightarrow> string \<Rightarrow> string \<Rightarrow> string" where
  "access_mac c header refreshTokenHash =
     hmac_sha256 (accessTokenKey c) (accessTokenContext @ header @ refreshTokenHash)"

definition IssueAliasAccessToken :: "cipher option \<Rightarrow> int \<Rightarrow> int \<Rightarrow> string \<Rightarrow> time \<Rightarrow> secure_error + string" where
  "IssueAliasAccessToken cp aliasID credentialVersion refreshTokenHash expiresAt =
     (case cp of
        None \<Rightarrow> Inl BadAccessCredentials
      | Some c \<Rightarrow>
          if aliasID < 1 \<or> credentialVersion < 1 \<or> length refreshTokenHash \<noteq> 32 then Inl BadAccessCredentials
          else if is_zero_time expiresAt \<or> unix_seconds expiresAt \<le> 0 then Inl BadExpiry
          else (let header = access_header aliasID credentialVersion (unix_seconds expiresAt) in
                Inr (accessTokenPrefix @ b64_encode RawURLEncoding (header @ access_mac c header refreshTokenHash))))"

definition aliasAccessTokenPayload :: "string \<Rightarrow> string option" where
  "aliasAccessTokenPayload token =
     (if \<not> has_prefix token accessTokenPrefix then None
      else (case b64_decode (Strict RawURLEncoding) (drop (length accessTokenPrefix) token) of
              None \<Rightarrow> None
            | Some payload \<Rightarrow>
                if length payload \<noteq> accessTokenSize \<or> payload ! 0 \<noteq> accessTokenVersion then None
                else Some payload))"

definition bad_uint63 :: "nat \<Rightarrow> bool" where
  "bad_uint63 n \<longleftrightarrow> n = 0 \<or> n > 9223372036854775807"

definition AliasAccessTokenIdentity :: "string \<Rightarrow> (int \<times> int \<times> time) option" where
  "AliasAccessTokenIdentity token =
     (case aliasAccessTokenPayload token of
        None \<Rightarrow> None
      | Some payload \<Rightarrow>
          (let rawAliasID = be_value (take 8 (drop 1 payload));
               rawVersion = be_value (take 8 (drop 9 payload));
               rawExpiry = be_value (take 8 (drop 17 payload)) in
           if bad_uint63 rawAliasID \<or> bad_uint63 rawVersion \<or> bad_uint63 rawExpiry then None
           else Some (int64_of rawAliasID, int64_of rawVersion, time_unix (int64_of rawExpiry))))"

definition VerifyAliasAccessToken ::
  "cipher option \<Rightarrow> string \<Rightarrow> int \<Rightarrow> int \<Rightarrow> string \<Rightarrow> time \<Rightarrow> bool" where
  "VerifyAliasAccessToken cp token aliasID credentialVersion refreshTokenHash now =
     (case AliasAccessTokenIdentity token of
        None \<Rightarrow> False
      | Some (parsedAliasID, parsedVersion, expiresAt) \<Rightarrow>
          if cp = None \<or> parsedAliasID \<noteq> aliasID \<or> parsedVersion \<noteq> credentialVersion \<or>
             length refreshTokenHash \<noteq> 32 \<or> \<not> now < expiresAt then False
          else (case IssueAliasAccessToken cp aliasID credentialVersion refreshTokenHash expiresAt of
                  Inl _ \<Rightarrow> False
                | Inr expected \<Rightarrow> token = expected))"

lemma access_lengths [simp]:
  "length accessTokenPrefix = 4" "accessTokenSize = 57" "length (access_header i v e) = 25"
  "length (access_mac c hdr h) = 32"
  by (simp_all add: accessTokenPrefix_def accessTokenSize_def access_header_def access_mac_def)

lemma access_header_fields:
  "access_header i v e ! 0 = accessTokenVersion"
  "drop (Suc 0) (access_header i v e) = be_bytes 8 (uint64_of i) @ be_bytes 8 (uint64_of v) @ be_bytes 8 (uint64_of e)"
  "drop 9 (access_header i v e) = be_bytes 8 (uint64_of v) @ be_bytes 8 (uint64_of e)"
  "drop 17 (access_header i v e) = be_bytes 8 (uint64_of e)"
  by (simp_all add: access_header_def)

lemma good_uint63: "1 \<le> i \<Longrightarrow> int64 i \<Longrightarrow> \<not> bad_uint63 (uint64_of i)"
  by (auto simp: bad_uint63_def uint64_of_pos int64_def)

lemma issued_access_identity:
  assumes "IssueAliasAccessToken (Some c) i v h e = Inr token" and "int64 i" "int64 v"
  shows "AliasAccessTokenIdentity token = Some (i, v, time_unix (unix_seconds e))"
proof -
  let ?hd = "access_header i v (unix_seconds e)"
  from assms(1) have t: "token = accessTokenPrefix @ b64_encode RawURLEncoding (?hd @ access_mac c ?hd h)"
    and pos: "1 \<le> i" "1 \<le> v" "1 \<le> unix_seconds e"
    by (auto simp: IssueAliasAccessToken_def Let_def split: if_splits)
  have e: "int64 (unix_seconds e)" by (simp add: unix_seconds_def)
  have "b64_decode (Strict RawURLEncoding) (b64_encode RawURLEncoding (?hd @ access_mac c ?hd h))
      = Some (?hd @ access_mac c ?hd h)"
    using b64_roundtrip [of "Strict RawURLEncoding" "?hd @ access_mac c ?hd h"] by simp
  then have "aliasAccessTokenPayload token = Some (?hd @ access_mac c ?hd h)"
    by (simp add: aliasAccessTokenPayload_def t has_prefix_def nth_append access_header_fields)
  with pos e assms(2,3) show ?thesis
    by (simp add: AliasAccessTokenIdentity_def Let_def access_header_fields be_value_8 good_uint63 int64_of_uint64)
qed

text \<open>
  A token is accepted for an alias, a credential version and a refresh-token hash exactly when it is
  the token issued for them with an expiry that is still ahead.
\<close>

lemma verify_access_iff:
  assumes "int64 i" "int64 v"
  shows "VerifyAliasAccessToken cp token i v h now \<longleftrightarrow>
    (\<exists>s. int64 s \<and> now < time_unix s \<and> IssueAliasAccessToken cp i v h (time_unix s) = Inr token)"
proof
  assume ver: "VerifyAliasAccessToken cp token i v h now"
  then obtain e where id: "AliasAccessTokenIdentity token = Some (i, v, e)" and "now < e"
    and "IssueAliasAccessToken cp i v h e = Inr token"
    by (auto simp: VerifyAliasAccessToken_def split: option.splits prod.splits if_splits sum.splits)
  moreover from id obtain s where "e = time_unix s" and "int64 s"
    by (auto simp: AliasAccessTokenIdentity_def Let_def int64_of_def split: option.splits if_splits)
  ultimately show "\<exists>s. int64 s \<and> now < time_unix s \<and> IssueAliasAccessToken cp i v h (time_unix s) = Inr token"
    by blast
next
  assume "\<exists>s. int64 s \<and> now < time_unix s \<and> IssueAliasAccessToken cp i v h (time_unix s) = Inr token"
  then obtain s where s: "int64 s" "now < time_unix s" and iss: "IssueAliasAccessToken cp i v h (time_unix s) = Inr token"
    by blast
  then obtain c where c: "cp = Some c" and h: "length h = 32"
    by (auto simp: IssueAliasAccessToken_def split: option.splits if_splits)
  from issued_access_identity [OF iss [unfolded c] assms] s(1)
  have "AliasAccessTokenIdentity token = Some (i, v, time_unix s)" by (simp add: unix_seconds_time_unix)
  with s c h iss show "VerifyAliasAccessToken cp token i v h now"
    by (simp add: VerifyAliasAccessToken_def)
qed

lemma unix_time_nonzero: "1 \<le> s \<Longrightarrow> int64 s \<Longrightarrow> \<not> is_zero_time (time_unix s)"
  using unix_seconds_time_unix [of s]
  by (auto simp: is_zero_time_def zero_time_def unix_seconds_def int64_def)

lemma issue_access_unix:
  assumes "1 \<le> i" "1 \<le> v" "length h = 32" "1 \<le> s" "int64 s"
  shows "IssueAliasAccessToken (Some c) i v h (time_unix s) =
    Inr (accessTokenPrefix @ b64_encode RawURLEncoding (access_header i v s @ access_mac c (access_header i v s) h))"
  using assms unix_time_nonzero [of s]
  by (simp add: IssueAliasAccessToken_def Let_def unix_seconds_time_unix)

lemma b64_encode_inject: "b64_encode e s = b64_encode e t \<longleftrightarrow> s = t"
  by (metis b64_roundtrip option.inject)

lemma route_excludes:
  assumes "verifyDirectLinkToken c token i h v ctx" and "v \<noteq> w"
  shows "\<not> verifyDirectLinkToken c' token i' h' w ctx'" and "directLinkTokenAliasID token w = None"
proof -
  obtain p where "directLinkTokenPayload token v = Some p"
    using assms(1) by (auto simp: verifyDirectLinkToken_def split: option.splits)
  with assms(2) have "directLinkTokenPayload token w = None"
    by (cases "directLinkTokenPayload token w") (auto simp: payload_token b64_encode_inject)
  then show "\<not> verifyDirectLinkToken c' token i' h' w ctx'" "directLinkTokenAliasID token w = None"
    by (simp_all add: verifyDirectLinkToken_def directLinkTokenAliasID_def)
qed

lemma route_versions:
  "otpTokenVersion \<noteq> recentMailTokenVersion" "otpTokenVersion \<noteq> directLinkTokenVersion"
  "recentMailTokenVersion \<noteq> directLinkTokenVersion" "recentMailTokenVersion \<noteq> otpTokenVersion"
  by (simp_all add: otpTokenVersion_def recentMailTokenVersion_def directLinkTokenVersion_def)

subsection \<open>What the tokens guarantee\<close>

definition demo_cipher :: cipher where
  "demo_cipher = \<lparr>c_aead = \<lparr>NonceSize = 12, Overhead = 16, Seal = \<lambda>n p d. p @ replicate 16 (CHR ''0''),
                 Open = \<lambda>n x d. Some (take (length x - 16) x)\<rparr>,
               directLinkKey = replicate 32 (CHR ''d''), accessTokenKey = replicate 32 (CHR ''a'')\<rparr>"

definition demo_hash :: string where
  "demo_hash = replicate 32 (CHR ''h'')"

definition token_of :: "secure_error + string \<Rightarrow> string" where
  "token_of x = (case x of Inl _ \<Rightarrow> [] | Inr t \<Rightarrow> t)"

lemma demo_OTPToken: "OTPToken (Some demo_cipher) 7 demo_hash = Inr (token_of (OTPToken (Some demo_cipher) 7 demo_hash))"
  by (simp add: OTPToken_def directLinkToken_def demo_hash_def token_of_def)

text \<open>C29: A direct-link route accepts a token for an alias and a stored key hash exactly when the
  token is, byte for byte, the one that the route issues for them; this holds of the legacy, the
  recent-mail and the OTP route, and a route without a cipher accepts nothing.\<close>
theorem direct_link_verify_iff:
  assumes "int64 i"
  shows "(VerifyDirectLinkToken cp token i h \<longleftrightarrow> DirectLinkToken cp i h = Inr token) \<and>
    (VerifyRecentMailToken cp token i h \<longleftrightarrow> RecentMailToken cp i h = Inr token) \<and>
    (VerifyOTPToken cp token i h \<longleftrightarrow> OTPToken cp i h = Inr token)"
  using verify_iff_issued [OF assms]
  by (simp_all add: VerifyDirectLinkToken_def DirectLinkToken_def VerifyRecentMailToken_def RecentMailToken_def
        VerifyOTPToken_def OTPToken_def)

theorem direct_link_verify_iff_witness:
  "VerifyOTPToken (Some demo_cipher) (token_of (OTPToken (Some demo_cipher) 7 demo_hash)) 7 demo_hash"
  using direct_link_verify_iff [of 7 "Some demo_cipher" _ demo_hash] demo_OTPToken by (simp add: int64_def)

text \<open>No token is accepted by two routes, whatever keys, aliases and hashes they check it
  against, and the identifier parsers of the other routes do not recognise it.\<close>
theorem direct_link_routes_separate:
  "(VerifyOTPToken c1 token i1 h1 \<longrightarrow>
      \<not> VerifyRecentMailToken c2 token i2 h2 \<and> \<not> VerifyDirectLinkToken c3 token i3 h3 \<and>
      RecentMailTokenAliasID token = None \<and> DirectLinkTokenAliasID token = None) \<and>
   (VerifyRecentMailToken c1 token i1 h1 \<longrightarrow>
      \<not> VerifyDirectLinkToken c3 token i3 h3 \<and> OTPTokenAliasID token = None \<and> DirectLinkTokenAliasID token = None)"
  unfolding VerifyOTPToken_def VerifyRecentMailToken_def VerifyDirectLinkToken_def
    RecentMailTokenAliasID_def DirectLinkTokenAliasID_def OTPTokenAliasID_def
  by (intro conjI impI; erule route_excludes) (rule route_versions)+

theorem direct_link_routes_separate_witness:
  "\<not> VerifyRecentMailToken (Some demo_cipher) (token_of (OTPToken (Some demo_cipher) 7 demo_hash)) 7 demo_hash"
proof -
  have "VerifyOTPToken (Some demo_cipher) (token_of (OTPToken (Some demo_cipher) 7 demo_hash)) 7 demo_hash"
    using verify_iff_issued [of 7] demo_OTPToken by (simp add: VerifyOTPToken_def OTPToken_def int64_def)
  then show ?thesis
    using direct_link_routes_separate [of "Some demo_cipher" _ 7 demo_hash "Some demo_cipher" 7 demo_hash] by blast
qed

text \<open>After the API key of an alias is rotated, a link issued under the old key hash is accepted
  under the new one exactly when the two MACs, cut to twenty bytes, coincide; and it is never
  accepted for another alias.\<close>
theorem direct_link_rotation:
  assumes "directLinkToken (Some c) i h v ctx = Inr token" and "int64 i"
  shows "verifyDirectLinkToken (Some c) token j h' v ctx \<longleftrightarrow>
    j = i \<and> length h' = 32 \<and> take 20 (direct_link_mac c i h' v ctx) = take 20 (direct_link_mac c i h v ctx)"
proof (cases "j = i \<and> length h' = 32")
  case True
  with issued_payload(2) [OF assms(1)] have "directLinkToken (Some c) j h' v ctx =
      Inr (directLinkTokenPrefix @ b64_encode RawURLEncoding
        (direct_link_header v i @ take 20 (direct_link_mac c i h' v ctx)))"
    by (simp add: directLinkToken_def)
  moreover have "token = directLinkTokenPrefix @ b64_encode RawURLEncoding
      (direct_link_header v i @ take 20 (direct_link_mac c i h v ctx))"
    using issued_payload(1) [OF assms(1)] by (simp add: payload_token)
  ultimately show ?thesis
    using True verify_iff_issued [OF assms(2), of "Some c" token h' v ctx] by (auto simp: b64_encode_inject)
next
  case False
  with issued_alias_id [OF assms] show ?thesis
    by (auto simp: verifyDirectLinkToken_def split: option.splits)
qed

theorem direct_link_rotation_witness:
  "\<not> VerifyOTPToken (Some demo_cipher) (token_of (OTPToken (Some demo_cipher) 7 demo_hash)) 8 demo_hash"
  using direct_link_rotation [OF demo_OTPToken [unfolded OTPToken_def], of 8 demo_hash]
  by (simp add: VerifyOTPToken_def OTPToken_def int64_def)

text \<open>An IMAP access token is accepted until the second its expiry was cut to, for its own alias
  and credential version only, and under a rotated refresh token exactly when the MACs coincide.\<close>
theorem access_token_lifetime:
  assumes "IssueAliasAccessToken (Some c) i v h e = Inr token" and "int64 i" "int64 v"
  shows "VerifyAliasAccessToken (Some c) token j w h' now \<longleftrightarrow>
    j = i \<and> w = v \<and> length h' = 32 \<and> now < time_unix (unix_seconds e) \<and>
    access_mac c (access_header i v (unix_seconds e)) h' = access_mac c (access_header i v (unix_seconds e)) h"
proof -
  let ?s = "unix_seconds e"
  have e: "int64 ?s" by (simp add: unix_seconds_def)
  from assms(1) have pos: "1 \<le> i" "1 \<le> v" "1 \<le> ?s"
    and t: "token = accessTokenPrefix @ b64_encode RawURLEncoding (access_header i v ?s @ access_mac c (access_header i v ?s) h)"
    by (auto simp: IssueAliasAccessToken_def Let_def split: if_splits)
  have id: "AliasAccessTokenIdentity token = Some (i, v, time_unix ?s)" by (rule issued_access_identity [OF assms])
  show ?thesis
  proof (cases "j = i \<and> w = v \<and> length h' = 32 \<and> now < time_unix ?s")
    case True
    with pos e have "IssueAliasAccessToken (Some c) j w h' (time_unix ?s) =
        Inr (accessTokenPrefix @ b64_encode RawURLEncoding (access_header i v ?s @ access_mac c (access_header i v ?s) h'))"
      by (simp add: issue_access_unix)
    with True id t show ?thesis by (auto simp: VerifyAliasAccessToken_def b64_encode_inject)
  next
    case False
    with id show ?thesis by (auto simp: VerifyAliasAccessToken_def)
  qed
qed

theorem access_token_lifetime_witness:
  "VerifyAliasAccessToken (Some demo_cipher)
     (token_of (IssueAliasAccessToken (Some demo_cipher) 7 2 demo_hash (1700000000 * second + 999))) 7 2 demo_hash
     (1700000000 * second - 1)"
proof -
  have u: "unix_seconds (1700000000 * second + 999) = 1700000000"
    "time_unix 1700000000 = 1700000000 * second"
    by (simp_all add: unix_seconds_def time_unix_def int64_def)
  have "IssueAliasAccessToken (Some demo_cipher) 7 2 demo_hash (1700000000 * second + 999) =
      Inr (token_of (IssueAliasAccessToken (Some demo_cipher) 7 2 demo_hash (1700000000 * second + 999)))"
    by (simp add: IssueAliasAccessToken_def demo_hash_def token_of_def Let_def u [simplified] is_zero_time_def zero_time_def)
  from access_token_lifetime [OF this, of 7 2 demo_hash "1700000000 * second - 1"] show ?thesis
    by (simp add: int64_def demo_hash_def u [simplified])
qed

end
