(* ===== verification/SecureBundle.thy ===== *)
theory SecureBundle
  imports Secure
begin

section \<open>Encrypted credential bundles (internal/secure/secure.go)\<close>

text \<open>
  The four credentials of an alias, their validation, their sealed form and the material that the
  database keeps. \<open>aead_laws\<close> states the documented behaviour of the AEAD: opening inverts sealing,
  the ciphertext is longer than the plaintext by the overhead, and a ciphertext that opens is the
  sealing of what it opens to. \<open>json.Unmarshal\<close> is a parameter, with the law that it reads back
  what \<open>json.Marshal\<close> wrote.
\<close>

subsection \<open>The operations\<close>

record alias_credentials =
  cr_APIKey :: string
  cr_IMAPPassword :: string
  cr_ClientID :: string
  cr_RefreshToken :: string

record credential_material =
  cm_Ciphertext :: string
  cm_APIKeyHash :: string
  cm_APIKeyPrefix :: string
  cm_IMAPPasswordHash :: string
  cm_OAuthClientID :: string
  cm_RefreshTokenHash :: string
  cm_Version :: int

definition validGeneratedToken :: "string \<Rightarrow> string \<Rightarrow> nat \<Rightarrow> bool" where
  "validGeneratedToken v prefix byteLength \<longleftrightarrow>
     has_prefix v prefix \<and>
     (case b64_decode (Strict RawURLEncoding) (drop (length prefix) v) of
        None \<Rightarrow> False
      | Some decoded \<Rightarrow> length decoded = byteLength)"

text \<open>Blank, tab, carriage return and line feed.\<close>

definition credential_spaces :: string where
  "credential_spaces = [CHR 0x20, CHR 0x09, CHR 0x0D, CHR 0x0A]"

definition bad_credential :: "string \<Rightarrow> bool" where
  "bad_credential v \<longleftrightarrow> v = [] \<or> trim_space v \<noteq> v \<or> contains_any v credential_spaces"

definition validateAliasCredentials :: "alias_credentials \<Rightarrow> secure_error option" where
  "validateAliasCredentials cr =
     (if list_ex bad_credential [cr_APIKey cr, cr_IMAPPassword cr, cr_ClientID cr, cr_RefreshToken cr]
        then Some IncompleteBundle
      else if \<not> validGeneratedToken (cr_APIKey cr) ''icm_'' 32 \<or>
              \<not> validGeneratedToken (cr_IMAPPassword cr) ''imp_'' 32 \<or>
              \<not> validGeneratedToken (cr_ClientID cr) ''icl_'' 18 \<or>
              \<not> validGeneratedToken (cr_RefreshToken cr) ''icr_'' 32
        then Some BadBundle
      else None)"

definition marshal_credentials :: "alias_credentials \<Rightarrow> string" where
  "marshal_credentials cr =
     ''{'' @ join '','' [json_field ''api_key'' (json_string (cr_APIKey cr)),
                       json_field ''imap_password'' (json_string (cr_IMAPPassword cr)),
                       json_field ''client_id'' (json_string (cr_ClientID cr)),
                       json_field ''refresh_token'' (json_string (cr_RefreshToken cr))] @ ''}''"

definition alias_aad :: "int \<Rightarrow> string" where
  "alias_aad aliasID = aliasCredentialsAAD @ format_int aliasID"

definition EncryptAliasCredentials ::
  "cipher \<Rightarrow> int \<Rightarrow> alias_credentials \<Rightarrow> entropy \<Rightarrow> secure_error + (string \<times> entropy)" where
  "EncryptAliasCredentials c aliasID cr r =
     (if aliasID < 1 then Inl BadAliasID
      else (case validateAliasCredentials cr of
              Some e \<Rightarrow> Inl e
            | None \<Rightarrow> encrypt c ''mc1'' (alias_aad aliasID) (marshal_credentials cr) r))"

definition DecryptAliasCredentials ::
  "(string \<Rightarrow> alias_credentials option) \<Rightarrow> cipher \<Rightarrow> int \<Rightarrow> string \<Rightarrow> secure_error + alias_credentials" where
  "DecryptAliasCredentials unmarshal c aliasID v =
     (if aliasID < 1 then Inl BadAliasID
      else (case decrypt c ''mc1'' (alias_aad aliasID) v of
              Inl e \<Rightarrow> Inl e
            | Inr payload \<Rightarrow>
                (case unmarshal payload of
                   None \<Rightarrow> Inl BadBundle
                 | Some cr \<Rightarrow>
                     (case validateAliasCredentials cr of Some e \<Rightarrow> Inl e | None \<Rightarrow> Inr cr))))"

definition NewAliasCredentials :: "entropy \<Rightarrow> secure_error + (alias_credentials \<times> entropy)" where
  "NewAliasCredentials r0 =
     (case RandomToken 32 r0 of Inl e \<Rightarrow> Inl e | Inr (apiKey, r1) \<Rightarrow>
     (case RandomToken 32 r1 of Inl e \<Rightarrow> Inl e | Inr (password, r2) \<Rightarrow>
     (case RandomToken 18 r2 of Inl e \<Rightarrow> Inl e | Inr (clientID, r3) \<Rightarrow>
     (case RandomToken 32 r3 of Inl e \<Rightarrow> Inl e | Inr (refreshToken, r4) \<Rightarrow>
        Inr (\<lparr>cr_APIKey = ''icm_'' @ apiKey, cr_IMAPPassword = ''imp_'' @ password,
              cr_ClientID = ''icl_'' @ clientID, cr_RefreshToken = ''icr_'' @ refreshToken\<rparr>, r4)))))"

definition material_of :: "alias_credentials \<Rightarrow> string \<Rightarrow> int \<Rightarrow> credential_material" where
  "material_of cr ciphertext version =
     \<lparr>cm_Ciphertext = ciphertext, cm_APIKeyHash = HashToken (cr_APIKey cr),
      cm_APIKeyPrefix = take 12 (cr_APIKey cr), cm_IMAPPasswordHash = HashToken (cr_IMAPPassword cr),
      cm_OAuthClientID = cr_ClientID cr, cm_RefreshTokenHash = HashToken (cr_RefreshToken cr),
      cm_Version = version\<rparr>"

definition NewAliasCredentialMaterial ::
  "cipher option \<Rightarrow> int \<Rightarrow> int \<Rightarrow> entropy \<Rightarrow> secure_error + (alias_credentials \<times> credential_material \<times> entropy)" where
  "NewAliasCredentialMaterial cp aliasID version0 r =
     (case cp of
        None \<Rightarrow> Inl NoCipher
      | Some c \<Rightarrow>
          (let version = (if version0 < 1 then 1 else version0) in
           case NewAliasCredentials r of
             Inl e \<Rightarrow> Inl e
           | Inr (cr, r1) \<Rightarrow>
               (case EncryptAliasCredentials c aliasID cr r1 of
                  Inl e \<Rightarrow> Inl e
                | Inr (ciphertext, r2) \<Rightarrow> Inr (cr, material_of cr ciphertext version, r2))))"

definition NewAliasCredentialMaterialWithAPIKey ::
  "cipher option \<Rightarrow> int \<Rightarrow> int \<Rightarrow> string \<Rightarrow> entropy \<Rightarrow>
     secure_error + (alias_credentials \<times> credential_material \<times> entropy)" where
  "NewAliasCredentialMaterialWithAPIKey cp aliasID version0 apiKey r =
     (case cp of
        None \<Rightarrow> Inl NoCipher
      | Some c \<Rightarrow>
          if \<not> validGeneratedToken apiKey ''icm_'' 32 then Inl BadAPIKey
          else (let version = (if version0 < 1 then 1 else version0) in
           case NewAliasCredentials r of
             Inl e \<Rightarrow> Inl e
           | Inr (cr0, r1) \<Rightarrow>
               (let cr = cr0\<lparr>cr_APIKey := apiKey\<rparr> in
                case EncryptAliasCredentials c aliasID cr r1 of
                  Inl e \<Rightarrow> Inl e
                | Inr (ciphertext, r2) \<Rightarrow> Inr (cr, material_of cr ciphertext version, r2))))"

subsection \<open>Decimal identifiers are injective\<close>

lemma dec_string_digits: "set (dec_string n) \<subseteq> char_of ` {48..57 :: nat}"
proof (induction n rule: dec_string.induct)
  case (1 n)
  show ?case
  proof (cases "n < 10")
    case False
    with "1.IH" show ?thesis by (subst dec_string.simps) (auto intro!: imageI)
  qed (subst dec_string.simps, auto intro!: imageI)
qed

definition dec_value :: "string \<Rightarrow> nat" where
  "dec_value s = foldl (\<lambda>a c. 10 * a + (byte_val c - 48)) 0 s"

lemma dec_value_string [simp]: "dec_value (dec_string n) = n"
proof (induction n rule: dec_string.induct)
  case (1 n)
  show ?case
  proof (cases "n < 10")
    case True
    then show ?thesis by (subst dec_string.simps) (simp add: dec_value_def)
  next
    case False
    have "48 + n mod 10 < 256" using mod_less_divisor [of 10 n] by linarith
    with False "1.IH" show ?thesis by (subst dec_string.simps) (simp add: dec_value_def)
  qed
qed

lemma format_int_inject: "0 \<le> i \<Longrightarrow> 0 \<le> j \<Longrightarrow> format_int i = format_int j \<longleftrightarrow> i = j"
  by (metis dec_value_string format_int_def int_nat_eq not_less)

lemma alias_aad_inject: "1 \<le> i \<Longrightarrow> 1 \<le> j \<Longrightarrow> alias_aad i = alias_aad j \<longleftrightarrow> i = j"
  by (simp add: alias_aad_def format_int_inject)

subsection \<open>Sealing and opening\<close>

definition aead_laws :: "aead \<Rightarrow> bool" where
  "aead_laws a \<longleftrightarrow>
     (\<forall>n p d. length (Seal a n p d) = length p + Overhead a \<and> Open a n (Seal a n p d) d = Some p) \<and>
     (\<forall>n x d p. Open a n x d = Some p \<longrightarrow> x = Seal a n p d)"

lemma aead_lawsD:
  assumes "aead_laws a"
  shows "length (Seal a n p d) = length p + Overhead a" "Open a n (Seal a n p d) d = Some p"
    "Open a n x d = Some p \<Longrightarrow> x = Seal a n p d"
  using assms unfolding aead_laws_def by blast+

lemma cut_append: "d \<notin> set v \<Longrightarrow> cut d (v @ d # s) = (v, s, True)"
  by (induction v) auto

lemma rand_readD: "rand_read n r = Inr (b, r') \<Longrightarrow> length b = n"
  by (auto simp: rand_read_def split: if_splits)

text \<open>What is sealed under one purpose opens under it, and under another one only on a tag collision.\<close>

lemma decrypt_sealed:
  assumes "encrypt c ver aad p r = Inr (v, r')" and "aead_laws (c_aead c)" and "CHR ''.'' \<notin> set ver"
  obtains nonce where "length nonce = NonceSize (c_aead c)"
    and "\<And>aad'. decrypt c ver aad' v =
       (case Open (c_aead c) nonce (Seal (c_aead c) nonce p aad) aad' of
          None \<Rightarrow> Inl OpenFailed | Some q \<Rightarrow> Inr q)"
proof -
  from assms(1) obtain nonce where n: "length nonce = NonceSize (c_aead c)"
    and v: "v = ver @ CHR ''.'' # b64_encode RawURLEncoding (nonce @ Seal (c_aead c) nonce p aad)"
    by (auto simp: encrypt_def split: sum.splits prod.splits dest: rand_readD)
  have "decrypt c ver aad' v =
       (case Open (c_aead c) nonce (Seal (c_aead c) nonce p aad) aad' of
          None \<Rightarrow> Inl OpenFailed | Some q \<Rightarrow> Inr q)" for aad'
    by (simp add: decrypt_def v cut_append [OF assms(3)] n aead_lawsD(1) [OF assms(2)])
  with n that show thesis by blast
qed

lemma decrypt_encrypt:
  assumes "encrypt c ver aad p r = Inr (v, r')" and "aead_laws (c_aead c)" and "CHR ''.'' \<notin> set ver"
  shows "decrypt c ver aad v = Inr p"
proof -
  from decrypt_sealed [OF assms] obtain nonce where
    "decrypt c ver aad v = (case Open (c_aead c) nonce (Seal (c_aead c) nonce p aad) aad of
          None \<Rightarrow> Inl OpenFailed | Some q \<Rightarrow> Inr q)" by metis
  then show ?thesis by (simp add: aead_lawsD(2) [OF assms(2)])
qed

text \<open>A collision of the AEAD: one ciphertext that is authentic under two associated data.\<close>

definition seal_collision :: "aead \<Rightarrow> string \<Rightarrow> string \<Rightarrow> bool" where
  "seal_collision a d d' \<longleftrightarrow> (\<exists>n p q. length n = NonceSize a \<and> Seal a n p d = Seal a n q d')"

lemma decrypt_other_row:
  assumes "encrypt c ver aad p r = Inr (v, r')" and "aead_laws (c_aead c)" and "CHR ''.'' \<notin> set ver"
    and "decrypt c ver aad' v = Inr q"
  shows "seal_collision (c_aead c) aad aad'"
proof -
  from decrypt_sealed [OF assms(1-3)] obtain nonce where n: "length nonce = NonceSize (c_aead c)"
    and "decrypt c ver aad' v = (case Open (c_aead c) nonce (Seal (c_aead c) nonce p aad) aad' of
          None \<Rightarrow> Inl OpenFailed | Some q \<Rightarrow> Inr q)" by metis
  with assms(4) have "Open (c_aead c) nonce (Seal (c_aead c) nonce p aad) aad' = Some q"
    by (simp split: option.splits)
  with n aead_lawsD(3) [OF assms(2)] show ?thesis unfolding seal_collision_def by blast
qed

subsection \<open>Generated tokens and bundles\<close>

lemma RandomToken_Inr:
  "RandomToken n r = Inr (s, r') \<longleftrightarrow> (\<exists>b. s = b64_encode RawURLEncoding b \<and> rand_read n r = Inr (b, r'))"
  by (auto simp: RandomToken_def split: sum.splits)

lemma valid_generated:
  assumes "length b = n"
  shows "validGeneratedToken (p @ b64_encode RawURLEncoding b) p n"
  using b64_roundtrip [of "Strict RawURLEncoding" b] assms
  by (simp add: validGeneratedToken_def has_prefix_def)

lemma good_credential:
  assumes "s \<noteq> []" and "ascii s" and "\<And>c. c \<in> set s \<Longrightarrow> \<not> is_space (byte_val c)"
  shows "\<not> bad_credential s"
proof -
  have "dropWhile space_byte s = s" "dropWhile space_byte (rev s) = rev s"
    using assms(3) by (auto intro!: dropWhile_none)
  with assms(2) have "trim_space s = s" by (simp add: trim_space_ascii)
  moreover have "c \<notin> set credential_spaces" if "c \<in> set s" for c
    using assms(3) [OF that] by (auto simp: credential_spaces_def is_space_def)
  then have "\<not> contains_any s credential_spaces" by (auto simp: contains_any_def list_ex_iff)
  ultimately show ?thesis using assms(1) by (simp add: bad_credential_def)
qed

lemma generated_credential:
  assumes "p \<noteq> []" "ascii p" "\<forall>c \<in> set p. \<not> is_space (byte_val c)"
  shows "\<not> bad_credential (p @ b64_encode RawURLEncoding b)"
  using assms b64_encode_nonspace by (intro good_credential) auto

lemma prefixes_plain:
  "p \<in> {''icm_'', ''imp_'', ''icl_'', ''icr_''} \<Longrightarrow> p \<noteq> [] \<and> ascii p \<and> (\<forall>c \<in> set p. \<not> is_space (byte_val c))"
  by (auto simp: is_space_def)

lemma generated_bundle_valid:
  assumes "NewAliasCredentials r = Inr (cr, r')"
  shows "validateAliasCredentials cr = None"
proof -
  from assms obtain k p i t where
    cr: "cr = \<lparr>cr_APIKey = ''icm_'' @ b64_encode RawURLEncoding k, cr_IMAPPassword = ''imp_'' @ b64_encode RawURLEncoding p,
          cr_ClientID = ''icl_'' @ b64_encode RawURLEncoding i, cr_RefreshToken = ''icr_'' @ b64_encode RawURLEncoding t\<rparr>"
    and len: "length k = 32" "length p = 32" "length i = 18" "length t = 32"
    by (auto simp: NewAliasCredentials_def RandomToken_Inr split: sum.splits prod.splits dest!: rand_readD)
  have g: "\<not> bad_credential (x @ b64_encode RawURLEncoding b)" if "x \<in> {''icm_'', ''imp_'', ''icl_'', ''icr_''}" for x b
    using prefixes_plain [OF that] by (intro generated_credential) auto
  show ?thesis
    unfolding validateAliasCredentials_def cr
    by (simp add: g valid_generated len del: append_Cons append_Nil)
qed

definition marshal_law :: "(string \<Rightarrow> alias_credentials option) \<Rightarrow> bool" where
  "marshal_law unmarshal \<longleftrightarrow>
     (\<forall>cr. validateAliasCredentials cr = None \<longrightarrow> unmarshal (marshal_credentials cr) = Some cr)"

lemma bundle_roundtrip:
  assumes "EncryptAliasCredentials c i cr r = Inr (v, r')" and "aead_laws (c_aead c)" and "marshal_law unmarshal"
  shows "DecryptAliasCredentials unmarshal c i v = Inr cr"
proof -
  from assms(1) have i: "\<not> i < 1" and ok: "validateAliasCredentials cr = None"
    and "encrypt c ''mc1'' (alias_aad i) (marshal_credentials cr) r = Inr (v, r')"
    by (auto simp: EncryptAliasCredentials_def split: if_splits option.splits)
  then have "decrypt c ''mc1'' (alias_aad i) v = Inr (marshal_credentials cr)"
    using assms(2) by (intro decrypt_encrypt) auto
  with i ok assms(3) show ?thesis by (simp add: DecryptAliasCredentials_def marshal_law_def)
qed

lemma bundle_other_row:
  assumes "EncryptAliasCredentials c i cr r = Inr (v, r')" and "aead_laws (c_aead c)"
    and "DecryptAliasCredentials unmarshal c j v = Inr cr'" and "i \<noteq> j"
  shows "seal_collision (c_aead c) (alias_aad i) (alias_aad j) \<and> alias_aad i \<noteq> alias_aad j"
proof -
  from assms(1) have i: "1 \<le> i" and enc: "encrypt c ''mc1'' (alias_aad i) (marshal_credentials cr) r = Inr (v, r')"
    by (auto simp: EncryptAliasCredentials_def split: if_splits option.splits)
  from assms(3) obtain q where j: "1 \<le> j" and dec: "decrypt c ''mc1'' (alias_aad j) v = Inr q"
    by (auto simp: DecryptAliasCredentials_def split: if_splits sum.splits)
  have "CHR ''.'' \<notin> set ''mc1''" by simp
  from decrypt_other_row [OF enc assms(2) this dec] alias_aad_inject [OF i j] assms(4) show ?thesis by simp
qed

lemma material_shape:
  assumes "NewAliasCredentialMaterial (Some c) i version r = Inr (cr, m, r')"
  obtains v r1 where "EncryptAliasCredentials c i cr r1 = Inr (v, r')"
    and "m = material_of cr v (if version < 1 then 1 else version)" and "validateAliasCredentials cr = None"
  using assms generated_bundle_valid
  by (auto simp: NewAliasCredentialMaterial_def Let_def split: sum.splits)

lemma with_key_shape:
  assumes "NewAliasCredentialMaterialWithAPIKey (Some c) i version key r = Inr (cr, m, r')"
  obtains v r1 where "EncryptAliasCredentials c i cr r1 = Inr (v, r')"
    and "m = material_of cr v (if version < 1 then 1 else version)" and "cr_APIKey cr = key"
  using assms
  by (auto simp: NewAliasCredentialMaterialWithAPIKey_def Let_def split: sum.splits if_splits)

text \<open>
  A lawful AEAD for the witnesses (it authenticates with HMAC and leaves the text in the clear), and
  an \<open>Unmarshal\<close> that reads the four fields, whose values contain neither quotes nor backslashes.
\<close>

definition demo_aead :: aead where
  "demo_aead = \<lparr>NonceSize = 12, Overhead = 32, Seal = \<lambda>n p d. p @ hmac_sha256 n (d @ p),
     Open = \<lambda>n x d. (let p = take (length x - 32) x in
       if 32 \<le> length x \<and> drop (length x - 32) x = hmac_sha256 n (d @ p) then Some p else None)\<rparr>"

lemma demo_aead_laws: "aead_laws demo_aead"
  by (auto simp: aead_laws_def demo_aead_def Let_def split: if_splits) (metis append_take_drop_id)

definition demo_sealer :: cipher where
  "demo_sealer = \<lparr>c_aead = demo_aead, directLinkKey = replicate 32 (CHR ''d''), accessTokenKey = replicate 32 (CHR ''a'')\<rparr>"

subsubsection \<open>A reader of marshalled bundles\<close>

definition plain_json_byte :: "byte \<Rightarrow> bool" where
  "plain_json_byte c \<longleftrightarrow> (let v = byte_val c in 32 \<le> v \<and> v < 128 \<and> v \<notin> {34, 92, 60, 62, 38})"

lemma json_chars_plain: "(\<And>c. c \<in> set s \<Longrightarrow> plain_json_byte c) \<Longrightarrow> json_chars s = s"
proof (induction s)
  case (Cons c s)
  have c: "byte_val c < 128" and j: "json_byte c = [c]"
    using Cons.prems [of c] by (auto simp: plain_json_byte_def json_byte_def Let_def)
  have "json_chars s = s" using Cons by simp
  with c j show ?case
    by (subst json_chars.simps) (simp add: decode_rune_ascii Let_def rune_error_def)
qed (simp add: json_chars.simps)

lemma b64_digit_json: "n < 64 \<Longrightarrow> plain_json_byte (b64_digit e n)"
  by (auto simp: b64_digit_def plain_json_byte_def Let_def)

lemma plain_json_eq [simp]: "plain_json_byte (CHR ''='')"
  by (simp add: plain_json_byte_def)

lemma b64_encode_json: "c \<in> set (b64_encode e s) \<Longrightarrow> plain_json_byte c"
  by (induction e s rule: b64_encode.induct) (auto simp: Let_def b64_digit_json split: if_splits)

lemma valid_token_plain:
  assumes "\<not> bad_credential v" and "validGeneratedToken v p n" and "\<forall>c \<in> set p. plain_json_byte c"
  shows "\<forall>c \<in> set v. plain_json_byte c"
proof -
  from assms(2) obtain u where pre: "take (length p) v = p"
    and dec: "b64_decode (Strict RawURLEncoding) (drop (length p) v) = Some u"
    by (auto simp: validGeneratedToken_def has_prefix_def split: option.splits)
  have "not_newline c" if "c \<in> set v" for c
    using assms(1) that
    by (auto simp: bad_credential_def contains_any_def credential_spaces_def list_ex_iff not_newline_def
        of_char_eq_iff [where 'a = nat, symmetric])
  then have "list_all not_newline (drop (length p) v)" by (auto simp: list_all_iff dest: in_set_dropD)
  from b64_canonical [OF dec _ this] have "drop (length p) v = b64_encode RawURLEncoding u" by simp
  with pre have "v = p @ b64_encode RawURLEncoding u" by (metis append_take_drop_id)
  with assms(3) b64_encode_json show ?thesis by auto
qed

definition read_bundle :: "string \<Rightarrow> alias_credentials option" where
  "read_bundle s =
     (let parts = split_on (CHR 0x22) s in
      if length parts = 17
      then Some \<lparr>cr_APIKey = parts ! 3, cr_IMAPPassword = parts ! 7, cr_ClientID = parts ! 11, cr_RefreshToken = parts ! 15\<rparr>
      else None)"

lemma split_on_append: "d \<notin> set a \<Longrightarrow> split_on d (a @ d # s) = a # split_on d s"
  by (induction a) auto

lemma json_string_plain: "\<forall>c \<in> set s. plain_json_byte c \<Longrightarrow> json_string s = CHR 0x22 # s @ [CHR 0x22]"
  by (simp add: json_string_def json_chars_plain)

lemma plain_no_quote: "\<forall>c \<in> set s. plain_json_byte c \<Longrightarrow> CHR 0x22 \<notin> set s"
  by (auto simp: plain_json_byte_def)

lemma read_bundle_law: "marshal_law read_bundle"
  unfolding marshal_law_def
proof (intro allI impI)
  fix cr :: alias_credentials
  assume ok: "validateAliasCredentials cr = None"
  have pl: "\<forall>c \<in> set p. plain_json_byte c" if "p \<in> {''icm_'', ''imp_'', ''icl_'', ''icr_''}" for p
    using that by (auto simp: plain_json_byte_def)
  have v: "\<forall>c \<in> set (cr_APIKey cr). plain_json_byte c" "\<forall>c \<in> set (cr_IMAPPassword cr). plain_json_byte c"
    "\<forall>c \<in> set (cr_ClientID cr). plain_json_byte c" "\<forall>c \<in> set (cr_RefreshToken cr). plain_json_byte c"
    using ok by (auto simp: validateAliasCredentials_def split: if_splits
        dest!: valid_token_plain [OF _ _ pl])
  have n: "\<forall>c \<in> set ''api_key''. plain_json_byte c" "\<forall>c \<in> set ''imap_password''. plain_json_byte c"
    "\<forall>c \<in> set ''client_id''. plain_json_byte c" "\<forall>c \<in> set ''refresh_token''. plain_json_byte c"
    by (auto simp: plain_json_byte_def)
  have "marshal_credentials cr =
      ''{'' @ CHR 0x22 # ''api_key'' @ CHR 0x22 # '':'' @ CHR 0x22 # cr_APIKey cr @ CHR 0x22 # '','' @
      CHR 0x22 # ''imap_password'' @ CHR 0x22 # '':'' @ CHR 0x22 # cr_IMAPPassword cr @ CHR 0x22 # '','' @
      CHR 0x22 # ''client_id'' @ CHR 0x22 # '':'' @ CHR 0x22 # cr_ClientID cr @ CHR 0x22 # '','' @
      CHR 0x22 # ''refresh_token'' @ CHR 0x22 # '':'' @ CHR 0x22 # cr_RefreshToken cr @ CHR 0x22 # ''}''"
    by (simp add: marshal_credentials_def json_field_def join_def json_string_plain v n)
  then show "read_bundle (marshal_credentials cr) = Some cr"
    by (simp add: read_bundle_def Let_def split_on_append plain_no_quote v n del: append_Cons append_Nil)
qed

subsubsection \<open>Issuing succeeds while there is entropy\<close>

lemma RandomToken_ok: "n \<le> length r \<Longrightarrow> RandomToken n r = Inr (b64_encode RawURLEncoding (take n r), drop n r)"
  by (simp add: RandomToken_def rand_read_def)

lemma NewAliasCredentials_ok:
  assumes "114 \<le> length r"
  obtains cr where "NewAliasCredentials r = Inr (cr, drop 114 r)"
  using assms by (auto simp: NewAliasCredentials_def RandomToken_ok)

lemma material_ok:
  assumes "114 + NonceSize (c_aead c) \<le> length r" and "1 \<le> i"
  obtains cr m r' where "NewAliasCredentialMaterial (Some c) i version r = Inr (cr, m, r')"
proof -
  from assms(1) obtain cr where cr: "NewAliasCredentials r = Inr (cr, drop 114 r)"
    using NewAliasCredentials_ok [of r] by auto
  then have "validateAliasCredentials cr = None" by (rule generated_bundle_valid)
  moreover have "\<not> length r - 114 < NonceSize (c_aead c)" using assms(1) by linarith
  ultimately show thesis using assms(2) cr that
    by (simp add: NewAliasCredentialMaterial_def EncryptAliasCredentials_def encrypt_def rand_read_def)
qed

text \<open>C30: The material issued for an alias is complete: its ciphertext opens for that alias to exactly
  the credentials that were handed out, its hashes and prefix are those of these credentials and its
  version is positive; for any other alias it opens only if the AEAD has a collision between the
  two aliases' distinct associated data.\<close>
theorem material_opens_only_its_row:
  assumes "NewAliasCredentialMaterial (Some c) i version r = Inr (cr, m, r')"
    and "aead_laws (c_aead c)" and "marshal_law unmarshal"
  shows "DecryptAliasCredentials unmarshal c i (cm_Ciphertext m) = Inr cr \<and>
    validateAliasCredentials cr = None \<and>
    cm_APIKeyHash m = HashToken (cr_APIKey cr) \<and> cm_IMAPPasswordHash m = HashToken (cr_IMAPPassword cr) \<and>
    cm_RefreshTokenHash m = HashToken (cr_RefreshToken cr) \<and> cm_OAuthClientID m = cr_ClientID cr \<and>
    cm_APIKeyPrefix m = take 12 (cr_APIKey cr) \<and> 1 \<le> cm_Version m \<and>
    (i \<noteq> j \<and> DecryptAliasCredentials unmarshal c j (cm_Ciphertext m) = Inr cr' \<longrightarrow>
       alias_aad i \<noteq> alias_aad j \<and> seal_collision (c_aead c) (alias_aad i) (alias_aad j))"
proof -
  from assms(1) obtain v r1 where enc: "EncryptAliasCredentials c i cr r1 = Inr (v, r')"
    and m: "m = material_of cr v (if version < 1 then 1 else version)" and ok: "validateAliasCredentials cr = None"
    by (rule material_shape)
  from bundle_roundtrip [OF enc assms(2,3)] bundle_other_row [OF enc assms(2)] m ok
  show ?thesis by (auto simp: material_of_def)
qed

theorem material_opens_only_its_row_witness:
  "\<exists>cr m r'. NewAliasCredentialMaterial (Some demo_sealer) 7 0 (replicate 126 (CHR ''e'')) = Inr (cr, m, r') \<and>
     DecryptAliasCredentials read_bundle demo_sealer 7 (cm_Ciphertext m) = Inr cr \<and> 1 \<le> cm_Version m"
proof -
  have laws: "aead_laws (c_aead demo_sealer)" and size: "NonceSize (c_aead demo_sealer) = 12"
    by (simp_all add: demo_sealer_def demo_aead_laws) (simp add: demo_aead_def)
  obtain cr m r' where "NewAliasCredentialMaterial (Some demo_sealer) 7 0 (replicate 126 (CHR ''e'')) = Inr (cr, m, r')"
    by (rule material_ok [of demo_sealer "replicate 126 (CHR ''e'')" 7 0]) (simp_all add: size)
  with material_opens_only_its_row [OF this laws read_bundle_law] show ?thesis by blast
qed

lemma NewAliasCredentials_Inl:
  assumes "NewAliasCredentials r = Inl e"
  shows "e = NoEntropy \<and> length r < 114"
proof
  show "e = NoEntropy"
    using assms by (auto simp: NewAliasCredentials_def RandomToken_def rand_read_def split: sum.splits if_splits)
  show "length r < 114"
    using assms NewAliasCredentials_ok [of r] by (metis not_less sum.distinct(1))
qed

text \<open>Issuing material fails only for a missing cipher, a non-positive alias ID or exhausted
  entropy: the generated credentials always pass their own validation.\<close>
theorem material_errors:
  assumes "NewAliasCredentialMaterial cp i version r = Inl e"
  shows "(e = NoCipher \<and> cp = None) \<or> (e = BadAliasID \<and> i < 1) \<or>
     (e = NoEntropy \<and> (\<exists>c. cp = Some c \<and> length r < 114 + NonceSize (c_aead c)))"
proof (cases cp)
  case None
  with assms show ?thesis by (simp add: NewAliasCredentialMaterial_def)
next
  case (Some c)
  show ?thesis
  proof (cases "NewAliasCredentials r")
    case (Inl e')
    with assms Some NewAliasCredentials_Inl [OF Inl] show ?thesis
      by (auto simp: NewAliasCredentialMaterial_def)
  next
    case (Inr x)
    then obtain cr r1 where x: "NewAliasCredentials r = Inr (cr, r1)" by (cases x) simp
    from generated_bundle_valid [OF x] have ok: "validateAliasCredentials cr = None" .
    have "length r1 = length r - 114"
      using x by (auto simp: NewAliasCredentials_def RandomToken_def rand_read_def split: sum.splits if_splits)
    with assms Some x ok show ?thesis
      by (auto simp: NewAliasCredentialMaterial_def EncryptAliasCredentials_def encrypt_def rand_read_def
          split: if_splits)
  qed
qed

theorem material_errors_witness:
  "\<exists>e. NewAliasCredentialMaterial (Some demo_sealer) 7 1 (replicate 100 (CHR ''e'')) = Inl e \<and> e = NoEntropy"
proof -
  have "length (replicate 100 (CHR ''e'')) = 100" by simp
  then obtain e where e: "NewAliasCredentialMaterial (Some demo_sealer) 7 1 (replicate 100 (CHR ''e'')) = Inl e"
    by (auto simp: NewAliasCredentialMaterial_def NewAliasCredentials_def RandomToken_def rand_read_def)
  with material_errors [OF e] show ?thesis by auto
qed

end
