(* ===== verification/StoreTables.thy ===== *)
theory StoreTables
  imports MailTables Admins SecureBundle
begin

section \<open>Accounts, aliases and what belongs to them (internal/store, internal/domain)\<close>

text \<open>
  The database behind the administrator's account and alias pages: the mail tables, and around them
  the mailbox groups, Apple web sessions, creation schedules, one-time API keys, the audit log and
  the administrators. An account row carries its \<open>account_mailbox_settings\<close> row in
  \<open>ac_MailboxType\<close> and \<open>ac_EmailSuffix\<close>. The columns that a query computes (\<open>ac_AliasCount\<close>,
  \<open>a_AccountEmail\<close>, \<open>a_GroupName\<close>, \<open>a_LatestReceivedAt\<close>) are filled by the scan functions. Every write is
  one transaction: it yields the result and the new database, or an error and the old one.
\<close>

subsection \<open>Domain values\<close>

definition AppleAliasConfirmationPending :: string where
  "AppleAliasConfirmationPending = ''APPLE_ALIAS_CONFIRMATION_PENDING''"
definition AppleAliasNotFound :: string where "AppleAliasNotFound = ''APPLE_ALIAS_NOT_FOUND''"
definition AppleAliasInactive :: string where "AppleAliasInactive = ''APPLE_ALIAS_INACTIVE''"

definition AliasCredentialModeLegacy :: string where "AliasCredentialModeLegacy = ''legacy''"
definition AliasCredentialModeV2 :: string where "AliasCredentialModeV2 = ''v2''"

definition MaxEnabledAliasesPerAccount :: nat where "MaxEnabledAliasesPerAccount = 1000"

record apple_session =
  aw_AccountID :: int
  aw_Ciphertext :: string
  aw_AppleID :: string
  aw_Region :: string
  aw_Authenticated :: bool
  aw_LastValidatedAt :: "time option"
  aw_CreatedAt :: time
  aw_UpdatedAt :: time

text \<open>The column \<open>planned_at_json\<close> is represented by the list of instants that its JSON array holds.\<close>

record creation_schedule =
  cs_AccountID :: int
  cs_Enabled :: bool
  cs_PlannedAt :: "time list"
  cs_NextRunAt :: "time option"
  cs_LastAttemptedAt :: "time option"
  cs_LastCreatedAt :: "time option"
  cs_LastAliasAddress :: string
  cs_LastError :: string
  cs_CreatedAt :: time
  cs_UpdatedAt :: time

record pending_key =
  pk_AliasID :: int
  pk_Ciphertext :: string
  pk_CreatedAt :: timestamp

record pending_alias_key =
  pa_Alias :: mail_alias
  pa_APIKeyCiphertext :: string
  pa_CreatedAt :: time

record group_row =
  mg_ID :: int
  mg_Name :: string
  mg_NameKey :: string
  mg_CreatedAt :: timestamp
  mg_UpdatedAt :: timestamp

record store_db =
  sb_mail :: mail_db
  sb_next_account :: int
  sb_next_alias :: int
  sb_next_group :: int
  sb_groups :: "group_row list"
  sb_apple :: "apple_session list"
  sb_schedules :: "creation_schedule list"
  sb_pending :: "pending_key list"
  sb_audit :: audit_db
  sb_admins :: admin_db

abbreviation sb_accounts :: "store_db \<Rightarrow> account list" where "sb_accounts db \<equiv> md_accounts (sb_mail db)"
abbreviation sb_aliases :: "store_db \<Rightarrow> mail_alias list" where "sb_aliases db \<equiv> md_aliases (sb_mail db)"

datatype store_error =
    StNotFound | StInvalid | StAliasLimit | StConfirmationPending | StCredentialMode | StOwnershipConflict
  | StIdentityConflict | StSuffixMismatch | StGroupNameRequired | StGroupNameTooLong | StGroupNameExists
  | StGroupNotFound | StIdentityLocked | StAccountDisabled | StCustomRequired | StICloudRequired
  | StAdminChanged | StAppleUnavailable | StUnconfigured | StIssuer | StPendingMismatch | StEntropy
  | StConstraint | StVersionExhausted | StCorrupt | StTxFailed | StArchive

subsection \<open>What an operation depends on besides the database\<close>

text \<open>
  The clock, which an operation reads as one instant; the credential issuers, each absent until it is
  configured and failing with \<open>None\<close>; and the random values: the hash that a new alias holds until
  its credentials are issued, by address, and the 32-bit numbers drawn for the UIDVALIDITY of an
  alias, by its id, where the end of the list is a failing read. \<open>en_fault\<close> makes the commit fail.
\<close>

record store_env =
  en_now :: time
  en_factory :: "(int \<Rightarrow> int \<Rightarrow> credential_material option) option"
  en_reuse :: "(int \<Rightarrow> int \<Rightarrow> string \<Rightarrow> credential_material option) option"
  en_reveal :: "(int \<Rightarrow> string \<Rightarrow> string option) option"
  en_pending_key :: "(int \<Rightarrow> string \<Rightarrow> string option) option"
  en_api_key :: "(int \<Rightarrow> int \<Rightarrow> string \<Rightarrow> string \<Rightarrow> credential_material option) option"
  en_provisional :: "string \<Rightarrow> string option"
  en_draws :: "int \<Rightarrow> int list"
  en_fault :: bool

definition stamp :: "store_env \<Rightarrow> timestamp" where
  "stamp env = to_timestamp (en_now env)"

subsection \<open>Transactions\<close>

definition commit :: "store_env \<Rightarrow> store_db \<Rightarrow> store_error + 'r \<times> store_db \<Rightarrow> (store_error + 'r) \<times> store_db" where
  "commit env db m =
     (case m of
        Inl e \<Rightarrow> (Inl e, db)
      | Inr (r, db') \<Rightarrow> if en_fault env then (Inl StTxFailed, db) else (Inr r, db'))"

lemma commit_Inr: "commit env db m = (Inr r, db') \<longleftrightarrow> m = Inr (r, db') \<and> \<not> en_fault env"
  by (auto simp: commit_def split: sum.splits prod.splits)

lemma commit_Inl: "commit env db m = (Inl e, db') \<Longrightarrow> db' = db"
  by (auto simp: commit_def split: sum.splits prod.splits if_splits)

text \<open>After a failure the database is the one before; after a success it is the transaction's.\<close>

lemma commit_cases:
  assumes "commit env db m = (res, db')"
  obtains (failed) e where "res = Inl e" and "db' = db"
  | (committed) r where "res = Inr r" and "m = Inr (r, db')" and "\<not> en_fault env"
  using assms that by (cases res) (auto simp: commit_Inr dest: commit_Inl)

definition require :: "bool \<Rightarrow> store_error \<Rightarrow> store_error + unit" where
  "require b e = (if b then Inr () else Inl e)"

lemma require_Inr [simp]: "require b e = Inr u \<longleftrightarrow> b"
  by (simp add: require_def)

definition of_option :: "store_error \<Rightarrow> 'a option \<Rightarrow> store_error + 'a" where
  "of_option e m = (case m of None \<Rightarrow> Inl e | Some x \<Rightarrow> Inr x)"

lemma of_option_Inr [simp]: "of_option e m = Inr x \<longleftrightarrow> m = Some x"
  by (simp add: of_option_def split: option.splits)

definition of_mail :: "mail_error + 'a \<Rightarrow> store_error + 'a" where
  "of_mail m =
     (case m of
        Inr x \<Rightarrow> Inr x
      | Inl e \<Rightarrow> Inl (if e = NotFound then StNotFound else if e = VersionExhausted then StVersionExhausted else StInvalid))"

lemma of_mail_Inr [simp]: "of_mail m = Inr x \<longleftrightarrow> m = Inr x"
  by (auto simp: of_mail_def split: sum.splits)

subsection \<open>Reading rows\<close>

definition alias_count :: "store_db \<Rightarrow> int \<Rightarrow> nat" where
  "alias_count db account = count_where (\<lambda>a. a_AccountID a = account) (sb_aliases db)"

definition scanAccount :: "store_db \<Rightarrow> account \<Rightarrow> account" where
  "scanAccount db r =
     (let t = NormalizeMailboxType (ac_MailboxType r) in
      r\<lparr>ac_AliasCount := int (alias_count db (ac_ID r)),
        ac_LastSyncedAt := map_option time_of_timestamp (ac_LastSyncedAt r),
        ac_CreatedAt := time_of_timestamp (ac_CreatedAt r), ac_UpdatedAt := time_of_timestamp (ac_UpdatedAt r),
        ac_MailboxType := t,
        ac_EmailSuffix := (if t = MailboxTypeCustom
          then (case NormalizeEmailSuffix (ac_EmailSuffix r) of None \<Rightarrow> ac_EmailSuffix r | Some s \<Rightarrow> s) else [])\<rparr>)"

definition GetAccount :: "store_db \<Rightarrow> int \<Rightarrow> store_error + account" where
  "GetAccount db i = (case find_by ac_ID i (sb_accounts db) of None \<Rightarrow> Inl StNotFound | Some r \<Rightarrow> Inr (scanAccount db r))"

text \<open>The instant of the newest archived message linked to an alias: the \<open>MAX\<close> subquery.\<close>

definition latest_received :: "mail_db \<Rightarrow> int \<Rightarrow> timestamp option" where
  "latest_received db i =
     (let dates = concat (map (\<lambda>l. if lk_alias_id l \<noteq> i then []
                    else (case find_by av_id (lk_message_id l) (md_archived db) of None \<Rightarrow> [] | Some m \<Rightarrow> [av_internal_date m]))
                  (md_links db)) in
      case dates of [] \<Rightarrow> None | d # ds \<Rightarrow> Some (fold max ds d))"

definition group_name :: "store_db \<Rightarrow> int option \<Rightarrow> string" where
  "group_name db g =
     (case g of None \<Rightarrow> [] | Some i \<Rightarrow> (case find_by mg_ID i (sb_groups db) of None \<Rightarrow> [] | Some r \<Rightarrow> mg_Name r))"

text \<open>\<open>aliasColumns\<close> and \<open>aliasJoins\<close>: the row joined with its account and its group.\<close>

definition join_alias :: "store_db \<Rightarrow> mail_alias \<Rightarrow> mail_alias option" where
  "join_alias db r =
     (case find_by ac_ID (a_AccountID r) (sb_accounts db) of
        None \<Rightarrow> None
      | Some a \<Rightarrow> Some (r\<lparr>a_AccountEmail := ac_Email a, a_GroupName := group_name db (a_GroupID r),
                           a_LatestReceivedAt := latest_received (sb_mail db) (a_ID r)\<rparr>))"

definition uid_state_ok :: "mail_alias \<Rightarrow> bool" where
  "uid_state_ok r \<longleftrightarrow> \<not> (a_MailboxUIDValidity r < 1 \<or> a_MailboxUIDValidity r > max_uint32 \<or>
     a_MailboxUIDNext r < 1 \<or> a_MailboxUIDNext r > max_uint32)"

definition scanAlias :: "mail_alias \<Rightarrow> store_error + mail_alias" where
  "scanAlias r =
     (if (case a_GroupID r of None \<Rightarrow> False | Some g \<Rightarrow> g < 1) then Inl StCorrupt
      else if \<not> uid_state_ok r then Inl StCorrupt
      else Inr (r\<lparr>a_LastSyncedAt := map_option time_of_timestamp (a_LastSyncedAt r),
             a_LastAccessedAt := map_option time_of_timestamp (a_LastAccessedAt r),
             a_CreatedAt := time_of_timestamp (a_CreatedAt r), a_UpdatedAt := time_of_timestamp (a_UpdatedAt r),
             a_LatestReceivedAt := map_option time_of_timestamp (a_LatestReceivedAt r)\<rparr>))"

definition joined_aliases :: "store_db \<Rightarrow> mail_alias list" where
  "joined_aliases db = concat (map (\<lambda>r. case join_alias db r of None \<Rightarrow> [] | Some j \<Rightarrow> [j]) (sb_aliases db))"

definition get_alias_where :: "store_db \<Rightarrow> (mail_alias \<Rightarrow> bool) \<Rightarrow> store_error + mail_alias" where
  "get_alias_where db P = (case find P (joined_aliases db) of None \<Rightarrow> Inl StNotFound | Some r \<Rightarrow> scanAlias r)"

definition GetAlias :: "store_db \<Rightarrow> int \<Rightarrow> store_error + mail_alias" where
  "GetAlias db i = get_alias_where db (\<lambda>r. a_ID r = i)"

text \<open>The address columns compare without regard to ASCII case.\<close>

definition getAliasByAddressTx :: "store_db \<Rightarrow> string \<Rightarrow> store_error + mail_alias" where
  "getAliasByAddressTx db address = get_alias_where db (\<lambda>r. nocase (a_Address r) = nocase address)"

definition GetAliasByAddress :: "store_db \<Rightarrow> string \<Rightarrow> store_error + mail_alias" where
  "GetAliasByAddress db address = getAliasByAddressTx db (NormalizeEmail (sanitizePostgresText address))"

definition GetAccountByEmail :: "store_db \<Rightarrow> string \<Rightarrow> store_error + account" where
  "GetAccountByEmail db email =
     (case find (\<lambda>r. nocase (ac_Email r) = nocase (NormalizeEmail (sanitizePostgresText email))) (sb_accounts db) of
        None \<Rightarrow> Inl StNotFound | Some r \<Rightarrow> Inr (scanAccount db r))"

subsection \<open>The state of an account's mailbox\<close>

record mailbox_state =
  ms_Enabled :: bool
  ms_MailboxType :: string
  ms_EmailSuffix :: string
  ms_Email :: string
  ms_IMAPUsername :: string

definition readAccountMailboxStateTx :: "store_db \<Rightarrow> int \<Rightarrow> store_error + mailbox_state" where
  "readAccountMailboxStateTx db account =
     (case find_by ac_ID account (sb_accounts db) of
        None \<Rightarrow> Inl StNotFound
      | Some a \<Rightarrow>
          (let t = NormalizeMailboxType (ac_MailboxType a);
               state = \<lparr>ms_Enabled = ac_Enabled a, ms_MailboxType = t, ms_EmailSuffix = [],
                        ms_Email = ac_Email a, ms_IMAPUsername = ac_IMAPUsername a\<rparr> in
           if t = MailboxTypeCustom
           then (case NormalizeEmailSuffix (ac_EmailSuffix a) of
                   None \<Rightarrow> Inl StInvalid | Some s \<Rightarrow> Inr (state\<lparr>ms_EmailSuffix := s\<rparr>))
           else Inr state))"

definition mailboxHasEnabledAliasLimit :: "string \<Rightarrow> bool" where
  "mailboxHasEnabledAliasLimit t \<longleftrightarrow> NormalizeMailboxType t \<noteq> MailboxTypeCustom"

text \<open>An alias that counts against the limit: it is enabled or reserved until Apple confirms it.\<close>

definition awaiting_confirmation :: "mail_alias \<Rightarrow> bool" where
  "awaiting_confirmation a \<longleftrightarrow> \<not> a_Enabled a \<and> a_LastSyncError a = AppleAliasConfirmationPending"

definition takes_capacity :: "int \<Rightarrow> mail_alias \<Rightarrow> bool" where
  "takes_capacity account a \<longleftrightarrow> a_AccountID a = account \<and> (a_Enabled a \<or> awaiting_confirmation a)"

definition capacity_used :: "store_db \<Rightarrow> int \<Rightarrow> nat" where
  "capacity_used db account = count_where (takes_capacity account) (sb_aliases db)"

definition requireEnabledAliasCapacity :: "store_db \<Rightarrow> int \<Rightarrow> store_error + unit" where
  "requireEnabledAliasCapacity db account =
     bind_res (readAccountMailboxStateTx db account) (\<lambda>state.
       if \<not> mailboxHasEnabledAliasLimit (ms_MailboxType state) then Inr ()
       else require (capacity_used db account < MaxEnabledAliasesPerAccount) StAliasLimit)"

subsection \<open>Shared statements\<close>

definition set_aliases :: "(mail_alias list \<Rightarrow> mail_alias list) \<Rightarrow> store_db \<Rightarrow> store_db" where
  "set_aliases f db = db\<lparr>sb_mail := (sb_mail db)\<lparr>md_aliases := f (sb_aliases db)\<rparr>\<rparr>"

definition set_accounts :: "(account list \<Rightarrow> account list) \<Rightarrow> store_db \<Rightarrow> store_db" where
  "set_accounts f db = db\<lparr>sb_mail := (sb_mail db)\<lparr>md_accounts := f (sb_accounts db)\<rparr>\<rparr>"

definition reset_cursor :: "int \<Rightarrow> store_db \<Rightarrow> store_db" where
  "reset_cursor account db = db\<lparr>sb_mail := (sb_mail db)\<lparr>md_sync := delete_where (\<lambda>s. ss_AccountID s = account) (md_sync (sb_mail db))\<rparr>\<rparr>"

definition lockAccount :: "store_db \<Rightarrow> int \<Rightarrow> store_error + timestamp" where
  "lockAccount db account = of_mail (lockAccountVersionForUpdate (sb_mail db) account)"

definition nextVersion :: "store_env \<Rightarrow> timestamp \<Rightarrow> store_error + timestamp" where
  "nextVersion env current = of_mail (nextAccountVersion (en_now env) current)"

definition bumpAccountVersionTx :: "store_env \<Rightarrow> int \<Rightarrow> timestamp \<Rightarrow> store_db \<Rightarrow> store_error + store_db" where
  "bumpAccountVersionTx env account current db =
     bind_res (nextVersion env current) (\<lambda>version.
       if list_ex (\<lambda>a. ac_ID a = account \<and> ac_UpdatedAt a = current) (sb_accounts db)
       then Inr (set_accounts (update_where (\<lambda>a. ac_ID a = account \<and> ac_UpdatedAt a = current)
              (\<lambda>a. a\<lparr>ac_UpdatedAt := version\<rparr>)) db)
       else Inl StNotFound)"

text \<open>Deleting alias rows, with the rows that \<open>ON DELETE CASCADE\<close> removes.\<close>

definition delete_aliases :: "(mail_alias \<Rightarrow> bool) \<Rightarrow> store_db \<Rightarrow> store_db" where
  "delete_aliases P db =
     (let gone = map a_ID (filter P (sb_aliases db)); m = sb_mail db in
      db\<lparr>sb_mail := m\<lparr>md_aliases := delete_where P (md_aliases m),
           md_links := delete_where (\<lambda>l. lk_alias_id l \<in> set gone) (md_links m),
           md_latest := delete_where (\<lambda>r. lm_AliasID r \<in> set gone) (md_latest m),
           md_consumed := delete_where (\<lambda>c. cn_alias_id c \<in> set gone) (md_consumed m)\<rparr>,
         sb_pending := delete_where (\<lambda>p. pk_AliasID p \<in> set gone) (sb_pending db)\<rparr>)"

definition isAppleDirectoryUnavailable :: "string \<Rightarrow> bool" where
  "isAppleDirectoryUnavailable e \<longleftrightarrow> e = AppleAliasNotFound \<or> e = AppleAliasInactive"

definition lockMailGroupForMove :: "store_db \<Rightarrow> int \<Rightarrow> store_error + unit" where
  "lockMailGroupForMove db g = require (find_by mg_ID g (sb_groups db) \<noteq> None) StGroupNotFound"

definition nullableTimestamp :: "time option \<Rightarrow> timestamp option" where
  "nullableTimestamp t = map_option to_timestamp t"

end
