(* ===== verification/DeletionJob.thy ===== *)
theory DeletionJob
  imports Admins
begin

section \<open>Deletion jobs (internal/store/alias_deletion_job.go)\<close>

text \<open>
  A job is one administrator's subscription to the deletion of a list of aliases. Its row holds a
  progress snapshot; a job of the queue (version one) also has a metadata row with the password
  version that authorised it. The work records, their subscriptions and the audit log live in the
  same database, so the record \<open>deletion_db\<close> has all the tables; DeletionQueue adds the operations
  on work. The item list is stored as JSON text by the code and as the list itself here.
\<close>

subsection \<open>Values\<close>

datatype work_status =
    WsPending
  | WsRunning
  | WsWaiting
  | WsPaused
  | WsSucceeded
  | WsFailed
  | WsCancelled
  | WsOther string

definition AliasDeletionJobQueued :: string where "AliasDeletionJobQueued = ''queued''"
definition AliasDeletionJobRunning :: string where "AliasDeletionJobRunning = ''running''"
definition AliasDeletionJobCompleted :: string where "AliasDeletionJobCompleted = ''completed''"
definition AliasDeletionJobInterrupted :: string where "AliasDeletionJobInterrupted = ''interrupted''"

lemmas job_status_defs =
  AliasDeletionJobQueued_def AliasDeletionJobRunning_def AliasDeletionJobCompleted_def
  AliasDeletionJobInterrupted_def

record job_item =
  it_ID :: int
  it_Address :: string
  it_Done :: bool
  it_Deleted :: bool
  it_Code :: string
  it_Message :: string
  it_LocalRetained :: bool
  it_AccountID :: int
  it_AccountEmail :: string
  it_AppleSubject :: string
  it_WorkID :: string
  it_State :: work_status
  it_RetryAt :: time
  it_WaitReason :: string
  it_Used :: int
  it_Limit :: int
  it_Operation :: string
  it_HTTPStatus :: int
  it_ServiceCode :: string

record deletion_job =
  jb_ID :: string
  jb_AdminID :: int
  jb_RequestID :: string
  jb_Status :: string
  jb_Items :: "job_item list"
  jb_CreatedAt :: time
  jb_UpdatedAt :: time
  jb_QueueVersion :: int
  jb_PasswordVersion :: int
  jb_Username :: string
  jb_IP :: string
  jb_CancelRequested :: bool

record deletion_work =
  dw_ID :: string
  dw_Sequence :: int
  dw_AccountID :: int
  dw_AliasID :: int
  dw_Address :: string
  dw_AccountEmail :: string
  dw_AppleID :: string
  dw_AppleSubject :: string
  dw_Status :: work_status
  dw_ClaimToken :: string
  dw_Reconcile :: bool
  dw_NextRunAt :: time
  dw_WaitReason :: string
  dw_Operation :: string
  dw_Used :: int
  dw_Limit :: int
  dw_Attempts :: int
  dw_HTTPStatus :: int
  dw_ServiceCode :: string
  dw_Deleted :: bool
  dw_Code :: string
  dw_Message :: string
  dw_LocalRetained :: bool
  dw_CreatedAt :: time
  dw_UpdatedAt :: time

subsection \<open>Tables\<close>

text \<open>A job row has the metadata columns unset; \<open>jb_QueueVersion\<close> and the rest come from the join.\<close>

record job_row =
  jr_ID :: string
  jr_AdminID :: int
  jr_RequestID :: string
  jr_Status :: string
  jr_Items :: "job_item list"
  jr_CreatedAt :: timestamp
  jr_UpdatedAt :: timestamp

record meta_row =
  mt_AdminID :: int
  mt_JobID :: string
  mt_QueueVersion :: int
  mt_PasswordVersion :: int
  mt_Username :: string
  mt_IP :: string
  mt_Cancel :: bool

record link_row =
  lk_AdminID :: int
  lk_JobID :: string
  lk_AliasID :: int
  lk_WorkID :: string
  lk_Active :: bool
  lk_Audited :: bool

record clearance_row =
  cl_AdminID :: int
  cl_JobID :: string
  cl_ClearedAt :: timestamp

record deletion_db =
  dd_admins :: admin_db
  dd_sequence :: int
  dd_jobs :: "job_row list"
  dd_metas :: "meta_row list"
  dd_works :: "deletion_work list"
  dd_links :: "link_row list"
  dd_clearances :: "clearance_row list"
  dd_audit :: audit_db

definition jr_key :: "job_row \<Rightarrow> int \<times> string" where "jr_key r = (jr_AdminID r, jr_ID r)"
definition mt_key :: "meta_row \<Rightarrow> int \<times> string" where "mt_key r = (mt_AdminID r, mt_JobID r)"
definition lk_key :: "link_row \<Rightarrow> int \<times> string \<times> int" where
  "lk_key r = (lk_AdminID r, lk_JobID r, lk_AliasID r)"
definition lk_job :: "link_row \<Rightarrow> int \<times> string" where "lk_job r = (lk_AdminID r, lk_JobID r)"
definition cl_key :: "clearance_row \<Rightarrow> int \<times> string" where "cl_key r = (cl_AdminID r, cl_JobID r)"

datatype job_error =
    JobIDInvalid
  | AdminIDInvalid
  | JobStatusInvalid
  | ItemCountInvalid
  | ItemIDInvalid nat
  | ItemDuplicate nat
  | ItemAddressTooLong nat
  | JobNotFound
  | JobConflict
  | JobCredentialsChanged
  | DuplicateTarget
  | MissingTarget int
  | RandomFailed
  | WorkStatusInvalid
  | WorkMissing
  | OwnerMissing

subsection \<open>Normalising a job\<close>

definition maxAliasDeletionJobItems :: nat where "maxAliasDeletionJobItems = 1000"

definition normalize_item :: "job_item \<Rightarrow> job_item" where
  "normalize_item it = it\<lparr>it_Address := trim_space (sanitizePostgresText (it_Address it)),
     it_Code := truncate_text (trim_space (it_Code it)) 64,
     it_Message := truncate_text (trim_space (it_Message it)) 1024\<rparr>"

text \<open>The item loop: \<open>seen\<close> are the alias IDs of the items before.\<close>

fun normalize_items :: "nat \<Rightarrow> int list \<Rightarrow> job_item list \<Rightarrow> job_error + job_item list" where
  "normalize_items k seen [] = Inr []"
| "normalize_items k seen (it # its) =
     (if it_ID it < 1 then Inl (ItemIDInvalid k)
      else if it_ID it \<in> set seen then Inl (ItemDuplicate k)
      else if rune_count (it_Address (normalize_item it)) > 320 then Inl (ItemAddressTooLong k)
      else bind_res (normalize_items (Suc k) (it_ID it # seen) its)
             (\<lambda>rest. Inr (normalize_item it # rest)))"

definition job_id_ok :: "string \<Rightarrow> bool" where
  "job_id_ok s \<longleftrightarrow> s \<noteq> [] \<and> valid_utf8 s \<and> CHR 0x00 \<notin> set s \<and> rune_count s \<le> 128"

definition job_status_ok :: "string \<Rightarrow> bool" where
  "job_status_ok s \<longleftrightarrow> s \<in> {AliasDeletionJobQueued, AliasDeletionJobRunning,
     AliasDeletionJobCompleted, AliasDeletionJobInterrupted}"

definition normalizeAliasDeletionJob :: "deletion_job \<Rightarrow> job_error + deletion_job" where
  "normalizeAliasDeletionJob job0 =
     (let job = job0\<lparr>jb_ID := trim_space (jb_ID job0),
            jb_RequestID := truncate_text (trim_space (jb_RequestID job0)) 128,
            jb_Status := trim_space (jb_Status job0)\<rparr> in
      if \<not> job_id_ok (jb_ID job) then Inl JobIDInvalid
      else if jb_AdminID job < 1 then Inl AdminIDInvalid
      else if \<not> job_status_ok (jb_Status job) then Inl JobStatusInvalid
      else if length (jb_Items job) < 1 \<or> length (jb_Items job) > maxAliasDeletionJobItems
        then Inl ItemCountInvalid
      else bind_res (normalize_items 0 [] (jb_Items job)) (\<lambda>items. Inr (job\<lparr>jb_Items := items\<rparr>)))"

subsection \<open>Reading\<close>

definition job_of_row :: "job_row \<Rightarrow> deletion_job" where
  "job_of_row r = \<lparr>jb_ID = jr_ID r, jb_AdminID = jr_AdminID r, jb_RequestID = jr_RequestID r,
     jb_Status = jr_Status r, jb_Items = jr_Items r, jb_CreatedAt = time_of_timestamp (jr_CreatedAt r),
     jb_UpdatedAt = time_of_timestamp (jr_UpdatedAt r), jb_QueueVersion = 0, jb_PasswordVersion = 0,
     jb_Username = [], jb_IP = [], jb_CancelRequested = False\<rparr>"

definition hydrateDeletionJobMetadata :: "deletion_db \<Rightarrow> deletion_job \<Rightarrow> deletion_job" where
  "hydrateDeletionJobMetadata db job =
     (case find_by mt_key (jb_AdminID job, jb_ID job) (dd_metas db) of
        None \<Rightarrow> job
      | Some m \<Rightarrow> job\<lparr>jb_QueueVersion := mt_QueueVersion m, jb_PasswordVersion := mt_PasswordVersion m,
                       jb_Username := mt_Username m, jb_IP := mt_IP m, jb_CancelRequested := mt_Cancel m\<rparr>)"

definition getDeletionJobTx :: "deletion_db \<Rightarrow> string \<Rightarrow> int \<Rightarrow> deletion_job option" where
  "getDeletionJobTx db i admin =
     map_option (\<lambda>r. hydrateDeletionJobMetadata db (job_of_row r)) (find_by jr_key (admin, i) (dd_jobs db))"

definition GetAliasDeletionJob :: "deletion_db \<Rightarrow> string \<Rightarrow> int \<Rightarrow> job_error + deletion_job" where
  "GetAliasDeletionJob db i admin =
     (case getDeletionJobTx db (trim_space i) admin of None \<Rightarrow> Inl JobNotFound | Some j \<Rightarrow> Inr j)"

definition cleared :: "deletion_db \<Rightarrow> job_row \<Rightarrow> bool" where
  "cleared db r \<longleftrightarrow> find_by cl_key (jr_key r) (dd_clearances db) \<noteq> None"

text \<open>\<open>ORDER BY created_at DESC, id DESC\<close>.\<close>

definition newest_jobs :: "job_row list \<Rightarrow> job_row list" where
  "newest_jobs rows = rev (sort_key (\<lambda>r. (jr_CreatedAt r, jr_ID r)) rows)"

definition first_job :: "deletion_db \<Rightarrow> job_row list \<Rightarrow> job_error + deletion_job" where
  "first_job db rows =
     (case newest_jobs rows of
        [] \<Rightarrow> Inl JobNotFound | r # _ \<Rightarrow> Inr (hydrateDeletionJobMetadata db (job_of_row r)))"

definition GetLatestAliasDeletionJob :: "deletion_db \<Rightarrow> int \<Rightarrow> job_error + deletion_job" where
  "GetLatestAliasDeletionJob db admin =
     first_job db (filter (\<lambda>r. jr_AdminID r = admin \<and> \<not> cleared db r) (dd_jobs db))"

definition job_active :: "string \<Rightarrow> bool" where
  "job_active s \<longleftrightarrow> s = AliasDeletionJobQueued \<or> s = AliasDeletionJobRunning"

definition GetActiveAliasDeletionJob :: "deletion_db \<Rightarrow> int \<Rightarrow> job_error + deletion_job" where
  "GetActiveAliasDeletionJob db admin =
     first_job db (filter (\<lambda>r. jr_AdminID r = admin \<and> job_active (jr_Status r)) (dd_jobs db))"

definition ListAliasDeletionJobs :: "deletion_db \<Rightarrow> int \<Rightarrow> int \<Rightarrow> deletion_job list" where
  "ListAliasDeletionJobs db admin limit0 =
     (let limit1 = (if limit0 < 1 then 20 else limit0);
          limit = (if limit1 > 1000 then 1000 else limit1);
          history = take (nat limit) (newest_jobs (filter (\<lambda>r. jr_AdminID r = admin \<and>
             jr_Status r \<in> {AliasDeletionJobCompleted, AliasDeletionJobInterrupted} \<and> \<not> cleared db r)
             (dd_jobs db)))
      in map (\<lambda>r. hydrateDeletionJobMetadata db (job_of_row r))
           (newest_jobs (filter (\<lambda>r. jr_AdminID r = admin \<and>
              (job_active (jr_Status r) \<or> jr_ID r \<in> set (map jr_ID history))) (dd_jobs db))))"

subsection \<open>Writing\<close>

definition queue_versioned :: "deletion_db \<Rightarrow> job_row \<Rightarrow> bool" where
  "queue_versioned db r \<longleftrightarrow>
     (case find_by mt_key (jr_key r) (dd_metas db) of None \<Rightarrow> False | Some m \<Rightarrow> mt_QueueVersion m = 1)"

definition row_of_job :: "deletion_job \<Rightarrow> job_item list \<Rightarrow> job_row" where
  "row_of_job job items = \<lparr>jr_ID = jb_ID job, jr_AdminID = jb_AdminID job, jr_RequestID = jb_RequestID job,
     jr_Status = jb_Status job, jr_Items = items, jr_CreatedAt = to_timestamp (jb_CreatedAt job),
     jr_UpdatedAt = to_timestamp (jb_UpdatedAt job)\<rparr>"

text \<open>The insert fails on a duplicate key and on a missing owner (foreign key).\<close>

definition insert_job_row :: "job_row \<Rightarrow> deletion_db \<Rightarrow> job_error + deletion_db" where
  "insert_job_row row db =
     (if find_by jr_key (jr_key row) (dd_jobs db) \<noteq> None then Inl JobConflict
      else if find_admin (dd_admins db) (jr_AdminID row) = None then Inl OwnerMissing
      else Inr (db\<lparr>dd_jobs := dd_jobs db @ [row]\<rparr>))"

definition CreateAliasDeletionJob :: "deletion_db \<Rightarrow> deletion_job \<Rightarrow> time \<Rightarrow> job_error + deletion_db" where
  "CreateAliasDeletionJob db job0 now =
     (let job1 = (if trim_space (jb_Status job0) = [] then job0\<lparr>jb_Status := AliasDeletionJobQueued\<rparr> else job0) in
      bind_res (normalizeAliasDeletionJob job1) (\<lambda>job2.
        let job3 = (if is_zero_time (jb_CreatedAt job2) then job2\<lparr>jb_CreatedAt := now\<rparr> else job2);
            job = (if is_zero_time (jb_UpdatedAt job3) then job3\<lparr>jb_UpdatedAt := jb_CreatedAt job3\<rparr> else job3)
        in insert_job_row (row_of_job job (jb_Items job)) db))"

definition ClearCompletedAliasDeletionJobs ::
  "deletion_db \<Rightarrow> int \<Rightarrow> time \<Rightarrow> (nat \<times> string list) \<times> deletion_db" where
  "ClearCompletedAliasDeletionJobs db admin now =
     (let fresh = filter (\<lambda>r. jr_AdminID r = admin \<and> jr_Status r = AliasDeletionJobCompleted \<and> \<not> cleared db r)
            (dd_jobs db);
          rows = dd_clearances db @
            map (\<lambda>r. \<lparr>cl_AdminID = jr_AdminID r, cl_JobID = jr_ID r, cl_ClearedAt = to_timestamp now\<rparr>) fresh
      in ((length fresh, sort (map cl_JobID (filter (\<lambda>c. cl_AdminID c = admin) rows))),
          db\<lparr>dd_clearances := rows\<rparr>))"

definition SaveAliasDeletionJob ::
  "deletion_db \<Rightarrow> deletion_job \<Rightarrow> audit_log option \<Rightarrow> time \<Rightarrow> job_error + deletion_db" where
  "SaveAliasDeletionJob db job0 audit now =
     bind_res (normalizeAliasDeletionJob job0) (\<lambda>job1.
       let job = (if is_zero_time (jb_UpdatedAt job1) then job1\<lparr>jb_UpdatedAt := now\<rparr> else job1);
           hit = (\<lambda>r. jr_key r = (jb_AdminID job, jb_ID job) \<and> job_active (jr_Status r) \<and> \<not> queue_versioned db r)
       in if \<not> list_ex hit (dd_jobs db) then
            (if find_by jr_key (jb_AdminID job, jb_ID job) (dd_jobs db) = None then Inl JobNotFound
             else Inl JobConflict)
          else
            (let db' = db\<lparr>dd_jobs := update_where hit
               (\<lambda>r. r\<lparr>jr_Items := jb_Items job, jr_Status := jb_Status job,
                      jr_UpdatedAt := to_timestamp (jb_UpdatedAt job)\<rparr>) (dd_jobs db)\<rparr>
             in Inr (case audit of
                       None \<Rightarrow> db'
                     | Some a \<Rightarrow> db'\<lparr>dd_audit := snd (insertAuditLog (dd_audit db') a now)\<rparr>)))"

definition interrupt_legacy_jobs :: "deletion_db \<Rightarrow> time \<Rightarrow> deletion_db" where
  "interrupt_legacy_jobs db now =
     db\<lparr>dd_jobs := update_where (\<lambda>r. job_active (jr_Status r) \<and> \<not> queue_versioned db r)
          (\<lambda>r. r\<lparr>jr_Status := AliasDeletionJobInterrupted, jr_UpdatedAt := to_timestamp now\<rparr>) (dd_jobs db)\<rparr>"

definition InterruptAliasDeletionJobs :: "deletion_db \<Rightarrow> time \<Rightarrow> deletion_db" where
  "InterruptAliasDeletionJobs db now = interrupt_legacy_jobs db now"

end
