(* ===== verification/DeletionAttempt.thy ===== *)
theory DeletionAttempt
  imports StoreTables DeletionLease DeletionJob
begin

section \<open>One deletion attempt (internal/hmesync/alias\_delete\_batch.go, alias\_delete\_queue.go)\<close>

text \<open>
  The worker side of a deletion: one attempt authenticates, reads Apple's directory, reserves an
  allowance, deactivates the address, deletes it and removes the local row. These are the attempts of
  \<open>DeleteQueuedAlias\<close> and \<open>DeleteAlias\<close>, in which \<open>b.recovery\<close> is nil: no throttle is waited out, and a
  method is not re-entered.

  What an attempt meets outside of itself is the environment: the answers of the store, of Apple and of the
  locks, each as a function of the number of the call, so that anything may change between two calls.
  The allowance is the repository of \<open>DeletionLease\<close>. A context is cancelled or past its deadline at the
  calls for which \<open>en_cancelled\<close> says so. The history \<open>b_trace\<close> records what the attempt did; no operation
  reads it.
\<close>

subsection \<open>Errors\<close>

text \<open>The kinds of coded errors that occur here; a code and its sentinel go together.\<close>

datatype sync_kind =
    KLoginRequired | KSessionExpired | KCredentialsInvalid | KVerificationInvalid | KAccountActionRequired
  | KRateLimited | KUpstream | KConfirmationPending | KAccountMismatch | KAccountChanged

datatype attempt_error =
    Coded sync_kind "attempt_error option"
  | Remote go_error
  | WaitErr wait_error "go_error option"
  | Joined "attempt_error list"
  | QuotaErr quota_error
  | NotFoundErr
  | ContextErr
  | OtherErr string

text \<open>\<open>errors.Is\<close> for the sentinel of a code, and for \<open>store.ErrNotFound\<close>; a wait unwraps to the code of a throttle.\<close>

fun is_kind :: "sync_kind \<Rightarrow> attempt_error \<Rightarrow> bool" where
  "is_kind k (Coded k' cause) \<longleftrightarrow> k = k' \<or> (case cause of None \<Rightarrow> False | Some e \<Rightarrow> is_kind k e)"
| "is_kind k (WaitErr w cause) \<longleftrightarrow> k = KRateLimited"
| "is_kind k (Joined es) \<longleftrightarrow> list_ex (\<lambda>b. b) (map (is_kind k) es)"
| "is_kind k _ \<longleftrightarrow> False"

fun is_not_found :: "attempt_error \<Rightarrow> bool" where
  "is_not_found NotFoundErr \<longleftrightarrow> True"
| "is_not_found (Coded k cause) \<longleftrightarrow> (case cause of None \<Rightarrow> False | Some e \<Rightarrow> is_not_found e)"
| "is_not_found (Joined es) \<longleftrightarrow> list_ex (\<lambda>b. b) (map is_not_found es)"
| "is_not_found _ \<longleftrightarrow> False"

fun as_wait :: "attempt_error \<Rightarrow> wait_error option" where
  "as_wait (WaitErr w cause) = Some w"
| "as_wait (Coded k cause) = (case cause of None \<Rightarrow> None | Some e \<Rightarrow> as_wait e)"
| "as_wait (Joined es) = (case dropWhile (\<lambda>r. r = None) (map as_wait es) of [] \<Rightarrow> None | r # _ \<Rightarrow> r)"
| "as_wait _ = None"

text \<open>\<open>errors.Is\<close> on the errors of the Apple client; the two context errors are leaves with their texts.\<close>

fun go_is :: "apple_kind \<Rightarrow> go_error \<Rightarrow> bool" where
  "go_is k (AppleErr a cause) \<longleftrightarrow> ae_Kind a = Some k \<or> (case cause of None \<Rightarrow> False | Some e \<Rightarrow> go_is k e)"
| "go_is k (WrapErr _ e) \<longleftrightarrow> go_is k e"
| "go_is k (JoinErr es) \<longleftrightarrow> list_ex (\<lambda>b. b) (map (go_is k) es)"
| "go_is k (KindErr k') \<longleftrightarrow> k = k'"
| "go_is k (PlainErr _) \<longleftrightarrow> False"

fun go_is_context :: "go_error \<Rightarrow> bool" where
  "go_is_context (AppleErr a cause) \<longleftrightarrow> (case cause of None \<Rightarrow> False | Some e \<Rightarrow> go_is_context e)"
| "go_is_context (WrapErr _ e) \<longleftrightarrow> go_is_context e"
| "go_is_context (JoinErr es) \<longleftrightarrow> list_ex (\<lambda>b. b) (map go_is_context es)"
| "go_is_context (KindErr _) \<longleftrightarrow> False"
| "go_is_context (PlainErr s) \<longleftrightarrow> s = ''context canceled'' \<or> s = ''context deadline exceeded''"

definition wrap_remote :: "sync_kind \<Rightarrow> go_error \<Rightarrow> attempt_error" where
  "wrap_remote k e = Coded k (Some (Remote e))"

definition mapAppleError :: "go_error \<Rightarrow> bool \<Rightarrow> attempt_error" where
  "mapAppleError e duringVerification =
     (if go_is_context e then Remote e
      else if go_is ErrInvalidSession e then wrap_remote KSessionExpired e
      else if go_is ErrAuthentication e \<and> duringVerification then wrap_remote KVerificationInvalid e
      else if go_is ErrAuthentication e then wrap_remote KCredentialsInvalid e
      else if go_is ErrTwoFactorCode e then wrap_remote KVerificationInvalid e
      else if go_is ErrTermsRequired e then wrap_remote KAccountActionRequired e
      else if IsRateLimited e then wrap_remote KRateLimited e
      else wrap_remote KUpstream e)"

subsection \<open>Apple's side\<close>

text \<open>The fields that no operation here reads are kept together in \<open>as_Other\<close> and \<open>ra_Other\<close>.\<close>

record apple_state =
  as_Region :: string
  as_AppleID :: string
  as_DSID :: string
  as_PremiumMailSettingsURL :: string
  as_SessionToken :: string
  as_Cookies :: "string list"
  as_ValidatedAt :: time
  as_Other :: "string list"

definition no_state :: apple_state where
  "no_state = \<lparr>as_Region = [], as_AppleID = [], as_DSID = [], as_PremiumMailSettingsURL = [], as_SessionToken = [],
     as_Cookies = [], as_ValidatedAt = zero_time, as_Other = []\<rparr>"

record remote_alias =
  ra_AnonymousID :: string
  ra_ForwardToEmail :: string
  ra_HME :: string
  ra_IsActive :: bool
  ra_Other :: "string list"

record list_result =
  lr_Aliases :: "remote_alias list"
  lr_SelectedForwardTo :: string
  lr_ForwardToEmails :: "string list"

definition sameEmail :: "string \<Rightarrow> string \<Rightarrow> bool" where
  "sameEmail l r \<longleftrightarrow> NormalizeEmail l \<noteq> [] \<and> NormalizeEmail l = NormalizeEmail r"

definition normalizeRegion :: "string \<Rightarrow> string option" where
  "normalizeRegion region =
     (let r = to_lower (trim_space region) in
      if r = [] \<or> r = ''global'' then Some ''global''
      else if r = ''cn'' \<or> r = ''china'' then Some ''cn''
      else None)"

definition hasAppleSessionState :: "apple_state \<Rightarrow> bool" where
  "hasAppleSessionState s \<longleftrightarrow> trim_space (as_AppleID s) \<noteq> [] \<or> trim_space (as_DSID s) \<noteq> [] \<or>
     trim_space (as_PremiumMailSettingsURL s) \<noteq> [] \<or> trim_space (as_SessionToken s) \<noteq> [] \<or> as_Cookies s \<noteq> []"

definition normalizeSession :: "apple_state \<Rightarrow> string \<Rightarrow> string \<Rightarrow> time \<Rightarrow> apple_state" where
  "normalizeSession s appleID region now =
     s\<lparr>as_AppleID := (if trim_space (as_AppleID s) = [] then trim_space appleID else as_AppleID s),
       as_Region := (if as_Region s = [] then region else as_Region s),
       as_ValidatedAt := (if is_zero_time (as_ValidatedAt s) then now else as_ValidatedAt s)\<rparr>"

definition prepareAliasDeletionSession ::
  "apple_session \<Rightarrow> apple_state \<Rightarrow> apple_state \<Rightarrow> time \<Rightarrow> attempt_error + apple_state" where
  "prepareAliasDeletionSession saved returned0 fallback now =
     (let returned = (if \<not> hasAppleSessionState returned0 then fallback else returned0) in
      if trim_space (as_AppleID returned) \<noteq> [] \<and> \<not> equal_fold (trim_space (as_AppleID returned)) (trim_space (aw_AppleID saved))
      then Inl (Coded KAccountMismatch None)
      else (let s = normalizeSession returned (aw_AppleID saved) (as_Region fallback) now in
            case normalizeRegion (as_Region s) of
              None \<Rightarrow> Inl (OtherErr ''unknown Apple service region'')
            | Some region \<Rightarrow> Inr (s\<lparr>as_Region := region\<rparr>)))"

definition aliasDeletionSubject :: "apple_state \<Rightarrow> attempt_error + string" where
  "aliasDeletionSubject s =
     (case normalizeRegion (as_Region s) of
        None \<Rightarrow> Inl (Coded KSessionExpired (Some (OtherErr ''Apple session has no verified subject'')))
      | Some region \<Rightarrow>
          if trim_space (as_DSID s) = [] then Inl (Coded KSessionExpired (Some (OtherErr ''Apple session has no verified subject'')))
          else Inr (region @ '':'' @ trim_space (as_DSID s)))"

definition forwardingTarget :: "list_result \<Rightarrow> string \<Rightarrow> string" where
  "forwardingTarget r accountEmail =
     (if NormalizeEmail (lr_SelectedForwardTo r) \<noteq> [] then NormalizeEmail (lr_SelectedForwardTo r) else NormalizeEmail accountEmail)"

text \<open>\<open>parse\<close> is \<open>mail.ParseAddress\<close>, of which the address is used.\<close>

fun filter_aliases ::
  "(string \<Rightarrow> string option) \<Rightarrow> string \<Rightarrow> string list \<Rightarrow> string list \<Rightarrow> remote_alias list \<Rightarrow> remote_alias list \<Rightarrow>
     attempt_error + remote_alias list" where
  "filter_aliases parse forwardTo seenAddresses seenIDs [] filtered = Inr filtered"
| "filter_aliases parse forwardTo seenAddresses seenIDs (r # rs) filtered =
     (let address = NormalizeEmail (ra_HME r); remoteID = trim_space (ra_AnonymousID r) in
      if address = [] \<or> (case parse address of None \<Rightarrow> True | Some a \<Rightarrow> NormalizeEmail a \<noteq> address)
        then Inl (Coded KUpstream (Some (OtherErr ''Apple alias has invalid address'')))
      else if address \<in> set seenAddresses then Inl (Coded KUpstream (Some (OtherErr ''Apple directory contains duplicate address'')))
      else if remoteID \<noteq> [] \<and> remoteID \<in> set seenIDs then Inl (Coded KUpstream (Some (OtherErr ''Apple directory contains duplicate remote ID'')))
      else filter_aliases parse forwardTo (address # seenAddresses) (if remoteID \<noteq> [] then remoteID # seenIDs else seenIDs) rs
             (if sameEmail (ra_ForwardToEmail r) forwardTo then filtered @ [r\<lparr>ra_HME := address\<rparr>] else filtered))"

definition filterAliases ::
  "(string \<Rightarrow> string option) \<Rightarrow> list_result \<Rightarrow> string \<Rightarrow> attempt_error + remote_alias list \<times> int" where
  "filterAliases parse r forwardTo0 =
     (let forwardTo = NormalizeEmail forwardTo0 in
      bind_res (filter_aliases parse forwardTo [] [] (lr_Aliases r) []) (\<lambda>filtered.
        if sameEmail (lr_SelectedForwardTo r) forwardTo \<or> list_ex (\<lambda>a. sameEmail a forwardTo) (lr_ForwardToEmails r) \<or> filtered \<noteq> []
        then Inr (filtered, int (length (filter (\<lambda>a. \<not> ra_IsActive a) filtered)))
        else Inl (Coded KAccountMismatch None)))"

record account_identity =
  id_email :: string
  id_imapUsername :: string
  id_mailboxType :: string

definition identityOf :: "account \<Rightarrow> account_identity" where
  "identityOf a = \<lparr>id_email = NormalizeEmail (ac_Email a), id_imapUsername = trim_space (ac_IMAPUsername a),
     id_mailboxType = NormalizeMailboxType (ac_MailboxType a)\<rparr>"

definition sameIdentity :: "account_identity \<Rightarrow> account_identity \<Rightarrow> bool" where
  "sameIdentity l r \<longleftrightarrow> id_mailboxType l = MailboxTypeICloud \<and> id_mailboxType r = MailboxTypeICloud \<and>
     id_email l \<noteq> [] \<and> id_email l = id_email r \<and> id_imapUsername l = id_imapUsername r"

subsection \<open>The environment and the state\<close>

text \<open>\<open>en_watch\<close> and \<open>en_GetAliasByAddress\<close> are optional interfaces of the repository.\<close>

record 'db attempt_env =
  en_repo :: "'db quota_repo option"
  en_cancelled :: "nat \<Rightarrow> bool"
  en_now :: "nat \<Rightarrow> time"
  en_random :: "nat \<Rightarrow> string option"
  en_lock :: "nat \<Rightarrow> attempt_error option"
  en_GetAccount :: "nat \<Rightarrow> int \<Rightarrow> attempt_error + account"
  en_GetAlias :: "nat \<Rightarrow> int \<Rightarrow> attempt_error + mail_alias"
  en_GetAliasByAddress :: "(nat \<Rightarrow> string \<Rightarrow> attempt_error + mail_alias) option"
  en_watch :: "(nat \<Rightarrow> string \<Rightarrow> attempt_error + bool) option"
  en_DeleteAlias :: "nat \<Rightarrow> int \<Rightarrow> attempt_error option"
  en_GetAppleWebSession :: "nat \<Rightarrow> int \<Rightarrow> attempt_error + apple_session"
  en_DeleteAppleWebSession :: "nat \<Rightarrow> int \<Rightarrow> attempt_error option"
  en_decrypt :: "apple_session \<Rightarrow> attempt_error + apple_state"
  en_saveSession :: "nat \<Rightarrow> int \<Rightarrow> apple_state \<Rightarrow> attempt_error option"
  en_ParseAddress :: "string \<Rightarrow> string option"
  en_Validate :: "nat \<Rightarrow> apple_state \<Rightarrow> apple_state \<times> go_error option"
  en_ListAliases :: "nat \<Rightarrow> apple_state \<Rightarrow> list_result \<times> apple_state \<times> go_error option"
  en_DeactivateAlias :: "nat \<Rightarrow> apple_state \<Rightarrow> string \<Rightarrow> apple_state \<times> go_error option"
  en_RemoteDelete :: "nat \<Rightarrow> apple_state \<Rightarrow> string \<Rightarrow> apple_state \<times> go_error option"

text \<open>What an attempt is for: the queued work, or a single deletion with the pending mark seen at its start.\<close>

record attempt_job =
  j_accountID :: int
  j_aliasID :: int
  j_work :: "deletion_work option"
  j_initialPending :: bool

datatype attempt_event =
    EvChecked string
  | EvReserved string
  | EvDeactivate string
  | EvSent string
  | EvDelete string
  | EvConfirmed string
  | EvDirectory "string \<rightharpoonup> remote_alias"
  | EvLocal int

record 'db attempt =
  b_calls :: nat
  b_db :: 'db
  b_trace :: "attempt_event list"
  b_account :: "account option"
  b_record :: "apple_session option"
  b_session :: apple_state
  b_ready :: bool
  b_valid :: bool
  b_stopped :: "attempt_error option"
  b_directory :: "string \<rightharpoonup> remote_alias"
  b_forwardTo :: string
  b_subject :: string
  b_operation :: string
  b_address :: string
  b_mutationAttempted :: bool
  b_lease :: deletion_lease

type_synonym ('db, 'a) act = "'db attempt \<Rightarrow> (attempt_error + 'a) \<times> 'db attempt"

definition retn :: "'a \<Rightarrow> ('db, 'a) act" where "retn x s = (Inr x, s)"
definition failw :: "attempt_error \<Rightarrow> ('db, 'a) act" where "failw e s = (Inl e, s)"

text \<open>An error returns early.\<close>

definition bnd :: "('db, 'a) act \<Rightarrow> ('a \<Rightarrow> ('db, 'b) act) \<Rightarrow> ('db, 'b) act" where
  "bnd m f s = (case m s of (Inl e, s') \<Rightarrow> (Inl e, s') | (Inr x, s') \<Rightarrow> f x s')"

text \<open>A call whose error is handled, a deferred call, an update, an entry of the history and a call of the environment.\<close>

definition catch :: "('db, 'a) act \<Rightarrow> ('db, attempt_error + 'a) act" where
  "catch m s = (case m s of (r, s') \<Rightarrow> (Inr r, s'))"
definition deferred :: "('db, 'a) act \<Rightarrow> ('db, 'b) act \<Rightarrow> ('db, 'a) act" where
  "deferred m f s = (case m s of (r, s') \<Rightarrow> (r, snd (f s')))"
definition upd :: "('db attempt \<Rightarrow> 'db attempt) \<Rightarrow> ('db, unit) act" where "upd f s = (Inr (), f s)"
definition look :: "('db attempt \<Rightarrow> 'a) \<Rightarrow> ('db, 'a) act" where "look f s = (Inr (f s), s)"
definition emit :: "attempt_event \<Rightarrow> ('db, unit) act" where "emit e = upd (\<lambda>s. s\<lparr>b_trace := b_trace s @ [e]\<rparr>)"
definition ask :: "(nat \<Rightarrow> 'a) \<Rightarrow> ('db, 'a) act" where "ask f s = (Inr (f (b_calls s)), s\<lparr>b_calls := Suc (b_calls s)\<rparr>)"

definition check :: "attempt_error option \<Rightarrow> ('db, unit) act" where
  "check e = (case e of None \<Rightarrow> retn () | Some e \<Rightarrow> failw e)"
definition check_res :: "attempt_error + 'a \<Rightarrow> ('db, 'a) act" where
  "check_res r = (case r of Inl e \<Rightarrow> failw e | Inr x \<Rightarrow> retn x)"
definition ctx_err :: "'db attempt_env \<Rightarrow> ('db, unit) act" where
  "ctx_err env = bnd (ask (en_cancelled env)) (\<lambda>c. if c then failw ContextErr else retn ())"
definition stop_with :: "attempt_error \<Rightarrow> ('db, 'a) act" where
  "stop_with e = bnd (upd (\<lambda>s. s\<lparr>b_stopped := Some e\<rparr>)) (\<lambda>_. failw e)"

definition account_changed :: attempt_error where "account_changed = Coded KAccountChanged None"
definition confirmation_pending :: attempt_error where
  "confirmation_pending = Coded KConfirmationPending (Some (OtherErr ''alias confirmation pending''))"

subsection \<open>Reading the alias again\<close>

definition pending_alias :: "mail_alias \<Rightarrow> bool" where
  "pending_alias a \<longleftrightarrow> \<not> a_Enabled a \<and> trim_space (a_LastSyncError a) = AppleAliasConfirmationPending"

text \<open>The alias of the immutable snapshot, when the local row is gone.\<close>

definition snapshot_alias :: "int \<Rightarrow> deletion_work \<Rightarrow> mail_alias" where
  "snapshot_alias aliasID w =
     \<lparr>a_ID = aliasID, a_AccountID = dw_AccountID w, a_AccountEmail = [], a_Address = dw_Address w, a_Label = [], a_GroupID = None,
      a_GroupName = [], a_APIKeyHash = [], a_APIKeyPrefix = [], a_CredentialMode = [], a_CredentialCiphertext = [],
      a_IMAPPasswordHash = [], a_OAuthClientID = [], a_RefreshTokenHash = [], a_CredentialVersion = 0, a_MailboxUIDValidity = 0,
      a_MailboxUIDNext = 0, a_Enabled = False, a_LastSyncStatus = [], a_LastSyncError = [], a_LastSyncedAt = None,
      a_LastAccessedAt = None, a_CreatedAt = zero_time, a_UpdatedAt = zero_time, a_LatestReceivedAt = None\<rparr>"

definition read_alias :: "'db attempt_env \<Rightarrow> attempt_job \<Rightarrow> ('db, mail_alias) act" where
  "read_alias env job =
     bnd (ask (\<lambda>k. en_GetAlias env k (j_aliasID job))) (\<lambda>r.
       (case r of
          Inr a \<Rightarrow> retn a
        | Inl e \<Rightarrow>
            (case j_work job of
               None \<Rightarrow> failw e
             | Some w \<Rightarrow> if is_not_found e then retn (snapshot_alias (j_aliasID job) w) else failw e)))"

definition checkWork :: "'db attempt_env \<Rightarrow> attempt_job \<Rightarrow> bool \<Rightarrow> ('db, unit) act" where
  "checkWork env job mutation =
     (case j_work job of
        None \<Rightarrow> retn ()
      | Some w \<Rightarrow>
          bnd (bnd (ask (\<lambda>k. en_GetAccount env k (dw_AccountID w))) check_res) (\<lambda>account.
          if \<not> sameEmail (ac_Email account) (dw_AccountEmail w) \<or> NormalizeMailboxType (ac_MailboxType account) \<noteq> MailboxTypeICloud
          then failw account_changed
          else bnd (ask (\<lambda>k. en_GetAlias env k (dw_AliasID w))) (\<lambda>r.
          bnd (case r of
                 Inl e \<Rightarrow> if is_not_found e then retn () else failw e
               | Inr a \<Rightarrow> if a_AccountID a \<noteq> dw_AccountID w \<or> \<not> sameEmail (a_Address a) (dw_Address w)
                   then failw account_changed else retn ()) (\<lambda>_.
          bnd (case en_GetAliasByAddress env of
                 None \<Rightarrow> retn ()
               | Some lookup \<Rightarrow> bnd (ask (\<lambda>k. lookup k (dw_Address w))) (\<lambda>r2.
                   (case r2 of
                      Inl e \<Rightarrow> if is_not_found e then retn () else failw e
                    | Inr a \<Rightarrow> if a_AccountID a \<noteq> dw_AccountID w then failw account_changed else retn ()))) (\<lambda>_.
          if mutation \<and> dw_ID w \<noteq> [] then
            (case en_watch env of
               None \<Rightarrow> retn ()
             | Some watch \<Rightarrow> bnd (bnd (ask (\<lambda>k. watch k (dw_ID w))) check_res) (\<lambda>wanted.
                 if wanted then retn () else failw ContextErr))
          else retn ())))))"

definition recheck :: "'db attempt_env \<Rightarrow> attempt_job \<Rightarrow> string \<Rightarrow> ('db, unit) act" where
  "recheck env job operation =
     bnd (ctx_err env) (\<lambda>_.
     bnd (upd (\<lambda>s. s\<lparr>b_operation := operation\<rparr>)) (\<lambda>_.
     bnd (bnd (ask (\<lambda>k. en_GetAccount env k (j_accountID job))) check_res) (\<lambda>account.
     bnd (look b_account) (\<lambda>first.
     if (case first of None \<Rightarrow> True | Some a \<Rightarrow> \<not> sameIdentity (identityOf account) (identityOf a)) then stop_with account_changed
     else bnd (checkWork env job (operation = ''deactivate'' \<or> operation = ''delete'')) (\<lambda>_.
     bnd (read_alias env job) (\<lambda>alias.
     bnd (look b_address) (\<lambda>address.
     if a_AccountID alias \<noteq> j_accountID job \<or> NormalizeEmail (a_Address alias) \<noteq> address then stop_with account_changed
     else if pending_alias alias \<and> \<not> j_initialPending job then failw confirmation_pending
     else ctx_err env)))))))"

definition beforeRequest :: "'db attempt_env \<Rightarrow> attempt_job \<Rightarrow> string \<Rightarrow> ('db, unit) act" where
  "beforeRequest env job operation = bnd (recheck env job operation) (\<lambda>_. emit (EvChecked operation))"

subsection \<open>The allowance\<close>

definition lease_error :: "lease_error \<Rightarrow> attempt_error" where
  "lease_error e = (case e of LeaseStore q \<Rightarrow> QuotaErr q | LeaseRandom \<Rightarrow> OtherErr ''random'' | LeaseWait w \<Rightarrow> WaitErr w None)"

definition quota_wait :: "'db attempt_env \<Rightarrow> ('db, unit) act" where
  "quota_wait env =
     bnd (ask (en_now env)) (\<lambda>now.
     bnd (look (\<lambda>s. quotaWait (en_repo env) (b_subject s) (b_operation s) now (b_db s))) (\<lambda>r.
     check (map_option lease_error r)))"

definition reserve_quota :: "'db attempt_env \<Rightarrow> ('db, unit) act" where
  "reserve_quota env =
     bnd (ask (en_random env)) (\<lambda>random.
     bnd (ask (en_now env)) (\<lambda>now.
     bnd (look (\<lambda>s. reserveQuota (en_repo env) (b_subject s) random now (b_db s))) (\<lambda>(r, db').
     bnd (upd (\<lambda>s. s\<lparr>b_db := db'\<rparr>)) (\<lambda>_.
       (case r of
          Inl e \<Rightarrow> failw (lease_error e)
        | Inr l \<Rightarrow> bnd (upd (\<lambda>s. s\<lparr>b_lease := l\<rparr>)) (\<lambda>_. emit (EvReserved (dl_id l))))))))"

text \<open>The three operations of the lease; the repository is there when the lease has one.\<close>

definition lease_act ::
  "'db attempt_env \<Rightarrow> ('db quota_repo \<Rightarrow> string \<Rightarrow> deletion_lease \<Rightarrow> 'db \<Rightarrow> (quota_error option \<times> deletion_lease) \<times> 'db) \<Rightarrow> ('db, unit) act" where
  "lease_act env opn =
     (case en_repo env of
        None \<Rightarrow> retn ()
      | Some r \<Rightarrow>
          bnd (look (\<lambda>s. opn r (b_subject s) (b_lease s) (b_db s))) (\<lambda>((e, l), db').
          bnd (upd (\<lambda>s. s\<lparr>b_db := db', b_lease := l\<rparr>)) (\<lambda>_. check (map_option QuotaErr e))))"

definition release_lease :: "'db attempt_env \<Rightarrow> ('db, unit) act" where
  "release_lease env = lease_act env lease_release"

definition mark_sent :: "'db attempt_env \<Rightarrow> ('db, unit) act" where
  "mark_sent env =
     bnd (ask (en_now env)) (\<lambda>now.
     bnd (lease_act env (\<lambda>r p. lease_markSent r p now)) (\<lambda>_.
     bnd (look b_lease) (\<lambda>l. emit (EvSent (dl_id l)))))"

definition commit_lease :: "'db attempt_env \<Rightarrow> ('db, unit) act" where
  "commit_lease env = bnd (ask (en_now env)) (\<lambda>now. lease_act env (\<lambda>r p. lease_commit r p now))"

definition defer_quota :: "'db attempt_env \<Rightarrow> go_error \<Rightarrow> ('db, wait_error) act" where
  "defer_quota env cause =
     bnd (ask (en_now env)) (\<lambda>now.
     bnd (ask (en_now env)) (\<lambda>now'.
     bnd (look (\<lambda>s. deferQuota (en_repo env) (b_subject s) (b_operation s) cause now now' (b_db s))) (\<lambda>(r, db').
     bnd (upd (\<lambda>s. s\<lparr>b_db := db'\<rparr>)) (\<lambda>_.
       (case r of Inl e \<Rightarrow> failw (QuotaErr e) | Inr w \<Rightarrow> retn w)))))"

subsection \<open>Apple's answers\<close>

text \<open>The session is dropped from the store; the next item finds the classification of a missing session.\<close>

definition expire :: "'db attempt_env \<Rightarrow> attempt_job \<Rightarrow> attempt_error \<Rightarrow> ('db, attempt_error) act" where
  "expire env job mapped =
     bnd (upd (\<lambda>s. s\<lparr>b_valid := False, b_session := no_state\<rparr>)) (\<lambda>_.
     bnd (ask (\<lambda>k. en_DeleteAppleWebSession env k (j_accountID job))) (\<lambda>r.
       (case r of
          Some e \<Rightarrow>
            if is_not_found e then bnd (upd (\<lambda>s. s\<lparr>b_stopped := Some (Coded KLoginRequired (Some NotFoundErr))\<rparr>)) (\<lambda>_. retn mapped)
            else (let result = Coded KSessionExpired (Some (Joined [mapped, e])) in
                  bnd (upd (\<lambda>s. s\<lparr>b_stopped := Some result\<rparr>)) (\<lambda>_. retn result))
        | None \<Rightarrow> bnd (upd (\<lambda>s. s\<lparr>b_stopped := Some (Coded KLoginRequired (Some NotFoundErr))\<rparr>)) (\<lambda>_. retn mapped))))"

definition map_response :: "go_error option \<Rightarrow> attempt_error option" where
  "map_response remoteErr =
     (case remoteErr of
        None \<Rightarrow> None
      | Some e \<Rightarrow> Some
          (if IsRateLimited e then
             (if go_is ErrInvalidSession e then wrap_remote KSessionExpired e
              else if go_is ErrAuthentication e then wrap_remote KCredentialsInvalid e
              else if go_is ErrTermsRequired e then wrap_remote KAccountActionRequired e
              else if go_is ErrTwoFactorCode e then wrap_remote KVerificationInvalid e
              else wrap_remote KRateLimited e)
           else mapAppleError e False))"

definition join_errors :: "attempt_error option list \<Rightarrow> attempt_error" where
  "join_errors es = Joined (map the (filter (\<lambda>e. e \<noteq> None) es))"

definition has_kind :: "sync_kind \<Rightarrow> attempt_error option \<Rightarrow> bool" where
  "has_kind k e \<longleftrightarrow> (case e of None \<Rightarrow> False | Some e \<Rightarrow> is_kind k e)"

text \<open>The session that came back is kept for the account, in memory and in the store.\<close>

definition keep_session :: "'db attempt_env \<Rightarrow> attempt_job \<Rightarrow> apple_state \<Rightarrow> ('db, unit) act" where
  "keep_session env job returned =
     bnd (ask (en_now env)) (\<lambda>now.
     bnd (look (\<lambda>s. (b_record s, b_session s, b_subject s))) (\<lambda>(saved, session, subject).
     bnd (check_res (case saved of None \<Rightarrow> Inl (OtherErr ''no record'')
                      | Some w \<Rightarrow> prepareAliasDeletionSession w returned session now)) (\<lambda>prepared0.
     (let prepared = (if trim_space (as_DSID prepared0) = [] then prepared0\<lparr>as_DSID := as_DSID session\<rparr> else prepared0) in
      bnd (check_res (aliasDeletionSubject prepared)) (\<lambda>subject'.
      if subject' \<noteq> subject then failw (Coded KAccountMismatch None)
      else bnd (upd (\<lambda>s. s\<lparr>b_session := prepared\<rparr>)) (\<lambda>_.
           bnd (ask (\<lambda>k. en_saveSession env k (j_accountID job) prepared)) check))))))"

text \<open>The mapped error of a response, if any, and whether it is fatal for the account.\<close>

definition acceptResponse ::
  "'db attempt_env \<Rightarrow> attempt_job \<Rightarrow> apple_state \<Rightarrow> go_error option \<Rightarrow> ('db, attempt_error option \<times> bool) act" where
  "acceptResponse env job returned remoteErr =
     (let mapped0 = map_response remoteErr in
      bnd (case remoteErr of
             None \<Rightarrow> retn (Inr None)
           | Some e \<Rightarrow>
               if IsRateLimited e \<or> RetryDelay e > 0
               then bnd (catch (defer_quota env e)) (\<lambda>r. retn (case r of Inl x \<Rightarrow> Inl x | Inr w \<Rightarrow> Inr (Some w)))
               else retn (Inr None)) (\<lambda>deferred_wait.
      let cooldownErr = (case deferred_wait of Inl e \<Rightarrow> Some e | Inr _ \<Rightarrow> None);
          wait = (case deferred_wait of Inl _ \<Rightarrow> None | Inr w \<Rightarrow> w) in
      if has_kind KSessionExpired mapped0 then
        bnd (expire env job (the mapped0)) (\<lambda>expired.
          (case cooldownErr of
             Some c \<Rightarrow> retn (Some (Joined [expired, c]), True)
           | None \<Rightarrow> retn (Some expired, True)))
      else
        bnd (catch (keep_session env job returned)) (\<lambda>kept.
          (let err = (case kept of Inl e \<Rightarrow> Some e | Inr _ \<Rightarrow> None) in
           if err \<noteq> None \<or> cooldownErr \<noteq> None then
             (let stopped = join_errors [err, cooldownErr, mapped0] in
              bnd (upd (\<lambda>s. s\<lparr>b_stopped := Some stopped\<rparr>)) (\<lambda>_. retn (Some stopped, True)))
           else
             (let mapped = (case wait of
                    None \<Rightarrow> mapped0
                  | Some w \<Rightarrow>
                      if has_kind KRateLimited mapped0 \<or> (\<not> has_kind KCredentialsInvalid mapped0 \<and> \<not> has_kind KAccountActionRequired mapped0)
                      then Some (WaitErr w remoteErr) else mapped0) in
              if has_kind KRateLimited mapped \<or> has_kind KCredentialsInvalid mapped \<or> has_kind KAccountActionRequired mapped
              then bnd (upd (\<lambda>s. s\<lparr>b_stopped := mapped\<rparr>)) (\<lambda>_. retn (mapped, False))
              else retn (mapped, False))))))"

definition list_directory :: "'db attempt_env \<Rightarrow> attempt_job \<Rightarrow> ('db, list_result) act" where
  "list_directory env job =
     bnd (upd (\<lambda>s. s\<lparr>b_valid := False\<rparr>)) (\<lambda>_.
     bnd (beforeRequest env job ''list'') (\<lambda>_.
     bnd (look b_session) (\<lambda>session.
     bnd (ask (\<lambda>k. en_ListAliases env k session)) (\<lambda>(directory, returned, remoteErr).
     bnd (acceptResponse env job returned remoteErr) (\<lambda>(mapped, fatal).
     bnd (check mapped) (\<lambda>_. retn directory))))))"

definition entries_of :: "list_result \<Rightarrow> string \<rightharpoonup> remote_alias" where
  "entries_of directory = map_of (rev (map (\<lambda>r. (NormalizeEmail (ra_HME r), r)) (lr_Aliases directory)))"

definition refreshDirectory :: "'db attempt_env \<Rightarrow> attempt_job \<Rightarrow> ('db, unit) act" where
  "refreshDirectory env job =
     bnd (list_directory env job) (\<lambda>directory.
     bnd (look (\<lambda>s. forwardingTarget directory (case b_account s of None \<Rightarrow> [] | Some a \<Rightarrow> ac_Email a))) (\<lambda>forwardTo.
     bnd (check_res (filterAliases (en_ParseAddress env) directory forwardTo)) (\<lambda>_.
     bnd (upd (\<lambda>s. s\<lparr>b_forwardTo := forwardTo, b_directory := entries_of directory, b_valid := True\<rparr>)) (\<lambda>_.
     emit (EvDirectory (entries_of directory))))))"

definition find_remote :: "string \<Rightarrow> ('db, remote_alias option) act" where
  "find_remote address =
     bnd (look (\<lambda>s. (b_directory s (NormalizeEmail address), b_forwardTo s))) (\<lambda>(r, forwardTo).
       (case r of
          None \<Rightarrow> retn None
        | Some remote \<Rightarrow> if \<not> sameEmail (ra_ForwardToEmail remote) forwardTo then failw (Coded KAccountMismatch None) else retn (Some remote)))"

definition loadSession :: "'db attempt_env \<Rightarrow> attempt_job \<Rightarrow> ('db, apple_session \<times> apple_state) act" where
  "loadSession env job =
     bnd (ask (\<lambda>k. en_GetAppleWebSession env k (j_accountID job))) (\<lambda>r.
       (case r of
          Inl e \<Rightarrow> if is_not_found e then failw (Coded KLoginRequired (Some e)) else failw e
        | Inr w \<Rightarrow>
            if \<not> aw_Authenticated w then failw (Coded KLoginRequired None)
            else (case en_decrypt env w of
                    Inl e \<Rightarrow> failw (Coded KSessionExpired (Some e))
                  | Inr session \<Rightarrow> retn (w, session))))"

definition initialize :: "'db attempt_env \<Rightarrow> attempt_job \<Rightarrow> ('db, unit) act" where
  "initialize env job =
     bnd (catch (loadSession env job)) (\<lambda>r.
       (case r of
          Inl e \<Rightarrow> if is_kind KSessionExpired e then bnd (expire env job e) failw else failw e
        | Inr (w, session) \<Rightarrow>
            bnd (upd (\<lambda>s. s\<lparr>b_record := Some w, b_session := session\<rparr>)) (\<lambda>_.
              (case aliasDeletionSubject session of
                 Inl e \<Rightarrow> bnd (expire env job e) failw
               | Inr subject \<Rightarrow>
                   bnd (look b_subject) (\<lambda>old.
                   if (old \<noteq> [] \<and> old \<noteq> subject) \<or>
                      (case j_work job of None \<Rightarrow> False
                       | Some work \<Rightarrow> dw_AppleSubject work \<noteq> subject \<or> \<not> sameEmail (dw_AppleID work) (aw_AppleID w))
                   then failw account_changed
                   else
                     bnd (upd (\<lambda>s. s\<lparr>b_subject := subject\<rparr>)) (\<lambda>_.
                     bnd (quota_wait env) (\<lambda>_.
                     bnd (beforeRequest env job ''validate'') (\<lambda>_.
                     bnd (look b_session) (\<lambda>session'.
                     bnd (ask (\<lambda>k. en_Validate env k session')) (\<lambda>(returned, remoteErr).
                     bnd (acceptResponse env job returned remoteErr) (\<lambda>(mapped, fatal).
                     bnd (check mapped) (\<lambda>_.
                     upd (\<lambda>s. s\<lparr>b_ready := True\<rparr>)))))))))))))"

subsection \<open>The attempt\<close>

definition deleteLocal :: "'db attempt_env \<Rightarrow> attempt_job \<Rightarrow> ('db, unit) act" where
  "deleteLocal env job =
     bnd (emit (EvLocal (j_aliasID job))) (\<lambda>_.
     bnd (ask (\<lambda>k. en_DeleteAlias env k (j_aliasID job))) (\<lambda>r.
       (case r of
          None \<Rightarrow> retn ()
        | Some e \<Rightarrow> if j_work job \<noteq> None \<and> is_not_found e then retn () else failw e)))"

text \<open>
  Up to the directory: the alias and the account as they are now, the session, and Apple's entry for the
  address. \<open>admit\<close> is what follows once the address is noted.
\<close>

definition admit :: "'db attempt_env \<Rightarrow> attempt_job \<Rightarrow> mail_alias \<Rightarrow> ('db, mail_alias) act" where
  "admit env job alias =
     bnd (checkWork env job False) (\<lambda>_.
     if pending_alias alias \<and> \<not> j_initialPending job then failw confirmation_pending
     else bnd (look b_stopped) (\<lambda>stopped.
     bnd (check stopped) (\<lambda>_.
     bnd (bnd (ask (\<lambda>k. en_GetAccount env k (j_accountID job))) check_res) (\<lambda>account.
     bnd (look b_account) (\<lambda>first.
     if (case first of None \<Rightarrow> False
         | Some a \<Rightarrow> ac_ID a \<noteq> 0 \<and> (\<not> sameEmail (ac_Email account) (ac_Email a) \<or>
             NormalizeMailboxType (ac_MailboxType account) \<noteq> NormalizeMailboxType (ac_MailboxType a)))
     then stop_with account_changed
     else bnd (look b_ready) (\<lambda>ready.
     if ready then retn alias
     else
       bnd (upd (\<lambda>s. s\<lparr>b_account := Some account\<rparr>)) (\<lambda>_.
       bnd (catch (initialize env job)) (\<lambda>r.
         (case r of
            Inr _ \<Rightarrow> retn alias
          | Inl e \<Rightarrow>
              if pending_alias alias \<and> is_kind KLoginRequired e then failw confirmation_pending
              else bnd (upd (\<lambda>s. s\<lparr>b_stopped := (case b_stopped s of None \<Rightarrow> Some e | Some x \<Rightarrow> Some x)\<rparr>)) (\<lambda>_. failw e))))))))))"

definition begin_attempt :: "'db attempt_env \<Rightarrow> attempt_job \<Rightarrow> ('db, mail_alias) act" where
  "begin_attempt env job =
     bnd (ctx_err env) (\<lambda>_.
     bnd (read_alias env job) (\<lambda>alias.
     if a_AccountID alias \<noteq> j_accountID job then failw account_changed
     else bnd (upd (\<lambda>s. s\<lparr>b_address := NormalizeEmail (a_Address alias)\<rparr>)) (\<lambda>_. admit env job alias)))"

definition find_entry :: "'db attempt_env \<Rightarrow> attempt_job \<Rightarrow> mail_alias \<Rightarrow> ('db, remote_alias option) act" where
  "find_entry env job alias =
     bnd (look (\<lambda>s. \<not> b_valid s)) (\<lambda>fresh.
     bnd (if fresh then refreshDirectory env job else retn ()) (\<lambda>_.
     bnd (find_remote (a_Address alias)) (\<lambda>found.
     if found = None \<and> \<not> fresh
     then bnd (refreshDirectory env job) (\<lambda>_. find_remote (a_Address alias))
     else retn found)))"

text \<open>The directory read again for this address, after an answer that leaves the outcome open.\<close>

definition reconcile :: "'db attempt_env \<Rightarrow> attempt_job \<Rightarrow> mail_alias \<Rightarrow> ('db, remote_alias option) act" where
  "reconcile env job alias = bnd (refreshDirectory env job) (\<lambda>_. find_remote (a_Address alias))"

text \<open>The permanent deletion under a lease, and what follows from the answer.\<close>

definition settle_delete ::
  "'db attempt_env \<Rightarrow> attempt_job \<Rightarrow> mail_alias \<Rightarrow> string \<Rightarrow> attempt_error + unit \<Rightarrow> attempt_error option \<Rightarrow> bool \<Rightarrow> ('db, unit) act" where
  "settle_delete env job alias remoteID commitErr mapped fatal =
     (case commitErr of
        Inl c \<Rightarrow> stop_with (join_errors [Some c, mapped])
      | Inr _ \<Rightarrow>
          (case mapped of
             None \<Rightarrow>
               bnd (emit (EvConfirmed remoteID)) (\<lambda>_.
               bnd (upd (\<lambda>s. s\<lparr>b_directory := (b_directory s)(NormalizeEmail (a_Address alias) := None)\<rparr>)) (\<lambda>_.
               deleteLocal env job))
           | Some e \<Rightarrow>
               bnd (upd (\<lambda>s. s\<lparr>b_valid := False\<rparr>)) (\<lambda>_.
               if fatal then failw e
               else if as_wait e \<noteq> None then failw e
               else bnd (catch (reconcile env job alias)) (\<lambda>r.
                 (case r of
                    Inl x \<Rightarrow> failw (Joined [x, e])
                  | Inr present \<Rightarrow> if present \<noteq> None then failw e else deleteLocal env job)))))"

definition send_delete :: "'db attempt_env \<Rightarrow> attempt_job \<Rightarrow> mail_alias \<Rightarrow> string \<Rightarrow> ('db, unit) act" where
  "send_delete env job alias remoteID =
     bnd (upd (\<lambda>s. s\<lparr>b_mutationAttempted := True\<rparr>)) (\<lambda>_.
     bnd (emit (EvDelete remoteID)) (\<lambda>_.
     bnd (look b_session) (\<lambda>session.
     bnd (ask (\<lambda>k. en_RemoteDelete env k session remoteID)) (\<lambda>(returned, remoteErr).
     bnd (catch (commit_lease env)) (\<lambda>commitErr.
     bnd (acceptResponse env job returned remoteErr) (\<lambda>(mapped, fatal).
     settle_delete env job alias remoteID commitErr mapped fatal))))))"

definition delete_remote :: "'db attempt_env \<Rightarrow> attempt_job \<Rightarrow> mail_alias \<Rightarrow> string \<Rightarrow> ('db, unit) act" where
  "delete_remote env job alias remoteID =
     bnd (beforeRequest env job ''delete'') (\<lambda>_.
     bnd (mark_sent env) (\<lambda>_.
     bnd (ctx_err env) (\<lambda>_. send_delete env job alias remoteID)))"

text \<open>
  Deactivation; \<open>None\<close> when the address turned out to be gone and the local row is handled, otherwise the
  remote ID to delete. A reservation that was given back is taken again.
\<close>

definition settle_deactivate ::
  "'db attempt_env \<Rightarrow> attempt_job \<Rightarrow> mail_alias \<Rightarrow> remote_alias \<Rightarrow> string \<Rightarrow> attempt_error + unit \<Rightarrow> attempt_error option \<Rightarrow> bool \<Rightarrow>
     ('db, string option) act" where
  "settle_deactivate env job alias remote remoteID released mapped fatal =
     (case released of
        Inl x \<Rightarrow> failw (join_errors [Some x, mapped])
      | Inr _ \<Rightarrow>
          (case mapped of
             None \<Rightarrow>
               bnd (upd (\<lambda>s. s\<lparr>b_directory := (b_directory s)(NormalizeEmail (a_Address alias) \<mapsto> remote\<lparr>ra_IsActive := False\<rparr>)\<rparr>))
                 (\<lambda>_. retn (Some remoteID))
           | Some e \<Rightarrow>
               bnd (catch (release_lease env)) (\<lambda>r.
                 (case r of
                    Inl x \<Rightarrow> failw (Joined [x, e])
                  | Inr _ \<Rightarrow>
                      bnd (upd (\<lambda>s. s\<lparr>b_valid := False\<rparr>)) (\<lambda>_.
                      if fatal then failw e
                      else if as_wait e \<noteq> None then failw e
                      else bnd (catch (reconcile env job alias)) (\<lambda>r2.
                        (case r2 of
                           Inl x \<Rightarrow> failw (Joined [x, e])
                         | Inr None \<Rightarrow> bnd (deleteLocal env job) (\<lambda>_. retn None)
                         | Inr (Some reconciled) \<Rightarrow>
                             bnd (look b_stopped) (\<lambda>stopped.
                             if ra_IsActive reconciled \<or> stopped \<noteq> None then failw e
                             else if trim_space (ra_AnonymousID reconciled) = [] then
                               failw (Joined [e, Coded KUpstream (Some (OtherErr ''Apple alias omitted its remote ID''))])
                             else bnd (reserve_quota env) (\<lambda>_. retn (Some (trim_space (ra_AnonymousID reconciled))))))))))))"

definition deactivate :: "'db attempt_env \<Rightarrow> attempt_job \<Rightarrow> mail_alias \<Rightarrow> remote_alias \<Rightarrow> string \<Rightarrow> ('db, string option) act" where
  "deactivate env job alias remote remoteID =
     bnd (beforeRequest env job ''deactivate'') (\<lambda>_.
     bnd (upd (\<lambda>s. s\<lparr>b_mutationAttempted := True\<rparr>)) (\<lambda>_.
     bnd (emit (EvDeactivate remoteID)) (\<lambda>_.
     bnd (look b_session) (\<lambda>session.
     bnd (ask (\<lambda>k. en_DeactivateAlias env k session remoteID)) (\<lambda>(returned, remoteErr).
     bnd (if remoteErr \<noteq> None then catch (release_lease env) else retn (Inr ())) (\<lambda>released.
     bnd (acceptResponse env job returned remoteErr) (\<lambda>(mapped, fatal).
     settle_deactivate env job alias remote remoteID released mapped fatal)))))))"

definition delete_attempt :: "'db attempt_env \<Rightarrow> attempt_job \<Rightarrow> ('db, unit) act" where
  "delete_attempt env job =
     bnd (begin_attempt env job) (\<lambda>alias.
     bnd (find_entry env job alias) (\<lambda>found.
       (case found of
          None \<Rightarrow> deleteLocal env job
        | Some remote \<Rightarrow>
            (let remoteID = trim_space (ra_AnonymousID remote) in
             if remoteID = [] then failw (Coded KUpstream (Some (OtherErr ''Apple alias omitted its remote ID'')))
             else bnd (reserve_quota env) (\<lambda>_.
               deferred
                 (bnd (if ra_IsActive remote then deactivate env job alias remote remoteID else retn (Some remoteID)) (\<lambda>target.
                    (case target of None \<Rightarrow> retn () | Some i \<Rightarrow> delete_remote env job alias i)))
                 (release_lease env))))))"

subsection \<open>The entry points\<close>

text \<open>The operation lock, the execution slot and the account lock; an attempt outside of a batch has no slot pool.\<close>

definition withAliasDeletionAccount :: "'db attempt_env \<Rightarrow> ('db, 'a) act \<Rightarrow> ('db, 'a) act" where
  "withAliasDeletionAccount env m =
     bnd (ctx_err env) (\<lambda>_.
     bnd (bnd (ask (en_lock env)) check) (\<lambda>_.
     bnd (ctx_err env) (\<lambda>_.
     bnd (bnd (ask (en_lock env)) check) (\<lambda>_.
     bnd (ctx_err env) (\<lambda>_. m)))))"

definition new_attempt :: "'db \<Rightarrow> 'db attempt" where
  "new_attempt db = \<lparr>b_calls = 0, b_db = db, b_trace = [], b_account = None, b_record = None, b_session = no_state, b_ready = False,
     b_valid = False, b_stopped = None, b_directory = Map.empty, b_forwardTo = [], b_subject = [], b_operation = [], b_address = [],
     b_mutationAttempted = False, b_lease = \<lparr>dl_repo = False, dl_id = [], dl_committed = False\<rparr>\<rparr>"

text \<open>A failed attempt tells whether a mutation may have reached Apple.\<close>

definition DeleteQueuedAlias :: "'db attempt_env \<Rightarrow> deletion_work \<Rightarrow> 'db \<Rightarrow> ((attempt_error \<times> bool) + unit) \<times> 'db attempt" where
  "DeleteQueuedAlias env work db =
     (let start = new_attempt db in
      if dw_AccountID work < 1 \<or> dw_AliasID work < 1 \<or> trim_space (dw_Address work) = [] \<or> trim_space (dw_AccountEmail work) = [] \<or>
         trim_space (dw_AppleID work) = [] \<or> trim_space (dw_AppleSubject work) = []
      then (Inl (OtherErr ''alias deletion identity snapshot is incomplete'', False), start)
      else (case withAliasDeletionAccount env (delete_attempt env
                   \<lparr>j_accountID = dw_AccountID work, j_aliasID = dw_AliasID work, j_work = Some work, j_initialPending = True\<rparr>) start of
              (Inl e, s) \<Rightarrow> (Inl (e, b_mutationAttempted s), s)
            | (Inr _, s) \<Rightarrow> (Inr (), s)))"

definition service_DeleteAlias :: "'db attempt_env \<Rightarrow> int \<Rightarrow> ('db, unit) act" where
  "service_DeleteAlias env aliasID =
     (if aliasID < 1 then failw (OtherErr ''alias ID must be positive'')
      else bnd (bnd (ask (\<lambda>k. en_GetAlias env k aliasID)) check_res) (\<lambda>initial.
        if a_AccountID initial < 1 then failw (OtherErr ''alias account ID must be positive'')
        else withAliasDeletionAccount env (delete_attempt env
          \<lparr>j_accountID = a_AccountID initial, j_aliasID = aliasID, j_work = None, j_initialPending = pending_alias initial\<rparr>)))"

definition PrepareAliasDeletion :: "'db attempt_env \<Rightarrow> int \<Rightarrow> ('db, deletion_work) act" where
  "PrepareAliasDeletion env aliasID =
     (if aliasID < 1 then failw (OtherErr ''alias ID must be positive'')
      else bnd (bnd (ask (\<lambda>k. en_GetAlias env k aliasID)) check_res) (\<lambda>alias.
        bnd (bnd (ask (\<lambda>k. en_GetAccount env k (a_AccountID alias))) check_res) (\<lambda>account.
        if NormalizeMailboxType (ac_MailboxType account) \<noteq> MailboxTypeICloud then failw (Coded KAccountMismatch None)
        else bnd (loadSession env \<lparr>j_accountID = a_AccountID alias, j_aliasID = aliasID, j_work = None, j_initialPending = False\<rparr>) (\<lambda>(w, session).
        bnd (check_res (aliasDeletionSubject session)) (\<lambda>subject.
        retn \<lparr>dw_ID = [], dw_Sequence = 0, dw_AccountID = a_AccountID alias, dw_AliasID = a_ID alias,
          dw_Address = NormalizeEmail (a_Address alias), dw_AccountEmail = NormalizeEmail (ac_Email account),
          dw_AppleID = NormalizeEmail (aw_AppleID w), dw_AppleSubject = subject, dw_Status = WsOther [], dw_ClaimToken = [],
          dw_Reconcile = False, dw_NextRunAt = zero_time, dw_WaitReason = [], dw_Operation = [], dw_Used = 0, dw_Limit = 0,
          dw_Attempts = 0, dw_HTTPStatus = 0, dw_ServiceCode = [], dw_Deleted = False, dw_Code = [], dw_Message = [],
          dw_LocalRetained = False, dw_CreatedAt = zero_time, dw_UpdatedAt = zero_time\<rparr>)))))"

end
