(* ===== verification/DeletionAttemptFacts.thy ===== *)
theory DeletionAttemptFacts
  imports DeletionAttempt
begin

section \<open>The history of a deletion attempt\<close>

subsection \<open>Operations in sequence\<close>

lemma bnd_cases:
  assumes "bnd m f s = (r, s')"
  obtains e where "m s = (Inl e, s')" and "r = Inl e" | x s1 where "m s = (Inr x, s1)" and "f x s1 = (r, s')"
  using assms by (auto simp: bnd_def split: prod.splits sum.splits)

lemma bnd_Inr: "bnd m f s = (Inr y, s'') \<longleftrightarrow> (\<exists>x s'. m s = (Inr x, s') \<and> f x s' = (Inr y, s''))"
  by (auto simp: bnd_def split: prod.splits sum.splits)

lemma act_simps [simp]:
  "retn x s = (Inr x, s)" "failw e s = (Inl e, s)" "upd f s = (Inr (), f s)" "look g s = (Inr (g s), s)"
  "ask h s = (Inr (h (b_calls s)), s\<lparr>b_calls := Suc (b_calls s)\<rparr>)"
  "emit ev s = (Inr (), s\<lparr>b_trace := b_trace s @ [ev]\<rparr>)"
  by (simp_all add: retn_def failw_def upd_def look_def ask_def emit_def)

lemma act_if [simp]: "(if c then m else m' :: ('db, 'a) act) s = (if c then m s else m' s)"
  by simp

lemma check_Inr [simp]: "check e s = (Inr u, s') \<longleftrightarrow> e = None \<and> s' = s" "check_res r s = (Inr x, s') \<longleftrightarrow> r = Inr x \<and> s' = s"
  by (auto simp: check_def check_res_def split: option.splits sum.splits)

subsection \<open>Steps that neither delete nor touch the lease\<close>

fun quiet_event :: "attempt_event \<Rightarrow> bool" where
  "quiet_event (EvChecked opn) \<longleftrightarrow> True"
| "quiet_event (EvDirectory d) \<longleftrightarrow> True"
| "quiet_event _ \<longleftrightarrow> False"

definition quiet_step :: "'db attempt \<Rightarrow> 'db attempt \<Rightarrow> bool" where
  "quiet_step s s' \<longleftrightarrow> (\<exists>evs. b_trace s' = b_trace s @ evs \<and> list_all quiet_event evs) \<and> b_lease s' = b_lease s \<and>
     b_address s' = b_address s \<and> b_mutationAttempted s' = b_mutationAttempted s"

lemma quiet_step_refl [simp]: "quiet_step s s"
  by (simp add: quiet_step_def)

lemma quiet_step_trans: "quiet_step s s1 \<Longrightarrow> quiet_step s1 s2 \<Longrightarrow> quiet_step s s2"
proof -
  assume a: "quiet_step s s1" "quiet_step s1 s2"
  then obtain e1 e2 where "b_trace s1 = b_trace s @ e1" "list_all quiet_event e1" "b_trace s2 = b_trace s1 @ e2" "list_all quiet_event e2"
    by (auto simp: quiet_step_def)
  then have "b_trace s2 = b_trace s @ (e1 @ e2)" "list_all quiet_event (e1 @ e2)" by simp_all
  then show ?thesis using a unfolding quiet_step_def by (intro conjI exI [of _ "e1 @ e2"]) simp_all
qed

definition quiet :: "('db, 'a) act \<Rightarrow> bool" where
  "quiet m \<longleftrightarrow> (\<forall>s. quiet_step s (snd (m s)))"

lemma quietD: "quiet m \<Longrightarrow> m s = (r, s') \<Longrightarrow> quiet_step s s'"
  by (metis quiet_def snd_conv)

named_theorems quiet_intros

lemma quiet_basic [quiet_intros]:
  "quiet (retn x)" "quiet (failw e)" "quiet (look g)" "quiet (ask h)"
  by (simp_all add: quiet_def quiet_step_def)

lemma quiet_upd [quiet_intros]:
  "(\<And>s. b_trace (f s) = b_trace s \<and> b_lease (f s) = b_lease s \<and> b_address (f s) = b_address s \<and>
     b_mutationAttempted (f s) = b_mutationAttempted s) \<Longrightarrow> quiet (upd f)"
  by (simp add: quiet_def quiet_step_def)

lemma quiet_emit [quiet_intros]: "quiet_event ev \<Longrightarrow> quiet (emit ev)"
  by (simp add: quiet_def quiet_step_def)

lemma quiet_bnd [quiet_intros]: "quiet m \<Longrightarrow> (\<And>x. quiet (f x)) \<Longrightarrow> quiet (bnd m f)"
  unfolding quiet_def by (auto simp: bnd_def split: prod.splits sum.splits) (metis quiet_step_trans snd_conv)+

lemma quiet_catch [quiet_intros]: "quiet m \<Longrightarrow> quiet (catch m)"
  by (auto simp: quiet_def catch_def split: prod.splits) (metis snd_conv)

lemma quiet_cases [quiet_intros]:
  "quiet m \<Longrightarrow> quiet m' \<Longrightarrow> quiet (if c then m else m')"
  "quiet m \<Longrightarrow> (\<And>x. quiet (g x)) \<Longrightarrow> quiet (case opt of None \<Rightarrow> m | Some x \<Rightarrow> g x)"
  "(\<And>x. quiet (h x)) \<Longrightarrow> (\<And>y. quiet (k y)) \<Longrightarrow> quiet (case r of Inl x \<Rightarrow> h x | Inr y \<Rightarrow> k y)"
  "(\<And>x y. quiet (u x y)) \<Longrightarrow> quiet (case p of (x, y) \<Rightarrow> u x y)"
  by (simp_all split: option.split sum.split prod.split)

lemma quiet_parts [quiet_intros]:
  "quiet (check e)" "quiet (check_res r)" "quiet (ctx_err env)" "quiet (stop_with x)"
  unfolding check_def check_res_def ctx_err_def stop_with_def by (intro quiet_intros; simp)+

lemma quiet_reads [quiet_intros]:
  "quiet (read_alias env job)" "quiet (checkWork env job b)" "quiet (find_remote a)" "quiet (loadSession env job)"
  unfolding read_alias_def checkWork_def find_remote_def loadSession_def by (intro quiet_intros)+

lemma quiet_recheck [quiet_intros]: "quiet (recheck env job opn)"
  unfolding recheck_def by (intro quiet_intros; simp)

lemma quiet_beforeRequest [quiet_intros]: "quiet (beforeRequest env job opn)"
  unfolding beforeRequest_def by (intro quiet_intros; simp)

lemma quiet_quota [quiet_intros]: "quiet (quota_wait env)" "quiet (defer_quota env e)"
  unfolding quota_wait_def defer_quota_def by (intro quiet_intros; simp)+

lemma quiet_expire [quiet_intros]: "quiet (expire env job e)"
  unfolding expire_def Let_def by (intro quiet_intros; simp)

lemma quiet_keep [quiet_intros]: "quiet (keep_session env job ret)"
  unfolding keep_session_def Let_def by (intro quiet_intros; simp)

lemma quiet_accept [quiet_intros]: "quiet (acceptResponse env job ret e)"
  unfolding acceptResponse_def Let_def by (intro quiet_intros; simp)

lemma quiet_list [quiet_intros]: "quiet (list_directory env job)"
  unfolding list_directory_def by (intro quiet_intros; simp)

lemma quiet_refresh [quiet_intros]: "quiet (refreshDirectory env job)"
  unfolding refreshDirectory_def by (intro quiet_intros; simp)

lemma quiet_initialize [quiet_intros]: "quiet (initialize env job)"
  unfolding initialize_def by (intro quiet_intros; simp)

lemma quiet_find_entry [quiet_intros]: "quiet (find_entry env job a)"
  unfolding find_entry_def by (intro quiet_intros)

subsection \<open>What success of a step means\<close>

lemma find_remote_is: "find_remote a s = (r, s') \<Longrightarrow> s' = s \<and> (r = Inr None \<longrightarrow> b_directory s (NormalizeEmail a) = None)"
  by (auto simp: find_remote_def bnd_def split: option.splits if_splits)

lemma refreshed:
  assumes "refreshDirectory env job s = (Inr u, s')"
  shows "\<exists>pre. b_trace s' = b_trace s @ pre @ [EvDirectory (b_directory s')] \<and> list_all quiet_event pre"
proof -
  from assms obtain directory s1 where l: "list_directory env job s = (Inr directory, s1)"
    and last: "b_trace s' = b_trace s1 @ [EvDirectory (b_directory s')]"
    by (auto simp: refreshDirectory_def bnd_Inr)
  from quietD [OF quiet_list l] last show ?thesis by (auto simp: quiet_step_def)
qed

text \<open>An address is confirmed as gone by a directory that was just read and does not have it.\<close>

definition gone :: "string \<Rightarrow> attempt_event list \<Rightarrow> bool" where
  "gone address evs \<longleftrightarrow> (\<exists>pre d. evs = pre @ [EvDirectory d] \<and> d address = None)"

lemma gone_append: "gone address evs \<Longrightarrow> gone address (xs @ evs)"
  by (auto simp: gone_def)

lemma reread_gone:
  assumes "bnd (refreshDirectory env job) (\<lambda>_. find_remote a) s = (Inr None, s')"
  shows "\<exists>evs. b_trace s' = b_trace s @ evs \<and> list_all quiet_event evs \<and> gone (NormalizeEmail a) evs"
proof -
  from assms obtain u s1 where r: "refreshDirectory env job s = (Inr u, s1)" and f: "find_remote a s1 = (Inr None, s')"
    by (auto simp: bnd_Inr)
  from refreshed [OF r] obtain pre where "b_trace s1 = b_trace s @ pre @ [EvDirectory (b_directory s1)]" "list_all quiet_event pre" by blast
  moreover from find_remote_is [OF f] have "s' = s1" "b_directory s1 (NormalizeEmail a) = None" by simp_all
  ultimately show ?thesis by (auto simp: gone_def)
qed

lemma entry_gone:
  assumes "find_entry env job alias s = (Inr None, s')"
  shows "\<exists>evs. b_trace s' = b_trace s @ evs \<and> list_all quiet_event evs \<and> gone (NormalizeEmail (a_Address alias)) evs"
proof (cases "b_valid s")
  case True
  with assms obtain s1 where f: "find_remote (a_Address alias) s = (Inr None, s1)"
    and r: "bnd (refreshDirectory env job) (\<lambda>_. find_remote (a_Address alias)) s1 = (Inr None, s')"
    by (auto simp: find_entry_def bnd_Inr split: if_splits)
  from find_remote_is [OF f] reread_gone [OF r] show ?thesis by simp
next
  case False
  with assms have "bnd (refreshDirectory env job) (\<lambda>_. find_remote (a_Address alias)) s = (Inr None, s')"
    by (auto simp: find_entry_def bnd_Inr split: if_splits)
  then show ?thesis by (rule reread_gone)
qed

lemma local_deleted: "deleteLocal env job s = (r, s') \<Longrightarrow> b_trace s' = b_trace s @ [EvLocal (j_aliasID job)] \<and>
    b_address s' = b_address s \<and> b_mutationAttempted s' = b_mutationAttempted s \<and> b_lease s' = b_lease s"
  by (auto simp: deleteLocal_def bnd_def split: option.splits if_splits)

lemma checked:
  assumes "beforeRequest env job opn s = (Inr u, s')"
  shows "\<exists>pre. b_trace s' = b_trace s @ pre @ [EvChecked opn] \<and> list_all quiet_event pre"
proof -
  from assms obtain u1 s1 where "recheck env job opn s = (Inr u1, s1)" "b_trace s' = b_trace s1 @ [EvChecked opn]"
    by (auto simp: beforeRequest_def bnd_Inr)
  with quietD [OF quiet_recheck this(1)] show ?thesis by (auto simp: quiet_step_def)
qed

subsection \<open>The lease\<close>

definition same_but_lease :: "'db attempt \<Rightarrow> 'db attempt \<Rightarrow> bool" where
  "same_but_lease s s' \<longleftrightarrow> b_trace s' = b_trace s \<and> b_address s' = b_address s \<and> b_mutationAttempted s' = b_mutationAttempted s"

lemma lease_act_same: "lease_act env opn s = (r, s') \<Longrightarrow> same_but_lease s s'"
  by (auto simp: lease_act_def bnd_def check_def same_but_lease_def split: option.splits prod.splits sum.splits)

lemma release_same: "release_lease env s = (r, s') \<Longrightarrow> same_but_lease s s'"
  unfolding release_lease_def by (rule lease_act_same)

lemma commit_same: "commit_lease env s = (r, s') \<Longrightarrow> same_but_lease s s'"
  by (auto simp: commit_lease_def bnd_def same_but_lease_def dest!: lease_act_same)

lemma marked:
  assumes "mark_sent env s = (r, s')"
  shows "(\<exists>e. r = Inl e \<and> b_trace s' = b_trace s) \<or> (r = Inr () \<and> b_trace s' = b_trace s @ [EvSent (dl_id (b_lease s))])"
    and "b_address s' = b_address s" and "b_mutationAttempted s' = b_mutationAttempted s"
proof -
  have id: "dl_id (b_lease s2) = dl_id (b_lease s1)" if "lease_act env (\<lambda>r p. lease_markSent r p now) s1 = (Inr (), s2)" for now s1 s2
    using that by (auto simp: lease_act_def bnd_def check_def lease_markSent_def split: option.splits prod.splits sum.splits if_splits)
  let ?s0 = "s\<lparr>b_calls := Suc (b_calls s)\<rparr>"
  obtain q s2 where q: "lease_act env (\<lambda>r p. lease_markSent r p (en_now env (b_calls s))) ?s0 = (q, s2)" by fastforce
  have same: "same_but_lease ?s0 s2" by (rule lease_act_same [OF q])
  have "(\<exists>e. r = Inl e \<and> b_trace s' = b_trace s) \<or> (r = Inr () \<and> b_trace s' = b_trace s @ [EvSent (dl_id (b_lease s))])"
    "b_address s' = b_address s \<and> b_mutationAttempted s' = b_mutationAttempted s"
    using assms q same id [of "en_now env (b_calls s)" ?s0 s2]
    by (cases q; auto simp: mark_sent_def bnd_def same_but_lease_def)+
  then show "(\<exists>e. r = Inl e \<and> b_trace s' = b_trace s) \<or> (r = Inr () \<and> b_trace s' = b_trace s @ [EvSent (dl_id (b_lease s))])"
    "b_address s' = b_address s" "b_mutationAttempted s' = b_mutationAttempted s" by simp_all
qed

lemma reserved:
  assumes "reserve_quota env s = (r, s')"
  shows "(\<exists>e. r = Inl e \<and> b_trace s' = b_trace s) \<or> (r = Inr () \<and> b_trace s' = b_trace s @ [EvReserved (dl_id (b_lease s'))])"
    and "b_address s' = b_address s" and "b_mutationAttempted s' = b_mutationAttempted s"
  using assms by (auto simp: reserve_quota_def bnd_def split: prod.splits sum.splits)

subsection \<open>The permanent deletion\<close>

abbreviation address_of :: "mail_alias \<Rightarrow> string" where
  "address_of alias \<equiv> NormalizeEmail (a_Address alias)"

text \<open>What happens between two states: the history grows, the address stays, and a mutation is noted exactly when it is sent.\<close>

fun mutates :: "attempt_event \<Rightarrow> bool" where
  "mutates (EvDeactivate i) \<longleftrightarrow> True"
| "mutates (EvDelete i) \<longleftrightarrow> True"
| "mutates _ \<longleftrightarrow> False"

definition grows :: "'db attempt \<Rightarrow> 'db attempt \<Rightarrow> attempt_event list \<Rightarrow> bool" where
  "grows s s' evs \<longleftrightarrow> b_trace s' = b_trace s @ evs \<and> b_address s' = b_address s \<and>
     (b_mutationAttempted s' \<longleftrightarrow> b_mutationAttempted s \<or> list_ex mutates evs)"

lemma quiet_mutates: "list_all quiet_event evs \<Longrightarrow> \<not> list_ex mutates evs"
  by (induction evs) (auto elim: quiet_event.elims)

lemma grows_trans: "grows s s1 e1 \<Longrightarrow> grows s1 s2 e2 \<Longrightarrow> grows s s2 (e1 @ e2)"
  by (simp add: grows_def)

lemma quiet_grows: "quiet_step s s' \<Longrightarrow> \<exists>evs. grows s s' evs \<and> list_all quiet_event evs"
  by (auto simp: quiet_step_def grows_def quiet_mutates)

lemma quiet_reconcile [quiet_intros]: "quiet (reconcile env job alias)"
  unfolding reconcile_def by (intro quiet_intros)

lemma settled_delete:
  assumes "settle_delete env job alias i commitErr mapped fatal s = (r, s')"
  shows "\<exists>mid. list_all quiet_event mid \<and>
    ((grows s s' mid \<and> isl r) \<or> grows s s' [EvConfirmed i, EvLocal (j_aliasID job)] \<or>
     (grows s s' (mid @ [EvLocal (j_aliasID job)]) \<and> gone (address_of alias) mid))"
proof (cases commitErr)
  case (Inl c)
  with assms have "grows s s' []" "isl r" by (auto simp: settle_delete_def stop_with_def bnd_def grows_def)
  then show ?thesis by (intro exI [of _ "[]"]) simp
next
  case (Inr u)
  show ?thesis
  proof (cases mapped)
    case None
    let ?s = "s\<lparr>b_trace := b_trace s @ [EvConfirmed i], b_directory := (b_directory s)(address_of alias := None)\<rparr>"
    from assms Inr None have "deleteLocal env job ?s = (r, s')" by (simp add: settle_delete_def bnd_def)
    from local_deleted [OF this] have "grows s s' [EvConfirmed i, EvLocal (j_aliasID job)]" by (simp add: grows_def)
    then show ?thesis by (intro exI [of _ "[]"]) simp
  next
    case (Some e)
    let ?s = "s\<lparr>b_valid := False\<rparr>"
    show ?thesis
    proof (cases "fatal \<or> as_wait e \<noteq> None")
      case True
      with assms Inr Some have "grows s s' []" "isl r" by (auto simp: settle_delete_def bnd_def grows_def split: if_splits)
      then show ?thesis by (intro exI [of _ "[]"]) simp
    next
      case False
      obtain q s1 where q: "reconcile env job alias ?s = (q, s1)" by fastforce
      from assms Inr Some False q have rest: "(case q of Inl x \<Rightarrow> failw (Joined [x, e])
          | Inr present \<Rightarrow> if present \<noteq> None then failw e else deleteLocal env job) s1 = (r, s')"
        by (simp add: settle_delete_def bnd_def catch_def del: not_None_eq not_Some_eq)
      from quietD [OF quiet_reconcile q] have "quiet_step s s1" by (simp add: quiet_step_def)
      then obtain evs where evs: "grows s s1 evs" "list_all quiet_event evs" using quiet_grows by blast
      show ?thesis
      proof (cases "q = Inr None")
        case True
        with rest have "deleteLocal env job s1 = (r, s')" by simp
        from local_deleted [OF this] evs(1) have g: "grows s s' (evs @ [EvLocal (j_aliasID job)])" by (simp add: grows_def)
        from reread_gone [OF q [unfolded reconcile_def True]] evs(1) have "gone (address_of alias) evs" by (auto simp: grows_def)
        with g evs(2) show ?thesis by blast
      next
        case False
        with rest have "s' = s1" "isl r" by (auto split: sum.splits if_splits)
        with evs show ?thesis by blast
      qed
    qed
  qed
qed

definition delete_shape :: "string \<Rightarrow> int \<Rightarrow> string \<Rightarrow> attempt_error + 'a \<Rightarrow> attempt_event list \<Rightarrow> bool" where
  "delete_shape lease aliasID address r evs \<longleftrightarrow>
     (list_all quiet_event evs \<and> isl r) \<or>
     (\<exists>pre. evs = pre @ [EvChecked ''delete'', EvSent lease] \<and> list_all quiet_event pre \<and> isl r) \<or>
     (\<exists>pre i mid loc. evs = pre @ [EvChecked ''delete'', EvSent lease, EvDelete i] @ mid @ loc \<and> list_all quiet_event pre \<and>
        list_all quiet_event mid \<and>
        ((loc = [] \<and> isl r) \<or> loc = [EvConfirmed i, EvLocal aliasID] \<or> (loc = [EvLocal aliasID] \<and> gone address mid)))"

lemma sent_delete:
  assumes "send_delete env job alias i s = (r, s')"
  shows "\<exists>mid loc. grows s s' ([EvDelete i] @ mid @ loc) \<and> list_all quiet_event mid \<and>
    ((loc = [] \<and> isl r) \<or> loc = [EvConfirmed i, EvLocal (j_aliasID job)] \<or> (loc = [EvLocal (j_aliasID job)] \<and> gone (address_of alias) mid))"
proof -
  let ?s1 = "s\<lparr>b_mutationAttempted := True, b_trace := b_trace s @ [EvDelete i]\<rparr>"
  obtain returned remoteErr where ans: "en_RemoteDelete env (b_calls s) (b_session s) i = (returned, remoteErr)" by fastforce
  obtain c s2 where c: "commit_lease env (?s1\<lparr>b_calls := Suc (b_calls s)\<rparr>) = (c, s2)" by fastforce
  obtain a s3 where a: "acceptResponse env job returned remoteErr s2 = (a, s3)" by fastforce
  have g2: "grows s s2 [EvDelete i]" using commit_same [OF c] by (simp add: same_but_lease_def grows_def)
  from quietD [OF quiet_accept a] have q: "quiet_step s2 s3" .
  then obtain evs where evs: "grows s2 s3 evs" "list_all quiet_event evs" using quiet_grows by blast
  have g3: "grows s s3 ([EvDelete i] @ evs)" by (rule grows_trans [OF g2 evs(1)])
  show ?thesis
  proof (cases a)
    case (Inl e)
    with assms ans c a have "s' = s3" "isl r" by (auto simp: send_delete_def bnd_def catch_def)
    with g3 evs(2) show ?thesis by (intro exI [of _ evs] exI [of _ "[]"]) simp
  next
    case (Inr p)
    then obtain mapped fatal where p: "a = Inr (mapped, fatal)" by (cases p) simp
    with assms ans c a have "settle_delete env job alias i c mapped fatal s3 = (r, s')" by (simp add: send_delete_def bnd_def catch_def)
    from settled_delete [OF this] obtain mid where mid: "list_all quiet_event mid"
      "(grows s3 s' mid \<and> isl r) \<or> grows s3 s' [EvConfirmed i, EvLocal (j_aliasID job)] \<or>
       (grows s3 s' (mid @ [EvLocal (j_aliasID job)]) \<and> gone (address_of alias) mid)" by blast
    from mid(2) show ?thesis
    proof (elim disjE conjE)
      assume "grows s3 s' mid" "isl r"
      with grows_trans [OF g3 this(1)] evs(2) mid(1) show ?thesis
        by (intro exI [of _ "evs @ mid"] exI [of _ "[]"]) simp
    next
      assume "grows s3 s' [EvConfirmed i, EvLocal (j_aliasID job)]"
      from grows_trans [OF g3 this] evs(2) show ?thesis
        by (intro exI [of _ evs] exI [of _ "[EvConfirmed i, EvLocal (j_aliasID job)]"]) simp
    next
      assume "grows s3 s' (mid @ [EvLocal (j_aliasID job)])" "gone (address_of alias) mid"
      with grows_trans [OF g3 this(1)] gone_append [OF this(2), of evs] evs(2) mid(1) show ?thesis
        by (intro exI [of _ "evs @ mid"] exI [of _ "[EvLocal (j_aliasID job)]"]) simp
    qed
  qed
qed

lemma delete_history:
  assumes "delete_remote env job alias i s = (r, s')"
  shows "\<exists>evs. grows s s' evs \<and> delete_shape (dl_id (b_lease s)) (j_aliasID job) (address_of alias) r evs"
  using assms [unfolded delete_remote_def]
proof (cases rule: bnd_cases)
  case (1 e)
  then obtain evs where evs: "grows s s' evs" "list_all quiet_event evs" "isl r"
    using quiet_grows [OF quietD [OF quiet_beforeRequest 1(1)]] by auto
  then show ?thesis by (intro exI [of _ evs]) (simp add: delete_shape_def)
next
  case (2 u s1)
  from checked [OF 2(1)] obtain pre where pre: "b_trace s1 = b_trace s @ pre @ [EvChecked ''delete'']" "list_all quiet_event pre" by blast
  have q: "quiet_step s s1" by (rule quietD [OF quiet_beforeRequest 2(1)])
  then have l: "b_lease s1 = b_lease s" and g1: "grows s s1 (pre @ [EvChecked ''delete''])"
    using pre quiet_mutates [OF pre(2)] by (simp_all add: quiet_step_def grows_def)
  from 2(2) show ?thesis
  proof (cases rule: bnd_cases)
    case (1 e)
    with marked [OF 1(1)] g1 have "grows s s' (pre @ [EvChecked ''delete''])" "isl r" by (auto simp: grows_def)
    with pre(2) show ?thesis by (intro exI [of _ "pre @ [EvChecked ''delete'']"]) (simp add: delete_shape_def)
  next
    case (2 u2 s2)
    from marked [OF 2(1)] l have "grows s1 s2 [EvSent (dl_id (b_lease s))]" by (simp add: grows_def)
    from grows_trans [OF g1 this] have g2: "grows s s2 (pre @ [EvChecked ''delete'', EvSent (dl_id (b_lease s))])" by simp
    from 2(2) show ?thesis
    proof (cases rule: bnd_cases)
      case (1 e)
      from quietD [OF quiet_parts(3) 1(1)] have "grows s2 s' []"
        using 1(1) by (auto simp: ctx_err_def bnd_def grows_def split: if_splits)
      from grows_trans [OF g2 this] 1(2) pre(2) show ?thesis
        by (intro exI [of _ "pre @ [EvChecked ''delete'', EvSent (dl_id (b_lease s))]"]) (auto simp: delete_shape_def)
    next
      case (2 u3 s3)
      then have "grows s2 s3 []" by (auto simp: ctx_err_def bnd_def grows_def split: if_splits)
      from grows_trans [OF g2 this] have g3: "grows s s3 (pre @ [EvChecked ''delete'', EvSent (dl_id (b_lease s))])" by simp
      from sent_delete [OF 2(2)] obtain mid loc where m: "grows s3 s' ([EvDelete i] @ mid @ loc)" "list_all quiet_event mid"
        "(loc = [] \<and> isl r) \<or> loc = [EvConfirmed i, EvLocal (j_aliasID job)] \<or> (loc = [EvLocal (j_aliasID job)] \<and> gone (address_of alias) mid)"
        by blast
      let ?evs = "pre @ [EvChecked ''delete'', EvSent (dl_id (b_lease s)), EvDelete i] @ mid @ loc"
      from grows_trans [OF g3 m(1)] have "grows s s' ?evs" by simp
      moreover have "delete_shape (dl_id (b_lease s)) (j_aliasID job) (address_of alias) r ?evs"
        unfolding delete_shape_def using pre(2) m(2,3) by blast
      ultimately show ?thesis by blast
    qed
  qed
qed

subsection \<open>The deactivation\<close>

lemma accept_none: "acceptResponse env job ret e s = (Inr (None, fatal), s') \<Longrightarrow> e = None"
  by (cases e) (auto simp: acceptResponse_def map_response_def bnd_Inr Let_def has_kind_def split: if_splits sum.splits option.splits)

lemma settled_deactivate:
  assumes "settle_deactivate env job alias remote remoteID released mapped fatal s = (r, s')"
  shows "\<exists>mid tl. grows s s' (mid @ tl) \<and> list_all quiet_event mid \<and>
    ((tl = [] \<and> isl r) \<or> (mid = [] \<and> tl = [] \<and> b_lease s' = b_lease s \<and> mapped = None \<and> (\<exists>k. r = Inr (Some k))) \<or>
     (tl = [EvLocal (j_aliasID job)] \<and> gone (address_of alias) mid \<and> (isl r \<or> r = Inr None)) \<or>
     (tl = [EvReserved (dl_id (b_lease s'))] \<and> (\<exists>k. r = Inr (Some k))))"
proof (cases released)
  case (Inl x)
  with assms have "grows s s' []" "isl r" by (auto simp: settle_deactivate_def grows_def)
  then show ?thesis by (intro exI [of _ "[]"]) simp
next
  case (Inr u)
  show ?thesis
  proof (cases mapped)
    case None
    with assms Inr have "grows s s' []" "b_lease s' = b_lease s" "\<exists>k. r = Inr (Some k)" by (auto simp: settle_deactivate_def grows_def bnd_def)
    with None show ?thesis by (intro exI [of _ "[]"]) simp
  next
    case (Some e)
    obtain q s1 where q: "release_lease env s = (q, s1)" by fastforce
    let ?s1 = "s1\<lparr>b_valid := False\<rparr>"
    have g1: "grows s ?s1 []" using release_same [OF q] by (simp add: same_but_lease_def grows_def)
    show ?thesis
    proof (cases "isl q \<or> fatal \<or> as_wait e \<noteq> None")
      case True
      with assms Inr Some q have "isl r" "b_trace s' = b_trace s1 \<and> b_address s' = b_address s1 \<and> b_mutationAttempted s' = b_mutationAttempted s1"
        by (auto simp: settle_deactivate_def bnd_def catch_def split: sum.splits if_splits)
      with g1 show ?thesis by (intro exI [of _ "[]"]) (simp add: grows_def)
    next
      case False
      obtain p s2 where p: "reconcile env job alias ?s1 = (p, s2)" by fastforce
      from quiet_grows [OF quietD [OF quiet_reconcile p]] obtain evs where evs: "grows ?s1 s2 evs" "list_all quiet_event evs" by blast
      have g2: "grows s s2 evs" using grows_trans [OF g1 evs(1)] by simp
      from False obtain v where v: "q = Inr v" by (cases q) auto
      show ?thesis
      proof (cases "p = Inr None")
        case True
        with assms Inr Some q v False p obtain r1 s3 where l: "deleteLocal env job s2 = (r1, s3)" "s' = s3" "isl r \<or> r = Inr None"
          by (auto simp: settle_deactivate_def bnd_def catch_def split: prod.splits sum.splits)
        from local_deleted [OF l(1)] l(2) have "grows s2 s' [EvLocal (j_aliasID job)]" by (simp add: grows_def)
        from grows_trans [OF g2 this] have "grows s s' (evs @ [EvLocal (j_aliasID job)])" .
        moreover from reread_gone [OF p [unfolded reconcile_def True]] evs(1) have "gone (address_of alias) evs" by (auto simp: grows_def)
        ultimately show ?thesis using evs(2) l(3) by blast
      next
        case other: False
        show ?thesis
        proof (cases "s' = s2 \<and> isl r")
          case True
          with g2 evs(2) show ?thesis by (intro exI [of _ evs] exI [of _ "[]"]) simp
        next
          case no: False
          with assms Inr Some q v False p other obtain r1 where l: "reserve_quota env s2 = (r1, s')" and e: "isl r1 \<Longrightarrow> isl r"
            and k: "\<not> isl r1 \<Longrightarrow> \<exists>k. r = Inr (Some k)"
            by (auto simp: settle_deactivate_def bnd_def catch_def split: prod.splits sum.splits option.splits if_splits)
          from reserved [OF l] show ?thesis
          proof (elim disjE exE conjE)
            fix x assume "r1 = Inl x" "b_trace s' = b_trace s2" "b_address s' = b_address s2" "b_mutationAttempted s' = b_mutationAttempted s2"
            with g2 e have "grows s s' evs" "isl r" by (simp_all add: grows_def)
            with evs(2) show ?thesis by (intro exI [of _ evs] exI [of _ "[]"]) simp
          next
            assume "r1 = Inr ()" "b_trace s' = b_trace s2 @ [EvReserved (dl_id (b_lease s'))]" "b_address s' = b_address s2" "b_mutationAttempted s' = b_mutationAttempted s2"
            with g2 k have "grows s s' (evs @ [EvReserved (dl_id (b_lease s'))])" "\<exists>k. r = Inr (Some k)" by (simp_all add: grows_def)
            with evs(2) show ?thesis by blast
          qed
        qed
      qed
    qed
  qed
qed


lemma deactivated:
  assumes "deactivate env job alias remote remoteID s = (r, s')"
  shows "(\<exists>evs. grows s s' evs \<and> list_all quiet_event evs \<and> isl r) \<or>
    (\<exists>pre mid tl. grows s s' (pre @ [EvChecked ''deactivate'', EvDeactivate remoteID] @ mid @ tl) \<and>
      list_all quiet_event pre \<and> list_all quiet_event mid \<and>
      ((tl = [] \<and> isl r) \<or> (tl = [] \<and> b_lease s' = b_lease s \<and> (\<exists>k. r = Inr (Some k))) \<or>
       (tl = [EvLocal (j_aliasID job)] \<and> gone (address_of alias) mid \<and> (isl r \<or> r = Inr None)) \<or>
       (tl = [EvReserved (dl_id (b_lease s'))] \<and> (\<exists>k. r = Inr (Some k)))))"
  using assms [unfolded deactivate_def]
proof (cases rule: bnd_cases)
  case (1 e)
  then show ?thesis using quiet_grows [OF quietD [OF quiet_beforeRequest 1(1)]] by auto
next
  case (2 u s1)
  from checked [OF 2(1)] obtain pre where pre: "b_trace s1 = b_trace s @ pre @ [EvChecked ''deactivate'']" "list_all quiet_event pre" by blast
  from quietD [OF quiet_beforeRequest 2(1)] pre quiet_mutates [OF pre(2)]
  have l1: "b_lease s1 = b_lease s" and g1: "grows s s1 (pre @ [EvChecked ''deactivate''])" by (simp_all add: quiet_step_def grows_def)
  let ?s1 = "s1\<lparr>b_mutationAttempted := True, b_trace := b_trace s1 @ [EvDeactivate remoteID], b_calls := Suc (b_calls s1)\<rparr>"
  have ga: "grows s1 ?s1 [EvDeactivate remoteID]" by (simp add: grows_def)
  obtain returned remoteErr where ans: "en_DeactivateAlias env (b_calls s1) (b_session s1) remoteID = (returned, remoteErr)" by fastforce
  obtain c s2 where c: "(if remoteErr \<noteq> None then catch (release_lease env) else retn (Inr ())) ?s1 = (Inr c, s2)"
    by (cases "release_lease env ?s1"; cases remoteErr) (auto simp: catch_def)
  have sl: "same_but_lease ?s1 s2" and l2: "remoteErr = None \<Longrightarrow> b_lease s2 = b_lease s"
    using c l1 by (auto simp: catch_def same_but_lease_def dest!: release_same split: if_splits prod.splits)
  from sl ga have g2: "grows s1 s2 [EvDeactivate remoteID]" by (simp add: grows_def same_but_lease_def)
  obtain a s3 where a: "acceptResponse env job returned remoteErr s2 = (a, s3)" by fastforce
  from quietD [OF quiet_accept a] have q: "quiet_step s2 s3" .
  then obtain evs where evs: "grows s2 s3 evs" "list_all quiet_event evs" using quiet_grows by blast
  have g3: "grows s s3 (pre @ [EvChecked ''deactivate'', EvDeactivate remoteID] @ evs)"
    using grows_trans [OF grows_trans [OF g1 g2] evs(1)] by simp
  show ?thesis
  proof (cases a)
    case (Inl e)
    with 2(2) ans c a have "s' = s3" "isl r" by (auto simp: bnd_def)
    with g3 pre(2) evs(2) show ?thesis by (intro disjI2 exI [of _ pre] exI [of _ evs] exI [of _ "[]"]) simp
  next
    case (Inr m)
    then obtain mapped fatal where m: "a = Inr (mapped, fatal)" by (cases m) simp
    with 2(2) ans c a have "settle_deactivate env job alias remote remoteID c mapped fatal s3 = (r, s')" by (simp add: bnd_def)
    from settled_deactivate [OF this] obtain mid tl where t: "grows s3 s' (mid @ tl)" "list_all quiet_event mid"
      "(tl = [] \<and> isl r) \<or> (mid = [] \<and> tl = [] \<and> b_lease s' = b_lease s3 \<and> mapped = None \<and> (\<exists>k. r = Inr (Some k))) \<or>
       (tl = [EvLocal (j_aliasID job)] \<and> gone (address_of alias) mid \<and> (isl r \<or> r = Inr None)) \<or>
       (tl = [EvReserved (dl_id (b_lease s'))] \<and> (\<exists>k. r = Inr (Some k)))" by blast
    have "b_lease s3 = b_lease s" if "mapped = None"
      using accept_none [OF a [unfolded m that]] l2 q by (simp add: quiet_step_def)
    with t(3) have "(tl = [] \<and> isl r) \<or> (tl = [] \<and> b_lease s' = b_lease s \<and> (\<exists>k. r = Inr (Some k))) \<or>
       (tl = [EvLocal (j_aliasID job)] \<and> gone (address_of alias) (evs @ mid) \<and> (isl r \<or> r = Inr None)) \<or>
       (tl = [EvReserved (dl_id (b_lease s'))] \<and> (\<exists>k. r = Inr (Some k)))" using gone_append by metis
    moreover have "grows s s' (pre @ [EvChecked ''deactivate'', EvDeactivate remoteID] @ (evs @ mid) @ tl)"
      using grows_trans [OF g3 t(1)] by simp
    moreover have "list_all quiet_event (evs @ mid)" using evs(2) t(2) by simp
    ultimately show ?thesis using pre(2) by blast
  qed
qed


subsection \<open>The whole attempt\<close>

definition gives :: "'a \<Rightarrow> ('db, 'a) act \<Rightarrow> bool" where
  "gives x m \<longleftrightarrow> (\<forall>s y s'. m s = (Inr y, s') \<longrightarrow> y = x)"

lemma gives_intros:
  "gives x (retn x)" "gives x (failw e)" "gives x (stop_with e)" "(\<And>y. gives x (f y)) \<Longrightarrow> gives x (bnd n f)"
  "gives x m \<Longrightarrow> gives x m' \<Longrightarrow> gives x (if c then m else m')"
  "(\<And>z. gives x (h z)) \<Longrightarrow> (\<And>z. gives x (k z)) \<Longrightarrow> gives x (case q of Inl z \<Rightarrow> h z | Inr z \<Rightarrow> k z)"
  by (auto simp: gives_def stop_with_def bnd_Inr split: sum.splits)

lemma quiet_admit: "quiet (admit env job a)"
  unfolding admit_def by (intro quiet_intros; simp)

lemma gives_admit: "gives a (admit env job a)"
  unfolding admit_def by (intro gives_intros)

lemma begun:
  assumes "begin_attempt env job s = (r, s')"
  shows "\<exists>evs. b_trace s' = b_trace s @ evs \<and> list_all quiet_event evs \<and> b_mutationAttempted s' = b_mutationAttempted s \<and>
    (\<forall>alias. r = Inr alias \<longrightarrow> b_address s' = address_of alias)"
  using assms [unfolded begin_attempt_def]
proof (cases rule: bnd_cases)
  case (1 e)
  then show ?thesis using quietD [OF quiet_parts(3) 1(1)] by (auto simp: quiet_step_def)
next
  case (2 u s1)
  from quietD [OF quiet_parts(3) 2(1)] have q1: "quiet_step s s1" .
  from 2(2) show ?thesis
  proof (cases rule: bnd_cases)
    case (1 e)
    with quiet_step_trans [OF q1 quietD [OF quiet_reads(1) 1(1)]] show ?thesis by (auto simp: quiet_step_def)
  next
    case (2 al s2)
    from quiet_step_trans [OF q1 quietD [OF quiet_reads(1) 2(1)]] have q2: "quiet_step s s2" .
    show ?thesis
    proof (cases "a_AccountID al \<noteq> j_accountID job")
      case True
      with 2(2) have "r = Inl account_changed" "s' = s2" by simp_all
      with q2 show ?thesis by (auto simp: quiet_step_def)
    next
      case False
      with 2(2) have m: "admit env job al (s2\<lparr>b_address := address_of al\<rparr>) = (r, s')" by (simp add: bnd_def)
      from quietD [OF quiet_admit m] q2 m gives_admit [of al env job] show ?thesis by (fastforce simp: quiet_step_def gives_def)
    qed
  qed
qed

text \<open>
  The history of an attempt: reading only; the local row removed after a directory without the address; or
  an allowance, then the deletion at Apple, before it a deactivation when the address was active.
\<close>

definition tail_shape :: "string \<Rightarrow> int \<Rightarrow> string \<Rightarrow> attempt_error + 'a \<Rightarrow> attempt_event list \<Rightarrow> bool" where
  "tail_shape lease aliasID address r evs \<longleftrightarrow>
     delete_shape lease aliasID address r evs \<or>
     (\<exists>pre i mid tl. evs = pre @ [EvChecked ''deactivate'', EvDeactivate i] @ mid @ tl \<and> list_all quiet_event pre \<and> list_all quiet_event mid \<and>
        ((tl = [EvLocal aliasID] \<and> gone address mid) \<or> delete_shape lease aliasID address r tl \<or>
         (\<exists>lease2 tl2. tl = EvReserved lease2 # tl2 \<and> delete_shape lease2 aliasID address r tl2)))"

definition attempt_shape :: "int \<Rightarrow> string \<Rightarrow> attempt_error + 'a \<Rightarrow> attempt_event list \<Rightarrow> bool" where
  "attempt_shape aliasID address r evs \<longleftrightarrow>
     (list_all quiet_event evs \<and> isl r) \<or>
     (\<exists>pre. evs = pre @ [EvLocal aliasID] \<and> list_all quiet_event pre \<and> gone address pre) \<or>
     (\<exists>pre lease tl. evs = pre @ EvReserved lease # tl \<and> list_all quiet_event pre \<and> tail_shape lease aliasID address r tl)"

lemma tail_deactivated:
  assumes "list_all quiet_event pre" "list_all quiet_event mid"
    "(es = [EvLocal aliasID] \<and> gone address mid) \<or> delete_shape lease aliasID address r es \<or>
       (\<exists>lease2 tl2. es = EvReserved lease2 # tl2 \<and> delete_shape lease2 aliasID address r tl2)"
  shows "tail_shape lease aliasID address r (pre @ [EvChecked ''deactivate'', EvDeactivate i] @ mid @ es)"
  unfolding tail_shape_def using assms by blast

lemma attempt_reserved:
  "list_all quiet_event pre \<Longrightarrow> tail_shape lease aliasID address r es \<Longrightarrow>
    attempt_shape aliasID address r (pre @ EvReserved lease # es)"
  unfolding attempt_shape_def by blast

lemma delete_shape_error: "isl r \<Longrightarrow> delete_shape lease aliasID address r []"
  by (simp add: delete_shape_def)

lemma mutation_history:
  assumes "bnd (if c then deactivate env job alias remote remoteID else retn (Some remoteID))
      (\<lambda>target. case target of None \<Rightarrow> retn () | Some i \<Rightarrow> delete_remote env job alias i) s = (r, s')"
  shows "\<exists>evs. grows s s' evs \<and> tail_shape (dl_id (b_lease s)) (j_aliasID job) (address_of alias) r evs"
proof (cases c)
  case False
  with assms have "delete_remote env job alias remoteID s = (r, s')" by (simp add: bnd_def)
  from delete_history [OF this] show ?thesis by (auto simp: tail_shape_def)
next
  case True
  obtain p s1 where p: "deactivate env job alias remote remoteID s = (p, s1)" by fastforce
  from assms True p have rest: "(case p of Inl e \<Rightarrow> (Inl e, s1) | Inr None \<Rightarrow> (Inr (), s1)
      | Inr (Some k) \<Rightarrow> delete_remote env job alias k s1) = (r, s')"
    by (auto simp: bnd_def split: sum.splits option.splits)
  from deactivated [OF p] show ?thesis
  proof (elim disjE exE conjE)
    fix evs assume "grows s s1 evs" "list_all quiet_event evs" "isl p"
    with rest show ?thesis by (cases p) (auto simp: tail_shape_def delete_shape_def)
  next
    fix pre mid tl
    assume g: "grows s s1 (pre @ [EvChecked ''deactivate'', EvDeactivate remoteID] @ mid @ tl)" "list_all quiet_event pre" "list_all quiet_event mid"
    note sh = tail_deactivated [OF g(2,3)]
    {
      assume t: "tl = []" "isl p"
      then obtain e where "p = Inl e" by (cases p) simp_all
      with rest have e: "s' = s1" "r = Inl e" by simp_all
      have "tail_shape (dl_id (b_lease s)) (j_aliasID job) (address_of alias) r (pre @ [EvChecked ''deactivate'', EvDeactivate remoteID] @ mid @ [])"
        by (rule sh) (simp add: e delete_shape_error)
      with g(1) t(1) e(1) show ?thesis by blast
    next
      fix k assume t: "tl = []" "b_lease s1 = b_lease s" "p = Inr (Some k)"
      with rest have "delete_remote env job alias k s1 = (r, s')" by simp
      from delete_history [OF this] t(2) obtain e2 where e2: "grows s1 s' e2" "delete_shape (dl_id (b_lease s)) (j_aliasID job) (address_of alias) r e2" by auto
      from grows_trans [OF g(1) e2(1)] t(1) have "grows s s' (pre @ [EvChecked ''deactivate'', EvDeactivate remoteID] @ mid @ e2)" by simp
      with sh [OF disjI2, OF disjI1, OF e2(2)] show ?thesis by blast
    next
      assume t: "tl = [EvLocal (j_aliasID job)]" "gone (address_of alias) mid" "isl p"
      with rest have "s' = s1" by (cases p) simp_all
      with g(1) sh [OF disjI1, OF conjI [OF t(1,2)]] show ?thesis by blast
    next
      assume t: "tl = [EvLocal (j_aliasID job)]" "gone (address_of alias) mid" "p = Inr None"
      with rest have "s' = s1" by simp
      with g(1) sh [OF disjI1, OF conjI [OF t(1,2)]] show ?thesis by blast
    next
      fix k assume t: "tl = [EvReserved (dl_id (b_lease s1))]" "p = Inr (Some k)"
      with rest have "delete_remote env job alias k s1 = (r, s')" by simp
      from delete_history [OF this] obtain e2 where e2: "grows s1 s' e2" "delete_shape (dl_id (b_lease s1)) (j_aliasID job) (address_of alias) r e2" by blast
      let ?tl = "EvReserved (dl_id (b_lease s1)) # e2"
      from grows_trans [OF g(1) e2(1)] t(1) have "grows s s' (pre @ [EvChecked ''deactivate'', EvDeactivate remoteID] @ mid @ ?tl)" by simp
      moreover have "tail_shape (dl_id (b_lease s)) (j_aliasID job) (address_of alias) r (pre @ [EvChecked ''deactivate'', EvDeactivate remoteID] @ mid @ ?tl)"
        by (rule sh) (use e2(2) in blast)
      ultimately show ?thesis by blast
    }
  qed
qed

lemma released_grows: "release_lease env s = (q, s') \<Longrightarrow> grows s s' []"
  by (drule release_same) (simp add: same_but_lease_def grows_def)

lemma attempt_history:
  assumes "delete_attempt env job s = (r, s')"
  shows "\<exists>evs. b_trace s' = b_trace s @ evs \<and> (b_mutationAttempted s' \<longleftrightarrow> b_mutationAttempted s \<or> list_ex mutates evs) \<and>
    attempt_shape (j_aliasID job) (b_address s') r evs"
  using assms [unfolded delete_attempt_def]
proof (cases rule: bnd_cases)
  case (1 e)
  with begun [OF 1(1)] show ?thesis by (auto simp: attempt_shape_def quiet_mutates)
next
  case (2 al s1)
  from begun [OF 2(1)] obtain e1 where b: "b_trace s1 = b_trace s @ e1" "list_all quiet_event e1" "b_mutationAttempted s1 = b_mutationAttempted s"
    "b_address s1 = address_of al" by auto
  from 2(2) show ?thesis
  proof (cases rule: bnd_cases)
    case (1 e)
    from quiet_grows [OF quietD [OF quiet_find_entry 1(1)]] obtain e2 where "grows s1 s' e2" "list_all quiet_event e2" by blast
    with b 1(2) show ?thesis by (intro exI [of _ "e1 @ e2"]) (simp add: attempt_shape_def grows_def quiet_mutates)
  next
    case (2 found s2)
    from quiet_grows [OF quietD [OF quiet_find_entry 2(1)]] obtain e2 where e2: "grows s1 s2 e2" "list_all quiet_event e2" by blast
    let ?e = "e1 @ e2"
    have h2: "b_trace s2 = b_trace s @ ?e" "list_all quiet_event ?e" "b_mutationAttempted s2 = b_mutationAttempted s" "b_address s2 = address_of al"
      using b e2 by (simp_all add: grows_def quiet_mutates)
    show ?thesis
    proof (cases found)
      case None
      with 2(2) have l: "deleteLocal env job s2 = (r, s')" by simp
      from entry_gone [OF 2(1) [unfolded None]] e2(1) have "gone (address_of al) e2" by (auto simp: grows_def)
      from gone_append [OF this] local_deleted [OF l] h2 show ?thesis
        by (intro exI [of _ "?e @ [EvLocal (j_aliasID job)]"]) (simp add: attempt_shape_def quiet_mutates)
    next
      case (Some remote)
      show ?thesis
      proof (cases "trim_space (ra_AnonymousID remote) = []")
        case True
        with 2(2) Some have "s' = s2" "isl r" by (auto simp: Let_def)
        with h2 show ?thesis by (intro exI [of _ ?e]) (simp add: attempt_shape_def quiet_mutates)
      next
        case False
        let ?id = "trim_space (ra_AnonymousID remote)"
        let ?go = "bnd (if ra_IsActive remote then deactivate env job al remote ?id else retn (Some ?id))
          (\<lambda>target. case target of None \<Rightarrow> retn () | Some i \<Rightarrow> delete_remote env job al i)"
        from 2(2) Some False have "bnd (reserve_quota env) (\<lambda>_. deferred ?go (release_lease env)) s2 = (r, s')" by (simp add: Let_def)
        then show ?thesis
        proof (cases rule: bnd_cases)
          case (1 e)
          with reserved [OF 1(1)] h2 show ?thesis by (intro exI [of _ ?e]) (auto simp: attempt_shape_def quiet_mutates)
        next
          case (2 u s3)
          from reserved [OF 2(1)] h2 have h3: "b_trace s3 = b_trace s @ ?e @ [EvReserved (dl_id (b_lease s3))]"
            "b_mutationAttempted s3 = b_mutationAttempted s" "b_address s3 = address_of al" by auto
          from 2(2) obtain s4 q where g: "?go s3 = (r, s4)" and q: "release_lease env s4 = (q, s')"
            by (auto simp: deferred_def split: prod.splits) (metis prod.collapse)
          from mutation_history [OF g] obtain e3 where e3: "grows s3 s4 e3"
            "tail_shape (dl_id (b_lease s3)) (j_aliasID job) (address_of al) r e3" by blast
          from grows_trans [OF e3(1) released_grows [OF q]] have "grows s3 s' e3" by simp
          with h3 h2(2) e3(2) show ?thesis
            by (intro exI [of _ "?e @ EvReserved (dl_id (b_lease s3)) # e3"] conjI) (use attempt_reserved [OF h2(2) e3(2)] in \<open>simp_all add: grows_def quiet_mutates\<close>)
        qed
      qed
    qed
  qed
qed

end
