(* ===== verification/DeletionAttemptProps.thy ===== *)
theory DeletionAttemptProps
  imports DeletionAttemptFacts
begin

section \<open>What a deletion attempt guarantees\<close>

text \<open>
  From the shape of the history: a permanent deletion is sent at most once, right after a check, under an
  allowance of its own; the local row goes last and only after Apple's answer or a directory without the
  address; and the reported flag says exactly whether Apple may have changed.
\<close>

subsection \<open>Kinds of entries\<close>

fun is_delete :: "attempt_event \<Rightarrow> bool" where
  "is_delete (EvDelete i) \<longleftrightarrow> True" | "is_delete _ \<longleftrightarrow> False"
fun is_reserve :: "attempt_event \<Rightarrow> bool" where
  "is_reserve (EvReserved l) \<longleftrightarrow> True" | "is_reserve _ \<longleftrightarrow> False"
fun is_local :: "attempt_event \<Rightarrow> bool" where
  "is_local (EvLocal i) \<longleftrightarrow> True" | "is_local _ \<longleftrightarrow> False"

lemma mutates_iff: "mutates ev \<longleftrightarrow> (\<exists>i. ev = EvDeactivate i \<or> ev = EvDelete i)"
  by (cases ev) auto

lemma quiet_kinds:
  assumes "list_all quiet_event evs"
  shows "\<not> list_ex is_delete evs" "\<not> list_ex is_reserve evs" "\<not> list_ex is_local evs"
  using assms by (induction evs) (auto elim: quiet_event.elims)

lemma in_kinds:
  "\<not> list_ex is_delete evs \<Longrightarrow> EvDelete i \<notin> set evs" "\<not> list_ex is_reserve evs \<Longrightarrow> EvReserved l \<notin> set evs"
  by (auto simp: list_ex_iff)

lemma split_at_only:
  assumes "xs @ e # ys = as @ e' # bs" "P e" "P e'" "\<not> list_ex P as" "\<not> list_ex P bs"
  shows "xs = as \<and> e = e' \<and> ys = bs"
  using assms
proof (induction xs arbitrary: as)
  case Nil
  then show ?case by (cases as) auto
next
  case (Cons x xs)
  then show ?case by (cases as) (auto simp: list_ex_iff)
qed

subsection \<open>The one permanent deletion\<close>

definition sends_once :: "string \<Rightarrow> attempt_event list \<Rightarrow> bool" where
  "sends_once lease evs \<longleftrightarrow> \<not> list_ex is_delete evs \<or>
     (\<exists>p i ys. evs = p @ [EvChecked ''delete'', EvSent lease, EvDelete i] @ ys \<and>
        \<not> list_ex is_delete p \<and> \<not> list_ex is_reserve p \<and> \<not> list_ex is_delete ys)"

definition covered :: "attempt_event list \<Rightarrow> bool" where
  "covered evs \<longleftrightarrow> \<not> list_ex is_delete evs \<or>
     (\<exists>pre lease p i ys. evs = (pre @ EvReserved lease # p @ [EvChecked ''delete'', EvSent lease]) @ EvDelete i # ys \<and>
        \<not> list_ex is_delete pre \<and> \<not> list_ex is_delete p \<and> \<not> list_ex is_reserve p \<and> \<not> list_ex is_delete ys)"

lemma delete_sends_once: "delete_shape lease a address r evs \<Longrightarrow> sends_once lease evs"
  unfolding delete_shape_def
proof (elim disjE exE conjE)
  fix pre i mid loc
  assume e: "evs = pre @ [EvChecked ''delete'', EvSent lease, EvDelete i] @ mid @ loc" and q: "list_all quiet_event pre" "list_all quiet_event mid"
  have thesis: "sends_once lease evs" if "\<not> list_ex is_delete loc"
  proof -
    from that quiet_kinds [OF q(2)] have "\<not> list_ex is_delete (mid @ loc)" by simp
    with e quiet_kinds [OF q(1)] show ?thesis unfolding sends_once_def by blast
  qed
  {
    assume "loc = []" then show ?thesis by (intro thesis) simp
  next
    assume "loc = [EvConfirmed i, EvLocal a]" then show ?thesis by (intro thesis) simp
  next
    assume "loc = [EvLocal a]" then show ?thesis by (intro thesis) simp
  }
qed (auto simp: sends_once_def quiet_kinds)

lemma sends_once_covered:
  assumes "sends_once lease evs" "\<not> list_ex is_delete pre" "\<not> list_ex is_delete mid" "\<not> list_ex is_reserve mid"
  shows "covered (pre @ EvReserved lease # mid @ evs)"
  using assms(1) unfolding sends_once_def
proof (elim disjE exE conjE)
  assume "\<not> list_ex is_delete evs"
  with assms(2,3) show ?thesis by (simp add: covered_def)
next
  fix p i ys
  assume e: "evs = p @ [EvChecked ''delete'', EvSent lease, EvDelete i] @ ys" "\<not> list_ex is_delete p" "\<not> list_ex is_reserve p" "\<not> list_ex is_delete ys"
  then have "pre @ EvReserved lease # mid @ evs =
      (pre @ EvReserved lease # (mid @ p) @ [EvChecked ''delete'', EvSent lease]) @ EvDelete i # ys" by simp
  moreover have "\<not> list_ex is_delete (mid @ p)" "\<not> list_ex is_reserve (mid @ p)" using assms(3,4) e(2,3) by simp_all
  ultimately show ?thesis unfolding covered_def using assms(2) e(4) by blast
qed

lemma attempt_covered: "attempt_shape a address r evs \<Longrightarrow> covered evs"
  unfolding attempt_shape_def
proof (elim disjE exE conjE)
  fix pre lease es
  assume e: "evs = pre @ EvReserved lease # es" "list_all quiet_event pre" "tail_shape lease a address r es"
  note np = quiet_kinds [OF e(2)]
  from e(3) show ?thesis unfolding tail_shape_def
  proof (elim disjE exE conjE)
    assume "delete_shape lease a address r es"
    from sends_once_covered [OF delete_sends_once [OF this] np(1), of "[]"] e(1) show ?thesis by simp
  next
    fix p i mid es'
    assume es: "es = p @ [EvChecked ''deactivate'', EvDeactivate i] @ mid @ es'" "list_all quiet_event p" "list_all quiet_event mid"
    let ?m = "p @ [EvChecked ''deactivate'', EvDeactivate i] @ mid"
    have m: "\<not> list_ex is_delete ?m" "\<not> list_ex is_reserve ?m" using quiet_kinds [OF es(2)] quiet_kinds [OF es(3)] by simp_all
    {
      assume "es' = [EvLocal a]"
      with e(1) es(1) np m show ?thesis by (simp add: covered_def)
    next
      assume "delete_shape lease a address r es'"
      from sends_once_covered [OF delete_sends_once [OF this] np(1) m] e(1) es(1) show ?thesis by simp
    next
      fix lease2 es2
      assume l: "es' = EvReserved lease2 # es2" "delete_shape lease2 a address r es2"
      have "\<not> list_ex is_delete (pre @ EvReserved lease # ?m)" using np m by simp
      from sends_once_covered [OF delete_sends_once [OF l(2)] this, of "[]"] e(1) es(1) l(1) show ?thesis by simp
    }
  qed
qed (auto simp: covered_def quiet_kinds)

subsection \<open>The local row\<close>

definition confirmed :: "string \<Rightarrow> attempt_event list \<Rightarrow> bool" where
  "confirmed address evs \<longleftrightarrow> gone address evs \<or>
     (\<exists>pre i mid. evs = pre @ EvDelete i # mid @ [EvConfirmed i] \<and> list_all quiet_event mid)"

definition ends :: "int \<Rightarrow> string \<Rightarrow> attempt_error + 'a \<Rightarrow> attempt_event list \<Rightarrow> bool" where
  "ends a address r evs \<longleftrightarrow> (\<not> list_ex is_local evs \<and> isl r) \<or>
     (\<exists>body. evs = body @ [EvLocal a] \<and> \<not> list_ex is_local body \<and> confirmed address body)"

lemma confirmed_explicit:
  assumes "confirmed address evs"
  shows "(\<exists>pre d. evs = pre @ [EvDirectory d] \<and> d address = None) \<or>
    (\<exists>pre i mid. evs = pre @ EvDelete i # mid @ [EvConfirmed i] \<and> (\<forall>k. EvDelete k \<notin> set mid))"
  using assms unfolding confirmed_def
proof (elim disjE exE conjE)
  fix pre i mid assume "evs = pre @ EvDelete i # mid @ [EvConfirmed i]" "list_all quiet_event mid"
  with in_kinds(1) [OF quiet_kinds(1) [OF this(2)]] show ?thesis by blast
qed (simp add: gone_def)

lemma ends_prefix:
  assumes "ends a address r evs" "\<not> list_ex is_local xs"
  shows "ends a address r (xs @ evs)"
  using assms(1) [unfolded ends_def]
proof (elim disjE exE conjE)
  fix body assume b: "evs = body @ [EvLocal a]" "\<not> list_ex is_local body" "confirmed address body"
  from b(3) have "confirmed address (xs @ body)"
    unfolding confirmed_def using gone_append by (metis append.assoc)
  with b(1,2) assms(2) show ?thesis unfolding ends_def by (intro disjI2 exI [of _ "xs @ body"]) simp
qed (use assms(2) in \<open>simp add: ends_def\<close>)

lemma gone_ends: "gone address body \<Longrightarrow> \<not> list_ex is_local body \<Longrightarrow> ends a address r (body @ [EvLocal a])"
  by (simp add: ends_def confirmed_def)

lemma delete_ends: "delete_shape lease a address r evs \<Longrightarrow> ends a address r evs"
  unfolding delete_shape_def
proof (elim disjE exE conjE)
  fix pre i mid loc
  assume e: "evs = pre @ [EvChecked ''delete'', EvSent lease, EvDelete i] @ mid @ loc" and q: "list_all quiet_event pre" "list_all quiet_event mid"
  note n = quiet_kinds [OF q(1)] quiet_kinds [OF q(2)]
  let ?b = "pre @ [EvChecked ''delete'', EvSent lease, EvDelete i] @ mid"
  {
    assume "loc = []" "isl r"
    with e n show ?thesis by (simp add: ends_def)
  next
    assume l: "loc = [EvConfirmed i, EvLocal a]"
    have "confirmed address (?b @ [EvConfirmed i])"
      unfolding confirmed_def using q(2) by (intro disjI2 exI [of _ "pre @ [EvChecked ''delete'', EvSent lease]"] exI [of _ i] exI [of _ mid]) simp
    with e l n show ?thesis unfolding ends_def by (intro disjI2 exI [of _ "?b @ [EvConfirmed i]"]) simp
  next
    assume l: "loc = [EvLocal a]" "gone address mid"
    from gone_ends [OF gone_append [OF l(2), of "pre @ [EvChecked ''delete'', EvSent lease, EvDelete i]"]] e l(1) n show ?thesis by simp
  }
qed (auto simp: ends_def quiet_kinds)

lemma attempt_ends: "attempt_shape a address r evs \<Longrightarrow> ends a address r evs"
  unfolding attempt_shape_def
proof (elim disjE exE conjE)
  fix pre lease es
  assume e: "evs = pre @ EvReserved lease # es" "list_all quiet_event pre" "tail_shape lease a address r es"
  have "ends a address r es" using e(3) unfolding tail_shape_def
  proof (elim disjE exE conjE)
    assume "delete_shape lease a address r es"
    then show ?thesis by (rule delete_ends)
  next
    fix p i mid es'
    assume es: "es = p @ [EvChecked ''deactivate'', EvDeactivate i] @ mid @ es'" "list_all quiet_event p" "list_all quiet_event mid"
    let ?m = "p @ [EvChecked ''deactivate'', EvDeactivate i] @ mid"
    have m: "\<not> list_ex is_local ?m" using quiet_kinds [OF es(2)] quiet_kinds [OF es(3)] by simp
    {
      assume l: "es' = [EvLocal a]" "gone address mid"
      from gone_ends [OF gone_append [OF l(2), of "p @ [EvChecked ''deactivate'', EvDeactivate i]"]] m es(1) l(1) show ?thesis by simp
    next
      assume "delete_shape lease a address r es'"
      from ends_prefix [OF delete_ends [OF this] m] es(1) show ?thesis by simp
    next
      fix lease2 es2
      assume l: "es' = EvReserved lease2 # es2" "delete_shape lease2 a address r es2"
      from m have "\<not> list_ex is_local (?m @ [EvReserved lease2])" by simp
      from ends_prefix [OF delete_ends [OF l(2)] this] es(1) l(1) show ?thesis by simp
    }
  qed
  from ends_prefix [OF this, of "pre @ [EvReserved lease]"] quiet_kinds [OF e(2)] e(1) show ?thesis by simp
qed (auto simp: ends_def confirmed_def quiet_kinds)

subsection \<open>The entry point of the queue\<close>

lemma account_history:
  assumes "withAliasDeletionAccount env m s = (r, s')"
  shows "(isl r \<and> b_trace s' = b_trace s \<and> b_mutationAttempted s' = b_mutationAttempted s) \<or>
    (\<exists>s1. m s1 = (r, s') \<and> b_trace s1 = b_trace s \<and> b_mutationAttempted s1 = b_mutationAttempted s)"
  using assms by (auto simp: withAliasDeletionAccount_def ctx_err_def check_def bnd_def split: option.splits if_splits)

lemma queued_history:
  assumes "DeleteQueuedAlias env work db = (r, s')"
  shows "\<exists>q :: attempt_error + unit. attempt_shape (dw_AliasID work) (b_address s') q (b_trace s') \<and> (isl q \<longleftrightarrow> isl r) \<and>
    (\<forall>e b. r = Inl (e, b) \<longrightarrow> (b \<longleftrightarrow> list_ex mutates (b_trace s')))"
proof (cases "dw_AccountID work < 1 \<or> dw_AliasID work < 1 \<or> trim_space (dw_Address work) = [] \<or> trim_space (dw_AccountEmail work) = [] \<or>
    trim_space (dw_AppleID work) = [] \<or> trim_space (dw_AppleSubject work) = []")
  case True
  with assms have "isl r" "s' = new_attempt db" "\<forall>e b. r = Inl (e, b) \<longrightarrow> \<not> b" by (auto simp: DeleteQueuedAlias_def Let_def)
  then show ?thesis by (intro exI [of _ "Inl ContextErr"]) (auto simp: attempt_shape_def new_attempt_def)
next
  case False
  let ?job = "\<lparr>j_accountID = dw_AccountID work, j_aliasID = dw_AliasID work, j_work = Some work, j_initialPending = True\<rparr>"
  obtain q s1 where q: "withAliasDeletionAccount env (delete_attempt env ?job) (new_attempt db) = (q, s1)" by fastforce
  from assms False q have s1: "s' = s1" and r: "r = (case q of Inl e \<Rightarrow> Inl (e, b_mutationAttempted s1) | Inr u \<Rightarrow> Inr ())"
    by (auto simp: DeleteQueuedAlias_def Let_def split: sum.splits)
  have n: "b_trace (new_attempt db) = []" "\<not> b_mutationAttempted (new_attempt db)" by (simp_all add: new_attempt_def)
  have "attempt_shape (dw_AliasID work) (b_address s1) q (b_trace s1) \<and> (b_mutationAttempted s1 \<longleftrightarrow> list_ex mutates (b_trace s1))"
    using account_history [OF q]
  proof (elim disjE exE conjE)
    fix s2 assume "delete_attempt env ?job s2 = (q, s1)" "b_trace s2 = b_trace (new_attempt db)"
      "b_mutationAttempted s2 = b_mutationAttempted (new_attempt db)"
    with attempt_history [OF this(1)] n show ?thesis by simp
  qed (simp_all add: n attempt_shape_def)
  with s1 r show ?thesis by (intro exI [of _ q]) (simp split: sum.split)
qed


subsection \<open>Properties\<close>

text \<open>C10: In the history of any attempt for queued work, whatever the store, Apple and the clock answer: an irreversible deletion is
  sent at most once; right before it the work was checked again and its allowance was marked as sent; and that
  allowance is the one that the attempt reserved last.\<close>

theorem permanent_deletion_covered:
  assumes "DeleteQueuedAlias env work db = (r, s')" and "b_trace s' = xs @ EvDelete i # ys"
  shows "\<exists>pre lease p. xs = pre @ EvReserved lease # p @ [EvChecked ''delete'', EvSent lease] \<and>
    (\<forall>l. EvReserved l \<notin> set p) \<and> (\<forall>j. EvDelete j \<notin> set xs \<and> EvDelete j \<notin> set ys)"
proof -
  from queued_history [OF assms(1)] obtain q :: "attempt_error + unit" where "attempt_shape (dw_AliasID work) (b_address s') q (b_trace s')" by blast
  from attempt_covered [OF this] have "covered (b_trace s')" .
  moreover have "list_ex is_delete (b_trace s')" by (simp add: assms(2))
  ultimately obtain pre lease p j zs where
    e: "b_trace s' = (pre @ EvReserved lease # p @ [EvChecked ''delete'', EvSent lease]) @ EvDelete j # zs"
    and n: "\<not> list_ex is_delete pre" "\<not> list_ex is_delete p" "\<not> list_ex is_reserve p" "\<not> list_ex is_delete zs" by (auto simp: covered_def)
  let ?before = "pre @ EvReserved lease # p @ [EvChecked ''delete'', EvSent lease]"
  have b: "\<not> list_ex is_delete ?before" using n by simp
  have "xs = ?before \<and> EvDelete i = EvDelete j \<and> ys = zs"
    by (rule split_at_only [where P = is_delete]) (use assms(2) e b n(4) in simp_all)
  with in_kinds(1) [OF b] in_kinds(1) [OF n(4)] in_kinds(2) [OF n(3)] show ?thesis by blast
qed


text \<open>C18: A failed attempt for queued work reports that Apple may have changed exactly if it sent a deactivation or a deletion, so that
  the queue may drop a work whose attempt only read.\<close>

theorem mutation_reported_exactly:
  assumes "DeleteQueuedAlias env work db = (Inl (e, attempted), s')"
  shows "attempted \<longleftrightarrow> (\<exists>i. EvDeactivate i \<in> set (b_trace s') \<or> EvDelete i \<in> set (b_trace s'))"
proof -
  from queued_history [OF assms] have "attempted \<longleftrightarrow> list_ex mutates (b_trace s')" by (elim exE conjE) simp
  also have "\<dots> \<longleftrightarrow> (\<exists>i. EvDeactivate i \<in> set (b_trace s') \<or> EvDelete i \<in> set (b_trace s'))"
    by (auto simp: list_ex_iff mutates_iff)
  finally show ?thesis .
qed

subsection \<open>The properties at concrete inputs\<close>

definition demo_work :: deletion_work where
  "demo_work = \<lparr>dw_ID = ''w'', dw_Sequence = 1, dw_AccountID = 7, dw_AliasID = 3, dw_Address = ''x'', dw_AccountEmail = ''m'',
     dw_AppleID = ''a'', dw_AppleSubject = ''global:1'', dw_Status = WsOther [], dw_ClaimToken = [], dw_Reconcile = False,
     dw_NextRunAt = zero_time, dw_WaitReason = [], dw_Operation = [], dw_Used = 0, dw_Limit = 0, dw_Attempts = 0, dw_HTTPStatus = 0,
     dw_ServiceCode = [], dw_Deleted = False, dw_Code = [], dw_Message = [], dw_LocalRetained = False, dw_CreatedAt = zero_time,
     dw_UpdatedAt = zero_time\<rparr>"

definition demo_apple_session :: apple_state where
  "demo_apple_session = \<lparr>as_Region = ''global'', as_AppleID = ''a'', as_DSID = ''1'', as_PremiumMailSettingsURL = [], as_SessionToken = [],
     as_Cookies = [], as_ValidatedAt = 1, as_Other = []\<rparr>"

definition demo_record :: apple_session where
  "demo_record = \<lparr>aw_AccountID = 7, aw_Ciphertext = [], aw_AppleID = ''a'', aw_Region = ''global'', aw_Authenticated = True,
     aw_LastValidatedAt = None, aw_CreatedAt = 0, aw_UpdatedAt = 0\<rparr>"

definition demo_account :: account where
  "demo_account = \<lparr>ac_ID = 7, ac_Name = [], ac_Email = ''m'', ac_IMAPHost = [], ac_IMAPPort = 993, ac_IMAPUsername = ''m'',
     ac_PasswordCiphertext = [], ac_Enabled = True, ac_LastSyncStatus = [], ac_LastSyncError = [], ac_LastSyncedAt = None, ac_CreatedAt = 0,
     ac_UpdatedAt = 0, ac_AliasCount = 1, ac_MailboxType = ''icloud'', ac_EmailSuffix = []\<rparr>"

definition demo_listing :: list_result where
  "demo_listing = \<lparr>lr_Aliases = [\<lparr>ra_AnonymousID = ''1'', ra_ForwardToEmail = ''m'', ra_HME = ''x'', ra_IsActive = True, ra_Other = []\<rparr>],
     lr_SelectedForwardTo = ''m'', lr_ForwardToEmails = []\<rparr>"

definition demo_allowance :: deletion_quota where
  "demo_allowance = \<lparr>dq_used = 0, dq_limit = 200, dq_retry_at = zero_time\<rparr>"

definition granting_repo :: "unit quota_repo" where
  "granting_repo = \<lparr>repo_get = (\<lambda>_ _ _. Inr demo_allowance), repo_reserve = (\<lambda>db _ _ _. (Inr demo_allowance, db)),
     repo_mark = (\<lambda>db _ _ _. (Inr (), db)), repo_commit = (\<lambda>db _ _ _. (Inr (), db)), repo_release = (\<lambda>db _ _. (Inr (), db)),
     repo_defer = (\<lambda>db _ _. (Inr (), db))\<rparr>"

text \<open>The address is listed as active; the deactivation is answered by \<open>answer\<close>, every other request by success.\<close>

definition demo_attempt_env :: "go_error option \<Rightarrow> unit attempt_env" where
  "demo_attempt_env answer = \<lparr>en_repo = Some granting_repo, en_cancelled = (\<lambda>_. False), en_now = (\<lambda>_. 1), en_random = (\<lambda>_. Some ''r''),
     en_lock = (\<lambda>_. None), en_GetAccount = (\<lambda>_ _. Inr demo_account), en_GetAlias = (\<lambda>_ i. Inr (snapshot_alias i demo_work)),
     en_GetAliasByAddress = None, en_watch = None, en_DeleteAlias = (\<lambda>_ _. None),
     en_GetAppleWebSession = (\<lambda>_ _. Inr demo_record),
     en_DeleteAppleWebSession = (\<lambda>_ _. None), en_decrypt = (\<lambda>_. Inr demo_apple_session), en_saveSession = (\<lambda>_ _ _. None),
     en_ParseAddress = Some, en_Validate = (\<lambda>_ s. (s, None)), en_ListAliases = (\<lambda>_ s. (demo_listing, s, None)),
     en_DeactivateAlias = (\<lambda>_ s _. (s, answer)), en_RemoteDelete = (\<lambda>_ s _. (s, None))\<rparr>"

abbreviation demo_job :: attempt_job where
  "demo_job \<equiv> \<lparr>j_accountID = 7, j_aliasID = 3, j_work = Some demo_work, j_initialPending = True\<rparr>"

lemma demo_texts [simp]:
  "NormalizeEmail ''x'' = ''x''" "NormalizeEmail ''m'' = ''m''" "NormalizeEmail ''a'' = ''a''" "NormalizeMailboxType ''icloud'' = ''icloud''"
  "trim_space ''x'' = ''x''" "trim_space ''m'' = ''m''" "trim_space ''a'' = ''a''" "trim_space ''1'' = ''1''"
  "trim_space ''global:1'' = ''global:1''" "normalizeRegion ''global'' = Some ''global''" "MailboxTypeICloud = ''icloud''"
  by code_simp+

lemma demo_texts2 [simp]: "equal_fold v v" "hex_encode ''r'' = ''72''" "trim_space [] = []"
  "sameEmail ''m'' ''m''" "sameEmail ''x'' ''x''" "sameEmail ''a'' ''a''"
  by (simp_all add: equal_fold_def sameEmail_def demo_hex trim_space_def)

lemma demo_env_fields [simp]:
  "en_repo (demo_attempt_env z) = Some granting_repo" "en_cancelled (demo_attempt_env z) k = False" "en_now (demo_attempt_env z) k = 1"
  "en_random (demo_attempt_env z) k = Some ''r''" "en_lock (demo_attempt_env z) k = None"
  "en_GetAccount (demo_attempt_env z) k i = Inr demo_account" "en_GetAlias (demo_attempt_env z) k i = Inr (snapshot_alias i demo_work)"
  "en_GetAliasByAddress (demo_attempt_env z) = None" "en_watch (demo_attempt_env z) = None" "en_DeleteAlias (demo_attempt_env z) k i = None"
  "en_GetAppleWebSession (demo_attempt_env z) k i = Inr demo_record" "en_DeleteAppleWebSession (demo_attempt_env z) k i = None"
  "en_decrypt (demo_attempt_env z) w = Inr demo_apple_session" "en_saveSession (demo_attempt_env z) k i v = None"
  "en_ParseAddress (demo_attempt_env z) = Some" "en_Validate (demo_attempt_env z) k v = (v, None)"
  "en_ListAliases (demo_attempt_env z) k v = (demo_listing, v, None)" "en_DeactivateAlias (demo_attempt_env z) k v l = (v, z)"
  "en_RemoteDelete (demo_attempt_env z) k v l = (v, None)"
  by (simp_all add: demo_attempt_env_def)

lemma demo_fields [simp]:
  "ac_ID demo_account = 7" "ac_Email demo_account = ''m''" "ac_IMAPUsername demo_account = ''m''" "ac_MailboxType demo_account = ''icloud''"
  "aw_Authenticated demo_record = True" "aw_AppleID demo_record = ''a''" "as_Region demo_apple_session = ''global''" "as_AppleID demo_apple_session = ''a''"
  "as_DSID demo_apple_session = ''1''" "as_ValidatedAt demo_apple_session = 1" "demo_apple_session\<lparr>as_Region := ''global''\<rparr> = demo_apple_session"
  "dw_ID demo_work = ''w''" "dw_AccountID demo_work = 7" "dw_AliasID demo_work = 3" "dw_Address demo_work = ''x''"
  "dw_AccountEmail demo_work = ''m''" "dw_AppleID demo_work = ''a''" "dw_AppleSubject demo_work = ''global:1''"
  "a_AccountID (snapshot_alias i demo_work) = 7" "a_Address (snapshot_alias i demo_work) = ''x''" "\<not> pending_alias (snapshot_alias i demo_work)"
  by (simp_all add: demo_work_def demo_account_def demo_record_def demo_apple_session_def snapshot_alias_def pending_alias_def
      AppleAliasConfirmationPending_def)

lemma demo_pieces [simp]:
  "ctx_err (demo_attempt_env z) s = (Inr (), s\<lparr>b_calls := Suc (b_calls s)\<rparr>)"
  "check None s = (Inr (), s)" "check_res (Inr v) s = (Inr v, s)"
  "read_alias (demo_attempt_env z) demo_job s = (Inr (snapshot_alias 3 demo_work), s\<lparr>b_calls := Suc (b_calls s)\<rparr>)"
  "checkWork (demo_attempt_env z) demo_job b s = (Inr (), s\<lparr>b_calls := Suc (Suc (b_calls s))\<rparr>)"
  by (simp_all add: ctx_err_def check_def check_res_def read_alias_def checkWork_def bnd_def)

lemma demo_before [simp]:
  "b_account s = Some demo_account \<Longrightarrow> b_address s = ''x'' \<Longrightarrow> beforeRequest (demo_attempt_env z) demo_job opn s =
     (Inr (), s\<lparr>b_calls := b_calls s + 6, b_operation := opn, b_trace := b_trace s @ [EvChecked opn]\<rparr>)"
  by (simp add: beforeRequest_def recheck_def bnd_def sameIdentity_def identityOf_def)

lemma demo_keep [simp]:
  "b_record s = Some demo_record \<Longrightarrow> b_session s = demo_apple_session \<Longrightarrow> b_subject s = ''global:1'' \<Longrightarrow>
   keep_session (demo_attempt_env z) demo_job demo_apple_session s = (Inr (), s\<lparr>b_calls := b_calls s + 2\<rparr>)"
  by (simp add: keep_session_def bnd_def Let_def prepareAliasDeletionSession_def hasAppleSessionState_def normalizeSession_def
      aliasDeletionSubject_def is_zero_time_def zero_time_def)

lemma demo_accept [simp]:
  "b_record s = Some demo_record \<Longrightarrow> b_session s = demo_apple_session \<Longrightarrow> b_subject s = ''global:1'' \<Longrightarrow>
   acceptResponse (demo_attempt_env z) demo_job demo_apple_session None s = (Inr (None, False), s\<lparr>b_calls := b_calls s + 2\<rparr>)"
  by (simp add: acceptResponse_def map_response_def bnd_def Let_def has_kind_def catch_def)


abbreviation demo_entries :: "string \<rightharpoonup> remote_alias" where
  "demo_entries \<equiv> [''x'' \<mapsto> \<lparr>ra_AnonymousID = ''1'', ra_ForwardToEmail = ''m'', ra_HME = ''x'', ra_IsActive = True, ra_Other = []\<rparr>]"

lemma demo_refresh [simp]:
  "b_account s = Some demo_account \<Longrightarrow> b_address s = ''x'' \<Longrightarrow> b_record s = Some demo_record \<Longrightarrow> b_session s = demo_apple_session \<Longrightarrow>
   b_subject s = ''global:1'' \<Longrightarrow>
   refreshDirectory (demo_attempt_env z) demo_job s =
     (Inr (), s\<lparr>b_valid := True, b_calls := b_calls s + 9, b_operation := ''list'', b_forwardTo := ''m'', b_directory := demo_entries,
        b_trace := b_trace s @ [EvChecked ''list'', EvDirectory demo_entries]\<rparr>)"
  by (simp add: refreshDirectory_def list_directory_def bnd_def demo_listing_def forwardingTarget_def filterAliases_def bind_res_def
      entries_of_def)

lemma demo_initialize [simp]:
  "b_account s = Some demo_account \<Longrightarrow> b_address s = ''x'' \<Longrightarrow> b_subject s = [] \<Longrightarrow>
   initialize (demo_attempt_env z) demo_job s =
     (Inr (), s\<lparr>b_record := Some demo_record, b_session := demo_apple_session, b_subject := ''global:1'', b_ready := True,
        b_calls := b_calls s + 11, b_operation := ''validate'', b_trace := b_trace s @ [EvChecked ''validate'']\<rparr>)"
  by (simp add: initialize_def loadSession_def catch_def bnd_def aliasDeletionSubject_def quota_wait_def quotaWait_def granting_repo_def
      demo_allowance_def is_zero_time_def)

lemma demo_find [simp]:
  "b_account s = Some demo_account \<Longrightarrow> b_address s = ''x'' \<Longrightarrow> b_record s = Some demo_record \<Longrightarrow> b_session s = demo_apple_session \<Longrightarrow>
   b_subject s = ''global:1'' \<Longrightarrow> \<not> b_valid s \<Longrightarrow>
   find_entry (demo_attempt_env z) demo_job (snapshot_alias 3 demo_work) s =
     (Inr (demo_entries ''x''), s\<lparr>b_valid := True, b_calls := b_calls s + 9, b_operation := ''list'', b_forwardTo := ''m'',
        b_directory := demo_entries, b_trace := b_trace s @ [EvChecked ''list'', EvDirectory demo_entries]\<rparr>)"
  by (simp add: find_entry_def find_remote_def bnd_def)

lemma demo_account_lock [simp]:
  "withAliasDeletionAccount (demo_attempt_env z) m s = m (s\<lparr>b_calls := b_calls s + 5\<rparr>)"
  by (simp add: withAliasDeletionAccount_def bnd_def numeral_eq_Suc)

definition demo_begun :: "unit attempt" where
  "demo_begun = new_attempt ()\<lparr>b_calls := 21, b_address := ''x'', b_account := Some demo_account, b_record := Some demo_record,
     b_session := demo_apple_session, b_subject := ''global:1'', b_ready := True, b_operation := ''validate'',
     b_trace := [EvChecked ''validate'']\<rparr>"

lemma demo_begun [simp]:
  "b_address demo_begun = ''x''" "b_account demo_begun = Some demo_account" "b_record demo_begun = Some demo_record"
  "b_session demo_begun = demo_apple_session" "b_subject demo_begun = ''global:1''" "b_trace demo_begun = [EvChecked ''validate'']"
  "\<not> b_valid demo_begun"
  by (simp_all add: demo_begun_def new_attempt_def)

lemma demo_begin [simp]:
  "begin_attempt (demo_attempt_env z) demo_job (new_attempt ()\<lparr>b_calls := b_calls (new_attempt ()) + 5\<rparr>) =
     (Inr (snapshot_alias 3 demo_work), demo_begun)"
  by (simp add: begin_attempt_def admit_def bnd_def catch_def demo_begun_def new_attempt_def)

lemma demo_leases [simp]:
  "b_subject s = ''global:1'' \<Longrightarrow> reserve_quota (demo_attempt_env z) s =
     (Inr (), s\<lparr>b_calls := b_calls s + 2, b_lease := \<lparr>dl_repo = True, dl_id = ''72'', dl_committed = False\<rparr>,
        b_trace := b_trace s @ [EvReserved ''72'']\<rparr>)"
  "b_lease s = \<lparr>dl_repo = True, dl_id = ''72'', dl_committed = False\<rparr> \<Longrightarrow> mark_sent (demo_attempt_env z) s =
     (Inr (), s\<lparr>b_calls := Suc (b_calls s), b_lease := \<lparr>dl_repo = True, dl_id = ''72'', dl_committed = True\<rparr>,
        b_trace := b_trace s @ [EvSent ''72'']\<rparr>)"
  "b_lease s = \<lparr>dl_repo = True, dl_id = ''72'', dl_committed = True\<rparr> \<Longrightarrow>
     commit_lease (demo_attempt_env z) s = (Inr (), s\<lparr>b_calls := Suc (b_calls s)\<rparr>)"
  "b_lease s = \<lparr>dl_repo = True, dl_id = ''72'', dl_committed = True\<rparr> \<Longrightarrow> release_lease (demo_attempt_env z) s = (Inr (), s)"
  "b_lease s = \<lparr>dl_repo = True, dl_id = ''72'', dl_committed = False\<rparr> \<Longrightarrow> release_lease (demo_attempt_env z) s =
     (Inr (), s\<lparr>b_lease := \<lparr>dl_repo = True, dl_id = [], dl_committed = False\<rparr>\<rparr>)"
  "b_lease s = \<lparr>dl_repo = True, dl_id = [], dl_committed = False\<rparr> \<Longrightarrow> release_lease (demo_attempt_env z) s = (Inr (), s)"
  by (simp_all add: reserve_quota_def mark_sent_def commit_lease_def release_lease_def lease_act_def bnd_def reserveQuota_def
      lease_markSent_def lease_commit_def lease_release_def granting_repo_def demo_allowance_def is_zero_time_def)

lemma demo_delete [simp]:
  "b_account s = Some demo_account \<Longrightarrow> b_address s = ''x'' \<Longrightarrow> b_record s = Some demo_record \<Longrightarrow> b_session s = demo_apple_session \<Longrightarrow>
   b_subject s = ''global:1'' \<Longrightarrow> b_lease s = \<lparr>dl_repo = True, dl_id = ''72'', dl_committed = False\<rparr> \<Longrightarrow>
   delete_remote (demo_attempt_env z) demo_job (snapshot_alias 3 demo_work) ''1'' s =
     (Inr (), s\<lparr>b_calls := b_calls s + 13, b_operation := ''delete'', b_mutationAttempted := True,
        b_lease := \<lparr>dl_repo = True, dl_id = ''72'', dl_committed = True\<rparr>, b_directory := (b_directory s)(''x'' := None),
        b_trace := b_trace s @ [EvChecked ''delete'', EvSent ''72'', EvDelete ''1'', EvConfirmed ''1'', EvLocal 3]\<rparr>)"
  by (simp add: delete_remote_def send_delete_def settle_delete_def deleteLocal_def bnd_def catch_def)

lemma demo_deactivate [simp]:
  "b_account s = Some demo_account \<Longrightarrow> b_address s = ''x'' \<Longrightarrow> b_record s = Some demo_record \<Longrightarrow> b_session s = demo_apple_session \<Longrightarrow>
   b_subject s = ''global:1'' \<Longrightarrow>
   deactivate (demo_attempt_env None) demo_job (snapshot_alias 3 demo_work) entry ''1'' s =
     (Inr (Some ''1''), s\<lparr>b_calls := b_calls s + 9, b_operation := ''deactivate'', b_mutationAttempted := True,
        b_directory := (b_directory s)(''x'' \<mapsto> entry\<lparr>ra_IsActive := False\<rparr>),
        b_trace := b_trace s @ [EvChecked ''deactivate'', EvDeactivate ''1'']\<rparr>)"
  by (simp add: deactivate_def settle_deactivate_def bnd_def)

lemma demo_success:
  "\<exists>s'. DeleteQueuedAlias (demo_attempt_env None) demo_work () = (Inr (), s') \<and> b_address s' = ''x'' \<and>
     b_trace s' = [EvChecked ''validate'', EvChecked ''list'', EvDirectory demo_entries, EvReserved ''72'', EvChecked ''deactivate'',
       EvDeactivate ''1'', EvChecked ''delete'', EvSent ''72'', EvDelete ''1'', EvConfirmed ''1'', EvLocal 3]"
  by (simp add: DeleteQueuedAlias_def delete_attempt_def deferred_def bnd_def Let_def)

lemma demo_expired [simp]:
  "acceptResponse (demo_attempt_env z) demo_job v (Some (KindErr ErrInvalidSession)) s =
     (Inr (Some (wrap_remote KSessionExpired (KindErr ErrInvalidSession)), True),
      s\<lparr>b_valid := False, b_session := no_state, b_calls := Suc (b_calls s), b_stopped := Some (Coded KLoginRequired (Some NotFoundErr))\<rparr>)"
  by (simp add: acceptResponse_def map_response_def mapAppleError_def expire_def has_kind_def wrap_remote_def bnd_def Let_def)

lemma demo_failure:
  "\<exists>e s'. DeleteQueuedAlias (demo_attempt_env (Some (KindErr ErrInvalidSession))) demo_work () = (Inl (e, True), s') \<and>
     b_trace s' = [EvChecked ''validate'', EvChecked ''list'', EvDirectory demo_entries, EvReserved ''72'', EvChecked ''deactivate'',
       EvDeactivate ''1'']"
  by (simp add: DeleteQueuedAlias_def delete_attempt_def deferred_def bnd_def Let_def deactivate_def settle_deactivate_def catch_def)

lemma permanent_deletion_covered_witness:
  "\<exists>pre lease p. [EvChecked ''validate'', EvChecked ''list'', EvDirectory demo_entries, EvReserved ''72'', EvChecked ''deactivate'',
       EvDeactivate ''1'', EvChecked ''delete'', EvSent ''72''] = pre @ EvReserved lease # p @ [EvChecked ''delete'', EvSent lease]"
proof -
  obtain s' where d: "DeleteQueuedAlias (demo_attempt_env None) demo_work () = (Inr (), s')"
    "b_trace s' = [EvChecked ''validate'', EvChecked ''list'', EvDirectory demo_entries, EvReserved ''72'', EvChecked ''deactivate'',
       EvDeactivate ''1'', EvChecked ''delete'', EvSent ''72''] @ EvDelete ''1'' # [EvConfirmed ''1'', EvLocal 3]"
    using demo_success by auto
  from permanent_deletion_covered [OF d] show ?thesis by blast
qed


lemma mutation_reported_exactly_witness:
  "\<exists>i. EvDeactivate i \<in> set (b_trace (snd (DeleteQueuedAlias (demo_attempt_env (Some (KindErr ErrInvalidSession))) demo_work ()))) \<or>
     EvDelete i \<in> set (b_trace (snd (DeleteQueuedAlias (demo_attempt_env (Some (KindErr ErrInvalidSession))) demo_work ())))"
proof -
  obtain e s' where d: "DeleteQueuedAlias (demo_attempt_env (Some (KindErr ErrInvalidSession))) demo_work () = (Inl (e, True), s')"
    using demo_failure by blast
  from mutation_reported_exactly [OF d] d show ?thesis by simp
qed

end
