(* ===== verification/DeletionQueue.thy ===== *)
theory DeletionQueue
  imports DeletionJob
begin

section \<open>The durable deletion queue (internal/store/alias_deletion_queue.go)\<close>

text \<open>
  Work records are executed first-in first-out per Apple subject by workers that claim them. Jobs
  subscribe to work records through link rows; several jobs share one record. Every operation is
  one transaction behind the singleton write lock, so the operations are serial and a function
  from tables to tables per operation is faithful; an error rolls back. Rows of a statement
  without \<open>ORDER BY\<close> are visited in table order, and \<open>now\<close> is the clock reading of the
  transaction. The random bytes of new IDs are an argument.
\<close>

subsection \<open>IDs and statuses\<close>

definition newDeletionID :: "string \<Rightarrow> string" where
  "newDeletionID random =
     (let v = map byte_val random;
          value = v[6 := (v ! 6) mod 16 + 64, 8 := (v ! 8) mod 64 + 128];
          encoded = hex_encode (map char_of value)
      in take 8 encoded @ ''-'' @ take 4 (drop 8 encoded) @ ''-'' @ take 4 (drop 12 encoded) @ ''-'' @
         take 4 (drop 16 encoded) @ ''-'' @ drop 20 encoded)"

definition work_active :: "work_status \<Rightarrow> bool" where
  "work_active s \<longleftrightarrow> s = WsPending \<or> s = WsRunning \<or> s = WsWaiting \<or> s = WsPaused"

definition work_idle :: "work_status \<Rightarrow> bool" where
  "work_idle s \<longleftrightarrow> s = WsPending \<or> s = WsWaiting \<or> s = WsPaused"

definition deletionWorkTerminal :: "work_status \<Rightarrow> bool" where
  "deletionWorkTerminal s \<longleftrightarrow> s = WsSucceeded \<or> s = WsFailed \<or> s = WsCancelled"

lemmas status_defs = work_active_def work_idle_def deletionWorkTerminal_def

definition deletionJobStatus :: "deletion_job \<Rightarrow> string" where
  "deletionJobStatus job =
     (if jb_Status job = AliasDeletionJobInterrupted then jb_Status job
      else if list_all it_Done (jb_Items job) then AliasDeletionJobCompleted
      else if list_ex (\<lambda>it. it_Done it \<or> (it_State it \<noteq> WsOther [] \<and> it_State it \<noteq> WsPending)) (jb_Items job)
        then AliasDeletionJobRunning
      else AliasDeletionJobQueued)"

definition applyDeletionWorkToItem :: "deletion_work \<Rightarrow> job_item \<Rightarrow> job_item" where
  "applyDeletionWorkToItem w it =
     it\<lparr>it_AccountEmail := dw_AccountEmail w, it_AppleSubject := dw_AppleSubject w,
        it_State := dw_Status w, it_RetryAt := dw_NextRunAt w, it_WaitReason := dw_WaitReason w,
        it_Used := dw_Used w, it_Limit := dw_Limit w, it_Operation := dw_Operation w,
        it_HTTPStatus := dw_HTTPStatus w, it_ServiceCode := dw_ServiceCode w,
        it_Done := deletionWorkTerminal (dw_Status w), it_Deleted := dw_Deleted w,
        it_Code := dw_Code w, it_Message := dw_Message w, it_LocalRetained := dw_LocalRetained w\<rparr>"

definition cancelled_code :: string where "cancelled_code = ''BATCH_DELETE_CANCELLED''"

text \<open>The message shown for a cancelled item, in its UTF-8 bytes.\<close>

definition cancelled_message :: string where
  "cancelled_message =
    [CHR 0xE5, CHR 0xB7, CHR 0xB2, CHR 0xE5, CHR 0x8F, CHR 0x96, CHR 0xE6, CHR 0xB6, CHR 0x88,
     CHR 0xE5, CHR 0x89, CHR 0xA9, CHR 0xE4, CHR 0xBD, CHR 0x99, CHR 0xE5, CHR 0x88, CHR 0xA0,
     CHR 0xE9, CHR 0x99, CHR 0xA4, CHR 0xEF, CHR 0xBC, CHR 0x8C, CHR 0xE6, CHR 0x9C, CHR 0xAC,
     CHR 0xE5, CHR 0x9C, CHR 0xB0, CHR 0xE8, CHR 0xAE, CHR 0xB0, CHR 0xE5, CHR 0xBD, CHR 0x95,
     CHR 0xE4, CHR 0xBF, CHR 0x9D, CHR 0xE7, CHR 0x95, CHR 0x99]"

definition cancelDeletionWork :: "deletion_work \<Rightarrow> deletion_work" where
  "cancelDeletionWork w =
     w\<lparr>dw_Status := WsCancelled, dw_ClaimToken := [], dw_NextRunAt := zero_time, dw_WaitReason := [],
       dw_Deleted := False, dw_LocalRetained := True, dw_Code := cancelled_code,
       dw_Message := cancelled_message\<rparr>"

subsection \<open>The work table\<close>

definition deletionWorkValues :: "deletion_work \<Rightarrow> deletion_work" where
  "deletionWorkValues w =
     w\<lparr>dw_NextRunAt := (if is_zero_time (dw_NextRunAt w) then 0 else to_timestamp (dw_NextRunAt w)),
       dw_CreatedAt := to_timestamp (dw_CreatedAt w), dw_UpdatedAt := to_timestamp (dw_UpdatedAt w)\<rparr>"

definition scanAliasDeletionWork :: "deletion_work \<Rightarrow> deletion_work" where
  "scanAliasDeletionWork r =
     r\<lparr>dw_NextRunAt := (if dw_NextRunAt r = 0 then zero_time else time_of_timestamp (dw_NextRunAt r)),
       dw_CreatedAt := time_of_timestamp (dw_CreatedAt r), dw_UpdatedAt := time_of_timestamp (dw_UpdatedAt r)\<rparr>"

definition find_work :: "deletion_db \<Rightarrow> string \<Rightarrow> deletion_work option" where
  "find_work db i = map_option scanAliasDeletionWork (find_by dw_ID i (dd_works db))"

definition updateDeletionWorkTx :: "deletion_work \<Rightarrow> deletion_db \<Rightarrow> deletion_db" where
  "updateDeletionWorkTx w db =
     db\<lparr>dd_works := update_where (\<lambda>r. dw_ID r = dw_ID w) (\<lambda>_. deletionWorkValues w) (dd_works db)\<rparr>"

text \<open>
  The insert is checked against the primary key, the unique sequence and the unique index on the
  active (subject, address) pairs.
\<close>

definition insertDeletionWorkTx :: "deletion_work \<Rightarrow> deletion_db \<Rightarrow> job_error + deletion_db" where
  "insertDeletionWorkTx w db =
     (if list_ex (\<lambda>r. dw_ID r = dw_ID w \<or> dw_Sequence r = dw_Sequence w \<or>
           (work_active (dw_Status r) \<and> work_active (dw_Status w) \<and>
            dw_AppleSubject r = dw_AppleSubject w \<and> dw_Address r = dw_Address w)) (dd_works db)
      then Inl JobConflict
      else Inr (db\<lparr>dd_works := dd_works db @ [deletionWorkValues w]\<rparr>))"

subsection \<open>Snapshots, audit and publication\<close>

definition writeDeletionSnapshotTx :: "deletion_job \<Rightarrow> deletion_db \<Rightarrow> job_error + deletion_db" where
  "writeDeletionSnapshotTx job db =
     bind_res (normalizeAliasDeletionJob job) (\<lambda>clean.
       Inr (db\<lparr>dd_jobs := update_where (\<lambda>r. jr_key r = (jb_AdminID job, jb_ID job))
         (\<lambda>r. r\<lparr>jr_Items := jb_Items clean, jr_Status := jb_Status job,
                jr_UpdatedAt := to_timestamp (jb_UpdatedAt job)\<rparr>) (dd_jobs db)\<rparr>))"

text \<open>The audit detail is the JSON text of a map, whose keys Go writes in order.\<close>

definition item_detail :: "deletion_job \<Rightarrow> job_item \<Rightarrow> string" where
  "item_detail job it =
     ''{'' @ json_field ''address'' (json_string (it_Address it)) @ '','' @
     json_field ''code'' (json_string (it_Code it)) @ '','' @
     json_field ''job_id'' (json_string (jb_ID job)) @ '','' @
     json_field ''local_retained'' (if it_LocalRetained it then ''true'' else ''false'') @ '','' @
     json_field ''message'' (json_string (it_Message it)) @ ''}''"

definition item_audit :: "deletion_job \<Rightarrow> job_item \<Rightarrow> audit_log" where
  "item_audit job it =
     \<lparr>al_ID = 0, al_AdminID = Some (jb_AdminID job), al_Username = jb_Username job, al_Action = ''delete'',
      al_ResourceType = ''alias'', al_ResourceID = format_int (it_ID it),
      al_Result = (if it_Deleted it then ''success'' else ''failure''), al_IP = jb_IP job,
      al_RequestID = jb_RequestID job, al_Detail = item_detail job it, al_CreatedAt = jb_UpdatedAt job\<rparr>"

definition audit_item :: "time \<Rightarrow> deletion_job \<Rightarrow> int list \<Rightarrow> job_item \<Rightarrow> deletion_db \<Rightarrow> deletion_db" where
  "audit_item now job unaudited it db =
     (let hit = (\<lambda>r. lk_key r = (jb_AdminID job, jb_ID job, it_ID it) \<and> \<not> lk_Audited r) in
      if \<not> it_Done it \<or> it_WorkID it = [] \<or> it_ID it \<notin> set unaudited then db
      else if \<not> list_ex hit (dd_links db) then db
      else db\<lparr>dd_links := update_where hit (\<lambda>r. r\<lparr>lk_Audited := True\<rparr>) (dd_links db),
             dd_audit := snd (insertAuditLog (dd_audit db) (item_audit job it) now)\<rparr>)"

definition auditDeletionItemsTx :: "time \<Rightarrow> deletion_job \<Rightarrow> deletion_db \<Rightarrow> deletion_db" where
  "auditDeletionItemsTx now job db =
     (let unaudited = map lk_AliasID (filter (\<lambda>r. lk_job r = (jb_AdminID job, jb_ID job) \<and> \<not> lk_Audited r)
            (dd_links db))
      in fold (audit_item now job unaudited) (jb_Items job) db)"

definition snapshot_and_audit :: "time \<Rightarrow> deletion_job \<Rightarrow> deletion_db \<Rightarrow> job_error + deletion_db" where
  "snapshot_and_audit now job db =
     bind_res (writeDeletionSnapshotTx job db) (\<lambda>db'. Inr (auditDeletionItemsTx now job db'))"

definition publish_to_job :: "time \<Rightarrow> deletion_work \<Rightarrow> int \<times> string \<Rightarrow> deletion_db \<Rightarrow> job_error + deletion_db" where
  "publish_to_job now w key db =
     (case getDeletionJobTx db (snd key) (fst key) of
        None \<Rightarrow> Inr db
      | Some job \<Rightarrow>
          (let shown = job\<lparr>jb_Items := map (\<lambda>it. if it_WorkID it = dw_ID w \<and> \<not> it_Done it
                 then applyDeletionWorkToItem w it else it) (jb_Items job)\<rparr>
           in snapshot_and_audit now
                (shown\<lparr>jb_Status := deletionJobStatus shown, jb_UpdatedAt := dw_UpdatedAt w\<rparr>) db))"

definition deactivate_links :: "(link_row \<Rightarrow> bool) \<Rightarrow> deletion_db \<Rightarrow> deletion_db" where
  "deactivate_links P db =
     db\<lparr>dd_links := update_where P (\<lambda>r. r\<lparr>lk_Active := False\<rparr>) (dd_links db)\<rparr>"

definition publishDeletionWorkTx :: "time \<Rightarrow> deletion_work \<Rightarrow> deletion_db \<Rightarrow> job_error + deletion_db" where
  "publishDeletionWorkTx now w db =
     (let db1 = (if deletionWorkTerminal (dw_Status w) then deactivate_links (\<lambda>r. lk_WorkID r = dw_ID w) db
                 else db);
          jobs = remdups (map lk_job (filter (\<lambda>r. lk_WorkID r = dw_ID w) (dd_links db1)))
      in fold_res (publish_to_job now w) jobs db1)"

subsection \<open>Cancellation and pruning\<close>

definition cancel_item :: "deletion_db \<Rightarrow> job_item \<Rightarrow> job_error + job_item" where
  "cancel_item db it =
     (if it_Done it \<or> it_WorkID it = [] then Inr it
      else (case find_work db (it_WorkID it) of
              None \<Rightarrow> Inl WorkMissing
            | Some w \<Rightarrow>
                if dw_Status w = WsRunning \<or> dw_Reconcile w then Inr it
                else Inr (it\<lparr>it_Done := True, it_Deleted := False, it_LocalRetained := True,
                             it_State := WsCancelled, it_Code := cancelled_code,
                             it_Message := cancelled_message, it_RetryAt := zero_time,
                             it_WaitReason := []\<rparr>)))"

definition cancelDeletionJobTx :: "time \<Rightarrow> deletion_job \<Rightarrow> bool \<Rightarrow> deletion_db \<Rightarrow> job_error + deletion_db" where
  "cancelDeletionJobTx now job0 interrupted db =
     (let job1 = job0\<lparr>jb_CancelRequested := True\<rparr>;
          db1 = deactivate_links (\<lambda>r. lk_job r = (jb_AdminID job1, jb_ID job1))
            (db\<lparr>dd_metas := update_where (\<lambda>m. mt_key m = (jb_AdminID job1, jb_ID job1))
               (\<lambda>m. m\<lparr>mt_Cancel := True\<rparr>) (dd_metas db)\<rparr>)
      in bind_res (map_res (cancel_item db1) (jb_Items job1)) (\<lambda>items.
           (let job2 = job1\<lparr>jb_Items := items\<rparr>;
                job3 = job2\<lparr>jb_Status := (if interrupted then AliasDeletionJobInterrupted
                                          else deletionJobStatus job2), jb_UpdatedAt := now\<rparr>
            in snapshot_and_audit now job3 db1)))"

definition unwanted :: "deletion_db \<Rightarrow> deletion_work \<Rightarrow> bool" where
  "unwanted db r \<longleftrightarrow> work_idle (dw_Status r) \<and> \<not> dw_Reconcile r \<and>
     \<not> list_ex (\<lambda>l. lk_WorkID l = dw_ID r \<and> lk_Active l) (dd_links db)"

definition cancel_and_publish :: "time \<Rightarrow> deletion_work \<Rightarrow> deletion_db \<Rightarrow> job_error + deletion_db" where
  "cancel_and_publish now w db =
     (let w' = (cancelDeletionWork w)\<lparr>dw_UpdatedAt := now\<rparr>
      in publishDeletionWorkTx now w' (updateDeletionWorkTx w' db))"

definition cancelUnwantedDeletionWorkTx :: "time \<Rightarrow> deletion_db \<Rightarrow> job_error + deletion_db" where
  "cancelUnwantedDeletionWorkTx now db =
     fold_res (cancel_and_publish now) (map scanAliasDeletionWork (filter (unwanted db) (dd_works db))) db"

definition stale_meta :: "deletion_db \<Rightarrow> meta_row \<Rightarrow> bool" where
  "stale_meta db m \<longleftrightarrow>
     (case find_by jr_key (mt_key m) (dd_jobs db) of None \<Rightarrow> False | Some r \<Rightarrow> job_active (jr_Status r)) \<and>
     \<not> mt_Cancel m \<and> \<not> version_matches (dd_admins db) (mt_AdminID m) (mt_PasswordVersion m)"

definition prune_job :: "time \<Rightarrow> int \<times> string \<Rightarrow> deletion_db \<Rightarrow> job_error + deletion_db" where
  "prune_job now key db =
     (case getDeletionJobTx db (snd key) (fst key) of
        None \<Rightarrow> Inr db
      | Some job \<Rightarrow>
          if jb_Status job = AliasDeletionJobCompleted \<or> jb_Status job = AliasDeletionJobInterrupted then Inr db
          else cancelDeletionJobTx now job True db)"

definition pruneDeletionSubscriptionsTx :: "time \<Rightarrow> deletion_db \<Rightarrow> job_error + deletion_db" where
  "pruneDeletionSubscriptionsTx now db =
     bind_res (fold_res (prune_job now) (map mt_key (filter (stale_meta db) (dd_metas db))) db)
       (cancelUnwantedDeletionWorkTx now)"

definition deletionWorkWantedTx :: "deletion_db \<Rightarrow> string \<Rightarrow> bool" where
  "deletionWorkWantedTx db i \<longleftrightarrow>
     list_ex (\<lambda>l. lk_WorkID l = i \<and> lk_Active l \<and>
       (case find_by mt_key (lk_job l) (dd_metas db) of
          None \<Rightarrow> False
        | Some m \<Rightarrow> \<not> mt_Cancel m \<and> version_matches (dd_admins db) (mt_AdminID m) (mt_PasswordVersion m)))
       (dd_links db)"

subsection \<open>Enqueueing\<close>

text \<open>The outcome of a transaction: an error leaves the tables as they were.\<close>

definition run_tx :: "deletion_db \<Rightarrow> job_error + ('a \<times> deletion_db) \<Rightarrow> (job_error + 'a) \<times> deletion_db" where
  "run_tx db m = (case m of Inl e \<Rightarrow> (Inl e, db) | Inr (x, db') \<Rightarrow> (Inr x, db'))"

definition normalize_target :: "deletion_work \<Rightarrow> deletion_work" where
  "normalize_target t =
     t\<lparr>dw_Address := to_lower (trim_space (sanitizePostgresText (dw_Address t))),
       dw_AppleSubject := trim_space (sanitizePostgresText (dw_AppleSubject t))\<rparr>"

definition active_work_for :: "deletion_db \<Rightarrow> string \<Rightarrow> string \<Rightarrow> deletion_work option" where
  "active_work_for db subject address =
     map_option scanAliasDeletionWork
       (find (\<lambda>r. dw_AppleSubject r = subject \<and> dw_Address r = address \<and> work_active (dw_Status r)) (dd_works db))"

definition new_work :: "deletion_work \<Rightarrow> string \<Rightarrow> int \<Rightarrow> time \<Rightarrow> deletion_work" where
  "new_work target random seqno now =
     target\<lparr>dw_ID := newDeletionID random, dw_Sequence := seqno, dw_Status := WsPending,
            dw_ClaimToken := [], dw_CreatedAt := now, dw_UpdatedAt := now\<rparr>"

definition target_usable :: "deletion_work \<Rightarrow> bool" where
  "target_usable t \<longleftrightarrow> \<not> (dw_AccountID t < 1 \<or> trim_space (dw_AppleSubject t) = [] \<or> trim_space (dw_Address t) = [])"

definition subscribe_item :: "deletion_work \<Rightarrow> deletion_work \<Rightarrow> job_item \<Rightarrow> job_item" where
  "subscribe_item target w it =
     applyDeletionWorkToItem w (it\<lparr>it_AccountID := dw_AccountID target, it_AccountEmail := dw_AccountEmail w,
       it_AppleSubject := dw_AppleSubject w, it_WorkID := dw_ID w\<rparr>)"

text \<open>The item loop; the state is the tables and the random blocks not yet used.\<close>

fun enqueue_items ::
  "time \<Rightarrow> deletion_work list \<Rightarrow> job_item list \<Rightarrow> deletion_db \<Rightarrow> string list \<Rightarrow>
     job_error + (job_item list \<times> deletion_db)" where
  "enqueue_items now targets [] db random = Inr ([], db)"
| "enqueue_items now targets (it # its) db random =
     (if it_Done it then
        bind_res (enqueue_items now targets its db random) (\<lambda>(rest, db'). Inr (it # rest, db'))
      else
        (case find_by dw_AliasID (it_ID it) targets of
           None \<Rightarrow> Inl (MissingTarget (it_ID it))
         | Some target0 \<Rightarrow>
             if \<not> target_usable target0 then Inl (MissingTarget (it_ID it))
             else
               (let target = normalize_target target0 in
                case active_work_for db (dw_AppleSubject target) (dw_Address target) of
                  Some w \<Rightarrow>
                    bind_res (enqueue_items now targets its db random)
                      (\<lambda>(rest, db'). Inr (subscribe_item target w it # rest, db'))
                | None \<Rightarrow>
                    (case random of
                       [] \<Rightarrow> Inl RandomFailed
                     | block # random' \<Rightarrow>
                         (let w = new_work target block (dd_sequence db + 1) now in
                          bind_res (insertDeletionWorkTx w (db\<lparr>dd_sequence := dd_sequence db + 1\<rparr>)) (\<lambda>db1.
                            bind_res (enqueue_items now targets its db1 random')
                              (\<lambda>(rest, db'). Inr (subscribe_item target w it # rest, db'))))))))"

definition insert_meta :: "deletion_job \<Rightarrow> deletion_db \<Rightarrow> job_error + deletion_db" where
  "insert_meta job db =
     (if find_by mt_key (jb_AdminID job, jb_ID job) (dd_metas db) \<noteq> None then Inl JobConflict
      else Inr (db\<lparr>dd_metas := dd_metas db @
        [\<lparr>mt_AdminID = jb_AdminID job, mt_JobID = jb_ID job, mt_QueueVersion = 1,
          mt_PasswordVersion = jb_PasswordVersion job, mt_Username = jb_Username job, mt_IP = jb_IP job,
          mt_Cancel = False\<rparr>]\<rparr>))"

definition insert_link :: "deletion_job \<Rightarrow> job_item \<Rightarrow> deletion_db \<Rightarrow> job_error + deletion_db" where
  "insert_link job it db =
     (if it_WorkID it = [] then Inr db
      else if find_by lk_key (jb_AdminID job, jb_ID job, it_ID it) (dd_links db) \<noteq> None then Inl JobConflict
      else if find_by dw_ID (it_WorkID it) (dd_works db) = None then Inl WorkMissing
      else Inr (db\<lparr>dd_links := dd_links db @
        [\<lparr>lk_AdminID = jb_AdminID job, lk_JobID = jb_ID job, lk_AliasID = it_ID it, lk_WorkID = it_WorkID it,
          lk_Active = True, lk_Audited = False\<rparr>]\<rparr>))"

definition enqueue_new ::
  "deletion_db \<Rightarrow> deletion_job \<Rightarrow> deletion_work list \<Rightarrow> string list \<Rightarrow> time \<Rightarrow> job_error + (deletion_job \<times> deletion_db)" where
  "enqueue_new db job targets random now =
     bind_res (pruneDeletionSubscriptionsTx now db) (\<lambda>db1.
       if \<not> distinct (map dw_AliasID targets) then Inl DuplicateTarget
       else
         (let job1 = job\<lparr>jb_CreatedAt := (if is_zero_time (jb_CreatedAt job) then now else jb_CreatedAt job),
                jb_UpdatedAt := now, jb_QueueVersion := 1, jb_CancelRequested := False,
                jb_Username := truncate_text (jb_Username job) 128, jb_IP := truncate_text (jb_IP job) 64,
                jb_Status := AliasDeletionJobQueued\<rparr>
          in bind_res (enqueue_items now targets (jb_Items job1) db1 random) (\<lambda>(items, db2).
               (let job2 = job1\<lparr>jb_Items := items\<rparr>;
                    job3 = job2\<lparr>jb_Status := deletionJobStatus job2\<rparr>
                in bind_res (normalizeAliasDeletionJob job3) (\<lambda>clean.
                   bind_res (insert_job_row (row_of_job job3 (jb_Items clean)) db2) (\<lambda>db3.
                   bind_res (insert_meta job3 db3) (\<lambda>db4.
                   bind_res (fold_res (insert_link job3) items db4) (\<lambda>db5.
                   Inr (job3, db5)))))))))"

definition EnqueueAliasDeletionJob ::
  "deletion_db \<Rightarrow> deletion_job \<Rightarrow> deletion_work list \<Rightarrow> string list \<Rightarrow> time \<Rightarrow>
     (job_error + deletion_job) \<times> deletion_db" where
  "EnqueueAliasDeletionJob db job0 targets random now = run_tx db
     (bind_res (normalizeAliasDeletionJob
         (if jb_Status job0 = [] then job0\<lparr>jb_Status := AliasDeletionJobQueued\<rparr> else job0)) (\<lambda>job.
        case getDeletionJobTx db (jb_ID job) (jb_AdminID job) of
          Some existing \<Rightarrow> Inr (existing, db)
        | None \<Rightarrow>
            (case find_admin (dd_admins db) (jb_AdminID job) of
               None \<Rightarrow> Inl JobCredentialsChanged
             | Some a \<Rightarrow>
                 if jb_PasswordVersion job < 1 \<or> ad_PasswordVersion a \<noteq> jb_PasswordVersion job
                 then Inl JobCredentialsChanged
                 else enqueue_new db job targets random now)))"

subsection \<open>Heads, claims and results\<close>

definition queue_head :: "deletion_db \<Rightarrow> deletion_work \<Rightarrow> bool" where
  "queue_head db w \<longleftrightarrow>
     \<not> list_ex (\<lambda>e. dw_AppleSubject e = dw_AppleSubject w \<and> dw_Sequence e < dw_Sequence w \<and>
          work_active (dw_Status e)) (dd_works db)"

definition runnable :: "deletion_db \<Rightarrow> timestamp \<Rightarrow> deletion_work \<Rightarrow> bool" where
  "runnable db now r \<longleftrightarrow> work_idle (dw_Status r) \<and> dw_NextRunAt r \<le> now \<and> queue_head db r"

definition ListAliasDeletionQueueHeads ::
  "deletion_db \<Rightarrow> time \<Rightarrow> time \<Rightarrow> (job_error + deletion_work list) \<times> deletion_db" where
  "ListAliasDeletionQueueHeads db due now = run_tx db
     (bind_res (pruneDeletionSubscriptionsTx now db) (\<lambda>db'.
        Inr (map scanAliasDeletionWork (sort_key dw_Sequence
               (filter (runnable db' (to_timestamp due)) (dd_works db'))), db')))"

text \<open>A claim that finds nothing to run still commits the pruning.\<close>

definition claim_tx ::
  "deletion_db \<Rightarrow> string \<Rightarrow> string option \<Rightarrow> time \<Rightarrow> time \<Rightarrow> job_error + (deletion_work option \<times> deletion_db)" where
  "claim_tx db i random due now =
     bind_res (pruneDeletionSubscriptionsTx now db) (\<lambda>db1.
       case find (\<lambda>r. dw_ID r = i \<and> runnable db1 (to_timestamp due) r) (dd_works db1) of
         None \<Rightarrow> Inr (None, db1)
       | Some r \<Rightarrow>
           (case random of
              None \<Rightarrow> Inl RandomFailed
            | Some block \<Rightarrow>
                (let w0 = scanAliasDeletionWork r;
                     w = w0\<lparr>dw_ClaimToken := newDeletionID block, dw_Status := WsRunning,
                           dw_Attempts := dw_Attempts w0 + 1, dw_UpdatedAt := due\<rparr>
                 in bind_res (publishDeletionWorkTx now w (updateDeletionWorkTx w db1))
                      (\<lambda>db2. Inr (Some w, db2)))))"

definition ClaimAliasDeletionWork ::
  "deletion_db \<Rightarrow> string \<Rightarrow> string option \<Rightarrow> time \<Rightarrow> time \<Rightarrow> (job_error + deletion_work) \<times> deletion_db" where
  "ClaimAliasDeletionWork db i random due now =
     (case run_tx db (claim_tx db i random due now) of
        (Inl e, db') \<Rightarrow> (Inl e, db')
      | (Inr None, db') \<Rightarrow> (Inl JobNotFound, db')
      | (Inr (Some w), db') \<Rightarrow> (Inr w, db'))"

definition known_status :: "work_status \<Rightarrow> bool" where
  "known_status s \<longleftrightarrow> work_active s \<or> deletionWorkTerminal s"

text \<open>The row a result writes: identity and order are the current row's, the rest the worker's.\<close>

definition merge_result :: "deletion_work \<Rightarrow> deletion_work \<Rightarrow> bool \<Rightarrow> time \<Rightarrow> deletion_work" where
  "merge_result current work wanted now =
     (let w1 = work\<lparr>dw_Sequence := dw_Sequence current, dw_AccountID := dw_AccountID current,
            dw_AliasID := dw_AliasID current, dw_Address := dw_Address current,
            dw_AccountEmail := dw_AccountEmail current, dw_AppleID := dw_AppleID current,
            dw_AppleSubject := dw_AppleSubject current, dw_CreatedAt := dw_CreatedAt current,
            dw_Attempts := dw_Attempts current\<rparr>;
          w2 = (if \<not> wanted \<and> \<not> deletionWorkTerminal (dw_Status w1) \<and> \<not> dw_Reconcile w1
                then cancelDeletionWork w1 else w1);
          w3 = (if dw_Status w2 \<noteq> WsRunning then w2\<lparr>dw_ClaimToken := []\<rparr> else w2)
      in w3\<lparr>dw_UpdatedAt := now, dw_Code := truncate_text (trim_space (dw_Code w3)) 64,
            dw_Message := truncate_text (trim_space (dw_Message w3)) 1024,
            dw_WaitReason := truncate_text (dw_WaitReason w3) 128,
            dw_Operation := truncate_text (dw_Operation w3) 64,
            dw_ServiceCode := truncate_text (dw_ServiceCode w3) 128\<rparr>)"

definition fenced :: "deletion_work \<Rightarrow> deletion_work \<Rightarrow> bool" where
  "fenced current work \<longleftrightarrow>
     dw_Status current \<noteq> WsRunning \<or> dw_ClaimToken current = [] \<or> dw_ClaimToken current \<noteq> dw_ClaimToken work"

definition SaveAliasDeletionWork ::
  "deletion_db \<Rightarrow> deletion_work \<Rightarrow> time \<Rightarrow> (job_error + unit) \<times> deletion_db" where
  "SaveAliasDeletionWork db work now = run_tx db
     (if \<not> known_status (dw_Status work) then Inl WorkStatusInvalid
      else (case find_work db (dw_ID work) of
              None \<Rightarrow> Inl JobNotFound
            | Some current \<Rightarrow>
                if fenced current work then Inl JobConflict
                else bind_res (pruneDeletionSubscriptionsTx now db) (\<lambda>db1.
                  (let w = merge_result current work (deletionWorkWantedTx db1 (dw_ID work)) now
                   in bind_res (publishDeletionWorkTx now w (updateDeletionWorkTx w db1)) (\<lambda>db2.
                        Inr ((), db2))))))"

subsection \<open>Cancelling, watching, recovering\<close>

definition CancelAliasDeletionJob ::
  "deletion_db \<Rightarrow> string \<Rightarrow> int \<Rightarrow> time \<Rightarrow> (job_error + deletion_job) \<times> deletion_db" where
  "CancelAliasDeletionJob db i admin now = run_tx db
     (case getDeletionJobTx db i admin of
        None \<Rightarrow> Inl JobNotFound
      | Some job \<Rightarrow>
          if jb_QueueVersion job = 1 \<and> jb_Status job \<noteq> AliasDeletionJobCompleted \<and>
             jb_Status job \<noteq> AliasDeletionJobInterrupted then
            bind_res (cancelDeletionJobTx now job False db) (\<lambda>db1.
            bind_res (cancelUnwantedDeletionWorkTx now db1) (\<lambda>db2.
              case getDeletionJobTx db2 i admin of None \<Rightarrow> Inl JobNotFound | Some job' \<Rightarrow> Inr (job', db2)))
          else Inr (job, db))"

definition AliasDeletionWorkWanted ::
  "deletion_db \<Rightarrow> string \<Rightarrow> time \<Rightarrow> (job_error + bool) \<times> deletion_db" where
  "AliasDeletionWorkWanted db i now = run_tx db
     (bind_res (pruneDeletionSubscriptionsTx now db) (\<lambda>db'. Inr (deletionWorkWantedTx db' i, db')))"

definition recover_work :: "time \<Rightarrow> deletion_work \<Rightarrow> deletion_db \<Rightarrow> job_error + deletion_db" where
  "recover_work now w0 db =
     (let w = w0\<lparr>dw_Status := WsPending, dw_ClaimToken := [], dw_Reconcile := True,
            dw_NextRunAt := zero_time, dw_WaitReason := ''reconcile'', dw_UpdatedAt := now\<rparr>
      in publishDeletionWorkTx now w (updateDeletionWorkTx w db))"

definition RecoverAliasDeletionQueue :: "deletion_db \<Rightarrow> time \<Rightarrow> (job_error + unit) \<times> deletion_db" where
  "RecoverAliasDeletionQueue db now = run_tx db
     (let db1 = interrupt_legacy_jobs db now;
          works = map scanAliasDeletionWork (filter (\<lambda>r. dw_Status r = WsRunning) (dd_works db1))
      in bind_res (fold_res (recover_work now) works db1) (\<lambda>db2.
         bind_res (pruneDeletionSubscriptionsTx now db2) (\<lambda>db3. Inr ((), db3))))"

end
