(* ===== verification/DeletionQueueFacts.thy ===== *)
theory DeletionQueueFacts
  imports DeletionQueue
begin

section \<open>Facts about the work table of the deletion queue\<close>

text \<open>
  What every operation of the queue does to the work table: the invariant \<open>works_inv\<close> (unique IDs and
  FIFO positions, one active record per subject and address, a running record is the head of its
  subject and holds a claim token) and the relation \<open>keeps\<close> (identities persist, finished records do
  not change). Each operation is shown to be \<open>allowed\<close>; the properties follow in DeletionQueueRuns.
\<close>


definition same_identity :: "deletion_work \<Rightarrow> deletion_work \<Rightarrow> bool" where
  "same_identity r r' \<longleftrightarrow> dw_ID r' = dw_ID r \<and> dw_Sequence r' = dw_Sequence r \<and>
     dw_AccountID r' = dw_AccountID r \<and> dw_AliasID r' = dw_AliasID r \<and> dw_Address r' = dw_Address r \<and>
     dw_AccountEmail r' = dw_AccountEmail r \<and> dw_AppleID r' = dw_AppleID r \<and>
     dw_AppleSubject r' = dw_AppleSubject r"

definition earlier_active :: "deletion_work list \<Rightarrow> deletion_work \<Rightarrow> bool" where
  "earlier_active ws w \<longleftrightarrow> (\<exists>e \<in> set ws. dw_AppleSubject e = dw_AppleSubject w \<and>
     dw_Sequence e < dw_Sequence w \<and> work_active (dw_Status e))"

definition row_ok :: "deletion_work list \<Rightarrow> int \<Rightarrow> deletion_work \<Rightarrow> bool" where
  "row_ok ws seqno r \<longleftrightarrow> dw_Sequence r \<le> seqno \<and> known_status (dw_Status r) \<and>
     (dw_Status r = WsRunning \<longleftrightarrow> dw_ClaimToken r \<noteq> []) \<and>
     (dw_Status r = WsRunning \<longrightarrow> \<not> earlier_active ws r)"

definition same_target :: "deletion_work \<Rightarrow> deletion_work \<Rightarrow> bool" where
  "same_target r r' \<longleftrightarrow> work_active (dw_Status r) \<and> work_active (dw_Status r') \<and>
     dw_AppleSubject r = dw_AppleSubject r' \<and> dw_Address r = dw_Address r'"

definition works_inv :: "deletion_work list \<Rightarrow> int \<Rightarrow> bool" where
  "works_inv ws seqno \<longleftrightarrow>
     unique_key dw_ID ws \<and> unique_key dw_Sequence ws \<and> (\<forall>r \<in> set ws. row_ok ws seqno r) \<and>
     (\<forall>r \<in> set ws. \<forall>r' \<in> set ws. same_target r r' \<longrightarrow> dw_ID r = dw_ID r')"

lemma works_invD:
  assumes "works_inv ws seqno"
  shows "unique_key dw_ID ws" and "unique_key dw_Sequence ws" and "r \<in> set ws \<Longrightarrow> row_ok ws seqno r"
    and "r \<in> set ws \<Longrightarrow> r' \<in> set ws \<Longrightarrow> same_target r r' \<Longrightarrow> dw_ID r = dw_ID r'"
  using assms by (auto simp: works_inv_def)

lemma works_invI:
  assumes "unique_key dw_ID ws" and "unique_key dw_Sequence ws" and "\<And>r. r \<in> set ws \<Longrightarrow> row_ok ws seqno r"
    and "\<And>r r'. r \<in> set ws \<Longrightarrow> r' \<in> set ws \<Longrightarrow> same_target r r' \<Longrightarrow> dw_ID r = dw_ID r'"
  shows "works_inv ws seqno"
  using assms by (auto simp: works_inv_def)

text \<open>The changes of a row that the operations make.\<close>

definition row_change :: "deletion_work list \<Rightarrow> deletion_work \<Rightarrow> deletion_work \<Rightarrow> bool" where
  "row_change ws r r' \<longleftrightarrow> same_identity r r' \<and>
     (r' = r \<or>
      work_active (dw_Status r) \<and> known_status (dw_Status r') \<and>
      (dw_Status r' = WsRunning \<longleftrightarrow> dw_ClaimToken r' \<noteq> []) \<and>
      (dw_Status r' = WsRunning \<longrightarrow> \<not> earlier_active ws r))"

lemma row_change_active:
  "row_change ws r r' \<Longrightarrow> work_active (dw_Status r') \<Longrightarrow> work_active (dw_Status r)"
  by (auto simp: row_change_def)

lemma row_changeD: "row_change ws r r' \<Longrightarrow> dw_ID r' = dw_ID r \<and> dw_Sequence r' = dw_Sequence r \<and>
    dw_AppleSubject r' = dw_AppleSubject r \<and> dw_Address r' = dw_Address r"
  by (simp add: row_change_def same_identity_def)

lemma earlier_active_map:
  assumes "\<And>r. r \<in> set ws \<Longrightarrow> row_change ws r (f r)" and "r \<in> set ws" and "earlier_active (map f ws) (f r)"
  shows "earlier_active ws r"
proof -
  obtain e where e: "e \<in> set ws" "dw_AppleSubject (f e) = dw_AppleSubject (f r)"
    "dw_Sequence (f e) < dw_Sequence (f r)" "work_active (dw_Status (f e))"
    using assms(3) by (auto simp: earlier_active_def)
  then show ?thesis
    using row_changeD [OF assms(1) [OF e(1)]] row_changeD [OF assms(1) [OF assms(2)]]
      row_change_active [OF assms(1) [OF e(1)]]
    by (auto simp: earlier_active_def)
qed

lemma unique_key_map:
  "unique_key key ws \<Longrightarrow> (\<And>r. r \<in> set ws \<Longrightarrow> key (f r) = key r) \<Longrightarrow> unique_key key (map f ws)"
  by (simp add: unique_key_def cong: map_cong)

lemma row_ok_change:
  assumes "row_ok ws seqno r" and "row_change ws r r'" and "earlier_active ws' r' \<Longrightarrow> earlier_active ws r"
  shows "row_ok ws' seqno r'"
  using assms by (auto simp: row_ok_def row_change_def same_identity_def)

lemma works_inv_map:
  assumes inv: "works_inv ws seqno" and ch: "\<And>r. r \<in> set ws \<Longrightarrow> row_change ws r (f r)"
  shows "works_inv (map f ws) seqno"
proof (rule works_invI)
  note D = row_changeD [OF ch]
  show "unique_key dw_ID (map f ws)" using works_invD(1) [OF inv] D by (intro unique_key_map) auto
  show "unique_key dw_Sequence (map f ws)" using works_invD(2) [OF inv] D by (intro unique_key_map) auto
  show "row_ok (map f ws) seqno r'" if mem: "r' \<in> set (map f ws)" for r'
  proof -
    obtain r where r: "r \<in> set ws" "r' = f r" using mem by auto
    show ?thesis unfolding r(2)
      by (rule row_ok_change [OF works_invD(3) [OF inv r(1)] ch [OF r(1)]])
         (rule earlier_active_map [OF ch r(1)])
  qed
  show "dw_ID s = dw_ID s'" if mem: "s \<in> set (map f ws)" "s' \<in> set (map f ws)" "same_target s s'" for s s'
  proof -
    obtain r r' where r: "r \<in> set ws" "s = f r" and r': "r' \<in> set ws" "s' = f r'" using mem(1,2) by auto
    have "same_target r r'"
      using mem(3) row_change_active [OF ch [OF r(1)]] row_change_active [OF ch [OF r'(1)]]
        D [OF r(1)] D [OF r'(1)]
      by (simp add: r(2) r'(2) same_target_def)
    then show ?thesis using works_invD(4) [OF inv r(1) r'(1)] D [OF r(1)] D [OF r'(1)] r(2) r'(2) by simp
  qed
qed

lemma works_inv_append:
  assumes inv: "works_inv ws seqno" and w: "dw_Sequence w = seqno + 1" "dw_Status w = WsPending"
    "dw_ClaimToken w = []" "find_by dw_ID (dw_ID w) ws = None"
    and fresh: "\<And>r. r \<in> set ws \<Longrightarrow> \<not> same_target r w"
  shows "works_inv (ws @ [w]) (seqno + 1)"
proof (rule works_invI)
  have seqs: "dw_Sequence r < dw_Sequence w" if "r \<in> set ws" for r
    using works_invD(3) [OF inv that] w(1) by (simp add: row_ok_def)
  show "unique_key dw_ID (ws @ [w])" using works_invD(1) [OF inv] w(4) by (simp add: unique_key_append1)
  have "find_by dw_Sequence (dw_Sequence w) ws = None" using seqs by (force simp: find_by_None)
  then show "unique_key dw_Sequence (ws @ [w])"
    using works_invD(2) [OF inv] by (simp add: unique_key_append1)
  show "row_ok (ws @ [w]) (seqno + 1) r" if r: "r \<in> set (ws @ [w])" for r
  proof (cases "r = w")
    case True
    then show ?thesis using w by (simp add: row_ok_def known_status_def work_active_def)
  next
    case False
    then have m: "r \<in> set ws" using r by simp
    have "earlier_active (ws @ [w]) r \<Longrightarrow> earlier_active ws r"
      using seqs [OF m] by (auto simp: earlier_active_def)
    then show ?thesis using works_invD(3) [OF inv m] by (auto simp: row_ok_def)
  qed
  show "dw_ID r = dw_ID r'" if "r \<in> set (ws @ [w])" "r' \<in> set (ws @ [w])" "same_target r r'" for r r'
  proof -
    have "same_target r' r" using that(3) by (auto simp: same_target_def)
    then show ?thesis using that fresh works_invD(4) [OF inv] by auto
  qed
qed

subsection \<open>What the statements leave alone\<close>

definition core :: "deletion_db \<Rightarrow> deletion_work list \<times> int \<times> admin_db" where
  "core db = (dd_works db, dd_sequence db, dd_admins db)"

lemma core_eq: "core db' = core db \<longleftrightarrow>
    dd_works db' = dd_works db \<and> dd_sequence db' = dd_sequence db \<and> dd_admins db' = dd_admins db"
  by (simp add: core_def)

lemma core_updates [simp]:
  "core (db\<lparr>dd_jobs := js\<rparr>) = core db" "core (db\<lparr>dd_links := ls\<rparr>) = core db"
  "core (db\<lparr>dd_metas := ms\<rparr>) = core db" "core (db\<lparr>dd_audit := au\<rparr>) = core db"
  "core (db\<lparr>dd_links := ls, dd_audit := au\<rparr>) = core db"
  by (simp_all add: core_def)

lemma core_deactivate [simp]: "core (deactivate_links P db) = core db"
  by (simp add: deactivate_links_def)

lemma core_audit_item [simp]: "core (audit_item now job un it db) = core db"
  by (simp add: audit_item_def Let_def)

lemma core_fold: "(\<And>x d. core (f x d) = core d) \<Longrightarrow> core (fold f xs d) = core d"
  by (induction xs arbitrary: d) simp_all

lemma core_audit [simp]: "core (auditDeletionItemsTx now job db) = core db"
  by (simp add: auditDeletionItemsTx_def Let_def core_fold)

lemma core_snapshot: "writeDeletionSnapshotTx job db = Inr db' \<Longrightarrow> core db' = core db"
  by (auto simp: writeDeletionSnapshotTx_def bind_res_Inr)

lemma core_snapshot_audit: "snapshot_and_audit now job db = Inr db' \<Longrightarrow> core db' = core db"
  by (auto simp: snapshot_and_audit_def bind_res_Inr core_snapshot)

lemma core_publish_job: "publish_to_job now w key db = Inr db' \<Longrightarrow> core db' = core db"
  by (auto simp: publish_to_job_def Let_def core_snapshot_audit split: option.splits)

lemma core_publish: "publishDeletionWorkTx now w db = Inr db' \<Longrightarrow> core db' = core db"
  unfolding publishDeletionWorkTx_def Let_def
  by (drule fold_res_invariant [where P = "\<lambda>d. core d = core db"]) (auto dest: core_publish_job)

lemma core_cancel_job: "cancelDeletionJobTx now job intr db = Inr db' \<Longrightarrow> core db' = core db"
  unfolding cancelDeletionJobTx_def Let_def bind_res_Inr
  by (auto dest!: core_snapshot_audit)

lemma core_prune_job: "prune_job now key db = Inr db' \<Longrightarrow> core db' = core db"
  by (auto simp: prune_job_def core_cancel_job split: option.splits if_splits)

lemma core_prune_jobs: "fold_res (prune_job now) keys db = Inr db' \<Longrightarrow> core db' = core db"
  by (drule fold_res_invariant [where P = "\<lambda>d. core d = core db"]) (auto dest: core_prune_job)

subsection \<open>What the statements do to the work table\<close>

lemma values_fields [simp]:
  "dw_ID (deletionWorkValues w) = dw_ID w" "dw_Status (deletionWorkValues w) = dw_Status w"
  "dw_ClaimToken (deletionWorkValues w) = dw_ClaimToken w" "dw_Sequence (deletionWorkValues w) = dw_Sequence w"
  "dw_AppleSubject (deletionWorkValues w) = dw_AppleSubject w" "dw_Address (deletionWorkValues w) = dw_Address w"
  "dw_AccountID (deletionWorkValues w) = dw_AccountID w" "dw_AliasID (deletionWorkValues w) = dw_AliasID w"
  "dw_AccountEmail (deletionWorkValues w) = dw_AccountEmail w" "dw_AppleID (deletionWorkValues w) = dw_AppleID w"
  "dw_Reconcile (deletionWorkValues w) = dw_Reconcile w"
  by (simp_all add: deletionWorkValues_def)

lemma scan_fields [simp]:
  "dw_ID (scanAliasDeletionWork w) = dw_ID w" "dw_Status (scanAliasDeletionWork w) = dw_Status w"
  "dw_ClaimToken (scanAliasDeletionWork w) = dw_ClaimToken w" "dw_Sequence (scanAliasDeletionWork w) = dw_Sequence w"
  "dw_AppleSubject (scanAliasDeletionWork w) = dw_AppleSubject w" "dw_Address (scanAliasDeletionWork w) = dw_Address w"
  "dw_AccountID (scanAliasDeletionWork w) = dw_AccountID w" "dw_AliasID (scanAliasDeletionWork w) = dw_AliasID w"
  "dw_AccountEmail (scanAliasDeletionWork w) = dw_AccountEmail w" "dw_AppleID (scanAliasDeletionWork w) = dw_AppleID w"
  "dw_Reconcile (scanAliasDeletionWork w) = dw_Reconcile w"
  by (simp_all add: scanAliasDeletionWork_def)

lemma cancel_fields [simp]:
  "dw_ID (cancelDeletionWork w) = dw_ID w" "dw_Status (cancelDeletionWork w) = WsCancelled"
  "dw_ClaimToken (cancelDeletionWork w) = []" "dw_Sequence (cancelDeletionWork w) = dw_Sequence w"
  "dw_AppleSubject (cancelDeletionWork w) = dw_AppleSubject w" "dw_Address (cancelDeletionWork w) = dw_Address w"
  "dw_AccountID (cancelDeletionWork w) = dw_AccountID w" "dw_AliasID (cancelDeletionWork w) = dw_AliasID w"
  "dw_AccountEmail (cancelDeletionWork w) = dw_AccountEmail w" "dw_AppleID (cancelDeletionWork w) = dw_AppleID w"
  "dw_Reconcile (cancelDeletionWork w) = dw_Reconcile w"
  by (simp_all add: cancelDeletionWork_def)

definition put_work :: "deletion_work \<Rightarrow> deletion_work \<Rightarrow> deletion_work" where
  "put_work w r = (if dw_ID r = dw_ID w then deletionWorkValues w else r)"

lemma put_work_ID [simp]: "dw_ID (put_work w r) = dw_ID r"
  by (simp add: put_work_def)

lemma publish_works:
  "publishDeletionWorkTx now w (updateDeletionWorkTx w db) = Inr db' \<Longrightarrow>
   dd_works db' = map (put_work w) (dd_works db) \<and> dd_sequence db' = dd_sequence db \<and> dd_admins db' = dd_admins db"
  by (drule core_publish) (auto simp: core_eq updateDeletionWorkTx_def update_where_def put_work_def)

lemma fold_publish_works:
  assumes "fold_res (\<lambda>w d. publishDeletionWorkTx now (g w) (updateDeletionWorkTx (g w) d)) ws db = Inr db'"
    and "distinct (map dw_ID ws)" and g: "\<And>w. dw_ID (g w) = dw_ID w"
  shows "dd_works db' = map (\<lambda>r. case find_by dw_ID (dw_ID r) ws of None \<Rightarrow> r
           | Some w \<Rightarrow> deletionWorkValues (g w)) (dd_works db) \<and>
    dd_sequence db' = dd_sequence db \<and> dd_admins db' = dd_admins db"
  using assms(1,2)
proof (induction ws arbitrary: db)
  case Nil
  then show ?case by simp
next
  case (Cons w ws)
  then obtain d where d: "publishDeletionWorkTx now (g w) (updateDeletionWorkTx (g w) db) = Inr d"
    and rest: "fold_res (\<lambda>w d. publishDeletionWorkTx now (g w) (updateDeletionWorkTx (g w) d)) ws d = Inr db'"
    by (auto simp: bind_res_Inr)
  have none: "find_by dw_ID (dw_ID w) ws = None" using Cons.prems(2) by (simp add: find_by_None_image)
  have eq: "(case find_by dw_ID (dw_ID r) ws of None \<Rightarrow> put_work (g w) r
          | Some v \<Rightarrow> deletionWorkValues (g v)) =
        (case find_by dw_ID (dw_ID r) (w # ws) of None \<Rightarrow> r | Some v \<Rightarrow> deletionWorkValues (g v))" for r
    using none g by (auto simp: find_by_Cons put_work_def split: option.split)
  show ?case
    using Cons.IH [OF rest] Cons.prems(2) publish_works [OF d] by (simp add: eq)
qed

lemma find_scanned:
  assumes "unique_key dw_ID ws" and "r \<in> set ws"
  shows "find_by dw_ID (dw_ID r) (map scanAliasDeletionWork (filter P ws)) =
    (if P r then Some (scanAliasDeletionWork r) else None)"
proof (cases "P r")
  case True
  have "unique_key dw_ID (map scanAliasDeletionWork (filter P ws))"
    using unique_key_map [OF unique_key_delete_where [OF assms(1), of "\<lambda>r. \<not> P r"], of scanAliasDeletionWork]
    by (simp add: delete_where_def)
  then show ?thesis
    using True assms(2) find_by_unique [of dw_ID "map scanAliasDeletionWork (filter P ws)" "scanAliasDeletionWork r"]
    by simp
next
  case False
  have "r' = r" if "r' \<in> set ws" "dw_ID r' = dw_ID r" for r'
    using unique_keyD [OF assms(1) that(1) assms(2)] that(2) by simp
  with False show ?thesis by (auto simp: find_by_None)
qed

lemma fold_publish_filter:
  assumes "fold_res (\<lambda>w d. publishDeletionWorkTx now (g w) (updateDeletionWorkTx (g w) d))
      (map scanAliasDeletionWork (filter P (dd_works db))) db = Inr db'"
    and "unique_key dw_ID (dd_works db)" and "\<And>w. dw_ID (g w) = dw_ID w"
  shows "dd_works db' = map (\<lambda>r. if P r then deletionWorkValues (g (scanAliasDeletionWork r)) else r) (dd_works db) \<and>
    dd_sequence db' = dd_sequence db \<and> dd_admins db' = dd_admins db"
proof -
  have "distinct (map dw_ID (map scanAliasDeletionWork (filter P (dd_works db))))"
    using unique_key_delete_where [OF assms(2), of "\<lambda>r. \<not> P r"]
    by (simp add: unique_key_def delete_where_def comp_def)
  from fold_publish_works [OF assms(1) this assms(3)] show ?thesis
    by (auto simp: find_scanned [OF assms(2)])
qed

text \<open>The cancelled form of a row.\<close>

definition cancelled_row :: "time \<Rightarrow> deletion_work \<Rightarrow> deletion_work" where
  "cancelled_row now r =
     deletionWorkValues ((cancelDeletionWork (scanAliasDeletionWork r))\<lparr>dw_UpdatedAt := now\<rparr>)"

lemma cancelUnwanted_works:
  assumes "cancelUnwantedDeletionWorkTx now db = Inr db'" and "unique_key dw_ID (dd_works db)"
  shows "dd_works db' = map (\<lambda>r. if unwanted db r then cancelled_row now r else r) (dd_works db) \<and>
    dd_sequence db' = dd_sequence db \<and> dd_admins db' = dd_admins db"
  using fold_publish_filter [of now "\<lambda>w. (cancelDeletionWork w)\<lparr>dw_UpdatedAt := now\<rparr>" "unwanted db" db db'] assms
  by (simp add: cancelUnwantedDeletionWorkTx_def cancel_and_publish_def [abs_def] Let_def cancelled_row_def)

lemma prune_works:
  assumes "pruneDeletionSubscriptionsTx now db = Inr db'" and "unique_key dw_ID (dd_works db)"
  shows "\<exists>db1. fold_res (prune_job now) (map mt_key (filter (stale_meta db) (dd_metas db))) db = Inr db1 \<and>
    cancelUnwantedDeletionWorkTx now db1 = Inr db' \<and>
    dd_works db' = map (\<lambda>r. if unwanted db1 r then cancelled_row now r else r) (dd_works db) \<and>
    dd_sequence db' = dd_sequence db \<and> dd_admins db' = dd_admins db"
proof -
  obtain db1 where db1: "fold_res (prune_job now) (map mt_key (filter (stale_meta db) (dd_metas db))) db = Inr db1"
    and c: "cancelUnwantedDeletionWorkTx now db1 = Inr db'"
    using assms(1) by (auto simp: pruneDeletionSubscriptionsTx_def bind_res_Inr)
  have "core db1 = core db" using core_prune_jobs [OF db1] .
  then show ?thesis using cancelUnwanted_works [OF c] assms(2) db1 c by (simp add: core_eq)
qed

subsection \<open>Every operation changes the work table as allowed\<close>

definition queue_ok :: "deletion_db \<Rightarrow> bool" where
  "queue_ok db \<longleftrightarrow> works_inv (dd_works db) (dd_sequence db)"

lemma queue_ok_unique: "queue_ok db \<Longrightarrow> unique_key dw_ID (dd_works db)"
  by (simp add: queue_ok_def works_invD(1))

text \<open>A later table has every row again, with the same identity, and finished rows unchanged.\<close>

definition keeps :: "deletion_work list \<Rightarrow> deletion_work list \<Rightarrow> bool" where
  "keeps ws ws' \<longleftrightarrow> (\<forall>r \<in> set ws. \<exists>r' \<in> set ws'. same_identity r r' \<and>
     (deletionWorkTerminal (dw_Status r) \<longrightarrow> r' = r))"

lemma keeps_refl [simp]: "keeps ws ws"
  by (auto simp: keeps_def same_identity_def)

lemma same_identity_trans: "same_identity a b \<Longrightarrow> same_identity b c \<Longrightarrow> same_identity a c"
  by (simp add: same_identity_def)

lemma keeps_trans:
  assumes "keeps a b" and "keeps b c"
  shows "keeps a c"
  unfolding keeps_def
proof
  fix r
  assume "r \<in> set a"
  then obtain r1 where r1: "r1 \<in> set b" "same_identity r r1" "deletionWorkTerminal (dw_Status r) \<Longrightarrow> r1 = r"
    using assms(1) unfolding keeps_def by blast
  then obtain r2 where "r2 \<in> set c" "same_identity r1 r2" "deletionWorkTerminal (dw_Status r1) \<Longrightarrow> r2 = r1"
    using assms(2) unfolding keeps_def by blast
  with r1 same_identity_trans [of r r1 r2]
  show "\<exists>r'\<in>set c. same_identity r r' \<and> (deletionWorkTerminal (dw_Status r) \<longrightarrow> r' = r)" by metis
qed

lemma active_not_terminal [simp]: "work_active s \<Longrightarrow> \<not> deletionWorkTerminal s"
  by (auto simp: status_defs)

lemma keeps_map: "(\<And>r. r \<in> set ws \<Longrightarrow> row_change ws r (f r)) \<Longrightarrow> keeps ws (map f ws)"
  by (fastforce simp: keeps_def row_change_def)

lemma keeps_append: "keeps ws (ws @ new)"
  by (auto simp: keeps_def same_identity_def)

definition allowed :: "deletion_db \<Rightarrow> deletion_db \<Rightarrow> bool" where
  "allowed db db' \<longleftrightarrow> queue_ok db' \<and> keeps (dd_works db) (dd_works db') \<and> dd_admins db' = dd_admins db"

lemma allowed_refl: "queue_ok db \<Longrightarrow> allowed db db"
  by (simp add: allowed_def)

lemma allowed_trans: "allowed a b \<Longrightarrow> allowed b c \<Longrightarrow> allowed a c"
  by (auto simp: allowed_def intro: keeps_trans)

lemma allowed_map:
  assumes "queue_ok db" and "dd_works db' = map f (dd_works db)" and "dd_sequence db' = dd_sequence db"
    and "dd_admins db' = dd_admins db" and "\<And>r. r \<in> set (dd_works db) \<Longrightarrow> row_change (dd_works db) r (f r)"
  shows "allowed db db'"
  using assms works_inv_map [of "dd_works db" "dd_sequence db" f] keeps_map [of "dd_works db" f]
  by (auto simp: allowed_def queue_ok_def)

lemma row_change_refl [simp]: "row_change ws r r"
  by (simp add: row_change_def same_identity_def)

lemma row_change_cancelled: "work_active (dw_Status r) \<Longrightarrow> row_change ws r (cancelled_row now r)"
  by (simp add: row_change_def same_identity_def cancelled_row_def known_status_def deletionWorkTerminal_def)

lemma idle_active: "work_idle s \<Longrightarrow> work_active s"
  by (auto simp: status_defs)

lemma cancelled_allowed:
  assumes "queue_ok db" and "dd_works db' = map (\<lambda>r. if P r then cancelled_row now r else r) (dd_works db)"
    and "dd_sequence db' = dd_sequence db" and "dd_admins db' = dd_admins db"
    and "\<And>r. P r \<Longrightarrow> work_idle (dw_Status r)"
  shows "allowed db db'"
  by (rule allowed_map [OF assms(1-4)]) (simp add: row_change_cancelled idle_active assms(5))

lemma unwanted_idle: "unwanted db r \<Longrightarrow> work_idle (dw_Status r)"
  by (simp add: unwanted_def)

lemma cancelUnwanted_allowed:
  assumes "cancelUnwantedDeletionWorkTx now db = Inr db'" and "queue_ok db"
  shows "allowed db db'"
  using cancelUnwanted_works [OF assms(1) queue_ok_unique [OF assms(2)]]
  by (intro cancelled_allowed [OF assms(2), of db' "unwanted db" now]) (simp_all add: unwanted_idle)

lemma prune_allowed:
  assumes "pruneDeletionSubscriptionsTx now db = Inr db'" and "queue_ok db"
  shows "allowed db db'"
proof -
  obtain db1 where "dd_works db' = map (\<lambda>r. if unwanted db1 r then cancelled_row now r else r) (dd_works db)"
    "dd_sequence db' = dd_sequence db" "dd_admins db' = dd_admins db"
    using prune_works [OF assms(1) queue_ok_unique [OF assms(2)]] by blast
  then show ?thesis
    by (intro cancelled_allowed [OF assms(2), of db' "unwanted db1" now]) (simp_all add: unwanted_idle)
qed

lemma core_allowed: "core db' = core db \<Longrightarrow> queue_ok db \<Longrightarrow> allowed db db'"
  by (simp add: core_eq allowed_def queue_ok_def)

lemma publish_allowed:
  assumes "publishDeletionWorkTx now w (updateDeletionWorkTx w db) = Inr db'" and "queue_ok db"
    and "\<And>r. r \<in> set (dd_works db) \<Longrightarrow> dw_ID r = dw_ID w \<Longrightarrow> row_change (dd_works db) r (deletionWorkValues w)"
  shows "allowed db db'"
  using publish_works [OF assms(1)] assms(3)
  by (intro allowed_map [OF assms(2), of db' "put_work w"]) (simp_all add: put_work_def)

lemma newDeletionID_nonempty [simp]: "newDeletionID random \<noteq> []"
  by (simp add: newDeletionID_def Let_def)

lemma queue_head_iff: "queue_head db w \<longleftrightarrow> \<not> earlier_active (dd_works db) w"
  by (auto simp: queue_head_def earlier_active_def list_ex_iff)

lemma claim_allowed:
  assumes "claim_tx db i random due now = Inr (res, db')" and "queue_ok db"
  shows "allowed db db'"
proof -
  obtain db1 where p: "pruneDeletionSubscriptionsTx now db = Inr db1"
    and k: "(case find (\<lambda>r. dw_ID r = i \<and> runnable db1 (to_timestamp due) r) (dd_works db1) of
         None \<Rightarrow> Inr (None, db1)
       | Some r \<Rightarrow>
           (case random of
              None \<Rightarrow> Inl RandomFailed
            | Some block \<Rightarrow>
                (let w0 = scanAliasDeletionWork r;
                     w = w0\<lparr>dw_ClaimToken := newDeletionID block, dw_Status := WsRunning,
                           dw_Attempts := dw_Attempts w0 + 1, dw_UpdatedAt := due\<rparr>
                 in bind_res (publishDeletionWorkTx now w (updateDeletionWorkTx w db1))
                      (\<lambda>db2. Inr (Some w, db2))))) = Inr (res, db')"
    using assms(1) by (auto simp: claim_tx_def bind_res_Inr)
  note a1 = prune_allowed [OF p assms(2)]
  then have ok1: "queue_ok db1" by (simp add: allowed_def)
  show ?thesis
  proof (cases "find (\<lambda>r. dw_ID r = i \<and> runnable db1 (to_timestamp due) r) (dd_works db1)")
    case None
    with k a1 show ?thesis by simp
  next
    case (Some r)
    then have r: "r \<in> set (dd_works db1)" "runnable db1 (to_timestamp due) r"
      by (auto simp: find_Some_iff)
    obtain block where block: "random = Some block" using k Some by (cases random) auto
    let ?w = "(scanAliasDeletionWork r)\<lparr>dw_ClaimToken := newDeletionID block, dw_Status := WsRunning,
        dw_Attempts := dw_Attempts (scanAliasDeletionWork r) + 1, dw_UpdatedAt := due\<rparr>"
    have pub: "publishDeletionWorkTx now ?w (updateDeletionWorkTx ?w db1) = Inr db'"
      using k Some block by (auto simp: Let_def bind_res_Inr)
    have "row_change (dd_works db1) s (deletionWorkValues ?w)"
      if s: "s \<in> set (dd_works db1)" "dw_ID s = dw_ID ?w" for s
    proof -
      have "s = r" using unique_keyD [OF queue_ok_unique [OF ok1] s(1) r(1)] s(2) by simp
      moreover have "work_active (dw_Status r)" using r(2) by (simp add: runnable_def idle_active)
      moreover have "known_status WsRunning" by (simp add: known_status_def work_active_def)
      ultimately show ?thesis using r(2)
        by (simp add: row_change_def same_identity_def runnable_def queue_head_iff)
    qed
    from allowed_trans [OF a1 publish_allowed [OF pub ok1 this]] show ?thesis by simp
  qed
qed

lemma merge_fields [simp]:
  "dw_ID (merge_result c w wanted now) = dw_ID w" "dw_Sequence (merge_result c w wanted now) = dw_Sequence c"
  "dw_AppleSubject (merge_result c w wanted now) = dw_AppleSubject c"
  "dw_Address (merge_result c w wanted now) = dw_Address c"
  "dw_AccountID (merge_result c w wanted now) = dw_AccountID c"
  "dw_AliasID (merge_result c w wanted now) = dw_AliasID c"
  "dw_AccountEmail (merge_result c w wanted now) = dw_AccountEmail c"
  "dw_AppleID (merge_result c w wanted now) = dw_AppleID c"
  "dw_Reconcile (merge_result c w wanted now) = dw_Reconcile w"
  "dw_UpdatedAt (merge_result c w wanted now) = now"
  by (simp_all add: merge_result_def Let_def)

lemma merge_status:
  "dw_Status (merge_result c w wanted now) =
     (if \<not> wanted \<and> \<not> deletionWorkTerminal (dw_Status w) \<and> \<not> dw_Reconcile w then WsCancelled else dw_Status w)"
  by (simp add: merge_result_def Let_def)

lemma merge_token:
  "dw_ClaimToken (merge_result c w wanted now) =
     (if dw_Status (merge_result c w wanted now) = WsRunning then dw_ClaimToken w else [])"
  by (simp add: merge_result_def Let_def)

lemma find_work_SomeD:
  "find_work db i = Some w \<Longrightarrow> \<exists>r \<in> set (dd_works db). dw_ID r = i \<and> w = scanAliasDeletionWork r"
  by (auto simp: find_work_def dest: find_by_SomeD)

lemma prune_running:
  assumes "pruneDeletionSubscriptionsTx now db = Inr db'" and "queue_ok db"
    and "r \<in> set (dd_works db)" and "dw_Status r = WsRunning"
  shows "r \<in> set (dd_works db')"
proof -
  obtain db1 where "dd_works db' = map (\<lambda>r. if unwanted db1 r then cancelled_row now r else r) (dd_works db)"
    using prune_works [OF assms(1) queue_ok_unique [OF assms(2)]] by blast
  moreover have "\<not> unwanted db1 r" using assms(4) by (simp add: unwanted_def work_idle_def)
  ultimately show ?thesis using assms(3) by force
qed

lemma save_row_change:
  assumes "queue_ok db" and "r \<in> set (dd_works db)" and "dw_Status r = WsRunning"
    and "\<not> fenced (scanAliasDeletionWork r) work" and "dw_ID work = dw_ID r" and "known_status (dw_Status work)"
  shows "row_change (dd_works db) r
    (deletionWorkValues (merge_result (scanAliasDeletionWork r) work wanted now))"
proof -
  have "row_ok (dd_works db) (dd_sequence db) r"
    using works_invD(3) assms(1,2) by (simp add: queue_ok_def)
  then have "\<not> earlier_active (dd_works db) r" using assms(3) by (simp add: row_ok_def)
  moreover have "dw_ClaimToken work \<noteq> []" using assms(4) by (auto simp: fenced_def)
  moreover have "known_status WsCancelled" by (simp add: known_status_def deletionWorkTerminal_def)
  ultimately show ?thesis
    using assms by (simp add: row_change_def same_identity_def merge_status merge_token work_active_def)
qed

lemma save_allowed:
  assumes "SaveAliasDeletionWork db work now = (Inr (), db')" and "queue_ok db"
  shows "allowed db db'"
proof -
  obtain current db1 where known: "known_status (dw_Status work)"
    and c: "find_work db (dw_ID work) = Some current" "\<not> fenced current work"
    and p: "pruneDeletionSubscriptionsTx now db = Inr db1"
    and pub: "publishDeletionWorkTx now (merge_result current work (deletionWorkWantedTx db1 (dw_ID work)) now)
       (updateDeletionWorkTx (merge_result current work (deletionWorkWantedTx db1 (dw_ID work)) now) db1) = Inr db'"
    using assms(1)
    by (auto simp: SaveAliasDeletionWork_def run_tx_def Let_def bind_res_Inr
        split: if_splits option.splits sum.splits)
  obtain r where r: "r \<in> set (dd_works db)" "dw_ID r = dw_ID work" "current = scanAliasDeletionWork r"
    using find_work_SomeD [OF c(1)] by blast
  have run: "dw_Status r = WsRunning" using c(2) r(3) by (simp add: fenced_def)
  note a1 = prune_allowed [OF p assms(2)]
  then have ok1: "queue_ok db1" by (simp add: allowed_def)
  have r1: "r \<in> set (dd_works db1)" by (rule prune_running [OF p assms(2) r(1) run])
  have "row_change (dd_works db1) s
      (deletionWorkValues (merge_result current work (deletionWorkWantedTx db1 (dw_ID work)) now))"
    if s: "s \<in> set (dd_works db1)" "dw_ID s = dw_ID (merge_result current work (deletionWorkWantedTx db1 (dw_ID work)) now)" for s
  proof -
    have "s = r" using unique_keyD [OF queue_ok_unique [OF ok1] s(1) r1] s(2) r(2) by simp
    then show ?thesis using save_row_change [OF ok1 r1 run _ _ known] c(2) r by simp
  qed
  from allowed_trans [OF a1 publish_allowed [OF pub ok1 this]] show ?thesis .
qed

lemma cancel_job_allowed:
  assumes "CancelAliasDeletionJob db i admin now = (Inr job, db')" and "queue_ok db"
  shows "allowed db db'"
proof -
  from assms(1) consider "db' = db"
    | j db1 where "cancelDeletionJobTx now j False db = Inr db1" "cancelUnwantedDeletionWorkTx now db1 = Inr db'"
    by (auto simp: CancelAliasDeletionJob_def run_tx_def bind_res_Inr
        split: if_splits option.splits sum.splits)
  then show ?thesis
  proof cases
    case 1
    then show ?thesis using assms(2) by (simp add: allowed_refl)
  next
    case 2
    have a: "allowed db db1" by (rule core_allowed [OF core_cancel_job [OF 2(1)] assms(2)])
    then have "queue_ok db1" by (simp add: allowed_def)
    from allowed_trans [OF a cancelUnwanted_allowed [OF 2(2) this]] show ?thesis .
  qed
qed

lemma interrupt_core [simp]: "core (interrupt_legacy_jobs db now) = core db"
  by (simp add: interrupt_legacy_jobs_def)

definition recovered_row :: "time \<Rightarrow> deletion_work \<Rightarrow> deletion_work" where
  "recovered_row now r = deletionWorkValues ((scanAliasDeletionWork r)\<lparr>dw_Status := WsPending, dw_ClaimToken := [],
     dw_Reconcile := True, dw_NextRunAt := zero_time, dw_WaitReason := ''reconcile'', dw_UpdatedAt := now\<rparr>)"

lemma row_change_recovered: "work_active (dw_Status r) \<Longrightarrow> row_change ws r (recovered_row now r)"
  by (simp add: row_change_def same_identity_def recovered_row_def known_status_def work_active_def)

lemma recover_works:
  assumes "RecoverAliasDeletionQueue db now = (Inr (), db')" and "queue_ok db"
  shows "\<exists>db2. dd_works db2 = map (\<lambda>r. if dw_Status r = WsRunning then recovered_row now r else r) (dd_works db) \<and>
    allowed db db2 \<and> pruneDeletionSubscriptionsTx now db2 = Inr db'"
proof -
  let ?d = "interrupt_legacy_jobs db now"
  have c: "dd_works ?d = dd_works db" "dd_sequence ?d = dd_sequence db" "dd_admins ?d = dd_admins db"
    using interrupt_core [of db now] unfolding core_eq by simp_all
  obtain db2 where f: "fold_res (recover_work now)
      (map scanAliasDeletionWork (filter (\<lambda>r. dw_Status r = WsRunning) (dd_works ?d))) ?d = Inr db2"
    and p: "pruneDeletionSubscriptionsTx now db2 = Inr db'"
    using assms(1) by (auto simp: RecoverAliasDeletionQueue_def run_tx_def Let_def bind_res_Inr split: sum.splits)
  have u: "unique_key dw_ID (dd_works ?d)" using queue_ok_unique [OF assms(2)] by (simp add: c)
  have w: "dd_works db2 = map (\<lambda>r. if dw_Status r = WsRunning then recovered_row now r else r) (dd_works db)"
    "dd_sequence db2 = dd_sequence db" "dd_admins db2 = dd_admins db"
    using fold_publish_filter [of now "\<lambda>w. w\<lparr>dw_Status := WsPending, dw_ClaimToken := [],
        dw_Reconcile := True, dw_NextRunAt := zero_time, dw_WaitReason := ''reconcile'', dw_UpdatedAt := now\<rparr>"
        "\<lambda>r. dw_Status r = WsRunning" ?d db2] f u
    by (simp_all add: recover_work_def [abs_def] Let_def recovered_row_def c)
  have "allowed db db2"
    by (rule allowed_map [OF assms(2) w]) (simp add: row_change_recovered work_active_def)
  with w(1) p show ?thesis by blast
qed

lemma recover_allowed:
  assumes "RecoverAliasDeletionQueue db now = (Inr (), db')" and "queue_ok db"
  shows "allowed db db'"
proof -
  obtain db2 where "allowed db db2" "pruneDeletionSubscriptionsTx now db2 = Inr db'"
    using recover_works [OF assms] by blast
  moreover from this have "queue_ok db2" by (simp add: allowed_def)
  ultimately show ?thesis using prune_allowed allowed_trans by blast
qed

lemma new_work_fields [simp]:
  "dw_ID (new_work t b n now) = newDeletionID b" "dw_Sequence (new_work t b n now) = n"
  "dw_Status (new_work t b n now) = WsPending" "dw_ClaimToken (new_work t b n now) = []"
  "dw_AppleSubject (new_work t b n now) = dw_AppleSubject t" "dw_Address (new_work t b n now) = dw_Address t"
  by (simp_all add: new_work_def)

lemma insert_work_allowed:
  assumes "insertDeletionWorkTx w (db\<lparr>dd_sequence := dd_sequence db + 1\<rparr>) = Inr db'" and "queue_ok db"
    and w: "dw_Sequence w = dd_sequence db + 1" "dw_Status w = WsPending" "dw_ClaimToken w = []"
  shows "allowed db db'"
proof -
  have no: "\<not> list_ex (\<lambda>r. dw_ID r = dw_ID w \<or> dw_Sequence r = dw_Sequence w \<or>
           (work_active (dw_Status r) \<and> work_active (dw_Status w) \<and>
            dw_AppleSubject r = dw_AppleSubject w \<and> dw_Address r = dw_Address w)) (dd_works db)"
    and db': "db' = db\<lparr>dd_sequence := dd_sequence db + 1, dd_works := dd_works db @ [deletionWorkValues w]\<rparr>"
    using assms(1) by (auto simp: insertDeletionWorkTx_def split: if_splits)
  have "works_inv (dd_works db @ [deletionWorkValues w]) (dd_sequence db + 1)"
  proof (rule works_inv_append)
    show "works_inv (dd_works db) (dd_sequence db)" using assms(2) by (simp add: queue_ok_def)
    show "find_by dw_ID (dw_ID (deletionWorkValues w)) (dd_works db) = None"
      using no by (auto simp: find_by_None list_ex_iff)
    show "\<not> same_target r (deletionWorkValues w)" if "r \<in> set (dd_works db)" for r
      using no that by (auto simp: same_target_def list_ex_iff)
  qed (simp_all add: w)
  then show ?thesis by (simp add: allowed_def queue_ok_def db' keeps_append)
qed

lemma enqueue_items_allowed:
  "enqueue_items now targets its db random = Inr (rest, db') \<Longrightarrow> queue_ok db \<Longrightarrow> allowed db db'"
proof (induction its arbitrary: db random rest)
  case Nil
  then show ?case by (simp add: allowed_refl)
next
  case (Cons it its)
  show ?case
  proof (cases "it_Done it")
    case True
    then show ?thesis using Cons by (auto simp: bind_res_Inr)
  next
    case False
    then obtain target0 where t0: "find_by dw_AliasID (it_ID it) targets = Some target0" "target_usable target0"
      using Cons.prems(1) by (auto split: option.splits if_splits)
    let ?t = "normalize_target target0"
    show ?thesis
    proof (cases "active_work_for db (dw_AppleSubject ?t) (dw_Address ?t)")
      case (Some w)
      then show ?thesis using Cons False t0 by (auto simp: Let_def bind_res_Inr)
    next
      case None
      then obtain block random' where r: "random = block # random'"
        using Cons.prems(1) False t0 by (cases random) (auto simp: Let_def)
      let ?w = "new_work ?t block (dd_sequence db + 1) now"
      obtain db1 rest' where i: "insertDeletionWorkTx ?w (db\<lparr>dd_sequence := dd_sequence db + 1\<rparr>) = Inr db1"
        and e: "enqueue_items now targets its db1 random' = Inr (rest', db')"
        using Cons.prems(1) False t0 None r by (auto simp: Let_def bind_res_Inr)
      have a: "allowed db db1" by (rule insert_work_allowed [OF i Cons.prems(2)]) simp_all
      then have "queue_ok db1" by (simp add: allowed_def)
      from allowed_trans [OF a Cons.IH [OF e this]] show ?thesis .
    qed
  qed
qed

lemma core_insert_job: "insert_job_row row db = Inr db' \<Longrightarrow> core db' = core db"
  by (auto simp: insert_job_row_def split: if_splits)

lemma core_insert_meta: "insert_meta job db = Inr db' \<Longrightarrow> core db' = core db"
  by (auto simp: insert_meta_def split: if_splits)

lemma core_insert_link: "insert_link job it db = Inr db' \<Longrightarrow> core db' = core db"
  by (auto simp: insert_link_def split: if_splits)

lemma core_insert_links: "fold_res (insert_link job) its db = Inr db' \<Longrightarrow> core db' = core db"
  by (drule fold_res_invariant [where P = "\<lambda>d. core d = core db"]) (auto dest: core_insert_link)

lemma enqueue_new_parts:
  assumes "enqueue_new db job targets random now = Inr (job', db')"
  obtains db1 items db2 db3 db4 clean where
    "pruneDeletionSubscriptionsTx now db = Inr db1" "distinct (map dw_AliasID targets)"
    "enqueue_items now targets (jb_Items job) db1 random = Inr (items, db2)"
    "jb_Items job' = items" "jb_ID job' = jb_ID job" "jb_AdminID job' = jb_AdminID job"
    "jb_PasswordVersion job' = jb_PasswordVersion job" "jb_CancelRequested job' = False"
    "jb_QueueVersion job' = 1"
    "normalizeAliasDeletionJob job' = Inr clean" "jb_Status job' = deletionJobStatus job'"
    "insert_job_row (row_of_job job' (jb_Items clean)) db2 = Inr db3" "insert_meta job' db3 = Inr db4"
    "fold_res (insert_link job') items db4 = Inr db'"
proof -
  let ?job1 = "job\<lparr>jb_CreatedAt := (if is_zero_time (jb_CreatedAt job) then now else jb_CreatedAt job),
                jb_UpdatedAt := now, jb_QueueVersion := 1, jb_CancelRequested := False,
                jb_Username := truncate_text (jb_Username job) 128, jb_IP := truncate_text (jb_IP job) 64,
                jb_Status := AliasDeletionJobQueued\<rparr>"
  obtain db1 items db2 where 1: "pruneDeletionSubscriptionsTx now db = Inr db1" "distinct (map dw_AliasID targets)"
    "enqueue_items now targets (jb_Items ?job1) db1 random = Inr (items, db2)"
    and k: "(let job2 = ?job1\<lparr>jb_Items := items\<rparr>;
                    job3 = job2\<lparr>jb_Status := deletionJobStatus job2\<rparr>
                in bind_res (normalizeAliasDeletionJob job3) (\<lambda>clean.
                   bind_res (insert_job_row (row_of_job job3 (jb_Items clean)) db2) (\<lambda>db3.
                   bind_res (insert_meta job3 db3) (\<lambda>db4.
                   bind_res (fold_res (insert_link job3) items db4) (\<lambda>db5.
                   Inr (job3, db5)))))) = Inr (job', db')"
    using assms unfolding enqueue_new_def Let_def bind_res_Inr by (auto split: if_splits simp: bind_res_Inr)
  let ?job2 = "?job1\<lparr>jb_Items := items\<rparr>"
  have j': "job' = ?job2\<lparr>jb_Status := deletionJobStatus ?job2\<rparr>"
    using k unfolding Let_def bind_res_Inr by auto
  obtain clean db3 db4 where 2: "normalizeAliasDeletionJob job' = Inr clean"
    "insert_job_row (row_of_job job' (jb_Items clean)) db2 = Inr db3" "insert_meta job' db3 = Inr db4"
    "fold_res (insert_link job') items db4 = Inr db'"
    using k unfolding j' Let_def bind_res_Inr by auto
  have 3: "jb_Status job' = deletionJobStatus job'"
    unfolding j' by (simp add: deletionJobStatus_def job_status_defs)
  show thesis by (rule that [OF 1(1,2) _ _ _ _ _ _ _ 2(1) 3 2(2-4)]) (use 1(3) j' in simp_all)
qed

lemma enqueue_new_allowed:
  assumes "enqueue_new db job targets random now = Inr (job', db')" and "queue_ok db"
  shows "allowed db db'"
proof (rule enqueue_new_parts [OF assms(1)])
  fix db1 items db2 db3 db4 clean
  assume h: "pruneDeletionSubscriptionsTx now db = Inr db1"
    "enqueue_items now targets (jb_Items job) db1 random = Inr (items, db2)"
    "insert_job_row (row_of_job job' (jb_Items clean)) db2 = Inr db3" "insert_meta job' db3 = Inr db4"
    "fold_res (insert_link job') items db4 = Inr db'"
  note a1 = prune_allowed [OF h(1) assms(2)]
  then have ok1: "queue_ok db1" by (simp add: allowed_def)
  note a2 = enqueue_items_allowed [OF h(2) ok1]
  then have ok2: "queue_ok db2" by (simp add: allowed_def)
  have "core db' = core db2"
    using core_insert_job [OF h(3)] core_insert_meta [OF h(4)] core_insert_links [OF h(5)] by simp
  from allowed_trans [OF a1 allowed_trans [OF a2 core_allowed [OF this ok2]]] show ?thesis .
qed

lemma enqueue_allowed:
  assumes "EnqueueAliasDeletionJob db job targets random now = (Inr job', db')" and "queue_ok db"
  shows "allowed db db'"
  using assms
  by (auto simp: EnqueueAliasDeletionJob_def run_tx_def bind_res_Inr allowed_refl enqueue_new_allowed
      split: option.splits if_splits sum.splits)

end
