(* ===== verification/Utf8.thy ===== *)
theory Utf8
  imports GoBase
begin

section \<open>Facts about UTF-8 text\<close>

text \<open>
  Decoding and encoding are inverse on valid text, valid text is closed under concatenation and under
  cutting at the start of a rune, and \<open>ToValidUTF8\<close> returns valid text.
\<close>

subsection \<open>One rune\<close>

lemma base64_step:
  fixes a d :: nat
  assumes "d < 64"
  shows "(a * 64 + d) div 64 = a" "(a * 64 + d) mod 64 = d"
  using assms by simp_all

lemma base64_digits:
  fixes a b c d :: nat
  assumes "b < 64" "c < 64" "d < 64"
  shows "(a * 4096 + c * 64 + d) div 4096 = a" "(a * 4096 + c * 64 + d) div 64 mod 64 = c"
    "(a * 4096 + c * 64 + d) mod 64 = d"
    "(a * 262144 + b * 4096 + c * 64 + d) div 262144 = a" "(a * 262144 + b * 4096 + c * 64 + d) div 4096 mod 64 = b"
    "(a * 262144 + b * 4096 + c * 64 + d) div 64 mod 64 = c" "(a * 262144 + b * 4096 + c * 64 + d) mod 64 = d"
proof -
  have d2: "n div 4096 = n div 64 div 64" "n div 262144 = n div 64 div 64 div 64" for n :: nat
    by (simp_all add: div_mult2_eq [symmetric])
  have e: "a * 4096 + c * 64 + d = (a * 64 + c) * 64 + d"
    "a * 262144 + b * 4096 + c * 64 + d = ((a * 64 + b) * 64 + c) * 64 + d"
    by (simp_all add: algebra_simps)
  note s = base64_step [OF assms(1)] base64_step [OF assms(2)] base64_step [OF assms(3)]
  show "(a * 4096 + c * 64 + d) div 4096 = a" "(a * 4096 + c * 64 + d) div 64 mod 64 = c"
    "(a * 4096 + c * 64 + d) mod 64 = d" unfolding e d2 s by (rule refl)+
  show "(a * 262144 + b * 4096 + c * 64 + d) div 262144 = a" "(a * 262144 + b * 4096 + c * 64 + d) div 4096 mod 64 = b"
    "(a * 262144 + b * 4096 + c * 64 + d) div 64 mod 64 = c" "(a * 262144 + b * 4096 + c * 64 + d) mod 64 = d"
    unfolding e d2 s by (rule refl)+
qed

definition rune_bytes :: "nat list \<Rightarrow> bool" where
  "rune_bytes bs \<longleftrightarrow>
     (case bs of
        [b0] \<Rightarrow> b0 < 128
      | [b0, b1] \<Rightarrow> 194 \<le> b0 \<and> b0 \<le> 223 \<and> cont_byte b1
      | [b0, b1, b2] \<Rightarrow> 224 \<le> b0 \<and> b0 \<le> 239 \<and> second_ok b0 b1 \<and> cont_byte b2
      | [b0, b1, b2, b3] \<Rightarrow> 240 \<le> b0 \<and> b0 \<le> 244 \<and> second_ok b0 b1 \<and> cont_byte b2 \<and> cont_byte b3
      | _ \<Rightarrow> False)"

lemma second_ok_cont: "second_ok b0 b1 \<Longrightarrow> cont_byte b1"
  by (auto simp: second_ok_def cont_byte_def split: if_splits)

lemma rune_bytes_cont: "rune_bytes bs \<Longrightarrow> 0 < j \<Longrightarrow> j < length bs \<Longrightarrow> cont_byte (bs ! j)"
  by (auto simp: rune_bytes_def less_Suc_eq nth_Cons' dest: second_ok_cont split: list.splits)

lemma rune_bytes_first: "rune_bytes bs \<Longrightarrow> bs \<noteq> [] \<and> (length bs = 1 \<longleftrightarrow> bs ! 0 < 128) \<and> \<not> cont_byte (bs ! 0)"
  by (auto simp: rune_bytes_def cont_byte_def split: list.splits)

lemma decode_vals_rune:
  "bs \<noteq> [] \<Longrightarrow> decode_vals bs \<noteq> (rune_error, 1) \<Longrightarrow>
   rune_bytes (take (snd (decode_vals bs)) bs) \<and> decode_vals (take (snd (decode_vals bs)) bs) = decode_vals bs"
  by (cases bs) (auto simp: rune_bytes_def split: list.splits if_splits)

lemma rune_bytes_decode:
  "rune_bytes bs \<Longrightarrow> decode_vals bs \<noteq> (rune_error, 1) \<and> snd (decode_vals bs) = length bs"
  by (auto simp: rune_bytes_def rune_error_def split: list.splits)

lemma cont_offset: "cont_byte b \<Longrightarrow> b - 128 < 64" "cont_byte b \<Longrightarrow> 128 + (b - 128) = b" "cont_byte b \<Longrightarrow> b mod 256 = b"
  by (auto simp: cont_byte_def)

lemma cont_byteE: "cont_byte b \<Longrightarrow> \<exists>x. b = 128 + x \<and> x < 64"
  by (rule exI [of _ "b - 128"]) (auto simp: cont_byte_def)

lemma encode_rune_plain:
  assumes "\<not> (55296 \<le> r \<and> r \<le> 57343)" and "r \<le> 1114111"
  shows "encode_rune r = map char_of
       (if r < 128 then [r]
        else if r < 2048 then [192 + r div 64, 128 + r mod 64]
        else if r < 65536 then [224 + r div 4096, 128 + r div 64 mod 64, 128 + r mod 64]
        else [240 + r div 262144, 128 + r div 4096 mod 64, 128 + r div 64 mod 64, 128 + r mod 64])"
  unfolding encode_rune_def Let_def using assms by (subst (1) if_not_P) auto

lemma encode_two:
  assumes "2 \<le> a" "a < 32" "x < 64"
  shows "map byte_val (encode_rune (a * 64 + x)) = [192 + a, 128 + x]"
proof -
  let ?r = "a * 64 + x"
  have r: "128 \<le> ?r" "?r < 2048" using assms by linarith+
  show ?thesis
    using r assms base64_step [of x a] by (subst encode_rune_plain) (simp_all add: not_less [symmetric])
qed

lemma encode_three:
  assumes "a < 16" "x < 64" "y < 64" "a = 0 \<Longrightarrow> 32 \<le> x" "a = 13 \<Longrightarrow> x < 32"
  shows "map byte_val (encode_rune (a * 4096 + x * 64 + y)) = [224 + a, 128 + x, 128 + y]"
proof -
  let ?r = "a * 4096 + x * 64 + y"
  have "2048 \<le> ?r" using assms(4) by (cases "a = 0") auto
  moreover have "?r < 65536" using assms(1-3) by linarith
  moreover have "\<not> (55296 \<le> ?r \<and> ?r \<le> 57343)"
  proof (cases "a = 13")
    case True
    then show ?thesis using assms(3) assms(5) [OF True] by simp
  next
    case False
    then have "a \<le> 12 \<or> 14 \<le> a" by linarith
    then show ?thesis using assms(2,3) by auto
  qed
  ultimately show ?thesis
    using assms(1-3) base64_digits(1,2,3) [of 0 x y a] by (subst encode_rune_plain) simp_all
qed

lemma encode_four:
  assumes "a < 5" "x < 64" "y < 64" "z < 64" "a = 0 \<Longrightarrow> 16 \<le> x" "a = 4 \<Longrightarrow> x < 16"
  shows "map byte_val (encode_rune (a * 262144 + x * 4096 + y * 64 + z)) = [240 + a, 128 + x, 128 + y, 128 + z]"
proof -
  let ?r = "a * 262144 + x * 4096 + y * 64 + z"
  have "65536 \<le> ?r" using assms(5) by (cases "a = 0") auto
  moreover have "?r \<le> 1114111"
  proof (cases "a = 4")
    case True
    then show ?thesis using assms(3,4) assms(6) [OF True] by simp
  next
    case False
    then have "a \<le> 3" using assms(1) by linarith
    then show ?thesis using assms(2-4) by linarith
  qed
  ultimately show ?thesis
    using assms(1-4) base64_digits(4,5,6,7) [of x y z a] by (subst encode_rune_plain) simp_all
qed

lemma rune_bytes_encode:
  assumes "rune_bytes bs"
  shows "map byte_val (encode_rune (fst (decode_vals bs))) = bs"
proof -
  consider b0 where "bs = [b0]" "b0 < 128"
    | b0 b1 where "bs = [b0, b1]" "194 \<le> b0" "b0 \<le> 223" "cont_byte b1"
    | b0 b1 b2 where "bs = [b0, b1, b2]" "224 \<le> b0" "b0 \<le> 239" "second_ok b0 b1" "cont_byte b2"
    | b0 b1 b2 b3 where "bs = [b0, b1, b2, b3]" "240 \<le> b0" "b0 \<le> 244" "second_ok b0 b1" "cont_byte b2" "cont_byte b3"
    using assms by (auto simp: rune_bytes_def split: list.splits)
  then show ?thesis
  proof cases
    case 1
    then show ?thesis by (simp add: encode_rune_def)
  next
    case 2
    obtain x where x: "b1 = 128 + x" "x < 64" using cont_byteE 2(4) by blast
    define a where "a = b0 - 192"
    have a: "b0 = 192 + a" "2 \<le> a" "a < 32" using 2(2,3) by (auto simp: a_def)
    show ?thesis using encode_two [OF a(2,3) x(2)] 2(2,3,4) by (simp add: 2(1) a(1) x(1))
  next
    case 3
    obtain x y where x: "b1 = 128 + x" "x < 64" "b2 = 128 + y" "y < 64"
      using cont_byteE second_ok_cont 3(4,5) by meson
    define a where "a = b0 - 224"
    have a: "b0 = 224 + a" "a < 16" using 3(2,3) by (auto simp: a_def)
    have "a = 0 \<Longrightarrow> 32 \<le> x" "a = 13 \<Longrightarrow> x < 32" using 3(4) x(1) a(1) by (auto simp: second_ok_def)
    from encode_three [OF a(2) x(2,4) this] show ?thesis using 3(2-5) by (simp add: 3(1) a(1) x(1,3))
  next
    case 4
    obtain x y z where x: "b1 = 128 + x" "x < 64" "b2 = 128 + y" "y < 64" "b3 = 128 + z" "z < 64"
      using cont_byteE second_ok_cont 4(4,5,6) by meson
    define a where "a = b0 - 240"
    have a: "b0 = 240 + a" "a < 5" using 4(2,3) by (auto simp: a_def)
    have "a = 0 \<Longrightarrow> 16 \<le> x" "a = 4 \<Longrightarrow> x < 16" using 4(4) x(1) a(1) by (auto simp: second_ok_def)
    from encode_four [OF a(2) x(2,4,6) this] show ?thesis using 4(2-6) by (simp add: 4(1) a(1) x(1,3,5))
  qed
qed

subsection \<open>Strings\<close>

definition one_rune :: "string \<Rightarrow> bool" where
  "one_rune u \<longleftrightarrow> rune_bytes (map byte_val u)"

lemma one_rune_length: "one_rune u \<Longrightarrow> u \<noteq> [] \<and> length u \<le> 4"
  by (auto simp: one_rune_def rune_bytes_def split: list.splits)

lemma one_rune_decode:
  assumes "one_rune u"
  shows "decode_rune (u @ t) = decode_rune u" and "decode_rune u \<noteq> (rune_error, 1)"
    and "snd (decode_rune u) = length u" and "encode_rune (fst (decode_rune u)) = u"
proof -
  have d: "decode_rune u = decode_vals (map byte_val u)" using one_rune_length [OF assms] by (simp add: decode_rune_def)
  show ok: "decode_rune u \<noteq> (rune_error, 1)" and "snd (decode_rune u) = length u"
    using rune_bytes_decode [of "map byte_val u"] assms d by (simp_all add: one_rune_def)
  show "decode_rune (u @ t) = decode_rune u" using decode_rune_append one_rune_length [OF assms] ok by blast
  have "map byte_val (encode_rune (fst (decode_rune u))) = map byte_val u"
    using rune_bytes_encode [of "map byte_val u"] assms d by (simp add: one_rune_def)
  then show "encode_rune (fst (decode_rune u)) = u"
    using inj_map_eq_map [of "of_char :: char \<Rightarrow> nat"] by (auto simp: inj_def)
qed

lemma decode_one_rune:
  assumes "s \<noteq> []" and "decode_rune s \<noteq> (rune_error, 1)"
  shows "one_rune (take (snd (decode_rune s)) s)"
proof -
  let ?bs = "map byte_val (take 4 s)"
  have "?bs \<noteq> []" using assms(1) by simp
  from decode_vals_rune [OF this] assms(2)
  have r: "rune_bytes (take (snd (decode_rune s)) ?bs)" by (simp add: decode_rune_def)
  moreover have "snd (decode_rune s) \<le> 4" using decode_vals_width [OF \<open>?bs \<noteq> []\<close>] by (simp add: decode_rune_def)
  ultimately show ?thesis by (simp add: one_rune_def take_map min_absorb1 min_absorb2)
qed

lemma valid_rune_append: "one_rune u \<Longrightarrow> valid_utf8 (u @ t) \<longleftrightarrow> valid_utf8 t"
  using one_rune_decode [of u] one_rune_length [of u] by (subst valid_utf8.simps) simp

lemma runes_rune_append: "one_rune u \<Longrightarrow> runes (u @ t) = fst (decode_rune u) # runes t"
  using one_rune_decode [of u] one_rune_length [of u] by (subst runes.simps) simp

lemma valid_utf8_Nil [simp]: "valid_utf8 []"
  by (simp add: valid_utf8.simps)

lemma valid_utf8_induct [consumes 1, case_names Nil rune]:
  assumes "valid_utf8 s" and "P []" and step: "\<And>u t. one_rune u \<Longrightarrow> valid_utf8 t \<Longrightarrow> P t \<Longrightarrow> P (u @ t)"
  shows "P s"
  using assms(1)
proof (induction s rule: valid_utf8.induct)
  case (1 s)
  show ?case
  proof (cases "s = []")
    case True
    then show ?thesis using assms(2) by simp
  next
    case False
    let ?w = "snd (decode_rune s)"
    have ok: "decode_rune s \<noteq> (rune_error, 1)" "valid_utf8 (drop ?w s)"
      using "1.prems" False by (simp_all add: valid_utf8.simps [of s])
    have "P (take ?w s @ drop ?w s)"
      by (rule step [OF decode_one_rune [OF False ok(1)] ok(2) "1.IH" [OF False ok(2)]])
    then show ?thesis by simp
  qed
qed

lemma valid_utf8_append [simp]: "valid_utf8 a \<Longrightarrow> valid_utf8 (a @ b) \<longleftrightarrow> valid_utf8 b"
  by (induction a rule: valid_utf8_induct) (simp_all add: valid_rune_append)

lemma runes_append: "valid_utf8 a \<Longrightarrow> runes (a @ b) = runes a @ runes b"
  by (induction a rule: valid_utf8_induct) (simp_all add: runes_rune_append)

lemma string_of_runes_simps [simp]:
  "string_of_runes [] = []" "string_of_runes (r # rs) = encode_rune r @ string_of_runes rs"
  "string_of_runes (rs @ rs') = string_of_runes rs @ string_of_runes rs'"
  by (simp_all add: string_of_runes_def)

text \<open>Reading a valid string rune by rune and writing the runes back is the identity.\<close>

lemma string_of_runes_runes: "valid_utf8 s \<Longrightarrow> string_of_runes (runes s) = s"
  by (induction s rule: valid_utf8_induct) (simp_all add: runes_rune_append one_rune_decode)

lemma one_rune_replacement: "one_rune replacement_char"
  by (simp add: one_rune_def replacement_char_def encode_rune_def rune_error_def rune_bytes_def second_ok_def cont_byte_def)

lemma valid_to_valid_from: "valid_utf8 (to_valid_from b s)"
proof (induction b s rule: to_valid_from.induct)
  case (1 bad s)
  show ?case
  proof (cases "s = []")
    case True
    then show ?thesis by (simp add: to_valid_from.simps)
  next
    case False
    show ?thesis
    proof (cases "decode_rune s = (rune_error, 1)")
      case True
      then show ?thesis using "1.IH"(1) [OF False True] False
        by (subst to_valid_from.simps) (simp add: valid_rune_append [OF one_rune_replacement])
    next
      case ok: False
      then show ?thesis using "1.IH"(2) [OF False ok] False
        by (subst to_valid_from.simps) (simp add: valid_rune_append [OF decode_one_rune [OF False ok]])
    qed
  qed
qed

lemma valid_to_valid_utf8 [simp]: "valid_utf8 (to_valid_utf8 s)"
  by (simp add: to_valid_utf8_def valid_to_valid_from)

lemma to_valid_utf8_id [simp]: "valid_utf8 s \<Longrightarrow> to_valid_utf8 s = s"
  by (simp add: to_valid_utf8_def to_valid_utf8_valid)

text \<open>Cutting at the start of a rune leaves valid text.\<close>

lemma one_rune_start: "one_rune u \<Longrightarrow> e < length u \<Longrightarrow> rune_start (u ! e) \<longleftrightarrow> e = 0"
proof -
  assume u: "one_rune u" and e: "e < length u"
  show "rune_start (u ! e) \<longleftrightarrow> e = 0"
  proof (cases "e = 0")
    case True
    then show ?thesis
      using rune_bytes_first [of "map byte_val u"] u e by (cases u) (auto simp: one_rune_def rune_start_def)
  next
    case False
    then show ?thesis
      using rune_bytes_cont [of "map byte_val u" e] u e by (simp add: one_rune_def rune_start_def)
  qed
qed

lemma valid_utf8_cut: "valid_utf8 s \<Longrightarrow> e < length s \<Longrightarrow> rune_start (s ! e) \<Longrightarrow> valid_utf8 (take e s)"
proof (induction s arbitrary: e rule: valid_utf8_induct)
  case (rune u t)
  show ?case
  proof (cases "e < length u")
    case True
    then have "e = 0" using one_rune_start [OF rune(1) True] rune(5) by (simp add: nth_append)
    then show ?thesis by simp
  next
    case False
    then show ?thesis
      using rune.IH [of "e - length u"] rune.prems by (simp add: valid_rune_append [OF rune(1)] nth_append)
  qed
qed simp

text \<open>Replacing an ASCII byte by ASCII text.\<close>

lemma replace_byte_append: "replace_byte d new (a @ b) = replace_byte d new a @ replace_byte d new b"
  by (induction a) simp_all

lemma replace_byte_absent: "d \<notin> set s \<Longrightarrow> replace_byte d new s = s"
  by (induction s) auto

lemma one_rune_ascii: "byte_val c < 128 \<Longrightarrow> one_rune [c]"
  by (simp add: one_rune_def rune_bytes_def)

lemma one_rune_cases:
  assumes "one_rune u"
  obtains c where "u = [c]" "byte_val c < 128"
  | "\<And>c. c \<in> set u \<Longrightarrow> 128 \<le> byte_val c" "128 \<le> fst (decode_rune u)"
proof (cases "length u = 1")
  case True
  then obtain c where c: "u = [c]" by (auto simp: length_Suc_conv)
  then have "byte_val c < 128" using assms by (simp add: one_rune_def rune_bytes_def)
  with c show ?thesis by (rule that(1))
next
  case False
  let ?bs = "map byte_val u"
  have first: "u \<noteq> []" "128 \<le> byte_val (u ! 0)"
    using rune_bytes_first [of ?bs] assms False by (cases u; simp add: one_rune_def)+
  have "128 \<le> byte_val (u ! j)" if "j < length u" for j
  proof (cases j)
    case (Suc i)
    then show ?thesis using rune_bytes_cont [of ?bs j] assms that by (simp add: one_rune_def cont_byte_def)
  qed (use first in simp)
  then have "128 \<le> byte_val c" if "c \<in> set u" for c using that by (metis in_set_conv_nth)
  moreover have "128 \<le> fst (decode_rune u)"
  proof (rule ccontr)
    assume "\<not> ?thesis"
    then have "length (encode_rune (fst (decode_rune u))) = 1" by (simp add: encode_rune_def)
    then show False using one_rune_decode(4) [OF assms] False by simp
  qed
  ultimately show ?thesis by (rule that(2))
qed

end
