(* ===== verification/DeletionQueueRuns.thy ===== *)
theory DeletionQueueRuns
  imports DeletionQueueFacts Utf8
begin

section \<open>Runs of the deletion queue and their properties\<close>

text \<open>
  A run interleaves the operations of the queue, of the legacy jobs and of the administrators, in
  any order and with any arguments. The properties are invariants of every reachable database and
  facts about single operations in one.
\<close>

subsection \<open>Steps\<close>

text \<open>Removing an administrator cascades to its jobs and to their dependent rows.\<close>

definition cascade_admins :: "deletion_db \<Rightarrow> admin_db \<Rightarrow> deletion_db" where
  "cascade_admins db admins =
     db\<lparr>dd_admins := admins,
        dd_jobs := filter (\<lambda>r. find_admin admins (jr_AdminID r) \<noteq> None) (dd_jobs db),
        dd_metas := filter (\<lambda>r. find_admin admins (mt_AdminID r) \<noteq> None) (dd_metas db),
        dd_links := filter (\<lambda>r. find_admin admins (lk_AdminID r) \<noteq> None) (dd_links db),
        dd_clearances := filter (\<lambda>r. find_admin admins (cl_AdminID r) \<noteq> None) (dd_clearances db)\<rparr>"

inductive queue_step :: "deletion_db \<Rightarrow> deletion_db \<Rightarrow> bool" where
  qu_enqueue: "queue_step db (snd (EnqueueAliasDeletionJob db job targets random now))"
| qu_heads: "queue_step db (snd (ListAliasDeletionQueueHeads db due now))"
| qu_claim: "queue_step db (snd (ClaimAliasDeletionWork db i block due now))"
| qu_save: "queue_step db (snd (SaveAliasDeletionWork db work now))"
| qu_cancel: "queue_step db (snd (CancelAliasDeletionJob db i admin now))"
| qu_wanted: "queue_step db (snd (AliasDeletionWorkWanted db i now))"
| qu_recover: "queue_step db (snd (RecoverAliasDeletionQueue db now))"
| qu_create: "CreateAliasDeletionJob db job now = Inr db' \<Longrightarrow> queue_step db db'"
| qu_save_job: "SaveAliasDeletionJob db job audit now = Inr db' \<Longrightarrow> queue_step db db'"
| qu_clear: "queue_step db (snd (ClearCompletedAliasDeletionJobs db admin now))"
| qu_interrupt: "queue_step db (InterruptAliasDeletionJobs db now)"
| qu_admin: "admin_step (dd_admins db) admins \<Longrightarrow> queue_step db (cascade_admins db admins)"

definition empty_deletion_db :: "admin_db \<Rightarrow> deletion_db" where
  "empty_deletion_db admins = \<lparr>dd_admins = admins, dd_sequence = 0, dd_jobs = [], dd_metas = [], dd_works = [],
     dd_links = [], dd_clearances = [], dd_audit = \<lparr>adb_next = 1, adb_rows = []\<rparr>\<rparr>"

inductive queue_reachable :: "deletion_db \<Rightarrow> bool" where
  qq_start: "admin_inv admins \<Longrightarrow> queue_reachable (empty_deletion_db admins)"
| qq_step: "queue_reachable db \<Longrightarrow> queue_step db db' \<Longrightarrow> queue_reachable db'"

definition works_follow :: "deletion_db \<Rightarrow> deletion_db \<Rightarrow> bool" where
  "works_follow db db' \<longleftrightarrow> queue_ok db' \<and> keeps (dd_works db) (dd_works db')"

lemma works_follow_refl: "queue_ok db \<Longrightarrow> works_follow db db"
  by (simp add: works_follow_def)

lemma allowed_follow: "allowed db db' \<Longrightarrow> works_follow db db'"
  by (simp add: allowed_def works_follow_def)

lemma same_works_follow:
  "queue_ok db \<Longrightarrow> dd_works db' = dd_works db \<Longrightarrow> dd_sequence db' = dd_sequence db \<Longrightarrow> works_follow db db'"
  by (simp add: works_follow_def queue_ok_def)

lemma run_tx_follow:
  assumes "queue_ok db" and "\<And>x d. m = Inr (x, d) \<Longrightarrow> allowed db d"
  shows "works_follow db (snd (run_tx db m))"
  using assms by (auto simp: run_tx_def works_follow_refl allowed_follow split: sum.split)

lemma snd_claim: "snd (ClaimAliasDeletionWork db i random due now) = snd (run_tx db (claim_tx db i random due now))"
  by (simp add: ClaimAliasDeletionWork_def split: prod.split sum.split option.split)

lemma queue_step_follow: "queue_step db db' \<Longrightarrow> queue_ok db \<Longrightarrow> works_follow db db'"
proof (induction rule: queue_step.induct)
  case (qu_enqueue db job targets random now)
  show ?case
    using enqueue_allowed [OF _ qu_enqueue, of job targets random now] works_follow_refl [OF qu_enqueue]
    by (cases "EnqueueAliasDeletionJob db job targets random now")
       (force simp: EnqueueAliasDeletionJob_def run_tx_def allowed_follow split: sum.splits)
next
  case (qu_heads db due now)
  show ?case unfolding ListAliasDeletionQueueHeads_def
    by (rule run_tx_follow [OF qu_heads]) (auto simp: bind_res_Inr prune_allowed [OF _ qu_heads])
next
  case (qu_claim db i block due now)
  show ?case unfolding snd_claim
    by (rule run_tx_follow [OF qu_claim]) (rule claim_allowed [OF _ qu_claim])
next
  case (qu_save db work now)
  show ?case
    using save_allowed [OF _ qu_save, of work now] works_follow_refl [OF qu_save]
    by (cases "SaveAliasDeletionWork db work now")
       (force simp: SaveAliasDeletionWork_def run_tx_def allowed_follow split: sum.splits)
next
  case (qu_cancel db i admin now)
  show ?case
    using cancel_job_allowed [OF _ qu_cancel, of i admin now] works_follow_refl [OF qu_cancel]
    by (cases "CancelAliasDeletionJob db i admin now")
       (force simp: CancelAliasDeletionJob_def run_tx_def allowed_follow split: sum.splits)
next
  case (qu_wanted db i now)
  show ?case unfolding AliasDeletionWorkWanted_def
    by (rule run_tx_follow [OF qu_wanted]) (auto simp: bind_res_Inr prune_allowed [OF _ qu_wanted])
next
  case (qu_recover db now)
  show ?case
    using recover_allowed [OF _ qu_recover, of now] works_follow_refl [OF qu_recover]
    by (cases "RecoverAliasDeletionQueue db now")
       (force simp: RecoverAliasDeletionQueue_def run_tx_def allowed_follow split: sum.splits)
next
  case (qu_create db job now db')
  then show ?case
    by (intro same_works_follow) (auto simp: CreateAliasDeletionJob_def Let_def bind_res_Inr insert_job_row_def
        split: if_splits)
next
  case (qu_save_job db job audit now db')
  then show ?case
    by (intro same_works_follow)
       (auto simp: SaveAliasDeletionJob_def Let_def bind_res_Inr split: if_splits option.splits)
next
  case (qu_clear db admin now)
  then show ?case
    by (intro same_works_follow) (simp_all add: ClearCompletedAliasDeletionJobs_def Let_def)
next
  case (qu_interrupt db now)
  then show ?case
    by (intro same_works_follow) (simp_all add: InterruptAliasDeletionJobs_def interrupt_legacy_jobs_def)
next
  case (qu_admin db admins)
  then show ?case
    by (intro same_works_follow) (simp_all add: cascade_admins_def)
qed

lemma queue_reachable_ok: "queue_reachable db \<Longrightarrow> queue_ok db"
proof (induction rule: queue_reachable.induct)
  case (qq_start admins)
  then show ?case
    by (simp add: queue_ok_def empty_deletion_db_def works_inv_def unique_key_def)
next
  case (qq_step db db')
  then show ?case using queue_step_follow by (simp add: works_follow_def)
qed

lemma queue_steps_follow:
  assumes "queue_step\<^sup>*\<^sup>* db db'" and "queue_ok db"
  shows "works_follow db db'"
  using assms(1)
proof (induction rule: rtranclp_induct)
  case base
  then show ?case by (rule works_follow_refl [OF assms(2)])
next
  case (step d d')
  then have "works_follow d d'" using queue_step_follow by (simp add: works_follow_def)
  with step.IH show ?case by (auto simp: works_follow_def intro: keeps_trans)
qed

subsection \<open>Claims\<close>

lemma claim_parts:
  assumes "ClaimAliasDeletionWork db i random due now = (Inr w, db')" and "queue_ok db"
  obtains db1 r block where
    "pruneDeletionSubscriptionsTx now db = Inr db1" "queue_ok db1" "r \<in> set (dd_works db1)" "dw_ID r = i"
    "work_idle (dw_Status r)" "dw_NextRunAt r \<le> to_timestamp due" "\<not> earlier_active (dd_works db1) r"
    "random = Some block"
    "w = (scanAliasDeletionWork r)\<lparr>dw_ClaimToken := newDeletionID block, dw_Status := WsRunning,
        dw_Attempts := dw_Attempts (scanAliasDeletionWork r) + 1, dw_UpdatedAt := due\<rparr>"
    "dd_works db' = map (put_work w) (dd_works db1)" "queue_ok db'"
proof -
  have c: "claim_tx db i random due now = Inr (Some w, db')"
    using assms(1) by (auto simp: ClaimAliasDeletionWork_def run_tx_def split: prod.splits sum.splits option.splits)
  obtain db1 where p: "pruneDeletionSubscriptionsTx now db = Inr db1"
    and k: "(case find (\<lambda>r. dw_ID r = i \<and> runnable db1 (to_timestamp due) r) (dd_works db1) of
         None \<Rightarrow> Inr (None, db1)
       | Some r \<Rightarrow>
           (case random of
              None \<Rightarrow> Inl RandomFailed
            | Some block \<Rightarrow>
                (let w0 = scanAliasDeletionWork r;
                     w = w0\<lparr>dw_ClaimToken := newDeletionID block, dw_Status := WsRunning,
                           dw_Attempts := dw_Attempts w0 + 1, dw_UpdatedAt := due\<rparr>
                 in bind_res (publishDeletionWorkTx now w (updateDeletionWorkTx w db1))
                      (\<lambda>db2. Inr (Some w, db2))))) = Inr (Some w, db')"
    using c by (auto simp: claim_tx_def bind_res_Inr)
  obtain r where f: "find (\<lambda>r. dw_ID r = i \<and> runnable db1 (to_timestamp due) r) (dd_works db1) = Some r"
    using k by (cases "find (\<lambda>r. dw_ID r = i \<and> runnable db1 (to_timestamp due) r) (dd_works db1)") auto
  obtain block where b: "random = Some block" using k f by (cases random) auto
  let ?w = "(scanAliasDeletionWork r)\<lparr>dw_ClaimToken := newDeletionID block, dw_Status := WsRunning,
        dw_Attempts := dw_Attempts (scanAliasDeletionWork r) + 1, dw_UpdatedAt := due\<rparr>"
  have w: "w = ?w" "publishDeletionWorkTx now w (updateDeletionWorkTx w db1) = Inr db'"
    using k f b by (auto simp: Let_def bind_res_Inr)
  have "queue_ok db1" using prune_allowed [OF p assms(2)] by (simp add: allowed_def)
  moreover have "r \<in> set (dd_works db1)" "dw_ID r = i" "runnable db1 (to_timestamp due) r"
    using f by (auto simp: find_Some_iff)
  moreover have "queue_ok db'" using claim_allowed [OF c assms(2)] by (simp add: allowed_def)
  ultimately show thesis
    using that [OF p _ _ _ _ _ _ b w(1)] publish_works [OF w(2)] by (auto simp: runnable_def queue_head_iff)
qed

lemma claim_finds:
  assumes "ClaimAliasDeletionWork db i random due now = (Inr w, db')" and "queue_ok db"
  shows "\<exists>r' \<in> set (dd_works db'). dw_ID r' = i \<and> r' = deletionWorkValues w \<and> dw_Status r' = WsRunning"
proof (rule claim_parts [OF assms])
  fix db1 r block
  assume "r \<in> set (dd_works db1)" "dw_ID r = i" "dd_works db' = map (put_work w) (dd_works db1)"
    "w = (scanAliasDeletionWork r)\<lparr>dw_ClaimToken := newDeletionID block, dw_Status := WsRunning,
        dw_Attempts := dw_Attempts (scanAliasDeletionWork r) + 1, dw_UpdatedAt := due\<rparr>"
  then show ?thesis by (auto simp: put_work_def intro!: bexI [of _ r])
qed

subsection \<open>Nothing unwanted is left\<close>

definition wanted_by :: "deletion_db \<Rightarrow> string \<Rightarrow> bool" where
  "wanted_by db i \<longleftrightarrow> list_ex (\<lambda>l. lk_WorkID l = i \<and> lk_Active l) (dd_links db)"

lemma list_ex_update_where:
  "(\<And>l. Q (f l) \<longleftrightarrow> Q l) \<Longrightarrow> list_ex Q (update_where P f ls) \<longleftrightarrow> list_ex Q ls"
  by (induction ls) (auto simp: update_where_Cons)

lemma wanted_audit_item [simp]: "wanted_by (audit_item now job un it db) i = wanted_by db i"
  by (simp add: audit_item_def Let_def wanted_by_def list_ex_update_where)

lemma wanted_audit [simp]: "wanted_by (auditDeletionItemsTx now job db) i = wanted_by db i"
proof -
  have "wanted_by (fold (audit_item now job un) its d) i = wanted_by d i" for un its d
    by (induction its arbitrary: d) simp_all
  then show ?thesis by (simp add: auditDeletionItemsTx_def Let_def)
qed

lemma wanted_snapshot: "snapshot_and_audit now job db = Inr db' \<Longrightarrow> wanted_by db' i = wanted_by db i"
  by (auto simp: snapshot_and_audit_def writeDeletionSnapshotTx_def bind_res_Inr) (simp_all add: wanted_by_def)

lemma wanted_publish_job: "publish_to_job now w key db = Inr db' \<Longrightarrow> wanted_by db' i = wanted_by db i"
  by (auto simp: publish_to_job_def Let_def wanted_snapshot split: option.splits)

lemma wanted_deactivate:
  "wanted_by (deactivate_links (\<lambda>r. lk_WorkID r = j) db) i \<longleftrightarrow> i \<noteq> j \<and> wanted_by db i"
  by (auto simp: wanted_by_def deactivate_links_def list_ex_iff set_update_where)

lemma wanted_publish:
  "publishDeletionWorkTx now w db = Inr db' \<Longrightarrow>
   wanted_by db' i \<longleftrightarrow> wanted_by db i \<and> \<not> (deletionWorkTerminal (dw_Status w) \<and> i = dw_ID w)"
  unfolding publishDeletionWorkTx_def Let_def
  by (drule fold_res_invariant [where P = "\<lambda>d. wanted_by d i = wanted_by (if deletionWorkTerminal (dw_Status w)
        then deactivate_links (\<lambda>r. lk_WorkID r = dw_ID w) db else db) i"])
     (auto simp: wanted_publish_job wanted_deactivate)

lemma unwanted_iff: "unwanted db r \<longleftrightarrow> work_idle (dw_Status r) \<and> \<not> dw_Reconcile r \<and> \<not> wanted_by db (dw_ID r)"
  by (simp add: unwanted_def wanted_by_def)

lemma cancel_and_publish_wanted:
  "cancel_and_publish now w db = Inr db' \<Longrightarrow> wanted_by db' i \<longleftrightarrow> wanted_by db i \<and> i \<noteq> dw_ID w"
  unfolding cancel_and_publish_def Let_def
  by (drule wanted_publish [of _ _ _ _ i])
     (auto simp: deletionWorkTerminal_def updateDeletionWorkTx_def wanted_by_def)

lemma cancelUnwanted_wanted:
  assumes "cancelUnwantedDeletionWorkTx now db = Inr db'"
  shows "wanted_by db' i = wanted_by db i"
proof -
  have "fold_res (cancel_and_publish now) ws d = Inr d' \<Longrightarrow> (\<And>w. w \<in> set ws \<Longrightarrow> \<not> wanted_by d (dw_ID w)) \<Longrightarrow>
      wanted_by d' i = wanted_by d i" for ws d d'
  proof (induction ws arbitrary: d)
    case (Cons w ws)
    then obtain d1 where d1: "cancel_and_publish now w d = Inr d1"
      and r: "fold_res (cancel_and_publish now) ws d1 = Inr d'" by (auto simp: bind_res_Inr)
    note e = cancel_and_publish_wanted [OF d1]
    have "wanted_by d' i = wanted_by d1 i" by (rule Cons.IH [OF r]) (use Cons.prems(2) e in auto)
    then show ?case using e [of i] Cons.prems(2) [of w] by auto
  qed simp
  from this [OF assms [unfolded cancelUnwantedDeletionWorkTx_def]] show ?thesis
    by (rule meta_mp) (auto simp: unwanted_iff)
qed

lemma cancelUnwanted_none_left:
  assumes "cancelUnwantedDeletionWorkTx now db = Inr db'" and "queue_ok db" and "r' \<in> set (dd_works db')"
  shows "\<not> unwanted db' r'"
proof -
  have "dd_works db' = map (\<lambda>r. if unwanted db r then cancelled_row now r else r) (dd_works db)"
    using cancelUnwanted_works [OF assms(1) queue_ok_unique [OF assms(2)]] by simp
  then obtain r where r: "r \<in> set (dd_works db)" "r' = (if unwanted db r then cancelled_row now r else r)"
    using assms(3) by auto
  show ?thesis
  proof (cases "unwanted db r")
    case True
    then have "dw_Status r' = WsCancelled" by (simp add: r(2) cancelled_row_def)
    then show ?thesis by (simp add: unwanted_iff work_idle_def)
  next
    case False
    then have "r' = r" using r(2) by simp
    then show ?thesis using False cancelUnwanted_wanted [OF assms(1)] by (simp add: unwanted_iff)
  qed
qed

lemma prune_none_left:
  assumes "pruneDeletionSubscriptionsTx now db = Inr db'" and "queue_ok db" and "r \<in> set (dd_works db')"
  shows "\<not> unwanted db' r"
proof -
  obtain db1 where f: "fold_res (prune_job now) (map mt_key (filter (stale_meta db) (dd_metas db))) db = Inr db1"
    and c: "cancelUnwantedDeletionWorkTx now db1 = Inr db'"
    using prune_works [OF assms(1) queue_ok_unique [OF assms(2)]] by blast
  have "queue_ok db1" using core_allowed [OF core_prune_jobs [OF f] assms(2)] by (simp add: allowed_def)
  from cancelUnwanted_none_left [OF c this assms(3)] show ?thesis .
qed

subsection \<open>Enqueueing\<close>

lemma find_SomeD: "find P xs = Some x \<Longrightarrow> x \<in> set xs \<and> P x"
  by (auto simp: find_Some_iff)

lemma enqueue_items_result:
  "enqueue_items now targets its db random = Inr (items, db') \<Longrightarrow>
   (\<exists>new. dd_works db' = dd_works db @ new) \<and>
   list_all2 (\<lambda>it it'. it_ID it' = it_ID it \<and> it_Address it' = it_Address it \<and>
      (if it_Done it then it' = it
       else (\<exists>t. \<exists>r \<in> set (dd_works db'). find_by dw_AliasID (it_ID it) targets = Some t \<and>
          dw_ID r = it_WorkID it' \<and> work_active (dw_Status r) \<and>
          dw_AppleSubject r = dw_AppleSubject (normalize_target t) \<and>
          dw_Address r = dw_Address (normalize_target t)))) its items"
proof (induction its arbitrary: db random items)
  case Nil
  then show ?case by simp
next
  case (Cons it its)
  show ?case
  proof (cases "it_Done it")
    case True
    then obtain rest where "enqueue_items now targets its db random = Inr (rest, db')" "items = it # rest"
      using Cons.prems by (auto simp: bind_res_Inr)
    with Cons.IH [OF this(1)] True show ?thesis by simp
  next
    case False
    then obtain t0 where t0: "find_by dw_AliasID (it_ID it) targets = Some t0" "target_usable t0"
      using Cons.prems by (auto split: option.splits if_splits)
    let ?t = "normalize_target t0"
    show ?thesis
    proof (cases "active_work_for db (dw_AppleSubject ?t) (dw_Address ?t)")
      case (Some w)
      then obtain rest where e: "enqueue_items now targets its db random = Inr (rest, db')"
        "items = subscribe_item ?t w it # rest"
        using Cons.prems False t0 by (auto simp: Let_def bind_res_Inr)
      obtain r where "r \<in> set (dd_works db)" "w = scanAliasDeletionWork r" "dw_AppleSubject r = dw_AppleSubject ?t"
        "dw_Address r = dw_Address ?t" "work_active (dw_Status r)"
        using Some by (auto simp: active_work_for_def dest!: find_SomeD)
      moreover from this have "r \<in> set (dd_works db')" using Cons.IH [OF e(1)] by auto
      ultimately show ?thesis
        using Cons.IH [OF e(1)] e(2) False t0 by (auto simp: subscribe_item_def applyDeletionWorkToItem_def)
    next
      case None
      then obtain block random' where b: "random = block # random'"
        using Cons.prems False t0 by (cases random) (auto simp: Let_def)
      let ?w = "new_work ?t block (dd_sequence db + 1) now"
      obtain db1 rest where i: "insertDeletionWorkTx ?w (db\<lparr>dd_sequence := dd_sequence db + 1\<rparr>) = Inr db1"
        and e: "enqueue_items now targets its db1 random' = Inr (rest, db')" "items = subscribe_item ?t ?w it # rest"
        using Cons.prems False t0 None b by (auto simp: Let_def bind_res_Inr)
      have w1: "dd_works db1 = dd_works db @ [deletionWorkValues ?w]"
        using i by (auto simp: insertDeletionWorkTx_def split: if_splits)
      then have "deletionWorkValues ?w \<in> set (dd_works db')" using Cons.IH [OF e(1)] by auto
      then show ?thesis
        using Cons.IH [OF e(1)] e(2) False t0 w1
        by (auto simp: subscribe_item_def applyDeletionWorkToItem_def work_active_def
            intro!: bexI [of _ "deletionWorkValues ?w"])
    qed
  qed
qed

lemma jobs_insert_meta: "insert_meta job db = Inr db' \<Longrightarrow> dd_jobs db' = dd_jobs db"
  by (auto simp: insert_meta_def split: if_splits)

lemma jobs_insert_links: "fold_res (insert_link job) its db = Inr db' \<Longrightarrow> dd_jobs db' = dd_jobs db"
  by (drule fold_res_invariant [where P = "\<lambda>d. dd_jobs d = dd_jobs db"])
     (auto simp: insert_link_def split: if_splits)

lemma enqueue_new_stored:
  assumes "enqueue_new db job targets random now = Inr (job', db')"
  shows "\<exists>row. find_by jr_key (jb_AdminID job', jb_ID job') (dd_jobs db') = Some row"
proof (rule enqueue_new_parts [OF assms])
  fix db2 db3 db4 clean items
  assume "insert_job_row (row_of_job job' (jb_Items clean)) db2 = Inr db3" "insert_meta job' db3 = Inr db4"
    "fold_res (insert_link job') items db4 = Inr db'"
  then have "dd_jobs db' = dd_jobs db2 @ [row_of_job job' (jb_Items clean)]"
    using jobs_insert_meta [of job' db3 db4] jobs_insert_links [of job' items db4 db']
    by (auto simp: insert_job_row_def split: if_splits)
  then show ?thesis
    by (auto simp: find_by_append find_by_Cons jr_key_def row_of_job_def split: option.split)
qed

lemma get_job_None: "getDeletionJobTx db i admin = None \<longleftrightarrow> find_by jr_key (admin, i) (dd_jobs db) = None"
  by (simp add: getDeletionJobTx_def)

definition default_status :: "deletion_job \<Rightarrow> deletion_job" where
  "default_status job = (if jb_Status job = [] then job\<lparr>jb_Status := AliasDeletionJobQueued\<rparr> else job)"

lemma run_tx_Inr: "run_tx db m = (Inr x, db') \<longleftrightarrow> m = Inr (x, db')"
  by (cases m) (auto simp: run_tx_def)

lemma enqueue_cases:
  assumes "EnqueueAliasDeletionJob db job0 targets random now = (Inr job', db')"
  obtains (existing) job where "normalizeAliasDeletionJob (default_status job0) = Inr job"
      "getDeletionJobTx db (jb_ID job) (jb_AdminID job) = Some job'" "db' = db"
  | (fresh) job where "normalizeAliasDeletionJob (default_status job0) = Inr job"
      "getDeletionJobTx db (jb_ID job) (jb_AdminID job) = None"
      "version_matches (dd_admins db) (jb_AdminID job) (jb_PasswordVersion job)"
      "enqueue_new db job targets random now = Inr (job', db')"
proof -
  let ?rest = "\<lambda>job. case getDeletionJobTx db (jb_ID job) (jb_AdminID job) of
          Some existing \<Rightarrow> Inr (existing, db)
        | None \<Rightarrow>
            (case find_admin (dd_admins db) (jb_AdminID job) of
               None \<Rightarrow> Inl JobCredentialsChanged
             | Some a \<Rightarrow>
                 if jb_PasswordVersion job < 1 \<or> ad_PasswordVersion a \<noteq> jb_PasswordVersion job
                 then Inl JobCredentialsChanged
                 else enqueue_new db job targets random now)"
  have "\<exists>job. normalizeAliasDeletionJob (default_status job0) = Inr job \<and> ?rest job = Inr (job', db')"
    using assms unfolding EnqueueAliasDeletionJob_def run_tx_Inr bind_res_Inr default_status_def .
  then obtain job where n: "normalizeAliasDeletionJob (default_status job0) = Inr job"
    and k: "?rest job = Inr (job', db')" by (elim exE conjE)
  show thesis
  proof (cases "getDeletionJobTx db (jb_ID job) (jb_AdminID job)")
    case None
    show ?thesis
    proof (cases "find_admin (dd_admins db) (jb_AdminID job)")
      case none: None
      then show ?thesis using k None by simp
    next
      case (Some a)
      have "\<not> (jb_PasswordVersion job < 1 \<or> ad_PasswordVersion a \<noteq> jb_PasswordVersion job)"
        using k None Some by (simp split: if_splits)
      then show ?thesis
        using k None Some by (intro fresh [OF n None]) (simp_all add: version_matches_def)
    qed
  next
    case (Some a)
    show ?thesis by (rule existing [OF n]) (use k Some in simp_all)
  qed
qed

lemma hydrate_fields [simp]:
  "jb_ID (hydrateDeletionJobMetadata db job) = jb_ID job"
  "jb_AdminID (hydrateDeletionJobMetadata db job) = jb_AdminID job"
  "jb_Items (hydrateDeletionJobMetadata db job) = jb_Items job"
  "jb_Status (hydrateDeletionJobMetadata db job) = jb_Status job"
  by (simp_all add: hydrateDeletionJobMetadata_def split: option.split)

lemma job_of_row_fields [simp]:
  "jb_ID (job_of_row r) = jr_ID r" "jb_AdminID (job_of_row r) = jr_AdminID r"
  "jb_Items (job_of_row r) = jr_Items r" "jb_Status (job_of_row r) = jr_Status r"
  by (simp_all add: job_of_row_def)

lemma get_job_SomeD:
  "getDeletionJobTx db i admin = Some job \<Longrightarrow>
   \<exists>row \<in> set (dd_jobs db). jr_key row = (admin, i) \<and> job = hydrateDeletionJobMetadata db (job_of_row row)"
  by (auto simp: getDeletionJobTx_def dest!: find_by_SomeD)

lemma get_job_fields:
  "getDeletionJobTx db i admin = Some job \<Longrightarrow> jb_ID job = i \<and> jb_AdminID job = admin"
  by (drule get_job_SomeD) (auto simp: jr_key_def)

subsection \<open>The shape of new IDs\<close>

lemma take_drop_hex:
  "take 2 (drop (2 * k) (hex_encode s)) =
     (if k < length s then [hex_digit (byte_val (s ! k) div 16), hex_digit (byte_val (s ! k) mod 16)] else [])"
proof (induction s arbitrary: k)
  case Nil
  then show ?case by (simp add: hex_encode_def)
next
  case (Cons c s)
  then show ?case by (cases k) (simp_all add: hex_encode_def)
qed

lemma hex_nth:
  assumes "k < length s"
  shows "hex_encode s ! (2 * k) = hex_digit (byte_val (s ! k) div 16)"
    and "hex_encode s ! (2 * k + 1) = hex_digit (byte_val (s ! k) mod 16)"
proof -
  have "take 2 (drop (2 * k) (hex_encode s)) = [hex_encode s ! (2 * k), hex_encode s ! (2 * k + 1)]"
    using assms by (simp add: Cons_nth_drop_Suc [symmetric] numeral_2_eq_2)
  then show "hex_encode s ! (2 * k) = hex_digit (byte_val (s ! k) div 16)"
    "hex_encode s ! (2 * k + 1) = hex_digit (byte_val (s ! k) mod 16)"
    using take_drop_hex [of k s] assms by simp_all
qed

lemma hex_digits:
  "hex_digit 4 = CHR ''4''" "hex_digit 8 = CHR ''8''" "hex_digit 9 = CHR ''9''" "hex_digit 10 = CHR ''a''"
  "hex_digit 11 = CHR ''b''"
  by code_simp+

lemma variant_digit:
  assumes "b < 256"
  shows "hex_digit ((b mod 64 + 128) div 16) \<in> {CHR ''8'', CHR ''9'', CHR ''a'', CHR ''b''}"
proof -
  have "(b mod 64 + 128) div 16 = 8 + b mod 64 div 16" by (simp add: div_plus_div_distrib_dvd_right)
  moreover have "b mod 64 div 16 < (4::nat)" by (simp add: less_mult_imp_div_less)
  then have "b mod 64 div 16 \<in> {0, 1, 2, 3}" by auto
  ultimately show ?thesis by (auto simp: hex_digits)
qed

lemma version_digit: "hex_digit ((b mod 16 + 64) div 16) = CHR ''4''"
proof -
  have "(b mod 16 + 64) div 16 = (4::nat)" by simp
  then show ?thesis by (simp add: hex_digits)
qed

subsection \<open>Properties\<close>

text \<open>C6: Deletions of one Apple subject run one at a time and in FIFO order: in every reachable database
  a running record has no active record of its subject before it, and no second record of its subject
  is running.\<close>

theorem queue_fifo_one_running:
  assumes "queue_reachable db" and "r \<in> set (dd_works db)" and "dw_Status r = WsRunning"
    and "e \<in> set (dd_works db)" and "dw_AppleSubject e = dw_AppleSubject r" and "work_active (dw_Status e)"
  shows "dw_Sequence r \<le> dw_Sequence e \<and> (dw_Status e = WsRunning \<longrightarrow> e = r)"
proof -
  have inv: "works_inv (dd_works db) (dd_sequence db)" using queue_reachable_ok [OF assms(1)] by (simp add: queue_ok_def)
  have first: "dw_Sequence x \<le> dw_Sequence y"
    if "x \<in> set (dd_works db)" "dw_Status x = WsRunning" "y \<in> set (dd_works db)"
      "dw_AppleSubject y = dw_AppleSubject x" "work_active (dw_Status y)" for x y
  proof (rule ccontr)
    assume "\<not> dw_Sequence x \<le> dw_Sequence y"
    then have "earlier_active (dd_works db) x" using that by (auto simp: earlier_active_def)
    then show False using works_invD(3) [OF inv that(1)] that(2) by (simp add: row_ok_def)
  qed
  have le: "dw_Sequence r \<le> dw_Sequence e" by (rule first [OF assms(2,3,4,5,6)])
  have "e = r" if "dw_Status e = WsRunning"
  proof -
    have "dw_Sequence e \<le> dw_Sequence r"
      by (rule first [OF assms(4) that assms(2)]) (use assms(3,5) in \<open>simp_all add: work_active_def\<close>)
    with le show ?thesis using unique_keyD [OF works_invD(2) [OF inv] assms(4,2)] by simp
  qed
  with le show ?thesis by blast
qed

text \<open>A claim is exclusive for its subject: after it, until the next change, no worker can claim any
  record of the same Apple subject, neither the claimed one again nor one behind or before it.\<close>

theorem claim_excludes_subject:
  assumes "queue_reachable db" and "ClaimAliasDeletionWork db i random due now = (Inr w, db')"
    and "r \<in> set (dd_works db')" and "dw_AppleSubject r = dw_AppleSubject w"
  shows "\<exists>e. fst (ClaimAliasDeletionWork db' (dw_ID r) random' due' now') = Inl e"
proof (rule ccontr)
  assume "\<not> ?thesis"
  then obtain w' db'' where c: "ClaimAliasDeletionWork db' (dw_ID r) random' due' now' = (Inr w', db'')"
    by (cases "ClaimAliasDeletionWork db' (dw_ID r) random' due' now'"; cases "fst (ClaimAliasDeletionWork db' (dw_ID r) random' due' now')") auto
  note ok = queue_reachable_ok [OF assms(1)]
  obtain x where x: "x \<in> set (dd_works db')" "x = deletionWorkValues w" "dw_Status x = WsRunning"
    using claim_finds [OF assms(2) ok] by blast
  have ok': "queue_ok db'" using claim_parts [OF assms(2) ok] by blast
  show False
  proof (rule claim_parts [OF c ok'])
    fix db1 s
    assume p: "pruneDeletionSubscriptionsTx now' db' = Inr db1" and ok1: "queue_ok db1"
      and s: "s \<in> set (dd_works db1)" "dw_ID s = dw_ID r" "work_idle (dw_Status s)" "\<not> earlier_active (dd_works db1) s"
    have x1: "x \<in> set (dd_works db1)" by (rule prune_running [OF p ok' x(1,3)])
    have "\<not> earlier_active (dd_works db1) x"
      using works_invD(3) [OF _ x1] ok1 x(3) by (auto simp: queue_ok_def row_ok_def)
    obtain r1 where r1: "r1 \<in> set (dd_works db1)" "same_identity r r1"
      using prune_allowed [OF p ok'] assms(3) by (auto simp: allowed_def keeps_def)
    have "s = r1" using unique_keyD [OF queue_ok_unique [OF ok1] s(1) r1(1)] s(2) r1(2) by (simp add: same_identity_def)
    then have subj: "dw_AppleSubject s = dw_AppleSubject x"
      using r1(2) assms(4) x(2) by (simp add: same_identity_def)
    have "dw_Sequence s = dw_Sequence x"
      using s(3,4) \<open>\<not> earlier_active (dd_works db1) x\<close> subj x1 s(1) x(3)
      by (auto simp: earlier_active_def idle_active work_active_def [of WsRunning] not_less intro!: antisym)
    then have "s = x" using unique_keyD [of dw_Sequence "dd_works db1" s x] ok1 s(1) x1
      by (simp add: queue_ok_def works_invD(2))
    with s(3) x(3) show False by (simp add: work_idle_def)
  qed
qed

text \<open>A finished deletion stays finished: whatever operations follow, a succeeded, failed or cancelled
  record is in the table unchanged.\<close>

theorem finished_work_is_final:
  assumes "queue_reachable db" and "queue_step\<^sup>*\<^sup>* db db'" and "r \<in> set (dd_works db)"
    and "deletionWorkTerminal (dw_Status r)"
  shows "r \<in> set (dd_works db')"
  using queue_steps_follow [OF assms(2) queue_reachable_ok [OF assms(1)]] assms(3,4)
  by (auto simp: works_follow_def keeps_def)

text \<open>No mailbox is deleted twice at once: two active records of one Apple subject and address are the
  same record.\<close>

theorem one_active_record_per_mailbox:
  assumes "queue_reachable db" and "r \<in> set (dd_works db)" and "r' \<in> set (dd_works db)"
    and "work_active (dw_Status r)" and "work_active (dw_Status r')"
    and "dw_AppleSubject r = dw_AppleSubject r'" and "dw_Address r = dw_Address r'"
  shows "r = r'"
proof -
  have inv: "works_inv (dd_works db) (dd_sequence db)" using queue_reachable_ok [OF assms(1)] by (simp add: queue_ok_def)
  have "dw_ID r = dw_ID r'" using works_invD(4) [OF inv assms(2,3)] assms(4-7) by (simp add: same_target_def)
  then show ?thesis using unique_keyD [OF works_invD(1) [OF inv] assms(2,3)] by simp
qed

text \<open>C23: Recovery after a restart fences every worker of the old process: afterwards no record is running,
  the records that were running wait for reconciliation, and no result is accepted before a new claim.\<close>

theorem recovery_fences_old_workers:
  assumes "queue_reachable db" and "RecoverAliasDeletionQueue db now = (Inr (), db')"
  shows "(\<forall>r \<in> set (dd_works db'). dw_Status r \<noteq> WsRunning) \<and>
    (\<forall>r \<in> set (dd_works db). dw_Status r = WsRunning \<longrightarrow>
       (\<exists>r' \<in> set (dd_works db'). dw_ID r' = dw_ID r \<and> dw_Status r' = WsPending \<and> dw_Reconcile r' \<and>
          dw_ClaimToken r' = [])) \<and>
    (\<forall>work t. fst (SaveAliasDeletionWork db' work t) \<noteq> Inr ())"
proof -
  note ok = queue_reachable_ok [OF assms(1)]
  obtain db2 where w2: "dd_works db2 = map (\<lambda>r. if dw_Status r = WsRunning then recovered_row now r else r) (dd_works db)"
    and a2: "allowed db db2" and p: "pruneDeletionSubscriptionsTx now db2 = Inr db'"
    using recover_works [OF assms(2) ok] by blast
  have ok2: "queue_ok db2" using a2 by (simp add: allowed_def)
  obtain db1 where w': "dd_works db' = map (\<lambda>r. if unwanted db1 r then cancelled_row now r else r) (dd_works db2)"
    using prune_works [OF p queue_ok_unique [OF ok2]] by blast
  have rec: "dw_Status (recovered_row now r) = WsPending" "dw_Reconcile (recovered_row now r)"
    "dw_ClaimToken (recovered_row now r) = []" "dw_ID (recovered_row now r) = dw_ID r" for r
    by (simp_all add: recovered_row_def)
  have none: "\<forall>r \<in> set (dd_works db'). dw_Status r \<noteq> WsRunning"
    by (auto simp: w' w2 rec cancelled_row_def)
  moreover have "\<exists>r' \<in> set (dd_works db'). dw_ID r' = dw_ID r \<and> dw_Status r' = WsPending \<and> dw_Reconcile r' \<and>
      dw_ClaimToken r' = []" if "r \<in> set (dd_works db)" "dw_Status r = WsRunning" for r
  proof (rule bexI [of _ "recovered_row now r"])
    have "\<not> unwanted db1 (recovered_row now r)" by (simp add: unwanted_def rec)
    then show "recovered_row now r \<in> set (dd_works db')" using that by (force simp: w' w2)
  qed (simp add: rec)
  moreover have "fst (SaveAliasDeletionWork db' work t) \<noteq> Inr ()" for work t
  proof
    assume "fst (SaveAliasDeletionWork db' work t) = Inr ()"
    then obtain current where "find_work db' (dw_ID work) = Some current" "\<not> fenced current work"
      by (auto simp: SaveAliasDeletionWork_def run_tx_def split: if_splits option.splits sum.splits)
    then show False using find_work_SomeD [of db' "dw_ID work" current] none by (auto simp: fenced_def)
  qed
  ultimately show ?thesis by blast
qed

text \<open>Enqueueing is idempotent: once a job is stored, enqueueing the same owner and job ID again, with
  whatever items, targets and clock, returns the stored job and changes no table.\<close>

theorem enqueue_idempotent:
  assumes "EnqueueAliasDeletionJob db job targets random now = (Inr job1, db1)"
    and "normalizeAliasDeletionJob (default_status again) = Inr clean"
    and "jb_ID clean = jb_ID job1" and "jb_AdminID clean = jb_AdminID job1"
  shows "\<exists>stored. getDeletionJobTx db1 (jb_ID job1) (jb_AdminID job1) = Some stored \<and>
    EnqueueAliasDeletionJob db1 again targets' random' now' = (Inr stored, db1)"
proof -
  have "\<exists>stored. getDeletionJobTx db1 (jb_ID job1) (jb_AdminID job1) = Some stored"
    using assms(1)
  proof (cases rule: enqueue_cases)
    case (existing job)
    then show ?thesis using get_job_fields by metis
  next
    case (fresh job)
    then show ?thesis using enqueue_new_stored [OF fresh(4)] get_job_None [of db1 "jb_ID job1" "jb_AdminID job1"]
      by (cases "getDeletionJobTx db1 (jb_ID job1) (jb_AdminID job1)") auto
  qed
  then obtain stored where s: "getDeletionJobTx db1 (jb_ID job1) (jb_AdminID job1) = Some stored" ..
  have "EnqueueAliasDeletionJob db1 again targets' random' now' = (Inr stored, db1)"
    using assms(2-4) s by (simp add: EnqueueAliasDeletionJob_def default_status_def [symmetric] run_tx_def)
  with s show ?thesis by blast
qed

text \<open>Enqueueing subscribes every outstanding item: in the stored job each item that is not already done
  names an active record of the table for exactly its target's Apple subject and normalised address, and
  the records of other jobs are kept.\<close>

theorem enqueue_subscribes_items:
  assumes "queue_reachable db" and "EnqueueAliasDeletionJob db job targets random now = (Inr job1, db1)"
    and "normalizeAliasDeletionJob (default_status job) = Inr clean"
    and "getDeletionJobTx db (jb_ID clean) (jb_AdminID clean) = None"
  shows "keeps (dd_works db) (dd_works db1) \<and>
    list_all2 (\<lambda>it it'. it_ID it' = it_ID it \<and>
      (if it_Done it then it' = it
       else (\<exists>t. \<exists>r \<in> set (dd_works db1). find_by dw_AliasID (it_ID it) targets = Some t \<and>
          dw_ID r = it_WorkID it' \<and> work_active (dw_Status r) \<and>
          dw_AppleSubject r = dw_AppleSubject (normalize_target t) \<and>
          dw_Address r = dw_Address (normalize_target t)))) (jb_Items clean) (jb_Items job1)"
proof -
  note ok = queue_reachable_ok [OF assms(1)]
  have e: "enqueue_new db clean targets random now = Inr (job1, db1)"
    using assms(2) by (cases rule: enqueue_cases) (use assms(3,4) in auto)
  have "keeps (dd_works db) (dd_works db1)" using enqueue_new_allowed [OF e ok] by (simp add: allowed_def)
  moreover have "list_all2 (\<lambda>it it'. it_ID it' = it_ID it \<and>
      (if it_Done it then it' = it
       else (\<exists>t. \<exists>r \<in> set (dd_works db1). find_by dw_AliasID (it_ID it) targets = Some t \<and>
          dw_ID r = it_WorkID it' \<and> work_active (dw_Status r) \<and>
          dw_AppleSubject r = dw_AppleSubject (normalize_target t) \<and>
          dw_Address r = dw_Address (normalize_target t)))) (jb_Items clean) (jb_Items job1)"
  proof (rule enqueue_new_parts [OF e])
    fix dba items db2 db3 db4 c
    assume i: "enqueue_items now targets (jb_Items clean) dba random = Inr (items, db2)" "jb_Items job1 = items"
      and "insert_job_row (row_of_job job1 (jb_Items c)) db2 = Inr db3" "insert_meta job1 db3 = Inr db4"
        "fold_res (insert_link job1) items db4 = Inr db1"
    then have "dd_works db1 = dd_works db2"
      using core_insert_job [of "row_of_job job1 (jb_Items c)" db2 db3] core_insert_meta [of job1 db3 db4]
        core_insert_links [of job1 items db4 db1] by (simp add: core_eq)
    with enqueue_items_result [OF i(1)] i(2) show ?thesis
      by (auto elim!: list_all2_mono)
  qed
  ultimately show ?thesis by blast
qed


text \<open>The scheduler sees at most one record per Apple subject: the listed heads are idle, due, have no
  active record of their subject before them, and no two of them share a subject.\<close>

theorem heads_one_per_subject:
  assumes "queue_reachable db" and "ListAliasDeletionQueueHeads db due now = (Inr ws, db')"
  shows "(\<forall>w \<in> set ws. \<exists>r \<in> set (dd_works db'). w = scanAliasDeletionWork r \<and> work_idle (dw_Status r) \<and>
      dw_NextRunAt r \<le> to_timestamp due \<and> \<not> earlier_active (dd_works db') r) \<and>
    distinct (map dw_AppleSubject ws)"
proof -
  note ok = queue_reachable_ok [OF assms(1)]
  obtain p: "pruneDeletionSubscriptionsTx now db = Inr db'"
    and ws: "ws = map scanAliasDeletionWork (sort_key dw_Sequence
               (filter (runnable db' (to_timestamp due)) (dd_works db')))"
    using assms(2) by (auto simp: ListAliasDeletionQueueHeads_def run_tx_Inr bind_res_Inr)
  let ?rows = "sort_key dw_Sequence (filter (runnable db' (to_timestamp due)) (dd_works db'))"
  have inv: "works_inv (dd_works db') (dd_sequence db')"
    using prune_allowed [OF p ok] by (simp add: allowed_def queue_ok_def)
  have "distinct ?rows" using works_invD(1) [OF inv] by (simp add: unique_key_def distinct_map)
  moreover have "inj_on dw_AppleSubject (set ?rows)"
  proof (rule inj_onI)
    fix x y
    assume "x \<in> set ?rows" "y \<in> set ?rows" and s: "dw_AppleSubject x = dw_AppleSubject y"
    then have x: "x \<in> set (dd_works db')" "work_active (dw_Status x)" "\<not> earlier_active (dd_works db') x"
      and y: "y \<in> set (dd_works db')" "work_active (dw_Status y)" "\<not> earlier_active (dd_works db') y"
      by (auto simp: runnable_def queue_head_iff idle_active)
    have "dw_Sequence x = dw_Sequence y"
      using x y s by (auto simp: earlier_active_def not_less intro!: antisym)
    then show "x = y" using unique_keyD [OF works_invD(2) [OF inv] x(1) y(1)] by simp
  qed
  ultimately have "distinct (map dw_AppleSubject ?rows)" by (simp add: distinct_map)
  moreover have "map dw_AppleSubject ws = map dw_AppleSubject ?rows" by (simp add: ws)
  ultimately have "distinct (map dw_AppleSubject ws)" by (simp only:)
  moreover have "\<exists>r \<in> set (dd_works db'). w = scanAliasDeletionWork r \<and> work_idle (dw_Status r) \<and>
      dw_NextRunAt r \<le> to_timestamp due \<and> \<not> earlier_active (dd_works db') r" if "w \<in> set ws" for w
    using that by (auto simp: ws runnable_def queue_head_iff)
  ultimately show ?thesis by blast
qed

text \<open>Cancelling a job stops exactly what may be stopped: afterwards every record that could still be
  started without reconciliation has a live subscriber, while running records and records awaiting
  reconciliation are untouched.\<close>

theorem cancel_stops_unstarted:
  assumes "queue_reachable db" and "getDeletionJobTx db i admin = Some job0" and "jb_QueueVersion job0 = 1"
    and "job_active (jb_Status job0)" and "CancelAliasDeletionJob db i admin now = (Inr job, db')"
  shows "(\<forall>r \<in> set (dd_works db'). work_idle (dw_Status r) \<and> \<not> dw_Reconcile r \<longrightarrow> wanted_by db' (dw_ID r)) \<and>
    (\<forall>r \<in> set (dd_works db). dw_Status r = WsRunning \<or> dw_Reconcile r \<longrightarrow> r \<in> set (dd_works db'))"
proof -
  note ok = queue_reachable_ok [OF assms(1)]
  obtain db1 where c: "cancelDeletionJobTx now job0 False db = Inr db1" "cancelUnwantedDeletionWorkTx now db1 = Inr db'"
    using assms(2-5) by (auto simp: CancelAliasDeletionJob_def run_tx_Inr bind_res_Inr job_active_def job_status_defs
        split: if_splits option.splits)
  have core: "core db1 = core db" by (rule core_cancel_job [OF c(1)])
  have ok1: "queue_ok db1" using core_allowed [OF core ok] by (simp add: allowed_def)
  have "\<not> unwanted db' r" if "r \<in> set (dd_works db')" for r
    by (rule cancelUnwanted_none_left [OF c(2) ok1 that])
  moreover have "r \<in> set (dd_works db')" if "r \<in> set (dd_works db)" "dw_Status r = WsRunning \<or> dw_Reconcile r" for r
  proof -
    have "\<not> unwanted db1 r" using that(2) by (auto simp: unwanted_def work_idle_def)
    then show ?thesis
      using cancelUnwanted_works [OF c(2) queue_ok_unique [OF ok1]] core that(1) by (force simp: core_eq)
  qed
  ultimately show ?thesis by (auto simp: unwanted_iff)
qed

text \<open>New IDs are random UUIDs: from sixteen random bytes the ID has 36 characters, the version digit 4
  at position 14 and one of the variant digits 8, 9, a and b at position 19.\<close>

theorem deletion_id_is_uuid4:
  assumes "length random = 16"
  shows "length (newDeletionID random) = 36 \<and> newDeletionID random ! 14 = CHR ''4'' \<and>
    newDeletionID random ! 19 \<in> {CHR ''8'', CHR ''9'', CHR ''a'', CHR ''b''}"
proof -
  let ?v = "(map byte_val random)[6 := byte_val (random ! 6) mod 16 + 64, 8 := byte_val (random ! 8) mod 64 + 128]"
  let ?e = "hex_encode (map char_of ?v)"
  have e: "length ?e = 32" using assms by simp
  have id: "newDeletionID random = take 8 ?e @ ''-'' @ take 4 (drop 8 ?e) @ ''-'' @ take 4 (drop 12 ?e) @ ''-'' @
      take 4 (drop 16 ?e) @ ''-'' @ drop 20 ?e"
    using assms by (simp add: newDeletionID_def Let_def)
  have "?e ! 12 = CHR ''4''"
    using hex_nth(1) [of 6 "map char_of ?v"] assms version_digit by simp
  moreover have "?e ! 16 \<in> {CHR ''8'', CHR ''9'', CHR ''a'', CHR ''b''}"
    using hex_nth(1) [of 8 "map char_of ?v"] assms variant_digit by simp
  ultimately show ?thesis using e unfolding id by (simp add: nth_append)
qed

subsection \<open>A small run\<close>

text \<open>One job with one alias: it is enqueued, claimed, and then answered, recovered or cancelled.\<close>

definition demo_block :: string where "demo_block = replicate 16 CHR ''r''"

definition demo_id :: string where "demo_id = newDeletionID demo_block"

definition demo_entry :: "string \<Rightarrow> work_status \<Rightarrow> time \<Rightarrow> string \<Rightarrow> job_item" where
  "demo_entry wid st retry reason = \<lparr>it_ID = 1, it_Address = ''a'', it_Done = deletionWorkTerminal st, it_Deleted = False,
     it_Code = [], it_Message = [], it_LocalRetained = False, it_AccountID = 1, it_AccountEmail = [],
     it_AppleSubject = ''s'', it_WorkID = wid, it_State = st, it_RetryAt = retry, it_WaitReason = reason,
     it_Used = 0, it_Limit = 0, it_Operation = [], it_HTTPStatus = 0, it_ServiceCode = []\<rparr>"

definition demo_job :: "string \<Rightarrow> int \<Rightarrow> job_item \<Rightarrow> deletion_job" where
  "demo_job st q it = \<lparr>jb_ID = ''j'', jb_AdminID = 1, jb_RequestID = [], jb_Status = st, jb_Items = [it],
     jb_CreatedAt = 0, jb_UpdatedAt = 0, jb_QueueVersion = q, jb_PasswordVersion = 1, jb_Username = [], jb_IP = [],
     jb_CancelRequested = False\<rparr>"

definition demo_work :: "string \<Rightarrow> work_status \<Rightarrow> string \<Rightarrow> int \<Rightarrow> deletion_work" where
  "demo_work wid st tok att = \<lparr>dw_ID = wid, dw_Sequence = 1, dw_AccountID = 1, dw_AliasID = 1, dw_Address = ''a'',
     dw_AccountEmail = [], dw_AppleID = [], dw_AppleSubject = ''s'', dw_Status = st, dw_ClaimToken = tok,
     dw_Reconcile = False, dw_NextRunAt = - 1, dw_WaitReason = [], dw_Operation = [], dw_Used = 0,
     dw_Limit = 0, dw_Attempts = att, dw_HTTPStatus = 0, dw_ServiceCode = [], dw_Deleted = False, dw_Code = [],
     dw_Message = [], dw_LocalRetained = False, dw_CreatedAt = 0, dw_UpdatedAt = 0\<rparr>"

definition demo_tables :: "string \<Rightarrow> job_item \<Rightarrow> deletion_work \<Rightarrow> deletion_db" where
  "demo_tables st it w = \<lparr>dd_admins = demo_admin_db [] 1, dd_sequence = 1,
     dd_jobs = [\<lparr>jr_ID = ''j'', jr_AdminID = 1, jr_RequestID = [], jr_Status = st, jr_Items = [it],
       jr_CreatedAt = 0, jr_UpdatedAt = 0\<rparr>],
     dd_metas = [\<lparr>mt_AdminID = 1, mt_JobID = ''j'', mt_QueueVersion = 1, mt_PasswordVersion = 1, mt_Username = [],
       mt_IP = [], mt_Cancel = False\<rparr>],
     dd_works = [w],
     dd_links = [\<lparr>lk_AdminID = 1, lk_JobID = ''j'', lk_AliasID = 1, lk_WorkID = dw_ID w, lk_Active = True,
       lk_Audited = False\<rparr>],
     dd_clearances = [], dd_audit = \<lparr>adb_next = 1, adb_rows = []\<rparr>\<rparr>"

definition demo_empty :: deletion_db where "demo_empty = empty_deletion_db (demo_admin_db [] 1)"

definition demo_queued :: deletion_db where
  "demo_queued = demo_tables ''queued'' (demo_entry demo_id WsPending (- 1) []) (demo_work demo_id WsPending [] 0)"

definition demo_claimed :: deletion_db where
  "demo_claimed = demo_tables ''running'' (demo_entry demo_id WsRunning (- 1) []) (demo_work demo_id WsRunning demo_id 1)"

definition demo_waiting :: deletion_db where
  "demo_waiting = demo_tables ''running'' (demo_entry demo_id WsWaiting (- 1) []) (demo_work demo_id WsWaiting [] 1)"

definition demo_recovered :: deletion_db where
  "demo_recovered = demo_tables ''queued'' (demo_entry demo_id WsPending zero_time ''reconcile'')
     ((demo_work demo_id WsPending [] 1)\<lparr>dw_Reconcile := True, dw_NextRunAt := 0, dw_WaitReason := ''reconcile''\<rparr>)"

lemma demo_id_nonempty [simp]: "demo_id \<noteq> []"
  by (simp add: demo_id_def newDeletionID_def Let_def)

lemmas demo_queue_defs = demo_entry_def demo_job_def demo_work_def demo_tables_def demo_empty_def demo_queued_def demo_claimed_def
  demo_waiting_def demo_recovered_def is_zero_time_def

lemma demo_queue_trim [simp]: "trim_space ''a'' = ''a''" "trim_space ''s'' = ''s''" "trim_space ''j'' = ''j''"
   "trim_space ''queued'' = ''queued''" "trim_space ''running'' = ''running''" 
   "trim_space ''completed'' = ''completed''" 
  by (simp_all add: text_simps is_space_def)
lemma sanitize_ascii: "ascii s \<Longrightarrow> CHR 0x00 \<notin> set s \<Longrightarrow> sanitizePostgresText s = s"
  by (simp add: sanitizePostgresText_def to_valid_utf8_def valid_utf8_ascii to_valid_utf8_valid replace_byte_absent)

lemma truncate_Nil [simp]: "truncate_text [] n = []"
  by (simp add: truncate_text_def sanitize_ascii string_of_runes_def)

lemma demo_text [simp]:
  "sanitizePostgresText ''a'' = ''a''" "sanitizePostgresText ''s'' = ''s''" "to_lower ''a'' = ''a''" "to_lower ''s'' = ''s''"
  "rune_count ''a'' = 1" "rune_count ''j'' = 1" "valid_utf8 ''j''"
  by (simp_all add: sanitize_ascii valid_utf8_ascii rune_count_def runes_ascii_Cons to_lower_def lower_byte_def)

lemmas demo_ops = 
    normalizeAliasDeletionJob_def demo_queue_defs Let_def job_id_ok_def job_status_defs
    job_status_ok_def normalize_item_def maxAliasDeletionJobItems_def getDeletionJobTx_def empty_deletion_db_def demo_admin_db_def find_admin_def
    pruneDeletionSubscriptionsTx_def cancelUnwantedDeletionWorkTx_def find_by_Cons 
    deletionWorkValues_def subscribe_item_def applyDeletionWorkToItem_def deletionJobStatus_def deletionWorkTerminal_def
    run_tx_def to_timestamp_def wrap64_def

lemmas demo_publish = publishDeletionWorkTx_def updateDeletionWorkTx_def publish_to_job_def lk_job_def update_where_Cons
  jr_key_def job_of_row_def hydrateDeletionJobMetadata_def mt_key_def snapshot_and_audit_def writeDeletionSnapshotTx_def
  lk_key_def scanAliasDeletionWork_def stale_meta_def job_active_def unwanted_def 
  work_idle_def version_matches_def work_active_def zero_time_def

lemmas demo_audit = auditDeletionItemsTx_def audit_item_def

lemma works_audit [simp]: "dd_works (auditDeletionItemsTx now job db) = dd_works db"
  using core_audit [of now job db] unfolding core_eq by blast

lemma demo_enqueue:
  "EnqueueAliasDeletionJob demo_empty (demo_job [] 0 (demo_entry [] (WsOther []) 0 [])) [demo_work [] WsPending [] 0]
     [demo_block] 0 = (Inr (demo_job ''queued'' 1 (demo_entry demo_id WsPending (- 1) [])), demo_queued)"
  by (simp add: EnqueueAliasDeletionJob_def demo_ops enqueue_new_def active_work_for_def target_usable_def
      normalize_target_def new_work_def insertDeletionWorkTx_def insert_job_row_def row_of_job_def insert_meta_def
      insert_link_def demo_id_def [symmetric] zero_time_def)

lemma demo_claim:
  "ClaimAliasDeletionWork demo_queued demo_id (Some demo_block) 0 0 =
    (Inr (demo_work demo_id WsRunning demo_id 1), demo_claimed)"
  by (simp add: ClaimAliasDeletionWork_def claim_tx_def runnable_def queue_head_def demo_ops demo_publish
      demo_id_def [symmetric] demo_audit)

lemma demo_save:
  "SaveAliasDeletionWork demo_claimed (demo_work demo_id WsWaiting demo_id 1) 0 = (Inr (), demo_waiting)"
  by (simp add: SaveAliasDeletionWork_def known_status_def find_work_def fenced_def merge_result_def
      deletionWorkWantedTx_def demo_ops demo_publish demo_audit)

lemma demo_finish:
  "\<exists>db'. SaveAliasDeletionWork demo_claimed (demo_work demo_id WsSucceeded demo_id 1) 0 = (Inr (), db') \<and>
    dd_works db' = [demo_work demo_id WsSucceeded [] 1]"
  apply (simp add: SaveAliasDeletionWork_def known_status_def find_work_def fenced_def merge_result_def
      deletionWorkWantedTx_def deactivate_links_def demo_ops demo_publish)
  done

lemma demo_recover:
  "RecoverAliasDeletionQueue demo_claimed 0 = (Inr (), demo_recovered)"
  by (simp add: RecoverAliasDeletionQueue_def recover_work_def interrupt_legacy_jobs_def queue_versioned_def
      demo_ops demo_publish demo_audit)

lemma demo_cancel: "\<exists>job db'. CancelAliasDeletionJob demo_claimed ''j'' 1 0 = (Inr job, db')"
  by (simp add: CancelAliasDeletionJob_def cancelDeletionJobTx_def deactivate_links_def cancel_item_def
      find_work_def demo_ops demo_publish demo_audit)

lemma demo_get: "getDeletionJobTx demo_claimed ''j'' 1 = Some (demo_job ''running'' 1 (demo_entry demo_id WsRunning (- 1) []))"
  by (simp add: demo_ops demo_publish)

lemma demo_heads: "ListAliasDeletionQueueHeads demo_queued 0 0 = (Inr [demo_work demo_id WsPending [] 0], demo_queued)"
  by (simp add: ListAliasDeletionQueueHeads_def runnable_def queue_head_def demo_ops demo_publish)

lemma demo_works:
  "dd_works demo_queued = [demo_work demo_id WsPending [] 0]" "dd_works demo_claimed = [demo_work demo_id WsRunning demo_id 1]"
  by (simp_all add: demo_queued_def demo_claimed_def demo_tables_def)

lemma demo_empty_reachable: "queue_reachable demo_empty"
  unfolding demo_empty_def by (rule qq_start [OF demo_admin_inv])

lemma demo_queued_reachable: "queue_reachable demo_queued"
  using qq_step [OF demo_empty_reachable qu_enqueue] demo_enqueue by (metis snd_conv)

lemma demo_claimed_reachable: "queue_reachable demo_claimed"
  using qq_step [OF demo_queued_reachable qu_claim] demo_claim by (metis snd_conv)

lemma queue_fifo_one_running_witness:
  "dw_Sequence (demo_work demo_id WsRunning demo_id 1) \<le> dw_Sequence (demo_work demo_id WsRunning demo_id 1)"
  using queue_fifo_one_running [OF demo_claimed_reachable, of "demo_work demo_id WsRunning demo_id 1"
      "demo_work demo_id WsRunning demo_id 1"]
  by (simp add: demo_works work_active_def demo_work_def)

lemma claim_excludes_subject_witness: "\<exists>e. fst (ClaimAliasDeletionWork demo_claimed demo_id (Some demo_block) 0 0) = Inl e"
  using claim_excludes_subject [OF demo_queued_reachable demo_claim, of "demo_work demo_id WsRunning demo_id 1"
      "Some demo_block" 0 0]
  by (simp add: demo_works) (simp add: demo_work_def)

lemma finished_work_is_final_witness:
  "\<exists>db. demo_work demo_id WsSucceeded [] 1 \<in> set (dd_works (snd (RecoverAliasDeletionQueue db 0)))"
proof -
  obtain db where f: "SaveAliasDeletionWork demo_claimed (demo_work demo_id WsSucceeded demo_id 1) 0 = (Inr (), db)"
    and w: "dd_works db = [demo_work demo_id WsSucceeded [] 1]" using demo_finish by blast
  have "queue_reachable db" using qq_step [OF demo_claimed_reachable qu_save] f by (metis snd_conv)
  then have "demo_work demo_id WsSucceeded [] 1 \<in> set (dd_works (snd (RecoverAliasDeletionQueue db 0)))"
    by (rule finished_work_is_final [OF _ r_into_rtranclp, OF _ qu_recover])
       (simp_all add: w deletionWorkTerminal_def demo_work_def)
  then show ?thesis ..
qed

lemma one_active_record_per_mailbox_witness:
  "demo_work demo_id WsPending [] 0 = demo_work demo_id WsPending [] 0 \<and> dd_works demo_queued \<noteq> []"
  using one_active_record_per_mailbox [OF demo_queued_reachable, of "demo_work demo_id WsPending [] 0"
      "demo_work demo_id WsPending [] 0"]
  by (simp add: demo_works)

lemma recovery_fences_old_workers_witness: "fst (SaveAliasDeletionWork demo_recovered (demo_work demo_id WsSucceeded demo_id 1) 0) \<noteq> Inr ()"
  using recovery_fences_old_workers [OF demo_claimed_reachable demo_recover] by blast

lemma enqueue_idempotent_witness:
  "snd (EnqueueAliasDeletionJob demo_queued (demo_job [] 0 (demo_entry [] (WsOther []) 0 [])) [] [] 5) = demo_queued"
proof -
  have "\<exists>clean. normalizeAliasDeletionJob (default_status (demo_job [] 0 (demo_entry [] (WsOther []) 0 []))) = Inr clean \<and>
      jb_ID clean = ''j'' \<and> jb_AdminID clean = 1"
    by (simp add: default_status_def demo_ops)
  then obtain clean where n: "normalizeAliasDeletionJob (default_status (demo_job [] 0 (demo_entry [] (WsOther []) 0 []))) = Inr clean"
    and c: "jb_ID clean = ''j''" "jb_AdminID clean = 1" by blast
  show ?thesis using enqueue_idempotent [OF demo_enqueue n, of "[]" "[]" 5] c by (auto simp: demo_job_def)
qed

lemma enqueue_subscribes_items_witness: "keeps (dd_works demo_empty) (dd_works demo_queued)"
proof -
  have "\<exists>clean. normalizeAliasDeletionJob (default_status (demo_job [] 0 (demo_entry [] (WsOther []) 0 []))) = Inr clean \<and>
      getDeletionJobTx demo_empty (jb_ID clean) (jb_AdminID clean) = None"
    by (simp add: default_status_def demo_ops)
  then obtain clean where n: "normalizeAliasDeletionJob (default_status (demo_job [] 0 (demo_entry [] (WsOther []) 0 []))) = Inr clean"
    "getDeletionJobTx demo_empty (jb_ID clean) (jb_AdminID clean) = None" by blast
  show ?thesis using enqueue_subscribes_items [OF demo_empty_reachable demo_enqueue n] by (rule conjunct1)
qed


lemma heads_one_per_subject_witness: "distinct (map dw_AppleSubject [demo_work demo_id WsPending [] 0])"
  using heads_one_per_subject [OF demo_queued_reachable demo_heads] by blast

lemma cancel_stops_unstarted_witness:
  "demo_work demo_id WsRunning demo_id 1 \<in> set (dd_works (snd (CancelAliasDeletionJob demo_claimed ''j'' 1 0)))"
proof -
  obtain job db where c: "CancelAliasDeletionJob demo_claimed ''j'' 1 0 = (Inr job, db)" using demo_cancel by blast
  show ?thesis
    using cancel_stops_unstarted [OF demo_claimed_reachable demo_get _ _ c]
    by (simp add: c demo_works demo_job_def job_active_def job_status_defs) (simp add: demo_work_def)
qed

lemma deletion_id_is_uuid4_witness: "demo_id ! 14 = CHR ''4''"
  using deletion_id_is_uuid4 [of demo_block] by (simp add: demo_id_def demo_block_def)

end
