(* ===== verification/Otp.thy ===== *)
theory Otp
  imports Domain
begin

section \<open>One-time codes in messages (internal/mail/otp.go)\<close>

text \<open>
  \<open>ExtractOTP\<close> scans the subject, the text body and the text of the HTML body for isolated
  six-digit codes and returns the one nearest to a keyword. A slice expression that is out of range
  is a run-time panic, which is \<open>None\<close> here. The tokenizer of golang.org/x/net/html is not part of
  the sources: its tokens are an argument, as are \<open>html.UnescapeString\<close> and the Unicode tables of
  letters and numbers from U+0080 on.
\<close>

subsection \<open>Keywords\<close>

definition otpKeywords :: "string list" where
  "otpKeywords =
    [''verification code'', ''security code'', ''one-time'', ''one time'', ''otp'', ''verify'', ''code'',
     [CHR 0xE9, CHR 0xAA, CHR 0x8C, CHR 0xE8, CHR 0xAF, CHR 0x81, CHR 0xE7, CHR 0xA0, CHR 0x81],
     [CHR 0xE6, CHR 0xA0, CHR 0xA1, CHR 0xE9, CHR 0xAA, CHR 0x8C, CHR 0xE7, CHR 0xA0, CHR 0x81],
     [CHR 0xE5, CHR 0x8A, CHR 0xA8, CHR 0xE6, CHR 0x80, CHR 0x81, CHR 0xE7, CHR 0xA0, CHR 0x81],
     [CHR 0xE5, CHR 0xAE, CHR 0x89, CHR 0xE5, CHR 0x85, CHR 0xA8, CHR 0xE7, CHR 0xA0, CHR 0x81],
     [CHR 0xE4, CHR 0xB8, CHR 0x80, CHR 0xE6, CHR 0xAC, CHR 0xA1, CHR 0xE6, CHR 0x80, CHR 0xA7,
      CHR 0xE5, CHR 0xAF, CHR 0x86, CHR 0xE7, CHR 0xA0, CHR 0x81]]"

text \<open>The gap between a keyword and the candidate; zero when they touch or overlap.\<close>

definition keyword_distance :: "nat \<Rightarrow> nat \<Rightarrow> nat \<Rightarrow> nat \<Rightarrow> nat" where
  "keyword_distance start end cstart cend =
     (if end < cstart then cstart - end else if cend < start then start - cend else 0)"

definition closer :: "nat \<Rightarrow> nat option \<Rightarrow> nat option" where
  "closer d best = (case best of None \<Rightarrow> Some d | Some b \<Rightarrow> if d < b then Some d else Some b)"

text \<open>The inner loop over the occurrences of one keyword; \<open>best\<close> is \<open>(best, found)\<close>.\<close>

function keyword_scan :: "string \<Rightarrow> string \<Rightarrow> nat \<Rightarrow> nat \<Rightarrow> nat \<Rightarrow> nat option \<Rightarrow> nat option" where
  "keyword_scan window keyword cstart cend offset best =
     (if length window < offset then best
      else (case str_index (drop offset window) keyword of
              None \<Rightarrow> best
            | Some index \<Rightarrow>
                let start = offset + index; end = start + length keyword in
                keyword_scan window keyword cstart cend (start + 1)
                  (closer (keyword_distance start end cstart cend) best)))"
  by pat_completeness auto
termination
  by (relation "measure (\<lambda>(w, k, a, b, off, best). Suc (length w) - off)") auto

declare keyword_scan.simps [simp del]

definition nearestOTPKeyword :: "string \<Rightarrow> nat \<Rightarrow> nat \<Rightarrow> nat option" where
  "nearestOTPKeyword window cstart cend =
     fold (\<lambda>keyword best. keyword_scan window keyword cstart cend 0 best) otpKeywords None"

subsection \<open>Candidates\<close>

definition digit :: "byte \<Rightarrow> bool" where
  "digit c \<longleftrightarrow> 48 \<le> byte_val c \<and> byte_val c \<le> 57"

text \<open>The end of the digit groups that start at an index: digits, and hyphens before a digit.\<close>

fun digit_groups :: "string \<Rightarrow> nat" where
  "digit_groups [] = 0"
| "digit_groups (c # s) =
     (if digit c \<or> (c = CHR ''-'' \<and> s \<noteq> [] \<and> digit (hd s)) then Suc (digit_groups s) else 0)"

text \<open>\<open>unicode.IsLetter(r) || unicode.IsNumber(r)\<close>; \<open>uni\<close> is the table from U+0080 on.\<close>

definition letter_or_number :: "(rune \<Rightarrow> bool) \<Rightarrow> rune \<Rightarrow> bool" where
  "letter_or_number uni r =
     (if r < 128 then (48 \<le> r \<and> r \<le> 57) \<or> (65 \<le> r \<and> r \<le> 90) \<or> (97 \<le> r \<and> r \<le> 122) else uni r)"

definition adjacentLetterOrNumber :: "(rune \<Rightarrow> bool) \<Rightarrow> string \<Rightarrow> nat \<Rightarrow> nat \<Rightarrow> bool" where
  "adjacentLetterOrNumber uni source start end \<longleftrightarrow>
     (start > 0 \<and> letter_or_number uni (fst (decode_last (take start source)))) \<or>
     (end < length source \<and> letter_or_number uni (fst (decode_rune (drop end source))))"

record otp_candidate =
  oc_value :: string
  oc_score :: int
  oc_order :: nat

text \<open>
  The score of the candidate at \<open>[start, end)\<close> of a source; \<open>lower[windowStart:windowEnd]\<close> panics
  unless \<open>windowStart \<le> windowEnd\<close>.
\<close>

definition otp_score :: "nat \<Rightarrow> string \<Rightarrow> nat \<Rightarrow> nat \<Rightarrow> int option" where
  "otp_score sourceIndex lower start end =
     (let windowStart = start - 64;
          windowEnd = min (end + 64) (length lower)
      in if windowEnd < windowStart then None
         else (let window = drop windowStart (take windowEnd lower);
                   score = 100 - int sourceIndex
               in Some (case nearestOTPKeyword window (start - windowStart) (end - windowStart) of
                          None \<Rightarrow> score
                        | Some distance \<Rightarrow> score + (10000 - int (min distance 9000)))))"

definition better :: "otp_candidate \<Rightarrow> otp_candidate \<Rightarrow> bool" where
  "better candidate best \<longleftrightarrow>
     oc_score candidate > oc_score best \<or>
     (oc_score candidate = oc_score best \<and> oc_order candidate < oc_order best)"

text \<open>The scan of one source; the state is the index, the order counter and the best candidate.\<close>

function otp_scan ::
  "(rune \<Rightarrow> bool) \<Rightarrow> nat \<Rightarrow> string \<Rightarrow> nat \<Rightarrow> nat \<times> otp_candidate \<Rightarrow> (nat \<times> otp_candidate) option" where
  "otp_scan uni sourceIndex source index (order, best) =
     (if length source \<le> index then Some (order, best)
      else if \<not> digit (source ! index) then
        otp_scan uni sourceIndex source (index + max 1 (snd (decode_rune (drop index source)))) (order, best)
      else
        (let start = index;
             end = start + max 1 (digit_groups (drop start source));
             value = take (end - start) (drop start source)
         in if \<not> IsSixDigitOTP value \<or> adjacentLetterOrNumber uni source start end then
              otp_scan uni sourceIndex source end (order, best)
            else
              (case otp_score sourceIndex (to_lower source) start end of
                 None \<Rightarrow> None
               | Some score \<Rightarrow>
                   (let candidate = \<lparr>oc_value = value, oc_score = score, oc_order = order\<rparr> in
                    otp_scan uni sourceIndex source end
                      (order + 1, if better candidate best then candidate else best)))))"
  by pat_completeness auto
termination
  by (relation "measure (\<lambda>(u, k, s, i, st). length s - i)") (auto simp: Let_def)

declare otp_scan.simps [simp del]

fun otp_sources ::
  "(rune \<Rightarrow> bool) \<Rightarrow> nat \<Rightarrow> string list \<Rightarrow> nat \<times> otp_candidate \<Rightarrow> (nat \<times> otp_candidate) option" where
  "otp_sources uni k [] st = Some st"
| "otp_sources uni k (s # ss) st =
     (case otp_scan uni k s 0 st of None \<Rightarrow> None | Some st' \<Rightarrow> otp_sources uni (Suc k) ss st')"

subsection \<open>The text of an HTML body\<close>

datatype html_token = HtmlStart string | HtmlEnd string | HtmlText string | HtmlOther

definition ignored_tag :: "string \<Rightarrow> bool" where
  "ignored_tag name \<longleftrightarrow>
     to_lower name \<in> {''script'', ''style'', ''head'', ''template'', ''svg'', ''canvas''}"

fun html_text :: "nat \<Rightarrow> html_token list \<Rightarrow> string" where
  "html_text depth [] = []"
| "html_text depth (HtmlStart name # ts) = html_text (if ignored_tag name then depth + 1 else depth) ts"
| "html_text depth (HtmlEnd name # ts) =
     html_text (if ignored_tag name \<and> depth > 0 then depth - 1 else depth) ts"
| "html_text depth (HtmlText text # ts) =
     (if depth = 0 then '' '' @ text else []) @ html_text depth ts"
| "html_text depth (HtmlOther # ts) = html_text depth ts"

text \<open>\<open>strings.Fields\<close>; \<open>cur\<close> is the field being read.\<close>

function go_fields :: "string \<Rightarrow> string \<Rightarrow> string list" where
  "go_fields cur s =
     (if s = [] then (if cur = [] then [] else [cur])
      else if is_space (fst (decode_rune s)) then
        (if cur = [] then [] else [cur]) @ go_fields [] (drop (snd (decode_rune s)) s)
      else go_fields (cur @ take (snd (decode_rune s)) s) (drop (snd (decode_rune s)) s))"
  by pat_completeness auto
termination
proof (relation "measure (\<lambda>(cur, s). length s)", simp, goal_cases)
  case (1 cur s)
  then show ?case using decode_rune_width(1) [of s] by auto
next
  case (2 cur s)
  then show ?case using decode_rune_width(1) [of s] by auto
qed

declare go_fields.simps [simp del]

definition readableHTMLText :: "(string \<Rightarrow> html_token list) \<Rightarrow> (string \<Rightarrow> string) \<Rightarrow> string \<Rightarrow> string" where
  "readableHTMLText tokens unescape source = join '' '' (go_fields [] (unescape (html_text 0 (tokens source))))"

definition otp_texts ::
  "(string \<Rightarrow> html_token list) \<Rightarrow> (string \<Rightarrow> string) \<Rightarrow> string \<Rightarrow> string \<Rightarrow> string \<Rightarrow> string list" where
  "otp_texts tokens unescape subject textBody htmlBody =
     [subject, textBody] @
     (if trim_space htmlBody \<noteq> [] then [readableHTMLText tokens unescape htmlBody] else [])"

definition no_candidate :: otp_candidate where
  "no_candidate = \<lparr>oc_value = [], oc_score = - 1, oc_order = 0\<rparr>"

definition ExtractOTP ::
  "(rune \<Rightarrow> bool) \<Rightarrow> (string \<Rightarrow> html_token list) \<Rightarrow> (string \<Rightarrow> string) \<Rightarrow> string \<Rightarrow> string \<Rightarrow> string \<Rightarrow> string option" where
  "ExtractOTP uni tokens unescape subject textBody htmlBody =
     map_option (\<lambda>(order, best). oc_value best)
       (otp_sources uni 0 (otp_texts tokens unescape subject textBody htmlBody) (0, no_candidate))"

subsection \<open>Which positions are scanned\<close>

text \<open>
  A code occurrence is found where a group of digits starts: at a digit with no digit before it, and
  not behind a hyphen that links it to a digit.
\<close>

definition group_start :: "string \<Rightarrow> nat \<Rightarrow> bool" where
  "group_start s a \<longleftrightarrow>
     a < length s \<and> digit (s ! a) \<and>
     (a = 0 \<or> \<not> digit (s ! (a - 1)) \<and> \<not> (s ! (a - 1) = CHR ''-'' \<and> 2 \<le> a \<and> digit (s ! (a - 2))))"

definition group_end :: "string \<Rightarrow> nat \<Rightarrow> nat" where
  "group_end s a = a + digit_groups (drop a s)"

definition group_text :: "string \<Rightarrow> nat \<Rightarrow> string" where
  "group_text s a = take (digit_groups (drop a s)) (drop a s)"

definition code_at :: "(rune \<Rightarrow> bool) \<Rightarrow> string \<Rightarrow> nat \<Rightarrow> bool" where
  "code_at uni s a \<longleftrightarrow>
     group_start s a \<and> IsSixDigitOTP (group_text s a) \<and> \<not> adjacentLetterOrNumber uni s a (group_end s a)"

definition linking :: "string \<Rightarrow> nat \<Rightarrow> bool" where
  "linking s i \<longleftrightarrow>
     i < length s \<and> (digit (s ! i) \<or> (s ! i = CHR ''-'' \<and> i + 1 < length s \<and> digit (s ! (i + 1))))"

lemma digit_not_hyphen [simp]: "\<not> digit (CHR ''-'')"
  by (simp add: digit_def)

lemma digit_groups_Cons: "digit_groups (drop i s) = (if linking s i then Suc (digit_groups (drop (Suc i) s)) else 0)"
proof (cases "i < length s")
  case True
  then have "drop i s = s ! i # drop (Suc i) s" by (simp add: Cons_nth_drop_Suc)
  moreover have "drop (Suc i) s \<noteq> [] \<longleftrightarrow> i + 1 < length s" by auto
  moreover have "i + 1 < length s \<Longrightarrow> hd (drop (Suc i) s) = s ! (i + 1)" by (simp add: hd_drop_conv_nth)
  ultimately show ?thesis using True by (auto simp: linking_def)
qed (simp add: linking_def)

lemma linking_in_group: "j < digit_groups (drop i s) \<Longrightarrow> linking s (i + j)"
proof (induction j arbitrary: i)
  case 0
  then show ?case by (subst (asm) digit_groups_Cons) (auto split: if_splits)
next
  case (Suc j)
  then have "j < digit_groups (drop (Suc i) s)"
    by (subst (asm) digit_groups_Cons) (auto split: if_splits)
  from Suc.IH [OF this] show ?case by simp
qed

lemma not_linking_after: "\<not> linking s (i + digit_groups (drop i s))"
proof (induction "digit_groups (drop i s)" arbitrary: i)
  case 0
  then show ?case using digit_groups_Cons [of i s] by (auto split: if_splits)
next
  case (Suc n)
  then have "n = digit_groups (drop (Suc i) s)"
    using digit_groups_Cons [of i s] by (auto split: if_splits)
  from Suc(1) [OF this] have "\<not> linking s (Suc i + digit_groups (drop (Suc i) s))" .
  moreover have "digit_groups (drop i s) = Suc (digit_groups (drop (Suc i) s))"
    using Suc(2) \<open>n = _\<close> by simp
  ultimately show ?case by simp
qed

lemma digit_groups_le: "i \<le> length s \<Longrightarrow> i + digit_groups (drop i s) \<le> length s"
proof (induction "digit_groups (drop i s)" arbitrary: i)
  case 0
  then show ?case by simp
next
  case (Suc n)
  then have "n = digit_groups (drop (Suc i) s)" "i < length s"
    using digit_groups_Cons [of i s] by (auto simp: linking_def split: if_splits)
  from Suc(1) [OF this(1)] this Suc(2) show ?case by simp
qed

text \<open>The bytes of a wide rune after the first are not digits and not hyphens.\<close>

lemma decode_vals_cont:
  "Suc j < snd (decode_vals bs) \<Longrightarrow> 128 \<le> bs ! Suc j"
  by (cases bs)
     (auto simp: cont_byte_def second_ok_def less_Suc_eq nth_Cons' split: list.splits if_splits)

lemma decode_rune_cont:
  assumes "0 < j" and "j < snd (decode_rune s)" and "s \<noteq> []"
  shows "128 \<le> byte_val (s ! j)"
proof -
  obtain i where i: "j = Suc i" using assms(1) by (cases j) auto
  have len: "j < length (take 4 s)" using assms(2) decode_vals_width [of "map byte_val (take 4 s)"] assms(3)
    by (simp add: decode_rune_def)
  have "128 \<le> map byte_val (take 4 s) ! Suc i"
    by (rule decode_vals_cont) (use assms(2) i in \<open>simp add: decode_rune_def\<close>)
  then show ?thesis using i len by simp
qed

definition boundary :: "string \<Rightarrow> nat \<Rightarrow> bool" where
  "boundary s i \<longleftrightarrow>
     (0 < i \<and> linking s i \<longrightarrow> \<not> digit (s ! (i - 1))) \<and> (i < length s \<and> digit (s ! i) \<longrightarrow> group_start s i)"

lemma boundary_0 [simp]: "boundary s 0"
  by (simp add: boundary_def group_start_def)

lemma boundary_after_group: "boundary s (i + digit_groups (drop i s))"
  using not_linking_after [of s i] by (auto simp: boundary_def linking_def)

lemma skipped_not_digit:
  assumes "i < length s" and "\<not> digit (s ! i)" and "i \<le> j" and "j < i + max 1 (snd (decode_rune (drop i s)))"
    and "j < length s"
  shows "\<not> digit (s ! j)" and "j \<noteq> i \<Longrightarrow> s ! j \<noteq> CHR ''-''"
proof -
  have "128 \<le> byte_val (s ! j)" if "j \<noteq> i"
  proof -
    have "128 \<le> byte_val (drop i s ! (j - i))"
      by (rule decode_rune_cont) (use assms that in auto)
    then show ?thesis using assms(3) assms(1) by simp
  qed
  then show "\<not> digit (s ! j)" "j \<noteq> i \<Longrightarrow> s ! j \<noteq> CHR ''-''"
    using assms(2) by (force simp: digit_def)+
qed

lemma boundary_after_skip:
  assumes "boundary s i" and "i < length s" and "\<not> digit (s ! i)"
    and w_def: "w = max 1 (snd (decode_rune (drop i s)))"
  shows "boundary s (i + w)"
proof -
  have w: "1 \<le> w" by (simp add: w_def)
  have prev: "\<not> digit (s ! (i + w - 1))" if "i + w < length s"
    by (rule skipped_not_digit(1) [OF assms(2,3)]) (use w that w_def in auto)
  have "group_start s (i + w)" if l: "i + w < length s" and d: "digit (s ! (i + w))"
  proof -
    have "\<not> (s ! (i + w - 1) = CHR ''-'' \<and> 2 \<le> i + w \<and> digit (s ! (i + w - 2)))"
    proof (cases "w = 1")
      case True
      show ?thesis
      proof
        assume a: "s ! (i + w - 1) = CHR ''-'' \<and> 2 \<le> i + w \<and> digit (s ! (i + w - 2))"
        then have "linking s i" "0 < i" using l d assms(2) True by (auto simp: linking_def)
        then show False using assms(1) a True by (auto simp: boundary_def)
      qed
    next
      case False
      have "s ! (i + w - 1) \<noteq> CHR ''-''"
        by (rule skipped_not_digit(2) [OF assms(2,3)]) (use l w False w_def in auto)
      then show ?thesis by blast
    qed
    then show ?thesis using l d prev w by (auto simp: group_start_def)
  qed
  then show ?thesis using prev by (auto simp: boundary_def linking_def)
qed

lemma no_start_in_group:
  assumes "digit (s ! i)" and "i < j" and "j < i + digit_groups (drop i s)"
  shows "\<not> group_start s j"
proof
  assume g: "group_start s j"
  have link: "linking s (j - 1)" using linking_in_group [of "j - 1 - i" i s] assms by auto
  have "\<not> digit (s ! (j - 1))" using g assms(2) by (auto simp: group_start_def)
  then have h: "s ! (j - 1) = CHR ''-''" using link by (simp add: linking_def)
  then have "j - 1 \<noteq> i" using assms(1) by auto
  then have j: "i \<le> j - 2" "2 \<le> j" using assms(2) by auto
  then have "linking s (j - 2)" using linking_in_group [of "j - 2 - i" i s] assms by auto
  moreover have "Suc (j - 2) = j - 1" using j(2) by simp
  ultimately have "digit (s ! (j - 2))" using h by (auto simp: linking_def)
  then show False using g h j by (auto simp: group_start_def)
qed

subsection \<open>The scan as a fold over the occurrences\<close>

fun fold_opt :: "('a \<Rightarrow> 'b \<Rightarrow> 'b option) \<Rightarrow> 'a list \<Rightarrow> 'b \<Rightarrow> 'b option" where
  "fold_opt f [] st = Some st"
| "fold_opt f (x # xs) st = (case f x st of None \<Rightarrow> None | Some st' \<Rightarrow> fold_opt f xs st')"

lemma fold_opt_append:
  "fold_opt f (xs @ ys) st = (case fold_opt f xs st of None \<Rightarrow> None | Some st' \<Rightarrow> fold_opt f ys st')"
  by (induction xs arbitrary: st) (auto split: option.splits)

definition occurrence_score :: "string list \<Rightarrow> nat \<times> nat \<Rightarrow> int option" where
  "occurrence_score sources = (\<lambda>(k, a). otp_score k (to_lower (sources ! k)) a (group_end (sources ! k) a))"

definition occurrence_text :: "string list \<Rightarrow> nat \<times> nat \<Rightarrow> string" where
  "occurrence_text sources = (\<lambda>(k, a). group_text (sources ! k) a)"

text \<open>All code occurrences, in the order of the sources and of the positions in each.\<close>

definition occurrences :: "(rune \<Rightarrow> bool) \<Rightarrow> string list \<Rightarrow> (nat \<times> nat) list" where
  "occurrences uni sources =
     concat (map (\<lambda>k. map (Pair k) (filter (code_at uni (sources ! k)) [0 ..< length (sources ! k)]))
       [0 ..< length sources])"

definition weigh ::
  "int option \<Rightarrow> string \<Rightarrow> nat \<times> otp_candidate \<Rightarrow> (nat \<times> otp_candidate) option" where
  "weigh sc v = (\<lambda>(order, best).
     (case sc of
        None \<Rightarrow> None
      | Some score \<Rightarrow>
          (let candidate = \<lparr>oc_value = v, oc_score = score, oc_order = order\<rparr> in
           Some (order + 1, if better candidate best then candidate else best))))"

definition weigh_at :: "nat \<Rightarrow> string \<Rightarrow> nat \<Rightarrow> nat \<times> otp_candidate \<Rightarrow> (nat \<times> otp_candidate) option" where
  "weigh_at k s a = weigh (otp_score k (to_lower s) a (group_end s a)) (group_text s a)"

lemma filter_upt_skip:
  assumes "i \<le> j" and "j \<le> n" and "\<And>x. i \<le> x \<Longrightarrow> x < j \<Longrightarrow> \<not> P x"
  shows "filter P [i ..< n] = filter P [j ..< n]"
proof -
  have "[i ..< n] = [i ..< j] @ [j ..< n]" using upt_add_eq_append [of i j "n - j"] assms(1,2) by simp
  moreover have "filter P [i ..< j] = []" using assms(3) by (auto simp: filter_empty_conv)
  ultimately show ?thesis by simp
qed

lemma filter_upt_above: "n \<le> i \<Longrightarrow> filter P [i ..< n] = []"
  by simp

lemma otp_scan_fold:
  "boundary s i \<Longrightarrow>
   otp_scan uni k s i st = fold_opt (weigh_at k s) (filter (code_at uni s) [i ..< length s]) st"
proof (induction "length s - i" arbitrary: i st rule: less_induct)
  case less
  obtain order best where st: "st = (order, best)" by (cases st)
  show ?case
  proof (cases "i < length s")
    case False
    then show ?thesis unfolding st by (subst otp_scan.simps) simp
  next
    case i: True
    then have il: "\<not> length s \<le> i" by simp
    show ?thesis
    proof (cases "digit (s ! i)")
      case False
      define w where "w = max 1 (snd (decode_rune (drop i s)))"
      have w1: "1 \<le> w" by (simp add: w_def)
      have wl: "i + w \<le> length s" using decode_rune_width(2) [of "drop i s"] i by (simp add: w_def max_def) linarith
      have "otp_scan uni k s i st = otp_scan uni k s (i + w) st"
        unfolding st by (subst otp_scan.simps) (simp add: il False w_def)
      also have "\<dots> = fold_opt (weigh_at k s) (filter (code_at uni s) [i + w ..< length s]) st"
        by (rule less(1)) (use i w1 boundary_after_skip [OF less(2) i False w_def] in auto)
      also have "filter (code_at uni s) [i + w ..< length s] = filter (code_at uni s) [i ..< length s]"
      proof (rule filter_upt_skip [symmetric, OF _ wl])
        fix x
        assume "i \<le> x" "x < i + w"
        then have "\<not> digit (s ! x)"
          by (intro skipped_not_digit(1) [OF i False]) (use wl in \<open>auto simp: w_def\<close>)
        then show "\<not> code_at uni s x" by (simp add: code_at_def group_start_def)
      qed simp
      finally show ?thesis .
    next
      case True
      define g where "g = digit_groups (drop i s)"
      have "linking s i" using i True by (simp add: linking_def)
      then have g1: "1 \<le> g" using digit_groups_Cons [of i s] by (simp add: g_def)
      have gl: "i + g \<le> length s" using digit_groups_le [of i s] i by (simp add: g_def)
      have rest: "otp_scan uni k s (i + g) st' =
          fold_opt (weigh_at k s) (filter (code_at uni s) [i + g ..< length s]) st'" for st'
        by (rule less(1)) (use i g1 boundary_after_group in \<open>auto simp: g_def\<close>)
      have gap: "filter (code_at uni s) [Suc i ..< length s] = filter (code_at uni s) [i + g ..< length s]"
        by (rule filter_upt_skip) (use g1 gl no_start_in_group [OF True] in \<open>auto simp: code_at_def g_def\<close>)
      have list: "filter (code_at uni s) [i ..< length s] =
          (if code_at uni s i then [i] else []) @ filter (code_at uni s) [i + g ..< length s]"
        by (simp only: upt_conv_Cons [OF i] filter.simps gap) simp
      have start: "group_start s i" using less(2) i True by (simp add: boundary_def)
      have code_i: "code_at uni s i \<longleftrightarrow> IsSixDigitOTP (take g (drop i s)) \<and> \<not> adjacentLetterOrNumber uni s i (i + g)"
        by (simp add: code_at_def start group_text_def group_end_def g_def)
      have step: "otp_scan uni k s i st =
          (if code_at uni s i then (case weigh_at k s i st of None \<Rightarrow> None | Some st' \<Rightarrow> otp_scan uni k s (i + g) st')
           else otp_scan uni k s (i + g) st)"
        unfolding st using il True g1
        by (subst otp_scan.simps)
           (simp add: g_def [symmetric] code_i weigh_at_def weigh_def group_text_def group_end_def max_def Let_def
             split: option.split)
      show ?thesis unfolding step list rest by (simp add: fold_opt_append split: option.split)
    qed
  qed
qed

lemma fold_opt_map: "fold_opt f (map g xs) st = fold_opt (\<lambda>x. f (g x)) xs st"
  by (induction xs arbitrary: st) (auto split: option.split)

definition weigh_occurrence ::
  "string list \<Rightarrow> nat \<times> nat \<Rightarrow> nat \<times> otp_candidate \<Rightarrow> (nat \<times> otp_candidate) option" where
  "weigh_occurrence sources x = weigh (occurrence_score sources x) (occurrence_text sources x)"

lemma otp_sources_drop:
  "k \<le> length sources \<Longrightarrow> otp_sources uni k (drop k sources) st =
   fold_opt (weigh_occurrence sources)
     (concat (map (\<lambda>k. map (Pair k) (filter (code_at uni (sources ! k)) [0 ..< length (sources ! k)]))
       [k ..< length sources])) st"
proof (induction "length sources - k" arbitrary: k st)
  case (Suc n)
  then have k: "k < length sources" by simp
  have w: "weigh_occurrence sources (k, a) = weigh_at k (sources ! k) a" for a
    by (simp add: weigh_occurrence_def weigh_at_def occurrence_score_def occurrence_text_def)
  have "otp_sources uni (Suc k) (drop (Suc k) sources) st' = fold_opt (weigh_occurrence sources)
     (concat (map (\<lambda>k. map (Pair k) (filter (code_at uni (sources ! k)) [0 ..< length (sources ! k)]))
       [Suc k ..< length sources])) st'" for st'
    by (rule Suc(1)) (use Suc(2) k in auto)
  then show ?case
    by (simp add: Cons_nth_drop_Suc [symmetric] k upt_conv_Cons [OF k] otp_scan_fold fold_opt_append fold_opt_map w
        split: option.split)
qed simp

lemma otp_sources_fold: "otp_sources uni 0 sources st = fold_opt (weigh_occurrence sources) (occurrences uni sources) st"
  using otp_sources_drop [of 0 sources uni st] by (simp add: occurrences_def)

text \<open>The fold keeps the first occurrence of the highest score.\<close>

lemma weigh_Some: "weigh (Some n) v (order, best) =
    Some (order + 1, if better \<lparr>oc_value = v, oc_score = n, oc_order = order\<rparr> best
      then \<lparr>oc_value = v, oc_score = n, oc_order = order\<rparr> else best)"
  by (simp add: weigh_def)

lemma fold_weigh:
  "fold_opt (\<lambda>x. weigh (sc x) (v x)) xs (order, best) = Some (order', best') \<Longrightarrow> oc_order best \<le> order \<Longrightarrow>
   (best' = best \<and> (\<forall>x \<in> set xs. \<exists>n. sc x = Some n \<and> n \<le> oc_score best)) \<or>
   (\<exists>i < length xs. oc_value best' = v (xs ! i) \<and> sc (xs ! i) = Some (oc_score best') \<and>
      oc_score best < oc_score best' \<and>
      (\<forall>j < length xs. \<exists>n. sc (xs ! j) = Some n \<and> n \<le> oc_score best' \<and> (j < i \<longrightarrow> n < oc_score best')))"
proof (induction xs arbitrary: order best)
  case (Cons x xs)
  obtain n where n: "sc x = Some n" using Cons.prems(1) by (cases "sc x") (auto simp: weigh_def)
  define c where "c = \<lparr>oc_value = v x, oc_score = n, oc_order = order\<rparr>"
  have f: "fold_opt (\<lambda>x. weigh (sc x) (v x)) xs (order + 1, if better c best then c else best) = Some (order', best')"
    using Cons.prems(1) n by (simp only: fold_opt.simps weigh_Some option.case c_def)
  have bt: "better c best \<longleftrightarrow> oc_score best < n" using Cons.prems(2) by (auto simp: better_def c_def)
  let ?b = "if better c best then c else best"
  have le: "oc_order ?b \<le> order + 1" "oc_score best \<le> oc_score ?b" "n \<le> oc_score ?b"
    using Cons.prems(2) bt by (auto simp: c_def)
  from Cons.IH [OF f le(1)] show ?case
  proof (elim disjE exE conjE)
    assume b: "best' = ?b" and all: "\<forall>x \<in> set xs. \<exists>n. sc x = Some n \<and> n \<le> oc_score ?b"
    show ?thesis
    proof (cases "better c best")
      case True
      then have s: "best' = c" "oc_score best' = n" using b by (simp_all add: c_def)
      have "\<exists>m. sc ((x # xs) ! j) = Some m \<and> m \<le> oc_score best'" if "j < length (x # xs)" for j
        using that all n s True by (cases j) (auto simp: c_def)
      then show ?thesis
        using True bt s n by (intro disjI2 exI [of _ 0]) (auto simp: c_def)
    next
      case False
      then show ?thesis using b all n bt by auto
    qed
  next
    fix i
    assume i: "i < length xs" "oc_value best' = v (xs ! i)" "sc (xs ! i) = Some (oc_score best')"
      "oc_score ?b < oc_score best'"
      "\<forall>j < length xs. \<exists>n. sc (xs ! j) = Some n \<and> n \<le> oc_score best' \<and> (j < i \<longrightarrow> n < oc_score best')"
    have "\<exists>m. sc ((x # xs) ! j) = Some m \<and> m \<le> oc_score best' \<and> (j < Suc i \<longrightarrow> m < oc_score best')"
      if "j < length (x # xs)" for j
      using that i(4,5) n le(3) by (cases j) auto
    then show ?thesis
      using i le(2) by (intro disjI2 exI [of _ "Suc i"]) auto
  qed
qed simp

lemma otp_score_lower: "otp_score k lower a b = Some n \<Longrightarrow> 100 - int k \<le> n"
  by (auto simp: otp_score_def Let_def split: if_splits option.splits)

lemma occurrences_mem:
  "x \<in> set (occurrences uni sources) \<longleftrightarrow> fst x < length sources \<and> code_at uni (sources ! fst x) (snd x)"
  by (cases x) (auto simp: occurrences_def code_at_def group_start_def)

lemma length_otp_texts: "length (otp_texts tokens unescape subject textBody htmlBody) \<le> 3"
  by (simp add: otp_texts_def)

lemma ExtractOTP_cases:
  assumes "ExtractOTP uni tokens unescape subject textBody htmlBody = Some v"
    and "sources = otp_texts tokens unescape subject textBody htmlBody"
  shows "(v = [] \<and> occurrences uni sources = []) \<or>
    (\<exists>i < length (occurrences uni sources). \<exists>m. v = occurrence_text sources (occurrences uni sources ! i) \<and>
       occurrence_score sources (occurrences uni sources ! i) = Some m \<and>
       (\<forall>j < length (occurrences uni sources). \<exists>n. occurrence_score sources (occurrences uni sources ! j) = Some n \<and>
          n \<le> m \<and> (j < i \<longrightarrow> n < m)))"
proof -
  let ?xs = "occurrences uni sources"
  obtain order best where f: "fold_opt (weigh_occurrence sources) ?xs (0, no_candidate) = Some (order, best)"
    and v: "v = oc_value best"
    using assms(1) by (auto simp: ExtractOTP_def otp_sources_fold assms(2) [symmetric])
  from f have "fold_opt (\<lambda>x. weigh (occurrence_score sources x) (occurrence_text sources x)) ?xs (0, no_candidate) =
      Some (order, best)" by (simp add: weigh_occurrence_def [abs_def])
  moreover have "oc_order no_candidate \<le> 0" by (simp add: no_candidate_def)
  ultimately show ?thesis
  proof (elim disjE [OF fold_weigh] exE conjE)
    assume b: "best = no_candidate"
      and all: "\<forall>x \<in> set ?xs. \<exists>n. occurrence_score sources x = Some n \<and> n \<le> oc_score no_candidate"
    have "x \<notin> set ?xs" for x
    proof
      assume x: "x \<in> set ?xs"
      then obtain n where "occurrence_score sources x = Some n" "n \<le> - 1" using all by (auto simp: no_candidate_def)
      moreover have "fst x < 3" using x length_otp_texts [of tokens unescape subject textBody htmlBody] assms(2)
        by (simp add: occurrences_mem)
      ultimately show False
        using otp_score_lower by (cases x) (fastforce simp: occurrence_score_def)
    qed
    then have "?xs = []" by (cases ?xs) auto
    then show ?thesis using b v by (simp add: no_candidate_def)
  next
    fix i
    assume "i < length ?xs" "oc_value best = occurrence_text sources (?xs ! i)"
      "occurrence_score sources (?xs ! i) = Some (oc_score best)"
      "\<forall>j < length ?xs. \<exists>n. occurrence_score sources (?xs ! j) = Some n \<and> n \<le> oc_score best \<and>
         (j < i \<longrightarrow> n < oc_score best)"
    then show ?thesis using v by blast
  qed
qed

lemma group_end_text: "group_end s a = a + length (group_text s a)" if "a \<le> length s"
  using digit_groups_le [OF that] by (simp add: group_end_def group_text_def)

lemma IsSixDigit_nonempty: "IsSixDigitOTP v \<Longrightarrow> v \<noteq> []"
  by (auto simp: IsSixDigitOTP_def)

lemma no_panic_lower:
  assumes "length s \<le> length (to_lower s)" and "a \<le> length s"
  shows "otp_score k (to_lower s) a (group_end s a) \<noteq> None"
proof -
  have "a - 64 \<le> min (group_end s a + 64) (length (to_lower s))"
    unfolding group_end_def using assms by linarith
  then have "\<not> min (group_end s a + 64) (length (to_lower s)) < a - 64" by (rule leD)
  then show ?thesis by (simp add: otp_score_def Let_def)
qed

lemma fold_opt_weigh_total:
  "(\<And>x. x \<in> set xs \<Longrightarrow> sc x \<noteq> None) \<Longrightarrow> fold_opt (\<lambda>x. weigh (sc x) (v x)) xs st \<noteq> None"
proof (induction xs arbitrary: st)
  case (Cons x xs)
  obtain n where "sc x = Some n" using Cons.prems [of x] by auto
  then show ?case using Cons by (cases st) (simp add: weigh_Some)
qed simp

lemma length_string_of_runes: "length rs \<le> length (string_of_runes rs)"
proof (induction rs)
  case (Cons r rs)
  have "1 \<le> length (encode_rune r)" by (simp add: encode_rune_def Let_def)
  then show ?case using Cons by (simp add: string_of_runes_def)
qed (simp add: string_of_runes_def)

subsection \<open>Properties\<close>

text \<open>A returned code is a real one: it is six digits, possibly as two groups of three around a hyphen,
  it stands in the subject, the text body or the text of the HTML body, and no letter, number or further
  digit group touches it.\<close>

theorem otp_is_isolated_code:
  assumes "ExtractOTP uni tokens unescape subject textBody htmlBody = Some v" and "v \<noteq> []"
  shows "IsSixDigitOTP v \<and>
    (\<exists>s \<in> set (otp_texts tokens unescape subject textBody htmlBody). \<exists>a.
       group_start s a \<and> v = take (length v) (drop a s) \<and> \<not> linking s (a + length v) \<and>
       \<not> adjacentLetterOrNumber uni s a (a + length v))"
proof -
  let ?sources = "otp_texts tokens unescape subject textBody htmlBody"
  obtain i where i: "i < length (occurrences uni ?sources)" "v = occurrence_text ?sources (occurrences uni ?sources ! i)"
    using ExtractOTP_cases [OF assms(1) refl] assms(2) by blast
  obtain k a where x: "occurrences uni ?sources ! i = (k, a)" by (cases "occurrences uni ?sources ! i")
  then have "(k, a) \<in> set (occurrences uni ?sources)" using i(1) by (metis nth_mem)
  then have k: "k < length ?sources" and c: "code_at uni (?sources ! k) a" by (simp_all add: occurrences_mem)
  let ?s = "?sources ! k"
  have v: "v = group_text ?s a" using i(2) x by (simp add: occurrence_text_def)
  have a: "a \<le> length ?s" using c by (simp add: code_at_def group_start_def)
  then have len: "a + length v = group_end ?s a" using v group_end_text by simp
  have "v = take (length v) (drop a ?s)" using v by (simp add: group_text_def min_def)
  moreover have "\<not> linking ?s (a + length v)"
    using not_linking_after [of ?s a] len by (simp add: group_end_def)
  ultimately show ?thesis
    using c k v len by (intro conjI bexI [of _ ?s] exI [of _ a]) (auto simp: code_at_def)
qed

text \<open>C33: The extraction is complete and picks the best code: it returns nothing only if no source has an
  isolated code; otherwise the result is the first, in reading order, of the codes with the highest
  score.\<close>

theorem otp_returns_first_best:
  assumes "ExtractOTP uni tokens unescape subject textBody htmlBody = Some v"
    and "sources = otp_texts tokens unescape subject textBody htmlBody"
  shows "(v = [] \<and> (\<forall>s \<in> set sources. \<forall>a. \<not> code_at uni s a)) \<or>
    (\<exists>i < length (occurrences uni sources). \<exists>m. v = occurrence_text sources (occurrences uni sources ! i) \<and>
       occurrence_score sources (occurrences uni sources ! i) = Some m \<and>
       (\<forall>j < length (occurrences uni sources). \<exists>n. occurrence_score sources (occurrences uni sources ! j) = Some n \<and>
          n \<le> m \<and> (j < i \<longrightarrow> n < m)))"
proof -
  have "\<not> code_at uni s a" if none: "occurrences uni sources = []" and s: "s \<in> set sources" for s a
  proof -
    obtain k where "k < length sources" "s = sources ! k" using s by (auto simp: in_set_conv_nth)
    then show ?thesis using occurrences_mem [of "(k, a)" uni sources] none by simp
  qed
  then show ?thesis using ExtractOTP_cases [OF assms] by blast
qed

text \<open>The extraction returns whenever lower-casing does not shorten a source, for example on ASCII text:
  then no slice is out of range.\<close>

theorem otp_returns:
  assumes "\<forall>s \<in> set (otp_texts tokens unescape subject textBody htmlBody). length s \<le> length (to_lower s)"
  shows "\<exists>v. ExtractOTP uni tokens unescape subject textBody htmlBody = Some v"
proof -
  let ?sources = "otp_texts tokens unescape subject textBody htmlBody"
  have "occurrence_score ?sources x \<noteq> None" if "x \<in> set (occurrences uni ?sources)" for x
  proof -
    have k: "fst x < length ?sources" and c: "code_at uni (?sources ! fst x) (snd x)"
      using that by (simp_all add: occurrences_mem)
    have "length (?sources ! fst x) \<le> length (to_lower (?sources ! fst x))" using assms k by (metis nth_mem)
    from no_panic_lower [OF this] c show ?thesis
      by (cases x) (auto simp: occurrence_score_def code_at_def group_start_def)
  qed
  then have "fold_opt (weigh_occurrence ?sources) (occurrences uni ?sources) (0, no_candidate) \<noteq> None"
    unfolding weigh_occurrence_def [abs_def] by (rule fold_opt_weigh_total)
  then show ?thesis by (auto simp: ExtractOTP_def otp_sources_fold)
qed

text \<open>
  U+212A (three bytes) is lower-cased to the ASCII letter k, so a source full of it shrinks below the
  start of the window.
\<close>

definition kelvin_text :: string where
  "kelvin_text = concat (replicate 36 [CHR 0xE2, CHR 0x84, CHR 0xAA]) @ '' 123456''"

lemma fold_weigh_panic: "x \<in> set xs \<Longrightarrow> sc x = None \<Longrightarrow> fold_opt (\<lambda>x. weigh (sc x) (v x)) xs st = None"
  by (induction xs arbitrary: st) (auto simp: weigh_def split: option.splits)

lemma runes_kelvin: "runes (concat (replicate n [CHR 0xE2, CHR 0x84, CHR 0xAA]) @ s) = replicate n 8490 @ runes s"
proof (induction n)
  case (Suc n)
  then show ?case
    by (simp, subst runes.simps) (simp add: decode_rune_def second_ok_def cont_byte_def)
qed simp

lemma lower_kelvin: "rune_lower 8490 = 107"
  by (simp add: rune_lower_def map_case_def lower_ranges_def in_case_range_def)

lemma lower_small: "r < 65 \<Longrightarrow> rune_lower r = r"
  by (simp add: rune_lower_def map_case_def)

lemma length_lower_kelvin: "length (to_lower kelvin_text) = 43"
proof -
  have "\<not> ascii kelvin_text" by (simp add: kelvin_text_def ascii_def)
  moreover have "runes kelvin_text = replicate 36 8490 @ [32, 49, 50, 51, 52, 53, 54]"
    by (simp add: kelvin_text_def runes_kelvin runes_ascii)
  ultimately show ?thesis
    by (simp add: to_lower_def string_of_runes_def lower_kelvin lower_small encode_rune_def length_concat sum_list_replicate)
qed

lemma kelvin_code: "code_at uni kelvin_text 109"
proof -
  have len: "length (concat (replicate 36 [CHR 0xE2, CHR 0x84, CHR 0xAA])) = 108" by (simp add: length_concat sum_list_replicate)
  have d: "drop 109 kelvin_text = ''123456''" by (simp add: kelvin_text_def len)
  have t: "last (take 109 kelvin_text) = CHR '' ''" "take 109 kelvin_text \<noteq> []"
    by (simp_all add: kelvin_text_def len)
  have "group_start kelvin_text 109" by (simp add: group_start_def kelvin_text_def len nth_append digit_def)
  moreover have "IsSixDigitOTP (group_text kelvin_text 109)" by (simp add: group_text_def d digit_def IsSixDigitOTP_def)
  moreover have "\<not> adjacentLetterOrNumber uni kelvin_text 109 (group_end kelvin_text 109)"
    using t by (simp add: adjacentLetterOrNumber_def group_end_def d digit_def decode_last_def letter_or_number_def)
      (simp add: kelvin_text_def len)
  ultimately show ?thesis by (simp add: code_at_def)
qed

text \<open>C34: The keyword window can be out of range: on this subject, thirty-six Kelvin signs before a code,
  the extraction stops with a run-time panic.\<close>

theorem otp_window_panics:
  "ExtractOTP uni tokens unescape kelvin_text [] [] = None"
proof -
  let ?sources = "otp_texts tokens unescape kelvin_text [] []"
  have s: "?sources ! 0 = kelvin_text" "0 < length ?sources" by (simp_all add: otp_texts_def)
  have "(0, 109) \<in> set (occurrences uni ?sources)" using s kelvin_code by (simp add: occurrences_mem)
  moreover have "occurrence_score ?sources (0, 109) = None"
    using s by (simp add: occurrence_score_def otp_score_def length_lower_kelvin group_end_def Let_def)
  ultimately show ?thesis
    unfolding ExtractOTP_def otp_sources_fold weigh_occurrence_def [abs_def] by (simp add: fold_weigh_panic)
qed

lemma demo_otp:
  "ExtractOTP (\<lambda>r. False) (\<lambda>s. []) (\<lambda>s. s) ''code 123-456'' [] [] = Some ''123-456''"
proof -
  have a: "to_lower ''code 123-456'' = ''code 123-456''" "to_lower [] = []"
    by (simp_all add: to_lower_def lower_byte_def)
  show ?thesis
    by (simp add: ExtractOTP_def otp_texts_def otp_scan.simps decode_rune_ascii digit_def IsSixDigitOTP_def
        adjacentLetterOrNumber_def letter_or_number_def decode_last_def otp_score_def a Let_def better_def
        no_candidate_def split: option.split) (auto simp: min_def)
qed

lemma otp_is_isolated_code_witness: "IsSixDigitOTP ''123-456''"
  using otp_is_isolated_code [OF demo_otp] by simp

lemma otp_returns_first_best_witness:
  "occurrences (\<lambda>r. False) (otp_texts (\<lambda>s. []) (\<lambda>s. s) ''code 123-456'' [] []) \<noteq> []"
  using otp_returns_first_best [OF demo_otp refl] by auto

lemma otp_returns_witness:
  "\<exists>v. ExtractOTP (\<lambda>r. False) (\<lambda>s. []) (\<lambda>s. s) ''code 123-456'' [] [] = Some v"
  by (rule otp_returns) (simp add: otp_texts_def to_lower_def)

end
