(* ===== verification/AppLog.thy ===== *)
theory AppLog
  imports Utf8 "HOL-Library.AList"
begin

section \<open>The in-memory application log (internal/applog/handler.go)\<close>

text \<open>
  Log records are flattened to a few bounded text fields, secrets are masked, and the entry goes to
  a ring of fixed capacity and bounded total size, from which the administrator pages backwards.
  Locks only make each operation atomic. A log value whose text comes from the standard library (a
  time, a duration, a float, an error, any other Go value) carries that text.
\<close>

subsection \<open>Limits\<close>

definition MaxMessageBytes :: int where "MaxMessageBytes = 4096"
definition MaxFieldKeyBytes :: int where "MaxFieldKeyBytes = 256"
definition MaxFieldValueBytes :: int where "MaxFieldValueBytes = 2048"
definition MaxEntryBytes :: int where "MaxEntryBytes = 16384"
definition MaxStoredBytes :: int where "MaxStoredBytes = 33554432"
definition MaxFields :: int where "MaxFields = 64"
definition DefaultListLimit :: int where "DefaultListLimit = 20"
definition MaxListLimit :: int where "MaxListLimit = 1000"
definition CategoryCreation :: string where "CategoryCreation = ''creation''"
definition maxSourceBytes :: int where "maxSourceBytes = 512"
definition fieldOverhead :: int where "fieldOverhead = 16"
definition entryOverhead :: int where "entryOverhead = 64"
definition redactedValue :: string where "redactedValue = ''[REDACTED]''"

record limits =
  lm_messageBytes :: int
  lm_fieldKeyBytes :: int
  lm_fieldValueBytes :: int
  lm_entryBytes :: int
  lm_totalBytes :: int
  lm_fields :: int
  lm_sourceBytes :: int

definition defaultLimits :: limits where
  "defaultLimits = \<lparr>lm_messageBytes = MaxMessageBytes, lm_fieldKeyBytes = MaxFieldKeyBytes,
     lm_fieldValueBytes = MaxFieldValueBytes, lm_entryBytes = MaxEntryBytes, lm_totalBytes = MaxStoredBytes,
     lm_fields = MaxFields, lm_sourceBytes = maxSourceBytes\<rparr>"

definition normalizedLimits :: "limits \<Rightarrow> limits" where
  "normalizedLimits value =
     (let d = defaultLimits;
          v1 = (if lm_messageBytes value \<le> 0 then value\<lparr>lm_messageBytes := lm_messageBytes d\<rparr> else value);
          v2 = (if lm_fieldKeyBytes v1 \<le> 0 then v1\<lparr>lm_fieldKeyBytes := lm_fieldKeyBytes d\<rparr> else v1);
          v3 = (if lm_fieldValueBytes v2 \<le> 0 then v2\<lparr>lm_fieldValueBytes := lm_fieldValueBytes d\<rparr> else v2);
          v4 = (if lm_entryBytes v3 \<le> entryOverhead then v3\<lparr>lm_entryBytes := lm_entryBytes d\<rparr> else v3);
          v5 = (if lm_totalBytes v4 < lm_entryBytes v4 then v4\<lparr>lm_totalBytes := lm_entryBytes v4\<rparr> else v4);
          v6 = (if lm_fields v5 \<le> 0 then v5\<lparr>lm_fields := lm_fields d\<rparr> else v5)
      in if lm_sourceBytes v6 \<le> 0 then v6\<lparr>lm_sourceBytes := lm_sourceBytes d\<rparr> else v6)"

subsection \<open>Text\<close>

text \<open>The last position at or before \<open>end\<close> where a rune starts, or zero.\<close>

fun rune_floor :: "string \<Rightarrow> nat \<Rightarrow> nat" where
  "rune_floor value 0 = 0"
| "rune_floor value (Suc end) = (if rune_start (value ! Suc end) then Suc end else rune_floor value end)"

definition truncateUTF8 :: "string \<Rightarrow> int \<Rightarrow> string" where
  "truncateUTF8 value0 limit =
     (let value = to_valid_utf8 value0 in
      if limit \<le> 0 then []
      else if int (length value) \<le> limit then value
      else if limit \<le> 3 then take (rune_floor value (nat limit)) value
      else take (rune_floor value (nat (limit - 3))) value @ ''...'')"

definition flattenKey :: "string list \<Rightarrow> string" where
  "flattenKey parts =
     join ''.'' (map (\<lambda>part. replace_byte (CHR ''.'') [CHR 0x5C, CHR ''.'']
       (replace_byte (CHR 0x5C) [CHR 0x5C, CHR 0x5C] part)) parts)"

text \<open>The loop over the runes of a key; the state is the segments, the current segment and the escape flag.\<close>

fun split_key :: "rune list \<Rightarrow> string list \<Rightarrow> string \<Rightarrow> bool \<Rightarrow> string list" where
  "split_key [] segments current escaped =
     segments @ [if escaped then current @ [CHR 0x5C] else current]"
| "split_key (c # cs) segments current escaped =
     (if escaped then split_key cs segments (current @ encode_rune c) False
      else if c = 92 then split_key cs segments current True
      else if c = 46 then split_key cs (segments @ [current]) [] False
      else split_key cs segments (current @ encode_rune c) False)"

definition splitFlattenedKey :: "string \<Rightarrow> string list" where
  "splitFlattenedKey key = split_key (runes key) [] [] False"

definition FieldKeyHasSuffix :: "string \<Rightarrow> string \<Rightarrow> bool" where
  "FieldKeyHasSuffix key name \<longleftrightarrow>
     (let segments = splitFlattenedKey key in length segments > 0 \<and> last segments = name)"

definition sensitive_markers :: "string list" where
  "sensitive_markers =
    [''password'', ''passwd'', ''secret'', ''token'', ''apikey'', ''authorization'', ''cookie'', ''session'',
     ''credential'', ''ciphertext'', ''privatekey'', ''masterkey'', ''rawquery'', ''requestbody'', ''responsebody'']"

definition sensitiveKey :: "string \<Rightarrow> bool" where
  "sensitiveKey key =
     (let normalized = map (\<lambda>c. if c = CHR ''-'' \<or> c = CHR ''.'' \<or> c = CHR '' '' then CHR ''_'' else c) (to_lower key);
          compact = replace_byte (CHR ''_'') [] normalized
      in list_ex (\<lambda>marker. str_contains compact marker) sensitive_markers \<or>
         normalized = ''query'' \<or> normalized = ''body'' \<or> normalized = ''headers'')"

definition sensitiveKeyParts :: "string list \<Rightarrow> bool" where
  "sensitiveKeyParts parts = list_ex sensitiveKey parts"

subsection \<open>Collecting the fields of a record\<close>

text \<open>
  \<open>VText\<close> and \<open>VAny\<close> carry their rendering; \<open>VNil\<close> is the nil any-value; \<open>VLogValuer\<close> has the value it
  resolves to. An attribute is its key and value.
\<close>

datatype slog_value =
    VString string
  | VBool bool
  | VInt int
  | VUint nat
  | VText string
  | VAny string
  | VNil
  | VGroup "(string \<times> slog_value) list"
  | VLogValuer slog_value

definition is_group :: "slog_value \<Rightarrow> bool" where
  "is_group v = (case v of VGroup _ \<Rightarrow> True | _ \<Rightarrow> False)"

definition value_resolve :: "slog_value \<Rightarrow> slog_value" where
  "value_resolve v = (case v of VLogValuer w \<Rightarrow> w | _ \<Rightarrow> v)"

definition renderValue :: "slog_value \<Rightarrow> string" where
  "renderValue v =
     (case v of
        VString s \<Rightarrow> s
      | VText s \<Rightarrow> s
      | VBool b \<Rightarrow> if b then ''true'' else ''false''
      | VInt i \<Rightarrow> format_int i
      | VUint n \<Rightarrow> dec_string n
      | VAny s \<Rightarrow> s
      | VNil \<Rightarrow> ''<nil>''
      | _ \<Rightarrow> [])"

type_synonym field_values = "(string \<times> string) list"

text \<open>\<open>index\<close> is the position of a key in \<open>values\<close>: a repeated key overwrites in place.\<close>

definition addValue :: "limits \<Rightarrow> string list \<Rightarrow> string \<Rightarrow> field_values \<Rightarrow> field_values" where
  "addValue lim parts field values =
     (let key = truncateUTF8 (flattenKey parts) (lm_fieldKeyBytes lim) in
      if key \<in> set (map fst values) then map (\<lambda>(k, v). if k = key then (k, field) else (k, v)) values
      else values @ [(key, field)])"

definition add_leaf :: "limits \<Rightarrow> string list \<Rightarrow> slog_value \<Rightarrow> field_values \<Rightarrow> field_values" where
  "add_leaf lim parts v values =
     addValue lim parts
       (if sensitiveKeyParts parts then redactedValue else truncateUTF8 (renderValue v) (lm_fieldValueBytes lim)) values"

fun addAttr :: "limits \<Rightarrow> string list \<Rightarrow> string \<times> slog_value \<Rightarrow> field_values \<Rightarrow> field_values"
and addAttrs :: "limits \<Rightarrow> string list \<Rightarrow> (string \<times> slog_value) list \<Rightarrow> field_values \<Rightarrow> field_values" where
  "addAttr lim groups (key, v) values =
     (if key = [] \<and> v = VNil then values
      else let parts = groups @ [key] in
      if \<not> is_group v \<and> sensitiveKeyParts parts then addValue lim parts redactedValue values
      else if is_group v \<and> key \<noteq> [] \<and> sensitiveKeyParts parts then addValue lim parts redactedValue values
      else (case v of
              VGroup attrs \<Rightarrow> addAttrs lim (if key \<noteq> [] then groups @ [key] else groups) attrs values
            | VLogValuer (VGroup attrs) \<Rightarrow> addAttrs lim (if key \<noteq> [] then groups @ [key] else groups) attrs values
            | _ \<Rightarrow> add_leaf lim parts (value_resolve v) values))"
| "addAttrs lim groups [] values = values"
| "addAttrs lim groups (a # as) values = addAttrs lim groups as (addAttr lim groups a values)"

subsection \<open>Building an entry\<close>

record log_entry =
  en_ID :: nat
  en_Time :: time
  en_Level :: int
  en_Message :: string
  en_Source :: string
  en_Fields :: field_values

text \<open>A record has the frame its program counter resolves to: a file and a line.\<close>

record log_record =
  lr_Time :: time
  lr_Level :: int
  lr_Message :: string
  lr_Frame :: "(string \<times> int) option"
  lr_Attrs :: "(string \<times> slog_value) list"

definition fitText :: "string \<Rightarrow> int \<Rightarrow> int \<Rightarrow> string \<times> int" where
  "fitText value individualLimit remaining =
     (if remaining \<le> 0 then ([], remaining)
      else let v = truncateUTF8 value (min individualLimit remaining) in (v, remaining - int (length v)))"

text \<open>\<open>filepath.Base\<close> on a slash-separated path.\<close>

definition path_base :: "string \<Rightarrow> string" where
  "path_base path =
     (if path = [] then ''.''
      else (let p = rev (dropWhile (\<lambda>c. c = CHR ''/'') (rev path)) in
            if p = [] then ''/'' else last (split_on (CHR ''/'') p)))"

text \<open>\<open>strings.LastIndex\<close>.\<close>

definition last_index :: "string \<Rightarrow> string \<Rightarrow> nat option" where
  "last_index s p = find (\<lambda>i. has_prefix (drop i s) p) (rev [0 ..< Suc (length s)])"

definition sourceLocation :: "(string \<times> int) option \<Rightarrow> string" where
  "sourceLocation frame =
     (case frame of
        None \<Rightarrow> []
      | Some (file, line) \<Rightarrow>
          if file = [] \<or> line \<le> 0 then []
          else (case last_index file ''/internal/'' of
                  Some i \<Rightarrow> drop (i + 1) file @ '':'' @ format_int line
                | None \<Rightarrow>
                    (case last_index file ''/cmd/'' of
                       Some i \<Rightarrow> drop (i + 1) file @ '':'' @ format_int line
                     | None \<Rightarrow> path_base file @ '':'' @ format_int line)))"

text \<open>The field loop; \<open>retained\<close> counts the fields kept so far.\<close>

fun keep_fields :: "limits \<Rightarrow> field_values \<Rightarrow> int \<Rightarrow> int \<Rightarrow> field_values \<Rightarrow> field_values \<times> int" where
  "keep_fields lim [] retained remaining kept = (kept, remaining)"
| "keep_fields lim ((k, v) # fs) retained remaining kept =
     (if retained \<ge> lm_fields lim then (kept, remaining)
      else (let key = truncateUTF8 k (lm_fieldKeyBytes lim);
                need = int (length key) + fieldOverhead
            in if remaining \<le> need then (kept, remaining)
               else (let value = truncateUTF8 v (min (lm_fieldValueBytes lim) (remaining - need))
                     in keep_fields lim fs (retained + 1) (remaining - (need + int (length value)))
                          (AList.update key value kept))))"

definition buildEntry :: "log_record \<Rightarrow> field_values \<Rightarrow> limits \<Rightarrow> log_entry \<times> int" where
  "buildEntry record0 values lim =
     (let (message, r1) = fitText (lr_Message record0) (lm_messageBytes lim) (lm_entryBytes lim - entryOverhead);
          (source, r2) = fitText (sourceLocation (lr_Frame record0)) (lm_sourceBytes lim) r1;
          (fields, r3) = keep_fields lim values 0 r2 []
      in (\<lparr>en_ID = 0, en_Time = lr_Time record0, en_Level = lr_Level record0, en_Message = message,
           en_Source = source, en_Fields = fields\<rparr>, lm_entryBytes lim - r3))"

subsection \<open>The ring\<close>

record stored_entry =
  so_entry :: log_entry
  so_size :: int

definition zero_entry :: stored_entry where
  "zero_entry = \<lparr>so_entry = \<lparr>en_ID = 0, en_Time = zero_time, en_Level = 0, en_Message = [], en_Source = [],
     en_Fields = []\<rparr>, so_size = 0\<rparr>"

record ring =
  rg_entries :: "stored_entry list"
  rg_head :: nat
  rg_count :: nat
  rg_nextID :: nat
  rg_totalBytes :: int
  rg_limits :: limits

definition new_ring :: "nat \<Rightarrow> limits \<Rightarrow> ring" where
  "new_ring capacity configured =
     \<lparr>rg_entries = replicate capacity zero_entry, rg_head = 0, rg_count = 0, rg_nextID = 0, rg_totalBytes = 0,
      rg_limits = normalizedLimits configured\<rparr>"

definition evictOldest :: "ring \<Rightarrow> ring" where
  "evictOldest r =
     r\<lparr>rg_totalBytes := rg_totalBytes r - so_size (rg_entries r ! rg_head r),
       rg_entries := (rg_entries r)[rg_head r := zero_entry],
       rg_head := (rg_head r + 1) mod length (rg_entries r),
       rg_count := rg_count r - 1\<rparr>"

function evict_for :: "int \<Rightarrow> ring \<Rightarrow> ring" where
  "evict_for bytes r =
     (if rg_count r > 0 \<and> (rg_count r = length (rg_entries r) \<or> rg_totalBytes r + bytes > lm_totalBytes (rg_limits r))
      then evict_for bytes (evictOldest r) else r)"
  by pat_completeness auto
termination
  by (relation "measure (\<lambda>(s, r). rg_count r)") (auto simp: evictOldest_def)

declare evict_for.simps [simp del]

text \<open>IDs are \<open>uint64\<close>.\<close>

definition ring_append :: "log_entry \<Rightarrow> int \<Rightarrow> ring \<Rightarrow> ring" where
  "ring_append entry bytes r0 =
     (let next_id = (rg_nextID r0 + 1) mod 2 ^ 64;
          r = evict_for bytes (r0\<lparr>rg_nextID := next_id\<rparr>);
          index = (rg_head r + rg_count r) mod length (rg_entries r)
      in r\<lparr>rg_entries := (rg_entries r)[index := \<lparr>so_entry = entry\<lparr>en_ID := next_id\<rparr>, so_size = bytes\<rparr>],
           rg_count := rg_count r + 1, rg_totalBytes := rg_totalBytes r + bytes\<rparr>)"

subsection \<open>The handler\<close>

text \<open>A handler shares the ring, which is passed separately.\<close>

record handler =
  ha_attrs :: "(string list \<times> string \<times> slog_value) list"
  ha_groups :: "string list"

definition new_handler :: handler where
  "new_handler = \<lparr>ha_attrs = [], ha_groups = []\<rparr>"

definition collect_fields :: "limits \<Rightarrow> handler \<Rightarrow> log_record \<Rightarrow> field_values" where
  "collect_fields lim h record0 =
     fold (addAttr lim (ha_groups h)) (lr_Attrs record0)
       (fold (\<lambda>(groups, attr). addAttr lim groups attr) (ha_attrs h) [])"

definition Handle :: "handler \<Rightarrow> log_record \<Rightarrow> ring \<Rightarrow> ring" where
  "Handle h record0 r =
     (case buildEntry record0 (collect_fields (rg_limits r) h record0) (rg_limits r) of
        (entry, bytes) \<Rightarrow> ring_append entry bytes r)"

definition WithAttrs :: "handler \<Rightarrow> (string \<times> slog_value) list \<Rightarrow> handler" where
  "WithAttrs h attrs = h\<lparr>ha_attrs := ha_attrs h @ map (Pair (ha_groups h)) attrs\<rparr>"

definition WithGroup :: "handler \<Rightarrow> string \<Rightarrow> handler" where
  "WithGroup h name = (if name = [] then h else h\<lparr>ha_groups := ha_groups h @ [name]\<rparr>)"

subsection \<open>Listing\<close>

record log_filter =
  lf_Level :: string
  lf_Category :: string
  lf_Query :: string
  lf_AccountID :: "int option"
  lf_SyncRunID :: string
  lf_AutoCreateRunID :: string
  lf_BeforeID :: nat
  lf_Offset :: int
  lf_Limit :: int

record log_page =
  lp_Items :: "log_entry list"
  lp_HasMore :: bool
  lp_NextBeforeID :: nat
  lp_Total :: nat

definition LevelDebug :: int where "LevelDebug = - 4"
definition LevelInfo :: int where "LevelInfo = 0"
definition LevelWarn :: int where "LevelWarn = 4"
definition LevelError :: int where "LevelError = 8"

text \<open>
  \<open>strings.ToUpper\<close> as far as a level name can tell: U+0131 and U+017F are the only other runes whose
  upper case is ASCII, and a name with a rune outside ASCII matches no level.
\<close>

definition level_upper :: "rune \<Rightarrow> rune" where
  "level_upper r = (if 97 \<le> r \<and> r \<le> 122 then r - 32 else if r = 305 then 73 else if r = 383 then 83 else r)"

definition level_base :: "string \<Rightarrow> int option" where
  "level_base name =
     (if name = ''DEBUG'' then Some LevelDebug else if name = ''INFO'' then Some LevelInfo
      else if name = ''WARN'' then Some LevelWarn else if name = ''ERROR'' then Some LevelError else None)"

text \<open>\<open>Level.UnmarshalText\<close>: a name and an optional signed offset.\<close>

definition unmarshal_level :: "string \<Rightarrow> int option" where
  "unmarshal_level s =
     (let name = takeWhile (\<lambda>c. c \<noteq> CHR ''+'' \<and> c \<noteq> CHR ''-'') s;
          rest = dropWhile (\<lambda>c. c \<noteq> CHR ''+'' \<and> c \<noteq> CHR ''-'') s
      in case (if rest = [] then Some 0 else parse_int64 rest) of
           None \<Rightarrow> None
         | Some offset \<Rightarrow> map_option (\<lambda>l. wrap64 (l + offset)) (level_base name))"

datatype level_filter = AnyLevel | OneLevel int | BadLevel

definition parseLevel :: "string \<Rightarrow> level_filter" where
  "parseLevel value =
     (let s = trim_space value; up = map level_upper (runes s) in
      if s = [] then AnyLevel
      else if \<not> list_all (\<lambda>r. r < 128) up then BadLevel
      else (case unmarshal_level (map char_of up) of None \<Rightarrow> BadLevel | Some l \<Rightarrow> OneLevel l))"

definition matchesLevel :: "int \<Rightarrow> int \<Rightarrow> bool" where
  "matchesLevel candidate wanted =
     (if wanted = LevelDebug then candidate < LevelInfo
      else if wanted = LevelInfo then candidate \<ge> LevelInfo \<and> candidate < LevelWarn
      else if wanted = LevelWarn then candidate \<ge> LevelWarn \<and> candidate < LevelError
      else if wanted = LevelError then candidate \<ge> LevelError
      else candidate = wanted)"

text \<open>\<open>Level.String\<close>.\<close>

definition level_string :: "int \<Rightarrow> string" where
  "level_string l =
     (let str = (\<lambda>base v. if v = 0 then base else base @ (if v > 0 then ''+'' else []) @ format_int v) in
      if l < LevelInfo then str ''DEBUG'' (wrap64 (l - LevelDebug))
      else if l < LevelWarn then str ''INFO'' (wrap64 (l - LevelInfo))
      else if l < LevelError then str ''WARN'' (wrap64 (l - LevelWarn))
      else str ''ERROR'' (wrap64 (l - LevelError)))"

definition entryHasAccountID :: "log_entry \<Rightarrow> int \<Rightarrow> bool" where
  "entryHasAccountID entry want =
     list_ex (\<lambda>(k, v). FieldKeyHasSuffix k ''account_id'' \<and> parse_int64 (trim_space v) = Some want) (en_Fields entry)"

definition entryHasExactField :: "log_entry \<Rightarrow> string \<Rightarrow> string \<Rightarrow> bool" where
  "entryHasExactField entry name want = list_ex (\<lambda>(k, v). FieldKeyHasSuffix k name \<and> v = want) (en_Fields entry)"

definition entryHasNonEmptyField :: "log_entry \<Rightarrow> string \<Rightarrow> bool" where
  "entryHasNonEmptyField entry name =
     list_ex (\<lambda>(k, v). FieldKeyHasSuffix k name \<and> trim_space v \<noteq> []) (en_Fields entry)"

definition entryContains :: "log_entry \<Rightarrow> string \<Rightarrow> bool" where
  "entryContains entry query \<longleftrightarrow>
     str_contains (to_lower (en_Message entry)) query \<or> str_contains (to_lower (en_Source entry)) query \<or>
     str_contains (to_lower (level_string (en_Level entry))) query \<or>
     list_ex (\<lambda>(k, v). str_contains (to_lower k) query \<or> str_contains (to_lower v) query) (en_Fields entry)"

text \<open>The non-pagination conditions; \<open>wanted\<close> is the level that the filter sets.\<close>

definition entry_matches :: "log_filter \<Rightarrow> int option \<Rightarrow> log_entry \<Rightarrow> bool" where
  "entry_matches f wanted entry \<longleftrightarrow>
     (case wanted of None \<Rightarrow> True | Some l \<Rightarrow> matchesLevel (en_Level entry) l) \<and>
     (trim_space (lf_Category f) = CategoryCreation \<longrightarrow> entryHasNonEmptyField entry ''auto_create_run_id'') \<and>
     (case lf_AccountID f of None \<Rightarrow> True | Some i \<Rightarrow> entryHasAccountID entry i) \<and>
     (lf_SyncRunID f \<noteq> [] \<longrightarrow> entryHasExactField entry ''sync_run_id'' (lf_SyncRunID f)) \<and>
     (lf_AutoCreateRunID f \<noteq> [] \<longrightarrow> entryHasExactField entry ''auto_create_run_id'' (lf_AutoCreateRunID f)) \<and>
     (let query = to_lower (trim_space (lf_Query f)) in query \<noteq> [] \<longrightarrow> entryContains entry query)"

definition empty_page :: log_page where
  "empty_page = \<lparr>lp_Items = [], lp_HasMore = False, lp_NextBeforeID = 0, lp_Total = 0\<rparr>"

text \<open>One step of the loop over the ring: the state is the page and the eligible counter.\<close>

definition list_step :: "log_filter \<Rightarrow> int option \<Rightarrow> int \<Rightarrow> int \<Rightarrow> log_entry \<Rightarrow> log_page \<times> int \<Rightarrow> log_page \<times> int" where
  "list_step f wanted limit offset candidate st =
     (case st of (page, eligible) \<Rightarrow>
      if \<not> entry_matches f wanted candidate then (page, eligible)
      else let page1 = page\<lparr>lp_Total := lp_Total page + 1\<rparr> in
      if lf_BeforeID f \<noteq> 0 \<and> en_ID candidate \<ge> lf_BeforeID f then (page1, eligible)
      else if eligible < offset then (page1, eligible + 1)
      else if int (length (lp_Items page1)) \<ge> limit then (page1\<lparr>lp_HasMore := True\<rparr>, eligible + 1)
      else (page1\<lparr>lp_Items := lp_Items page1 @ [candidate]\<rparr>, eligible + 1))"

definition ring_at :: "ring \<Rightarrow> nat \<Rightarrow> log_entry" where
  "ring_at r ring_offset =
     so_entry (rg_entries r ! ((rg_head r + rg_count r - 1 - ring_offset) mod length (rg_entries r)))"

definition clamp_limit :: "int \<Rightarrow> int" where
  "clamp_limit limit0 =
     (let limit = (if limit0 \<le> 0 then DefaultListLimit else limit0) in
      if limit > MaxListLimit then MaxListLimit else limit)"

definition ListEntries :: "ring \<Rightarrow> log_filter \<Rightarrow> log_page" where
  "ListEntries r f =
     (let limit = clamp_limit (lf_Limit f);
          offset = (if lf_Offset f < 0 then 0 else lf_Offset f);
          category = trim_space (lf_Category f);
          level = parseLevel (lf_Level f)
      in if level = BadLevel then empty_page
         else if category \<noteq> [] \<and> category \<noteq> CategoryCreation then empty_page
         else (let wanted = (case level of OneLevel l \<Rightarrow> Some l | _ \<Rightarrow> None);
                   page = fst (fold (\<lambda>i. list_step f wanted limit offset (ring_at r i)) [0 ..< rg_count r] (empty_page, 0))
               in if lp_HasMore page \<and> lp_Items page \<noteq> []
                  then page\<lparr>lp_NextBeforeID := en_ID (last (lp_Items page))\<rparr> else page))"

subsection \<open>Fan-out\<close>

text \<open>
  A handler behind \<open>Tee\<close> is its level threshold and its effect on the state \<open>'s\<close> it writes to, with
  the error it returns. The errors are joined in order.
\<close>

record ('s, 'e) slog_handler =
  sh_Enabled :: "int \<Rightarrow> bool"
  sh_Handle :: "log_record \<Rightarrow> 's \<Rightarrow> 'e option \<times> 's"

definition Tee :: "('s, 'e) slog_handler option list \<Rightarrow> ('s, 'e) slog_handler list" where
  "Tee handlers = map the (filter (\<lambda>h. h \<noteq> None) handlers)"

definition tee_Enabled :: "('s, 'e) slog_handler list \<Rightarrow> int \<Rightarrow> bool" where
  "tee_Enabled hs level = list_ex (\<lambda>h. sh_Enabled h level) hs"

fun tee_Handle :: "('s, 'e) slog_handler list \<Rightarrow> log_record \<Rightarrow> 's \<Rightarrow> 'e list \<times> 's" where
  "tee_Handle [] record0 s = ([], s)"
| "tee_Handle (h # hs) record0 s =
     (if \<not> sh_Enabled h (lr_Level record0) then tee_Handle hs record0 s
      else (let (err, s1) = sh_Handle h record0 s; (errs, s2) = tee_Handle hs record0 s1
            in ((case err of None \<Rightarrow> errs | Some e \<Rightarrow> e # errs), s2)))"

end
