(* ===== verification/LogRing.thy ===== *)
theory LogRing
  imports AppLog
begin

section \<open>The log ring keeps the newest entries\<close>

text \<open>
  The interface of a bounded log, with the list of its contents as abstraction, and the ring of
  AppLog as its instance: after any sequence of appends the ring holds the longest run of newest
  entries that fits its capacity and its byte limit.
\<close>

subsection \<open>The abstract log\<close>

definition fits :: "nat \<Rightarrow> int \<Rightarrow> ('e \<times> int) list \<Rightarrow> bool" where
  "fits capacity limit xs \<longleftrightarrow> length xs \<le> capacity \<and> sum_list (map snd xs) \<le> limit"

text \<open>The longest suffix that fits.\<close>

fun keep_newest :: "nat \<Rightarrow> int \<Rightarrow> ('e \<times> int) list \<Rightarrow> ('e \<times> int) list" where
  "keep_newest capacity limit [] = []"
| "keep_newest capacity limit (x # xs) =
     (if fits capacity limit (x # xs) then x # xs else keep_newest capacity limit xs)"

lemma fits_snoc: "fits c l (xs @ [(e, n)]) \<Longrightarrow> 0 \<le> n \<Longrightarrow> fits c l xs"
  by (auto simp: fits_def)

lemma keep_newest_id: "fits c l xs \<Longrightarrow> keep_newest c l xs = xs"
  by (cases xs) simp_all

lemma keep_newest_fits: "0 \<le> l \<Longrightarrow> fits c l (keep_newest c l xs)"
  by (induction xs) (auto simp: fits_def)

lemma keep_newest_suffix: "\<exists>ys. xs = ys @ keep_newest c l xs"
proof (induction xs)
  case (Cons x xs)
  then show ?case by (metis append_Cons append_Nil keep_newest.simps(2))
qed simp

lemma keep_newest_longest:
  "xs = ys @ zs \<Longrightarrow> fits c l zs \<Longrightarrow> length zs \<le> length (keep_newest c l xs)"
proof (induction xs arbitrary: ys)
  case (Cons x xs)
  show ?case
  proof (cases ys)
    case Nil
    then show ?thesis using Cons.prems by (simp add: keep_newest_id)
  next
    case (Cons y ys')
    then show ?thesis using Cons.IH [of ys'] Cons.prems by auto
  qed
qed simp

lemma keep_newest_snoc:
  "0 \<le> n \<Longrightarrow> keep_newest c l (keep_newest c l xs @ [(e, n)]) = keep_newest c l (xs @ [(e, n)])"
proof (induction xs)
  case (Cons x xs)
  show ?case
  proof (cases "fits c l (x # xs)")
    case False
    then have "\<not> fits c l (x # xs @ [(e, n)])" using fits_snoc [of c l "x # xs" e n] Cons.prems by auto
    with False show ?thesis using Cons by simp
  qed simp
qed simp

text \<open>Entries get the numbers \<open>n + 1, n + 2, \<dots>\<close> in the order in which they are appended.\<close>

fun stamped :: "(nat \<Rightarrow> 'e \<Rightarrow> 'e) \<Rightarrow> nat \<Rightarrow> ('e \<times> int) list \<Rightarrow> ('e \<times> int) list" where
  "stamped stamp n [] = []"
| "stamped stamp n ((e, k) # es) = (stamp (n + 1) e, k) # stamped stamp (n + 1) es"

lemma snd_stamped [simp]: "snd ` set (stamped stamp k es) = snd ` set es"
  by (induction stamp k es rule: stamped.induct) simp_all

lemma keep_newest_append:
  "\<forall>n \<in> snd ` set ys. 0 \<le> n \<Longrightarrow> keep_newest c l (keep_newest c l xs @ ys) = keep_newest c l (xs @ ys)"
proof (induction ys rule: rev_induct)
  case Nil
  then show ?case by (induction xs) (simp_all add: keep_newest_id)
next
  case (snoc y ys)
  obtain e n where y: "y = (e, n)" by (cases y)
  then have ih: "keep_newest c l (keep_newest c l xs @ ys) = keep_newest c l (xs @ ys)" and n: "0 \<le> n"
    using snoc by auto
  show ?case
    using keep_newest_snoc [OF n, of c l "keep_newest c l xs @ ys" e] keep_newest_snoc [OF n, of c l "xs @ ys" e] ih y
    by simp
qed

locale bounded_log =
  fixes contents :: "'r \<Rightarrow> ('e \<times> int) list"
    and log_append :: "'e \<Rightarrow> int \<Rightarrow> 'r \<Rightarrow> 'r"
    and ok :: "'r \<Rightarrow> bool"
    and capacity :: "'r \<Rightarrow> nat"
    and limit :: "'r \<Rightarrow> int"
    and last_id :: "'r \<Rightarrow> nat"
    and stamp :: "nat \<Rightarrow> 'e \<Rightarrow> 'e"
    and max_id :: nat
  assumes append_ok: "ok r \<Longrightarrow> 0 \<le> n \<Longrightarrow> n \<le> limit r \<Longrightarrow> last_id r < max_id \<Longrightarrow> ok (log_append e n r)"
    and append_contents: "ok r \<Longrightarrow> 0 \<le> n \<Longrightarrow> n \<le> limit r \<Longrightarrow> last_id r < max_id \<Longrightarrow>
      contents (log_append e n r) =
        keep_newest (capacity r) (limit r) (contents r @ [(stamp (last_id r + 1) e, n)])"
    and append_bounds: "capacity (log_append e n r) = capacity r" "limit (log_append e n r) = limit r"
    and append_id: "last_id r < max_id \<Longrightarrow> last_id (log_append e n r) = last_id r + 1"
    and contents_fit: "ok r \<Longrightarrow> fits (capacity r) (limit r) (contents r)"
begin

definition append_all :: "('e \<times> int) list \<Rightarrow> 'r \<Rightarrow> 'r" where
  "append_all es r = fold (\<lambda>(e, n). log_append e n) es r"

lemma append_all_simps [simp]:
  "append_all [] r = r" "append_all ((e, n) # es) r = append_all es (log_append e n r)"
  by (simp_all add: append_all_def)

lemma append_all_contents:
  assumes "ok r" and "\<forall>n \<in> snd ` set es. 0 \<le> n \<and> n \<le> limit r" and "last_id r + length es \<le> max_id"
  shows "ok (append_all es r) \<and>
    contents (append_all es r) = keep_newest (capacity r) (limit r) (contents r @ stamped stamp (last_id r) es)"
  using assms
proof (induction es arbitrary: r)
  case Nil
  then show ?case by (simp add: keep_newest_id contents_fit)
next
  case (Cons x es)
  obtain e n where x: "x = (e, n)" by (cases x)
  have n: "0 \<le> n" "n \<le> limit r" "last_id r < max_id" using Cons.prems x by auto
  let ?r = "log_append e n r"
  have ih: "ok (append_all es ?r) \<and> contents (append_all es ?r) =
      keep_newest (capacity r) (limit r) (contents ?r @ stamped stamp (last_id r + 1) es)"
    using Cons.IH [of ?r] Cons.prems append_ok [OF Cons.prems(1) n] append_bounds append_id [OF n(3)] x by simp
  show ?case
    using ih keep_newest_append [of "stamped stamp (last_id r + 1) es" "capacity r" "limit r"
        "contents r @ [(stamp (last_id r + 1) e, n)]"]
      append_contents [OF Cons.prems(1) n] Cons.prems(2) x by simp
qed

end

subsection \<open>The ring\<close>

definition ring_slot :: "ring \<Rightarrow> nat \<Rightarrow> log_entry \<times> int" where
  "ring_slot r i =
     (let s = rg_entries r ! ((rg_head r + i) mod length (rg_entries r)) in (so_entry s, so_size s))"

text \<open>The contents, oldest first.\<close>

definition ring_list :: "ring \<Rightarrow> (log_entry \<times> int) list" where
  "ring_list r = map (ring_slot r) [0 ..< rg_count r]"

definition ring_shape :: "ring \<Rightarrow> bool" where
  "ring_shape r \<longleftrightarrow> rg_head r < length (rg_entries r) \<and> rg_count r \<le> length (rg_entries r) \<and>
     rg_totalBytes r = sum_list (map snd (ring_list r))"

definition ring_ok :: "ring \<Rightarrow> bool" where
  "ring_ok r \<longleftrightarrow> ring_shape r \<and> rg_totalBytes r \<le> lm_totalBytes (rg_limits r)"

definition ring_capacity :: "ring \<Rightarrow> nat" where "ring_capacity r = length (rg_entries r)"
definition ring_limit :: "ring \<Rightarrow> int" where "ring_limit r = lm_totalBytes (rg_limits r)"

definition stamp_entry :: "nat \<Rightarrow> log_entry \<Rightarrow> log_entry" where
  "stamp_entry i e = e\<lparr>en_ID := i\<rparr>"

lemma length_ring_list [simp]: "length (ring_list r) = rg_count r"
  by (simp add: ring_list_def)

lemma wrap_mod: "h < n \<Longrightarrow> i \<le> n \<Longrightarrow> (h + i) mod n = (if h + i < n then h + i else h + i - n)" for h :: nat
  by (auto simp: mod_if)

lemma mod_distinct:
  "h < n \<Longrightarrow> i < n \<Longrightarrow> j < n \<Longrightarrow> (h + i) mod n = (h + j) mod n \<longleftrightarrow> i = j" for h :: nat
  by (auto simp: wrap_mod split: if_splits)

lemma ring_list_evict:
  assumes "ring_shape r" and "0 < rg_count r"
  shows "ring_list (evictOldest r) = tl (ring_list r)" and "ring_shape (evictOldest r)"
proof -
  let ?n = "length (rg_entries r)"
  have shape: "rg_head r < ?n" "rg_count r \<le> ?n" using assms(1) by (simp_all add: ring_shape_def)
  have slot: "ring_slot (evictOldest r) i = ring_slot r (Suc i)" if "i < rg_count r - 1" for i
  proof -
    have "((rg_head r + 1) mod ?n + i) mod ?n = (rg_head r + Suc i) mod ?n"
      by (simp add: mod_add_left_eq)
    moreover have "(rg_head r + Suc i) mod ?n \<noteq> rg_head r"
    proof -
      have "Suc i < ?n" "0 < ?n" using that shape by linarith+
      then show ?thesis using mod_distinct [OF shape(1), of "Suc i" 0] shape(1) by simp
    qed
    ultimately show ?thesis by (simp add: ring_slot_def evictOldest_def Let_def)
  qed
  have cons: "[0 ..< rg_count r] = 0 # map Suc [0 ..< rg_count r - 1]"
    using assms(2) by (simp add: map_Suc_upt upt_conv_Cons)
  have tl: "tl (ring_list r) = map (\<lambda>i. ring_slot r (Suc i)) [0 ..< rg_count r - 1]"
    by (simp add: ring_list_def cons)
  show list: "ring_list (evictOldest r) = tl (ring_list r)"
    unfolding tl using slot by (simp add: ring_list_def) (simp add: evictOldest_def)
  have hd: "ring_list r = ring_slot r 0 # tl (ring_list r)" by (simp add: ring_list_def cons)
  have "snd (ring_slot r 0) = so_size (rg_entries r ! rg_head r)"
    using shape by (simp add: ring_slot_def Let_def)
  then have "rg_totalBytes (evictOldest r) = sum_list (map snd (tl (ring_list r)))"
    using assms(1) hd by (simp add: ring_shape_def evictOldest_def) (metis add_diff_cancel_left' list.simps(9) sum_list.Cons)
  moreover have "0 < ?n" using shape by linarith
  then have "rg_head (evictOldest r) < length (rg_entries (evictOldest r))" by (simp add: evictOldest_def)
  moreover have "rg_count (evictOldest r) \<le> length (rg_entries (evictOldest r))"
    using shape by (simp add: evictOldest_def)
  ultimately show "ring_shape (evictOldest r)" unfolding ring_shape_def list by blast
qed

lemma evict_keeps:
  "rg_limits (evictOldest r) = rg_limits r" "length (rg_entries (evictOldest r)) = length (rg_entries r)"
  "rg_nextID (evictOldest r) = rg_nextID r"
  by (simp_all add: evictOldest_def)

lemma evict_for_contents:
  assumes "ring_shape r" and "0 < length (rg_entries r)" and "n \<le> lm_totalBytes (rg_limits r)"
  shows "ring_shape (evict_for n r) \<and> rg_count (evict_for n r) < length (rg_entries r) \<and>
    rg_totalBytes (evict_for n r) + n \<le> lm_totalBytes (rg_limits r) \<and>
    rg_limits (evict_for n r) = rg_limits r \<and> length (rg_entries (evict_for n r)) = length (rg_entries r) \<and>
    rg_nextID (evict_for n r) = rg_nextID r \<and>
    keep_newest (length (rg_entries r)) (lm_totalBytes (rg_limits r)) (ring_list r @ [(e, n)]) =
      ring_list (evict_for n r) @ [(e, n)]"
  using assms
proof (induction n r rule: evict_for.induct)
  case (1 n r)
  show ?case
  proof (cases "rg_count r > 0 \<and>
      (rg_count r = length (rg_entries r) \<or> rg_totalBytes r + n > lm_totalBytes (rg_limits r))")
    case True
    have step: "evict_for n r = evict_for n (evictOldest r)" using True by (subst evict_for.simps) simp
    have c: "0 < rg_count r" using True by simp
    note ev = ring_list_evict [OF "1.prems"(1) c]
    have "ring_list r = hd (ring_list r) # tl (ring_list r)" using c by (metis length_greater_0_conv length_ring_list list.collapse)
    moreover have "\<not> fits (length (rg_entries r)) (lm_totalBytes (rg_limits r)) (ring_list r @ [(e, n)])"
      using True "1.prems"(1) by (auto simp: fits_def ring_shape_def)
    ultimately have "keep_newest (length (rg_entries r)) (lm_totalBytes (rg_limits r)) (ring_list r @ [(e, n)]) =
        keep_newest (length (rg_entries r)) (lm_totalBytes (rg_limits r)) (ring_list (evictOldest r) @ [(e, n)])"
      using ev(1) by (metis append_Cons keep_newest.simps(2))
    then show ?thesis
      using "1.IH" [OF True ev(2)] "1.prems" by (simp add: step evict_keeps)
  next
    case False
    have step: "evict_for n r = r" using False by (subst evict_for.simps) (simp only: if_False)
    have c: "rg_count r < length (rg_entries r)" "rg_totalBytes r + n \<le> lm_totalBytes (rg_limits r)"
      using False "1.prems" by (auto simp: ring_shape_def ring_list_def)
    then have "fits (length (rg_entries r)) (lm_totalBytes (rg_limits r)) (ring_list r @ [(e, n)])"
      using "1.prems"(1) by (simp add: fits_def ring_shape_def)
    then show ?thesis using c "1.prems"(1) by (simp add: step keep_newest_id)
  qed
qed

lemma ring_append_contents:
  assumes "ring_ok r" and "n \<le> ring_limit r" and "rg_nextID r < 2 ^ 64 - 1"
  shows "ring_ok (ring_append e n r) \<and>
    ring_list (ring_append e n r) =
      keep_newest (ring_capacity r) (ring_limit r) (ring_list r @ [(stamp_entry (rg_nextID r + 1) e, n)]) \<and>
    rg_nextID (ring_append e n r) = rg_nextID r + 1"
proof -
  let ?id = "rg_nextID r + 1"
  let ?base = "r\<lparr>rg_nextID := ?id\<rparr>"
  let ?room = "evict_for n ?base"
  have id: "(rg_nextID r + 1) mod 2 ^ 64 = ?id" using assms(3) by simp
  have "ring_slot ?base = ring_slot r" by (rule ext) (simp add: ring_slot_def)
  then have r0: "ring_list ?base = ring_list r" by (simp add: ring_list_def)
  then have shape0: "ring_shape ?base" using assms(1) by (simp add: ring_ok_def ring_shape_def)
  have pos: "0 < length (rg_entries r)" using assms(1) by (auto simp: ring_ok_def ring_shape_def)
  note ev = evict_for_contents [OF shape0, of n "stamp_entry ?id e"]
  have shape: "ring_shape ?room" and cnt: "rg_count ?room < length (rg_entries r)"
    and tot: "rg_totalBytes ?room + n \<le> ring_limit r" and lim: "rg_limits ?room = rg_limits r"
    and len: "length (rg_entries ?room) = length (rg_entries r)" and nid: "rg_nextID ?room = ?id"
    and keep: "keep_newest (ring_capacity r) (ring_limit r) (ring_list r @ [(stamp_entry ?id e, n)]) =
      ring_list ?room @ [(stamp_entry ?id e, n)]"
    using ev pos assms(2) r0 by (simp_all add: ring_limit_def ring_capacity_def)
  let ?new = "ring_append e n r"
  have new: "rg_head ?new = rg_head ?room" "rg_count ?new = rg_count ?room + 1" "rg_limits ?new = rg_limits r"
    "rg_totalBytes ?new = rg_totalBytes ?room + n" "rg_nextID ?new = ?id"
    "rg_entries ?new = (rg_entries ?room)[(rg_head ?room + rg_count ?room) mod length (rg_entries ?room) :=
       \<lparr>so_entry = stamp_entry ?id e, so_size = n\<rparr>]"
    unfolding ring_append_def id Let_def using lim nid by (simp_all add: stamp_entry_def)
  have head: "rg_head ?room < length (rg_entries ?room)" using shape by (simp add: ring_shape_def)
  have old: "ring_slot ?new i = ring_slot ?room i" if "i < rg_count ?room" for i
  proof -
    have "(rg_head ?room + rg_count ?room) mod length (rg_entries ?room) \<noteq> (rg_head ?room + i) mod length (rg_entries ?room)"
      using mod_distinct [OF head, of "rg_count ?room" i] that cnt len by simp
    then show ?thesis by (simp add: ring_slot_def new Let_def)
  qed
  have "ring_slot ?new (rg_count ?room) = (stamp_entry ?id e, n)"
    using len pos by (simp add: ring_slot_def new Let_def)
  then have list: "ring_list ?new = ring_list ?room @ [(stamp_entry ?id e, n)]"
    using old by (simp add: ring_list_def new)
  have "ring_ok ?new"
    using shape cnt tot head len by (simp add: ring_ok_def ring_shape_def list new ring_limit_def)
  with list keep new(5) show ?thesis by simp
qed

lemma ring_append_keeps [simp]:
  "rg_limits (ring_append e n r) = rg_limits r" "length (rg_entries (ring_append e n r)) = length (rg_entries r)"
  "rg_nextID (ring_append e n r) = (rg_nextID r + 1) mod 2 ^ 64"
proof -
  have "rg_limits (evict_for n r) = rg_limits r \<and> length (rg_entries (evict_for n r)) = length (rg_entries r) \<and>
      rg_nextID (evict_for n r) = rg_nextID r" for n and r :: ring
  proof (induction n r rule: evict_for.induct)
    case (1 n r)
    then show ?case by (subst (1 2 3) evict_for.simps) (auto simp: evict_keeps)
  qed
  then show "rg_limits (ring_append e n r) = rg_limits r" "length (rg_entries (ring_append e n r)) = length (rg_entries r)"
    "rg_nextID (ring_append e n r) = (rg_nextID r + 1) mod 2 ^ 64"
    by (simp_all add: ring_append_def Let_def)
qed

interpretation log_ring: bounded_log ring_list ring_append ring_ok ring_capacity ring_limit rg_nextID stamp_entry "2 ^ 64 - 1"
proof unfold_locales
  fix r :: ring and e n
  assume "ring_ok r" "0 \<le> n" "n \<le> ring_limit r" "rg_nextID r < 2 ^ 64 - 1"
  then show "ring_ok (ring_append e n r)"
    and "ring_list (ring_append e n r) =
      keep_newest (ring_capacity r) (ring_limit r) (ring_list r @ [(stamp_entry (rg_nextID r + 1) e, n)])"
    using ring_append_contents [of r n e] by simp_all
next
  fix r :: ring and e n
  show "ring_capacity (ring_append e n r) = ring_capacity r" "ring_limit (ring_append e n r) = ring_limit r"
    by (simp_all add: ring_capacity_def ring_limit_def)
next
  fix r :: ring and e n
  assume "rg_nextID r < 2 ^ 64 - 1"
  then show "rg_nextID (ring_append e n r) = rg_nextID r + 1"
    by simp
next
  fix r :: ring
  assume "ring_ok r"
  then show "fits (ring_capacity r) (ring_limit r) (ring_list r)"
    by (simp add: ring_ok_def ring_shape_def fits_def ring_capacity_def ring_limit_def)
qed

end
