(* ===== verification/LogText.thy ===== *)
theory LogText
  imports AppLog
begin

section \<open>Text of the log: truncation, field keys, secrets\<close>

text \<open>
  Truncated text is valid and bounded, flattened keys can be split again, and the fields of an entry
  do not depend on any value under a sensitive key.
\<close>

subsection \<open>Truncation\<close>

lemma rune_floor_le: "rune_floor v e \<le> e"
  by (induction e) auto

lemma rune_floor_start: "rune_floor v e = 0 \<or> rune_start (v ! rune_floor v e)"
  by (induction e) auto

lemma valid_take_floor: "valid_utf8 v \<Longrightarrow> e < length v \<Longrightarrow> valid_utf8 (take (rune_floor v e) v)"
  using valid_utf8_cut [of v "rune_floor v e"] rune_floor_start [of v e] rune_floor_le [of v e] by auto

lemma truncate_valid [simp]: "valid_utf8 (truncateUTF8 v limit)"
  by (auto simp: truncateUTF8_def Let_def valid_take_floor valid_utf8_ascii)

lemma truncate_length: "int (length (truncateUTF8 v limit)) \<le> max 0 limit"
proof -
  have "rune_floor s (nat limit) \<le> nat limit" "rune_floor s (nat (limit - 3)) \<le> nat (limit - 3)" for s
    by (rule rune_floor_le)+
  then show ?thesis by (auto simp: truncateUTF8_def Let_def min_def split: if_splits) (smt (verit) nat_eq_iff2 of_nat_mono)+
qed

lemma truncate_prefix:
  "\<exists>e. truncateUTF8 v limit = take e (to_valid_utf8 v) \<or> truncateUTF8 v limit = take e (to_valid_utf8 v) @ ''...''"
  unfolding truncateUTF8_def Let_def by (auto intro: exI [of _ 0] exI [of _ "length (to_valid_utf8 v)"])

lemma truncate_id: "int (length (to_valid_utf8 v)) \<le> limit \<Longrightarrow> truncateUTF8 v limit = to_valid_utf8 v"
  by (cases "to_valid_utf8 v") (auto simp: truncateUTF8_def Let_def)

lemma truncate_idem [simp]: "truncateUTF8 (truncateUTF8 v limit) limit = truncateUTF8 v limit"
proof (cases "limit \<le> 0")
  case False
  then show ?thesis using truncate_id [of "truncateUTF8 v limit" limit] truncate_length [of v limit] by simp
qed (simp add: truncateUTF8_def)

subsection \<open>Keys\<close>

definition esc_rune :: "rune \<Rightarrow> rune list" where
  "esc_rune r = (if r = 92 then [92, 92] else if r = 46 then [92, 46] else [r])"

definition escape_key :: "string \<Rightarrow> string" where
  "escape_key part = replace_byte (CHR ''.'') [CHR 0x5C, CHR ''.''] (replace_byte (CHR 0x5C) [CHR 0x5C, CHR 0x5C] part)"

lemma escape_key_append: "escape_key (a @ b) = escape_key a @ escape_key b"
  by (simp add: escape_key_def replace_byte_append)

lemma escape_key_wide: "(\<And>c. c \<in> set u \<Longrightarrow> 128 \<le> byte_val c) \<Longrightarrow> escape_key u = u"
proof -
  assume "\<And>c. c \<in> set u \<Longrightarrow> 128 \<le> byte_val c"
  then have "CHR ''.'' \<notin> set u" "CHR 0x5C \<notin> set u" by force+
  then show ?thesis by (simp add: escape_key_def replace_byte_absent)
qed

lemma char_eq_val: "c = d \<longleftrightarrow> byte_val c = byte_val d" for c d :: char
  by simp

lemma escape_key_runes:
  "valid_utf8 s \<Longrightarrow> valid_utf8 (escape_key s) \<and> runes (escape_key s) = concat (map esc_rune (runes s))"
proof (induction s rule: valid_utf8_induct)
  case Nil
  then show ?case by (simp add: escape_key_def)
next
  case (rune u t)
  show ?case
  proof (cases rule: one_rune_cases [OF rune(1)])
    case (1 c)
    have e: "escape_key u = (if byte_val c = 92 then [CHR 0x5C, CHR 0x5C] else if byte_val c = 46 then [CHR 0x5C, CHR ''.''] else [c])"
      using 1 char_eq_val [of c "CHR 0x5C"] char_eq_val [of c "CHR ''.''"] by (simp add: escape_key_def)
    have v: "valid_utf8 (escape_key u)" using 1 e by (simp add: valid_utf8_ascii)
    have r: "runes (escape_key u) = esc_rune (byte_val c)" using 1 e by (simp add: esc_rune_def runes_ascii)
    have "fst (decode_rune u) = byte_val c" using 1 decode_rune_ascii [of c "[]"] by simp
    then show ?thesis
      using rune.IH
      by (simp add: escape_key_append runes_append [OF v] runes_rune_append [OF rune(1)] valid_utf8_append [OF v] r)
  next
    case 2
    have e: "escape_key u = u" using 2(1) by (rule escape_key_wide)
    have "esc_rune (fst (decode_rune u)) = [fst (decode_rune u)]" using 2(2) by (simp add: esc_rune_def)
    then show ?thesis
      using rune.IH rune(1) by (simp add: escape_key_append e valid_rune_append runes_rune_append)
  qed
qed

lemma split_key_escaped:
  "split_key (concat (map esc_rune rs) @ rest) segs cur False =
   split_key rest segs (cur @ string_of_runes rs) False"
proof (induction rs arbitrary: cur)
  case (Cons r rs)
  then show ?case by (auto simp: esc_rune_def)
qed simp

lemma flattenKey_Cons:
  "flattenKey (p # ps) = escape_key p @ concat (map (\<lambda>q. CHR ''.'' # escape_key q) ps)"
  by (simp add: flattenKey_def join_def escape_key_def comp_def)

lemma runes_dot: "runes (CHR ''.'' # s) = 46 # runes s"
  by (simp add: runes_ascii_Cons)

lemma split_rest:
  "\<forall>q \<in> set ps. valid_utf8 q \<Longrightarrow>
   split_key (runes (concat (map (\<lambda>q. CHR ''.'' # escape_key q) ps))) segs cur False = segs @ cur # ps"
proof (induction ps arbitrary: segs cur)
  case (Cons p ps)
  have v: "valid_utf8 p" using Cons.prems by simp
  let ?rest = "concat (map (\<lambda>q. CHR ''.'' # escape_key q) ps)"
  have "split_key (runes (concat (map (\<lambda>q. CHR ''.'' # escape_key q) (p # ps)))) segs cur False =
      split_key (concat (map esc_rune (runes p)) @ runes ?rest) (segs @ [cur]) [] False"
    using escape_key_runes [OF v] by (simp add: runes_dot runes_append)
  also have "\<dots> = split_key (runes ?rest) (segs @ [cur]) p False"
    by (simp add: split_key_escaped string_of_runes_runes [OF v])
  also have "\<dots> = (segs @ [cur]) @ p # ps" using Cons by simp
  finally show ?case by simp
qed simp

lemma split_flatten: "\<forall>q \<in> set (p # ps). valid_utf8 q \<Longrightarrow> splitFlattenedKey (flattenKey (p # ps)) = p # ps"
proof -
  assume v: "\<forall>q \<in> set (p # ps). valid_utf8 q"
  then have p: "valid_utf8 p" by simp
  let ?rest = "concat (map (\<lambda>q. CHR ''.'' # escape_key q) ps)"
  have "splitFlattenedKey (flattenKey (p # ps)) =
      split_key (concat (map esc_rune (runes p)) @ runes ?rest) [] [] False"
    using escape_key_runes [OF p] by (simp add: splitFlattenedKey_def flattenKey_Cons runes_append)
  also have "\<dots> = split_key (runes ?rest) [] p False"
    by (simp add: split_key_escaped string_of_runes_runes [OF p])
  also have "\<dots> = p # ps" using split_rest [of ps "[]" p] v by simp
  finally show ?thesis .
qed

subsection \<open>Secrets\<close>

text \<open>Masking forgets every value whose path is sensitive, and keeps the rest of the record.\<close>

fun mask_attr :: "string list \<Rightarrow> string \<times> slog_value \<Rightarrow> string \<times> slog_value"
and mask_attrs :: "string list \<Rightarrow> (string \<times> slog_value) list \<Rightarrow> (string \<times> slog_value) list" where
  "mask_attr groups (key, v) =
     (key,
      if key = [] \<and> v = VNil then VNil
      else if sensitiveKeyParts (groups @ [key]) \<and> (\<not> is_group v \<or> key \<noteq> []) then VString []
      else (case v of
              VGroup attrs \<Rightarrow> VGroup (mask_attrs (if key \<noteq> [] then groups @ [key] else groups) attrs)
            | VLogValuer (VGroup attrs) \<Rightarrow>
                VLogValuer (VGroup (mask_attrs (if key \<noteq> [] then groups @ [key] else groups) attrs))
            | _ \<Rightarrow> v))"
| "mask_attrs groups [] = []"
| "mask_attrs groups (a # xs) = mask_attr groups a # mask_attrs groups xs"

lemma is_group_simps [simp]:
  "is_group (VGroup xs)" "\<not> is_group (VString s)" "\<not> is_group (VBool b)" "\<not> is_group (VInt i)" "\<not> is_group (VUint n)"
  "\<not> is_group (VText s)" "\<not> is_group (VAny s)" "\<not> is_group VNil" "\<not> is_group (VLogValuer w)"
  by (simp_all add: is_group_def)

lemma addAttr_masked:
  "addAttr lim groups (mask_attr groups a) vals = addAttr lim groups a vals"
  "addAttrs lim groups (mask_attrs groups xs) vals = addAttrs lim groups xs vals"
proof (induction lim groups a vals and lim groups xs vals rule: addAttr_addAttrs.induct)
  case (1 lim groups key v vals)
  show ?case
  proof (cases "key = [] \<and> v = VNil \<or> sensitiveKeyParts (groups @ [key]) \<and> (\<not> is_group v \<or> key \<noteq> [])")
    case True
    then show ?thesis by (auto simp: Let_def)
  next
    case False
    then show ?thesis
      using 1 by (auto simp: Let_def split: slog_value.split)
  qed
qed simp_all

definition mask_record :: "string list \<Rightarrow> log_record \<Rightarrow> log_record" where
  "mask_record groups record0 = record0\<lparr>lr_Attrs := map (mask_attr groups) (lr_Attrs record0)\<rparr>"

definition mask_handler :: "handler \<Rightarrow> handler" where
  "mask_handler h = h\<lparr>ha_attrs := map (\<lambda>(groups, a). (groups, mask_attr groups a)) (ha_attrs h)\<rparr>"

lemma fold_masked:
  "fold (addAttr lim groups) (map (mask_attr groups) xs) vals = fold (addAttr lim groups) xs vals"
  "fold (\<lambda>(groups, a). addAttr lim groups a) (map (\<lambda>(groups, a). (groups, mask_attr groups a)) bs) vals =
   fold (\<lambda>(groups, a). addAttr lim groups a) bs vals"
proof -
  show "fold (addAttr lim groups) (map (mask_attr groups) xs) vals = fold (addAttr lim groups) xs vals"
    by (induction xs arbitrary: vals) (simp_all add: addAttr_masked)
  show "fold (\<lambda>(groups, a). addAttr lim groups a) (map (\<lambda>(groups, a). (groups, mask_attr groups a)) bs) vals =
    fold (\<lambda>(groups, a). addAttr lim groups a) bs vals"
    by (induction bs arbitrary: vals) (simp_all add: addAttr_masked case_prod_beta del: addAttr.simps mask_attr.simps)
qed

lemma collect_masked: "collect_fields lim (mask_handler h) (mask_record (ha_groups h) record0) = collect_fields lim h record0"
  by (simp add: collect_fields_def mask_handler_def mask_record_def fold_masked)

lemma Handle_masked: "Handle (mask_handler h) (mask_record (ha_groups h) record0) r = Handle h record0 r"
  by (simp add: Handle_def collect_masked) (simp add: buildEntry_def mask_record_def)

text \<open>Flattened field keys are unambiguous: a path of valid segments, with dots and backslashes anywhere,
  is read back xs the same segments, so a suffix filter matches exactly the last segment.\<close>

theorem field_key_roundtrip:
  assumes "parts \<noteq> []" and "\<forall>p \<in> set parts. valid_utf8 p"
  shows "splitFlattenedKey (flattenKey parts) = parts \<and>
    (FieldKeyHasSuffix (flattenKey parts) name \<longleftrightarrow> last parts = name)"
  using split_flatten [of "hd parts" "tl parts"] assms by (simp add: FieldKeyHasSuffix_def)

text \<open>Truncation is safe: the result is valid UTF-8 within the limit, it is a cut of the sanitised text,
  with three dots when there is room for them, and text that fits is kept whole.\<close>

theorem truncation_safe:
  "valid_utf8 (truncateUTF8 v limit) \<and> int (length (truncateUTF8 v limit)) \<le> max 0 limit \<and>
   (\<exists>e. truncateUTF8 v limit = take e (to_valid_utf8 v) \<or> truncateUTF8 v limit = take e (to_valid_utf8 v) @ ''...'') \<and>
   (int (length (to_valid_utf8 v)) \<le> limit \<longrightarrow> truncateUTF8 v limit = to_valid_utf8 v)"
  using truncate_length truncate_prefix truncate_id by simp

text \<open>C31: Secrets do not reach the log: two log calls that differ only in vals under sensitive keys (at any
  group depth, bound to the handler or in the record) leave exactly the same ring.\<close>

theorem secrets_stay_out_of_log:
  assumes "mask_handler h = mask_handler h'"
    and "mask_record (ha_groups h) record0 = mask_record (ha_groups h') record'"
  shows "Handle h record0 r = Handle h' record' r"
  using Handle_masked [of h record0 r] Handle_masked [of h' record' r] assms by simp

lemma field_key_roundtrip_witness:
  "splitFlattenedKey (flattenKey [''a.b'', ''c'']) = [''a.b'', ''c'']"
  using field_key_roundtrip [of "[''a.b'', ''c'']" "[]"] by (simp add: valid_utf8_ascii)

lemma truncation_safe_witness: "truncateUTF8 ''abc'' 3 = ''abc''"
  using truncation_safe [of "''abc''" 3] by (simp add: valid_utf8_ascii)

definition demo_login :: "string \<Rightarrow> log_record" where
  "demo_login secret = \<lparr>lr_Time = 0, lr_Level = 0, lr_Message = ''login'', lr_Frame = None,
     lr_Attrs = [(''user'', VString ''root''), (''http'', VGroup [(''password'', VString secret)])]\<rparr>"

lemma secrets_stay_out_of_log_witness:
  "Handle new_handler (demo_login ''hunter2'') (new_ring 4 defaultLimits) =
   Handle new_handler (demo_login ''letmein'') (new_ring 4 defaultLimits)"
proof (rule secrets_stay_out_of_log)
  have "sensitiveKey ''password''"
    by (simp add: sensitiveKey_def sensitive_markers_def to_lower_def lower_byte_def str_contains_def has_prefix_def)
  then show "mask_record (ha_groups new_handler) (demo_login ''hunter2'') =
      mask_record (ha_groups new_handler) (demo_login ''letmein'')"
    by (simp add: mask_record_def demo_login_def new_handler_def sensitiveKeyParts_def)
qed (rule refl)

end
