(* ===== verification/LogPages.thy ===== *)
theory LogPages
  imports LogRing LogText
begin

section \<open>Logging and paging\<close>

text \<open>
  Every sequence of log calls leaves the newest entries that fit, each within its own limits, and a
  walk along the page cursor lists the matching entries once, newest first.
\<close>

subsection \<open>Entries are bounded\<close>

lemma normalizedLimits_positive:
  "0 < lm_messageBytes (normalizedLimits l)" "0 < lm_fieldKeyBytes (normalizedLimits l)"
  "0 < lm_fieldValueBytes (normalizedLimits l)" "entryOverhead < lm_entryBytes (normalizedLimits l)"
  "lm_entryBytes (normalizedLimits l) \<le> lm_totalBytes (normalizedLimits l)" "0 < lm_fields (normalizedLimits l)"
  "0 < lm_sourceBytes (normalizedLimits l)"
  by (simp_all add: normalizedLimits_def defaultLimits_def Let_def MaxMessageBytes_def MaxFieldKeyBytes_def
      MaxFieldValueBytes_def MaxEntryBytes_def MaxFields_def maxSourceBytes_def entryOverhead_def)

definition field_ok :: "limits \<Rightarrow> string \<times> string \<Rightarrow> bool" where
  "field_ok lim = (\<lambda>(k, v). int (length k) \<le> lm_fieldKeyBytes lim \<and> int (length v) \<le> lm_fieldValueBytes lim \<and>
     valid_utf8 k \<and> valid_utf8 v)"

definition entry_bounded :: "limits \<Rightarrow> log_entry \<Rightarrow> bool" where
  "entry_bounded lim e \<longleftrightarrow>
     int (length (en_Message e)) \<le> lm_messageBytes lim \<and> int (length (en_Source e)) \<le> lm_sourceBytes lim \<and>
     int (length (en_Fields e)) \<le> lm_fields lim \<and> list_all (field_ok lim) (en_Fields e) \<and>
     valid_utf8 (en_Message e) \<and> valid_utf8 (en_Source e)"

lemma entry_bounded_stamp [simp]: "entry_bounded lim (stamp_entry i e) = entry_bounded lim e"
  by (simp add: entry_bounded_def stamp_entry_def)

lemma fitText_bounds:
  assumes "fitText v l rem = (t, rem')" and "0 \<le> rem" and "0 < l"
  shows "0 \<le> rem' \<and> rem' \<le> rem \<and> int (length t) \<le> l \<and> valid_utf8 t"
  using assms truncate_length [of v "min l rem"] by (auto simp: fitText_def Let_def split: if_splits)

lemma set_alist_update: "set (AList.update k v xs) \<subseteq> insert (k, v) (set xs)"
  by (induction xs) auto

lemma length_alist_update: "length (AList.update k v xs) \<le> Suc (length xs)"
  by (induction xs) auto

lemma keep_fields_bounds:
  assumes "keep_fields lim vs ret rem kept = (fs, rem')" and "0 \<le> rem" and "list_all (field_ok lim) kept"
    and "int (length kept) \<le> ret" and "ret \<le> lm_fields lim" and "0 < lm_fieldKeyBytes lim" and "0 < lm_fieldValueBytes lim"
  shows "0 \<le> rem' \<and> rem' \<le> rem \<and> list_all (field_ok lim) fs \<and> int (length fs) \<le> lm_fields lim"
  using assms
proof (induction lim vs ret rem kept rule: keep_fields.induct)
  case (2 lim k v fs0 ret rem kept)
  let ?key = "truncateUTF8 k (lm_fieldKeyBytes lim)"
  let ?need = "int (length ?key) + fieldOverhead"
  let ?val = "truncateUTF8 v (min (lm_fieldValueBytes lim) (rem - ?need))"
  show ?case
  proof (cases "ret \<ge> lm_fields lim \<or> rem \<le> ?need")
    case True
    then show ?thesis using "2.prems" by (auto simp: Let_def split: if_splits)
  next
    case False
    have room: "0 < rem - ?need" "int (length ?val) \<le> rem - ?need" "int (length ?val) \<le> lm_fieldValueBytes lim"
      using False truncate_length [of v "min (lm_fieldValueBytes lim) (rem - ?need)"] "2.prems"(7) by auto
    have key: "int (length ?key) \<le> lm_fieldKeyBytes lim" using truncate_length [of k "lm_fieldKeyBytes lim"] "2.prems"(6) by auto
    have call: "keep_fields lim fs0 (ret + 1) (rem - (?need + int (length ?val))) (AList.update ?key ?val kept) = (fs, rem')"
      using False "2.prems"(1) by (simp add: Let_def)
    have ok: "list_all (field_ok lim) (AList.update ?key ?val kept)"
      using "2.prems"(3) key room(3) set_alist_update [of ?key ?val kept]
      by (auto simp: list_all_iff field_ok_def)
    have len: "int (length (AList.update ?key ?val kept)) \<le> ret + 1" using "2.prems"(4) length_alist_update [of ?key ?val kept] by linarith
    have "0 \<le> rem' \<and> rem' \<le> rem - (?need + int (length ?val)) \<and> list_all (field_ok lim) fs \<and> int (length fs) \<le> lm_fields lim"
      by (rule "2.IH") (use False call ok len room "2.prems" in auto)
    moreover have "0 \<le> ?need" by (simp add: fieldOverhead_def)
    ultimately show ?thesis by linarith
  qed
qed auto

lemma buildEntry_bounds:
  assumes "buildEntry record0 vs lim = (e, n)" and "lim = normalizedLimits conf"
  shows "0 \<le> n \<and> n \<le> lm_entryBytes lim \<and> entry_bounded lim e"
proof -
  note pos = normalizedLimits_positive [of conf, folded assms(2)]
  obtain m r1 where m: "fitText (lr_Message record0) (lm_messageBytes lim) (lm_entryBytes lim - entryOverhead) = (m, r1)"
    by fastforce
  obtain s r2 where s: "fitText (sourceLocation (lr_Frame record0)) (lm_sourceBytes lim) r1 = (s, r2)" by fastforce
  obtain fs r3 where fs: "keep_fields lim vs 0 r2 [] = (fs, r3)" by fastforce
  have "0 \<le> r1 \<and> r1 \<le> lm_entryBytes lim - entryOverhead \<and> int (length m) \<le> lm_messageBytes lim \<and> valid_utf8 m"
    by (rule fitText_bounds [OF m]) (use pos in auto)
  moreover from this have "0 \<le> r2 \<and> r2 \<le> r1 \<and> int (length s) \<le> lm_sourceBytes lim \<and> valid_utf8 s"
    by (intro fitText_bounds [OF s]) (use pos in auto)
  moreover from this have "0 \<le> r3 \<and> r3 \<le> r2 \<and> list_all (field_ok lim) fs \<and> int (length fs) \<le> lm_fields lim"
    by (intro keep_fields_bounds [OF fs]) (use pos in auto)
  moreover have "e = \<lparr>en_ID = 0, en_Time = lr_Time record0, en_Level = lr_Level record0, en_Message = m,
       en_Source = s, en_Fields = fs\<rparr>" "n = lm_entryBytes lim - r3"
    using assms(1) by (simp_all add: buildEntry_def m s fs)
  ultimately show ?thesis by (simp add: entry_bounded_def entryOverhead_def)
qed

subsection \<open>Runs\<close>

definition log_events :: "(handler \<times> log_record) list \<Rightarrow> ring \<Rightarrow> ring" where
  "log_events events r = fold (\<lambda>(h, record0). Handle h record0) events r"

definition built :: "limits \<Rightarrow> handler \<times> log_record \<Rightarrow> log_entry \<times> int" where
  "built lim = (\<lambda>(h, record0). buildEntry record0 (collect_fields lim h record0) lim)"

lemma Handle_append: "Handle h record0 r = (case built (rg_limits r) (h, record0) of (e, n) \<Rightarrow> ring_append e n r)"
  by (simp add: Handle_def built_def)

lemma log_events_appends:
  "rg_limits r = lim \<Longrightarrow> log_events events r = log_ring.append_all (map (built lim) events) r"
proof (induction events arbitrary: r)
  case (Cons x events)
  obtain h record0 where x: "x = (h, record0)" by (cases x)
  obtain e n where b: "built lim (h, record0) = (e, n)" by (cases "built lim (h, record0)")
  then show ?case using Cons x by (simp add: log_events_def Handle_append)
qed (simp add: log_events_def)

lemma new_ring_facts [simp]:
  "rg_limits (new_ring c conf) = normalizedLimits conf" "rg_nextID (new_ring c conf) = 0"
  "ring_list (new_ring c conf) = []" "ring_capacity (new_ring c conf) = c"
  "ring_limit (new_ring c conf) = lm_totalBytes (normalizedLimits conf)"
  by (simp_all add: new_ring_def ring_list_def ring_capacity_def ring_limit_def)

lemma new_ring_ok: "0 < c \<Longrightarrow> ring_ok (new_ring c conf)"
  using normalizedLimits_positive(4,5) [of conf]
  by (simp add: ring_ok_def ring_shape_def) (simp add: new_ring_def entryOverhead_def)

lemma built_sizes:
  assumes "lim = normalizedLimits conf" and "n \<in> snd ` set (map (built lim) events)"
  shows "0 \<le> n \<and> n \<le> lm_totalBytes lim"
proof -
  obtain h record0 e where "buildEntry record0 (collect_fields lim h record0) lim = (e, n)"
    using assms(2) by (auto simp: built_def) (metis surjective_pairing)
  then show ?thesis
    using buildEntry_bounds [OF _ assms(1)] normalizedLimits_positive(5) [of conf] assms(1) by fastforce
qed

lemma log_run:
  assumes "0 < c" and "length events < 2 ^ 64" and "lim = normalizedLimits conf"
  shows "ring_ok (log_events events (new_ring c conf)) \<and>
    ring_list (log_events events (new_ring c conf)) =
      keep_newest c (lm_totalBytes lim) (stamped stamp_entry 0 (map (built lim) events))"
proof -
  have "\<forall>n \<in> snd ` set (map (built lim) events). 0 \<le> n \<and> n \<le> ring_limit (new_ring c conf)"
    using built_sizes [OF assms(3)] assms(3) by (simp add: ball_simps)
  from log_ring.append_all_contents [OF new_ring_ok [OF assms(1)] this] assms(2,3)
  show ?thesis by (simp add: log_events_appends [of _ lim])
qed

lemma log_contents_built:
  assumes "0 < c" and "length events < 2 ^ 64" and "lim = normalizedLimits conf"
    and "(e, n) \<in> set (ring_list (log_events events (new_ring c conf)))"
  shows "entry_bounded lim e"
proof -
  have stamped_mem: "(e, n) \<in> set (stamped stamp_entry k xs) \<Longrightarrow> \<exists>e' i. (e', n) \<in> set xs \<and> e = stamp_entry i e'" for k xs
  proof (induction xs arbitrary: k)
    case (Cons x xs)
    obtain a b where "x = (a, b)" by (cases x)
    then show ?case using Cons.prems Cons.IH [of "k + 1"] by (simp, blast)
  qed simp
  have "(e, n) \<in> set (stamped stamp_entry 0 (map (built lim) events))"
    using assms(4) log_run [OF assms(1-3)] keep_newest_suffix
    by (metis (no_types, lifting) Un_iff set_append)
  from stamped_mem [OF this] obtain e' i h record0 where "built lim (h, record0) = (e', n)" "e = stamp_entry i e'"
    by (auto simp: image_iff) (metis surjective_pairing)
  then show ?thesis using buildEntry_bounds [OF _ assms(3)] by (auto simp: built_def)
qed

lemma stamped_ids: "map (\<lambda>x. en_ID (fst x)) (stamped stamp_entry k xs) = [k + 1 ..< k + 1 + length xs]"
proof (induction xs arbitrary: k)
  case (Cons x xs)
  then show ?case by (cases x) (simp add: stamp_entry_def upt_conv_Cons del: upt_Suc)
qed simp

lemma log_ids_increase:
  assumes "0 < c" and "length events < 2 ^ 64"
  shows "sorted_wrt (<) (map (\<lambda>x. en_ID (fst x)) (ring_list (log_events events (new_ring c conf))))"
proof -
  let ?all = "stamped stamp_entry 0 (map (built (normalizedLimits conf)) events)"
  obtain ys where "?all = ys @ ring_list (log_events events (new_ring c conf))"
    using log_run [OF assms refl, of conf] keep_newest_suffix by metis
  moreover have "sorted_wrt (<) (map (\<lambda>x. en_ID (fst x)) ?all)" unfolding stamped_ids by (rule sorted_wrt_upt)
  ultimately show ?thesis by (simp add: sorted_wrt_append)
qed

subsection \<open>Pages\<close>

definition newest_entries :: "ring \<Rightarrow> log_entry list" where
  "newest_entries r = rev (map fst (ring_list r))"

lemma ring_at_newest: "map (ring_at r) [0 ..< rg_count r] = newest_entries r"
proof (rule nth_equalityI)
  fix i
  assume "i < length (map (ring_at r) [0 ..< rg_count r])"
  then have i: "i < rg_count r" by simp
  then have "rg_head r + (rg_count r - Suc i) = rg_head r + rg_count r - 1 - i" by simp
  then show "map (ring_at r) [0 ..< rg_count r] ! i = newest_entries r ! i"
    using i by (simp add: newest_entries_def rev_nth ring_list_def ring_slot_def ring_at_def Let_def)
qed (simp add: newest_entries_def)

definition page_of :: "log_entry list \<Rightarrow> nat \<Rightarrow> nat \<Rightarrow> nat \<Rightarrow> log_page" where
  "page_of entries matches limit offset =
     \<lparr>lp_Items = take limit (drop offset entries), lp_HasMore = (offset + limit < length entries),
      lp_NextBeforeID = 0, lp_Total = matches\<rparr>"

definition before_cursor :: "log_filter \<Rightarrow> log_entry \<Rightarrow> bool" where
  "before_cursor f e \<longleftrightarrow> lf_BeforeID f = 0 \<or> en_ID e < lf_BeforeID f"

lemma list_step_eq:
  "list_step f wanted limit offset c (page, n) =
     (let page1 = page\<lparr>lp_Total := lp_Total page + 1\<rparr> in
      if \<not> entry_matches f wanted c then (page, n)
      else if \<not> before_cursor f c then (page1, n)
      else if n < offset then (page1, n + 1)
      else if int (length (lp_Items page)) \<ge> limit then (page1\<lparr>lp_HasMore := True\<rparr>, n + 1)
      else (page1\<lparr>lp_Items := lp_Items page @ [c]\<rparr>, n + 1))"
  by (auto simp: list_step_def before_cursor_def Let_def)

lemma list_loop:
  "fold (list_step f wanted (int limit) (int offset)) es (empty_page, 0) =
   (page_of (filter (before_cursor f) (filter (entry_matches f wanted) es))
      (length (filter (entry_matches f wanted) es)) limit offset,
    int (length (filter (before_cursor f) (filter (entry_matches f wanted) es))))"
proof (induction es rule: rev_induct)
  case Nil
  then show ?case by (simp add: page_of_def empty_page_def)
next
  case (snoc c es)
  let ?M = "filter (entry_matches f wanted) es"
  let ?E = "filter (before_cursor f) ?M"
  show ?case
  proof (cases "entry_matches f wanted c")
    case False
    then show ?thesis using snoc by (simp add: list_step_eq Let_def)
  next
    case m: True
    show ?thesis
    proof (cases "before_cursor f c")
      case False
      then show ?thesis using snoc m by (simp add: list_step_eq Let_def page_of_def)
    next
      case True
      consider "length ?E < offset" | "offset \<le> length ?E" "length ?E < offset + limit" | "offset + limit \<le> length ?E"
        by linarith
      then show ?thesis
      proof cases
        case 1
        then show ?thesis using snoc m True by (simp add: list_step_eq Let_def page_of_def)
      next
        case 2
        then have "min (length ?E - offset) limit = length ?E - offset" by simp
        then show ?thesis using 2 snoc m True by (simp add: list_step_eq Let_def page_of_def)
      next
        case 3
        then have "min (length ?E - offset) limit = limit" by simp
        then show ?thesis using 3 snoc m True by (simp add: list_step_eq Let_def page_of_def)
      qed
    qed
  qed
qed

definition page_limit :: "log_filter \<Rightarrow> nat" where "page_limit f = nat (clamp_limit (lf_Limit f))"
definition page_offset :: "log_filter \<Rightarrow> nat" where "page_offset f = nat (lf_Offset f)"

definition wanted_level :: "log_filter \<Rightarrow> int option" where
  "wanted_level f = (case parseLevel (lf_Level f) of OneLevel l \<Rightarrow> Some l | _ \<Rightarrow> None)"

definition filter_valid :: "log_filter \<Rightarrow> bool" where
  "filter_valid f \<longleftrightarrow> parseLevel (lf_Level f) \<noteq> BadLevel \<and> trim_space (lf_Category f) \<in> {[], CategoryCreation}"

definition matching :: "ring \<Rightarrow> log_filter \<Rightarrow> log_entry list" where
  "matching r f = filter (entry_matches f (wanted_level f)) (newest_entries r)"

definition eligible :: "ring \<Rightarrow> log_filter \<Rightarrow> log_entry list" where
  "eligible r f = filter (before_cursor f) (matching r f)"

lemma page_limit_pos: "0 < page_limit f" "int (page_limit f) = clamp_limit (lf_Limit f)"
  by (simp_all add: page_limit_def clamp_limit_def Let_def DefaultListLimit_def MaxListLimit_def)

lemma fold_map: "fold f (map g xs) s = fold (\<lambda>x. f (g x)) xs s"
  by (induction xs arbitrary: s) simp_all

lemma ListEntries_page:
  assumes "filter_valid f"
  shows "ListEntries r f =
    (let page = page_of (eligible r f) (length (matching r f)) (page_limit f) (page_offset f) in
     if lp_HasMore page then page\<lparr>lp_NextBeforeID := en_ID (last (lp_Items page))\<rparr> else page)"
proof -
  let ?page = "page_of (eligible r f) (length (matching r f)) (page_limit f) (page_offset f)"
  have off: "(if lf_Offset f < 0 then 0 else lf_Offset f) = int (page_offset f)" by (simp add: page_offset_def)
  have "fst (fold (\<lambda>i. list_step f (wanted_level f) (clamp_limit (lf_Limit f)) (int (page_offset f)) (ring_at r i))
      [0 ..< rg_count r] (empty_page, 0)) = ?page"
    using list_loop [of f "wanted_level f" "page_limit f" "page_offset f" "newest_entries r"]
    by (simp add: ring_at_newest [symmetric] fold_map page_limit_pos matching_def eligible_def)
  moreover have "lp_Items ?page \<noteq> []" if "lp_HasMore ?page"
    using that page_limit_pos(1) [of f] by (auto simp: page_of_def)
  ultimately show ?thesis
    using assms off by (auto simp: ListEntries_def filter_valid_def wanted_level_def Let_def)
qed

lemma decreasing_below:
  "sorted_wrt (\<lambda>a b. g b < g a) xs \<Longrightarrow> k < length xs \<Longrightarrow> filter (\<lambda>x. g x < g (xs ! k)) xs = drop (Suc k) xs"
  for g :: "'a \<Rightarrow> nat"
proof (induction xs arbitrary: k)
  case (Cons x xs)
  show ?case
  proof (cases k)
    case 0
    then show ?thesis using Cons.prems by (simp add: filter_id_conv)
  next
    case (Suc j)
    then show ?thesis using Cons by (auto simp: not_less intro: less_imp_le)
  qed
qed simp

definition log_ids_fall :: "ring \<Rightarrow> bool" where
  "log_ids_fall r \<longleftrightarrow> sorted_wrt (\<lambda>a b. en_ID b < en_ID a) (newest_entries r)"

lemma log_run_falls:
  "0 < c \<Longrightarrow> length events < 2 ^ 64 \<Longrightarrow> log_ids_fall (log_events events (new_ring c conf))"
  using log_ids_increase [of c events conf]
  by (simp add: log_ids_fall_def newest_entries_def sorted_wrt_rev sorted_wrt_map)

lemma sorted_wrt_filter_same: "sorted_wrt P xs \<Longrightarrow> sorted_wrt P (filter Q xs)"
  by (induction xs) auto

lemma eligible_after_cursor:
  assumes "log_ids_fall r" and "k < length (eligible r f)"
    and "entry_matches f' (wanted_level f') = entry_matches f (wanted_level f)"
    and "lf_BeforeID f' = en_ID (eligible r f ! k)" and "lf_BeforeID f' \<noteq> 0"
  shows "eligible r f' = drop (Suc k) (eligible r f)"
proof -
  let ?id = "en_ID (eligible r f ! k)"
  have "sorted_wrt (\<lambda>a b. en_ID b < en_ID a) (eligible r f)"
    using assms(1) by (simp add: log_ids_fall_def eligible_def matching_def sorted_wrt_filter_same)
  from decreasing_below [OF this assms(2)] have d: "filter (\<lambda>e. en_ID e < ?id) (eligible r f) = drop (Suc k) (eligible r f)" .
  have "before_cursor f (eligible r f ! k)"
    using assms(2) nth_mem [OF assms(2)] by (simp add: eligible_def)
  then have "before_cursor f e" if "en_ID e < ?id" for e using that by (auto simp: before_cursor_def)
  then have "filter (\<lambda>e. en_ID e < ?id) (eligible r f) = filter (\<lambda>e. en_ID e < ?id) (matching r f)"
    by (auto simp: eligible_def intro: filter_cong)
  moreover have "matching r f' = matching r f" by (simp add: matching_def assms(3))
  moreover have "before_cursor f' = (\<lambda>e. en_ID e < ?id)" using assms(4,5) by (auto simp: before_cursor_def)
  ultimately show ?thesis using d by (simp add: eligible_def [of r f'])
qed

lemma run_ids_positive:
  assumes "0 < c" and "length events < 2 ^ 64" and "e \<in> set (newest_entries (log_events events (new_ring c conf)))"
  shows "0 < en_ID e"
proof -
  let ?all = "stamped stamp_entry 0 (map (built (normalizedLimits conf)) events)"
  obtain ys where "?all = ys @ ring_list (log_events events (new_ring c conf))"
    using log_run [OF assms(1,2) refl, of conf] keep_newest_suffix by metis
  then have "e \<in> set (map fst ?all)" using assms(3) by (auto simp: newest_entries_def)
  then have "en_ID e \<in> set (map (\<lambda>x. en_ID (fst x)) ?all)" by auto
  then show ?thesis unfolding stamped_ids by (auto simp del: upt_Suc)
qed

subsection \<open>Properties\<close>

text \<open>C35: The ring implements the bounded log: after any sequence of log calls its contents, oldest first, are
  exactly the longest run of the newest entries that fits the capacity and the byte limit, numbered in
  the order of the calls.\<close>

theorem log_keeps_newest:
  assumes "0 < capacity" and "length events < 2 ^ 64"
  shows "ring_list (log_events events (new_ring capacity conf)) =
    keep_newest capacity (lm_totalBytes (normalizedLimits conf))
      (stamped stamp_entry 0 (map (built (normalizedLimits conf)) events))"
  using log_run [OF assms refl, of conf] by simp

text \<open>The log is bounded whatever is logged: never more entries than the capacity nor more bytes than the
  limit, and every stored entry has valid UTF-8 text within the limits of the message, the source, the
  field keys and values and the number of fields.\<close>

theorem log_is_bounded:
  assumes "0 < capacity" and "length events < 2 ^ 64" and "r = log_events events (new_ring capacity conf)"
  shows "length (ring_list r) \<le> capacity \<and>
    sum_list (map snd (ring_list r)) \<le> lm_totalBytes (normalizedLimits conf) \<and>
    (\<forall>(e, n) \<in> set (ring_list r). entry_bounded (normalizedLimits conf) e)"
proof -
  have "fits capacity (lm_totalBytes (normalizedLimits conf)) (ring_list r)"
    using log_run [OF assms(1,2) refl, of conf] normalizedLimits_positive(4,5) [of conf] assms(3)
    by (simp add: keep_newest_fits entryOverhead_def)
  then show ?thesis using log_contents_built [OF assms(1,2) refl] assms(3) by (auto simp: fits_def)
qed

text \<open>A page is the requested window of the matching entries, newest first: the items after the cursor
  and the offset up to the limit, whether more follow, and the total number of matches.\<close>

theorem log_page_window:
  assumes "filter_valid f"
  shows "lp_Items (ListEntries r f) = take (page_limit f) (drop (page_offset f) (eligible r f)) \<and>
    lp_HasMore (ListEntries r f) = (page_offset f + page_limit f < length (eligible r f)) \<and>
    lp_Total (ListEntries r f) = length (matching r f)"
  using ListEntries_page [OF assms, of r] by (simp add: Let_def page_of_def)

text \<open>The page cursor neither skips nor repeats: when a page has more, the page with its cursor and no
  offset continues exactly where it ended, and a page without more is the last.\<close>

theorem log_cursor_continues:
  assumes "0 < capacity" and "length events < 2 ^ 64" and "r = log_events events (new_ring capacity conf)"
    and "filter_valid f" and "lp_HasMore (ListEntries r f)"
    and "f' = f\<lparr>lf_BeforeID := lp_NextBeforeID (ListEntries r f), lf_Offset := 0\<rparr>"
  shows "lp_Items (ListEntries r f) @ lp_Items (ListEntries r f') =
    take (2 * page_limit f) (drop (page_offset f) (eligible r f))"
proof -
  let ?E = "eligible r f" and ?o = "page_offset f" and ?l = "page_limit f"
  have more: "?o + ?l < length ?E" and items: "lp_Items (ListEntries r f) = take ?l (drop ?o ?E)"
    using ListEntries_page [OF assms(4), of r] assms(5) by (auto simp: Let_def page_of_def split: if_splits)
  have pos: "0 < ?l" by (rule page_limit_pos)
  let ?k = "?o + ?l - 1"
  have k: "?k < length ?E" "Suc ?k = ?o + ?l" using more pos by linarith+
  have "last (take ?l (drop ?o ?E)) = ?E ! ?k"
    using more pos by (simp add: last_conv_nth min_def)
  then have cursor: "lp_NextBeforeID (ListEntries r f) = en_ID (?E ! ?k)"
    using ListEntries_page [OF assms(4), of r] more by (simp add: Let_def page_of_def)
  have "?E ! ?k \<in> set (newest_entries r)" using nth_mem [OF k(1)] by (simp add: eligible_def matching_def)
  then have id: "en_ID (?E ! ?k) \<noteq> 0" using run_ids_positive [OF assms(1,2)] assms(3) by fastforce
  have lvl: "wanted_level f' = wanted_level f" by (simp add: wanted_level_def assms(6))
  have "entry_matches f' (wanted_level f') = entry_matches f (wanted_level f)"
    unfolding lvl by (rule ext) (simp add: entry_matches_def assms(6))
  then have "eligible r f' = drop (?o + ?l) ?E"
    using eligible_after_cursor [OF _ k(1), of f'] log_run_falls [OF assms(1,2)] assms(3,6) cursor id k(2) by simp
  moreover have "filter_valid f'" "page_limit f' = ?l" "page_offset f' = 0"
    using assms(4) by (simp_all add: assms(6) filter_valid_def page_limit_def page_offset_def)
  ultimately have "lp_Items (ListEntries r f') = take ?l (drop (?o + ?l) ?E)"
    using ListEntries_page [of f' r] by (simp add: Let_def page_of_def)
  then have "lp_Items (ListEntries r f) @ lp_Items (ListEntries r f') =
      take ?l (drop ?o ?E) @ take ?l (drop ?l (drop ?o ?E))"
    using items by (simp add: add.commute)
  also have "\<dots> = take (2 * ?l) (drop ?o ?E)" by (simp add: take_add mult_2)
  finally show ?thesis .
qed

text \<open>Binding attributes to a handler is the same as logging them first in every record.\<close>

lemma bound_attributes_are_logged:
  "Handle (WithAttrs h attrs) record0 r = Handle h (record0\<lparr>lr_Attrs := attrs @ lr_Attrs record0\<rparr>) r"
proof -
  have "fold (\<lambda>(g, a). addAttr lim g a) (map (Pair (ha_groups h)) attrs) vs = fold (addAttr lim (ha_groups h)) attrs vs" for lim vs
    by (induction attrs arbitrary: vs) (simp_all del: addAttr.simps)
  then have "collect_fields lim (WithAttrs h attrs) record0 =
      collect_fields lim h (record0\<lparr>lr_Attrs := attrs @ lr_Attrs record0\<rparr>)" for lim
    by (simp add: collect_fields_def WithAttrs_def)
  then show ?thesis by (simp add: Handle_def) (simp add: buildEntry_def)
qed

subsection \<open>A small log\<close>

definition demo_record :: log_record where
  "demo_record = \<lparr>lr_Time = 0, lr_Level = 0, lr_Message = [], lr_Frame = None, lr_Attrs = []\<rparr>"

definition demo_events :: "(handler \<times> log_record) list" where
  "demo_events = [(new_handler, demo_record), (new_handler, demo_record)]"

definition demo_query :: log_filter where
  "demo_query = \<lparr>lf_Level = [], lf_Category = [], lf_Query = [], lf_AccountID = None, lf_SyncRunID = [],
     lf_AutoCreateRunID = [], lf_BeforeID = 0, lf_Offset = 0, lf_Limit = 1\<rparr>"

definition demo_entry_of :: "nat \<Rightarrow> log_entry" where
  "demo_entry_of i = \<lparr>en_ID = i, en_Time = 0, en_Level = 0, en_Message = [], en_Source = [], en_Fields = []\<rparr>"

lemma demo_limits: "normalizedLimits defaultLimits = defaultLimits"
  by (simp add: normalizedLimits_def defaultLimits_def Let_def MaxMessageBytes_def MaxFieldKeyBytes_def
      MaxFieldValueBytes_def MaxEntryBytes_def MaxFields_def maxSourceBytes_def entryOverhead_def MaxStoredBytes_def)

lemma demo_built: "built defaultLimits (new_handler, demo_record) = (demo_entry_of 0, 64)"
  by (simp add: built_def buildEntry_def collect_fields_def new_handler_def demo_record_def fitText_def truncateUTF8_def
      sourceLocation_def defaultLimits_def demo_entry_of_def entryOverhead_def MaxEntryBytes_def MaxMessageBytes_def
      maxSourceBytes_def)

lemma demo_kept:
  "keep_newest 2 (lm_totalBytes defaultLimits) (stamped stamp_entry 0 (map (built defaultLimits) demo_events)) =
   [(demo_entry_of 1, 64), (demo_entry_of 2, 64)]"
  by (simp add: demo_events_def demo_built)
     (simp add: fits_def defaultLimits_def MaxStoredBytes_def stamp_entry_def demo_entry_of_def)

definition demo_log :: ring where "demo_log = log_events demo_events (new_ring 2 defaultLimits)"

lemma demo_log_list: "ring_list demo_log = [(demo_entry_of 1, 64), (demo_entry_of 2, 64)]"
  using log_run [of 2 demo_events "defaultLimits" defaultLimits] demo_kept
  by (simp add: demo_log_def demo_limits) (simp add: demo_events_def)

lemma demo_eligible: "eligible demo_log demo_query = [demo_entry_of 2, demo_entry_of 1]"
  by (simp add: eligible_def matching_def newest_entries_def demo_log_list wanted_level_def parseLevel_def
      demo_query_def entry_matches_def before_cursor_def CategoryCreation_def to_lower_def Let_def)

lemma demo_valid: "filter_valid demo_query"
  by (simp add: filter_valid_def demo_query_def parseLevel_def Let_def)

lemma demo_more: "lp_HasMore (ListEntries demo_log demo_query)"
  using ListEntries_page [OF demo_valid, of demo_log]
  by (simp add: demo_eligible page_of_def Let_def page_limit_def page_offset_def)
     (simp add: demo_query_def clamp_limit_def MaxListLimit_def)

lemma log_keeps_newest_witness: "ring_list demo_log = [(demo_entry_of 1, 64), (demo_entry_of 2, 64)]"
  using log_keeps_newest [of 2 demo_events defaultLimits] demo_kept
  by (simp add: demo_log_def demo_limits) (simp add: demo_events_def)

lemma log_is_bounded_witness: "length (ring_list demo_log) \<le> 2"
  using log_is_bounded [of 2 demo_events demo_log defaultLimits] by (simp add: demo_log_def) (simp add: demo_events_def)

lemma log_page_window_witness: "lp_Items (ListEntries demo_log demo_query) = [demo_entry_of 2]"
  using log_page_window [OF demo_valid, of demo_log]
  by (simp add: demo_eligible page_limit_def page_offset_def)
     (simp add: demo_query_def clamp_limit_def MaxListLimit_def)

lemma log_cursor_continues_witness:
  "lp_Items (ListEntries demo_log demo_query) @
   lp_Items (ListEntries demo_log (demo_query\<lparr>lf_BeforeID := lp_NextBeforeID (ListEntries demo_log demo_query), lf_Offset := 0\<rparr>)) =
   [demo_entry_of 2, demo_entry_of 1]"
proof -
  have l: "page_limit demo_query = 1" "page_offset demo_query = 0"
    by (simp_all add: page_limit_def page_offset_def demo_query_def clamp_limit_def MaxListLimit_def)
  have "length demo_events < 2 ^ 64" by (simp add: demo_events_def)
  from log_cursor_continues [OF _ this demo_log_def demo_valid demo_more refl] show ?thesis
    by (simp add: demo_eligible l)
qed

end
