(* ===== verification/SecureKeys.thy ===== *)
theory SecureKeys
  imports Secure
begin

section \<open>The master key file (internal/secure/secure.go)\<close>

text \<open>
  The master key is created once and shared by every process of an installation. A process is its
  program counter; each step is a stretch of file-system operations whose first fault is an input,
  and the file is a shared \<open>string option\<close>. The runs interleave any number of processes. The key is
  written to a private temporary file and published by a hard link, so it is never seen half
  written. The lemmas show that a key survives each of its encodings, and the invariant of the runs.
\<close>

subsection \<open>Reading keys\<close>

text \<open>The first of the four decoders that yields 32 bytes.\<close>

definition key_decoders :: "(string \<Rightarrow> string option) list" where
  "key_decoders = [b64_decode StdEncoding, b64_decode RawStdEncoding, b64_decode RawURLEncoding, hex_decode]"

fun first_key :: "(string \<Rightarrow> string option) list \<Rightarrow> string \<Rightarrow> string option" where
  "first_key [] v = None"
| "first_key (d # ds) v =
     (case d v of
        Some key \<Rightarrow> if length key = 32 then Some key else first_key ds v
      | None \<Rightarrow> first_key ds v)"

definition decodeKey :: "string \<Rightarrow> string option" where
  "decodeKey v = first_key key_decoders v"

subsection \<open>The master key\<close>

datatype key_error = KeyEnv | KeyRead | KeyParse | KeyEntropy | KeyPublish

text \<open>The file system operation of a step that fails, if any. \<open>FaultWrite n\<close> is a write that stops
  after \<open>n\<close> bytes, \<open>FaultNotRegular\<close> makes \<open>Lstat\<close> fail or report something that is not a regular
  file.\<close>

datatype fs_fault =
    NoFault | FaultRead | FaultMkdir | FaultChmod | FaultTemp | FaultTempChmod | FaultWrite nat | FaultSync
  | FaultClose | FaultLink | FaultNotRegular | FaultEntropy | FaultOpen | FaultRemove

definition is_write_fault :: "fs_fault \<Rightarrow> bool" where
  "is_write_fault fault = (case fault of FaultWrite _ \<Rightarrow> True | _ \<Rightarrow> False)"

definition readMasterKey :: "fs_fault \<Rightarrow> string option \<Rightarrow> key_error + string option" where
  "readMasterKey fault file =
     (if fault = FaultRead then Inl KeyRead
      else (case file of
              None \<Rightarrow> Inr None
            | Some data \<Rightarrow> (case decodeKey (trim_space data) of None \<Rightarrow> Inl KeyParse | Some key \<Rightarrow> Inr (Some key))))"

definition key_file_text :: "string \<Rightarrow> string" where
  "key_file_text key = b64_encode StdEncoding key @ [CHR 0x0A]"

text \<open>
  \<open>publishMasterKey\<close>: whether this process created the file, and the file. The temporary file is
  private to the process; only \<open>Link\<close> touches the shared one, and it fails when that exists.
\<close>

definition publishMasterKey ::
  "string \<Rightarrow> fs_fault \<Rightarrow> string option \<Rightarrow> string \<Rightarrow> (key_error + bool) \<times> string option" where
  "publishMasterKey directory fault file key =
     (if fault = FaultMkdir then (Inl KeyPublish, file)
      else if directory \<noteq> ''.'' \<and> fault = FaultChmod then (Inl KeyPublish, file)
      else if fault \<in> {FaultTemp, FaultTempChmod, FaultSync, FaultClose} \<or> is_write_fault fault then (Inl KeyPublish, file)
      else if fault = FaultLink \<or> file \<noteq> None
        then (if file \<noteq> None \<and> fault \<noteq> FaultNotRegular then (Inr False, file) else (Inl KeyPublish, file))
      else (Inr True, Some (key_file_text key)))"

datatype key_pc =
    KeyStart
  | KeyGenerated string
  | KeyLost
  | KeyDone "key_error + (string \<times> bool)"

text \<open>
  One process of \<open>LoadOrCreateMasterKey\<close>: \<open>env\<close> is its environment variable, \<open>directory\<close> the
  directory of the key file and \<open>random\<close> the bytes it draws.
\<close>

definition key_step ::
  "string \<Rightarrow> string \<Rightarrow> string \<Rightarrow> fs_fault \<Rightarrow> key_pc \<Rightarrow> string option \<Rightarrow> key_pc \<times> string option" where
  "key_step env directory random fault pc file =
     (case pc of
        KeyStart \<Rightarrow>
          if trim_space env \<noteq> []
          then (case decodeKey (trim_space env) of
                  None \<Rightarrow> (KeyDone (Inl KeyEnv), file)
                | Some key \<Rightarrow> (KeyDone (Inr (key, False)), file))
          else (case readMasterKey fault file of
                  Inl e \<Rightarrow> (KeyDone (Inl e), file)
                | Inr (Some key) \<Rightarrow> (KeyDone (Inr (key, False)), file)
                | Inr None \<Rightarrow>
                    if fault = FaultEntropy then (KeyDone (Inl KeyEntropy), file)
                    else (KeyGenerated random, file))
      | KeyGenerated key \<Rightarrow>
          (case publishMasterKey directory fault file key of
             (Inl e, file') \<Rightarrow> (KeyDone (Inl e), file')
           | (Inr True, file') \<Rightarrow> (KeyDone (Inr (key, True)), file')
           | (Inr False, file') \<Rightarrow> (KeyLost, file'))
      | KeyLost \<Rightarrow>
          (case readMasterKey fault file of
             Inl e \<Rightarrow> (KeyDone (Inl e), file)
           | Inr None \<Rightarrow> (KeyDone (Inl KeyRead), file)
           | Inr (Some key) \<Rightarrow> (KeyDone (Inr (key, False)), file))
      | KeyDone result \<Rightarrow> (KeyDone result, file))"

text \<open>All processes run without the environment variable; each draws 32 bytes.\<close>

inductive key_run :: "string option \<Rightarrow> (nat \<Rightarrow> key_pc) \<times> string option \<Rightarrow> bool" for file0 where
  key_init: "key_run file0 (\<lambda>_. KeyStart, file0)"
| key_next: "key_run file0 (pcs, file) \<Longrightarrow> trim_space env = [] \<Longrightarrow> length random = 32 \<Longrightarrow>
    key_step env directory random fault (pcs p) file = (pc, file') \<Longrightarrow> key_run file0 (pcs(p := pc), file')"

subsection \<open>Keys survive their encodings\<close>

lemma b64_groups_length_pad:
  "b64_groups e s = Some u \<Longrightarrow> enc_pad e \<Longrightarrow> length s = 4 * ((length u + 2) div 3)"
proof (induction e s arbitrary: u rule: b64_groups.induct)
  case (5 e a b c d s)
  have "(5 + n) div 3 = Suc ((2 + n) div 3)" for n :: nat by presburger
  with 5 show ?case by (auto simp: b64_last2_def b64_last3_def split: option.splits if_splits)
qed auto

lemma b64_value_agree: "b64_value e c = Some n \<Longrightarrow> b64_value e' c = Some m \<Longrightarrow> n = m"
  by (auto simp: b64_value_def Let_def split: if_splits)

lemma b64_groups_agree:
  "b64_groups e s = Some u \<Longrightarrow> b64_groups e' s = Some w \<Longrightarrow> \<not> enc_pad e \<Longrightarrow> \<not> enc_pad e' \<Longrightarrow> u = w"
proof (induction e s arbitrary: u w rule: b64_groups.induct)
  case (3 e a b)
  then show ?case
    by (auto simp: b64_last2_def split: option.splits if_splits dest: b64_value_agree)
next
  case (4 e a b c)
  then show ?case
    by (auto simp: b64_last3_def split: option.splits if_splits dest: b64_value_agree)
next
  case (5 e a b c d s)
  from "5.prems"(1,3) obtain p q r v x where x: "b64_value e a = Some p" "b64_value e b = Some q"
      "b64_value e c = Some r" "b64_value e d = Some v" "b64_groups e s = Some x"
      "u = char_of (p * 4 + q div 16) # char_of (q mod 16 * 16 + r div 4) # char_of (r mod 4 * 64 + v) # x"
    by (auto split: option.splits if_splits)
  from "5.prems"(2,4) obtain p' q' r' v' y where y: "b64_value e' a = Some p'" "b64_value e' b = Some q'"
      "b64_value e' c = Some r'" "b64_value e' d = Some v'" "b64_groups e' s = Some y"
      "w = char_of (p' * 4 + q' div 16) # char_of (q' mod 16 * 16 + r' div 4) # char_of (r' mod 4 * 64 + v') # y"
    by (auto split: option.splits if_splits)
  have "p' = p" "q' = q" "r' = r" "v' = v" using x(1-4) y(1-4) b64_value_agree by blast+
  moreover have "x = y" using "5.IH" x(1-5) y(5) "5.prems"(3,4) by blast
  ultimately show ?case using x(6) y(6) by simp
qed auto

lemma first_key_skip:
  "(\<And>u. d v = Some u \<Longrightarrow> length u = 32 \<Longrightarrow> u = key) \<Longrightarrow> first_key ds v = Some key \<Longrightarrow>
    first_key (d # ds) v = Some key"
  by (auto split: option.splits)

lemma first_key_hit: "d v = Some key \<Longrightarrow> length key = 32 \<Longrightarrow> first_key (d # ds) v = Some key"
  by simp

lemma decode_length:
  assumes "b64_decode e s = Some u" and "list_all not_newline s"
  shows "length s = (if enc_pad e then 4 * ((length u + 2) div 3) else (4 * length u + 2) div 3)"
proof -
  have "filter not_newline s = s" using assms(2) by (simp add: filter_id_conv list_all_iff)
  with assms(1) b64_groups_length_pad b64_groups_length show ?thesis by (auto simp: b64_decode_def)
qed

lemma plain_encode [simp]: "list_all not_newline (b64_encode e s)"
  using b64_encode_plain by (auto simp: list_all_iff)

lemma plain_hex [simp]: "list_all not_newline (hex_encode s)"
  using set_hex_encode by (fastforce simp: list_all_iff not_newline_def)

lemma std_pads [simp]: "enc_pad StdEncoding" "\<not> enc_pad RawStdEncoding" "\<not> enc_pad RawURLEncoding"
  by (simp_all add: encoding_defs)

lemma not_std_raw:
  assumes "\<not> enc_pad e" and "b64_decode StdEncoding (b64_encode e key) = Some u" and "length key = 32"
  shows "False"
  using decode_length [OF assms(2)] assms(1,3) by (simp add: length_b64_raw) presburger

lemma decodeKey_encodings:
  assumes "length key = 32"
  shows "decodeKey (b64_encode StdEncoding key) = Some key"
    and "decodeKey (b64_encode RawStdEncoding key) = Some key"
    and "decodeKey (b64_encode RawURLEncoding key) = Some key"
    and "decodeKey (hex_encode key) = Some key"
proof -
  show "decodeKey (b64_encode StdEncoding key) = Some key"
    unfolding decodeKey_def key_decoders_def using assms by (intro first_key_hit) simp_all
  show "decodeKey (b64_encode RawStdEncoding key) = Some key"
    unfolding decodeKey_def key_decoders_def
    using assms not_std_raw [of RawStdEncoding key] by (intro first_key_skip first_key_hit) auto
  have "u = key" if "b64_decode RawStdEncoding (b64_encode RawURLEncoding key) = Some u" for u
    using that b64_groups_agree [of RawStdEncoding _ u RawURLEncoding key] by (simp add: b64_decode_def b64_groups_encode)
  then show "decodeKey (b64_encode RawURLEncoding key) = Some key"
    unfolding decodeKey_def key_decoders_def
    using assms not_std_raw [of RawURLEncoding key] by (intro first_key_skip first_key_hit) auto
  have "length u \<noteq> 32" if "b64_decode e (hex_encode key) = Some u" for e u
    using decode_length [OF that] assms by (auto split: if_splits)
  then show "decodeKey (hex_encode key) = Some key"
    unfolding decodeKey_def key_decoders_def
    using assms by (intro first_key_skip first_key_hit) auto
qed

lemma trim_space_ends:
  assumes "ascii s" and "\<And>c. c \<in> set s \<Longrightarrow> \<not> space_byte c" and "ascii w" "\<forall>c \<in> set w. space_byte c"
  shows "trim_space (s @ w) = s"
proof -
  have "dropWhile space_byte (rev w @ rev s) = dropWhile space_byte (rev s)"
    using assms(4) by (intro dropWhile_append2) simp
  moreover have "dropWhile space_byte (rev s) = rev s" using assms(2) by (intro dropWhile_none) simp
  ultimately have r: "dropWhile space_byte (rev w @ rev s) = rev s" by simp
  have "dropWhile space_byte (s @ w) = (if s = [] then [] else s @ w)"
    using assms(2,4) by (cases s) simp_all
  with r assms(1,3) show ?thesis by (simp add: trim_space_ascii)
qed

lemma trim_key_file: "trim_space (key_file_text key) = b64_encode StdEncoding key"
  unfolding key_file_text_def using b64_encode_nonspace
  by (intro trim_space_ends) (auto simp: is_space_def)

text \<open>A 32-byte master key is read back from padded and unpadded Base64, from URL Base64 and from
  hexadecimal text, whatever its bytes: no earlier decoder takes the text for another key; and it is
  read back from the file that \<open>publishMasterKey\<close> writes.\<close>
theorem master_key_encodings:
  assumes "length key = 32"
  shows "decodeKey (b64_encode StdEncoding key) = Some key \<and> decodeKey (b64_encode RawStdEncoding key) = Some key \<and>
    decodeKey (b64_encode RawURLEncoding key) = Some key \<and> decodeKey (hex_encode key) = Some key \<and>
    readMasterKey NoFault (Some (key_file_text key)) = Inr (Some key)"
  using decodeKey_encodings [OF assms] by (simp add: readMasterKey_def trim_key_file)

theorem master_key_encodings_witness:
  "decodeKey (hex_encode (replicate 32 (CHR ''a''))) = Some (replicate 32 (CHR ''a''))"
  using master_key_encodings [of "replicate 32 (CHR ''a'')"] by simp

subsection \<open>Every process uses the same master key\<close>

lemma readMasterKey_Some:
  "readMasterKey fault file = Inr (Some key) \<Longrightarrow> \<exists>data. file = Some data \<and> decodeKey (trim_space data) = Some key"
  by (auto simp: readMasterKey_def split: if_splits option.splits)

text \<open>The three kinds of steps: the one that creates the file, a successful reading, anything else.\<close>

lemma key_step_cases:
  assumes "key_step env directory random fault pc file = (pc', file')" and "trim_space env = []" and "length random = 32"
  obtains (create) k where "pc = KeyGenerated k" "file = None" "file' = Some (key_file_text k)" "pc' = KeyDone (Inr (k, True))"
  | (read) k data where "file = Some data" "decodeKey (trim_space data) = Some k" "file' = file" "pc' = KeyDone (Inr (k, False))"
  | (stay) "file' = file" "pc' = pc"
  | (other) "file' = file" "\<forall>x. pc' \<noteq> KeyDone (Inr x)" "\<forall>k. pc' = KeyGenerated k \<longrightarrow> length k = 32"
proof (cases pc)
  case KeyStart
  with assms show thesis
    by (auto simp: key_step_def split: sum.splits option.splits if_splits
        dest!: readMasterKey_Some intro: read other)
next
  case (KeyGenerated k)
  with assms show thesis
    by (auto simp: key_step_def publishMasterKey_def split: if_splits intro: create other)
next
  case KeyLost
  with assms show thesis
    by (auto simp: key_step_def split: sum.splits option.splits if_splits
        dest!: readMasterKey_Some intro: read other)
next
  case (KeyDone x)
  with assms show thesis by (auto simp: key_step_def intro: stay)
qed

definition key_inv :: "string option \<Rightarrow> (nat \<Rightarrow> key_pc) \<Rightarrow> string option \<Rightarrow> bool" where
  "key_inv file0 pcs file \<longleftrightarrow>
     (\<forall>p k. pcs p = KeyGenerated k \<longrightarrow> length k = 32) \<and>
     (\<forall>p k c. pcs p = KeyDone (Inr (k, c)) \<longrightarrow> (\<exists>data. file = Some data \<and> decodeKey (trim_space data) = Some k)) \<and>
     (\<forall>p q k l. pcs p = KeyDone (Inr (k, True)) \<and> pcs q = KeyDone (Inr (l, True)) \<longrightarrow> p = q) \<and>
     (file0 \<noteq> None \<longrightarrow> file = file0 \<and> (\<forall>p k. pcs p \<noteq> KeyDone (Inr (k, True))))"

lemma key_inv_done:
  "key_inv file0 pcs file \<Longrightarrow> pcs p = KeyDone (Inr (k, c)) \<Longrightarrow> \<exists>data. file = Some data \<and> decodeKey (trim_space data) = Some k"
  unfolding key_inv_def by blast

lemma key_inv_step:
  assumes "key_inv file0 pcs file" and "trim_space env = []" and "length random = 32"
    and "key_step env directory random fault (pcs p) file = (pc', file')"
  shows "key_inv file0 (pcs(p := pc')) file'"
  using assms(4,2,3)
proof (cases rule: key_step_cases)
  case (create k)
  have "length k = 32" using assms(1) create(1) by (auto simp: key_inv_def)
  then have "decodeKey (trim_space (key_file_text k)) = Some k" by (simp add: trim_key_file decodeKey_encodings)
  moreover have "file0 = None" using assms(1) create(2) by (auto simp: key_inv_def)
  moreover have "pcs q \<noteq> KeyDone (Inr x)" for q x
    using key_inv_done [OF assms(1), of q "fst x" "snd x"] create(2) by auto
  ultimately show ?thesis using assms(1) create(3,4) by (auto simp: key_inv_def)
next
  case (read k data)
  with assms(1) show ?thesis by (auto simp: key_inv_def)
next
  case stay
  with assms(1) show ?thesis by (simp add: fun_upd_idem)
next
  case other
  with assms(1) show ?thesis by (auto simp: key_inv_def)
qed

lemma key_run_inv: "key_run file0 s \<Longrightarrow> key_inv file0 (fst s) (snd s)"
proof (induction rule: key_run.induct)
  case key_init
  then show ?case by (simp add: key_inv_def)
next
  case (key_next pcs f env random directory fault p pc f')
  from key_next.IH have "key_inv file0 pcs f" by simp
  from key_inv_step [OF this key_next.hyps(2-4)] show ?case by (simp only: fst_conv snd_conv)
qed


text \<open>Two processes that both found no file: the loser of the race adopts the winner's key.\<close>

definition key_a :: string where "key_a = replicate 32 (CHR ''a'')"
definition key_b :: string where "key_b = replicate 32 (CHR ''b'')"

lemma key_race:
  "key_run None ((\<lambda>_ :: nat. KeyStart)(1 := KeyDone (Inr (key_a, True)), 2 := KeyDone (Inr (key_a, False))), Some (key_file_text key_a))"
proof -
  have ab: "length key_a = 32" "length key_b = 32" by (simp_all add: key_a_def key_b_def)
  have "key_run None (\<lambda>_ :: nat. KeyStart, None)" by (rule key_init)
  then have "key_run None ((\<lambda>_ :: nat. KeyStart)(1 := KeyGenerated key_a), None)"
    by (rule key_next [where env = "[]" and fault = NoFault and random = key_a])
      (simp_all add: ab key_step_def readMasterKey_def)
  then have "key_run None ((\<lambda>_ :: nat. KeyStart)(1 := KeyGenerated key_a, 2 := KeyGenerated key_b), None)"
    by (rule key_next [where env = "[]" and fault = NoFault and random = key_b and p = 2])
      (simp_all add: ab key_step_def readMasterKey_def)
  then have "key_run None ((\<lambda>_ :: nat. KeyStart)(1 := KeyGenerated key_a, 2 := KeyGenerated key_b, 1 := KeyDone (Inr (key_a, True))),
      Some (key_file_text key_a))"
    by (rule key_next [where env = "[]" and fault = NoFault and random = key_b and p = 1])
      (simp_all add: ab key_step_def publishMasterKey_def is_write_fault_def)
  then have "key_run None ((\<lambda>_ :: nat. KeyStart)(1 := KeyGenerated key_a, 2 := KeyGenerated key_b, 1 := KeyDone (Inr (key_a, True)),
      2 := KeyLost), Some (key_file_text key_a))"
    by (rule key_next [where env = "[]" and fault = NoFault and random = key_b and p = 2])
      (simp_all add: ab key_step_def publishMasterKey_def is_write_fault_def)
  then have "key_run None ((\<lambda>_ :: nat. KeyStart)(1 := KeyGenerated key_a, 2 := KeyGenerated key_b, 1 := KeyDone (Inr (key_a, True)),
      2 := KeyLost, 2 := KeyDone (Inr (key_a, False))), Some (key_file_text key_a))"
    by (rule key_next [where env = "[]" and fault = NoFault and random = key_b and p = 2])
      (simp_all add: ab key_step_def readMasterKey_def trim_key_file decodeKey_encodings)
  moreover have "(\<lambda>_ :: nat. KeyStart)(1 := KeyGenerated key_a, 2 := KeyGenerated key_b, 1 := KeyDone (Inr (key_a, True)),
      2 := KeyLost, 2 := KeyDone (Inr (key_a, False))) = (\<lambda>_ :: nat. KeyStart)(1 := KeyDone (Inr (key_a, True)), 2 := KeyDone (Inr (key_a, False)))"
    by (auto simp: fun_eq_iff)
  ultimately show ?thesis by simp
qed


end
