(* ===== verification/AdminPath.thy ===== *)
theory AdminPath
  imports SecureKeys Domain
begin

section \<open>The management path file (internal/secure/admin\_path.go)\<close>

text \<open>
  The secret prefix of the management interface is generated once and kept in a file. As for the
  master key, processes interleave on a shared file and the first fault of a step is an input; but
  this file is opened exclusively while still empty and written afterwards, and a process whose
  write fails removes it. The properties: the normal form of a path and its survival in the file,
  the agreement of all processes when no write fails, and what a process does that loses the race.
\<close>

subsection \<open>Normal form\<close>

definition adminPathSuffix :: string where
  "adminPathSuffix = ''/admin''"

definition lower_hex_rune :: "rune \<Rightarrow> bool" where
  "lower_hex_rune r \<longleftrightarrow> \<not> ((r < 48 \<or> r > 57) \<and> (r < 97 \<or> r > 102))"

definition normalizeAdminPath :: "string \<Rightarrow> string option" where
  "normalizeAdminPath v0 =
     (let v = trim_suffix (trim_space v0) ''/'' in
      if length v \<noteq> 1 + 32 + length adminPathSuffix \<or> v ! 0 \<noteq> CHR ''/'' \<or> drop 33 v \<noteq> adminPathSuffix then None
      else if list_all lower_hex_rune (runes (take 32 (drop 1 v))) then Some v
      else None)"

definition NormalizeAdminPath :: "string \<Rightarrow> string option" where
  "NormalizeAdminPath v = normalizeAdminPath v"

subsection \<open>The management path\<close>

datatype path_error = PathFile | PathInvalid | PathRead | PathEntropy | PathMkdir | PathOpen | PathMismatch | PathWrite

text \<open>
  A process of \<open>LoadOrCreateAdminPath\<close>. \<open>PathPersist\<close> is the entry of \<open>persistAdminPath\<close>,
  \<open>PathWriting\<close> and \<open>PathFlushing\<close> are the points after the exclusive open and after the write,
  \<open>PathExists\<close> is its branch for an existing file, and \<open>PathReread\<close> the caller's second reading. The flag says that the path was
  generated and not configured.
\<close>

datatype path_pc =
    PathStart
  | PathPersist bool string
  | PathExists bool string
  | PathWriting string
  | PathFlushing string
  | PathFailed
  | PathReread
  | PathDone "path_error + (string \<times> bool)"

definition generated_path :: "string \<Rightarrow> string" where
  "generated_path random = ''/'' @ hex_encode random @ adminPathSuffix"

definition path_file_text :: "string \<Rightarrow> string" where
  "path_file_text path = path @ ''/'' @ [CHR 0x0A]"

definition path_step ::
  "string \<Rightarrow> string \<Rightarrow> string \<Rightarrow> fs_fault \<Rightarrow> path_pc \<Rightarrow> string option \<Rightarrow> path_pc \<times> string option" where
  "path_step filename configured random fault pc file =
     (case pc of
        PathStart \<Rightarrow>
          if trim_space filename = [] then (PathDone (Inl PathFile), file)
          else if trim_space configured \<noteq> []
          then (case normalizeAdminPath (trim_space configured) of
                  None \<Rightarrow> (PathDone (Inl PathInvalid), file)
                | Some path \<Rightarrow> (PathPersist False path, file))
          else if fault = FaultRead then (PathDone (Inl PathRead), file)
          else (case file of
                  Some data \<Rightarrow>
                    (case normalizeAdminPath data of
                       None \<Rightarrow> (PathDone (Inl PathInvalid), file)
                     | Some path \<Rightarrow> (PathDone (Inr (path, False)), file))
                | None \<Rightarrow>
                    if fault = FaultEntropy then (PathDone (Inl PathEntropy), file)
                    else (PathPersist True (generated_path random), file))
      | PathPersist generated path \<Rightarrow>
          if fault = FaultMkdir then (PathDone (Inl PathMkdir), file)
          else (case file of
                  Some _ \<Rightarrow> (PathExists generated path, file)
                | None \<Rightarrow>
                    if fault = FaultOpen then (PathDone (Inl PathOpen), file)
                    else (PathWriting path, Some []))
      | PathExists generated path \<Rightarrow>
          if fault = FaultRead then (PathDone (Inl PathRead), file)
          else (case file of
                  None \<Rightarrow> (PathDone (Inl PathRead), file)
                | Some data \<Rightarrow>
                    (case normalizeAdminPath data of
                       None \<Rightarrow> (PathDone (Inl PathInvalid), file)
                     | Some existing \<Rightarrow>
                         if existing \<noteq> path then (PathDone (Inl PathMismatch), file)
                         else if generated then (PathReread, file)
                         else (PathDone (Inr (path, False)), file)))
      | PathWriting path \<Rightarrow>
          (case fault of
             FaultWrite n \<Rightarrow> (PathFailed, Some (take n (path_file_text path)))
           | _ \<Rightarrow> (PathFlushing path, Some (path_file_text path)))
      | PathFlushing path \<Rightarrow>
          if fault \<in> {FaultSync, FaultClose} then (PathFailed, file)
          else (PathDone (Inr (path, True)), file)
      | PathFailed \<Rightarrow> (PathDone (Inl PathWrite), if fault = FaultRemove then file else None)
      | PathReread \<Rightarrow>
          if fault = FaultRead then (PathDone (Inl PathRead), file)
          else (case file of
                  None \<Rightarrow> (PathDone (Inl PathRead), file)
                | Some data \<Rightarrow>
                    (case normalizeAdminPath data of
                       None \<Rightarrow> (PathDone (Inl PathInvalid), file)
                     | Some path \<Rightarrow> (PathDone (Inr (path, False)), file)))
      | PathDone result \<Rightarrow> (PathDone result, file))"

text \<open>Runs in which only the faults that \<open>ok\<close> allows happen.\<close>

inductive path_run :: "(fs_fault \<Rightarrow> bool) \<Rightarrow> string option \<Rightarrow> (nat \<Rightarrow> path_pc) \<times> string option \<Rightarrow> bool" for ok file0 where
  path_init: "path_run ok file0 (\<lambda>_. PathStart, file0)"
| path_next: "path_run ok file0 (pcs, file) \<Longrightarrow> ok fault \<Longrightarrow> length random = 16 \<Longrightarrow>
    path_step filename configured random fault (pcs p) file = (pc, file') \<Longrightarrow>
    path_run ok file0 (pcs(p := pc), file')"

subsection \<open>The normal form survives the file\<close>

lemma normal_path_shape:
  assumes "normalizeAdminPath v = Some p"
  shows "length p = 39" "p = CHR ''/'' # take 32 (drop 1 p) @ ''/admin''" "ascii p"
    "list_all lower_hex_rune (runes (take 32 (drop 1 p)))" "\<And>c. c \<in> set p \<Longrightarrow> \<not> space_byte c"
proof -
  let ?m = "take 32 (drop 1 p)"
  from assms have len: "length p = 39" and h: "p ! 0 = CHR ''/''" and d: "drop 33 p = ''/admin''"
    and m: "list_all lower_hex_rune (runes ?m)"
    by (auto simp: normalizeAdminPath_def Let_def adminPathSuffix_def split: if_splits)
  show "length p = 39" "list_all lower_hex_rune (runes ?m)" by (fact len, fact m)
  have "p = p ! 0 # drop 1 p" using len Cons_nth_drop_Suc [of 0 p] by simp
  moreover have "drop 1 p = ?m @ drop 33 p" using append_take_drop_id [of 32 "drop 1 p"] by simp
  ultimately show shape: "p = CHR ''/'' # ?m @ ''/admin''" using h d by simp
  have "list_all (\<lambda>r. r < 128) (runes ?m)"
    using m by (auto simp: list_all_iff lower_hex_rune_def)
  then have a: "ascii ?m" by (rule ascii_runes)
  then have "ascii (CHR ''/'' # ?m @ ''/admin'')" by simp
  with shape show "ascii p" by metis
  have l: "list_all lower_hex_rune (map byte_val ?m)" using m by (simp only: runes_ascii [OF a])
  have "\<not> space_byte c" if "c \<in> set ?m" for c
  proof -
    have "lower_hex_rune (byte_val c)" using l that by (simp only: list_all_iff set_map) blast
    then show ?thesis by (auto simp: lower_hex_rune_def is_space_def)
  qed
  then have "\<forall>c \<in> set (CHR ''/'' # ?m @ ''/admin''). \<not> space_byte c" by (auto simp: is_space_def)
  with shape show "\<not> space_byte c" if "c \<in> set p" for c using that by metis
qed

lemma normal_path_suffix:
  assumes "normalizeAdminPath v = Some p"
  shows "trim_suffix p ''/'' = p" "trim_suffix (p @ ''/'') ''/'' = p"
proof -
  define m where "m = take 32 (drop 1 p)"
  have "length m = 32" and p: "p = CHR ''/'' # m @ ''/admin''"
    using normal_path_shape(1,2) [OF assms] unfolding m_def by simp_all
  then have "drop 38 p = ''n''" by simp
  then show "trim_suffix p ''/'' = p"
    using normal_path_shape(1) [OF assms] by (simp add: trim_suffix_def has_suffix_def)
  show "trim_suffix (p @ ''/'') ''/'' = p" by (simp add: trim_suffix_def has_suffix_def)
qed

lemma normal_path_trim:
  assumes "normalizeAdminPath v = Some p" and "ascii w" and "\<forall>c \<in> set w. space_byte c"
  shows "trim_space (p @ w) = p" "trim_space (p @ ''/'' @ w) = p @ ''/''"
proof -
  show "trim_space (p @ w) = p"
    using normal_path_shape(3,5) [OF assms(1)] assms(2,3) by (intro trim_space_ends)
  have "trim_space ((p @ ''/'') @ w) = p @ ''/''"
    using normal_path_shape(3,5) [OF assms(1)] assms(2,3) by (intro trim_space_ends) (auto simp: is_space_def)
  then show "trim_space (p @ ''/'' @ w) = p @ ''/''" by simp
qed

lemma normal_path_fixed:
  assumes "normalizeAdminPath v = Some p"
  shows "normalizeAdminPath p = Some p" "normalizeAdminPath (path_file_text p) = Some p"
proof -
  have d: "drop 33 p = ''/admin''" "p ! 0 = CHR ''/''" "list_all lower_hex_rune (runes (take 32 (drop 1 p)))" "length p = 39"
    using assms by (auto simp: normalizeAdminPath_def Let_def adminPathSuffix_def split: if_splits)
  have t: "trim_space p = p" using normal_path_trim(1) [OF assms, of "[]"] by simp
  show "normalizeAdminPath p = Some p"
    by (simp add: normalizeAdminPath_def t normal_path_suffix [OF assms] d [simplified] adminPathSuffix_def)
  have t2: "trim_space (path_file_text p) = p @ ''/''"
    unfolding path_file_text_def by (rule normal_path_trim(2) [OF assms]) (simp_all add: is_space_def)
  show "normalizeAdminPath (path_file_text p) = Some p"
    by (simp add: normalizeAdminPath_def t2 normal_path_suffix [OF assms] d [simplified] adminPathSuffix_def
        del: append_Cons append_Nil)
qed

lemma normalize_Nil [simp]: "normalizeAdminPath [] = None"
  by (simp add: normalizeAdminPath_def trim_suffix_def has_suffix_def)

lemma generated_normal:
  assumes "length random = 16"
  shows "normalizeAdminPath (generated_path random) = Some (generated_path random)"
proof -
  let ?g = "generated_path random"
  have hx: "ascii (hex_encode random)" using set_hex_encode by (fastforce simp: ascii_def)
  have ns: "\<not> space_byte c" if "c \<in> set ?g" for c
    using that set_hex_encode [of c random] by (auto simp: generated_path_def adminPathSuffix_def is_space_def)
  have "trim_space (?g @ []) = ?g"
    using ns hx by (intro trim_space_ends) (auto simp: generated_path_def adminPathSuffix_def)
  moreover have "list_all lower_hex_rune (runes (hex_encode random))"
    using set_hex_encode [of _ random] by (fastforce simp: runes_ascii [OF hx] list_all_iff lower_hex_rune_def)
  ultimately show ?thesis
    using assms by (simp add: normalizeAdminPath_def Let_def generated_path_def adminPathSuffix_def
        trim_suffix_def has_suffix_def)
qed

subsection \<open>Agreement while no write fails\<close>

definition no_write_fault :: "fs_fault \<Rightarrow> bool" where
  "no_write_fault fault \<longleftrightarrow> \<not> is_write_fault fault \<and> fault \<noteq> FaultSync \<and> fault \<noteq> FaultClose"

text \<open>What a program counter says about the file.\<close>

fun pc_file :: "path_pc \<Rightarrow> string option \<Rightarrow> bool" where
  "pc_file (PathPersist g path) f \<longleftrightarrow> normalizeAdminPath path = Some path"
| "pc_file (PathExists g path) f \<longleftrightarrow> normalizeAdminPath path = Some path"
| "pc_file (PathWriting path) f \<longleftrightarrow> normalizeAdminPath path = Some path \<and> f = Some []"
| "pc_file (PathFlushing path) f \<longleftrightarrow> normalizeAdminPath path = Some path \<and> f = Some (path_file_text path)"
| "pc_file PathFailed f \<longleftrightarrow> False"
| "pc_file (PathDone (Inr (path, c))) f \<longleftrightarrow> (\<exists>data. f = Some data \<and> normalizeAdminPath data = Some path)"
| "pc_file _ f \<longleftrightarrow> True"

definition writing :: "path_pc \<Rightarrow> bool" where
  "writing pc \<longleftrightarrow> (case pc of PathWriting _ \<Rightarrow> True | _ \<Rightarrow> False)"

definition path_inv :: "string option \<Rightarrow> (nat \<Rightarrow> path_pc) \<Rightarrow> string option \<Rightarrow> bool" where
  "path_inv file0 pcs f \<longleftrightarrow>
     (\<forall>p. pc_file (pcs p) f) \<and> (\<forall>p q. writing (pcs p) \<and> writing (pcs q) \<longrightarrow> p = q) \<and>
     (file0 \<noteq> None \<longrightarrow> f = file0 \<and> (\<forall>p. \<not> writing (pcs p)))"

text \<open>A step either opens the absent file, writes the empty one, or leaves the file alone.\<close>

lemma path_step_cases:
  assumes "path_step filename configured random fault pc f = (pc', f')" and "no_write_fault fault"
    and "length random = 16" and "pc_file pc f"
  obtains (opens) path where "f = None" "f' = Some []" "pc' = PathWriting path" "normalizeAdminPath path = Some path"
  | (writes) path where "pc = PathWriting path" "f = Some []" "f' = Some (path_file_text path)" "pc' = PathFlushing path"
      "normalizeAdminPath path = Some path"
  | (keeps) "f' = f" "pc_file pc' f" "\<not> writing pc'"
proof (cases pc)
  case PathStart
  with assms show thesis
    by (intro keeps) (auto simp: path_step_def writing_def generated_normal
        split: if_splits option.splits dest: normal_path_fixed)
next
  case (PathPersist g path)
  with assms show thesis
    by (cases "f = None \<and> fault \<noteq> FaultMkdir \<and> fault \<noteq> FaultOpen")
      (auto simp: path_step_def writing_def split: if_splits option.splits intro: opens keeps)
next
  case (PathExists g path)
  with assms show thesis
    by (intro keeps) (auto simp: path_step_def writing_def split: if_splits option.splits)
next
  case (PathWriting path)
  with assms show thesis
    by (intro writes) (auto simp: path_step_def no_write_fault_def is_write_fault_def split: fs_fault.splits)
next
  case (PathFlushing path)
  with assms show thesis
    by (intro keeps) (auto simp: path_step_def no_write_fault_def writing_def normal_path_fixed split: if_splits)
next
  case PathFailed
  with assms show thesis by simp
next
  case PathReread
  with assms show thesis
    by (intro keeps) (auto simp: path_step_def writing_def split: if_splits option.splits)
next
  case (PathDone x)
  with assms show thesis by (intro keeps) (auto simp: path_step_def writing_def)
qed

lemma pc_file_open: "pc_file pc None \<Longrightarrow> pc_file pc (Some [])"
  by (induction pc "None :: string option" rule: pc_file.induct) auto

lemma pc_file_write: "pc_file pc (Some []) \<Longrightarrow> \<not> writing pc \<Longrightarrow> pc_file pc (Some (path_file_text path))"
  by (induction pc "Some [] :: string option" rule: pc_file.induct) (auto simp: writing_def path_file_text_def)

lemma not_writing_None: "pc_file pc None \<Longrightarrow> \<not> writing pc"
  by (cases pc) (simp_all add: writing_def)

lemma path_inv_step:
  assumes "path_inv file0 pcs f" and "no_write_fault fault" and "length random = 16"
    and "path_step filename configured random fault (pcs p) f = (pc', f')"
  shows "path_inv file0 (pcs(p := pc')) f'"
proof -
  have pf: "pc_file (pcs q) f" for q using assms(1) by (simp add: path_inv_def)
  from assms(4,2,3) pf show ?thesis
  proof (cases rule: path_step_cases)
    case (opens path)
    have "pc_file (pcs q) (Some [])" "\<not> writing (pcs q)" for q
      using pf [of q] opens(1) pc_file_open not_writing_None by simp_all
    with assms(1) opens show ?thesis by (auto simp: path_inv_def)
  next
    case (writes path)
    have w: "writing (pcs p)" using writes(1) by (simp add: writing_def)
    then have nw: "\<not> writing (pcs q)" if "q \<noteq> p" for q using assms(1) that by (auto simp: path_inv_def)
    then have "pc_file (pcs q) (Some (path_file_text path))" if "q \<noteq> p" for q
      using pf [of q] writes(2) that pc_file_write by simp
    moreover have "file0 = None" using assms(1) w by (auto simp: path_inv_def)
    moreover have "\<not> writing pc'" using writes(4) by (simp add: writing_def)
    ultimately show ?thesis using nw writes by (auto simp: path_inv_def)
  next
    case keeps
    with assms(1) show ?thesis by (auto simp: path_inv_def)
  qed
qed

lemma path_run_inv: "path_run no_write_fault file0 s \<Longrightarrow> path_inv file0 (fst s) (snd s)"
proof (induction rule: path_run.induct)
  case path_init
  then show ?case by (simp add: path_inv_def writing_def)
next
  case (path_next pcs f fault random filename configured p pc f')
  from path_next.IH have "path_inv file0 pcs f" by simp
  from path_inv_step [OF this path_next.hyps(2-4)] show ?case by (simp only: fst_conv snd_conv)
qed

subsection \<open>Runs of two processes\<close>

definition path_a :: string where "path_a = generated_path (replicate 16 (CHR ''a''))"
definition path_b :: string where "path_b = generated_path (replicate 16 (CHR ''b''))"

lemma path_ab: "normalizeAdminPath path_a = Some path_a" "normalizeAdminPath path_b = Some path_b" "path_a \<noteq> path_b"
proof -
  show "normalizeAdminPath path_a = Some path_a" "normalizeAdminPath path_b = Some path_b"
    by (simp_all add: path_a_def path_b_def generated_normal)
  have "replicate 16 (CHR ''a'') \<noteq> replicate 16 (CHR ''b'')" by simp
  then have "hex_encode (replicate 16 (CHR ''a'')) \<noteq> hex_encode (replicate 16 (CHR ''b''))"
    by (metis hex_roundtrip option.inject)
  then show "path_a \<noteq> path_b" by (simp add: path_a_def path_b_def generated_path_def)
qed

lemmas path_run_simps = path_step_def path_ab no_write_fault_def is_write_fault_def trim_space_ascii is_space_def

text \<open>Process 1 creates the file while process 2 has already found none.\<close>

lemma path_race:
  "path_run no_write_fault None
    ((\<lambda>_ :: nat. PathStart)(1 := PathPersist True path_a, 2 := PathPersist True path_b, 1 := PathDone (Inr (path_a, True))),
     Some (path_file_text path_a))"
proof -
  let ?run = "path_run no_write_fault None" and ?r = "(\<lambda>_ :: nat. PathStart)(1 := PathPersist True path_a)"
  note step = path_next [where ok = no_write_fault and fault = NoFault and filename = "''/k''" and configured = "[]"]
  have ok: "no_write_fault NoFault" by (simp add: no_write_fault_def is_write_fault_def)
  have "?run (\<lambda>_ :: nat. PathStart, None)" by (rule path_init)
  then have "?run (?r, None)"
    by (rule step [where random = "replicate 16 (CHR ''a'')" and p = 1])
      (simp_all add: ok path_run_simps path_a_def)
  then have "?run (?r(2 := PathPersist True path_b), None)"
    by (rule step [where random = "replicate 16 (CHR ''b'')" and p = 2])
      (simp_all add: ok path_run_simps path_b_def)
  then have "?run (?r(2 := PathPersist True path_b, 1 := PathWriting path_a), Some [])"
    by (rule step [where random = "replicate 16 (CHR ''b'')" and p = 1])
      (simp_all add: ok path_run_simps)
  then have "?run (?r(2 := PathPersist True path_b, 1 := PathWriting path_a, 1 := PathFlushing path_a), Some (path_file_text path_a))"
    by (rule step [where random = "replicate 16 (CHR ''b'')" and p = 1])
      (simp_all add: ok path_run_simps)
  then have "?run (?r(2 := PathPersist True path_b, 1 := PathWriting path_a, 1 := PathFlushing path_a,
      1 := PathDone (Inr (path_a, True))), Some (path_file_text path_a))"
    by (rule step [where random = "replicate 16 (CHR ''b'')" and p = 1])
      (simp_all add: ok path_run_simps)
  then show ?thesis by simp
qed

text \<open>C36: While no write of the file fails, all processes that obtain a management path obtain the
  same one, it is in normal form and the file holds it, and a file that was there before is left as
  it was.\<close>
theorem admin_path_agreement:
  assumes "path_run no_write_fault file0 (pcs, f)"
    and "pcs p = PathDone (Inr (a, c))" and "pcs q = PathDone (Inr (b, d))"
  shows "a = b \<and> normalizeAdminPath a = Some a \<and>
    (\<exists>data. f = Some data \<and> normalizeAdminPath data = Some a \<and> (file0 = None \<or> file0 = Some data))"
proof -
  have inv: "path_inv file0 pcs f" using path_run_inv [OF assms(1)] by simp
  then have pf: "pc_file (pcs x) f" for x by (simp add: path_inv_def)
  have same: "file0 = None \<or> file0 = f" using inv by (auto simp: path_inv_def)
  obtain data where "f = Some data" "normalizeAdminPath data = Some a" "normalizeAdminPath data = Some b"
    using pf [of p] pf [of q] assms(2,3) by auto
  with same show ?thesis by (auto dest: normal_path_fixed(1))
qed

theorem admin_path_agreement_witness:
  "\<exists>data. Some (path_file_text path_a) = Some data \<and> normalizeAdminPath data = Some path_a"
  using admin_path_agreement [OF path_race, of 1 path_a True 1 path_a True] by auto

text \<open>A process that generates a path and loses the race fails: without any fault, the check
  against the persisted path rejects its own random path, so the reading of the concurrently
  generated path is never reached, and the process ends in the error meant for a configured path
  that contradicts the file.\<close>
theorem admin_path_race_loser_fails:
  "\<exists>pcs f. path_run no_write_fault None (pcs, f) \<and> pcs 1 = PathDone (Inr (path_a, True)) \<and>
     pcs 2 = PathDone (Inl PathMismatch) \<and> f = Some (path_file_text path_a)"
proof -
  let ?f = "Some (path_file_text path_a)"
  let ?s = "(\<lambda>_ :: nat. PathStart)(1 := PathPersist True path_a, 2 := PathPersist True path_b, 1 := PathDone (Inr (path_a, True)))"
  note step = path_next [where ok = no_write_fault and fault = NoFault and filename = "''/k''" and configured = "[]"
      and random = "replicate 16 (CHR ''b'')" and p = 2]
  have ok: "no_write_fault NoFault" by (simp add: no_write_fault_def is_write_fault_def)
  from path_race have "path_run no_write_fault None (?s(2 := PathExists True path_b), ?f)"
    by (rule step) (simp_all add: ok path_step_def)
  then have "path_run no_write_fault None (?s(2 := PathExists True path_b, 2 := PathDone (Inl PathMismatch)), ?f)"
    by (rule step) (use path_ab(3) in \<open>simp_all add: ok path_step_def normal_path_fixed(2) [OF path_ab(1)]\<close>)
  then show ?thesis by (intro exI conjI) (assumption, simp_all)
qed

end
