(* ===== verification/LatestMail.thy ===== *)
theory LatestMail
  imports MailTables
begin

section \<open>Latest messages and their consumption (internal/store/message.go, seen.go)\<close>

text \<open>
  The legacy routes show one message per alias. The theory holds the writes of that row, with the
  guard that keeps a delayed worker from replacing a newer UID of the same mailbox generation; the
  consumption of the shown message, which succeeds once per alias and upstream position and queues
  the IMAP \<open>Seen\<close> update; and the queue of these updates.
\<close>

subsection \<open>The latest message of an alias\<close>

record latest_mail =
  la_AliasID :: int
  la_UIDValidity :: int
  la_UID :: int
  la_MessageID :: string
  la_InternalDate :: time
  la_HeaderDate :: "time option"
  la_From :: "mail_address list"
  la_To :: "mail_address list"
  la_CC :: "mail_address list"
  la_Subject :: string
  la_TextBody :: string
  la_HTMLBody :: string
  la_Attachments :: "attachment list"
  la_BodyTruncated :: bool
  la_SyncedAt :: time

definition validateLatestMessagePosition :: "latest_mail \<Rightarrow> bool" where
  "validateLatestMessagePosition m \<longleftrightarrow> \<not> (la_AliasID m < 1 \<or> la_UIDValidity m = 0 \<or> la_UID m = 0)"

definition sanitizeLatestMessageText :: "latest_mail \<Rightarrow> latest_mail" where
  "sanitizeLatestMessageText m =
     m\<lparr>la_MessageID := sanitizePostgresText (la_MessageID m), la_Subject := sanitizePostgresText (la_Subject m),
       la_TextBody := sanitizePostgresText (la_TextBody m), la_HTMLBody := sanitizePostgresText (la_HTMLBody m)\<rparr>"

definition latest_row :: "latest_mail \<Rightarrow> latest_message" where
  "latest_row m =
     \<lparr>lm_AliasID = la_AliasID m, lm_UIDValidity = la_UIDValidity m, lm_UID = la_UID m,
      lm_MessageID = la_MessageID m, lm_InternalDate = to_timestamp (la_InternalDate m),
      lm_HeaderDate = map_option to_timestamp (la_HeaderDate m), lm_From = marshalJSONList (la_From m),
      lm_To = marshalJSONList (la_To m), lm_CC = marshalJSONList (la_CC m), lm_Subject = la_Subject m,
      lm_TextBody = la_TextBody m, lm_HTMLBody = la_HTMLBody m,
      lm_Attachments = json_list marshal_attachment (la_Attachments m),
      lm_BodyTruncated = la_BodyTruncated m, lm_SyncedAt = to_timestamp (la_SyncedAt m)\<rparr>"

text \<open>The \<open>WHERE\<close> of the guarded \<open>ON CONFLICT\<close> update.\<close>

definition newer_position :: "latest_message \<Rightarrow> latest_message \<Rightarrow> bool" where
  "newer_position new old \<longleftrightarrow>
     lm_UIDValidity new \<noteq> lm_UIDValidity old \<or> (lm_UIDValidity new = lm_UIDValidity old \<and> lm_UID new \<ge> lm_UID old)"

definition put_latest_guarded :: "latest_message \<Rightarrow> mail_db \<Rightarrow> mail_db" where
  "put_latest_guarded row db =
     db\<lparr>md_latest := upsert_by lm_AliasID row (\<lambda>old. if newer_position row old then row else old) (md_latest db)\<rparr>"

definition prepare_latest :: "time \<Rightarrow> latest_mail \<Rightarrow> latest_message" where
  "prepare_latest now m0 =
     (let m = sanitizeLatestMessageText m0 in
      latest_row (if is_zero_time (la_SyncedAt m) then m\<lparr>la_SyncedAt := now\<rparr> else m))"

text \<open>The row references its alias; the result says whether a row was written.\<close>

definition UpsertLatestMessage :: "time \<Rightarrow> latest_mail \<Rightarrow> mail_db \<Rightarrow> (mail_error + bool) \<times> mail_db" where
  "UpsertLatestMessage now m db =
     (if \<not> validateLatestMessagePosition m then (Inl InvalidArgument, db)
      else (let row = prepare_latest now m in
        if find_by a_ID (lm_AliasID row) (md_aliases db) = None then (Inl TxFailed, db)
        else (case find_by lm_AliasID (lm_AliasID row) (md_latest db) of
                None \<Rightarrow> (Inr True, put_latest_guarded row db)
              | Some old \<Rightarrow> (Inr (newer_position row old), put_latest_guarded row db))))"

definition UpsertLatest :: "time \<Rightarrow> latest_mail \<Rightarrow> mail_db \<Rightarrow> (mail_error + bool) \<times> mail_db" where
  "UpsertLatest now m db = UpsertLatestMessage now m db"

definition ReplaceLatestMessage :: "time \<Rightarrow> latest_mail \<Rightarrow> mail_db \<Rightarrow> mail_error option \<times> mail_db" where
  "ReplaceLatestMessage now m db =
     (if \<not> validateLatestMessagePosition m then (Some InvalidArgument, db)
      else (let row = prepare_latest now m in
        if find_by a_ID (lm_AliasID row) (md_aliases db) = None then (Some TxFailed, db)
        else (None, db\<lparr>md_latest := upsert_by lm_AliasID row (\<lambda>_. row) (md_latest db)\<rparr>)))"

definition scanLatestMessage ::
  "(string \<Rightarrow> mail_address list option) \<Rightarrow> (string \<Rightarrow> attachment list option) \<Rightarrow> latest_message \<Rightarrow> mail_error + latest_mail" where
  "scanLatestMessage parse parse_att r =
     (case (parse (lm_From r), parse (lm_To r), parse (lm_CC r), parse_att (lm_Attachments r)) of
        (Some f, Some t, Some c, Some a) \<Rightarrow>
          Inr \<lparr>la_AliasID = lm_AliasID r, la_UIDValidity = lm_UIDValidity r, la_UID = lm_UID r,
               la_MessageID = lm_MessageID r, la_InternalDate = time_of_timestamp (lm_InternalDate r),
               la_HeaderDate = map_option time_of_timestamp (lm_HeaderDate r), la_From = f, la_To = t, la_CC = c,
               la_Subject = lm_Subject r, la_TextBody = lm_TextBody r, la_HTMLBody = lm_HTMLBody r,
               la_Attachments = a, la_BodyTruncated = lm_BodyTruncated r,
               la_SyncedAt = time_of_timestamp (lm_SyncedAt r)\<rparr>
      | _ \<Rightarrow> Inl Corrupt)"

definition GetLatestMessage ::
  "(string \<Rightarrow> mail_address list option) \<Rightarrow> (string \<Rightarrow> attachment list option) \<Rightarrow> mail_db \<Rightarrow> int \<Rightarrow> mail_error + latest_mail" where
  "GetLatestMessage parse parse_att db aliasID =
     (case find_by lm_AliasID aliasID (md_latest db) of
        None \<Rightarrow> Inl NotFound
      | Some r \<Rightarrow> scanLatestMessage parse parse_att r)"

definition DeleteLatestMessage :: "int \<Rightarrow> mail_db \<Rightarrow> mail_db" where
  "DeleteLatestMessage aliasID db = db\<lparr>md_latest := delete_where (\<lambda>r. lm_AliasID r = aliasID) (md_latest db)\<rparr>"

definition DeleteLatestMessageFromOtherUIDValidity :: "int \<Rightarrow> int \<Rightarrow> mail_db \<Rightarrow> mail_db" where
  "DeleteLatestMessageFromOtherUIDValidity aliasID uidValidity db =
     db\<lparr>md_latest := delete_where (\<lambda>r. lm_AliasID r = aliasID \<and> lm_UIDValidity r \<noteq> uidValidity) (md_latest db)\<rparr>"

subsection \<open>Consumption\<close>

record consume_request =
  cq_AliasID :: int
  cq_APIKeyHash :: string
  cq_LastSyncedAt :: time
  cq_MessageSyncedAt :: time
  cq_UIDValidity :: int
  cq_UID :: int
  cq_ConsumedAt :: time

text \<open>The join and the \<open>WHERE\<close> of the claiming insert.\<close>

definition consume_matches :: "consume_request \<Rightarrow> int \<Rightarrow> mail_db \<Rightarrow> bool" where
  "consume_matches q account db \<longleftrightarrow>
     (case (find_by lm_AliasID (cq_AliasID q) (md_latest db), find_by a_ID (cq_AliasID q) (md_aliases db),
            find_by ac_ID account (md_accounts db)) of
        (Some lm, Some al, Some ac) \<Rightarrow>
          a_AccountID al = account \<and> a_Enabled al \<and> ac_Enabled ac \<and> a_APIKeyHash al = cq_APIKeyHash q \<and>
          a_LastSyncStatus al = SyncStatusOK \<and> a_LastSyncedAt al = Some (to_timestamp (cq_LastSyncedAt q)) \<and>
          lm_SyncedAt lm = to_timestamp (cq_MessageSyncedAt q) \<and>
          lm_UIDValidity lm = cq_UIDValidity q \<and> lm_UID lm = cq_UID q
      | _ \<Rightarrow> False)"

definition ConsumeLatestMessage :: "time \<Rightarrow> consume_request \<Rightarrow> mail_db \<Rightarrow> (mail_error + bool) \<times> mail_db" where
  "ConsumeLatestMessage now q db =
     (if cq_AliasID q < 1 \<or> cq_APIKeyHash q = [] \<or> is_zero_time (cq_LastSyncedAt q) \<or>
         is_zero_time (cq_MessageSyncedAt q) \<or> cq_UIDValidity q = 0 \<or> cq_UID q = 0
      then (Inl InvalidArgument, db)
      else (let consumedAt = (if is_zero_time (cq_ConsumedAt q) then now else cq_ConsumedAt q) in
        case find_by a_ID (cq_AliasID q) (md_aliases db) of
          None \<Rightarrow> (Inl NotFound, db)
        | Some al \<Rightarrow>
            (let account = a_AccountID al in
             case lockAccountVersionForUpdate db account of
               Inl e \<Rightarrow> (Inl e, db)
             | Inr _ \<Rightarrow>
                 (let row = \<lparr>cn_alias_id = cq_AliasID q, cn_uid_validity = cq_UIDValidity q, cn_uid = cq_UID q,
                             cn_consumed_at = to_timestamp consumedAt\<rparr>;
                      task = \<lparr>st_AccountID = account, st_UIDValidity = cq_UIDValidity q, st_UID = cq_UID q,
                              st_CreatedAt = to_timestamp consumedAt\<rparr> in
                  if \<not> consume_matches q account db \<or> find_by consumed_key (consumed_key row) (md_consumed db) \<noteq> None
                  then (Inr False, db)
                  else (Inr True,
                        db\<lparr>md_consumed := md_consumed db @ [row],
                           md_seen := (if find_by seen_key (seen_key task) (md_seen db) = None
                                       then md_seen db @ [task] else md_seen db)\<rparr>)))))"

subsection \<open>Seen tasks\<close>

text \<open>\<open>GROUP BY account_id ORDER BY MIN(created_at), account_id\<close>.\<close>

definition account_tasks :: "mail_db \<Rightarrow> int \<Rightarrow> seen_task list" where
  "account_tasks db account = filter (\<lambda>t. st_AccountID t = account) (md_seen db)"

definition oldest_task :: "mail_db \<Rightarrow> int \<Rightarrow> timestamp" where
  "oldest_task db account = Min (set (map st_CreatedAt (account_tasks db account)))"

definition ListSeenTaskAccountIDs :: "mail_db \<Rightarrow> mail_error + int list" where
  "ListSeenTaskAccountIDs db =
     (let ids = sort_key (\<lambda>a. (oldest_task db a, a)) (remdups (map st_AccountID (md_seen db))) in
      if list_ex (\<lambda>a. a < 1) ids then Inl Corrupt else Inr ids)"

definition task_position_ok :: "seen_task \<Rightarrow> bool" where
  "task_position_ok t \<longleftrightarrow>
     \<not> (st_AccountID t < 1 \<or> st_UIDValidity t < 1 \<or> st_UIDValidity t > max_uint32 \<or> st_UID t < 1 \<or> st_UID t > max_uint32)"

definition ListSeenTasks :: "mail_db \<Rightarrow> int \<Rightarrow> int \<Rightarrow> mail_error + seen_task list" where
  "ListSeenTasks db account limit =
     (if account < 1 \<or> limit < 1 then Inl InvalidArgument
      else (let tasks = take (nat limit)
              (sort_key (\<lambda>t. (st_CreatedAt t, st_UIDValidity t, st_UID t)) (account_tasks db account)) in
            if list_all task_position_ok tasks
            then Inr (map (\<lambda>t. t\<lparr>st_CreatedAt := time_of_timestamp (st_CreatedAt t)\<rparr>) tasks) else Inl Corrupt))"

definition DeleteSeenTasks :: "int \<Rightarrow> int \<Rightarrow> int list \<Rightarrow> mail_db \<Rightarrow> mail_error option \<times> mail_db" where
  "DeleteSeenTasks account uidValidity uids db =
     (if account < 1 \<or> uidValidity = 0 then (Some InvalidArgument, db)
      else if uids = [] then (None, db)
      else if 0 \<in> set uids then (Some InvalidArgument, db)
      else (None, db\<lparr>md_seen := delete_where (\<lambda>t. st_AccountID t = account \<and> st_UIDValidity t = uidValidity \<and> st_UID t \<in> set uids)
                     (md_seen db)\<rparr>))"

subsection \<open>At most once\<close>

definition consumed_inv :: "mail_db \<Rightarrow> bool" where
  "consumed_inv db \<longleftrightarrow> unique_key consumed_key (md_consumed db) \<and> unique_key seen_key (md_seen db) \<and>
     unique_key lm_AliasID (md_latest db)"

definition was_consumed :: "mail_db \<Rightarrow> int \<Rightarrow> int \<Rightarrow> int \<Rightarrow> bool" where
  "was_consumed db i v u \<longleftrightarrow> (\<exists>c \<in> set (md_consumed db). consumed_key c = (i, v, u))"

lemma consume_result:
  assumes "ConsumeLatestMessage now q db = (Inr True, db')"
  shows "\<not> was_consumed db (cq_AliasID q) (cq_UIDValidity q) (cq_UID q)"
    and "was_consumed db' (cq_AliasID q) (cq_UIDValidity q) (cq_UID q)"
    and "\<exists>a. find_by a_ID (cq_AliasID q) (md_aliases db) = Some a \<and> consume_matches q (a_AccountID a) db \<and>
           find_by seen_key (a_AccountID a, cq_UIDValidity q, cq_UID q) (md_seen db') \<noteq> None"
  using assms
  by (auto simp: ConsumeLatestMessage_def Let_def was_consumed_def find_by_None consumed_key_def seen_key_def
      find_by_append find_by_Cons split: if_splits option.splits sum.splits)

lemma consume_keeps:
  assumes "ConsumeLatestMessage now q db = (res, db')"
  shows "res \<noteq> Inr True \<Longrightarrow> db' = db" and "was_consumed db i v u \<Longrightarrow> was_consumed db' i v u"
    and "consumed_inv db \<Longrightarrow> consumed_inv db'"
  using assms
  by (auto simp: ConsumeLatestMessage_def Let_def was_consumed_def consumed_inv_def unique_key_append1
      split: if_splits option.splits sum.splits)

end
