(* ===== verification/ArchiveFiles.thy ===== *)
theory ArchiveFiles
  imports MailTables Sha256 Base64
begin

section \<open>The files of the mail archive (internal/store/archive.go)\<close>

text \<open>
  The archive keeps one file per upstream message. The file system is a map from clean absolute
  paths to regular or other nodes; directories appear when a file is created below them. An
  operation of the operating system fails when \<open>io\<close> says so for the path it works on; a failure
  before the publishing \<open>Rename\<close> leaves the published files unchanged. The theory holds the path
  functions, the publication of content and its undoing.
\<close>

subsection \<open>Paths\<close>

text \<open>\<open>filepath.Clean\<close> on Unix: the elements of a path after resolving \<open>.\<close> and \<open>..\<close>.\<close>

fun clean_elems :: "bool \<Rightarrow> string list \<Rightarrow> string list \<Rightarrow> string list" where
  "clean_elems rooted acc [] = rev acc"
| "clean_elems rooted acc (e # es) =
     (if e = [] \<or> e = ''.'' then clean_elems rooted acc es
      else if e = ''..'' then
        (case acc of
           a # as' \<Rightarrow> if a = ''..'' then clean_elems rooted (e # acc) es else clean_elems rooted as' es
         | [] \<Rightarrow> if rooted then clean_elems rooted [] es else clean_elems rooted [e] es)
      else clean_elems rooted (e # acc) es)"

definition is_abs :: "string \<Rightarrow> bool" where
  "is_abs p \<longleftrightarrow> has_prefix p ''/''"

definition path_text :: "bool \<Rightarrow> string list \<Rightarrow> string" where
  "path_text rooted es = (if rooted then ''/'' @ join ''/'' es else if es = [] then ''.'' else join ''/'' es)"

definition path_clean :: "string \<Rightarrow> string" where
  "path_clean p = path_text (is_abs p) (clean_elems (is_abs p) [] (split_on (CHR ''/'') p))"

text \<open>\<open>filepath.Join\<close> of two elements and \<open>filepath.Abs\<close> in the working directory.\<close>

definition path_join :: "string \<Rightarrow> string \<Rightarrow> string" where
  "path_join a b =
     (if a = [] \<and> b = [] then []
      else if a = [] then path_clean b else if b = [] then path_clean a else path_clean (a @ ''/'' @ b))"

definition path_abs :: "string \<Rightarrow> string \<Rightarrow> string" where
  "path_abs wd p = (if is_abs p then path_clean p else path_join wd p)"

text \<open>The directory configured by \<open>ConfigureMailArchive\<close>, clean and absolute, and the size limit.\<close>

record archive_config =
  mailArchiveDir :: string
  mailArchiveLimit :: int

datatype config_error = ConfigRequired | ConfigIO

definition ConfigureMailArchive ::
  "string \<Rightarrow> (string \<Rightarrow> bool) \<Rightarrow> string \<Rightarrow> int \<Rightarrow> archive_config \<Rightarrow> config_error + archive_config" where
  "ConfigureMailArchive wd io directory0 limit cfg =
     (let directory = trim_space directory0 in
      if directory = [] \<or> limit < 1 then Inl ConfigRequired
      else (let abs' = path_abs wd directory in
        if io (path_join abs' ''.tmp'') \<or> io abs' then Inl ConfigIO
        else Inr (cfg\<lparr>mailArchiveDir := abs', mailArchiveLimit := limit\<rparr>)))"

definition MailArchiveTempDir :: "archive_config \<Rightarrow> string" where
  "MailArchiveTempDir cfg = (if mailArchiveDir cfg = [] then [] else path_join (mailArchiveDir cfg) ''.tmp'')"

definition safeArchivePath :: "archive_config \<Rightarrow> string \<Rightarrow> string option" where
  "safeArchivePath cfg relative =
     (if mailArchiveDir cfg = [] \<or> relative = [] \<or> is_abs relative then None
      else (let root = path_clean (mailArchiveDir cfg); path = path_clean (path_join root relative) in
            if path \<noteq> root \<and> \<not> has_prefix path (root @ ''/'') then None else Some path))"

text \<open>Whether a path lies strictly below the directory for temporary files.\<close>

definition below_temp :: "archive_config \<Rightarrow> string \<Rightarrow> bool" where
  "below_temp cfg source =
     (let root = path_clean (MailArchiveTempDir cfg) in
      source \<noteq> root \<and> has_prefix (path_clean source) (root @ ''/''))"

definition archive_relative :: "archived_message \<Rightarrow> string" where
  "archive_relative m =
     ''account-'' @ format_int (ar_AccountID m) @ ''/uidv-'' @ format_int (ar_UIDValidity m) @
     ''/uid-'' @ format_int (ar_UID m) @ ''.eml''"

definition archiveMessageKey :: "archived_message \<Rightarrow> string" where
  "archiveMessageKey m =
     format_int (ar_AccountID m) @ ''/'' @ format_int (ar_UIDValidity m) @ ''/'' @ format_int (ar_UID m)"

subsection \<open>Files\<close>

datatype fs_node = Regular string | OtherNode

type_synonym fs = "string \<Rightarrow> fs_node option"

record staged_content =
  sc_path :: string
  sc_bytes :: int
  sc_sha256 :: string
  sc_created :: bool

definition digest_hex :: "string \<Rightarrow> string" where
  "digest_hex data = hex_encode (sha256 data)"

definition validSHA256Hex :: "string \<Rightarrow> bool" where
  "validSHA256Hex v \<longleftrightarrow> length v = 64 \<and> hex_decode v \<noteq> None"

definition hashArchiveFile :: "(string \<Rightarrow> bool) \<Rightarrow> fs \<Rightarrow> string \<Rightarrow> mail_error + string" where
  "hashArchiveFile io fs path =
     (if io path then Inl ArchiveIO
      else (case fs path of Some (Regular data) \<Rightarrow> Inr (digest_hex data) | _ \<Rightarrow> Inl ArchiveIO))"

text \<open>The size of the existing file if it is the expected one; anything else there is a conflict.\<close>

definition matchingArchiveFile ::
  "(string \<Rightarrow> bool) \<Rightarrow> fs \<Rightarrow> string \<Rightarrow> int \<Rightarrow> string \<Rightarrow> mail_error + int option" where
  "matchingArchiveFile io fs path sz digest =
     (case fs path of
        None \<Rightarrow> if io path then Inl ArchiveIO else Inr None
      | Some node \<Rightarrow>
          if io path then Inl ArchiveIO
          else (case node of
                  OtherNode \<Rightarrow> Inl ArchiveConflict
                | Regular data \<Rightarrow>
                    if int (length data) \<noteq> sz then Inl ArchiveConflict
                    else (case hashArchiveFile io fs path of
                            Inl e \<Rightarrow> Inl e
                          | Inr existing \<Rightarrow> if existing \<noteq> digest then Inl ArchiveConflict else Inr (Some sz))))"

definition publishArchiveBytes ::
  "(string \<Rightarrow> bool) \<Rightarrow> string \<Rightarrow> string \<Rightarrow> string \<Rightarrow> fs \<Rightarrow> (mail_error + staged_content) \<times> fs" where
  "publishArchiveBytes io raw finalPath relative fs =
     (let digest = digest_hex raw in
      case matchingArchiveFile io fs finalPath (int (length raw)) digest of
        Inl e \<Rightarrow> (Inl e, fs)
      | Inr (Some existing) \<Rightarrow>
          (Inr \<lparr>sc_path = relative, sc_bytes = existing, sc_sha256 = digest, sc_created = False\<rparr>, fs)
      | Inr None \<Rightarrow>
          if io relative then (Inl ArchiveIO, fs)
          else (Inr \<lparr>sc_path = relative, sc_bytes = int (length raw), sc_sha256 = digest, sc_created = True\<rparr>,
                fs(finalPath \<mapsto> Regular raw)))"

definition publishStagedArchiveFile ::
  "string \<Rightarrow> archive_config \<Rightarrow> (string \<Rightarrow> bool) \<Rightarrow> archived_message \<Rightarrow> string \<Rightarrow> string \<Rightarrow> fs \<Rightarrow>
     (mail_error + staged_content) \<times> fs" where
  "publishStagedArchiveFile wd cfg io m finalPath relative fs =
     (let source = path_abs wd (trim_space (ar_RawMIMEPath m)) in
      if \<not> below_temp cfg source then (Inl UnsafePath, fs)
      else (case fs source of
              None \<Rightarrow> (Inl ArchiveIO, fs)
            | Some OtherNode \<Rightarrow> (Inl ArchiveConflict, fs)
            | Some (Regular data) \<Rightarrow>
                if ar_RawSize m > 0 \<and> ar_RawSize m \<noteq> int (length data) then (Inl ArchiveConflict, fs)
                else (let given = to_lower (trim_space (ar_RawSHA256 m)) in
                  case (if validSHA256Hex given then Inr given else hashArchiveFile io fs source) of
                    Inl e \<Rightarrow> (Inl e, fs)
                  | Inr digest \<Rightarrow>
                      (case matchingArchiveFile io fs finalPath (int (length data)) digest of
                         Inl e \<Rightarrow> (Inl e, fs)
                       | Inr (Some existing) \<Rightarrow>
                           (Inr \<lparr>sc_path = relative, sc_bytes = existing, sc_sha256 = digest, sc_created = False\<rparr>,
                            if io source then fs else fs(source := None))
                       | Inr None \<Rightarrow>
                           if io source then (Inl ArchiveIO, fs)
                           else (Inr \<lparr>sc_path = relative, sc_bytes = int (length data), sc_sha256 = digest, sc_created = True\<rparr>,
                                 fs(source := None, finalPath \<mapsto> Regular data))))))"

type_synonym staged = "(string \<times> staged_content) list"

definition staged_put :: "string \<Rightarrow> staged_content \<Rightarrow> staged \<Rightarrow> staged" where
  "staged_put k c st = (k, c) # filter (\<lambda>e. fst e \<noteq> k) st"

definition staged_get :: "staged \<Rightarrow> string \<Rightarrow> staged_content" where
  "staged_get st k =
     (case map_of st k of None \<Rightarrow> \<lparr>sc_path = [], sc_bytes = 0, sc_sha256 = [], sc_created = False\<rparr> | Some c \<Rightarrow> c)"

text \<open>A file whose removal fails stays.\<close>

definition remove_file :: "(string \<Rightarrow> bool) \<Rightarrow> string \<Rightarrow> fs \<Rightarrow> fs" where
  "remove_file io path fs = (if io path then fs else fs(path := None))"

definition cleanupPublishedArchive :: "archive_config \<Rightarrow> (string \<Rightarrow> bool) \<Rightarrow> staged \<Rightarrow> fs \<Rightarrow> fs" where
  "cleanupPublishedArchive cfg io st fs =
     foldl (\<lambda>fs e. if \<not> sc_created (snd e) then fs
                   else (case safeArchivePath cfg (sc_path (snd e)) of
                           None \<Rightarrow> fs
                         | Some path \<Rightarrow> remove_file io path fs)) fs st"

definition has_content :: "archived_message \<Rightarrow> bool" where
  "has_content m \<longleftrightarrow>
     \<not> (ar_ContentState m = ArchiveContentOversized \<or> (ar_RawMIME m = [] \<and> trim_space (ar_RawMIMEPath m) = []))"

definition publish_message ::
  "string \<Rightarrow> archive_config \<Rightarrow> (string \<Rightarrow> bool) \<Rightarrow> archived_message \<Rightarrow> fs \<Rightarrow> (mail_error + staged_content) \<times> fs" where
  "publish_message wd cfg io m fs =
     (let relative = archive_relative m; finalPath = path_join (mailArchiveDir cfg) relative in
      if ar_RawMIMEPath m \<noteq> [] then publishStagedArchiveFile wd cfg io m finalPath relative fs
      else publishArchiveBytes io (ar_RawMIME m) finalPath relative fs)"

fun stage_loop ::
  "string \<Rightarrow> archive_config \<Rightarrow> (string \<Rightarrow> bool) \<Rightarrow> archived_message list \<Rightarrow> staged \<Rightarrow> fs \<Rightarrow>
     (mail_error + staged) \<times> staged \<times> fs" where
  "stage_loop wd cfg io [] st fs = (Inr st, st, fs)"
| "stage_loop wd cfg io (m # ms) st fs =
     (if \<not> has_content m then stage_loop wd cfg io ms st fs
      else (case publish_message wd cfg io m fs of
              (Inl e, fs') \<Rightarrow> (Inl e, st, fs')
            | (Inr c, fs') \<Rightarrow>
                (let k = archiveMessageKey m in
                 stage_loop wd cfg io ms (staged_put k (c\<lparr>sc_created := sc_created c \<or> sc_created (staged_get st k)\<rparr>) st) fs')))"

text \<open>A failure undoes what the loop had published.\<close>

definition stageArchiveMessages ::
  "string \<Rightarrow> archive_config \<Rightarrow> (string \<Rightarrow> bool) \<Rightarrow> archived_message list \<Rightarrow> fs \<Rightarrow> (mail_error + staged) \<times> fs" where
  "stageArchiveMessages wd cfg io ms fs =
     (if ms = [] then (Inr [], fs)
      else if mailArchiveDir cfg = [] then (Inl ArchiveUnconfigured, fs)
      else (case stage_loop wd cfg io ms [] fs of
              (Inl e, st, fs') \<Rightarrow> (Inl e, cleanupPublishedArchive cfg io st fs')
            | (Inr st, _, fs') \<Rightarrow> (Inr st, fs')))"

definition cleanupArchiveInputs :: "string \<Rightarrow> archive_config \<Rightarrow> (string \<Rightarrow> bool) \<Rightarrow> archived_message list \<Rightarrow> fs \<Rightarrow> fs" where
  "cleanupArchiveInputs wd cfg io ms fs =
     (if path_clean (MailArchiveTempDir cfg) = ''.'' then fs
      else foldl (\<lambda>fs m. let path = path_abs wd (trim_space (ar_RawMIMEPath m)) in
                    if \<not> below_temp cfg path then fs else remove_file io path fs) fs ms)"

end
