(* ===== verification/MailArchive.thy ===== *)
theory MailArchive
  imports ArchiveFiles
begin

section \<open>The mail archive (internal/store/archive.go)\<close>

text \<open>
  Archived messages are rows keyed by their upstream position; every alias that receives a message
  gets a link row with the message's UID in the alias's public IMAP mailbox, allocated from the
  alias's counter. The theory holds the operations of the archive: persisting a synchronised batch,
  evicting content over the size limit, reconciling rows with files at start-up, reading content
  and listing mailboxes and one-time codes.
\<close>

subsection \<open>Persisting a batch\<close>

definition maxOTPHistory :: nat where "maxOTPHistory = 100"

definition given_sha :: "archived_message \<Rightarrow> string" where
  "given_sha m = to_lower (trim_space (ar_RawSHA256 m))"

text \<open>The state and the content columns of a message, from what was staged for it.\<close>

definition message_content :: "staged \<Rightarrow> archived_message \<Rightarrow> string \<times> staged_content" where
  "message_content st m =
     (let c = staged_get st (archiveMessageKey m) in
      if sc_path c \<noteq> [] then (ArchiveContentAvailable, c)
      else if ar_ContentState m = ArchiveContentOversized
        then (ArchiveContentOversized, c\<lparr>sc_bytes := ar_RawSize m, sc_sha256 := given_sha m\<rparr>)
      else if ar_RawSize m > 0
        then (ArchiveContentMetadata, c\<lparr>sc_bytes := ar_RawSize m, sc_sha256 := given_sha m\<rparr>)
      else (ArchiveContentMetadata, c))"

definition archived_row_of :: "int \<Rightarrow> staged \<Rightarrow> archived_message \<Rightarrow> time \<Rightarrow> archived_row" where
  "archived_row_of id' st m syncedAt =
     (case message_content st m of (state, c) \<Rightarrow>
       \<lparr>av_id = id', av_account_id = ar_AccountID m, av_uid_validity = ar_UIDValidity m,
        av_upstream_uid = ar_UID m, av_message_id = sanitizePostgresText (ar_MessageID m),
        av_internal_date = to_timestamp (ar_InternalDate m),
        av_header_date = map_option to_timestamp (ar_HeaderDate m),
        av_from_json = marshalJSONList (ar_From m), av_to_json = marshalJSONList (ar_To m),
        av_cc_json = marshalJSONList (ar_CC m), av_subject = sanitizePostgresText (ar_Subject m),
        av_content_path = sc_path c, av_content_bytes = sc_bytes c, av_content_sha256 = sc_sha256 c,
        av_content_state = state, av_body_truncated = ar_BodyTruncated m,
        av_synced_at = to_timestamp syncedAt, av_created_at = to_timestamp syncedAt\<rparr>)"

text \<open>\<open>ON CONFLICT(account_id, uid_validity, upstream_uid) DO UPDATE\<close>: content is replaced only by
  available content, its size and digest also when they were unknown.\<close>

definition merge_archived :: "archived_row \<Rightarrow> archived_row \<Rightarrow> archived_row" where
  "merge_archived new old =
     (let avail = (av_content_state new = ArchiveContentAvailable) in
      new\<lparr>av_id := av_id old, av_created_at := av_created_at old,
        av_content_path := (if avail then av_content_path new else av_content_path old),
        av_content_bytes := (if avail \<or> av_content_bytes old = 0 then av_content_bytes new else av_content_bytes old),
        av_content_sha256 := (if avail \<or> av_content_sha256 old = [] then av_content_sha256 new else av_content_sha256 old),
        av_content_state := (if avail then av_content_state new else av_content_state old)\<rparr>)"

text \<open>The insertion with its \<open>RETURNING id\<close>; the table checks that sizes are not negative.\<close>

definition upsert_archived :: "staged \<Rightarrow> archived_message \<Rightarrow> time \<Rightarrow> mail_db \<Rightarrow> mail_error + (int \<times> mail_db)" where
  "upsert_archived st m syncedAt db =
     (let row = archived_row_of (md_next_id db) st m syncedAt in
      if av_content_bytes row < 0 then Inl TxFailed
      else (case find_by archived_key (archived_key row) (md_archived db) of
              Some old \<Rightarrow>
                Inr (av_id old, db\<lparr>md_archived := upsert_by archived_key row (merge_archived row) (md_archived db)\<rparr>)
            | None \<Rightarrow>
                Inr (md_next_id db,
                     db\<lparr>md_archived := upsert_by archived_key row (merge_archived row) (md_archived db),
                        md_next_id := md_next_id db + 1\<rparr>)))"

text \<open>The codes of an alias, newest message first: the join with the archived rows.\<close>

definition otp_links :: "mail_db \<Rightarrow> int \<Rightarrow> link_row list" where
  "otp_links db aliasID =
     sort_key (\<lambda>l. case find_by av_id (lk_message_id l) (md_archived db) of
                     None \<Rightarrow> (0, 0)
                   | Some r \<Rightarrow> (- av_internal_date r, - av_id r))
       (filter (\<lambda>l. lk_alias_id l = aliasID \<and> lk_otp l \<noteq> [] \<and>
                    find_by av_id (lk_message_id l) (md_archived db) \<noteq> None) (md_links db))"

definition pruneOTPs :: "int \<Rightarrow> mail_db \<Rightarrow> mail_db" where
  "pruneOTPs aliasID db =
     (let kept = map lk_message_id (take maxOTPHistory (otp_links db aliasID)) in
      db\<lparr>md_links := update_where (\<lambda>l. lk_alias_id l = aliasID \<and> lk_otp l \<noteq> [] \<and> lk_message_id l \<notin> set kept)
                      (lk_otp_update (\<lambda>_. [])) (md_links db)\<rparr>)"

text \<open>\<open>UPDATE aliases ... RETURNING mailbox_uid_next - 1\<close>.\<close>

definition allocateUID :: "int \<Rightarrow> mail_db \<Rightarrow> mail_error + (int \<times> mail_db)" where
  "allocateUID aliasID db =
     (case find_by a_ID aliasID (md_aliases db) of
        None \<Rightarrow> Inl UIDsExhausted
      | Some a \<Rightarrow>
          if a_MailboxUIDNext a < max_uint32
          then Inr (a_MailboxUIDNext a,
                    db\<lparr>md_aliases := update_where (\<lambda>a. a_ID a = aliasID) (a_MailboxUIDNext_update (\<lambda>n. n + 1)) (md_aliases db)\<rparr>)
          else Inl UIDsExhausted)"

definition link_alias :: "string \<Rightarrow> timestamp \<Rightarrow> int \<Rightarrow> int \<Rightarrow> mail_db \<Rightarrow> mail_error + mail_db" where
  "link_alias otp created archivedID aliasID db =
     (if find_by link_key (aliasID, archivedID) (md_links db) \<noteq> None then Inr db
      else bind_res (allocateUID aliasID db) (\<lambda>(uid, db1).
        if list_ex (\<lambda>l. lk_alias_id l = aliasID \<and> lk_mailbox_uid l = uid) (md_links db1) then Inl TxFailed
        else (let db2 = db1\<lparr>md_links := md_links db1 @
                 [\<lparr>lk_alias_id = aliasID, lk_message_id = archivedID, lk_mailbox_uid = uid, lk_otp = otp,
                   lk_created_at = created\<rparr>]\<rparr> in
              Inr (if otp \<noteq> [] then pruneOTPs aliasID db2 else db2))))"

fun link_aliases :: "string \<Rightarrow> timestamp \<Rightarrow> int \<Rightarrow> int option \<Rightarrow> int list \<Rightarrow> mail_db \<Rightarrow> mail_error + mail_db" where
  "link_aliases otp created archivedID prev [] db = Inr db"
| "link_aliases otp created archivedID prev (i # is) db =
     (if i < 1 \<or> prev = Some i then Inl InvalidSync
      else bind_res (link_alias otp created archivedID i db) (link_aliases otp created archivedID (Some i) is))"

definition message_otp :: "archived_message \<Rightarrow> string" where
  "message_otp m = (let otp = trim_space (ar_OTP m) in if IsSixDigitOTP otp then otp else [])"

definition persist_message :: "staged \<Rightarrow> time \<Rightarrow> archived_message \<Rightarrow> mail_db \<Rightarrow> mail_error + mail_db" where
  "persist_message st syncedAt m db =
     (if ar_AccountID m < 1 \<or> ar_UIDValidity m = 0 \<or> ar_UID m = 0 \<or> ar_AliasIDs m = [] then Inl InvalidSync
      else bind_res (upsert_archived st m syncedAt db) (\<lambda>(archivedID, db1).
        link_aliases (message_otp m) (to_timestamp (ar_InternalDate m)) archivedID None (sort (ar_AliasIDs m)) db1))"

definition persistArchivedMessagesTx ::
  "archived_message list \<Rightarrow> staged \<Rightarrow> time \<Rightarrow> mail_db \<Rightarrow> mail_error + mail_db" where
  "persistArchivedMessagesTx ms st syncedAt db = fold_res (persist_message st syncedAt) ms db"

subsection \<open>Content: limit, reconciliation, reading\<close>

definition available_bytes :: "archived_row list \<Rightarrow> int" where
  "available_bytes rows = sum_list (map av_content_bytes (filter (\<lambda>r. av_content_state r = ArchiveContentAvailable) rows))"

definition oldest_available :: "archived_row list \<Rightarrow> archived_row option" where
  "oldest_available rows =
     (case sort_key (\<lambda>r. (av_internal_date r, av_id r)) (filter (\<lambda>r. av_content_state r = ArchiveContentAvailable) rows) of
        [] \<Rightarrow> None
      | r # _ \<Rightarrow> Some r)"

definition mark_content :: "string \<Rightarrow> int \<Rightarrow> mail_db \<Rightarrow> mail_db" where
  "mark_content state id' db =
     db\<lparr>md_archived := update_where (\<lambda>r. av_id r = id' \<and> av_content_state r = ArchiveContentAvailable)
          (\<lambda>r. r\<lparr>av_content_path := [], av_content_state := state\<rparr>) (md_archived db)\<rparr>"

text \<open>
  The loop of \<open>EnforceMailArchiveLimit\<close>, with one unit of fuel for every available row: an eviction
  takes one row out of the available ones. \<open>None\<close> is running out of fuel.
\<close>

fun enforce_loop ::
  "archive_config \<Rightarrow> (string \<Rightarrow> bool) \<Rightarrow> nat \<Rightarrow> mail_db \<Rightarrow> fs \<Rightarrow> (mail_error option \<times> mail_db \<times> fs) option" where
  "enforce_loop cfg io fuel db fs =
     (if available_bytes (md_archived db) \<le> mailArchiveLimit cfg then Some (None, db, fs)
      else (case fuel of
              0 \<Rightarrow> None
            | Suc n \<Rightarrow>
                (case oldest_available (md_archived db) of
                   None \<Rightarrow> Some (Some NotFound, db, fs)
                 | Some r \<Rightarrow>
                     (case safeArchivePath cfg (av_content_path r) of
                        None \<Rightarrow> Some (Some UnsafePath, db, fs)
                      | Some path \<Rightarrow>
                          if io path then Some (Some ArchiveIO, db, fs)
                          else enforce_loop cfg io n (mark_content ArchiveContentEvicted (av_id r) db) (fs(path := None))))))"

declare enforce_loop.simps [simp del]

definition available_count :: "mail_db \<Rightarrow> nat" where
  "available_count db = count_where (\<lambda>r. av_content_state r = ArchiveContentAvailable) (md_archived db)"

definition EnforceMailArchiveLimit ::
  "archive_config \<Rightarrow> (string \<Rightarrow> bool) \<Rightarrow> mail_db \<Rightarrow> fs \<Rightarrow> (mail_error option \<times> mail_db \<times> fs) option" where
  "EnforceMailArchiveLimit cfg io db fs =
     (if mailArchiveDir cfg = [] \<or> mailArchiveLimit cfg < 1 then Some (None, db, fs)
      else enforce_loop cfg io (available_count db) db fs)"

text \<open>Rows whose file is not there, not regular, unreadable or of another size become missing.\<close>

definition content_present :: "archive_config \<Rightarrow> (string \<Rightarrow> bool) \<Rightarrow> fs \<Rightarrow> archived_row \<Rightarrow> bool" where
  "content_present cfg io fs r =
     (case safeArchivePath cfg (av_content_path r) of
        None \<Rightarrow> False
      | Some path \<Rightarrow>
          \<not> io path \<and> (case fs path of Some (Regular data) \<Rightarrow> int (length data) = av_content_bytes r | _ \<Rightarrow> False))"

definition reconcile_rows :: "archive_config \<Rightarrow> (string \<Rightarrow> bool) \<Rightarrow> fs \<Rightarrow> mail_db \<Rightarrow> mail_db" where
  "reconcile_rows cfg io fs db =
     (let missing = filter (\<lambda>r. av_content_state r = ArchiveContentAvailable \<and> \<not> content_present cfg io fs r) (md_archived db)
      in foldl (\<lambda>db r. mark_content ArchiveContentMissing (av_id r) db) db missing)"

text \<open>Opening content: the whole file, after its size and digest were checked against the row.\<close>

definition OpenArchivedContent ::
  "archive_config \<Rightarrow> (string \<Rightarrow> bool) \<Rightarrow> fs \<Rightarrow> mailbox_message \<Rightarrow> mail_db \<Rightarrow> (mail_error + string) \<times> mail_db" where
  "OpenArchivedContent cfg io fs m db =
     (let missing = (if mm_ID m < 1 then db else mark_content ArchiveContentMissing (mm_ID m) db) in
      case safeArchivePath cfg (mm_ContentPath m) of
        None \<Rightarrow> (Inl NotFound, db)
      | Some path \<Rightarrow>
          if mm_ContentState m \<noteq> ArchiveContentAvailable then (Inl NotFound, db)
          else if io path then (Inl ArchiveIO, db)
          else (case fs path of
                  None \<Rightarrow> (Inl NotFound, missing)
                | Some OtherNode \<Rightarrow> (Inl Corrupt, missing)
                | Some (Regular data) \<Rightarrow>
                    if int (length data) \<noteq> mm_ContentBytes m \<or> digest_hex data \<noteq> mm_ContentSHA256 m
                    then (Inl Corrupt, missing)
                    else (Inr data, db)))"

definition ReadArchivedContent ::
  "archive_config \<Rightarrow> (string \<Rightarrow> bool) \<Rightarrow> fs \<Rightarrow> mailbox_message \<Rightarrow> mail_db \<Rightarrow> (mail_error + string) \<times> mail_db" where
  "ReadArchivedContent cfg io fs m db = OpenArchivedContent cfg io fs m db"

subsection \<open>Listing\<close>

text \<open>A row of the join of links, aliases and archived messages; \<open>parse\<close> is \<open>json.Unmarshal\<close> of an
  address list.\<close>

definition scanArchivedMailboxMessage ::
  "(string \<Rightarrow> mail_address list option) \<Rightarrow> link_row \<Rightarrow> mail_alias \<Rightarrow> archived_row \<Rightarrow> mail_error + mailbox_message" where
  "scanArchivedMailboxMessage parse l a r =
     (if lk_mailbox_uid l < 1 \<or> lk_mailbox_uid l > max_uint32 \<or> a_MailboxUIDValidity a < 1 \<or>
         a_MailboxUIDValidity a > max_uint32 then Inl Corrupt
      else (case (parse (av_from_json r), parse (av_to_json r), parse (av_cc_json r)) of
              (Some f, Some t, Some c) \<Rightarrow>
                Inr \<lparr>mm_ID = av_id r, mm_AliasID = lk_alias_id l, mm_MailboxUID = lk_mailbox_uid l,
                     mm_UIDValidity = a_MailboxUIDValidity a, mm_MessageID = av_message_id r,
                     mm_InternalDate = time_of_timestamp (av_internal_date r),
                     mm_HeaderDate = map_option time_of_timestamp (av_header_date r),
                     mm_From = f, mm_To = t, mm_CC = c, mm_Subject = av_subject r,
                     mm_ContentPath = av_content_path r, mm_ContentBytes = av_content_bytes r,
                     mm_ContentSHA256 = av_content_sha256 r, mm_ContentState = av_content_state r,
                     mm_OTP = lk_otp l, mm_BodyTruncated = av_body_truncated r,
                     mm_ArchivedAt = time_of_timestamp (av_created_at r)\<rparr>
            | _ \<Rightarrow> Inl Corrupt))"

definition joined_links :: "mail_db \<Rightarrow> int \<Rightarrow> (link_row \<times> mail_alias \<times> archived_row) list" where
  "joined_links db aliasID =
     List.map_filter (\<lambda>l. case (find_by a_ID (lk_alias_id l) (md_aliases db), find_by av_id (lk_message_id l) (md_archived db)) of
         (Some a, Some r) \<Rightarrow> Some (l, a, r) | _ \<Rightarrow> None)
       (sort_key lk_mailbox_uid (filter (\<lambda>l. lk_alias_id l = aliasID) (md_links db)))"

definition ListArchivedMailboxMessages ::
  "(string \<Rightarrow> mail_address list option) \<Rightarrow> mail_db \<Rightarrow> int \<Rightarrow> mail_error + mailbox_message list" where
  "ListArchivedMailboxMessages parse db aliasID =
     map_res (\<lambda>(l, a, r). scanArchivedMailboxMessage parse l a r) (joined_links db aliasID)"

definition GetArchivedMailboxMessage ::
  "(string \<Rightarrow> mail_address list option) \<Rightarrow> mail_db \<Rightarrow> int \<Rightarrow> int \<Rightarrow> mail_error + mailbox_message" where
  "GetArchivedMailboxMessage parse db aliasID uid =
     (case filter (\<lambda>(l, a, r). lk_mailbox_uid l = uid) (joined_links db aliasID) of
        [] \<Rightarrow> Inl NotFound
      | (l, a, r) # _ \<Rightarrow> scanArchivedMailboxMessage parse l a r)"

definition ListAliasOTPs :: "mail_db \<Rightarrow> int \<Rightarrow> int \<Rightarrow> otp_record list" where
  "ListAliasOTPs db aliasID limit0 =
     (let limit = (if limit0 < 1 \<or> limit0 > int maxOTPHistory then maxOTPHistory else nat limit0) in
      take limit (map (\<lambda>l. \<lparr>or_OTP = lk_otp l,
            or_Time = (case find_by av_id (lk_message_id l) (md_archived db) of
                         None \<Rightarrow> 0 | Some r \<Rightarrow> time_of_timestamp (av_internal_date r))\<rparr>)
        (filter (\<lambda>l. IsSixDigitOTP (lk_otp l)) (take maxOTPHistory (otp_links db aliasID)))))"

record archive_stats =
  as_ContentBytes :: int
  as_ContentLimit :: int
  as_MessageCount :: int
  as_EvictedCount :: int

definition MailArchiveStats :: "archive_config \<Rightarrow> mail_db \<Rightarrow> archive_stats" where
  "MailArchiveStats cfg db =
     \<lparr>as_ContentBytes = available_bytes (md_archived db), as_ContentLimit = mailArchiveLimit cfg,
      as_MessageCount = int (length (md_archived db)),
      as_EvictedCount = int (count_where (\<lambda>r. av_content_state r = ArchiveContentEvicted) (md_archived db))\<rparr>"

end
