(* ===== verification/MailArchiveFacts.thy ===== *)
theory MailArchiveFacts
  imports MailArchive
begin

section \<open>Facts about the mail archive\<close>

text \<open>
  The UIDs of the public mailboxes: \<open>uid_of\<close> reads the UID of a message in an alias's mailbox and
  \<open>next_of\<close> the alias's counter; \<open>uid_inv\<close> is the IMAP contract of one state and \<open>uid_ext\<close> that of
  a change. Further the bound on the history of codes and the order of eviction.
\<close>

subsection \<open>Mailbox UIDs\<close>

definition uid_of :: "mail_db \<Rightarrow> int \<Rightarrow> int \<Rightarrow> int option" where
  "uid_of db i m = map_option lk_mailbox_uid (find_by link_key (i, m) (md_links db))"

definition next_of :: "mail_db \<Rightarrow> int \<Rightarrow> int option" where
  "next_of db i = map_option a_MailboxUIDNext (find_by a_ID i (md_aliases db))"

definition uid_inv :: "mail_db \<Rightarrow> bool" where
  "uid_inv db \<longleftrightarrow> unique_key link_key (md_links db) \<and>
     (\<forall>i n. next_of db i = Some n \<longrightarrow> 1 \<le> n \<and> n \<le> max_uint32) \<and>
     (\<forall>i m u. uid_of db i m = Some u \<longrightarrow> (\<exists>n. next_of db i = Some n \<and> 1 \<le> u \<and> u < n)) \<and>
     (\<forall>i m m' u. uid_of db i m = Some u \<and> uid_of db i m' = Some u \<longrightarrow> m = m')"

definition uid_ext :: "mail_db \<Rightarrow> mail_db \<Rightarrow> bool" where
  "uid_ext db db' \<longleftrightarrow>
     (\<forall>i m u. uid_of db i m = Some u \<longrightarrow> uid_of db' i m = Some u) \<and>
     (\<forall>i m u. uid_of db' i m = Some u \<and> uid_of db i m = None \<longrightarrow> (\<exists>n. next_of db i = Some n \<and> n \<le> u)) \<and>
     (\<forall>i. (next_of db i = None \<longrightarrow> next_of db' i = None) \<and>
          (\<forall>n. next_of db i = Some n \<longrightarrow> (\<exists>n'. next_of db' i = Some n' \<and> n \<le> n')))"

lemma uid_ext_refl: "uid_ext db db"
  by (auto simp: uid_ext_def)

lemma uid_ext_trans:
  assumes "uid_ext a b" and "uid_ext b c"
  shows "uid_ext a c"
proof -
  have keep: "uid_of c i m = Some u" if "uid_of a i m = Some u" for i m u
    using assms that by (simp add: uid_ext_def)
  have nxt: "next_of a i = None \<longrightarrow> next_of c i = None" "next_of a i = Some n \<longrightarrow> (\<exists>n'. next_of c i = Some n' \<and> n \<le> n')" for i n
    using assms unfolding uid_ext_def by (blast, meson order_trans)
  have new: "\<exists>n. next_of a i = Some n \<and> n \<le> u" if c: "uid_of c i m = Some u" and a: "uid_of a i m = None" for i m u
  proof (cases "uid_of b i m")
    case None
    with assms(2) c obtain n where n: "next_of b i = Some n" "n \<le> u" unfolding uid_ext_def by blast
    then obtain n0 where n0: "next_of a i = Some n0" using assms(1) unfolding uid_ext_def by (metis option.exhaust option.distinct(1))
    then obtain n1 where "next_of b i = Some n1" "n0 \<le> n1" using assms(1) unfolding uid_ext_def by blast
    with n n0 show ?thesis by auto
  next
    case (Some v)
    with assms(2) c have "v = u" unfolding uid_ext_def by (metis option.inject)
    with Some a assms(1) show ?thesis unfolding uid_ext_def by blast
  qed
  show ?thesis unfolding uid_ext_def using keep nxt new by blast
qed

text \<open>Changes that leave links and aliases alone.\<close>

lemma uid_same:
  assumes "md_links db' = md_links db" and "md_aliases db' = md_aliases db"
  shows "uid_inv db' \<longleftrightarrow> uid_inv db" and "uid_ext db db'"
proof -
  have same: "uid_of db' = uid_of db" "next_of db' = next_of db"
    using assms by (simp_all add: fun_eq_iff uid_of_def next_of_def)
  with assms show "uid_inv db' \<longleftrightarrow> uid_inv db" by (simp add: uid_inv_def)
  from same show "uid_ext db db'" by (auto simp: uid_ext_def)
qed

lemma upsert_archived_links:
  "upsert_archived st m t db = Inr (i, db') \<Longrightarrow> md_links db' = md_links db \<and> md_aliases db' = md_aliases db"
  by (auto simp: upsert_archived_def Let_def split: if_splits option.splits)

lemma prune_uid [simp]: "uid_of (pruneOTPs a db) i m = uid_of db i m" "next_of (pruneOTPs a db) i = next_of db i"
  by (simp_all add: uid_of_def next_of_def pruneOTPs_def Let_def find_by_update_where link_key_def option.map_comp)
    (auto intro: map_option_cong)

lemma prune_unique [simp]: "unique_key link_key (md_links (pruneOTPs a db)) \<longleftrightarrow> unique_key link_key (md_links db)"
  by (simp add: pruneOTPs_def Let_def unique_key_update_where link_key_def)

lemma prune_inv: "uid_inv (pruneOTPs a db) \<longleftrightarrow> uid_inv db" "uid_ext db' (pruneOTPs a db) \<longleftrightarrow> uid_ext db' db"
  by (simp_all add: uid_inv_def uid_ext_def)

text \<open>A new link takes the counter's value and advances it.\<close>

lemma link_alias_uid:
  assumes "link_alias otp created m i db = Inr db'" and "uid_of db i m = None"
  obtains n where "next_of db i = Some n" "n < max_uint32"
    "\<And>j k. uid_of db' j k = (if j = i \<and> k = m then Some n else uid_of db j k)"
    "\<And>j. next_of db' j = (if j = i then Some (n + 1) else next_of db j)"
    "unique_key link_key (md_links db) \<Longrightarrow> unique_key link_key (md_links db')"
proof -
  have none: "find_by link_key (i, m) (md_links db) = None" using assms(2) by (simp add: uid_of_def)
  from assms(1) none obtain a where a: "find_by a_ID i (md_aliases db) = Some a" and lt: "a_MailboxUIDNext a < max_uint32"
    by (auto simp: link_alias_def allocateUID_def split: option.splits if_splits)
  let ?n = "a_MailboxUIDNext a"
  define db2 where "db2 = db\<lparr>md_aliases := update_where (\<lambda>a. a_ID a = i) (a_MailboxUIDNext_update (\<lambda>n. n + 1)) (md_aliases db),
     md_links := md_links db @ [\<lparr>lk_alias_id = i, lk_message_id = m, lk_mailbox_uid = ?n, lk_otp = otp, lk_created_at = created\<rparr>]\<rparr>"
  have db': "db' = (if otp \<noteq> [] then pruneOTPs i db2 else db2)"
    using assms(1) none a lt by (auto simp: link_alias_def allocateUID_def db2_def split: if_splits)
  have u: "uid_of db2 j k = (if j = i \<and> k = m then Some ?n else uid_of db j k)" for j k
    using none by (auto simp: db2_def uid_of_def find_by_append find_by_Cons link_key_def split: option.splits)
  have nx: "next_of db2 j = (if j = i then Some (?n + 1) else next_of db j)" for j
    using a by (cases "find_by a_ID j (md_aliases db)")
      (auto simp: db2_def next_of_def find_by_update_where dest: find_by_SomeD)
  have "unique_key link_key (md_links db2)" if "unique_key link_key (md_links db)"
    using that none by (simp add: db2_def unique_key_append1 link_key_def)
  moreover have "next_of db i = Some ?n" using a by (simp add: next_of_def)
  ultimately show thesis using u nx db' lt by (intro that [of ?n]) (auto split: if_splits)
qed

lemma link_alias_step:
  assumes "link_alias otp created m i db = Inr db'" and "uid_inv db"
  shows "uid_inv db' \<and> uid_ext db db'"
proof (cases "uid_of db i m")
  case (Some u)
  then have "db' = db" using assms(1) by (auto simp: link_alias_def uid_of_def)
  with assms(2) show ?thesis by (simp add: uid_ext_refl)
next
  case None
  from link_alias_uid [OF assms(1) None] obtain n where n: "next_of db i = Some n" "n < max_uint32"
    and u: "\<And>j k. uid_of db' j k = (if j = i \<and> k = m then Some n else uid_of db j k)"
    and nx: "\<And>j. next_of db' j = (if j = i then Some (n + 1) else next_of db j)"
    and uk: "unique_key link_key (md_links db) \<Longrightarrow> unique_key link_key (md_links db')" by metis
  have n1: "1 \<le> n" using assms(2) n(1) by (simp add: uid_inv_def)
  have below: "v < n" if uv: "uid_of db i k = Some v" for k v
  proof -
    obtain n' where "next_of db i = Some n'" "v < n'" using assms(2) uv unfolding uid_inv_def by blast
    with n(1) show ?thesis by simp
  qed
  have "uid_inv db'"
    unfolding uid_inv_def
  proof (intro conjI allI impI)
    show "unique_key link_key (md_links db')" using uk assms(2) by (simp add: uid_inv_def)
    have old: "1 \<le> k \<and> k \<le> max_uint32" if "next_of db j = Some k" for j k
      using assms(2) that unfolding uid_inv_def by blast
    show "1 \<le> k" "k \<le> max_uint32" if "next_of db' j = Some k" for j k
      using that old [of j k] n(2) n1 by (simp_all add: nx split: if_splits)
    show "\<exists>k. next_of db' j = Some k \<and> 1 \<le> v \<and> v < k" if "uid_of db' j l = Some v" for j l v
      using that assms(2) n n1 below by (fastforce simp: nx u uid_inv_def split: if_splits)
    show "k = l" if "uid_of db' j k = Some v \<and> uid_of db' j l = Some v" for j k l v
    proof -
      have inj: "k = l" if "uid_of db j k = Some v" "uid_of db j l = Some v"
        using assms(2) that unfolding uid_inv_def by blast
      have "v \<noteq> n" if "uid_of db i x = Some v" for x using below [OF that] by simp
      with inj that show ?thesis by (auto simp: u split: if_splits)
    qed
  qed
  moreover have "uid_ext db db'"
    using n None by (auto simp: uid_ext_def u nx)
  ultimately show ?thesis by simp
qed

lemma link_aliases_step:
  "link_aliases otp created m prev is db = Inr db' \<Longrightarrow> uid_inv db \<Longrightarrow> uid_inv db' \<and> uid_ext db db'"
proof (induction otp created m prev "is" db rule: link_aliases.induct)
  case (2 otp created m prev i "is" db)
  then obtain db1 where db1: "link_alias otp created m i db = Inr db1"
    and rest: "link_aliases otp created m (Some i) is db1 = Inr db'" and ok: "\<not> (i < 1 \<or> prev = Some i)"
    by (auto simp: bind_res_Inr split: if_splits)
  from link_alias_step [OF db1 "2.prems"(2)] have inv1: "uid_inv db1" "uid_ext db db1" by simp_all
  with "2.IH" [OF ok rest] uid_ext_trans show ?case by blast
qed (simp add: uid_ext_refl)

lemma persist_message_step:
  assumes "persist_message st t m db = Inr db'" and "uid_inv db"
  shows "uid_inv db' \<and> uid_ext db db'"
proof -
  from assms(1) obtain i db1 where up: "upsert_archived st m t db = Inr (i, db1)"
    and li: "link_aliases (message_otp m) (to_timestamp (ar_InternalDate m)) i None (sort (ar_AliasIDs m)) db1 = Inr db'"
    by (auto simp: persist_message_def bind_res_Inr split: if_splits)
  from upsert_archived_links [OF up] have "uid_inv db1" "uid_ext db db1" using assms(2) uid_same by blast+
  with link_aliases_step [OF li] uid_ext_trans show ?thesis by blast
qed

lemma persist_uid:
  assumes "persistArchivedMessagesTx ms st t db = Inr db'" and "uid_inv db"
  shows "uid_inv db' \<and> uid_ext db db'"
proof -
  have "uid_inv db' \<and> uid_ext db db'" if "fold_res (persist_message st t) ms db = Inr db'"
    by (rule fold_res_invariant [OF that, where P = "\<lambda>x. uid_inv x \<and> uid_ext db x"])
      (use assms(2) uid_ext_refl persist_message_step uid_ext_trans in blast)+
  with assms(1) show ?thesis by (simp add: persistArchivedMessagesTx_def)
qed

subsection \<open>The history of codes\<close>

definition has_code :: "int \<Rightarrow> link_row \<Rightarrow> bool" where
  "has_code i l \<longleftrightarrow> lk_alias_id l = i \<and> lk_otp l \<noteq> []"

definition otp_count :: "mail_db \<Rightarrow> int \<Rightarrow> nat" where
  "otp_count db i = count_where (has_code i) (md_links db)"

lemma pruned_links:
  assumes "l \<in> set (md_links (pruneOTPs i db))" and "has_code i l"
  shows "l \<in> set (md_links db) \<and> lk_message_id l \<in> set (map lk_message_id (take maxOTPHistory (otp_links db i)))"
proof -
  define kept where "kept = map lk_message_id (take maxOTPHistory (otp_links db i))"
  obtain r where "r \<in> set (md_links db)"
    and "l = (if lk_alias_id r = i \<and> lk_otp r \<noteq> [] \<and> lk_message_id r \<notin> set kept then r\<lparr>lk_otp := []\<rparr> else r)"
    using assms(1) by (auto simp: pruneOTPs_def Let_def set_update_where kept_def [symmetric])
  with assms(2) have "l \<in> set (md_links db) \<and> lk_message_id l \<in> set kept"
    by (cases "lk_alias_id r = i \<and> lk_otp r \<noteq> [] \<and> lk_message_id r \<notin> set kept") (auto simp: has_code_def)
  then show ?thesis by (simp only: kept_def)
qed

lemma prune_bound:
  assumes "unique_key link_key (md_links db)"
  shows "otp_count (pruneOTPs i db) i \<le> maxOTPHistory"
proof -
  define kept where "kept = map lk_message_id (take maxOTPHistory (otp_links db i))"
  let ?S = "{link_key r |r. r \<in> set (md_links (pruneOTPs i db)) \<and> has_code i r}"
  have len: "length kept \<le> maxOTPHistory" by (simp add: kept_def)
  have keys: "?S \<subseteq> (\<lambda>m. (i, m)) ` set kept"
  proof
    fix k
    assume "k \<in> ?S"
    then obtain l where "k = link_key l" "l \<in> set (md_links (pruneOTPs i db))" "has_code i l" by blast
    with pruned_links [of l i db] show "k \<in> (\<lambda>m. (i, m)) ` set kept"
      unfolding kept_def link_key_def has_code_def by blast
  qed
  have "unique_key link_key (md_links (pruneOTPs i db))" using assms by simp
  then have "otp_count (pruneOTPs i db) i = card ?S"
    unfolding otp_count_def by (rule count_where_card)
  also have "\<dots> \<le> card ((\<lambda>m. (i, m)) ` set kept)" using keys by (intro card_mono) simp_all
  also have "\<dots> \<le> card (set kept)" by (rule card_image_le) simp
  also have "\<dots> \<le> maxOTPHistory" using card_length [of kept] len by linarith
  finally show ?thesis .
qed

lemma prune_other: "otp_count (pruneOTPs i db) j \<le> otp_count db j"
  unfolding otp_count_def pruneOTPs_def Let_def
  by (simp, rule count_where_update_where_le) (simp add: has_code_def)

lemma link_alias_otp:
  assumes "link_alias otp created m i db = Inr db'" and "unique_key link_key (md_links db)"
    and "otp_count db j \<le> maxOTPHistory"
  shows "otp_count db' j \<le> maxOTPHistory"
proof (cases "uid_of db i m")
  case (Some u)
  then have "db' = db" using assms(1) by (auto simp: link_alias_def uid_of_def)
  with assms(3) show ?thesis by simp
next
  case None
  then obtain db1 uid where al: "allocateUID i db = Inr (uid, db1)"
    and db': "db' = (let db2 = db1\<lparr>md_links := md_links db1 @ [\<lparr>lk_alias_id = i, lk_message_id = m, lk_mailbox_uid = uid,
        lk_otp = otp, lk_created_at = created\<rparr>]\<rparr> in if otp \<noteq> [] then pruneOTPs i db2 else db2)"
    using assms(1) by (auto simp: link_alias_def uid_of_def bind_res_Inr Let_def split: if_splits)
  have l1: "md_links db1 = md_links db" using al by (auto simp: allocateUID_def split: option.splits if_splits)
  let ?db2 = "db1\<lparr>md_links := md_links db1 @ [\<lparr>lk_alias_id = i, lk_message_id = m, lk_mailbox_uid = uid,
        lk_otp = otp, lk_created_at = created\<rparr>]\<rparr>"
  have u2: "unique_key link_key (md_links ?db2)"
    using assms(2) None l1 by (simp add: unique_key_append1 link_key_def uid_of_def)
  show ?thesis
  proof (cases "otp \<noteq> [] \<and> j = i")
    case True
    with db' prune_bound [OF u2, of i] show ?thesis by (simp add: Let_def)
  next
    case False
    then have "otp_count ?db2 j = otp_count db j"
      by (auto simp: otp_count_def l1 has_code_def count_where_Cons)
    with db' prune_other [of i ?db2 j] assms(3) show ?thesis by (auto simp: Let_def)
  qed
qed

lemma link_aliases_otp:
  "link_aliases otp created m prev is db = Inr db' \<Longrightarrow> uid_inv db \<Longrightarrow> otp_count db j \<le> maxOTPHistory \<Longrightarrow>
    otp_count db' j \<le> maxOTPHistory"
proof (induction otp created m prev "is" db rule: link_aliases.induct)
  case (2 otp created m prev i "is" db)
  then obtain db1 where db1: "link_alias otp created m i db = Inr db1"
    and rest: "link_aliases otp created m (Some i) is db1 = Inr db'" and ok: "\<not> (i < 1 \<or> prev = Some i)"
    by (auto simp: bind_res_Inr split: if_splits)
  have "otp_count db1 j \<le> maxOTPHistory"
    using link_alias_otp [OF db1] "2.prems"(2,3) by (simp add: uid_inv_def)
  with "2.IH" [OF ok rest] link_alias_step [OF db1 "2.prems"(2)] show ?case by blast
qed simp

lemma persist_otp:
  assumes "persistArchivedMessagesTx ms st t db = Inr db'" and "uid_inv db" and "otp_count db j \<le> maxOTPHistory"
  shows "otp_count db' j \<le> maxOTPHistory"
proof -
  have step: "uid_inv s' \<and> otp_count s' j \<le> maxOTPHistory"
    if P: "uid_inv s \<and> otp_count s j \<le> maxOTPHistory" and pm: "persist_message st t m s = Inr s'" for m s s'
  proof -
    from pm obtain i db1 where up: "upsert_archived st m t s = Inr (i, db1)"
      and li: "link_aliases (message_otp m) (to_timestamp (ar_InternalDate m)) i None (sort (ar_AliasIDs m)) db1 = Inr s'"
      by (auto simp: persist_message_def bind_res_Inr split: if_splits)
    have "uid_inv db1" using upsert_archived_links [OF up] P uid_same(1) by blast
    moreover have "otp_count db1 j \<le> maxOTPHistory" using upsert_archived_links [OF up] P by (simp add: otp_count_def)
    ultimately show ?thesis using link_aliases_otp [OF li] persist_message_step [OF pm] P by blast
  qed
  have "uid_inv db' \<and> otp_count db' j \<le> maxOTPHistory"
    by (rule fold_res_invariant [OF assms(1) [unfolded persistArchivedMessagesTx_def],
          where P = "\<lambda>s. uid_inv s \<and> otp_count s j \<le> maxOTPHistory"])
      (use assms(2,3) step in blast)+
  then show ?thesis by simp
qed

text \<open>A code is dropped only for newer ones: every kept code stands before every dropped one in the
  order newest message first.\<close>

definition code_age :: "mail_db \<Rightarrow> link_row \<Rightarrow> int \<times> int" where
  "code_age db l = (case find_by av_id (lk_message_id l) (md_archived db) of
     None \<Rightarrow> (0, 0) | Some r \<Rightarrow> (- av_internal_date r, - av_id r))"

lemma otp_links_sorted: "sorted (map (code_age db) (otp_links db i))"
  unfolding otp_links_def code_age_def by (rule sorted_sort_key)

lemma otp_links_take_drop:
  assumes "k \<in> set (take n (otp_links db i))" and "d \<in> set (drop n (otp_links db i))"
  shows "code_age db k \<le> code_age db d"
proof -
  let ?xs = "map (code_age db) (otp_links db i)"
  have "sorted (take n ?xs @ drop n ?xs)" using otp_links_sorted by simp
  then have "\<forall>x \<in> set (take n ?xs). \<forall>y \<in> set (drop n ?xs). x \<le> y" unfolding sorted_append by blast
  with assms show ?thesis by (auto simp: take_map drop_map)
qed

subsection \<open>Eviction, oldest first\<close>

abbreviation is_available :: "archived_row \<Rightarrow> bool" where
  "is_available r \<equiv> av_content_state r = ArchiveContentAvailable"

definition by_age :: "mail_db \<Rightarrow> archived_row list" where
  "by_age db = sort_key (\<lambda>r. (av_internal_date r, av_id r)) (filter is_available (md_archived db))"

definition bytes_of :: "archived_row list \<Rightarrow> int" where
  "bytes_of rs = sum_list (map av_content_bytes rs)"

lemma sum_list_sort_key: "sum_list (map g (sort_key f xs)) = (sum_list (map g xs) :: int)"
proof -
  have "mset (map g (sort_key f xs)) = mset (map g xs)" by simp
  then show ?thesis by (metis sum_mset_sum_list)
qed

lemma bytes_by_age: "bytes_of (by_age db) = available_bytes (md_archived db)"
  by (simp add: bytes_of_def by_age_def available_bytes_def sum_list_sort_key)

lemma length_by_age: "length (by_age db) = available_count db"
  by (simp add: by_age_def available_count_def count_where_def)

lemma oldest_by_age: "oldest_available (md_archived db) = (case by_age db of [] \<Rightarrow> None | r # _ \<Rightarrow> Some r)"
  by (simp add: oldest_available_def by_age_def)

lemma filter_available_mark:
  "s \<noteq> ArchiveContentAvailable \<Longrightarrow>
   filter is_available (update_where (\<lambda>r. av_id r = i \<and> is_available r) (\<lambda>r. r\<lparr>av_content_path := [], av_content_state := s\<rparr>) rows)
     = filter (\<lambda>r. av_id r \<noteq> i) (filter is_available rows)"
  by (induction rows) (auto simp: update_where_Cons)

lemma by_age_mark:
  assumes "unique_key av_id (md_archived db)" and "by_age db = r # rs" and "s \<noteq> ArchiveContentAvailable"
  shows "by_age (mark_content s (av_id r) db) = rs"
proof -
  have "distinct (map av_id (filter is_available (md_archived db)))"
    using assms(1) by (simp add: unique_key_def distinct_map_filter)
  moreover have "mset (map av_id (by_age db)) = mset (map av_id (filter is_available (md_archived db)))"
    by (simp add: by_age_def)
  ultimately have "distinct (map av_id (by_age db))" by (metis mset_eq_imp_distinct_iff)
  then have "av_id r \<notin> av_id ` set rs" using assms(2) by simp
  then have others: "\<forall>x \<in> set rs. av_id x \<noteq> av_id r" by (metis imageI)
  have "by_age (mark_content s (av_id r) db) = filter (\<lambda>x. av_id x \<noteq> av_id r) (by_age db)"
  proof -
    have "md_archived (mark_content s (av_id r) db) = update_where (\<lambda>x. av_id x = av_id r \<and> is_available x)
        (\<lambda>x. x\<lparr>av_content_path := [], av_content_state := s\<rparr>) (md_archived db)"
      by (simp add: mark_content_def)
    then show ?thesis
      unfolding by_age_def filter_sort by (simp only: filter_available_mark [OF assms(3)])
  qed
  also have "\<dots> = filter (\<lambda>x. av_id x \<noteq> av_id r) rs" using assms(2) by simp
  also have "\<dots> = rs" using others by (simp add: filter_id_conv)
  finally show ?thesis .
qed

lemma mark_unique: "unique_key av_id (md_archived (mark_content s i db)) \<longleftrightarrow> unique_key av_id (md_archived db)"
  by (simp add: mark_content_def unique_key_update_where)

lemma evicted_not_available: "ArchiveContentEvicted \<noteq> ArchiveContentAvailable" "ArchiveContentMissing \<noteq> ArchiveContentAvailable"
  by (simp_all add: content_states)

lemma enforce_loop_spec:
  assumes "unique_key av_id (md_archived db)" and "length (by_age db) \<le> fuel" and "0 \<le> mailArchiveLimit cfg"
  shows "\<exists>e db' fs'. enforce_loop cfg io fuel db fs = Some (e, db', fs') \<and>
    (\<exists>k \<le> length (by_age db). by_age db' = drop k (by_age db) \<and>
       (\<forall>j < k. mailArchiveLimit cfg < bytes_of (drop j (by_age db))) \<and>
       (e = None \<longrightarrow> bytes_of (drop k (by_age db)) \<le> mailArchiveLimit cfg))"
  using assms
proof (induction fuel arbitrary: db fs)
  case 0
  then have "by_age db = []" by simp
  then have "available_bytes (md_archived db) = 0" using bytes_by_age [of db] by (simp add: bytes_of_def)
  with 0 show ?case by (subst enforce_loop.simps) (simp add: bytes_of_def \<open>by_age db = []\<close>)
next
  case (Suc n)
  let ?L = "by_age db"
  show ?case
  proof (cases "available_bytes (md_archived db) \<le> mailArchiveLimit cfg")
    case True
    then show ?thesis
      by (subst enforce_loop.simps) (auto simp: bytes_by_age intro!: exI [of _ 0])
  next
    case False': False
    then have big: "mailArchiveLimit cfg < bytes_of ?L" by (simp add: bytes_by_age)
    then have "?L \<noteq> []" using Suc.prems(3) by (auto simp: bytes_of_def)
    then obtain r rs where L: "?L = r # rs" by (cases ?L) auto
    then have old: "oldest_available (md_archived db) = Some r" by (simp add: oldest_by_age)
    show ?thesis
    proof (cases "\<exists>path. safeArchivePath cfg (av_content_path r) = Some path \<and> \<not> io path")
      case False
      then show ?thesis using False' old
        by (subst enforce_loop.simps) (auto split: option.splits intro!: exI [of _ 0])
    next
      case True
      then obtain path where path: "safeArchivePath cfg (av_content_path r) = Some path" "\<not> io path" by blast
      let ?db1 = "mark_content ArchiveContentEvicted (av_id r) db"
      have rs: "by_age ?db1 = rs" using by_age_mark [OF Suc.prems(1) L] evicted_not_available by blast
      have "unique_key av_id (md_archived ?db1)" using Suc.prems(1) by (simp add: mark_unique)
      moreover have "length (by_age ?db1) \<le> n" using Suc.prems(2) L rs by simp
      ultimately have ih: "\<exists>e db' fs'. enforce_loop cfg io n ?db1 (fs(path := None)) = Some (e, db', fs') \<and>
          (\<exists>k \<le> length rs. by_age db' = drop k rs \<and>
             (\<forall>j < k. mailArchiveLimit cfg < bytes_of (drop j rs)) \<and>
             (e = None \<longrightarrow> bytes_of (drop k rs) \<le> mailArchiveLimit cfg))"
        using Suc.IH [of ?db1 "fs(path := None)", OF _ _ Suc.prems(3)] unfolding rs by blast
      then obtain e db' fs' k where
        res: "enforce_loop cfg io n ?db1 (fs(path := None)) = Some (e, db', fs')" and k: "k \<le> length rs" "by_age db' = drop k rs"
          "\<forall>j < k. mailArchiveLimit cfg < bytes_of (drop j rs)"
          "e = None \<longrightarrow> bytes_of (drop k rs) \<le> mailArchiveLimit cfg"
        by blast
      have step: "enforce_loop cfg io (Suc n) db fs = Some (e, db', fs')"
        using False' old path res by (subst enforce_loop.simps) simp
      have "\<forall>j < Suc k. mailArchiveLimit cfg < bytes_of (drop j ?L)"
        using k(3) big L by (auto simp: less_Suc_eq_0_disj)
      moreover have "Suc k \<le> length ?L" "by_age db' = drop (Suc k) ?L"
        "e = None \<longrightarrow> bytes_of (drop (Suc k) ?L) \<le> mailArchiveLimit cfg"
        using k(1,2,4) L by simp_all
      ultimately show ?thesis using step by blast
    qed
  qed
qed

end
