(* ===== verification/MailSync.thy ===== *)
theory MailSync
  imports LatestMail MailArchiveFacts
begin

section \<open>Publishing a mailbox synchronisation (internal/store/imap\_sync.go)\<close>

text \<open>
  A synchronisation result is published in one transaction: the archived messages and their public
  UIDs, the legacy snapshots, the account's cursor and the sync status of the account and its
  aliases. The result is dropped without effect when the account version or the set of enabled
  aliases has moved on, when the cursor is already further, or when a cursor would be created or
  moved to another mailbox generation without an authoritative reset. Files published for a batch
  that does not commit are removed again. \<open>fault\<close> makes the transaction fail and roll back.
\<close>

subsection \<open>Reading the cursor\<close>

definition GetIMAPSyncState :: "mail_db \<Rightarrow> int \<Rightarrow> mail_error + sync_state" where
  "GetIMAPSyncState db account =
     (if account < 1 then Inl InvalidArgument
      else (case find_by ss_AccountID account (md_sync db) of
              None \<Rightarrow> Inl NotFound
            | Some s \<Rightarrow>
                if ss_UIDValidity s < 1 \<or> ss_UIDValidity s > max_uint32 \<or> ss_LastUID s < 0 \<or> ss_LastUID s > max_uint32
                then Inl Corrupt
                else Inr (s\<lparr>ss_UpdatedAt := time_of_timestamp (ss_UpdatedAt s)\<rparr>)))"

definition position_ok :: "snapshot_position \<Rightarrow> bool" where
  "position_ok p \<longleftrightarrow> \<not> (sp_AliasID p < 1 \<or> sp_UIDValidity p < 1 \<or> sp_UIDValidity p > max_uint32 \<or>
     sp_UID p < 1 \<or> sp_UID p > max_uint32)"

definition ListMailboxSnapshotPositions :: "mail_db \<Rightarrow> int \<Rightarrow> mail_error + (int \<rightharpoonup> snapshot_position)" where
  "ListMailboxSnapshotPositions db account =
     (if account < 1 then Inl InvalidArgument
      else (let ps = map (\<lambda>r. \<lparr>sp_AliasID = lm_AliasID r, sp_UIDValidity = lm_UIDValidity r, sp_UID = lm_UID r\<rparr>)
              (filter (\<lambda>r. case find_by a_ID (lm_AliasID r) (md_aliases db) of
                             None \<Rightarrow> False | Some a \<Rightarrow> a_AccountID a = account \<and> a_Enabled a) (md_latest db)) in
            if list_all position_ok ps then Inr (map_of (map (\<lambda>p. (sp_AliasID p, p)) ps)) else Inl Corrupt))"

subsection \<open>Validation\<close>

definition valid_enabled :: "int \<Rightarrow> mail_alias list \<Rightarrow> bool" where
  "valid_enabled account aliases \<longleftrightarrow>
     list_all (\<lambda>a. 1 \<le> a_ID a \<and> a_AccountID a = account \<and> a_Enabled a) aliases \<and> distinct (map a_ID aliases)"

definition valid_update :: "sync_result \<Rightarrow> mail_alias list \<Rightarrow> int \<times> snapshot_update \<Rightarrow> bool" where
  "valid_update result aliases e =
     (case e of (i, u) \<Rightarrow>
        i \<in> set (map a_ID aliases) \<and> su_AliasID u = i \<and> su_State u = SnapshotEmpty \<and>
        su_UIDValidity u = ss_UIDValidity (sr_State result) \<and> su_UID u = 0)"

definition valid_message :: "int \<Rightarrow> sync_result \<Rightarrow> mail_alias list \<Rightarrow> archived_message \<Rightarrow> bool" where
  "valid_message account result aliases m \<longleftrightarrow>
     ar_AccountID m = account \<and> ar_UIDValidity m = ss_UIDValidity (sr_State result) \<and> ar_UID m \<noteq> 0 \<and>
     ar_UID m \<le> ss_LastUID (sr_State result) \<and> \<not> is_zero_time (ar_InternalDate m) \<and>
     ar_AliasIDs m \<noteq> [] \<and> set (ar_AliasIDs m) \<subseteq> set (map a_ID aliases) \<and> distinct (ar_AliasIDs m)"

definition validateMailboxSync :: "int \<Rightarrow> mail_alias list \<Rightarrow> sync_result \<Rightarrow> bool" where
  "validateMailboxSync account aliases result \<longleftrightarrow>
     1 \<le> account \<and> ss_AccountID (sr_State result) = account \<and> ss_UIDValidity (sr_State result) \<noteq> 0 \<and>
     valid_enabled account aliases \<and>
     list_all (valid_update result aliases) (sr_LegacySnapshotUpdates result) \<and>
     list_all (valid_message account result aliases) (sr_ArchivedMessages result) \<and>
     distinct (map ar_UID (sr_ArchivedMessages result))"

definition enabledAliasSetMatchesTx :: "mail_db \<Rightarrow> int \<Rightarrow> mail_alias list \<Rightarrow> bool" where
  "enabledAliasSetMatchesTx db account aliases \<longleftrightarrow>
     sort (map a_ID (filter (\<lambda>a. a_AccountID a = account \<and> a_Enabled a) (md_aliases db))) = sort (map a_ID aliases)"

subsection \<open>The cursor decision\<close>

text \<open>\<open>None\<close>: the result is stale and dropped; \<open>Some t\<close>: it is published as observed at \<open>t\<close>.\<close>

definition cursor_decision :: "sync_state option \<Rightarrow> sync_result \<Rightarrow> time \<Rightarrow> time option" where
  "cursor_decision current result syncedAt =
     (let observedAt = ss_UpdatedAt (sr_State result) in
      case current of
        Some cur \<Rightarrow>
          (let currentObservedAt = time_of_timestamp (ss_UpdatedAt cur);
               sameGeneration = (ss_UIDValidity cur = ss_UIDValidity (sr_State result)) in
           if sameGeneration \<and> ss_LastUID cur > ss_LastUID (sr_State result) then None
           else if \<not> sameGeneration \<and> \<not> sr_Reset result then None
           else if sameGeneration \<and> (is_zero_time observedAt \<or> observedAt < currentObservedAt) then Some currentObservedAt
           else if \<not> sameGeneration \<and> is_zero_time observedAt then Some syncedAt
           else Some observedAt)
      | None \<Rightarrow>
          if \<not> sr_Reset result then None
          else if is_zero_time observedAt then Some syncedAt
          else Some observedAt)"

subsection \<open>Legacy snapshots\<close>

definition account_alias_ids :: "mail_db \<Rightarrow> int \<Rightarrow> int set" where
  "account_alias_ids db account = {a_ID a |a. a \<in> set (md_aliases db) \<and> a_AccountID a = account}"

definition in_account :: "mail_db \<Rightarrow> int \<Rightarrow> int \<Rightarrow> bool" where
  "in_account db account i \<longleftrightarrow> list_ex (\<lambda>a. a_ID a = i \<and> a_AccountID a = account) (md_aliases db)"

definition legacy_reset :: "int \<Rightarrow> sync_result \<Rightarrow> bool \<Rightarrow> mail_db \<Rightarrow> mail_db" where
  "legacy_reset account result resetAll db =
     (if \<not> sr_Reset result then db
      else db\<lparr>md_latest := delete_where (\<lambda>r. in_account db account (lm_AliasID r) \<and>
               (\<not> (\<not> resetAll \<and> ss_UIDValidity (sr_State result) \<noteq> 0) \<or>
                lm_UIDValidity r \<noteq> ss_UIDValidity (sr_State result))) (md_latest db)\<rparr>)"

definition legacy_empty :: "int \<Rightarrow> int \<times> snapshot_update \<Rightarrow> mail_db \<Rightarrow> mail_db" where
  "legacy_empty account e db =
     (case e of (i, u) \<Rightarrow>
        if su_State u \<noteq> SnapshotEmpty then db
        else if list_ex (\<lambda>a. a_ID a = i \<and> a_AccountID a = account \<and> a_Enabled a) (md_aliases db)
        then db\<lparr>md_latest := delete_where (\<lambda>r. lm_AliasID r = i) (md_latest db)\<rparr> else db)"

definition snapshot_of :: "archived_message \<Rightarrow> time \<Rightarrow> int \<Rightarrow> latest_message" where
  "snapshot_of m syncedAt i =
     (let messageSyncedAt = (if is_zero_time (ar_SyncedAt m) then syncedAt else ar_SyncedAt m) in
      \<lparr>lm_AliasID = i, lm_UIDValidity = ar_UIDValidity m, lm_UID = ar_UID m,
       lm_MessageID = sanitizePostgresText (ar_MessageID m), lm_InternalDate = to_timestamp (ar_InternalDate m),
       lm_HeaderDate = map_option to_timestamp (ar_HeaderDate m), lm_From = marshalJSONList (ar_From m),
       lm_To = marshalJSONList (ar_To m), lm_CC = marshalJSONList (ar_CC m),
       lm_Subject = sanitizePostgresText (ar_Subject m), lm_TextBody = sanitizePostgresText (ar_TextBody m),
       lm_HTMLBody = sanitizePostgresText (ar_HTMLBody m),
       lm_Attachments = json_list marshal_attachment (ar_Attachments m),
       lm_BodyTruncated = ar_BodyTruncated m, lm_SyncedAt = to_timestamp messageSyncedAt\<rparr>)"

definition legacy_put :: "int \<Rightarrow> archived_message \<Rightarrow> time \<Rightarrow> int \<Rightarrow> mail_db \<Rightarrow> mail_error + mail_db" where
  "legacy_put account m syncedAt i db =
     (if i < 1 then Inl InvalidSync
      else if in_account db account i then Inr (put_latest_guarded (snapshot_of m syncedAt i) db)
      else Inr db)"

definition legacy_message :: "int \<Rightarrow> time \<Rightarrow> archived_message \<Rightarrow> mail_db \<Rightarrow> mail_error + mail_db" where
  "legacy_message account syncedAt m db =
     (if ar_UpstreamSeen m \<or> ar_AliasIDs m = [] then Inr db
      else fold_res (legacy_put account m syncedAt) (ar_AliasIDs m) db)"

definition persistLegacyLatestMessagesTx ::
  "int \<Rightarrow> sync_result \<Rightarrow> time \<Rightarrow> bool \<Rightarrow> mail_db \<Rightarrow> mail_error + mail_db" where
  "persistLegacyLatestMessagesTx account result syncedAt resetAll db =
     fold_res (legacy_message account syncedAt) (sr_ArchivedMessages result)
       (fold (legacy_empty account) (sr_LegacySnapshotUpdates result) (legacy_reset account result resetAll db))"

subsection \<open>Status of account and aliases\<close>

definition mark_aliases :: "int \<Rightarrow> string \<Rightarrow> string \<Rightarrow> timestamp \<Rightarrow> mail_db \<Rightarrow> mail_db" where
  "mark_aliases account status err at' db =
     db\<lparr>md_aliases := update_where (\<lambda>a. a_AccountID a = account \<and> a_Enabled a)
          (\<lambda>a. a\<lparr>a_LastSyncStatus := status, a_LastSyncError := err, a_LastSyncedAt := Some at', a_UpdatedAt := at'\<rparr>)
          (md_aliases db)\<rparr>"

definition mark_account :: "int \<Rightarrow> timestamp \<Rightarrow> string \<Rightarrow> string \<Rightarrow> timestamp \<Rightarrow> timestamp \<Rightarrow> mail_db \<Rightarrow> mail_error + mail_db" where
  "mark_account account version status err at' nextVersion db =
     (if list_ex (\<lambda>a. ac_ID a = account \<and> ac_UpdatedAt a = version) (md_accounts db)
      then Inr (db\<lparr>md_accounts := update_where (\<lambda>a. ac_ID a = account \<and> ac_UpdatedAt a = version)
             (\<lambda>a. a\<lparr>ac_LastSyncStatus := status, ac_LastSyncError := err, ac_LastSyncedAt := Some at', ac_UpdatedAt := nextVersion\<rparr>)
             (md_accounts db)\<rparr>)
      else Inl NotFound)"

definition put_cursor :: "sync_state \<Rightarrow> mail_db \<Rightarrow> mail_db" where
  "put_cursor s db = db\<lparr>md_sync := upsert_by ss_AccountID s (\<lambda>_. s) (md_sync db)\<rparr>"

subsection \<open>The transaction\<close>

text \<open>The statements of the transaction: \<open>Inr None\<close> is the early \<open>return nil\<close> of a stale result.\<close>

definition sync_tx ::
  "int \<Rightarrow> time \<Rightarrow> mail_alias list \<Rightarrow> sync_result \<Rightarrow> staged \<Rightarrow> time \<Rightarrow> time \<Rightarrow> mail_db \<Rightarrow> mail_error + mail_db option" where
  "sync_tx account expectedVersion aliases result st syncedAt now db =
     bind_res (lockAccountVersionForUpdate db account) (\<lambda>version.
       if version \<noteq> to_timestamp expectedVersion then Inr None
       else if \<not> enabledAliasSetMatchesTx db account aliases then Inr None
       else (let current = find_by ss_AccountID account (md_sync db) in
         case cursor_decision current result syncedAt of
           None \<Rightarrow> Inr None
         | Some observedAt \<Rightarrow>
             (let resetAll = (sr_Reset result \<and>
                    (case current of None \<Rightarrow> False | Some cur \<Rightarrow> ss_UIDValidity cur \<noteq> ss_UIDValidity (sr_State result)));
                  status = (if sr_HasMore result then SyncStatusPending else SyncStatusOK);
                  at' = to_timestamp syncedAt in
              bind_res (persistArchivedMessagesTx (sr_ArchivedMessages result) st syncedAt db) (\<lambda>db1.
              bind_res (persistLegacyLatestMessagesTx account result syncedAt resetAll db1) (\<lambda>db2.
              (let db3 = put_cursor (\<lparr>ss_AccountID = account, ss_UIDValidity = ss_UIDValidity (sr_State result),
                              ss_LastUID = ss_LastUID (sr_State result), ss_UpdatedAt = to_timestamp observedAt\<rparr>) db2;
                   db4 = mark_aliases account status [] at' db3 in
               bind_res (nextAccountVersion now version) (\<lambda>nextVersion.
               bind_res (mark_account account version status [] at' nextVersion db4) (\<lambda>db5. Inr (Some db5)))))))))"

definition ApplyMailboxSync ::
  "string \<Rightarrow> archive_config \<Rightarrow> (string \<Rightarrow> bool) \<Rightarrow> bool \<Rightarrow> time \<Rightarrow> int \<Rightarrow> time \<Rightarrow> mail_alias list \<Rightarrow> sync_result \<Rightarrow> time \<Rightarrow>
     mail_db \<times> fs \<Rightarrow> mail_error option \<times> mail_db \<times> fs" where
  "ApplyMailboxSync wd cfg io fault now account expectedVersion aliases result syncedAt0 s =
     (case s of (db, fs) \<Rightarrow>
       let inputs = cleanupArchiveInputs wd cfg io (sr_ArchivedMessages result) in
       if is_zero_time expectedVersion then (Some InvalidArgument, db, inputs fs)
       else if \<not> validateMailboxSync account aliases result then (Some InvalidSync, db, inputs fs)
       else (case stageArchiveMessages wd cfg io (sr_ArchivedMessages result) fs of
               (Inl e, fs1) \<Rightarrow> (Some e, db, inputs fs1)
             | (Inr st, fs1) \<Rightarrow>
                 (let syncedAt = (if is_zero_time syncedAt0 then now else syncedAt0);
                      undo = inputs (cleanupPublishedArchive cfg io st fs1) in
                  case sync_tx account expectedVersion aliases result st syncedAt now db of
                    Inl e \<Rightarrow> (Some e, db, undo)
                  | Inr None \<Rightarrow> (None, db, undo)
                  | Inr (Some db') \<Rightarrow>
                      if fault then (Some TxFailed, db, undo)
                      else (case EnforceMailArchiveLimit cfg io db' fs1 of
                              None \<Rightarrow> (Some TxFailed, db', inputs fs1)
                            | Some (e, db'', fs2) \<Rightarrow> (e, db'', inputs fs2)))))"

definition RecordMailboxSyncFailure ::
  "bool \<Rightarrow> time \<Rightarrow> int \<Rightarrow> time \<Rightarrow> string \<Rightarrow> time \<Rightarrow> mail_db \<Rightarrow> mail_error option \<times> mail_db" where
  "RecordMailboxSyncFailure fault now account expectedVersion message0 at0 db =
     (if account < 1 \<or> is_zero_time expectedVersion then (Some InvalidArgument, db)
      else (let at' = to_timestamp (if is_zero_time at0 then now else at0);
                message = trim_space (sanitizePostgresText message0) in
        case lockAccountVersionForUpdate db account of
          Inl e \<Rightarrow> (Some e, db)
        | Inr version \<Rightarrow>
            if version \<noteq> to_timestamp expectedVersion then (None, db)
            else (case bind_res (nextAccountVersion now version)
                         (\<lambda>nextVersion. mark_account account version SyncStatusError message at' nextVersion
                            (mark_aliases account SyncStatusError message at' db)) of
                    Inl e \<Rightarrow> (Some e, db)
                  | Inr db' \<Rightarrow> if fault then (Some TxFailed, db) else (None, db'))))"

end
