(* ===== verification/MailSyncFacts.thy ===== *)
theory MailSyncFacts
  imports MailSync
begin

section \<open>Facts about mailbox synchronisation\<close>

text \<open>
  What each operation on the mail tables leaves alone, and the relation \<open>mail_follow\<close> between the
  database before and after any of them: mailbox UIDs are never taken back, account versions never
  decrease, consumption marks stay and the history of codes stays bounded.
\<close>

subsection \<open>Unchanged tables\<close>

definition others_same :: "mail_db \<Rightarrow> mail_db \<Rightarrow> bool" where
  "others_same db db' \<longleftrightarrow> md_accounts db' = md_accounts db \<and> md_sync db' = md_sync db \<and>
     md_latest db' = md_latest db \<and> md_consumed db' = md_consumed db \<and> md_seen db' = md_seen db"

lemma others_same_refl: "others_same db db"
  by (simp add: others_same_def)

lemma others_same_trans: "others_same a b \<Longrightarrow> others_same b c \<Longrightarrow> others_same a c"
  by (simp add: others_same_def)

lemma others_same_prune: "others_same db (pruneOTPs i db)"
  by (simp add: others_same_def pruneOTPs_def Let_def)

lemma others_same_link: "link_alias otp created m i db = Inr db' \<Longrightarrow> others_same db db'"
  by (auto simp: link_alias_def allocateUID_def bind_res_Inr others_same_def pruneOTPs_def Let_def
      split: if_splits option.splits)

lemma others_same_links: "link_aliases otp created m prev is db = Inr db' \<Longrightarrow> others_same db db'"
  by (induction otp created m prev "is" db rule: link_aliases.induct)
    (auto simp: bind_res_Inr others_same_refl split: if_splits dest!: others_same_link intro: others_same_trans)

lemma others_same_upsert: "upsert_archived st m t db = Inr (i, db') \<Longrightarrow> others_same db db'"
  by (auto simp: upsert_archived_def Let_def others_same_def split: if_splits option.splits)

lemma others_same_message: "persist_message st t m db = Inr db' \<Longrightarrow> others_same db db'"
  by (auto simp: persist_message_def bind_res_Inr split: if_splits
      dest!: others_same_upsert others_same_links intro: others_same_trans)

lemma others_same_persist:
  assumes "persistArchivedMessagesTx ms st t db = Inr db'"
  shows "others_same db db'"
  by (rule fold_res_invariant [OF assms [unfolded persistArchivedMessagesTx_def], where P = "others_same db"])
    (use others_same_refl others_same_message others_same_trans in blast)+

definition only_latest :: "mail_db \<Rightarrow> mail_db \<Rightarrow> bool" where
  "only_latest db db' \<longleftrightarrow> db' = db\<lparr>md_latest := md_latest db'\<rparr>"

lemma only_latest_refl: "only_latest db db"
  by (simp add: only_latest_def)

lemma only_latestD:
  assumes "only_latest db db'"
  shows "md_links db' = md_links db" "md_aliases db' = md_aliases db" "md_accounts db' = md_accounts db"
    "md_consumed db' = md_consumed db" "md_sync db' = md_sync db" "md_archived db' = md_archived db" "md_seen db' = md_seen db"
  by (subst assms [unfolded only_latest_def]; simp)+

lemma only_latest_trans: "only_latest a b \<Longrightarrow> only_latest b c \<Longrightarrow> only_latest a c"
  unfolding only_latest_def by (metis mail_db.surjective mail_db.update_convs(7))

lemma only_latest_legacy:
  assumes "persistLegacyLatestMessagesTx account result t resetAll db = Inr db'"
  shows "only_latest db db'"
proof -
  have reset: "only_latest db (legacy_reset account result resetAll db)"
    by (simp add: legacy_reset_def only_latest_def)
  have empty: "only_latest db (fold (legacy_empty account) us x)" if "only_latest db x" for us x
    using that
  proof (induction us arbitrary: x)
    case (Cons u us)
    have "only_latest x (legacy_empty account u x)"
      by (cases u) (simp add: legacy_empty_def only_latest_def)
    with Cons only_latest_trans have "only_latest db (legacy_empty account u x)" by blast
    with Cons.IH show ?case by simp
  qed simp
  have put: "only_latest s s'" if "legacy_put account m t i s = Inr s'" for m i s s'
    using that by (auto simp: legacy_put_def put_latest_guarded_def only_latest_def split: if_splits)
  have msg: "only_latest s s'" if "legacy_message account t m s = Inr s'" for m s s'
  proof (cases "ar_UpstreamSeen m \<or> ar_AliasIDs m = []")
    case True
    with that show ?thesis by (simp add: legacy_message_def only_latest_refl)
  next
    case False
    with that have f: "fold_res (legacy_put account m t) (ar_AliasIDs m) s = Inr s'" by (simp add: legacy_message_def)
    show ?thesis
      by (rule fold_res_invariant [OF f, where P = "only_latest s"])
        (use only_latest_refl put only_latest_trans in blast)+
  qed
  show ?thesis
    by (rule fold_res_invariant [OF assms [unfolded persistLegacyLatestMessagesTx_def], where P = "only_latest db"])
      (use reset empty msg only_latest_trans in blast)+
qed

definition only_archived :: "mail_db \<Rightarrow> mail_db \<Rightarrow> bool" where
  "only_archived db db' \<longleftrightarrow> db' = db\<lparr>md_archived := md_archived db'\<rparr>"

lemma only_archivedD:
  assumes "only_archived db db'"
  shows "md_links db' = md_links db" "md_aliases db' = md_aliases db" "md_accounts db' = md_accounts db"
    "md_consumed db' = md_consumed db" "md_sync db' = md_sync db" "md_latest db' = md_latest db" "md_seen db' = md_seen db"
  by (subst assms [unfolded only_archived_def]; simp)+

lemma only_archived_trans: "only_archived a b \<Longrightarrow> only_archived b c \<Longrightarrow> only_archived a c"
  unfolding only_archived_def by (metis mail_db.surjective mail_db.update_convs(5))

lemma only_archived_mark: "only_archived db (mark_content s i db)"
  by (simp add: only_archived_def mark_content_def)

lemma only_archived_loop:
  "enforce_loop cfg io n db fs = Some (e, db', fs') \<Longrightarrow> only_archived db db'"
proof (induction cfg io n db fs rule: enforce_loop.induct)
  case (1 cfg io n db fs)
  have refl: "only_archived db db" by (simp add: only_archived_def)
  show ?case
  proof (cases "available_bytes (md_archived db) \<le> mailArchiveLimit cfg")
    case True
    with "1.prems" refl show ?thesis by (simp add: enforce_loop.simps [of cfg io n])
  next
    case over: False
    with "1.prems" obtain k where n: "n = Suc k" by (cases n) (simp_all add: enforce_loop.simps)
    show ?thesis
    proof (cases "oldest_available (md_archived db)")
      case None
      with "1.prems" over n refl show ?thesis by (simp add: enforce_loop.simps [of cfg io "Suc k"])
    next
      case old: (Some r)
      show ?thesis
      proof (cases "safeArchivePath cfg (av_content_path r)")
        case None
        with "1.prems" over n old refl show ?thesis by (simp add: enforce_loop.simps [of cfg io "Suc k"])
      next
        case path: (Some p)
        show ?thesis
        proof (cases "io p")
          case True
          with "1.prems" over n old path refl show ?thesis by (simp add: enforce_loop.simps [of cfg io "Suc k"])
        next
          case False
          with "1.prems" over n old path
          have "enforce_loop cfg io k (mark_content ArchiveContentEvicted (av_id r) db) (fs(p := None)) = Some (e, db', fs')"
            by (simp add: enforce_loop.simps [of cfg io "Suc k"])
          with "1.IH" [OF over n old path False] only_archived_mark only_archived_trans show ?thesis by blast
        qed
      qed
    qed
  qed
qed

lemma only_archived_limit:
  "EnforceMailArchiveLimit cfg io db fs = Some (e, db', fs') \<Longrightarrow> only_archived db db'"
  by (auto simp: EnforceMailArchiveLimit_def only_archived_def split: if_splits dest: only_archived_loop [unfolded only_archived_def])

lemma only_archived_reconcile: "only_archived db (reconcile_rows cfg io fs db)"
proof -
  have "only_archived db (foldl (\<lambda>db r. mark_content ArchiveContentMissing (av_id r) db) x rs)"
    if "only_archived db x" for x and rs :: "archived_row list"
    using that by (induction rs arbitrary: x) (auto intro: only_archived_trans [OF _ only_archived_mark])
  then show ?thesis by (simp add: reconcile_rows_def Let_def only_archived_def)
qed


subsection \<open>The transaction taken apart\<close>

lemma sync_tx_published:
  assumes "sync_tx account expected aliases result st t now db = Inr (Some db')"
  obtains version observed reset db1 db2 nextVersion where
    "lockAccountVersionForUpdate db account = Inr version" "version = to_timestamp expected"
    "enabledAliasSetMatchesTx db account aliases"
    "cursor_decision (find_by ss_AccountID account (md_sync db)) result t = Some observed"
    "persistArchivedMessagesTx (sr_ArchivedMessages result) st t db = Inr db1"
    "persistLegacyLatestMessagesTx account result t reset db1 = Inr db2"
    "nextAccountVersion now version = Inr nextVersion"
    "mark_account account version (if sr_HasMore result then SyncStatusPending else SyncStatusOK) [] (to_timestamp t) nextVersion
       (mark_aliases account (if sr_HasMore result then SyncStatusPending else SyncStatusOK) [] (to_timestamp t)
         (put_cursor \<lparr>ss_AccountID = account, ss_UIDValidity = ss_UIDValidity (sr_State result),
            ss_LastUID = ss_LastUID (sr_State result), ss_UpdatedAt = to_timestamp observed\<rparr> db2)) = Inr db'"
  using assms unfolding sync_tx_def by (auto simp: bind_res_Inr Let_def split: if_splits option.splits)

lemma apply_cases:
  assumes "ApplyMailboxSync wd cfg io fault now account expected aliases result t0 (db, fs) = (e, db', fs')"
  obtains (dropped) "db' = db"
    | (published) st db1 where "validateMailboxSync account aliases result" "\<not> is_zero_time expected"
        "sync_tx account expected aliases result st (if is_zero_time t0 then now else t0) now db = Inr (Some db1)"
        "only_archived db1 db'" "db' = db1 \<or> (\<exists>fs1 e' fs2. EnforceMailArchiveLimit cfg io db1 fs1 = Some (e', db', fs2))"
proof (cases "is_zero_time expected \<or> \<not> validateMailboxSync account aliases result")
  case True
  with assms dropped show thesis by (auto simp: ApplyMailboxSync_def Let_def split: if_splits)
next
  case False
  let ?t = "if is_zero_time t0 then now else t0"
  obtain r fs1 where st: "stageArchiveMessages wd cfg io (sr_ArchivedMessages result) fs = (r, fs1)" by fastforce
  show thesis
  proof (cases r)
    case (Inl x)
    with assms False st dropped show thesis by (simp add: ApplyMailboxSync_def Let_def)
  next
    case r: (Inr sg)
    show thesis
    proof (cases "sync_tx account expected aliases result sg ?t now db")
      case (Inl x)
      with assms False st r dropped show thesis by (simp add: ApplyMailboxSync_def Let_def)
    next
      case tx: (Inr o')
      show thesis
      proof (cases o')
        case None
        with assms False st r tx dropped show thesis by (simp add: ApplyMailboxSync_def Let_def)
      next
        case (Some db1)
        have same: "only_archived db1 db1" by (simp add: only_archived_def)
        from assms False st r tx Some have "db' = db \<or> only_archived db1 db' \<and> (db' = db1 \<or> (\<exists>fs1 e' fs2. EnforceMailArchiveLimit cfg io db1 fs1 = Some (e', db', fs2)))"
          using same by (auto simp: ApplyMailboxSync_def Let_def split: if_splits option.splits prod.splits dest: only_archived_limit)
        with False tx Some dropped published [of sg db1] show thesis by blast
      qed
    qed
  qed
qed

subsection \<open>What every operation keeps\<close>

definition version_of :: "mail_db \<Rightarrow> int \<Rightarrow> timestamp option" where
  "version_of db a = map_option ac_UpdatedAt (find_by ac_ID a (md_accounts db))"

definition versions_grow :: "mail_db \<Rightarrow> mail_db \<Rightarrow> bool" where
  "versions_grow db db' \<longleftrightarrow> (\<forall>a v. version_of db a = Some v \<longrightarrow> (\<exists>v'. version_of db' a = Some v' \<and> v \<le> v'))"

definition mail_ok :: "mail_db \<Rightarrow> bool" where
  "mail_ok db \<longleftrightarrow> uid_inv db \<and> (\<forall>i. otp_count db i \<le> maxOTPHistory)"

definition mail_follow :: "mail_db \<Rightarrow> mail_db \<Rightarrow> bool" where
  "mail_follow db db' \<longleftrightarrow> mail_ok db' \<and> uid_ext db db' \<and> versions_grow db db' \<and> set (md_consumed db) \<subseteq> set (md_consumed db')"

lemma mail_follow_refl: "mail_ok db \<Longrightarrow> mail_follow db db"
  by (simp add: mail_follow_def uid_ext_refl versions_grow_def)

lemma versions_grow_trans: "versions_grow a b \<Longrightarrow> versions_grow b c \<Longrightarrow> versions_grow a c"
  unfolding versions_grow_def by (meson order_trans)

lemma mail_follow_trans: "mail_follow a b \<Longrightarrow> mail_follow b c \<Longrightarrow> mail_follow a c"
  unfolding mail_follow_def using uid_ext_trans versions_grow_trans by blast

lemma version_of_lock: "lockAccountVersionForUpdate db a = Inr v \<longleftrightarrow> version_of db a = Some v"
  by (auto simp: lockAccountVersionForUpdate_def version_of_def split: option.splits)

lemma same_versions: "md_accounts db' = md_accounts db \<Longrightarrow> versions_grow db db'"
  by (auto simp: versions_grow_def version_of_def)

lemma same_links_follow:
  assumes "mail_ok db" and "md_links db' = md_links db" and "\<And>i. next_of db' i = next_of db i"
    and "versions_grow db db'" and "set (md_consumed db) \<subseteq> set (md_consumed db')"
  shows "mail_follow db db'"
proof -
  have "uid_of db' = uid_of db" "next_of db' = next_of db" "otp_count db' = otp_count db"
    using assms(2,3) by (simp_all add: fun_eq_iff uid_of_def otp_count_def)
  with assms show ?thesis by (auto simp: mail_follow_def mail_ok_def uid_inv_def uid_ext_def)
qed

lemma same_tables_follow:
  assumes "mail_ok db" and "md_links db' = md_links db" and "md_aliases db' = md_aliases db"
    and "md_accounts db' = md_accounts db" and "set (md_consumed db) \<subseteq> set (md_consumed db')"
  shows "mail_follow db db'"
  using assms by (intro same_links_follow same_versions) (simp_all add: next_of_def)

lemma only_archived_follow: "mail_ok db \<Longrightarrow> only_archived db db' \<Longrightarrow> mail_follow db db'"
  by (rule same_tables_follow) (simp_all add: only_archivedD)

lemma only_latest_follow: "mail_ok db \<Longrightarrow> only_latest db db' \<Longrightarrow> mail_follow db db'"
  by (rule same_tables_follow) (simp_all add: only_latestD)

lemma persist_follow:
  assumes "persistArchivedMessagesTx ms st t db = Inr db'" and "mail_ok db"
  shows "mail_follow db db'"
  using assms persist_uid [OF assms(1)] persist_otp [OF assms(1)] others_same_persist [OF assms(1)] same_versions [of db' db]
  by (auto simp: mail_follow_def mail_ok_def others_same_def)

lemma mark_aliases_follow: "mail_ok db \<Longrightarrow> mail_follow db (mark_aliases account s e t db)"
  by (rule same_links_follow)
    (auto simp: mark_aliases_def next_of_def find_by_update_where option.map_comp intro: same_versions option.map_cong)

lemma mark_account_version:
  assumes "mark_account account v s e t w db = Inr db'" and "version_of db account = Some v"
  shows "version_of db' a = (if a = account then Some w else version_of db a)"
proof -
  from assms(1) have "md_accounts db' = update_where (\<lambda>a. ac_ID a = account \<and> ac_UpdatedAt a = v)
      (\<lambda>a. a\<lparr>ac_LastSyncStatus := s, ac_LastSyncError := e, ac_LastSyncedAt := Some t, ac_UpdatedAt := w\<rparr>) (md_accounts db)"
    by (auto simp: mark_account_def split: if_splits)
  with assms(2) show ?thesis
    by (cases "find_by ac_ID a (md_accounts db)")
      (auto simp: version_of_def find_by_update_where dest: find_by_SomeD)
qed

lemma mark_account_follow:
  assumes "mark_account account v s e t w db = Inr db'" and "version_of db account = Some v" and "v < w" and "mail_ok db"
  shows "mail_follow db db'"
proof (rule same_links_follow)
  show "versions_grow db db'"
    using mark_account_version [OF assms(1,2)] assms(2,3) by (auto simp: versions_grow_def)
qed (use assms in \<open>auto simp: mark_account_def next_of_def split: if_splits\<close>)

lemma put_cursor_follow: "mail_ok db \<Longrightarrow> mail_follow db (put_cursor s db)"
  by (rule same_tables_follow) (simp_all add: put_cursor_def)

end
