(* ===== verification/MailSyncRuns.thy ===== *)
theory MailSyncRuns
  imports MailSyncFacts
begin

section \<open>Runs of mailbox synchronisation and their properties\<close>

text \<open>
  A run interleaves synchronisations, their failures, the legacy writes and reads of the latest
  message, consumption, the seen queue, reads of archived content and the upkeep of the archive, in
  any order, with any arguments and any faults. The properties are about every run.
\<close>

subsection \<open>Steps\<close>

type_synonym mail_world = "mail_db \<times> fs"

inductive mail_step :: "string \<Rightarrow> archive_config \<Rightarrow> mail_world \<Rightarrow> mail_world \<Rightarrow> bool" for wd cfg where
  ms_sync: "mail_step wd cfg w (snd (ApplyMailboxSync wd cfg io fault now account expected aliases result t w))"
| ms_failure: "mail_step wd cfg (db, fs) (snd (RecordMailboxSyncFailure fault now account expected message t db), fs)"
| ms_upsert: "mail_step wd cfg (db, fs) (snd (UpsertLatest now m db), fs)"
| ms_replace: "mail_step wd cfg (db, fs) (snd (ReplaceLatestMessage now m db), fs)"
| ms_delete: "mail_step wd cfg (db, fs) (DeleteLatestMessage i db, fs)"
| ms_delete_other: "mail_step wd cfg (db, fs) (DeleteLatestMessageFromOtherUIDValidity i v db, fs)"
| ms_consume: "mail_step wd cfg (db, fs) (snd (ConsumeLatestMessage now q db), fs)"
| ms_seen: "mail_step wd cfg (db, fs) (snd (DeleteSeenTasks account v uids db), fs)"
| ms_open: "mail_step wd cfg (db, fs) (snd (ReadArchivedContent cfg io fs mm db), fs)"
| ms_reconcile: "mail_step wd cfg (db, fs) (reconcile_rows cfg io fs db, fs)"
| ms_limit: "EnforceMailArchiveLimit cfg io db fs = Some (e, w) \<Longrightarrow> mail_step wd cfg (db, fs) w"

abbreviation mail_run :: "string \<Rightarrow> archive_config \<Rightarrow> mail_world \<Rightarrow> mail_world \<Rightarrow> bool" where
  "mail_run wd cfg \<equiv> (mail_step wd cfg)\<^sup>*\<^sup>*"

subsection \<open>Every step follows\<close>

lemma sync_tx_follow:
  assumes "sync_tx account expected aliases result st t now db = Inr (Some db')" and "mail_ok db"
  shows "mail_follow db db'"
  using assms(1)
proof (rule sync_tx_published)
  let ?s = "if sr_HasMore result then SyncStatusPending else SyncStatusOK"
  fix version observed reset db1 db2 nextVersion
  let ?db3 = "put_cursor \<lparr>ss_AccountID = account, ss_UIDValidity = ss_UIDValidity (sr_State result),
            ss_LastUID = ss_LastUID (sr_State result), ss_UpdatedAt = to_timestamp observed\<rparr> db2"
  assume lock: "lockAccountVersionForUpdate db account = Inr version"
    and p: "persistArchivedMessagesTx (sr_ArchivedMessages result) st t db = Inr db1"
    and l: "persistLegacyLatestMessagesTx account result t reset db1 = Inr db2"
    and n: "nextAccountVersion now version = Inr nextVersion"
    and m: "mark_account account version ?s [] (to_timestamp t) nextVersion
       (mark_aliases account ?s [] (to_timestamp t) ?db3) = Inr db'"
  have f1: "mail_follow db db1" by (rule persist_follow [OF p assms(2)])
  then have f2: "mail_follow db1 db2"
    using only_latest_follow [OF _ only_latest_legacy [OF l]] by (simp add: mail_follow_def)
  then have f3: "mail_follow db2 ?db3" using put_cursor_follow by (simp add: mail_follow_def)
  then have f4: "mail_follow ?db3 (mark_aliases account ?s [] (to_timestamp t) ?db3)"
    using mark_aliases_follow by (simp add: mail_follow_def)
  have "md_accounts (mark_aliases account ?s [] (to_timestamp t) ?db3) = md_accounts db"
    using others_same_persist [OF p] only_latestD(3) [OF only_latest_legacy [OF l]]
    by (simp add: mark_aliases_def put_cursor_def others_same_def)
  then have "version_of (mark_aliases account ?s [] (to_timestamp t) ?db3) account = Some version"
    using lock by (simp add: version_of_lock version_of_def)
  with mark_account_follow [OF m] nextAccountVersion_greater [OF n] f4
  have f5: "mail_follow (mark_aliases account ?s [] (to_timestamp t) ?db3) db'" by (simp add: mail_follow_def)
  show ?thesis using f1 f2 f3 f4 f5 mail_follow_trans by blast
qed

lemma apply_follow:
  assumes "ApplyMailboxSync wd cfg io fault now account expected aliases result t (db, fs) = (e, db', fs')" and "mail_ok db"
  shows "mail_follow db db'"
  using assms(1)
proof (cases rule: apply_cases)
  case dropped
  with assms(2) mail_follow_refl show ?thesis by blast
next
  case (published st db1)
  from sync_tx_follow [OF published(3) assms(2)] have f: "mail_follow db db1" .
  with only_archived_follow [OF _ published(4)] have "mail_follow db1 db'" by (simp add: mail_follow_def)
  with f show ?thesis by (rule mail_follow_trans)
qed

lemma failure_cases:
  assumes "RecordMailboxSyncFailure fault now account expected message t db = (e, db')"
  obtains (dropped) "db' = db"
    | (recorded) v w msg t' where "version_of db account = Some v" "v = to_timestamp expected" "v < w"
        "mark_account account v SyncStatusError msg t' w (mark_aliases account SyncStatusError msg t' db) = Inr db'"
proof (cases "account < 1 \<or> is_zero_time expected")
  case True
  with assms dropped show thesis by (simp add: RecordMailboxSyncFailure_def)
next
  case False
  define at' where "at' = to_timestamp (if is_zero_time t then now else t)"
  define msg where "msg = trim_space (sanitizePostgresText message)"
  show thesis
  proof (cases "lockAccountVersionForUpdate db account")
    case (Inl x)
    with assms False dropped show thesis by (simp add: RecordMailboxSyncFailure_def Let_def)
  next
    case v: (Inr v)
    define r where "r = bind_res (nextAccountVersion now v)
       (\<lambda>w. mark_account account v SyncStatusError msg at' w (mark_aliases account SyncStatusError msg at' db))"
    have eq: "(if v \<noteq> to_timestamp expected then (None, db)
        else (case r of Inl e \<Rightarrow> (Some e, db) | Inr db' \<Rightarrow> if fault then (Some TxFailed, db) else (None, db'))) = (e, db')"
      using assms False v unfolding RecordMailboxSyncFailure_def Let_def r_def at'_def msg_def by (simp split del: if_split)
    show thesis
    proof (cases "v = to_timestamp expected \<and> r = Inr db' \<and> \<not> fault")
      case True
      then obtain w where "nextAccountVersion now v = Inr w"
        "mark_account account v SyncStatusError msg at' w (mark_aliases account SyncStatusError msg at' db) = Inr db'"
        by (auto simp: r_def bind_res_Inr)
      with v True show thesis by (intro recorded [of v w]) (simp_all add: version_of_lock nextAccountVersion_greater)
    next
      case False
      with eq have "db' = db" by (auto split: if_splits sum.splits)
      with dropped show thesis by blast
    qed
  qed
qed

lemma failure_follow:
  assumes "RecordMailboxSyncFailure fault now account expected message t db = (e, db')" and "mail_ok db"
  shows "mail_follow db db'"
  using assms(1)
proof (cases rule: failure_cases)
  case dropped
  with assms(2) mail_follow_refl show ?thesis by blast
next
  case (recorded v w msg t')
  have f: "mail_follow db (mark_aliases account SyncStatusError msg t' db)" by (rule mark_aliases_follow [OF assms(2)])
  have "version_of (mark_aliases account SyncStatusError msg t' db) account = Some v"
    using recorded(1) by (simp add: version_of_def mark_aliases_def)
  moreover have "mail_ok (mark_aliases account SyncStatusError msg t' db)" using f by (simp add: mail_follow_def)
  ultimately have "mail_follow (mark_aliases account SyncStatusError msg t' db) db'"
    using mark_account_follow [OF recorded(4)] recorded(3) by blast
  with f show ?thesis by (rule mail_follow_trans)
qed

lemma open_cases: "snd (ReadArchivedContent cfg io fs m db) = db \<or> snd (ReadArchivedContent cfg io fs m db) = mark_content ArchiveContentMissing (mm_ID m) db"
  by (auto simp: ReadArchivedContent_def OpenArchivedContent_def Let_def split: option.splits fs_node.splits)

lemma step_follow:
  assumes "mail_step wd cfg w w'" and "mail_ok (fst w)"
  shows "mail_follow (fst w) (fst w')"
  using assms
proof (induction rule: mail_step.induct)
  case (ms_sync w io fault now account expected aliases result t)
  obtain db fs where w: "w = (db, fs)" by fastforce
  obtain e db' fs' where "ApplyMailboxSync wd cfg io fault now account expected aliases result t (db, fs) = (e, db', fs')"
    by (metis prod.collapse)
  with apply_follow [OF this] ms_sync w show ?case by simp
next
  case (ms_failure db fs fault now account expected message t)
  then show ?case using failure_follow by (metis fst_conv prod.collapse)
next
  case (ms_upsert db fs now m)
  then show ?case
    by (auto simp: UpsertLatest_def UpsertLatestMessage_def Let_def put_latest_guarded_def mail_follow_refl
        intro!: same_tables_follow split: option.splits)
next
  case (ms_replace db fs now m)
  then show ?case
    by (auto simp: ReplaceLatestMessage_def Let_def mail_follow_refl intro!: same_tables_follow)
next
  case (ms_consume db fs now q)
  then show ?case
    by (auto simp: ConsumeLatestMessage_def Let_def mail_follow_refl intro!: same_tables_follow split: option.splits sum.splits)
next
  case (ms_seen db fs account v uids)
  then show ?case
    by (auto simp: DeleteSeenTasks_def mail_follow_refl intro!: same_tables_follow)
next
  case (ms_open db fs io mm)
  then show ?case
    using open_cases [of cfg io fs mm db] only_archived_follow [OF _ only_archived_mark] mail_follow_refl by auto
next
  case (ms_reconcile db fs io)
  then show ?case using only_archived_follow [OF _ only_archived_reconcile] by simp
next
  case (ms_limit io db fs e w)
  then show ?case using only_archived_limit only_archived_follow by (metis fst_conv prod.collapse)
qed (auto simp: DeleteLatestMessage_def DeleteLatestMessageFromOtherUIDValidity_def intro!: same_tables_follow)

lemma run_follow:
  assumes "mail_run wd cfg w w'" and "mail_ok (fst w)"
  shows "mail_follow (fst w) (fst w')"
  using assms
proof (induction rule: rtranclp_induct)
  case (step y z)
  then have "mail_follow (fst w) (fst y)" by blast
  moreover from this have "mail_follow (fst y) (fst z)" using step_follow [OF step(2)] by (simp add: mail_follow_def)
  ultimately show ?case by (rule mail_follow_trans)
qed (rule mail_follow_refl)

end
