(* ===== verification/MailWellFormed.thy ===== *)
theory MailWellFormed
  imports MailSyncRuns
begin

section \<open>Well-formed mail tables\<close>

text \<open>
  The constraints that the schema and the code put on the mail tables, as one predicate that every
  step of a run preserves: primary keys and unique constraints, the states of archived content,
  codes of six digits, and one latest message per alias.
\<close>

definition archived_ok :: "archived_row \<Rightarrow> bool" where
  "archived_ok r \<longleftrightarrow> 0 \<le> av_content_bytes r \<and> av_content_state r \<in>
     {ArchiveContentAvailable, ArchiveContentEvicted, ArchiveContentMetadata, ArchiveContentOversized, ArchiveContentMissing}"

definition code_ok :: "link_row \<Rightarrow> bool" where
  "code_ok l \<longleftrightarrow> lk_otp l = [] \<or> IsSixDigitOTP (lk_otp l)"

definition archive_wf :: "mail_db \<Rightarrow> bool" where
  "archive_wf db \<longleftrightarrow> unique_key av_id (md_archived db) \<and> unique_key archived_key (md_archived db) \<and>
     (\<forall>r \<in> set (md_archived db). av_id r < md_next_id db \<and> archived_ok r) \<and> (\<forall>l \<in> set (md_links db). code_ok l)"

definition mail_wf :: "mail_db \<Rightarrow> bool" where
  "mail_wf db \<longleftrightarrow> archive_wf db \<and> consumed_inv db \<and> unique_key ss_AccountID (md_sync db)"

subsection \<open>The archive\<close>

lemma archive_wf_same:
  "md_archived db' = md_archived db \<Longrightarrow> md_links db' = md_links db \<Longrightarrow> md_next_id db' = md_next_id db \<Longrightarrow>
   archive_wf db' \<longleftrightarrow> archive_wf db"
  by (simp add: archive_wf_def)

lemma message_content_ok: "fst (message_content st m) \<in> {ArchiveContentAvailable, ArchiveContentMetadata, ArchiveContentOversized}"
  by (simp add: message_content_def Let_def)

lemma archived_row_ok: "0 \<le> av_content_bytes (archived_row_of i st m t) \<Longrightarrow> archived_ok (archived_row_of i st m t)"
  using message_content_ok [of st m] by (auto simp: archived_ok_def archived_row_of_def split: prod.splits)

lemma merge_archived_facts:
  "av_id (merge_archived new old) = av_id old" "archived_key (merge_archived new old) = archived_key new"
  "archived_ok new \<Longrightarrow> archived_ok old \<Longrightarrow> archived_ok (merge_archived new old)"
  by (simp_all add: merge_archived_def Let_def archived_key_def archived_ok_def)

lemma upsert_archived_wf:
  assumes "upsert_archived st m t db = Inr (i, db')" and "archive_wf db"
  shows "archive_wf db'"
proof -
  define row where "row = archived_row_of (md_next_id db) st m t"
  have row: "archived_ok row" "av_id row = md_next_id db"
    using assms(1) archived_row_ok [of "md_next_id db" st m t]
    by (auto simp: upsert_archived_def Let_def row_def archived_row_of_def split: if_splits prod.splits)
  have rows: "md_archived db' = upsert_by archived_key row (merge_archived row) (md_archived db)"
    and links: "md_links db' = md_links db"
    and nid: "md_next_id db' = (if find_by archived_key (archived_key row) (md_archived db) = None then md_next_id db + 1 else md_next_id db)"
    using assms(1) by (auto simp: upsert_archived_def Let_def row_def split: if_splits option.splits)
  have keys: "unique_key archived_key (md_archived db')"
    unfolding rows using assms(2) by (intro unique_key_upsert_by) (simp_all add: archive_wf_def merge_archived_facts)
  have fresh: "\<forall>r \<in> set (md_archived db). av_id r \<noteq> av_id row" using assms(2) row(2) by (auto simp: archive_wf_def)
  have "unique_key av_id (md_archived db')"
    unfolding rows upsert_by_def using assms(2) fresh
    by (auto simp: archive_wf_def unique_key_update_where merge_archived_facts find_by_None intro!: unique_key_append1)
  moreover have "\<forall>r \<in> set (md_archived db'). av_id r < md_next_id db' \<and> archived_ok r"
    unfolding rows nid using assms(2) row
    by (auto simp: archive_wf_def upsert_by_def set_update_where merge_archived_facts less_Suc_eq split: if_splits)
  ultimately show ?thesis using keys links assms(2) by (simp add: archive_wf_def)
qed

lemma prune_wf: "archive_wf db \<Longrightarrow> archive_wf (pruneOTPs i db)"
  unfolding archive_wf_def pruneOTPs_def Let_def by (auto simp: set_update_where code_ok_def)

lemma link_alias_wf:
  assumes "link_alias otp created m i db = Inr db'" and "archive_wf db" and "otp = [] \<or> IsSixDigitOTP otp"
  shows "archive_wf db'"
proof (cases "find_by link_key (i, m) (md_links db) = None")
  case True
  from assms(1) True obtain uid db1 where al: "allocateUID i db = Inr (uid, db1)"
    and db': "db' = (let db2 = db1\<lparr>md_links := md_links db1 @ [\<lparr>lk_alias_id = i, lk_message_id = m, lk_mailbox_uid = uid,
        lk_otp = otp, lk_created_at = created\<rparr>]\<rparr> in if otp \<noteq> [] then pruneOTPs i db2 else db2)"
    by (auto simp: link_alias_def bind_res_Inr Let_def split: if_splits)
  from al have "archive_wf db1" using assms(2)
    by (auto simp: allocateUID_def archive_wf_def split: option.splits if_splits)
  then have "archive_wf (db1\<lparr>md_links := md_links db1 @ [\<lparr>lk_alias_id = i, lk_message_id = m, lk_mailbox_uid = uid,
        lk_otp = otp, lk_created_at = created\<rparr>]\<rparr>)"
    using assms(3) by (simp add: archive_wf_def code_ok_def ball_Un)
  then show ?thesis by (auto simp: db' Let_def prune_wf)
qed (use assms in \<open>simp add: link_alias_def\<close>)

lemma link_aliases_wf:
  "link_aliases otp created m prev is db = Inr db' \<Longrightarrow> archive_wf db \<Longrightarrow> otp = [] \<or> IsSixDigitOTP otp \<Longrightarrow> archive_wf db'"
proof (induction otp created m prev "is" db rule: link_aliases.induct)
  case (2 otp created m prev i "is" db)
  then obtain db1 where db1: "link_alias otp created m i db = Inr db1"
    and rest: "link_aliases otp created m (Some i) is db1 = Inr db'" and ok: "\<not> (i < 1 \<or> prev = Some i)"
    by (auto simp: bind_res_Inr split: if_splits)
  from "2.IH" [OF ok rest link_alias_wf [OF db1 "2.prems"(2,3)] "2.prems"(3)] show ?case .
qed simp

lemma persist_wf:
  assumes "persistArchivedMessagesTx ms st t db = Inr db'" and "archive_wf db"
  shows "archive_wf db'"
proof (rule fold_res_invariant [OF assms(1) [unfolded persistArchivedMessagesTx_def], where P = archive_wf])
  fix m s s'
  assume wf: "archive_wf s" and pm: "persist_message st t m s = Inr s'"
  from pm obtain i db1 where up: "upsert_archived st m t s = Inr (i, db1)"
    and li: "link_aliases (message_otp m) (to_timestamp (ar_InternalDate m)) i None (sort (ar_AliasIDs m)) db1 = Inr s'"
    by (auto simp: persist_message_def bind_res_Inr split: if_splits)
  show "archive_wf s'"
    by (rule link_aliases_wf [OF li upsert_archived_wf [OF up wf]]) (simp add: message_otp_def Let_def)
qed (rule assms(2))

lemma mark_content_wf:
  assumes "archive_wf db" and "s = ArchiveContentEvicted \<or> s = ArchiveContentMissing"
  shows "archive_wf (mark_content s i db)"
  using assms unfolding archive_wf_def mark_content_def
  by (auto simp: set_update_where unique_key_update_where archived_key_def archived_ok_def)

lemma enforce_loop_wf: "enforce_loop cfg io n db fs = Some (e, db', fs') \<Longrightarrow> archive_wf db \<Longrightarrow> archive_wf db'"
proof (induction n arbitrary: db fs)
  case 0
  then show ?case by (simp add: enforce_loop.simps [of cfg io 0] split: if_splits)
next
  case (Suc n)
  then show ?case
    by (auto simp: enforce_loop.simps [of cfg io "Suc n"] split: if_splits option.splits intro: mark_content_wf)
qed

lemma limit_wf: "EnforceMailArchiveLimit cfg io db fs = Some (e, db', fs') \<Longrightarrow> archive_wf db \<Longrightarrow> archive_wf db'"
  by (auto simp: EnforceMailArchiveLimit_def split: if_splits dest: enforce_loop_wf)

lemma reconcile_wf: "archive_wf db \<Longrightarrow> archive_wf (reconcile_rows cfg io fs db)"
proof -
  have "archive_wf (foldl (\<lambda>db r. mark_content ArchiveContentMissing (av_id r) db) x rs)"
    if "archive_wf x" for x and rs :: "archived_row list"
    using that by (induction rs arbitrary: x) (auto intro: mark_content_wf)
  then show "archive_wf db \<Longrightarrow> ?thesis" by (simp add: reconcile_rows_def Let_def)
qed

subsection \<open>The other tables\<close>

lemma mail_wf_archive: "mail_wf db \<Longrightarrow> only_archived db db' \<Longrightarrow> archive_wf db' \<Longrightarrow> mail_wf db'"
  by (simp add: mail_wf_def consumed_inv_def only_archivedD)

lemma latest_unique_put: "unique_key lm_AliasID (md_latest db) \<Longrightarrow> unique_key lm_AliasID (md_latest (put_latest_guarded row db))"
  by (simp add: put_latest_guarded_def unique_key_upsert_by)

lemma latest_unique_legacy:
  assumes "persistLegacyLatestMessagesTx account result t resetAll db = Inr db'" and "unique_key lm_AliasID (md_latest db)"
  shows "unique_key lm_AliasID (md_latest db')"
proof -
  let ?P = "\<lambda>s. unique_key lm_AliasID (md_latest s)"
  have empty: "?P (fold (legacy_empty account) us s)" if "?P s" for us s
    using that by (induction us arbitrary: s) (auto simp: legacy_empty_def unique_key_delete_where)
  have reset: "?P (legacy_reset account result resetAll db)"
    using assms(2) by (simp add: legacy_reset_def unique_key_delete_where)
  have msg: "?P s'" if "legacy_message account t m s = Inr s'" "?P s" for m s s'
  proof (cases "ar_UpstreamSeen m \<or> ar_AliasIDs m = []")
    case False
    with that have f: "fold_res (legacy_put account m t) (ar_AliasIDs m) s = Inr s'" by (simp add: legacy_message_def)
    show ?thesis
      by (rule fold_res_invariant [OF f, where P = ?P])
        (use that(2) in \<open>auto simp: legacy_put_def latest_unique_put split: if_splits\<close>)
  qed (use that in \<open>simp add: legacy_message_def\<close>)
  show ?thesis
    by (rule fold_res_invariant [OF assms(1) [unfolded persistLegacyLatestMessagesTx_def], where P = ?P])
      (use empty reset msg in blast)+
qed

lemma sync_tx_wf:
  assumes "sync_tx account expected aliases result st t now db = Inr (Some db')" and "mail_wf db"
  shows "mail_wf db'"
  using assms(1)
proof (rule sync_tx_published)
  let ?s = "if sr_HasMore result then SyncStatusPending else SyncStatusOK"
  fix version observed reset db1 db2 nextVersion
  assume p: "persistArchivedMessagesTx (sr_ArchivedMessages result) st t db = Inr db1"
    and l: "persistLegacyLatestMessagesTx account result t reset db1 = Inr db2"
    and m: "mark_account account version ?s [] (to_timestamp t) nextVersion
       (mark_aliases account ?s [] (to_timestamp t) (put_cursor \<lparr>ss_AccountID = account,
          ss_UIDValidity = ss_UIDValidity (sr_State result), ss_LastUID = ss_LastUID (sr_State result),
          ss_UpdatedAt = to_timestamp observed\<rparr> db2)) = Inr db'"
  have 1: "mail_wf db1"
    using assms(2) persist_wf [OF p] others_same_persist [OF p] by (simp add: mail_wf_def consumed_inv_def others_same_def)
  have nid: "md_next_id db2 = md_next_id db1"
    by (subst only_latest_legacy [OF l, unfolded only_latest_def]) simp
  have "archive_wf db2"
    using 1 archive_wf_same [of db2 db1] only_latestD [OF only_latest_legacy [OF l]] nid by (simp add: mail_wf_def)
  with 1 have 2: "mail_wf db2"
    using latest_unique_legacy [OF l] only_latestD [OF only_latest_legacy [OF l]] by (simp add: mail_wf_def consumed_inv_def)
  from m show ?thesis
    using 2 by (auto simp: mark_account_def mark_aliases_def put_cursor_def mail_wf_def archive_wf_def consumed_inv_def
        unique_key_upsert_by split: if_splits)
qed

lemma apply_wf:
  assumes "ApplyMailboxSync wd cfg io fault now account expected aliases result t (db, fs) = (e, db', fs')" and "mail_wf db"
  shows "mail_wf db'"
  using assms(1)
proof (cases rule: apply_cases)
  case (published st db1)
  from sync_tx_wf [OF published(3) assms(2)] have wf: "mail_wf db1" .
  then have "archive_wf db'" using published(5) limit_wf by (auto simp: mail_wf_def)
  with mail_wf_archive [OF wf published(4)] show ?thesis by blast
qed (use assms(2) in simp)

lemma failure_wf:
  assumes "RecordMailboxSyncFailure fault now account expected message t db = (e, db')" and "mail_wf db"
  shows "mail_wf db'"
  using assms(1)
proof (cases rule: failure_cases)
  case (recorded v w msg t')
  then show ?thesis using assms(2)
    by (auto simp: mark_account_def mark_aliases_def mail_wf_def archive_wf_def consumed_inv_def split: if_splits)
qed (use assms(2) in simp)

lemma same_archive_wf:
  "mail_wf db \<Longrightarrow> md_archived db' = md_archived db \<Longrightarrow> md_links db' = md_links db \<Longrightarrow> md_next_id db' = md_next_id db \<Longrightarrow>
   md_sync db' = md_sync db \<Longrightarrow> consumed_inv db' \<Longrightarrow> mail_wf db'"
  by (simp add: mail_wf_def archive_wf_def)

lemma step_wf:
  assumes "mail_step wd cfg w w'" and "mail_wf (fst w)"
  shows "mail_wf (fst w')"
  using assms
proof (induction rule: mail_step.induct)
  case (ms_sync w io fault now account expected aliases result t)
  obtain db fs where w: "w = (db, fs)" by fastforce
  obtain e db' fs' where "ApplyMailboxSync wd cfg io fault now account expected aliases result t (db, fs) = (e, db', fs')"
    by (metis prod.collapse)
  with apply_wf [OF this] ms_sync w show ?case by simp
next
  case (ms_failure db fs fault now account expected message t)
  then show ?case using failure_wf by (metis fst_conv prod.collapse)
next
  case (ms_upsert db fs now m)
  then show ?case
    by (auto simp: UpsertLatest_def UpsertLatestMessage_def Let_def mail_wf_def archive_wf_def consumed_inv_def
        put_latest_guarded_def unique_key_upsert_by split: option.splits)
next
  case (ms_replace db fs now m)
  then show ?case
    by (auto simp: ReplaceLatestMessage_def Let_def mail_wf_def archive_wf_def consumed_inv_def unique_key_upsert_by)
next
  case (ms_consume db fs now q)
  obtain res db' where r: "ConsumeLatestMessage now q db = (res, db')" by fastforce
  have "consumed_inv db'" using consume_keeps(3) [OF r] ms_consume by (simp add: mail_wf_def)
  moreover have "md_archived db' = md_archived db" "md_links db' = md_links db" "md_next_id db' = md_next_id db" "md_sync db' = md_sync db"
    using r by (auto simp: ConsumeLatestMessage_def Let_def split: if_splits option.splits sum.splits)
  ultimately show ?case using same_archive_wf [of db db'] ms_consume r by simp
next
  case (ms_seen db fs account v uids)
  then show ?case
    by (auto simp: DeleteSeenTasks_def mail_wf_def archive_wf_def consumed_inv_def unique_key_delete_where)
next
  case (ms_open db fs io mm)
  then show ?case
    using open_cases [of cfg io fs mm db] mail_wf_archive [OF _ only_archived_mark] mark_content_wf by (auto simp: mail_wf_def)
next
  case (ms_reconcile db fs io)
  then show ?case using mail_wf_archive [OF _ only_archived_reconcile] reconcile_wf by (auto simp: mail_wf_def)
next
  case (ms_limit io db fs e w)
  obtain db' fs' where w: "w = (db', fs')" by fastforce
  with ms_limit(1) have l: "EnforceMailArchiveLimit cfg io db fs = Some (e, db', fs')" by simp
  have "archive_wf db'" using limit_wf [OF l] ms_limit(2) by (simp add: mail_wf_def)
  with mail_wf_archive [OF _ only_archived_limit [OF l]] ms_limit(2) w show ?case by simp
qed (auto simp: DeleteLatestMessage_def DeleteLatestMessageFromOtherUIDValidity_def mail_wf_def archive_wf_def consumed_inv_def
    intro: unique_key_delete_where)

lemma run_wf: "mail_run wd cfg w w' \<Longrightarrow> mail_wf (fst w) \<Longrightarrow> mail_wf (fst w')"
  by (induction rule: rtranclp_induct) (auto intro: step_wf)

end
