(* ===== verification/MailProps.thy ===== *)
theory MailProps
  imports MailWellFormed
begin

section \<open>The properties of mailbox synchronisation\<close>

text \<open>
  The contracts of the archive, the cursor, the account version, consumption and the latest message,
  each about every run or about a single operation on well-formed tables, with instances on a small
  database of one account and one alias.
\<close>

subsection \<open>A small database\<close>

definition small_account :: account where
  "small_account = \<lparr>ac_ID = 7, ac_Name = ''a'', ac_Email = ''a@icloud.com'', ac_IMAPHost = DefaultIMAPHost,
     ac_IMAPPort = 993, ac_IMAPUsername = ''a'', ac_PasswordCiphertext = ''c'', ac_Enabled = True,
     ac_LastSyncStatus = SyncStatusPending, ac_LastSyncError = [], ac_LastSyncedAt = None, ac_CreatedAt = 5,
     ac_UpdatedAt = 5, ac_AliasCount = 1, ac_MailboxType = MailboxTypeICloud, ac_EmailSuffix = []\<rparr>"

definition small_alias :: mail_alias where
  "small_alias = \<lparr>a_ID = 3, a_AccountID = 7, a_AccountEmail = ''a@icloud.com'', a_Address = ''x@icloud.com'',
     a_Label = [], a_GroupID = None, a_GroupName = [], a_APIKeyHash = ''h'', a_APIKeyPrefix = ''p'',
     a_CredentialMode = ''v2'', a_CredentialCiphertext = [], a_IMAPPasswordHash = [], a_OAuthClientID = [],
     a_RefreshTokenHash = [], a_CredentialVersion = 1, a_MailboxUIDValidity = 1, a_MailboxUIDNext = 1,
     a_Enabled = True, a_LastSyncStatus = SyncStatusPending, a_LastSyncError = [], a_LastSyncedAt = None,
     a_LastAccessedAt = None, a_CreatedAt = 5, a_UpdatedAt = 5, a_LatestReceivedAt = None\<rparr>"

definition small_message :: archived_message where
  "small_message = \<lparr>ar_AccountID = 7, ar_UIDValidity = 9, ar_UID = 4, ar_MessageID = [], ar_InternalDate = 6,
     ar_HeaderDate = None, ar_From = [], ar_To = [], ar_CC = [],
     ar_Subject = [], ar_TextBody = [], ar_HTMLBody = [], ar_Attachments = [], ar_RawMIME = [],
     ar_RawMIMEPath = [], ar_RawSize = 12, ar_RawSHA256 = [], ar_ContentState = ArchiveContentMetadata,
     ar_OTP = ''123456'', ar_AliasIDs = [3], ar_SyncedAt = 8, ar_BodyTruncated = False, ar_UpstreamSeen = False\<rparr>"

definition small_result :: sync_result where
  "small_result = \<lparr>sr_ArchivedMessages = [small_message], sr_LegacySnapshotUpdates = [],
     sr_State = \<lparr>ss_AccountID = 7, ss_UIDValidity = 9, ss_LastUID = 4, ss_UpdatedAt = 8\<rparr>, sr_Reset = True,
     sr_HasMore = False, sr_TargetUID = 4\<rparr>"

definition small_db :: mail_db where
  "small_db = \<lparr>md_accounts = [small_account], md_aliases = [small_alias], md_sync = [], md_next_id = 1,
     md_archived = [], md_links = [], md_latest = [], md_consumed = [], md_seen = []\<rparr>"

definition small_config :: archive_config where
  "small_config = \<lparr>mailArchiveDir = ''/m'', mailArchiveLimit = 100\<rparr>"

definition small_sync :: "mail_db \<times> fs \<Rightarrow> mail_error option \<times> mail_db \<times> fs" where
  "small_sync = ApplyMailboxSync ''/'' small_config (\<lambda>_. False) False 10 7 5 [small_alias] small_result 8"

lemmas small_defs = small_account_def small_alias_def small_message_def small_result_def small_db_def small_config_def small_sync_def

lemma small_ok: "mail_ok small_db"
  by (simp add: mail_ok_def uid_inv_def otp_count_def uid_of_def next_of_def small_defs unique_key_def find_by_Cons max_uint32_def)

lemma small_wf: "mail_wf small_db"
  by (simp add: mail_wf_def archive_wf_def consumed_inv_def unique_key_def small_defs)

lemma small_sync_db: "fst (small_sync (small_db, Map.empty)) = None \<and>
  map lk_mailbox_uid (md_links (fst (snd (small_sync (small_db, Map.empty))))) = [1]"
  by code_simp


subsection \<open>Helper facts\<close>

definition cursor_of :: "mail_db \<Rightarrow> int \<Rightarrow> (int \<times> int) option" where
  "cursor_of db a = map_option (\<lambda>s. (ss_UIDValidity s, ss_LastUID s)) (find_by ss_AccountID a (md_sync db))"

lemma sync_tx_facts:
  assumes "sync_tx account expected aliases result st t now db = Inr (Some db')"
  shows "version_of db account = Some (to_timestamp expected)"
    and "\<exists>w > to_timestamp expected. version_of db' account = Some w"
    and "enabledAliasSetMatchesTx db account aliases"
    and "cursor_decision (find_by ss_AccountID account (md_sync db)) result t \<noteq> None"
    and "cursor_of db' a = (if a = account then Some (ss_UIDValidity (sr_State result), ss_LastUID (sr_State result))
           else cursor_of db a)"
proof -
  let ?s = "if sr_HasMore result then SyncStatusPending else SyncStatusOK"
  from assms obtain version observed reset db1 db2 w where
    lock: "lockAccountVersionForUpdate db account = Inr version" and v: "version = to_timestamp expected"
    and al: "enabledAliasSetMatchesTx db account aliases"
    and cd: "cursor_decision (find_by ss_AccountID account (md_sync db)) result t = Some observed"
    and p: "persistArchivedMessagesTx (sr_ArchivedMessages result) st t db = Inr db1"
    and l: "persistLegacyLatestMessagesTx account result t reset db1 = Inr db2"
    and n: "nextAccountVersion now version = Inr w"
    and m: "mark_account account version ?s [] (to_timestamp t) w (mark_aliases account ?s [] (to_timestamp t)
       (put_cursor \<lparr>ss_AccountID = account, ss_UIDValidity = ss_UIDValidity (sr_State result),
            ss_LastUID = ss_LastUID (sr_State result), ss_UpdatedAt = to_timestamp observed\<rparr> db2)) = Inr db'"
    by (rule sync_tx_published)
  let ?db3 = "put_cursor \<lparr>ss_AccountID = account, ss_UIDValidity = ss_UIDValidity (sr_State result),
            ss_LastUID = ss_LastUID (sr_State result), ss_UpdatedAt = to_timestamp observed\<rparr> db2"
  show "version_of db account = Some (to_timestamp expected)" using lock v by (simp add: version_of_lock)
  show "enabledAliasSetMatchesTx db account aliases" by (rule al)
  show "cursor_decision (find_by ss_AccountID account (md_sync db)) result t \<noteq> None" using cd by simp
  have "version_of (mark_aliases account ?s [] (to_timestamp t) ?db3) account = Some version"
    using lock others_same_persist [OF p] only_latestD(3) [OF only_latest_legacy [OF l]]
    by (simp add: version_of_lock version_of_def mark_aliases_def put_cursor_def others_same_def)
  from mark_account_version [OF m this, of account] nextAccountVersion_greater [OF n] v
  show "\<exists>w > to_timestamp expected. version_of db' account = Some w" by auto
  have "md_sync db' = md_sync ?db3" using m by (auto simp: mark_account_def mark_aliases_def split: if_splits)
  moreover have "md_sync db2 = md_sync db"
    using others_same_persist [OF p] only_latestD(5) [OF only_latest_legacy [OF l]] by (simp add: others_same_def)
  ultimately show "cursor_of db' a = (if a = account then Some (ss_UIDValidity (sr_State result), ss_LastUID (sr_State result))
           else cursor_of db a)"
    by (auto simp: cursor_of_def put_cursor_def find_by_upsert_by split: option.splits)
qed

lemma apply_publishes:
  assumes "ApplyMailboxSync wd cfg io fault now account expected aliases result t (db, fs) = (e, db', fs')" and "db' \<noteq> db"
  shows "version_of db account = Some (to_timestamp expected) \<and> (\<exists>w > to_timestamp expected. version_of db' account = Some w) \<and>
    enabledAliasSetMatchesTx db account aliases \<and>
    cursor_decision (find_by ss_AccountID account (md_sync db)) result (if is_zero_time t then now else t) \<noteq> None"
  using assms(1)
proof (cases rule: apply_cases)
  case (published st db1)
  have "version_of db' account = version_of db1 account" using only_archivedD(3) [OF published(4)] by (simp add: version_of_def)
  with sync_tx_facts(1-4) [OF published(3)] show ?thesis by simp
qed (use assms(2) in simp)

lemma cursor_decision_allows:
  assumes "cursor_decision current result t \<noteq> None"
  shows "case current of
      None \<Rightarrow> sr_Reset result
    | Some cur \<Rightarrow> if ss_UIDValidity cur = ss_UIDValidity (sr_State result)
                  then ss_LastUID cur \<le> ss_LastUID (sr_State result) else sr_Reset result"
  using assms by (auto simp: cursor_decision_def Let_def split: option.splits if_splits)

lemma small_sync_result: "fst (snd (small_sync (small_db, Map.empty))) \<noteq> small_db"
proof -
  have "map ac_UpdatedAt (md_accounts (fst (snd (small_sync (small_db, Map.empty))))) = [10]" by code_simp
  then show ?thesis by (auto simp: small_db_def small_account_def)
qed

lemma small_step: "mail_run ''/'' small_config (small_db, Map.empty) (snd (small_sync (small_db, Map.empty)))"
  unfolding small_sync_def by (rule r_into_rtranclp, rule ms_sync)


subsection \<open>Mailboxes, cursors and versions\<close>

text \<open>C5: The public IMAP mailboxes keep the UID contract of IMAP in every run: a message keeps the
  UID that it once got in an alias's mailbox, a message that arrives later gets a UID not below the
  UIDNEXT seen before, two messages never share a UID, and every UID lies between 1 and UIDNEXT, which
  fits into 32 bits.\<close>

theorem mailbox_uids_stable:
  assumes "mail_run wd cfg (db, fs) (db', fs')" and "mail_ok db"
  shows "(\<forall>i m u. uid_of db i m = Some u \<longrightarrow> uid_of db' i m = Some u) \<and>
    (\<forall>i m u. uid_of db' i m = Some u \<and> uid_of db i m = None \<longrightarrow> (\<exists>n. next_of db i = Some n \<and> n \<le> u)) \<and>
    (\<forall>i m m' u. uid_of db' i m = Some u \<and> uid_of db' i m' = Some u \<longrightarrow> m = m') \<and>
    (\<forall>i m u. uid_of db' i m = Some u \<longrightarrow> (\<exists>n. next_of db' i = Some n \<and> 1 \<le> u \<and> u < n \<and> n \<le> max_uint32))"
proof -
  from run_follow [OF assms(1)] assms(2) have ext: "uid_ext db db'" and inv: "uid_inv db'"
    by (simp_all add: mail_follow_def mail_ok_def)
  have "\<exists>n. next_of db' i = Some n \<and> 1 \<le> u \<and> u < n \<and> n \<le> max_uint32" if "uid_of db' i m = Some u" for i m u
    using inv that unfolding uid_inv_def by blast
  with ext inv show ?thesis unfolding uid_ext_def uid_inv_def by blast
qed

lemma mailbox_uids_stable_witness:
  "uid_of (fst (snd (small_sync (small_db, Map.empty)))) 3 1 = Some 1 \<and>
   (\<exists>n. next_of (fst (snd (small_sync (small_db, Map.empty)))) 3 = Some n \<and> 1 < n \<and> n \<le> max_uint32)"
proof -
  have u: "uid_of (fst (snd (small_sync (small_db, Map.empty)))) 3 1 = Some 1" by code_simp
  have "mail_run ''/'' small_config (small_db, Map.empty)
      (fst (snd (small_sync (small_db, Map.empty))), snd (snd (small_sync (small_db, Map.empty))))"
    using small_step by simp
  from mailbox_uids_stable [OF this small_ok, THEN conjunct2, THEN conjunct2, THEN conjunct2] u
  show ?thesis by blast
qed

text \<open>C21: A synchronisation moves the cursor of its own account only, and only forwards: within a
  mailbox generation the last UID never decreases, and a cursor is created or moved to another
  generation only by a result marked as an authoritative reset.\<close>

theorem cursor_moves_forward:
  assumes "ApplyMailboxSync wd cfg io fault now account expected aliases result t (db, fs) = (e, db', fs')"
  shows "cursor_of db' a = cursor_of db a \<or>
    (a = account \<and> cursor_of db' a = Some (ss_UIDValidity (sr_State result), ss_LastUID (sr_State result)) \<and>
     (case cursor_of db a of
        None \<Rightarrow> sr_Reset result
      | Some (v, u) \<Rightarrow> if v = ss_UIDValidity (sr_State result) then u \<le> ss_LastUID (sr_State result) else sr_Reset result))"
  using assms
proof (cases rule: apply_cases)
  case (published st db1)
  have "cursor_of db' a = cursor_of db1 a" using only_archivedD(5) [OF published(4)] by (simp add: cursor_of_def)
  with sync_tx_facts(5) [OF published(3), of a] cursor_decision_allows [OF sync_tx_facts(4) [OF published(3)]]
  show ?thesis by (cases "find_by ss_AccountID account (md_sync db)") (simp_all add: cursor_of_def)
qed simp

lemma cursor_moves_forward_witness:
  "cursor_of (fst (snd (small_sync (small_db, Map.empty)))) 7 = Some (9, 4) \<and> sr_Reset small_result"
proof -
  have moved: "cursor_of (fst (snd (small_sync (small_db, Map.empty)))) 7 = Some (9, 4)" by code_simp
  have "cursor_of small_db 7 = None" by code_simp
  with cursor_moves_forward [of "''/''" small_config "\<lambda>_. False" False 10 7 5 "[small_alias]" small_result 8 small_db Map.empty
      "fst (small_sync (small_db, Map.empty))" "fst (snd (small_sync (small_db, Map.empty)))"
      "snd (snd (small_sync (small_db, Map.empty)))" 7] moved
  show ?thesis by (simp add: small_sync_def)
qed

text \<open>C22: A synchronisation result is published at most once: after a result collected for an account
  version has changed the database, no later result for that version changes it again, whatever
  happened in between, because publishing moves the account to a new and larger version.\<close>

theorem sync_published_once:
  assumes "ApplyMailboxSync wd cfg io fault now account expected aliases result t (db, fs) = (e, db1, fs1)" and "db1 \<noteq> db"
    and "mail_ok db" and "mail_run wd cfg (db1, fs1) (db2, fs2)"
    and "ApplyMailboxSync wd cfg io' fault' now' account expected aliases' result' t' (db2, fs2) = (e', db3, fs3)"
  shows "db3 = db2"
proof (rule ccontr)
  assume "db3 \<noteq> db2"
  with apply_publishes [OF assms(5)] have old: "version_of db2 account = Some (to_timestamp expected)" by blast
  from apply_publishes [OF assms(1,2)] obtain w where w: "to_timestamp expected < w" "version_of db1 account = Some w" by blast
  have "mail_ok db1" using apply_follow [OF assms(1,3)] by (simp add: mail_follow_def)
  with run_follow [OF assms(4)] have "versions_grow db1 db2" by (simp add: mail_follow_def)
  with w old show False unfolding versions_grow_def by force
qed

lemma sync_published_once_witness:
  "fst (snd (small_sync (snd (small_sync (small_db, Map.empty))))) = fst (snd (small_sync (small_db, Map.empty)))"
proof -
  obtain e1 db1 fs1 where 1: "small_sync (small_db, Map.empty) = (e1, db1, fs1)" by (cases "small_sync (small_db, Map.empty)") auto
  obtain e2 db2 fs2 where 2: "small_sync (db1, fs1) = (e2, db2, fs2)" by (cases "small_sync (db1, fs1)") auto
  have "db1 \<noteq> small_db" using small_sync_result 1 by simp
  from sync_published_once [OF 1 [unfolded small_sync_def] this small_ok rtranclp.rtrancl_refl 2 [unfolded small_sync_def]]
  show ?thesis using 1 2 by simp
qed

text \<open>A stale result leaves the database as it is: one collected for another account version or
  another set of enabled aliases, one behind the cursor, and one that would create or replace a cursor
  without a reset.\<close>

theorem stale_sync_dropped:
  assumes "ApplyMailboxSync wd cfg io fault now account expected aliases result t (db, fs) = (e, db', fs')"
    and "version_of db account \<noteq> Some (to_timestamp expected) \<or> \<not> enabledAliasSetMatchesTx db account aliases \<or>
      (case find_by ss_AccountID account (md_sync db) of
         None \<Rightarrow> \<not> sr_Reset result
       | Some cur \<Rightarrow> if ss_UIDValidity cur = ss_UIDValidity (sr_State result)
                     then ss_LastUID (sr_State result) < ss_LastUID cur else \<not> sr_Reset result)"
  shows "db' = db"
proof (rule ccontr)
  assume "db' \<noteq> db"
  from apply_publishes [OF assms(1) this] assms(2)
  show False using cursor_decision_allows [of "find_by ss_AccountID account (md_sync db)" result "if is_zero_time t then now else t"]
    by (auto split: option.splits if_splits)
qed

lemma stale_sync_dropped_witness:
  "fst (snd (ApplyMailboxSync ''/'' small_config (\<lambda>_. False) False 10 7 6 [small_alias] small_result 8 (small_db, Map.empty))) = small_db"
proof -
  obtain e db' fs' where r: "ApplyMailboxSync ''/'' small_config (\<lambda>_. False) False 10 7 6 [small_alias] small_result 8 (small_db, Map.empty) = (e, db', fs')"
    by (metis prod.collapse)
  have "version_of small_db 7 \<noteq> Some (to_timestamp 6)" by code_simp
  with stale_sync_dropped [OF r] r show ?thesis by simp
qed


subsection \<open>Consumption and the latest message\<close>

text \<open>C19: A latest message is consumed at most once for an alias and upstream position, whatever
  happens in between; the consumption that succeeds found the alias and account enabled, the presented
  key, and exactly the presented snapshot, and it leaves the task that marks the message as seen.\<close>

theorem message_consumed_once:
  assumes "ConsumeLatestMessage now q db = (Inr True, db1)" and "mail_ok db1" and "mail_run wd cfg (db1, fs1) (db2, fs2)"
    and "cq_AliasID q' = cq_AliasID q" and "cq_UIDValidity q' = cq_UIDValidity q" and "cq_UID q' = cq_UID q"
  shows "fst (ConsumeLatestMessage now' q' db2) \<noteq> Inr True \<and>
    (\<exists>a. find_by a_ID (cq_AliasID q) (md_aliases db) = Some a \<and> consume_matches q (a_AccountID a) db \<and>
       find_by seen_key (a_AccountID a, cq_UIDValidity q, cq_UID q) (md_seen db1) \<noteq> None)"
proof
  have "was_consumed db1 (cq_AliasID q) (cq_UIDValidity q) (cq_UID q)" by (rule consume_result(2) [OF assms(1)])
  moreover have "set (md_consumed db1) \<subseteq> set (md_consumed db2)"
    using run_follow [OF assms(3)] assms(2) by (simp add: mail_follow_def)
  ultimately have used: "was_consumed db2 (cq_AliasID q') (cq_UIDValidity q') (cq_UID q')"
    using assms(4-6) by (auto simp: was_consumed_def)
  show "fst (ConsumeLatestMessage now' q' db2) \<noteq> Inr True"
    using consume_result(1) used by (metis prod.collapse)
qed (rule consume_result(3) [OF assms(1)])

definition small_request :: consume_request where
  "small_request = \<lparr>cq_AliasID = 3, cq_APIKeyHash = ''h'', cq_LastSyncedAt = 8, cq_MessageSyncedAt = 8, cq_UIDValidity = 9,
     cq_UID = 4, cq_ConsumedAt = 11\<rparr>"

lemma small_follow: "mail_ok (fst (snd (small_sync (small_db, Map.empty))))"
  using run_follow [OF small_step] small_ok by (simp add: mail_follow_def)

lemma message_consumed_once_witness:
  "fst (ConsumeLatestMessage 12 small_request (fst (snd (small_sync (small_db, Map.empty))))) = Inr True \<and>
   fst (ConsumeLatestMessage 13 small_request (snd (ConsumeLatestMessage 12 small_request (fst (snd (small_sync (small_db, Map.empty))))))) \<noteq> Inr True"
proof -
  define db where "db = fst (snd (small_sync (small_db, Map.empty)))"
  define db1 where "db1 = snd (ConsumeLatestMessage 12 small_request db)"
  have first: "fst (ConsumeLatestMessage 12 small_request db) = Inr True" unfolding db_def by code_simp
  then have c: "ConsumeLatestMessage 12 small_request db = (Inr True, db1)" by (simp add: db1_def prod_eq_iff)
  have "mail_run ''/'' small_config (db, Map.empty) (db1, Map.empty)" unfolding db1_def by (rule r_into_rtranclp, rule ms_consume)
  with run_follow [OF this] small_follow have ok: "mail_ok db1" by (simp add: mail_follow_def db_def)
  from message_consumed_once [OF c ok rtranclp.rtrancl_refl refl refl refl, of 13] first
  show ?thesis unfolding db1_def db_def by blast
qed

text \<open>The guarded write of a latest message stores the given row and reports it, or it reports
  that nothing was stored, keeps the database, and the stored row is then a newer UID of the same
  mailbox generation; so a delayed worker never moves the row back.\<close>

theorem latest_never_moves_back:
  assumes "UpsertLatest now m db = (Inr stored, db')" and "mail_wf db"
  shows "if stored then find_by lm_AliasID (la_AliasID m) (md_latest db') = Some (prepare_latest now m)
    else db' = db \<and> (\<exists>old. find_by lm_AliasID (la_AliasID m) (md_latest db) = Some old \<and>
           lm_UIDValidity old = la_UIDValidity m \<and> la_UID m < lm_UID old)"
proof -
  let ?row = "prepare_latest now m"
  have id: "lm_AliasID ?row = la_AliasID m" "lm_UIDValidity ?row = la_UIDValidity m" "lm_UID ?row = la_UID m"
    by (simp_all add: prepare_latest_def Let_def latest_row_def sanitizeLatestMessageText_def)
  have db': "db' = put_latest_guarded ?row db"
    and st: "stored = (case find_by lm_AliasID (la_AliasID m) (md_latest db) of None \<Rightarrow> True | Some old \<Rightarrow> newer_position ?row old)"
    using assms(1) by (auto simp: UpsertLatest_def UpsertLatestMessage_def Let_def id split: if_splits option.splits)
  have found: "find_by lm_AliasID (la_AliasID m) (md_latest db') = Some (case find_by lm_AliasID (la_AliasID m) (md_latest db) of
      None \<Rightarrow> ?row | Some old \<Rightarrow> if newer_position ?row old then ?row else old)"
    by (simp add: db' put_latest_guarded_def find_by_upsert_by id)
  show ?thesis
  proof (cases "find_by lm_AliasID (la_AliasID m) (md_latest db)")
    case None
    with st found show ?thesis by simp
  next
    case (Some old)
    have "db' = db" if "\<not> newer_position ?row old"
    proof -
      have uniq: "unique_key lm_AliasID (md_latest db)" using assms(2) by (simp add: mail_wf_def consumed_inv_def)
      then have "update_where (\<lambda>r. lm_AliasID r = la_AliasID m) (\<lambda>old. if newer_position ?row old then ?row else old) (md_latest db) = md_latest db"
        using that Some find_by_unique [OF uniq] by (intro update_where_id) fastforce
      then show ?thesis by (simp add: db' put_latest_guarded_def upsert_by_def id Some)
    qed
    with st found Some show ?thesis by (auto simp: newer_position_def id)
  qed
qed

definition small_mail :: "int \<Rightarrow> latest_mail" where
  "small_mail u = \<lparr>la_AliasID = 3, la_UIDValidity = 9, la_UID = u, la_MessageID = [], la_InternalDate = 6,
     la_HeaderDate = None, la_From = [], la_To = [], la_CC = [], la_Subject = [], la_TextBody = [], la_HTMLBody = [],
     la_Attachments = [], la_BodyTruncated = False, la_SyncedAt = 8\<rparr>"

lemma latest_never_moves_back_witness:
  "snd (UpsertLatest 9 (small_mail 3) (snd (UpsertLatest 9 (small_mail 4) small_db))) = snd (UpsertLatest 9 (small_mail 4) small_db)"
proof -
  define db where "db = snd (UpsertLatest 9 (small_mail 4) small_db)"
  have "mail_step ''/'' small_config (small_db, Map.empty) (db, Map.empty)" unfolding db_def by (rule ms_upsert)
  with step_wf [OF this] small_wf have wf: "mail_wf db" by simp
  have "fst (UpsertLatest 9 (small_mail 3) db) = Inr False" unfolding db_def by code_simp
  then have "UpsertLatest 9 (small_mail 3) db = (Inr False, snd (UpsertLatest 9 (small_mail 3) db))" by (simp add: prod_eq_iff)
  from latest_never_moves_back [OF this wf] show ?thesis unfolding db_def by simp
qed

end
