(* ===== verification/ArchiveProps.thy ===== *)
theory ArchiveProps
  imports MailProps
begin

section \<open>The properties of the mail archive\<close>

text \<open>
  Bounds of the history of codes and of the archive, the verification of content before it is
  served, the reconciliation of rows with files, and the well-formedness of the tables in every run.
\<close>

text \<open>C37: Every operation keeps the mail tables well-formed: unique keys, identifiers below the next
  one, no negative sizes, known content states, codes of six digits, one latest message per alias and
  one cursor per account.\<close>

theorem mail_tables_well_formed:
  assumes "mail_run wd cfg (db, fs) (db', fs')" and "mail_wf db"
  shows "mail_wf db'"
  using run_wf [OF assms(1)] assms(2) by simp

lemma mail_tables_well_formed_witness: "mail_wf (fst (snd (small_sync (small_db, Map.empty))))"
proof -
  have "mail_run ''/'' small_config (small_db, Map.empty)
      (fst (snd (small_sync (small_db, Map.empty))), snd (snd (small_sync (small_db, Map.empty))))"
    using small_step by simp
  from mail_tables_well_formed [OF this small_wf] show ?thesis .
qed



text \<open>C39: Enforcing the size limit always returns; it evicts the oldest available messages, no more of
  them than the limit asks for, and unless a file operation fails the rest fits into the limit.\<close>

theorem archive_limit_enforced:
  assumes "mail_wf db" and "mailArchiveDir cfg \<noteq> []" and "1 \<le> mailArchiveLimit cfg"
  shows "\<exists>e db' fs'. EnforceMailArchiveLimit cfg io db fs = Some (e, db', fs') \<and>
    (\<exists>k \<le> length (by_age db). by_age db' = drop k (by_age db) \<and>
       (\<forall>j < k. mailArchiveLimit cfg < bytes_of (drop j (by_age db))) \<and>
       (e = None \<longrightarrow> available_bytes (md_archived db') \<le> mailArchiveLimit cfg))"
proof -
  have "unique_key av_id (md_archived db)" using assms(1) by (simp add: mail_wf_def archive_wf_def)
  from enforce_loop_spec [OF this, of "available_count db" cfg io fs] assms(3)
  obtain e db' fs' k where r: "enforce_loop cfg io (available_count db) db fs = Some (e, db', fs')"
    and k: "k \<le> length (by_age db)" "by_age db' = drop k (by_age db)" "\<forall>j < k. mailArchiveLimit cfg < bytes_of (drop j (by_age db))"
      "e = None \<longrightarrow> bytes_of (drop k (by_age db)) \<le> mailArchiveLimit cfg"
    by (auto simp: length_by_age)
  have "available_bytes (md_archived db') = bytes_of (drop k (by_age db))" using bytes_by_age [of db'] k(2) by simp
  with r k assms show ?thesis by (auto simp: EnforceMailArchiveLimit_def)
qed

definition small_row :: "int \<Rightarrow> timestamp \<Rightarrow> archived_row" where
  "small_row i t = \<lparr>av_id = i, av_account_id = 7, av_uid_validity = 9, av_upstream_uid = i, av_message_id = [], av_internal_date = t,
     av_header_date = None, av_from_json = [], av_to_json = [], av_cc_json = [], av_subject = [], av_content_path = ''f'',
     av_content_bytes = 60, av_content_sha256 = [], av_content_state = ArchiveContentAvailable, av_body_truncated = False,
     av_synced_at = t, av_created_at = t\<rparr>"

definition small_archive :: mail_db where
  "small_archive = small_db\<lparr>md_archived := [small_row 1 20, small_row 2 10], md_next_id := 3\<rparr>"

lemma small_archive_wf: "mail_wf small_archive"
  by (simp add: mail_wf_def archive_wf_def consumed_inv_def unique_key_def archived_ok_def archived_key_def small_archive_def
      small_row_def small_db_def content_states)

lemma archive_limit_enforced_witness:
  "\<exists>e db' fs'. EnforceMailArchiveLimit small_config (\<lambda>_. False) small_archive Map.empty = Some (e, db', fs') \<and>
     map av_id (by_age db') \<in> {[2, 1], [1], []}"
proof -
  have ages: "map av_id (by_age small_archive) = [2, 1]" by code_simp
  have "mailArchiveDir small_config \<noteq> []" "1 \<le> mailArchiveLimit small_config" by (simp_all add: small_config_def)
  from archive_limit_enforced [OF small_archive_wf this, of "\<lambda>_. False" Map.empty]
  obtain e db' fs' k where r: "EnforceMailArchiveLimit small_config (\<lambda>_. False) small_archive Map.empty = Some (e, db', fs')"
    and k: "by_age db' = drop k (by_age small_archive)" by blast
  have "map av_id (by_age db') = drop k [2, 1]" by (simp add: k drop_map [symmetric] ages)
  then have "map av_id (by_age db') \<in> {[2, 1], [1], []}" by (auto simp: drop_Cons split: nat.splits)
  with r show ?thesis by (intro exI conjI)
qed

lemma mark_content_rows:
  "md_archived (mark_content s i db) =
     update_where (\<lambda>r. av_id r = i \<and> is_available r) (\<lambda>r. r\<lparr>av_content_path := [], av_content_state := s\<rparr>) (md_archived db)"
  by (simp add: mark_content_def)

lemma opened_cases:
  assumes "OpenArchivedContent cfg io fs m db = (Inr data, db')"
  shows "(\<exists>path. safeArchivePath cfg (mm_ContentPath m) = Some path \<and> fs path = Some (Regular data)) \<and>
    int (length data) = mm_ContentBytes m \<and> digest_hex data = mm_ContentSHA256 m \<and>
    mm_ContentState m = ArchiveContentAvailable \<and> db' = db"
proof (cases "safeArchivePath cfg (mm_ContentPath m)")
  case None
  with assms show ?thesis by (simp add: OpenArchivedContent_def Let_def)
next
  case path: (Some path)
  show ?thesis
  proof (cases "mm_ContentState m = ArchiveContentAvailable \<and> \<not> io path")
    case True
    with assms path show ?thesis
      by (simp add: OpenArchivedContent_def Let_def split: option.splits fs_node.splits if_split_asm)
  next
    case False
    with assms path show ?thesis by (simp add: OpenArchivedContent_def Let_def split: if_split_asm)
  qed
qed

text \<open>Content is served only as it was archived: the whole regular file inside the archive
  directory, of the recorded size and SHA-256 digest, without changing the database; and when a read
  changes the database, the message is no longer available afterwards.\<close>

theorem opened_content_is_archived:
  assumes "ReadArchivedContent cfg io fs m db = (r, db')"
  shows "(\<forall>data. r = Inr data \<longrightarrow> (\<exists>path. safeArchivePath cfg (mm_ContentPath m) = Some path \<and> fs path = Some (Regular data)) \<and>
       int (length data) = mm_ContentBytes m \<and> hex_encode (sha256 data) = mm_ContentSHA256 m \<and>
       mm_ContentState m = ArchiveContentAvailable \<and> db' = db) \<and>
    (db' \<noteq> db \<longrightarrow> (\<forall>row \<in> set (md_archived db'). av_id row = mm_ID m \<longrightarrow> \<not> is_available row))"
proof (rule conjI)
  show "\<forall>data. r = Inr data \<longrightarrow> (\<exists>path. safeArchivePath cfg (mm_ContentPath m) = Some path \<and> fs path = Some (Regular data)) \<and>
       int (length data) = mm_ContentBytes m \<and> hex_encode (sha256 data) = mm_ContentSHA256 m \<and>
       mm_ContentState m = ArchiveContentAvailable \<and> db' = db"
  proof (intro allI impI)
    fix data
    assume "r = Inr data"
    with assms have "OpenArchivedContent cfg io fs m db = (Inr data, db')" by (simp only: ReadArchivedContent_def)
    then show "(\<exists>path. safeArchivePath cfg (mm_ContentPath m) = Some path \<and> fs path = Some (Regular data)) \<and>
       int (length data) = mm_ContentBytes m \<and> hex_encode (sha256 data) = mm_ContentSHA256 m \<and>
       mm_ContentState m = ArchiveContentAvailable \<and> db' = db" by (rule opened_cases [unfolded digest_hex_def])
  qed
  have marked: "\<forall>row \<in> set (md_archived (mark_content ArchiveContentMissing i db)). av_id row = i \<longrightarrow> \<not> is_available row" for i
  proof
    fix row
    assume "row \<in> set (md_archived (mark_content ArchiveContentMissing i db))"
    then obtain x where "row = (if av_id x = i \<and> is_available x then x\<lparr>av_content_path := [], av_content_state := ArchiveContentMissing\<rparr> else x)"
      unfolding mark_content_rows set_update_where by (elim imageE) blast
    then show "av_id row = i \<longrightarrow> \<not> is_available row"
      by (cases "av_id x = i \<and> is_available x") (simp_all add: evicted_not_available)
  qed
  show "db' \<noteq> db \<longrightarrow> (\<forall>row \<in> set (md_archived db'). av_id row = mm_ID m \<longrightarrow> \<not> is_available row)"
  proof
    assume "db' \<noteq> db"
    moreover have "db' = db \<or> db' = mark_content ArchiveContentMissing (mm_ID m) db"
      using open_cases [of cfg io fs m db] unfolding assms snd_conv .
    ultimately have eq: "db' = mark_content ArchiveContentMissing (mm_ID m) db" by simp
    show "\<forall>row \<in> set (md_archived db'). av_id row = mm_ID m \<longrightarrow> \<not> is_available row" unfolding eq by (rule marked)
  qed
qed

definition small_view :: mailbox_message where
  "small_view = \<lparr>mm_ID = 2, mm_AliasID = 3, mm_MailboxUID = 1, mm_UIDValidity = 1, mm_MessageID = [], mm_InternalDate = 10,
     mm_HeaderDate = None, mm_From = [], mm_To = [], mm_CC = [], mm_Subject = [], mm_ContentPath = ''f'', mm_ContentBytes = 60,
     mm_ContentSHA256 = [], mm_ContentState = ArchiveContentAvailable, mm_OTP = [], mm_BodyTruncated = False, mm_ArchivedAt = 10\<rparr>"

lemma opened_content_is_archived_witness:
  "list_ex (\<lambda>row. av_id row = 2 \<and> is_available row) (md_archived small_archive) \<and>
   \<not> list_ex (\<lambda>row. av_id row = 2 \<and> is_available row)
     (md_archived (snd (ReadArchivedContent small_config (\<lambda>_. False) (Map.empty(''/m/f'' \<mapsto> OtherNode)) small_view small_archive)))"
proof -
  let ?r = "ReadArchivedContent small_config (\<lambda>_. False) (Map.empty(''/m/f'' \<mapsto> OtherNode)) small_view small_archive"
  have path: "safeArchivePath small_config (mm_ContentPath small_view) = Some ''/m/f''" by code_simp
  have eq: "snd ?r = mark_content ArchiveContentMissing 2 small_archive"
    using path by (simp add: ReadArchivedContent_def OpenArchivedContent_def Let_def small_view_def)
  have "md_archived (mark_content ArchiveContentMissing 2 small_archive) \<noteq> md_archived small_archive"
    by (simp add: mark_content_def small_archive_def small_row_def update_where_def content_states)
  then have "snd ?r \<noteq> small_archive" using eq by metis
  with opened_content_is_archived [OF prod.collapse [symmetric], of small_config "\<lambda>_. False" "Map.empty(''/m/f'' \<mapsto> OtherNode)"
      small_view small_archive]
  have "\<forall>row \<in> set (md_archived (snd ?r)). av_id row = mm_ID small_view \<longrightarrow> \<not> is_available row" by blast
  then have "\<not> list_ex (\<lambda>row. av_id row = 2 \<and> is_available row) (md_archived (snd ?r))"
    by (auto simp: small_view_def list_ex_iff)
  then show ?thesis by (simp add: small_archive_def small_row_def)
qed

definition marked_row :: "string \<Rightarrow> archived_row \<Rightarrow> archived_row" where
  "marked_row s r = r\<lparr>av_content_path := [], av_content_state := s\<rparr>"

lemma mark_fold:
  assumes "s \<noteq> ArchiveContentAvailable"
  shows "md_archived (foldl (\<lambda>db r. mark_content s (av_id r) db) db rs) =
     map (\<lambda>x. if is_available x \<and> av_id x \<in> av_id ` set rs then marked_row s x else x) (md_archived db)"
proof (induction rs arbitrary: db)
  case (Cons r rs)
  have one: "md_archived (mark_content s (av_id r) db) =
      map (\<lambda>x. if is_available x \<and> av_id x = av_id r then marked_row s x else x) (md_archived db)"
    by (auto simp: mark_content_def update_where_def marked_row_def)
  have unav: "\<not> is_available (marked_row s x)" for x using assms by (simp add: marked_row_def)
  show ?case
    unfolding foldl_Cons Cons.IH one map_map comp_def
    using unav by (intro map_cong) auto
qed simp

text \<open>Reconciliation at start-up marks exactly the available messages whose file is not there with
  its recorded size, and leaves every other row as it is: it agrees with one pass over the table.\<close>

theorem reconcile_marks_missing:
  assumes "mail_wf db"
  shows "md_archived (reconcile_rows cfg io fs db) =
    map (\<lambda>r. if is_available r \<and> \<not> content_present cfg io fs r
             then marked_row ArchiveContentMissing r else r) (md_archived db)"
proof -
  let ?M = "filter (\<lambda>r. is_available r \<and> \<not> content_present cfg io fs r) (md_archived db)"
  have uniq: "unique_key av_id (md_archived db)" using assms by (simp add: mail_wf_def archive_wf_def)
  have "av_id r \<in> av_id ` set ?M \<longleftrightarrow> r \<in> set ?M" if "r \<in> set (md_archived db)" for r
    using that unique_keyD [OF uniq] by auto
  then show ?thesis
    unfolding reconcile_rows_def Let_def mark_fold [OF evicted_not_available(2)] by (intro map_cong) auto
qed

lemma reconcile_marks_missing_witness:
  "map av_content_state (md_archived (reconcile_rows small_config (\<lambda>_. False) Map.empty small_archive)) =
     [ArchiveContentMissing, ArchiveContentMissing]"
proof -
  have "safeArchivePath small_config ''f'' = Some ''/m/f''" by code_simp
  then show ?thesis
    unfolding reconcile_marks_missing [OF small_archive_wf]
    by (simp add: small_archive_def small_row_def content_present_def marked_row_def)
qed

end
