(* ===== verification/StoreCredentials.thy ===== *)
theory StoreCredentials
  imports StoreTables
begin

section \<open>Credentials of aliases (internal/store/credentials.go)\<close>

text \<open>
  A v2 alias holds an encrypted credential bundle and the hashes that authenticate against it. The
  bundle is issued by a configured factory and installed in the transaction of the operation that
  needs it: creation, rotation of one alias or of all, and the migration at startup. A new bundle
  for a mailbox that starts afresh also draws a new UIDVALIDITY. Legacy aliases keep their API key.
\<close>

subsection \<open>Validation of issued material\<close>

definition prefix_rune_ok :: "rune \<Rightarrow> bool" where
  "prefix_rune_ok c \<longleftrightarrow>
     \<not> ((c < 65 \<or> c > 90) \<and> (c < 97 \<or> c > 122) \<and> (c < 48 \<or> c > 57) \<and> c \<noteq> 45 \<and> c \<noteq> 95)"

definition validAPIKeyPrefix :: "string \<Rightarrow> bool" where
  "validAPIKeyPrefix prefix0 \<longleftrightarrow>
     (let prefix = trim_space prefix0 in
      length prefix = 12 \<and> has_prefix prefix ''icm_'' \<and> list_all prefix_rune_ok (runes (drop 4 prefix)))"

text \<open>Blank, tab, carriage return and line feed.\<close>

definition client_id_forbidden :: string where
  "client_id_forbidden = [CHR '' '', CHR 0x09, CHR 0x0D, CHR 0x0A]"

definition validateAliasCredentialMaterial :: "credential_material \<Rightarrow> bool" where
  "validateAliasCredentialMaterial m \<longleftrightarrow>
     \<not> (trim_space (cm_Ciphertext m) = [] \<or> length (cm_APIKeyHash m) \<noteq> 32 \<or> length (cm_IMAPPasswordHash m) \<noteq> 32 \<or>
        trim_space (cm_OAuthClientID m) = [] \<or> length (cm_RefreshTokenHash m) \<noteq> 32 \<or> cm_Version m < 1) \<and>
     validAPIKeyPrefix (cm_APIKeyPrefix m) \<and> \<not> contains_any (cm_OAuthClientID m) client_id_forbidden"

definition validateAliasCredentialMaterialVersion :: "credential_material \<Rightarrow> int \<Rightarrow> bool" where
  "validateAliasCredentialMaterialVersion m requested \<longleftrightarrow>
     validateAliasCredentialMaterial m \<and> cm_Version m = requested"

subsection \<open>Drawing a UIDVALIDITY\<close>

definition randomMailboxUIDValidity :: "int \<Rightarrow> int" where
  "randomMailboxUIDValidity v = (if v = 0 then 1 else v)"

text \<open>The loop that draws until the value differs from the current one.\<close>

fun draw_validity :: "int list \<Rightarrow> int \<Rightarrow> store_error + int" where
  "draw_validity [] current = Inl StEntropy"
| "draw_validity (v # vs) current =
     (if randomMailboxUIDValidity v \<noteq> current then Inr (randomMailboxUIDValidity v) else draw_validity vs current)"

definition first_draw :: "int list \<Rightarrow> store_error + int" where
  "first_draw vs = (case vs of [] \<Rightarrow> Inl StEntropy | v # _ \<Rightarrow> Inr (randomMailboxUIDValidity v))"

subsection \<open>Installing a bundle\<close>

text \<open>The unique indexes on the API key hash and on the client ID, and the check on the hash.\<close>

definition alias_keys_ok :: "store_db \<Rightarrow> int \<Rightarrow> string \<Rightarrow> string \<Rightarrow> bool" where
  "alias_keys_ok db i hash client \<longleftrightarrow>
     hash \<noteq> [] \<and> \<not> list_ex (\<lambda>a. a_ID a \<noteq> i \<and> a_APIKeyHash a = hash) (sb_aliases db) \<and>
     (client = [] \<or> \<not> list_ex (\<lambda>a. a_ID a \<noteq> i \<and> a_OAuthClientID a = client) (sb_aliases db))"

definition with_material :: "store_env \<Rightarrow> credential_material \<Rightarrow> int option \<Rightarrow> mail_alias \<Rightarrow> mail_alias" where
  "with_material env m validity a =
     a\<lparr>a_CredentialCiphertext := cm_Ciphertext m, a_APIKeyHash := cm_APIKeyHash m, a_APIKeyPrefix := cm_APIKeyPrefix m,
       a_IMAPPasswordHash := cm_IMAPPasswordHash m, a_OAuthClientID := cm_OAuthClientID m,
       a_RefreshTokenHash := cm_RefreshTokenHash m, a_CredentialVersion := cm_Version m,
       a_CredentialMode := AliasCredentialModeV2, a_UpdatedAt := stamp env,
       a_MailboxUIDValidity := (case validity of None \<Rightarrow> a_MailboxUIDValidity a | Some v \<Rightarrow> v)\<rparr>"

definition store_material ::
  "store_env \<Rightarrow> int \<Rightarrow> credential_material \<Rightarrow> int option \<Rightarrow> store_db \<Rightarrow> store_error + store_db" where
  "store_material env i m validity db =
     (if find_by a_ID i (sb_aliases db) = None then Inl StNotFound
      else if \<not> alias_keys_ok db i (cm_APIKeyHash m) (cm_OAuthClientID m) then Inl StConstraint
      else Inr (set_aliases (update_where (\<lambda>a. a_ID a = i) (with_material env m validity)) db))"

definition no_material :: credential_material where
  "no_material = \<lparr>cm_Ciphertext = [], cm_APIKeyHash = [], cm_APIKeyPrefix = [], cm_IMAPPasswordHash = [],
     cm_OAuthClientID = [], cm_RefreshTokenHash = [], cm_Version = 0\<rparr>"

definition installGeneratedAliasCredentialsTx ::
  "store_env \<Rightarrow> int \<Rightarrow> int \<Rightarrow> bool \<Rightarrow> store_db \<Rightarrow> store_error + credential_material \<times> store_db" where
  "installGeneratedAliasCredentialsTx env i version initializeMailbox db =
     (case en_factory env of
        None \<Rightarrow> Inr (no_material, db)
      | Some factory \<Rightarrow>
          bind_res (of_option StIssuer (factory i version)) (\<lambda>m.
          bind_res (require (validateAliasCredentialMaterialVersion m version) StIssuer) (\<lambda>_.
          bind_res (if initializeMailbox
                    then bind_res (of_option StNotFound (find_by a_ID i (sb_aliases db))) (\<lambda>a.
                         bind_res (draw_validity (en_draws env i) (a_MailboxUIDValidity a)) (\<lambda>v. Inr (Some v)))
                    else Inr None) (\<lambda>validity.
          bind_res (store_material env i m validity db) (\<lambda>db'. Inr (m, db'))))))"

definition installAliasCredentialMaterialTx ::
  "store_env \<Rightarrow> int \<Rightarrow> int \<Rightarrow> bool \<Rightarrow> (int \<Rightarrow> int \<Rightarrow> string \<Rightarrow> credential_material option) \<Rightarrow> string \<Rightarrow> string \<Rightarrow>
     store_db \<Rightarrow> store_error + store_db" where
  "installAliasCredentialMaterialTx env i version initializeMailbox issuer pendingCiphertext expectedAPIKeyHash db =
     bind_res (of_option StIssuer (issuer i version pendingCiphertext)) (\<lambda>m.
     bind_res (require (validateAliasCredentialMaterialVersion m version) StIssuer) (\<lambda>_.
     bind_res (require (length expectedAPIKeyHash = 32) StInvalid) (\<lambda>_.
     bind_res (require (cm_APIKeyHash m = expectedAPIKeyHash) StPendingMismatch) (\<lambda>_.
     bind_res (if initializeMailbox then bind_res (first_draw (en_draws env i)) (\<lambda>v. Inr (Some v)) else Inr None) (\<lambda>validity.
       store_material env i m validity db)))))"

subsection \<open>Migration at startup\<close>

definition find_pending :: "store_db \<Rightarrow> int \<Rightarrow> pending_key option" where
  "find_pending db i = find_by pk_AliasID i (sb_pending db)"

definition lacks_bundle :: "mail_alias \<Rightarrow> bool" where
  "lacks_bundle a \<longleftrightarrow> a_CredentialVersion a = 0 \<or> a_CredentialCiphertext a = []"

definition awaits_migration :: "store_db \<Rightarrow> mail_alias \<Rightarrow> bool" where
  "awaits_migration db a \<longleftrightarrow>
     (a_CredentialMode a = AliasCredentialModeV2 \<and> lacks_bundle a) \<or> (find_pending db (a_ID a) \<noteq> None \<and> lacks_bundle a)"

text \<open>\<open>ORDER BY al.id LIMIT 1\<close>.\<close>

definition first_awaiting :: "store_db \<Rightarrow> mail_alias option" where
  "first_awaiting db =
     (case sort_key a_ID (filter (awaits_migration db) (sb_aliases db)) of [] \<Rightarrow> None | a # _ \<Rightarrow> Some a)"

definition delete_pending :: "(pending_key \<Rightarrow> bool) \<Rightarrow> store_db \<Rightarrow> store_db" where
  "delete_pending P db = db\<lparr>sb_pending := delete_where P (sb_pending db)\<rparr>"

text \<open>
  The body of the migration transaction: with a pending key its bundle is issued from that key, unless
  the key of a legacy alias has moved on, which discards the pending row instead; without one a v2
  alias gets a generated bundle and a legacy alias stays as it is.
\<close>

definition migrate_alias :: "store_env \<Rightarrow> mail_alias \<Rightarrow> store_db \<Rightarrow> store_error + store_db" where
  "migrate_alias env a db =
     (case find_pending db (a_ID a) of
        Some p \<Rightarrow>
          (case en_reuse env of
             None \<Rightarrow> Inl StUnconfigured
           | Some issuer \<Rightarrow>
               (case installAliasCredentialMaterialTx env (a_ID a) 1 True issuer (pk_Ciphertext p) (a_APIKeyHash a) db of
                  Inr db' \<Rightarrow> Inr db'
                | Inl e \<Rightarrow>
                    if e = StPendingMismatch \<and> a_CredentialMode a = AliasCredentialModeLegacy \<and>
                       a_CredentialVersion a = 0 \<and> trim_space (a_CredentialCiphertext a) = []
                    then Inr (delete_pending (\<lambda>q. pk_AliasID q = a_ID a \<and> pk_Ciphertext q = pk_Ciphertext p) db)
                    else Inl e))
      | None \<Rightarrow>
          if a_CredentialMode a = AliasCredentialModeV2
          then bind_res (installGeneratedAliasCredentialsTx env (a_ID a) 1 True db) (\<lambda>(m, db'). Inr db')
          else Inr db)"

definition find_alias_of :: "store_db \<Rightarrow> int \<Rightarrow> int \<Rightarrow> mail_alias option" where
  "find_alias_of db i account = find (\<lambda>a. a_ID a = i \<and> a_AccountID a = account) (sb_aliases db)"

definition ensureAliasCredentialsTx ::
  "store_env \<Rightarrow> int \<Rightarrow> int \<Rightarrow> store_db \<Rightarrow> (store_error + unit) \<times> store_db" where
  "ensureAliasCredentialsTx env i account db =
     (case lockAccount db account of
        Inl e \<Rightarrow> (if e = StNotFound then Inr () else Inl e, db)
      | Inr version \<Rightarrow>
          (case find_alias_of db i account of
             None \<Rightarrow> (Inr (), db)
           | Some a \<Rightarrow>
               if a_CredentialVersion a \<noteq> 0 \<and> trim_space (a_CredentialCiphertext a) \<noteq> []
               then commit env db (Inr ((), db))
               else commit env db (bind_res (migrate_alias env a db) (\<lambda>db'. Inr ((), db')))))"

text \<open>The startup loop; a run that never ends has no value.\<close>

partial_function (option) ensure_loop :: "store_env \<Rightarrow> store_db \<Rightarrow> (store_error option \<times> store_db) option" where
  "ensure_loop env db =
     (case first_awaiting db of
        None \<Rightarrow> Some (None, db)
      | Some a \<Rightarrow>
          (case ensureAliasCredentialsTx env (a_ID a) (a_AccountID a) db of
             (Inl e, db') \<Rightarrow> Some (Some e, db')
           | (Inr _, db') \<Rightarrow> ensure_loop env db'))"

definition EnsureAliasCredentials :: "store_env \<Rightarrow> store_db \<Rightarrow> (store_error option \<times> store_db) option" where
  "EnsureAliasCredentials env db =
     (if en_factory env = None then Some (Some StUnconfigured, db) else ensure_loop env db)"

subsection \<open>Rotation of one bundle\<close>

definition rotate_credentials_tx :: "store_env \<Rightarrow> int \<Rightarrow> store_db \<Rightarrow> store_error + mail_alias \<times> store_db" where
  "rotate_credentials_tx env i db =
     bind_res (of_option StNotFound (find_by a_ID i (sb_aliases db))) (\<lambda>a0.
     bind_res (lockAccount db (a_AccountID a0)) (\<lambda>_.
     bind_res (of_option StNotFound (find_alias_of db i (a_AccountID a0))) (\<lambda>a.
       if awaiting_confirmation a then Inl StConfirmationPending
       else if a_CredentialMode a \<noteq> AliasCredentialModeV2 then Inl StCredentialMode
       else (let version = (if a_CredentialVersion a < 1 then 1 else wrap64 (a_CredentialVersion a + 1)) in
         bind_res (installGeneratedAliasCredentialsTx env i version False db) (\<lambda>(m, db1).
           (let db2 = delete_pending (\<lambda>p. pk_AliasID p = i) db1 in
            bind_res (GetAlias db2 i) (\<lambda>rotated. Inr (rotated, db2))))))))"

definition RotateAliasCredentials :: "store_env \<Rightarrow> int \<Rightarrow> store_db \<Rightarrow> (store_error + mail_alias) \<times> store_db" where
  "RotateAliasCredentials env i db =
     (if en_factory env = None then (Inl StUnconfigured, db) else commit env db (rotate_credentials_tx env i db))"

subsection \<open>Rotation of every bundle\<close>

record rotation_summary =
  rs_Total :: nat
  rs_Rotated :: nat
  rs_MigratedLegacy :: nat
  rs_RotatedV2 :: nat
  rs_RotatedPending :: nat

definition rotation_version :: "mail_alias \<Rightarrow> store_error + int \<times> bool" where
  "rotation_version a =
     (if a_CredentialMode a = AliasCredentialModeLegacy then Inr (1, True)
      else if a_CredentialMode a = AliasCredentialModeV2 then
        (if a_CredentialVersion a < 0 then Inl StInvalid
         else if a_CredentialVersion a = 9223372036854775807 then Inl StVersionExhausted
         else Inr (a_CredentialVersion a + 1, False))
      else Inl StInvalid)"

definition rotate_pending_key ::
  "store_env \<Rightarrow> int \<Rightarrow> credential_material \<Rightarrow> store_db \<Rightarrow> store_error + store_db" where
  "rotate_pending_key env i m db =
     (case en_pending_key env of
        None \<Rightarrow> Inl StUnconfigured
      | Some issue \<Rightarrow>
          bind_res (of_option StIssuer (issue i (cm_Ciphertext m))) (\<lambda>c.
            if trim_space c = [] then Inl StIssuer
            else if find_pending db i = None then Inl StNotFound
            else Inr (db\<lparr>sb_pending := update_where (\<lambda>p. pk_AliasID p = i) (\<lambda>p. p\<lparr>pk_Ciphertext := c\<rparr>) (sb_pending db)\<rparr>)))"

text \<open>One alias of the rotation, with the summary so far; \<open>hasPending\<close> is read before the first write.\<close>

definition rotate_one ::
  "store_env \<Rightarrow> (int \<Rightarrow> bool) \<Rightarrow> mail_alias \<Rightarrow> rotation_summary \<times> store_db \<Rightarrow> store_error + rotation_summary \<times> store_db" where
  "rotate_one env hasPending a s =
     (case s of (acc, db) \<Rightarrow>
       if awaiting_confirmation a \<and> \<not> hasPending (a_ID a) then Inl StInvalid
       else bind_res (rotation_version a) (\<lambda>(version, initializeMailbox).
            bind_res (installGeneratedAliasCredentialsTx env (a_ID a) version initializeMailbox db) (\<lambda>(m, db1).
            bind_res (if hasPending (a_ID a) then rotate_pending_key env (a_ID a) m db1 else Inr db1) (\<lambda>db2.
              Inr (acc\<lparr>rs_Rotated := rs_Rotated acc + 1,
                     rs_RotatedPending := rs_RotatedPending acc + (if hasPending (a_ID a) then 1 else 0),
                     rs_MigratedLegacy := rs_MigratedLegacy acc + (if initializeMailbox then 1 else 0),
                     rs_RotatedV2 := rs_RotatedV2 acc + (if initializeMailbox then 0 else 1)\<rparr>, db2)))))"

definition rotation_order :: "store_db \<Rightarrow> mail_alias list" where
  "rotation_order db = sort_key (\<lambda>a. (a_AccountID a, a_ID a)) (sb_aliases db)"

definition rotate_all_bundles :: "store_env \<Rightarrow> store_db \<Rightarrow> store_error + rotation_summary \<times> store_db" where
  "rotate_all_bundles env db =
     fold_res (rotate_one env (\<lambda>i. find_pending db i \<noteq> None)) (rotation_order db)
       (\<lparr>rs_Total = length (sb_aliases db), rs_Rotated = 0, rs_MigratedLegacy = 0, rs_RotatedV2 = 0, rs_RotatedPending = 0\<rparr>, db)"

definition rotation_detail :: "rotation_summary \<Rightarrow> string" where
  "rotation_detail s = json_object
     [json_field ''total'' (format_int (int (rs_Total s))), json_field ''rotated'' (format_int (int (rs_Rotated s))),
      json_field ''migrated_legacy'' (format_int (int (rs_MigratedLegacy s))),
      json_field ''rotated_v2'' (format_int (int (rs_RotatedV2 s))),
      json_field ''rotated_pending'' (format_int (int (rs_RotatedPending s)))]"

text \<open>The audited rotation also ends every session of the administrator who asked for it.\<close>

definition revoke_admin :: "int \<Rightarrow> int \<Rightarrow> store_db \<Rightarrow> store_db" where
  "revoke_admin admin version db =
     db\<lparr>sb_admins := (sb_admins db)\<lparr>
          am_admins := update_where (\<lambda>r. ad_ID r = admin \<and> ad_PasswordVersion r = version)
            (\<lambda>r. r\<lparr>ad_PasswordVersion := ad_PasswordVersion r + 1\<rparr>) (am_admins (sb_admins db)),
          am_sessions := delete_where (\<lambda>s. se_AdminID s = admin) (am_sessions (sb_admins db))\<rparr>\<rparr>"

definition write_audit :: "store_env \<Rightarrow> audit_log \<Rightarrow> store_db \<Rightarrow> store_db" where
  "write_audit env log db = db\<lparr>sb_audit := snd (insertAuditLog (sb_audit db) log (en_now env))\<rparr>"

definition rotate_all_tx ::
  "store_env \<Rightarrow> (audit_log \<times> int \<times> int) option \<Rightarrow> store_db \<Rightarrow> store_error + rotation_summary \<times> store_db" where
  "rotate_all_tx env audit db =
     (case audit of
        None \<Rightarrow> rotate_all_bundles env db
      | Some (log, admin, version) \<Rightarrow>
          (case find_admin (sb_admins db) admin of
             None \<Rightarrow> Inl StAdminChanged
           | Some r \<Rightarrow>
               if ad_PasswordVersion r \<noteq> version then Inl StAdminChanged
               else bind_res (rotate_all_bundles env db) (\<lambda>(summary, db1).
                 Inr (summary, write_audit env (log\<lparr>al_AdminID := Some admin, al_Detail := rotation_detail summary\<rparr>)
                             (revoke_admin admin version db1)))))"

definition RotateAllAliasCredentials :: "store_env \<Rightarrow> store_db \<Rightarrow> (store_error + rotation_summary) \<times> store_db" where
  "RotateAllAliasCredentials env db =
     (if en_factory env = None then (Inl StUnconfigured, db) else commit env db (rotate_all_tx env None db))"

definition RotateAllAliasCredentialsWithAudit ::
  "store_env \<Rightarrow> int \<Rightarrow> int \<Rightarrow> audit_log \<Rightarrow> store_db \<Rightarrow> (store_error + rotation_summary) \<times> store_db" where
  "RotateAllAliasCredentialsWithAudit env admin version log db =
     (if admin < 1 \<or> version < 1 then (Inl StAdminChanged, db)
      else if en_factory env = None then (Inl StUnconfigured, db)
      else commit env db (rotate_all_tx env (Some (log, admin, version)) db))"

subsection \<open>Rotation of an API key\<close>

text \<open>The material of a v2 key rotation may differ from the stored bundle in nothing but the API key.\<close>

definition same_other_credentials :: "credential_material \<Rightarrow> mail_alias \<Rightarrow> string \<Rightarrow> string \<Rightarrow> bool" where
  "same_other_credentials m a hash prefix \<longleftrightarrow>
     cm_Version m = a_CredentialVersion a \<and> cm_APIKeyHash m = hash \<and> cm_APIKeyPrefix m = prefix \<and>
     cm_IMAPPasswordHash m = a_IMAPPasswordHash a \<and> cm_OAuthClientID m = a_OAuthClientID a \<and>
     cm_RefreshTokenHash m = a_RefreshTokenHash a"

definition put_api_key ::
  "store_env \<Rightarrow> int \<Rightarrow> int \<Rightarrow> string option \<Rightarrow> string \<Rightarrow> string \<Rightarrow> store_db \<Rightarrow> store_error + store_db" where
  "put_api_key env i account ciphertext hash prefix db =
     (if \<not> alias_keys_ok db i hash [] then Inl StConstraint
      else Inr (set_aliases (update_where (\<lambda>a. a_ID a = i \<and> a_AccountID a = account)
             (\<lambda>a. a\<lparr>a_CredentialCiphertext := (case ciphertext of None \<Rightarrow> a_CredentialCiphertext a | Some c \<Rightarrow> c),
                    a_APIKeyHash := hash, a_APIKeyPrefix := prefix, a_UpdatedAt := stamp env\<rparr>)) db))"

definition rotate_api_key_tx ::
  "store_env \<Rightarrow> int \<Rightarrow> string \<Rightarrow> string \<Rightarrow> string \<Rightarrow> store_db \<Rightarrow> store_error + mail_alias \<times> store_db" where
  "rotate_api_key_tx env i hash prefix0 rawAPIKey db =
     bind_res (of_option StNotFound (find_by a_ID i (sb_aliases db))) (\<lambda>a0.
     bind_res (lockAccount db (a_AccountID a0)) (\<lambda>_.
     bind_res (of_option StNotFound (find_alias_of db i (a_AccountID a0))) (\<lambda>a.
       if awaiting_confirmation a then Inl StConfirmationPending
       else (let prefix = trim_space (sanitizePostgresText prefix0) in
         bind_res
           (if a_CredentialMode a = AliasCredentialModeLegacy
            then put_api_key env i (a_AccountID a0) None hash prefix db
            else if a_CredentialMode a = AliasCredentialModeV2 then
              (if trim_space rawAPIKey = [] then Inl StInvalid
               else (case en_api_key env of
                       None \<Rightarrow> Inl StUnconfigured
                     | Some issue \<Rightarrow>
                         if a_CredentialVersion a < 1 \<or> trim_space (a_CredentialCiphertext a) = [] then Inl StInvalid
                         else bind_res (of_option StIssuer (issue i (a_CredentialVersion a) (a_CredentialCiphertext a) rawAPIKey)) (\<lambda>m.
                           if \<not> validateAliasCredentialMaterialVersion m (a_CredentialVersion a) then Inl StIssuer
                           else if \<not> same_other_credentials m a hash prefix then Inl StIssuer
                           else put_api_key env i (a_AccountID a0) (Some (cm_Ciphertext m)) (cm_APIKeyHash m) prefix db)))
            else Inl StInvalid)
           (\<lambda>db1. (let db2 = delete_pending (\<lambda>p. pk_AliasID p = i) db1 in
              bind_res (GetAlias db2 i) (\<lambda>rotated. Inr (rotated, db2))))))))"

definition RotateAliasAPIKeyWithRawKey ::
  "store_env \<Rightarrow> int \<Rightarrow> string \<Rightarrow> string \<Rightarrow> string \<Rightarrow> store_db \<Rightarrow> (store_error + mail_alias) \<times> store_db" where
  "RotateAliasAPIKeyWithRawKey env i hash prefix rawAPIKey db =
     (if hash = [] then (Inl StInvalid, db) else commit env db (rotate_api_key_tx env i hash prefix rawAPIKey db))"

definition RotateAliasAPIKey ::
  "store_env \<Rightarrow> int \<Rightarrow> string \<Rightarrow> string \<Rightarrow> store_db \<Rightarrow> (store_error + mail_alias) \<times> store_db" where
  "RotateAliasAPIKey env i hash prefix db = RotateAliasAPIKeyWithRawKey env i hash prefix [] db"

subsection \<open>Lookups\<close>

definition GetAliasByAPIKeyHash :: "store_db \<Rightarrow> string \<Rightarrow> store_error + mail_alias" where
  "GetAliasByAPIKeyHash db hash = get_alias_where db (\<lambda>a. a_APIKeyHash a = hash)"

definition GetAliasByIMAPPasswordHash :: "store_db \<Rightarrow> string \<Rightarrow> store_error + mail_alias" where
  "GetAliasByIMAPPasswordHash db hash = get_alias_where db (\<lambda>a. a_IMAPPasswordHash a = hash)"

definition GetAliasByOAuthClientID :: "store_db \<Rightarrow> string \<Rightarrow> store_error + mail_alias" where
  "GetAliasByOAuthClientID db client = get_alias_where db (\<lambda>a. a_OAuthClientID a = trim_space client)"

end
