(* ===== verification/ArchiveQuarantine.thy ===== *)
theory ArchiveQuarantine
  imports MailTables
begin

section \<open>Quarantine of an account's archive (internal/store/archive.go)\<close>

text \<open>
  Changing an account's mail source or deleting the account removes its archived messages. Their
  files cannot join the SQL transaction, so the directory \<open>account-<id>\<close> is renamed into a quarantine
  directory before the commit, discarded after it and renamed back when the commit fails. A process
  that stops in between leaves the quarantine directory to \<open>reconcileMailArchiveQuarantines\<close>, which
  decides from the archived rows whether the transaction had committed. A directory is its content
  \<open>'c\<close>; \<open>qd_live\<close> are the directories \<open>account-<id>\<close>, \<open>qd_temp\<close> the quarantine directories by name, with
  their child \<open>archive\<close> if it is there. \<open>io\<close> says which operations of the operating system fail.
\<close>

datatype 'c dir_node = Dir 'c | NotDir

record 'c archive_dirs =
  qd_live :: "int \<Rightarrow> 'c dir_node option"
  qd_temp :: "(string \<times> 'c option) list"

datatype q_op = QStat | QMkdir | QRename | QRestore | QRemove | QList

definition archiveSourceResetPrefix :: string where
  "archiveSourceResetPrefix = ''source-reset-account-''"

definition archiveQuarantineAccountID :: "string \<Rightarrow> int option" where
  "archiveQuarantineAccountID name =
     (let remainder = trim_prefix name archiveSourceResetPrefix in
      if remainder = name then None
      else (case cut (CHR ''-'') remainder of
              (idText, _, ok) \<Rightarrow>
                if \<not> ok then None
                else (case parse_int64 idText of None \<Rightarrow> None | Some i \<Rightarrow> if i > 0 then Some i else None)))"

text \<open>The name that \<open>MkdirTemp\<close> builds; \<open>suffix\<close> is its random number.\<close>

definition quarantine_name :: "int \<Rightarrow> string \<Rightarrow> string" where
  "quarantine_name account suffix = archiveSourceResetPrefix @ format_int account @ ''-'' @ suffix"

subsection \<open>The operations\<close>

definition drop_temp :: "string \<Rightarrow> 'c archive_dirs \<Rightarrow> 'c archive_dirs" where
  "drop_temp name d = d\<lparr>qd_temp := filter (\<lambda>e. fst e \<noteq> name) (qd_temp d)\<rparr>"

text \<open>\<open>os.Rename\<close> of the child \<open>archive\<close> of a quarantine directory to \<open>account-<id>\<close>.\<close>

definition move_back :: "int \<Rightarrow> string \<Rightarrow> 'c \<Rightarrow> 'c archive_dirs \<Rightarrow> 'c archive_dirs" where
  "move_back account name c d =
     d\<lparr>qd_live := (qd_live d)(account \<mapsto> Dir c),
       qd_temp := map (\<lambda>e. if fst e = name then (name, None) else e) (qd_temp d)\<rparr>"

text \<open>
  \<open>quarantineMailArchiveAccount\<close>: the name of the quarantine directory, or \<open>None\<close> when there is no
  directory to move. A failing \<open>Rename\<close> removes the empty quarantine directory again.
\<close>

definition quarantineMailArchiveAccount ::
  "bool \<Rightarrow> (q_op \<Rightarrow> bool) \<Rightarrow> string \<Rightarrow> int \<Rightarrow> 'c archive_dirs \<Rightarrow> string option option \<times> 'c archive_dirs" where
  "quarantineMailArchiveAccount configured io suffix account d =
     (if \<not> configured \<or> account < 1 then (Some None, d)
      else if io QStat then (None, d)
      else (case qd_live d account of
              None \<Rightarrow> (Some None, d)
            | Some NotDir \<Rightarrow> (None, d)
            | Some (Dir c) \<Rightarrow>
                if io QMkdir then (None, d)
                else if io QRename then
                  (None, if io QRemove then d\<lparr>qd_temp := (quarantine_name account suffix, None) # qd_temp d\<rparr> else d)
                else (Some (Some (quarantine_name account suffix)),
                      d\<lparr>qd_live := (qd_live d)(account := None),
                        qd_temp := (quarantine_name account suffix, Some c) # qd_temp d\<rparr>)))"

definition quarantine_restore ::
  "(q_op \<Rightarrow> bool) \<Rightarrow> int \<Rightarrow> string option \<Rightarrow> 'c archive_dirs \<Rightarrow> bool \<times> 'c archive_dirs" where
  "quarantine_restore io account q d =
     (case q of
        None \<Rightarrow> (True, d)
      | Some name \<Rightarrow>
          (case map_of (qd_temp d) name of
             Some (Some c) \<Rightarrow>
               if io QRestore \<or> qd_live d account \<noteq> None then (False, d)
               else if io QRemove then (False, move_back account name c d)
               else (True, drop_temp name (move_back account name c d))
           | _ \<Rightarrow> (False, d)))"

definition quarantine_discard :: "(q_op \<Rightarrow> bool) \<Rightarrow> string option \<Rightarrow> 'c archive_dirs \<Rightarrow> 'c archive_dirs" where
  "quarantine_discard io q d =
     (case q of None \<Rightarrow> d | Some name \<Rightarrow> if io QRemove then d else drop_temp name d)"

subsection \<open>Reconciliation at startup\<close>

text \<open>
  \<open>rows i\<close> is the number of archived rows of account \<open>i\<close>. The first failure ends the pass, with the
  entries before it already handled.
\<close>

definition reconcile_entry ::
  "(q_op \<Rightarrow> bool) \<Rightarrow> (int \<Rightarrow> nat) \<Rightarrow> string \<times> 'c option \<Rightarrow> 'c archive_dirs \<Rightarrow> bool \<times> 'c archive_dirs" where
  "reconcile_entry io rows e d =
     (case archiveQuarantineAccountID (fst e) of
        None \<Rightarrow> (True, d)
      | Some account \<Rightarrow>
          if io QStat then (False, d)
          else (case qd_live d account of
                  Some NotDir \<Rightarrow> (False, d)
                | Some (Dir c) \<Rightarrow> if io QRemove then (False, d) else (True, drop_temp (fst e) d)
                | None \<Rightarrow>
                    if rows account = 0 then (if io QRemove then (False, d) else (True, drop_temp (fst e) d))
                    else (case snd e of
                            None \<Rightarrow> (False, d)
                          | Some c \<Rightarrow>
                              if io QRestore then (False, d)
                              else if io QRemove then (False, move_back account (fst e) c d)
                              else (True, drop_temp (fst e) (move_back account (fst e) c d)))))"

fun reconcile_entries ::
  "(q_op \<Rightarrow> bool) \<Rightarrow> (int \<Rightarrow> nat) \<Rightarrow> (string \<times> 'c option) list \<Rightarrow> 'c archive_dirs \<Rightarrow> bool \<times> 'c archive_dirs" where
  "reconcile_entries io rows [] d = (True, d)"
| "reconcile_entries io rows (e # es) d =
     (case reconcile_entry io rows e d of
        (False, d') \<Rightarrow> (False, d') | (True, d') \<Rightarrow> reconcile_entries io rows es d')"

definition archived_rows :: "mail_db \<Rightarrow> int \<Rightarrow> nat" where
  "archived_rows db i = count_where (\<lambda>r. av_account_id r = i) (md_archived db)"

definition reconcileMailArchiveQuarantines ::
  "bool \<Rightarrow> (q_op \<Rightarrow> bool) \<Rightarrow> mail_db \<Rightarrow> 'c archive_dirs \<Rightarrow> bool \<times> 'c archive_dirs" where
  "reconcileMailArchiveQuarantines configured io db d =
     (if \<not> configured then (True, d)
      else if io QList then (False, d)
      else reconcile_entries io (archived_rows db) (qd_temp d) d)"

end
