(* ===== verification/StoreAccounts.thy ===== *)
theory StoreAccounts
  imports StoreTables ArchiveQuarantine
begin

section \<open>Primary accounts (internal/store/account.go)\<close>

text \<open>
  Creating, editing, listing and deleting primary accounts. An edit that changes the credential, the
  mail source or the address, or that enables the account again, withdraws the account's mail from
  synchronisation: the cursor is dropped, so that the next synchronisation sets a new boundary, and
  the account version advances. A new mail source (host, port or user name) also removes every row
  that carries UIDs of the old one and starts a new UIDVALIDITY for each alias.
\<close>

subsection \<open>Mailbox settings\<close>

definition normalizeAccountMailboxSettings :: "string \<Rightarrow> string \<Rightarrow> store_error + string \<times> string" where
  "normalizeAccountMailboxSettings mailboxType0 suffix =
     (let mailboxType = NormalizeMailboxType
            (if trim_space mailboxType0 = [] \<and> trim_space suffix \<noteq> [] then MailboxTypeCustom else mailboxType0) in
      if mailboxType = [] then Inl StInvalid
      else if mailboxType = MailboxTypeCustom
        then (case NormalizeEmailSuffix suffix of None \<Rightarrow> Inl StInvalid | Some n \<Rightarrow> Inr (mailboxType, n))
      else Inr (mailboxType, []))"

text \<open>The partial unique index on the suffixes of custom mailboxes.\<close>

definition suffix_taken :: "store_db \<Rightarrow> int \<Rightarrow> string \<Rightarrow> bool" where
  "suffix_taken db account s \<longleftrightarrow>
     list_ex (\<lambda>a. ac_ID a \<noteq> account \<and> ac_MailboxType a = MailboxTypeCustom \<and> nocase (ac_EmailSuffix a) = nocase s)
       (sb_accounts db)"

definition upsertAccountMailboxSettingsTx :: "int \<Rightarrow> string \<Rightarrow> string \<Rightarrow> store_db \<Rightarrow> store_error + store_db" where
  "upsertAccountMailboxSettingsTx account mailboxType suffix db =
     bind_res (normalizeAccountMailboxSettings mailboxType suffix) (\<lambda>(t, s).
       if t = MailboxTypeCustom \<and> suffix_taken db account s then Inl StConstraint
       else Inr (set_accounts (update_where (\<lambda>a. ac_ID a = account)
              (\<lambda>a. a\<lparr>ac_MailboxType := t, ac_EmailSuffix := s\<rparr>)) db))"

definition aliasAddressIdentityConflictTx :: "store_db \<Rightarrow> string \<Rightarrow> bool" where
  "aliasAddressIdentityConflictTx db address \<longleftrightarrow>
     list_ex (\<lambda>a. nocase (a_Address a) = nocase address) (sb_aliases db)"

text \<open>The constraints of the \<open>accounts\<close> table.\<close>

definition account_row_ok :: "store_db \<Rightarrow> int \<Rightarrow> string \<Rightarrow> int \<Rightarrow> bool" where
  "account_row_ok db account email port \<longleftrightarrow>
     \<not> list_ex (\<lambda>a. ac_ID a \<noteq> account \<and> nocase (ac_Email a) = nocase email) (sb_accounts db) \<and>
     1 \<le> port \<and> port \<le> 65535"

subsection \<open>Creation\<close>

definition clean_text :: "string \<Rightarrow> string" where
  "clean_text v = trim_space (sanitizePostgresText v)"

definition status_or_pending :: "string \<Rightarrow> string" where
  "status_or_pending v = (let s = clean_text v in if s = [] then SyncStatusPending else s)"

definition account_row :: "store_env \<Rightarrow> store_db \<Rightarrow> account \<Rightarrow> string \<Rightarrow> account" where
  "account_row env db req email =
     \<lparr>ac_ID = sb_next_account db, ac_Name = clean_text (ac_Name req), ac_Email = email,
      ac_IMAPHost = clean_text (ac_IMAPHost req), ac_IMAPPort = ac_IMAPPort req,
      ac_IMAPUsername = clean_text (ac_IMAPUsername req), ac_PasswordCiphertext = ac_PasswordCiphertext req,
      ac_Enabled = ac_Enabled req, ac_LastSyncStatus = status_or_pending (ac_LastSyncStatus req),
      ac_LastSyncError = sanitizePostgresText (ac_LastSyncError req),
      ac_LastSyncedAt = nullableTimestamp (ac_LastSyncedAt req), ac_CreatedAt = stamp env, ac_UpdatedAt = stamp env,
      ac_AliasCount = 0, ac_MailboxType = MailboxTypeICloud, ac_EmailSuffix = []\<rparr>"

definition create_account_tx :: "store_env \<Rightarrow> account \<Rightarrow> store_db \<Rightarrow> store_error + int \<times> store_db" where
  "create_account_tx env req db =
     bind_res (normalizeAccountMailboxSettings (ac_MailboxType req) (ac_EmailSuffix req)) (\<lambda>(t, s).
       (let email = NormalizeEmail (sanitizePostgresText (ac_Email req)); i = sb_next_account db in
        if aliasAddressIdentityConflictTx db email then Inl StIdentityConflict
        else if \<not> account_row_ok db i email (ac_IMAPPort req) then Inl StConstraint
        else bind_res (upsertAccountMailboxSettingsTx i t s
               ((set_accounts (\<lambda>as. as @ [account_row env db req email]) db)\<lparr>sb_next_account := i + 1\<rparr>))
             (\<lambda>db'. Inr (i, db'))))"

definition CreateAccount :: "store_env \<Rightarrow> account \<Rightarrow> store_db \<Rightarrow> (store_error + account) \<times> store_db" where
  "CreateAccount env req db =
     (case commit env db (create_account_tx env req db) of
        (Inl e, db') \<Rightarrow> (Inl e, db')
      | (Inr i, db') \<Rightarrow> (GetAccount db' i, db'))"

subsection \<open>Update\<close>

text \<open>The type and suffix that an update asks for, given the current row.\<close>

definition requested_settings :: "account \<Rightarrow> account \<Rightarrow> store_error + string \<times> string" where
  "requested_settings req cur =
     (let t0 = NormalizeMailboxType (ac_MailboxType req);
          t = (if t0 = [] then NormalizeMailboxType (ac_MailboxType cur) else t0);
          s0 = trim_space (ac_EmailSuffix req);
          s = (if s0 = [] \<and> t = MailboxTypeCustom then ac_EmailSuffix cur else s0) in
      if t = MailboxTypeCustom
      then (case NormalizeEmailSuffix s of None \<Rightarrow> Inl StInvalid | Some n \<Rightarrow> Inr (t, n))
      else Inr (t, []))"

definition requested_email :: "account \<Rightarrow> string" where
  "requested_email req = NormalizeEmail (sanitizePostgresText (ac_Email req))"

definition email_changed :: "account \<Rightarrow> account \<Rightarrow> bool" where
  "email_changed req cur \<longleftrightarrow> requested_email req \<noteq> NormalizeEmail (ac_Email cur)"

definition mailbox_source_changed :: "account \<Rightarrow> account \<Rightarrow> bool" where
  "mailbox_source_changed req cur \<longleftrightarrow>
     clean_text (ac_IMAPHost req) \<noteq> trim_space (ac_IMAPHost cur) \<or> ac_IMAPPort req \<noteq> ac_IMAPPort cur \<or>
     clean_text (ac_IMAPUsername req) \<noteq> trim_space (ac_IMAPUsername cur)"

definition password_changed :: "account \<Rightarrow> account \<Rightarrow> bool" where
  "password_changed req cur \<longleftrightarrow>
     ac_PasswordCiphertext req \<noteq> [] \<and> ac_PasswordCiphertext req \<noteq> ac_PasswordCiphertext cur"

text \<open>An update after which the next synchronisation must set a new boundary.\<close>

definition withdraws_mail :: "account \<Rightarrow> account \<Rightarrow> bool" where
  "withdraws_mail req cur \<longleftrightarrow>
     password_changed req cur \<or> (\<not> ac_Enabled cur \<and> ac_Enabled req) \<or> mailbox_source_changed req cur \<or> email_changed req cur"

definition has_aliases :: "store_db \<Rightarrow> int \<Rightarrow> bool" where
  "has_aliases db account \<longleftrightarrow> list_ex (\<lambda>a. a_AccountID a = account) (sb_aliases db)"

definition edit_row :: "account \<Rightarrow> bool \<Rightarrow> timestamp \<Rightarrow> account \<Rightarrow> account" where
  "edit_row req keepEmail version a =
     a\<lparr>ac_Name := clean_text (ac_Name req),
       ac_Email := (if keepEmail then ac_Email a else requested_email req),
       ac_IMAPHost := clean_text (ac_IMAPHost req), ac_IMAPPort := ac_IMAPPort req,
       ac_IMAPUsername := clean_text (ac_IMAPUsername req),
       ac_PasswordCiphertext := (if ac_PasswordCiphertext req = [] then ac_PasswordCiphertext a else ac_PasswordCiphertext req),
       ac_Enabled := ac_Enabled req, ac_UpdatedAt := version\<rparr>"

definition stop_schedule :: "timestamp \<Rightarrow> int \<Rightarrow> store_db \<Rightarrow> store_db" where
  "stop_schedule at' account db =
     db\<lparr>sb_schedules := update_where (\<lambda>c. cs_AccountID c = account)
          (\<lambda>c. c\<lparr>cs_Enabled := False, cs_PlannedAt := [], cs_NextRunAt := None, cs_UpdatedAt := at'\<rparr>) (sb_schedules db)\<rparr>"

definition drop_session :: "int \<Rightarrow> store_db \<Rightarrow> store_db" where
  "drop_session account db = db\<lparr>sb_apple := delete_where (\<lambda>w. aw_AccountID w = account) (sb_apple db)\<rparr>"

text \<open>Everything that carries UIDs of the old mail source, with the cascade to the alias links.\<close>

definition forget_source :: "timestamp \<Rightarrow> int \<Rightarrow> store_db \<Rightarrow> store_db" where
  "forget_source at' account db =
     (let m = sb_mail db;
          mine = map a_ID (filter (\<lambda>a. a_AccountID a = account) (md_aliases m));
          gone = map av_id (filter (\<lambda>r. av_account_id r = account) (md_archived m)) in
      db\<lparr>sb_mail := m\<lparr>
           md_latest := delete_where (\<lambda>r. lm_AliasID r \<in> set mine) (md_latest m),
           md_consumed := delete_where (\<lambda>c. cn_alias_id c \<in> set mine) (md_consumed m),
           md_seen := delete_where (\<lambda>t. st_AccountID t = account) (md_seen m),
           md_archived := delete_where (\<lambda>r. av_account_id r = account) (md_archived m),
           md_links := delete_where (\<lambda>l. lk_message_id l \<in> set gone) (md_links m),
           md_aliases := update_where (\<lambda>a. a_AccountID a = account)
             (\<lambda>a. a\<lparr>a_MailboxUIDValidity := (if a_MailboxUIDValidity a \<ge> 4294967295 then 1 else a_MailboxUIDValidity a + 1),
                    a_MailboxUIDNext := 1, a_UpdatedAt := at'\<rparr>) (md_aliases m)\<rparr>\<rparr>)"

definition reset_statuses :: "timestamp \<Rightarrow> timestamp \<Rightarrow> int \<Rightarrow> store_db \<Rightarrow> store_db" where
  "reset_statuses at' version account db =
     set_accounts (update_where (\<lambda>a. ac_ID a = account)
         (\<lambda>a. a\<lparr>ac_LastSyncStatus := SyncStatusPending, ac_LastSyncError := [], ac_LastSyncedAt := None, ac_UpdatedAt := version\<rparr>))
       (set_aliases (update_where (\<lambda>a. a_AccountID a = account \<and> \<not> awaiting_confirmation a)
         (\<lambda>a. a\<lparr>a_LastSyncStatus := SyncStatusPending, a_LastSyncError := [], a_LastSyncedAt := None, a_UpdatedAt := at'\<rparr>)) db)"

definition withdraw_mail :: "timestamp \<Rightarrow> timestamp \<Rightarrow> account \<Rightarrow> account \<Rightarrow> store_db \<Rightarrow> store_db" where
  "withdraw_mail at' version req cur db =
     (if \<not> withdraws_mail req cur then db
      else reset_statuses at' version (ac_ID req)
             ((if mailbox_source_changed req cur then forget_source at' (ac_ID req) else (\<lambda>x. x))
               (reset_cursor (ac_ID req) db)))"

definition update_account_tx :: "store_env \<Rightarrow> account \<Rightarrow> store_db \<Rightarrow> store_error + bool \<times> store_db" where
  "update_account_tx env req db =
     bind_res (lockAccount db (ac_ID req)) (\<lambda>version.
     bind_res (of_option StNotFound (find_by ac_ID (ac_ID req) (sb_accounts db))) (\<lambda>cur.
     bind_res (requested_settings req cur) (\<lambda>(t, s).
       (let hasAliases = has_aliases db (ac_ID req);
            settingsChanged = (t \<noteq> NormalizeMailboxType (ac_MailboxType cur) \<or> s \<noteq> ac_EmailSuffix cur) in
        if hasAliases \<and> (email_changed req cur \<or> settingsChanged) then Inl StIdentityLocked
        else if email_changed req cur \<and> aliasAddressIdentityConflictTx db (requested_email req) then Inl StIdentityConflict
        else bind_res (nextVersion env version) (\<lambda>next_version.
          if \<not> account_row_ok db (ac_ID req) (if hasAliases then ac_Email cur else requested_email req) (ac_IMAPPort req)
          then Inl StConstraint
          else (let db1 = set_accounts (update_where (\<lambda>a. ac_ID a = ac_ID req \<and> ac_UpdatedAt a = version)
                       (edit_row req hasAliases next_version)) db in
            bind_res (upsertAccountMailboxSettingsTx (ac_ID req) t s db1) (\<lambda>db2.
              (let db3 = (if ac_Enabled req then db2 else stop_schedule (stamp env) (ac_ID req) db2);
                   db4 = (if t = MailboxTypeCustom then stop_schedule (stamp env) (ac_ID req) db3 else db3);
                   db5 = (if email_changed req cur \<or> t \<noteq> NormalizeMailboxType (ac_MailboxType cur)
                          then drop_session (ac_ID req) db4 else db4) in
               Inr (mailbox_source_changed req cur, withdraw_mail (stamp env) next_version req cur db5)))))))))"

text \<open>The transaction between the quarantine of the account's files and their restoration or disposal.\<close>

definition UpdateAccount ::
  "bool \<Rightarrow> (q_op \<Rightarrow> bool) \<Rightarrow> string \<Rightarrow> store_env \<Rightarrow> account \<Rightarrow> store_db \<times> 'c archive_dirs \<Rightarrow>
     (store_error + account) \<times> store_db \<times> 'c archive_dirs" where
  "UpdateAccount configured io suffix env req s =
     (case s of (db, d) \<Rightarrow>
       (case update_account_tx env req db of
          Inl e \<Rightarrow> (Inl e, db, d)
        | Inr (sourceChanged, db') \<Rightarrow>
            (case (if sourceChanged then quarantineMailArchiveAccount configured io suffix (ac_ID req) d else (Some None, d)) of
               (None, d1) \<Rightarrow> (Inl StArchive, db, d1)
             | (Some q, d1) \<Rightarrow>
                 if en_fault env then (Inl StTxFailed, db, snd (quarantine_restore io (ac_ID req) q d1))
                 else (GetAccount db' (ac_ID req), db', quarantine_discard io q d1))))"

subsection \<open>Deletion\<close>

text \<open>Deleting the account row, with every row that \<open>ON DELETE CASCADE\<close> removes.\<close>

definition delete_account_rows :: "int \<Rightarrow> store_db \<Rightarrow> store_db" where
  "delete_account_rows account db0 =
     (let db = delete_aliases (\<lambda>a. a_AccountID a = account) db0; m = sb_mail db;
          gone = map av_id (filter (\<lambda>r. av_account_id r = account) (md_archived m)) in
      db\<lparr>sb_mail := m\<lparr>md_accounts := delete_where (\<lambda>a. ac_ID a = account) (md_accounts m),
           md_sync := delete_where (\<lambda>s. ss_AccountID s = account) (md_sync m),
           md_archived := delete_where (\<lambda>r. av_account_id r = account) (md_archived m),
           md_links := delete_where (\<lambda>l. lk_message_id l \<in> set gone) (md_links m),
           md_seen := delete_where (\<lambda>t. st_AccountID t = account) (md_seen m)\<rparr>,
         sb_apple := delete_where (\<lambda>w. aw_AccountID w = account) (sb_apple db),
         sb_schedules := delete_where (\<lambda>c. cs_AccountID c = account) (sb_schedules db)\<rparr>)"

definition DeleteAccount ::
  "bool \<Rightarrow> (q_op \<Rightarrow> bool) \<Rightarrow> string \<Rightarrow> store_env \<Rightarrow> int \<Rightarrow> store_db \<times> 'c archive_dirs \<Rightarrow>
     (store_error + unit) \<times> store_db \<times> 'c archive_dirs" where
  "DeleteAccount configured io suffix env account s =
     (case s of (db, d) \<Rightarrow>
       (case quarantineMailArchiveAccount configured io suffix account d of
          (None, d1) \<Rightarrow> (Inl StArchive, db, d1)
        | (Some q, d1) \<Rightarrow>
            if en_fault env then (Inl StTxFailed, db, snd (quarantine_restore io account q d1))
            else if find_by ac_ID account (sb_accounts db) = None
              then (Inl StNotFound, db, snd (quarantine_restore io account q d1))
            else (Inr (), delete_account_rows account db, quarantine_discard io q d1)))"

subsection \<open>Sync status\<close>

definition SetAccountSyncStatus ::
  "store_env \<Rightarrow> int \<Rightarrow> string \<Rightarrow> string \<Rightarrow> time option \<Rightarrow> store_db \<Rightarrow> (store_error + unit) \<times> store_db" where
  "SetAccountSyncStatus env account status syncError syncedAt db =
     commit env db
       (bind_res (lockAccount db account) (\<lambda>version.
        bind_res (nextVersion env version) (\<lambda>next_version.
          if list_ex (\<lambda>a. ac_ID a = account \<and> ac_UpdatedAt a = version) (sb_accounts db)
          then Inr ((), set_accounts (update_where (\<lambda>a. ac_ID a = account \<and> ac_UpdatedAt a = version)
                 (\<lambda>a. a\<lparr>ac_LastSyncStatus := sanitizePostgresText status, ac_LastSyncError := sanitizePostgresText syncError,
                        ac_LastSyncedAt := nullableTimestamp syncedAt, ac_UpdatedAt := next_version\<rparr>)) db)
          else Inl StNotFound)))"

subsection \<open>Listing\<close>

record account_filter =
  af_Query :: string
  af_PageLimit :: int
  af_PageOffset :: int

definition maxListPageLimit :: int where "maxListPageLimit = 1000"

definition validateListPage :: "int \<Rightarrow> int \<Rightarrow> bool" where
  "validateListPage limit offset \<longleftrightarrow> \<not> limit < 1 \<and> \<not> limit > maxListPageLimit \<and> \<not> offset < 0"

definition escape_byte :: "byte \<Rightarrow> string" where
  "escape_byte c = (if c = CHR ''!'' \<or> c = CHR ''%'' \<or> c = CHR ''_'' then [CHR ''!'', c] else [c])"

definition escapeLikePattern :: "string \<Rightarrow> string" where
  "escapeLikePattern v = concat (map escape_byte v)"

text \<open>\<open>text LIKE pattern ESCAPE '!'\<close>; \<open>LOWER\<close> is the ASCII folding of SQLite.\<close>

fun sql_like :: "string \<Rightarrow> string \<Rightarrow> bool" where
  "sql_like [] s \<longleftrightarrow> s = []"
| "sql_like (c # p) s \<longleftrightarrow>
     (if c = CHR ''!'' then
        (case p of [] \<Rightarrow> False | d # q \<Rightarrow> (case s of [] \<Rightarrow> False | e # t \<Rightarrow> e = d \<and> sql_like q t))
      else if c = CHR ''%'' then list_ex (\<lambda>k. sql_like p (drop k s)) [0..<Suc (length s)]
      else if c = CHR ''_'' then s \<noteq> [] \<and> sql_like p (drop (snd (decode_rune s)) s)
      else (case s of [] \<Rightarrow> False | e # t \<Rightarrow> e = c \<and> sql_like p t))"

definition like_query :: "string \<Rightarrow> string \<Rightarrow> bool" where
  "like_query query column \<longleftrightarrow> sql_like (nocase (''%'' @ escapeLikePattern query @ ''%'')) (nocase column)"

text \<open>\<open>ORDER BY a.email, a.id\<close> with the column's collation.\<close>

definition by_email :: "account list \<Rightarrow> account list" where
  "by_email as = sort_key (\<lambda>a. (nocase (ac_Email a), ac_ID a)) as"

definition page :: "int \<Rightarrow> int \<Rightarrow> 'a list \<Rightarrow> 'a list" where
  "page limit offset xs = take (nat limit) (drop (nat offset) xs)"

definition account_matches :: "string \<Rightarrow> account \<Rightarrow> bool" where
  "account_matches query a \<longleftrightarrow>
     query = [] \<or> like_query query (ac_Email a) \<or> like_query query (ac_Name a) \<or> like_query query (ac_EmailSuffix a)"

definition ListAccountsPage :: "store_db \<Rightarrow> account_filter \<Rightarrow> store_error + account list \<times> nat" where
  "ListAccountsPage db f =
     (if \<not> validateListPage (af_PageLimit f) (af_PageOffset f) then Inl StInvalid
      else (let rows = filter (account_matches (clean_text (af_Query f))) (sb_accounts db) in
        Inr (map (scanAccount db) (page (af_PageLimit f) (af_PageOffset f) (by_email rows)), length rows)))"

definition listAccounts :: "store_db \<Rightarrow> bool \<Rightarrow> account list" where
  "listAccounts db enabledOnly =
     map (scanAccount db) (by_email (filter (\<lambda>a. enabledOnly \<longrightarrow> ac_Enabled a) (sb_accounts db)))"

end
