(* ===== verification/StoreAliases.thy ===== *)
theory StoreAliases
  imports StoreCredentials StoreAccounts LatestMail
begin

section \<open>Aliases (internal/store/alias.go, pending\_alias.go, binding.go)\<close>

text \<open>
  Creating, editing, listing and deleting aliases, their one-time API keys, and the bindings that the
  public interfaces look up. Every operation that changes which aliases of an account are enabled
  advances the account version, so that a synchronisation that read the old set is dropped; enabling
  an alias also drops the cursor, so that mail already seen for other aliases is read again for it.
\<close>

subsection \<open>Inserting a row\<close>

definition address_taken :: "store_db \<Rightarrow> string \<Rightarrow> bool" where
  "address_taken db address \<longleftrightarrow> list_ex (\<lambda>a. nocase (a_Address a) = nocase address) (sb_aliases db)"

text \<open>A new row; the columns that no \<open>INSERT\<close> sets have the defaults of the schema.\<close>

definition alias_row ::
  "store_env \<Rightarrow> int \<Rightarrow> string \<Rightarrow> string \<Rightarrow> int option \<Rightarrow> string \<Rightarrow> string \<Rightarrow> string \<Rightarrow> bool \<Rightarrow> string \<Rightarrow> string \<Rightarrow>
     timestamp option \<Rightarrow> timestamp option \<Rightarrow> mail_alias" where
  "alias_row env account address label grp hash prefix mode enabled status err syncedAt accessedAt =
     \<lparr>a_ID = 0, a_AccountID = account, a_AccountEmail = [], a_Address = address, a_Label = label, a_GroupID = grp,
      a_GroupName = [], a_APIKeyHash = hash, a_APIKeyPrefix = prefix, a_CredentialMode = mode,
      a_CredentialCiphertext = [], a_IMAPPasswordHash = [], a_OAuthClientID = [], a_RefreshTokenHash = [],
      a_CredentialVersion = 0, a_MailboxUIDValidity = 1, a_MailboxUIDNext = 1, a_Enabled = enabled,
      a_LastSyncStatus = status, a_LastSyncError = err, a_LastSyncedAt = syncedAt, a_LastAccessedAt = accessedAt,
      a_CreatedAt = stamp env, a_UpdatedAt = stamp env, a_LatestReceivedAt = None\<rparr>"

definition insert_alias :: "mail_alias \<Rightarrow> store_db \<Rightarrow> store_error + int \<times> store_db" where
  "insert_alias row db =
     (let i = sb_next_alias db in
      if find_by ac_ID (a_AccountID row) (sb_accounts db) = None \<or> address_taken db (a_Address row) \<or>
         \<not> alias_keys_ok db i (a_APIKeyHash row) []
      then Inl StConstraint
      else Inr (i, (set_aliases (\<lambda>as. as @ [row\<lparr>a_ID := i\<rparr>]) db)\<lparr>sb_next_alias := i + 1\<rparr>))"

text \<open>The effect of enabling an alias on the synchronisation of its account.\<close>

definition publish_enabled :: "store_env \<Rightarrow> int \<Rightarrow> timestamp \<Rightarrow> store_db \<Rightarrow> store_error + store_db" where
  "publish_enabled env account version db = bumpAccountVersionTx env account version (reset_cursor account db)"

subsection \<open>Creation\<close>

definition provisionalAliasHash :: "store_env \<Rightarrow> string \<Rightarrow> string \<Rightarrow> store_error + string" where
  "provisionalAliasHash env address existing =
     (if existing \<noteq> [] then Inr existing else of_option StEntropy (en_provisional env address))"

definition aliasCredentialMode :: "mail_alias \<Rightarrow> store_error + string" where
  "aliasCredentialMode a =
     (let mode = trim_space (a_CredentialMode a) in
      if mode = [] then Inr (if a_APIKeyHash a \<noteq> [] then AliasCredentialModeLegacy else AliasCredentialModeV2)
      else if mode = AliasCredentialModeV2 then Inr AliasCredentialModeV2
      else if mode = AliasCredentialModeLegacy
        then (if length (a_APIKeyHash a) \<noteq> 32 then Inl StInvalid else Inr AliasCredentialModeLegacy)
      else Inl StInvalid)"

definition requested_group :: "store_db \<Rightarrow> int option \<Rightarrow> store_error + unit" where
  "requested_group db g =
     (case g of None \<Rightarrow> Inr () | Some i \<Rightarrow> if i < 1 then Inl StInvalid else lockMailGroupForMove db i)"

definition create_alias_tx :: "store_env \<Rightarrow> mail_alias \<Rightarrow> store_db \<Rightarrow> store_error + int \<times> store_db" where
  "create_alias_tx env req db =
     bind_res (aliasCredentialMode req) (\<lambda>mode.
     bind_res (require (\<not> (mode = AliasCredentialModeV2 \<and> en_factory env = None)) StUnconfigured) (\<lambda>_.
     bind_res (provisionalAliasHash env (a_Address req) (a_APIKeyHash req)) (\<lambda>hash.
       (let err = clean_text (a_LastSyncError req) in
        bind_res (require (\<not> (\<not> a_Enabled req \<and> err = AppleAliasConfirmationPending)) StConfirmationPending) (\<lambda>_.
        bind_res (lockAccount db (a_AccountID req)) (\<lambda>version.
        bind_res (if a_Enabled req then requireEnabledAliasCapacity db (a_AccountID req) else Inr ()) (\<lambda>_.
        bind_res (requested_group db (a_GroupID req)) (\<lambda>_.
        bind_res (insert_alias (alias_row env (a_AccountID req) (NormalizeEmail (sanitizePostgresText (a_Address req)))
               (clean_text (a_Label req)) (a_GroupID req) hash (clean_text (a_APIKeyPrefix req)) mode (a_Enabled req)
               (status_or_pending (a_LastSyncStatus req)) err (nullableTimestamp (a_LastSyncedAt req))
               (nullableTimestamp (a_LastAccessedAt req))) db) (\<lambda>(i, db1).
        bind_res (if en_factory env \<noteq> None \<and> mode = AliasCredentialModeV2
                  then bind_res (installGeneratedAliasCredentialsTx env i 1 True db1) (\<lambda>(m, db2). Inr db2)
                  else Inr db1) (\<lambda>db2.
        bind_res (if a_Enabled req then publish_enabled env (a_AccountID req) version db2 else Inr db2) (\<lambda>db3.
          Inr (i, db3))))))))))))"

definition CreateAlias :: "store_env \<Rightarrow> mail_alias \<Rightarrow> store_db \<Rightarrow> (store_error + mail_alias) \<times> store_db" where
  "CreateAlias env req db =
     (case commit env db (create_alias_tx env req db) of
        (Inl e, db') \<Rightarrow> (Inl e, db')
      | (Inr i, db') \<Rightarrow> (GetAlias db' i, db'))"

subsection \<open>State changes\<close>

text \<open>
  \<open>updateAliasState\<close>: the label, the enabled flag and the group are each optional; \<open>grp\<close> is \<open>None\<close>
  when the group is left alone.
\<close>

definition edit_alias ::
  "store_env \<Rightarrow> string option \<Rightarrow> bool option \<Rightarrow> int option option \<Rightarrow> bool \<Rightarrow> bool \<Rightarrow> mail_alias \<Rightarrow> mail_alias" where
  "edit_alias env label enabled grp reenabled clearMarker a =
     a\<lparr>a_Label := (case label of None \<Rightarrow> a_Label a | Some l \<Rightarrow> clean_text l),
       a_Enabled := (case enabled of None \<Rightarrow> a_Enabled a | Some b \<Rightarrow> b),
       a_GroupID := (case grp of None \<Rightarrow> a_GroupID a | Some g \<Rightarrow> g),
       a_LastSyncStatus := (if reenabled then SyncStatusPending else a_LastSyncStatus a),
       a_LastSyncError := (if reenabled \<or> clearMarker then [] else a_LastSyncError a),
       a_LastSyncedAt := (if reenabled then None else a_LastSyncedAt a),
       a_UpdatedAt := stamp env\<rparr>"

definition update_alias_tx ::
  "store_env \<Rightarrow> int \<Rightarrow> string option \<Rightarrow> bool option \<Rightarrow> int option option \<Rightarrow> store_db \<Rightarrow> store_error + unit \<times> store_db" where
  "update_alias_tx env i label enabled grp db =
     bind_res (require (\<not> (case grp of Some (Some g) \<Rightarrow> g < 1 | _ \<Rightarrow> False)) StInvalid) (\<lambda>_.
     bind_res (of_option StNotFound (find_by a_ID i (sb_aliases db))) (\<lambda>a0.
     bind_res (lockAccount db (a_AccountID a0)) (\<lambda>version.
     bind_res (of_option StNotFound (find_alias_of db i (a_AccountID a0))) (\<lambda>a.
     bind_res (case grp of Some (Some g) \<Rightarrow> lockMailGroupForMove db g | _ \<Rightarrow> Inr ()) (\<lambda>_.
       if awaiting_confirmation a \<and> (label \<noteq> None \<or> enabled = Some True) then Inl StConfirmationPending
       else if enabled = Some True \<and> isAppleDirectoryUnavailable (a_LastSyncError a) then Inl StAppleUnavailable
       else (let target = (case enabled of None \<Rightarrow> a_Enabled a | Some b \<Rightarrow> b);
                 reenabled = (target \<and> \<not> a_Enabled a);
                 clearMarker = (enabled \<noteq> None \<and> \<not> target \<and> a_Enabled a \<and>
                    a_LastSyncError a = AppleAliasConfirmationPending) in
         bind_res (if reenabled then requireEnabledAliasCapacity db (a_AccountID a0) else Inr ()) (\<lambda>_.
         bind_res (if target \<noteq> a_Enabled a then bumpAccountVersionTx env (a_AccountID a0) version db else Inr db) (\<lambda>db1.
           (let db2 = set_aliases (update_where (\<lambda>x. a_ID x = i) (edit_alias env label enabled grp reenabled clearMarker)) db1 in
            Inr ((), if reenabled then reset_cursor (a_AccountID a0) db2 else db2))))))))))"

definition updateAliasState ::
  "store_env \<Rightarrow> int \<Rightarrow> string option \<Rightarrow> bool option \<Rightarrow> int option option \<Rightarrow> store_db \<Rightarrow> (store_error + unit) \<times> store_db" where
  "updateAliasState env i label enabled grp db = commit env db (update_alias_tx env i label enabled grp db)"

definition then_get :: "int \<Rightarrow> (store_error + unit) \<times> store_db \<Rightarrow> (store_error + mail_alias) \<times> store_db" where
  "then_get i r = (case r of (Inl e, db) \<Rightarrow> (Inl e, db) | (Inr u, db) \<Rightarrow> (GetAlias db i, db))"

definition UpdateAlias :: "store_env \<Rightarrow> mail_alias \<Rightarrow> store_db \<Rightarrow> (store_error + mail_alias) \<times> store_db" where
  "UpdateAlias env req db =
     then_get (a_ID req) (updateAliasState env (a_ID req) (Some (trim_space (a_Label req))) (Some (a_Enabled req)) None db)"

definition SetAliasEnabled :: "store_env \<Rightarrow> int \<Rightarrow> bool \<Rightarrow> store_db \<Rightarrow> (store_error + unit) \<times> store_db" where
  "SetAliasEnabled env i enabled db = updateAliasState env i None (Some enabled) None db"

definition UpdateAliasAdminState ::
  "store_env \<Rightarrow> int \<Rightarrow> bool option \<Rightarrow> int option option \<Rightarrow> store_db \<Rightarrow> (store_error + mail_alias) \<times> store_db" where
  "UpdateAliasAdminState env i enabled grp db =
     (if enabled = None \<and> grp = None then (Inl StInvalid, db)
      else then_get i (updateAliasState env i None enabled grp db))"

definition delete_alias_tx :: "store_env \<Rightarrow> int \<Rightarrow> store_db \<Rightarrow> store_error + unit \<times> store_db" where
  "delete_alias_tx env i db =
     bind_res (of_option StNotFound (find_by a_ID i (sb_aliases db))) (\<lambda>a0.
     bind_res (lockAccount db (a_AccountID a0)) (\<lambda>version.
     bind_res (of_option StNotFound (find_alias_of db i (a_AccountID a0))) (\<lambda>a.
       (let db1 = delete_aliases (\<lambda>x. a_ID x = i \<and> a_AccountID x = a_AccountID a0) db in
        bind_res (if a_Enabled a then bumpAccountVersionTx env (a_AccountID a0) version db1 else Inr db1) (\<lambda>db2.
          Inr ((), db2))))))"

definition DeleteAlias :: "store_env \<Rightarrow> int \<Rightarrow> store_db \<Rightarrow> (store_error + unit) \<times> store_db" where
  "DeleteAlias env i db = commit env db (delete_alias_tx env i db)"

definition TouchAliasAccess :: "store_env \<Rightarrow> int \<Rightarrow> time \<Rightarrow> store_db \<Rightarrow> (store_error + unit) \<times> store_db" where
  "TouchAliasAccess env i accessedAt db =
     commit env db
       (if find_by a_ID i (sb_aliases db) = None then Inl StNotFound
        else Inr ((), set_aliases (update_where (\<lambda>a. a_ID a = i)
               (\<lambda>a. a\<lparr>a_LastAccessedAt := Some (to_timestamp accessedAt), a_UpdatedAt := stamp env\<rparr>)) db))"

text \<open>The reserved marker is neither set on a disabled alias nor overwritten there.\<close>

definition status_writable :: "string \<Rightarrow> mail_alias \<Rightarrow> bool" where
  "status_writable err a \<longleftrightarrow>
     \<not> awaiting_confirmation a \<and> (a_Enabled a \<or> trim_space err \<noteq> AppleAliasConfirmationPending)"

definition UpdateAliasSyncStatus ::
  "store_env \<Rightarrow> int \<Rightarrow> string \<Rightarrow> string \<Rightarrow> time option \<Rightarrow> store_db \<Rightarrow> (store_error + unit) \<times> store_db" where
  "UpdateAliasSyncStatus env i status syncError syncedAt db =
     (let err = sanitizePostgresText syncError in
      commit env db
        (case find_by a_ID i (sb_aliases db) of
           None \<Rightarrow> Inl StNotFound
         | Some a \<Rightarrow>
             if \<not> status_writable err a then Inl StConfirmationPending
             else Inr ((), set_aliases (update_where (\<lambda>x. a_ID x = i)
                    (\<lambda>x. x\<lparr>a_LastSyncStatus := sanitizePostgresText status, a_LastSyncError := err,
                           a_LastSyncedAt := nullableTimestamp syncedAt, a_UpdatedAt := stamp env\<rparr>)) db)))"

subsection \<open>Listing\<close>

record alias_filter =
  lf_AccountID :: "int option"
  lf_GroupID :: "int option"
  lf_Ungrouped :: bool
  lf_WithLatestMail :: bool
  lf_WithoutLatestMail :: bool
  lf_Query :: string
  lf_Limit :: int
  lf_Offset :: int

definition filter_valid :: "alias_filter \<Rightarrow> bool" where
  "filter_valid f \<longleftrightarrow>
     validateListPage (lf_Limit f) (lf_Offset f) \<and> \<not> (lf_WithLatestMail f \<and> lf_WithoutLatestMail f) \<and>
     \<not> (case lf_AccountID f of None \<Rightarrow> False | Some i \<Rightarrow> i < 1) \<and>
     \<not> (case lf_GroupID f of None \<Rightarrow> False | Some g \<Rightarrow> g < 1) \<and> \<not> (lf_Ungrouped f \<and> lf_GroupID f \<noteq> None)"

definition has_mail :: "store_db \<Rightarrow> mail_alias \<Rightarrow> bool" where
  "has_mail db a \<longleftrightarrow> list_ex (\<lambda>l. lk_alias_id l = a_ID a) (md_links (sb_mail db))"

definition alias_matches :: "store_db \<Rightarrow> alias_filter \<Rightarrow> mail_alias \<Rightarrow> bool" where
  "alias_matches db f a \<longleftrightarrow>
     (case lf_AccountID f of None \<Rightarrow> True | Some i \<Rightarrow> a_AccountID a = i) \<and>
     (case lf_GroupID f of None \<Rightarrow> True | Some g \<Rightarrow> a_GroupID a = Some g) \<and>
     (lf_Ungrouped f \<longrightarrow> a_GroupID a = None) \<and>
     (lf_WithLatestMail f \<longrightarrow> has_mail db a) \<and> (lf_WithoutLatestMail f \<longrightarrow> \<not> has_mail db a) \<and>
     (let query = clean_text (lf_Query f) in
      query = [] \<or> like_query query (a_Address a) \<or> like_query query (a_Label a))"

definition by_address :: "mail_alias list \<Rightarrow> mail_alias list" where
  "by_address as = sort_key (\<lambda>a. (nocase (a_Address a), a_ID a)) as"

text \<open>The count reads \<open>aliases\<close> alone, the page its join.\<close>

definition ListAliasesPage :: "store_db \<Rightarrow> alias_filter \<Rightarrow> store_error + mail_alias list \<times> nat" where
  "ListAliasesPage db f =
     (if \<not> filter_valid f then Inl StInvalid
      else bind_res (map_res scanAlias (page (lf_Limit f) (lf_Offset f) (by_address (filter (alias_matches db f) (joined_aliases db)))))
             (\<lambda>items. Inr (items, length (filter (alias_matches db f) (sb_aliases db)))))"

definition listAliases :: "store_db \<Rightarrow> bool \<Rightarrow> int list \<Rightarrow> store_error + mail_alias list" where
  "listAliases db enabledOnly accountIDs =
     (if 1 < length accountIDs then Inl StInvalid
      else map_res scanAlias (by_address (filter (\<lambda>a. (accountIDs = [] \<or> a_AccountID a = hd accountIDs) \<and>
             (enabledOnly \<longrightarrow> a_Enabled a)) (joined_aliases db))))"

definition ListAliases :: "store_db \<Rightarrow> int list \<Rightarrow> store_error + mail_alias list" where
  "ListAliases db accountIDs = listAliases db False accountIDs"

definition ListEnabledAliasesByAccount :: "store_db \<Rightarrow> int \<Rightarrow> store_error + mail_alias list" where
  "ListEnabledAliasesByAccount db account = listAliases db True [account]"

subsection \<open>One-time API keys\<close>

definition visible_keys :: "store_db \<Rightarrow> int \<Rightarrow> (mail_alias \<times> pending_key) list" where
  "visible_keys db account =
     concat (map (\<lambda>a. if a_AccountID a = account \<and> \<not> awaiting_confirmation a
                     then (case find_pending db (a_ID a) of None \<Rightarrow> [] | Some p \<Rightarrow> [(a, p)]) else []) (joined_aliases db))"

definition scanPendingAliasAPIKey :: "mail_alias \<times> pending_key \<Rightarrow> store_error + pending_alias_key" where
  "scanPendingAliasAPIKey r =
     bind_res (scanAlias (fst r)) (\<lambda>a.
       Inr \<lparr>pa_Alias = a, pa_APIKeyCiphertext = pk_Ciphertext (snd r), pa_CreatedAt = time_of_timestamp (pk_CreatedAt (snd r))\<rparr>)"

definition ListPendingAliasAPIKeysByAccount :: "store_db \<Rightarrow> int \<Rightarrow> store_error + pending_alias_key list" where
  "ListPendingAliasAPIKeysByAccount db account =
     (if account < 1 then Inl StInvalid
      else map_res scanPendingAliasAPIKey (sort_key (\<lambda>r. (pk_CreatedAt (snd r), a_ID (fst r))) (visible_keys db account)))"

definition CountPendingAliasAPIKeysByAccount :: "store_db \<Rightarrow> int \<Rightarrow> store_error + nat" where
  "CountPendingAliasAPIKeysByAccount db account =
     (if account < 1 then Inl StInvalid
      else Inr (count_where (\<lambda>p. list_ex (\<lambda>a. a_ID a = pk_AliasID p \<and> a_AccountID a = account \<and> \<not> awaiting_confirmation a)
             (sb_aliases db)) (sb_pending db)))"

definition DeletePendingAliasAPIKeys :: "store_env \<Rightarrow> int \<Rightarrow> int list \<Rightarrow> store_db \<Rightarrow> (store_error + unit) \<times> store_db" where
  "DeletePendingAliasAPIKeys env account ids db =
     (if account < 1 then (Inl StInvalid, db)
      else if ids = [] then (Inr (), db)
      else if list_ex (\<lambda>i. i < 1) ids then (Inl StInvalid, db)
      else commit env db (Inr ((), delete_pending (\<lambda>p. pk_AliasID p \<in> set ids \<and>
             list_ex (\<lambda>a. a_ID a = pk_AliasID p \<and> a_AccountID a = account \<and> \<not> awaiting_confirmation a) (sb_aliases db)) db)))"

subsection \<open>Bindings\<close>

record mailbox_binding =
  bi_Alias :: mail_alias
  bi_Account :: account
  bi_Message :: "latest_mail option"

definition binding_of :: "store_db \<Rightarrow> store_error + mail_alias \<Rightarrow> store_error + mailbox_binding" where
  "binding_of db r =
     bind_res r (\<lambda>a. bind_res (GetAccount db (a_AccountID a)) (\<lambda>acc.
       Inr \<lparr>bi_Alias = a, bi_Account = acc, bi_Message = None\<rparr>))"

text \<open>
  The legacy lookup also returns the row of \<open>latest_messages\<close>; \<open>parse\<close> and \<open>parse_att\<close> read its JSON columns.
\<close>

definition GetMailboxBindingByAPIKeyHash ::
  "(string \<Rightarrow> mail_address list option) \<Rightarrow> (string \<Rightarrow> attachment list option) \<Rightarrow> store_db \<Rightarrow> string \<Rightarrow>
     store_error + mailbox_binding" where
  "GetMailboxBindingByAPIKeyHash parse parse_att db hash =
     (if hash = [] then Inl StNotFound
      else bind_res (binding_of db (GetAliasByAPIKeyHash db hash)) (\<lambda>b.
        (case GetLatestMessage parse parse_att (sb_mail db) (a_ID (bi_Alias b)) of
           Inr m \<Rightarrow> Inr (b\<lparr>bi_Message := Some m\<rparr>)
         | Inl e \<Rightarrow> if e = NotFound then Inr b else Inl StCorrupt)))"

definition GetMailboxBindingByOAuthClientID :: "store_db \<Rightarrow> string \<Rightarrow> store_error + mailbox_binding" where
  "GetMailboxBindingByOAuthClientID db client = binding_of db (GetAliasByOAuthClientID db client)"

definition GetMailboxBindingByIMAPPasswordHash :: "store_db \<Rightarrow> string \<Rightarrow> store_error + mailbox_binding" where
  "GetMailboxBindingByIMAPPasswordHash db hash = binding_of db (GetAliasByIMAPPasswordHash db hash)"

definition GetMailboxBindingByAddress :: "store_db \<Rightarrow> string \<Rightarrow> store_error + mailbox_binding" where
  "GetMailboxBindingByAddress db address = binding_of db (GetAliasByAddress db address)"

end
