(* ===== verification/StoreAutoAlias.thy ===== *)
theory StoreAutoAlias
  imports StoreAliases
begin

section \<open>Automatically created aliases (internal/store/auto\_alias.go, auto\_alias\_discard.go, apple\_session.go)\<close>

text \<open>
  An alias that the creation workflow has reserved at Apple is stored with its one-time API key. Until
  Apple's directory shows it, it stays disabled under the marker \<open>APPLE_ALIAS_CONFIRMATION_PENDING\<close>,
  which reserves its place below the limit. Confirmation enables it, discarding removes it; both
  insist on the marker and on the pending key, so that neither touches an alias already published.
\<close>

subsection \<open>The Apple session\<close>

definition put_session :: "apple_session \<Rightarrow> store_db \<Rightarrow> store_db" where
  "put_session row db =
     db\<lparr>sb_apple := upsert_by aw_AccountID row (\<lambda>old. row\<lparr>aw_CreatedAt := aw_CreatedAt old\<rparr>) (sb_apple db)\<rparr>"

definition saveAppleWebSessionTx :: "store_env \<Rightarrow> apple_session \<Rightarrow> store_db \<Rightarrow> store_db" where
  "saveAppleWebSessionTx env w db =
     (let validatedAt = (case aw_LastValidatedAt w of None \<Rightarrow> en_now env
                         | Some t \<Rightarrow> if is_zero_time t then en_now env else t) in
      put_session (w\<lparr>aw_AppleID := clean_text (aw_AppleID w), aw_Region := clean_text (aw_Region w),
           aw_LastValidatedAt := Some (to_timestamp validatedAt), aw_CreatedAt := stamp env, aw_UpdatedAt := stamp env\<rparr>) db)"

definition scanAppleWebSession :: "apple_session \<Rightarrow> apple_session" where
  "scanAppleWebSession w =
     w\<lparr>aw_LastValidatedAt := map_option time_of_timestamp (aw_LastValidatedAt w),
       aw_CreatedAt := time_of_timestamp (aw_CreatedAt w), aw_UpdatedAt := time_of_timestamp (aw_UpdatedAt w)\<rparr>"

definition GetAppleWebSession :: "store_db \<Rightarrow> int \<Rightarrow> store_error + apple_session" where
  "GetAppleWebSession db account =
     (case find_by aw_AccountID account (sb_apple db) of None \<Rightarrow> Inl StNotFound | Some w \<Rightarrow> Inr (scanAppleWebSession w))"

definition UpsertAppleWebSession :: "store_env \<Rightarrow> apple_session \<Rightarrow> store_db \<Rightarrow> (store_error + apple_session) \<times> store_db" where
  "UpsertAppleWebSession env w db =
     (let appleID = clean_text (aw_AppleID w) in
      if aw_AccountID w < 1 \<or> trim_space (aw_Ciphertext w) = [] \<or> appleID = [] then (Inl StInvalid, db)
      else commit env db
        (bind_res (lockAccount db (aw_AccountID w)) (\<lambda>_.
         bind_res (readAccountMailboxStateTx db (aw_AccountID w)) (\<lambda>state.
           if ms_MailboxType state \<noteq> MailboxTypeICloud then Inl StICloudRequired
           else (let db' = put_session (w\<lparr>aw_AppleID := appleID, aw_Region := clean_text (aw_Region w),
                      aw_LastValidatedAt := nullableTimestamp (aw_LastValidatedAt w),
                      aw_CreatedAt := stamp env, aw_UpdatedAt := stamp env\<rparr>) db in
             bind_res (GetAppleWebSession db' (aw_AccountID w)) (\<lambda>saved. Inr (saved, db')))))))"

definition DeleteAppleWebSession :: "store_env \<Rightarrow> int \<Rightarrow> store_db \<Rightarrow> (store_error + unit) \<times> store_db" where
  "DeleteAppleWebSession env account db =
     commit env db
       (if find_by aw_AccountID account (sb_apple db) = None then Inl StNotFound
        else Inr ((), drop_session account db))"

subsection \<open>Storing a candidate\<close>

definition CountEnabledAliasesByAccount :: "store_db \<Rightarrow> int \<Rightarrow> nat" where
  "CountEnabledAliasesByAccount db account =
     count_where (\<lambda>a. a_AccountID a = account \<and> a_Enabled a) (sb_aliases db)"

definition add_pending :: "store_env \<Rightarrow> int \<Rightarrow> string \<Rightarrow> store_db \<Rightarrow> store_error + store_db" where
  "add_pending env i ciphertext db =
     (if find_pending db i \<noteq> None then Inl StConstraint
      else Inr (db\<lparr>sb_pending := sb_pending db @ [\<lparr>pk_AliasID = i, pk_Ciphertext = ciphertext, pk_CreatedAt = stamp env\<rparr>]\<rparr>))"

definition session_complete :: "apple_session \<Rightarrow> bool" where
  "session_complete w \<longleftrightarrow> \<not> (trim_space (aw_Ciphertext w) = [] \<or> trim_space (aw_AppleID w) = [])"

definition icloud_ready :: "store_db \<Rightarrow> int \<Rightarrow> store_error + unit" where
  "icloud_ready db account =
     bind_res (readAccountMailboxStateTx db account) (\<lambda>state.
       if \<not> ms_Enabled state then Inl StAccountDisabled
       else if ms_MailboxType state \<noteq> MailboxTypeICloud then Inl StICloudRequired else Inr ())"

definition candidate_row :: "store_env \<Rightarrow> mail_alias \<Rightarrow> string \<Rightarrow> string \<Rightarrow> mail_alias" where
  "candidate_row env req hash mode =
     alias_row env (a_AccountID req) (NormalizeEmail (sanitizePostgresText (a_Address req))) (clean_text (a_Label req))
       None hash (clean_text (a_APIKeyPrefix req)) mode (a_Enabled req)
       (if a_Enabled req then status_or_pending (a_LastSyncStatus req) else SyncStatusPending)
       (if a_Enabled req then clean_text (a_LastSyncError req) else AppleAliasConfirmationPending)
       (nullableTimestamp (a_LastSyncedAt req)) (nullableTimestamp (a_LastAccessedAt req))"

text \<open>The bundle and the pending key of a candidate: reused from the key, recorded only, or generated.\<close>

definition candidate_credentials ::
  "store_env \<Rightarrow> int \<Rightarrow> mail_alias \<Rightarrow> string \<Rightarrow> store_db \<Rightarrow> store_error + store_db" where
  "candidate_credentials env i req ciphertext db =
     (if ciphertext \<noteq> [] then
        (case en_reuse env of
           Some issuer \<Rightarrow>
             bind_res (installAliasCredentialMaterialTx env i 1 True issuer ciphertext (a_APIKeyHash req) db)
               (add_pending env i ciphertext)
         | None \<Rightarrow> add_pending env i ciphertext db)
      else if en_factory env \<noteq> None
        then bind_res (installGeneratedAliasCredentialsTx env i 1 True db) (\<lambda>(m, db'). Inr db')
      else Inr db)"

definition auto_alias_tx ::
  "store_env \<Rightarrow> apple_session \<Rightarrow> mail_alias \<Rightarrow> string \<Rightarrow> store_db \<Rightarrow> store_error + (mail_alias \<times> apple_session) \<times> store_db" where
  "auto_alias_tx env w req ciphertext db =
     (let account = a_AccountID req in
      bind_res (require (\<not> (account < 1 \<or> aw_AccountID w \<noteq> account)) StInvalid) (\<lambda>_.
      bind_res (require (trim_space (a_Address req) \<noteq> []) StInvalid) (\<lambda>_.
      bind_res (require (session_complete w) StInvalid) (\<lambda>_.
      bind_res (lockAccount db account) (\<lambda>version.
      bind_res (icloud_ready db account) (\<lambda>_.
      bind_res (if a_Enabled req then requireEnabledAliasCapacity db account else Inr ()) (\<lambda>_.
      bind_res (provisionalAliasHash env (a_Address req) (a_APIKeyHash req)) (\<lambda>hash.
        (let db1 = saveAppleWebSessionTx env w db;
             mode = (if ciphertext \<noteq> [] \<and> en_reuse env \<noteq> None then AliasCredentialModeV2 else AliasCredentialModeLegacy) in
         bind_res (insert_alias (candidate_row env req hash mode) db1) (\<lambda>(i, db2).
         bind_res (candidate_credentials env i req ciphertext db2) (\<lambda>db3.
         bind_res (if a_Enabled req then publish_enabled env account version db3 else Inr db3) (\<lambda>db4.
         bind_res (GetAlias db4 i) (\<lambda>created.
         bind_res (GetAppleWebSession db4 account) (\<lambda>saved.
           Inr ((created, saved), db4)))))))))))))))"

definition CreateAliasWithPendingAPIKey ::
  "store_env \<Rightarrow> apple_session \<Rightarrow> mail_alias \<Rightarrow> string \<Rightarrow> store_db \<Rightarrow> (store_error + mail_alias \<times> apple_session) \<times> store_db" where
  "CreateAliasWithPendingAPIKey env w req ciphertext db =
     (if a_APIKeyHash req = [] \<or> trim_space (a_APIKeyPrefix req) = [] then (Inl StInvalid, db)
      else if trim_space ciphertext = [] then (Inl StInvalid, db)
      else commit env db (auto_alias_tx env w req ciphertext db))"

subsection \<open>Confirmation\<close>

text \<open>\<open>ORDER BY p.created_at, al.id LIMIT 1\<close> among the reserved aliases of the account.\<close>

definition GetPendingAutoAliasConfirmation :: "store_db \<Rightarrow> int \<Rightarrow> store_error + pending_alias_key" where
  "GetPendingAutoAliasConfirmation db account =
     (if account < 1 then Inl StInvalid
      else (case sort_key (\<lambda>r. (pk_CreatedAt (snd r), a_ID (fst r)))
                   (concat (map (\<lambda>a. if a_AccountID a = account \<and> awaiting_confirmation a
                       then (case find_pending db (a_ID a) of None \<Rightarrow> [] | Some p \<Rightarrow> [(a, p)]) else []) (joined_aliases db))) of
              [] \<Rightarrow> Inl StNotFound
            | r # _ \<Rightarrow> scanPendingAliasAPIKey r))"

definition requirePendingAutoAliasConfirmationCapacity :: "store_db \<Rightarrow> int \<Rightarrow> store_error + unit" where
  "requirePendingAutoAliasConfirmationCapacity db account =
     require (CountEnabledAliasesByAccount db account < MaxEnabledAliasesPerAccount) StAliasLimit"

definition confirm_row :: "store_env \<Rightarrow> mail_alias \<Rightarrow> mail_alias" where
  "confirm_row env a =
     a\<lparr>a_Enabled := True, a_LastSyncStatus := SyncStatusPending, a_LastSyncError := [], a_LastSyncedAt := None,
       a_UpdatedAt := stamp env\<rparr>"

definition confirm_tx ::
  "store_env \<Rightarrow> apple_session \<Rightarrow> int \<Rightarrow> time \<Rightarrow> store_db \<Rightarrow> store_error + (mail_alias \<times> apple_session) \<times> store_db" where
  "confirm_tx env w i expectedAccountVersion db =
     (let account = aw_AccountID w in
      bind_res (require (\<not> (i < 1 \<or> account < 1)) StInvalid) (\<lambda>_.
      bind_res (require (session_complete w) StInvalid) (\<lambda>_.
      bind_res (lockAccount db account) (\<lambda>version.
      bind_res (icloud_ready db account) (\<lambda>_.
      bind_res (of_option StNotFound (if find_pending db i = None then None else find_alias_of db i account)) (\<lambda>a.
      bind_res (require (\<not> (a_Enabled a \<or> a_LastSyncError a \<noteq> AppleAliasConfirmationPending)) StInvalid) (\<lambda>_.
      bind_res (requirePendingAutoAliasConfirmationCapacity db account) (\<lambda>_.
        (let db1 = saveAppleWebSessionTx env w db;
             db2 = set_aliases (update_where (\<lambda>x. a_ID x = i \<and> a_AccountID x = account \<and> awaiting_confirmation x) (confirm_row env)) db1;
             db3 = (if is_zero_time expectedAccountVersion \<or> version \<noteq> to_timestamp expectedAccountVersion
                    then reset_cursor account db2 else db2) in
         bind_res (bumpAccountVersionTx env account version db3) (\<lambda>db4.
         bind_res (GetAlias db4 i) (\<lambda>confirmed.
         bind_res (GetAppleWebSession db4 account) (\<lambda>saved.
           Inr ((confirmed, saved), db4)))))))))))))"

definition ConfirmPendingAutoAlias ::
  "store_env \<Rightarrow> apple_session \<Rightarrow> int \<Rightarrow> store_db \<Rightarrow> (store_error + mail_alias \<times> apple_session) \<times> store_db" where
  "ConfirmPendingAutoAlias env w i db = commit env db (confirm_tx env w i zero_time db)"

definition ConfirmFreshAutoAlias ::
  "store_env \<Rightarrow> apple_session \<Rightarrow> int \<Rightarrow> time \<Rightarrow> store_db \<Rightarrow> (store_error + mail_alias \<times> apple_session) \<times> store_db" where
  "ConfirmFreshAutoAlias env w i expectedAccountVersion db = commit env db (confirm_tx env w i expectedAccountVersion db)"

subsection \<open>Discarding\<close>

definition discardable :: "store_db \<Rightarrow> int \<Rightarrow> int \<Rightarrow> mail_alias \<Rightarrow> bool" where
  "discardable db account i a \<longleftrightarrow>
     a_ID a = i \<and> a_AccountID a = account \<and> awaiting_confirmation a \<and> find_pending db i \<noteq> None"

definition DiscardPendingAutoAlias :: "store_env \<Rightarrow> int \<Rightarrow> int \<Rightarrow> store_db \<Rightarrow> (store_error + unit) \<times> store_db" where
  "DiscardPendingAutoAlias env account i db =
     (if account < 1 \<or> i < 1 then (Inl StInvalid, db)
      else commit env db
        (bind_res (lockAccount db account) (\<lambda>_.
           if list_ex (discardable db account i) (sb_aliases db)
           then Inr ((), delete_aliases (discardable db account i) db) else Inl StNotFound)))"

end
