(* ===== verification/StoreGroups.thy ===== *)
theory StoreGroups
  imports StoreAliases
begin

section \<open>Mailbox groups and creation schedules (mail\_group.go, alias\_creation\_schedule.go, alias\_deletion\_targets.go)\<close>

text \<open>
  Groups are global categories of aliases. Their names are unique up to the key of
  \<open>mailGroupNameKey\<close>; \<open>nfkc\<close> stands for the normal form of \<open>golang.org/x/text\<close>. Deleting a group
  leaves its aliases ungrouped. A creation schedule is the plan of the automatic creation worker of an
  account; a worker claims a slot by exchanging the plan it read for the next one. The last part reads
  the aliases that a deletion job selects.
\<close>

subsection \<open>Groups\<close>

record mail_group =
  gp_ID :: int
  gp_Name :: string
  gp_AliasCount :: nat
  gp_CreatedAt :: time
  gp_UpdatedAt :: time

definition maxMailGroupNameRunes :: nat where "maxMailGroupNameRunes = 100"

definition normalizeMailGroupName :: "string \<Rightarrow> store_error + string" where
  "normalizeMailGroupName name0 =
     (let name = clean_text name0 in
      if name = [] then Inl StGroupNameRequired
      else if rune_count name > maxMailGroupNameRunes then Inl StGroupNameTooLong else Inr name)"

definition mailGroupNameKey :: "(string \<Rightarrow> string) \<Rightarrow> string \<Rightarrow> string" where
  "mailGroupNameKey nfkc name = to_lower (nfkc (clean_text name))"

definition scanMailGroup :: "store_db \<Rightarrow> group_row \<Rightarrow> mail_group" where
  "scanMailGroup db g =
     \<lparr>gp_ID = mg_ID g, gp_Name = mg_Name g,
      gp_AliasCount = count_where (\<lambda>a. a_GroupID a = Some (mg_ID g)) (sb_aliases db),
      gp_CreatedAt = time_of_timestamp (mg_CreatedAt g), gp_UpdatedAt = time_of_timestamp (mg_UpdatedAt g)\<rparr>"

definition GetMailGroup :: "store_db \<Rightarrow> int \<Rightarrow> store_error + mail_group" where
  "GetMailGroup db i =
     (if i < 1 then Inl StNotFound
      else (case find_by mg_ID i (sb_groups db) of None \<Rightarrow> Inl StNotFound | Some g \<Rightarrow> Inr (scanMailGroup db g)))"

definition GetMailGroupByName :: "(string \<Rightarrow> string) \<Rightarrow> store_db \<Rightarrow> string \<Rightarrow> store_error + mail_group" where
  "GetMailGroupByName nfkc db name =
     (case find_by mg_NameKey (mailGroupNameKey nfkc name) (sb_groups db) of
        None \<Rightarrow> Inl StNotFound | Some g \<Rightarrow> Inr (scanMailGroup db g))"

definition ListMailGroups :: "store_db \<Rightarrow> mail_group list" where
  "ListMailGroups db = map (scanMailGroup db) (sort_key (\<lambda>g. (nocase (mg_Name g), mg_ID g)) (sb_groups db))"

definition name_key_taken :: "store_db \<Rightarrow> int \<Rightarrow> string \<Rightarrow> bool" where
  "name_key_taken db i key \<longleftrightarrow> list_ex (\<lambda>g. mg_ID g \<noteq> i \<and> mg_NameKey g = key) (sb_groups db)"

definition CreateMailGroup :: "(string \<Rightarrow> string) \<Rightarrow> store_env \<Rightarrow> string \<Rightarrow> store_db \<Rightarrow> (store_error + mail_group) \<times> store_db" where
  "CreateMailGroup nfkc env name0 db =
     (case normalizeMailGroupName name0 of
        Inl e \<Rightarrow> (Inl e, db)
      | Inr name \<Rightarrow>
          (let key = mailGroupNameKey nfkc name; i = sb_next_group db in
           case commit env db
                  (if name_key_taken db i key then Inl StGroupNameExists
                   else Inr ((), db\<lparr>sb_groups := sb_groups db @ [\<lparr>mg_ID = i, mg_Name = name, mg_NameKey = key,
                          mg_CreatedAt = stamp env, mg_UpdatedAt = stamp env\<rparr>], sb_next_group := i + 1\<rparr>)) of
             (Inl e, db') \<Rightarrow> (Inl e, db')
           | (Inr u, db') \<Rightarrow> (GetMailGroupByName nfkc db' name, db')))"

definition UpdateMailGroup ::
  "(string \<Rightarrow> string) \<Rightarrow> store_env \<Rightarrow> int \<Rightarrow> string \<Rightarrow> store_db \<Rightarrow> (store_error + mail_group) \<times> store_db" where
  "UpdateMailGroup nfkc env i name0 db =
     (if i < 1 then (Inl StNotFound, db)
      else (case normalizeMailGroupName name0 of
        Inl e \<Rightarrow> (Inl e, db)
      | Inr name \<Rightarrow>
          (let key = mailGroupNameKey nfkc name in
           case commit env db
                  (if find_by mg_ID i (sb_groups db) = None then Inl StNotFound
                   else if name_key_taken db i key then Inl StGroupNameExists
                   else Inr ((), db\<lparr>sb_groups := update_where (\<lambda>g. mg_ID g = i)
                          (\<lambda>g. g\<lparr>mg_Name := name, mg_NameKey := key, mg_UpdatedAt := stamp env\<rparr>) (sb_groups db)\<rparr>)) of
             (Inl e, db') \<Rightarrow> (Inl e, db')
           | (Inr u, db') \<Rightarrow> (GetMailGroup db' i, db'))))"

definition DeleteMailGroup :: "store_env \<Rightarrow> int \<Rightarrow> store_db \<Rightarrow> (store_error + unit) \<times> store_db" where
  "DeleteMailGroup env i db =
     (if i < 1 then (Inl StNotFound, db)
      else commit env db
        (if find_by mg_ID i (sb_groups db) = None then Inl StNotFound
         else Inr ((), (set_aliases (update_where (\<lambda>a. a_GroupID a = Some i)
                (\<lambda>a. a\<lparr>a_GroupID := None, a_UpdatedAt := stamp env\<rparr>)) db)
              \<lparr>sb_groups := delete_where (\<lambda>g. mg_ID g = i) (sb_groups db)\<rparr>)))"

definition move_aliases :: "store_env \<Rightarrow> int list \<Rightarrow> int option \<Rightarrow> store_db \<Rightarrow> store_db" where
  "move_aliases env ids grp db =
     set_aliases (update_where (\<lambda>a. a_ID a \<in> set ids) (\<lambda>a. a\<lparr>a_GroupID := grp, a_UpdatedAt := stamp env\<rparr>)) db"

definition SetAliasGroup :: "store_env \<Rightarrow> int \<Rightarrow> int option \<Rightarrow> store_db \<Rightarrow> (store_error + mail_alias) \<times> store_db" where
  "SetAliasGroup env i grp db =
     (if i < 1 then (Inl StNotFound, db)
      else then_get i (commit env db
        (bind_res (requested_group db grp) (\<lambda>_.
           if find_by a_ID i (sb_aliases db) = None then Inl StNotFound else Inr ((), move_aliases env [i] grp db)))))"

definition SetAliasesGroup :: "store_env \<Rightarrow> int list \<Rightarrow> int option \<Rightarrow> store_db \<Rightarrow> (store_error + unit) \<times> store_db" where
  "SetAliasesGroup env aliasIDs grp db =
     (if aliasIDs = [] \<or> (case grp of None \<Rightarrow> False | Some g \<Rightarrow> g < 1) \<or> list_ex (\<lambda>i. i < 1) aliasIDs then (Inl StInvalid, db)
      else (let ids = remdups aliasIDs in
        commit env db
          (bind_res (requested_group db grp) (\<lambda>_.
             if count_where (\<lambda>a. a_ID a \<in> set ids) (sb_aliases db) \<noteq> length ids then Inl StNotFound
             else Inr ((), move_aliases env ids grp db)))))"

subsection \<open>Creation schedules\<close>

text \<open>\<open>encodePlannedAliasCreationTimes\<close> refuses a zero instant.\<close>

definition planned_ok :: "time list \<Rightarrow> bool" where
  "planned_ok ts \<longleftrightarrow> \<not> list_ex is_zero_time ts"

definition first_planned :: "time list \<Rightarrow> timestamp option" where
  "first_planned ts = (case ts of [] \<Rightarrow> None | t # _ \<Rightarrow> Some (to_timestamp t))"

definition scanAliasCreationSchedule :: "creation_schedule \<Rightarrow> creation_schedule" where
  "scanAliasCreationSchedule c =
     c\<lparr>cs_NextRunAt := map_option time_of_timestamp (cs_NextRunAt c),
       cs_LastAttemptedAt := map_option time_of_timestamp (cs_LastAttemptedAt c),
       cs_LastCreatedAt := map_option time_of_timestamp (cs_LastCreatedAt c),
       cs_CreatedAt := time_of_timestamp (cs_CreatedAt c), cs_UpdatedAt := time_of_timestamp (cs_UpdatedAt c)\<rparr>"

definition GetAliasCreationSchedule :: "store_db \<Rightarrow> int \<Rightarrow> store_error + creation_schedule" where
  "GetAliasCreationSchedule db account =
     (case find_by cs_AccountID account (sb_schedules db) of
        None \<Rightarrow> Inl StNotFound | Some c \<Rightarrow> Inr (scanAliasCreationSchedule c))"

definition ListDueAliasCreationSchedules :: "store_db \<Rightarrow> time \<Rightarrow> creation_schedule list" where
  "ListDueAliasCreationSchedules db dueAt =
     map scanAliasCreationSchedule
       (sort_key (\<lambda>c. (the (cs_NextRunAt c), cs_AccountID c))
         (filter (\<lambda>c. cs_Enabled c \<and> (case cs_NextRunAt c of None \<Rightarrow> False | Some t \<Rightarrow> t \<le> to_timestamp dueAt)) (sb_schedules db)))"

definition EnableAliasCreation ::
  "store_env \<Rightarrow> int \<Rightarrow> time list \<Rightarrow> time \<Rightarrow> store_db \<Rightarrow> (store_error + unit) \<times> store_db" where
  "EnableAliasCreation env account planned now db =
     (if account < 1 \<or> \<not> planned_ok planned then (Inl StInvalid, db)
      else commit env db
        (bind_res (lockAccount db account) (\<lambda>_.
         bind_res (of_option StNotFound (find_by ac_ID account (sb_accounts db))) (\<lambda>a.
           if \<not> ac_Enabled a then Inl StAccountDisabled
           else (let row = \<lparr>cs_AccountID = account, cs_Enabled = True, cs_PlannedAt = planned, cs_NextRunAt = first_planned planned,
                       cs_LastAttemptedAt = None, cs_LastCreatedAt = None, cs_LastAliasAddress = [], cs_LastError = [],
                       cs_CreatedAt = to_timestamp now, cs_UpdatedAt = to_timestamp now\<rparr> in
             Inr ((), db\<lparr>sb_schedules := upsert_by cs_AccountID row
                  (\<lambda>old. old\<lparr>cs_Enabled := True, cs_PlannedAt := planned, cs_NextRunAt := first_planned planned,
                           cs_LastError := [], cs_UpdatedAt := to_timestamp now\<rparr>) (sb_schedules db)\<rparr>))))))"

definition DisableAliasCreation :: "store_env \<Rightarrow> int \<Rightarrow> time \<Rightarrow> store_db \<Rightarrow> (store_error + unit) \<times> store_db" where
  "DisableAliasCreation env account now db =
     (if account < 1 then (Inl StInvalid, db)
      else commit env db (Inr ((), stop_schedule (to_timestamp now) account db)))"

text \<open>The compare-and-swap of a plan; \<open>claim\<close> also records the attempt. The result says whether it won.\<close>

definition plan_expected :: "int \<Rightarrow> time \<Rightarrow> creation_schedule \<Rightarrow> bool" where
  "plan_expected account expectedNext c \<longleftrightarrow>
     cs_AccountID c = account \<and> cs_Enabled c \<and>
     cs_NextRunAt c = (if is_zero_time expectedNext then None else Some (to_timestamp expectedNext))"

definition casAliasCreationPlan ::
  "store_env \<Rightarrow> int \<Rightarrow> time \<Rightarrow> time list \<Rightarrow> time \<Rightarrow> bool \<Rightarrow> store_db \<Rightarrow> (store_error + bool) \<times> store_db" where
  "casAliasCreationPlan env account expectedNext planned at' claim db =
     (if \<not> planned_ok planned then (Inl StInvalid, db)
      else commit env db
        (Inr (count_where (plan_expected account expectedNext) (sb_schedules db) = 1,
              db\<lparr>sb_schedules := update_where (plan_expected account expectedNext)
                (\<lambda>c. c\<lparr>cs_PlannedAt := planned, cs_NextRunAt := first_planned planned, cs_UpdatedAt := to_timestamp at',
                       cs_LastAttemptedAt := (if claim then Some (to_timestamp at') else cs_LastAttemptedAt c)\<rparr>)
                (sb_schedules db)\<rparr>)))"

definition RescheduleAliasCreation ::
  "store_env \<Rightarrow> int \<Rightarrow> time \<Rightarrow> time list \<Rightarrow> time \<Rightarrow> store_db \<Rightarrow> (store_error + bool) \<times> store_db" where
  "RescheduleAliasCreation env account expectedNext planned now db =
     casAliasCreationPlan env account expectedNext planned now False db"

definition ClaimAliasCreation ::
  "store_env \<Rightarrow> int \<Rightarrow> time \<Rightarrow> time list \<Rightarrow> time \<Rightarrow> store_db \<Rightarrow> (store_error + bool) \<times> store_db" where
  "ClaimAliasCreation env account expectedNext planned attemptedAt db =
     casAliasCreationPlan env account expectedNext planned attemptedAt True db"

definition update_schedule ::
  "store_env \<Rightarrow> int \<Rightarrow> (creation_schedule \<Rightarrow> creation_schedule) \<Rightarrow> store_db \<Rightarrow> (store_error + unit) \<times> store_db" where
  "update_schedule env account f db =
     commit env db
       (if list_ex (\<lambda>c. cs_AccountID c = account \<and> cs_Enabled c) (sb_schedules db)
        then Inr ((), db\<lparr>sb_schedules := update_where (\<lambda>c. cs_AccountID c = account \<and> cs_Enabled c) f (sb_schedules db)\<rparr>)
        else Inl StNotFound)"

definition RecordAliasCreationSuccess ::
  "store_env \<Rightarrow> int \<Rightarrow> time \<Rightarrow> string \<Rightarrow> store_db \<Rightarrow> (store_error + unit) \<times> store_db" where
  "RecordAliasCreationSuccess env account attemptedAt address =
     update_schedule env account
       (\<lambda>c. c\<lparr>cs_LastAttemptedAt := Some (to_timestamp attemptedAt), cs_LastCreatedAt := Some (to_timestamp attemptedAt),
              cs_LastAliasAddress := clean_text address, cs_LastError := [], cs_UpdatedAt := stamp env\<rparr>)"

definition RecordAliasCreationFailure ::
  "store_env \<Rightarrow> int \<Rightarrow> time \<Rightarrow> string \<Rightarrow> store_db \<Rightarrow> (store_error + unit) \<times> store_db" where
  "RecordAliasCreationFailure env account attemptedAt message0 =
     (let cleaned = clean_text message0;
          message = (if length (runes cleaned) > 240 then string_of_runes (take 240 (runes cleaned)) else cleaned) in
      update_schedule env account
        (\<lambda>c. c\<lparr>cs_LastAttemptedAt := Some (to_timestamp attemptedAt), cs_LastError := message, cs_UpdatedAt := stamp env\<rparr>))"

subsection \<open>The selection of a deletion job\<close>

definition maxDeletionSelection :: nat where "maxDeletionSelection = 1000"

definition GetAliasesByIDs :: "store_db \<Rightarrow> int list \<Rightarrow> store_error + (int \<rightharpoonup> mail_alias)" where
  "GetAliasesByIDs db ids =
     (if ids = [] then Inr (\<lambda>_. None)
      else if length ids > maxDeletionSelection \<or> list_ex (\<lambda>i. i < 1) ids \<or> \<not> distinct ids then Inl StInvalid
      else bind_res (map_res scanAlias (filter (\<lambda>a. a_ID a \<in> set ids) (joined_aliases db))) (\<lambda>as.
             if card (a_ID ` set as) \<noteq> length ids then Inl StNotFound
             else Inr (map_of (rev (map (\<lambda>a. (a_ID a, a)) as)))))"

end
