(* ===== verification/StoreImport.thy ===== *)
theory StoreImport
  imports StoreAliases
begin

section \<open>Importing aliases (internal/store/alias\_import.go)\<close>

text \<open>
  One transaction that adds the aliases of a batch that the account does not have yet. An address of
  another account rejects the whole batch. With a complete Apple directory the import also reconciles:
  local aliases that the directory no longer contains are deleted and audited, inactive ones are
  disabled, and active ones lose their unavailability marker without being enabled. New active aliases
  are enabled as long as the account's limit has room.
\<close>

subsection \<open>Batches and results\<close>

record import_candidate =
  ic_Address :: string
  ic_Label :: string
  ic_APIKeyHash :: string
  ic_APIKeyPrefix :: string
  ic_Active :: bool

record import_conflict =
  cf_Address :: string
  cf_ExistingAliasID :: int
  cf_ExistingAccountID :: int
  cf_ExistingAccountEmail :: string

record import_result =
  ir_Created :: "mail_alias list"
  ir_Existing :: "mail_alias list"
  ir_Conflicts :: "import_conflict list"
  ir_ImportedDisabledCount :: nat
  ir_MissingCount :: nat
  ir_RemovedCount :: nat
  ir_InactiveUpdatedCount :: nat
  ir_RestoredCount :: nat

record import_credential =
  cr_Alias :: mail_alias
  cr_APIKey :: string

text \<open>An import that fails on a conflict still reports what it found, so an error carries a result.\<close>

type_synonym import_error = "store_error \<times> import_result"

definition empty_result :: import_result where
  "empty_result = \<lparr>ir_Created = [], ir_Existing = [], ir_Conflicts = [], ir_ImportedDisabledCount = 0,
     ir_MissingCount = 0, ir_RemovedCount = 0, ir_InactiveUpdatedCount = 0, ir_RestoredCount = 0\<rparr>"

definition plain :: "store_error + 'a \<Rightarrow> import_error + 'a" where
  "plain m = (case m of Inl e \<Rightarrow> Inl (e, empty_result) | Inr x \<Rightarrow> Inr x)"

lemma plain_Inr [simp]: "plain m = Inr x \<longleftrightarrow> m = Inr x"
  by (simp add: plain_def split: sum.splits)

subsection \<open>Addresses\<close>

text \<open>
  What the check by \<open>mail.ParseAddress\<close> and the comparison with \<open>parsed.Address\<close> accept together: an
  \<open>addr-spec\<close> without quoting, blanks or comments. Anything else that parses (a display name, a
  quoted local part, a comment, a group) has an address that differs from the text.
\<close>

definition atext_rune :: "rune \<Rightarrow> bool" where
  "atext_rune r \<longleftrightarrow> ((33 \<le> r \<and> r \<le> 126) \<or> 128 \<le> r) \<and>
     r \<notin> {40, 41, 60, 62, 91, 93, 58, 59, 64, 92, 44, 34}"

definition dot_atom :: "string \<Rightarrow> bool" where
  "dot_atom s \<longleftrightarrow> s \<noteq> [] \<and> list_all atext_rune (runes s) \<and>
     \<not> has_prefix s ''.'' \<and> \<not> str_contains s ''..'' \<and> \<not> has_suffix s ''.''"

definition domain_literal :: "string \<Rightarrow> bool" where
  "domain_literal s \<longleftrightarrow> 2 \<le> length s \<and> has_prefix s ''['' \<and> has_suffix s '']'' \<and>
     ParseIP (butlast (tl s)) \<noteq> None"

definition plain_address :: "string \<Rightarrow> bool" where
  "plain_address a \<longleftrightarrow>
     (case cut (CHR ''@'') a of (l, d, found) \<Rightarrow> found \<and> valid_utf8 a \<and> dot_atom l \<and> (dot_atom d \<or> domain_literal d))"

definition normalize_candidate :: "import_candidate \<Rightarrow> import_candidate" where
  "normalize_candidate c =
     c\<lparr>ic_Address := NormalizeEmail (ic_Address c), ic_Label := clean_text (ic_Label c),
       ic_APIKeyPrefix := clean_text (ic_APIKeyPrefix c)\<rparr>"

definition normalizeAliasImportCandidates :: "import_candidate list \<Rightarrow> store_error + import_candidate list" where
  "normalizeAliasImportCandidates cs =
     (let ns = map normalize_candidate cs in
      if list_all (\<lambda>c. plain_address (ic_Address c)) ns \<and> distinct (map ic_Address ns) then Inr ns else Inl StInvalid)"

definition normalizeAppleDirectoryAddresses :: "string list \<Rightarrow> store_error + string list" where
  "normalizeAppleDirectoryAddresses addresses =
     (let ns = map NormalizeEmail addresses in
      if list_all plain_address ns \<and> distinct ns then Inr ns else Inl StInvalid)"

subsection \<open>Checks of a custom mailbox\<close>

definition aliasImportAccountEmailConflictTx :: "store_db \<Rightarrow> import_candidate list \<Rightarrow> bool" where
  "aliasImportAccountEmailConflictTx db cs \<longleftrightarrow>
     list_ex (\<lambda>a. list_ex (\<lambda>c. nocase (ac_Email a) = nocase (ic_Address c)) cs) (sb_accounts db)"

text \<open>The part after the last at-sign, which must not be the first byte.\<close>

definition domain_part :: "string \<Rightarrow> string" where
  "domain_part a = rev (takeWhile (\<lambda>c. c \<noteq> CHR ''@'') (rev a))"

definition in_suffix :: "string \<Rightarrow> string \<Rightarrow> bool" where
  "in_suffix suffix a \<longleftrightarrow> length (domain_part a) + 1 < length a \<and> domain_part a = suffix"

fun custom_candidates_ok :: "mailbox_state \<Rightarrow> import_candidate list \<Rightarrow> store_error + unit" where
  "custom_candidates_ok state [] = Inr ()"
| "custom_candidates_ok state (c # cs) =
     (if ic_Address c = NormalizeEmail (ms_IMAPUsername state) then Inl StIdentityConflict
      else if \<not> in_suffix (ms_EmailSuffix state) (ic_Address c) then Inl StSuffixMismatch
      else custom_candidates_ok state cs)"

text \<open>\<open>required\<close> is the mailbox type that the import insists on, empty for none.\<close>

definition mailbox_allows :: "store_db \<Rightarrow> mailbox_state \<Rightarrow> string \<Rightarrow> import_candidate list \<Rightarrow> store_error + unit" where
  "mailbox_allows db state required cs =
     (if required = [] then Inr ()
      else if ms_MailboxType state \<noteq> required
        then Inl (if required = MailboxTypeCustom then StCustomRequired else StICloudRequired)
      else if required = MailboxTypeCustom then
        (if \<not> ms_Enabled state then Inl StAccountDisabled
         else if aliasImportAccountEmailConflictTx db cs then Inl StIdentityConflict
         else custom_candidates_ok state cs)
      else Inr ())"

subsection \<open>Sorting the batch\<close>

definition classify ::
  "store_db \<Rightarrow> int \<Rightarrow> bool \<Rightarrow> import_candidate \<Rightarrow> import_result \<times> import_candidate list \<Rightarrow>
     import_error + import_result \<times> import_candidate list" where
  "classify db account strict c s =
     (case s of (res, pending) \<Rightarrow>
       (case getAliasByAddressTx db (ic_Address c) of
          Inr a \<Rightarrow>
            if a_AccountID a = account then
              (if strict then Inl (StOwnershipConflict, res)
               else Inr (res\<lparr>ir_Existing := ir_Existing res @ [a]\<rparr>, pending))
            else Inr (res\<lparr>ir_Conflicts := ir_Conflicts res @ [\<lparr>cf_Address = ic_Address c, cf_ExistingAliasID = a_ID a,
                    cf_ExistingAccountID = a_AccountID a, cf_ExistingAccountEmail = a_AccountEmail a\<rparr>]\<rparr>, pending)
        | Inl e \<Rightarrow> if e = StNotFound then Inr (res, pending @ [c]) else Inl (e, empty_result)))"

subsection \<open>Reconciliation with the Apple directory\<close>

record reconcile_state =
  rc_db :: store_db
  rc_routing :: bool
  rc_changed :: "int list"
  rc_result :: import_result

definition removal_audit :: "store_env \<Rightarrow> int \<Rightarrow> audit_log" where
  "removal_audit env i =
     \<lparr>al_ID = 0, al_AdminID = None, al_Username = ''system'', al_Action = ''sync_remove'', al_ResourceType = ''alias'',
      al_ResourceID = format_int i, al_Result = ''success'', al_IP = [], al_RequestID = [],
      al_Detail = AppleAliasNotFound, al_CreatedAt = en_now env\<rparr>"

definition set_status :: "store_env \<Rightarrow> int \<Rightarrow> int \<Rightarrow> bool \<Rightarrow> string \<Rightarrow> string \<Rightarrow> store_db \<Rightarrow> store_db" where
  "set_status env account i disable status err db =
     set_aliases (update_where (\<lambda>a. a_ID a = i \<and> a_AccountID a = account)
       (\<lambda>a. a\<lparr>a_Enabled := (a_Enabled a \<and> \<not> disable), a_LastSyncStatus := status, a_LastSyncError := err,
              a_UpdatedAt := stamp env\<rparr>)) db"

definition reconcile_alias ::
  "store_env \<Rightarrow> int \<Rightarrow> import_candidate list \<Rightarrow> string list \<Rightarrow> mail_alias \<Rightarrow> reconcile_state \<Rightarrow> reconcile_state" where
  "reconcile_alias env account cs presence a s =
     (let address = NormalizeEmail (a_Address a); res = rc_result s in
      if address \<notin> set presence then
        s\<lparr>rc_db := write_audit env (removal_audit env (a_ID a))
             (delete_aliases (\<lambda>x. a_ID x = a_ID a \<and> a_AccountID x = account) (rc_db s)),
          rc_result := res\<lparr>ir_MissingCount := ir_MissingCount res + 1, ir_RemovedCount := ir_RemovedCount res + 1\<rparr>,
          rc_routing := (rc_routing s \<or> a_Enabled a)\<rparr>
      else if a_LastSyncError a = AppleAliasConfirmationPending then s
      else (case map_of (map (\<lambda>c. (ic_Address c, ic_Active c)) cs) address of
              None \<Rightarrow> s
            | Some True \<Rightarrow>
                if \<not> isAppleDirectoryUnavailable (a_LastSyncError a) then s
                else s\<lparr>rc_db := set_status env account (a_ID a) False SyncStatusPending [] (rc_db s),
                       rc_changed := a_ID a # rc_changed s,
                       rc_result := res\<lparr>ir_RestoredCount := ir_RestoredCount res + 1\<rparr>\<rparr>
            | Some False \<Rightarrow>
                if \<not> a_Enabled a \<and> a_LastSyncStatus a = SyncStatusError \<and> a_LastSyncError a = AppleAliasInactive then s
                else s\<lparr>rc_db := set_status env account (a_ID a) True SyncStatusError AppleAliasInactive (rc_db s),
                       rc_changed := a_ID a # rc_changed s,
                       rc_result := res\<lparr>ir_InactiveUpdatedCount := ir_InactiveUpdatedCount res + 1\<rparr>,
                       rc_routing := (rc_routing s \<or> a_Enabled a)\<rparr>))"

definition reconcileAppleAliasesTx ::
  "store_env \<Rightarrow> int \<Rightarrow> import_candidate list \<Rightarrow> string list \<Rightarrow> import_result \<Rightarrow> store_db \<Rightarrow>
     store_error + bool \<times> import_result \<times> store_db" where
  "reconcileAppleAliasesTx env account cs presence res db =
     (let locals = by_address (filter (\<lambda>a. a_AccountID a = account) (sb_aliases db));
          s = fold (reconcile_alias env account cs presence) locals
                \<lparr>rc_db = db, rc_routing = False, rc_changed = [], rc_result = res\<rparr> in
      bind_res (map_res (\<lambda>a. if a_ID a \<in> set (rc_changed s) then GetAlias (rc_db s) (a_ID a) else Inr a)
                 (ir_Existing (rc_result s))) (\<lambda>existing.
        Inr (rc_routing s, (rc_result s)\<lparr>ir_Existing := existing\<rparr>, rc_db s)))"

subsection \<open>Inserting the new aliases\<close>

text \<open>In candidate order, a new active alias is enabled while the count is below the limit.\<close>

fun assign_enabled :: "bool \<Rightarrow> nat \<Rightarrow> import_candidate list \<Rightarrow> (import_candidate \<times> bool) list" where
  "assign_enabled limited n [] = []"
| "assign_enabled limited n (c # cs) =
     (let enabled = (ic_Active c \<and> (\<not> limited \<or> n < MaxEnabledAliasesPerAccount)) in
      (c, enabled) # assign_enabled limited (if enabled then n + 1 else n) cs)"

record insert_state =
  in_db :: store_db
  in_result :: import_result
  in_created :: "(string \<times> mail_alias) list"
  in_credentials :: "(string \<times> import_credential) list"
  in_enabled :: bool

definition imported_row ::
  "store_env \<Rightarrow> int \<Rightarrow> bool \<Rightarrow> bool \<Rightarrow> import_candidate \<Rightarrow> bool \<Rightarrow> string \<Rightarrow> mail_alias" where
  "imported_row env account includeCredentials reconcile c enabled hash =
     alias_row env account (ic_Address c) (ic_Label c) None hash
       (if includeCredentials then [] else ic_APIKeyPrefix c)
       (if includeCredentials then AliasCredentialModeV2 else AliasCredentialModeLegacy) enabled
       (if reconcile \<and> \<not> ic_Active c then SyncStatusError else SyncStatusPending)
       (if reconcile \<and> \<not> ic_Active c then AppleAliasInactive else []) None None"

definition insert_imported ::
  "store_env \<Rightarrow> int \<Rightarrow> bool \<Rightarrow> bool \<Rightarrow> bool \<Rightarrow> mail_alias list \<Rightarrow> import_candidate \<times> bool \<Rightarrow> insert_state \<Rightarrow>
     import_error + insert_state" where
  "insert_imported env account includeCredentials strict reconcile existingBefore item s =
     (case item of (c, enabled) \<Rightarrow>
       bind_res (plain (if includeCredentials then provisionalAliasHash env (ic_Address c) [] else Inr (ic_APIKeyHash c))) (\<lambda>hash.
       if address_taken (in_db s) (ic_Address c) then
         bind_res (plain (getAliasByAddressTx (in_db s) (ic_Address c))) (\<lambda>existing.
           if a_AccountID existing = account then
             (if strict then Inl (StOwnershipConflict, in_result s)
              else Inr (s\<lparr>in_result := (in_result s)\<lparr>ir_Existing := ir_Existing (in_result s) @ [existing]\<rparr>\<rparr>))
           else Inl (StOwnershipConflict, empty_result\<lparr>
                  ir_Existing := (if reconcile then existingBefore else ir_Existing (in_result s)),
                  ir_Conflicts := ir_Conflicts (in_result s) @ [\<lparr>cf_Address = ic_Address c, cf_ExistingAliasID = a_ID existing,
                    cf_ExistingAccountID = a_AccountID existing, cf_ExistingAccountEmail = a_AccountEmail existing\<rparr>]\<rparr>))
       else
         bind_res (plain (insert_alias (imported_row env account includeCredentials reconcile c enabled hash) (in_db s))) (\<lambda>(i, db1).
         bind_res (plain (if includeCredentials then installGeneratedAliasCredentialsTx env i 1 True db1
                          else Inr (no_material, db1))) (\<lambda>(m, db2).
         bind_res (plain (GetAlias db2 i)) (\<lambda>created.
         bind_res (plain (if \<not> includeCredentials then Inr []
                   else (case en_reveal env of None \<Rightarrow> Inl StUnconfigured
                         | Some reveal \<Rightarrow> bind_res (of_option StIssuer (reveal i (cm_Ciphertext m)))
                             (\<lambda>k. Inr [(ic_Address c, \<lparr>cr_Alias = created, cr_APIKey = k\<rparr>)])))) (\<lambda>issued.
           Inr (s\<lparr>in_db := db2, in_created := (ic_Address c, created) # in_created s,
                  in_credentials := issued @ in_credentials s, in_enabled := (in_enabled s \<or> enabled),
                  in_result := (in_result s)\<lparr>ir_ImportedDisabledCount := ir_ImportedDisabledCount (in_result s) +
                    (if \<not> enabled \<and> ic_Active c then 1 else 0)\<rparr>\<rparr>)))))))"

subsection \<open>The transaction\<close>

definition import_capacity ::
  "store_db \<Rightarrow> int \<Rightarrow> bool \<Rightarrow> bool \<Rightarrow> import_candidate list \<Rightarrow> store_error + unit" where
  "import_capacity db account limited strict pending =
     require (\<not> (strict \<and> limited \<and>
        int (count_where ic_Active pending) > int MaxEnabledAliasesPerAccount - int (capacity_used db account))) StAliasLimit"

definition import_tx ::
  "store_env \<Rightarrow> int \<Rightarrow> import_candidate list \<Rightarrow> bool \<Rightarrow> bool \<Rightarrow> string \<Rightarrow> string list option \<Rightarrow> store_db \<Rightarrow>
     import_error + (import_result \<times> import_credential list) \<times> store_db" where
  "import_tx env account cs includeCredentials strict required directory db =
     bind_res (plain (lockAccount db account)) (\<lambda>version.
     bind_res (plain (readAccountMailboxStateTx db account)) (\<lambda>state.
     bind_res (plain (mailbox_allows db state required cs)) (\<lambda>_.
     bind_res (fold_res (classify db account strict) cs (empty_result, [])) (\<lambda>(res, pending).
     if ir_Conflicts res \<noteq> [] then Inl (StOwnershipConflict, res)
     else
     bind_res (plain (case directory of None \<Rightarrow> Inr (False, res, db)
                 | Some presence \<Rightarrow> reconcileAppleAliasesTx env account cs presence res db)) (\<lambda>(routingChanged, res1, db1).
     (let limited = mailboxHasEnabledAliasLimit (ms_MailboxType state) in
      bind_res (plain (import_capacity db1 account limited strict pending)) (\<lambda>_.
      bind_res (fold_res (insert_imported env account includeCredentials strict (directory \<noteq> None) (ir_Existing res))
                 (sort_key (\<lambda>it. ic_Address (fst it)) (assign_enabled limited (capacity_used db1 account) pending))
                 \<lparr>in_db = db1, in_result = res1, in_created = [], in_credentials = [], in_enabled = False\<rparr>) (\<lambda>s.
      (let created = concat (map (\<lambda>c. case map_of (in_created s) (ic_Address c) of None \<Rightarrow> [] | Some a \<Rightarrow> [a]) pending);
           issued = concat (map (\<lambda>a. case map_of (in_credentials s) (NormalizeEmail (a_Address a)) of
                      None \<Rightarrow> [] | Some k \<Rightarrow> [k]) created);
           db2 = (if in_enabled s then reset_cursor account (in_db s) else in_db s) in
       bind_res (plain (if in_enabled s \<or> routingChanged then bumpAccountVersionTx env account version db2 else Inr db2)) (\<lambda>db3.
         Inr (((in_result s)\<lparr>ir_Created := created\<rparr>, issued), db3)))))))))))"

definition keys_present :: "import_candidate list \<Rightarrow> bool" where
  "keys_present cs \<longleftrightarrow> list_all (\<lambda>c. ic_APIKeyHash c \<noteq> [] \<and> ic_APIKeyPrefix c \<noteq> []) cs"

definition import_checks ::
  "store_env \<Rightarrow> import_candidate list \<Rightarrow> bool \<Rightarrow> string list option \<Rightarrow>
     store_error + import_candidate list \<times> string list option" where
  "import_checks env candidates includeCredentials directory =
     bind_res (require (\<not> (includeCredentials \<and> (en_factory env = None \<or> en_reveal env = None))) StUnconfigured) (\<lambda>_.
     bind_res (normalizeAliasImportCandidates candidates) (\<lambda>cs.
     bind_res (case directory of None \<Rightarrow> Inr None
               | Some addresses \<Rightarrow> bind_res (normalizeAppleDirectoryAddresses addresses) (\<lambda>p. Inr (Some p))) (\<lambda>presence.
     bind_res (require (case presence of None \<Rightarrow> True | Some p \<Rightarrow> list_all (\<lambda>c. ic_Address c \<in> set p) cs) StInvalid) (\<lambda>_.
     bind_res (require (includeCredentials \<or> keys_present cs) StInvalid) (\<lambda>_. Inr (cs, presence))))))"

definition importAliases ::
  "store_env \<Rightarrow> int \<Rightarrow> import_candidate list \<Rightarrow> bool \<Rightarrow> bool \<Rightarrow> string \<Rightarrow> string list option \<Rightarrow> store_db \<Rightarrow>
     (import_error + import_result \<times> import_credential list) \<times> store_db" where
  "importAliases env account candidates includeCredentials strict required directory db =
     (case import_checks env candidates includeCredentials directory of
        Inl e \<Rightarrow> (Inl (e, empty_result), db)
      | Inr (cs, presence) \<Rightarrow>
          (case import_tx env account cs includeCredentials strict required presence db of
             Inl e \<Rightarrow> (Inl e, db)
           | Inr (r, db') \<Rightarrow> if en_fault env then (Inl (StTxFailed, empty_result), db) else (Inr r, db')))"

definition ImportAliases where
  "ImportAliases env account cs db = importAliases env account cs False False MailboxTypeICloud None db"

definition ImportAliasesWithCredentials where
  "ImportAliasesWithCredentials env account cs db = importAliases env account cs True False MailboxTypeICloud None db"

definition ReconcileAppleAliasesWithCredentials where
  "ReconcileAppleAliasesWithCredentials env account cs directory db =
     importAliases env account cs True False MailboxTypeICloud (Some directory) db"

definition ImportAliasesWithCredentialsStrict where
  "ImportAliasesWithCredentialsStrict env account cs db = importAliases env account cs True True [] None db"

definition ImportCustomAliasesWithCredentialsStrict where
  "ImportCustomAliasesWithCredentialsStrict env account cs db = importAliases env account cs True True MailboxTypeCustom None db"

end
