(* ===== verification/StoreFacts.thy ===== *)
theory StoreFacts
  imports StoreAutoAlias StoreGroups StoreImport MailWellFormed
begin

section \<open>What a store operation does to versions and enabled aliases\<close>

text \<open>
  The two things that a running synchronisation depends on are the version of its account and the set
  of its enabled aliases. The lemmas say for each statement which of them it keeps, and derive for each
  transaction that it either keeps both or moves its own account to a larger version.
\<close>

subsection \<open>Taking transactions apart\<close>

lemma ex_unit: "(\<exists>u :: unit. P u) \<longleftrightarrow> P ()"
  by (metis (full_types) old.unit.exhaust)

lemma require_unit: "require b e = Inr () \<longleftrightarrow> b"
  by simp

lemma if_Inl: "(if b then Inl e else m) = Inr y \<longleftrightarrow> \<not> b \<and> m = Inr y"
  by simp

lemmas tx_simps = if_Inl bind_res_Inr split_paired_Ex prod.case ex_unit require_unit of_option_Inr sum.inject prod.inject

subsection \<open>The view of a synchronisation\<close>

definition store_version :: "store_db \<Rightarrow> int \<Rightarrow> timestamp option" where
  "store_version db i = version_of (sb_mail db) i"

text \<open>The columns from which a synchronisation reads where the account's mail is.\<close>

definition source :: "store_db \<Rightarrow> int \<Rightarrow> (string \<times> int \<times> string \<times> string \<times> bool) option" where
  "source db i = map_option (\<lambda>a. (ac_IMAPHost a, ac_IMAPPort a, ac_IMAPUsername a, ac_PasswordCiphertext a, ac_Enabled a))
     (find_by ac_ID i (sb_accounts db))"

definition enabled_ids :: "store_db \<Rightarrow> int \<Rightarrow> int set" where
  "enabled_ids db i = {a_ID a | a. a \<in> set (sb_aliases db) \<and> a_AccountID a = i \<and> a_Enabled a}"

definition cursor :: "store_db \<Rightarrow> int \<Rightarrow> sync_state option" where
  "cursor db i = find_by ss_AccountID i (md_sync (sb_mail db))"

text \<open>Statements that may change the enabled aliases of account \<open>x\<close> and nothing else of the view.\<close>

definition local_to :: "int \<Rightarrow> store_db \<Rightarrow> store_db \<Rightarrow> bool" where
  "local_to x db db' \<longleftrightarrow> sb_accounts db' = sb_accounts db \<and> sb_next_account db' = sb_next_account db \<and>
     (\<forall>i. i \<noteq> x \<longrightarrow> enabled_ids db' i = enabled_ids db i)"

text \<open>Operations that leave the view of every account as it is.\<close>

definition quiet :: "store_db \<Rightarrow> store_db \<Rightarrow> bool" where
  "quiet db db' \<longleftrightarrow> (\<forall>i. store_version db' i = store_version db i \<and> enabled_ids db' i = enabled_ids db i \<and> source db' i = source db i) \<and>
     sb_next_account db' = sb_next_account db"

text \<open>Operations that move account \<open>x\<close> to a larger version.\<close>

definition moves :: "int \<Rightarrow> store_db \<Rightarrow> store_db \<Rightarrow> bool" where
  "moves x db db' \<longleftrightarrow> (\<forall>i. i \<noteq> x \<longrightarrow> store_version db' i = store_version db i \<and> enabled_ids db' i = enabled_ids db i \<and> source db' i = source db i) \<and>
     sb_next_account db' = sb_next_account db \<and>
     (\<exists>v v'. store_version db x = Some v \<and> store_version db' x = Some v' \<and> v < v')"

lemma same_accounts: "sb_accounts db' = sb_accounts db \<Longrightarrow> store_version db' i = store_version db i \<and> source db' i = source db i"
  by (simp add: store_version_def version_of_def source_def)

lemma local_refl [simp]: "local_to x db db"
  by (simp add: local_to_def)

lemma local_trans [trans]: "local_to x a b \<Longrightarrow> local_to x b c \<Longrightarrow> local_to x a c"
  by (simp add: local_to_def)

lemma quiet_refl [simp]: "quiet db db"
  by (simp add: quiet_def)

lemma quiet_trans [trans]: "quiet a b \<Longrightarrow> quiet b c \<Longrightarrow> quiet a c"
  by (simp add: quiet_def)

lemma local_quiet: "local_to x db db' \<Longrightarrow> enabled_ids db' x = enabled_ids db x \<Longrightarrow> quiet db db'"
  unfolding local_to_def quiet_def using same_accounts by metis

subsection \<open>Statements\<close>

lemma view_reset_cursor [simp]:
  "sb_accounts (reset_cursor x db) = sb_accounts db" "sb_aliases (reset_cursor x db) = sb_aliases db"
  "sb_next_account (reset_cursor x db) = sb_next_account db" "cursor (reset_cursor x db) x = None"
  by (auto simp: reset_cursor_def cursor_def find_by_None)

lemma cursor_reset_other: "i \<noteq> x \<Longrightarrow> cursor (reset_cursor x db) i = cursor db i"
  by (simp add: reset_cursor_def cursor_def find_by_delete_other)

lemma view_set_aliases [simp]:
  "sb_accounts (set_aliases f db) = sb_accounts db" "sb_aliases (set_aliases f db) = f (sb_aliases db)"
  "sb_next_account (set_aliases f db) = sb_next_account db" "md_sync (sb_mail (set_aliases f db)) = md_sync (sb_mail db)"
  "sb_pending (set_aliases f db) = sb_pending db" "sb_groups (set_aliases f db) = sb_groups db"
  "sb_next_alias (set_aliases f db) = sb_next_alias db"
  by (simp_all add: set_aliases_def)

lemma view_set_accounts [simp]:
  "sb_aliases (set_accounts f db) = sb_aliases db" "sb_accounts (set_accounts f db) = f (sb_accounts db)"
  "sb_next_account (set_accounts f db) = sb_next_account db" "md_sync (sb_mail (set_accounts f db)) = md_sync (sb_mail db)"
  by (simp_all add: set_accounts_def)

text \<open>What routes mail: the columns that decide whether an alias takes part.\<close>

definition route :: "mail_alias \<Rightarrow> int \<times> int \<times> bool" where
  "route a = (a_ID a, a_AccountID a, a_Enabled a)"

lemma enabled_ids_routes: "enabled_ids db i = {j. (j, i, True) \<in> set (map route (sb_aliases db))}"
  by (force simp: enabled_ids_def route_def)

lemma routes_update_where:
  "(\<And>a. P a \<Longrightarrow> route (f a) = route a) \<Longrightarrow> map route (update_where P f rows) = map route rows"
  by (induction rows) (auto simp: update_where_Cons)

lemma same_routes:
  "map route (sb_aliases db') = map route (sb_aliases db) \<Longrightarrow> enabled_ids db' i = enabled_ids db i"
  by (simp add: enabled_ids_routes)

lemma quiet_routes:
  "sb_accounts db' = sb_accounts db \<Longrightarrow> map route (sb_aliases db') = map route (sb_aliases db) \<Longrightarrow>
   sb_next_account db' = sb_next_account db \<Longrightarrow> quiet db db'"
  using same_routes [of db' db] same_accounts [of db' db] by (simp add: quiet_def)

lemma local_routes:
  "sb_accounts db' = sb_accounts db \<Longrightarrow> map route (sb_aliases db') = map route (sb_aliases db) \<Longrightarrow>
   sb_next_account db' = sb_next_account db \<Longrightarrow> local_to x db db'"
  using same_routes [of db' db] by (simp add: local_to_def)

text \<open>A bundle changes no route.\<close>

lemma store_material_routes:
  assumes "store_material env i m v db = Inr db'"
  shows "sb_accounts db' = sb_accounts db" "map route (sb_aliases db') = map route (sb_aliases db)"
    "sb_next_account db' = sb_next_account db" "md_sync (sb_mail db') = md_sync (sb_mail db)"
proof -
  have db': "db' = set_aliases (update_where (\<lambda>a. a_ID a = i) (with_material env m v)) db"
    using assms by (simp add: store_material_def split: if_splits)
  show "map route (sb_aliases db') = map route (sb_aliases db)"
    by (simp add: db' routes_update_where with_material_def route_def)
qed (use assms in \<open>auto simp: store_material_def split: if_splits\<close>)

lemma generated_cases:
  assumes "installGeneratedAliasCredentialsTx env i version init db = Inr (m, db')"
  obtains (unconfigured) "en_factory env = None" and "db' = db"
  | (installed) v where "en_factory env \<noteq> None" and "store_material env i m v db = Inr db'" and
      "validateAliasCredentialMaterialVersion m version"
proof (cases "en_factory env")
  case None
  with assms that(1) show thesis by (simp add: installGeneratedAliasCredentialsTx_def)
next
  case (Some factory)
  with assms obtain v where "store_material env i m v db = Inr db'" "validateAliasCredentialMaterialVersion m version"
    by (auto simp: installGeneratedAliasCredentialsTx_def bind_res_Inr)
  with Some that(2) show thesis by simp
qed

lemma generated_routes:
  assumes "installGeneratedAliasCredentialsTx env i version init db = Inr (m, db')"
  shows "sb_accounts db' = sb_accounts db" "map route (sb_aliases db') = map route (sb_aliases db)"
    "sb_next_account db' = sb_next_account db" "md_sync (sb_mail db') = md_sync (sb_mail db)"
  using assms by (cases rule: generated_cases; simp add: store_material_routes)+

lemma reused_material:
  assumes "installAliasCredentialMaterialTx env i version init issuer c hash db = Inr db'"
  obtains m v where "store_material env i m v db = Inr db'" and "validateAliasCredentialMaterialVersion m version" and
    "cm_APIKeyHash m = hash"
proof -
  from assms obtain m v where "store_material env i m v db = Inr db'" "validateAliasCredentialMaterialVersion m version"
      "cm_APIKeyHash m = hash"
    unfolding installAliasCredentialMaterialTx_def bind_res_Inr by auto
  then show thesis by (rule that)
qed

text \<open>A new row and deleted rows.\<close>

lemma insert_alias_facts:
  assumes "insert_alias row db = Inr (i, db')"
  shows "sb_accounts db' = sb_accounts db" "sb_aliases db' = sb_aliases db @ [row\<lparr>a_ID := i\<rparr>]"
    "sb_next_account db' = sb_next_account db" "md_sync (sb_mail db') = md_sync (sb_mail db)" "i = sb_next_alias db"
    "sb_next_alias db' = sb_next_alias db + 1" "sb_pending db' = sb_pending db" "sb_groups db' = sb_groups db"
  using assms by (auto simp: insert_alias_def Let_def split: if_splits)

lemma enabled_ids_append:
  assumes "sb_aliases db' = sb_aliases db @ [a]"
  shows "enabled_ids db' i = enabled_ids db i \<union> (if a_AccountID a = i \<and> a_Enabled a then {a_ID a} else {})"
  by (auto simp: enabled_ids_def assms)

lemma insert_alias_local: "insert_alias row db = Inr (i, db') \<Longrightarrow> local_to (a_AccountID row) db db'"
  using insert_alias_facts [of row db i db'] enabled_ids_append [of db' db "row\<lparr>a_ID := i\<rparr>"]
  by (simp add: local_to_def)

lemma delete_aliases_facts:
  "sb_accounts (delete_aliases P db) = sb_accounts db" "sb_aliases (delete_aliases P db) = delete_where P (sb_aliases db)"
  "sb_next_account (delete_aliases P db) = sb_next_account db" "md_sync (sb_mail (delete_aliases P db)) = md_sync (sb_mail db)"
  by (simp_all add: delete_aliases_def Let_def)

lemma delete_aliases_local:
  "(\<And>a. P a \<Longrightarrow> a_AccountID a = x) \<Longrightarrow> local_to x db (delete_aliases P db)"
  by (auto simp: local_to_def delete_aliases_facts enabled_ids_def)

lemma enabled_ids_delete: "enabled_ids (delete_aliases P db) i \<subseteq> enabled_ids db i"
  by (auto simp: delete_aliases_facts enabled_ids_def)

lemma delete_disabled_quiet: "(\<And>a. a \<in> set (sb_aliases db) \<Longrightarrow> P a \<Longrightarrow> \<not> a_Enabled a) \<Longrightarrow> quiet db (delete_aliases P db)"
  using same_accounts [OF delete_aliases_facts(1), of P db] by (auto simp: quiet_def delete_aliases_facts enabled_ids_def)

subsection \<open>Advancing the version\<close>

lemma lockAccount_version: "lockAccount db x = Inr v \<longleftrightarrow> store_version db x = Some v"
  by (simp add: lockAccount_def version_of_lock store_version_def)

lemma nextVersion_greater: "nextVersion env v = Inr w \<Longrightarrow> v < w"
  by (auto simp: nextVersion_def dest: nextAccountVersion_greater)

lemma find_by_version:
  assumes "find_by ac_ID x rows = Some a" and "\<And>a. P a \<Longrightarrow> ac_ID (f a) = ac_ID a"
  shows "find_by ac_ID x (update_where P f rows) = Some (if P a then f a else a)"
  using find_by_update_where [of P ac_ID f x rows] assms by simp

lemma bump_facts:
  assumes "bumpAccountVersionTx env x v db = Inr db'"
  shows "sb_aliases db' = sb_aliases db" "sb_next_account db' = sb_next_account db" "md_sync (sb_mail db') = md_sync (sb_mail db)"
    "\<exists>w > v. sb_accounts db' = update_where (\<lambda>a. ac_ID a = x \<and> ac_UpdatedAt a = v) (\<lambda>a. a\<lparr>ac_UpdatedAt := w\<rparr>) (sb_accounts db)"
proof -
  from assms obtain w where w: "nextVersion env v = Inr w" and
    db': "db' = set_accounts (update_where (\<lambda>a. ac_ID a = x \<and> ac_UpdatedAt a = v) (\<lambda>a. a\<lparr>ac_UpdatedAt := w\<rparr>)) db"
    by (auto simp: bumpAccountVersionTx_def bind_res_Inr split: if_splits)
  show "sb_aliases db' = sb_aliases db" "sb_next_account db' = sb_next_account db" "md_sync (sb_mail db') = md_sync (sb_mail db)"
    by (simp_all add: db')
  show "\<exists>w > v. sb_accounts db' = update_where (\<lambda>a. ac_ID a = x \<and> ac_UpdatedAt a = v) (\<lambda>a. a\<lparr>ac_UpdatedAt := w\<rparr>) (sb_accounts db)"
    using nextVersion_greater [OF w] by (intro exI [of _ w]) (simp add: db')
qed

lemma versions_after_update:
  assumes rows: "sb_accounts db' = update_where (\<lambda>a. ac_ID a = x \<and> ac_UpdatedAt a = v) f (sb_accounts db)"
    and f: "\<And>a. ac_ID (f a) = ac_ID a \<and> ac_UpdatedAt (f a) = w" and v: "store_version db x = Some v"
  shows "store_version db' x = Some w" and "i \<noteq> x \<Longrightarrow> store_version db' i = store_version db i" and "i \<noteq> x \<Longrightarrow> source db' i = source db i"
proof -
  let ?P = "\<lambda>a. ac_ID a = x \<and> ac_UpdatedAt a = v"
  have found: "find_by ac_ID i (sb_accounts db') = map_option (\<lambda>a. if ?P a then f a else a) (find_by ac_ID i (sb_accounts db))" for i
    unfolding rows by (rule find_by_update_where) (simp add: f)
  from v obtain a where a: "find_by ac_ID x (sb_accounts db) = Some a" "ac_UpdatedAt a = v"
    by (auto simp: store_version_def version_of_def)
  with found [of x] show "store_version db' x = Some w"
    by (auto simp: store_version_def version_of_def f dest: find_by_SomeD)
  show "store_version db' i = store_version db i" if "i \<noteq> x"
    using found [of i] that by (auto simp: store_version_def version_of_def map_option_case split: option.splits dest: find_by_SomeD)
  show "source db' i = source db i" if "i \<noteq> x"
    using found [of i] that by (auto simp: source_def map_option_case split: option.splits dest: find_by_SomeD)
qed

text \<open>A transaction that changes the view of one account and then advances its version.\<close>

lemma local_bump_moves:
  assumes "store_version db x = Some v" and "local_to x db db1" and "bumpAccountVersionTx env x v db1 = Inr db'"
  shows "moves x db db'"
proof -
  have v1: "store_version db1 i = store_version db i" "source db1 i = source db i" for i
    using assms(2) same_accounts [of db1 db i] by (simp_all add: local_to_def)
  from bump_facts(4) [OF assms(3)] obtain w where w: "v < w"
    and rows: "sb_accounts db' = update_where (\<lambda>a. ac_ID a = x \<and> ac_UpdatedAt a = v) (\<lambda>a. a\<lparr>ac_UpdatedAt := w\<rparr>) (sb_accounts db1)" by blast
  have e: "enabled_ids db' i = enabled_ids db1 i" for i by (simp add: enabled_ids_def bump_facts(1) [OF assms(3)])
  from versions_after_update [OF rows, of w] v1 assms(1)
  have "store_version db' x = Some w" "i \<noteq> x \<Longrightarrow> store_version db' i = store_version db i" "i \<noteq> x \<Longrightarrow> source db' i = source db i" for i by auto
  with e w assms(1,2) bump_facts(2) [OF assms(3)] show ?thesis by (auto simp: moves_def local_to_def)
qed

subsection \<open>Transactions on aliases\<close>

text \<open>An operation of account \<open>x\<close> that a running synchronisation can rely on.\<close>

definition fenced :: "int \<Rightarrow> store_db \<Rightarrow> store_db \<Rightarrow> bool" where
  "fenced x db db' \<longleftrightarrow> quiet db db' \<or> moves x db db'"

text \<open>Wherever an alias becomes enabled, the cursor of its account is gone.\<close>

definition boundary :: "store_db \<Rightarrow> store_db \<Rightarrow> bool" where
  "boundary db db' \<longleftrightarrow> (\<forall>i. enabled_ids db' i \<subseteq> enabled_ids db i \<or> cursor db' i = None)"

lemma boundary_quiet: "quiet db db' \<Longrightarrow> boundary db db'"
  by (simp add: boundary_def quiet_def)

definition routes_kept :: "store_db \<Rightarrow> store_db \<Rightarrow> bool" where
  "routes_kept db db' \<longleftrightarrow> sb_accounts db' = sb_accounts db \<and> map route (sb_aliases db') = map route (sb_aliases db) \<and>
     sb_next_account db' = sb_next_account db \<and> md_sync (sb_mail db') = md_sync (sb_mail db)"

lemma routes_kept_refl [simp]: "routes_kept db db"
  by (simp add: routes_kept_def)

lemma routes_kept_trans [trans]: "routes_kept a b \<Longrightarrow> routes_kept b c \<Longrightarrow> routes_kept a c"
  by (simp add: routes_kept_def)

lemma routes_kept_view:
  assumes "routes_kept db db'"
  shows "quiet db db'" "local_to x db db'" "enabled_ids db' i = enabled_ids db i" "cursor db' i = cursor db i"
  using assms quiet_routes [of db' db] local_routes [of db' db x] same_routes [of db' db i]
  by (simp_all add: routes_kept_def cursor_def)

lemma routes_kept_set_aliases:
  "(\<And>a. P a \<Longrightarrow> route (f a) = route a) \<Longrightarrow> routes_kept db (set_aliases (update_where P f) db)"
  by (simp add: routes_kept_def routes_update_where)

lemma routes_kept_delete_pending [simp]: "routes_kept db (delete_pending P db)"
  by (simp add: routes_kept_def delete_pending_def)

lemma routes_kept_material: "store_material env i m v db = Inr db' \<Longrightarrow> routes_kept db db'"
  by (simp add: routes_kept_def store_material_routes)

lemma routes_kept_generated: "installGeneratedAliasCredentialsTx env i version init db = Inr (m, db') \<Longrightarrow> routes_kept db db'"
  by (simp add: routes_kept_def generated_routes)

lemma routes_kept_reused: "installAliasCredentialMaterialTx env i version init issuer c hash db = Inr db' \<Longrightarrow> routes_kept db db'"
  by (erule reused_material) (rule routes_kept_material)

lemma publish_facts:
  assumes "store_version db x = Some v" and "local_to x db db1" and "publish_enabled env x v db1 = Inr db'"
  shows "moves x db db'" and "cursor db' x = None" and "enabled_ids db' i = enabled_ids db1 i"
proof -
  have bump: "bumpAccountVersionTx env x v (reset_cursor x db1) = Inr db'" using assms(3) by (simp add: publish_enabled_def)
  have "local_to x db (reset_cursor x db1)" using assms(2) by (simp add: local_to_def enabled_ids_def)
  with bump assms(1) show "moves x db db'" by (intro local_bump_moves)
  show "cursor db' x = None" using bump_facts(3) [OF bump] view_reset_cursor(4) [of x db1] by (simp add: cursor_def)
  show "enabled_ids db' i = enabled_ids db1 i" using bump_facts(1) [OF bump] by (simp add: enabled_ids_def)
qed

lemma boundary_moves: "moves x db db' \<Longrightarrow> enabled_ids db' x \<subseteq> enabled_ids db x \<or> cursor db' x = None \<Longrightarrow> boundary db db'"
  unfolding moves_def boundary_def by (metis order_refl)

text \<open>A transaction that inserts a row, gives it credentials and publishes it if it is enabled.\<close>

lemma insert_publish_ok:
  assumes v: "store_version db x = Some v" and row: "insert_alias row db0 = Inr (i, db1)" "a_AccountID row = x"
    and before: "routes_kept db db0" and kept: "routes_kept db1 db2"
    and fin: "(if a_Enabled row then publish_enabled env x v db2 else Inr db2) = Inr db'"
  shows "fenced x db db'" and "boundary db db'"
proof -
  have app: "sb_aliases db1 = sb_aliases db0 @ [row\<lparr>a_ID := i\<rparr>]" by (rule insert_alias_facts(2) [OF row(1)])
  have loc: "local_to x db db2"
    using local_trans [OF routes_kept_view(2) [OF before] local_trans [OF insert_alias_local [OF row(1), unfolded row(2)] routes_kept_view(2) [OF kept]]] .
  have "fenced x db db' \<and> boundary db db'"
  proof (cases "a_Enabled row")
    case True
    with fin have "publish_enabled env x v db2 = Inr db'" by simp
    from publish_facts(1,2) [OF v loc this] show ?thesis by (simp add: fenced_def boundary_moves)
  next
    case False
    with fin have db': "db' = db2" by simp
    have "enabled_ids db2 x = enabled_ids db x"
      using routes_kept_view(3) [OF kept] enabled_ids_append [OF app, of x] routes_kept_view(3) [OF before] False by simp
    with loc have "quiet db db'" unfolding db' by (intro local_quiet)
    then show ?thesis by (simp add: fenced_def boundary_quiet)
  qed
  then show "fenced x db db'" "boundary db db'" by simp_all
qed

lemma create_alias_cases:
  assumes "create_alias_tx env req db = Inr (i, db')"
  obtains v row db1 db2 where "store_version db (a_AccountID req) = Some v" "insert_alias row db = Inr (i, db1)"
    "a_AccountID row = a_AccountID req" "a_Enabled row = a_Enabled req" "routes_kept db1 db2"
    "(if a_Enabled row then publish_enabled env (a_AccountID req) v db2 else Inr db2) = Inr db'"
    "a_Enabled req \<Longrightarrow> requireEnabledAliasCapacity db (a_AccountID req) = Inr ()"
    "\<not> a_Enabled req \<Longrightarrow> a_LastSyncError row \<noteq> AppleAliasConfirmationPending"
proof -
  let ?row = "\<lambda>mode hash. alias_row env (a_AccountID req) (NormalizeEmail (sanitizePostgresText (a_Address req)))
               (clean_text (a_Label req)) (a_GroupID req) hash (clean_text (a_APIKeyPrefix req)) mode (a_Enabled req)
               (status_or_pending (a_LastSyncStatus req)) (clean_text (a_LastSyncError req)) (nullableTimestamp (a_LastSyncedAt req))
               (nullableTimestamp (a_LastAccessedAt req))"
  from assms obtain mode hash v db1 db2 where
    v: "lockAccount db (a_AccountID req) = Inr v"
    and cap: "(if a_Enabled req then requireEnabledAliasCapacity db (a_AccountID req) else Inr ()) = Inr ()"
    and err: "\<not> (\<not> a_Enabled req \<and> clean_text (a_LastSyncError req) = AppleAliasConfirmationPending)"
    and ins: "insert_alias (?row mode hash) db = Inr (i, db1)"
    and inst: "(if en_factory env \<noteq> None \<and> mode = AliasCredentialModeV2
                  then bind_res (installGeneratedAliasCredentialsTx env i 1 True db1) (\<lambda>(m, db2). Inr db2)
                  else Inr db1) = Inr db2"
    and pub: "(if a_Enabled req then publish_enabled env (a_AccountID req) v db2 else Inr db2) = Inr db'"
    unfolding create_alias_tx_def Let_def tx_simps by blast
  have "routes_kept db1 db2" using inst by (auto simp: bind_res_Inr split: if_splits dest: routes_kept_generated)
  moreover have "a_AccountID (?row mode hash) = a_AccountID req" "a_Enabled (?row mode hash) = a_Enabled req"
    "a_LastSyncError (?row mode hash) = clean_text (a_LastSyncError req)" by (simp_all add: alias_row_def)
  ultimately show thesis using v cap err ins pub lockAccount_version by (intro that [of v "?row mode hash" db1 db2]) auto
qed

lemma create_alias_ok:
  assumes "create_alias_tx env req db = Inr (i, db')"
  shows "fenced (a_AccountID req) db db'" and "boundary db db'"
  using assms by (cases rule: create_alias_cases; blast intro: insert_publish_ok routes_kept_refl)+

lemma find_alias_found: "find_by a_ID i (sb_aliases db) = Some a \<Longrightarrow> find_alias_of db i (a_AccountID a) = Some a"
proof -
  have "find (\<lambda>r. a_ID r = i) rows = Some a \<Longrightarrow> find (\<lambda>r. a_ID r = i \<and> a_AccountID r = a_AccountID a) rows = Some a" for rows
    by (induction rows) (auto split: if_splits)
  then show "find_by a_ID i (sb_aliases db) = Some a \<Longrightarrow> ?thesis" by (simp add: find_alias_of_def find_by_def)
qed

lemma set_update_one:
  assumes "unique_key key rows" and "a \<in> set rows" and "key a = k"
  shows "set (update_where (\<lambda>x. key x = k) f rows) = insert (f a) (set rows - {a})"
proof -
  have one: "{r \<in> set rows. key r = k} = {a}" "{r \<in> set rows. key r \<noteq> k} = set rows - {a}"
    using assms by (auto dest: unique_keyD)
  have "set (update_where P f rows) = f ` {r \<in> set rows. P r} \<union> {r \<in> set rows. \<not> P r}" for P
    by (auto simp: set_update_where)
  with one show ?thesis by simp
qed

lemma collect_insert:
  "{g y | y. y \<in> insert a B \<and> P y} = (if P a then {g a} else {}) \<union> {g y | y. y \<in> B \<and> P y}"
  by auto

lemma update_alias_cases:
  assumes "update_alias_tx env i label enabled grp db = Inr (u, db')"
  obtains a v target db1 db2 where "find_by a_ID i (sb_aliases db) = Some a" "store_version db (a_AccountID a) = Some v"
    "target = (case enabled of None \<Rightarrow> a_Enabled a | Some b \<Rightarrow> b)"
    "\<not> (awaiting_confirmation a \<and> (label \<noteq> None \<or> enabled = Some True))"
    "\<not> (enabled = Some True \<and> isAppleDirectoryUnavailable (a_LastSyncError a))"
    "target \<and> \<not> a_Enabled a \<Longrightarrow> requireEnabledAliasCapacity db (a_AccountID a) = Inr ()"
    "(if target \<noteq> a_Enabled a then bumpAccountVersionTx env (a_AccountID a) v db else Inr db) = Inr db1"
    "db2 = set_aliases (update_where (\<lambda>x. a_ID x = i) (edit_alias env label enabled grp (target \<and> \<not> a_Enabled a)
        (enabled \<noteq> None \<and> \<not> target \<and> a_Enabled a \<and> a_LastSyncError a = AppleAliasConfirmationPending))) db1"
    "db' = (if target \<and> \<not> a_Enabled a then reset_cursor (a_AccountID a) db2 else db2)"
    "\<And>g. grp = Some (Some g) \<Longrightarrow> lockMailGroupForMove db g = Inr () \<and> 1 \<le> g"
proof -
  from assms obtain a0 v a where a0: "find_by a_ID i (sb_aliases db) = Some a0" and v: "lockAccount db (a_AccountID a0) = Inr v"
    and a: "find_alias_of db i (a_AccountID a0) = Some a"
    and gok: "\<not> (case grp of Some (Some g) \<Rightarrow> g < 1 | _ \<Rightarrow> False)"
    and lock: "(case grp of Some (Some g) \<Rightarrow> lockMailGroupForMove db g | _ \<Rightarrow> Inr ()) = Inr ()"
    and rest: "(if awaiting_confirmation a \<and> (label \<noteq> None \<or> enabled = Some True) then Inl StConfirmationPending
       else if enabled = Some True \<and> isAppleDirectoryUnavailable (a_LastSyncError a) then Inl StAppleUnavailable
       else (let target = (case enabled of None \<Rightarrow> a_Enabled a | Some b \<Rightarrow> b);
                 reenabled = (target \<and> \<not> a_Enabled a);
                 clearMarker = (enabled \<noteq> None \<and> \<not> target \<and> a_Enabled a \<and>
                    a_LastSyncError a = AppleAliasConfirmationPending) in
         bind_res (if reenabled then requireEnabledAliasCapacity db (a_AccountID a0) else Inr ()) (\<lambda>_.
         bind_res (if target \<noteq> a_Enabled a then bumpAccountVersionTx env (a_AccountID a0) v db else Inr db) (\<lambda>db1.
           (let db2 = set_aliases (update_where (\<lambda>x. a_ID x = i) (edit_alias env label enabled grp reenabled clearMarker)) db1 in
            Inr ((), if reenabled then reset_cursor (a_AccountID a0) db2 else db2)))))) = Inr (u, db')"
    unfolding update_alias_tx_def tx_simps by blast
  have "find_alias_of db i (a_AccountID a0) = Some a0" by (rule find_alias_found [OF a0])
  with a have eq: "a0 = a" by simp
  let ?t = "case enabled of None \<Rightarrow> a_Enabled a | Some b \<Rightarrow> b"
  from rest eq have ok: "\<not> (awaiting_confirmation a \<and> (label \<noteq> None \<or> enabled = Some True))"
      "\<not> (enabled = Some True \<and> isAppleDirectoryUnavailable (a_LastSyncError a))"
    and body: "bind_res (if ?t \<and> \<not> a_Enabled a then requireEnabledAliasCapacity db (a_AccountID a) else Inr ()) (\<lambda>_.
         bind_res (if ?t \<noteq> a_Enabled a then bumpAccountVersionTx env (a_AccountID a) v db else Inr db) (\<lambda>db1.
            Inr ((), if ?t \<and> \<not> a_Enabled a then reset_cursor (a_AccountID a) (set_aliases (update_where (\<lambda>x. a_ID x = i)
              (edit_alias env label enabled grp (?t \<and> \<not> a_Enabled a) (enabled \<noteq> None \<and> \<not> ?t \<and> a_Enabled a \<and> a_LastSyncError a = AppleAliasConfirmationPending))) db1)
             else set_aliases (update_where (\<lambda>x. a_ID x = i)
              (edit_alias env label enabled grp (?t \<and> \<not> a_Enabled a) (enabled \<noteq> None \<and> \<not> ?t \<and> a_Enabled a \<and> a_LastSyncError a = AppleAliasConfirmationPending))) db1))) = Inr (u, db')"
    by (simp_all only: Let_def split: if_splits) auto
  from body obtain db1 where "(if ?t \<and> \<not> a_Enabled a then requireEnabledAliasCapacity db (a_AccountID a) else Inr ()) = Inr ()"
      "(if ?t \<noteq> a_Enabled a then bumpAccountVersionTx env (a_AccountID a) v db else Inr db) = Inr db1"
      "db' = (if ?t \<and> \<not> a_Enabled a then reset_cursor (a_AccountID a) (set_aliases (update_where (\<lambda>x. a_ID x = i)
              (edit_alias env label enabled grp (?t \<and> \<not> a_Enabled a) (enabled \<noteq> None \<and> \<not> ?t \<and> a_Enabled a \<and> a_LastSyncError a = AppleAliasConfirmationPending))) db1)
             else set_aliases (update_where (\<lambda>x. a_ID x = i)
              (edit_alias env label enabled grp (?t \<and> \<not> a_Enabled a) (enabled \<noteq> None \<and> \<not> ?t \<and> a_Enabled a \<and> a_LastSyncError a = AppleAliasConfirmationPending))) db1)"
    unfolding tx_simps by blast
  with a0 v ok gok lock show thesis
    by (intro that [of a v ?t db1 "set_aliases (update_where (\<lambda>x. a_ID x = i)
              (edit_alias env label enabled grp (?t \<and> \<not> a_Enabled a) (enabled \<noteq> None \<and> \<not> ?t \<and> a_Enabled a \<and> a_LastSyncError a = AppleAliasConfirmationPending))) db1"])
      (simp_all add: eq lockAccount_version)
qed

lemma edit_alias_route: "a_ID (edit_alias env label enabled grp r c a) = a_ID a" "a_AccountID (edit_alias env label enabled grp r c a) = a_AccountID a"
  "a_Enabled (edit_alias env label enabled grp r c a) = (case enabled of None \<Rightarrow> a_Enabled a | Some b \<Rightarrow> b)"
  by (simp_all add: edit_alias_def)

lemma update_alias_ok:
  assumes tx: "update_alias_tx env i label enabled grp db = Inr (u, db')" and uniq: "unique_key a_ID (sb_aliases db)"
  shows "\<exists>x. fenced x db db'" and "boundary db db'"
proof -
  from tx obtain a v target db1 db2 where a: "find_by a_ID i (sb_aliases db) = Some a" and v: "store_version db (a_AccountID a) = Some v"
    and t: "target = (case enabled of None \<Rightarrow> a_Enabled a | Some b \<Rightarrow> b)"
    and b: "(if target \<noteq> a_Enabled a then bumpAccountVersionTx env (a_AccountID a) v db else Inr db) = Inr db1"
    and db2: "\<exists>r c. db2 = set_aliases (update_where (\<lambda>x. a_ID x = i) (edit_alias env label enabled grp r c)) db1"
    and db': "db' = (if target \<and> \<not> a_Enabled a then reset_cursor (a_AccountID a) db2 else db2)"
    by (rule update_alias_cases) blast
  let ?x = "a_AccountID a"
  have al: "sb_aliases db1 = sb_aliases db" using b bump_facts(1) by (auto split: if_splits)
  have one: "y = a" if "y \<in> set (sb_aliases db)" "a_ID y = i" for y
    using find_by_unique [OF uniq that] a by simp
  have memb: "a \<in> set (sb_aliases db)" "a_ID a = i" using find_by_SomeD [OF a] by auto
  have alias': "sb_aliases db' = sb_aliases db2" by (simp add: db')
  have ids: "enabled_ids db' k = (if k = ?x then (if target then insert i (enabled_ids db k) else enabled_ids db k - {i})
      else enabled_ids db k)" for k
  proof -
    from db2 obtain r c where "sb_aliases db' = update_where (\<lambda>x. a_ID x = i) (edit_alias env label enabled grp r c) (sb_aliases db)"
      using al alias' by auto
    then have d: "set (sb_aliases db') = insert (edit_alias env label enabled grp r c a) (set (sb_aliases db) - {a})"
      using set_update_one [OF uniq memb] by simp
    have "enabled_ids db' k = (if k = ?x \<and> target then {i} else {}) \<union> {a_ID y | y. y \<in> set (sb_aliases db) - {a} \<and> a_AccountID y = k \<and> a_Enabled y}"
      unfolding enabled_ids_def d collect_insert using memb(2) t by (simp add: edit_alias_route eq_commute conj_commute)
    also have "{a_ID y | y. y \<in> set (sb_aliases db) - {a} \<and> a_AccountID y = k \<and> a_Enabled y} = enabled_ids db k - {i}"
      unfolding enabled_ids_def using one memb by blast
    finally have e: "enabled_ids db' k = (if k = ?x \<and> target then {i} else {}) \<union> (enabled_ids db k - {i})" .
    have "i \<notin> enabled_ids db k" if "k \<noteq> ?x" using one that by (auto simp: enabled_ids_def)
    with e show ?thesis by auto
  qed
  have mem_ids: "i \<in> enabled_ids db ?x \<longleftrightarrow> a_Enabled a" unfolding enabled_ids_def using memb one by blast
  show "boundary db db'"
    unfolding boundary_def
  proof
    fix k
    show "enabled_ids db' k \<subseteq> enabled_ids db k \<or> cursor db' k = None"
    proof (cases "k = ?x \<and> target \<and> \<not> a_Enabled a")
      case True
      then show ?thesis using db' by simp
    next
      case False
      then show ?thesis using ids [of k] mem_ids by auto
    qed
  qed
  show "\<exists>x. fenced x db db'"
  proof (cases "target = a_Enabled a")
    case True
    have "enabled_ids db' k = enabled_ids db k" for k
      using ids [of k] True mem_ids by (auto simp: insert_absorb)
    moreover have "sb_accounts db' = sb_accounts db" "sb_next_account db' = sb_next_account db" using True b db2 db' by auto
    ultimately have "quiet db db'" using same_accounts [of db' db] by (simp add: quiet_def)
    then show ?thesis by (auto simp: fenced_def)
  next
    case False
    with b have bump: "bumpAccountVersionTx env ?x v db = Inr db1" by simp
    from local_bump_moves [OF v local_refl bump] have m: "moves ?x db db1" .
    have "sb_accounts db' = sb_accounts db1" "sb_next_account db' = sb_next_account db1" using db2 db' by auto
    then have "store_version db' k = store_version db1 k" "source db' k = source db1 k" for k using same_accounts [of db' db1 k] by simp_all
    with m ids \<open>sb_next_account db' = sb_next_account db1\<close> have "moves ?x db db'" by (simp add: moves_def)
    then show ?thesis by (auto simp: fenced_def)
  qed
qed

lemma delete_alias_cases:
  assumes "delete_alias_tx env i db = Inr (u, db')"
  obtains a v where "find_by a_ID i (sb_aliases db) = Some a" "store_version db (a_AccountID a) = Some v"
    "(if a_Enabled a then bumpAccountVersionTx env (a_AccountID a) v
        (delete_aliases (\<lambda>x. a_ID x = i \<and> a_AccountID x = a_AccountID a) db)
      else Inr (delete_aliases (\<lambda>x. a_ID x = i \<and> a_AccountID x = a_AccountID a) db)) = Inr db'"
proof -
  from assms obtain a0 v a where a0: "find_by a_ID i (sb_aliases db) = Some a0" and v: "lockAccount db (a_AccountID a0) = Inr v"
    and a: "find_alias_of db i (a_AccountID a0) = Some a"
    and rest: "(if a_Enabled a then bumpAccountVersionTx env (a_AccountID a0) v
        (delete_aliases (\<lambda>x. a_ID x = i \<and> a_AccountID x = a_AccountID a0) db)
      else Inr (delete_aliases (\<lambda>x. a_ID x = i \<and> a_AccountID x = a_AccountID a0) db)) = Inr db'"
    unfolding delete_alias_tx_def Let_def tx_simps by blast
  have "find_alias_of db i (a_AccountID a0) = Some a0" by (rule find_alias_found [OF a0])
  with a have eq: "a0 = a" by simp
  show thesis by (rule that [OF a0 [unfolded eq] v [unfolded eq lockAccount_version] rest [unfolded eq]])
qed

lemma delete_alias_ok:
  assumes tx: "delete_alias_tx env i db = Inr (u, db')" and uniq: "unique_key a_ID (sb_aliases db)"
  shows "\<exists>x. fenced x db db'" and "boundary db db'"
proof -
  from tx obtain a v where a: "find_by a_ID i (sb_aliases db) = Some a" and v: "store_version db (a_AccountID a) = Some v"
    and fin: "(if a_Enabled a then bumpAccountVersionTx env (a_AccountID a) v
        (delete_aliases (\<lambda>x. a_ID x = i \<and> a_AccountID x = a_AccountID a) db)
      else Inr (delete_aliases (\<lambda>x. a_ID x = i \<and> a_AccountID x = a_AccountID a) db)) = Inr db'" by (rule delete_alias_cases)
  let ?d = "delete_aliases (\<lambda>x. a_ID x = i \<and> a_AccountID x = a_AccountID a) db"
  have loc: "local_to (a_AccountID a) db ?d" by (rule delete_aliases_local) simp
  have al: "sb_aliases db' = sb_aliases ?d" using fin bump_facts(1) by (auto split: if_splits)
  then have "enabled_ids db' k \<subseteq> enabled_ids db k" for k using enabled_ids_delete [of _ db k] by (simp add: enabled_ids_def)
  then show "boundary db db'" by (simp add: boundary_def)
  show "\<exists>x. fenced x db db'"
  proof (cases "a_Enabled a")
    case True
    with fin local_bump_moves [OF v loc] show ?thesis by (auto simp: fenced_def)
  next
    case False
    have "quiet db ?d" by (rule delete_disabled_quiet) (use find_by_unique [OF uniq] a False in fastforce)
    with fin False show ?thesis by (auto simp: fenced_def)
  qed
qed

end
