(* ===== verification/StoreFences.thy ===== *)
theory StoreFences
  imports StoreFacts
begin

section \<open>Every store operation is fenced\<close>

text \<open>
  The remaining transactions, each with the lemma that it keeps the view of every account or moves one
  account to a larger version: automatic aliases, credentials, groups, accounts and imports.
\<close>

subsection \<open>Automatic aliases\<close>

lemma routes_kept_session [simp]: "routes_kept db (saveAppleWebSessionTx env w db)" "routes_kept db (put_session w db)"
  by (simp_all add: routes_kept_def saveAppleWebSessionTx_def put_session_def Let_def)

lemma routes_kept_pending: "add_pending env i c db = Inr db' \<Longrightarrow> routes_kept db db'"
  by (auto simp: routes_kept_def add_pending_def split: if_splits)

lemma routes_kept_candidate:
  assumes "candidate_credentials env i req c db = Inr db'"
  shows "routes_kept db db'"
proof (cases "c \<noteq> []")
  case True
  show ?thesis
  proof (cases "en_reuse env")
    case None
    with assms True show ?thesis by (auto simp: candidate_credentials_def intro: routes_kept_pending)
  next
    case (Some issuer)
    with assms True obtain db1 where "installAliasCredentialMaterialTx env i 1 True issuer c (a_APIKeyHash req) db = Inr db1"
        "add_pending env i c db1 = Inr db'" by (auto simp: candidate_credentials_def bind_res_Inr)
    then show ?thesis using routes_kept_trans routes_kept_reused routes_kept_pending by blast
  qed
next
  case False
  with assms show ?thesis by (auto simp: candidate_credentials_def bind_res_Inr split: if_splits intro: routes_kept_generated)
qed

lemma auto_alias_cases:
  assumes "auto_alias_tx env w req c db = Inr (res, db')"
  obtains v mode hash i db2 db3 where "store_version db (a_AccountID req) = Some v"
    "insert_alias (candidate_row env req hash mode) (saveAppleWebSessionTx env w db) = Inr (i, db2)"
    "candidate_credentials env i req c db2 = Inr db3"
    "(if a_Enabled req then publish_enabled env (a_AccountID req) v db3 else Inr db3) = Inr db'"
    "a_Enabled req \<Longrightarrow> requireEnabledAliasCapacity db (a_AccountID req) = Inr ()"
    "aw_AccountID w = a_AccountID req" "icloud_ready db (a_AccountID req) = Inr ()"
    "mode = (if c \<noteq> [] \<and> en_reuse env \<noteq> None then AliasCredentialModeV2 else AliasCredentialModeLegacy)"
proof -
  let ?mode = "if c \<noteq> [] \<and> en_reuse env \<noteq> None then AliasCredentialModeV2 else AliasCredentialModeLegacy"
  from assms obtain v hash i db2 db3 where ok: "\<not> (a_AccountID req < 1 \<or> aw_AccountID w \<noteq> a_AccountID req)"
    and v: "lockAccount db (a_AccountID req) = Inr v" and ready: "icloud_ready db (a_AccountID req) = Inr ()"
    and cap: "(if a_Enabled req then requireEnabledAliasCapacity db (a_AccountID req) else Inr ()) = Inr ()"
    and ins: "insert_alias (candidate_row env req hash ?mode) (saveAppleWebSessionTx env w db) = Inr (i, db2)"
    and cred: "candidate_credentials env i req c db2 = Inr db3"
    and pub: "(if a_Enabled req then publish_enabled env (a_AccountID req) v db3 else Inr db3) = Inr db'"
    unfolding auto_alias_tx_def Let_def tx_simps by blast
  show thesis using ok v ready cap ins cred pub by (intro that [of v hash ?mode i db2 db3]) (simp_all add: lockAccount_version)
qed

lemma candidate_row_facts: "a_AccountID (candidate_row env req hash mode) = a_AccountID req"
  "a_Enabled (candidate_row env req hash mode) = a_Enabled req"
  by (simp_all add: candidate_row_def alias_row_def)

lemma auto_alias_ok:
  assumes "auto_alias_tx env w req c db = Inr (res, db')"
  shows "fenced (a_AccountID req) db db'" and "boundary db db'"
proof -
  from assms obtain v mode hash i db2 db3 where v: "store_version db (a_AccountID req) = Some v"
    and ins: "insert_alias (candidate_row env req hash mode) (saveAppleWebSessionTx env w db) = Inr (i, db2)"
    and cred: "candidate_credentials env i req c db2 = Inr db3"
    and pub: "(if a_Enabled req then publish_enabled env (a_AccountID req) v db3 else Inr db3) = Inr db'"
    by (rule auto_alias_cases)
  have pub': "(if a_Enabled (candidate_row env req hash mode) then publish_enabled env (a_AccountID req) v db3 else Inr db3) = Inr db'"
    using pub by (simp add: candidate_row_facts)
  note insert_publish_ok [OF v ins candidate_row_facts(1) routes_kept_session(1) routes_kept_candidate [OF cred] pub']
  then show "fenced (a_AccountID req) db db'" "boundary db db'" .
qed

lemma confirm_cases:
  assumes "confirm_tx env w i expected db = Inr (res, db')"
  obtains v a db3 where "store_version db (aw_AccountID w) = Some v" "find_alias_of db i (aw_AccountID w) = Some a"
    "awaiting_confirmation a" "CountEnabledAliasesByAccount db (aw_AccountID w) < MaxEnabledAliasesPerAccount"
    "icloud_ready db (aw_AccountID w) = Inr ()"
    "db3 = set_aliases (update_where (\<lambda>x. a_ID x = i \<and> a_AccountID x = aw_AccountID w \<and> awaiting_confirmation x) (confirm_row env))
      (saveAppleWebSessionTx env w db)"
    "bumpAccountVersionTx env (aw_AccountID w) v (if is_zero_time expected \<or> v \<noteq> to_timestamp expected
        then reset_cursor (aw_AccountID w) db3 else db3) = Inr db'"
proof -
  let ?db3 = "set_aliases (update_where (\<lambda>x. a_ID x = i \<and> a_AccountID x = aw_AccountID w \<and> awaiting_confirmation x) (confirm_row env))
      (saveAppleWebSessionTx env w db)"
  from assms obtain v a where v: "lockAccount db (aw_AccountID w) = Inr v" and ready: "icloud_ready db (aw_AccountID w) = Inr ()"
    and a: "(if find_pending db i = None then None else find_alias_of db i (aw_AccountID w)) = Some a"
    and m: "\<not> (a_Enabled a \<or> a_LastSyncError a \<noteq> AppleAliasConfirmationPending)"
    and cap: "requirePendingAutoAliasConfirmationCapacity db (aw_AccountID w) = Inr ()"
    and bump: "bumpAccountVersionTx env (aw_AccountID w) v (if is_zero_time expected \<or> v \<noteq> to_timestamp expected
        then reset_cursor (aw_AccountID w) ?db3 else ?db3) = Inr db'"
    unfolding confirm_tx_def Let_def tx_simps by blast
  show thesis
    by (rule that [of v a ?db3]) (use v ready a m cap bump in \<open>auto simp: lockAccount_version awaiting_confirmation_def
        requirePendingAutoAliasConfirmationCapacity_def split: if_splits\<close>)
qed

lemma confirm_local: "local_to x db (set_aliases (update_where (\<lambda>a. a_ID a = i \<and> a_AccountID a = x \<and> awaiting_confirmation a) (confirm_row env))
      (saveAppleWebSessionTx env w db))"
proof -
  have same: "sb_aliases (saveAppleWebSessionTx env w db) = sb_aliases db"
    by (simp add: saveAppleWebSessionTx_def put_session_def Let_def)
  have "enabled_ids (set_aliases (update_where (\<lambda>a. a_ID a = i \<and> a_AccountID a = x \<and> awaiting_confirmation a) (confirm_row env))
      (saveAppleWebSessionTx env w db)) j = enabled_ids db j" if "j \<noteq> x" for j
  proof -
    have "a_AccountID (confirm_row env a) = a_AccountID a" for a by (simp add: confirm_row_def)
    with that show ?thesis unfolding enabled_ids_def view_set_aliases same set_update_where by auto
  qed
  then show ?thesis using routes_kept_session(1) [of db env w] by (simp add: local_to_def routes_kept_def)
qed

lemma confirm_ok:
  assumes "confirm_tx env w i expected db = Inr (res, db')"
  shows "fenced (aw_AccountID w) db db'" and "is_zero_time expected \<or> store_version db (aw_AccountID w) \<noteq> Some (to_timestamp expected) \<Longrightarrow> boundary db db'"
proof -
  let ?x = "aw_AccountID w"
  from assms obtain v db3 where v: "store_version db ?x = Some v"
    and db3: "db3 = set_aliases (update_where (\<lambda>a. a_ID a = i \<and> a_AccountID a = ?x \<and> awaiting_confirmation a) (confirm_row env))
      (saveAppleWebSessionTx env w db)"
    and bump: "bumpAccountVersionTx env ?x v (if is_zero_time expected \<or> v \<noteq> to_timestamp expected
        then reset_cursor ?x db3 else db3) = Inr db'"
    by (rule confirm_cases) blast
  let ?d = "if is_zero_time expected \<or> v \<noteq> to_timestamp expected then reset_cursor ?x db3 else db3"
  have "local_to ?x db db3" unfolding db3 by (rule confirm_local)
  then have loc: "local_to ?x db ?d" by (auto simp: local_to_def enabled_ids_def)
  have m: "moves ?x db db'" by (rule local_bump_moves [OF v loc bump])
  then show "fenced ?x db db'" by (simp add: fenced_def)
  assume "is_zero_time expected \<or> store_version db ?x \<noteq> Some (to_timestamp expected)"
  then have "cursor db' ?x = None" using v bump_facts(3) [OF bump] view_reset_cursor(4) [of ?x db3] by (simp add: cursor_def)
  with m show "boundary db db'" by (simp add: boundary_moves)
qed

lemma discard_quiet: "quiet db (delete_aliases (discardable db x i) db)"
  by (rule delete_disabled_quiet) (simp add: discardable_def awaiting_confirmation_def)

subsection \<open>Credentials and groups\<close>

lemma rotate_pending_routes: "rotate_pending_key env i m db = Inr db' \<Longrightarrow> routes_kept db db'"
  by (auto simp: rotate_pending_key_def bind_res_Inr routes_kept_def split: if_splits option.splits)

lemma rotate_one_routes: "rotate_one env hp a s = Inr s' \<Longrightarrow> routes_kept (snd s) (snd s')"
proof -
  assume "rotate_one env hp a s = Inr s'"
  then obtain version init m db1 where g: "installGeneratedAliasCredentialsTx env (a_ID a) version init (snd s) = Inr (m, db1)"
    and p: "(if hp (a_ID a) then rotate_pending_key env (a_ID a) m db1 else Inr db1) = Inr (snd s')"
    by (cases s) (auto simp: rotate_one_def bind_res_Inr split: if_splits)
  have "routes_kept db1 (snd s')"
    using p by (auto split: if_splits intro: rotate_pending_routes)
  with routes_kept_generated [OF g] show ?thesis by (rule routes_kept_trans)
qed

lemma rotate_bundles_routes:
  assumes "rotate_all_bundles env db = Inr (sm, db')"
  shows "routes_kept db db'"
proof -
  have "routes_kept db (snd (sm, db'))"
    using assms unfolding rotate_all_bundles_def
    by (rule fold_res_invariant [where P = "\<lambda>s. routes_kept db (snd s)"]) (auto dest: rotate_one_routes intro: routes_kept_trans)
  then show ?thesis by simp
qed

lemma rotate_all_routes:
  assumes "rotate_all_tx env audit db = Inr (sm, db')"
  shows "routes_kept db db'"
proof (cases audit)
  case None
  with assms show ?thesis by (auto simp: rotate_all_tx_def dest: rotate_bundles_routes)
next
  case (Some l)
  with assms obtain db1 log sm' where "rotate_all_bundles env db = Inr (sm', db1)"
      and "db' = write_audit env log (revoke_admin (fst (snd l)) (snd (snd l)) db1)"
    by (cases l) (auto simp: rotate_all_tx_def bind_res_Inr split: option.splits if_splits)
  with rotate_bundles_routes [of env db sm' db1] show ?thesis by (simp add: routes_kept_def write_audit_def revoke_admin_def)
qed

lemma rotate_credentials_routes:
  assumes "rotate_credentials_tx env i db = Inr (r, db')"
  shows "routes_kept db db'"
proof -
  from assms obtain version m db1 where "installGeneratedAliasCredentialsTx env i version False db = Inr (m, db1)"
    and "db' = delete_pending (\<lambda>p. pk_AliasID p = i) db1"
    unfolding rotate_credentials_tx_def Let_def by (auto simp: bind_res_Inr split: if_splits)
  then show ?thesis using routes_kept_trans routes_kept_generated routes_kept_delete_pending by metis
qed

lemma put_api_key_routes: "put_api_key env i x c h p db = Inr db' \<Longrightarrow> routes_kept db db'"
  by (auto simp: put_api_key_def route_def split: if_splits intro!: routes_kept_set_aliases)

lemma rotate_api_key_routes:
  assumes "rotate_api_key_tx env i hash prefix raw db = Inr (r, db')"
  shows "routes_kept db db'"
proof -
  from assms obtain x c h p db1 where "put_api_key env i x c h p db = Inr db1" and "db' = delete_pending (\<lambda>p. pk_AliasID p = i) db1"
    unfolding rotate_api_key_tx_def Let_def by (auto simp: bind_res_Inr split: if_splits option.splits)
  then show ?thesis using routes_kept_trans put_api_key_routes routes_kept_delete_pending by metis
qed

lemma migrate_routes:
  assumes "migrate_alias env a db = Inr db'"
  shows "routes_kept db db'"
proof (cases "find_pending db (a_ID a)")
  case None
  with assms show ?thesis by (auto simp: migrate_alias_def bind_res_Inr split: if_splits intro: routes_kept_generated)
next
  case (Some p)
  with assms show ?thesis
    by (auto simp: migrate_alias_def split: option.splits sum.splits if_splits intro: routes_kept_reused)
qed

lemma move_aliases_routes: "routes_kept db (move_aliases env ids g db)"
  unfolding move_aliases_def by (rule routes_kept_set_aliases) (simp add: route_def)

subsection \<open>Accounts\<close>

lemma quiet_tables [simp]:
  "routes_kept db (stop_schedule t x db)" "routes_kept db (drop_session x db)" "routes_kept db (write_audit env l db)"
  by (simp_all add: routes_kept_def stop_schedule_def drop_session_def write_audit_def)

text \<open>Account rows that keep their identity and version.\<close>

lemma versions_same_rows:
  assumes "sb_accounts db' = update_where P f (sb_accounts db)" and "\<And>a. ac_ID (f a) = ac_ID a \<and> ac_UpdatedAt (f a) = ac_UpdatedAt a"
    and "\<And>a. ac_IMAPHost (f a) = ac_IMAPHost a \<and> ac_IMAPPort (f a) = ac_IMAPPort a \<and> ac_IMAPUsername (f a) = ac_IMAPUsername a \<and>
      ac_PasswordCiphertext (f a) = ac_PasswordCiphertext a \<and> ac_Enabled (f a) = ac_Enabled a"
  shows "store_version db' i = store_version db i" and "source db' i = source db i"
proof -
  have "find_by ac_ID i (update_where P f (sb_accounts db)) = map_option (\<lambda>r. if P r then f r else r) (find_by ac_ID i (sb_accounts db))"
    by (rule find_by_update_where) (simp add: assms(2))
  then show "store_version db' i = store_version db i" "source db' i = source db i"
    by (auto simp: store_version_def version_of_def source_def assms map_option_case split: option.splits)
qed

lemma settings_facts:
  assumes "upsertAccountMailboxSettingsTx x t s db = Inr db'"
  shows "sb_aliases db' = sb_aliases db" "sb_next_account db' = sb_next_account db" "store_version db' i = store_version db i"
    "md_sync (sb_mail db') = md_sync (sb_mail db)" "source db' i = source db i"
proof -
  from assms obtain u n where "db' = set_accounts (update_where (\<lambda>a. ac_ID a = x) (\<lambda>a. a\<lparr>ac_MailboxType := u, ac_EmailSuffix := n\<rparr>)) db"
    by (auto simp: upsertAccountMailboxSettingsTx_def bind_res_Inr split: if_splits)
  then show "sb_aliases db' = sb_aliases db" "sb_next_account db' = sb_next_account db" "store_version db' i = store_version db i"
    "md_sync (sb_mail db') = md_sync (sb_mail db)" "source db' i = source db i"
    by (simp_all add: versions_same_rows [of _ "\<lambda>a. ac_ID a = x" "\<lambda>a. a\<lparr>ac_MailboxType := u, ac_EmailSuffix := n\<rparr>"])
qed

lemma forget_source_facts:
  "map route (sb_aliases (forget_source t x db)) = map route (sb_aliases db)" "sb_accounts (forget_source t x db) = sb_accounts db"
  "sb_next_account (forget_source t x db) = sb_next_account db" "md_sync (sb_mail (forget_source t x db)) = md_sync (sb_mail db)"
  by (simp_all add: forget_source_def Let_def routes_update_where route_def)

lemma update_account_cases:
  assumes "update_account_tx env req db = Inr (src, db')"
  obtains v cur t s w db2 db5 where "store_version db (ac_ID req) = Some v" "find_by ac_ID (ac_ID req) (sb_accounts db) = Some cur"
    "requested_settings req cur = Inr (t, s)" "src = mailbox_source_changed req cur"
    "\<not> (has_aliases db (ac_ID req) \<and> (email_changed req cur \<or> t \<noteq> NormalizeMailboxType (ac_MailboxType cur) \<or> s \<noteq> ac_EmailSuffix cur))"
    "\<not> (email_changed req cur \<and> aliasAddressIdentityConflictTx db (requested_email req))"
    "nextVersion env v = Inr w"
    "account_row_ok db (ac_ID req) (if has_aliases db (ac_ID req) then ac_Email cur else requested_email req) (ac_IMAPPort req)"
    "upsertAccountMailboxSettingsTx (ac_ID req) t s (set_accounts (update_where (\<lambda>a. ac_ID a = ac_ID req \<and> ac_UpdatedAt a = v)
        (edit_row req (has_aliases db (ac_ID req)) w)) db) = Inr db2"
    "db' = withdraw_mail (stamp env) w req cur db5" "sb_mail db5 = sb_mail db2" "sb_next_account db5 = sb_next_account db2"
    "sb_pending db5 = sb_pending db2" "sb_groups db5 = sb_groups db2" "sb_next_alias db5 = sb_next_alias db2" "sb_next_group db5 = sb_next_group db2"
    "\<exists>f. sb_schedules db5 = map f (sb_schedules db2) \<and> (\<forall>c. cs_AccountID (f c) = cs_AccountID c)"
    "\<exists>P. sb_apple db5 = filter P (sb_apple db2)" "sb_admins db5 = sb_admins db2" "sb_audit db5 = sb_audit db2"
proof -
  from assms obtain v cur t s w db2 where v: "lockAccount db (ac_ID req) = Inr v"
    and cur: "find_by ac_ID (ac_ID req) (sb_accounts db) = Some cur" and ts: "requested_settings req cur = Inr (t, s)"
    and l: "\<not> (has_aliases db (ac_ID req) \<and> (email_changed req cur \<or> t \<noteq> NormalizeMailboxType (ac_MailboxType cur) \<or> s \<noteq> ac_EmailSuffix cur))"
    and c: "\<not> (email_changed req cur \<and> aliasAddressIdentityConflictTx db (requested_email req))"
    and w: "nextVersion env v = Inr w"
    and ok: "account_row_ok db (ac_ID req) (if has_aliases db (ac_ID req) then ac_Email cur else requested_email req) (ac_IMAPPort req)"
    and up: "upsertAccountMailboxSettingsTx (ac_ID req) t s (set_accounts (update_where (\<lambda>a. ac_ID a = ac_ID req \<and> ac_UpdatedAt a = v)
        (edit_row req (has_aliases db (ac_ID req)) w)) db) = Inr db2"
    and fin: "Inr (mailbox_source_changed req cur, withdraw_mail (stamp env) w req cur
        (let db3 = (if ac_Enabled req then db2 else stop_schedule (stamp env) (ac_ID req) db2);
             db4 = (if t = MailboxTypeCustom then stop_schedule (stamp env) (ac_ID req) db3 else db3) in
         if email_changed req cur \<or> t \<noteq> NormalizeMailboxType (ac_MailboxType cur) then drop_session (ac_ID req) db4 else db4)) = Inr (src, db')"
    unfolding update_account_tx_def Let_def tx_simps by blast
  let ?db5 = "let db3 = (if ac_Enabled req then db2 else stop_schedule (stamp env) (ac_ID req) db2);
             db4 = (if t = MailboxTypeCustom then stop_schedule (stamp env) (ac_ID req) db3 else db3) in
         if email_changed req cur \<or> t \<noteq> NormalizeMailboxType (ac_MailboxType cur) then drop_session (ac_ID req) db4 else db4"
  have stop: "\<exists>f. sb_schedules (stop_schedule e x d) = map f (sb_schedules d) \<and> (\<forall>c. cs_AccountID (f c) = cs_AccountID c)" for e x d
    by (intro exI [of _ "\<lambda>c. if cs_AccountID c = x then c\<lparr>cs_Enabled := False, cs_PlannedAt := [], cs_NextRunAt := None, cs_UpdatedAt := e\<rparr> else c"])
      (simp add: stop_schedule_def update_where_def)
  have comp: "\<exists>f. sb_schedules ?db5 = map f (sb_schedules db2) \<and> (\<forall>c. cs_AccountID (f c) = cs_AccountID c)"
  proof -
    obtain f where f: "sb_schedules (stop_schedule (stamp env) (ac_ID req) db2) = map f (sb_schedules db2)" "\<forall>c. cs_AccountID (f c) = cs_AccountID c"
      using stop by blast
    obtain g where g: "sb_schedules (stop_schedule (stamp env) (ac_ID req) (stop_schedule (stamp env) (ac_ID req) db2)) =
        map g (sb_schedules (stop_schedule (stamp env) (ac_ID req) db2))" "\<forall>c. cs_AccountID (g c) = cs_AccountID c"
      using stop by blast
    have d: "sb_schedules (drop_session x d) = sb_schedules d" for x d by (simp add: drop_session_def)
    have "\<exists>h. sb_schedules db2 = map h (sb_schedules db2) \<and> (\<forall>c. cs_AccountID (h c) = cs_AccountID c)"
      by (rule exI [of _ "\<lambda>c. c"]) simp
    moreover have "\<exists>h. map g (map f (sb_schedules db2)) = map h (sb_schedules db2) \<and> (\<forall>c. cs_AccountID (h c) = cs_AccountID c)"
      using f(2) g(2) by (intro exI [of _ "\<lambda>c. g (f c)"]) simp
    ultimately show ?thesis using f g d by (simp add: Let_def) blast
  qed
  have "\<exists>P. sb_apple ?db5 = filter P (sb_apple db2)"
    by (auto simp: Let_def drop_session_def stop_schedule_def delete_where_def intro: exI [of _ "\<lambda>_. True"])
  moreover have "sb_mail ?db5 = sb_mail db2" "sb_next_account ?db5 = sb_next_account db2" "sb_pending ?db5 = sb_pending db2"
      "sb_groups ?db5 = sb_groups db2" "sb_next_alias ?db5 = sb_next_alias db2" "sb_next_group ?db5 = sb_next_group db2" "sb_admins ?db5 = sb_admins db2" "sb_audit ?db5 = sb_audit db2"
    by (auto simp: Let_def drop_session_def stop_schedule_def)
  ultimately show thesis using v cur ts l c w ok up fin comp
    by (intro that [of v cur t s w db2 ?db5]) (auto simp: lockAccount_version)
qed

lemma withdraw_view:
  "sb_next_account (withdraw_mail t w req cur db) = sb_next_account db"
  "map route (sb_aliases (withdraw_mail t w req cur db)) = map route (sb_aliases db)"
  by (auto simp: withdraw_mail_def reset_statuses_def routes_update_where route_def forget_source_facts)

lemma withdraw_versions:
  assumes "store_version db (ac_ID req) = Some w"
  shows "store_version (withdraw_mail t w req cur db) i = store_version db i"
    and "source (withdraw_mail t w req cur db) i = source db i"
proof -
  let ?f = "\<lambda>a. a\<lparr>ac_LastSyncStatus := SyncStatusPending, ac_LastSyncError := [], ac_LastSyncedAt := None, ac_UpdatedAt := w\<rparr>"
  have "sb_accounts (withdraw_mail t w req cur db) = (if withdraws_mail req cur then update_where (\<lambda>a. ac_ID a = ac_ID req) ?f (sb_accounts db) else sb_accounts db)"
    by (auto simp: withdraw_mail_def reset_statuses_def forget_source_facts)
  moreover have "find_by ac_ID i (update_where (\<lambda>a. ac_ID a = ac_ID req) ?f (sb_accounts db)) =
      map_option (\<lambda>a. if ac_ID a = ac_ID req then ?f a else a) (find_by ac_ID i (sb_accounts db))"
    by (rule find_by_update_where) simp
  ultimately show "store_version (withdraw_mail t w req cur db) i = store_version db i"
      "source (withdraw_mail t w req cur db) i = source db i"
    using assms by (auto simp: store_version_def version_of_def source_def map_option_case split: option.splits dest: find_by_SomeD)
qed

lemma update_account_moves:
  assumes "update_account_tx env req db = Inr (src, db')"
  shows "moves (ac_ID req) db db'" and "enabled_ids db' i = enabled_ids db i"
proof -
  let ?x = "ac_ID req"
  from assms obtain v cur t s w db2 db5 where v: "store_version db ?x = Some v" and w: "nextVersion env v = Inr w"
    and up: "upsertAccountMailboxSettingsTx ?x t s (set_accounts (update_where (\<lambda>a. ac_ID a = ?x \<and> ac_UpdatedAt a = v)
        (edit_row req (has_aliases db ?x) w)) db) = Inr db2"
    and db': "db' = withdraw_mail (stamp env) w req cur db5" and m5: "sb_mail db5 = sb_mail db2" and n5: "sb_next_account db5 = sb_next_account db2"
    by (rule update_account_cases) blast
  let ?db1 = "set_accounts (update_where (\<lambda>a. ac_ID a = ?x \<and> ac_UpdatedAt a = v) (edit_row req (has_aliases db ?x) w)) db"
  have rows: "sb_accounts ?db1 = update_where (\<lambda>a. ac_ID a = ?x \<and> ac_UpdatedAt a = v) (edit_row req (has_aliases db ?x) w) (sb_accounts db)"
    by simp
  have v1: "store_version ?db1 ?x = Some w" "j \<noteq> ?x \<Longrightarrow> store_version ?db1 j = store_version db j"
      "j \<noteq> ?x \<Longrightarrow> source ?db1 j = source db j" for j
    by (rule versions_after_update [OF rows _ v]; simp add: edit_row_def)+
  have v5: "store_version db5 j = store_version ?db1 j" "source db5 j = source ?db1 j" for j
    using settings_facts(3,5) [OF up, of j] m5 by (simp_all add: store_version_def source_def)
  have e: "enabled_ids db' j = enabled_ids db j" for j
    using settings_facts(1) [OF up] withdraw_view(2) [of "stamp env" w req cur db5] m5 by (simp add: enabled_ids_routes db')
  then show "enabled_ids db' i = enabled_ids db i" .
  show "moves ?x db db'"
    using v v1 v5 e nextVersion_greater [OF w] withdraw_versions [of db5 req w "stamp env" cur] withdraw_view(1) settings_facts(2) [OF up] n5
    by (auto simp: moves_def db')
qed

lemma status_moves:
  assumes "SetAccountSyncStatus env x status err t db = (Inr u, db')"
  shows "moves x db db'" and "enabled_ids db' i = enabled_ids db i"
proof -
  from assms obtain v w where v: "lockAccount db x = Inr v" and w: "nextVersion env v = Inr w"
    and db': "db' = set_accounts (update_where (\<lambda>a. ac_ID a = x \<and> ac_UpdatedAt a = v)
        (\<lambda>a. a\<lparr>ac_LastSyncStatus := sanitizePostgresText status, ac_LastSyncError := sanitizePostgresText err,
               ac_LastSyncedAt := nullableTimestamp t, ac_UpdatedAt := w\<rparr>)) db"
    unfolding SetAccountSyncStatus_def commit_Inr by (auto simp: bind_res_Inr split: if_splits)
  show e: "enabled_ids db' i = enabled_ids db i" for i by (simp add: db' enabled_ids_def)
  let ?f = "\<lambda>a. a\<lparr>ac_LastSyncStatus := sanitizePostgresText status, ac_LastSyncError := sanitizePostgresText err,
               ac_LastSyncedAt := nullableTimestamp t, ac_UpdatedAt := w\<rparr>"
  have v': "store_version db x = Some v" using v by (simp add: lockAccount_version)
  have rows: "sb_accounts db' = update_where (\<lambda>a. ac_ID a = x \<and> ac_UpdatedAt a = v) ?f (sb_accounts db)" by (simp add: db')
  have "store_version db' x = Some w" "j \<noteq> x \<Longrightarrow> store_version db' j = store_version db j"
      "j \<noteq> x \<Longrightarrow> source db' j = source db j" for j
    by (rule versions_after_update [OF rows _ v']; simp)+
  with v' e nextVersion_greater [OF w] show "moves x db db'" by (auto simp: moves_def db')
qed

end
