(* ===== verification/StoreImportFacts.thy ===== *)
theory StoreImportFacts
  imports StoreFences
begin

section \<open>Facts about imports\<close>

text \<open>
  The two loops of an import, over the local aliases that are reconciled and over the new addresses,
  with what each pass keeps; and the import as a whole, which is fenced like the other operations.
\<close>

subsection \<open>Reconciliation\<close>

lemma delete_one_ids:
  "enabled_ids (delete_aliases (\<lambda>y. a_ID y = j \<and> a_AccountID y = x) db) k = (if k = x then enabled_ids db x - {j} else enabled_ids db k)"
  by (auto simp: enabled_ids_def delete_aliases_facts)

lemma update_ids:
  assumes "\<And>a. a_ID (f a) = a_ID a" and "\<And>a. a_AccountID (f a) = a_AccountID a" and "\<And>a. a_Enabled (f a) \<longleftrightarrow> a_Enabled a \<and> \<not> disable"
  shows "{a_ID a | a. a \<in> set (update_where (\<lambda>a. a_ID a = j \<and> a_AccountID a = x) f rows) \<and> a_AccountID a = k \<and> a_Enabled a} =
     (if k = x \<and> disable then {a_ID a | a. a \<in> set rows \<and> a_AccountID a = x \<and> a_Enabled a} - {j}
      else {a_ID a | a. a \<in> set rows \<and> a_AccountID a = k \<and> a_Enabled a})"
proof -
  let ?g = "\<lambda>a. if a_ID a = j \<and> a_AccountID a = x then f a else a"
  have "{a_ID a | a. a \<in> set (update_where (\<lambda>a. a_ID a = j \<and> a_AccountID a = x) f rows) \<and> a_AccountID a = k \<and> a_Enabled a} =
      {i. \<exists>a \<in> set rows. i = a_ID (?g a) \<and> a_AccountID (?g a) = k \<and> a_Enabled (?g a)}"
    unfolding set_update_where by blast
  also have "\<dots> = {i. \<exists>a \<in> set rows. i = a_ID a \<and> a_AccountID a = k \<and> a_Enabled a \<and> \<not> (disable \<and> a_ID a = j \<and> a_AccountID a = x)}"
    by (intro Collect_cong bex_cong refl) (auto simp: assms)
  also have "\<dots> = (if k = x \<and> disable then {a_ID a | a. a \<in> set rows \<and> a_AccountID a = x \<and> a_Enabled a} - {j}
      else {a_ID a | a. a \<in> set rows \<and> a_AccountID a = k \<and> a_Enabled a})" by auto
  finally show ?thesis .
qed

lemma set_status_ids:
  "enabled_ids (set_status env x j disable st err db) k =
     (if k = x \<and> disable then enabled_ids db x - {j} else enabled_ids db k)"
  unfolding enabled_ids_def set_status_def view_set_aliases by (rule update_ids) simp_all

text \<open>What holds of the database between two local aliases, \<open>db\<close> being the one before.\<close>

definition reconciling :: "int \<Rightarrow> store_db \<Rightarrow> reconcile_state \<Rightarrow> bool" where
  "reconciling x db s \<longleftrightarrow> local_to x db (rc_db s) \<and> enabled_ids (rc_db s) x \<subseteq> enabled_ids db x \<and>
     (\<not> rc_routing s \<longrightarrow> enabled_ids (rc_db s) x = enabled_ids db x) \<and> md_sync (sb_mail (rc_db s)) = md_sync (sb_mail db)"

lemma reconcile_alias_step:
  assumes s: "reconciling x db s" and uniq: "unique_key a_ID (sb_aliases db)" and a: "a \<in> set (sb_aliases db)" "a_AccountID a = x"
  shows "reconciling x db (reconcile_alias env x cs presence a s)"
proof -
  have off: "a_ID a \<notin> enabled_ids db x" if "\<not> a_Enabled a"
    using that uniq a by (auto simp: enabled_ids_def dest: unique_keyD)
  have audit: "sb_accounts (write_audit env l d) = sb_accounts d" "sb_next_account (write_audit env l d) = sb_next_account d"
    "enabled_ids (write_audit env l d) k = enabled_ids d k" "sb_mail (write_audit env l d) = sb_mail d" for l d k
    by (simp_all add: write_audit_def enabled_ids_def)
  have status: "sb_accounts (set_status env x j b st e d) = sb_accounts d" "sb_next_account (set_status env x j b st e d) = sb_next_account d"
    "md_sync (sb_mail (set_status env x j b st e d)) = md_sync (sb_mail d)" for j b st e d by (simp_all add: set_status_def)
  show ?thesis
  proof (cases "NormalizeEmail (a_Address a) \<in> set presence")
    case False
    with s off show ?thesis
      by (auto simp: reconciling_def reconcile_alias_def Let_def local_to_def audit delete_aliases_facts delete_one_ids)
  next
    case present: True
    show ?thesis
    proof (cases "a_LastSyncError a = AppleAliasConfirmationPending")
      case True
      with s present show ?thesis by (simp add: reconcile_alias_def Let_def)
    next
      case False
      show ?thesis
      proof (cases "map_of (map (\<lambda>c. (ic_Address c, ic_Active c)) cs) (NormalizeEmail (a_Address a))")
        case None
        with s present False show ?thesis by (simp add: reconcile_alias_def Let_def)
      next
        case (Some active)
        show ?thesis
        proof (cases active)
          case True
          with s present False Some show ?thesis
            by (auto simp: reconciling_def reconcile_alias_def Let_def local_to_def status set_status_ids)
        next
          case inactive: False
          with s present False Some off show ?thesis
            by (auto simp: reconciling_def reconcile_alias_def Let_def local_to_def status set_status_ids)
        qed
      qed
    qed
  qed
qed

lemma reconcile_facts:
  assumes "reconcileAppleAliasesTx env x cs presence res db = Inr (routing, res', db')" and uniq: "unique_key a_ID (sb_aliases db)"
  shows "local_to x db db'" and "enabled_ids db' x \<subseteq> enabled_ids db x" and "\<not> routing \<Longrightarrow> enabled_ids db' x = enabled_ids db x"
    and "md_sync (sb_mail db') = md_sync (sb_mail db)"
proof -
  let ?locals = "by_address (filter (\<lambda>a. a_AccountID a = x) (sb_aliases db))"
  let ?s0 = "\<lparr>rc_db = db, rc_routing = False, rc_changed = [], rc_result = res\<rparr>"
  have inv: "reconciling x db (fold (reconcile_alias env x cs presence) as s)"
    if "set as \<subseteq> set ?locals" "reconciling x db s" for as s
    using that
  proof (induction as arbitrary: s)
    case (Cons a as)
    have "reconciling x db (reconcile_alias env x cs presence a s)"
      using Cons.prems by (intro reconcile_alias_step uniq) (auto simp: by_address_def)
    with Cons show ?case by simp
  qed simp
  have "reconciling x db (fold (reconcile_alias env x cs presence) ?locals ?s0)"
    by (rule inv) (simp_all add: reconciling_def)
  moreover have "rc_db (fold (reconcile_alias env x cs presence) ?locals ?s0) = db'"
      "rc_routing (fold (reconcile_alias env x cs presence) ?locals ?s0) = routing"
    using assms(1) by (auto simp: reconcileAppleAliasesTx_def Let_def bind_res_Inr)
  ultimately show "local_to x db db'" "enabled_ids db' x \<subseteq> enabled_ids db x" "\<not> routing \<Longrightarrow> enabled_ids db' x = enabled_ids db x"
    "md_sync (sb_mail db') = md_sync (sb_mail db)" by (auto simp: reconciling_def)
qed

subsection \<open>New addresses\<close>

definition inserting :: "int \<Rightarrow> store_db \<Rightarrow> insert_state \<Rightarrow> bool" where
  "inserting x db s \<longleftrightarrow> local_to x db (in_db s) \<and> md_sync (sb_mail (in_db s)) = md_sync (sb_mail db) \<and>
     (\<not> in_enabled s \<longrightarrow> enabled_ids (in_db s) x = enabled_ids db x)"

lemma imported_row_facts: "a_AccountID (imported_row env x ic rc c e h) = x" "a_Enabled (imported_row env x ic rc c e h) = e"
  by (simp_all add: imported_row_def alias_row_def)

lemma insert_imported_cases:
  assumes "insert_imported env x ic st rc before (c, e) s = Inr s'"
  obtains (present) "in_db s' = in_db s" "in_enabled s' = in_enabled s"
  | (created) hash i db1 db2 where "insert_alias (imported_row env x ic rc c e hash) (in_db s) = Inr (i, db1)"
      "routes_kept db1 db2" "in_db s' = db2" "in_enabled s' = (in_enabled s \<or> e)"
      "if ic then \<exists>m. installGeneratedAliasCredentialsTx env i 1 True db1 = Inr (m, db2) else db2 = db1"
proof (cases "address_taken (in_db s) (ic_Address c)")
  case True
  from assms True have "in_db s' = in_db s" "in_enabled s' = in_enabled s"
    unfolding insert_imported_def by (auto simp: bind_res_Inr split: if_splits)
  then show thesis by (rule present)
next
  case False
  from assms False obtain hash i db1 db2 m where
    ins: "insert_alias (imported_row env x ic rc c e hash) (in_db s) = Inr (i, db1)"
    and inst: "(if ic then installGeneratedAliasCredentialsTx env i 1 True db1 else Inr (no_material, db1)) = Inr (m, db2)"
    and s': "in_db s' = db2" "in_enabled s' = (in_enabled s \<or> e)"
    unfolding insert_imported_def prod.case if_not_P [OF False] bind_res_Inr plain_Inr split_paired_Ex by auto
  have "routes_kept db1 db2" using inst by (auto split: if_splits intro: routes_kept_generated)
  with ins show thesis by (rule created [OF _ _ s']) (use inst in \<open>auto split: if_splits\<close>)
qed

lemma insert_imported_step:
  assumes "insert_imported env x ic st rc before item s = Inr s'" and "inserting x db s"
  shows "inserting x db s'"
proof -
  obtain c e where item: "item = (c, e)" by (cases item)
  from assms(1) [unfolded item] show ?thesis
  proof (cases rule: insert_imported_cases)
    case present
    with assms(2) show ?thesis by (simp add: inserting_def)
  next
    case (created hash i db1 db2)
    note ins = created(1) and kept = created(2)
    have "local_to x (in_db s) db2"
      using local_trans [OF insert_alias_local [OF ins, unfolded imported_row_facts] routes_kept_view(2) [OF kept]] .
    moreover have "enabled_ids db2 x = enabled_ids (in_db s) x" if "\<not> e"
      using routes_kept_view(3) [OF kept, of x] enabled_ids_append [OF insert_alias_facts(2) [OF ins], of x] that
      by (simp add: imported_row_facts)
    moreover have "md_sync (sb_mail db2) = md_sync (sb_mail (in_db s))"
      using kept insert_alias_facts(4) [OF ins] by (simp add: routes_kept_def)
    ultimately show ?thesis using assms(2) created(3,4) by (auto simp: inserting_def intro: local_trans)
  qed
qed

lemma insertions_step:
  assumes "fold_res (insert_imported env x ic st rc before) items s = Inr s'" and "inserting x db s"
  shows "inserting x db s'"
  by (rule fold_res_invariant [OF assms(1), where P = "inserting x db"]) (use assms(2) insert_imported_step in blast)+

subsection \<open>The import\<close>

lemma import_cases:
  assumes "import_tx env x cs ic st required directory db = Inr (r, db')"
  obtains v state res pending routing res1 db1 s where "store_version db x = Some v"
    "readAccountMailboxStateTx db x = Inr state" "mailbox_allows db state required cs = Inr ()"
    "fold_res (classify db x st) cs (empty_result, []) = Inr (res, pending)" "ir_Conflicts res = []"
    "(case directory of None \<Rightarrow> Inr (False, res, db)
        | Some presence \<Rightarrow> reconcileAppleAliasesTx env x cs presence res db) = Inr (routing, res1, db1)"
    "import_capacity db1 x (mailboxHasEnabledAliasLimit (ms_MailboxType state)) st pending = Inr ()"
    "fold_res (insert_imported env x ic st (directory \<noteq> None) (ir_Existing res))
       (sort_key (\<lambda>it. ic_Address (fst it)) (assign_enabled (mailboxHasEnabledAliasLimit (ms_MailboxType state)) (capacity_used db1 x) pending))
       \<lparr>in_db = db1, in_result = res1, in_created = [], in_credentials = [], in_enabled = False\<rparr> = Inr s"
    "(if in_enabled s \<or> routing then bumpAccountVersionTx env x v (if in_enabled s then reset_cursor x (in_db s) else in_db s)
      else Inr (if in_enabled s then reset_cursor x (in_db s) else in_db s)) = Inr db'"
proof -
  from assms obtain v state res pending routing res1 db1 s where v: "lockAccount db x = Inr v"
    and rest: "readAccountMailboxStateTx db x = Inr state" "mailbox_allows db state required cs = Inr ()"
    "fold_res (classify db x st) cs (empty_result, []) = Inr (res, pending)" "\<not> (ir_Conflicts res \<noteq> [])"
    "(case directory of None \<Rightarrow> Inr (False, res, db)
        | Some presence \<Rightarrow> reconcileAppleAliasesTx env x cs presence res db) = Inr (routing, res1, db1)"
    "import_capacity db1 x (mailboxHasEnabledAliasLimit (ms_MailboxType state)) st pending = Inr ()"
    "fold_res (insert_imported env x ic st (directory \<noteq> None) (ir_Existing res))
       (sort_key (\<lambda>it. ic_Address (fst it)) (assign_enabled (mailboxHasEnabledAliasLimit (ms_MailboxType state)) (capacity_used db1 x) pending))
       \<lparr>in_db = db1, in_result = res1, in_created = [], in_credentials = [], in_enabled = False\<rparr> = Inr s"
    "(if in_enabled s \<or> routing then bumpAccountVersionTx env x v (if in_enabled s then reset_cursor x (in_db s) else in_db s)
      else Inr (if in_enabled s then reset_cursor x (in_db s) else in_db s)) = Inr db'"
    unfolding import_tx_def Let_def tx_simps plain_Inr by blast
  show thesis by (rule that [of v state res pending routing res1 db1 s]) (use v rest in \<open>simp_all add: lockAccount_version\<close>)
qed

lemma import_ok:
  assumes "import_tx env x cs ic st required directory db = Inr (r, db')" and uniq: "unique_key a_ID (sb_aliases db)"
  shows "fenced x db db'" and "boundary db db'"
proof -
  from assms(1) obtain v res pending routing res1 db1 s and state :: mailbox_state where v: "store_version db x = Some v"
    and rec: "(case directory of None \<Rightarrow> Inr (False, res, db)
        | Some presence \<Rightarrow> reconcileAppleAliasesTx env x cs presence res db) = Inr (routing, res1, db1)"
    and fold: "fold_res (insert_imported env x ic st (directory \<noteq> None) (ir_Existing res))
       (sort_key (\<lambda>it. ic_Address (fst it)) (assign_enabled (mailboxHasEnabledAliasLimit (ms_MailboxType state)) (capacity_used db1 x) pending))
       \<lparr>in_db = db1, in_result = res1, in_created = [], in_credentials = [], in_enabled = False\<rparr> = Inr s"
    and fin: "(if in_enabled s \<or> routing then bumpAccountVersionTx env x v (if in_enabled s then reset_cursor x (in_db s) else in_db s)
      else Inr (if in_enabled s then reset_cursor x (in_db s) else in_db s)) = Inr db'"
    by (rule import_cases) blast
  let ?d = "if in_enabled s then reset_cursor x (in_db s) else in_db s"
  have r: "local_to x db db1 \<and> enabled_ids db1 x \<subseteq> enabled_ids db x \<and> (\<not> routing \<longrightarrow> enabled_ids db1 x = enabled_ids db x)"
  proof (cases directory)
    case None
    with rec show ?thesis by auto
  next
    case (Some presence)
    with rec have "reconcileAppleAliasesTx env x cs presence res db = Inr (routing, res1, db1)" by simp
    from reconcile_facts [OF this uniq] show ?thesis by blast
  qed
  have i: "inserting x db1 s" by (rule insertions_step [OF fold]) (simp add: inserting_def)
  have loc: "local_to x db ?d"
    using r i by (auto simp: inserting_def local_to_def enabled_ids_def)
  have ids: "enabled_ids ?d x = enabled_ids (in_db s) x" by (simp add: enabled_ids_def)
  have "fenced x db db' \<and> boundary db db'"
  proof (cases "in_enabled s \<or> routing")
    case True
    with fin have bump: "bumpAccountVersionTx env x v ?d = Inr db'" by simp
    have m: "moves x db db'" by (rule local_bump_moves [OF v loc bump])
    have "enabled_ids db' x \<subseteq> enabled_ids db x \<or> cursor db' x = None"
    proof (cases "in_enabled s")
      case True
      with bump_facts(3) [OF bump] view_reset_cursor(4) [of x "in_db s"] show ?thesis by (simp add: cursor_def)
    next
      case False
      with i r have "enabled_ids ?d x \<subseteq> enabled_ids db x" by (simp add: inserting_def)
      with bump_facts(1) [OF bump] show ?thesis by (simp add: enabled_ids_def)
    qed
    with m show ?thesis by (simp add: fenced_def boundary_moves)
  next
    case False
    with fin have db': "db' = in_db s" by simp
    from False i r have "enabled_ids (in_db s) x = enabled_ids db x" by (simp add: inserting_def)
    with loc False have "quiet db db'" unfolding db' by (intro local_quiet) auto
    then show ?thesis by (simp add: fenced_def boundary_quiet)
  qed
  then show "fenced x db db'" "boundary db db'" by simp_all
qed

end
