(* ===== verification/StoreWellFormed.thy ===== *)
theory StoreWellFormed
  imports StoreImportFacts
begin

section \<open>Well-formed store tables\<close>

text \<open>
  The constraints of the schema on accounts, aliases, groups, one-time keys, sessions and schedules,
  as one predicate, and what each statement must keep of a row for the predicate to survive.
\<close>

subsection \<open>The predicate\<close>

definition account_exists :: "store_db \<Rightarrow> int \<Rightarrow> bool" where
  "account_exists db i \<longleftrightarrow> find_by ac_ID i (sb_accounts db) \<noteq> None"

definition group_ok :: "store_db \<Rightarrow> int option \<Rightarrow> bool" where
  "group_ok db g \<longleftrightarrow> (case g of None \<Rightarrow> True | Some i \<Rightarrow> 1 \<le> i \<and> find_by mg_ID i (sb_groups db) \<noteq> None)"

definition accounts_wf :: "store_db \<Rightarrow> bool" where
  "accounts_wf db \<longleftrightarrow> unique_key ac_ID (sb_accounts db) \<and> unique_key (\<lambda>a. nocase (ac_Email a)) (sb_accounts db) \<and>
     (\<forall>a \<in> set (sb_accounts db). ac_ID a < sb_next_account db \<and> 1 \<le> ac_IMAPPort a \<and> ac_IMAPPort a \<le> 65535)"

definition aliases_wf :: "store_db \<Rightarrow> bool" where
  "aliases_wf db \<longleftrightarrow> unique_key a_ID (sb_aliases db) \<and> unique_key (\<lambda>a. nocase (a_Address a)) (sb_aliases db) \<and>
     unique_key a_APIKeyHash (sb_aliases db) \<and>
     (\<forall>a \<in> set (sb_aliases db). \<forall>b \<in> set (sb_aliases db). a_OAuthClientID a \<noteq> [] \<and> a_OAuthClientID a = a_OAuthClientID b \<longrightarrow> a_ID a = a_ID b) \<and>
     (\<forall>a \<in> set (sb_aliases db). a_ID a < sb_next_alias db \<and> a_APIKeyHash a \<noteq> [] \<and> account_exists db (a_AccountID a) \<and>
        a_CredentialMode a \<in> {AliasCredentialModeLegacy, AliasCredentialModeV2} \<and> group_ok db (a_GroupID a))"

definition pending_wf :: "store_db \<Rightarrow> bool" where
  "pending_wf db \<longleftrightarrow> unique_key pk_AliasID (sb_pending db) \<and>
     (\<forall>p \<in> set (sb_pending db). find_by a_ID (pk_AliasID p) (sb_aliases db) \<noteq> None)"

definition groups_wf :: "store_db \<Rightarrow> bool" where
  "groups_wf db \<longleftrightarrow> unique_key mg_ID (sb_groups db) \<and> unique_key mg_NameKey (sb_groups db) \<and>
     (\<forall>g \<in> set (sb_groups db). 1 \<le> mg_ID g \<and> mg_ID g < sb_next_group db) \<and> 1 \<le> sb_next_group db"

definition extras_wf :: "store_db \<Rightarrow> bool" where
  "extras_wf db \<longleftrightarrow> unique_key aw_AccountID (sb_apple db) \<and> (\<forall>w \<in> set (sb_apple db). account_exists db (aw_AccountID w)) \<and>
     unique_key cs_AccountID (sb_schedules db) \<and> (\<forall>c \<in> set (sb_schedules db). account_exists db (cs_AccountID c))"

definition store_wf :: "store_db \<Rightarrow> bool" where
  "store_wf db \<longleftrightarrow> accounts_wf db \<and> aliases_wf db \<and> pending_wf db \<and> groups_wf db \<and> extras_wf db"

lemmas store_wf_defs = store_wf_def accounts_wf_def aliases_wf_def pending_wf_def groups_wf_def extras_wf_def

lemma store_wf_unique:
  "store_wf db \<Longrightarrow> unique_key a_ID (sb_aliases db)" "store_wf db \<Longrightarrow> unique_key ac_ID (sb_accounts db)"
  by (simp_all add: store_wf_defs)

subsection \<open>Identities of rows\<close>

text \<open>The columns of an alias and of an account that the predicate mentions.\<close>

definition alias_key :: "mail_alias \<Rightarrow> int \<times> int \<times> string \<times> string \<times> string \<times> string \<times> int option" where
  "alias_key a = (a_ID a, a_AccountID a, nocase (a_Address a), a_APIKeyHash a, a_OAuthClientID a, a_CredentialMode a, a_GroupID a)"

definition account_key :: "account \<Rightarrow> int \<times> string \<times> int" where
  "account_key a = (ac_ID a, nocase (ac_Email a), ac_IMAPPort a)"

lemma key_columns:
  "a_ID a = fst (alias_key a)" "a_AccountID a = fst (snd (alias_key a))" "nocase (a_Address a) = fst (snd (snd (alias_key a)))"
  "a_APIKeyHash a = fst (snd (snd (snd (alias_key a))))" "a_OAuthClientID a = fst (snd (snd (snd (snd (alias_key a)))))"
  "a_CredentialMode a = fst (snd (snd (snd (snd (snd (alias_key a))))))" "a_GroupID a = snd (snd (snd (snd (snd (snd (alias_key a))))))"
  "ac_ID b = fst (account_key b)" "nocase (ac_Email b) = fst (snd (account_key b))" "ac_IMAPPort b = snd (snd (account_key b))"
  by (simp_all add: alias_key_def account_key_def)

lemma unique_key_through: "map p rows' = map p rows \<Longrightarrow> unique_key (\<lambda>r. g (p r)) rows' \<longleftrightarrow> unique_key (\<lambda>r. g (p r)) rows"
proof -
  assume "map p rows' = map p rows"
  from arg_cong [OF this, of "map g"] have "map (\<lambda>r. g (p r)) rows' = map (\<lambda>r. g (p r)) rows" by (simp add: comp_def)
  then show ?thesis unfolding unique_key_def by simp
qed

lemma ball_map: "map p rows' = map p rows \<Longrightarrow> (\<forall>r \<in> set rows'. Q (p r)) \<longleftrightarrow> (\<forall>r \<in> set rows. Q (p r))"
proof -
  assume "map p rows' = map p rows"
  from arg_cong [OF this, of set] have "p ` set rows' = p ` set rows" by simp
  then show ?thesis by (metis (no_types, lifting) imageE image_eqI)
qed

lemma found_map:
  assumes "map p rows' = map p rows"
  shows "(find_by (\<lambda>r. g (p r)) k rows' \<noteq> None) \<longleftrightarrow> (find_by (\<lambda>r. g (p r)) k rows \<noteq> None)"
  using ball_map [OF assms, of "\<lambda>x. g x \<noteq> k"] by (simp add: find_by_None)

text \<open>Rows with the same identities satisfy the same constraints.\<close>

lemma account_exists_same: "map account_key (sb_accounts db') = map account_key (sb_accounts db) \<Longrightarrow> account_exists db' i = account_exists db i"
  unfolding account_exists_def key_columns(8) by (rule found_map)

lemma accounts_wf_same:
  assumes "map account_key (sb_accounts db') = map account_key (sb_accounts db)" and "sb_next_account db' = sb_next_account db"
  shows "accounts_wf db' \<longleftrightarrow> accounts_wf db"
  unfolding accounts_wf_def key_columns(8-10) assms(2)
  using unique_key_through [OF assms(1), of fst] unique_key_through [OF assms(1), of "\<lambda>x. fst (snd x)"]
    ball_map [OF assms(1), of "\<lambda>x. fst x < sb_next_account db \<and> 1 \<le> snd (snd x) \<and> snd (snd x) \<le> 65535"] by simp

lemma aliases_wf_same:
  assumes al: "map alias_key (sb_aliases db') = map alias_key (sb_aliases db)" and "sb_next_alias db' = sb_next_alias db"
    and acc: "\<And>i. account_exists db i \<Longrightarrow> account_exists db' i" and grp: "\<And>g. group_ok db g \<Longrightarrow> group_ok db' g"
    and wf: "aliases_wf db"
  shows "aliases_wf db'"
proof -
  let ?Q = "\<lambda>x. fst x < sb_next_alias db \<and> fst (snd (snd (snd x))) \<noteq> [] \<and> account_exists db' (fst (snd x)) \<and>
     fst (snd (snd (snd (snd (snd x))))) \<in> {AliasCredentialModeLegacy, AliasCredentialModeV2} \<and> group_ok db' (snd (snd (snd (snd (snd (snd x))))))"
  have "\<forall>a \<in> set (sb_aliases db). ?Q (alias_key a)"
    using wf acc grp unfolding aliases_wf_def by (auto simp: alias_key_def)
  then have "\<forall>a \<in> set (sb_aliases db'). ?Q (alias_key a)" using ball_map [OF al, of ?Q] by simp
  then have rows: "\<forall>a \<in> set (sb_aliases db'). a_ID a < sb_next_alias db' \<and> a_APIKeyHash a \<noteq> [] \<and> account_exists db' (a_AccountID a) \<and>
        a_CredentialMode a \<in> {AliasCredentialModeLegacy, AliasCredentialModeV2} \<and> group_ok db' (a_GroupID a)"
    by (simp add: alias_key_def assms(2))
  have u: "unique_key a_ID (sb_aliases db') = unique_key a_ID (sb_aliases db)"
    "unique_key (\<lambda>a. nocase (a_Address a)) (sb_aliases db') = unique_key (\<lambda>a. nocase (a_Address a)) (sb_aliases db)"
    "unique_key a_APIKeyHash (sb_aliases db') = unique_key a_APIKeyHash (sb_aliases db)"
    using unique_key_through [OF al, of fst] unique_key_through [OF al, of "\<lambda>x. fst (snd (snd x))"]
      unique_key_through [OF al, of "\<lambda>x. fst (snd (snd (snd x)))"]
    by (simp_all add: alias_key_def)
  let ?R = "\<lambda>x y. fst (snd (snd (snd (snd x)))) \<noteq> [] \<and> fst (snd (snd (snd (snd x)))) = fst (snd (snd (snd (snd y)))) \<longrightarrow> fst x = fst y"
  from wf have "\<forall>a \<in> set (sb_aliases db). \<forall>b \<in> set (sb_aliases db). a_OAuthClientID a \<noteq> [] \<and>
      a_OAuthClientID a = a_OAuthClientID b \<longrightarrow> a_ID a = a_ID b" unfolding aliases_wf_def by blast
  then have "\<forall>a \<in> set (sb_aliases db). \<forall>b \<in> set (sb_aliases db). ?R (alias_key a) (alias_key b)" by (simp add: alias_key_def)
  moreover have "(\<forall>b \<in> set (sb_aliases db'). ?R x (alias_key b)) \<longleftrightarrow> (\<forall>b \<in> set (sb_aliases db). ?R x (alias_key b))" for x
    by (rule ball_map [OF al, of "?R x"])
  ultimately have "\<forall>a \<in> set (sb_aliases db). \<forall>b \<in> set (sb_aliases db'). ?R (alias_key a) (alias_key b)" by blast
  then have "\<forall>a \<in> set (sb_aliases db'). \<forall>b \<in> set (sb_aliases db'). ?R (alias_key a) (alias_key b)"
    by (rule iffD2 [OF ball_map [OF al, of "\<lambda>x. \<forall>b \<in> set (sb_aliases db'). ?R x (alias_key b)"]])
  then have client: "\<forall>a \<in> set (sb_aliases db'). \<forall>b \<in> set (sb_aliases db'). a_OAuthClientID a \<noteq> [] \<and>
      a_OAuthClientID a = a_OAuthClientID b \<longrightarrow> a_ID a = a_ID b" by (simp add: alias_key_def)
  from wf have "unique_key a_ID (sb_aliases db)" "unique_key (\<lambda>a. nocase (a_Address a)) (sb_aliases db)" "unique_key a_APIKeyHash (sb_aliases db)"
    unfolding aliases_wf_def by blast+
  with u rows client show ?thesis unfolding aliases_wf_def by blast
qed

lemma pending_wf_same:
  assumes "map alias_key (sb_aliases db') = map alias_key (sb_aliases db)" and "map pk_AliasID (sb_pending db') = map pk_AliasID (sb_pending db)"
  shows "pending_wf db' \<longleftrightarrow> pending_wf db"
  unfolding pending_wf_def key_columns(1)
  using unique_key_through [OF assms(2), of "\<lambda>x. x"] found_map [OF assms(1), of fst]
    ball_map [OF assms(2), of "\<lambda>x. find_by (\<lambda>a. fst (alias_key a)) x (sb_aliases db) \<noteq> None"] by auto

lemma groups_wf_same: "sb_groups db' = sb_groups db \<Longrightarrow> sb_next_group db' = sb_next_group db \<Longrightarrow> groups_wf db' \<longleftrightarrow> groups_wf db"
  by (simp add: groups_wf_def)

lemma group_ok_same: "sb_groups db' = sb_groups db \<Longrightarrow> group_ok db' g = group_ok db g"
  by (cases g) (simp_all add: group_ok_def)

lemma extras_wf_same:
  assumes acc: "\<And>i. account_exists db i \<Longrightarrow> account_exists db' i" and "sb_apple db' = sb_apple db" and "sb_schedules db' = sb_schedules db"
    and "extras_wf db"
  shows "extras_wf db'"
  using assms by (auto simp: extras_wf_def)

text \<open>Operations that keep the identity of every row keep the whole predicate.\<close>

definition keys_kept :: "store_db \<Rightarrow> store_db \<Rightarrow> bool" where
  "keys_kept db db' \<longleftrightarrow> map account_key (sb_accounts db') = map account_key (sb_accounts db) \<and> sb_next_account db' = sb_next_account db \<and>
     map alias_key (sb_aliases db') = map alias_key (sb_aliases db) \<and> sb_next_alias db' = sb_next_alias db \<and>
     map pk_AliasID (sb_pending db') = map pk_AliasID (sb_pending db) \<and> sb_groups db' = sb_groups db \<and>
     sb_next_group db' = sb_next_group db \<and> sb_apple db' = sb_apple db \<and> sb_schedules db' = sb_schedules db"

lemma keys_kept_wf:
  assumes "keys_kept db db'" and "store_wf db"
  shows "store_wf db'"
proof -
  have acc: "account_exists db' i = account_exists db i" for i
    by (rule account_exists_same) (use assms(1) in \<open>simp add: keys_kept_def\<close>)
  have grp: "group_ok db' g = group_ok db g" for g by (rule group_ok_same) (use assms(1) in \<open>simp add: keys_kept_def\<close>)
  have "accounts_wf db' = accounts_wf db" by (rule accounts_wf_same) (use assms(1) in \<open>simp_all add: keys_kept_def\<close>)
  moreover have "aliases_wf db'"
    by (rule aliases_wf_same [of db' db]) (use assms acc grp in \<open>simp_all add: keys_kept_def store_wf_def\<close>)
  moreover have "pending_wf db' = pending_wf db" by (rule pending_wf_same) (use assms(1) in \<open>simp_all add: keys_kept_def\<close>)
  moreover have "groups_wf db' = groups_wf db" by (rule groups_wf_same) (use assms(1) in \<open>simp_all add: keys_kept_def\<close>)
  moreover have "extras_wf db'" by (rule extras_wf_same [of db]) (use assms acc in \<open>simp_all add: keys_kept_def store_wf_def\<close>)
  ultimately show ?thesis using assms(2) by (simp add: store_wf_def)
qed

lemma map_update_where: "(\<And>a. P a \<Longrightarrow> p (f a) = p a) \<Longrightarrow> map p (update_where P f rows) = map p rows"
  by (rule map_key_update_where)

lemma keys_kept_trans [trans]: "keys_kept a b \<Longrightarrow> keys_kept b c \<Longrightarrow> keys_kept a c"
  by (simp add: keys_kept_def)

lemma keys_kept_refl [simp]: "keys_kept db db"
  by (simp add: keys_kept_def)

lemma keys_kept_set_aliases: "(\<And>a. P a \<Longrightarrow> alias_key (f a) = alias_key a) \<Longrightarrow> keys_kept db (set_aliases (update_where P f) db)"
  by (simp add: keys_kept_def set_aliases_def map_update_where)

lemma keys_kept_set_accounts: "(\<And>a. P a \<Longrightarrow> account_key (f a) = account_key a) \<Longrightarrow> keys_kept db (set_accounts (update_where P f) db)"
  by (simp add: keys_kept_def set_accounts_def map_update_where)

lemma keys_kept_simple [simp]: "keys_kept db (reset_cursor x db)" "keys_kept db (write_audit env l db)" "keys_kept db (revoke_admin i v db)"
  by (simp_all add: keys_kept_def reset_cursor_def write_audit_def revoke_admin_def)

lemma keys_kept_bump: "bumpAccountVersionTx env x v db = Inr db' \<Longrightarrow> keys_kept db db'"
  by (auto simp: bumpAccountVersionTx_def bind_res_Inr account_key_def split: if_splits intro!: keys_kept_set_accounts)

lemma keys_kept_publish: "publish_enabled env x v db = Inr db' \<Longrightarrow> keys_kept db db'"
  unfolding publish_enabled_def using keys_kept_trans keys_kept_simple(1) keys_kept_bump by blast

end
