(* ===== verification/StoreWfSteps.thy ===== *)
theory StoreWfSteps
  imports StoreWellFormed
begin

section \<open>Statements and well-formed tables\<close>

text \<open>
  Each statement that changes the identity of rows keeps the tables well-formed: installing a bundle,
  inserting and deleting rows, one-time keys, groups, sessions, schedules and account rows.
\<close>

lemma find_by_update_where_None:
  "(\<And>a. P a \<Longrightarrow> key (f a) = key a) \<Longrightarrow> (find_by key k (update_where P f rows) \<noteq> None) = (find_by key k rows \<noteq> None)"
  by (simp add: find_by_update_where)

subsection \<open>Bundles\<close>

lemma aliases_wfD:
  assumes "aliases_wf db" and "a \<in> set (sb_aliases db)"
  shows "a_ID a < sb_next_alias db" "a_APIKeyHash a \<noteq> []" "account_exists db (a_AccountID a)"
    "a_CredentialMode a \<in> {AliasCredentialModeLegacy, AliasCredentialModeV2}" "group_ok db (a_GroupID a)"
    "b \<in> set (sb_aliases db) \<Longrightarrow> a_OAuthClientID a \<noteq> [] \<Longrightarrow> a_OAuthClientID a = a_OAuthClientID b \<Longrightarrow> a_ID a = a_ID b"
  using assms unfolding aliases_wf_def by blast+

lemma aliases_wfI:
  assumes "unique_key a_ID (sb_aliases db)" "unique_key (\<lambda>a. nocase (a_Address a)) (sb_aliases db)"
    "unique_key a_APIKeyHash (sb_aliases db)"
    "\<And>a b. a \<in> set (sb_aliases db) \<Longrightarrow> b \<in> set (sb_aliases db) \<Longrightarrow> a_OAuthClientID a \<noteq> [] \<Longrightarrow>
       a_OAuthClientID a = a_OAuthClientID b \<Longrightarrow> a_ID a = a_ID b"
    "\<And>a. a \<in> set (sb_aliases db) \<Longrightarrow> a_ID a < sb_next_alias db \<and> a_APIKeyHash a \<noteq> [] \<and> account_exists db (a_AccountID a) \<and>
       a_CredentialMode a \<in> {AliasCredentialModeLegacy, AliasCredentialModeV2} \<and> group_ok db (a_GroupID a)"
  shows "aliases_wf db"
  unfolding aliases_wf_def
proof (intro conjI)
  show "\<forall>a \<in> set (sb_aliases db). \<forall>b \<in> set (sb_aliases db).
      a_OAuthClientID a \<noteq> [] \<and> a_OAuthClientID a = a_OAuthClientID b \<longrightarrow> a_ID a = a_ID b"
    by (intro ballI impI, elim conjE, rule assms(4))
qed (use assms(5) in \<open>simp_all add: assms(1-3)\<close>)

lemma set_one_alias_wf:
  assumes wf: "store_wf db"
    and f: "\<And>a. a_ID (f a) = a_ID a \<and> a_AccountID (f a) = a_AccountID a \<and> a_Address (f a) = a_Address a \<and> a_GroupID (f a) = a_GroupID a"
    and hash: "\<And>a. a_APIKeyHash (f a) = hash" and client: "\<And>a. a_OAuthClientID (f a) = client \<or> a_OAuthClientID (f a) = a_OAuthClientID a"
    and ok: "alias_keys_ok db i hash client" "client = [] \<Longrightarrow> \<forall>a. a_OAuthClientID (f a) = a_OAuthClientID a"
    and mode: "\<And>a. a_CredentialMode (f a) = a_CredentialMode a \<or> a_CredentialMode (f a) = AliasCredentialModeV2"
  shows "store_wf (set_aliases (update_where (\<lambda>a. a_ID a = i \<and> Q a) f) db)"
proof -
  let ?P = "\<lambda>a. a_ID a = i \<and> Q a"
  let ?db' = "set_aliases (update_where ?P f) db"
  have awf: "aliases_wf db" using wf by (simp add: store_wf_def)
  have fresh: "a_APIKeyHash a \<noteq> hash" if "a \<in> set (sb_aliases db)" "a_ID a \<noteq> i" for a
    using ok(1) that by (auto simp: alias_keys_ok_def list_ex_iff)
  have u1: "unique_key a_ID (sb_aliases db)" "unique_key (\<lambda>a. nocase (a_Address a)) (sb_aliases db)" "unique_key a_APIKeyHash (sb_aliases db)"
    using awf unfolding aliases_wf_def by blast+
  have uid: "unique_key a_ID (update_where ?P f (sb_aliases db))"
    using u1(1) f unique_key_update_where [of ?P a_ID f] by blast
  have uad: "unique_key (\<lambda>a. nocase (a_Address a)) (update_where ?P f (sb_aliases db))"
    using u1(2) f unique_key_update_where [of ?P "\<lambda>a. nocase (a_Address a)" f] by simp
  have uh: "unique_key a_APIKeyHash (update_where ?P f (sb_aliases db))"
    by (rule unique_key_rename [OF u1(1,3), of i hash f Q]) (use fresh hash in auto)
  have acc: "account_exists ?db' x = account_exists db x" for x by (simp add: account_exists_def)
  have grp: "group_ok ?db' g = group_ok db g" for g by (rule group_ok_same) simp
  have row: "a_ID b < sb_next_alias db \<and> a_APIKeyHash b \<noteq> [] \<and> account_exists db (a_AccountID b) \<and>
        a_CredentialMode b \<in> {AliasCredentialModeLegacy, AliasCredentialModeV2} \<and> group_ok db (a_GroupID b)"
    if "b \<in> set (update_where ?P f (sb_aliases db))" for b
  proof -
    from that obtain a where a: "a \<in> set (sb_aliases db)" "b = (if ?P a then f a else a)" by (auto simp: set_update_where)
    have "hash \<noteq> []" using ok(1) by (simp add: alias_keys_ok_def)
    then show ?thesis using aliases_wfD(1-5) [OF awf a(1)] a(2) f [of a] hash [of a] mode [of a] by (auto split: if_splits)
  qed
  have clients: "a_ID b = a_ID c" if "b \<in> set (update_where ?P f (sb_aliases db))" "c \<in> set (update_where ?P f (sb_aliases db))"
      "a_OAuthClientID b \<noteq> []" "a_OAuthClientID b = a_OAuthClientID c" for b c
  proof -
    from that(1,2) obtain x y where x: "x \<in> set (sb_aliases db)" "b = (if ?P x then f x else x)"
      and y: "y \<in> set (sb_aliases db)" "c = (if ?P y then f y else y)" by (auto simp: set_update_where)
    have ids: "a_ID b = a_ID x" "a_ID c = a_ID y" using x y f by auto
    have new: "z \<in> set (sb_aliases db) \<Longrightarrow> client \<noteq> [] \<Longrightarrow> a_OAuthClientID z = client \<Longrightarrow> a_ID z = i" for z
      using ok(1) by (auto simp: alias_keys_ok_def list_ex_iff)
    have same: "a_ID x = a_ID y" if "a_OAuthClientID x = a_OAuthClientID y" "a_OAuthClientID x \<noteq> []"
      using aliases_wfD(6) [OF awf x(1) y(1)] that by blast
    show ?thesis
    proof (cases "client = []")
      case True
      then show ?thesis using ok(2) same ids x(2) y(2) that(3,4) by (auto split: if_splits)
    next
      case False
      have bx: "(a_ID x = i \<and> a_OAuthClientID b = client) \<or> a_OAuthClientID b = a_OAuthClientID x"
        using x(2) client [of x] by (auto split: if_splits)
      have cy: "(a_ID y = i \<and> a_OAuthClientID c = client) \<or> a_OAuthClientID c = a_OAuthClientID y"
        using y(2) client [of y] by (auto split: if_splits)
      from bx cy show ?thesis using same new [OF x(1) False] new [OF y(1) False] that(3,4) ids by metis
    qed
  qed
  have "aliases_wf ?db'" unfolding aliases_wf_def view_set_aliases acc grp using uid uad uh row clients by blast
  moreover have "accounts_wf ?db' = accounts_wf db" by (rule accounts_wf_same) simp_all
  moreover have "pending_wf ?db'"
    using wf f find_by_update_where_None [of ?P a_ID f] by (simp add: store_wf_def pending_wf_def)
  moreover have "groups_wf ?db' = groups_wf db" by (rule groups_wf_same) (simp_all add: set_aliases_def)
  moreover have "extras_wf ?db'" by (rule extras_wf_same [of db]) (use wf acc in \<open>simp_all add: store_wf_def set_aliases_def\<close>)
  ultimately show ?thesis using wf by (simp add: store_wf_def)
qed

lemma material_wf:
  assumes "store_material env i m v db = Inr db'" and "store_wf db" and "cm_OAuthClientID m \<noteq> []"
  shows "store_wf db'"
proof -
  have ok: "alias_keys_ok db i (cm_APIKeyHash m) (cm_OAuthClientID m)"
    and db': "db' = set_aliases (update_where (\<lambda>a. a_ID a = i) (with_material env m v)) db"
    using assms(1) by (auto simp: store_material_def split: if_splits)
  have "store_wf (set_aliases (update_where (\<lambda>a. a_ID a = i \<and> True) (with_material env m v)) db)"
    by (rule set_one_alias_wf [OF assms(2), where hash = "cm_APIKeyHash m" and client = "cm_OAuthClientID m"])
      (use ok assms(3) in \<open>simp_all add: with_material_def\<close>)
  then show ?thesis by (simp add: db')
qed

lemma valid_material_client: "validateAliasCredentialMaterialVersion m v \<Longrightarrow> cm_OAuthClientID m \<noteq> []"
  by (auto simp: validateAliasCredentialMaterialVersion_def validateAliasCredentialMaterial_def trim_space_def text_simps)

lemma generated_wf:
  assumes "installGeneratedAliasCredentialsTx env i version init db = Inr (m, db')" and "store_wf db"
  shows "store_wf db'"
  using assms(1)
proof (cases rule: generated_cases)
  case unconfigured
  with assms(2) show ?thesis by simp
next
  case (installed v)
  show ?thesis by (rule material_wf [OF installed(2) assms(2) valid_material_client [OF installed(3)]])
qed

lemma reused_wf:
  assumes "installAliasCredentialMaterialTx env i version init issuer c hash db = Inr db'" and "store_wf db"
  shows "store_wf db'"
  using assms(1) by (rule reused_material) (rule material_wf [OF _ assms(2)], auto dest: valid_material_client)

subsection \<open>Rows of aliases\<close>

lemma wf_parts:
  "store_wf db \<Longrightarrow> accounts_wf db" "store_wf db \<Longrightarrow> aliases_wf db" "store_wf db \<Longrightarrow> pending_wf db"
  "store_wf db \<Longrightarrow> groups_wf db" "store_wf db \<Longrightarrow> extras_wf db"
  by (simp_all add: store_wf_def)

lemma wf_intro: "aliases_wf db \<Longrightarrow> accounts_wf db \<Longrightarrow> pending_wf db \<Longrightarrow> groups_wf db \<Longrightarrow> extras_wf db \<Longrightarrow> store_wf db"
  by (simp add: store_wf_def)

lemma insert_alias_wf:
  assumes ins: "insert_alias row db = Inr (i, db')" and wf: "store_wf db"
    and mode: "a_CredentialMode row \<in> {AliasCredentialModeLegacy, AliasCredentialModeV2}" and client: "a_OAuthClientID row = []"
    and grp: "group_ok db (a_GroupID row)"
  shows "store_wf db'"
proof -
  have i: "i = sb_next_alias db" and acc: "account_exists db (a_AccountID row)" and addr: "\<not> address_taken db (a_Address row)"
    and ok: "alias_keys_ok db i (a_APIKeyHash row) []"
    and db': "db' = (set_aliases (\<lambda>as. as @ [row\<lparr>a_ID := i\<rparr>]) db)\<lparr>sb_next_alias := i + 1\<rparr>"
    using ins by (auto simp: insert_alias_def Let_def account_exists_def split: if_splits)
  have al: "sb_aliases db' = sb_aliases db @ [row\<lparr>a_ID := i\<rparr>]" "sb_next_alias db' = i + 1" "sb_accounts db' = sb_accounts db"
      "sb_groups db' = sb_groups db" "sb_pending db' = sb_pending db" "sb_next_account db' = sb_next_account db"
      "sb_next_group db' = sb_next_group db" "sb_apple db' = sb_apple db" "sb_schedules db' = sb_schedules db"
    by (simp_all add: db' set_aliases_def)
  have acc': "account_exists db' x = account_exists db x" for x by (simp add: account_exists_def al)
  have grp': "group_ok db' g = group_ok db g" for g by (rule group_ok_same) (rule al)
  have a: "aliases_wf db" by (rule wf_parts(2) [OF wf])
  have less: "\<forall>b \<in> set (sb_aliases db). a_ID b < i" using aliases_wfD(1) [OF a] i by blast
  have fresh: "find_by a_ID i (sb_aliases db) = None" unfolding find_by_None using less by auto
  have ids: "unique_key a_ID (sb_aliases db')"
    unfolding al by (rule unique_key_append1) (use store_wf_unique(1) [OF wf] fresh in simp_all)
  have addrs: "unique_key (\<lambda>b. nocase (a_Address b)) (sb_aliases db')"
    unfolding al by (rule unique_key_append1) (use a addr in \<open>auto simp: aliases_wf_def find_by_None address_taken_def list_ex_iff\<close>)
  have hashes: "unique_key a_APIKeyHash (sb_aliases db')"
    unfolding al by (rule unique_key_append1) (use a ok less in \<open>auto simp: aliases_wf_def find_by_None alias_keys_ok_def list_ex_iff\<close>)
  have clients: "a_ID x = a_ID y" if "x \<in> set (sb_aliases db')" "y \<in> set (sb_aliases db')" "a_OAuthClientID x \<noteq> []" "a_OAuthClientID x = a_OAuthClientID y" for x y
  proof -
    have "x \<in> set (sb_aliases db)" "y \<in> set (sb_aliases db)" using that client by (auto simp: al)
    then show ?thesis using aliases_wfD(6) [OF a] that(3,4) by blast
  qed
  have rows: "a_ID b < sb_next_alias db' \<and> a_APIKeyHash b \<noteq> [] \<and> account_exists db' (a_AccountID b) \<and>
        a_CredentialMode b \<in> {AliasCredentialModeLegacy, AliasCredentialModeV2} \<and> group_ok db' (a_GroupID b)"
    if "b \<in> set (sb_aliases db')" for b
  proof (cases "b \<in> set (sb_aliases db)")
    case True
    then show ?thesis using aliases_wfD(1-5) [OF a True] less unfolding acc' grp' al by fastforce
  next
    case False
    with that have "b = row\<lparr>a_ID := i\<rparr>" by (simp add: al)
    then show ?thesis using acc mode grp ok unfolding acc' grp' al by (simp add: alias_keys_ok_def)
  qed
  have "aliases_wf db'" by (rule aliases_wfI [OF ids addrs hashes clients rows])
  moreover have "accounts_wf db'" using accounts_wf_same [of db' db] wf_parts(1) [OF wf] by (simp add: al)
  moreover have "pending_wf db'"
    using wf_parts(3) [OF wf] by (auto simp: pending_wf_def al find_by_append split: option.splits)
  moreover have "groups_wf db'" using groups_wf_same [of db' db] wf_parts(4) [OF wf] by (simp add: al)
  moreover have "extras_wf db'" by (rule extras_wf_same [of db]) (use wf_parts(5) [OF wf] acc' in \<open>simp_all add: al\<close>)
  ultimately show ?thesis by (rule wf_intro)
qed

lemma alias_row_columns:
  "a_CredentialMode (alias_row env x addr label g h p m en st err s t) = m" "a_OAuthClientID (alias_row env x addr label g h p m en st err s t) = []"
  "a_GroupID (alias_row env x addr label g h p m en st err s t) = g"
  by (simp_all add: alias_row_def)

lemma delete_aliases_wf:
  assumes "store_wf db"
  shows "store_wf (delete_aliases P db)"
proof -
  let ?d = "delete_aliases P db"
  have s: "sb_accounts ?d = sb_accounts db" "sb_next_account ?d = sb_next_account db" "sb_next_alias ?d = sb_next_alias db"
    "sb_groups ?d = sb_groups db" "sb_next_group ?d = sb_next_group db" "sb_apple ?d = sb_apple db" "sb_schedules ?d = sb_schedules db"
    "sb_aliases ?d = delete_where P (sb_aliases db)"
    "sb_pending ?d = delete_where (\<lambda>p. pk_AliasID p \<in> set (map a_ID (filter P (sb_aliases db)))) (sb_pending db)"
    by (simp_all add: delete_aliases_def Let_def)
  have acc: "account_exists ?d i = account_exists db i" for i by (simp add: account_exists_def s)
  have grp: "group_ok ?d g = group_ok db g" for g by (rule group_ok_same) (rule s)
  have a: "aliases_wf db" by (rule wf_parts(2) [OF assms])
  have "aliases_wf ?d"
  proof (rule aliases_wfI)
    show "a_ID x = a_ID y" if "x \<in> set (sb_aliases ?d)" "y \<in> set (sb_aliases ?d)" "a_OAuthClientID x \<noteq> []" "a_OAuthClientID x = a_OAuthClientID y" for x y
      using aliases_wfD(6) [OF a] that unfolding s set_delete_where by blast
    show "a_ID b < sb_next_alias ?d \<and> a_APIKeyHash b \<noteq> [] \<and> account_exists ?d (a_AccountID b) \<and>
       a_CredentialMode b \<in> {AliasCredentialModeLegacy, AliasCredentialModeV2} \<and> group_ok ?d (a_GroupID b)"
      if "b \<in> set (sb_aliases ?d)" for b using aliases_wfD(1-5) [OF a, of b] that unfolding acc grp s by simp
    show "unique_key a_ID (sb_aliases ?d)" "unique_key (\<lambda>a. nocase (a_Address a)) (sb_aliases ?d)" "unique_key a_APIKeyHash (sb_aliases ?d)"
      unfolding s using a by (auto simp only: aliases_wf_def intro!: unique_key_delete_where)
  qed
  moreover have "accounts_wf ?d" using accounts_wf_same [of ?d db] wf_parts(1) [OF assms] by (simp add: s)
  moreover have "pending_wf ?d"
    using wf_parts(3) [OF assms] unfolding pending_wf_def s find_by_None
    by (auto simp: unique_key_delete_where) (metis (mono_tags, lifting) image_eqI mem_Collect_eq)
  moreover have "groups_wf ?d" using groups_wf_same [of ?d db] wf_parts(4) [OF assms] by (simp add: s)
  moreover have "extras_wf ?d" by (rule extras_wf_same [of db]) (use wf_parts(5) [OF assms] acc in \<open>simp_all add: s\<close>)
  ultimately show ?thesis by (rule wf_intro)
qed

subsection \<open>One-time keys, sessions, schedules and groups\<close>

text \<open>Changes of the tables beside accounts and aliases.\<close>

definition main_same :: "store_db \<Rightarrow> store_db \<Rightarrow> bool" where
  "main_same db db' \<longleftrightarrow> sb_accounts db' = sb_accounts db \<and> sb_aliases db' = sb_aliases db \<and>
     sb_next_account db' = sb_next_account db \<and> sb_next_alias db' = sb_next_alias db"

lemma main_same_wf:
  assumes m: "main_same db db'" and wf: "store_wf db" and g: "sb_groups db' = sb_groups db" "sb_next_group db' = sb_next_group db"
    and p: "unique_key pk_AliasID (sb_pending db) \<Longrightarrow> unique_key pk_AliasID (sb_pending db')"
      "\<And>k. k \<in> set (sb_pending db') \<Longrightarrow> find_by a_ID (pk_AliasID k) (sb_aliases db) \<noteq> None"
    and w: "unique_key aw_AccountID (sb_apple db) \<Longrightarrow> unique_key aw_AccountID (sb_apple db')"
      "\<And>k. k \<in> set (sb_apple db') \<Longrightarrow> account_exists db (aw_AccountID k)"
    and c: "unique_key cs_AccountID (sb_schedules db) \<Longrightarrow> unique_key cs_AccountID (sb_schedules db')"
      "\<And>k. k \<in> set (sb_schedules db') \<Longrightarrow> account_exists db (cs_AccountID k)"
  shows "store_wf db'"
proof -
  have al: "sb_aliases db' = sb_aliases db" "sb_accounts db' = sb_accounts db" "sb_next_account db' = sb_next_account db"
      "sb_next_alias db' = sb_next_alias db" using m by (simp_all add: main_same_def)
  have acc: "account_exists db' i = account_exists db i" for i by (simp add: account_exists_def al)
  have grp: "group_ok db' x = group_ok db x" for x by (rule group_ok_same) (rule g)
  have "aliases_wf db'" by (rule aliases_wf_same [of db' db]) (use wf_parts(2) [OF wf] acc grp in \<open>simp_all add: al\<close>)
  moreover have "accounts_wf db'" using accounts_wf_same [of db' db] wf_parts(1) [OF wf] by (simp add: al)
  moreover have "pending_wf db'" using p wf_parts(3) [OF wf] by (simp add: pending_wf_def al)
  moreover have "groups_wf db'" using groups_wf_same [of db' db] wf_parts(4) [OF wf] g by simp
  moreover have "extras_wf db'" using w c wf_parts(5) [OF wf] by (simp add: extras_wf_def acc)
  ultimately show ?thesis by (rule wf_intro)
qed

text \<open>What the unchanged tables satisfy already.\<close>

lemma main_same_facts:
  assumes "store_wf db"
  shows "k \<in> set (sb_pending db) \<Longrightarrow> find_by a_ID (pk_AliasID k) (sb_aliases db) \<noteq> None"
    "w \<in> set (sb_apple db) \<Longrightarrow> account_exists db (aw_AccountID w)" "c \<in> set (sb_schedules db) \<Longrightarrow> account_exists db (cs_AccountID c)"
  using assms by (auto simp: store_wf_def pending_wf_def extras_wf_def)

lemma lock_exists: "lockAccount db x = Inr v \<Longrightarrow> account_exists db x"
  by (auto simp: lockAccount_version store_version_def version_of_def account_exists_def split: option.splits)

lemma delete_pending_wf: "store_wf db \<Longrightarrow> store_wf (delete_pending P db)"
  by (rule main_same_wf [of db]) (auto simp: main_same_def delete_pending_def unique_key_delete_where dest: main_same_facts)

lemma add_pending_wf:
  assumes "add_pending env i c db = Inr db'" and "store_wf db" and "find_by a_ID i (sb_aliases db) \<noteq> None"
  shows "store_wf db'"
proof (rule main_same_wf [OF _ assms(2)])
  have db': "db' = db\<lparr>sb_pending := sb_pending db @ [\<lparr>pk_AliasID = i, pk_Ciphertext = c, pk_CreatedAt = stamp env\<rparr>]\<rparr>"
    and fresh: "find_by pk_AliasID i (sb_pending db) = None"
    using assms(1) by (auto simp: add_pending_def find_pending_def split: if_splits)
  show "unique_key pk_AliasID (sb_pending db) \<Longrightarrow> unique_key pk_AliasID (sb_pending db')"
    unfolding db' using fresh by (simp add: unique_key_append1)
  show "find_by a_ID (pk_AliasID k) (sb_aliases db) \<noteq> None" if "k \<in> set (sb_pending db')" for k
    using that main_same_facts(1) [OF assms(2), of k] assms(3) by (auto simp: db')
  show "main_same db db'" "sb_groups db' = sb_groups db" "sb_next_group db' = sb_next_group db" by (simp_all add: main_same_def db')
  show "unique_key aw_AccountID (sb_apple db')" if "unique_key aw_AccountID (sb_apple db)" using that by (simp add: db')
  show "unique_key cs_AccountID (sb_schedules db')" if "unique_key cs_AccountID (sb_schedules db)" using that by (simp add: db')
  show "account_exists db (aw_AccountID k)" if "k \<in> set (sb_apple db')" for k using that main_same_facts(2) [OF assms(2)] by (simp add: db')
  show "account_exists db (cs_AccountID k)" if "k \<in> set (sb_schedules db')" for k using that main_same_facts(3) [OF assms(2)] by (simp add: db')
qed

lemma put_session_wf:
  assumes "store_wf db" and "account_exists db (aw_AccountID row)"
  shows "store_wf (put_session row db)"
proof (rule main_same_wf [OF _ assms(1)])
  show "unique_key aw_AccountID (sb_apple (put_session row db))" if "unique_key aw_AccountID (sb_apple db)"
    using that by (simp add: put_session_def unique_key_upsert_by)
  show "account_exists db (aw_AccountID k)" if "k \<in> set (sb_apple (put_session row db))" for k
    using that assms(2) main_same_facts(2) [OF assms(1)] by (auto simp: put_session_def upsert_by_def set_update_where split: if_splits)
qed (use main_same_facts [OF assms(1)] in \<open>auto simp: main_same_def put_session_def\<close>)

lemma save_session_wf: "store_wf db \<Longrightarrow> account_exists db (aw_AccountID w) \<Longrightarrow> store_wf (saveAppleWebSessionTx env w db)"
  unfolding saveAppleWebSessionTx_def Let_def by (rule put_session_wf) simp_all

lemma drop_session_wf: "store_wf db \<Longrightarrow> store_wf (drop_session x db)"
  by (rule main_same_wf [of db]) (auto simp: main_same_def drop_session_def unique_key_delete_where dest: main_same_facts)

lemma update_schedules_wf:
  assumes "store_wf db" and "\<And>c. P c \<Longrightarrow> cs_AccountID (f c) = cs_AccountID c"
  shows "store_wf (db\<lparr>sb_schedules := update_where P f (sb_schedules db)\<rparr>)"
proof (rule main_same_wf [OF _ assms(1)])
  show "account_exists db (cs_AccountID k)" if "k \<in> set (sb_schedules (db\<lparr>sb_schedules := update_where P f (sb_schedules db)\<rparr>))" for k
    using that assms(2) main_same_facts(3) [OF assms(1)] by (auto simp: set_update_where split: if_splits)
qed (use main_same_facts [OF assms(1)] assms(2) in \<open>auto simp: main_same_def unique_key_update_where\<close>)

lemma put_schedule_wf:
  assumes "store_wf db" and "account_exists db (cs_AccountID row)" and "\<And>c. cs_AccountID (f c) = cs_AccountID c"
  shows "store_wf (db\<lparr>sb_schedules := upsert_by cs_AccountID row f (sb_schedules db)\<rparr>)"
proof (rule main_same_wf [OF _ assms(1)])
  let ?d = "db\<lparr>sb_schedules := upsert_by cs_AccountID row f (sb_schedules db)\<rparr>"
  show "unique_key cs_AccountID (sb_schedules ?d)" if "unique_key cs_AccountID (sb_schedules db)"
    using that assms(3) by (simp add: unique_key_upsert_by)
  show "account_exists db (cs_AccountID k)" if "k \<in> set (sb_schedules ?d)" for k
    using that assms(2,3) main_same_facts(3) [OF assms(1)] by (auto simp: upsert_by_def set_update_where split: if_splits)
qed (use main_same_facts [OF assms(1)] in \<open>auto simp: main_same_def\<close>)

lemma update_pending_wf:
  assumes "store_wf db" and "\<And>p. P p \<Longrightarrow> pk_AliasID (f p) = pk_AliasID p"
  shows "store_wf (db\<lparr>sb_pending := update_where P f (sb_pending db)\<rparr>)"
  by (rule keys_kept_wf [OF _ assms(1)]) (simp add: keys_kept_def map_update_where assms(2))

subsection \<open>Groups\<close>

lemma groups_change_wf:
  assumes wf: "store_wf db" and g: "groups_wf db'" and al: "sb_aliases db' = sb_aliases db" "sb_accounts db' = sb_accounts db"
    "sb_next_account db' = sb_next_account db" "sb_next_alias db' = sb_next_alias db" "sb_pending db' = sb_pending db"
    "sb_apple db' = sb_apple db" "sb_schedules db' = sb_schedules db" and grp: "\<And>a. a \<in> set (sb_aliases db) \<Longrightarrow> group_ok db' (a_GroupID a)"
  shows "store_wf db'"
proof -
  have acc: "account_exists db' i = account_exists db i" for i by (simp add: account_exists_def al)
  have a: "aliases_wf db" by (rule wf_parts(2) [OF wf])
  have "aliases_wf db'"
  proof (rule aliases_wfI; unfold al acc)
    show "unique_key a_ID (sb_aliases db)" "unique_key (\<lambda>a. nocase (a_Address a)) (sb_aliases db)" "unique_key a_APIKeyHash (sb_aliases db)"
      using a unfolding aliases_wf_def by blast+
    show "a_ID x = a_ID y" if "x \<in> set (sb_aliases db)" "y \<in> set (sb_aliases db)" "a_OAuthClientID x \<noteq> []" "a_OAuthClientID x = a_OAuthClientID y" for x y
      by (rule aliases_wfD(6) [OF a that])
    show "a_ID b < sb_next_alias db \<and> a_APIKeyHash b \<noteq> [] \<and> account_exists db (a_AccountID b) \<and>
       a_CredentialMode b \<in> {AliasCredentialModeLegacy, AliasCredentialModeV2} \<and> group_ok db' (a_GroupID b)"
      if "b \<in> set (sb_aliases db)" for b using aliases_wfD(1-4) [OF a that] grp [OF that] by blast
  qed
  moreover have "accounts_wf db'" using accounts_wf_same [of db' db] wf_parts(1) [OF wf] by (simp add: al)
  moreover have "pending_wf db'" using pending_wf_same [of db' db] wf_parts(3) [OF wf] by (simp add: al)
  moreover have "extras_wf db'" by (rule extras_wf_same [of db]) (use wf_parts(5) [OF wf] acc in \<open>simp_all add: al\<close>)
  ultimately show ?thesis using g by (simp add: store_wf_def)
qed

lemma create_group_wf:
  assumes "store_wf db" and "\<not> name_key_taken db (sb_next_group db) key" and "mg_ID g = sb_next_group db" and "mg_NameKey g = key"
  shows "store_wf (db\<lparr>sb_groups := sb_groups db @ [g], sb_next_group := sb_next_group db + 1\<rparr>)"
proof (rule groups_change_wf [OF assms(1)])
  have w: "groups_wf db" by (rule wf_parts(4) [OF assms(1)])
  have less: "\<forall>h \<in> set (sb_groups db). mg_ID h < sb_next_group db" using w by (simp add: groups_wf_def)
  have "unique_key mg_ID (sb_groups db @ [g])"
    by (rule unique_key_append1) (use w less assms(3) in \<open>auto simp: groups_wf_def find_by_None\<close>)
  moreover have "unique_key mg_NameKey (sb_groups db @ [g])"
    by (rule unique_key_append1) (use w less assms(2,4) in \<open>fastforce simp: groups_wf_def find_by_None name_key_taken_def list_ex_iff\<close>)+
  ultimately show "groups_wf (db\<lparr>sb_groups := sb_groups db @ [g], sb_next_group := sb_next_group db + 1\<rparr>)"
    using w assms(3) by (auto simp: groups_wf_def)
  show "group_ok (db\<lparr>sb_groups := sb_groups db @ [g], sb_next_group := sb_next_group db + 1\<rparr>) (a_GroupID a)"
    if "a \<in> set (sb_aliases db)" for a
    using aliases_wfD(5) [OF wf_parts(2) [OF assms(1)] that] by (auto simp: group_ok_def find_by_append split: option.splits)
qed simp_all

lemma rename_group_wf:
  assumes "store_wf db" and "\<not> name_key_taken db i key" and "\<And>g. mg_ID (f g) = mg_ID g \<and> mg_NameKey (f g) = key"
  shows "store_wf (db\<lparr>sb_groups := update_where (\<lambda>g. mg_ID g = i) f (sb_groups db)\<rparr>)"
proof (rule groups_change_wf [OF assms(1)])
  let ?d = "db\<lparr>sb_groups := update_where (\<lambda>g. mg_ID g = i) f (sb_groups db)\<rparr>"
  have w: "groups_wf db" by (rule wf_parts(4) [OF assms(1)])
  have "unique_key mg_NameKey (update_where (\<lambda>g. mg_ID g = i \<and> True) f (sb_groups db))"
    by (rule unique_key_rename [of mg_ID]) (use w assms(2,3) in \<open>auto simp: groups_wf_def name_key_taken_def list_ex_iff\<close>)
  then show "groups_wf ?d" using w assms(3) by (auto simp: groups_wf_def unique_key_update_where set_update_where)
  show "group_ok ?d (a_GroupID a)" if "a \<in> set (sb_aliases db)" for a
    using aliases_wfD(5) [OF wf_parts(2) [OF assms(1)] that] find_by_update_where_None [of "\<lambda>g. mg_ID g = i" mg_ID f] assms(3)
    by (auto simp: group_ok_def split: option.splits)
qed simp_all

text \<open>Moving aliases to a group that exists.\<close>

lemma move_group_wf:
  assumes wf: "store_wf db" and f: "\<And>a. P a \<Longrightarrow> \<exists>g. alias_key (f a) = alias_key (a\<lparr>a_GroupID := g\<rparr>) \<and> (g = a_GroupID a \<or> group_ok db g)"
  shows "store_wf (set_aliases (update_where P f) db)" (is "store_wf ?d")
proof -
  have keys: "a_ID (f a) = a_ID a" "a_AccountID (f a) = a_AccountID a" "nocase (a_Address (f a)) = nocase (a_Address a)"
      "a_APIKeyHash (f a) = a_APIKeyHash a" "a_OAuthClientID (f a) = a_OAuthClientID a" "a_CredentialMode (f a) = a_CredentialMode a"
      "a_GroupID (f a) = a_GroupID a \<or> group_ok db (a_GroupID (f a))" if "P a" for a using f [OF that] by (auto simp: alias_key_def)
  have al: "sb_aliases ?d = update_where P f (sb_aliases db)" "sb_accounts ?d = sb_accounts db" "sb_next_account ?d = sb_next_account db"
    "sb_next_alias ?d = sb_next_alias db" "sb_pending ?d = sb_pending db" "sb_apple ?d = sb_apple db" "sb_schedules ?d = sb_schedules db"
    "sb_groups ?d = sb_groups db" "sb_next_group ?d = sb_next_group db"
    by (simp_all add: set_aliases_def)
  have acc: "account_exists ?d j = account_exists db j" for j by (simp add: account_exists_def al)
  have grp: "group_ok ?d g = group_ok db g" for g by (rule group_ok_same) (rule al)
  have a: "aliases_wf db" by (rule wf_parts(2) [OF wf])
  have row: "\<exists>b \<in> set (sb_aliases db). a_ID c = a_ID b \<and> a_AccountID c = a_AccountID b \<and> a_APIKeyHash c = a_APIKeyHash b \<and>
      a_OAuthClientID c = a_OAuthClientID b \<and> a_CredentialMode c = a_CredentialMode b \<and> group_ok db (a_GroupID c)"
    if c: "c \<in> set (sb_aliases ?d)" for c
  proof -
    from c obtain b where b: "b \<in> set (sb_aliases db)" "c = (if P b then f b else b)" by (auto simp: al set_update_where)
    have "group_ok db (a_GroupID c)" using aliases_wfD(5) [OF a b(1)] keys(7) [of b] b(2) by (cases "P b") auto
    with b keys show ?thesis by (intro bexI [of _ b]) auto
  qed
  have "aliases_wf ?d"
  proof (rule aliases_wfI)
    show "unique_key a_ID (sb_aliases ?d)" "unique_key (\<lambda>a. nocase (a_Address a)) (sb_aliases ?d)" "unique_key a_APIKeyHash (sb_aliases ?d)"
      unfolding al using a keys by (auto simp only: aliases_wf_def unique_key_update_where)
    show "a_ID x = a_ID y" if "x \<in> set (sb_aliases ?d)" "y \<in> set (sb_aliases ?d)" "a_OAuthClientID x \<noteq> []" "a_OAuthClientID x = a_OAuthClientID y" for x y
      using row [OF that(1)] row [OF that(2)] aliases_wfD(6) [OF a] that(3,4) by metis
    show "a_ID b < sb_next_alias ?d \<and> a_APIKeyHash b \<noteq> [] \<and> account_exists ?d (a_AccountID b) \<and>
       a_CredentialMode b \<in> {AliasCredentialModeLegacy, AliasCredentialModeV2} \<and> group_ok ?d (a_GroupID b)"
      if "b \<in> set (sb_aliases ?d)" for b
      using row [OF that] aliases_wfD(1-4) [OF a] unfolding acc grp al(4) by metis
  qed
  moreover have "accounts_wf ?d" using accounts_wf_same [of ?d db] wf_parts(1) [OF wf] by (simp add: al)
  moreover have "pending_wf ?d"
    using wf_parts(3) [OF wf] find_by_update_where_None [of P a_ID f] keys(1) by (simp add: pending_wf_def al)
  moreover have "groups_wf ?d" using groups_wf_same [of ?d db] wf_parts(4) [OF wf] by (simp add: al)
  moreover have "extras_wf ?d" by (rule extras_wf_same [of db]) (use wf_parts(5) [OF wf] acc in \<open>simp_all add: al\<close>)
  ultimately show ?thesis by (rule wf_intro)
qed

lemma delete_group_wf:
  assumes wf: "store_wf db" and f: "\<And>a. alias_key (f a) = alias_key (a\<lparr>a_GroupID := None\<rparr>)"
  shows "store_wf ((set_aliases (update_where (\<lambda>a. a_GroupID a = Some i) f) db)\<lparr>sb_groups := delete_where (\<lambda>g. mg_ID g = i) (sb_groups db)\<rparr>)"
    (is "store_wf ?d")
proof -
  let ?m = "set_aliases (update_where (\<lambda>a. a_GroupID a = Some i) f) db"
  have m: "store_wf ?m" by (rule move_group_wf [OF wf]) (use f in \<open>auto simp: group_ok_def intro!: exI [of _ None]\<close>)
  show ?thesis
  proof (rule groups_change_wf [OF m])
    show "groups_wf ?d" using wf_parts(4) [OF wf] by (auto simp: groups_wf_def unique_key_delete_where set_aliases_def)
    show "group_ok ?d (a_GroupID a)" if "a \<in> set (sb_aliases ?m)" for a
    proof -
      have "a_GroupID (f b) = None" for b using f [of b] by (simp add: alias_key_def)
      with that have "a_GroupID a \<noteq> Some i" by (auto simp: set_update_where split: if_splits)
      with aliases_wfD(5) [OF wf_parts(2) [OF m] that] show ?thesis
        by (auto simp: group_ok_def find_by_None set_aliases_def split: option.splits)
    qed
  qed (simp_all add: set_aliases_def)
qed

subsection \<open>Accounts\<close>

lemma accounts_change_wf:
  assumes wf: "store_wf db" and a: "accounts_wf db'" and acc: "\<And>i. account_exists db i \<Longrightarrow> account_exists db' i"
    and rest: "sb_aliases db' = sb_aliases db" "sb_next_alias db' = sb_next_alias db" "sb_pending db' = sb_pending db"
      "sb_apple db' = sb_apple db" "sb_schedules db' = sb_schedules db" "sb_groups db' = sb_groups db" "sb_next_group db' = sb_next_group db"
  shows "store_wf db'"
proof -
  have grp: "group_ok db' g = group_ok db g" for g by (rule group_ok_same) (rule rest)
  have "aliases_wf db'" by (rule aliases_wf_same [of db' db]) (use wf_parts(2) [OF wf] acc grp in \<open>simp_all add: rest\<close>)
  moreover have "pending_wf db'" using pending_wf_same [of db' db] wf_parts(3) [OF wf] by (simp add: rest)
  moreover have "groups_wf db'" using groups_wf_same [of db' db] wf_parts(4) [OF wf] by (simp add: rest)
  moreover have "extras_wf db'" by (rule extras_wf_same [of db]) (use wf_parts(5) [OF wf] acc in \<open>simp_all add: rest\<close>)
  ultimately show ?thesis using a by (simp add: store_wf_def)
qed

lemma edit_account_wf:
  assumes wf: "store_wf db" and ok: "account_row_ok db i e p"
    and f: "\<And>a. ac_ID (f a) = ac_ID a" "\<And>a. ac_ID a = i \<Longrightarrow> Q a \<Longrightarrow> a \<in> set (sb_accounts db) \<Longrightarrow> nocase (ac_Email (f a)) = nocase e \<and> ac_IMAPPort (f a) = p"
  shows "store_wf (set_accounts (update_where (\<lambda>a. ac_ID a = i \<and> Q a) f) db)" (is "store_wf ?d")
proof (rule accounts_change_wf [OF wf])
  let ?P = "\<lambda>a. ac_ID a = i \<and> Q a"
  let ?g = "\<lambda>a. if a \<in> set (sb_accounts db) then f a else a\<lparr>ac_Email := e\<rparr>"
  have g: "update_where ?P f (sb_accounts db) = update_where ?P ?g (sb_accounts db)" by (simp add: update_where_def)
  have a: "accounts_wf db" by (rule wf_parts(1) [OF wf])
  have rows: "sb_accounts ?d = update_where ?P f (sb_accounts db)" by simp
  have u: "unique_key ac_ID (sb_accounts db)" "unique_key (\<lambda>a. nocase (ac_Email a)) (sb_accounts db)" using a by (simp_all add: accounts_wf_def)
  have "unique_key (\<lambda>a. nocase (ac_Email a)) (update_where (\<lambda>a. ac_ID a = i \<and> (Q a \<and> a \<in> set (sb_accounts db))) (\<lambda>a. (f a)\<lparr>ac_Email := e\<rparr>) (sb_accounts db))"
    by (rule unique_key_rename [OF u, where n = "nocase e"]) (use ok f in \<open>auto simp: account_row_ok_def list_ex_iff\<close>)
  moreover have "map (\<lambda>a. nocase (ac_Email a)) (update_where ?P f (sb_accounts db)) =
      map (\<lambda>a. nocase (ac_Email a)) (update_where (\<lambda>a. ac_ID a = i \<and> (Q a \<and> a \<in> set (sb_accounts db))) (\<lambda>a. (f a)\<lparr>ac_Email := e\<rparr>) (sb_accounts db))"
    using f(2) by (auto simp: update_where_def)
  ultimately have "unique_key (\<lambda>a. nocase (ac_Email a)) (sb_accounts ?d)" unfolding rows unique_key_def by simp
  moreover have "unique_key ac_ID (sb_accounts ?d)" unfolding rows using u(1) f(1) by (simp add: unique_key_update_where)
  moreover have "ac_ID b < sb_next_account ?d \<and> 1 \<le> ac_IMAPPort b \<and> ac_IMAPPort b \<le> 65535" if b: "b \<in> set (sb_accounts ?d)" for b
  proof -
    from b obtain r where r: "r \<in> set (sb_accounts db)" "b = (if ?P r then f r else r)" unfolding rows by (auto simp: set_update_where)
    then show ?thesis using a ok f [of r] by (auto simp: accounts_wf_def account_row_ok_def)
  qed
  ultimately show "accounts_wf ?d" unfolding accounts_wf_def by blast
  show "account_exists ?d j" if "account_exists db j" for j
    using that find_by_update_where_None [of ?P ac_ID f j "sb_accounts db"] f(1) unfolding account_exists_def rows by blast
qed (simp_all add: set_accounts_def)

lemma insert_account_wf:
  assumes wf: "store_wf db" and ok: "account_row_ok db (sb_next_account db) (ac_Email r) (ac_IMAPPort r)" and i: "ac_ID r = sb_next_account db"
  shows "store_wf ((set_accounts (\<lambda>as. as @ [r]) db)\<lparr>sb_next_account := sb_next_account db + 1\<rparr>)" (is "store_wf ?d")
proof (rule accounts_change_wf [OF wf])
  have a: "accounts_wf db" by (rule wf_parts(1) [OF wf])
  have rows: "sb_accounts ?d = sb_accounts db @ [r]" "sb_next_account ?d = sb_next_account db + 1" by simp_all
  have less: "\<forall>b \<in> set (sb_accounts db). ac_ID b < sb_next_account db" using a by (simp add: accounts_wf_def)
  have "unique_key ac_ID (sb_accounts ?d)"
    unfolding rows by (rule unique_key_append1) (use a less i in \<open>auto simp: accounts_wf_def find_by_None\<close>)
  moreover have "unique_key (\<lambda>a. nocase (ac_Email a)) (sb_accounts ?d)"
    unfolding rows by (rule unique_key_append1) (use a ok less in \<open>fastforce simp: accounts_wf_def find_by_None account_row_ok_def list_ex_iff\<close>)+
  ultimately show "accounts_wf ?d"
    using a ok i unfolding accounts_wf_def rows account_row_ok_def by auto
  show "account_exists ?d j" if "account_exists db j" for j
    using that unfolding account_exists_def rows by (auto simp: find_by_append split: option.splits)
qed (simp_all add: set_accounts_def)

lemma delete_account_wf:
  assumes "store_wf db"
  shows "store_wf (delete_account_rows x db)"
proof -
  define m where "m = delete_aliases (\<lambda>a. a_AccountID a = x) db"
  define d where "d = delete_account_rows x db"
  have wm: "store_wf m" unfolding m_def by (rule delete_aliases_wf [OF assms])
  have none: "\<forall>a \<in> set (sb_aliases m). a_AccountID a \<noteq> x" by (simp add: m_def delete_aliases_def Let_def)
  have s: "sb_aliases d = sb_aliases m" "sb_accounts d = delete_where (\<lambda>a. ac_ID a = x) (sb_accounts m)" "sb_next_account d = sb_next_account m"
    "sb_next_alias d = sb_next_alias m" "sb_pending d = sb_pending m" "sb_groups d = sb_groups m" "sb_next_group d = sb_next_group m"
    "sb_apple d = delete_where (\<lambda>w. aw_AccountID w = x) (sb_apple m)" "sb_schedules d = delete_where (\<lambda>c. cs_AccountID c = x) (sb_schedules m)"
    by (simp_all add: d_def m_def delete_account_rows_def Let_def)
  have acc: "account_exists d i \<longleftrightarrow> account_exists m i \<and> i \<noteq> x" for i by (auto simp: account_exists_def s find_by_None)
  have grp: "group_ok d g = group_ok m g" for g by (rule group_ok_same) (rule s)
  have a: "aliases_wf m" by (rule wf_parts(2) [OF wm])
  have "aliases_wf d"
  proof (rule aliases_wfI)
    show "unique_key a_ID (sb_aliases d)" "unique_key (\<lambda>a. nocase (a_Address a)) (sb_aliases d)" "unique_key a_APIKeyHash (sb_aliases d)"
      unfolding s using a unfolding aliases_wf_def by blast+
    show "a_ID p = a_ID q" if "p \<in> set (sb_aliases d)" "q \<in> set (sb_aliases d)" "a_OAuthClientID p \<noteq> []" "a_OAuthClientID p = a_OAuthClientID q" for p q
      by (rule aliases_wfD(6) [OF a that [unfolded s]])
    show "a_ID b < sb_next_alias d \<and> a_APIKeyHash b \<noteq> [] \<and> account_exists d (a_AccountID b) \<and>
       a_CredentialMode b \<in> {AliasCredentialModeLegacy, AliasCredentialModeV2} \<and> group_ok d (a_GroupID b)"
      if "b \<in> set (sb_aliases d)" for b
      using aliases_wfD(1-5) [OF a that [unfolded s]] none that unfolding acc grp s by blast
  qed
  moreover have "accounts_wf d" using wf_parts(1) [OF wm] by (simp add: accounts_wf_def s unique_key_delete_where)
  moreover have "pending_wf d" using wf_parts(3) [OF wm] by (simp add: pending_wf_def s)
  moreover have "groups_wf d" using groups_wf_same [of d m] wf_parts(4) [OF wm] by (simp add: s)
  moreover have "extras_wf d" using wf_parts(5) [OF wm] by (simp add: extras_wf_def s acc unique_key_delete_where)
  ultimately show ?thesis unfolding d_def by (rule wf_intro)
qed

end
