(* ===== verification/StoreMailSteps.thy ===== *)
theory StoreMailSteps
  imports StoreWfSteps
begin

section \<open>Mail steps leave the accounts and aliases alone\<close>

text \<open>
  Synchronisation, consumption and the upkeep of the archive share the account and alias rows with
  the administration of the store. They change status columns, UID counters and versions, and no
  column that decides who receives mail.
\<close>

definition alias_ident :: "mail_alias \<Rightarrow> (int \<times> int \<times> bool) \<times> (int \<times> int \<times> string \<times> string \<times> string \<times> string \<times> int option)" where
  "alias_ident a = (route a, alias_key a)"

definition account_ident :: "account \<Rightarrow> (int \<times> string \<times> int) \<times> (string \<times> int \<times> string \<times> string \<times> bool) \<times> string" where
  "account_ident a = (account_key a, (ac_IMAPHost a, ac_IMAPPort a, ac_IMAPUsername a, ac_PasswordCiphertext a, ac_Enabled a), ac_MailboxType a)"

definition versions_follow :: "mail_db \<Rightarrow> mail_db \<Rightarrow> bool" where
  "versions_follow m m' \<longleftrightarrow> (\<forall>i. (version_of m i = None \<and> version_of m' i = None) \<or>
     (\<exists>v v'. version_of m i = Some v \<and> version_of m' i = Some v' \<and> v \<le> v'))"

definition idents_kept :: "mail_db \<Rightarrow> mail_db \<Rightarrow> bool" where
  "idents_kept m m' \<longleftrightarrow> map alias_ident (md_aliases m') = map alias_ident (md_aliases m) \<and>
     map account_ident (md_accounts m') = map account_ident (md_accounts m) \<and> versions_follow m m'"

lemma versions_follow_refl: "versions_follow m m"
  unfolding versions_follow_def by (metis not_None_eq order_refl)

lemma versions_follow_same: "md_accounts m' = md_accounts m \<Longrightarrow> versions_follow m m'"
  using versions_follow_refl [of m] by (simp add: versions_follow_def version_of_def)

lemma versions_follow_trans: "versions_follow a b \<Longrightarrow> versions_follow b c \<Longrightarrow> versions_follow a c"
  unfolding versions_follow_def by (metis option.discI option.inject order_trans)

lemma idents_kept_refl: "idents_kept m m"
  by (simp add: idents_kept_def versions_follow_refl)

lemma idents_kept_trans: "idents_kept a b \<Longrightarrow> idents_kept b c \<Longrightarrow> idents_kept a c"
  unfolding idents_kept_def using versions_follow_trans by metis

lemma idents_same: "md_aliases m' = md_aliases m \<Longrightarrow> md_accounts m' = md_accounts m \<Longrightarrow> idents_kept m m'"
  by (simp add: idents_kept_def versions_follow_same)

lemma idents_set_aliases:
  "(\<And>a. P a \<Longrightarrow> alias_ident (f a) = alias_ident a) \<Longrightarrow> md_accounts m' = md_accounts m \<Longrightarrow>
   md_aliases m' = update_where P f (md_aliases m) \<Longrightarrow> idents_kept m m'"
  by (simp add: idents_kept_def versions_follow_same map_update_where)

subsection \<open>The operations\<close>

lemma idents_allocate: "allocateUID i m = Inr (u, m') \<Longrightarrow> idents_kept m m'"
  by (auto simp: allocateUID_def alias_ident_def route_def alias_key_def split: if_splits option.splits
      intro!: idents_set_aliases [where P = "\<lambda>a. a_ID a = i" and f = "a_MailboxUIDNext_update (\<lambda>n. n + 1)"])

lemma idents_link: "link_alias otp created m i db = Inr db' \<Longrightarrow> idents_kept db db'"
proof -
  assume link: "link_alias otp created m i db = Inr db'"
  have prune: "idents_kept d (pruneOTPs i d)" for d by (rule idents_same) (simp_all add: pruneOTPs_def Let_def)
  show ?thesis
  proof (cases "find_by link_key (i, m) (md_links db) = None")
    case False
    with link show ?thesis by (auto simp: link_alias_def idents_kept_refl split: if_splits)
  next
    case True
    from link True obtain uid db1 where al: "allocateUID i db = Inr (uid, db1)"
      and db': "db' = (let db2 = db1\<lparr>md_links := md_links db1 @ [\<lparr>lk_alias_id = i, lk_message_id = m, lk_mailbox_uid = uid,
          lk_otp = otp, lk_created_at = created\<rparr>]\<rparr> in if otp \<noteq> [] then pruneOTPs i db2 else db2)"
      by (auto simp: link_alias_def bind_res_Inr Let_def split: if_splits)
    let ?db2 = "db1\<lparr>md_links := md_links db1 @ [\<lparr>lk_alias_id = i, lk_message_id = m, lk_mailbox_uid = uid,
          lk_otp = otp, lk_created_at = created\<rparr>]\<rparr>"
    have k: "idents_kept db ?db2"
      using idents_kept_trans [OF idents_allocate [OF al] idents_same [of ?db2 db1]] by simp
    have "db' = (if otp \<noteq> [] then pruneOTPs i ?db2 else ?db2)" unfolding db' Let_def ..
    then show ?thesis using k idents_kept_trans [OF k prune] by (metis (full_types))
  qed
qed

lemma idents_links: "link_aliases otp created m prev is db = Inr db' \<Longrightarrow> idents_kept db db'"
  by (induction otp created m prev "is" db rule: link_aliases.induct)
    (auto simp: bind_res_Inr idents_kept_refl split: if_splits dest!: idents_link intro: idents_kept_trans)

lemma idents_upsert: "upsert_archived st m t db = Inr (i, db') \<Longrightarrow> idents_kept db db'"
  by (auto simp: upsert_archived_def Let_def split: if_splits option.splits intro!: idents_same)

lemma idents_message: "persist_message st t m db = Inr db' \<Longrightarrow> idents_kept db db'"
  by (auto simp: persist_message_def bind_res_Inr split: if_splits dest!: idents_upsert idents_links intro: idents_kept_trans)

lemma idents_persist:
  assumes "persistArchivedMessagesTx ms st t db = Inr db'"
  shows "idents_kept db db'"
  by (rule fold_res_invariant [OF assms [unfolded persistArchivedMessagesTx_def], where P = "idents_kept db"])
    (use idents_kept_refl idents_message idents_kept_trans in blast)+

lemma idents_mark_aliases: "idents_kept db (mark_aliases x s err t db)"
  by (rule idents_set_aliases [where P = "\<lambda>a. a_AccountID a = x \<and> a_Enabled a"])
    (simp_all add: mark_aliases_def alias_ident_def route_def alias_key_def)

lemma idents_mark_account:
  assumes "mark_account x v s err t w db = Inr db'" and "v < w"
  shows "idents_kept db db'"
proof -
  let ?P = "\<lambda>a. ac_ID a = x \<and> ac_UpdatedAt a = v"
  let ?f = "\<lambda>a. a\<lparr>ac_LastSyncStatus := s, ac_LastSyncError := err, ac_LastSyncedAt := Some t, ac_UpdatedAt := w\<rparr>"
  have db': "db' = db\<lparr>md_accounts := update_where ?P ?f (md_accounts db)\<rparr>"
    using assms(1) by (simp add: mark_account_def split: if_splits)
  have rows: "find_by ac_ID i (md_accounts db') = map_option (\<lambda>a. if ?P a then ?f a else a) (find_by ac_ID i (md_accounts db))" for i
    unfolding db' by (simp add: find_by_update_where)
  have "versions_follow db db'"
    unfolding versions_follow_def
  proof
    fix i
    show "(version_of db i = None \<and> version_of db' i = None) \<or>
      (\<exists>v v'. version_of db i = Some v \<and> version_of db' i = Some v' \<and> v \<le> v')"
      using assms(2) by (cases "find_by ac_ID i (md_accounts db)") (simp_all add: version_of_def rows)
  qed
  then show ?thesis by (simp add: idents_kept_def db' map_update_where account_ident_def account_key_def)
qed

lemma idents_sync:
  assumes "sync_tx account expected aliases result st t now db = Inr (Some db')"
  shows "idents_kept db db'"
  using assms
proof (rule sync_tx_published)
  let ?s = "if sr_HasMore result then SyncStatusPending else SyncStatusOK"
  fix version observed reset db1 db2 nextVersion
  let ?db3 = "put_cursor \<lparr>ss_AccountID = account, ss_UIDValidity = ss_UIDValidity (sr_State result),
            ss_LastUID = ss_LastUID (sr_State result), ss_UpdatedAt = to_timestamp observed\<rparr> db2"
  assume p: "persistArchivedMessagesTx (sr_ArchivedMessages result) st t db = Inr db1"
    and l: "persistLegacyLatestMessagesTx account result t reset db1 = Inr db2"
    and n: "nextAccountVersion now version = Inr nextVersion"
    and m: "mark_account account version ?s [] (to_timestamp t) nextVersion (mark_aliases account ?s [] (to_timestamp t) ?db3) = Inr db'"
  have "idents_kept db1 ?db3"
    by (rule idents_same) (simp_all add: put_cursor_def only_latestD [OF only_latest_legacy [OF l]])
  with idents_persist [OF p] have "idents_kept db ?db3" by (rule idents_kept_trans)
  with idents_mark_aliases have "idents_kept db (mark_aliases account ?s [] (to_timestamp t) ?db3)" by (rule idents_kept_trans [rotated])
  then show ?thesis using idents_mark_account [OF m nextAccountVersion_greater [OF n]] by (rule idents_kept_trans)
qed

lemma idents_archived: "only_archived db db' \<Longrightarrow> idents_kept db db'"
  by (rule idents_same) (simp_all add: only_archivedD)

lemma idents_apply:
  assumes "ApplyMailboxSync wd cfg io fault now account expected aliases result t (db, fs) = (e, db', fs')"
  shows "idents_kept db db'"
  using assms
proof (cases rule: apply_cases)
  case dropped
  then show ?thesis by (simp add: idents_kept_refl)
next
  case (published st db1)
  then show ?thesis using idents_sync [OF published(3)] idents_archived [OF published(4)] idents_kept_trans by blast
qed

lemma idents_failure:
  assumes "RecordMailboxSyncFailure fault now account expected message t db = (e, db')"
  shows "idents_kept db db'"
  using assms
proof (cases rule: failure_cases)
  case dropped
  then show ?thesis by (simp add: idents_kept_refl)
next
  case (recorded v w msg t')
  then show ?thesis using idents_mark_aliases idents_mark_account [OF recorded(4,3)] idents_kept_trans by blast
qed

lemma idents_step:
  assumes "mail_step wd cfg w w'"
  shows "idents_kept (fst w) (fst w')"
  using assms
proof (induction rule: mail_step.induct)
  case (ms_sync w io fault now account expected aliases result t)
  obtain db fs where w: "w = (db, fs)" by fastforce
  obtain e db' fs' where "ApplyMailboxSync wd cfg io fault now account expected aliases result t (db, fs) = (e, db', fs')"
    by (metis prod.collapse)
  with idents_apply [OF this] w show ?case by simp
next
  case (ms_failure db fs fault now account expected message t)
  then show ?case using idents_failure by (metis fst_conv prod.collapse)
next
  case (ms_upsert db fs now m)
  then show ?case
    by (auto simp: UpsertLatest_def UpsertLatestMessage_def Let_def put_latest_guarded_def intro!: idents_same split: option.splits)
next
  case (ms_replace db fs now m)
  then show ?case by (auto simp: ReplaceLatestMessage_def Let_def intro!: idents_same)
next
  case (ms_consume db fs now q)
  then show ?case by (auto simp: ConsumeLatestMessage_def Let_def idents_kept_refl intro!: idents_same split: option.splits sum.splits)
next
  case (ms_seen db fs account v uids)
  then show ?case by (auto simp: DeleteSeenTasks_def intro!: idents_same)
next
  case (ms_open db fs io mm)
  then show ?case using open_cases [of cfg io fs mm db] idents_archived [OF only_archived_mark] idents_kept_refl by auto
next
  case (ms_reconcile db fs io)
  then show ?case using idents_archived [OF only_archived_reconcile] by simp
next
  case (ms_limit io db fs e w)
  then show ?case using idents_archived only_archived_limit by (metis fst_conv prod.collapse)
qed (auto simp: DeleteLatestMessage_def DeleteLatestMessageFromOtherUIDValidity_def intro!: idents_same)

subsection \<open>What follows for the store\<close>

lemma map_through: "map p rows' = map p rows \<Longrightarrow> (\<And>r. g (p r) = h r) \<Longrightarrow> map h rows' = map h rows"
proof -
  assume e: "map p rows' = map p rows" and h: "\<And>r. g (p r) = h r"
  have "map h xs = map g (map p xs)" for xs by (simp add: h)
  with e show ?thesis by metis
qed

lemma found_image: "map p rows' = map p rows \<Longrightarrow>
   map_option q (find_by (\<lambda>r. g (p r)) k rows') = map_option q (find_by (\<lambda>r. g (p r)) k rows)" if "\<And>r r'. p r = p r' \<Longrightarrow> q r = q r'"
proof (induction rows arbitrary: rows')
  case (Cons r rows)
  then obtain r' rs where c: "rows' = r' # rs" "p r' = p r" "map p rs = map p rows" by (cases rows') auto
  with Cons.IH [OF c(3)] that [OF c(2)] show ?case by (simp add: find_by_Cons)
qed simp

lemma ident_views:
  assumes "idents_kept (sb_mail db) m"
  shows "keys_kept db (db\<lparr>sb_mail := m\<rparr>)" and "enabled_ids (db\<lparr>sb_mail := m\<rparr>) i = enabled_ids db i"
    and "source (db\<lparr>sb_mail := m\<rparr>) i = source db i"
proof -
  have a: "map alias_ident (md_aliases m) = map alias_ident (sb_aliases db)" and c: "map account_ident (md_accounts m) = map account_ident (sb_accounts db)"
    using assms by (simp_all add: idents_kept_def)
  have "map alias_key (md_aliases m) = map alias_key (sb_aliases db)" by (rule map_through [OF a, of snd]) (simp add: alias_ident_def)
  moreover have "map account_key (md_accounts m) = map account_key (sb_accounts db)" by (rule map_through [OF c, of fst]) (simp add: account_ident_def)
  ultimately show "keys_kept db (db\<lparr>sb_mail := m\<rparr>)" by (simp add: keys_kept_def)
  have "map route (md_aliases m) = map route (sb_aliases db)" by (rule map_through [OF a, of fst]) (simp add: alias_ident_def)
  then show "enabled_ids (db\<lparr>sb_mail := m\<rparr>) i = enabled_ids db i" by (simp add: enabled_ids_routes)
  have id: "ac_ID = (\<lambda>r. fst (fst (account_ident r)))" by (rule ext) (simp add: account_ident_def account_key_def)
  show "source (db\<lparr>sb_mail := m\<rparr>) i = source db i"
    unfolding source_def id by (simp, rule found_image [OF _ c]) (simp add: account_ident_def)
qed

end
