(* ===== verification/StoreWfOps.thy ===== *)
theory StoreWfOps
  imports StoreMailSteps
begin

section \<open>Operations and well-formed tables\<close>

text \<open>
  Every operation of the store on accounts, aliases, credentials, groups, sessions and schedules keeps
  the tables well-formed.
\<close>

subsection \<open>Transactions\<close>

lemma commit_wf:
  assumes "store_wf db" and "commit env db m = (res, db')" and "\<And>r d. m = Inr (r, d) \<Longrightarrow> store_wf d"
  shows "store_wf db'"
  using assms(2) by (cases rule: commit_cases) (use assms(1,3) in auto)

lemma bump_wf: "bumpAccountVersionTx env x v db = Inr db' \<Longrightarrow> store_wf db \<Longrightarrow> store_wf db'"
  by (rule keys_kept_wf [OF keys_kept_bump])

lemma publish_wf: "publish_enabled env x v db = Inr db' \<Longrightarrow> store_wf db \<Longrightarrow> store_wf db'"
  by (rule keys_kept_wf [OF keys_kept_publish])

lemma reset_cursor_wf: "store_wf db \<Longrightarrow> store_wf (reset_cursor x db)"
  by (rule keys_kept_wf [OF keys_kept_simple(1)])

lemma set_alias_columns_wf:
  "store_wf db \<Longrightarrow> (\<And>a. P a \<Longrightarrow> alias_key (f a) = alias_key a) \<Longrightarrow> store_wf (set_aliases (update_where P f) db)"
  using keys_kept_wf [OF keys_kept_set_aliases] by blast

subsection \<open>Aliases\<close>

lemma credential_mode_values: "aliasCredentialMode a = Inr mode \<Longrightarrow> mode \<in> {AliasCredentialModeLegacy, AliasCredentialModeV2}"
  by (auto simp: aliasCredentialMode_def Let_def split: if_splits)

lemma requested_group_ok: "requested_group db g = Inr () \<Longrightarrow> group_ok db g"
  by (auto simp: requested_group_def group_ok_def lockMailGroupForMove_def split: option.splits if_splits)

lemma create_alias_wf:
  assumes tx: "create_alias_tx env req db = Inr (i, db')" and wf: "store_wf db"
  shows "store_wf db'"
proof -
  let ?row = "\<lambda>mode hash. alias_row env (a_AccountID req) (NormalizeEmail (sanitizePostgresText (a_Address req)))
               (clean_text (a_Label req)) (a_GroupID req) hash (clean_text (a_APIKeyPrefix req)) mode (a_Enabled req)
               (status_or_pending (a_LastSyncStatus req)) (clean_text (a_LastSyncError req)) (nullableTimestamp (a_LastSyncedAt req))
               (nullableTimestamp (a_LastAccessedAt req))"
  from tx obtain mode hash v db1 db2 where mode: "aliasCredentialMode req = Inr mode"
    and grp: "requested_group db (a_GroupID req) = Inr ()"
    and ins: "insert_alias (?row mode hash) db = Inr (i, db1)"
    and inst: "(if en_factory env \<noteq> None \<and> mode = AliasCredentialModeV2
                  then bind_res (installGeneratedAliasCredentialsTx env i 1 True db1) (\<lambda>(m, db2). Inr db2)
                  else Inr db1) = Inr db2"
    and pub: "(if a_Enabled req then publish_enabled env (a_AccountID req) v db2 else Inr db2) = Inr db'"
    unfolding create_alias_tx_def Let_def tx_simps by blast
  have "store_wf db1"
    by (rule insert_alias_wf [OF ins wf]) (use credential_mode_values [OF mode] requested_group_ok [OF grp] in \<open>simp_all add: alias_row_columns\<close>)
  then have "store_wf db2" using inst by (auto simp: bind_res_Inr split: if_splits dest: generated_wf)
  then show ?thesis using pub publish_wf by (auto split: if_splits)
qed

lemma edit_alias_key: "alias_key (edit_alias env label enabled grp r c a) = alias_key (a\<lparr>a_GroupID := (case grp of None \<Rightarrow> a_GroupID a | Some g \<Rightarrow> g)\<rparr>)"
  by (simp add: alias_key_def edit_alias_def)

lemma update_alias_wf:
  assumes tx: "update_alias_tx env i label enabled grp db = Inr (u, db')" and wf: "store_wf db"
  shows "store_wf db'"
  using tx
proof (cases rule: update_alias_cases)
  case (1 a v target db1 db2)
  have k: "keys_kept db db1" using 1(7) keys_kept_bump by (auto split: if_splits)
  have w1: "store_wf db1" by (rule keys_kept_wf [OF k wf])
  have ok: "group_ok db1 x" if "grp = Some x" for x
    using 1(10) that k by (cases x) (auto simp: group_ok_def lockMailGroupForMove_def keys_kept_def)
  have "store_wf db2" unfolding 1(8)
  proof (rule move_group_wf [OF w1])
    fix y r c
    show "\<exists>g. alias_key (edit_alias env label enabled grp r c y) = alias_key (y\<lparr>a_GroupID := g\<rparr>) \<and> (g = a_GroupID y \<or> group_ok db1 g)"
      by (rule exI [of _ "case grp of None \<Rightarrow> a_GroupID y | Some g \<Rightarrow> g"]) (use ok in \<open>auto simp: edit_alias_key split: option.splits\<close>)
  qed
  then show ?thesis by (simp add: 1(9) reset_cursor_wf)
qed

lemma delete_alias_wf:
  assumes tx: "delete_alias_tx env i db = Inr (u, db')" and wf: "store_wf db"
  shows "store_wf db'"
  using tx
proof (rule delete_alias_cases)
  fix a v
  assume "(if a_Enabled a then bumpAccountVersionTx env (a_AccountID a) v (delete_aliases (\<lambda>x. a_ID x = i \<and> a_AccountID x = a_AccountID a) db)
      else Inr (delete_aliases (\<lambda>x. a_ID x = i \<and> a_AccountID x = a_AccountID a) db)) = Inr db'"
  then show ?thesis using delete_aliases_wf [OF wf] bump_wf by (auto split: if_splits)
qed

subsection \<open>Automatic aliases\<close>

lemma found_after_insert: "insert_alias row db = Inr (i, db') \<Longrightarrow> find_by a_ID i (sb_aliases db') \<noteq> None"
  using insert_alias_facts(2) [of row db i db'] by (auto simp: find_by_append find_by_Cons split: option.splits)

lemma material_found: "store_material env i m v db = Inr db' \<Longrightarrow> find_by a_ID k (sb_aliases db') \<noteq> None \<longleftrightarrow> find_by a_ID k (sb_aliases db) \<noteq> None"
  by (auto simp: store_material_def find_by_update_where with_material_def split: if_splits)

lemma candidate_wf:
  assumes cred: "candidate_credentials env i req c db = Inr db'" and wf: "store_wf db" and i: "find_by a_ID i (sb_aliases db) \<noteq> None"
  shows "store_wf db'"
proof (cases "c \<noteq> []")
  case True
  show ?thesis
  proof (cases "en_reuse env")
    case None
    with cred True add_pending_wf [OF _ wf i] show ?thesis by (auto simp: candidate_credentials_def)
  next
    case (Some issuer)
    with cred True obtain db1 where inst: "installAliasCredentialMaterialTx env i 1 True issuer c (a_APIKeyHash req) db = Inr db1"
      and pend: "add_pending env i c db1 = Inr db'" by (auto simp: candidate_credentials_def bind_res_Inr)
    have "find_by a_ID i (sb_aliases db1) \<noteq> None"
      using inst by (rule reused_material) (use material_found i in blast)
    with add_pending_wf [OF pend reused_wf [OF inst wf]] show ?thesis .
  qed
next
  case False
  with cred wf show ?thesis by (auto simp: candidate_credentials_def bind_res_Inr split: if_splits dest: generated_wf)
qed

lemma auto_alias_wf:
  assumes tx: "auto_alias_tx env w req c db = Inr (res, db')" and wf: "store_wf db"
  shows "store_wf db'"
proof -
  from tx obtain v mode hash i db2 db3 where v: "store_version db (a_AccountID req) = Some v"
    and ins: "insert_alias (candidate_row env req hash mode) (saveAppleWebSessionTx env w db) = Inr (i, db2)"
    and cred: "candidate_credentials env i req c db2 = Inr db3"
    and pub: "(if a_Enabled req then publish_enabled env (a_AccountID req) v db3 else Inr db3) = Inr db'"
    and w: "aw_AccountID w = a_AccountID req"
    and mode: "mode = (if c \<noteq> [] \<and> en_reuse env \<noteq> None then AliasCredentialModeV2 else AliasCredentialModeLegacy)"
    by (rule auto_alias_cases) blast
  have "account_exists db (aw_AccountID w)" using v w by (simp add: lock_exists lockAccount_version [symmetric])
  then have s: "store_wf (saveAppleWebSessionTx env w db)" by (rule save_session_wf [OF wf])
  have "store_wf db2"
    by (rule insert_alias_wf [OF ins s]) (use mode in \<open>auto simp: candidate_row_def alias_row_columns group_ok_def\<close>)
  then have "store_wf db3" by (rule candidate_wf [OF cred _ found_after_insert [OF ins]])
  then show ?thesis using pub publish_wf by (auto split: if_splits)
qed

lemma confirm_wf:
  assumes tx: "confirm_tx env w i expected db = Inr (res, db')" and wf: "store_wf db"
  shows "store_wf db'"
proof -
  from tx obtain v db3 where v: "store_version db (aw_AccountID w) = Some v"
    and db3: "db3 = set_aliases (update_where (\<lambda>x. a_ID x = i \<and> a_AccountID x = aw_AccountID w \<and> awaiting_confirmation x) (confirm_row env))
      (saveAppleWebSessionTx env w db)"
    and bump: "bumpAccountVersionTx env (aw_AccountID w) v (if is_zero_time expected \<or> v \<noteq> to_timestamp expected
        then reset_cursor (aw_AccountID w) db3 else db3) = Inr db'"
    by (rule confirm_cases) blast
  have "account_exists db (aw_AccountID w)" using v by (simp add: lock_exists lockAccount_version [symmetric])
  then have "store_wf (saveAppleWebSessionTx env w db)" by (rule save_session_wf [OF wf])
  then have "store_wf db3" unfolding db3 by (rule set_alias_columns_wf) (simp add: alias_key_def confirm_row_def)
  then show ?thesis using bump_wf [OF bump] reset_cursor_wf by (auto split: if_splits)
qed

subsection \<open>Credentials\<close>

lemma rotate_pending_wf: "rotate_pending_key env i m db = Inr db' \<Longrightarrow> store_wf db \<Longrightarrow> store_wf db'"
  by (auto simp: rotate_pending_key_def bind_res_Inr split: if_splits option.splits intro!: update_pending_wf)

lemma rotate_one_wf: "rotate_one env hp a s = Inr s' \<Longrightarrow> store_wf (snd s) \<Longrightarrow> store_wf (snd s')"
proof -
  assume "rotate_one env hp a s = Inr s'" and wf: "store_wf (snd s)"
  then obtain version init m db1 where g: "installGeneratedAliasCredentialsTx env (a_ID a) version init (snd s) = Inr (m, db1)"
    and p: "(if hp (a_ID a) then rotate_pending_key env (a_ID a) m db1 else Inr db1) = Inr (snd s')"
    by (cases s) (auto simp: rotate_one_def bind_res_Inr split: if_splits)
  show "store_wf (snd s')" using p generated_wf [OF g wf] rotate_pending_wf by (auto split: if_splits)
qed

lemma rotate_bundles_wf:
  assumes "rotate_all_bundles env db = Inr (sm, db')" and "store_wf db"
  shows "store_wf db'"
proof -
  have "store_wf (snd (sm, db'))"
    using assms(1) unfolding rotate_all_bundles_def
    by (rule fold_res_invariant [where P = "\<lambda>s. store_wf (snd s)"]) (use assms(2) in \<open>auto dest: rotate_one_wf\<close>)
  then show ?thesis by simp
qed

lemma rotate_all_wf:
  assumes "rotate_all_tx env audit db = Inr (sm, db')" and wf: "store_wf db"
  shows "store_wf db'"
proof (cases audit)
  case None
  with assms show ?thesis by (auto simp: rotate_all_tx_def dest: rotate_bundles_wf)
next
  case (Some l)
  with assms obtain db1 log sm' where r: "rotate_all_bundles env db = Inr (sm', db1)"
      and db': "db' = write_audit env log (revoke_admin (fst (snd l)) (snd (snd l)) db1)"
    by (cases l) (auto simp: rotate_all_tx_def bind_res_Inr split: option.splits if_splits)
  have "keys_kept db1 db'" unfolding db' by (rule keys_kept_trans [OF keys_kept_simple(3) keys_kept_simple(2)])
  then show ?thesis using keys_kept_wf rotate_bundles_wf [OF r wf] by blast
qed

lemma rotate_credentials_wf:
  assumes "rotate_credentials_tx env i db = Inr (r, db')" and wf: "store_wf db"
  shows "store_wf db'"
proof -
  from assms(1) obtain version m db1 where g: "installGeneratedAliasCredentialsTx env i version False db = Inr (m, db1)"
    and db': "db' = delete_pending (\<lambda>p. pk_AliasID p = i) db1"
    unfolding rotate_credentials_tx_def Let_def by (auto simp: bind_res_Inr split: if_splits)
  show ?thesis unfolding db' by (rule delete_pending_wf [OF generated_wf [OF g wf]])
qed

lemma put_api_key_wf:
  assumes "put_api_key env i x c h p db = Inr db'" and wf: "store_wf db"
  shows "store_wf db'"
proof -
  let ?f = "\<lambda>a. a\<lparr>a_CredentialCiphertext := (case c of None \<Rightarrow> a_CredentialCiphertext a | Some c \<Rightarrow> c),
                    a_APIKeyHash := h, a_APIKeyPrefix := p, a_UpdatedAt := stamp env\<rparr>"
  have ok: "alias_keys_ok db i h []" and db': "db' = set_aliases (update_where (\<lambda>a. a_ID a = i \<and> a_AccountID a = x) ?f) db"
    using assms(1) by (auto simp: put_api_key_def split: if_splits)
  show ?thesis unfolding db' by (rule set_one_alias_wf [OF wf, where hash = h and client = "[]"]) (use ok in simp_all)
qed

lemma rotate_api_key_wf:
  assumes "rotate_api_key_tx env i hash prefix raw db = Inr (r, db')" and wf: "store_wf db"
  shows "store_wf db'"
proof -
  from assms obtain x c h p db1 where k: "put_api_key env i x c h p db = Inr db1" and db': "db' = delete_pending (\<lambda>p. pk_AliasID p = i) db1"
    unfolding rotate_api_key_tx_def Let_def by (auto simp: bind_res_Inr split: if_splits option.splits)
  show ?thesis unfolding db' by (rule delete_pending_wf [OF put_api_key_wf [OF k wf]])
qed

lemma migrate_wf:
  assumes "migrate_alias env a db = Inr db'" and wf: "store_wf db"
  shows "store_wf db'"
proof (cases "find_pending db (a_ID a)")
  case None
  with assms show ?thesis by (auto simp: migrate_alias_def bind_res_Inr split: if_splits dest: generated_wf)
next
  case (Some p)
  with assms show ?thesis
    by (auto simp: migrate_alias_def split: option.splits sum.splits if_splits intro: reused_wf delete_pending_wf)
qed

lemma ensure_wf:
  assumes "ensureAliasCredentialsTx env i x db = (res, db')" and wf: "store_wf db"
  shows "store_wf db'"
proof -
  have c: "store_wf d" if "commit env db (bind_res (migrate_alias env a db) (\<lambda>db'. Inr ((), db'))) = (res, d)" for a d
    by (rule commit_wf [OF wf that]) (auto simp: bind_res_Inr dest: migrate_wf [OF _ wf])
  have n: "store_wf d" if "commit env db (Inr ((), db)) = (res, d)" for d
    by (rule commit_wf [OF wf that]) (use wf in simp)
  show ?thesis
    using assms c n by (auto simp: ensureAliasCredentialsTx_def split: sum.splits option.splits if_splits)
qed

subsection \<open>Accounts\<close>

lemma settings_keys:
  assumes "upsertAccountMailboxSettingsTx x t s db = Inr db'"
  shows "keys_kept db db'"
proof -
  from assms obtain u n where "db' = set_accounts (update_where (\<lambda>a. ac_ID a = x) (\<lambda>a. a\<lparr>ac_MailboxType := u, ac_EmailSuffix := n\<rparr>)) db"
    by (auto simp: upsertAccountMailboxSettingsTx_def bind_res_Inr split: if_splits)
  then show ?thesis using keys_kept_set_accounts by (auto simp: account_key_def)
qed

lemma create_account_wf:
  assumes tx: "create_account_tx env req db = Inr (i, db')" and wf: "store_wf db"
  shows "store_wf db'"
proof -
  let ?row = "account_row env db req (NormalizeEmail (sanitizePostgresText (ac_Email req)))"
  from tx obtain t s where ok: "account_row_ok db (sb_next_account db) (NormalizeEmail (sanitizePostgresText (ac_Email req))) (ac_IMAPPort req)"
    and up: "upsertAccountMailboxSettingsTx (sb_next_account db) t s
        ((set_accounts (\<lambda>as. as @ [?row]) db)\<lparr>sb_next_account := sb_next_account db + 1\<rparr>) = Inr db'"
    unfolding create_account_tx_def Let_def by (auto simp: bind_res_Inr split: if_splits)
  have "store_wf ((set_accounts (\<lambda>as. as @ [?row]) db)\<lparr>sb_next_account := sb_next_account db + 1\<rparr>)"
    by (rule insert_account_wf [OF wf]) (use ok in \<open>simp_all add: account_row_def\<close>)
  then show ?thesis by (rule keys_kept_wf [OF settings_keys [OF up]])
qed

text \<open>Dropping sessions and rewriting schedules beside the same accounts and aliases.\<close>

lemma tables_wf:
  assumes "store_wf db" and "sb_mail db' = sb_mail db" "sb_next_account db' = sb_next_account db" "sb_pending db' = sb_pending db"
    "sb_groups db' = sb_groups db" "sb_next_alias db' = sb_next_alias db" "sb_next_group db' = sb_next_group db"
    and c: "sb_schedules db' = map f (sb_schedules db)" "\<forall>c. cs_AccountID (f c) = cs_AccountID c" and w: "sb_apple db' = filter P (sb_apple db)"
  shows "store_wf db'"
proof (rule main_same_wf [OF _ assms(1)])
  have u: "unique_key key (filter P rows)" if "unique_key key rows" for key and rows :: "apple_session list"
    using unique_key_delete_where [OF that, of "\<lambda>r. \<not> P r"] by (simp add: delete_where_def)
  show "unique_key aw_AccountID (sb_apple db')" if "unique_key aw_AccountID (sb_apple db)" unfolding w by (rule u [OF that])
  have "map cs_AccountID (map f (sb_schedules db)) = map cs_AccountID (sb_schedules db)" using c(2) by simp
  then show "unique_key cs_AccountID (sb_schedules db')" if "unique_key cs_AccountID (sb_schedules db)"
    using that unfolding c(1) unique_key_def by metis
  show "account_exists db (cs_AccountID k)" if "k \<in> set (sb_schedules db')" for k
    using that c main_same_facts(3) [OF assms(1)] by auto
  show "account_exists db (aw_AccountID k)" if "k \<in> set (sb_apple db')" for k
    using that w main_same_facts(2) [OF assms(1)] by auto
qed (use assms main_same_facts(1) [OF assms(1)] in \<open>simp_all add: main_same_def\<close>)

lemma withdraw_keys: "keys_kept db (withdraw_mail t w req cur db)"
proof -
  have forget: "keys_kept d (forget_source t x d)" for d x
    by (simp add: keys_kept_def forget_source_def Let_def map_update_where alias_key_def)
  have reset: "keys_kept d (reset_statuses t w x d)" for d x
    unfolding reset_statuses_def
    by (rule keys_kept_trans [OF keys_kept_set_aliases keys_kept_set_accounts]) (simp_all add: alias_key_def account_key_def)
  show ?thesis
    using keys_kept_trans [OF keys_kept_trans [OF keys_kept_simple(1) forget] reset] keys_kept_trans [OF keys_kept_simple(1) reset]
    by (auto simp: withdraw_mail_def)
qed

lemma update_account_wf:
  assumes tx: "update_account_tx env req db = Inr (src, db')" and wf: "store_wf db"
  shows "store_wf db'"
proof -
  let ?x = "ac_ID req"
  from tx obtain v cur t s w db2 db5 where cur: "find_by ac_ID ?x (sb_accounts db) = Some cur"
    and ok: "account_row_ok db ?x (if has_aliases db ?x then ac_Email cur else requested_email req) (ac_IMAPPort req)"
    and up: "upsertAccountMailboxSettingsTx ?x t s (set_accounts (update_where (\<lambda>a. ac_ID a = ?x \<and> ac_UpdatedAt a = v)
        (edit_row req (has_aliases db ?x) w)) db) = Inr db2"
    and db': "db' = withdraw_mail (stamp env) w req cur db5"
    and d5: "sb_mail db5 = sb_mail db2" "sb_next_account db5 = sb_next_account db2" "sb_pending db5 = sb_pending db2"
      "sb_groups db5 = sb_groups db2" "sb_next_alias db5 = sb_next_alias db2" "sb_next_group db5 = sb_next_group db2"
      "\<exists>f. sb_schedules db5 = map f (sb_schedules db2) \<and> (\<forall>c. cs_AccountID (f c) = cs_AccountID c)"
      "\<exists>P. sb_apple db5 = filter P (sb_apple db2)"
    by (rule update_account_cases) blast
  have "store_wf (set_accounts (update_where (\<lambda>a. ac_ID a = ?x \<and> ac_UpdatedAt a = v) (edit_row req (has_aliases db ?x) w)) db)"
  proof (rule edit_account_wf [OF wf ok])
    fix a assume a: "ac_ID a = ?x" "a \<in> set (sb_accounts db)"
    have "a = cur" using find_by_unique [OF store_wf_unique(2) [OF wf] a(2), of ?x] a(1) cur by simp
    then show "nocase (ac_Email (edit_row req (has_aliases db ?x) w a)) =
        nocase (if has_aliases db ?x then ac_Email cur else requested_email req) \<and> ac_IMAPPort (edit_row req (has_aliases db ?x) w a) = ac_IMAPPort req"
      by (simp add: edit_row_def)
  qed (simp add: edit_row_def)
  then have "store_wf db2" by (rule keys_kept_wf [OF settings_keys [OF up]])
  moreover from d5(7,8) obtain f P where "sb_schedules db5 = map f (sb_schedules db2)" "\<forall>c. cs_AccountID (f c) = cs_AccountID c"
    "sb_apple db5 = filter P (sb_apple db2)" by blast
  ultimately have "store_wf db5" using tables_wf [OF _ d5(1-6)] by blast
  then show ?thesis unfolding db' by (rule keys_kept_wf [OF withdraw_keys])
qed

lemma account_status_wf:
  assumes "SetAccountSyncStatus env x status err t db = (res, db')" and wf: "store_wf db"
  shows "store_wf db'"
proof (rule commit_wf [OF wf assms(1) [unfolded SetAccountSyncStatus_def]])
  fix r d
  assume "bind_res (lockAccount db x) (\<lambda>version. bind_res (nextVersion env version) (\<lambda>next_version.
          if list_ex (\<lambda>a. ac_ID a = x \<and> ac_UpdatedAt a = version) (sb_accounts db)
          then Inr ((), set_accounts (update_where (\<lambda>a. ac_ID a = x \<and> ac_UpdatedAt a = version)
                 (\<lambda>a. a\<lparr>ac_LastSyncStatus := sanitizePostgresText status, ac_LastSyncError := sanitizePostgresText err,
                        ac_LastSyncedAt := nullableTimestamp t, ac_UpdatedAt := next_version\<rparr>)) db)
          else Inl StNotFound)) = Inr (r, d)"
  then obtain P w where "d = set_accounts (update_where P (\<lambda>a. a\<lparr>ac_LastSyncStatus := sanitizePostgresText status,
      ac_LastSyncError := sanitizePostgresText err, ac_LastSyncedAt := nullableTimestamp t, ac_UpdatedAt := w\<rparr>)) db"
    by (auto simp: bind_res_Inr split: if_splits)
  then show "store_wf d" using keys_kept_wf [OF keys_kept_set_accounts wf] by (simp add: account_key_def)
qed

subsection \<open>Imports\<close>

lemma reconcile_alias_wf:
  assumes "store_wf (rc_db s)"
  shows "store_wf (rc_db (reconcile_alias env x cs presence a s))"
proof -
  have status: "store_wf (set_status env x i b st e d)" if "store_wf d" for i b st e d
    unfolding set_status_def by (rule set_alias_columns_wf [OF that]) (simp add: alias_key_def)
  have audit: "store_wf (write_audit env l d)" if "store_wf d" for l d by (rule keys_kept_wf [OF keys_kept_simple(2) that])
  show ?thesis
    using assms by (simp add: reconcile_alias_def Let_def status audit delete_aliases_wf split: option.split bool.split)
qed

lemma reconcile_directory_wf:
  assumes "reconcileAppleAliasesTx env x cs presence res db = Inr (routing, res', db')" and wf: "store_wf db"
  shows "store_wf db'"
proof -
  have inv: "store_wf (rc_db (fold (reconcile_alias env x cs presence) as s))" if "store_wf (rc_db s)" for as s
    using that by (induction as arbitrary: s) (simp_all add: reconcile_alias_wf)
  have "rc_db (fold (reconcile_alias env x cs presence) (by_address (filter (\<lambda>a. a_AccountID a = x) (sb_aliases db)))
      \<lparr>rc_db = db, rc_routing = False, rc_changed = [], rc_result = res\<rparr>) = db'"
    using assms(1) by (auto simp: reconcileAppleAliasesTx_def Let_def bind_res_Inr)
  with inv [of "\<lparr>rc_db = db, rc_routing = False, rc_changed = [], rc_result = res\<rparr>"] wf show ?thesis by auto
qed

lemma insert_imported_wf:
  assumes "insert_imported env x ic st rc before item s = Inr s'" and wf: "store_wf (in_db s)"
  shows "store_wf (in_db s')"
proof -
  obtain c e where item: "item = (c, e)" by (cases item)
  from assms(1) [unfolded item] show ?thesis
  proof (cases rule: insert_imported_cases)
    case present
    with wf show ?thesis by simp
  next
    case (created hash i db1 db2)
    have "store_wf db1" by (rule insert_alias_wf [OF created(1) wf]) (simp_all add: imported_row_def alias_row_columns group_ok_def)
    with created(3,5) show ?thesis by (auto split: if_splits dest: generated_wf)
  qed
qed

lemma import_wf:
  assumes "import_tx env x cs ic st required directory db = Inr (r, db')" and wf: "store_wf db"
  shows "store_wf db'"
proof -
  from assms(1) obtain v res pending routing res1 db1 s and state :: mailbox_state where
    rec: "(case directory of None \<Rightarrow> Inr (False, res, db)
        | Some presence \<Rightarrow> reconcileAppleAliasesTx env x cs presence res db) = Inr (routing, res1, db1)"
    and fold: "fold_res (insert_imported env x ic st (directory \<noteq> None) (ir_Existing res))
       (sort_key (\<lambda>it. ic_Address (fst it)) (assign_enabled (mailboxHasEnabledAliasLimit (ms_MailboxType state)) (capacity_used db1 x) pending))
       \<lparr>in_db = db1, in_result = res1, in_created = [], in_credentials = [], in_enabled = False\<rparr> = Inr s"
    and fin: "(if in_enabled s \<or> routing then bumpAccountVersionTx env x v (if in_enabled s then reset_cursor x (in_db s) else in_db s)
      else Inr (if in_enabled s then reset_cursor x (in_db s) else in_db s)) = Inr db'"
    by (rule import_cases) blast
  have "store_wf db1" using rec wf by (auto split: option.splits dest: reconcile_directory_wf)
  then have "store_wf (in_db s)"
    using fold_res_invariant [OF fold, where P = "\<lambda>s. store_wf (in_db s)"] insert_imported_wf by simp
  then have "store_wf (if in_enabled s then reset_cursor x (in_db s) else in_db s)" by (simp add: reset_cursor_wf)
  then show ?thesis using fin bump_wf by (auto split: if_splits)
qed

end
