(* ===== verification/StoreLimit.thy ===== *)
theory StoreLimit
  imports StoreMailSteps
begin

section \<open>The limit on enabled aliases\<close>

text \<open>
  An account that is not a custom mailbox has at most 1000 enabled aliases. The operations check the
  limit against the aliases that are enabled or reserved; the lemmas say of each operation that an
  account either keeps to the limit afterwards or has no more enabled aliases than before.
\<close>

subsection \<open>Limited accounts\<close>

definition limited :: "store_db \<Rightarrow> int \<Rightarrow> bool" where
  "limited db i \<longleftrightarrow> (case find_by ac_ID i (sb_accounts db) of None \<Rightarrow> False
     | Some a \<Rightarrow> mailboxHasEnabledAliasLimit (ac_MailboxType a))"

definition within_limit :: "store_db \<Rightarrow> bool" where
  "within_limit db \<longleftrightarrow> (\<forall>i. limited db i \<longrightarrow> card (enabled_ids db i) \<le> MaxEnabledAliasesPerAccount)"

definition tame :: "store_db \<Rightarrow> store_db \<Rightarrow> bool" where
  "tame db db' \<longleftrightarrow> (\<forall>i. limited db' i \<longrightarrow> card (enabled_ids db' i) \<le> MaxEnabledAliasesPerAccount \<or>
     (limited db i \<and> card (enabled_ids db' i) \<le> card (enabled_ids db i)))"

lemma tame_within: "tame db db' \<Longrightarrow> within_limit db \<Longrightarrow> within_limit db'"
  unfolding tame_def within_limit_def by (meson le_trans)

lemma finite_enabled [simp]: "finite (enabled_ids db i)"
  unfolding enabled_ids_def by (rule finite_subset [of _ "a_ID ` set (sb_aliases db)"]) auto

lemma tame_subset: "(\<And>i. limited db' i \<Longrightarrow> limited db i) \<Longrightarrow> (\<And>i. enabled_ids db' i \<subseteq> enabled_ids db i) \<Longrightarrow> tame db db'"
proof -
  assume l: "\<And>i. limited db' i \<Longrightarrow> limited db i" and s: "\<And>i. enabled_ids db' i \<subseteq> enabled_ids db i"
  show "tame db db'"
    unfolding tame_def using l card_mono [OF finite_enabled s] by blast
qed

lemma limited_same: "sb_accounts db' = sb_accounts db \<Longrightarrow> limited db' i = limited db i"
  by (simp add: limited_def)

lemma tame_routes: "routes_kept db db' \<Longrightarrow> tame db db'"
proof (rule tame_subset)
  assume k: "routes_kept db db'"
  then have acc: "sb_accounts db' = sb_accounts db" by (simp add: routes_kept_def)
  show "limited db i" if "limited db' i" for i using that limited_same [OF acc, of i] by simp
  show "enabled_ids db' i \<subseteq> enabled_ids db i" for i using routes_kept_view(3) [OF k, of i] by simp
qed

lemma limited_update:
  assumes "sb_accounts db' = update_where P f (sb_accounts db)" and "\<And>a. ac_ID (f a) = ac_ID a" "\<And>a. ac_MailboxType (f a) = ac_MailboxType a"
  shows "limited db' i = limited db i"
proof -
  have "find_by ac_ID i (update_where P f (sb_accounts db)) = map_option (\<lambda>r. if P r then f r else r) (find_by ac_ID i (sb_accounts db))"
    by (rule find_by_update_where) (simp add: assms(2))
  then show ?thesis by (simp add: limited_def assms(1,3) map_option_case split: option.split)
qed

lemma bump_limited: "bumpAccountVersionTx env x v db = Inr db' \<Longrightarrow> limited db' i = limited db i"
proof -
  assume "bumpAccountVersionTx env x v db = Inr db'"
  from bump_facts(4) [OF this] obtain w where
    rows: "sb_accounts db' = update_where (\<lambda>a. ac_ID a = x \<and> ac_UpdatedAt a = v) (\<lambda>a. a\<lparr>ac_UpdatedAt := w\<rparr>) (sb_accounts db)" by blast
  show ?thesis by (rule limited_update [OF rows]) simp_all
qed

lemma publish_limited: "publish_enabled env x v db = Inr db' \<Longrightarrow> limited db' i = limited db i"
  unfolding publish_enabled_def using bump_limited [of env x v "reset_cursor x db" db' i] limited_same [of "reset_cursor x db" db i]
  by simp

lemma publish_ids: "publish_enabled env x v db = Inr db' \<Longrightarrow> enabled_ids db' i = enabled_ids db i"
  unfolding publish_enabled_def using bump_facts(1) [of env x v "reset_cursor x db" db'] by (simp add: enabled_ids_def)

subsection \<open>Counting\<close>

lemma count_enabled: "card (enabled_ids db i) \<le> CountEnabledAliasesByAccount db i"
proof -
  let ?rows = "filter (\<lambda>a. a_AccountID a = i \<and> a_Enabled a) (sb_aliases db)"
  have "enabled_ids db i = set (map a_ID ?rows)" by (auto simp: enabled_ids_def)
  then have "card (enabled_ids db i) \<le> length (map a_ID ?rows)" using card_length by metis
  then show ?thesis by (simp add: CountEnabledAliasesByAccount_def count_where_def)
qed

lemma count_capacity: "card (enabled_ids db i) \<le> capacity_used db i"
proof -
  have "CountEnabledAliasesByAccount db i \<le> capacity_used db i"
    unfolding CountEnabledAliasesByAccount_def capacity_used_def by (rule count_where_mono) (simp add: takes_capacity_def)
  with count_enabled [of db i] show ?thesis by (rule le_trans)
qed

lemma normalize_type_again: "NormalizeMailboxType (NormalizeMailboxType t) = MailboxTypeCustom \<longleftrightarrow> NormalizeMailboxType t = MailboxTypeCustom"
proof -
  have "NormalizeMailboxType t \<in> {MailboxTypeCustom, MailboxTypeICloud, []}" by (simp add: NormalizeMailboxType_def Let_def)
  moreover have "NormalizeMailboxType MailboxTypeCustom = MailboxTypeCustom" by code_simp
  moreover have "NormalizeMailboxType MailboxTypeICloud = MailboxTypeICloud" by code_simp
  moreover have "NormalizeMailboxType [] = MailboxTypeICloud" by code_simp
  moreover have "MailboxTypeICloud \<noteq> MailboxTypeCustom" "[] \<noteq> MailboxTypeCustom" by (simp_all add: MailboxTypeICloud_def MailboxTypeCustom_def)
  ultimately show ?thesis by auto
qed

lemma normalize_custom: "NormalizeMailboxType MailboxTypeCustom = MailboxTypeCustom"
  by code_simp

lemma state_limit:
  "readAccountMailboxStateTx db x = Inr state \<Longrightarrow> mailboxHasEnabledAliasLimit (ms_MailboxType state) = limited db x"
  by (auto simp: readAccountMailboxStateTx_def Let_def limited_def mailboxHasEnabledAliasLimit_def normalize_type_again normalize_custom
      split: option.splits if_splits)

lemma capacity_left: "requireEnabledAliasCapacity db x = Inr () \<Longrightarrow> limited db x \<Longrightarrow> card (enabled_ids db x) < MaxEnabledAliasesPerAccount"
  using count_capacity [of db x] by (auto simp: requireEnabledAliasCapacity_def bind_res_Inr state_limit split: if_splits)

lemma add_one: "card (enabled_ids db i) < MaxEnabledAliasesPerAccount \<Longrightarrow> enabled_ids db' i \<subseteq> insert j (enabled_ids db i) \<Longrightarrow>
    card (enabled_ids db' i) \<le> MaxEnabledAliasesPerAccount"
proof -
  assume room: "card (enabled_ids db i) < MaxEnabledAliasesPerAccount" and s: "enabled_ids db' i \<subseteq> insert j (enabled_ids db i)"
  have "card (enabled_ids db' i) \<le> card (insert j (enabled_ids db i))" by (rule card_mono [OF _ s]) simp
  also have "\<dots> \<le> Suc (card (enabled_ids db i))" by (simp add: card_insert_if)
  finally show ?thesis using room by linarith
qed

subsection \<open>Aliases\<close>

lemma tame_one:
  assumes "\<And>i. limited db' i = limited db i" and "\<And>i. enabled_ids db' i \<subseteq> enabled_ids db i \<or>
      (i = x \<and> enabled_ids db' x \<subseteq> insert j (enabled_ids db x))"
    and "limited db x \<Longrightarrow> \<not> enabled_ids db' x \<subseteq> enabled_ids db x \<Longrightarrow> card (enabled_ids db x) < MaxEnabledAliasesPerAccount"
  shows "tame db db'"
  unfolding tame_def
proof (intro allI impI)
  fix i assume l: "limited db' i"
  show "card (enabled_ids db' i) \<le> MaxEnabledAliasesPerAccount \<or> limited db i \<and> card (enabled_ids db' i) \<le> card (enabled_ids db i)"
  proof (cases "enabled_ids db' i \<subseteq> enabled_ids db i")
    case True
    then show ?thesis using l assms(1) by (simp add: card_mono)
  next
    case False
    with assms(2) [of i] have i: "i = x" "enabled_ids db' x \<subseteq> insert j (enabled_ids db x)" by auto
    have "card (enabled_ids db x) < MaxEnabledAliasesPerAccount" using assms(1,3) l False i(1) by simp
    then show ?thesis using add_one [OF _ i(2)] i(1) by simp
  qed
qed

lemma tame_insert_publish:
  assumes row: "insert_alias row db0 = Inr (i, db1)" "a_AccountID row = x"
    and before: "routes_kept db db0" and kept: "routes_kept db1 db2"
    and fin: "(if a_Enabled row then publish_enabled env x v db2 else Inr db2) = Inr db'"
    and cap: "a_Enabled row \<Longrightarrow> requireEnabledAliasCapacity db x = Inr ()"
  shows "tame db db'"
proof -
  have acc: "sb_accounts db2 = sb_accounts db"
    using before kept insert_alias_facts(1) [OF row(1)] by (simp add: routes_kept_def)
  have l: "limited db' k = limited db k" for k
    using fin publish_limited [of env x v db2 db' k] limited_same [OF acc, of k] by (auto split: if_splits)
  have "enabled_ids db' k = enabled_ids db2 k" for k using fin publish_ids [of env x v db2 db' k] by (auto split: if_splits)
  then have ids: "enabled_ids db' k = enabled_ids db k \<union> (if x = k \<and> a_Enabled row then {i} else {})" for k
    using routes_kept_view(3) [OF kept, of k] enabled_ids_append [OF insert_alias_facts(2) [OF row(1)], of k]
      routes_kept_view(3) [OF before, of k] row(2) by simp
  show ?thesis
    by (rule tame_one [OF l, of x i]) (use ids cap capacity_left in \<open>auto split: if_splits\<close>)
qed

lemma create_alias_tame:
  assumes "create_alias_tx env req db = Inr (i, db')"
  shows "tame db db'"
  using assms
proof (cases rule: create_alias_cases)
  case (1 v row db1 db2)
  then show ?thesis by (intro tame_insert_publish [OF 1(2,3) routes_kept_refl 1(5,6)]) simp
qed

lemma auto_alias_tame:
  assumes "auto_alias_tx env w req c db = Inr (res, db')"
  shows "tame db db'"
  using assms
proof (cases rule: auto_alias_cases)
  case (1 v mode hash i db2 db3)
  show ?thesis
    by (rule tame_insert_publish [OF 1(2) candidate_row_facts(1) routes_kept_session(1) routes_kept_candidate [OF 1(3)]])
      (use 1(4,5) in \<open>simp_all add: candidate_row_facts\<close>)
qed

lemma update_alias_tame:
  assumes tx: "update_alias_tx env i label enabled grp db = Inr (u, db')" and uniq: "unique_key a_ID (sb_aliases db)"
  shows "tame db db'"
  using tx
proof (cases rule: update_alias_cases)
  case (1 a v target db1 db2)
  have a: "a \<in> set (sb_aliases db)" "a_ID a = i" using find_by_SomeD [OF 1(1)] by auto
  have one: "y = a" if "y \<in> set (sb_aliases db)" "a_ID y = i" for y using find_by_unique [OF uniq that] 1(1) by simp
  have al: "sb_aliases db1 = sb_aliases db" using 1(7) bump_facts(1) by (auto split: if_splits)
  have l1: "limited db1 k = limited db k" for k using 1(7) bump_limited by (auto split: if_splits)
  have l: "limited db' k = limited db k" for k
    using l1 [of k] limited_same [of db' db1 k] 1(8,9) by simp
  have ids: "enabled_ids db' k \<subseteq> enabled_ids db k \<union> (if k = a_AccountID a \<and> target \<and> \<not> a_Enabled a then {i} else {})" for k
  proof
    fix j assume "j \<in> enabled_ids db' k"
    then obtain b where b: "b \<in> set (sb_aliases db')" "a_AccountID b = k" "a_Enabled b" "j = a_ID b" by (auto simp: enabled_ids_def)
    have "\<exists>r c. sb_aliases db' = update_where (\<lambda>x. a_ID x = i) (edit_alias env label enabled grp r c) (sb_aliases db)"
      using 1(8,9) al by (cases "target \<and> \<not> a_Enabled a") (simp_all, (intro exI, rule refl)+)
    then obtain r c where rows: "sb_aliases db' = update_where (\<lambda>x. a_ID x = i) (edit_alias env label enabled grp r c) (sb_aliases db)"
      by (elim exE)
    from b(1) obtain y where y: "y \<in> set (sb_aliases db)" "b = (if a_ID y = i then edit_alias env label enabled grp r c y else y)"
      unfolding rows set_update_where by blast
    show "j \<in> enabled_ids db k \<union> (if k = a_AccountID a \<and> target \<and> \<not> a_Enabled a then {i} else {})"
    proof (cases "a_ID y = i")
      case True
      with one y have "y = a" by blast
      with True y b a 1(3) show ?thesis by (auto simp: edit_alias_route enabled_ids_def)
    next
      case False
      with y b show ?thesis by (auto simp: enabled_ids_def)
    qed
  qed
  show ?thesis
  proof (rule tame_one [OF l, of "a_AccountID a" i])
    show "enabled_ids db' k \<subseteq> enabled_ids db k \<or> (k = a_AccountID a \<and> enabled_ids db' (a_AccountID a) \<subseteq> insert i (enabled_ids db (a_AccountID a)))" for k
      using ids [of k] by (auto split: if_splits)
    show "card (enabled_ids db (a_AccountID a)) < MaxEnabledAliasesPerAccount"
      if "limited db (a_AccountID a)" "\<not> enabled_ids db' (a_AccountID a) \<subseteq> enabled_ids db (a_AccountID a)"
      using ids [of "a_AccountID a"] that capacity_left [OF 1(6)] by (auto split: if_splits)
  qed
qed

lemma delete_alias_tame:
  assumes tx: "delete_alias_tx env i db = Inr (u, db')"
  shows "tame db db'"
  using tx
proof (cases rule: delete_alias_cases)
  case (1 a v)
  let ?d = "delete_aliases (\<lambda>x. a_ID x = i \<and> a_AccountID x = a_AccountID a) db"
  have "limited db' k = limited ?d k" "enabled_ids db' k = enabled_ids ?d k" for k
    using 1(3) bump_limited bump_facts(1) by (auto simp: enabled_ids_def split: if_splits)
  then show ?thesis
    using enabled_ids_delete [of _ db] limited_same [OF delete_aliases_facts(1)] by (intro tame_subset) simp_all
qed

lemma discard_tame: "tame db (delete_aliases P db)"
  using enabled_ids_delete limited_same [OF delete_aliases_facts(1)] by (intro tame_subset) simp_all

lemma confirm_tame:
  assumes tx: "confirm_tx env w i expected db = Inr (res, db')"
  shows "tame db db'"
  using tx
proof (cases rule: confirm_cases)
  case (1 v a db3)
  let ?x = "aw_AccountID w"
  have same: "sb_aliases (saveAppleWebSessionTx env w db) = sb_aliases db" "sb_accounts (saveAppleWebSessionTx env w db) = sb_accounts db"
    by (simp_all add: saveAppleWebSessionTx_def put_session_def Let_def)
  have l: "limited db' k = limited db k" for k
    using bump_limited [OF 1(7), of k] limited_same [of db3 db k] limited_same [of "reset_cursor ?x db3" db3 k] 1(6) same
    by (auto split: if_splits)
  have al: "sb_aliases db' = sb_aliases db3" using bump_facts(1) [OF 1(7)] by (auto split: if_splits)
  have ids: "enabled_ids db' k \<subseteq> enabled_ids db k \<union> (if k = ?x then {i} else {})" for k
    unfolding enabled_ids_def al 1(6) view_set_aliases same set_update_where by (auto simp: confirm_row_def)
  have room: "card (enabled_ids db ?x) < MaxEnabledAliasesPerAccount" using count_enabled [of db ?x] 1(4) by simp
  show ?thesis
  proof (rule tame_one [OF l, of ?x i])
    show "enabled_ids db' k \<subseteq> enabled_ids db k \<or> (k = ?x \<and> enabled_ids db' ?x \<subseteq> insert i (enabled_ids db ?x))" for k
      using ids [of k] by (auto split: if_splits)
  qed (rule room)
qed

subsection \<open>Accounts\<close>

lemma settings_limited:
  assumes "upsertAccountMailboxSettingsTx x t s db = Inr db'"
  shows "i \<noteq> x \<Longrightarrow> limited db' i = limited db i" and "limited db' x \<Longrightarrow> NormalizeMailboxType t \<noteq> MailboxTypeCustom"
proof -
  from assms obtain u n where u: "normalizeAccountMailboxSettings t s = Inr (u, n)"
    and db': "db' = set_accounts (update_where (\<lambda>a. ac_ID a = x) (\<lambda>a. a\<lparr>ac_MailboxType := u, ac_EmailSuffix := n\<rparr>)) db"
    by (auto simp: upsertAccountMailboxSettingsTx_def bind_res_Inr split: if_splits)
  have found: "find_by ac_ID i (sb_accounts db') =
      map_option (\<lambda>a. if ac_ID a = x then a\<lparr>ac_MailboxType := u, ac_EmailSuffix := n\<rparr> else a) (find_by ac_ID i (sb_accounts db))" for i
    by (simp add: db' find_by_update_where)
  show "limited db' i = limited db i" if "i \<noteq> x"
    using that unfolding limited_def found by (auto split: option.splits dest: find_by_SomeD)
  have uc: "NormalizeMailboxType u = MailboxTypeCustom" if t: "NormalizeMailboxType t = MailboxTypeCustom"
  proof -
    have "trim_space t \<noteq> []"
    proof
      assume "trim_space t = []"
      then have "NormalizeMailboxType t = MailboxTypeICloud"
        by (simp add: NormalizeMailboxType_def Let_def to_lower_def MailboxTypeCustom_def)
      with t show False by (simp add: MailboxTypeICloud_def MailboxTypeCustom_def)
    qed
    with u t have "u = MailboxTypeCustom"
      by (auto simp: normalizeAccountMailboxSettings_def Let_def split: if_splits option.splits)
    then show ?thesis by (simp add: normalize_custom)
  qed
  show "NormalizeMailboxType t \<noteq> MailboxTypeCustom" if "limited db' x"
    using that uc unfolding limited_def found by (auto simp: mailboxHasEnabledAliasLimit_def split: option.splits dest: find_by_SomeD)
qed

lemma update_account_tame:
  assumes tx: "update_account_tx env req db = Inr (src, db')"
  shows "tame db db'"
  using tx
proof (cases rule: update_account_cases)
  case (1 v cur t s w db2 db5)
  let ?x = "ac_ID req"
  let ?d1 = "set_accounts (update_where (\<lambda>a. ac_ID a = ?x \<and> ac_UpdatedAt a = v) (edit_row req (has_aliases db ?x) w)) db"
  have d1: "limited ?d1 k = limited db k" for k
    by (rule limited_update [of ?d1 "\<lambda>a. ac_ID a = ?x \<and> ac_UpdatedAt a = v" "edit_row req (has_aliases db ?x) w"]) (simp_all add: edit_row_def)
  have d5: "limited db' k = limited db2 k" for k
  proof -
    let ?f = "\<lambda>a. a\<lparr>ac_LastSyncStatus := SyncStatusPending, ac_LastSyncError := [], ac_LastSyncedAt := None, ac_UpdatedAt := w\<rparr>"
    have "limited db' k = limited db5 k"
    proof (cases "withdraws_mail req cur")
      case True
      have rows: "sb_accounts db' = update_where (\<lambda>a. ac_ID a = ?x) ?f (sb_accounts db5)"
        using True by (auto simp: 1(10) withdraw_mail_def reset_statuses_def forget_source_facts)
      show ?thesis by (rule limited_update [OF rows]) simp_all
    next
      case False
      then show ?thesis by (simp add: 1(10) withdraw_mail_def)
    qed
    also have "\<dots> = limited db2 k" by (rule limited_same) (simp add: 1(11))
    finally show ?thesis .
  qed
  have ids: "enabled_ids db' k = enabled_ids db k" for k by (rule update_account_moves(2) [OF tx])
  show ?thesis
    unfolding tame_def ids
  proof (intro allI impI)
    fix k assume l: "limited db' k"
    show "card (enabled_ids db k) \<le> MaxEnabledAliasesPerAccount \<or> limited db k \<and> card (enabled_ids db k) \<le> card (enabled_ids db k)"
    proof (cases "k = ?x \<and> \<not> limited db ?x")
      case False
      then have "limited db k" using l d5 d1 settings_limited(1) [OF 1(9), of k] by (cases "k = ?x") auto
      then show ?thesis by simp
    next
      case True
      have "NormalizeMailboxType t \<noteq> MailboxTypeCustom" using settings_limited(2) [OF 1(9)] l True d5 by simp
      then have "t \<noteq> MailboxTypeCustom" using normalize_custom by metis
      moreover have "NormalizeMailboxType (ac_MailboxType cur) = MailboxTypeCustom"
        using True 1(2) by (simp add: limited_def mailboxHasEnabledAliasLimit_def)
      ultimately have "\<not> has_aliases db ?x" using 1(5) by metis
      then have "enabled_ids db k = {}" using True by (auto simp: enabled_ids_def has_aliases_def list_ex_iff)
      then show ?thesis by simp
    qed
  qed
qed

lemma create_account_tame:
  assumes tx: "create_account_tx env req db = Inr (i, db')" and wf: "store_wf db"
  shows "tame db db'"
proof -
  let ?row = "account_row env db req (NormalizeEmail (sanitizePostgresText (ac_Email req)))"
  let ?d1 = "(set_accounts (\<lambda>as. as @ [?row]) db)\<lparr>sb_next_account := sb_next_account db + 1\<rparr>"
  let ?x = "sb_next_account db"
  from tx obtain t s where up: "upsertAccountMailboxSettingsTx ?x t s ?d1 = Inr db'"
    unfolding create_account_tx_def Let_def by (auto simp: bind_res_Inr split: if_splits)
  have ids: "enabled_ids db' k = enabled_ids db k" for k using settings_facts(1) [OF up] by (simp add: enabled_ids_def)
  have new: "enabled_ids db ?x = {}"
    using aliases_wfD(3) [OF wf_parts(2) [OF wf]] wf_parts(1) [OF wf]
    by (fastforce simp: enabled_ids_def account_exists_def accounts_wf_def find_by_None)
  have "limited db k" if "limited db' k" "k \<noteq> ?x" for k
    using that settings_limited(1) [OF up, of k] by (auto simp: limited_def find_by_append find_by_Cons account_row_def split: option.splits)
  then show ?thesis unfolding tame_def ids using new by (metis card.empty le0 order_refl)
qed

lemma delete_account_tame: "tame db (delete_account_rows x db)"
proof (rule tame_subset)
  show "limited db i" if "limited (delete_account_rows x db) i" for i
  proof -
    have "find_by ac_ID i (sb_accounts (delete_account_rows x db)) = (if i = x then None else find_by ac_ID i (sb_accounts db))"
      by (simp add: delete_account_rows_def delete_aliases_def Let_def find_by_delete_other find_by_None)
    with that show ?thesis by (auto simp: limited_def split: if_splits)
  qed
  show "enabled_ids (delete_account_rows x db) i \<subseteq> enabled_ids db i" for i
    by (auto simp: enabled_ids_def delete_account_rows_def delete_aliases_def Let_def)
qed

lemma status_tame:
  assumes "SetAccountSyncStatus env x status err t db = (Inr u, db')"
  shows "tame db db'"
proof -
  from assms obtain v w where
    db': "db' = set_accounts (update_where (\<lambda>a. ac_ID a = x \<and> ac_UpdatedAt a = v)
        (\<lambda>a. a\<lparr>ac_LastSyncStatus := sanitizePostgresText status, ac_LastSyncError := sanitizePostgresText err,
               ac_LastSyncedAt := nullableTimestamp t, ac_UpdatedAt := w\<rparr>)) db"
    unfolding SetAccountSyncStatus_def commit_Inr by (auto simp: bind_res_Inr split: if_splits)
  have rows: "sb_accounts db' = update_where (\<lambda>a. ac_ID a = x \<and> ac_UpdatedAt a = v)
        (\<lambda>a. a\<lparr>ac_LastSyncStatus := sanitizePostgresText status, ac_LastSyncError := sanitizePostgresText err,
               ac_LastSyncedAt := nullableTimestamp t, ac_UpdatedAt := w\<rparr>) (sb_accounts db)" by (simp add: db')
  have "limited db' k = limited db k" for k by (rule limited_update [OF rows]) simp_all
  then show ?thesis by (intro tame_subset) (simp_all add: status_moves(2) [OF assms])
qed

subsection \<open>Imports and mail\<close>

lemma assigned_within: "n \<le> MaxEnabledAliasesPerAccount \<Longrightarrow> n + length (filter snd (assign_enabled True n cs)) \<le> MaxEnabledAliasesPerAccount"
  by (induction "True" n cs rule: assign_enabled.induct) (auto simp: Let_def)

lemma assigned_none: "MaxEnabledAliasesPerAccount \<le> n \<Longrightarrow> filter snd (assign_enabled True n cs) = []"
  by (induction "True" n cs rule: assign_enabled.induct) (auto simp: Let_def)

lemma insertions_count:
  "fold_res (insert_imported env x ic st rc before) items s = Inr s' \<Longrightarrow>
   card (enabled_ids (in_db s') x) \<le> card (enabled_ids (in_db s) x) + length (filter snd items)"
proof (induction items arbitrary: s)
  case (Cons item items)
  then obtain s1 where one: "insert_imported env x ic st rc before item s = Inr s1"
    and rest: "fold_res (insert_imported env x ic st rc before) items s1 = Inr s'" by (auto simp: bind_res_Inr)
  obtain c e where item: "item = (c, e)" by (cases item)
  have "card (enabled_ids (in_db s1) x) \<le> card (enabled_ids (in_db s) x) + (if e then 1 else 0)"
    using one [unfolded item]
  proof (cases rule: insert_imported_cases)
    case present
    then show ?thesis by (simp add: enabled_ids_def)
  next
    case (created hash i db1 db2)
    have "enabled_ids (in_db s1) x = enabled_ids (in_db s) x \<union> (if e then {i} else {})"
      using routes_kept_view(3) [OF created(2), of x] enabled_ids_append [OF insert_alias_facts(2) [OF created(1)], of x] created(3)
      by (simp add: imported_row_facts)
    then show ?thesis by (auto simp: card_insert_if)
  qed
  with Cons.IH [OF rest] show ?case by (simp add: item split: if_splits)
qed simp

lemma import_tame:
  assumes tx: "import_tx env x cs ic st required directory db = Inr (r, db')" and uniq: "unique_key a_ID (sb_aliases db)"
  shows "tame db db'"
  using tx
proof (cases rule: import_cases)
  case (1 v state res pending routing res1 db1 s)
  have rec: "local_to x db db1 \<and> enabled_ids db1 x \<subseteq> enabled_ids db x"
  proof (cases directory)
    case None
    with 1(6) show ?thesis by auto
  next
    case (Some presence)
    with 1(6) have "reconcileAppleAliasesTx env x cs presence res db = Inr (routing, res1, db1)" by simp
    from reconcile_facts(1,2) [OF this uniq] show ?thesis by blast
  qed
  have ins: "inserting x db1 s" by (rule insertions_step [OF 1(8)]) (simp add: inserting_def)
  let ?d = "if in_enabled s then reset_cursor x (in_db s) else in_db s"
  have acc: "sb_accounts ?d = sb_accounts db" using rec ins by (auto simp: inserting_def local_to_def)
  have l: "limited db' k = limited db k" for k
    using 1(9) bump_limited [of env x v ?d db' k] limited_same [OF acc, of k] by (auto split: if_splits)
  have ids: "enabled_ids db' k = enabled_ids (in_db s) k" for k
    using 1(9) bump_facts(1) by (auto simp: enabled_ids_def split: if_splits)
  let ?items = "assign_enabled (mailboxHasEnabledAliasLimit (ms_MailboxType state)) (capacity_used db1 x) pending"
  have cnt: "card (enabled_ids db' x) \<le> card (enabled_ids db1 x) + length (filter snd ?items)"
    using insertions_count [OF 1(8)] by (simp add: ids filter_sort)
  show ?thesis
    unfolding tame_def
  proof (intro allI impI)
    fix k assume lk: "limited db' k"
    show "card (enabled_ids db' k) \<le> MaxEnabledAliasesPerAccount \<or> limited db k \<and> card (enabled_ids db' k) \<le> card (enabled_ids db k)"
    proof (cases "k = x")
      case False
      with rec ins have "enabled_ids db' k = enabled_ids db k" by (simp add: ids inserting_def local_to_def)
      then show ?thesis using l lk by simp
    next
      case True
      then have lim: "mailboxHasEnabledAliasLimit (ms_MailboxType state)" using state_limit [OF 1(2)] l lk by simp
      show ?thesis
      proof (cases "capacity_used db1 x \<le> MaxEnabledAliasesPerAccount")
        case True
        then show ?thesis using assigned_within [OF True, of pending] cnt count_capacity [of db1 x] lim \<open>k = x\<close> by simp
      next
        case False
        then have "filter snd ?items = []" using assigned_none [of "capacity_used db1 x" pending] lim by simp
        then have "card (enabled_ids db' x) \<le> card (enabled_ids db x)"
          using cnt card_mono [of "enabled_ids db x" "enabled_ids db1 x"] rec by simp
        then show ?thesis using l lk \<open>k = x\<close> by simp
      qed
    qed
  qed
qed

lemma mail_tame:
  assumes k: "idents_kept (sb_mail db) m"
  shows "tame db (db\<lparr>sb_mail := m\<rparr>)"
proof (rule tame_subset)
  show "enabled_ids (db\<lparr>sb_mail := m\<rparr>) i \<subseteq> enabled_ids db i" for i by (simp add: ident_views(2) [OF k])
  have c: "map account_ident (md_accounts m) = map account_ident (sb_accounts db)" using k by (simp add: idents_kept_def)
  have id: "ac_ID = (\<lambda>r. fst (fst (account_ident r)))" by (rule ext) (simp add: account_ident_def account_key_def)
  have map_eq: "map_option ac_MailboxType (find_by ac_ID i (md_accounts m)) = map_option ac_MailboxType (find_by ac_ID i (sb_accounts db))" for i
    unfolding id by (rule found_image [OF _ c]) (simp add: account_ident_def)
  show "limited db i" if "limited (db\<lparr>sb_mail := m\<rparr>) i" for i
    using that map_eq [of i] unfolding limited_def by (cases "find_by ac_ID i (md_accounts m)"; cases "find_by ac_ID i (sb_accounts db)") auto
qed

end
