(* ===== verification/StoreRuns.thy ===== *)
theory StoreRuns
  imports StoreWfOps StoreLimit
begin

section \<open>Runs of the store\<close>

text \<open>
  One relation steps the store by any of its operations on accounts, aliases, credentials, groups,
  sessions and schedules, and by the steps of the mail component on the tables that they share. The
  account version orders these steps: two states of a run with the same version of an account have the
  same mail source and the same enabled aliases, which is what the synchronisation of the account
  read. The ordering argument is made once, in a locale for states with versioned views.
\<close>

subsection \<open>States with versioned views\<close>

locale versioned_state =
  fixes inv :: "'s \<Rightarrow> bool"
    and step :: "'s \<Rightarrow> 's \<Rightarrow> bool"
    and known :: "'s \<Rightarrow> 'k \<Rightarrow> bool"
    and ver :: "'s \<Rightarrow> 'k \<Rightarrow> 'v :: linorder option"
    and view :: "'s \<Rightarrow> 'k \<Rightarrow> 'w"
  assumes inv_step: "inv s \<Longrightarrow> step s s' \<Longrightarrow> inv s'"
    and known_step: "inv s \<Longrightarrow> step s s' \<Longrightarrow> known s k \<Longrightarrow> known s' k"
    and known_ver: "inv s \<Longrightarrow> ver s k = Some v \<Longrightarrow> known s k"
    and ver_step: "inv s \<Longrightarrow> step s s' \<Longrightarrow> known s k \<Longrightarrow> ver s' k = Some v' \<Longrightarrow>
      \<exists>v. ver s k = Some v \<and> (v < v' \<or> (v = v' \<and> view s' k = view s k))"
begin

lemma inv_run: "step\<^sup>*\<^sup>* s s' \<Longrightarrow> inv s \<Longrightarrow> inv s'"
  by (induction rule: rtranclp_induct) (auto intro: inv_step)

lemma known_run: "step\<^sup>*\<^sup>* s s' \<Longrightarrow> inv s \<Longrightarrow> known s k \<Longrightarrow> known s' k"
  by (induction rule: rtranclp_induct) (auto intro: known_step inv_run)

lemma ver_run:
  assumes "step\<^sup>*\<^sup>* s s'" and "inv s" and "known s k" and "ver s' k = Some v'"
  shows "\<exists>v. ver s k = Some v \<and> (v < v' \<or> (v = v' \<and> view s' k = view s k))"
  using assms(1,4)
proof (induction arbitrary: v' rule: rtranclp_induct)
  case (step t u)
  from step.hyps(1) assms(2,3) have "inv t" "known t k" by (auto intro: inv_run known_run)
  from ver_step [OF this(1) step.hyps(2) this(2) step.prems] obtain w where
    w: "ver t k = Some w" "w < v' \<or> (w = v' \<and> view u k = view t k)" by blast
  from step.IH [OF w(1)] w(2) show ?case by force
qed simp

lemma same_version_same_view:
  assumes "inv s" and "step\<^sup>*\<^sup>* s t" and "step\<^sup>*\<^sup>* t u" and "ver t k = Some v" and "ver u k = Some v"
  shows "view u k = view t k"
  using ver_run [OF assms(3) inv_run [OF assms(2,1)] known_ver [OF inv_run [OF assms(2,1)] assms(4)] assms(5)] assms(4) by auto

lemma version_never_returns:
  assumes "inv s" and "step\<^sup>*\<^sup>* s t" and "known s k" and "ver s k = None"
  shows "ver t k = None"
  using ver_run [OF assms(2,1,3)] assms(4) by (cases "ver t k") auto

end

subsection \<open>Steps\<close>

inductive store_step :: "string \<Rightarrow> archive_config \<Rightarrow> store_db \<Rightarrow> store_db \<Rightarrow> bool" for wd cfg where
  st_mail: "mail_step wd cfg (sb_mail db, fs) (m, fs') \<Longrightarrow> store_step wd cfg db (db\<lparr>sb_mail := m\<rparr>)"
| st_create_account: "store_step wd cfg db (snd (CreateAccount env req db))"
| st_update_account: "store_step wd cfg db (fst (snd (UpdateAccount configured io suffix env req (db, d :: string archive_dirs))))"
| st_delete_account: "store_step wd cfg db (fst (snd (DeleteAccount configured io suffix env x (db, d :: string archive_dirs))))"
| st_account_status: "store_step wd cfg db (snd (SetAccountSyncStatus env x status err t db))"
| st_create_alias: "store_step wd cfg db (snd (CreateAlias env a db))"
| st_update_alias: "store_step wd cfg db (snd (UpdateAlias env a db))"
| st_enable_alias: "store_step wd cfg db (snd (SetAliasEnabled env i b db))"
| st_alias_admin: "store_step wd cfg db (snd (UpdateAliasAdminState env i enabled grp db))"
| st_delete_alias: "store_step wd cfg db (snd (DeleteAlias env i db))"
| st_touch_alias: "store_step wd cfg db (snd (TouchAliasAccess env i t db))"
| st_alias_status: "store_step wd cfg db (snd (UpdateAliasSyncStatus env i status err t' db))"
| st_delete_keys: "store_step wd cfg db (snd (DeletePendingAliasAPIKeys env x ids db))"
| st_auto_alias: "store_step wd cfg db (snd (CreateAliasWithPendingAPIKey env w a c db))"
| st_confirm: "store_step wd cfg db (snd (ConfirmPendingAutoAlias env w i db))"
| st_confirm_fresh: "store_step wd cfg db (snd (ConfirmFreshAutoAlias env w i t db))"
| st_discard: "store_step wd cfg db (snd (DiscardPendingAutoAlias env x i db))"
| st_save_session: "store_step wd cfg db (snd (UpsertAppleWebSession env w db))"
| st_drop_session: "store_step wd cfg db (snd (DeleteAppleWebSession env x db))"
| st_ensure: "store_step wd cfg db (snd (ensureAliasCredentialsTx env i x db))"
| st_rotate: "store_step wd cfg db (snd (RotateAliasCredentials env i db))"
| st_rotate_all: "store_step wd cfg db (snd (RotateAllAliasCredentials env db))"
| st_rotate_audit: "store_step wd cfg db (snd (RotateAllAliasCredentialsWithAudit env x v log db))"
| st_rotate_key: "store_step wd cfg db (snd (RotateAliasAPIKeyWithRawKey env i hash prefix raw db))"
| st_create_group: "store_step wd cfg db (snd (CreateMailGroup nfkc env name db))"
| st_rename_group: "store_step wd cfg db (snd (UpdateMailGroup nfkc env i name db))"
| st_delete_group: "store_step wd cfg db (snd (DeleteMailGroup env i db))"
| st_set_group: "store_step wd cfg db (snd (SetAliasGroup env i grp' db))"
| st_set_groups: "store_step wd cfg db (snd (SetAliasesGroup env ids grp' db))"
| st_plan_on: "store_step wd cfg db (snd (EnableAliasCreation env x planned t db))"
| st_plan_off: "store_step wd cfg db (snd (DisableAliasCreation env x t db))"
| st_plan_move: "store_step wd cfg db (snd (RescheduleAliasCreation env x expected planned t db))"
| st_plan_claim: "store_step wd cfg db (snd (ClaimAliasCreation env x expected planned t db))"
| st_plan_success: "store_step wd cfg db (snd (RecordAliasCreationSuccess env x t address db))"
| st_plan_failure: "store_step wd cfg db (snd (RecordAliasCreationFailure env x t message db))"
| st_import: "store_step wd cfg db (snd (importAliases env x cs ic strict required directory db))"

abbreviation store_run :: "string \<Rightarrow> archive_config \<Rightarrow> store_db \<Rightarrow> store_db \<Rightarrow> bool" where
  "store_run wd cfg \<equiv> (store_step wd cfg)\<^sup>*\<^sup>*"

subsection \<open>What every step respects\<close>

definition sync_view :: "store_db \<Rightarrow> int \<Rightarrow> (string \<times> int \<times> string \<times> string \<times> bool) option \<times> int set" where
  "sync_view db i = (source db i, enabled_ids db i)"

definition account_known :: "store_db \<Rightarrow> int \<Rightarrow> bool" where
  "account_known db i \<longleftrightarrow> i < sb_next_account db"

definition advances :: "store_db \<Rightarrow> store_db \<Rightarrow> bool" where
  "advances db db' \<longleftrightarrow> sb_next_account db \<le> sb_next_account db' \<and>
     (\<forall>i v'. account_known db i \<longrightarrow> store_version db' i = Some v' \<longrightarrow>
        (\<exists>v. store_version db i = Some v \<and> (v < v' \<or> (v = v' \<and> sync_view db' i = sync_view db i))))"

text \<open>
  An alias becomes enabled only together with a new boundary, but for the confirmation of an alias
  that was created at the source after the version that the caller still holds.
\<close>

definition fresh_confirmation :: "store_db \<Rightarrow> store_db \<Rightarrow> bool" where
  "fresh_confirmation db db' \<longleftrightarrow> (\<exists>env w i t res. confirm_tx env w i t db = Inr (res, db') \<and>
     \<not> is_zero_time t \<and> store_version db (aw_AccountID w) = Some (to_timestamp t))"

definition resyncs :: "store_db \<Rightarrow> store_db \<Rightarrow> bool" where
  "resyncs db db' \<longleftrightarrow> boundary db db' \<or> fresh_confirmation db db'"

definition orderly :: "store_db \<Rightarrow> store_db \<Rightarrow> bool" where
  "orderly db db' \<longleftrightarrow> advances db db' \<and> tame db db' \<and> resyncs db db'"

definition step_ok :: "store_db \<Rightarrow> store_db \<Rightarrow> bool" where
  "step_ok db db' \<longleftrightarrow> store_wf db' \<and> orderly db db'"

lemma advances_quiet: "quiet db db' \<Longrightarrow> advances db db'"
  by (simp add: advances_def quiet_def sync_view_def)

lemma advances_moves: "moves x db db' \<Longrightarrow> advances db db'"
  unfolding advances_def moves_def sync_view_def by (metis option.inject order_refl)

lemma orderly_fenced: "fenced x db db' \<Longrightarrow> boundary db db' \<Longrightarrow> tame db db' \<Longrightarrow> orderly db db'"
  by (auto simp: orderly_def resyncs_def fenced_def intro: advances_quiet advances_moves)

lemma orderly_moves: "moves x db db' \<Longrightarrow> boundary db db' \<Longrightarrow> tame db db' \<Longrightarrow> orderly db db'"
  by (rule orderly_fenced [of x]) (simp_all add: fenced_def)

lemma orderly_routes: "routes_kept db db' \<Longrightarrow> orderly db db'"
  using routes_kept_view(1) [of db db'] by (simp add: orderly_def resyncs_def advances_quiet boundary_quiet tame_routes)

lemma step_ok_refl: "store_wf db \<Longrightarrow> step_ok db db"
  by (simp add: step_ok_def orderly_routes)

lemma commit_ok:
  assumes "store_wf db" and "\<And>r d. m = Inr (r, d) \<Longrightarrow> store_wf d \<and> orderly db d"
  shows "step_ok db (snd (commit env db m))"
proof -
  obtain res db' where c: "commit env db m = (res, db')" by (cases "commit env db m")
  from c show ?thesis by (cases rule: commit_cases) (use c assms step_ok_refl in \<open>auto simp: step_ok_def\<close>)
qed

text \<open>An operation that reads its result back after the transaction.\<close>

lemma read_back_db: "snd (case r of (Inl e, d) \<Rightarrow> (Inl e, d) | (Inr x, d) \<Rightarrow> (f x d, d)) = snd r"
  by (simp split: prod.split sum.split)

lemma then_get_db [simp]: "snd (then_get i r) = snd r"
  by (simp add: then_get_def split: prod.split sum.split)

subsection \<open>Aliases\<close>

lemma update_state_step: "store_wf db \<Longrightarrow> step_ok db (snd (updateAliasState env i label enabled grp db))"
  unfolding updateAliasState_def
proof (rule commit_ok)
  fix r d assume wf: "store_wf db" and tx: "update_alias_tx env i label enabled grp db = Inr (r, d)"
  note uniq = store_wf_unique(1) [OF wf]
  from update_alias_ok [OF tx uniq] show "store_wf d \<and> orderly db d"
    using update_alias_wf [OF tx wf] update_alias_tame [OF tx uniq] orderly_fenced by blast
qed

lemma columns_step:
  assumes "store_wf db" and "\<And>a. P a \<Longrightarrow> route (f a) = route a" and "\<And>a. P a \<Longrightarrow> alias_key (f a) = alias_key a"
  shows "store_wf (set_aliases (update_where P f) db) \<and> orderly db (set_aliases (update_where P f) db)"
  using assms set_alias_columns_wf orderly_routes [OF routes_kept_set_aliases] by blast

lemma create_alias_step: "store_wf db \<Longrightarrow> step_ok db (snd (CreateAlias env a db))"
proof -
  assume wf: "store_wf db"
  have "step_ok db (snd (commit env db (create_alias_tx env a db)))"
    by (rule commit_ok [OF wf]) (use orderly_fenced [OF create_alias_ok create_alias_tame] create_alias_wf wf in blast)
  then show ?thesis by (simp only: CreateAlias_def read_back_db)
qed

lemma delete_alias_step: "store_wf db \<Longrightarrow> step_ok db (snd (DeleteAlias env i db))"
  unfolding DeleteAlias_def
proof (rule commit_ok)
  fix r d assume wf: "store_wf db" and tx: "delete_alias_tx env i db = Inr (r, d)"
  from delete_alias_ok [OF tx store_wf_unique(1) [OF wf]] show "store_wf d \<and> orderly db d"
    using delete_alias_wf [OF tx wf] delete_alias_tame [OF tx] orderly_fenced by blast
qed

lemma touch_step: "store_wf db \<Longrightarrow> step_ok db (snd (TouchAliasAccess env i t db))"
  unfolding TouchAliasAccess_def
  by (rule commit_ok, assumption) (auto simp: route_def alias_key_def split: if_splits intro!: set_alias_columns_wf orderly_routes routes_kept_set_aliases)

lemma alias_status_step: "store_wf db \<Longrightarrow> step_ok db (snd (UpdateAliasSyncStatus env i status err t db))"
  unfolding UpdateAliasSyncStatus_def Let_def
  by (rule commit_ok, assumption)
    (auto simp: route_def alias_key_def split: if_splits option.splits intro!: set_alias_columns_wf orderly_routes routes_kept_set_aliases)

lemma pending_step:
  assumes "store_wf db"
  shows "store_wf (delete_pending P db) \<and> orderly db (delete_pending P db)"
  using assms by (simp add: delete_pending_wf orderly_routes)

lemma delete_keys_step: "store_wf db \<Longrightarrow> step_ok db (snd (DeletePendingAliasAPIKeys env x ids db))"
proof -
  assume wf: "store_wf db"
  have "step_ok db (snd (commit env db (Inr ((), delete_pending P db))))" for P
    by (rule commit_ok [OF wf]) (use pending_step [OF wf] in auto)
  then show ?thesis by (simp add: DeletePendingAliasAPIKeys_def step_ok_refl wf)
qed

lemma auto_alias_step: "store_wf db \<Longrightarrow> step_ok db (snd (CreateAliasWithPendingAPIKey env w a c db))"
proof -
  assume wf: "store_wf db"
  have "step_ok db (snd (commit env db (auto_alias_tx env w a c db)))"
  proof (rule commit_ok [OF wf])
    fix r d assume tx: "auto_alias_tx env w a c db = Inr (r, d)"
    show "store_wf d \<and> orderly db d"
      using orderly_fenced [OF auto_alias_ok [OF tx] auto_alias_tame [OF tx]] auto_alias_wf [OF tx wf] by simp
  qed
  then show ?thesis by (simp add: CreateAliasWithPendingAPIKey_def step_ok_refl wf)
qed

lemma confirm_step: "store_wf db \<Longrightarrow> step_ok db (snd (commit env db (confirm_tx env w i expected db)))"
proof (rule commit_ok)
  fix r d assume wf: "store_wf db" and tx: "confirm_tx env w i expected db = Inr (r, d)"
  have adv: "advances db d" using confirm_ok(1) [OF tx] by (auto simp: fenced_def intro: advances_quiet advances_moves)
  have "resyncs db d"
    using confirm_ok(2) [OF tx] tx unfolding resyncs_def fresh_confirmation_def by blast
  then show "store_wf d \<and> orderly db d" using confirm_wf [OF tx wf] confirm_tame [OF tx] adv by (simp add: orderly_def)
qed

lemma discard_orderly: "orderly db (delete_aliases (discardable db x i) db)"
  by (rule orderly_fenced [of x]) (simp_all add: fenced_def discard_quiet boundary_quiet discard_tame)

lemma discard_step: "store_wf db \<Longrightarrow> step_ok db (snd (DiscardPendingAutoAlias env x i db))"
proof -
  assume wf: "store_wf db"
  have "step_ok db (snd (commit env db (bind_res (lockAccount db x) (\<lambda>_.
           if list_ex (discardable db x i) (sb_aliases db)
           then Inr ((), delete_aliases (discardable db x i) db) else Inl StNotFound))))"
    by (rule commit_ok [OF wf]) (use wf in \<open>auto simp: bind_res_Inr delete_aliases_wf split: if_splits intro: discard_orderly\<close>)
  then show ?thesis by (simp add: DiscardPendingAutoAlias_def step_ok_refl wf)
qed

subsection \<open>Sessions, credentials and groups\<close>

lemma save_session_step: "store_wf db \<Longrightarrow> step_ok db (snd (UpsertAppleWebSession env w db))"
proof -
  assume wf: "store_wf db"
  then show ?thesis
    unfolding UpsertAppleWebSession_def Let_def
    by (auto simp: step_ok_refl wf bind_res_Inr orderly_routes split: if_splits intro!: commit_ok put_session_wf dest!: lock_exists)
qed

lemma drop_session_step: "store_wf db \<Longrightarrow> step_ok db (snd (DeleteAppleWebSession env x db))"
  unfolding DeleteAppleWebSession_def
  by (rule commit_ok, assumption) (auto simp: drop_session_wf orderly_routes split: if_splits)

lemma ensure_step: "store_wf db \<Longrightarrow> step_ok db (snd (ensureAliasCredentialsTx env i x db))"
proof -
  assume wf: "store_wf db"
  have c: "step_ok db (snd (commit env db (bind_res (migrate_alias env a db) (\<lambda>db'. Inr ((), db')))))" for a
    by (rule commit_ok [OF wf]) (auto simp: bind_res_Inr intro: migrate_wf [OF _ wf] orderly_routes migrate_routes)
  have n: "step_ok db (snd (commit env db (Inr ((), db))))" by (rule commit_ok [OF wf]) (simp add: wf orderly_routes)
  show ?thesis by (auto simp: ensureAliasCredentialsTx_def c n step_ok_refl wf split: sum.split option.split)
qed

lemma rotate_step: "store_wf db \<Longrightarrow> step_ok db (snd (RotateAliasCredentials env i db))"
proof -
  assume wf: "store_wf db"
  have "step_ok db (snd (commit env db (rotate_credentials_tx env i db)))"
    by (rule commit_ok [OF wf]) (use rotate_credentials_wf rotate_credentials_routes wf orderly_routes in blast)
  then show ?thesis by (simp add: RotateAliasCredentials_def step_ok_refl wf)
qed

lemma rotate_all_step: "store_wf db \<Longrightarrow> step_ok db (snd (commit env db (rotate_all_tx env audit db)))"
  by (rule commit_ok, assumption) (use rotate_all_wf rotate_all_routes orderly_routes in blast)

lemma rotate_key_step: "store_wf db \<Longrightarrow> step_ok db (snd (RotateAliasAPIKeyWithRawKey env i hash prefix raw db))"
proof -
  assume wf: "store_wf db"
  have "step_ok db (snd (commit env db (rotate_api_key_tx env i hash prefix raw db)))"
    by (rule commit_ok [OF wf]) (use rotate_api_key_wf rotate_api_key_routes wf orderly_routes in blast)
  then show ?thesis by (simp add: RotateAliasAPIKeyWithRawKey_def step_ok_refl wf)
qed

lemma orderly_beside: "sb_mail db' = sb_mail db \<Longrightarrow> sb_next_account db' = sb_next_account db \<Longrightarrow> orderly db db'"
  by (rule orderly_routes) (simp add: routes_kept_def)

lemma create_group_step: "store_wf db \<Longrightarrow> step_ok db (snd (CreateMailGroup nfkc env name db))"
proof -
  assume wf: "store_wf db"
  let ?row = "\<lambda>n. \<lparr>mg_ID = sb_next_group db, mg_Name = n, mg_NameKey = mailGroupNameKey nfkc n, mg_CreatedAt = stamp env, mg_UpdatedAt = stamp env\<rparr>"
  have "step_ok db (snd (commit env db (if name_key_taken db (sb_next_group db) (mailGroupNameKey nfkc n) then Inl StGroupNameExists
      else Inr ((), db\<lparr>sb_groups := sb_groups db @ [?row n], sb_next_group := sb_next_group db + 1\<rparr>))))" for n
    by (rule commit_ok [OF wf]) (auto split: if_splits intro!: create_group_wf [OF wf] orderly_beside)
  then show ?thesis
    by (cases "normalizeMailGroupName name") (simp_all only: CreateMailGroup_def sum.case Let_def read_back_db snd_conv step_ok_refl wf)
qed

lemma rename_group_step: "store_wf db \<Longrightarrow> step_ok db (snd (UpdateMailGroup nfkc env i name db))"
proof -
  assume wf: "store_wf db"
  have "step_ok db (snd (commit env db (if find_by mg_ID i (sb_groups db) = None then Inl StNotFound
      else if name_key_taken db i (mailGroupNameKey nfkc n) then Inl StGroupNameExists
      else Inr ((), db\<lparr>sb_groups := update_where (\<lambda>g. mg_ID g = i)
          (\<lambda>g. g\<lparr>mg_Name := n, mg_NameKey := mailGroupNameKey nfkc n, mg_UpdatedAt := stamp env\<rparr>) (sb_groups db)\<rparr>))))" for n
    by (rule commit_ok [OF wf]) (auto split: if_splits intro!: rename_group_wf [OF wf] orderly_beside)
  then show ?thesis
    by (cases "normalizeMailGroupName name"; cases "i < 1")
      (simp_all only: UpdateMailGroup_def sum.case Let_def read_back_db snd_conv step_ok_refl wf if_True if_False)
qed

lemma delete_group_step: "store_wf db \<Longrightarrow> step_ok db (snd (DeleteMailGroup env i db))"
proof -
  assume wf: "store_wf db"
  let ?f = "\<lambda>a. a\<lparr>a_GroupID := None, a_UpdatedAt := stamp env\<rparr>"
  let ?d = "(set_aliases (update_where (\<lambda>a. a_GroupID a = Some i) ?f) db)\<lparr>sb_groups := delete_where (\<lambda>g. mg_ID g = i) (sb_groups db)\<rparr>"
  have "routes_kept db ?d" by (simp add: routes_kept_def routes_update_where route_def)
  then have "step_ok db (snd (commit env db (if find_by mg_ID i (sb_groups db) = None then Inl StNotFound else Inr ((), ?d))))"
    by (intro commit_ok [OF wf]) (auto simp: alias_key_def split: if_splits intro!: delete_group_wf [OF wf] orderly_routes)
  then show ?thesis by (simp add: DeleteMailGroup_def step_ok_refl wf)
qed

lemma move_wf: "store_wf db \<Longrightarrow> requested_group db g = Inr () \<Longrightarrow> store_wf (move_aliases env ids g db)"
  unfolding move_aliases_def
  by (rule move_group_wf) (auto simp: alias_key_def intro!: exI [of _ g] dest: requested_group_ok)

lemma set_group_step: "store_wf db \<Longrightarrow> step_ok db (snd (SetAliasGroup env i g db))"
proof -
  assume wf: "store_wf db"
  have "step_ok db (snd (commit env db (bind_res (requested_group db g) (\<lambda>_.
      if find_by a_ID i (sb_aliases db) = None then Inl StNotFound else Inr ((), move_aliases env [i] g db)))))"
    by (rule commit_ok [OF wf]) (use wf in \<open>auto simp: bind_res_Inr split: if_splits intro!: move_wf orderly_routes move_aliases_routes\<close>)
  then show ?thesis by (simp add: SetAliasGroup_def step_ok_refl wf)
qed

lemma set_groups_step: "store_wf db \<Longrightarrow> step_ok db (snd (SetAliasesGroup env ids g db))"
proof -
  assume wf: "store_wf db"
  have "step_ok db (snd (commit env db (bind_res (requested_group db g) (\<lambda>_.
      if count_where (\<lambda>a. a_ID a \<in> set is) (sb_aliases db) \<noteq> length is then Inl StNotFound else Inr ((), move_aliases env is g db)))))" for "is"
    by (rule commit_ok [OF wf]) (use wf in \<open>auto simp: bind_res_Inr split: if_splits intro!: move_wf orderly_routes move_aliases_routes\<close>)
  from this [of "remdups ids"] step_ok_refl [OF wf] show ?thesis by (auto simp only: SetAliasesGroup_def Let_def snd_conv split: if_splits)
qed

subsection \<open>Schedules\<close>

lemma stop_schedule_wf: "store_wf db \<Longrightarrow> store_wf (stop_schedule t x db)"
  unfolding stop_schedule_def by (rule update_schedules_wf) simp_all

lemma plan_on_step: "store_wf db \<Longrightarrow> step_ok db (snd (EnableAliasCreation env x planned t db))"
  unfolding EnableAliasCreation_def Let_def
  by (auto simp: step_ok_refl bind_res_Inr orderly_beside split: if_splits intro!: commit_ok put_schedule_wf dest!: lock_exists)

lemma plan_off_step: "store_wf db \<Longrightarrow> step_ok db (snd (DisableAliasCreation env x t db))"
  unfolding DisableAliasCreation_def
  by (auto simp: step_ok_refl stop_schedule_wf orderly_routes intro!: commit_ok)

lemma plan_cas_step: "store_wf db \<Longrightarrow> step_ok db (snd (casAliasCreationPlan env x expected planned t claim db))"
  unfolding casAliasCreationPlan_def
  by (auto simp: step_ok_refl orderly_beside intro!: commit_ok update_schedules_wf)

lemma plan_update_step: "(\<And>c. cs_AccountID (f c) = cs_AccountID c) \<Longrightarrow> store_wf db \<Longrightarrow> step_ok db (snd (update_schedule env x f db))"
  unfolding update_schedule_def
  by (rule commit_ok) (auto simp: orderly_beside split: if_splits intro!: update_schedules_wf)

subsection \<open>Accounts\<close>

lemma create_account_step: "store_wf db \<Longrightarrow> step_ok db (snd (CreateAccount env req db))"
proof -
  assume wf: "store_wf db"
  have adv: "orderly db d" if tx: "create_account_tx env req db = Inr (i, d)" for i d
  proof -
    let ?row = "account_row env db req (NormalizeEmail (sanitizePostgresText (ac_Email req)))"
    let ?d1 = "(set_accounts (\<lambda>as. as @ [?row]) db)\<lparr>sb_next_account := sb_next_account db + 1\<rparr>"
    from tx obtain t s where up: "upsertAccountMailboxSettingsTx (sb_next_account db) t s ?d1 = Inr d"
      unfolding create_account_tx_def Let_def by (auto simp: bind_res_Inr split: if_splits)
    have id: "ac_ID ?row = sb_next_account db" by (simp add: account_row_def)
    have found: "find_by ac_ID j (sb_accounts ?d1) = find_by ac_ID j (sb_accounts db)" if "j < sb_next_account db" for j
      using that id by (simp add: find_by_append find_by_Cons split: option.split)
    have same: "store_version d j = store_version db j" "sync_view d j = sync_view db j" if "j < sb_next_account db" for j
      using found [OF that] settings_facts(1) [OF up] settings_facts(3,5) [OF up, of j]
      by (simp_all add: store_version_def version_of_def sync_view_def source_def enabled_ids_def)
    have "advances db d" using same settings_facts(2) [OF up] by (simp add: advances_def account_known_def)
    moreover have "boundary db d" using settings_facts(1) [OF up] by (simp add: boundary_def enabled_ids_def)
    ultimately show ?thesis using create_account_tame [OF tx wf] by (simp add: orderly_def resyncs_def)
  qed
  have "step_ok db (snd (commit env db (create_account_tx env req db)))"
    by (rule commit_ok [OF wf]) (use adv create_account_wf wf in blast)
  then show ?thesis by (simp only: CreateAccount_def read_back_db)
qed

lemma update_account_step: "store_wf db \<Longrightarrow> step_ok db (fst (snd (UpdateAccount configured io suffix env req (db, d))))"
proof -
  assume wf: "store_wf db"
  have "step_ok db db'" if "update_account_tx env req db = Inr (src, db')" for src db'
    using update_account_wf [OF that wf] orderly_moves [OF update_account_moves(1) [OF that]] update_account_moves(2) [OF that]
      update_account_tame [OF that] by (simp add: step_ok_def boundary_def)
  then show ?thesis
    by (auto simp: UpdateAccount_def step_ok_refl wf split: sum.split prod.split option.split)
qed

lemma enabled_ids_delete_account: "i \<noteq> x \<Longrightarrow> enabled_ids (delete_account_rows x db) i = enabled_ids db i"
  by (auto simp: enabled_ids_def delete_account_rows_def delete_aliases_def Let_def)

lemma delete_account_step: "store_wf db \<Longrightarrow> step_ok db (fst (snd (DeleteAccount configured io suffix env x (db, d))))"
proof -
  assume wf: "store_wf db"
  let ?d = "delete_account_rows x db"
  have rows: "sb_accounts ?d = delete_where (\<lambda>a. ac_ID a = x) (sb_accounts db)" "sb_next_account ?d = sb_next_account db"
    by (simp_all add: delete_account_rows_def delete_aliases_def Let_def)
  have other: "find_by ac_ID i (sb_accounts ?d) = (if i = x then None else find_by ac_ID i (sb_accounts db))" for i
    unfolding rows by (simp add: find_by_delete_other find_by_None)
  have v: "store_version ?d i = (if i = x then None else store_version db i)" for i
    by (simp add: store_version_def version_of_def other)
  have s: "i \<noteq> x \<Longrightarrow> sync_view ?d i = sync_view db i" for i
    by (simp add: sync_view_def source_def other enabled_ids_delete_account)
  have "advances db ?d" using v s rows(2) by (auto simp: advances_def)
  moreover have "boundary db ?d" by (auto simp: boundary_def enabled_ids_def delete_account_rows_def delete_aliases_def Let_def)
  ultimately have "step_ok db ?d" using delete_account_wf [OF wf] delete_account_tame [of db x] by (simp add: step_ok_def orderly_def resyncs_def)
  then show ?thesis
    by (auto simp: DeleteAccount_def step_ok_refl wf split: prod.split option.split)
qed

lemma account_status_step: "store_wf db \<Longrightarrow> step_ok db (snd (SetAccountSyncStatus env x status err t db))"
proof -
  assume wf: "store_wf db"
  obtain res db' where c: "SetAccountSyncStatus env x status err t db = (res, db')"
    by (cases "SetAccountSyncStatus env x status err t db")
  have "orderly db db'"
  proof (cases res)
    case (Inl e)
    then show ?thesis using c by (auto simp: SetAccountSyncStatus_def dest!: commit_Inl intro: orderly_routes)
  next
    case (Inr u)
    with c have ok: "SetAccountSyncStatus env x status err t db = (Inr u, db')" by simp
    show ?thesis using orderly_moves [OF status_moves(1) [OF ok]] status_moves(2) [OF ok] status_tame [OF ok] by (simp add: boundary_def)
  qed
  then show ?thesis using c account_status_wf [OF c wf] by (simp add: step_ok_def)
qed

subsection \<open>Imports and mail\<close>

lemma import_step: "store_wf db \<Longrightarrow> step_ok db (snd (importAliases env x cs ic strict required directory db))"
proof -
  assume wf: "store_wf db"
  have "step_ok db db'" if "import_tx env x ns ic strict required pres db = Inr (r, db')" for ns pres r db'
    using import_wf [OF that wf] orderly_fenced [OF import_ok [OF that store_wf_unique(1) [OF wf]] import_tame [OF that store_wf_unique(1) [OF wf]]]
    by (simp add: step_ok_def)
  then show ?thesis
    by (auto simp: importAliases_def step_ok_refl wf split: sum.split prod.split)
qed

lemma mail_store_step:
  assumes "mail_step wd cfg (sb_mail db, fs) (m, fs')" and wf: "store_wf db"
  shows "step_ok db (db\<lparr>sb_mail := m\<rparr>)"
proof -
  have k: "idents_kept (sb_mail db) m" using idents_step [OF assms(1)] by simp
  have v: "versions_follow (sb_mail db) m" using k by (simp add: idents_kept_def)
  have "advances db (db\<lparr>sb_mail := m\<rparr>)"
    unfolding advances_def
  proof (intro conjI allI impI)
    fix i v' assume "store_version (db\<lparr>sb_mail := m\<rparr>) i = Some v'"
    then have "version_of m i = Some v'" by (simp add: store_version_def)
    with v obtain w where "version_of (sb_mail db) i = Some w" "w \<le> v'"
      unfolding versions_follow_def by (metis option.discI option.inject)
    then show "\<exists>v. store_version db i = Some v \<and> (v < v' \<or> (v = v' \<and> sync_view (db\<lparr>sb_mail := m\<rparr>) i = sync_view db i))"
      using ident_views(2,3) [OF k] by (auto simp: store_version_def sync_view_def)
  qed simp
  moreover have "boundary db (db\<lparr>sb_mail := m\<rparr>)" by (simp add: boundary_def ident_views(2) [OF k])
  ultimately show ?thesis using keys_kept_wf [OF ident_views(1) [OF k] wf] mail_tame [OF k] by (simp add: step_ok_def orderly_def resyncs_def)
qed

subsection \<open>Every step\<close>

lemma store_step_ok:
  assumes "store_step wd cfg db db'" and "store_wf db"
  shows "step_ok db db'"
  using assms
proof (induction rule: store_step.induct)
  case (st_mail db fs m fs')
  then show ?case by (rule mail_store_step)
next
  case (st_alias_admin db env i enabled grp)
  then show ?case by (simp add: UpdateAliasAdminState_def step_ok_refl update_state_step)
next
  case (st_rotate_all db env)
  then show ?case by (simp add: RotateAllAliasCredentials_def step_ok_refl rotate_all_step)
next
  case (st_rotate_audit db env x v log)
  then show ?case by (simp add: RotateAllAliasCredentialsWithAudit_def step_ok_refl rotate_all_step)
qed (simp_all add: create_account_step update_account_step delete_account_step account_status_step create_alias_step
    delete_alias_step touch_step alias_status_step delete_keys_step auto_alias_step discard_step save_session_step
    drop_session_step ensure_step rotate_step rotate_key_step create_group_step rename_group_step delete_group_step
    set_group_step set_groups_step plan_on_step plan_off_step import_step
    UpdateAlias_def SetAliasEnabled_def update_state_step ConfirmPendingAutoAlias_def ConfirmFreshAutoAlias_def confirm_step
    RescheduleAliasCreation_def ClaimAliasCreation_def plan_cas_step RecordAliasCreationSuccess_def
    RecordAliasCreationFailure_def Let_def plan_update_step)

lemma version_known: "store_wf db \<Longrightarrow> store_version db i = Some v \<Longrightarrow> account_known db i"
  by (auto simp: store_wf_def accounts_wf_def account_known_def store_version_def version_of_def split: option.splits dest: find_by_SomeD)

interpretation synced: versioned_state store_wf "store_step wd cfg" account_known store_version sync_view for wd cfg
proof unfold_locales
  fix s s' k v v'
  show "store_wf s'" if "store_wf s" "store_step wd cfg s s'" using store_step_ok that by (simp add: step_ok_def)
  show "account_known s' k" if "store_wf s" "store_step wd cfg s s'" "account_known s k"
    using store_step_ok [OF that(2,1)] that(3) by (simp add: step_ok_def orderly_def advances_def account_known_def)
  show "account_known s k" if "store_wf s" "store_version s k = Some v" using version_known that by blast
  show "\<exists>v. store_version s k = Some v \<and> (v < v' \<or> (v = v' \<and> sync_view s' k = sync_view s k))"
    if "store_wf s" "store_step wd cfg s s'" "account_known s k" "store_version s' k = Some v'"
    using store_step_ok [OF that(2,1)] that(3,4) by (simp add: step_ok_def orderly_def advances_def)
qed

lemmas store_wf_run = synced.inv_run

end
