(* ===== verification/StoreEnsure.thy ===== *)
theory StoreEnsure
  imports StoreRuns
begin

section \<open>The migration of credentials ends\<close>

text \<open>
  At startup a loop gives every alias that lacks a bundle one, an alias per transaction. Each
  transaction that commits takes its alias off the list, so the loop ends, and when it ends without an
  error no alias is left.
\<close>

lemma count_update_le:
  assumes "\<And>x. x \<in> set rows \<Longrightarrow> P (if D x then f x else x) \<Longrightarrow> Q x"
  shows "count_where P (update_where D f rows) \<le> count_where Q rows"
  using assms by (induction rows) (force simp: count_where_Cons update_where_Cons)+

lemma count_update_strict:
  assumes "r \<in> set rows" and "D r" and "Q r" and "\<not> P (f r)" and "\<And>x. x \<in> set rows \<Longrightarrow> P (if D x then f x else x) \<Longrightarrow> Q x"
  shows "count_where P (update_where D f rows) < count_where Q rows"
  using assms(1,5)
proof (induction rows)
  case (Cons x rows)
  have le: "count_where P (update_where D f rows) \<le> count_where Q rows" by (rule count_update_le) (use Cons.prems(2) in simp)
  show ?case
  proof (cases "x = r")
    case True
    with le assms(2-4) show ?thesis by (simp add: count_where_Cons update_where_Cons)
  next
    case False
    with Cons.prems(1) have "r \<in> set rows" by simp
    with Cons.IH Cons.prems(2) have "count_where P (update_where D f rows) < count_where Q rows" by simp
    moreover have "P (if D x then f x else x) \<Longrightarrow> Q x" using Cons.prems(2) [of x] by simp
    ultimately show ?thesis by (auto simp: count_where_Cons update_where_Cons)
  qed
qed simp

lemma first_awaiting_None: "first_awaiting db = None \<longleftrightarrow> (\<forall>a \<in> set (sb_aliases db). \<not> awaits_migration db a)"
proof -
  have "first_awaiting db = None \<longleftrightarrow> filter (awaits_migration db) (sb_aliases db) = []"
    unfolding first_awaiting_def
    by (metis (no_types, lifting) list.exhaust list.simps(4) list.simps(5) option.distinct(1) set_empty set_sort)
  then show ?thesis by (simp add: filter_empty_conv)
qed

lemma first_awaiting_Some: "first_awaiting db = Some a \<Longrightarrow> a \<in> set (sb_aliases db) \<and> awaits_migration db a"
proof -
  assume "first_awaiting db = Some a"
  then obtain as where "sort_key a_ID (filter (awaits_migration db) (sb_aliases db)) = a # as"
    by (auto simp: first_awaiting_def split: list.splits)
  then have "a \<in> set (sort_key a_ID (filter (awaits_migration db) (sb_aliases db)))" by (simp only: list.set_intros)
  then show ?thesis by simp
qed

definition awaiting_count :: "store_db \<Rightarrow> nat" where
  "awaiting_count db = count_where (awaits_migration db) (sb_aliases db)"

lemma installed_progress:
  assumes mat: "store_material env (a_ID a) m v db = Inr db'" and ok: "validateAliasCredentialMaterialVersion m 1"
    and a: "a \<in> set (sb_aliases db)" "awaits_migration db a" and wf: "store_wf db"
  shows "awaiting_count db' < awaiting_count db"
proof -
  have db': "db' = set_aliases (update_where (\<lambda>x. a_ID x = a_ID a) (with_material env m v)) db"
    using mat by (auto simp: store_material_def split: if_splits)
  have full: "\<not> lacks_bundle (with_material env m v x)" for x
    using ok by (auto simp: lacks_bundle_def with_material_def validateAliasCredentialMaterialVersion_def
        validateAliasCredentialMaterial_def trim_space_def text_simps)
  have pend: "find_pending db' = find_pending db" by (rule ext) (simp add: db' find_pending_def)
  have gone: "\<not> awaits_migration db' (with_material env m v x)" for x using full [of x] by (simp add: awaits_migration_def)
  have kept: "awaits_migration db' x \<longleftrightarrow> awaits_migration db x" for x by (simp add: awaits_migration_def pend)
  show ?thesis
    unfolding awaiting_count_def db' [THEN arg_cong [where f = sb_aliases], unfolded view_set_aliases]
    by (rule count_update_strict [where r = a]) (use a gone kept in \<open>auto split: if_splits\<close>)
qed

lemma discarded_progress:
  assumes p: "find_pending db (a_ID a) = Some p" and legacy: "a_CredentialMode a \<noteq> AliasCredentialModeV2"
    and a: "a \<in> set (sb_aliases db)" "awaits_migration db a" and wf: "store_wf db"
  shows "awaiting_count (delete_pending (\<lambda>q. pk_AliasID q = a_ID a \<and> pk_Ciphertext q = pk_Ciphertext p) db) < awaiting_count db"
    (is "awaiting_count ?d < _")
proof -
  have u: "unique_key pk_AliasID (sb_pending db)" using wf by (simp add: store_wf_def pending_wf_def)
  have none: "find_pending ?d (a_ID a) = None"
    using p u unfolding find_pending_def find_by_None by (auto simp: delete_pending_def dest!: find_by_unique)
  have sub: "find_pending db i \<noteq> None" if "find_pending ?d i \<noteq> None" for i
    using that by (auto simp: find_pending_def find_by_None delete_pending_def)
  have al: "sb_aliases ?d = sb_aliases db" by (simp add: delete_pending_def)
  show ?thesis
    unfolding awaiting_count_def al
  proof (rule count_where_strict [where r = a])
    show "\<not> awaits_migration ?d a" using none legacy by (simp add: awaits_migration_def)
    show "awaits_migration db x" if "awaits_migration ?d x" for x using that sub [of "a_ID x"] by (auto simp: awaits_migration_def)
  qed (use a in simp_all)
qed

lemma migrate_progress:
  assumes mig: "migrate_alias env a db = Inr db'" and factory: "en_factory env \<noteq> None"
    and a: "a \<in> set (sb_aliases db)" "awaits_migration db a" and wf: "store_wf db"
  shows "awaiting_count db' < awaiting_count db"
proof (cases "find_pending db (a_ID a)")
  case None
  then have v2: "a_CredentialMode a = AliasCredentialModeV2" using a(2) by (simp add: awaits_migration_def)
  with mig None obtain m where g: "installGeneratedAliasCredentialsTx env (a_ID a) 1 True db = Inr (m, db')"
    by (auto simp: migrate_alias_def bind_res_Inr)
  from g show ?thesis
  proof (cases rule: generated_cases)
    case unconfigured
    with factory show ?thesis by simp
  next
    case (installed v)
    then show ?thesis using installed_progress a wf by blast
  qed
next
  case (Some p)
  with mig obtain issuer where r: "(case installAliasCredentialMaterialTx env (a_ID a) 1 True issuer (pk_Ciphertext p) (a_APIKeyHash a) db of
                  Inr db' \<Rightarrow> Inr db'
                | Inl e \<Rightarrow>
                    if e = StPendingMismatch \<and> a_CredentialMode a = AliasCredentialModeLegacy \<and>
                       a_CredentialVersion a = 0 \<and> trim_space (a_CredentialCiphertext a) = []
                    then Inr (delete_pending (\<lambda>q. pk_AliasID q = a_ID a \<and> pk_Ciphertext q = pk_Ciphertext p) db)
                    else Inl e) = Inr db'"
    by (auto simp: migrate_alias_def split: option.splits)
  show ?thesis
  proof (cases "installAliasCredentialMaterialTx env (a_ID a) 1 True issuer (pk_Ciphertext p) (a_APIKeyHash a) db")
    case (Inr d)
    with r have "installAliasCredentialMaterialTx env (a_ID a) 1 True issuer (pk_Ciphertext p) (a_APIKeyHash a) db = Inr db'" by simp
    then show ?thesis by (rule reused_material) (use installed_progress a wf in blast)
  next
    case (Inl e)
    with r have "a_CredentialMode a = AliasCredentialModeLegacy"
      and db': "db' = delete_pending (\<lambda>q. pk_AliasID q = a_ID a \<and> pk_Ciphertext q = pk_Ciphertext p) db"
      by (auto split: if_splits)
    then have "a_CredentialMode a \<noteq> AliasCredentialModeV2" by (simp add: AliasCredentialModeLegacy_def AliasCredentialModeV2_def)
    from discarded_progress [OF Some this a wf] show ?thesis by (simp add: db')
  qed
qed

lemma ensure_progress:
  assumes first: "first_awaiting db = Some a" and tx: "ensureAliasCredentialsTx env (a_ID a) (a_AccountID a) db = (Inr u, db')"
    and factory: "en_factory env \<noteq> None" and wf: "store_wf db"
  shows "awaiting_count db' < awaiting_count db"
proof -
  have a: "a \<in> set (sb_aliases db)" "awaits_migration db a" using first_awaiting_Some [OF first] by auto
  have found: "find_alias_of db (a_ID a) (a_AccountID a) = Some a"
    by (rule find_alias_found) (rule find_by_unique [OF store_wf_unique(1) [OF wf] a(1) refl])
  obtain v where v: "lockAccount db (a_AccountID a) = Inr v"
    using aliases_wfD(3) [OF wf_parts(2) [OF wf] a(1)]
    by (auto simp: account_exists_def lockAccount_version store_version_def version_of_def)
  have lacks: "\<not> (a_CredentialVersion a \<noteq> 0 \<and> trim_space (a_CredentialCiphertext a) \<noteq> [])"
    using a(2) by (auto simp: awaits_migration_def lacks_bundle_def trim_space_def text_simps)
  have "commit env db (bind_res (migrate_alias env a db) (\<lambda>db'. Inr ((), db'))) = (Inr u, db')"
    using tx v found lacks by (auto simp: ensureAliasCredentialsTx_def split: if_splits)
  then have "migrate_alias env a db = Inr db'" by (auto simp: commit_Inr bind_res_Inr)
  then show ?thesis by (rule migrate_progress [OF _ factory a wf])
qed

lemma ensure_loop_ends:
  assumes "en_factory env \<noteq> None" and "store_wf db"
  shows "\<exists>res db'. ensure_loop env db = Some (res, db') \<and> store_wf db' \<and> (res = None \<longrightarrow> first_awaiting db' = None)"
  using assms(2)
proof (induction "awaiting_count db" arbitrary: db rule: less_induct)
  case less
  show ?case
  proof (cases "first_awaiting db")
    case None
    with less.prems show ?thesis by (subst ensure_loop.simps) simp
  next
    case (Some a)
    obtain r db1 where tx: "ensureAliasCredentialsTx env (a_ID a) (a_AccountID a) db = (r, db1)" by fastforce
    have wf1: "store_wf db1" by (rule ensure_wf [OF tx less.prems])
    show ?thesis
    proof (cases r)
      case (Inl e)
      with Some tx wf1 show ?thesis by (subst ensure_loop.simps) simp
    next
      case (Inr u)
      from less.hyps [OF ensure_progress [OF Some tx [unfolded Inr] assms(1) less.prems] wf1]
      show ?thesis using Some tx Inr by (subst ensure_loop.simps) simp
    qed
  qed
qed

end
