(* ===== verification/StoreProps.thy ===== *)
theory StoreProps
  imports StoreRuns StoreEnsure MailProps
begin

section \<open>The properties of the store\<close>

text \<open>
  What runs of the store keep, and what single operations on accounts and credentials achieve, each
  with an instance on the small database of one account and one alias.
\<close>

subsection \<open>A small store\<close>

definition small_env :: store_env where
  "small_env = \<lparr>en_now = 10, en_factory = None, en_reuse = None, en_reveal = None, en_pending_key = None, en_api_key = None,
     en_provisional = (\<lambda>_. None), en_draws = (\<lambda>_. []), en_fault = False\<rparr>"

definition small_cursor :: sync_state where
  "small_cursor = \<lparr>ss_AccountID = 7, ss_UIDValidity = 9, ss_LastUID = 4, ss_UpdatedAt = 8\<rparr>"

text \<open>The alias is enabled or not; the synchronisation of its account has a cursor.\<close>

definition small_store :: "bool \<Rightarrow> store_db" where
  "small_store b = \<lparr>sb_mail = small_db\<lparr>md_aliases := [small_alias\<lparr>a_Enabled := b\<rparr>], md_sync := [small_cursor]\<rparr>,
     sb_next_account = 8, sb_next_alias = 4, sb_next_group = 1, sb_groups = [], sb_apple = [], sb_schedules = [],
     sb_pending = [], sb_audit = \<lparr>adb_next = 1, adb_rows = []\<rparr>, sb_admins = demo_admin_db [] 1\<rparr>"

lemmas small_store_defs = small_store_def small_env_def small_cursor_def small_defs

lemma small_store_wf: "store_wf (small_store b)"
  by (simp add: store_wf_defs small_store_defs unique_key_def account_exists_def find_by_Cons group_ok_def AliasCredentialModeV2_def)

lemma one_store_step: "store_step wd cfg db db' \<Longrightarrow> store_run wd cfg db db'"
  by (rule r_into_rtranclp)

subsection \<open>Runs\<close>

text \<open>C2: The version of an account fences its synchronisation: whatever the store did between two points
  of a run, if the account has the same version at both, then the mail source that the worker logs in to
  (host, port, user, password, whether it is enabled) and the set of enabled aliases are the same at both,
  so that a result fetched at the first point may be published at the second.\<close>

theorem same_version_same_source:
  assumes "store_wf db" and "store_run wd cfg db t" and "store_run wd cfg t u"
    and "store_version t i = Some v" and "store_version u i = Some v"
  shows "source u i = source t i \<and> enabled_ids u i = enabled_ids t i"
  using synced.same_version_same_view [OF assms] by (simp add: sync_view_def)

lemma same_version_same_source_witness:
  "sb_aliases (snd (TouchAliasAccess small_env 3 9 (small_store True))) \<noteq> sb_aliases (small_store True) \<and>
   enabled_ids (snd (TouchAliasAccess small_env 3 9 (small_store True))) 7 = enabled_ids (small_store True) 7"
proof -
  let ?u = "snd (TouchAliasAccess small_env 3 9 (small_store True))"
  have v: "store_version (small_store True) 7 = Some 5" "store_version ?u 7 = Some 5" by code_simp+
  have t: "map a_LastAccessedAt (sb_aliases ?u) \<noteq> map a_LastAccessedAt (sb_aliases (small_store True))" by code_simp
  have "store_run ''/'' small_config (small_store True) ?u" by (rule one_store_step) (rule st_touch_alias)
  from same_version_same_source [OF small_store_wf rtranclp.rtrancl_refl this v] t show ?thesis by fastforce
qed

text \<open>C25: Every operation keeps the tables well formed, in every run: identifiers, account emails, alias
  addresses, API key hashes and OAuth client IDs stay unique, every alias belongs to an account and to no
  group or an existing one, and no session, schedule or one-time key is left without its owner.\<close>

theorem store_stays_well_formed:
  assumes "store_wf db" and "store_run wd cfg db db'"
  shows "store_wf db'"
  by (rule store_wf_run [OF assms(2,1)])

lemma store_stays_well_formed_witness: "store_wf (snd (DeleteAlias small_env 3 (small_store True))) \<and>
   sb_aliases (snd (DeleteAlias small_env 3 (small_store True))) = []"
proof -
  have "store_run ''/'' small_config (small_store True) (snd (DeleteAlias small_env 3 (small_store True)))"
    by (rule one_store_step) (rule st_delete_alias)
  moreover have "map a_ID (sb_aliases (snd (DeleteAlias small_env 3 (small_store True)))) = []" by code_simp
  ultimately show ?thesis using store_stays_well_formed [OF small_store_wf] by simp
qed

lemma limit_run:
  assumes "store_run wd cfg db db'" and "store_wf db" and "within_limit db"
  shows "within_limit db'"
  using assms
proof (induction rule: rtranclp_induct)
  case (step t u)
  have "store_wf t" by (rule store_wf_run [OF step.hyps(1) step.prems(1)])
  from store_step_ok [OF step.hyps(2) this] step.IH [OF step.prems] show ?case
    by (auto simp: step_ok_def orderly_def intro: tame_within)
qed

text \<open>C9: No sequence of operations gives an iCloud account more than 1000 enabled aliases, not even
  imports, confirmations and re-enabled aliases that race for the last place: the check and the write are
  one transaction in each of them.\<close>

theorem enabled_aliases_limited:
  assumes "store_wf db" and "\<forall>i. limited db i \<longrightarrow> card (enabled_ids db i) \<le> 1000"
    and "store_run wd cfg db db'" and "limited db' i"
  shows "card (enabled_ids db' i) \<le> 1000"
proof -
  have "within_limit db" using assms(2) by (simp add: within_limit_def MaxEnabledAliasesPerAccount_def)
  from limit_run [OF assms(3,1) this] assms(4) show ?thesis by (simp add: within_limit_def MaxEnabledAliasesPerAccount_def)
qed

lemma enabled_aliases_limited_witness:
  "card (enabled_ids (snd (SetAliasEnabled small_env 3 True (small_store False))) 7) \<le> 1000 \<and>
   3 \<in> enabled_ids (snd (SetAliasEnabled small_env 3 True (small_store False))) 7"
proof -
  let ?u = "snd (SetAliasEnabled small_env 3 True (small_store False))"
  have e: "map (\<lambda>a. (a_ID a, a_AccountID a, a_Enabled a)) (sb_aliases ?u) = [(3, 7, True)]" by code_simp
  have l: "limited ?u 7" by code_simp
  have none: "enabled_ids (small_store False) i = {}" for i by (auto simp: enabled_ids_def small_store_defs)
  have "store_run ''/'' small_config (small_store False) ?u" by (rule one_store_step) (rule st_enable_alias)
  from enabled_aliases_limited [OF small_store_wf _ this l] none have "card (enabled_ids ?u 7) \<le> 1000" by simp
  moreover have "3 \<in> enabled_ids ?u 7" using e by (auto simp: enabled_ids_routes route_def)
  ultimately show ?thesis by blast
qed

text \<open>C4: Whichever operation makes an alias take part in its account's synchronisation also drops the
  account's cursor, so that the next synchronisation fetches the mail from before; the one exception is the
  confirmation of an alias that Apple created after the version that the caller still holds.\<close>

theorem enabling_restarts_sync:
  assumes "store_step wd cfg db db'" and "store_wf db" and "\<not> enabled_ids db' i \<subseteq> enabled_ids db i"
  shows "cursor db' i = None \<or> (\<exists>env w j t res. confirm_tx env w j t db = Inr (res, db') \<and>
     \<not> is_zero_time t \<and> store_version db (aw_AccountID w) = Some (to_timestamp t))"
  using store_step_ok [OF assms(1,2)] assms(3)
  by (auto simp: step_ok_def orderly_def resyncs_def boundary_def fresh_confirmation_def)

lemma enabling_restarts_sync_witness:
  "cursor (small_store False) 7 = Some small_cursor \<and>
   (cursor (snd (SetAliasEnabled small_env 3 True (small_store False))) 7 = None \<or>
    (\<exists>env w j t res. confirm_tx env w j t (small_store False) = Inr (res, snd (SetAliasEnabled small_env 3 True (small_store False))) \<and>
       \<not> is_zero_time t \<and> store_version (small_store False) (aw_AccountID w) = Some (to_timestamp t)))"
proof -
  let ?u = "snd (SetAliasEnabled small_env 3 True (small_store False))"
  have e: "map (\<lambda>a. (a_ID a, a_AccountID a, a_Enabled a)) (sb_aliases ?u) = [(3, 7, True)]" by code_simp
  have "\<not> enabled_ids ?u 7 \<subseteq> enabled_ids (small_store False) 7"
    using e by (auto simp: enabled_ids_routes route_def [abs_def] small_store_defs)
  from enabling_restarts_sync [OF st_enable_alias small_store_wf this] show ?thesis
    by (simp add: cursor_def small_store_defs find_by_Cons)
qed

subsection \<open>Startup migration\<close>

text \<open>C26: The migration at startup always ends, and when it reports no error no alias is left without the
  credential bundle that it waits for; whatever happens, the tables stay well formed.\<close>

theorem ensure_leaves_none_waiting:
  assumes "store_wf db"
  shows "\<exists>res db'. EnsureAliasCredentials env db = Some (res, db') \<and> store_wf db' \<and>
    (res = None \<longrightarrow> (\<forall>a \<in> set (sb_aliases db'). \<not> awaits_migration db' a))"
proof (cases "en_factory env = None")
  case True
  with assms show ?thesis by (simp add: EnsureAliasCredentials_def)
next
  case False
  from ensure_loop_ends [OF False assms] show ?thesis
    unfolding EnsureAliasCredentials_def first_awaiting_None if_not_P [OF False] .
qed

definition small_material :: "int \<Rightarrow> int \<Rightarrow> credential_material option" where
  "small_material i v = Some \<lparr>cm_Ciphertext = ''bundle'', cm_APIKeyHash = replicate 32 CHR ''k'', cm_APIKeyPrefix = ''icm_abcdefgh'',
     cm_IMAPPasswordHash = replicate 32 CHR ''p'', cm_OAuthClientID = ''client'', cm_RefreshTokenHash = replicate 32 CHR ''r'', cm_Version = v\<rparr>"

definition issuing_env :: store_env where
  "issuing_env = small_env\<lparr>en_factory := Some small_material, en_draws := (\<lambda>_. [1, 77])\<rparr>"

definition waiting_store :: store_db where
  "waiting_store = (small_store True)\<lparr>sb_mail := small_db\<lparr>md_aliases := [small_alias\<lparr>a_CredentialVersion := 0\<rparr>]\<rparr>\<rparr>"

lemma waiting_store_wf: "store_wf waiting_store"
  by (simp add: waiting_store_def store_wf_defs small_store_defs unique_key_def account_exists_def find_by_Cons group_ok_def AliasCredentialModeV2_def)

lemma ensure_leaves_none_waiting_witness:
  "map a_MailboxUIDValidity (sb_aliases (snd (the (EnsureAliasCredentials issuing_env waiting_store)))) = [77] \<and>
   filter (awaits_migration (snd (the (EnsureAliasCredentials issuing_env waiting_store))))
     (sb_aliases (snd (the (EnsureAliasCredentials issuing_env waiting_store)))) = []"
proof -
  define db1 where "db1 = snd (ensureAliasCredentialsTx issuing_env 3 7 waiting_store)"
  have first: "map_option (\<lambda>a. (a_ID a, a_AccountID a)) (first_awaiting waiting_store) = Some (3, 7)" by code_simp
  then obtain a where a: "first_awaiting waiting_store = Some a" "a_ID a = 3" "a_AccountID a = 7" by auto
  have r: "fst (ensureAliasCredentialsTx issuing_env 3 7 waiting_store) = Inr ()" by code_simp
  have "map_option a_ID (first_awaiting (snd (ensureAliasCredentialsTx issuing_env 3 7 waiting_store))) = None" by code_simp
  then have done1: "first_awaiting db1 = None" by (simp add: db1_def)
  have v: "map a_MailboxUIDValidity (sb_aliases db1) = [77]" unfolding db1_def by code_simp
  have stop: "ensure_loop issuing_env db1 = Some (None, db1)" by (subst ensure_loop.simps) (simp add: done1)
  have "ensureAliasCredentialsTx issuing_env 3 7 waiting_store = (Inr (), db1)" using r by (simp add: db1_def prod_eq_iff)
  then have "ensure_loop issuing_env waiting_store = Some (None, db1)" by (subst ensure_loop.simps) (simp add: a stop)
  moreover have "en_factory issuing_env \<noteq> None" by (simp add: issuing_env_def)
  ultimately have e: "EnsureAliasCredentials issuing_env waiting_store = Some (None, db1)" by (simp add: EnsureAliasCredentials_def)
  from ensure_leaves_none_waiting [OF waiting_store_wf, of issuing_env] e v show ?thesis by (simp add: filter_empty_conv)
qed

subsection \<open>A changed mail source\<close>

lemma edited_mail:
  assumes "update_account_tx env req db = Inr (src, db')"
  obtains cur w db5 where "find_by ac_ID (ac_ID req) (sb_accounts db) = Some cur" and "src = mailbox_source_changed req cur"
    and "db' = withdraw_mail (stamp env) w req cur db5"
    and "md_archived (sb_mail db5) = md_archived (sb_mail db)" "md_links (sb_mail db5) = md_links (sb_mail db)"
      "md_latest (sb_mail db5) = md_latest (sb_mail db)" "md_consumed (sb_mail db5) = md_consumed (sb_mail db)"
      "md_seen (sb_mail db5) = md_seen (sb_mail db)" "sb_aliases db5 = sb_aliases db" "md_sync (sb_mail db5) = md_sync (sb_mail db)"
  using assms
proof (cases rule: update_account_cases)
  case (1 v cur t s w db2 db5)
  let ?d1 = "set_accounts (update_where (\<lambda>a. ac_ID a = ac_ID req \<and> ac_UpdatedAt a = v) (edit_row req (has_aliases db (ac_ID req)) w)) db"
  obtain P f where "db2 = set_accounts (update_where P f) ?d1"
    using 1(9) by (auto simp: upsertAccountMailboxSettingsTx_def bind_res_Inr split: if_splits)
  then have "sb_mail db5 = (sb_mail db)\<lparr>md_accounts := md_accounts (sb_mail db5)\<rparr>" by (simp add: 1(11) set_accounts_def)
  then have m: "sb_mail db5 = (sb_mail db)\<lparr>md_accounts := x\<rparr>" if "x = md_accounts (sb_mail db5)" for x using that by simp
  show thesis by (rule that [OF 1(2,4,10)]; subst m [OF refl]; simp)
qed

text \<open>C13: When an update changes where an account's mail comes from, nothing that carries UIDs of the old
  source survives in the same commit: its archived messages, its seen marks, the latest and the consumed
  messages of its aliases and its cursor are gone, and every mailbox of its aliases starts again at UID 1
  under another UIDVALIDITY, so that no client mistakes a new message for an old one.\<close>

theorem changed_source_forgets_mail:
  assumes tx: "UpdateAccount configured io suffix env req (db, d) = (Inr a, db', d')"
    and cur: "find_by ac_ID (ac_ID req) (sb_accounts db) = Some cur" and changed: "mailbox_source_changed req cur"
  shows "(\<forall>m \<in> set (md_archived (sb_mail db')). av_account_id m \<noteq> ac_ID req) \<and>
    (\<forall>s \<in> set (md_seen (sb_mail db')). st_AccountID s \<noteq> ac_ID req) \<and> cursor db' (ac_ID req) = None \<and>
    (\<forall>b \<in> set (sb_aliases db'). a_AccountID b = ac_ID req \<longrightarrow> a_MailboxUIDNext b = 1 \<and>
       a_ID b \<notin> lm_AliasID ` set (md_latest (sb_mail db')) \<and> a_ID b \<notin> cn_alias_id ` set (md_consumed (sb_mail db')) \<and>
       (\<exists>b0 \<in> set (sb_aliases db). a_ID b0 = a_ID b \<and> a_MailboxUIDValidity b \<noteq> a_MailboxUIDValidity b0))"
proof -
  obtain src where "update_account_tx env req db = Inr (src, db')"
    using tx by (auto simp: UpdateAccount_def split: sum.splits prod.splits option.splits if_splits)
  then obtain cur' w db5 where c: "find_by ac_ID (ac_ID req) (sb_accounts db) = Some cur'"
    and db': "db' = withdraw_mail (stamp env) w req cur' db5" and al: "sb_aliases db5 = sb_aliases db" by (rule edited_mail)
  have "withdraws_mail req cur'" "mailbox_source_changed req cur'" using c cur changed by (simp_all add: withdraws_mail_def)
  then have m: "db' = reset_statuses (stamp env) w (ac_ID req) (forget_source (stamp env) (ac_ID req) (reset_cursor (ac_ID req) db5))"
    by (simp add: db' withdraw_mail_def)
  have cursor: "cursor db' (ac_ID req) = None"
    by (simp add: m cursor_def reset_statuses_def forget_source_def Let_def reset_cursor_def find_by_None set_accounts_def set_aliases_def)
  let ?start = "\<lambda>a. a\<lparr>a_MailboxUIDValidity := (if a_MailboxUIDValidity a \<ge> 4294967295 then 1 else a_MailboxUIDValidity a + 1),
                    a_MailboxUIDNext := 1, a_UpdatedAt := stamp env\<rparr>"
  let ?pend = "\<lambda>a. a\<lparr>a_LastSyncStatus := SyncStatusPending, a_LastSyncError := [], a_LastSyncedAt := None, a_UpdatedAt := stamp env\<rparr>"
  have rows: "sb_aliases db' = update_where (\<lambda>a. a_AccountID a = ac_ID req \<and> \<not> awaiting_confirmation a) ?pend
      (update_where (\<lambda>a. a_AccountID a = ac_ID req) ?start (sb_aliases db))"
    by (simp add: m reset_statuses_def forget_source_def Let_def al set_accounts_def set_aliases_def)
  have fresh: "a_MailboxUIDNext b = 1 \<and> (\<exists>b0 \<in> set (sb_aliases db). a_ID b0 = a_ID b \<and> a_AccountID b0 = ac_ID req \<and>
      a_MailboxUIDValidity b \<noteq> a_MailboxUIDValidity b0)"
    if "b \<in> set (sb_aliases db')" "a_AccountID b = ac_ID req" for b
  proof -
    let ?P = "\<lambda>a. a_AccountID a = ac_ID req \<and> \<not> awaiting_confirmation a"
    from that(1) obtain y where y: "y \<in> set (sb_aliases db)"
      and b: "b = (let z = if a_AccountID y = ac_ID req then ?start y else y in if ?P z then ?pend z else z)"
      unfolding rows set_update_where Let_def by blast
    have "a_AccountID y = ac_ID req" using that(2) by (simp add: b Let_def split: if_splits)
    then show ?thesis using y by (intro conjI bexI [of _ y]) (simp_all add: b Let_def)
  qed
  have mine: "a_ID b \<in> set (map a_ID (filter (\<lambda>a. a_AccountID a = ac_ID req) (sb_aliases db)))"
    if "b \<in> set (sb_aliases db')" "a_AccountID b = ac_ID req" for b
  proof -
    from fresh [OF that] obtain b0 where b0: "b0 \<in> set (sb_aliases db)" "a_ID b0 = a_ID b" "a_AccountID b0 = ac_ID req" by blast
    then have "a_ID b0 \<in> a_ID ` {a \<in> set (sb_aliases db). a_AccountID a = ac_ID req}" by blast
    then show ?thesis by (simp add: b0)
  qed
  have mail: "md_archived (sb_mail db') = delete_where (\<lambda>r. av_account_id r = ac_ID req) (md_archived (sb_mail db5))"
      "md_seen (sb_mail db') = delete_where (\<lambda>t. st_AccountID t = ac_ID req) (md_seen (sb_mail db5))"
      "md_latest (sb_mail db') = delete_where (\<lambda>r. lm_AliasID r \<in> set (map a_ID (filter (\<lambda>a. a_AccountID a = ac_ID req) (sb_aliases db)))) (md_latest (sb_mail db5))"
      "md_consumed (sb_mail db') = delete_where (\<lambda>c. cn_alias_id c \<in> set (map a_ID (filter (\<lambda>a. a_AccountID a = ac_ID req) (sb_aliases db)))) (md_consumed (sb_mail db5))"
    by (simp_all add: m reset_statuses_def forget_source_def Let_def al set_accounts_def set_aliases_def reset_cursor_def)
  have gone: "a_ID b \<notin> lm_AliasID ` set (md_latest (sb_mail db')) \<and> a_ID b \<notin> cn_alias_id ` set (md_consumed (sb_mail db'))"
    if "b \<in> set (sb_aliases db')" "a_AccountID b = ac_ID req" for b
    using mine [OF that] unfolding mail set_delete_where by fastforce
  have "\<forall>m \<in> set (md_archived (sb_mail db')). av_account_id m \<noteq> ac_ID req" "\<forall>s \<in> set (md_seen (sb_mail db')). st_AccountID s \<noteq> ac_ID req"
    unfolding mail set_delete_where by blast+
  with cursor fresh gone show ?thesis by blast
qed

definition moved_request :: account where
  "moved_request = small_account\<lparr>ac_IMAPHost := ''imap.example''\<rparr>"

definition moved :: "(store_error + account) \<times> store_db \<times> string archive_dirs" where
  "moved = UpdateAccount False (\<lambda>_. False) [] small_env moved_request (small_store True, \<lparr>qd_live = Map.empty, qd_temp = []\<rparr>)"

lemma changed_source_forgets_mail_witness:
  "map a_MailboxUIDNext (sb_aliases (fst (snd moved))) = [1] \<and> cursor (fst (snd moved)) 7 = None"
proof -
  have "(case fst moved of Inl _ \<Rightarrow> False | Inr _ \<Rightarrow> True)" by code_simp
  then obtain a where a: "fst moved = Inr a" by (auto split: sum.splits)
  have moved_next: "map a_MailboxUIDNext (sb_aliases (fst (snd moved))) = [1]" by code_simp
  have tx: "UpdateAccount False (\<lambda>_. False) [] small_env moved_request (small_store True, \<lparr>qd_live = Map.empty, qd_temp = []\<rparr>) =
      (Inr a, fst (snd moved), snd (snd moved))"
    unfolding moved_def [symmetric] using a by (simp add: prod_eq_iff)
  have req: "ac_ID moved_request = 7" by (simp add: moved_request_def small_account_def)
  have cur: "find_by ac_ID (ac_ID moved_request) (sb_accounts (small_store True)) = Some small_account"
    by (simp add: req small_store_defs find_by_Cons)
  have "mailbox_source_changed moved_request small_account" by code_simp
  from changed_source_forgets_mail [OF tx cur this] moved_next show ?thesis by (simp add: req)
qed

subsection \<open>Rotated API keys\<close>

text \<open>A lookup in the join of aliases, accounts and groups finds the row that the alias table has.\<close>

lemma joined_map: "store_wf db \<Longrightarrow> joined_aliases db = map (\<lambda>r. the (join_alias db r)) (sb_aliases db)"
proof -
  assume wf: "store_wf db"
  have "join_alias db r \<noteq> None" if "r \<in> set (sb_aliases db)" for r
    using aliases_wfD(3) [OF wf_parts(2) [OF wf] that] by (auto simp: join_alias_def account_exists_def)
  then have "concat (map (\<lambda>r. case join_alias db r of None \<Rightarrow> [] | Some j \<Rightarrow> [j]) rs) = map (\<lambda>r. the (join_alias db r)) rs"
    if "set rs \<subseteq> set (sb_aliases db)" for rs
    using that by (induction rs) (auto split: option.split)
  then show ?thesis by (simp add: joined_aliases_def)
qed

lemma join_columns:
  assumes "store_wf db" and "r \<in> set (sb_aliases db)"
  shows "a_ID (the (join_alias db r)) = a_ID r" "a_APIKeyHash (the (join_alias db r)) = a_APIKeyHash r"
  using aliases_wfD(3) [OF wf_parts(2) [OF assms(1)] assms(2)] by (auto simp: join_alias_def account_exists_def)

lemma find_map_key: "(\<And>r. r \<in> set rows \<Longrightarrow> P (f r) \<longleftrightarrow> Q r) \<Longrightarrow> find P (map f rows) = map_option f (find Q rows)"
  by (induction rows) auto

lemma get_alias_row:
  assumes "store_wf db"
  shows "GetAlias db i = (case find_by a_ID i (sb_aliases db) of None \<Rightarrow> Inl StNotFound | Some r \<Rightarrow> scanAlias (the (join_alias db r)))"
    and "GetAliasByAPIKeyHash db h =
      (case find_by a_APIKeyHash h (sb_aliases db) of None \<Rightarrow> Inl StNotFound | Some r \<Rightarrow> scanAlias (the (join_alias db r)))"
proof -
  have "find (\<lambda>r. a_ID r = i) (joined_aliases db) = map_option (\<lambda>r. the (join_alias db r)) (find_by a_ID i (sb_aliases db))"
    unfolding joined_map [OF assms] find_by_def by (rule find_map_key) (simp add: join_columns(1) [OF assms])
  then show "GetAlias db i = (case find_by a_ID i (sb_aliases db) of None \<Rightarrow> Inl StNotFound | Some r \<Rightarrow> scanAlias (the (join_alias db r)))"
    by (simp add: GetAlias_def get_alias_where_def split: option.split)
  have "find (\<lambda>r. a_APIKeyHash r = h) (joined_aliases db) = map_option (\<lambda>r. the (join_alias db r)) (find_by a_APIKeyHash h (sb_aliases db))"
    unfolding joined_map [OF assms] find_by_def by (rule find_map_key) (simp add: join_columns(2) [OF assms])
  then show "GetAliasByAPIKeyHash db h =
      (case find_by a_APIKeyHash h (sb_aliases db) of None \<Rightarrow> Inl StNotFound | Some r \<Rightarrow> scanAlias (the (join_alias db r)))"
    by (simp add: GetAliasByAPIKeyHash_def get_alias_where_def split: option.split)
qed

lemma join_same: "sb_accounts db' = sb_accounts db \<Longrightarrow> sb_groups db' = sb_groups db \<Longrightarrow> md_links (sb_mail db') = md_links (sb_mail db) \<Longrightarrow>
    md_archived (sb_mail db') = md_archived (sb_mail db) \<Longrightarrow> join_alias db' r = join_alias db r"
proof -
  assume same: "sb_accounts db' = sb_accounts db" "sb_groups db' = sb_groups db" "md_links (sb_mail db') = md_links (sb_mail db)"
    "md_archived (sb_mail db') = md_archived (sb_mail db)"
  have "group_name db' = group_name db" by (rule ext) (simp only: group_name_def same)
  moreover have "latest_received (sb_mail db') = latest_received (sb_mail db)" by (rule ext) (simp only: latest_received_def same)
  ultimately show ?thesis by (simp only: join_alias_def same)
qed

lemma rotate_key_cases:
  assumes "RotateAliasAPIKeyWithRawKey env i hash prefix raw db = (Inr a, db')"
  obtains old c where "find_by a_ID i (sb_aliases db) = Some old" and "GetAlias db' i = Inr a" and "hash \<noteq> []"
    and "\<not> awaiting_confirmation old"
    and "db' = delete_pending (\<lambda>p. pk_AliasID p = i) (set_aliases (update_where (\<lambda>x. a_ID x = i \<and> a_AccountID x = a_AccountID old)
             (\<lambda>x. x\<lparr>a_CredentialCiphertext := (case c of None \<Rightarrow> a_CredentialCiphertext x | Some c \<Rightarrow> c),
                    a_APIKeyHash := hash, a_APIKeyPrefix := trim_space (sanitizePostgresText prefix), a_UpdatedAt := stamp env\<rparr>)) db)"
proof -
  from assms have ne: "hash \<noteq> []" and tx: "rotate_api_key_tx env i hash prefix raw db = Inr (a, db')"
    by (auto simp: RotateAliasAPIKeyWithRawKey_def commit_Inr split: if_splits)
  from tx obtain a0 a1 c db1 where old: "find_by a_ID i (sb_aliases db) = Some a0" "find_alias_of db i (a_AccountID a0) = Some a1"
    and pend: "\<not> awaiting_confirmation a1"
    and put: "put_api_key env i (a_AccountID a0) c hash (trim_space (sanitizePostgresText prefix)) db = Inr db1"
    and db': "db' = delete_pending (\<lambda>p. pk_AliasID p = i) db1" "GetAlias db' i = Inr a"
    unfolding rotate_api_key_tx_def Let_def
    by (auto simp: bind_res_Inr same_other_credentials_def split: if_splits option.splits)
  have "a1 = a0" using find_alias_found [OF old(1)] old(2) by simp
  then show thesis
    using put db' ne pend old(1) by (intro that [of a0 c]) (auto simp: put_api_key_def split: if_splits)
qed

text \<open>C20: Rotating an API key revokes the old key in the same commit: afterwards the new key opens this
  alias and no other, the old key opens nothing, every other key opens what it opened before, and the
  one-time copy of the old key is gone, while enabled aliases and account versions stay as they are.\<close>

theorem rotated_key_replaces_old:
  assumes tx: "RotateAliasAPIKeyWithRawKey env i hash prefix raw db = (Inr a, db')" and wf: "store_wf db"
    and old: "find_by a_ID i (sb_aliases db) = Some row" and diff: "a_APIKeyHash row \<noteq> hash"
  shows "GetAliasByAPIKeyHash db' hash = Inr a \<and> a_ID a = i \<and>
    GetAliasByAPIKeyHash db' (a_APIKeyHash row) = Inl StNotFound \<and>
    (\<forall>h. h \<noteq> hash \<and> h \<noteq> a_APIKeyHash row \<longrightarrow> GetAliasByAPIKeyHash db' h = GetAliasByAPIKeyHash db h) \<and>
    find_pending db' i = None \<and> routes_kept db db'"
proof -
  have wf': "store_wf db'" using rotate_key_step [OF wf, of env i hash prefix raw] by (simp add: tx step_ok_def)
  from tx obtain row' c where r: "find_by a_ID i (sb_aliases db) = Some row'" and got: "GetAlias db' i = Inr a"
    and db': "db' = delete_pending (\<lambda>p. pk_AliasID p = i) (set_aliases (update_where (\<lambda>x. a_ID x = i \<and> a_AccountID x = a_AccountID row')
             (\<lambda>x. x\<lparr>a_CredentialCiphertext := (case c of None \<Rightarrow> a_CredentialCiphertext x | Some c \<Rightarrow> c),
                    a_APIKeyHash := hash, a_APIKeyPrefix := trim_space (sanitizePostgresText prefix), a_UpdatedAt := stamp env\<rparr>)) db)"
    by (rule rotate_key_cases)
  let ?f = "\<lambda>x. x\<lparr>a_CredentialCiphertext := (case c of None \<Rightarrow> a_CredentialCiphertext x | Some c \<Rightarrow> c),
      a_APIKeyHash := hash, a_APIKeyPrefix := trim_space (sanitizePostgresText prefix), a_UpdatedAt := stamp env\<rparr>"
  have row: "row' = row" using r old by simp
  have mem: "row \<in> set (sb_aliases db)" "a_ID row = i" using find_by_SomeD [OF old] by auto
  have only: "x = row" if "x \<in> set (sb_aliases db)" "a_ID x = i" for x
    using find_by_unique [OF store_wf_unique(1) [OF wf] that] old by simp
  have rows: "sb_aliases db' = map (\<lambda>x. if x = row then ?f row else x) (sb_aliases db)"
    unfolding db' row by (auto simp: delete_pending_def set_aliases_def update_where_def mem(2) dest: only)
  have u: "unique_key a_APIKeyHash (sb_aliases db')" "unique_key a_APIKeyHash (sb_aliases db)"
    using wf wf' by (simp_all add: store_wf_def aliases_wf_def)
  have in': "?f row \<in> set (sb_aliases db')" unfolding rows using mem(1) by force
  have by_hash: "find_by a_APIKeyHash hash (sb_aliases db') = Some (?f row)" by (rule find_by_unique [OF u(1) in']) simp
  have by_id: "find_by a_ID i (sb_aliases db') = Some (?f row)"
    by (rule find_by_unique [OF store_wf_unique(1) [OF wf'] in']) (simp add: mem)
  have "GetAliasByAPIKeyHash db' hash = Inr a" using got by (simp add: get_alias_row [OF wf'] by_hash by_id)
  moreover have "a_ID a = i"
  proof -
    have "scanAlias (the (join_alias db' (?f row))) = Inr a" using got by (simp add: get_alias_row [OF wf'] by_id)
    then have "a_ID a = a_ID (the (join_alias db' (?f row)))" by (auto simp: scanAlias_def split: if_splits option.splits)
    then show ?thesis using join_columns(1) [OF wf' in'] mem(2) by simp
  qed
  moreover have "GetAliasByAPIKeyHash db' (a_APIKeyHash row) = Inl StNotFound"
  proof -
    have "x = row" if "x \<in> set (sb_aliases db)" "a_APIKeyHash x = a_APIKeyHash row" for x
      using find_by_unique [OF u(2) that] find_by_unique [OF u(2) mem(1) refl] by simp
    then have "find_by a_APIKeyHash (a_APIKeyHash row) (sb_aliases db') = None"
      unfolding find_by_None rows using diff by force
    then show ?thesis by (simp add: get_alias_row [OF wf'])
  qed
  moreover have "GetAliasByAPIKeyHash db' h = GetAliasByAPIKeyHash db h" if "h \<noteq> hash" "h \<noteq> a_APIKeyHash row" for h
  proof -
    have "find (\<lambda>x. a_APIKeyHash x = h) (map (\<lambda>x. if x = row then ?f row else x) xs) = find (\<lambda>x. a_APIKeyHash x = h) xs" for xs
      using that by (induction xs) auto
    then have "find_by a_APIKeyHash h (sb_aliases db') = find_by a_APIKeyHash h (sb_aliases db)"
      unfolding rows find_by_def .
    moreover have "join_alias db' x = join_alias db x" for x
      by (rule join_same) (simp_all add: db' delete_pending_def set_aliases_def)
    ultimately show ?thesis unfolding get_alias_row(2) [OF wf'] get_alias_row(2) [OF wf] by (simp split: option.split)
  qed
  moreover have "find_pending db' i = None" by (auto simp: db' find_pending_def find_by_None delete_pending_def delete_where_def)
  moreover have "routes_kept db db'"
    using rotate_api_key_routes tx by (auto simp: RotateAliasAPIKeyWithRawKey_def commit_Inr split: if_splits)
  ultimately show ?thesis by blast
qed

definition legacy_store :: store_db where
  "legacy_store = (small_store True)\<lparr>sb_mail := small_db\<lparr>md_aliases := [small_alias\<lparr>a_CredentialMode := AliasCredentialModeLegacy\<rparr>]\<rparr>\<rparr>"

lemma legacy_store_wf: "store_wf legacy_store"
  by (simp add: legacy_store_def store_wf_defs small_store_defs unique_key_def account_exists_def find_by_Cons group_ok_def AliasCredentialModeLegacy_def)

lemma rotated_key_replaces_old_witness:
  "GetAliasByAPIKeyHash legacy_store ''h'' \<noteq> Inl StNotFound \<and>
   GetAliasByAPIKeyHash (snd (RotateAliasAPIKeyWithRawKey small_env 3 ''new'' ''icm_'' [] legacy_store)) ''h'' = Inl StNotFound"
proof -
  let ?r = "RotateAliasAPIKeyWithRawKey small_env 3 ''new'' ''icm_'' [] legacy_store"
  have ok: "(case fst ?r of Inl _ \<Rightarrow> False | Inr _ \<Rightarrow> True)" by code_simp
  then obtain a where a: "fst ?r = Inr a" by (auto split: sum.splits)
  then have tx: "?r = (Inr a, snd ?r)" by (metis prod.collapse)
  have old: "find_by a_ID 3 (sb_aliases legacy_store) = Some (small_alias\<lparr>a_CredentialMode := AliasCredentialModeLegacy\<rparr>)"
    by (simp add: legacy_store_def small_store_defs find_by_Cons)
  have hash: "a_APIKeyHash (small_alias\<lparr>a_CredentialMode := AliasCredentialModeLegacy\<rparr>) = ''h''" by (simp add: small_alias_def)
  have "(case GetAliasByAPIKeyHash legacy_store ''h'' of Inl _ \<Rightarrow> False | Inr _ \<Rightarrow> True)" by code_simp
  then have "GetAliasByAPIKeyHash legacy_store ''h'' \<noteq> Inl StNotFound" by (auto split: sum.splits)
  with rotated_key_replaces_old [OF tx legacy_store_wf old] hash show ?thesis by simp
qed

end
