(* ===== verification/StoreSearch.thy ===== *)
theory StoreSearch
  imports StoreAliases
begin

section \<open>Searching accounts and aliases\<close>

text \<open>
  The administrator's search boxes build a \<open>LIKE\<close> pattern from the text that was typed. Escaping makes
  every character of the text stand for itself, so a row matches when its column contains the text.
\<close>

lemma nocase_append: "nocase (s @ t) = nocase s @ nocase t"
  by (simp add: nocase_def)

lemma lower_special: "lower_byte c = CHR ''!'' \<longleftrightarrow> c = CHR ''!''" "lower_byte c = CHR ''%'' \<longleftrightarrow> c = CHR ''%''"
  "lower_byte c = CHR ''_'' \<longleftrightarrow> c = CHR ''_''"
proof -
  have range: "97 \<le> byte_val (lower_byte c)" "byte_val (lower_byte c) \<le> 122" if "lower_byte c \<noteq> c"
    using that by (auto simp: lower_byte_def split: if_splits)
  show "lower_byte c = CHR ''!'' \<longleftrightarrow> c = CHR ''!''" "lower_byte c = CHR ''%'' \<longleftrightarrow> c = CHR ''%''"
    "lower_byte c = CHR ''_'' \<longleftrightarrow> c = CHR ''_''"
    using range by (cases "lower_byte c = c"; force simp: lower_byte_def)+
qed

lemma nocase_escape: "nocase (escapeLikePattern q) = escapeLikePattern (nocase q)"
proof -
  have b: "map lower_byte (escape_byte c) = escape_byte (lower_byte c)" for c
    using lower_special [of c] lower_special(1) [of "CHR ''!''"] by (auto simp: escape_byte_def)
  show ?thesis by (induction q) (simp_all add: escapeLikePattern_def nocase_def b)
qed

lemma like_escaped: "sql_like (escapeLikePattern q @ p) s \<longleftrightarrow> has_prefix s q \<and> sql_like p (drop (length q) s)"
proof (induction q arbitrary: s)
  case (Cons c q)
  have esc: "escapeLikePattern (c # q) = escape_byte c @ escapeLikePattern q" by (simp add: escapeLikePattern_def)
  show ?case
    by (cases s) (auto simp: esc escape_byte_def has_prefix_def Cons.IH)
qed (simp add: escapeLikePattern_def has_prefix_def)

lemma like_rest: "sql_like ''%'' s"
  by (auto simp: list_ex_iff intro!: bexI [of _ "length s"])

lemma has_prefix_split: "has_prefix s q \<longleftrightarrow> (\<exists>t. s = q @ t)"
  by (auto simp: has_prefix_def) (metis append_take_drop_id)

lemma like_contains: "sql_like (''%'' @ escapeLikePattern q @ ''%'') s \<longleftrightarrow> (\<exists>as bs. s = as @ q @ bs)"
proof -
  have "sql_like (''%'' @ escapeLikePattern q @ ''%'') s \<longleftrightarrow> (\<exists>k \<le> length s. sql_like (escapeLikePattern q @ ''%'') (drop k s))"
    by (auto simp: list_ex_iff less_Suc_eq_le simp del: upt_Suc)
  also have "\<dots> \<longleftrightarrow> (\<exists>k \<le> length s. \<exists>t. drop k s = q @ t)"
    unfolding like_escaped using like_rest has_prefix_split by metis
  also have "\<dots> \<longleftrightarrow> (\<exists>as bs. s = as @ q @ bs)"
  proof
    assume "\<exists>k \<le> length s. \<exists>t. drop k s = q @ t"
    then show "\<exists>as bs. s = as @ q @ bs" by (metis append_take_drop_id)
  next
    assume "\<exists>as bs. s = as @ q @ bs"
    then obtain as bs where "s = as @ q @ bs" by blast
    then show "\<exists>k \<le> length s. \<exists>t. drop k s = q @ t" by (intro exI [of _ "length as"]) auto
  qed
  finally show ?thesis .
qed

text \<open>A search finds exactly the rows whose column contains the text that was typed, with ASCII letters
  compared without case: no character of the text acts as a wildcard, and none is lost.\<close>

theorem search_is_substring: "like_query query column \<longleftrightarrow> (\<exists>before after. nocase column = before @ nocase query @ after)"
proof -
  have "nocase (''%'' @ escapeLikePattern query @ ''%'') = ''%'' @ escapeLikePattern (nocase query) @ ''%''"
    unfolding nocase_append nocase_escape by (simp add: nocase_def lower_byte_def)
  then show ?thesis unfolding like_query_def by (simp only: like_contains)
qed

end
