(* ===== verification/QuarantineProps.thy ===== *)
theory QuarantineProps
  imports ArchiveQuarantine
begin

section \<open>Restarts during a quarantine\<close>

text \<open>
  A process that stops while the files of an account are in quarantine finds them by the name of the
  directory. The startup pass gives them back when the transaction had not committed and removes them
  when it had; a failed restoration followed by a new publication is the case that it decides wrongly.
\<close>

subsection \<open>The name of the directory\<close>

lemma dec_string_range: "c \<in> set (dec_string n) \<Longrightarrow> 48 \<le> byte_val c \<and> byte_val c \<le> 57"
proof (induction n rule: dec_string.induct)
  case (1 n)
  have d: "n mod 10 < 10" by simp
  show ?case
  proof (cases "n < 10")
    case True
    then show ?thesis using "1.prems" by (subst (asm) dec_string.simps) simp
  next
    case False
    then show ?thesis using "1.prems" "1.IH" d by (subst (asm) dec_string.simps) auto
  qed
qed

lemma dec_string_not_Nil: "dec_string n \<noteq> []"
  by (subst dec_string.simps) simp

lemma dec_string_sum: "foldl (\<lambda>n c. 10 * n + (int (byte_val c) - 48)) 0 (dec_string n) = int n"
proof (induction n rule: dec_string.induct)
  case (1 n)
  show ?case
  proof (cases "n < 10")
    case True
    then show ?thesis by (subst dec_string.simps) simp
  next
    case False
    with "1.IH" have "foldl (\<lambda>n c. 10 * n + (int (byte_val c) - 48)) 0 (dec_string n) = 10 * int (n div 10) + int (n mod 10)"
      by (subst dec_string.simps) simp
    then show ?thesis by presburger
  qed
qed

lemma parse_format: "0 \<le> i \<Longrightarrow> int64 i \<Longrightarrow> parse_int64 (format_int i) = Some i"
proof -
  assume i: "0 \<le> i" "int64 i"
  let ?s = "dec_string (nat i)"
  have digits: "parse_digits ?s = Some i"
    using dec_string_range [of _ "nat i"] dec_string_not_Nil dec_string_sum [of "nat i"] i(1)
    by (auto simp: parse_digits_def list_all_iff)
  obtain c t where s: "?s = c # t" using dec_string_not_Nil by (cases ?s) auto
  have c: "48 \<le> byte_val c" using dec_string_range [of c "nat i"] s by simp
  have sign: "c \<noteq> CHR ''-''" "c \<noteq> CHR ''+''" using c by auto
  show ?thesis using i digits sign by (simp add: parse_int64_def format_int_def s Let_def)
qed

lemma cut_at_separator: "d \<notin> set a \<Longrightarrow> cut d (a @ d # b) = (a, b, True)"
  by (induction a) auto

lemma read_back_ID: "archiveQuarantineAccountID (quarantine_name i s) = Some i" if "1 \<le> i" "i < 2 ^ 63"
proof -
  have w: "int64 i" using that by (simp add: int64_def)
  have "CHR ''-'' \<notin> set (format_int i)" using dec_string_range [of "CHR ''-''" "nat i"] that by (auto simp: format_int_def)
  then show ?thesis
    using parse_format [OF _ w] that cut_at_separator [of "CHR ''-''" "format_int i" s]
    by (simp add: archiveQuarantineAccountID_def quarantine_name_def trim_prefix_def has_prefix_def archiveSourceResetPrefix_def)
qed

text \<open>The account that a quarantine directory belongs to can be read back from its name, whatever
  random suffix the directory got.\<close>

theorem quarantine_name_read_back:
  assumes "1 \<le> account" and "account < 2 ^ 63"
  shows "archiveQuarantineAccountID (quarantine_name account suffix) = Some account"
  by (rule read_back_ID [OF assms])

lemma quarantine_name_read_back_witness:
  "archiveQuarantineAccountID (quarantine_name 12 ''345-6'') = Some 12 \<and> quarantine_name 12 ''345-6'' = ''source-reset-account-12-345-6''"
proof
  show "archiveQuarantineAccountID (quarantine_name 12 ''345-6'') = Some 12" by (rule quarantine_name_read_back) simp_all
  show "quarantine_name 12 ''345-6'' = ''source-reset-account-12-345-6''" by code_simp
qed

subsection \<open>The startup pass\<close>

text \<open>An entry that belongs to another account, or to none, moves nothing of account \<open>i\<close>.\<close>

lemma other_entry:
  assumes "reconcile_entry io rows e d = (ok, d')" and "archiveQuarantineAccountID (fst e) \<noteq> Some i"
  shows "qd_live d' i = qd_live d i"
  using assms by (auto simp: reconcile_entry_def drop_temp_def move_back_def split: option.splits dir_node.splits if_splits)

lemma other_entries:
  assumes "reconcile_entries io rows es d = (ok, d')" and "\<forall>e \<in> set es. archiveQuarantineAccountID (fst e) \<noteq> Some i"
  shows "qd_live d' i = qd_live d i"
  using assms
proof (induction es arbitrary: d)
  case (Cons e es)
  obtain b d1 where e: "reconcile_entry io rows e d = (b, d1)" by fastforce
  have "qd_live d1 i = qd_live d i" by (rule other_entry [OF e]) (use Cons.prems(2) in simp)
  with Cons e show ?case by (cases b) auto
qed simp

lemma own_entry:
  assumes "reconcile_entry io rows (name, Some c) d = (True, d')" and "archiveQuarantineAccountID name = Some i" and "qd_live d i = None"
  shows "qd_live d' i = (if rows i = 0 then None else Some (Dir c))"
  using assms by (auto simp: reconcile_entry_def drop_temp_def move_back_def split: if_splits)

lemma pass_settles:
  assumes "reconcile_entries io rows (es @ (name, Some c) # es') d = (True, d')" and "archiveQuarantineAccountID name = Some i"
    and "\<forall>e \<in> set (es @ es'). archiveQuarantineAccountID (fst e) \<noteq> Some i" and "qd_live d i = None"
  shows "qd_live d' i = (if rows i = 0 then None else Some (Dir c))"
  using assms
proof (induction es arbitrary: d)
  case Nil
  obtain b d1 where e: "reconcile_entry io rows (name, Some c) d = (b, d1)" by fastforce
  with Nil.prems(1) have b: "b" and rest: "reconcile_entries io rows es' d1 = (True, d')" by (auto split: bool.splits)
  have "qd_live d1 i = (if rows i = 0 then None else Some (Dir c))"
    by (rule own_entry [OF _ Nil.prems(2,4)]) (use e b in simp)
  moreover have "qd_live d' i = qd_live d1 i" by (rule other_entries [OF rest]) (use Nil.prems(3) in simp)
  ultimately show ?case by simp
next
  case (Cons e es)
  obtain b d1 where e: "reconcile_entry io rows e d = (b, d1)" by fastforce
  with Cons.prems(1) have b: "b" and rest: "reconcile_entries io rows (es @ (name, Some c) # es') d1 = (True, d')" by (auto split: bool.splits)
  have "qd_live d1 i = None" using other_entry [OF e, of i] Cons.prems(3,4) by simp
  with Cons.IH [OF rest] Cons.prems(2,3) show ?case by simp
qed


definition small_dirs :: "string archive_dirs" where
  "small_dirs = \<lparr>qd_live = [7 \<mapsto> Dir ''mail''], qd_temp = []\<rparr>"

definition quarantined_dirs :: "string archive_dirs" where
  "quarantined_dirs = snd (quarantineMailArchiveAccount True (\<lambda>_. False) ''1'' 7 small_dirs)"

definition empty_mail :: mail_db where
  "empty_mail = \<lparr>md_accounts = [], md_aliases = [], md_sync = [], md_next_id = 1, md_archived = [], md_links = [], md_latest = [],
     md_consumed = [], md_seen = []\<rparr>"


subsection \<open>A restoration that failed\<close>

text \<open>C40: The pass takes a live directory as proof that the quarantined source is obsolete. After a rolled
  back update whose restoration failed, the next publication recreates the directory although the archived
  rows still refer to the old files; the startup pass then removes the only copy of them, however many
  rows there are.\<close>

theorem failed_restore_then_publication_loses_files:
  assumes q: "quarantineMailArchiveAccount True io suffix i d = (Some (Some name), d1)" and i: "1 \<le> i" "i < 2 ^ 63"
    and empty: "qd_temp d = []" and fails: "io QRestore"
  shows "quarantine_restore io i (Some name) d1 = (False, d1) \<and>
    reconcileMailArchiveQuarantines True (\<lambda>_. False) db (d1\<lparr>qd_live := (qd_live d1)(i \<mapsto> Dir c)\<rparr>) =
      (True, \<lparr>qd_live = (qd_live d)(i \<mapsto> Dir c), qd_temp = []\<rparr>)"
proof -
  from q obtain c0 where n: "name = quarantine_name i suffix"
      "d1 = d\<lparr>qd_live := (qd_live d)(i := None), qd_temp := [(quarantine_name i suffix, Some c0)]\<rparr>"
    by (auto simp: quarantineMailArchiveAccount_def empty split: if_splits option.splits dir_node.splits)
  have "quarantine_restore io i (Some name) d1 = (False, d1)" by (simp add: quarantine_restore_def n fails)
  moreover have "reconcileMailArchiveQuarantines True (\<lambda>_. False) db (d1\<lparr>qd_live := (qd_live d1)(i \<mapsto> Dir c)\<rparr>) =
      (True, \<lparr>qd_live = (qd_live d)(i \<mapsto> Dir c), qd_temp = []\<rparr>)"
    by (simp add: reconcileMailArchiveQuarantines_def n reconcile_entry_def read_back_ID [OF i] drop_temp_def)
  ultimately show ?thesis by simp
qed

lemma failed_restore_then_publication_loses_files_witness:
  "qd_temp (snd (quarantine_restore (\<lambda>x. x = QRestore) 7 (Some (quarantine_name 7 ''1'')) quarantined_dirs)) \<noteq> [] \<and>
   snd (reconcileMailArchiveQuarantines True (\<lambda>_. False) empty_mail (quarantined_dirs\<lparr>qd_live := (qd_live quarantined_dirs)(7 \<mapsto> Dir ''new'')\<rparr>)) =
     \<lparr>qd_live = (qd_live small_dirs)(7 \<mapsto> Dir ''new''), qd_temp = []\<rparr>"
proof -
  have q: "quarantineMailArchiveAccount True (\<lambda>x. x = QRestore) ''1'' 7 small_dirs = (Some (Some (quarantine_name 7 ''1'')), quarantined_dirs)"
    by (simp add: quarantined_dirs_def quarantineMailArchiveAccount_def small_dirs_def)
  have "qd_temp quarantined_dirs \<noteq> []" by (simp add: quarantined_dirs_def quarantineMailArchiveAccount_def small_dirs_def)
  with failed_restore_then_publication_loses_files [OF q, of empty_mail "''new''"] show ?thesis by (simp add: small_dirs_def)
qed

end
