(* ===== verification/Recipients.thy ===== *)
theory Recipients
  imports Domain Tables "HOL-Library.List_Lexorder" "HOL-Library.Char_ord"
begin

section \<open>Which alias a message belongs to (internal/mail/recipients.go)\<close>

text \<open>
  The classification of a message by its recipient headers. An iCloud account trusts Apple's routing
  header, checked against every other recipient field, then the delivery headers, and the visible
  \<open>To\<close> and \<open>Cc\<close> only when the administrator opted in; a custom mailbox trusts the first tier of
  delivery headers that is present. Every doubt ends in "indeterminate", never in a guess.

  A header is the Go map from field names to values, given as the list of its entries in the order in
  which the map is walked. The address parser of \<open>net/mail\<close>, with the charset decoder that the
  program configures, is a parameter. A Go result \<open>(ids, false)\<close> is \<open>None\<close>.
\<close>

subsection \<open>Header fields\<close>

type_synonym mail_header = "(string \<times> string list) list"

record address_parser =
  ap_ParseList :: "string \<Rightarrow> (string \<times> string) list option"
  ap_Parse :: "string \<Rightarrow> (string \<times> string) option"

text \<open>The aliases of an account by address.\<close>

type_synonym alias_index = "string \<rightharpoonup> int list"

definition icloudHMEHeaderField :: string where "icloudHMEHeaderField = ''X-ICLOUD-HME''"
definition maxICloudHMEBytes :: nat where "maxICloudHMEBytes = 8192"
definition maxICloudHMEParams :: nat where "maxICloudHMEParams = 32"

definition strongRecipientHeaderFields :: "string list" where
  "strongRecipientHeaderFields =
     [''X-Original-To'', ''X-Apple-Original-To'', ''Original-Recipient'', ''X-Original-Recipient'',
      ''X-Apple-Original-Recipient'', ''Final-Recipient'', ''X-Original-Rcpt-To'', ''Envelope-To'', ''X-Envelope-To'',
      ''X-Forwarded-To'', ''Delivered-To'', ''X-Delivered-To'', ''X-Rcpt-To'']"

definition weakRecipientHeaderFields :: "string list" where
  "weakRecipientHeaderFields = [''To'', ''Cc'', ''Apparently-To'', ''Resent-To'', ''Resent-Cc'']"

definition customRecipientHeaderTiers :: "string list list" where
  "customRecipientHeaderTiers =
     [[''X-Original-To'', ''X-Apple-Original-To'', ''X-Original-Rcpt-To''],
      [''Original-Recipient'', ''X-Original-Recipient'', ''X-Apple-Original-Recipient'', ''Final-Recipient''],
      [''Envelope-To'', ''X-Envelope-To'', ''X-Forwarded-To''],
      [''Delivered-To'', ''X-Delivered-To'', ''X-Rcpt-To'']]"

definition recipientHeaderFieldsForFetch :: "string list" where
  "recipientHeaderFieldsForFetch = icloudHMEHeaderField # strongRecipientHeaderFields @ weakRecipientHeaderFields"

definition hasAnyHeader :: "mail_header \<Rightarrow> string list \<Rightarrow> bool" where
  "hasAnyHeader h fs \<longleftrightarrow> list_ex (\<lambda>e. list_ex (equal_fold (fst e)) fs) h"

definition headerValues :: "mail_header \<Rightarrow> string \<Rightarrow> string list" where
  "headerValues h field = concat (map snd (filter (\<lambda>e. equal_fold (fst e) field) h))"

definition isRFC822RecipientHeader :: "string \<Rightarrow> bool" where
  "isRFC822RecipientHeader field \<longleftrightarrow>
     equal_fold field ''Original-Recipient'' \<or> equal_fold field ''X-Original-Recipient'' \<or>
     equal_fold field ''X-Apple-Original-Recipient'' \<or> equal_fold field ''Final-Recipient''"

definition normalizeRFC822RecipientValue :: "string \<Rightarrow> string \<Rightarrow> string option" where
  "normalizeRFC822RecipientValue field v =
     (case cut (CHR '';'') v of (kind, address, found) \<Rightarrow>
        if found then (if \<not> equal_fold (trim_space kind) ''rfc822'' then None else Some (trim_space address))
        else if equal_fold field ''X-Apple-Original-Recipient'' \<or> equal_fold field ''Final-Recipient''
          then (if trim_space v \<noteq> [] then Some (trim_space v) else None)
        else None)"

text \<open>The addresses of one value of a field, and of all values of some fields, sorted and without duplicates.\<close>

definition value_addresses :: "address_parser \<Rightarrow> string \<Rightarrow> string \<Rightarrow> string list option" where
  "value_addresses p field v =
     (case (if isRFC822RecipientHeader field then normalizeRFC822RecipientValue field v else Some v) of
        None \<Rightarrow> None
      | Some w \<Rightarrow> map_option (\<lambda>as. filter (\<lambda>a. a \<noteq> []) (map (\<lambda>a. NormalizeEmail (snd a)) as)) (ap_ParseList p w))"

definition collect_addresses :: "string list option list \<Rightarrow> string list option" where
  "collect_addresses rs = (if list_ex (\<lambda>r. r = None) rs then None else Some (sort (remdups (concat (map the rs)))))"

definition addressesFromHeaders :: "address_parser \<Rightarrow> mail_header \<Rightarrow> string list \<Rightarrow> string list option" where
  "addressesFromHeaders p h fs =
     collect_addresses (concat (map (\<lambda>f. map (value_addresses p f) (headerValues h f)) fs))"

definition recipientAddresses :: "address_parser \<Rightarrow> mail_header \<Rightarrow> bool \<Rightarrow> string list option" where
  "recipientAddresses p h allowWeak =
     (if hasAnyHeader h strongRecipientHeaderFields then addressesFromHeaders p h strongRecipientHeaderFields
      else if \<not> allowWeak then Some []
      else addressesFromHeaders p h weakRecipientHeaderFields)"

definition RecipientAddresses :: "address_parser \<Rightarrow> mail_header \<Rightarrow> string list" where
  "RecipientAddresses p h = (case recipientAddresses p h False of None \<Rightarrow> [] | Some as \<Rightarrow> as)"

definition normalizeAliasAddress :: "address_parser \<Rightarrow> string \<Rightarrow> string option" where
  "normalizeAliasAddress p v =
     (case ap_Parse p (trim_space v) of
        None \<Rightarrow> None
      | Some a \<Rightarrow> (let n = NormalizeEmail (snd a) in if n \<noteq> [] then Some n else None))"

subsection \<open>From addresses to aliases\<close>

definition aliasIDsForAddresses :: "string list \<Rightarrow> alias_index \<Rightarrow> int list option" where
  "aliasIDsForAddresses addresses aliases =
     (let found = map aliases (filter (\<lambda>a. aliases a \<noteq> None) addresses) in
      if list_ex (\<lambda>ids. length (the ids) \<noteq> 1 \<or> hd (the ids) \<le> 0) found then None
      else Some (sort (remdups (map (\<lambda>ids. hd (the ids)) found))))"

definition aliasIDForAddress :: "string \<Rightarrow> alias_index \<Rightarrow> int option" where
  "aliasIDForAddress address aliases =
     (case aliases address of
        None \<Rightarrow> Some 0
      | Some ids \<Rightarrow> if ids = [] then Some 0 else if length ids \<noteq> 1 then None else Some (hd ids))"

definition sameAliasIDSet :: "int list \<Rightarrow> int list \<Rightarrow> bool" where
  "sameAliasIDSet l r \<longleftrightarrow> l = r"

definition visibleAliasIDs :: "address_parser \<Rightarrow> mail_header \<Rightarrow> alias_index \<Rightarrow> int list option" where
  "visibleAliasIDs p h aliases =
     (if \<not> hasAnyHeader h weakRecipientHeaderFields then Some []
      else (case addressesFromHeaders p h weakRecipientHeaderFields of
              None \<Rightarrow> None | Some as \<Rightarrow> aliasIDsForAddresses as aliases))"

subsection \<open>Delivery routes of an account\<close>

datatype icloud_receive_mode = ReceiveDirect | ReceiveForwarded

definition iCloudReceiveModeForAccount :: "account \<Rightarrow> icloud_receive_mode" where
  "iCloudReceiveModeForAccount a = (if UsesForwardedICloudIMAP a then ReceiveForwarded else ReceiveDirect)"

definition target_address :: "address_parser \<Rightarrow> string \<Rightarrow> string option" where
  "target_address p v =
     (if trim_space v = [] then None
      else (case ap_Parse p (trim_space v) of
              None \<Rightarrow> None
            | Some (name, address) \<Rightarrow>
                if name \<noteq> [] then None
                else (let n = NormalizeEmail address in if n \<noteq> [] then Some n else None)))"

definition normalizedICloudAddresses :: "address_parser \<Rightarrow> string list \<Rightarrow> string set" where
  "normalizedICloudAddresses p vs = set (map the (filter (\<lambda>r. r \<noteq> None) (map (target_address p) vs)))"

definition iCloudRouteAddresses :: "address_parser \<Rightarrow> account \<Rightarrow> string set" where
  "iCloudRouteAddresses p a =
     normalizedICloudAddresses p
       (if iCloudReceiveModeForAccount a = ReceiveForwarded then [ac_Email a, ac_IMAPUsername a] else [ac_Email a])"

definition iCloudFinalDeliveryTargets :: "address_parser \<Rightarrow> account \<Rightarrow> string set" where
  "iCloudFinalDeliveryTargets p a =
     (if iCloudReceiveModeForAccount a = ReceiveForwarded then normalizedICloudAddresses p [ac_IMAPUsername a]
      else normalizedICloudAddresses p [ac_Email a])"

text \<open>
  The addresses of each field that is present, or \<open>None\<close> when one of those fs is malformed: the
  loop that the checks below share.
\<close>

definition field_addresses :: "address_parser \<Rightarrow> mail_header \<Rightarrow> string list \<Rightarrow> string list list option" where
  "field_addresses p h fs =
     (let rs = map (\<lambda>f. addressesFromHeaders p h [f]) (filter (\<lambda>f. hasAnyHeader h [f]) fs) in
      if list_ex (\<lambda>r. r = None) rs then None else Some (map the rs))"

definition hasConfiguredICloudTargetHeader :: "address_parser \<Rightarrow> mail_header \<Rightarrow> account \<Rightarrow> bool" where
  "hasConfiguredICloudTargetHeader p h a =
     (let targets = iCloudFinalDeliveryTargets p a in
      if targets = {} then False
      else (case field_addresses p h strongRecipientHeaderFields of
              None \<Rightarrow> False
            | Some ass \<Rightarrow> list_ex (\<lambda>x. x \<in> targets) (concat ass)))"

definition iCloudStrongAliasIDs :: "address_parser \<Rightarrow> string list \<Rightarrow> alias_index \<Rightarrow> account \<Rightarrow> int list option" where
  "iCloudStrongAliasIDs p addresses aliases a =
     (case aliasIDsForAddresses addresses aliases of
        None \<Rightarrow> None
      | Some ids \<Rightarrow>
          (let unregistered = filter (\<lambda>x. aliases x = None) addresses in
           if list_ex (\<lambda>x. x \<notin> iCloudRouteAddresses p a) unregistered then None
           else if iCloudReceiveModeForAccount a = ReceiveForwarded \<and>
                   \<not> list_ex (\<lambda>x. x \<in> iCloudFinalDeliveryTargets p a) unregistered then None
           else Some ids))"

definition iCloudDeliveryTargetsOnly :: "address_parser \<Rightarrow> string list \<Rightarrow> account \<Rightarrow> bool" where
  "iCloudDeliveryTargetsOnly p addresses a \<longleftrightarrow>
     addresses \<noteq> [] \<and> iCloudRouteAddresses p a \<noteq> {} \<and> list_all (\<lambda>x. x \<in> iCloudRouteAddresses p a) addresses \<and>
     (iCloudReceiveModeForAccount a = ReceiveDirect \<or> list_ex (\<lambda>x. x \<in> iCloudFinalDeliveryTargets p a) addresses)"

subsection \<open>Apple's routing header\<close>

record hme_route =
  hr_privateAddress :: string
  hr_forwardAddress :: string
  hr_recipientRole :: string

definition validICloudHMEParameterKey :: "string \<Rightarrow> bool" where
  "validICloudHMEParameterKey key \<longleftrightarrow>
     key \<noteq> [] \<and> list_all (\<lambda>c. \<not> ((c < 97 \<or> c > 122) \<and> (c < 48 \<or> c > 57) \<and> c \<noteq> 45)) (runes key)"

text \<open>Carriage return and line feed; and the bytes that an address parameter must not contain.\<close>

definition line_breaks :: string where "line_breaks = [CHR 0x0D, CHR 0x0A]"
definition hme_address_forbidden :: string where
  "hme_address_forbidden = [CHR '' '', CHR 0x09, CHR '';'', CHR '','', CHR ''<'', CHR ''>'', CHR 0x22]"

fun hme_params :: "string list \<Rightarrow> (string \<rightharpoonup> string) \<Rightarrow> (string \<rightharpoonup> string) option" where
  "hme_params [] params = Some params"
| "hme_params (part0 # parts) params =
     (let part = trim_space part0 in
      if part = [] then None
      else (case cut (CHR ''='') part of (k, v, found) \<Rightarrow>
        (let key = to_lower (trim_space k); parameterValue = trim_space v in
         if \<not> found \<or> \<not> validICloudHMEParameterKey key \<or> contains_any parameterValue line_breaks then None
         else if params key \<noteq> None then None
         else hme_params parts (params(key \<mapsto> parameterValue)))))"

definition parseICloudHMEAddressValue :: "address_parser \<Rightarrow> string \<Rightarrow> string option" where
  "parseICloudHMEAddressValue p v0 =
     (let v = trim_space v0 in
      if v = [] \<or> contains_any v hme_address_forbidden then None
      else (case ap_Parse p v of
              None \<Rightarrow> None
            | Some (name, address) \<Rightarrow>
                if name \<noteq> [] \<or> \<not> equal_fold address v then None
                else (let n = NormalizeEmail address in if n \<noteq> [] then Some n else None)))"

definition parseICloudHMEAddress :: "address_parser \<Rightarrow> (string \<rightharpoonup> string) \<Rightarrow> string \<Rightarrow> string option" where
  "parseICloudHMEAddress p params key = (case params key of None \<Rightarrow> None | Some v \<Rightarrow> parseICloudHMEAddressValue p v)"

definition parseICloudHMEValue :: "address_parser \<Rightarrow> string \<Rightarrow> hme_route option" where
  "parseICloudHMEValue p v =
     (if v = [] \<or> length v > maxICloudHMEBytes \<or> contains_any v line_breaks then None
      else if length (split_on (CHR '';'') v) > maxICloudHMEParams then None
      else (case hme_params (split_on (CHR '';'') v) (\<lambda>_. None) of
        None \<Rightarrow> None
      | Some params \<Rightarrow>
          (case parseICloudHMEAddress p params ''p'' of
             None \<Rightarrow> None
           | Some private \<Rightarrow>
               (case parseICloudHMEAddress p params ''f'' of
                  None \<Rightarrow> None
                | Some forward \<Rightarrow>
                    if private = forward then None
                    else (case params ''r'' of
                      None \<Rightarrow> None
                    | Some r \<Rightarrow>
                        (let role = to_lower (trim_space r) in
                         if role \<noteq> ''to'' \<and> role \<noteq> ''cc'' then None
                         else if (case params ''s'' of None \<Rightarrow> False | Some s \<Rightarrow> parseICloudHMEAddressValue p s = None) then None
                         else Some \<lparr>hr_privateAddress = private, hr_forwardAddress = forward, hr_recipientRole = role\<rparr>))))))"

text \<open>Absent, present but malformed, or present and well-formed.\<close>

datatype hme_header = HmeAbsent | HmeInvalid | HmeRoute hme_route

definition parseICloudHMERoute :: "address_parser \<Rightarrow> mail_header \<Rightarrow> hme_header" where
  "parseICloudHMERoute p h =
     (case headerValues h icloudHMEHeaderField of
        [] \<Rightarrow> HmeAbsent
      | [v] \<Rightarrow> (case parseICloudHMEValue p v of None \<Rightarrow> HmeInvalid | Some r \<Rightarrow> HmeRoute r)
      | _ \<Rightarrow> HmeInvalid)"

definition hmeRouteMatchesForwardTarget :: "address_parser \<Rightarrow> mail_header \<Rightarrow> hme_route \<Rightarrow> account \<Rightarrow> bool" where
  "hmeRouteMatchesForwardTarget p h r a =
     (let mode = iCloudReceiveModeForAccount a in
      if hr_forwardAddress r = NormalizeEmail (ac_Email a)
      then mode = ReceiveDirect \<or> hasConfiguredICloudTargetHeader p h a
      else if mode \<noteq> ReceiveForwarded then False
      else if hr_forwardAddress r = NormalizeEmail (ac_IMAPUsername a) then hasConfiguredICloudTargetHeader p h a
      else (case field_addresses p h strongRecipientHeaderFields of
              None \<Rightarrow> False
            | Some ass \<Rightarrow> hr_forwardAddress r \<in> set (concat ass) \<and>
                list_ex (\<lambda>x. x \<in> iCloudFinalDeliveryTargets p a) (concat ass)))"

definition hmeRouteMatchesVisibleRecipient :: "address_parser \<Rightarrow> mail_header \<Rightarrow> hme_route \<Rightarrow> bool" where
  "hmeRouteMatchesVisibleRecipient p h r =
     (case addressesFromHeaders p h [if hr_recipientRole r = ''cc'' then ''Cc'' else ''To''] of
        None \<Rightarrow> False | Some as \<Rightarrow> hr_privateAddress r \<in> set as)"

definition originalRecipientFields :: "string list" where
  "originalRecipientFields = [''Original-Recipient'', ''X-Original-Recipient'', ''X-Apple-Original-Recipient'', ''Final-Recipient'']"

definition hmeRouteMatchesOriginalRecipient :: "address_parser \<Rightarrow> mail_header \<Rightarrow> hme_route \<Rightarrow> account \<Rightarrow> bool" where
  "hmeRouteMatchesOriginalRecipient p h r a =
     (case field_addresses p h originalRecipientFields of
        None \<Rightarrow> False
      | Some ass \<Rightarrow>
          if list_ex (\<lambda>as. as = []) ass then False
          else list_all (\<lambda>x. x = hr_forwardAddress r \<or> x \<in> iCloudRouteAddresses p a) (concat ass))"

definition hmeRouteHasUnexpectedStrongRecipient :: "address_parser \<Rightarrow> mail_header \<Rightarrow> hme_route \<Rightarrow> account \<Rightarrow> bool" where
  "hmeRouteHasUnexpectedStrongRecipient p h r a =
     (case field_addresses p h strongRecipientHeaderFields of
        None \<Rightarrow> True
      | Some ass \<Rightarrow> list_ex (\<lambda>x. x \<noteq> hr_privateAddress r \<and> x \<noteq> hr_forwardAddress r \<and> x \<notin> iCloudRouteAddresses p a) (concat ass))"

definition hmeRouteHasConflictingAlias :: "address_parser \<Rightarrow> mail_header \<Rightarrow> hme_route \<Rightarrow> alias_index \<Rightarrow> bool" where
  "hmeRouteHasConflictingAlias p h r aliases =
     (case field_addresses p h (filter (\<lambda>f. \<not> isRFC822RecipientHeader f) (strongRecipientHeaderFields @ weakRecipientHeaderFields)) of
        None \<Rightarrow> True
      | Some ass \<Rightarrow> list_ex (\<lambda>x. x \<noteq> hr_privateAddress r \<and> x \<noteq> hr_forwardAddress r \<and> aliases x \<noteq> None) (concat ass))"

subsection \<open>Classification\<close>

definition classifyICloudRecipientAliases ::
  "address_parser \<Rightarrow> mail_header \<Rightarrow> alias_index \<Rightarrow> account \<Rightarrow> bool \<Rightarrow> int list option" where
  "classifyICloudRecipientAliases p h aliases a allowWeak =
     (case parseICloudHMERoute p h of
        HmeInvalid \<Rightarrow> None
      | HmeRoute r \<Rightarrow>
          if NormalizeEmail (ac_Email a) = [] \<or> \<not> hmeRouteMatchesForwardTarget p h r a \<or> \<not> hmeRouteMatchesVisibleRecipient p h r \<or>
             \<not> hmeRouteMatchesOriginalRecipient p h r a \<or> hmeRouteHasUnexpectedStrongRecipient p h r a \<or>
             hmeRouteHasConflictingAlias p h r aliases then None
          else (case aliasIDForAddress (hr_privateAddress r) aliases of
                  None \<Rightarrow> None | Some i \<Rightarrow> if i = 0 then Some [] else Some [i])
      | HmeAbsent \<Rightarrow>
          if hasAnyHeader h strongRecipientHeaderFields then
            (case addressesFromHeaders p h strongRecipientHeaderFields of
               None \<Rightarrow> None
             | Some strong \<Rightarrow>
                 (case iCloudStrongAliasIDs p strong aliases a of
                    None \<Rightarrow> None
                  | Some strongIDs \<Rightarrow>
                      (case visibleAliasIDs p h aliases of
                         None \<Rightarrow> None
                       | Some visibleIDs \<Rightarrow>
                           if strongIDs \<noteq> [] then
                             (if visibleIDs \<noteq> [] \<and> \<not> sameAliasIDSet strongIDs visibleIDs then None else Some strongIDs)
                           else if \<not> allowWeak then Some []
                           else if \<not> iCloudDeliveryTargetsOnly p strong a then Some []
                           else Some visibleIDs)))
          else if \<not> allowWeak then Some []
          else (case addressesFromHeaders p h weakRecipientHeaderFields of
                  None \<Rightarrow> None | Some weak \<Rightarrow> aliasIDsForAddresses weak aliases))"

fun first_tier :: "mail_header \<Rightarrow> string list list \<Rightarrow> string list option" where
  "first_tier h [] = None"
| "first_tier h (fs # tiers) = (if hasAnyHeader h fs then Some fs else first_tier h tiers)"

definition nonempty_addresses :: "string list option \<Rightarrow> string list option" where
  "nonempty_addresses r = (case r of None \<Rightarrow> None | Some as \<Rightarrow> if as = [] then None else Some as)"

definition customRecipientAddresses :: "address_parser \<Rightarrow> mail_header \<Rightarrow> bool \<Rightarrow> string list option" where
  "customRecipientAddresses p h allowWeak =
     (case first_tier h customRecipientHeaderTiers of
        Some fs \<Rightarrow> nonempty_addresses (addressesFromHeaders p h fs)
      | None \<Rightarrow>
          if \<not> allowWeak then Some []
          else if \<not> hasAnyHeader h weakRecipientHeaderFields then Some []
          else nonempty_addresses (addressesFromHeaders p h weakRecipientHeaderFields))"

text \<open>\<open>seenIDs\<close> maps an alias to the address it was found under.\<close>

fun custom_ids :: "alias_index \<Rightarrow> string list \<Rightarrow> (int \<rightharpoonup> string) \<Rightarrow> int list \<Rightarrow> int list option" where
  "custom_ids aliases [] seenIDs ids = Some ids"
| "custom_ids aliases (address # addresses) seenIDs ids =
     (case aliases address of
        Some [i] \<Rightarrow>
          if i \<le> 0 then None
          else (case seenIDs i of
                  None \<Rightarrow> custom_ids aliases addresses (seenIDs(i \<mapsto> address)) (ids @ [i])
                | Some previous \<Rightarrow> if previous \<noteq> address then None
                    else custom_ids aliases addresses (seenIDs(i \<mapsto> address)) ids)
      | _ \<Rightarrow> None)"

definition classifyCustomRecipientAliases :: "address_parser \<Rightarrow> mail_header \<Rightarrow> alias_index \<Rightarrow> bool \<Rightarrow> int list option" where
  "classifyCustomRecipientAliases p h aliases allowWeak =
     (case customRecipientAddresses p h allowWeak of
        None \<Rightarrow> None
      | Some addresses \<Rightarrow>
          if addresses = [] then Some []
          else map_option sort (custom_ids aliases addresses (\<lambda>_. None) []))"

definition classifyRecipientAlias :: "address_parser \<Rightarrow> mail_header \<Rightarrow> alias_index \<Rightarrow> account \<Rightarrow> bool \<Rightarrow> int option" where
  "classifyRecipientAlias p h aliases a allowWeak =
     (if NormalizeMailboxType (ac_MailboxType a) = MailboxTypeCustom then
        (case classifyCustomRecipientAliases p h aliases allowWeak of
           None \<Rightarrow> None | Some ids \<Rightarrow> if length ids \<noteq> 1 then None else Some (hd ids))
      else if NormalizeMailboxType (ac_MailboxType a) \<noteq> MailboxTypeICloud then None
      else if allowWeak \<and> \<not> hasAnyHeader h strongRecipientHeaderFields \<and> parseICloudHMERoute p h = HmeAbsent \<and>
              (case addressesFromHeaders p h weakRecipientHeaderFields of None \<Rightarrow> True | Some weak \<Rightarrow> length weak \<noteq> 1)
        then None
      else (case classifyICloudRecipientAliases p h aliases a allowWeak of
              None \<Rightarrow> None
            | Some ids \<Rightarrow> if ids = [] then Some 0 else if length ids \<noteq> 1 then None else Some (hd ids)))"

definition matchingAliasIDsForAccount :: "address_parser \<Rightarrow> mail_header \<Rightarrow> alias_index \<Rightarrow> account \<Rightarrow> bool \<Rightarrow> int list" where
  "matchingAliasIDsForAccount p h aliases a allowWeak =
     (case classifyRecipientAlias p h aliases a allowWeak of None \<Rightarrow> [] | Some i \<Rightarrow> if i = 0 then [] else [i])"

definition no_account :: account where
  "no_account = \<lparr>ac_ID = 0, ac_Name = [], ac_Email = [], ac_IMAPHost = [], ac_IMAPPort = 0, ac_IMAPUsername = [],
     ac_PasswordCiphertext = [], ac_Enabled = False, ac_LastSyncStatus = [], ac_LastSyncError = [], ac_LastSyncedAt = None,
     ac_CreatedAt = zero_time, ac_UpdatedAt = zero_time, ac_AliasCount = 0, ac_MailboxType = [], ac_EmailSuffix = []\<rparr>"

definition matchingAliasIDs :: "address_parser \<Rightarrow> mail_header \<Rightarrow> alias_index \<Rightarrow> bool \<Rightarrow> int list" where
  "matchingAliasIDs p h aliases allowWeak = matchingAliasIDsForAccount p h aliases no_account allowWeak"

end
