(* ===== verification/RecipientFacts.thy ===== *)
theory RecipientFacts
  imports Recipients "HOL-Library.Multiset"
begin

section \<open>What the classification guarantees\<close>

text \<open>
  The result does not depend on the order in which the Go map of header fields is walked; an alias is
  only chosen when a recipient field names an address that belongs to it alone; and without the
  administrator's opt-in the visible fields alone never choose one.
\<close>

subsection \<open>Reading fs\<close>

lemma hasAnyHeader_iff: "hasAnyHeader h fs \<longleftrightarrow> (\<exists>e \<in> set h. \<exists>f \<in> set fs. equal_fold (fst e) f)"
  by (simp add: hasAnyHeader_def list_ex_iff)

lemma collect_Some: "collect_addresses rs = Some as \<longleftrightarrow> None \<notin> set rs \<and> as = sort (remdups (concat (map the rs)))"
  by (auto simp: collect_addresses_def list_ex_iff)

lemma collect_mset: "mset rs = mset rs' \<Longrightarrow> collect_addresses rs = collect_addresses rs'"
proof -
  assume m: "mset rs = mset rs'"
  then have s: "set rs = set rs'" by (rule mset_eq_setD)
  have "set (concat (map the rs)) = set (concat (map the rs'))" using s by simp
  then have "sort (remdups (concat (map the rs))) = sort (remdups (concat (map the rs')))"
    by (metis sorted_list_of_set_sort_remdups)
  then show ?thesis using s by (simp add: collect_addresses_def list_ex_iff)
qed

text \<open>What a set of fields says about addresses.\<close>

definition names_address :: "address_parser \<Rightarrow> mail_header \<Rightarrow> string list \<Rightarrow> string \<Rightarrow> bool" where
  "names_address p h fs x \<longleftrightarrow>
     list_ex (\<lambda>f. list_ex (\<lambda>v. case value_addresses p f v of None \<Rightarrow> False | Some as \<Rightarrow> x \<in> set as) (headerValues h f)) fs"

lemma addresses_named: "addressesFromHeaders p h fs = Some as \<Longrightarrow> x \<in> set as \<longleftrightarrow> names_address p h fs x"
  by (force simp: addressesFromHeaders_def collect_Some names_address_def list_ex_iff split: option.splits)

lemma names_address_mono: "names_address p h fs x \<Longrightarrow> set fs \<subseteq> set fs' \<Longrightarrow> names_address p h fs' x"
  by (auto simp: names_address_def list_ex_iff)

lemma names_address_present: "names_address p h fs x \<Longrightarrow> hasAnyHeader h fs"
proof -
  assume "names_address p h fs x"
  then obtain f v where "f \<in> set fs" "v \<in> set (headerValues h f)" by (auto simp: names_address_def list_ex_iff)
  then show ?thesis by (force simp: hasAnyHeader_iff headerValues_def)
qed

subsection \<open>Order of the map\<close>

lemma headerValues_mset: "mset h = mset h' \<Longrightarrow> mset (headerValues h f) = mset (headerValues h' f)"
proof -
  assume "mset h = mset h'"
  then have "mset (map snd (filter (\<lambda>e. equal_fold (fst e) f) h)) = mset (map snd (filter (\<lambda>e. equal_fold (fst e) f) h'))"
    by simp
  moreover have "mset (concat vs) = \<Sum>\<^sub># (image_mset mset (mset vs))" for vs :: "string list list"
    by (induction vs) simp_all
  ultimately show ?thesis by (simp add: headerValues_def)
qed

lemma hasAnyHeader_mset: "mset h = mset h' \<Longrightarrow> hasAnyHeader h = hasAnyHeader h'"
  using mset_eq_setD [of h h'] by (intro ext) (simp add: hasAnyHeader_iff)

lemma addresses_mset: "mset h = mset h' \<Longrightarrow> addressesFromHeaders p h = addressesFromHeaders p h'"
proof (rule ext)
  fix fs assume h: "mset h = mset h'"
  have "mset (concat (map (\<lambda>f. map (value_addresses p f) (headerValues h f)) fs)) =
      mset (concat (map (\<lambda>f. map (value_addresses p f) (headerValues h' f)) fs))" for fs
    by (induction fs) (simp_all add: headerValues_mset [OF h])
  then show "addressesFromHeaders p h fs = addressesFromHeaders p h' fs"
    unfolding addressesFromHeaders_def by (rule collect_mset)
qed

lemma route_mset: "mset h = mset h' \<Longrightarrow> parseICloudHMERoute p h = parseICloudHMERoute p h'"
proof -
  assume h: "mset h = mset h'"
  let ?v = "headerValues h icloudHMEHeaderField" and ?v' = "headerValues h' icloudHMEHeaderField"
  have m: "mset ?v = mset ?v'" by (rule headerValues_mset [OF h])
  then have l: "length ?v = length ?v'" by (rule mset_eq_length)
  show ?thesis
  proof (cases "length ?v \<le> 1")
    case True
    then have "?v = ?v'" using m l by (cases ?v; cases ?v') auto
    then show ?thesis by (simp add: parseICloudHMERoute_def)
  next
    case False
    then obtain a b xs a' b' ys where "?v = a # b # xs" "?v' = a' # b' # ys"
      using l by (cases ?v rule: list.exhaust; cases "tl ?v"; cases ?v'; cases "tl ?v'") auto
    then show ?thesis by (simp add: parseICloudHMERoute_def)
  qed
qed

lemma first_tier_mset: "mset h = mset h' \<Longrightarrow> first_tier h tiers = first_tier h' tiers"
  by (induction tiers) (simp_all add: hasAnyHeader_mset [of h h'])

text \<open>The classification does not depend on the order in which the header map is walked, which Go leaves
  open: two walks over the same entries give the same alias, or the same refusal.\<close>

theorem classification_mset:
  assumes "mset h = mset h'"
  shows "classifyRecipientAlias p h = classifyRecipientAlias p h'"
proof (intro ext)
  fix aliases a allowWeak
  note walk = hasAnyHeader_mset [OF assms] addresses_mset [OF assms] route_mset [OF assms] first_tier_mset [OF assms]
  have f: "field_addresses p h = field_addresses p h'" by (rule ext) (simp add: field_addresses_def walk)
  have t: "hasConfiguredICloudTargetHeader p h = hasConfiguredICloudTargetHeader p h'"
    by (rule ext) (simp add: hasConfiguredICloudTargetHeader_def f)
  have r1: "hmeRouteMatchesForwardTarget p h = hmeRouteMatchesForwardTarget p h'"
    by (intro ext) (simp only: hmeRouteMatchesForwardTarget_def f t)
  have r2: "hmeRouteMatchesVisibleRecipient p h = hmeRouteMatchesVisibleRecipient p h'"
    by (intro ext) (simp only: hmeRouteMatchesVisibleRecipient_def walk)
  have r3: "hmeRouteMatchesOriginalRecipient p h = hmeRouteMatchesOriginalRecipient p h'"
    by (intro ext) (simp only: hmeRouteMatchesOriginalRecipient_def f)
  have r4: "hmeRouteHasUnexpectedStrongRecipient p h = hmeRouteHasUnexpectedStrongRecipient p h'"
    by (intro ext) (simp only: hmeRouteHasUnexpectedStrongRecipient_def f)
  have r5: "hmeRouteHasConflictingAlias p h = hmeRouteHasConflictingAlias p h'"
    by (intro ext) (simp only: hmeRouteHasConflictingAlias_def f)
  have r6: "visibleAliasIDs p h = visibleAliasIDs p h'" by (intro ext) (simp only: visibleAliasIDs_def walk)
  have "classifyICloudRecipientAliases p h = classifyICloudRecipientAliases p h'"
    by (intro ext) (simp only: classifyICloudRecipientAliases_def walk r1 r2 r3 r4 r5 r6)
  moreover have "classifyCustomRecipientAliases p h = classifyCustomRecipientAliases p h'"
    by (intro ext) (simp only: classifyCustomRecipientAliases_def customRecipientAddresses_def walk)
  ultimately show "classifyRecipientAlias p h aliases a allowWeak = classifyRecipientAlias p h' aliases a allowWeak"
    by (simp only: classifyRecipientAlias_def walk)
qed

subsection \<open>Aliases come from addresses\<close>

lemma ids_for_addresses:
  assumes "aliasIDsForAddresses as aliases = Some ids" and "i \<in> set ids"
  shows "\<exists>x \<in> set as. aliases x = Some [i] \<and> 0 < i"
proof -
  let ?found = "map aliases (filter (\<lambda>a. aliases a \<noteq> None) as)"
  from assms(1) have ok: "\<forall>x \<in> set as. aliases x \<noteq> None \<longrightarrow> length (the (aliases x)) = 1 \<and> 0 < hd (the (aliases x))"
    and "ids = sort (remdups (map (\<lambda>ids. hd (the ids)) ?found))"
    by (auto simp: aliasIDsForAddresses_def Let_def list_ex_iff split: if_splits)
  with assms(2) have i: "i \<in> (\<lambda>y. hd (the y)) ` aliases ` {x \<in> set as. aliases x \<noteq> None}"
    by (simp only: set_sort set_remdups set_map set_filter)
  from i obtain x ids' where x: "x \<in> set as" "aliases x = Some ids'" "i = hd ids'" by auto
  with ok have "length ids' = 1" "0 < hd ids'" by force+
  with x show ?thesis by (intro bexI [of _ x]) (cases ids'; auto)+
qed

lemma custom_ids_sound:
  assumes "custom_ids aliases as seenIDs ids = Some ids'" and "i \<in> set ids'"
  shows "i \<in> set ids \<or> (\<exists>x \<in> set as. aliases x = Some [i] \<and> 0 < i)"
  using assms
  by (induction aliases as seenIDs ids rule: custom_ids.induct) (fastforce split: option.splits list.splits if_splits)+

lemma nonempty_Some: "nonempty_addresses r = Some as \<longleftrightarrow> r = Some as \<and> as \<noteq> []"
  by (auto simp: nonempty_addresses_def split: option.splits)

lemma first_tier_mem: "first_tier h tiers = Some fs \<Longrightarrow> fs \<in> set tiers"
  by (induction tiers) (auto split: if_splits)

lemma tiers_strong: "fs \<in> set customRecipientHeaderTiers \<Longrightarrow> set fs \<subseteq> set strongRecipientHeaderFields"
  by (auto simp: customRecipientHeaderTiers_def strongRecipientHeaderFields_def)

lemma custom_addresses:
  assumes "customRecipientAddresses p h allowWeak = Some as" and "x \<in> set as"
  shows "names_address p h strongRecipientHeaderFields x \<or> (allowWeak \<and> names_address p h weakRecipientHeaderFields x)"
proof (cases "first_tier h customRecipientHeaderTiers")
  case None
  with assms addresses_named [of p h weakRecipientHeaderFields as x] show ?thesis
    by (auto simp: customRecipientAddresses_def nonempty_Some split: if_splits)
next
  case (Some fs)
  with assms have "names_address p h fs x"
    using addresses_named [of p h fs as x] by (simp add: customRecipientAddresses_def nonempty_Some)
  then show ?thesis using names_address_mono tiers_strong first_tier_mem [OF Some] by blast
qed

subsection \<open>The two mailbox types\<close>

lemma custom_sound:
  assumes "classifyCustomRecipientAliases p h aliases allowWeak = Some ids" and "i \<in> set ids"
  shows "\<exists>x. aliases x = Some [i] \<and> 0 < i \<and>
     (names_address p h strongRecipientHeaderFields x \<or> (allowWeak \<and> names_address p h weakRecipientHeaderFields x))"
proof -
  from assms obtain as ids' where as: "customRecipientAddresses p h allowWeak = Some as"
      and c: "custom_ids aliases as (\<lambda>_. None) [] = Some ids'" and i: "i \<in> set ids'"
    by (auto simp: classifyCustomRecipientAliases_def split: option.splits if_splits)
  from custom_ids_sound [OF c i] obtain x where "x \<in> set as" "aliases x = Some [i]" "0 < i" by auto
  with custom_addresses [OF as] show ?thesis by blast
qed

text \<open>The chosen address is named by the routing header, by a delivery header, or with the opt-in by a visible field.\<close>

definition routed_address :: "address_parser \<Rightarrow> mail_header \<Rightarrow> string \<Rightarrow> bool" where
  "routed_address p h x \<longleftrightarrow>
     (case parseICloudHMERoute p h of HmeRoute r \<Rightarrow> hr_privateAddress r = x \<and> names_address p h weakRecipientHeaderFields x | _ \<Rightarrow> False)"

lemma icloud_sound:
  assumes c: "classifyICloudRecipientAliases p h aliases a allowWeak = Some ids" and i: "i \<in> set ids"
  shows "\<exists>x. aliases x = Some [i] \<and> i \<noteq> 0 \<and> (routed_address p h x \<or>
     (parseICloudHMERoute p h = HmeAbsent \<and>
        (names_address p h strongRecipientHeaderFields x \<or> (allowWeak \<and> names_address p h weakRecipientHeaderFields x))))"
proof (cases "parseICloudHMERoute p h")
  case HmeInvalid
  with c show ?thesis by (simp add: classifyICloudRecipientAliases_def)
next
  case (HmeRoute r)
  with c i have vis: "hmeRouteMatchesVisibleRecipient p h r" and al: "aliasIDForAddress (hr_privateAddress r) aliases = Some i" "i \<noteq> 0"
    by (auto simp: classifyICloudRecipientAliases_def split: if_splits option.splits)
  from al have "aliases (hr_privateAddress r) = Some [i]"
    by (auto simp: aliasIDForAddress_def length_Suc_conv split: option.splits if_splits)
  moreover have "names_address p h weakRecipientHeaderFields (hr_privateAddress r)"
  proof -
    let ?f = "[if hr_recipientRole r = ''cc'' then ''Cc'' else ''To'']"
    from vis obtain as where "addressesFromHeaders p h ?f = Some as" "hr_privateAddress r \<in> set as"
      by (auto simp: hmeRouteMatchesVisibleRecipient_def split: option.splits)
    then have "names_address p h ?f (hr_privateAddress r)" using addresses_named by blast
    then show ?thesis by (rule names_address_mono) (simp add: weakRecipientHeaderFields_def)
  qed
  ultimately show ?thesis using al(2) HmeRoute by (auto simp: routed_address_def)
next
  case absent: HmeAbsent
  show ?thesis
  proof (cases "hasAnyHeader h strongRecipientHeaderFields")
    case True
    with c absent obtain strong sids vids where strong: "addressesFromHeaders p h strongRecipientHeaderFields = Some strong"
      and s: "iCloudStrongAliasIDs p strong aliases a = Some sids" and v: "visibleAliasIDs p h aliases = Some vids"
      and ids: "ids = (if sids \<noteq> [] then sids else if \<not> allowWeak then [] else if \<not> iCloudDeliveryTargetsOnly p strong a then [] else vids)"
      by (auto simp: classifyICloudRecipientAliases_def split: option.splits if_splits)
    show ?thesis
    proof (cases "sids = []")
      case False
      have sa: "aliasIDsForAddresses strong aliases = Some sids"
        using s by (auto simp: iCloudStrongAliasIDs_def Let_def split: option.splits if_splits)
      have "i \<in> set sids" using ids i False by simp
      from ids_for_addresses [OF sa this] obtain x where "x \<in> set strong" "aliases x = Some [i]" "0 < i" by blast
      then show ?thesis using addresses_named [OF strong] absent by (intro exI [of _ x]) auto
    next
      case True
      then have w: "allowWeak" "i \<in> set vids" using ids i by (auto split: if_splits)
      from v w(2) obtain as where as: "addressesFromHeaders p h weakRecipientHeaderFields = Some as" "aliasIDsForAddresses as aliases = Some vids"
        by (auto simp: visibleAliasIDs_def split: option.splits if_splits)
      from ids_for_addresses [OF as(2) w(2)] obtain x where "x \<in> set as" "aliases x = Some [i]" "0 < i" by blast
      then show ?thesis using addresses_named [OF as(1)] absent w(1) by (intro exI [of _ x]) auto
    qed
  next
    case False
    with c absent i obtain as where w: "allowWeak" and as: "addressesFromHeaders p h weakRecipientHeaderFields = Some as"
        "aliasIDsForAddresses as aliases = Some ids"
      by (auto simp: classifyICloudRecipientAliases_def split: option.splits if_splits)
    from ids_for_addresses [OF as(2) i] obtain x where "x \<in> set as" "aliases x = Some [i]" "0 < i" by blast
    then show ?thesis using addresses_named [OF as(1)] absent w by (intro exI [of _ x]) auto
  qed
qed

lemma chosen_ids:
  assumes "classifyRecipientAlias p h aliases a allowWeak = Some i" and "i \<noteq> 0"
  shows "(NormalizeMailboxType (ac_MailboxType a) = MailboxTypeCustom \<and>
        classifyCustomRecipientAliases p h aliases allowWeak = Some [i]) \<or>
     (NormalizeMailboxType (ac_MailboxType a) = MailboxTypeICloud \<and>
        classifyICloudRecipientAliases p h aliases a allowWeak = Some [i])"
  using assms
  by (auto simp: classifyRecipientAlias_def length_Suc_conv split: if_splits option.splits)

text \<open>C16: A message is never routed by guessing: the chosen alias is the only alias of an address that the message
  names, in the routing header, in a delivery header, or, with the administrator's opt-in, in a visible field.\<close>

theorem classification_sound:
  assumes "classifyRecipientAlias p h aliases a allowWeak = Some i" and "i \<noteq> 0"
  shows "\<exists>x. aliases x = Some [i] \<and> (routed_address p h x \<or> names_address p h strongRecipientHeaderFields x \<or>
      (allowWeak \<and> names_address p h weakRecipientHeaderFields x))"
  using chosen_ids [OF assms]
proof (elim disjE conjE)
  assume "classifyCustomRecipientAliases p h aliases allowWeak = Some [i]"
  from custom_sound [OF this, of i] show ?thesis by auto
next
  assume "classifyICloudRecipientAliases p h aliases a allowWeak = Some [i]"
  from icloud_sound [OF this, of i] show ?thesis by auto
qed

subsection \<open>Foreign recipients\<close>

text \<open>A delivery header that names an address of neither an alias nor the account's delivery route.\<close>


subsection \<open>Tiers\<close>

text \<open>A custom mailbox reads the first tier present and nothing below it.\<close>

definition tier_values :: "mail_header \<Rightarrow> string list \<Rightarrow> string list list" where
  "tier_values h fs = map (headerValues h) fs"

text \<open>A custom mailbox is decided by the first tier of delivery headers that is present: lower tiers, visible
  fields and the opt-in change nothing.\<close>

theorem first_tier_decides:
  assumes "first_tier h customRecipientHeaderTiers = Some fs" and "first_tier h' customRecipientHeaderTiers = Some fs"
    and "tier_values h fs = tier_values h' fs"
  shows "classifyCustomRecipientAliases p h aliases w = classifyCustomRecipientAliases p h' aliases w'"
proof -
  have "\<forall>f \<in> set fs. headerValues h f = headerValues h' f" using assms(3) by (simp add: tier_values_def)
  then have "addressesFromHeaders p h fs = addressesFromHeaders p h' fs"
    unfolding addressesFromHeaders_def by (simp cong: map_cong)
  then show ?thesis by (simp add: classifyCustomRecipientAliases_def customRecipientAddresses_def assms(1,2))
qed

subsection \<open>The properties at concrete inputs\<close>

text \<open>ASCII text compares byte by byte; the tables of case folding are looked up for other text only.\<close>

fun same_letters :: "string \<Rightarrow> string \<Rightarrow> bool" where
  "same_letters [] [] \<longleftrightarrow> True"
| "same_letters (c # s) (d # t) \<longleftrightarrow> (if lower_byte c = lower_byte d then same_letters s t else False)"
| "same_letters s t \<longleftrightarrow> False"

lemma same_letters_iff: "same_letters s t \<longleftrightarrow> map lower_byte s = map lower_byte t"
  by (induction s t rule: same_letters.induct) auto

lemma fold_ascii: "ascii s \<Longrightarrow> map rune_fold (runes s) = map byte_val (map lower_byte s)"
proof -
  assume a: "ascii s"
  have f: "byte_val c < 128 \<Longrightarrow> rune_fold (byte_val c) = byte_val (lower_byte c)" for c
    by (simp add: rune_fold_def map_case_def lower_byte_def)
  show ?thesis using a by (simp add: runes_ascii) (simp add: ascii_def f)
qed

lemma equal_fold_code [code]:
  "equal_fold s t = (if ascii s \<and> ascii t then same_letters s t else map rune_fold (runes s) = map rune_fold (runes t))"
proof -
  have "inj byte_val" by (rule injI) (metis char_of_char)
  then have "map byte_val xs = map byte_val ys \<longleftrightarrow> xs = ys" for xs ys by (simp add: inj_map_eq_map)
  then show ?thesis by (simp add: equal_fold_def fold_ascii same_letters_iff del: map_map)
qed

text \<open>A parser that takes a whole value as one address; an iCloud account and its aliases.\<close>

definition plain_parser :: address_parser where
  "plain_parser = \<lparr>ap_ParseList = (\<lambda>v. if v = [] then None else Some [([], v)]), ap_Parse = (\<lambda>v. if v = [] then None else Some ([], v))\<rparr>"

definition plain_account :: account where
  "plain_account = no_account\<lparr>ac_ID := 1, ac_Email := ''me@icloud.com'', ac_IMAPHost := DefaultIMAPHost, ac_IMAPUsername := ''me@icloud.com'',
     ac_MailboxType := MailboxTypeICloud\<rparr>"

definition plain_index :: alias_index where
  "plain_index = [''x@icloud.com'' \<mapsto> [3], ''y@icloud.com'' \<mapsto> [4]]"

definition delivered :: mail_header where
  "delivered = [(''Delivered-To'', [''x@icloud.com'']), (''Subject'', [''s''])]"

lemma delivered_classified: "classifyRecipientAlias plain_parser delivered plain_index plain_account False = Some 3"
  by code_simp

lemma classification_mset_witness:
  "classifyRecipientAlias plain_parser (rev delivered) plain_index plain_account False = Some 3"
  using delivered_classified classification_mset [of delivered "rev delivered" plain_parser] by simp

lemma classification_sound_witness:
  "\<exists>x. plain_index x = Some [3] \<and> (routed_address plain_parser delivered x \<or>
     names_address plain_parser delivered strongRecipientHeaderFields x)"
  using classification_sound [OF delivered_classified] by auto


lemma first_tier_decides_witness:
  "classifyCustomRecipientAliases plain_parser [(''Envelope-To'', [''y@icloud.com'']), (''Delivered-To'', [''x@icloud.com''])] plain_index True =
   classifyCustomRecipientAliases plain_parser [(''Envelope-To'', [''y@icloud.com'']), (''To'', [''z@example.com''])] plain_index False"
proof (rule first_tier_decides)
  let ?fs = "[''Envelope-To'', ''X-Envelope-To'', ''X-Forwarded-To'']"
  let ?h = "[(''Envelope-To'', [''y@icloud.com'']), (''Delivered-To'', [''x@icloud.com''])] :: mail_header"
  let ?h' = "[(''Envelope-To'', [''y@icloud.com'']), (''To'', [''z@example.com''])] :: mail_header"
  show "first_tier ?h customRecipientHeaderTiers = Some ?fs" by code_simp
  show "first_tier ?h' customRecipientHeaderTiers = Some ?fs" by code_simp
  show "tier_values ?h ?fs = tier_values ?h' ?fs" by code_simp
qed

end
