(* ===== verification/RateLimit.thy ===== *)
theory RateLimit
  imports GoBase "HOL-Library.AList"
begin

section \<open>Request limits by window (internal/httpserver/middleware.go)\<close>

text \<open>
  The limiter in front of the login form, the rotation of all credentials and the external
  interfaces. A window starts with a key's first request; expired entries are dropped when a request
  finds the cleanup due; the number of keys is bounded. One call of \<open>Allow\<close> holds the mutex, so calls
  follow one another; the clock is monotonic.
\<close>

subsection \<open>The limiter\<close>

record limiter_entry =
  le_count :: int
  le_reset :: time

record window_limiter =
  wl_limit :: int
  wl_window :: duration
  wl_maxItems :: nat
  wl_nextCleanup :: time
  wl_items :: "(string \<times> limiter_entry) list"

definition newWindowLimiter :: "int \<Rightarrow> duration \<Rightarrow> window_limiter" where
  "newWindowLimiter limit window =
     \<lparr>wl_limit = limit, wl_window = window, wl_maxItems = 8192, wl_nextCleanup = zero_time, wl_items = []\<rparr>"

definition limiter_cleanup :: "window_limiter \<Rightarrow> time \<Rightarrow> window_limiter" where
  "limiter_cleanup l now =
     (if is_zero_time (wl_nextCleanup l) \<or> \<not> now < wl_nextCleanup l
      then (let interval = min (wl_window l) minute in
        l\<lparr>wl_items := filter (\<lambda>it. le_reset (snd it) > now) (wl_items l),
          wl_nextCleanup := now + (if interval \<le> 0 then minute else interval)\<rparr>)
      else l)"

definition zero_entry :: limiter_entry where
  "zero_entry = \<lparr>le_count = 0, le_reset = zero_time\<rparr>"

definition Allow :: "window_limiter \<Rightarrow> time \<Rightarrow> string \<Rightarrow> bool \<times> window_limiter" where
  "Allow l0 now key =
     (let l = limiter_cleanup l0 now;
          found = map_of (wl_items l) key;
          entry0 = (case found of None \<Rightarrow> zero_entry | Some e \<Rightarrow> e) in
      if found = None \<and> wl_maxItems l \<le> length (wl_items l) then (False, l)
      else
        (let entry1 = (if le_reset entry0 < now then \<lparr>le_count = 0, le_reset = now + wl_window l\<rparr> else entry0);
             entry = entry1\<lparr>le_count := le_count entry1 + 1\<rparr> in
         (le_count entry \<le> wl_limit l, l\<lparr>wl_items := AList.update key entry (wl_items l)\<rparr>)))"

text \<open>A history of calls: the instants at which a key was let through, newest latest.\<close>

type_synonym limiter_call = "time \<times> string"

fun limiter_run :: "window_limiter \<Rightarrow> limiter_call list \<Rightarrow> (limiter_call \<times> bool) list \<times> window_limiter" where
  "limiter_run l [] = ([], l)"
| "limiter_run l ((now, key) # calls) =
     (case Allow l now key of (ok, l1) \<Rightarrow>
        (case limiter_run l1 calls of (rs, l2) \<Rightarrow> (((now, key), ok) # rs, l2)))"

definition passed :: "string \<Rightarrow> (limiter_call \<times> bool) list \<Rightarrow> time list" where
  "passed key rs = map (\<lambda>r. fst (fst r)) (filter (\<lambda>r. snd (fst r) = key \<and> snd r) rs)"

definition within :: "time \<Rightarrow> duration \<Rightarrow> time list \<Rightarrow> nat" where
  "within u d ts = length (filter (\<lambda>t. u \<le> t \<and> t < u + d) ts)"

subsection \<open>Bounded memory\<close>

lemma cleanup_same [simp]:
  "wl_limit (limiter_cleanup l now) = wl_limit l" "wl_window (limiter_cleanup l now) = wl_window l"
  "wl_maxItems (limiter_cleanup l now) = wl_maxItems l"
  by (simp_all add: limiter_cleanup_def Let_def)

definition limiter_ok :: "window_limiter \<Rightarrow> bool" where
  "limiter_ok l \<longleftrightarrow> distinct (map fst (wl_items l)) \<and> length (wl_items l) \<le> wl_maxItems l"

lemma filter_keys_distinct: "distinct (map fst xs) \<Longrightarrow> distinct (map fst (filter P xs))"
  by (induction xs) auto

lemma length_AList_update: "distinct (map fst xs) \<Longrightarrow>
    length (AList.update k v xs) = (if map_of xs k = None then Suc (length xs) else length xs)"
  by (induction xs) (force simp: map_of_eq_None_iff)+

lemma cleanup_ok: "limiter_ok l \<Longrightarrow> limiter_ok (limiter_cleanup l now)"
  by (auto simp: limiter_ok_def limiter_cleanup_def Let_def filter_keys_distinct intro: le_trans [OF length_filter_le])

lemma Allow_ok: "limiter_ok l \<Longrightarrow> limiter_ok (snd (Allow l now key))"
proof -
  assume "limiter_ok l"
  then have c: "limiter_ok (limiter_cleanup l now)" by (rule cleanup_ok)
  show ?thesis
    using c by (auto simp: Allow_def Let_def limiter_ok_def length_AList_update distinct_update)
qed

lemma limiter_run_ok: "limiter_ok l \<Longrightarrow> limiter_ok (snd (limiter_run l calls))"
proof (induction calls arbitrary: l)
  case (Cons c calls)
  obtain now key where c: "c = (now, key)" by fastforce
  obtain b l1 where a: "Allow l now key = (b, l1)" by fastforce
  from Allow_ok [OF Cons.prems, of now key] a have "limiter_ok l1" by simp
  from Cons.IH [OF this] show ?case by (cases "limiter_run l1 calls") (simp add: c a)
qed simp

subsection \<open>How many requests pass\<close>

text \<open>
  The invariant of a history for one key: the calls since the key's window began, at \<open>s\<close>, let at most
  the limit through, and so did the calls of the window before.
\<close>

definition window_inv :: "window_limiter \<Rightarrow> string \<Rightarrow> time \<Rightarrow> time list \<Rightarrow> time list \<Rightarrow> time \<Rightarrow> bool" where
  "window_inv l key s old cur latest \<longleftrightarrow>
     (\<forall>t \<in> set old. t \<le> s) \<and> (\<forall>t \<in> set cur. s \<le> t) \<and> (\<forall>t \<in> set (old @ cur). t \<le> latest) \<and>
     length (filter (\<lambda>t. s - wl_window l < t) old) \<le> nat (wl_limit l) \<and> length cur \<le> nat (wl_limit l) \<and>
     (case map_of (wl_items l) key of
        None \<Rightarrow> old @ cur = [] \<or> s + wl_window l \<le> latest
      | Some e \<Rightarrow> le_reset e = s + wl_window l \<and> s \<le> latest \<and> int (length cur) = min (le_count e) (wl_limit l) \<and> 0 < le_count e)"

definition span_inv :: "window_limiter \<Rightarrow> time list \<Rightarrow> bool" where
  "span_inv l ts \<longleftrightarrow> (\<forall>u. within u (wl_window l) ts \<le> 2 * nat (wl_limit l))"

lemma within_append: "within u d (xs @ ys) = within u d xs + within u d ys"
  by (simp add: within_def)

lemma within_le: "(\<And>t. t \<in> set xs \<Longrightarrow> u \<le> t \<Longrightarrow> t < u + d \<Longrightarrow> P t) \<Longrightarrow> within u d xs \<le> length (filter P xs)"
  unfolding within_def by (induction xs) force+

lemma length_filter_all: "\<forall>t \<in> set xs. \<not> P t \<Longrightarrow> length (filter P xs) = 0"
  by simp

text \<open>Dropping expired entries keeps the invariant.\<close>

lemma map_of_filter: "distinct (map fst xs) \<Longrightarrow>
    map_of (filter (\<lambda>it. P (snd it)) xs) k = (case map_of xs k of None \<Rightarrow> None | Some e \<Rightarrow> if P e then Some e else None)"
  by (induction xs) (auto simp: map_of_eq_None_iff split: option.splits if_splits dest: map_of_SomeD)

lemma window_inv_times: "window_inv l key s old cur latest \<Longrightarrow> latest \<le> now \<Longrightarrow> \<forall>t \<in> set (old @ cur). t \<le> now"
  unfolding window_inv_def by (meson order_trans)

lemma cleanup_window:
  assumes "window_inv l key s old cur latest" and "limiter_ok l" and "latest \<le> now"
  shows "window_inv (limiter_cleanup l now) key s old cur now"
proof (cases "is_zero_time (wl_nextCleanup l) \<or> \<not> now < wl_nextCleanup l")
  case True
  then have items: "wl_items (limiter_cleanup l now) = filter (\<lambda>it. now < le_reset (snd it)) (wl_items l)"
    by (simp add: limiter_cleanup_def Let_def)
  have d: "distinct (map fst (wl_items l))" using assms(2) by (simp add: limiter_ok_def)
  have rest: "\<forall>t \<in> set (old @ cur). t \<le> now" by (rule window_inv_times [OF assms(1,3)])
  show ?thesis
  proof (cases "map_of (wl_items l) key")
    case None
    then show ?thesis using assms(1,3) rest by (simp add: window_inv_def items map_of_filter [OF d, of "\<lambda>e. now < le_reset e"]) linarith
  next
    case (Some e)
    then show ?thesis using assms(1,3) rest
      by (simp add: window_inv_def items map_of_filter [OF d, of "\<lambda>e. now < le_reset e"])
  qed
next
  case False
  then have "limiter_cleanup l now = l" by (auto simp: limiter_cleanup_def)
  moreover have "\<forall>t \<in> set (old @ cur). t \<le> now" by (rule window_inv_times [OF assms(1,3)])
  ultimately show ?thesis using assms(1,3) by (cases "map_of (wl_items l) key") (simp_all add: window_inv_def, linarith)
qed

lemma next_call:
  assumes inv: "window_inv l key s old cur now" and span: "span_inv l (old @ cur)" and w: "0 < wl_window l" and lim: "0 \<le> wl_limit l"
    and call: "entry0 = (case map_of (wl_items l) key of None \<Rightarrow> zero_entry | Some e \<Rightarrow> e)" and now: "zero_time < now"
    and e1: "entry1 = (if le_reset entry0 < now then \<lparr>le_count = 0, le_reset = now + wl_window l\<rparr> else entry0)"
    and l': "l' = l\<lparr>wl_items := AList.update key (entry1\<lparr>le_count := le_count entry1 + 1\<rparr>) (wl_items l)\<rparr>"
    and ok: "ok = (le_count entry1 + 1 \<le> wl_limit l)"
  shows "\<exists>s' old' cur'. window_inv l' key s' old' cur' now \<and> old' @ cur' = old @ cur @ (if ok then [now] else []) \<and> span_inv l' (old' @ cur')"
proof -
  let ?d = "wl_window l" and ?n = "nat (wl_limit l)"
  let ?new = "if ok then [now] else []"
  have facts: "\<forall>t \<in> set old. t \<le> s" "\<forall>t \<in> set cur. s \<le> t" "\<forall>t \<in> set (old @ cur). t \<le> now"
      "length (filter (\<lambda>t. s - ?d < t) old) \<le> ?n" "length cur \<le> ?n" using inv by (auto simp: window_inv_def)
  have found: "map_of (wl_items l') key = Some (entry1\<lparr>le_count := le_count entry1 + 1\<rparr>)" by (simp add: l' update_conv)
  have same: "wl_window l' = ?d" "wl_limit l' = wl_limit l" by (simp_all add: l')
  show ?thesis
  proof (cases "le_reset entry0 < now")
    case True
    have gap: "old @ cur = [] \<or> s + ?d \<le> now"
      using inv True call by (auto simp: window_inv_def split: option.splits)
    have one: "length ?new \<le> ?n" "int (length ?new) = min (le_count entry1 + 1) (wl_limit l)"
      using True e1 ok lim by auto
    have prev: "length (filter (\<lambda>t. now - ?d < t) (old @ cur)) \<le> ?n"
    proof (cases "old @ cur = []")
      case False
      with gap have g: "s + ?d \<le> now" by blast
      then have "filter (\<lambda>t. now - ?d < t) old = []" using facts(1) by (auto simp: filter_empty_conv)
      then show ?thesis using facts(5) by (simp add: le_trans [OF length_filter_le])
    qed simp
    have inv': "window_inv l' key now (old @ cur) ?new now"
      unfolding window_inv_def found same using facts(3) prev one True e1 by auto
    have "within u ?d (old @ cur @ ?new) \<le> 2 * ?n" for u
    proof (cases "u \<le> now \<and> now < u + ?d")
      case True
      have "within u ?d (old @ cur) \<le> ?n"
        by (rule le_trans [OF within_le prev]) (use True in simp)
      moreover have "within u ?d ?new \<le> ?n" using one(1) by (simp add: within_def le_trans [OF length_filter_le])
      ultimately show ?thesis by (simp add: within_append)
    next
      case False
      then have "within u ?d ?new = 0" by (auto simp: within_def)
      then show ?thesis using span by (simp add: span_inv_def within_append)
    qed
    then have "span_inv l' ((old @ cur) @ ?new)" by (simp add: span_inv_def same)
    with inv' show ?thesis by (intro exI [of _ now] exI [of _ "old @ cur"] exI [of _ ?new]) simp
  next
    case False
    then obtain e where e: "map_of (wl_items l) key = Some e" "entry0 = e"
      using call now by (cases "map_of (wl_items l) key") (auto simp: zero_entry_def)
    have e1': "entry1 = e" using False e1 e by simp
    have r: "le_reset e = s + ?d" "s \<le> now" "int (length cur) = min (le_count e) (wl_limit l)" "0 < le_count e"
      using inv e by (auto simp: window_inv_def)
    have until: "now \<le> s + ?d" using False r e by simp
    have cnt: "int (length (cur @ ?new)) = min (le_count e + 1) (wl_limit l)" using r(3) ok e1' by auto
    then have len: "length (cur @ ?new) \<le> ?n" by linarith
    have inv': "window_inv l' key s old (cur @ ?new) now"
      unfolding window_inv_def found same using facts r cnt len e1' by auto
    have "within u ?d (old @ cur @ ?new) \<le> 2 * ?n" for u
    proof (cases "u \<le> now \<and> now < u + ?d")
      case True
      have "within u ?d old \<le> ?n" by (rule le_trans [OF within_le facts(4)]) (use True r(2) in simp)
      moreover have "within u ?d (cur @ ?new) \<le> ?n" unfolding within_def by (rule le_trans [OF length_filter_le len])
      ultimately show ?thesis by (simp add: within_append)
    next
      case False
      then have "within u ?d ?new = 0" by (auto simp: within_def)
      then show ?thesis using span by (simp add: span_inv_def within_append)
    qed
    then have "span_inv l' (old @ cur @ ?new)" by (simp add: span_inv_def same)
    with inv' show ?thesis by (intro exI [of _ s] exI [of _ old] exI [of _ "cur @ ?new"]) simp
  qed
qed

text \<open>A call for another key changes nothing for this one.\<close>

lemma other_call:
  "key' \<noteq> key \<Longrightarrow> window_inv l key s old cur now \<Longrightarrow> window_inv (l\<lparr>wl_items := AList.update key' e (wl_items l)\<rparr>) key s old cur now"
  by (auto simp: window_inv_def update_conv split: option.splits)

lemma Allow_window:
  assumes inv: "window_inv l key s old cur latest" "span_inv l (old @ cur)" and ok: "limiter_ok l" and "latest \<le> now" "zero_time < now"
    and w: "0 < wl_window l" "0 \<le> wl_limit l" and call: "Allow l now k = (b, l')"
  shows "\<exists>s' old' cur'. window_inv l' key s' old' cur' now \<and>
     old' @ cur' = old @ cur @ (if k = key \<and> b then [now] else []) \<and> span_inv l' (old' @ cur')"
proof -
  define l1 where "l1 = limiter_cleanup l now"
  define e0 where "e0 = (case map_of (wl_items l1) k of None \<Rightarrow> zero_entry | Some e \<Rightarrow> e)"
  define e1 where "e1 = (if le_reset e0 < now then \<lparr>le_count = 0, le_reset = now + wl_window l1\<rparr> else e0)"
  define l2 where "l2 = l1\<lparr>wl_items := AList.update k (e1\<lparr>le_count := le_count e1 + 1\<rparr>) (wl_items l1)\<rparr>"
  have c: "window_inv l1 key s old cur now" unfolding l1_def by (rule cleanup_window [OF inv(1) ok assms(4)])
  have sp: "span_inv l1 (old @ cur)" using inv(2) by (simp add: span_inv_def l1_def)
  have w1: "0 < wl_window l1" "0 \<le> wl_limit l1" using w by (simp_all add: l1_def)
  have "Allow l now k = (if map_of (wl_items l1) k = None \<and> wl_maxItems l1 \<le> length (wl_items l1) then (False, l1)
      else (le_count e1 + 1 \<le> wl_limit l1, l2))"
    by (simp add: Allow_def Let_def l1_def e0_def e1_def l2_def)
  with call consider (full) "b = False" "l' = l1" | (counted) "b = (le_count e1 + 1 \<le> wl_limit l1)" "l' = l2"
    by (auto split: if_splits)
  then show ?thesis
  proof cases
    case full
    with c sp show ?thesis by (intro exI [of _ s] exI [of _ old] exI [of _ cur]) simp
  next
    case counted
    show ?thesis
    proof (cases "k = key")
      case True
      have e0': "e0 = (case map_of (wl_items l1) key of None \<Rightarrow> zero_entry | Some e \<Rightarrow> e)" by (simp add: e0_def True)
      from next_call [OF c sp w1 e0' assms(5) e1_def l2_def [unfolded True] counted(1)] True counted(2) show ?thesis by simp
    next
      case False
      have "window_inv l2 key s old cur now" unfolding l2_def by (rule other_call [OF False c])
      moreover have "span_inv l2 (old @ cur)" using sp by (simp add: span_inv_def l2_def)
      ultimately show ?thesis using False counted(2) by (intro exI [of _ s] exI [of _ old] exI [of _ cur]) simp
    qed
  qed
qed

lemma Allow_same: "Allow l now k = (b, l') \<Longrightarrow> wl_limit l' = wl_limit l \<and> wl_window l' = wl_window l"
  by (auto simp: Allow_def Let_def split: if_splits)

lemma run_window:
  assumes "limiter_run l calls = (rs, l')" and "window_inv l key s old cur latest" "span_inv l (old @ cur)" and "limiter_ok l"
    and "sorted (latest # map fst calls)" and "zero_time < latest" and w: "0 < wl_window l" "0 \<le> wl_limit l"
  shows "span_inv l (old @ cur @ passed key rs)"
  using assms
proof (induction calls arbitrary: l rs l' s old cur latest)
  case Nil
  then show ?case by (simp add: passed_def)
next
  case (Cons c calls)
  obtain now k where c: "c = (now, k)" by fastforce
  obtain b l1 where a: "Allow l now k = (b, l1)" by fastforce
  obtain rs1 l2 where r: "limiter_run l1 calls = (rs1, l2)" by fastforce
  have rs: "rs = ((now, k), b) # rs1" using Cons.prems(1) c a r by simp
  have now: "latest \<le> now" "zero_time < now" "sorted (now # map fst calls)" using Cons.prems(5,6) c by auto
  from Allow_window [OF Cons.prems(2,3,4) now(1,2) Cons.prems(7,8) a] obtain s' old' cur' where
    i: "window_inv l1 key s' old' cur' now" "old' @ cur' = old @ cur @ (if k = key \<and> b then [now] else [])" "span_inv l1 (old' @ cur')" by blast
  have ok: "limiter_ok l1" using Allow_ok [OF Cons.prems(4), of now k] a by simp
  have e: "wl_limit l1 = wl_limit l" "wl_window l1 = wl_window l" using Allow_same [OF a] by simp_all
  from Cons.IH [OF r i(1,3) ok now(3,2)] Cons.prems(7,8) have "span_inv l1 (old' @ cur' @ passed key rs1)" by (simp add: e)
  moreover have "old' @ cur' @ passed key rs1 = old @ cur @ passed key rs"
    using i(2) by (simp add: rs passed_def append_assoc [symmetric] del: append_assoc)
  ultimately show ?case by (simp add: span_inv_def e)
qed



lemma limiter_run_items: "wl_maxItems (snd (limiter_run l calls)) = wl_maxItems l"
proof (induction calls arbitrary: l)
  case (Cons c calls)
  obtain now key where c: "c = (now, key)" by fastforce
  have "wl_maxItems (snd (Allow l now key)) = wl_maxItems l" by (simp add: Allow_def Let_def split: option.split)
  with Cons.IH [of "snd (Allow l now key)"] show ?case by (auto simp: c split: prod.split)
qed simp

text \<open>The limiter's table never grows beyond 8192 keys, whoever asks: a key that it does not know is
  refused while the table is full.\<close>

theorem limiter_table_bounded: "length (wl_items (snd (limiter_run (newWindowLimiter limit window) calls))) \<le> 8192"
proof -
  have "limiter_ok (newWindowLimiter limit window)" by (simp add: limiter_ok_def newWindowLimiter_def)
  from limiter_run_ok [OF this, of calls] show ?thesis
    using limiter_run_items [of "newWindowLimiter limit window" calls] by (simp add: limiter_ok_def newWindowLimiter_def)
qed

end
