(* ===== verification/MailWindow.thy ===== *)
theory MailWindow
  imports MailTables
begin

section \<open>Which messages a synchronisation reads (internal/mail/archive\_fetcher\_v2.go)\<close>

text \<open>
  The account's cursor is the largest UID that has been handled. A synchronisation looks for the
  messages after it in a window of bounded size, found by sequence numbers, since UIDs can be sparse.
  Other clients expunge messages and new mail arrives between two commands, which moves sequence
  numbers; sentinels at the two ends of the window detect this.

  The IMAP client library is a parameter: \<open>srv_fetch srv k first final\<close> is what the session's command
  number \<open>k\<close> streams for \<open>FETCH first:final\<close>, with whether the command ended well, and \<open>srv_search\<close>
  answers a search for a range of UIDs; the other fields answer the commands for single messages. An operation takes the number of the next command and returns it
  advanced. UIDs and sequence numbers are unsigned 32-bit values, written as \<open>int\<close> and \<open>nat\<close>.
\<close>

subsection \<open>A session\<close>

datatype fetch_error =
    FeInvalid | FeRange | FeTooMany | FeMessage | FeDuplicate | FeServer | FeUnstable | FeCursor | FeLimit
  | FeBoundary | FeBeyond | FeEmpty | FeConfig | FeAlias | FeSnapshot | FeMailbox | FeContent | FePanic

type_synonym 'a session_op = "nat \<Rightarrow> (fetch_error + 'a) \<times> nat"

definition ret :: "'a \<Rightarrow> 'a session_op" where
  "ret x k = (Inr x, k)"

definition fail :: "fetch_error \<Rightarrow> 'a session_op" where
  "fail e k = (Inl e, k)"

definition andthen :: "'a session_op \<Rightarrow> ('a \<Rightarrow> 'b session_op) \<Rightarrow> 'b session_op" where
  "andthen m f k = (case m k of (Inl e, k') \<Rightarrow> (Inl e, k') | (Inr x, k') \<Rightarrow> f x k')"

record sequence_message =
  sq_sequence :: nat
  sq_uid :: int
  sq_seen :: bool

text \<open>A literal with its declared size; its bytes may be fewer when the transfer breaks off.\<close>

record imap_literal =
  lt_size :: int
  lt_bytes :: string
  lt_complete :: bool

text \<open>One message of a \<open>UID FETCH\<close>: the items that the server sent, absent ones at the zero of their type.\<close>

record fetched_item =
  fi_uid :: int
  fi_date :: time
  fi_rawSize :: "int option"
  fi_seen :: bool
  fi_literal :: "imap_literal option"

record selected_mailbox =
  sm_UIDValidity :: int
  sm_UIDNext :: int
  sm_NumMessages :: nat

record imap_server =
  srv_select :: "selected_mailbox option"
  srv_fetch :: "nat \<Rightarrow> nat \<Rightarrow> nat \<Rightarrow> sequence_message list \<times> bool"
  srv_search :: "nat \<Rightarrow> int \<Rightarrow> int \<Rightarrow> int list option"
  srv_uids :: "nat \<Rightarrow> int list \<Rightarrow> int list \<times> bool"
  srv_headers :: "nat \<Rightarrow> int list \<Rightarrow> fetched_item list \<times> bool"
  srv_content :: "nat \<Rightarrow> int \<Rightarrow> fetched_item list \<times> bool"

subsection \<open>Reading a range of sequence numbers\<close>

definition defaultMaxCandidates :: nat where "defaultMaxCandidates = 1024"
definition maxSequenceFetchMessages :: nat where "maxSequenceFetchMessages = defaultMaxCandidates + 1"

fun check_stream :: "nat \<Rightarrow> nat \<Rightarrow> nat list \<Rightarrow> int list \<Rightarrow> sequence_message list \<Rightarrow> fetch_error option" where
  "check_stream first final seqs uids [] = None"
| "check_stream first final seqs uids (m # ms) =
     (if sq_sequence m < first \<or> sq_sequence m > final \<or> sq_uid m = 0 then Some FeMessage
      else if sq_sequence m \<in> set seqs then Some FeDuplicate
      else if sq_uid m \<in> set uids then Some FeDuplicate
      else check_stream first final (sq_sequence m # seqs) (sq_uid m # uids) ms)"

fun consecutive :: "nat \<Rightarrow> int option \<Rightarrow> sequence_message list \<Rightarrow> bool" where
  "consecutive n prev [] \<longleftrightarrow> True"
| "consecutive n prev (m # ms) \<longleftrightarrow>
     sq_sequence m = n \<and> (case prev of None \<Rightarrow> True | Some u \<Rightarrow> u < sq_uid m) \<and> consecutive (n + 1) (Some (sq_uid m)) ms"

definition fetchArchiveSequenceRange :: "imap_server \<Rightarrow> nat \<Rightarrow> nat \<Rightarrow> sequence_message list session_op" where
  "fetchArchiveSequenceRange srv first final k =
     (if first = 0 \<or> final < first then (Inl FeRange, k)
      else if final - first + 1 > maxSequenceFetchMessages then (Inl FeTooMany, k)
      else (case srv_fetch srv k first final of
              (ms, closed) \<Rightarrow>
                (case check_stream first final [] [] ms of
                   Some e \<Rightarrow> (Inl e, Suc k)
                 | None \<Rightarrow>
                     if \<not> closed then (Inl FeServer, Suc k)
                     else (let messages = sort_key sq_sequence ms in
                       if length messages \<noteq> final - first + 1 \<or> \<not> consecutive first None messages then (Inl FeUnstable, Suc k)
                       else (Inr messages, Suc k)))))"

definition fetchArchiveSequenceUIDs :: "imap_server \<Rightarrow> nat \<Rightarrow> nat \<Rightarrow> int list session_op" where
  "fetchArchiveSequenceUIDs srv first final = andthen (fetchArchiveSequenceRange srv first final) (\<lambda>ms. ret (map sq_uid ms))"

subsection \<open>The first sequence number after the cursor\<close>

definition probe :: "imap_server \<Rightarrow> int \<Rightarrow> nat \<Rightarrow> int session_op" where
  "probe srv upperUID sequence =
     andthen (fetchArchiveSequenceUIDs srv sequence sequence) (\<lambda>uids.
       (case uids of
          [uid] \<Rightarrow> if uid > upperUID then fail FeBeyond else ret uid
        | _ \<Rightarrow> fail FeUnstable))"

function bisect :: "imap_server \<Rightarrow> int \<Rightarrow> int \<Rightarrow> nat \<Rightarrow> nat \<Rightarrow> nat session_op" where
  "bisect srv lastUID upperUID low high k =
     (if low < high then
        (case probe srv upperUID (low + (high - low) div 2) k of
           (Inl e, k') \<Rightarrow> (Inl e, k')
         | (Inr uid, k') \<Rightarrow>
             if uid \<le> lastUID then bisect srv lastUID upperUID (low + (high - low) div 2 + 1) high k'
             else bisect srv lastUID upperUID low (low + (high - low) div 2) k')
      else (Inr low, k))"
  by pat_completeness auto

termination by (relation "measure (\<lambda>(srv, lastUID, upperUID, low, high, k). high - low)") auto

declare bisect.simps [simp del]

definition findArchiveFirstSequenceAfterUID :: "imap_server \<Rightarrow> nat \<Rightarrow> int \<Rightarrow> int \<Rightarrow> nat session_op" where
  "findArchiveFirstSequenceAfterUID srv numMessages lastUID upperUID =
     (if numMessages = 0 then ret 1
      else (let guess = min (nat lastUID + 1) numMessages in
        andthen (probe srv upperUID guess) (\<lambda>uid.
          if uid = (lastUID + 1) mod 4294967296 then ret guess
          else if uid \<le> lastUID then bisect srv lastUID upperUID (guess + 1) (numMessages + 1)
          else bisect srv lastUID upperUID 1 guess)))"

subsection \<open>The window after the cursor\<close>

definition validateArchiveUIDSearch :: "int list \<Rightarrow> int \<Rightarrow> int \<Rightarrow> fetch_error + int list" where
  "validateArchiveUIDSearch discovered lastUID upperUID =
     (if list_ex (\<lambda>u. u \<le> lastUID \<or> u > upperUID) discovered \<or> \<not> distinct discovered then Inl FeMessage
      else Inr (sort discovered))"

text \<open>The check of the sequence after the window, when there is one: its UID, read again by the second call.\<close>

definition trailing_uid :: "imap_server \<Rightarrow> nat \<Rightarrow> int session_op" where
  "trailing_uid srv sequence =
     (if sequence = 0 then ret 0 else andthen (fetchArchiveSequenceUIDs srv sequence sequence) (\<lambda>uids. ret (hd uids)))"

text \<open>The window from the first sequence number after the cursor, between its sentinels.\<close>

definition read_window :: "imap_server \<Rightarrow> nat \<Rightarrow> int \<Rightarrow> int \<Rightarrow> int \<Rightarrow> nat \<Rightarrow> (int list \<times> bool \<times> int) session_op" where
  "read_window srv numMessages lastUID upperUID limit first =
     (let rangeFirst = (if first > 1 then first - 1 else first);
          rangeLast = (if limit < int (numMessages - first + 1) then first + nat limit - 1 else numMessages);
          trailingSequence = (if rangeLast < numMessages then rangeLast + 1 else 0) in
      andthen (trailing_uid srv trailingSequence) (\<lambda>trailing.
      andthen (fetchArchiveSequenceRange srv rangeFirst rangeLast) (\<lambda>discovered.
      andthen (trailing_uid srv trailingSequence) (\<lambda>again.
        if again \<noteq> trailing then fail FeUnstable
        else if discovered = [] then fail FeEmpty
        else if first > 1 \<and> sq_uid (hd discovered) > lastUID then fail FeBoundary
        else andthen (fetchArchiveSequenceUIDs srv rangeFirst rangeFirst) (\<lambda>leading.
          if leading \<noteq> [sq_uid (hd discovered)] then fail FeBoundary
          else (let batch = (if first > 1 then tl discovered else discovered) in
            if batch = [] then fail FeEmpty
            else if list_ex (\<lambda>m. sq_uid m \<le> lastUID \<or> sq_uid m > upperUID) batch then fail FeMessage
            else ret (map sq_uid batch, rangeLast < numMessages,
                   if rangeLast < numMessages then sq_uid (last batch) else upperUID)))))))"

definition discoverArchiveUIDs ::
  "imap_server \<Rightarrow> nat \<Rightarrow> int \<Rightarrow> int \<Rightarrow> int \<Rightarrow> (int list \<times> bool \<times> int) session_op" where
  "discoverArchiveUIDs srv numMessages lastUID upperUID limit =
     (if limit < 1 then fail FeLimit
      else if lastUID > upperUID then fail FeCursor
      else if lastUID = upperUID then ret ([], False, upperUID)
      else if numMessages = 0 then ret ([], False, upperUID)
      else if upperUID - lastUID \<le> limit then
        (\<lambda>k. case srv_search srv k (lastUID + 1) upperUID of
                None \<Rightarrow> (Inl FeServer, Suc k)
              | Some found \<Rightarrow>
                  (case validateArchiveUIDSearch found lastUID upperUID of
                     Inl e \<Rightarrow> (Inl e, Suc k) | Inr uids \<Rightarrow> (Inr (uids, False, upperUID), Suc k)))
      else andthen (findArchiveFirstSequenceAfterUID srv numMessages lastUID upperUID) (\<lambda>first.
        if first > numMessages then ret ([], False, upperUID)
        else read_window srv numMessages lastUID upperUID limit first))"

subsection \<open>The cursor of a new mailbox generation\<close>

definition establishArchiveRecentCursor :: "imap_server \<Rightarrow> nat \<Rightarrow> int \<Rightarrow> int \<Rightarrow> (int \<times> bool) session_op" where
  "establishArchiveRecentCursor srv numMessages upperUID limit =
     (if limit < 1 then fail FeLimit
      else if numMessages = 0 then ret (upperUID, False)
      else if int numMessages \<le> limit then ret (0, True)
      else andthen (fetchArchiveSequenceUIDs srv numMessages numMessages) (\<lambda>tailBefore.
        if length tailBefore \<noteq> 1 \<or> hd tailBefore = 0 \<or> hd tailBefore > upperUID then fail FeUnstable
        else (let boundarySequence = numMessages - nat limit in
          andthen (fetchArchiveSequenceUIDs srv boundarySequence boundarySequence) (\<lambda>boundary.
            if length boundary \<noteq> 1 \<or> hd boundary = 0 \<or> hd boundary \<ge> hd tailBefore then fail FeBoundary
            else andthen (fetchArchiveSequenceUIDs srv numMessages numMessages) (\<lambda>tailAfter.
              if length tailAfter \<noteq> 1 \<or> hd tailAfter \<noteq> hd tailBefore then fail FeUnstable
              else ret (hd boundary, True))))))"

end
