(* ===== verification/MailFetch.thy ===== *)
theory MailFetch
  imports MailWindow MailSync Recipients
begin

section \<open>Reading new messages (internal/mail/fetcher.go, archive\_fetcher\_v2.go)\<close>

text \<open>
  One synchronisation of an account: the checks before the connection, the choice of the window, the
  headers of the window's messages with their classification, the content of those that belong to an
  alias, and the check of the legacy snapshots, composed into the result that the store publishes.

  Parameters are the parsers of \<open>net/mail\<close> and of the MIME structure, the extraction of one-time codes with
  its library arguments applied, the digest, and the staging of a literal in a temporary file, which
  gives the path or fails. \<open>fe_now\<close> is the clock. Timeouts and the limits of the body
  parsers are not in the settings: they only matter inside the parameters.
\<close>

subsection \<open>Values\<close>

record parsed_message =
  pm_messageID :: string
  pm_headerDate :: "time option"
  pm_from :: "mail_address list"
  pm_to :: "mail_address list"
  pm_cc :: "mail_address list"
  pm_subject :: string
  pm_textBody :: string
  pm_htmlBody :: string
  pm_attachments :: "attachment list"
  pm_bodyTruncated :: bool

record archive_candidate =
  cd_uid :: int
  cd_internalDate :: time
  cd_rawSize :: int
  cd_upstreamSeen :: bool
  cd_aliasIDs :: "int list"
  cd_parsed :: parsed_message

record fetcher =
  ft_MaxAliases :: int
  ft_MaxCandidates :: int
  ft_MaxIncrementalCandidates :: int
  ft_MaxHeaderBytes :: int
  ft_MaxMessageBytes :: int
  ft_AllowWeakRecipientHeaders :: bool
  ft_ArchiveTempDir :: string

record fetch_settings =
  se_maxAliases :: int
  se_maxCandidates :: int
  se_maxIncrementalCandidates :: int
  se_maxHeaderBytes :: nat
  se_maxMessageBytes :: int
  se_allowWeakRecipientHeaders :: bool
  se_archiveTempDir :: string

record fetch_env =
  fe_now :: time
  fe_addresses :: address_parser
  fe_headers :: "string \<Rightarrow> mail_header option"
  fe_metadata :: "string \<Rightarrow> parsed_message option"
  fe_message :: "string \<Rightarrow> parsed_message option"
  fe_otp :: "string \<Rightarrow> string \<Rightarrow> string \<Rightarrow> string option"
  fe_digest :: "string \<Rightarrow> string"
  fe_stage :: "nat \<Rightarrow> string option"

text \<open>The exported limits, each within its ceiling; zero or less selects the default.\<close>

definition defaultMaxAliases :: int where "defaultMaxAliases = 1000"
definition defaultMaxIncrementalCandidates :: int where "defaultMaxIncrementalCandidates = 32"
definition maxIncrementalCandidates :: int where "maxIncrementalCandidates = 256"
definition defaultMaxHeaderBytes :: int where "defaultMaxHeaderBytes = 131072"
definition defaultMaxMessageBytes :: int where "defaultMaxMessageBytes = 104857600"

definition settings_of :: "fetcher \<Rightarrow> fetch_settings" where
  "settings_of f =
     \<lparr>se_maxAliases = (if ft_MaxAliases f > 0 then min (ft_MaxAliases f) defaultMaxAliases else defaultMaxAliases),
      se_maxCandidates = (if ft_MaxCandidates f > 0 then min (ft_MaxCandidates f) (int defaultMaxCandidates) else int defaultMaxCandidates),
      se_maxIncrementalCandidates = (if ft_MaxIncrementalCandidates f > 0 then min (ft_MaxIncrementalCandidates f) maxIncrementalCandidates
        else defaultMaxIncrementalCandidates),
      se_maxHeaderBytes = nat (if ft_MaxHeaderBytes f > 0 then ft_MaxHeaderBytes f else defaultMaxHeaderBytes),
      se_maxMessageBytes = (if ft_MaxMessageBytes f > 0 then min (ft_MaxMessageBytes f) defaultMaxMessageBytes else defaultMaxMessageBytes),
      se_allowWeakRecipientHeaders = ft_AllowWeakRecipientHeaders f,
      se_archiveTempDir = trim_space (ft_ArchiveTempDir f)\<rparr>"

subsection \<open>Before the connection\<close>

definition validateIMAPAccount :: "account \<Rightarrow> string \<Rightarrow> fetch_error + unit" where
  "validateIMAPAccount a password = (if \<not> ac_Enabled a \<or> password = [] then Inl FeConfig else Inr ())"

text \<open>The Go map of addresses is the index together with its keys.\<close>

fun prepare_aliases ::
  "address_parser \<Rightarrow> account \<Rightarrow> int \<Rightarrow> mail_alias list \<Rightarrow> int list \<Rightarrow> alias_index \<Rightarrow> string list \<Rightarrow> fetch_error + (alias_index \<times> string list)" where
  "prepare_aliases p account maxAliases [] seenIDs byAddress addressKeys = Inr (byAddress, addressKeys)"
| "prepare_aliases p account maxAliases (a # aliases) seenIDs byAddress addressKeys =
     (if \<not> a_Enabled a then prepare_aliases p account maxAliases aliases seenIDs byAddress addressKeys
      else if a_AccountID a \<noteq> ac_ID account then Inl FeAlias
      else if a_ID a \<le> 0 then Inl FeAlias
      else if a_ID a \<in> set seenIDs then Inl FeAlias
      else if NormalizeMailboxType (ac_MailboxType account) \<noteq> MailboxTypeCustom \<and> maxAliases > 0 \<and> int (length seenIDs) \<ge> maxAliases
        then Inl FeAlias
      else (case normalizeAliasAddress p (a_Address a) of
              None \<Rightarrow> Inl FeAlias
            | Some address \<Rightarrow>
                prepare_aliases p account maxAliases aliases (a_ID a # seenIDs)
                  (byAddress(address \<mapsto> (case byAddress address of None \<Rightarrow> [] | Some ids \<Rightarrow> ids) @ [a_ID a]))
                  (List.insert address addressKeys)))"

definition prepareAliases :: "address_parser \<Rightarrow> account \<Rightarrow> mail_alias list \<Rightarrow> int \<Rightarrow> fetch_error + (alias_index \<times> string list)" where
  "prepareAliases p account aliases maxAliases = prepare_aliases p account maxAliases aliases [] Map.empty []"

definition validateLegacySnapshotPositions :: "mail_alias list \<Rightarrow> (int \<times> snapshot_position) list \<Rightarrow> fetch_error + unit" where
  "validateLegacySnapshotPositions aliases positions =
     (if list_all (\<lambda>(i, p). list_ex (\<lambda>a. a_Enabled a \<and> a_ID a = i) aliases \<and>
            sp_AliasID p = i \<and> sp_UIDValidity p \<noteq> 0 \<and> sp_UID p \<noteq> 0) positions
      then Inr () else Inl FeSnapshot)"

text \<open>The endpoint is only checked here; the connection is part of \<open>srv_select\<close>.\<close>

definition accountEndpoint :: "account \<Rightarrow> fetch_error + string \<times> int \<times> string" where
  "accountEndpoint a =
     (let host0 = (if trim_space (ac_IMAPHost a) = [] then DefaultIMAPHost else ac_IMAPHost a);
          port0 = (if ac_IMAPPort a = 0 then DefaultIMAPPort else ac_IMAPPort a) in
      case NormalizeIMAPEndpoint host0 port0 of
        Inl _ \<Rightarrow> Inl FeConfig
      | Inr (host, port) \<Rightarrow>
          (let username = (if trim_space (ac_IMAPUsername a) = [] then trim_space (ac_Email a) else trim_space (ac_IMAPUsername a)) in
           if username = [] then Inl FeConfig else Inr (host, port, username)))"

subsection \<open>Legacy snapshots\<close>

definition emptyLegacySnapshot :: "int \<Rightarrow> int \<Rightarrow> snapshot_update" where
  "emptyLegacySnapshot aliasID uidValidity =
     \<lparr>su_AliasID = aliasID, su_UIDValidity = uidValidity, su_UID = 0, su_State = SnapshotEmpty\<rparr>"

definition legacySnapshotUpdatesForFoundUIDs ::
  "(int \<times> snapshot_position) list \<Rightarrow> int \<Rightarrow> int list \<Rightarrow> (int \<times> snapshot_update) list" where
  "legacySnapshotUpdatesForFoundUIDs positions uidValidity found =
     concat (map (\<lambda>(i, p). if sp_UIDValidity p \<noteq> uidValidity \<or> sp_UID p \<notin> set found
                          then [(i, emptyLegacySnapshot i uidValidity)] else []) positions)"

fun check_found :: "int list \<Rightarrow> int list \<Rightarrow> int list \<Rightarrow> bool" where
  "check_found requested found [] \<longleftrightarrow> True"
| "check_found requested found (u # us) \<longleftrightarrow>
     u \<in> set requested \<and> u \<noteq> 0 \<and> u \<notin> set found \<and> check_found requested (u # found) us"

definition reconcileLegacySnapshotPositions ::
  "imap_server \<Rightarrow> (int \<times> snapshot_position) list \<Rightarrow> int \<Rightarrow> (int \<times> snapshot_update) list session_op" where
  "reconcileLegacySnapshotPositions srv positions uidValidity k =
     (let requested = remdups (map (\<lambda>e. sp_UID (snd e)) (filter (\<lambda>e. sp_UIDValidity (snd e) = uidValidity) positions)) in
      if requested = [] then (Inr (legacySnapshotUpdatesForFoundUIDs positions uidValidity []), k)
      else (case srv_uids srv k requested of
              (us, closed) \<Rightarrow>
                if \<not> check_found requested [] us then (Inl FeMessage, Suc k)
                else if \<not> closed then (Inl FeServer, Suc k)
                else (Inr (legacySnapshotUpdatesForFoundUIDs positions uidValidity us), Suc k)))"

subsection \<open>Headers and classification\<close>

definition classifyArchiveRecipientAliases ::
  "address_parser \<Rightarrow> mail_header \<Rightarrow> alias_index \<Rightarrow> account \<Rightarrow> bool \<Rightarrow> int list option" where
  "classifyArchiveRecipientAliases p h aliases a allowWeak =
     (let t = NormalizeMailboxType (ac_MailboxType a) in
      if t = MailboxTypeCustom then classifyCustomRecipientAliases p h aliases allowWeak
      else if t = MailboxTypeICloud then classifyICloudRecipientAliases p h aliases a allowWeak
      else None)"

text \<open>The header of a literal, cut at the limit, and whether it was cut; \<open>None\<close> when the transfer failed.\<close>

definition read_header :: "nat \<Rightarrow> imap_literal option \<Rightarrow> (string \<times> bool) option" where
  "read_header maxBytes l =
     (case l of
        None \<Rightarrow> Some ([], False)
      | Some lit \<Rightarrow>
          (let header = take (maxBytes + 1) (lt_bytes lit) in
           if \<not> lt_complete lit \<and> length (lt_bytes lit) \<le> maxBytes then None
           else Some (take maxBytes header, lt_size lit > int maxBytes \<or> length header > maxBytes)))"

text \<open>The candidate of one item, or nothing when its header is cut, empty, malformed or for no alias.\<close>

definition candidate_of :: "fetch_env \<Rightarrow> fetch_settings \<Rightarrow> alias_index \<Rightarrow> account \<Rightarrow> fetched_item \<Rightarrow> string \<Rightarrow> bool \<Rightarrow> archive_candidate option" where
  "candidate_of env settings aliases account item header truncated =
     (if truncated \<or> header = [] then None
      else (case fe_headers env header of
        None \<Rightarrow> None
      | Some h \<Rightarrow>
          (let ids = (case classifyArchiveRecipientAliases (fe_addresses env) h aliases account (se_allowWeakRecipientHeaders settings) of
                        None \<Rightarrow> [] | Some ids \<Rightarrow> ids) in
           if ids = [] then None
           else (case fe_metadata env header of
                   None \<Rightarrow> None
                 | Some m \<Rightarrow> Some \<lparr>cd_uid = fi_uid item, cd_internalDate = (if is_zero_time (fi_date item) then fe_now env else fi_date item),
                     cd_rawSize = (case fi_rawSize item of None \<Rightarrow> 0 | Some n \<Rightarrow> n), cd_upstreamSeen = fi_seen item,
                     cd_aliasIDs = ids, cd_parsed = m\<rparr>))))"

fun candidate_items ::
  "fetch_env \<Rightarrow> fetch_settings \<Rightarrow> alias_index \<Rightarrow> account \<Rightarrow> int list \<Rightarrow> int list \<Rightarrow> fetched_item list \<Rightarrow> fetch_error + archive_candidate list" where
  "candidate_items env settings aliases account requested seen [] = Inr []"
| "candidate_items env settings aliases account requested seen (item # items) =
     (case read_header (se_maxHeaderBytes settings) (fi_literal item) of
        None \<Rightarrow> Inl FeServer
      | Some (header, truncated) \<Rightarrow>
          if fi_uid item \<notin> set requested \<or> fi_uid item = 0 then Inl FeMessage
          else if fi_uid item \<in> set seen then Inl FeDuplicate
          else bind_res (candidate_items env settings aliases account requested (fi_uid item # seen) items) (\<lambda>rest.
            Inr (case candidate_of env settings aliases account item header truncated of None \<Rightarrow> rest | Some c \<Rightarrow> c # rest)))"

definition fetchArchiveCandidateHeaders ::
  "fetch_env \<Rightarrow> fetch_settings \<Rightarrow> imap_server \<Rightarrow> int list \<Rightarrow> alias_index \<Rightarrow> account \<Rightarrow> archive_candidate list session_op" where
  "fetchArchiveCandidateHeaders env settings srv uids aliases account k =
     (case srv_headers srv k uids of
        (items, closed) \<Rightarrow>
          (case candidate_items env settings aliases account uids [] items of
             Inl e \<Rightarrow> (Inl e, Suc k)
           | Inr candidates \<Rightarrow> if \<not> closed then (Inl FeServer, Suc k) else (Inr (sort_key cd_uid candidates), Suc k)))"

subsection \<open>Content\<close>

definition messageExceedsArchiveLimit :: "int \<Rightarrow> int \<Rightarrow> bool" where
  "messageExceedsArchiveLimit n limit \<longleftrightarrow> n > limit"

definition archived_of :: "int \<Rightarrow> int \<Rightarrow> time \<Rightarrow> archive_candidate \<Rightarrow> archived_message" where
  "archived_of account uidValidity syncedAt c =
     (let m = cd_parsed c in
      \<lparr>ar_AccountID = account, ar_UIDValidity = uidValidity, ar_UID = cd_uid c, ar_MessageID = pm_messageID m,
       ar_InternalDate = cd_internalDate c, ar_HeaderDate = pm_headerDate m, ar_From = pm_from m, ar_To = pm_to m, ar_CC = pm_cc m,
       ar_Subject = pm_subject m, ar_TextBody = [], ar_HTMLBody = [], ar_Attachments = [], ar_RawMIME = [], ar_RawMIMEPath = [],
       ar_RawSize = cd_rawSize c, ar_RawSHA256 = [], ar_ContentState = [], ar_OTP = [], ar_AliasIDs = cd_aliasIDs c,
       ar_SyncedAt = syncedAt, ar_BodyTruncated = False, ar_UpstreamSeen = cd_upstreamSeen c\<rparr>)"

definition projectParsedArchiveContent :: "archived_message \<Rightarrow> parsed_message \<Rightarrow> archived_message" where
  "projectParsedArchiveContent a m =
     a\<lparr>ar_MessageID := pm_messageID m, ar_HeaderDate := pm_headerDate m, ar_From := pm_from m, ar_To := pm_to m, ar_CC := pm_cc m,
       ar_Subject := pm_subject m, ar_TextBody := pm_textBody m, ar_HTMLBody := pm_htmlBody m, ar_Attachments := pm_attachments m,
       ar_BodyTruncated := pm_bodyTruncated m\<rparr>"

definition with_otp :: "fetch_env \<Rightarrow> string \<Rightarrow> string \<Rightarrow> string \<Rightarrow> archived_message \<Rightarrow> fetch_error + archived_message" where
  "with_otp env subject textBody htmlBody a =
     (case fe_otp env subject textBody htmlBody of None \<Rightarrow> Inl FePanic | Some otp \<Rightarrow> Inr (a\<lparr>ar_OTP := otp\<rparr>))"

text \<open>The state of the loop over the items of one message: the literal that was staged last, with its path.\<close>

record content_state =
  ct_archived :: archived_message
  ct_literalSize :: "int option"
  ct_staged :: "(string \<times> string) option"

definition content_item ::
  "fetch_env \<Rightarrow> fetch_settings \<Rightarrow> nat \<Rightarrow> int \<Rightarrow> fetched_item \<Rightarrow> content_state \<Rightarrow> fetch_error + content_state" where
  "content_item env settings k uid item s =
     (let a1 = (if is_zero_time (fi_date item) then ct_archived s else (ct_archived s)\<lparr>ar_InternalDate := fi_date item\<rparr>);
          a2 = (case fi_rawSize item of None \<Rightarrow> a1 | Some n \<Rightarrow> a1\<lparr>ar_RawSize := n\<rparr>) in
      bind_res
        (case fi_literal item of
           None \<Rightarrow> Inr (s\<lparr>ct_archived := a2\<rparr>)
         | Some l \<Rightarrow>
             if messageExceedsArchiveLimit (lt_size l) (se_maxMessageBytes settings)
             then Inr (s\<lparr>ct_archived := a2\<lparr>ar_ContentState := ArchiveContentOversized\<rparr>, ct_literalSize := Some (lt_size l)\<rparr>)
             else if \<not> lt_complete l \<or> int (length (lt_bytes l)) \<noteq> lt_size l then Inl FeContent
             else (case fe_stage env k of
                     None \<Rightarrow> Inl FeContent
                   | Some path \<Rightarrow> Inr (s\<lparr>ct_archived := a2, ct_literalSize := Some (lt_size l), ct_staged := Some (path, lt_bytes l)\<rparr>)))
        (\<lambda>s'. if fi_uid item \<noteq> uid then Inl FeMessage else Inr s'))"

definition finish_content :: "fetch_env \<Rightarrow> content_state \<Rightarrow> fetch_error + archived_message" where
  "finish_content env s =
     (case ct_literalSize s of
        None \<Rightarrow> Inl FeContent
      | Some n \<Rightarrow>
          (let a = ct_archived s in
           if ar_ContentState a = ArchiveContentOversized
           then with_otp env (ar_Subject a) [] [] (a\<lparr>ar_RawSize := max (ar_RawSize a) n\<rparr>)
           else (case ct_staged s of
                   None \<Rightarrow> Inl FeContent
                 | Some (path, bytes) \<Rightarrow>
                     (case fe_message env bytes of
                        None \<Rightarrow> Inl FeContent
                      | Some m \<Rightarrow>
                          with_otp env (pm_subject m) (pm_textBody m) (pm_htmlBody m)
                            (projectParsedArchiveContent (a\<lparr>ar_RawMIMEPath := path, ar_RawSize := n,
                               ar_RawSHA256 := fe_digest env bytes, ar_ContentState := ArchiveContentAvailable\<rparr>) m)))))"

definition fetchArchivedMessage ::
  "fetch_env \<Rightarrow> fetch_settings \<Rightarrow> imap_server \<Rightarrow> int \<Rightarrow> int \<Rightarrow> time \<Rightarrow> archive_candidate \<Rightarrow> archived_message session_op" where
  "fetchArchivedMessage env settings srv account uidValidity syncedAt c k =
     (let archived = archived_of account uidValidity syncedAt c in
      if messageExceedsArchiveLimit (cd_rawSize c) (se_maxMessageBytes settings)
      then (with_otp env (ar_Subject archived) [] [] (archived\<lparr>ar_ContentState := ArchiveContentOversized\<rparr>), k)
      else if se_archiveTempDir settings = [] then (Inl FeConfig, k)
      else (case srv_content srv k (cd_uid c) of
              (items, closed) \<Rightarrow>
                (bind_res (fold_res (content_item env settings k (cd_uid c)) items
                    \<lparr>ct_archived = archived, ct_literalSize = None, ct_staged = None\<rparr>) (\<lambda>s.
                  if \<not> closed then Inl FeServer else finish_content env s), Suc k)))"

fun fetch_messages ::
  "fetch_env \<Rightarrow> fetch_settings \<Rightarrow> imap_server \<Rightarrow> int \<Rightarrow> int \<Rightarrow> time \<Rightarrow> archive_candidate list \<Rightarrow> archived_message list session_op" where
  "fetch_messages env settings srv account uidValidity syncedAt [] = ret []"
| "fetch_messages env settings srv account uidValidity syncedAt (c # cs) =
     andthen (fetchArchivedMessage env settings srv account uidValidity syncedAt c) (\<lambda>a.
     andthen (fetch_messages env settings srv account uidValidity syncedAt cs) (\<lambda>as. ret (a # as)))"

subsection \<open>One synchronisation\<close>

definition lift_res :: "fetch_error + 'a \<Rightarrow> 'a session_op" where
  "lift_res r k = (r, k)"

text \<open>The messages and the cursor of the result; \<open>previous\<close> is the stored cursor.\<close>

definition read_mailbox ::
  "fetch_env \<Rightarrow> fetch_settings \<Rightarrow> imap_server \<Rightarrow> account \<Rightarrow> alias_index \<times> string list \<Rightarrow> sync_state option \<Rightarrow> selected_mailbox \<Rightarrow>
     (archived_message list \<times> int \<times> bool) session_op" where
  "read_mailbox env settings srv account byAddress previous mailbox =
     (let upperUID = sm_UIDNext mailbox - 1 in
      if snd byAddress = [] then ret ([], upperUID, False)
      else (case previous of
        Some prev \<Rightarrow>
          if ss_AccountID prev \<noteq> ac_ID account \<or> ss_UIDValidity prev \<noteq> sm_UIDValidity mailbox
          then andthen (establishArchiveRecentCursor srv (sm_NumMessages mailbox) upperUID (se_maxCandidates settings)) (\<lambda>(l, more). ret ([], l, more))
          else if ss_LastUID prev > upperUID then fail FeCursor
          else if ss_LastUID prev = upperUID then ret ([], ss_LastUID prev, False)
          else andthen (discoverArchiveUIDs srv (sm_NumMessages mailbox) (ss_LastUID prev) upperUID (se_maxIncrementalCandidates settings))
            (\<lambda>(uids, more, through).
              if uids = [] then ret ([], through, more)
              else andthen (fetchArchiveCandidateHeaders env settings srv uids (fst byAddress) account) (\<lambda>candidates.
                andthen (fetch_messages env settings srv (ac_ID account) (sm_UIDValidity mailbox) (fe_now env) candidates) (\<lambda>ms.
                  ret (ms, through, more))))
      | None \<Rightarrow>
          andthen (establishArchiveRecentCursor srv (sm_NumMessages mailbox) upperUID (se_maxCandidates settings)) (\<lambda>(l, more). ret ([], l, more))))"

definition fetchArchiveIncremental ::
  "fetch_env \<Rightarrow> fetch_settings \<Rightarrow> imap_server \<Rightarrow> account \<Rightarrow> string \<Rightarrow> mail_alias list \<Rightarrow> sync_state option \<Rightarrow>
     (int \<times> snapshot_position) list \<Rightarrow> sync_result session_op" where
  "fetchArchiveIncremental env settings srv account password aliases previous positions =
     andthen (lift_res (validateIMAPAccount account password)) (\<lambda>_.
     andthen (lift_res (prepareAliases (fe_addresses env) account aliases (se_maxAliases settings))) (\<lambda>byAddress.
     andthen (lift_res (validateLegacySnapshotPositions aliases positions)) (\<lambda>_.
     andthen (lift_res (accountEndpoint account)) (\<lambda>_.
       (case srv_select srv of
          None \<Rightarrow> fail FeServer
        | Some mailbox \<Rightarrow>
            if sm_UIDValidity mailbox = 0 \<or> sm_UIDNext mailbox = 0 then fail FeMailbox
            else andthen (read_mailbox env settings srv account byAddress previous mailbox) (\<lambda>(ms, lastUID, more).
              andthen (reconcileLegacySnapshotPositions srv positions (sm_UIDValidity mailbox)) (\<lambda>updates.
                ret \<lparr>sr_ArchivedMessages = ms, sr_LegacySnapshotUpdates = updates,
                     sr_State = \<lparr>ss_AccountID = ac_ID account, ss_UIDValidity = sm_UIDValidity mailbox, ss_LastUID = lastUID,
                                 ss_UpdatedAt = fe_now env\<rparr>,
                     sr_Reset = (case previous of None \<Rightarrow> True
                        | Some prev \<Rightarrow> ss_AccountID prev \<noteq> ac_ID account \<or> ss_UIDValidity prev \<noteq> sm_UIDValidity mailbox),
                     sr_HasMore = more, sr_TargetUID = sm_UIDNext mailbox - 1\<rparr>)))))))"

end
