(* ===== verification/MailWindowFacts.thy ===== *)
theory MailWindowFacts
  imports MailWindow
begin

section \<open>No message is skipped\<close>

text \<open>
  What a server documents is enough for the window to be complete: every answer agrees with the mailbox
  as it is at that command, UIDs ascend with the sequence numbers, and a UID up to UIDNEXT never appears
  again once it is gone. Nothing else is assumed: messages may be expunged and arrive between any two
  commands, and an answer may be short or out of order.
\<close>

subsection \<open>Operations in sequence\<close>

lemma ret_eq [simp]: "ret x k = r \<longleftrightarrow> r = (Inr x, k)"
  by (auto simp: ret_def)

lemma fail_not_Inr [simp]: "fail e k = (Inr y, k') \<longleftrightarrow> False"
  by (simp add: fail_def)

lemma op_if [simp]: "(if c then f else g :: 'a session_op) k = (if c then f k else g k)"
  by simp

lemma andthen_Inr: "andthen m f k = (Inr y, k'') \<longleftrightarrow> (\<exists>x k'. m k = (Inr x, k') \<and> f x k' = (Inr y, k''))"
  by (auto simp: andthen_def split: prod.splits sum.splits)

subsection \<open>A range that was read\<close>

lemma consecutive_iff: "consecutive n prev ms \<longleftrightarrow> map sq_sequence ms = [n..<n + length ms] \<and> sorted_wrt (<) (map sq_uid ms) \<and>
    (\<forall>u. prev = Some u \<longrightarrow> (\<forall>m \<in> set ms. u < sq_uid m))"
proof (induction n prev ms rule: consecutive.induct)
  case (2 n prev m ms)
  have upt: "[n..<n + length (m # ms)] = n # [Suc n..<Suc n + length ms]" by (simp add: upt_conv_Cons del: upt_Suc)
  show ?case
    unfolding consecutive.simps "2.IH" upt by (cases prev) (auto dest: order.strict_trans)
qed simp

lemma range_read:
  assumes "fetchArchiveSequenceRange srv a b k = (Inr ms, k')"
  shows "k' = Suc k" and "1 \<le> a" and "a \<le> b" and "map sq_sequence ms = [a..<Suc b]" and "sorted_wrt (<) (map sq_uid ms)"
    and "set ms \<subseteq> set (fst (srv_fetch srv k a b))"
proof -
  obtain stream closed where s: "srv_fetch srv k a b = (stream, closed)" by fastforce
  from assms have ok: "1 \<le> a" "a \<le> b" "k' = Suc k" "ms = sort_key sq_sequence stream" "length ms = b - a + 1" "consecutive a None ms"
    by (auto simp: fetchArchiveSequenceRange_def s Let_def split: if_splits option.splits)
  then show "k' = Suc k" "1 \<le> a" "a \<le> b" by simp_all
  have "a + length ms = Suc b" using ok by simp
  then show "map sq_sequence ms = [a..<Suc b]" "sorted_wrt (<) (map sq_uid ms)" using ok(6) by (simp_all add: consecutive_iff)
  show "set ms \<subseteq> set (fst (srv_fetch srv k a b))" by (simp add: ok(4) s)
qed

subsection \<open>The mailbox behind the answers\<close>

definition answers :: "imap_server \<Rightarrow> (nat \<Rightarrow> int list) \<Rightarrow> bool" where
  "answers srv views \<longleftrightarrow>
     (\<forall>k first final. \<forall>m \<in> set (fst (srv_fetch srv k first final)).
        1 \<le> sq_sequence m \<and> sq_sequence m \<le> length (views k) \<and> sq_uid m = views k ! (sq_sequence m - 1)) \<and>
     (\<forall>k a b us. srv_search srv k a b = Some us \<longrightarrow> set us = {u \<in> set (views k). a \<le> u \<and> u \<le> b})"

text \<open>The mailbox at \<open>SELECT\<close> (command \<open>k0\<close>) and what can become of it.\<close>

definition mailbox_views :: "(nat \<Rightarrow> int list) \<Rightarrow> nat \<Rightarrow> nat \<Rightarrow> int \<Rightarrow> bool" where
  "mailbox_views views k0 numMessages upperUID \<longleftrightarrow>
     (\<forall>k. sorted_wrt (<) (views k)) \<and>
     (\<forall>j k. k0 \<le> j \<longrightarrow> j \<le> k \<longrightarrow> (\<forall>u \<in> set (views k). u \<le> upperUID \<longrightarrow> u \<in> set (views j))) \<and>
     length (views k0) = numMessages \<and> (\<forall>u \<in> set (views k0). u \<le> upperUID)"

lemma views_kept: "mailbox_views views k0 n upper \<Longrightarrow> k0 \<le> j \<Longrightarrow> j \<le> k \<Longrightarrow> u \<in> set (views k) \<Longrightarrow> u \<le> upper \<Longrightarrow> u \<in> set (views j)"
  by (auto simp: mailbox_views_def)

lemma sorted_nth_less: "sorted_wrt (<) (v :: int list) \<Longrightarrow> i < length v \<Longrightarrow> j < length v \<Longrightarrow> v ! i < v ! j \<longleftrightarrow> i < j"
  by (metis linorder_neqE_nat order_less_asym order_less_irrefl sorted_wrt_nth_less)

lemma few_old: "mailbox_views views k0 n upper \<Longrightarrow> k0 \<le> k \<Longrightarrow> card {u \<in> set (views k). u \<le> upper} \<le> n"
proof -
  assume m: "mailbox_views views k0 n upper" and k: "k0 \<le> k"
  have "{u \<in> set (views k). u \<le> upper} \<subseteq> set (views k0)" using views_kept [OF m order_refl k] by blast
  then have "card {u \<in> set (views k). u \<le> upper} \<le> card (set (views k0))" by (intro card_mono) simp_all
  also have "\<dots> \<le> length (views k0)" by (rule card_length)
  finally show ?thesis using m by (simp add: mailbox_views_def)
qed

text \<open>From the position \<open>numMessages\<close> on, only new messages can follow.\<close>

lemma only_new_behind:
  assumes m: "mailbox_views views k0 n upper" and k: "k0 \<le> k" and i: "n \<le> i" "i < length (views k)"
  shows "upper < views k ! i"
proof (rule ccontr)
  assume "\<not> upper < views k ! i"
  then have le: "views k ! i \<le> upper" by simp
  have s: "sorted_wrt (<) (views k)" using m by (simp add: mailbox_views_def)
  have "views k ! j \<le> upper" if "j \<le> i" for j
    using that i(2) le sorted_nth_less [OF s, of j i] by (cases "j = i") auto
  then have "set (take (Suc i) (views k)) \<subseteq> {u \<in> set (views k). u \<le> upper}"
    by (auto simp: set_conv_nth less_Suc_eq_le)
  then have "card (set (take (Suc i) (views k))) \<le> card {u \<in> set (views k). u \<le> upper}" by (intro card_mono) simp_all
  also have "\<dots> \<le> n" by (rule few_old [OF m k])
  finally have "card (set (take (Suc i) (views k))) \<le> n" .
  moreover have "distinct (views k)" using s strict_sorted_iff by blast
  ultimately show False using i by (simp add: distinct_card)
qed

lemma range_of_view:
  assumes "answers srv views" and r: "fetchArchiveSequenceRange srv a b k = (Inr ms, k')"
  shows "b \<le> length (views k)" and "map sq_uid ms = map (\<lambda>s. views k ! (s - 1)) [a..<Suc b]"
proof -
  have each: "1 \<le> sq_sequence m \<and> sq_sequence m \<le> length (views k) \<and> sq_uid m = views k ! (sq_sequence m - 1)" if "m \<in> set ms" for m
    using assms(1) range_read(6) [OF r] that by (fastforce simp: answers_def)
  have "b \<in> set (map sq_sequence ms)" unfolding range_read(4) [OF r] using range_read(3) [OF r] by simp
  then show "b \<le> length (views k)" using each by auto
  have "map sq_uid ms = map (\<lambda>m. views k ! (sq_sequence m - 1)) ms" using each by simp
  also have "\<dots> = map (\<lambda>s. views k ! (s - 1)) (map sq_sequence ms)" by simp
  finally show "map sq_uid ms = map (\<lambda>s. views k ! (s - 1)) [a..<Suc b]" unfolding range_read(4) [OF r] .
qed

lemma uid_read:
  assumes "answers srv views" and "fetchArchiveSequenceUIDs srv s s k = (Inr us, k')"
  shows "k' = Suc k" and "1 \<le> s" and "s \<le> length (views k)" and "us = [views k ! (s - 1)]"
proof -
  from assms(2) obtain ms where r: "fetchArchiveSequenceRange srv s s k = (Inr ms, k')" "us = map sq_uid ms"
    by (auto simp: fetchArchiveSequenceUIDs_def andthen_Inr)
  show "k' = Suc k" "1 \<le> s" using range_read(1,2) [OF r(1)] by simp_all
  show "s \<le> length (views k)" "us = [views k ! (s - 1)]" using range_of_view [OF assms(1) r(1)] r(2) by simp_all
qed

lemma probe_Inr: "probe srv upper s k = (Inr u, k') \<longleftrightarrow> fetchArchiveSequenceUIDs srv s s k = (Inr [u], k') \<and> u \<le> upper"
proof -
  obtain r k1 where f: "fetchArchiveSequenceUIDs srv s s k = (r, k1)" by fastforce
  show ?thesis by (cases r) (auto simp: probe_def andthen_def f split: list.splits)
qed

lemma probe_read:
  assumes "answers srv views" and "probe srv upper s k = (Inr u, k')"
  shows "k' = Suc k" and "1 \<le> s" and "s \<le> length (views k)" and "u = views k ! (s - 1)" and "u \<le> upper"
proof -
  from assms(2) have r: "fetchArchiveSequenceUIDs srv s s k = (Inr [u], k')" "u \<le> upper" by (simp_all add: probe_Inr)
  with uid_read [OF assms(1) r(1)] show "k' = Suc k" "1 \<le> s" "s \<le> length (views k)" "u = views k ! (s - 1)" "u \<le> upper" by simp_all
qed

subsection \<open>The search for the first message\<close>

text \<open>A result beyond every sequence number rests on a probe of the last one.\<close>

lemma bisect_found:
  assumes srv: "answers srv views" and "bisect srv lastUID upper low high k = (Inr r, k')" and "low \<le> high"
  shows "low \<le> r \<and> r \<le> high \<and> k \<le> k' \<and>
    (r = low \<or> (\<exists>kk. k \<le> kk \<and> kk < k' \<and> 1 < r \<and> r - 1 \<le> length (views kk) \<and> views kk ! (r - 2) \<le> lastUID))"
  using assms(2,3)
proof (induction "high - low" arbitrary: low high k rule: less_induct)
  case less
  show ?case
  proof (cases "low < high")
    case False
    with less.prems show ?thesis by (subst (asm) bisect.simps) auto
  next
    case True
    let ?mid = "low + (high - low) div 2"
    have mid: "low \<le> ?mid" "?mid < high" using True by auto
    from less.prems(1) True obtain uid k1 where p: "probe srv upper ?mid k = (Inr uid, k1)"
      and rest: "(if uid \<le> lastUID then bisect srv lastUID upper (?mid + 1) high k1 else bisect srv lastUID upper low ?mid k1) = (Inr r, k')"
      by (subst (asm) bisect.simps) (auto split: prod.splits sum.splits)
    note pr = probe_read [OF srv p]
    show ?thesis
    proof (cases "uid \<le> lastUID")
      case True
      with rest have b: "bisect srv lastUID upper (?mid + 1) high k1 = (Inr r, k')" by simp
      have "high - (?mid + 1) < high - low" using mid by linarith
      from less.hyps [OF this b] mid have h: "?mid + 1 \<le> r" "r \<le> high" "k1 \<le> k'"
        "r = ?mid + 1 \<or> (\<exists>kk. k1 \<le> kk \<and> kk < k' \<and> 1 < r \<and> r - 1 \<le> length (views kk) \<and> views kk ! (r - 2) \<le> lastUID)" by auto
      have "\<exists>kk. k \<le> kk \<and> kk < k' \<and> 1 < r \<and> r - 1 \<le> length (views kk) \<and> views kk ! (r - 2) \<le> lastUID"
        using h(4)
      proof
        assume r: "r = ?mid + 1"
        then show ?thesis using pr True h(3) by (intro exI [of _ k]) auto
      next
        assume "\<exists>kk. k1 \<le> kk \<and> kk < k' \<and> 1 < r \<and> r - 1 \<le> length (views kk) \<and> views kk ! (r - 2) \<le> lastUID"
        then show ?thesis using pr(1) by (meson Suc_leD)
      qed
      then show ?thesis using h mid pr(1) by auto
    next
      case False
      with rest have b: "bisect srv lastUID upper low ?mid k1 = (Inr r, k')" by simp
      have "?mid - low < high - low" using mid by linarith
      from less.hyps [OF this b] mid have h: "low \<le> r" "r \<le> ?mid" "k1 \<le> k'"
        "r = low \<or> (\<exists>kk. k1 \<le> kk \<and> kk < k' \<and> 1 < r \<and> r - 1 \<le> length (views kk) \<and> views kk ! (r - 2) \<le> lastUID)" by auto
      then show ?thesis using mid pr(1) by (auto intro: Suc_leD)
    qed
  qed
qed

lemma first_found:
  assumes srv: "answers srv views" and f: "findArchiveFirstSequenceAfterUID srv n lastUID upper k = (Inr r, k')" and "0 < n"
  shows "1 \<le> r" and "k \<le> k'"
    and "n < r \<Longrightarrow> \<exists>kk. k \<le> kk \<and> kk < k' \<and> n \<le> length (views kk) \<and> views kk ! (n - 1) \<le> lastUID"
proof -
  let ?g = "min (nat lastUID + 1) n"
  have "n \<noteq> 0" using assms(3) by simp
  from f [unfolded findArchiveFirstSequenceAfterUID_def Let_def if_not_P [OF this] andthen_Inr] obtain uid k1 where p: "probe srv upper ?g k = (Inr uid, k1)"
    and rest: "(if uid = (lastUID + 1) mod 4294967296 then ret ?g
          else if uid \<le> lastUID then bisect srv lastUID upper (?g + 1) (n + 1)
          else bisect srv lastUID upper 1 ?g) k1 = (Inr r, k')"
    by blast
  note pr = probe_read [OF srv p]
  have g: "1 \<le> ?g" "?g \<le> n" using assms(3) by auto
  have "1 \<le> r \<and> k \<le> k' \<and> (n < r \<longrightarrow> (\<exists>kk. k \<le> kk \<and> kk < k' \<and> n \<le> length (views kk) \<and> views kk ! (n - 1) \<le> lastUID))"
  proof (cases "uid = (lastUID + 1) mod 4294967296")
    case True
    with rest g pr(1) show ?thesis by auto
  next
    case a: False
    show ?thesis
    proof (cases "uid \<le> lastUID")
      case True
      with a rest have b: "bisect srv lastUID upper (?g + 1) (n + 1) k1 = (Inr r, k')" by simp
      from bisect_found [OF srv b] g have h: "?g + 1 \<le> r" "r \<le> n + 1" "k1 \<le> k'"
        "r = ?g + 1 \<or> (\<exists>kk. k1 \<le> kk \<and> kk < k' \<and> 1 < r \<and> r - 1 \<le> length (views kk) \<and> views kk ! (r - 2) \<le> lastUID)" by auto
      have "\<exists>kk. k \<le> kk \<and> kk < k' \<and> n \<le> length (views kk) \<and> views kk ! (n - 1) \<le> lastUID" if "n < r"
        using h(4)
      proof
        assume "r = ?g + 1"
        with that h(2) have "?g = n" by linarith
        then show ?thesis using pr True h(3) by (intro exI [of _ k]) auto
      next
        assume "\<exists>kk. k1 \<le> kk \<and> kk < k' \<and> 1 < r \<and> r - 1 \<le> length (views kk) \<and> views kk ! (r - 2) \<le> lastUID"
        moreover have "r = n + 1" using that h(2) by simp
        ultimately show ?thesis using pr(1) by (auto intro: Suc_leD)
      qed
      then show ?thesis using h g pr(1) by auto
    next
      case False
      with a rest have b: "bisect srv lastUID upper 1 ?g k1 = (Inr r, k')" by simp
      from bisect_found [OF srv b] g have "1 \<le> r" "r \<le> ?g" "k1 \<le> k'" by auto
      then show ?thesis using g pr(1) by auto
    qed
  qed
  then show "1 \<le> r" "k \<le> k'" "n < r \<Longrightarrow> \<exists>kk. k \<le> kk \<and> kk < k' \<and> n \<le> length (views kk) \<and> views kk ! (n - 1) \<le> lastUID" by blast+
qed

subsection \<open>The window is complete\<close>

text \<open>What a window must be: ascending UIDs after the cursor, with every message of a later view in it.\<close>

definition complete_window :: "(nat \<Rightarrow> int list) \<Rightarrow> nat \<Rightarrow> int \<Rightarrow> int \<Rightarrow> int list \<times> bool \<times> int \<Rightarrow> bool" where
  "complete_window views k lastUID upperUID w \<longleftrightarrow>
     (case w of (uids, hasMore, through) \<Rightarrow>
        sorted_wrt (<) uids \<and> (\<forall>u \<in> set uids. lastUID < u \<and> u \<le> through) \<and> through \<le> upperUID \<and>
        (if hasMore then uids \<noteq> [] \<and> lastUID < through else through = upperUID) \<and>
        (\<forall>j \<ge> k. \<forall>u \<in> set (views j). lastUID < u \<and> u \<le> through \<longrightarrow> u \<in> set uids))"

lemma nothing_left:
  assumes m: "mailbox_views views k0 n upper" and k: "k0 \<le> kk" and l: "0 < n" "n \<le> length (views kk)" "views kk ! (n - 1) \<le> lastUID"
    and j: "kk \<le> j" "u \<in> set (views j)" "u \<le> upper"
  shows "u \<le> lastUID"
proof -
  have "u \<in> set (views kk)" by (rule views_kept [OF m k j])
  then obtain i where i: "i < length (views kk)" "u = views kk ! i" by (auto simp: in_set_conv_nth)
  have "i < n" using only_new_behind [OF m k _ i(1)] i(2) j(3) by (cases "i < n") auto
  moreover have "n - 1 < length (views kk)" using l(1,2) by linarith
  moreover have "sorted_wrt (<) (views kk)" using m by (simp add: mailbox_views_def)
  ultimately have "views kk ! i \<le> views kk ! (n - 1)"
    using sorted_nth_less [of "views kk" i "n - 1"] i(1) by (cases "i = n - 1") auto
  then show ?thesis using i(2) l(3) by simp
qed

lemma sorted_slice: "sorted_wrt (<) (v :: int list) \<Longrightarrow> b \<le> length v \<Longrightarrow> sorted_wrt (<) (map (\<lambda>s. v ! (s - 1)) [a..<Suc b])" if "1 \<le> a"
  using that by (auto simp: sorted_wrt_iff_nth_less sorted_nth_less nth_append simp del: upt_Suc)

lemma trailing_later: "answers srv views \<Longrightarrow> trailing_uid srv s k = (Inr u, k') \<Longrightarrow> k \<le> k'"
  by (auto simp: trailing_uid_def andthen_Inr split: if_splits dest: uid_read(1))

text \<open>What a window that was read rests on: the range between its sentinels, each read twice.\<close>

definition window_first :: "nat \<Rightarrow> nat" where
  "window_first first = (if first > 1 then first - 1 else first)"

definition window_last :: "nat \<Rightarrow> int \<Rightarrow> nat \<Rightarrow> nat" where
  "window_last n limit first = (if limit < int (n - first + 1) then first + nat limit - 1 else n)"

definition window_trailing :: "nat \<Rightarrow> nat \<Rightarrow> nat" where
  "window_trailing n rl = (if rl < n then rl + 1 else 0)"

definition window_batch :: "nat \<Rightarrow> sequence_message list \<Rightarrow> sequence_message list" where
  "window_batch first discovered = (if first > 1 then tl discovered else discovered)"

lemma window_parts:
  assumes "read_window srv n lastUID upper limit first k = (Inr w, k')"
  obtains tr k1 discovered k2 k3 where
    "trailing_uid srv (window_trailing n (window_last n limit first)) k = (Inr tr, k1)"
    and "fetchArchiveSequenceRange srv (window_first first) (window_last n limit first) k1 = (Inr discovered, k2)"
    and "trailing_uid srv (window_trailing n (window_last n limit first)) k2 = (Inr tr, k3)"
    and "first > 1 \<Longrightarrow> sq_uid (hd discovered) \<le> lastUID"
    and "fetchArchiveSequenceUIDs srv (window_first first) (window_first first) k3 = (Inr [sq_uid (hd discovered)], k')"
    and "window_batch first discovered \<noteq> []"
    and "\<forall>x \<in> set (window_batch first discovered). lastUID < sq_uid x \<and> sq_uid x \<le> upper"
    and "w = (map sq_uid (window_batch first discovered), window_last n limit first < n,
        if window_last n limit first < n then sq_uid (last (window_batch first discovered)) else upper)"
proof -
  from assms [unfolded read_window_def Let_def window_first_def [symmetric] window_last_def [symmetric]
      window_trailing_def [symmetric] window_batch_def [symmetric] andthen_Inr]
  obtain tr k1 discovered k2 again k3 where
    parts: "trailing_uid srv (window_trailing n (window_last n limit first)) k = (Inr tr, k1)"
      "fetchArchiveSequenceRange srv (window_first first) (window_last n limit first) k1 = (Inr discovered, k2)"
      "trailing_uid srv (window_trailing n (window_last n limit first)) k2 = (Inr again, k3)"
    and rest: "(if again \<noteq> tr then fail FeUnstable
        else if discovered = [] then fail FeEmpty
        else if first > 1 \<and> sq_uid (hd discovered) > lastUID then fail FeBoundary
        else andthen (fetchArchiveSequenceUIDs srv (window_first first) (window_first first)) (\<lambda>leading.
          if leading \<noteq> [sq_uid (hd discovered)] then fail FeBoundary
          else if window_batch first discovered = [] then fail FeEmpty
            else if list_ex (\<lambda>m. sq_uid m \<le> lastUID \<or> sq_uid m > upper) (window_batch first discovered)
              then fail FeMessage
            else ret (map sq_uid (window_batch first discovered), window_last n limit first < n,
                   if window_last n limit first < n then sq_uid (last (window_batch first discovered)) else upper))) k3 = (Inr w, k')"
    by blast
  show thesis
    by (rule that [OF parts(1,2)])
      (use parts(3) rest in \<open>auto simp: andthen_Inr list_ex_iff not_le not_less split: if_split_asm\<close>)
qed

lemma window_read:
  assumes srv: "answers srv views" and m: "mailbox_views views k0 n upper" and k: "k0 \<le> k" and first: "1 \<le> first" "first \<le> n"
    and limit: "1 \<le> limit" and d: "read_window srv n lastUID upper limit first k = (Inr w, k')"
  shows "complete_window views k' lastUID upper w \<and> k \<le> k'"
  using d
proof (rule window_parts)
  define rf where "rf = window_first first"
  define rl where "rl = window_last n limit first"
  fix tr k1 discovered k2 k3
  let ?batch = "window_batch first discovered"
  assume t1: "trailing_uid srv (window_trailing n (window_last n limit first)) k = (Inr tr, k1)"
    and t2: "trailing_uid srv (window_trailing n (window_last n limit first)) k2 = (Inr tr, k3)"
    and "fetchArchiveSequenceRange srv (window_first first) (window_last n limit first) k1 = (Inr discovered, k2)"
    and lead: "first > 1 \<Longrightarrow> sq_uid (hd discovered) \<le> lastUID"
    and "fetchArchiveSequenceUIDs srv (window_first first) (window_first first) k3 = (Inr [sq_uid (hd discovered)], k')"
    and batch: "?batch \<noteq> []" "\<forall>x \<in> set ?batch. lastUID < sq_uid x \<and> sq_uid x \<le> upper"
    and "w = (map sq_uid ?batch, window_last n limit first < n, if window_last n limit first < n then sq_uid (last ?batch) else upper)"
  then have r: "fetchArchiveSequenceRange srv rf rl k1 = (Inr discovered, k2)"
    and l: "fetchArchiveSequenceUIDs srv rf rf k3 = (Inr [sq_uid (hd discovered)], k')"
    and w: "w = (map sq_uid ?batch, rl < n, if rl < n then sq_uid (last ?batch) else upper)"
    by (simp_all add: rf_def rl_def)
  have later: "k \<le> k1" "k1 < k'" using trailing_later [OF srv t1] trailing_later [OF srv t2] range_read(1) [OF r] uid_read(1) [OF srv l]
    by simp_all
  let ?v = "views k1"
  have s: "sorted_wrt (<) ?v" using m by (simp add: mailbox_views_def)
  have len: "rl \<le> length ?v" by (rule range_of_view(1) [OF srv r])
  have rl: "first \<le> rl" "rl \<le> n" using first limit by (auto simp: rl_def window_last_def)
  have uids: "map sq_uid discovered = map (\<lambda>s. ?v ! (s - 1)) [rf..<Suc rl]" by (rule range_of_view(2) [OF srv r])
  have b: "map sq_uid ?batch = map (\<lambda>s. ?v ! (s - 1)) [first..<Suc rl]"
  proof (cases "first > 1")
    case True
    then have "[rf..<Suc rl] = rf # [first..<Suc rl]" using rl by (simp add: rf_def window_first_def upt_conv_Cons)
    then have "map sq_uid (tl discovered) = map (\<lambda>s. ?v ! (s - 1)) [first..<Suc rl]" using arg_cong [OF uids, of tl] by (simp add: map_tl)
    then show ?thesis using True by (simp add: window_batch_def)
  next
    case False
    then show ?thesis using uids by (simp add: rf_def window_first_def window_batch_def)
  qed
  have all: "lastUID < ?v ! (i - 1) \<and> ?v ! (i - 1) \<le> upper" if "first \<le> i" "i \<le> rl" for i
  proof -
    have "?v ! (i - 1) \<in> set (map sq_uid ?batch)" unfolding b using that by (auto simp del: upt_Suc)
    then show ?thesis using batch(2) by auto
  qed
  have last: "sq_uid (last ?batch) = ?v ! (rl - 1)"
  proof -
    have "sq_uid (last ?batch) = last (map sq_uid ?batch)" using batch(1) by (simp add: last_map)
    then show ?thesis unfolding b using rl by (simp add: last_map)
  qed
  let ?through = "if rl < n then ?v ! (rl - 1) else upper"
  have found: "u \<in> set (map sq_uid ?batch)" if "k' \<le> j" "u \<in> set (views j)" "lastUID < u" "u \<le> ?through" for j u
  proof -
    have up: "u \<le> upper" using that(4) all [of rl] rl by (auto split: if_splits)
    have "u \<in> set ?v" by (rule views_kept [OF m _ _ that(2) up]) (use k later that(1) in simp_all)
    then obtain i where i: "i < length ?v" "u = ?v ! i" by (auto simp: in_set_conv_nth)
    have "first \<le> Suc i"
    proof (rule ccontr)
      assume "\<not> first \<le> Suc i"
      then have f: "first > 1" "i \<le> first - 2" by auto
      have "[rf..<Suc rl] = rf # [Suc rf..<Suc rl]" using rl f by (intro upt_conv_Cons) (simp add: rf_def window_first_def)
      then have "hd (map sq_uid discovered) = ?v ! (rf - 1)" unfolding uids by (simp del: upt_Suc)
      moreover have "discovered \<noteq> []" using batch(1) by (auto simp: window_batch_def split: if_splits)
      moreover have "rf - 1 = first - 2" using f(1) by (simp add: rf_def window_first_def window_batch_def)
      ultimately have "?v ! (first - 2) \<le> lastUID" using lead [OF f(1)] by (simp add: hd_map)
      moreover have "first - 2 < length ?v" using f rl len by linarith
      with f have "?v ! i \<le> ?v ! (first - 2)" using sorted_nth_less [OF s, of i "first - 2"] i(1) by (cases "i = first - 2") auto
      ultimately show False using that(3) i(2) by simp
    qed
    moreover have "Suc i \<le> rl"
    proof (rule ccontr)
      assume "\<not> Suc i \<le> rl"
      then have g: "rl \<le> i" by simp
      show False
      proof (cases "rl < n")
        case True
        have "?v ! (rl - 1) < ?v ! i" using g rl first sorted_nth_less [OF s, of "rl - 1" i] i(1) by auto
        then show False using that(4) i(2) True by simp
      next
        case False
        then have "n \<le> i" using g rl by simp
        from only_new_behind [OF m _ this i(1)] k later up i(2) show False by simp
      qed
    qed
    ultimately show ?thesis unfolding b using i(2) by (auto simp del: upt_Suc intro!: image_eqI [of _ _ "Suc i"])
  qed
  have "sorted_wrt (<) (map sq_uid ?batch)" unfolding b by (rule sorted_slice [OF first(1) s len])
  moreover have "\<forall>u \<in> set (map sq_uid ?batch). lastUID < u \<and> u \<le> ?through"
  proof
    fix u assume "u \<in> set (map sq_uid ?batch)"
    then obtain i where i: "first \<le> i" "i \<le> rl" "u = ?v ! (i - 1)" unfolding b by (auto simp del: upt_Suc)
    have "i - 1 < length ?v" "rl - 1 < length ?v" using i first len by linarith+
    then have "u \<le> ?v ! (rl - 1)" using i first sorted_nth_less [OF s, of "i - 1" "rl - 1"] by (cases "i = rl") auto
    with all [OF i(1,2)] i(3) show "lastUID < u \<and> u \<le> ?through" by auto
  qed
  moreover have "?through \<le> upper" "rl < n \<Longrightarrow> lastUID < ?v ! (rl - 1)" using all [of rl] rl by auto
  ultimately show ?thesis using found batch(1) w last later by (auto simp: complete_window_def)
qed

text \<open>Without any assumption on the server: a window only holds UIDs after the cursor, up to its end.\<close>

lemma last_largest: "sorted (map f xs) \<Longrightarrow> x \<in> set xs \<Longrightarrow> f x \<le> f (last xs)"
  by (induction xs) auto

lemma window_inside:
  assumes d: "discoverArchiveUIDs srv n lastUID upper limit k = (Inr (uids, hasMore, through), k')"
  shows "lastUID \<le> through \<and> (\<forall>u \<in> set uids. lastUID < u \<and> u \<le> through)"
proof -
  have "lastUID \<le> through \<and> (\<forall>u \<in> set uids. lastUID < u \<and> u \<le> through)"
    if le: "lastUID \<le> upper" and r: "read_window srv n lastUID upper limit first k1 = (Inr (uids, hasMore, through), k')" for first k1
    using r
  proof (rule window_parts)
    fix tr k1 discovered k2 k3
    let ?batch = "window_batch first discovered"
    assume r: "fetchArchiveSequenceRange srv (window_first first) (window_last n limit first) k1 = (Inr discovered, k2)"
      and batch: "?batch \<noteq> []" "\<forall>x \<in> set ?batch. lastUID < sq_uid x \<and> sq_uid x \<le> upper"
      and w: "(uids, hasMore, through) = (map sq_uid ?batch, window_last n limit first < n,
        if window_last n limit first < n then sq_uid (last ?batch) else upper)"
    have "sorted_wrt (<) (map sq_uid ?batch)"
      using range_read(5) [OF r] by (cases discovered) (auto simp: window_batch_def)
    then have "sorted (map sq_uid ?batch)" by (simp add: strict_sorted_iff)
    then have last: "sq_uid x \<le> sq_uid (last ?batch)" if "x \<in> set ?batch" for x
      using last_largest [OF _ that] by blast
    moreover have "last ?batch \<in> set ?batch" by (rule last_in_set [OF batch(1)])
    ultimately show ?thesis using batch(2) w le by auto
  qed
  then show ?thesis using d
    by (auto simp: discoverArchiveUIDs_def validateArchiveUIDSearch_def andthen_Inr list_ex_iff not_le not_less
        split: if_splits option.splits sum.splits)
qed

lemma window_complete:
  assumes srv: "answers srv views" and m: "mailbox_views views k0 n upper" and k: "k0 \<le> k"
    and d: "discoverArchiveUIDs srv n lastUID upper limit k = (Inr w, k')"
  shows "complete_window views k' lastUID upper w \<and> k \<le> k'"
proof -
  have lim: "\<not> limit < 1" "\<not> lastUID > upper" using d by (auto simp: discoverArchiveUIDs_def split: if_splits)
  show ?thesis
  proof (cases "lastUID = upper \<or> n = 0")
    case True
    then have w: "w = ([], False, upper)" "k' = k" using d lim by (auto simp: discoverArchiveUIDs_def split: if_splits)
    have "u \<notin> set (views j)" if "k \<le> j" "lastUID < u" "u \<le> upper" for j u
    proof
      assume "u \<in> set (views j)"
      from views_kept [OF m order_refl _ this that(3)] k that(1) have "u \<in> set (views k0)" by simp
      with m True that(2,3) show False by (auto simp: mailbox_views_def)
    qed
    then show ?thesis using w lim by (auto simp: complete_window_def)
  next
    case ne: False
    show ?thesis
    proof (cases "upper - lastUID \<le> limit")
      case True
      with d ne lim obtain found uids where f: "srv_search srv k (lastUID + 1) upper = Some found"
        "validateArchiveUIDSearch found lastUID upper = Inr uids" "w = (uids, False, upper)" "k' = Suc k"
        by (auto simp: discoverArchiveUIDs_def split: option.splits sum.splits)
      from f(2) have u: "uids = sort found" "distinct found" "\<forall>x \<in> set found. lastUID < x \<and> x \<le> upper"
        by (auto simp: validateArchiveUIDSearch_def list_ex_iff not_le split: if_splits)
      have s: "set found = {x \<in> set (views k). lastUID + 1 \<le> x \<and> x \<le> upper}" using srv f(1) by (auto simp: answers_def)
      have "x \<in> set uids" if "Suc k \<le> j" "x \<in> set (views j)" "lastUID < x" "x \<le> upper" for j x
      proof -
        have "k \<le> j" using that(1) by simp
        from views_kept [OF m k this that(2,4)] that(3,4) show ?thesis by (simp add: u(1) s)
      qed
      moreover have "sorted_wrt (<) uids" using u(1,2) by (simp add: strict_sorted_iff)
      ultimately show ?thesis using f(3,4) u by (auto simp: complete_window_def)
    next
      case False
      with d ne lim obtain first k1 where fs: "findArchiveFirstSequenceAfterUID srv n lastUID upper k = (Inr first, k1)"
        and rest: "(if first > n then ret ([], False, upper) else read_window srv n lastUID upper limit first) k1 = (Inr w, k')"
        by (auto simp: discoverArchiveUIDs_def andthen_Inr)
      have n: "0 < n" using ne by simp
      note ff = first_found [OF srv fs n]
      show ?thesis
      proof (cases "first > n")
        case True
        with rest have w: "w = ([], False, upper)" "k' = k1" by simp_all
        from ff(3) [OF True] obtain kk where kk: "k \<le> kk" "kk < k1" "n \<le> length (views kk)" "views kk ! (n - 1) \<le> lastUID" by blast
        have "k0 \<le> kk" using k kk(1) by simp
        have "u \<le> lastUID" if "k1 \<le> j" "u \<in> set (views j)" "u \<le> upper" for j u
          by (rule nothing_left [OF m \<open>k0 \<le> kk\<close> n kk(3,4) _ that(2,3)]) (use kk(2) that(1) in simp)
        then show ?thesis using w lim ff(2) by (fastforce simp: complete_window_def)
      next
        case in_range: False
        with rest have r: "read_window srv n lastUID upper limit first k1 = (Inr w, k')" by simp
        have "k0 \<le> k1" using k ff(2) by simp
        from window_read [OF srv m this ff(1) _ _ r] in_range lim ff(2) show ?thesis by auto
      qed
    qed
  qed
qed

end
