(* ===== verification/MailWindowStable.thy ===== *)
theory MailWindowStable
  imports MailWindowFacts
begin

section \<open>The window of a mailbox that does not change\<close>

text \<open>
  When no other client interferes and the server answers every command, the search by sequence numbers
  always ends with a result, and the result is the one that is read off the mailbox directly: the first
  messages after the cursor, up to the limit. Each step of the search has a lemma that gives its value.
\<close>

definition serves :: "imap_server \<Rightarrow> int list \<Rightarrow> bool" where
  "serves srv v \<longleftrightarrow>
     (\<forall>k a b. 1 \<le> a \<longrightarrow> a \<le> b \<longrightarrow> b \<le> length v \<longrightarrow>
        snd (srv_fetch srv k a b) \<and>
        map (\<lambda>m. (sq_sequence m, sq_uid m)) (fst (srv_fetch srv k a b)) = map (\<lambda>s. (s, v ! (s - 1))) [a..<Suc b]) \<and>
     (\<forall>k a b. srv_search srv k a b = Some (filter (\<lambda>u. a \<le> u \<and> u \<le> b) v))"

definition uid_list :: "int list \<Rightarrow> bool" where
  "uid_list v \<longleftrightarrow> sorted_wrt (<) v \<and> (\<forall>u \<in> set v. 0 < u)"

definition window_of :: "int list \<Rightarrow> int \<Rightarrow> int \<Rightarrow> int \<Rightarrow> int list \<times> bool \<times> int" where
  "window_of v lastUID upperUID limit =
     (let new = filter (\<lambda>u. lastUID < u) v; batch = take (nat limit) new in
      (batch, limit < int (length new), if limit < int (length new) then last batch else upperUID))"

subsection \<open>Reading\<close>

lemma andthen_step: "m k = (Inr x, k') \<Longrightarrow> andthen m f k = f x k'"
  by (simp add: andthen_def)

lemma check_stream_None: "check_stream a b seqs uids ms = None \<longleftrightarrow>
    (\<forall>m \<in> set ms. a \<le> sq_sequence m \<and> sq_sequence m \<le> b \<and> sq_uid m \<noteq> 0) \<and>
    distinct (map sq_sequence ms) \<and> distinct (map sq_uid ms) \<and>
    set (map sq_sequence ms) \<inter> set seqs = {} \<and> set (map sq_uid ms) \<inter> set uids = {}"
  by (induction a b seqs uids ms rule: check_stream.induct) auto

lemma range_stable:
  assumes srv: "serves srv v" and v: "uid_list v" and r: "1 \<le> a" "a \<le> b" "b \<le> length v" "b - a + 1 \<le> 1025"
  shows "\<exists>ms. fetchArchiveSequenceRange srv a b k = (Inr ms, Suc k) \<and> map sq_uid ms = map (\<lambda>s. v ! (s - 1)) [a..<Suc b]"
proof -
  have "snd (srv_fetch srv k a b) \<and>
      map (\<lambda>m. (sq_sequence m, sq_uid m)) (fst (srv_fetch srv k a b)) = map (\<lambda>s. (s, v ! (s - 1))) [a..<Suc b]"
    using srv r(1-3) unfolding serves_def by blast
  then obtain ms where f: "srv_fetch srv k a b = (ms, True)"
    and ms: "map (\<lambda>m. (sq_sequence m, sq_uid m)) ms = map (\<lambda>s. (s, v ! (s - 1))) [a..<Suc b]"
    by (cases "srv_fetch srv k a b") (simp del: upt_Suc)
  have s: "map sq_sequence ms = [a..<Suc b]" using arg_cong [OF ms, of "map fst"] by (simp add: comp_def del: upt_Suc)
  have u: "map sq_uid ms = map (\<lambda>s. v ! (s - 1)) [a..<Suc b]" using arg_cong [OF ms, of "map snd"] by (simp add: comp_def del: upt_Suc)
  have asc: "sorted_wrt (<) (map sq_uid ms)" unfolding u by (rule sorted_slice) (use r v in \<open>simp_all add: uid_list_def\<close>)
  have pos: "0 < sq_uid m" if "m \<in> set ms" for m
  proof -
    have "sq_uid m \<in> set (map sq_uid ms)" using that by simp
    then obtain i where "a \<le> i" "i \<le> b" "sq_uid m = v ! (i - 1)" unfolding u by (auto simp del: upt_Suc)
    then show ?thesis using r v by (auto simp: uid_list_def)
  qed
  have "check_stream a b [] [] ms = None"
  proof -
    have "a \<le> sq_sequence m \<and> sq_sequence m \<le> b" if "m \<in> set ms" for m
    proof -
      have "sq_sequence m \<in> set (map sq_sequence ms)" using that by simp
      then show ?thesis unfolding s by (simp del: upt_Suc)
    qed
    moreover have "distinct (map sq_sequence ms)" unfolding s by (rule distinct_upt)
    moreover have "distinct (map sq_uid ms)" using asc strict_sorted_iff by blast
    ultimately show ?thesis using pos by (fastforce simp: check_stream_None)
  qed
  moreover have "sort_key sq_sequence ms = ms" using s by (intro sort_key_id_if_sorted) (simp del: upt_Suc)
  moreover have l: "length ms = b - a + 1" using arg_cong [OF s, of length] r by simp
  moreover have "consecutive a None ms" using s asc l r by (simp add: consecutive_iff del: upt_Suc)
  ultimately have "fetchArchiveSequenceRange srv a b k = (Inr ms, Suc k)"
    using r by (simp add: fetchArchiveSequenceRange_def f maxSequenceFetchMessages_def defaultMaxCandidates_def)
  then show ?thesis using u by blast
qed

lemma uids_stable:
  assumes "serves srv v" and "uid_list v" and "1 \<le> s" "s \<le> length v"
  shows "fetchArchiveSequenceUIDs srv s s k = (Inr [v ! (s - 1)], Suc k)"
  using range_stable [OF assms(1,2,3) order_refl assms(4), of k]
  by (auto simp: fetchArchiveSequenceUIDs_def andthen_def)

lemma trailing_stable:
  assumes "serves srv v" and "uid_list v" and "s \<le> length v"
  shows "\<exists>k'. trailing_uid srv s k = (Inr (if s = 0 then 0 else v ! (s - 1)), k')"
  using uids_stable [OF assms(1,2) _ assms(3), of k] by (auto simp: trailing_uid_def andthen_def)

subsection \<open>Searching\<close>

text \<open>How many messages the cursor has passed.\<close>

definition passed :: "int list \<Rightarrow> int \<Rightarrow> nat" where
  "passed v lastUID = length (filter (\<lambda>u. u \<le> lastUID) v)"

lemma old_then_new:
  assumes "sorted_wrt (<) (v :: int list)"
  shows "v = filter (\<lambda>u. u \<le> lastUID) v @ filter (\<lambda>u. lastUID < u) v"
  using assms
proof (induction v)
  case (Cons u v)
  show ?case
  proof (cases "u \<le> lastUID")
    case False
    then have "filter (\<lambda>u. u \<le> lastUID) (u # v) = []" "filter (\<lambda>u. lastUID < u) (u # v) = u # v"
      using Cons.prems by (fastforce simp: filter_empty_conv filter_id_conv)+
    then show ?thesis by simp
  qed (use Cons in simp)
qed simp

lemma passed_iff:
  assumes "sorted_wrt (<) v" and "1 \<le> s" "s \<le> length v"
  shows "v ! (s - 1) \<le> lastUID \<longleftrightarrow> s \<le> passed v lastUID"
proof (cases "s \<le> passed v lastUID")
  case True
  then have i: "s - 1 < length (filter (\<lambda>u. u \<le> lastUID) v)" using assms(2) by (simp add: passed_def)
  have "v ! (s - 1) = filter (\<lambda>u. u \<le> lastUID) v ! (s - 1)" by (subst old_then_new [OF assms(1), of lastUID]) (use i in \<open>simp add: nth_append\<close>)
  moreover have "filter (\<lambda>u. u \<le> lastUID) v ! (s - 1) \<in> set (filter (\<lambda>u. u \<le> lastUID) v)" by (rule nth_mem [OF i])
  ultimately show ?thesis using True by simp
next
  case False
  let ?old = "filter (\<lambda>u. u \<le> lastUID) v" and ?new = "filter (\<lambda>u. lastUID < u) v"
  have "length v = length ?old + length ?new" using arg_cong [OF old_then_new [OF assms(1), of lastUID], of length] by simp
  then have j: "length ?old \<le> s - 1" "s - 1 - length ?old < length ?new" using False assms(2,3) by (simp_all add: passed_def)
  have "v ! (s - 1) = ?new ! (s - 1 - length ?old)" by (subst old_then_new [OF assms(1), of lastUID]) (use j in \<open>simp add: nth_append\<close>)
  moreover have "?new ! (s - 1 - length ?old) \<in> set ?new" by (rule nth_mem [OF j(2)])
  ultimately show ?thesis using False by simp
qed

lemma bisect_stable:
  assumes srv: "serves srv v" and v: "uid_list v" and upper: "\<forall>u \<in> set v. u \<le> upper"
    and "1 \<le> low" "low \<le> passed v lastUID + 1" "passed v lastUID + 1 \<le> high" "high \<le> length v + 1"
  shows "\<exists>k'. bisect srv lastUID upper low high k = (Inr (passed v lastUID + 1), k')"
  using assms(4-)
proof (induction "high - low" arbitrary: low high k rule: less_induct)
  case less
  show ?case
  proof (cases "low < high")
    case True
    let ?mid = "low + (high - low) div 2"
    have mid: "low \<le> ?mid" "?mid < high" "1 \<le> ?mid" "?mid \<le> length v" using True less.prems by auto
    have u: "v ! (?mid - 1) \<le> upper" using upper mid by simp
    have p: "probe srv upper ?mid k = (Inr (v ! (?mid - 1)), Suc k)"
      unfolding probe_Inr using uids_stable [OF srv v mid(3,4)] u by blast
    have iff: "v ! (?mid - 1) \<le> lastUID \<longleftrightarrow> ?mid \<le> passed v lastUID"
      by (rule passed_iff) (use v mid in \<open>simp_all add: uid_list_def\<close>)
    show ?thesis
    proof (cases "?mid \<le> passed v lastUID")
      case True
      have "\<exists>k'. bisect srv lastUID upper (?mid + 1) high (Suc k) = (Inr (passed v lastUID + 1), k')"
        by (rule less.hyps) (use True mid less.prems in linarith)+
      then show ?thesis using \<open>low < high\<close> p iff True by (subst bisect.simps) simp
    next
      case False
      have "\<exists>k'. bisect srv lastUID upper low ?mid (Suc k) = (Inr (passed v lastUID + 1), k')"
        by (rule less.hyps) (use False mid less.prems in linarith)+
      then show ?thesis using \<open>low < high\<close> p iff False by (subst bisect.simps) simp
    qed
  qed (use less.prems in \<open>subst bisect.simps, auto\<close>)
qed

lemma first_stable:
  assumes srv: "serves srv v" and v: "uid_list v" and upper: "\<forall>u \<in> set v. u \<le> upper" and n: "0 < length v"
    and last: "lastUID < upper" "upper < 4294967296" "0 \<le> lastUID"
  shows "\<exists>k'. findArchiveFirstSequenceAfterUID srv (length v) lastUID upper k = (Inr (passed v lastUID + 1), k')"
proof -
  define g where "g = min (nat lastUID + 1) (length v)"
  let ?m = "passed v lastUID"
  have n0: "length v \<noteq> 0" using n by simp
  have g: "1 \<le> g" "g \<le> length v" using n by (auto simp: g_def Suc_le_eq)
  have s: "sorted_wrt (<) v" using v by (simp add: uid_list_def)
  have m: "?m \<le> length v" by (simp add: passed_def)
  have "v ! (g - 1) \<in> set v" by (rule nth_mem) (use g in linarith)
  then have p: "probe srv upper g k = (Inr (v ! (g - 1)), Suc k)"
    using uids_stable [OF srv v g] upper by (simp add: probe_Inr)
  note iff = passed_iff [OF s g, of lastUID]
  have f: "findArchiveFirstSequenceAfterUID srv (length v) lastUID upper k =
      (if v ! (g - 1) = lastUID + 1 then ret g (Suc k)
       else if v ! (g - 1) \<le> lastUID then bisect srv lastUID upper (g + 1) (length v + 1) (Suc k)
       else bisect srv lastUID upper 1 g (Suc k))"
    unfolding findArchiveFirstSequenceAfterUID_def Let_def if_not_P [OF n0] g_def [symmetric] andthen_step [of "probe srv upper g", OF p]
    using last by simp
  consider "v ! (g - 1) = lastUID + 1" | "v ! (g - 1) \<noteq> lastUID + 1" "g \<le> ?m" | "v ! (g - 1) \<noteq> lastUID + 1" "?m < g"
    by linarith
  then show ?thesis
  proof cases
    case 1
    have "g \<le> ?m + 1"
    proof (cases "g = 1")
      case False
      then have h: "1 \<le> g - 1" "g - 1 \<le> length v" using g by linarith+
      have "g - 1 - 1 < g - 1" "g - 1 < length v" using h g by linarith+
      then have "v ! (g - 1 - 1) < v ! (g - 1)" using sorted_wrt_nth_less [OF s] by blast
      then have "v ! (g - 1 - 1) \<le> lastUID" using 1 by simp
      then show ?thesis using passed_iff [OF s h, of lastUID] by simp
    qed simp
    moreover have "\<not> g \<le> ?m" using iff 1 by simp
    ultimately show ?thesis using f 1 by simp
  next
    case 2
    then show ?thesis using f iff bisect_stable [OF srv v upper, of "g + 1" lastUID "length v + 1" "Suc k"] m by auto
  next
    case 3
    then show ?thesis using f iff bisect_stable [OF srv v upper, of 1 lastUID g "Suc k"] g by auto
  qed
qed

subsection \<open>The window\<close>

lemma read_window_stable:
  assumes srv: "serves srv v" and v: "uid_list v" and upper: "\<forall>u \<in> set v. u \<le> upper"
    and first: "first = passed v lastUID + 1" "first \<le> length v" and limit: "1 \<le> limit" "limit \<le> 1024"
  shows "\<exists>k'. read_window srv (length v) lastUID upper limit first k = (Inr (window_of v lastUID upper limit), k')"
proof -
  let ?n = "length v"
  define rf where "rf = (if first > 1 then first - 1 else first)"
  define rl where "rl = (if limit < int (?n - first + 1) then first + nat limit - 1 else ?n)"
  define ts where "ts = (if rl < ?n then rl + 1 else 0)"
  have s: "sorted_wrt (<) v" using v by (simp add: uid_list_def)
  have rl: "first \<le> rl" "rl \<le> ?n" using first limit by (auto simp: rl_def)
  have rf: "1 \<le> rf" "rf \<le> first" using first by (auto simp: rf_def)
  have "rl - rf + 1 \<le> 1025" using limit first by (auto simp: rl_def rf_def)
  from range_stable [OF srv v rf(1) _ rl(2) this] rf rl obtain discovered where
    r: "fetchArchiveSequenceRange srv rf rl k' = (Inr (discovered k'), Suc k')" "map sq_uid (discovered k') = map (\<lambda>s. v ! (s - 1)) [rf..<Suc rl]" for k'
    by (metis le_trans)
  have ts: "ts \<le> ?n" using rl by (auto simp: ts_def)
  obtain k1 where t1: "trailing_uid srv ts k = (Inr (if ts = 0 then 0 else v ! (ts - 1)), k1)" using trailing_stable [OF srv v ts] by blast
  obtain k3 where t2: "trailing_uid srv ts (Suc k1) = (Inr (if ts = 0 then 0 else v ! (ts - 1)), k3)" using trailing_stable [OF srv v ts] by blast
  let ?d = "discovered k1"
  let ?batch = "if first > 1 then tl ?d else ?d"
  have hd: "?d \<noteq> []" "sq_uid (hd ?d) = v ! (rf - 1)"
  proof -
    have "[rf..<Suc rl] = rf # [Suc rf..<Suc rl]" using rf rl by (intro upt_conv_Cons) simp
    then have m: "map sq_uid ?d = v ! (rf - 1) # map (\<lambda>s. v ! (s - 1)) [Suc rf..<Suc rl]" using r(2) by (simp del: upt_Suc)
    then show "?d \<noteq> []" by auto
    then show "sq_uid (hd ?d) = v ! (rf - 1)" using m by (cases ?d) simp_all
  qed
  have leading: "fetchArchiveSequenceUIDs srv rf rf k3 = (Inr [sq_uid (hd ?d)], Suc k3)"
    unfolding hd(2) by (rule uids_stable [OF srv v rf(1)]) (use rf rl in linarith)
  have old: "first > 1 \<Longrightarrow> \<not> sq_uid (hd ?d) > lastUID"
    using passed_iff [OF s, of "first - 1" lastUID] first by (simp add: hd(2) rf_def not_less)
  have b: "map sq_uid ?batch = map (\<lambda>s. v ! (s - 1)) [first..<Suc rl]"
    using r(2) [of k1] rl by (auto simp: rf_def upt_conv_Cons map_tl simp del: upt_Suc)
  define new where "new = filter (\<lambda>u. lastUID < u) v"
  have new: "new = drop (passed v lastUID) v"
    using old_then_new [OF s, of lastUID] unfolding new_def passed_def by (metis append_eq_conv_conj)
  have l: "length new = ?n - first + 1" using first by (simp add: new)
  have "map (\<lambda>s. v ! (s - 1)) [first..<Suc rl] = take (rl - first + 1) new"
    using first rl by (intro nth_equalityI) (auto simp: new simp del: upt_Suc)
  moreover have "take (rl - first + 1) new = take (nat limit) new" using l limit first by (auto simp: rl_def)
  ultimately have uids: "map sq_uid ?batch = take (nat limit) new" using b by simp
  have more: "rl < ?n \<longleftrightarrow> limit < int (length new)" using l limit first by (auto simp: rl_def)
  have "new \<noteq> []" using l by auto
  then have ne: "?batch \<noteq> []" using uids limit by (cases ?batch) auto
  have inside: "\<not> list_ex (\<lambda>m. sq_uid m \<le> lastUID \<or> sq_uid m > upper) ?batch"
  proof -
    have "lastUID < sq_uid m \<and> sq_uid m \<le> upper" if "m \<in> set ?batch" for m
    proof -
      have "sq_uid m \<in> set (map sq_uid ?batch)" using that by simp
      then have "sq_uid m \<in> set new" unfolding uids by (rule in_set_takeD)
      then show ?thesis using upper by (simp add: new_def)
    qed
    then show ?thesis by (fastforce simp: list_ex_iff)
  qed
  have last: "sq_uid (last ?batch) = last (take (nat limit) new)" unfolding uids [symmetric] using ne by (simp add: last_map)
  have "read_window srv ?n lastUID upper limit first k =
      (Inr (map sq_uid ?batch, rl < ?n, if rl < ?n then sq_uid (last ?batch) else upper), Suc k3)"
    unfolding read_window_def Let_def rf_def [symmetric] rl_def [symmetric] ts_def [symmetric]
      andthen_step [of "trailing_uid srv ts", OF t1] andthen_step [of "fetchArchiveSequenceRange srv rf rl", OF r(1)]
      andthen_step [of "trailing_uid srv ts", OF t2]
    using hd(1) old ne inside by (simp add: andthen_step [of "fetchArchiveSequenceUIDs srv rf rf", OF leading])
  then show ?thesis unfolding uids last more by (simp add: window_of_def new_def [symmetric] Let_def)
qed

lemma few_between: "sorted_wrt (<) (v :: int list) \<Longrightarrow> \<forall>u \<in> set v. l < u \<and> u \<le> r \<Longrightarrow> l \<le> r \<Longrightarrow> int (length v) \<le> r - l"
proof -
  assume a: "sorted_wrt (<) v" "\<forall>u \<in> set v. l < u \<and> u \<le> r" "l \<le> r"
  have "card (set v) \<le> card {l<..r}" using a(2) by (intro card_mono) auto
  moreover have "card (set v) = length v" using a(1) by (intro distinct_card) (simp add: strict_sorted_iff)
  ultimately show ?thesis using a(3) by simp
qed

lemma window_stable:
  assumes srv: "serves srv v" and v: "uid_list v" and upper: "\<forall>u \<in> set v. u \<le> upper" "upper < 4294967296"
    and last: "0 \<le> lastUID" "lastUID \<le> upper" and limit: "1 \<le> limit" "limit \<le> 1024"
  shows "\<exists>k'. discoverArchiveUIDs srv (length v) lastUID upper limit k = (Inr (window_of v lastUID upper limit), k')"
proof -
  let ?new = "filter (\<lambda>u. lastUID < u) v"
  have s: "sorted_wrt (<) v" using v by (simp add: uid_list_def)
  have few: "int (length ?new) \<le> upper - lastUID"
    by (rule few_between) (use s upper last in \<open>auto simp: sorted_wrt_filter\<close>)
  consider "lastUID = upper \<or> v = []" | "\<not> (lastUID = upper \<or> v = [])" "upper - lastUID \<le> limit"
    | "lastUID < upper" "0 < length v" "\<not> upper - lastUID \<le> limit" using last by force
  then show ?thesis
  proof cases
    case 1
    then have "?new = []" using upper by (auto simp: filter_empty_conv)
    then show ?thesis using 1 last limit by (auto simp: discoverArchiveUIDs_def window_of_def ret_def)
  next
    case 2
    let ?found = "filter (\<lambda>u. lastUID + 1 \<le> u \<and> u \<le> upper) v"
    have same: "?found = ?new" using upper(1) by (intro filter_cong) auto
    have sf: "sorted_wrt (<) ?new" using s by (rule sorted_wrt_filter)
    have "validateArchiveUIDSearch ?new lastUID upper = Inr ?new"
      using upper(1) sf by (auto simp: validateArchiveUIDSearch_def list_ex_iff strict_sorted_iff sorted_sort_id)
    moreover have "srv_search srv k (lastUID + 1) upper = Some ?new" using srv unfolding serves_def same [symmetric] by blast
    ultimately have "discoverArchiveUIDs srv (length v) lastUID upper limit k = (Inr (?new, False, upper), Suc k)"
      using 2 last limit by (simp add: discoverArchiveUIDs_def)
    moreover have "window_of v lastUID upper limit = (?new, False, upper)"
    proof -
      have "int (length ?new) \<le> limit" using few 2 by linarith
      moreover from this have "length ?new \<le> nat limit" by linarith
      ultimately show ?thesis by (simp add: window_of_def)
    qed
    ultimately show ?thesis by simp
  next
    case 3
    from first_stable [OF srv v upper(1) 3(2,1) upper(2) last(1)] obtain k1 where
      f: "findArchiveFirstSequenceAfterUID srv (length v) lastUID upper k = (Inr (passed v lastUID + 1), k1)" by blast
    have d: "discoverArchiveUIDs srv (length v) lastUID upper limit k =
        (if passed v lastUID + 1 > length v then ret ([], False, upper)
         else read_window srv (length v) lastUID upper limit (passed v lastUID + 1)) k1"
      using 3 limit by (simp add: discoverArchiveUIDs_def andthen_step [of "findArchiveFirstSequenceAfterUID srv (length v) lastUID upper", OF f])
    show ?thesis
    proof (cases "passed v lastUID + 1 > length v")
      case True
      have "length v = passed v lastUID + length ?new"
        using arg_cong [OF old_then_new [OF s, of lastUID], of length] by (simp add: passed_def)
      then have "?new = []" using True by simp
      then show ?thesis using d True limit by (simp add: window_of_def)
    next
      case False
      then show ?thesis using d read_window_stable [OF srv v upper(1) refl _ limit, of lastUID k1] by simp
    qed
  qed
qed

end
