(* ===== verification/MailFetchFacts.thy ===== *)
theory MailFetchFacts
  imports MailFetch MailWindowStable RecipientFacts
begin

section \<open>What a fetched result promises to the store\<close>

subsection \<open>Aliases of the account\<close>

lemma prepared_aliases:
  assumes "prepare_aliases p account m as seenIDs idx ks = Inr (idx', ks')"
  shows "(\<forall>a \<in> set as. a_Enabled a \<longrightarrow> a_AccountID a = ac_ID account \<and> 0 < a_ID a \<and> a_ID a \<notin> set seenIDs) \<and>
    distinct (map a_ID (filter a_Enabled as)) \<and> (ks' = [] \<longrightarrow> ks = [] \<and> (\<forall>a \<in> set as. \<not> a_Enabled a))"
  using assms
proof (induction p account m as seenIDs idx ks rule: prepare_aliases.induct)
  case (2 p account m a as seenIDs idx ks)
  show ?case
  proof (cases "a_Enabled a")
    case False
    with 2 show ?thesis by simp
  next
    case True
    with "2.prems" obtain address where a: "a_AccountID a = ac_ID account" "0 < a_ID a" "a_ID a \<notin> set seenIDs"
      "\<not> (NormalizeMailboxType (ac_MailboxType account) \<noteq> MailboxTypeCustom \<and> m > 0 \<and> int (length seenIDs) \<ge> m)"
      and n: "normalizeAliasAddress p (a_Address a) = Some address"
      and r: "prepare_aliases p account m as (a_ID a # seenIDs)
         (idx(address \<mapsto> (case idx address of None \<Rightarrow> [] | Some ids \<Rightarrow> ids) @ [a_ID a])) (List.insert address ks) = Inr (idx', ks')"
      by (auto simp: not_le split: if_splits option.splits)
    have "(\<forall>b \<in> set as. a_Enabled b \<longrightarrow> a_AccountID b = ac_ID account \<and> 0 < a_ID b \<and> a_ID b \<notin> set (a_ID a # seenIDs)) \<and>
        distinct (map a_ID (filter a_Enabled as)) \<and>
        (ks' = [] \<longrightarrow> List.insert address ks = [] \<and> (\<forall>b \<in> set as. \<not> a_Enabled b))"
      by (rule "2.IH"(2) [OF _ _ _ _ _ n r]) (use True a in auto)
    moreover have "List.insert address ks \<noteq> []" by (auto simp: List.insert_def)
    ultimately show ?thesis using True a(1-3) by auto
  qed
qed auto

lemma prepared_index:
  assumes "prepare_aliases p account m as seenIDs idx ks = Inr (idx', ks')" and "idx' x = Some l" and "i \<in> set l"
  shows "(\<exists>l0. idx x = Some l0 \<and> i \<in> set l0) \<or> (\<exists>a \<in> set as. a_Enabled a \<and> a_ID a = i \<and> normalizeAliasAddress p (a_Address a) = Some x)"
  using assms
  by (induction p account m as seenIDs idx ks rule: prepare_aliases.induct) (fastforce split: if_splits option.splits)+

subsection \<open>Classified messages\<close>

lemma ids_distinct: "aliasIDsForAddresses as aliases = Some ids \<Longrightarrow> distinct ids"
  by (auto simp: aliasIDsForAddresses_def Let_def split: if_splits)

lemma custom_ids_distinct:
  assumes "custom_ids aliases as seenIDs ids = Some ids'" and "distinct ids" and "set ids \<subseteq> dom seenIDs"
  shows "distinct ids'"
  using assms
  by (induction aliases as seenIDs ids rule: custom_ids.induct) (fastforce split: option.splits list.splits if_splits)+

lemma classified_distinct:
  assumes "classifyArchiveRecipientAliases p h aliases a allowWeak = Some ids"
  shows "distinct ids"
proof -
  have "distinct ids" if "classifyCustomRecipientAliases p h aliases allowWeak = Some ids"
    using that custom_ids_distinct [of aliases _ Map.empty "[]"]
    by (auto simp: classifyCustomRecipientAliases_def split: option.splits if_splits)
  moreover have "distinct ids" if "classifyICloudRecipientAliases p h aliases a allowWeak = Some ids"
    using that
    by (auto simp: classifyICloudRecipientAliases_def iCloudStrongAliasIDs_def visibleAliasIDs_def Let_def
        split: option.splits if_splits hme_header.splits dest: ids_distinct)
  ultimately show ?thesis using assms by (auto simp: classifyArchiveRecipientAliases_def Let_def split: if_splits)
qed

text \<open>The addresses that a header names in a field the program consults at all.\<close>

definition named_in :: "address_parser \<Rightarrow> mail_header \<Rightarrow> string \<Rightarrow> bool" where
  "named_in p h x \<longleftrightarrow> names_address p h strongRecipientHeaderFields x \<or> names_address p h weakRecipientHeaderFields x"

lemma classified_named:
  assumes "classifyArchiveRecipientAliases p h aliases a allowWeak = Some ids" and "i \<in> set ids"
  shows "\<exists>x. aliases x = Some [i] \<and> named_in p h x"
proof -
  consider "classifyCustomRecipientAliases p h aliases allowWeak = Some ids" | "classifyICloudRecipientAliases p h aliases a allowWeak = Some ids"
    using assms(1) by (auto simp: classifyArchiveRecipientAliases_def Let_def split: if_splits)
  then show ?thesis
  proof cases
    case 1
    from custom_sound [OF this assms(2)] show ?thesis by (auto simp: named_in_def)
  next
    case 2
    from icloud_sound [OF this assms(2)] show ?thesis
      by (cases "parseICloudHMERoute p h") (auto simp: named_in_def routed_address_def)
  qed
qed

subsection \<open>Candidates\<close>

lemma candidate_of_Some:
  assumes "candidate_of env settings aliases account item header truncated = Some c" and "\<not> is_zero_time (fe_now env)"
  shows "\<not> truncated \<and> cd_uid c = fi_uid item \<and> \<not> is_zero_time (cd_internalDate c) \<and> cd_aliasIDs c \<noteq> [] \<and>
    (\<exists>h. fe_headers env header = Some h \<and>
       classifyArchiveRecipientAliases (fe_addresses env) h aliases account (se_allowWeakRecipientHeaders settings) = Some (cd_aliasIDs c))"
  using assms by (auto simp: candidate_of_def Let_def split: if_splits option.splits)

lemma candidates_read:
  assumes "candidate_items env settings aliases account requested seen items = Inr cs" and "\<not> is_zero_time (fe_now env)"
  shows "distinct (map cd_uid cs) \<and>
    (\<forall>c \<in> set cs. cd_uid c \<in> set requested \<and> cd_uid c \<noteq> 0 \<and> cd_uid c \<notin> set seen \<and>
       (\<exists>item \<in> set items. \<exists>header.
          read_header (se_maxHeaderBytes settings) (fi_literal item) = Some (header, False) \<and>
          candidate_of env settings aliases account item header False = Some c))"
  using assms(1)
proof (induction env settings aliases account requested seen items arbitrary: cs rule: candidate_items.induct)
  case (2 env settings aliases account requested seen item items)
  from "2.prems" obtain header truncated rest where h: "read_header (se_maxHeaderBytes settings) (fi_literal item) = Some (header, truncated)"
    and i: "fi_uid item \<in> set requested" "fi_uid item \<noteq> 0" "fi_uid item \<notin> set seen"
    and r: "candidate_items env settings aliases account requested (fi_uid item # seen) items = Inr rest"
    and cs: "cs = (case candidate_of env settings aliases account item header truncated of None \<Rightarrow> rest | Some c \<Rightarrow> c # rest)"
    by (auto simp: bind_res_def split: option.splits if_splits sum.splits)
  from i h have ih: "distinct (map cd_uid rest) \<and>
    (\<forall>c \<in> set rest. cd_uid c \<in> set requested \<and> cd_uid c \<noteq> 0 \<and> cd_uid c \<notin> set (fi_uid item # seen) \<and>
       (\<exists>item \<in> set items. \<exists>header.
          read_header (se_maxHeaderBytes settings) (fi_literal item) = Some (header, False) \<and>
          candidate_of env settings aliases account item header False = Some c))"
    by (intro "2.IH" [OF h refl _ _ r]) auto
  show ?case
  proof (cases "candidate_of env settings aliases account item header truncated")
    case None
    with ih cs show ?thesis by auto
  next
    case (Some c)
    then have "\<not> truncated" "cd_uid c = fi_uid item" by (auto simp: candidate_of_def Let_def split: if_splits option.splits)
    with Some ih cs i h show ?thesis by auto
  qed
qed simp

subsection \<open>Content\<close>

text \<open>What the content must keep of the candidate.\<close>

definition of_candidate :: "int \<Rightarrow> int \<Rightarrow> archive_candidate \<Rightarrow> archived_message \<Rightarrow> bool" where
  "of_candidate account uidValidity c a \<longleftrightarrow>
     ar_AccountID a = account \<and> ar_UIDValidity a = uidValidity \<and> ar_UID a = cd_uid c \<and> ar_AliasIDs a = cd_aliasIDs c \<and>
     \<not> is_zero_time (ar_InternalDate a)"

lemma with_otp_keeps: "with_otp env s t h a = Inr a' \<Longrightarrow> of_candidate account v c a \<Longrightarrow> of_candidate account v c a'"
  by (auto simp: with_otp_def of_candidate_def split: option.splits)

lemma content_item_keeps:
  "content_item env settings k uid item s = Inr s' \<Longrightarrow> of_candidate account v c (ct_archived s) \<Longrightarrow> of_candidate account v c (ct_archived s')"
  by (auto simp: content_item_def Let_def bind_res_def of_candidate_def split: option.splits if_splits sum.splits)

lemma content_items_keep:
  "fold_res (content_item env settings k uid) items s = Inr s' \<Longrightarrow> of_candidate account v c (ct_archived s) \<Longrightarrow>
     of_candidate account v c (ct_archived s')"
proof (induction items arbitrary: s)
  case (Cons item items)
  then show ?case by (auto simp: bind_res_def split: sum.splits dest: content_item_keeps)
qed simp

lemma finish_keeps: "finish_content env s = Inr a \<Longrightarrow> of_candidate account v c (ct_archived s) \<Longrightarrow> of_candidate account v c a"
  by (auto simp: finish_content_def Let_def split: option.splits if_splits elim!: with_otp_keeps)
    (auto simp: of_candidate_def projectParsedArchiveContent_def)

lemma message_keeps:
  assumes "fetchArchivedMessage env settings srv account v syncedAt c k = (Inr a, k')" and "\<not> is_zero_time (cd_internalDate c)"
  shows "of_candidate account v c a"
proof -
  have start: "of_candidate account v c (archived_of account v syncedAt c)" using assms(2) by (simp add: of_candidate_def archived_of_def Let_def)
  then have "of_candidate account v c ((archived_of account v syncedAt c)\<lparr>ar_ContentState := st\<rparr>)" for st by (simp add: of_candidate_def)
  then show ?thesis using assms(1) start
    by (auto simp: fetchArchivedMessage_def Let_def bind_res_def split: if_splits prod.splits sum.splits
        elim!: with_otp_keeps finish_keeps content_items_keep)
qed

lemma messages_keep:
  "fetch_messages env settings srv account v syncedAt cs k = (Inr ms, k') \<Longrightarrow> \<forall>c \<in> set cs. \<not> is_zero_time (cd_internalDate c) \<Longrightarrow>
     list_all2 (of_candidate account v) cs ms"
  by (induction cs arbitrary: k ms) (auto simp: andthen_Inr intro: message_keeps)

subsection \<open>The mailbox\<close>

text \<open>A header that the server sent for a message, read to its end and parsed.\<close>

definition sent_header :: "fetch_env \<Rightarrow> fetch_settings \<Rightarrow> imap_server \<Rightarrow> int \<Rightarrow> mail_header \<Rightarrow> bool" where
  "sent_header env settings srv uid h \<longleftrightarrow>
     (\<exists>k uids item header. item \<in> set (fst (srv_headers srv k uids)) \<and> fi_uid item = uid \<and>
        read_header (se_maxHeaderBytes settings) (fi_literal item) = Some (header, False) \<and> fe_headers env header = Some h)"

definition good_message ::
  "fetch_env \<Rightarrow> fetch_settings \<Rightarrow> imap_server \<Rightarrow> account \<Rightarrow> alias_index \<Rightarrow> int \<Rightarrow> int \<Rightarrow> archived_message \<Rightarrow> bool" where
  "good_message env settings srv account byAddress v lastUID m \<longleftrightarrow>
     ar_AccountID m = ac_ID account \<and> ar_UIDValidity m = v \<and> ar_UID m \<noteq> 0 \<and> ar_UID m \<le> lastUID \<and>
     \<not> is_zero_time (ar_InternalDate m) \<and> ar_AliasIDs m \<noteq> [] \<and> distinct (ar_AliasIDs m) \<and>
     (\<forall>i \<in> set (ar_AliasIDs m). \<exists>x h. byAddress x = Some [i] \<and> sent_header env settings srv (ar_UID m) h \<and>
        named_in (fe_addresses env) h x)"

lemma headers_fetched:
  assumes f: "fetchArchiveCandidateHeaders env settings srv uids byAddress account k = (Inr cs, k')"
    and now: "\<not> is_zero_time (fe_now env)"
  shows "distinct (map cd_uid cs)" and "c \<in> set cs \<Longrightarrow> cd_uid c \<in> set uids \<and> cd_uid c \<noteq> 0 \<and> \<not> is_zero_time (cd_internalDate c) \<and>
    cd_aliasIDs c \<noteq> [] \<and> distinct (cd_aliasIDs c) \<and>
    (\<forall>i \<in> set (cd_aliasIDs c). \<exists>x h. byAddress x = Some [i] \<and> sent_header env settings srv (cd_uid c) h \<and>
       named_in (fe_addresses env) h x)"
proof -
  from f obtain items where items: "fst (srv_headers srv k uids) = items"
    and read: "\<exists>ds. candidate_items env settings byAddress account uids [] items = Inr ds \<and> cs = sort_key cd_uid ds"
    by (auto simp: fetchArchiveCandidateHeaders_def split: prod.splits sum.splits if_splits)
  from read obtain ds where ds: "candidate_items env settings byAddress account uids [] items = Inr ds" and cs: "cs = sort_key cd_uid ds" by blast
  note cand = candidates_read [OF ds now]
  show "distinct (map cd_uid cs)" using cand by (simp add: cs distinct_map inj_on_def)
  assume "c \<in> set cs"
  then have c: "c \<in> set ds" by (simp add: cs)
  with cand obtain item header where item: "item \<in> set items" "read_header (se_maxHeaderBytes settings) (fi_literal item) = Some (header, False)"
    and of_item: "candidate_of env settings byAddress account item header False = Some c"
    and uid: "cd_uid c \<in> set uids" "cd_uid c \<noteq> 0" by blast
  from candidate_of_Some [OF of_item now] obtain h where h: "fe_headers env header = Some h"
    and cl: "classifyArchiveRecipientAliases (fe_addresses env) h byAddress account (se_allowWeakRecipientHeaders settings) = Some (cd_aliasIDs c)"
    and keep: "cd_uid c = fi_uid item" "\<not> is_zero_time (cd_internalDate c)" "cd_aliasIDs c \<noteq> []" by blast
  have "sent_header env settings srv (cd_uid c) h"
    unfolding sent_header_def using item h keep(1) items by (intro exI [of _ k] exI [of _ uids] exI [of _ item] exI [of _ header]) simp
  then show "cd_uid c \<in> set uids \<and> cd_uid c \<noteq> 0 \<and> \<not> is_zero_time (cd_internalDate c) \<and> cd_aliasIDs c \<noteq> [] \<and> distinct (cd_aliasIDs c) \<and>
    (\<forall>i \<in> set (cd_aliasIDs c). \<exists>x h. byAddress x = Some [i] \<and> sent_header env settings srv (cd_uid c) h \<and> named_in (fe_addresses env) h x)"
    using uid keep classified_distinct [OF cl] classified_named [OF cl] by blast
qed

lemma messages_fetched:
  assumes h: "fetchArchiveCandidateHeaders env settings srv uids byAddress account k = (Inr cs, k1)"
    and m: "fetch_messages env settings srv (ac_ID account) v syncedAt cs k1 = (Inr ms, k')"
    and now: "\<not> is_zero_time (fe_now env)" and uids: "\<forall>u \<in> set uids. u \<le> lastUID"
  shows "distinct (map ar_UID ms) \<and> (\<forall>m \<in> set ms. good_message env settings srv account byAddress v lastUID m)"
proof -
  note heads = headers_fetched [OF h now]
  have all: "list_all2 (of_candidate (ac_ID account) v) cs ms"
    by (rule messages_keep [OF m]) (use heads(2) in blast)
  have "map ar_UID ms = map cd_uid cs"
    using all by (induction rule: list_all2_induct) (simp_all add: of_candidate_def)
  moreover have "good_message env settings srv account byAddress v lastUID m" if m: "m \<in> set ms" for m
  proof -
    from m all obtain c where c: "c \<in> set cs" "of_candidate (ac_ID account) v c m"
      by (metis in_set_conv_nth list_all2_conv_all_nth)
    show ?thesis using heads(2) [OF c(1)] c(2) uids by (auto simp: good_message_def of_candidate_def)
  qed
  ultimately show ?thesis using heads(1) by simp
qed

lemma mailbox_read:
  assumes r: "read_mailbox env settings srv account byAddress previous mailbox k = (Inr (ms, lastUID, hasMore), k')"
    and now: "\<not> is_zero_time (fe_now env)"
  shows "distinct (map ar_UID ms) \<and> (\<forall>m \<in> set ms. good_message env settings srv account (fst byAddress) (sm_UIDValidity mailbox) lastUID m)"
    and "previous = Some prev \<Longrightarrow> ss_AccountID prev = ac_ID account \<Longrightarrow> ss_UIDValidity prev = sm_UIDValidity mailbox \<Longrightarrow>
      snd byAddress \<noteq> [] \<Longrightarrow> ss_LastUID prev \<le> lastUID"
proof -
  have "(distinct (map ar_UID ms) \<and> (\<forall>m \<in> set ms. good_message env settings srv account (fst byAddress) (sm_UIDValidity mailbox) lastUID m)) \<and>
    (previous = Some prev \<longrightarrow> ss_AccountID prev = ac_ID account \<longrightarrow> ss_UIDValidity prev = sm_UIDValidity mailbox \<longrightarrow>
      snd byAddress \<noteq> [] \<longrightarrow> ss_LastUID prev \<le> lastUID)" for prev
  proof (cases "ms = [] \<and> (snd byAddress = [] \<or> previous = None \<or>
      (\<exists>p. previous = Some p \<and> (ss_AccountID p \<noteq> ac_ID account \<or> ss_UIDValidity p \<noteq> sm_UIDValidity mailbox \<or>
         ss_LastUID p = lastUID)))")
    case True
    then show ?thesis by auto
  next
    case False
    with r obtain p uids hm k1 where p: "previous = Some p"
      and d: "discoverArchiveUIDs srv (sm_NumMessages mailbox) (ss_LastUID p) (sm_UIDNext mailbox - 1)
          (se_maxIncrementalCandidates settings) k = (Inr (uids, hm, lastUID), k1)"
      and rest: "ms = [] \<or> (\<exists>cs k2 k3. fetchArchiveCandidateHeaders env settings srv uids (fst byAddress) account k1 = (Inr cs, k2) \<and>
          fetch_messages env settings srv (ac_ID account) (sm_UIDValidity mailbox) (fe_now env) cs k2 = (Inr ms, k3))"
      by (auto simp: read_mailbox_def Let_def andthen_Inr split: if_splits option.splits prod.splits)
    note inside = window_inside [OF d]
    from rest have "distinct (map ar_UID ms) \<and>
        (\<forall>m \<in> set ms. good_message env settings srv account (fst byAddress) (sm_UIDValidity mailbox) lastUID m)"
    proof
      assume "\<exists>cs k2 k3. fetchArchiveCandidateHeaders env settings srv uids (fst byAddress) account k1 = (Inr cs, k2) \<and>
          fetch_messages env settings srv (ac_ID account) (sm_UIDValidity mailbox) (fe_now env) cs k2 = (Inr ms, k3)"
      then show ?thesis using messages_fetched [OF _ _ now] inside by blast
    qed simp
    then show ?thesis using inside p by auto
  qed
  then show "distinct (map ar_UID ms) \<and> (\<forall>m \<in> set ms. good_message env settings srv account (fst byAddress) (sm_UIDValidity mailbox) lastUID m)"
    and "previous = Some prev \<Longrightarrow> ss_AccountID prev = ac_ID account \<Longrightarrow> ss_UIDValidity prev = sm_UIDValidity mailbox \<Longrightarrow>
      snd byAddress \<noteq> [] \<Longrightarrow> ss_LastUID prev \<le> lastUID" by blast+
qed

subsection \<open>One synchronisation\<close>

lemma fetched_parts:
  assumes "fetchArchiveIncremental env settings srv account password aliases previous positions k = (Inr result, k')"
  obtains byAddress ks mailbox ms lastUID hasMore updates k1 k2 where
    "prepareAliases (fe_addresses env) account aliases (se_maxAliases settings) = Inr (byAddress, ks)"
    and "validateLegacySnapshotPositions aliases positions = Inr ()" and "sm_UIDValidity mailbox \<noteq> 0"
    and "read_mailbox env settings srv account (byAddress, ks) previous mailbox k = (Inr (ms, lastUID, hasMore), k1)"
    and "reconcileLegacySnapshotPositions srv positions (sm_UIDValidity mailbox) k1 = (Inr updates, k2)"
    and "sr_ArchivedMessages result = ms" and "sr_LegacySnapshotUpdates result = updates"
    and "sr_State result = \<lparr>ss_AccountID = ac_ID account, ss_UIDValidity = sm_UIDValidity mailbox, ss_LastUID = lastUID,
      ss_UpdatedAt = fe_now env\<rparr>"
    and "sr_Reset result = (case previous of None \<Rightarrow> True
      | Some prev \<Rightarrow> ss_AccountID prev \<noteq> ac_ID account \<or> ss_UIDValidity prev \<noteq> sm_UIDValidity mailbox)"
proof (cases "srv_select srv")
  case None
  with assms show thesis by (auto simp: fetchArchiveIncremental_def andthen_Inr lift_res_def)
next
  case (Some mailbox)
  from assms obtain byAddress ks ms lastUID hasMore updates k1 where parts:
    "prepareAliases (fe_addresses env) account aliases (se_maxAliases settings) = Inr (byAddress, ks)"
    "validateLegacySnapshotPositions aliases positions = Inr ()" "sm_UIDValidity mailbox \<noteq> 0"
    "read_mailbox env settings srv account (byAddress, ks) previous mailbox k = (Inr (ms, lastUID, hasMore), k1)"
    "reconcileLegacySnapshotPositions srv positions (sm_UIDValidity mailbox) k1 = (Inr updates, k')"
    "result = \<lparr>sr_ArchivedMessages = ms, sr_LegacySnapshotUpdates = updates,
       sr_State = \<lparr>ss_AccountID = ac_ID account, ss_UIDValidity = sm_UIDValidity mailbox, ss_LastUID = lastUID, ss_UpdatedAt = fe_now env\<rparr>,
       sr_Reset = (case previous of None \<Rightarrow> True
          | Some prev \<Rightarrow> ss_AccountID prev \<noteq> ac_ID account \<or> ss_UIDValidity prev \<noteq> sm_UIDValidity mailbox),
       sr_HasMore = hasMore, sr_TargetUID = sm_UIDNext mailbox - 1\<rparr>"
    by (auto simp: fetchArchiveIncremental_def Some andthen_Inr lift_res_def split: if_splits)
  show thesis by (rule that [OF parts(1-5)]) (simp_all add: parts(6))
qed

lemma good_message_valid:
  assumes al: "prepareAliases p account aliases n = Inr (byAddress, ks)" and m: "good_message env settings srv account byAddress v lastUID m"
    and "ss_UIDValidity (sr_State result) = v" and "ss_LastUID (sr_State result) = lastUID"
  shows "valid_message (ac_ID account) result (filter a_Enabled aliases) m"
proof -
  have "i \<in> set (map a_ID (filter a_Enabled aliases))" if "i \<in> set (ar_AliasIDs m)" for i
  proof -
    from m that obtain x where "byAddress x = Some [i]" unfolding good_message_def by blast
    from prepared_index [OF al [unfolded prepareAliases_def] this, of i] show ?thesis by auto
  qed
  then show ?thesis using m assms(3,4) by (auto simp: valid_message_def good_message_def)
qed

lemma snapshot_updates_valid:
  assumes "reconcileLegacySnapshotPositions srv positions v k = (Inr updates, k')" and "validateLegacySnapshotPositions aliases positions = Inr ()"
    and "e \<in> set updates" and "ss_UIDValidity (sr_State result) = v"
  shows "valid_update result (filter a_Enabled aliases) e"
proof -
  from assms(1) obtain found where "updates = legacySnapshotUpdatesForFoundUIDs positions v found"
    by (auto simp: reconcileLegacySnapshotPositions_def Let_def split: if_splits prod.splits)
  with assms(3) obtain i pos where e: "(i, pos) \<in> set positions" "e = (i, emptyLegacySnapshot i v)"
    by (auto simp: legacySnapshotUpdatesForFoundUIDs_def split: if_splits)
  from assms(2) e(1) have "\<exists>a \<in> set aliases. a_Enabled a \<and> a_ID a = i"
    by (auto simp: validateLegacySnapshotPositions_def list_all_iff list_ex_iff split: if_splits)
  then show ?thesis using e(2) assms(4) by (auto simp: valid_update_def emptyLegacySnapshot_def)
qed

end
