(* ===== verification/MailFetchProps.thy ===== *)
theory MailFetchProps
  imports MailFetchFacts MailProps
begin

section \<open>The properties of mail fetching\<close>

subsection \<open>The contract with the store\<close>


text \<open>C14: A fetched message is archived only for aliases of the account that are enabled and whose address the message
  names: the server sent, for this UID, a header that was read to its end and that names the alias's address in a
  routing, delivery or recipient field.\<close>

theorem fetched_for_named_alias:
  assumes fetched: "fetchArchiveIncremental env settings srv account password aliases previous positions k = (Inr result, k')"
    and "\<not> is_zero_time (fe_now env)" and "m \<in> set (sr_ArchivedMessages result)" and "i \<in> set (ar_AliasIDs m)"
  shows "\<exists>a h x. a \<in> set aliases \<and> a_ID a = i \<and> a_Enabled a \<and> a_AccountID a = ac_ID account \<and>
    normalizeAliasAddress (fe_addresses env) (a_Address a) = Some x \<and>
    sent_header env settings srv (ar_UID m) h \<and> named_in (fe_addresses env) h x"
  using fetched
proof (rule fetched_parts)
  fix byAddress ks mailbox ms lastUID hasMore k1
  assume msgs: "sr_ArchivedMessages result = ms" and al: "prepareAliases (fe_addresses env) account aliases (se_maxAliases settings) = Inr (byAddress, ks)"
    and r: "read_mailbox env settings srv account (byAddress, ks) previous mailbox k = (Inr (ms, lastUID, hasMore), k1)"
  have "good_message env settings srv account byAddress (sm_UIDValidity mailbox) lastUID m"
    using mailbox_read(1) [OF r assms(2)] assms(3) msgs by simp
  then obtain x h where x: "byAddress x = Some [i]" and h: "sent_header env settings srv (ar_UID m) h" "named_in (fe_addresses env) h x"
    using assms(4) unfolding good_message_def by blast
  from prepared_index [OF al [unfolded prepareAliases_def] x, of i]
  obtain a where a: "a \<in> set aliases" "a_Enabled a" "a_ID a = i" "normalizeAliasAddress (fe_addresses env) (a_Address a) = Some x" by auto
  moreover have "a_AccountID a = ac_ID account" using prepared_aliases [OF al [unfolded prepareAliases_def]] a(1,2) by blast
  ultimately show ?thesis using h by blast
qed

subsection \<open>The window\<close>

text \<open>C3: No message is skipped, whatever other clients do meanwhile: when a window is found, it holds only UIDs after
  the cursor, it moves the cursor forward or reaches the upper bound, and every message that is still in the mailbox
  afterwards with a UID up to the new cursor is in it.\<close>

theorem no_message_skipped:
  assumes "answers srv views" and "mailbox_views views k0 n upper" and "k0 \<le> k"
    and "discoverArchiveUIDs srv n lastUID upper limit k = (Inr w, k')"
  shows "complete_window views k' lastUID upper w"
  using window_complete [OF assms] by blast

text \<open>C15: On a mailbox that does not change, the search by sequence numbers ends with a result, and the result is the
  first messages after the cursor, as many as the limit allows.\<close>

theorem window_is_first_messages:
  assumes "serves srv v" and "uid_list v" and "list_all (\<lambda>u. u \<le> upper) v" and "upper < 4294967296"
    and "0 \<le> lastUID" and "lastUID \<le> upper" and "1 \<le> limit" and "limit \<le> 1024"
  shows "fst (discoverArchiveUIDs srv (length v) lastUID upper limit k) = Inr (window_of v lastUID upper limit)"
  using window_stable [OF assms(1,2) _ assms(4-), of k] assms(3) by (auto simp: list_all_iff)

subsection \<open>The properties at concrete inputs\<close>

text \<open>A server that answers from the mailbox, as it is at each command; every message is for the alias of the account.\<close>

definition plain_item :: "int \<Rightarrow> fetched_item" where
  "plain_item u = \<lparr>fi_uid = u, fi_date = 50, fi_rawSize = Some 4, fi_seen = False,
     fi_literal = Some \<lparr>lt_size = 4, lt_bytes = ''head'', lt_complete = True\<rparr>\<rparr>"

definition mailbox_server :: "(nat \<Rightarrow> int list) \<Rightarrow> imap_server" where
  "mailbox_server views =
     \<lparr>srv_select = Some \<lparr>sm_UIDValidity = 1, sm_UIDNext = 13, sm_NumMessages = length (views 0)\<rparr>,
      srv_fetch = (\<lambda>k a b. (map (\<lambda>s. \<lparr>sq_sequence = s, sq_uid = views k ! (s - 1), sq_seen = False\<rparr>)
                          (filter (\<lambda>s. 1 \<le> s \<and> s \<le> length (views k)) [a..<Suc b]), True)),
      srv_search = (\<lambda>k a b. Some (filter (\<lambda>u. a \<le> u \<and> u \<le> b) (views k))),
      srv_uids = (\<lambda>k us. (filter (\<lambda>u. u \<in> set (views k)) us, True)),
      srv_headers = (\<lambda>k us. (map plain_item (filter (\<lambda>u. u \<in> set (views k)) us), True)),
      srv_content = (\<lambda>k u. ([plain_item u], True))\<rparr>"

lemma mailbox_server_answers: "answers (mailbox_server views) views"
  by (auto simp: answers_def mailbox_server_def simp del: upt_Suc)

lemma mailbox_server_serves: "serves (mailbox_server (\<lambda>_. v)) v"
proof -
  have "filter (\<lambda>s. 1 \<le> s \<and> s \<le> length v) [a..<Suc b] = [a..<Suc b]" if "1 \<le> a" "b \<le> length v" for a b
    using that by (simp add: filter_id_conv del: upt_Suc)
  then show ?thesis by (simp add: serves_def mailbox_server_def comp_def del: upt_Suc One_nat_def)
qed

text \<open>A message arrives while the mailbox is read, and one is expunged afterwards.\<close>

definition busy_mailbox :: "nat \<Rightarrow> int list" where
  "busy_mailbox k = (if k < 3 then [2, 5, 9, 12] else if k < 7 then [2, 5, 9, 12, 14] else [2, 9, 12, 14])"

lemma busy_mailbox_views: "mailbox_views busy_mailbox 0 4 12"
  by (auto simp: mailbox_views_def busy_mailbox_def)

lemma no_message_skipped_witness: "complete_window busy_mailbox 7 2 12 ([5, 9], True, 9)"
proof (rule no_message_skipped [OF mailbox_server_answers busy_mailbox_views order_refl])
  show "discoverArchiveUIDs (mailbox_server busy_mailbox) 4 2 12 2 0 = (Inr ([5, 9], True, 9), 7)" by code_simp
qed

lemma window_is_first_messages_witness:
  "fst (discoverArchiveUIDs (mailbox_server (\<lambda>_. [2, 5, 9, 12])) 4 2 12 2 0) = Inr ([5, 9], True, 9)"
proof -
  have "fst (discoverArchiveUIDs (mailbox_server (\<lambda>_. [2, 5, 9, 12])) (length [2, 5, 9, 12 :: int]) 2 12 2 0) =
      Inr (window_of [2, 5, 9, 12] 2 12 2)"
    by (rule window_is_first_messages [OF mailbox_server_serves]) (simp_all add: uid_list_def)
  moreover have "length [2, 5, 9, 12 :: int] = 4" "window_of [2, 5, 9, 12] 2 12 2 = ([5, 9], True, 9)" by (simp_all add: window_of_def)
  ultimately show ?thesis by (simp only:)
qed

definition plain_message :: parsed_message where
  "plain_message = \<lparr>pm_messageID = ''m'', pm_headerDate = None, pm_from = [], pm_to = [], pm_cc = [], pm_subject = ''s'',
     pm_textBody = ''t'', pm_htmlBody = [], pm_attachments = [], pm_bodyTruncated = False\<rparr>"

definition plain_env :: fetch_env where
  "plain_env = \<lparr>fe_now = 60, fe_addresses = plain_parser, fe_headers = (\<lambda>_. Some delivered), fe_metadata = (\<lambda>_. Some plain_message),
     fe_message = (\<lambda>_. Some plain_message), fe_otp = (\<lambda>_ _ _. Some []), fe_digest = (\<lambda>_. ''d''), fe_stage = (\<lambda>_. Some ''/tmp/s'')\<rparr>"

definition plain_settings :: fetch_settings where
  "plain_settings = \<lparr>se_maxAliases = 1000, se_maxCandidates = 1024, se_maxIncrementalCandidates = 2, se_maxHeaderBytes = 100,
     se_maxMessageBytes = 1000, se_allowWeakRecipientHeaders = False, se_archiveTempDir = ''/tmp''\<rparr>"

definition enabled_account :: account where
  "enabled_account = plain_account\<lparr>ac_ID := 7, ac_Enabled := True, ac_IMAPPort := 993\<rparr>"

definition stored_cursor :: sync_state where
  "stored_cursor = \<lparr>ss_AccountID = 7, ss_UIDValidity = 1, ss_LastUID = 2, ss_UpdatedAt = 40\<rparr>"

definition fetched_now :: "fetch_error + sync_result" where
  "fetched_now = fst (fetchArchiveIncremental plain_env plain_settings (mailbox_server busy_mailbox) enabled_account ''pw'' [small_alias]
     (Some stored_cursor) [(3, \<lparr>sp_AliasID = 3, sp_UIDValidity = 1, sp_UID = 1\<rparr>)] 0)"

lemma fetched_now_is: "case fetched_now of Inl _ \<Rightarrow> False
   | Inr r \<Rightarrow> map ar_UID (sr_ArchivedMessages r) = [9] \<and> map ar_AliasIDs (sr_ArchivedMessages r) = [[3]] \<and>
       ss_LastUID (sr_State r) = 9 \<and> sr_HasMore r"
  by code_simp

lemma fetched_result:
  obtains r k' where "fetchArchiveIncremental plain_env plain_settings (mailbox_server busy_mailbox) enabled_account ''pw'' [small_alias]
      (Some stored_cursor) [(3, \<lparr>sp_AliasID = 3, sp_UIDValidity = 1, sp_UID = 1\<rparr>)] 0 = (Inr r, k')"
    and "fetched_now = Inr r"
  using fetched_now_is that unfolding fetched_now_def by (metis (no_types, lifting) old.sum.simps(5) prod.collapse sum.exhaust)


lemma fetched_for_named_alias_witness: "\<exists>h x. sent_header plain_env plain_settings (mailbox_server busy_mailbox) 9 h \<and>
    named_in plain_parser h x \<and> normalizeAliasAddress plain_parser (a_Address small_alias) = Some x"
proof -
  obtain r k' where f: "fetchArchiveIncremental plain_env plain_settings (mailbox_server busy_mailbox) enabled_account ''pw'' [small_alias]
      (Some stored_cursor) [(3, \<lparr>sp_AliasID = 3, sp_UIDValidity = 1, sp_UID = 1\<rparr>)] 0 = (Inr r, k')" and r: "fetched_now = Inr r"
    by (rule fetched_result)
  from fetched_now_is [unfolded r] obtain m where m: "m \<in> set (sr_ArchivedMessages r)" "ar_UID m = 9" "ar_AliasIDs m = [3]"
    by (cases "sr_ArchivedMessages r") auto
  have "\<not> is_zero_time (fe_now plain_env)" by (simp add: plain_env_def is_zero_time_def zero_time_def)
  from fetched_for_named_alias [OF f this m(1), of 3] m(2,3) show ?thesis by (auto simp: plain_env_def)
qed

end
