(* ===== verification/Spec2Isabelle.thy ===== *)
theory Spec2Isabelle
  imports AppleErrors DeletionLease DeletionAttemptProps Domain AuditLog Admins DeletionQueueRuns Otp LogPages SecureBundle AdminPath ArchiveProps
    StoreProps StoreSearch QuarantineProps RecipientFacts RateLimit MailFetchProps
begin

text \<open>
  A verification development for the mailbox service under \<open>src/\<close>: a server that keeps aliases (Hide My
  Email addresses and addresses of custom mailboxes), reads their mail from an upstream IMAP account,
  archives it, and serves it to clients through per-alias credentials. The Go packages under
  \<open>src/internal/\<close> are modelled from their source; definitions keep the names of the functions they
  model, and helper definitions in lower case stand for a named part of a function (a transaction, a
  loop, a branch).

  \<^bold>\<open>How the parts interact.\<close> The store (\<open>internal/store\<close>) owns all state in SQL tables. The fetcher
  (\<open>internal/mail\<close>) reads a window of new messages and decides which alias each is for; the store
  publishes the result in one transaction and moves the account's cursor. Clients read the archive and
  consume messages through the store. Creation, import, enabling, disabling and deletion of aliases
  change the set the fetcher routes to, so each of them must invalidate the cursor or the version that
  a running synchronisation holds. Deletions at Apple pass a durable queue (\<open>alias_deletion_queue.go\<close>)
  and a rolling quota (\<open>alias_deletion_quota.go\<close>); one attempt reads Apple's directory, deactivates and
  deletes the address under a lease on the quota and removes the local row
  (\<open>hmesync/alias_delete_queue.go\<close>, \<open>alias_delete_batch.go\<close>). Keys and tokens come from \<open>internal/secure\<close>, administrators and their
  sessions from \<open>store/admin.go\<close>, and what happens is recorded in the audit log and the application log.

  \<^bold>\<open>Values and tables.\<close> \<open>GoBase\<close>, \<open>Utf8\<close>, \<open>Base64\<close> and \<open>Sha256\<close> hold the parts of Go's library that the source
  uses: byte strings with their runes, \<open>strings\<close> and \<open>strconv\<close> functions, instants in nanoseconds with the
  zero time, 64-bit wrap-around, encodings and digests. \<open>Tables\<close> has tables as lists of rows with the
  statements on them, and results as sums. \<open>Domain\<close> has the normal forms of \<open>internal/domain\<close>.

  \<^bold>\<open>Components.\<close>
  \<^item> \<open>DeletionQuota\<close> (\<open>alias_deletion_quota.go\<close>): reservations and events of the quota; \<open>DeletionLease\<close>
    (\<open>hmesync/alias_delete_queue.go\<close>): the lease against the interface \<open>quota_repository\<close>, a locale that is
    interpreted on the quota. \<open>DeletionJob\<close>, \<open>DeletionQueue\<close>: jobs and the queue; \<open>DeletionQueueFacts\<close> and
    \<open>DeletionQueueRuns\<close>: the invariant of every run, the order and the fences of results.
    \<open>DeletionAttempt\<close>: one attempt as a sequence of calls to an environment (store, Apple, locks, clock),
    whose answers may change between any two calls, with a history of what it did; \<open>DeletionAttemptFacts\<close>
    gives the shape of every history, \<open>DeletionAttemptProps\<close> that a deletion is covered by an allowance and
    sent once, that the local row goes last, and that the reported flag is exact.
  \<^item> \<open>MailTables\<close>, \<open>ArchiveFiles\<close>, \<open>MailArchive\<close>, \<open>LatestMail\<close>, \<open>MailSync\<close>: the mail side of the store
    (\<open>archive.go\<close>, \<open>message.go\<close>, \<open>seen.go\<close>, \<open>imap_sync.go\<close>) on a record of tables and a file system;
    \<open>MailArchiveFacts\<close>, \<open>MailSyncFacts\<close>, \<open>MailSyncRuns\<close>, \<open>MailWellFormed\<close> carry the proofs of \<open>MailProps\<close> and
    \<open>ArchiveProps\<close>: stable UIDs, a cursor that only advances, a bounded archive. \<open>ArchiveQuarantine\<close> and
    \<open>QuarantineProps\<close>: the account directory while the mail source changes, with interruptions.
  \<^item> \<open>StoreTables\<close>, \<open>StoreCredentials\<close>, \<open>StoreAliases\<close>, \<open>StoreAccounts\<close>, \<open>StoreAutoAlias\<close>, \<open>StoreGroups\<close>,
    \<open>StoreImport\<close>: accounts, aliases, credentials, groups, automatic aliases and imports, one definition
    per method with its transaction and its early returns. \<open>StoreRuns\<close> is the step relation of all of them
    and of mail steps; its locale \<open>versioned_state\<close> carries the argument about versions. \<open>StoreFacts\<close> and
    \<open>StoreFences\<close> show what each operation does to version and cursor, \<open>StoreWellFormed\<close>, \<open>StoreWfSteps\<close>
    and \<open>StoreWfOps\<close> that tables stay well-formed, \<open>StoreLimit\<close> the limit of enabled aliases,
    \<open>StoreEnsure\<close> that the migration of credentials ends, \<open>StoreSearch\<close> what a search finds. \<open>StoreProps\<close>
    states the results.
  \<^item> \<open>Recipients\<close>, \<open>RecipientFacts\<close> (\<open>mail/recipients.go\<close>): which aliases a message is for, and that nothing
    is guessed. \<open>MailWindow\<close>, \<open>MailFetch\<close> (\<open>archive_fetcher_v2.go\<close>, \<open>fetcher.go\<close>): one synchronisation
    against an IMAP server that is a parameter; \<open>MailWindowFacts\<close> shows that no message is skipped while
    other clients expunge and mail arrives, \<open>MailWindowStable\<close> that a quiet mailbox gives the first
    messages after the cursor, \<open>MailFetchFacts\<close> and \<open>MailFetchProps\<close> that the result meets the store's
    contract. \<open>Otp\<close> (\<open>otp.go\<close>): one-time codes.
  \<^item> \<open>Secure\<close>, \<open>SecureBundle\<close>, \<open>SecureKeys\<close>, \<open>AdminPath\<close> (\<open>internal/secure\<close>): tokens, direct links, encrypted
    bundles, and the two key files as interleaved steps of processes that start at the same time.
  \<^item> \<open>Admins\<close>, \<open>AuditLog\<close>, \<open>AppLog\<close> with \<open>LogRing\<close>, \<open>LogText\<close>, \<open>LogPages\<close>, \<open>RateLimit\<close>, \<open>AppleErrors\<close>:
    administrators, the two logs (the ring against the interface \<open>bounded_log\<close>), the request limiter and
    the classification of Apple's errors.

  \<^bold>\<open>Conventions.\<close> A transaction is atomic: it either commits or leaves the tables as they were; where the
  code handles a failing commit or write, a flag or an input says when it fails. An operation reads the
  clock once and takes the instant as an argument. Random draws, digests of passwords and fresh
  identifiers are inputs. JSON columns hold the value and not its text where no operation reads the text
  (the planned instants of a schedule, the items of a job). Rune-wise functions of Go follow its tables
  where the code can see a difference; SQLite's \<open>NOCASE\<close> and \<open>LOWER\<close> fold ASCII letters only. The files
  of the quarantine are beside the archive's file system, and a step of the store leaves their contents
  open. Identifiers are integers, and the counters that could overflow are kept within 64 bits by
  explicit wrap-around.

  \<^bold>\<open>Parameters.\<close> Code outside \<open>src/\<close> is an argument of the definitions that use it, with its documented
  behaviour as a named hypothesis where a property needs it: the AEAD and \<open>json.Unmarshal\<close> of the
  bundles, the address parser of \<open>net/mail\<close>, \<open>html.UnescapeString\<close> and the HTML tokenizer, the Unicode
  normal form of group names, the file operations, the IMAP client library with the server behind it, and
  the MIME parser.

  \<^bold>\<open>Bounds and termination.\<close> Loops are structural recursion, or recursion with a measure
  (trimming, decoding, the search by sequence numbers). The eviction of the archive has one unit of fuel
  for every available row, which is proved to be enough; the migration of credentials is a
  \<open>partial_function\<close>, which is proved to return on every well-formed state. Runs are sequences of steps of any length. The constants of
  the source are used as they are (200 deletions in an hour and five seconds, 1000 enabled aliases, 1024 messages of a recent window, 32 to
  256 messages of one batch).

  \<^bold>\<open>Not modelled.\<close> Process start, configuration, HTTP routing and JSON rendering are glue around the
  modelled operations. The Apple web client (HTTP exchanges, SRP, cookies) and the services that
  orchestrate it depend on a remote protocol that the repository does not hold. The workers that call the
  fetcher and the store (\<open>internal/syncer\<close>, \<open>internal/autocreate\<close>) are goroutines and timers; what they may
  interleave is covered by the step relations. The public IMAP service is a set of callbacks of a
  third-party server library. Schema creation and the copy of old databases are DDL. Deletion
  attempts are modelled one at a time and without the opt-in waits of a batch (\<open>DeleteAliases\<close>): the
  goroutines per account, progress reports and the recovery of throttles are left out. Elsewhere than in
  attempts the cancellation of a context is left out, and so is the removal of temporary files.
\<close>

end
